(* ===== verification/Prelude.thy ===== *)
theory Prelude
  imports Main "HOL-Library.Char_ord" "HOL-Library.List_Lexorder" "HOL-Library.Sublist"
    "HOL-Library.Word"
begin

text \<open>
  What every component shares.  Go errors are values of one datatype, with \<open>errors_is\<close> for
  \<open>errors.Is\<close>.  Code that threads the database or the bridge state through fallible calls is
  written in the monad \<open>('s, 'a) tx\<close>: a function from the state to either an error or a
  result with the next state.  \<open>upholds R m\<close> says that every successful run of \<open>m\<close> relates
  the state before it to the state after it by \<open>R\<close>; the locale \<open>tx_relation\<close> lifts that contract
  through the monad for any preorder \<open>R\<close>, and the components interpret it on their frame,
  monotonicity and invariant relations.
\<close>

section \<open>Machine types, time, errors\<close>

type_synonym u64 = "64 word"
type_synonym i64 = "64 word"  \<comment> \<open>read with \<open>sint\<close>\<close>
type_synonym u32 = "32 word"

lemma unat_inc: "n \<noteq> - 1 \<Longrightarrow> unat (n + 1) = Suc (unat (n :: u64))"
  by (metis Suc_eq_plus1 add.commute add_eq_0_iff unatSuc)

lemma less_inc: "n \<noteq> - 1 \<Longrightarrow> n < n + (1 :: u64)"
  by (simp add: word_less_nat_alt unat_inc)

text \<open>
  A \<open>time.Time\<close> is the number of nanoseconds since Go's zero time, so the zero value of the
  type is \<open>0\<close> and \<open>Before\<close>, \<open>After\<close>, \<open>Equal\<close> and \<open>Sub\<close> are \<open><\<close>, \<open>>\<close>, \<open>=\<close> and \<open>-\<close>.
\<close>

type_synonym time = int

definition second :: time where "second = 1000000000"
definition minute :: time where "minute = 60 * second"

datatype go_error =
    ErrConflict | ErrNotFound
  | ErrInvalid | ErrNoAddress | ErrStorage | ErrPairing | ErrPairingTicket
  | ErrRejected | ErrRecipientUnavailable | ErrUnavailable | ErrUnsupportedCursor | ErrAmbiguous
  | ErrTooLarge | ErrInvalidCursor | ErrInvalidFolder
  | ErrCanceled | ErrDeadline
  | ErrDecrypt | ErrJson | ErrBolt | ErrPanic
  | ErrText string
  | ErrStored go_error   \<comment> \<open>\<open>*storageError\<close> of \<open>internal/whatsapp\<close>\<close>
  | ErrJoined "go_error list"   \<comment> \<open>\<open>errors.Join\<close>\<close>

text \<open>
  \<open>errors.Is\<close>: the two sentinels built with \<open>%w\<close>, the wrapper of storage errors and joined errors also
  match the errors they wrap.
\<close>

fun errors_is :: "go_error \<Rightarrow> go_error \<Rightarrow> bool" where
  "errors_is ErrRecipientUnavailable t = (t = ErrRecipientUnavailable \<or> t = ErrRejected)"
| "errors_is ErrNoAddress t = (t = ErrNoAddress \<or> t = ErrInvalid)"
| "errors_is (ErrStored e) t = (t = ErrStored e \<or> errors_is e t)"
| "errors_is (ErrJoined es) t = (t = ErrJoined es \<or> (\<exists>e \<in> set es. errors_is e t))"
| "errors_is e t = (e = t)"

lemma errors_is_refl [simp]: "errors_is e e"
  by (cases e) auto

section \<open>The transaction monad\<close>

type_synonym ('s, 'a) tx = "'s \<Rightarrow> go_error + ('a \<times> 's)"

named_theorems tx_defs \<open>definitions of the monad operations\<close>
named_theorems tx_elims \<open>what a successful run of an operation says\<close>

definition return_tx :: "'a \<Rightarrow> ('s, 'a) tx" where [tx_defs]:
  "return_tx x s = Inr (x, s)"

definition fail_tx :: "go_error \<Rightarrow> ('s, 'a) tx" where [tx_defs]:
  "fail_tx e s = Inl e"

definition bind_tx :: "('s, 'a) tx \<Rightarrow> ('a \<Rightarrow> ('s, 'b) tx) \<Rightarrow> ('s, 'b) tx" where [tx_defs]:
  "bind_tx m f s = (case m s of Inl e \<Rightarrow> Inl e | Inr (x, s') \<Rightarrow> f x s')"

definition then_tx :: "('s, 'a) tx \<Rightarrow> ('s, 'b) tx \<Rightarrow> ('s, 'b) tx" where [tx_defs]:
  "then_tx m n = bind_tx m (\<lambda>_. n)"

definition when_tx :: "bool \<Rightarrow> ('s, unit) tx \<Rightarrow> ('s, unit) tx" where [tx_defs]:
  "when_tx c m = (if c then m else return_tx ())"

definition read_tx :: "('s \<Rightarrow> 'a) \<Rightarrow> ('s, 'a) tx" where [tx_defs]:
  "read_tx f s = Inr (f s, s)"

definition modify_tx :: "('s \<Rightarrow> 's) \<Rightarrow> ('s, unit) tx" where [tx_defs]:
  "modify_tx f s = Inr ((), f s)"

definition lift_tx :: "go_error + 'a \<Rightarrow> ('s, 'a) tx" where [tx_defs]:
  "lift_tx r s = (case r of Inl e \<Rightarrow> Inl e | Inr x \<Rightarrow> Inr (x, s))"

text \<open>A call whose error the caller inspects instead of returning.\<close>

definition attempt_tx :: "('s, 'a) tx \<Rightarrow> ('s, go_error + 'a) tx" where [tx_defs]:
  "attempt_tx m s = (case m s of Inl e \<Rightarrow> Inr (Inl e, s) | Inr (x, s') \<Rightarrow> Inr (Inr x, s'))"

text \<open>A \<open>for range\<close> loop whose body may return an error, with the variables it assigns as \<open>acc\<close>.\<close>

primrec fold_tx :: "('a \<Rightarrow> 'b \<Rightarrow> ('s, 'b) tx) \<Rightarrow> 'a list \<Rightarrow> 'b \<Rightarrow> ('s, 'b) tx" where
  "fold_tx f [] acc = return_tx acc"
| "fold_tx f (x # xs) acc = bind_tx (f x acc) (fold_tx f xs)"

definition for_tx :: "('a \<Rightarrow> ('s, unit) tx) \<Rightarrow> 'a list \<Rightarrow> ('s, unit) tx" where
  "for_tx f xs = fold_tx (\<lambda>x _. f x) xs ()"

lemma for_tx_Nil [simp]: "for_tx f [] = return_tx ()"
  by (simp add: for_tx_def)

lemma for_tx_Cons [simp]: "for_tx f (x # xs) = then_tx (f x) (for_tx f xs)"
  by (auto simp: for_tx_def then_tx_def bind_tx_def fun_eq_iff split: sum.splits)

text \<open>\<open>db.Update\<close> commits a successful closure and rolls back a failed one; \<open>db.View\<close> only reads.\<close>

definition update_tx :: "('s, 'a) tx \<Rightarrow> 's \<Rightarrow> (go_error + 'a) \<times> 's" where
  "update_tx m s = (case m s of Inl e \<Rightarrow> (Inl e, s) | Inr (x, s') \<Rightarrow> (Inr x, s'))"

definition view_tx :: "('s, 'a) tx \<Rightarrow> 's \<Rightarrow> go_error + 'a" where
  "view_tx m s = (case m s of Inl e \<Rightarrow> Inl e | Inr (x, s') \<Rightarrow> Inr x)"

lemma return_tx_Inr [simp, tx_elims]: "return_tx x s = Inr (y, s') \<longleftrightarrow> y = x \<and> s' = s"
  by (auto simp: return_tx_def)

lemma fail_tx_Inr [simp, tx_elims]: "fail_tx e s \<noteq> Inr r"
  by (simp add: fail_tx_def)

lemma bind_tx_Inr [tx_elims]:
  "bind_tx m f s = Inr r \<longleftrightarrow> (\<exists>x s'. m s = Inr (x, s') \<and> f x s' = Inr r)"
  by (auto simp: bind_tx_def split: sum.splits)

lemma then_tx_Inr [tx_elims]:
  "then_tx m n s = Inr r \<longleftrightarrow> (\<exists>x s'. m s = Inr (x, s') \<and> n s' = Inr r)"
  by (simp add: then_tx_def bind_tx_Inr)

lemma when_tx_Inr [tx_elims]:
  "when_tx c m s = Inr (u, s') \<longleftrightarrow> (if c then m s = Inr (u, s') else s' = s)"
  by (auto simp: when_tx_def)

lemma read_tx_Inr [simp, tx_elims]: "read_tx f s = Inr (y, s') \<longleftrightarrow> y = f s \<and> s' = s"
  by (auto simp: read_tx_def)

lemma modify_tx_Inr [simp, tx_elims]: "modify_tx f s = Inr (y, s') \<longleftrightarrow> s' = f s"
  by (auto simp: modify_tx_def)

lemma lift_tx_Inr [simp, tx_elims]: "lift_tx r s = Inr (y, s') \<longleftrightarrow> r = Inr y \<and> s' = s"
  by (auto simp: lift_tx_def split: sum.splits)

lemma attempt_tx_Inr [tx_elims]:
  "attempt_tx m s = Inr (r, s') \<longleftrightarrow>
   (case r of Inl e \<Rightarrow> m s = Inl e \<and> s' = s | Inr x \<Rightarrow> m s = Inr (x, s'))"
  by (auto simp: attempt_tx_def split: sum.splits)

lemma bind_return_tx [simp]: "bind_tx (return_tx x) f = f x"
  by (simp add: fun_eq_iff bind_tx_def return_tx_def)

lemma bind_tx_assoc: "bind_tx (bind_tx m f) g = bind_tx m (\<lambda>x. bind_tx (f x) g)"
  by (auto simp: fun_eq_iff bind_tx_def split: sum.splits)

lemma update_tx_Inr: "update_tx m s = (Inr x, s') \<longleftrightarrow> m s = Inr (x, s')"
  by (auto simp: update_tx_def split: sum.splits)

lemma update_tx_Inl: "update_tx m s = (Inl e, s') \<longleftrightarrow> m s = Inl e \<and> s' = s"
  by (auto simp: update_tx_def split: sum.splits)

lemma update_tx_snd: "snd (update_tx m s) = (case m s of Inl e \<Rightarrow> s | Inr (x, s') \<Rightarrow> s')"
  by (auto simp: update_tx_def split: sum.splits)

text \<open>A loop that appends the elements it picks.\<close>

lemma fold_collect:
  "fold (\<lambda>x acc. if P x then acc @ [f x] else acc) xs acc = acc @ map f (filter P xs)"
  by (induction xs arbitrary: acc) auto

lemma fold_pick:
  "fold (\<lambda>x acc. if P x then acc @ [x] else acc) xs acc = acc @ filter P xs"
  by (induction xs arbitrary: acc) auto

section \<open>Relations that every step keeps\<close>

definition upholds :: "('s \<Rightarrow> 's \<Rightarrow> bool) \<Rightarrow> ('s, 'a) tx \<Rightarrow> bool" where
  "upholds R m \<longleftrightarrow> (\<forall>s x s'. m s = Inr (x, s') \<longrightarrow> R s s')"

lemma upholdsI [intro?]: "(\<And>s x s'. m s = Inr (x, s') \<Longrightarrow> R s s') \<Longrightarrow> upholds R m"
  by (auto simp: upholds_def)

lemma upholdsD: "upholds R m \<Longrightarrow> m s = Inr (x, s') \<Longrightarrow> R s s'"
  by (auto simp: upholds_def)

lemma upholds_mono: "upholds R m \<Longrightarrow> (\<And>s s'. R s s' \<Longrightarrow> Q s s') \<Longrightarrow> upholds Q m"
  by (auto simp: upholds_def)

lemma upholds_conj: "upholds R m \<Longrightarrow> upholds Q m \<Longrightarrow> upholds (\<lambda>s s'. R s s' \<and> Q s s') m"
  by (auto simp: upholds_def)

text \<open>An invariant is kept in the same sense: the relation \<open>keeps I\<close> is a preorder for every \<open>I\<close>.\<close>

definition keeps :: "('s \<Rightarrow> bool) \<Rightarrow> 's \<Rightarrow> 's \<Rightarrow> bool" where
  "keeps I s s' \<longleftrightarrow> (I s \<longrightarrow> I s')"

locale tx_relation =
  fixes R :: "'s \<Rightarrow> 's \<Rightarrow> bool"
  assumes R_refl: "R s s"
    and R_trans: "R s t \<Longrightarrow> R t u \<Longrightarrow> R s u"
begin

lemma return [intro, simp]: "upholds R (return_tx x)"
  by (rule upholdsI) (auto intro: R_refl)

lemma fail [intro, simp]: "upholds R (fail_tx e)"
  by (rule upholdsI) simp

lemma read [intro, simp]: "upholds R (read_tx f)"
  by (rule upholdsI) (auto intro: R_refl)

lemma lift [intro, simp]: "upholds R (lift_tx r)"
  by (rule upholdsI) (auto intro: R_refl)

lemma bind [intro]:
  assumes "upholds R m" and "\<And>x. upholds R (f x)"
  shows "upholds R (bind_tx m f)"
proof (rule upholdsI)
  fix s y s'
  assume "bind_tx m f s = Inr (y, s')"
  then obtain x t where "m s = Inr (x, t)" and "f x t = Inr (y, s')"
    by (auto simp: bind_tx_Inr)
  then show "R s s'"
    using assms by (blast intro: R_trans dest: upholdsD)
qed

lemma seq [intro]: "upholds R m \<Longrightarrow> upholds R n \<Longrightarrow> upholds R (then_tx m n)"
  by (simp add: then_tx_def bind)

lemma cond [intro]: "upholds R m \<Longrightarrow> upholds R (when_tx c m)"
  by (simp add: when_tx_def)

lemma ite [intro]: "upholds R m \<Longrightarrow> upholds R n \<Longrightarrow> upholds R (if c then m else n)"
  by simp

lemma fold [intro]: "(\<And>x acc. upholds R (f x acc)) \<Longrightarrow> upholds R (fold_tx f xs acc)"
  by (induction xs arbitrary: acc) auto

lemma for_loop [intro]: "(\<And>x. upholds R (f x)) \<Longrightarrow> upholds R (for_tx f xs)"
  by (simp add: for_tx_def fold)

lemma option [intro]:
  "upholds R m \<Longrightarrow> (\<And>x. upholds R (f x)) \<Longrightarrow> upholds R (case x of None \<Rightarrow> m | Some y \<Rightarrow> f y)"
  by (cases x) auto

lemma result [intro]:
  "(\<And>e. upholds R (f e)) \<Longrightarrow> (\<And>x. upholds R (g x)) \<Longrightarrow>
   upholds R (case r of Inl e \<Rightarrow> f e | Inr y \<Rightarrow> g y)"
  by (cases r) auto

lemma attempt [intro]: "upholds R m \<Longrightarrow> upholds R (attempt_tx m)"
  by (auto simp: upholds_def attempt_tx_Inr R_refl split: sum.splits)

lemma pairing [intro]: "(\<And>x y. upholds R (f x y)) \<Longrightarrow> upholds R (case p of (x, y) \<Rightarrow> f x y)"
  by (cases p) auto

lemma run_update: "upholds R m \<Longrightarrow> R s (snd (update_tx m s))"
  by (auto simp: update_tx_def split: sum.splits intro: R_refl dest: upholdsD)

lemmas rules = return fail read lift bind seq cond ite fold for_loop option result attempt pairing

end

section \<open>Sorting\<close>

text \<open>
  \<open>sort.SliceStable\<close> with a less function: insertion of each element after the ones that are
  not greater.  \<open>sort.Slice\<close> gives some permutation sorted by the same order; where the order is
  total on the elements the two agree.
\<close>

fun insert_by :: "('a \<Rightarrow> 'a \<Rightarrow> bool) \<Rightarrow> 'a \<Rightarrow> 'a list \<Rightarrow> 'a list" where
  "insert_by lt x [] = [x]"
| "insert_by lt x (y # ys) = (if lt y x then y # insert_by lt x ys else x # y # ys)"

definition sort_by :: "('a \<Rightarrow> 'a \<Rightarrow> bool) \<Rightarrow> 'a list \<Rightarrow> 'a list" where
  "sort_by lt xs = foldr (insert_by lt) xs []"

lemma sort_by_Nil [simp]: "sort_by lt [] = []"
  by (simp add: sort_by_def)

lemma sort_by_Cons [simp]: "sort_by lt (x # xs) = insert_by lt x (sort_by lt xs)"
  by (simp add: sort_by_def)

lemma set_insert_by [simp]: "set (insert_by lt x ys) = insert x (set ys)"
  by (induction ys) auto

lemma length_insert_by [simp]: "length (insert_by lt x ys) = Suc (length ys)"
  by (induction ys) auto

lemma set_sort_by [simp]: "set (sort_by lt xs) = set xs"
  by (induction xs) auto

lemma length_sort_by [simp]: "length (sort_by lt xs) = length xs"
  by (induction xs) auto

text \<open>What a less function must promise for the sort to be one.\<close>

locale strict_weak =
  fixes lt :: "'a \<Rightarrow> 'a \<Rightarrow> bool"
  assumes irrefl: "\<not> lt x x"
    and trans: "lt x y \<Longrightarrow> lt y z \<Longrightarrow> lt x z"
    and weak: "lt x z \<Longrightarrow> lt x y \<or> lt y z"
begin

lemma asym: "lt x y \<Longrightarrow> \<not> lt y x"
  using irrefl trans by blast

lemma not_less_trans: "\<not> lt y x \<Longrightarrow> \<not> lt z y \<Longrightarrow> \<not> lt z x"
  using weak by blast

lemma sorted_insert_by:
  "sorted_wrt (\<lambda>a b. \<not> lt b a) ys \<Longrightarrow> sorted_wrt (\<lambda>a b. \<not> lt b a) (insert_by lt x ys)"
  by (induction ys) (auto dest: asym, use weak in blast)

lemma sorted_sort_by: "sorted_wrt (\<lambda>a b. \<not> lt b a) (sort_by lt xs)"
  by (induction xs) (auto intro: sorted_insert_by)

lemma filter_insert_by:
  "(\<And>a b. P a \<Longrightarrow> P b \<Longrightarrow> \<not> lt a b) \<Longrightarrow>
   filter P (insert_by lt x ys) = (if P x then x # filter P ys else filter P ys)"
  by (induction ys) auto

text \<open>Elements that compare equal keep their order.\<close>

lemma stable_sort_by:
  "(\<And>a b. P a \<Longrightarrow> P b \<Longrightarrow> \<not> lt a b) \<Longrightarrow> filter P (sort_by lt xs) = filter P xs"
  by (induction xs) (auto simp: filter_insert_by)

end

end
