(* ===== verification/GoText.thy ===== *)
theory GoText
  imports Prelude
begin

text \<open>
  What the bridge uses of Go's string library.  A Go string is a list of bytes (\<open>string\<close>, one
  \<open>char\<close> per byte); \<open>len\<close> counts bytes.  \<open>chunks\<close> is the decoding loop of \<open>range s\<close> and
  \<open>[]rune(s)\<close>: every step yields one code point and the bytes it came from, and a byte that
  starts no valid sequence yields U+FFFD with width one.
\<close>

section \<open>UTF-8\<close>

definition cont :: "nat \<Rightarrow> bool" where
  "cont b \<longleftrightarrow> 128 \<le> b \<and> b < 192"

text \<open>The code point at the head of a byte list and the bytes it takes; \<open>None\<close> if invalid.\<close>

fun decode_rune :: "nat list \<Rightarrow> (nat \<times> nat) option" where
  "decode_rune [] = None"
| "decode_rune (b0 # bs) =
    (if b0 < 128 then Some (b0, 1)
     else if 194 \<le> b0 \<and> b0 < 224 then
       (case bs of b1 # _ \<Rightarrow>
          if cont b1 then Some ((b0 - 192) * 64 + (b1 - 128), 2) else None
        | _ \<Rightarrow> None)
     else if 224 \<le> b0 \<and> b0 < 240 then
       (case bs of b1 # b2 # _ \<Rightarrow>
          if cont b1 \<and> cont b2 \<and> (b0 = 224 \<longrightarrow> 160 \<le> b1) \<and> (b0 = 237 \<longrightarrow> b1 < 160)
          then Some ((b0 - 224) * 4096 + (b1 - 128) * 64 + (b2 - 128), 3) else None
        | _ \<Rightarrow> None)
     else if 240 \<le> b0 \<and> b0 < 245 then
       (case bs of b1 # b2 # b3 # _ \<Rightarrow>
          if cont b1 \<and> cont b2 \<and> cont b3 \<and> (b0 = 240 \<longrightarrow> 144 \<le> b1) \<and> (b0 = 244 \<longrightarrow> b1 < 144)
          then Some ((b0 - 240) * 262144 + (b1 - 128) * 4096 + (b2 - 128) * 64 + (b3 - 128), 4)
          else None
        | _ \<Rightarrow> None)
     else None)"

definition bytes_of :: "string \<Rightarrow> nat list" where
  "bytes_of s = map of_char s"

definition rune_error :: nat where "rune_error = 65533"

definition rune_width :: "string \<Rightarrow> nat" where
  "rune_width s = (case decode_rune (bytes_of s) of None \<Rightarrow> 1 | Some (r, w) \<Rightarrow> w)"

definition first_rune :: "string \<Rightarrow> nat" where
  "first_rune s = (case decode_rune (bytes_of s) of None \<Rightarrow> rune_error | Some (r, w) \<Rightarrow> r)"

fun chunks :: "string \<Rightarrow> (nat \<times> string) list" where
  "chunks [] = []"
| "chunks (c # s) =
     (first_rune (c # s), c # take (rune_width (c # s) - 1) s)
       # chunks (drop (rune_width (c # s) - 1) s)"

definition runes :: "string \<Rightarrow> nat list" where
  "runes s = map fst (chunks s)"

fun valid_string :: "string \<Rightarrow> bool" where
  "valid_string [] = True"
| "valid_string (c # s) =
     (decode_rune (bytes_of (c # s)) \<noteq> None \<and> valid_string (drop (rune_width (c # s) - 1) s))"

text \<open>\<open>string(runes)\<close>: a rune that is no Unicode scalar value is written as U+FFFD.\<close>

definition scalar :: "nat \<Rightarrow> bool" where
  "scalar r \<longleftrightarrow> r < 1114112 \<and> \<not> (55296 \<le> r \<and> r < 57344)"

definition encode_scalar :: "nat \<Rightarrow> nat list" where
  "encode_scalar r =
    (if r < 128 then [r]
     else if r < 2048 then [192 + r div 64, 128 + r mod 64]
     else if r < 65536 then [224 + r div 4096, 128 + r div 64 mod 64, 128 + r mod 64]
     else [240 + r div 262144, 128 + r div 4096 mod 64, 128 + r div 64 mod 64, 128 + r mod 64])"

definition encode_rune :: "nat \<Rightarrow> string" where
  "encode_rune r = map char_of (encode_scalar (if scalar r then r else rune_error))"

definition string_of_runes :: "nat list \<Rightarrow> string" where
  "string_of_runes rs = concat (map encode_rune rs)"

lemma concat_chunks [simp]: "concat (map snd (chunks s)) = s"
  by (induction s rule: chunks.induct) auto

lemma length_chunks: "length (chunks s) \<le> length s"
  by (induction s rule: chunks.induct) auto

lemma length_runes: "length (runes s) \<le> length s"
  by (simp add: runes_def length_chunks)

section \<open>White space, splitting and trimming\<close>

definition is_space :: "nat \<Rightarrow> bool" where
  "is_space r \<longleftrightarrow> (9 \<le> r \<and> r \<le> 13) \<or> r = 32 \<or> r = 133 \<or> r = 160 \<or> r = 5760 \<or>
     (8192 \<le> r \<and> r \<le> 8202) \<or> r = 8232 \<or> r = 8233 \<or> r = 8239 \<or> r = 8287 \<or> r = 12288"

text \<open>\<open>strings.Fields\<close>: the maximal runs of non-space, \<open>acc\<close> being the run being read.\<close>

fun fields_loop :: "(nat \<times> string) list \<Rightarrow> string \<Rightarrow> string list" where
  "fields_loop [] acc = (if acc = [] then [] else [acc])"
| "fields_loop ((r, bs) # cs) acc =
     (if is_space r then (if acc = [] then fields_loop cs [] else acc # fields_loop cs [])
      else fields_loop cs (acc @ bs))"

definition str_fields :: "string \<Rightarrow> string list" where
  "str_fields s = fields_loop (chunks s) []"

fun join :: "string \<Rightarrow> string list \<Rightarrow> string" where
  "join sep [] = []"
| "join sep [x] = x"
| "join sep (x # xs) = x @ sep @ join sep xs"

definition trim_space :: "string \<Rightarrow> string" where
  "trim_space s = concat (map snd
     (rev (dropWhile (\<lambda>c. is_space (fst c)) (rev (dropWhile (\<lambda>c. is_space (fst c)) (chunks s))))))"

definition trim_right :: "char \<Rightarrow> string \<Rightarrow> string" where
  "trim_right ch s = rev (dropWhile (\<lambda>c. c = ch) (rev s))"

text \<open>\<open>strings.Cut(s, sep)\<close> for a one-byte separator: what precedes its first occurrence.\<close>

definition before_byte :: "char \<Rightarrow> string \<Rightarrow> string" where
  "before_byte ch s = takeWhile (\<lambda>c. c \<noteq> ch) s"

text \<open>\<open>strings.Split\<close> at a one-byte separator.\<close>

definition split_on :: "char \<Rightarrow> string \<Rightarrow> string list" where
  "split_on x s = foldr (\<lambda>c acc. if c = x then [] # acc else (c # hd acc) # tl acc) s [[]]"

definition contains_str :: "string \<Rightarrow> string \<Rightarrow> bool" where
  "contains_str s sub \<longleftrightarrow> sublist sub s"

definition contains_any :: "string \<Rightarrow> string \<Rightarrow> bool" where
  "contains_any s cs \<longleftrightarrow> list_ex (\<lambda>c. c \<in> set cs) s"

lemma fields_loop_nonempty: "x \<in> set (fields_loop cs acc) \<Longrightarrow> x \<noteq> []"
  by (induction cs acc rule: fields_loop.induct) (auto split: if_splits)

lemma str_fields_nonempty: "x \<in> set (str_fields s) \<Longrightarrow> x \<noteq> []"
  by (simp add: str_fields_def fields_loop_nonempty)

lemma join_eq_Nil: "(\<And>x. x \<in> set xs \<Longrightarrow> x \<noteq> []) \<Longrightarrow> join sep xs = [] \<longleftrightarrow> xs = []"
  by (induction sep xs rule: join.induct) auto

lemma chunks_nonempty: "c \<in> set (chunks s) \<Longrightarrow> snd c \<noteq> []"
  by (induction s rule: chunks.induct) auto

lemma fields_loop_eq_Nil:
  "\<forall>c \<in> set cs. snd c \<noteq> [] \<Longrightarrow>
   fields_loop cs acc = [] \<longleftrightarrow> acc = [] \<and> (\<forall>c \<in> set cs. is_space (fst c))"
  by (induction cs acc rule: fields_loop.induct) auto

lemma str_fields_eq_Nil: "str_fields s = [] \<longleftrightarrow> (\<forall>r \<in> set (runes s). is_space r)"
  by (simp add: str_fields_def fields_loop_eq_Nil chunks_nonempty runes_def)

lemma concat_snd_eq_Nil:
  "\<forall>c \<in> set cs. snd c \<noteq> [] \<Longrightarrow> concat (map snd cs) = [] \<longleftrightarrow> cs = []"
  by (cases cs) auto

lemma dropWhile_all_iff: "(\<forall>x \<in> set (dropWhile P xs). P x) \<longleftrightarrow> (\<forall>x \<in> set xs. P x)"
  by (induction xs) auto

lemma trim_space_eq_Nil: "trim_space s = [] \<longleftrightarrow> (\<forall>r \<in> set (runes s). is_space r)"
proof -
  let ?sp = "\<lambda>c. is_space (fst c)"
  let ?cs = "rev (dropWhile ?sp (rev (dropWhile ?sp (chunks s))))"
  have "c \<in> set (chunks s)" if "c \<in> set ?cs" for c
    using that by (metis set_dropWhileD set_rev)
  then have "\<forall>c \<in> set ?cs. snd c \<noteq> []"
    using chunks_nonempty by blast
  then have "trim_space s = [] \<longleftrightarrow> ?cs = []"
    unfolding trim_space_def by (rule concat_snd_eq_Nil)
  also have "\<dots> \<longleftrightarrow> (\<forall>c \<in> set (dropWhile ?sp (chunks s)). ?sp c)"
    by simp
  also have "\<dots> \<longleftrightarrow> (\<forall>c \<in> set (chunks s). ?sp c)"
    by (rule dropWhile_all_iff)
  finally show ?thesis by (simp add: runes_def)
qed

section \<open>The encoding round trip\<close>

lemma split_base64: "(r::nat) = r div 64 * 64 + r mod 64"
  by simp

lemma decode_encode_scalar:
  assumes "scalar r"
  shows "decode_rune (encode_scalar r @ bs) = Some (r, length (encode_scalar r))"
proof -
  define c3 where "c3 = r mod 64"
  define c2 where "c2 = r div 64 mod 64"
  define c1 where "c1 = r div 4096 mod 64"
  define c0 where "c0 = r div 262144"
  have q: "r div 64 div 64 = r div 4096" "r div 4096 div 64 = r div 262144"
    by (simp_all add: div_mult2_eq [symmetric])
  have r1: "r = r div 64 * 64 + c3"
    unfolding c3_def by (rule split_base64)
  have r2: "r div 64 = r div 4096 * 64 + c2"
    unfolding c2_def by (metis q(1) split_base64)
  have r3: "r div 4096 = c0 * 64 + c1"
    unfolding c0_def c1_def by (metis q(2) split_base64)
  have lt: "c3 < 64" "c2 < 64" "c1 < 64"
    unfolding c3_def c2_def c1_def by simp_all
  have bound: "r < 1114112" and surr: "\<not> (55296 \<le> r \<and> r < 57344)"
    using assms by (simp_all add: scalar_def)
  consider "r < 128" | "128 \<le> r" "r < 2048" | "2048 \<le> r" "r < 65536" | "65536 \<le> r"
    by linarith
  then show ?thesis
  proof cases
    case 1
    then show ?thesis by (simp add: encode_scalar_def)
  next
    case 2
    then have "2 \<le> r div 64" "r div 64 < 32"
      using r1 lt by linarith+
    then show ?thesis
      using 2 r1 lt by (simp add: encode_scalar_def cont_def flip: c3_def)
  next
    case 3
    then have "r div 4096 < 16" "r div 4096 = 0 \<longrightarrow> 32 \<le> c2" "r div 4096 = 13 \<longrightarrow> c2 < 32"
      using r1 r2 lt surr by linarith+
    then show ?thesis
      using 3 r1 r2 lt by (simp add: encode_scalar_def cont_def flip: c3_def c2_def)
  next
    case 4
    then have b: "c0 < 5" "c0 = 0 \<longrightarrow> 16 \<le> c1" "c0 = 4 \<longrightarrow> c1 < 16"
      using r1 r2 r3 lt bound by linarith+
    have enc: "encode_scalar r = [240 + c0, 128 + c1, 128 + c2, 128 + c3]"
      using 4 by (simp add: encode_scalar_def c0_def c1_def c2_def c3_def)
    have "c0 * 262144 + (c1 * 4096 + (c2 * 64 + c3)) = r"
      using r1 r2 r3 by linarith
    then show ?thesis
      unfolding enc using lt b
      by (simp add: cont_def)
  qed
qed

lemma encode_scalar_bytes: "scalar r \<Longrightarrow> b \<in> set (encode_scalar r) \<Longrightarrow> b < 256"
  by (auto simp: encode_scalar_def scalar_def split: if_splits)

lemma encode_scalar_nonempty [simp]: "encode_scalar r \<noteq> []"
  by (simp add: encode_scalar_def)

definition clean_rune :: "nat \<Rightarrow> nat" where
  "clean_rune r = (if scalar r then r else rune_error)"

lemma scalar_clean [simp]: "scalar (clean_rune r)"
  by (simp add: clean_rune_def scalar_def rune_error_def)

lemma encode_rune_clean: "encode_rune r = map char_of (encode_scalar (clean_rune r))"
  by (simp add: encode_rune_def clean_rune_def)

lemma bytes_of_encode: "bytes_of (encode_rune r) = encode_scalar (clean_rune r)"
  using encode_scalar_bytes [OF scalar_clean]
  by (auto simp: bytes_of_def encode_rune_clean intro!: map_idI)

lemma decode_encode_rune:
  "decode_rune (bytes_of (encode_rune r @ s)) = Some (clean_rune r, length (encode_rune r))"
proof -
  have "bytes_of (encode_rune r @ s) = encode_scalar (clean_rune r) @ bytes_of s"
    by (simp add: bytes_of_encode [unfolded bytes_of_def] bytes_of_def)
  then show ?thesis
    by (simp add: decode_encode_scalar) (simp add: encode_rune_clean)
qed

lemma chunks_encode_rune:
  "chunks (encode_rune r @ s) = (clean_rune r, encode_rune r) # chunks s"
proof -
  obtain c t where e: "encode_rune r = c # t"
    by (cases "encode_rune r") (auto simp: encode_rune_clean)
  have d: "decode_rune (bytes_of (c # t @ s)) = Some (clean_rune r, Suc (length t))"
    using decode_encode_rune [of r s] by (simp add: e)
  show ?thesis
    by (simp add: e first_rune_def rune_width_def d del: decode_rune.simps)
qed

theorem chunks_string_of_runes:
  "chunks (string_of_runes rs) = map (\<lambda>r. (clean_rune r, encode_rune r)) rs"
  by (induction rs) (simp_all add: string_of_runes_def chunks_encode_rune)

lemma runes_string_of_runes: "runes (string_of_runes rs) = map clean_rune rs"
  by (simp add: runes_def chunks_string_of_runes comp_def)

lemma surrogate_gap:
  assumes "(y::nat) < 2048" "55296 \<le> n * 4096 + y" "n * 4096 + y < 57344"
  shows False
proof (cases "n \<le> 13")
  case True
  then show False using assms by linarith
next
  case False
  then show False using assms by linarith
qed

lemma scalar_decode:
  assumes "decode_rune bs = Some (r, w)"
  shows "scalar r \<and> w \<le> length bs \<and> 0 < w"
proof -
  have "\<not> scalar r \<Longrightarrow> False"
    using assms
    apply (cases bs)
     apply (simp_all add: scalar_def cont_def split: if_splits list.splits)
        apply linarith+
    subgoal for a _ x _ y
      using surrogate_gap [of "(x - 128) * 64 + (y - 128)" "a - 224"] by linarith
    subgoal for a _ x _ y
      using surrogate_gap [of "(x - 128) * 64 + (y - 128)" "a - 224"] by linarith
    done
  moreover have "w \<le> length bs \<and> 0 < w"
    using assms by (cases bs) (auto split: if_splits list.splits)
  ultimately show ?thesis by blast
qed

lemma scalar_runes: "r \<in> set (runes s) \<Longrightarrow> scalar r"
proof -
  have "scalar (first_rune s)" for s
    by (auto simp: first_rune_def scalar_def rune_error_def split: option.splits
        dest!: scalar_decode)
  then have "\<forall>c \<in> set (chunks s). scalar (fst c)"
    by (induction s rule: chunks.induct) auto
  then show "r \<in> set (runes s) \<Longrightarrow> scalar r"
    by (auto simp: runes_def)
qed

section \<open>Trimming twice\<close>

lemma decode_rune_take:
  "decode_rune bs = Some (r, w) \<Longrightarrow> decode_rune (take w bs @ x) = Some (r, w)"
  by (cases bs rule: decode_rune.cases) (auto split: if_splits list.splits)

lemma decode_rune_short: "decode_rune bs = None \<Longrightarrow> decode_rune (take m bs) = None"
  by (cases bs rule: decode_rune.cases; cases m rule: nat.exhaust)
    (auto simp: take_Cons split: if_splits list.splits nat.splits)

lemma decode_rune_width: "decode_rune bs = Some (r, w) \<Longrightarrow> 1 \<le> w \<and> w \<le> length bs"
  by (cases bs rule: decode_rune.cases) (auto split: if_splits list.splits)

lemma rune_width_le: "rune_width (c # s) \<le> Suc (length s)"
  using decode_rune_width [of "bytes_of (c # s)"]
  by (auto simp: rune_width_def bytes_of_def split: option.split)

lemma chunks_drop: "chunks (concat (map snd (drop n (chunks s)))) = drop n (chunks s)"
proof (induction s arbitrary: n rule: chunks.induct)
  case (2 c s)
  then show ?case by (cases n) simp_all
qed simp

lemma chunks_take: "chunks (concat (map snd (take n (chunks s)))) = take n (chunks s)"
proof (induction s arbitrary: n rule: chunks.induct)
  case (2 c s)
  show ?case
  proof (cases n)
    case (Suc m)
    define t where "t = concat (map snd (take m (chunks (drop (rune_width (c # s) - 1) s))))"
    have "prefix t (drop (rune_width (c # s) - 1) s)"
      unfolding t_def
      by (metis append_take_drop_id concat_append concat_chunks map_append prefixI)
    then obtain u where u: "drop (rune_width (c # s) - 1) s = t @ u" by (auto elim: prefixE)
    define hd' where "hd' = c # take (rune_width (c # s) - 1) s"
    have whole: "c # s = hd' @ t @ u"
      using u by (simp add: hd'_def) (metis append_take_drop_id)
    have "decode_rune (bytes_of (hd' @ t)) = decode_rune (bytes_of (c # s))"
    proof (cases "decode_rune (bytes_of (c # s))")
      case None
      then have "decode_rune (take (length (hd' @ t)) (bytes_of (c # s))) = None"
        by (rule decode_rune_short)
      then show ?thesis using None by (simp add: whole bytes_of_def)
    next
      case (Some rw)
      obtain r w where rw: "rw = (r, w)" by (cases rw)
      note w = decode_rune_width [OF Some [unfolded rw]]
      then have "take w (bytes_of (c # s)) = bytes_of hd'"
        using Some rw by (cases w) (simp_all add: hd'_def rune_width_def bytes_of_def take_map)
      then show ?thesis
        using decode_rune_take [OF Some [unfolded rw], of "bytes_of t"] Some rw
        by (simp add: bytes_of_def)
    qed
    then have same: "rune_width (hd' @ t) = rune_width (c # s)" "first_rune (hd' @ t) = first_rune (c # s)"
      by (simp_all add: rune_width_def first_rune_def)
    have "length (take (rune_width (c # s) - 1) s) = rune_width (c # s) - 1"
      using rune_width_le [of c s] by simp
    then have "chunks (hd' @ t) = (first_rune (c # s), hd') # chunks t"
      using same by (simp add: hd'_def)
    moreover have "chunks t = take m (chunks (drop (rune_width (c # s) - 1) s))"
      unfolding t_def by (rule 2)
    moreover have "take n (chunks (c # s)) =
        (first_rune (c # s), hd') # take m (chunks (drop (rune_width (c # s) - 1) s))"
      by (simp only: Suc chunks.simps take_Suc_Cons hd'_def)
    ultimately show ?thesis
      unfolding t_def by simp
  qed simp
qed simp

lemma dropWhile_idem: "dropWhile P (dropWhile P xs) = dropWhile P xs"
  by (induction xs) simp_all

lemma trim_space_idem [simp]: "trim_space (trim_space s) = trim_space s"
proof -
  let ?P = "\<lambda>c :: nat \<times> string. is_space (fst c)"
  define inner where "inner = dropWhile ?P (chunks s)"
  define kept where "kept = rev (dropWhile ?P (rev inner))"
  obtain n where n: "inner = drop n (chunks s)"
    unfolding inner_def by (metis dropWhile_eq_drop)
  obtain m where m: "kept = take m inner"
    unfolding kept_def by (metis dropWhile_eq_drop rev_drop rev_rev_ident)
  have "chunks (concat (map snd inner)) = inner" by (simp add: n chunks_drop)
  then have c: "chunks (trim_space s) = kept"
    using chunks_take [of m "concat (map snd inner)"]
    by (simp add: trim_space_def m flip: inner_def kept_def)
  have "dropWhile ?P kept = kept"
  proof (cases kept)
    case (Cons x xs)
    then have "inner \<noteq> [] \<and> hd inner = x" using m by (cases inner; cases m) auto
    then have "\<not> ?P x" using hd_dropWhile [of ?P "chunks s"] by (auto simp: inner_def)
    then show ?thesis by (simp add: Cons)
  qed simp
  moreover have "rev (dropWhile ?P (rev kept)) = kept"
    by (simp add: kept_def dropWhile_idem)
  ultimately show ?thesis
    unfolding trim_space_def [of "trim_space s"] c by (simp add: trim_space_def flip: inner_def kept_def)
qed

end
