(* ===== verification/Json.thy ===== *)
theory Json
  imports GoText
begin

text \<open>
  JSON documents as trees, and the two directions of \<open>encoding/json\<close> the bridge uses.  An object
  keeps the order of its members, so two trees are equal exactly when their compacted texts are.
  A timestamp is a string literal in RFC 3339 form and has its own constructor.  \<open>payload\<close> is a
  byte slice: the text of a JSON document, or bytes that are no JSON document.

  Decoding follows \<open>json.Unmarshal\<close>: the members are read in order into the struct, unknown ones
  are skipped, absent ones leave the field as it is, \<open>null\<close> leaves a scalar as it is and empties
  a slice, and a value of the wrong kind or out of the field's range is an error.  The locale
  \<open>json_codec\<close> is the contract a record's pair of functions is proved to meet.
\<close>

section \<open>Documents\<close>

datatype json =
    JNull
  | JBool bool
  | JNum int
  | JStr string
  | JTime time
  | JArr "json list"
  | JObj "(string \<times> json) list"

datatype payload = JText json | Opaque string

fun json_valid :: "payload \<Rightarrow> bool" where
  "json_valid (JText j) = True"
| "json_valid (Opaque b) = False"

text \<open>\<open>json.Unmarshal\<close> on a byte slice: decode the document, or fail when there is none.\<close>

fun unmarshal :: "(json \<Rightarrow> 'a option) \<Rightarrow> payload \<Rightarrow> go_error + 'a" where
  "unmarshal dec (JText j) = (case dec j of None \<Rightarrow> Inl ErrJson | Some x \<Rightarrow> Inr x)"
| "unmarshal dec (Opaque b) = Inl ErrJson"

section \<open>Decoding structs\<close>

fun decode_fields :: "(string \<Rightarrow> json \<Rightarrow> 'r \<Rightarrow> 'r option) \<Rightarrow> 'r \<Rightarrow> (string \<times> json) list \<Rightarrow> 'r option" where
  "decode_fields set_field r [] = Some r"
| "decode_fields set_field r ((k, v) # kvs) =
     (case set_field k v r of None \<Rightarrow> None | Some r' \<Rightarrow> decode_fields set_field r' kvs)"

fun decode_struct :: "(string \<Rightarrow> json \<Rightarrow> 'r \<Rightarrow> 'r option) \<Rightarrow> 'r \<Rightarrow> json \<Rightarrow> 'r option" where
  "decode_struct set_field r (JObj kvs) = decode_fields set_field r kvs"
| "decode_struct set_field r JNull = Some r"
| "decode_struct set_field r _ = None"

fun as_str :: "json \<Rightarrow> string \<Rightarrow> string option" where
  "as_str (JStr s) old = Some s"
| "as_str JNull old = Some old"
| "as_str _ old = None"

fun as_bool :: "json \<Rightarrow> bool \<Rightarrow> bool option" where
  "as_bool (JBool b) old = Some b"
| "as_bool JNull old = Some old"
| "as_bool _ old = None"

fun as_time :: "json \<Rightarrow> time \<Rightarrow> time option" where
  "as_time (JTime t) old = Some t"
| "as_time JNull old = Some old"
| "as_time _ old = None"

fun as_unsigned :: "json \<Rightarrow> 'w::len word \<Rightarrow> 'w word option" where
  "as_unsigned (JNum n) old =
     (if 0 \<le> n \<and> n < 2 ^ LENGTH('w) then Some (word_of_int n :: 'w word) else None)"
| "as_unsigned JNull old = Some old"
| "as_unsigned _ old = None"

fun as_i64 :: "json \<Rightarrow> i64 \<Rightarrow> i64 option" where
  "as_i64 (JNum n) old = (if - (2 ^ 63) \<le> n \<and> n < 2 ^ 63 then Some (word_of_int n) else None)"
| "as_i64 JNull old = Some old"
| "as_i64 _ old = None"

fun decode_all :: "(json \<Rightarrow> 'a option) \<Rightarrow> json list \<Rightarrow> 'a list option" where
  "decode_all dec [] = Some []"
| "decode_all dec (j # js) =
     (case dec j of None \<Rightarrow> None | Some x \<Rightarrow> map_option ((#) x) (decode_all dec js))"

fun as_list :: "(json \<Rightarrow> 'a option) \<Rightarrow> json \<Rightarrow> 'a list option" where
  "as_list dec (JArr js) = decode_all dec js"
| "as_list dec JNull = Some []"
| "as_list dec _ = None"

definition elem_str :: "json \<Rightarrow> string option" where
  "elem_str j = as_str j []"

section \<open>Encoding structs\<close>

definition jstr :: "string \<Rightarrow> string \<Rightarrow> (string \<times> json) list" where
  "jstr k s = [(k, JStr s)]"
definition jbool :: "string \<Rightarrow> bool \<Rightarrow> (string \<times> json) list" where
  "jbool k b = [(k, JBool b)]"
definition jtime :: "string \<Rightarrow> time \<Rightarrow> (string \<times> json) list" where
  "jtime k t = [(k, JTime t)]"
definition jint :: "string \<Rightarrow> i64 \<Rightarrow> (string \<times> json) list" where
  "jint k w = [(k, JNum (sint w))]"
definition juint :: "string \<Rightarrow> 'w::len word \<Rightarrow> (string \<times> json) list" where
  "juint k w = [(k, JNum (uint w))]"
definition jlist :: "string \<Rightarrow> ('a \<Rightarrow> json) \<Rightarrow> 'a list \<Rightarrow> (string \<times> json) list" where
  "jlist k enc xs = [(k, JArr (map enc xs))]"

text \<open>\<open>omitempty\<close> and \<open>omitzero\<close>: the member is left out when the field has its zero value.\<close>

definition omit :: "bool \<Rightarrow> (string \<times> json) list \<Rightarrow> (string \<times> json) list" where
  "omit zero m = (if zero then [] else m)"

lemmas json_members = jstr_def jbool_def jtime_def jint_def juint_def jlist_def

lemma decode_fields_append:
  "decode_fields f r (xs @ ys) =
   (case decode_fields f r xs of None \<Rightarrow> None | Some r' \<Rightarrow> decode_fields f r' ys)"
  by (induction f r xs rule: decode_fields.induct) (auto split: option.splits)

text \<open>An omitted member decodes like the member itself, since the field still has its zero.\<close>

lemma decode_omit:
  assumes "z \<Longrightarrow> f k v r = Some r"
  shows "decode_fields f r (omit z [(k, v)] @ ys) =
         (case f k v r of None \<Rightarrow> None | Some r' \<Rightarrow> decode_fields f r' ys)"
  using assms by (simp add: omit_def)

lemma decode_omit_last:
  assumes "z \<Longrightarrow> f k v r = Some r"
  shows "decode_fields f r (omit z [(k, v)]) = f k v r"
  using assms by (simp add: omit_def split: option.splits)

lemma as_i64_jint [simp]: "as_i64 (JNum (sint w)) old = Some (w :: i64)"
  using sint_ge [of w] sint_lt [of w] by simp

lemma as_unsigned_juint [simp]: "as_unsigned (JNum (uint w)) old = Some (w :: 'w::len word)"
  by simp

lemma word_ranges [simp]:
  "- 9223372036854775808 \<le> sint (w :: 64 word)" "sint (w :: 64 word) < 9223372036854775808"
  "uint (w :: 64 word) < 18446744073709551616" "uint (v :: 32 word) < 4294967296"
  using sint_ge [of w] sint_lt [of w] unsigned_less [of w, where 'a = int]
    unsigned_less [of v, where 'a = int] by simp_all

lemma decode_all_map:
  "(\<And>x. x \<in> set xs \<Longrightarrow> dec (enc x) = Some x) \<Longrightarrow> decode_all dec (map enc xs) = Some xs"
  by (induction xs) auto

lemma elem_str_JStr [simp]: "elem_str (JStr s) = Some s"
  by (simp add: elem_str_def)

section \<open>The codec contract\<close>

locale json_codec =
  fixes enc :: "'a \<Rightarrow> json" and dec :: "json \<Rightarrow> 'a option"
  assumes dec_enc [simp]: "dec (enc x) = Some x"
begin

lemma unmarshal_marshal [simp]: "unmarshal dec (JText (enc x)) = Inr x"
  by simp

lemma enc_inject [simp]: "enc x = enc y \<longleftrightarrow> x = y"
  by (metis dec_enc option.inject)

lemma list_round_trip [simp]: "decode_all dec (map enc xs) = Some xs"
  by (simp add: decode_all_map)

end

interpretation str_codec: json_codec JStr elem_str
  by unfold_locales simp

end
