(* ===== verification/Bolt.thy ===== *)
theory Bolt
  imports Json
begin

text \<open>
  The database under the store: buckets of key/value pairs kept in byte order of the keys, each
  with the sequence counter of \<open>NextSequence\<close>, and values sealed by AES-256-GCM.  bbolt's own code
  is not part of the repository; what the store relies on is its documented contract, stated as
  the locale \<open>bucket_store\<close> (get, put, delete and a cursor's prefix scan against a finite map)
  and proved of the association lists that represent a bucket here.  A sealed value is kept
  symbolically as key, associated data and plaintext: \<open>Open\<close> returns the plaintext exactly when
  key and associated data are those it was sealed with; nonces do not influence the program.

  Every operation runs in the transaction monad.  A bucket that does not exist makes an access
  panic, as a nil \<open>*bolt.Bucket\<close> does.  \<open>Put\<close> refuses an empty key and one over 32768 bytes.
  \<open>NextSequence\<close> yields a number above all earlier ones or fails; the failure stands for the
  exhaustion of the 64-bit counter.
\<close>

section \<open>Byte strings of counters\<close>

fun be_bytes :: "nat \<Rightarrow> nat \<Rightarrow> nat list" where
  "be_bytes 0 n = []"
| "be_bytes (Suc k) n = n div 256 ^ k mod 256 # be_bytes k n"

definition be_value :: "nat list \<Rightarrow> nat" where
  "be_value bs = foldl (\<lambda>a b. a * 256 + b) 0 bs"

text \<open>\<open>sequence\<close> of store.go, and \<open>binary.BigEndian.Uint64\<close> behind the \<open>len(v) == 8\<close> test.\<close>

definition sequence :: "u64 \<Rightarrow> string" where
  "sequence i = map char_of (be_bytes 8 (unat i))"

definition uint64_of :: "string \<Rightarrow> u64 option" where
  "uint64_of v = (if length v = 8 then Some (word_of_nat (be_value (map of_char v))) else None)"

lemma length_be_bytes [simp]: "length (be_bytes k n) = k"
  by (induction k) auto

lemma be_bytes_lt: "b \<in> set (be_bytes k n) \<Longrightarrow> b < 256"
  by (induction k) auto

lemma foldl_be_bytes:
  "foldl (\<lambda>a b. a * 256 + b) a (be_bytes k n) = a * 256 ^ k + n mod 256 ^ k"
proof (induction k arbitrary: a)
  case 0
  show ?case by simp
next
  case (Suc k)
  have "n mod 256 ^ Suc k = n div 256 ^ k mod 256 * 256 ^ k + n mod 256 ^ k"
    by (metis mod_mult2_eq mult.commute power_Suc2)
  with Suc show ?case by (simp add: algebra_simps)
qed

lemma be_value_be_bytes: "be_value (be_bytes k n) = n mod 256 ^ k"
  by (simp add: be_value_def foldl_be_bytes)

lemma map_of_char_char_of: "(\<And>b. b \<in> set bs \<Longrightarrow> b < 256) \<Longrightarrow> map of_char (map char_of bs) = (bs :: nat list)"
  by (induction bs) auto

theorem uint64_of_sequence [simp]: "uint64_of (sequence i) = Some i"
proof -
  have "map of_char (sequence i) = be_bytes 8 (unat i)"
    unfolding sequence_def by (rule map_of_char_char_of) (rule be_bytes_lt)
  moreover have "unat i mod 256 ^ 8 = unat i"
    using unsigned_less [of i, where 'a = nat] by simp
  ultimately show ?thesis
    by (simp add: uint64_of_def be_value_be_bytes sequence_def)
qed

lemma sequence_inject [simp]: "sequence i = sequence j \<longleftrightarrow> i = j"
  by (metis option.inject uint64_of_sequence)

lemma length_sequence [simp]: "length (sequence i) = 8"
  by (simp add: sequence_def)

lemma sequence_nonempty [simp]: "sequence i \<noteq> []" "[] \<noteq> sequence i"
  by (metis length_0_conv length_sequence zero_neq_numeral)+

lemma be_bytes_mod: "be_bytes k (n mod 256 ^ k) = be_bytes k n"
proof -
  have "be_bytes j (n mod 256 ^ k) = be_bytes j n" if "j \<le> k" for j
    using that
  proof (induction j)
    case 0
    show ?case by simp
  next
    case (Suc j)
    obtain d where d: "k = Suc j + d" using Suc.prems by (metis le_Suc_ex)
    have "n mod 256 ^ k = n mod (256 ^ j * (256 * 256 ^ d))"
      by (simp add: d power_add ac_simps)
    also have "\<dots> = 256 ^ j * (n div 256 ^ j mod (256 * 256 ^ d)) + n mod 256 ^ j"
      by (rule mod_mult2_eq)
    finally have "n mod 256 ^ k div 256 ^ j = n div 256 ^ j mod (256 * 256 ^ d)"
      by simp
    then have "n mod 256 ^ k div 256 ^ j mod 256 = n div 256 ^ j mod 256"
      by (simp add: mod_mod_cancel)
    then show ?case using Suc by simp
  qed
  then show ?thesis by simp
qed

lemma less_char_of: "a < 256 \<Longrightarrow> b < 256 \<Longrightarrow> char_of a < (char_of b :: char) \<longleftrightarrow> a < (b::nat)"
  by (simp add: less_char_def)

lemma eq_char_of: "a < 256 \<Longrightarrow> b < 256 \<Longrightarrow> char_of a = (char_of b :: char) \<longleftrightarrow> a = (b::nat)"
  by simp

lemma div_less_imp_less: "n div p < m div p \<Longrightarrow> n < (m::nat)"
  by (metis div_le_mono leD le_neq_implies_less nat_le_linear)

lemma less_div_mod:
  "(n::nat) < m \<longleftrightarrow> n div p < m div p \<or> n div p = m div p \<and> n mod p < m mod p"
proof (cases "n div p = m div p")
  case True
  then have "n = m div p * p + n mod p"
    by (metis div_mult_mod_eq)
  moreover have "m = m div p * p + m mod p"
    by simp
  ultimately show ?thesis
    using True by linarith
next
  case False
  then show ?thesis
    by (metis div_le_mono div_less_imp_less le_neq_implies_less less_imp_le_nat)
qed

text \<open>Byte order of the keys is numeric order, so a cursor visits the log in sequence order.\<close>

lemma be_bytes_less:
  "n < 256 ^ k \<Longrightarrow> m < 256 ^ k \<Longrightarrow>
   map char_of (be_bytes k n) < (map char_of (be_bytes k m) :: string) \<longleftrightarrow> n < m"
proof (induction k arbitrary: n m)
  case 0
  then show ?case by simp
next
  case (Suc k)
  let ?p = "256 ^ k :: nat"
  have hd: "n div ?p < 256" "m div ?p < 256"
    using Suc.prems by (auto simp: less_mult_imp_div_less mult.commute)
  have tl: "map char_of (be_bytes k n) < (map char_of (be_bytes k m) :: string)
      \<longleftrightarrow> n mod ?p < m mod ?p"
    using Suc.IH [of "n mod ?p" "m mod ?p"] by (simp add: be_bytes_mod)
  show ?case
    using hd less_div_mod [of n m ?p] by (simp add: less_char_of eq_char_of tl del: char_of_quasi_inj)
qed

theorem sequence_less_iff [simp]: "sequence i < sequence j \<longleftrightarrow> i < j"
  unfolding sequence_def word_less_nat_alt
  by (rule be_bytes_less) (use unsigned_less [of i, where 'a = nat] unsigned_less [of j, where 'a = nat] in simp_all)

lemma sequence_le_iff [simp]: "sequence i \<le> sequence j \<longleftrightarrow> i \<le> j"
  by (metis le_less sequence_inject sequence_less_iff)

section \<open>Buckets\<close>

text \<open>A bucket's pairs, kept in strictly ascending byte order of the keys.\<close>

type_synonym 'v pairs = "(string \<times> 'v) list"

fun kv_put :: "string \<Rightarrow> 'v \<Rightarrow> 'v pairs \<Rightarrow> 'v pairs" where
  "kv_put k v [] = [(k, v)]"
| "kv_put k v ((a, b) # kvs) =
     (if k < a then (k, v) # (a, b) # kvs
      else if k = a then (k, v) # kvs
      else (a, b) # kv_put k v kvs)"

definition kv_delete :: "string \<Rightarrow> 'v pairs \<Rightarrow> 'v pairs" where
  "kv_delete k kvs = filter (\<lambda>p. fst p \<noteq> k) kvs"

text \<open>\<open>for k, v := c.Seek(p); k != nil && bytes.HasPrefix(k, p); k, v = c.Next()\<close>.\<close>

definition kv_scan :: "string \<Rightarrow> 'v pairs \<Rightarrow> 'v pairs" where
  "kv_scan p kvs = takeWhile (\<lambda>kv. prefix p (fst kv)) (dropWhile (\<lambda>kv. fst kv < p) kvs)"

definition kv_sorted :: "'v pairs \<Rightarrow> bool" where
  "kv_sorted kvs \<longleftrightarrow> sorted_wrt (<) (map fst kvs)"

lemma kv_sorted_Nil [simp]: "kv_sorted []"
  by (simp add: kv_sorted_def)

lemma kv_sorted_Cons [simp]:
  "kv_sorted ((a, b) # kvs) \<longleftrightarrow> (\<forall>kv \<in> set kvs. a < fst kv) \<and> kv_sorted kvs"
  by (auto simp: kv_sorted_def)

lemma kv_sorted_distinct: "kv_sorted kvs \<Longrightarrow> distinct (map fst kvs)"
  by (simp add: kv_sorted_def strict_sorted_iff)

lemma map_of_kv_put [simp]: "map_of (kv_put k v kvs) = (map_of kvs)(k \<mapsto> v)"
  by (induction k v kvs rule: kv_put.induct) (auto simp: fun_eq_iff)

lemma map_of_kv_delete [simp]: "map_of (kv_delete k kvs) = (map_of kvs)(k := None)"
  by (induction kvs) (auto simp: kv_delete_def fun_eq_iff)

lemma fst_kv_put: "fst ` set (kv_put k v kvs) = insert k (fst ` set kvs)"
  by (induction k v kvs rule: kv_put.induct) auto

lemma kv_put_mem: "x \<in> set (kv_put k v kvs) \<Longrightarrow> x = (k, v) \<or> x \<in> set kvs"
  by (induction k v kvs rule: kv_put.induct) (auto split: if_splits)

lemma kv_sorted_put [simp]: "kv_sorted kvs \<Longrightarrow> kv_sorted (kv_put k v kvs)"
  by (induction k v kvs rule: kv_put.induct) (auto dest!: kv_put_mem)

lemma kv_sorted_filter [simp]: "kv_sorted kvs \<Longrightarrow> kv_sorted (filter P kvs)"
  by (induction kvs) auto

lemma kv_sorted_delete [simp]: "kv_sorted kvs \<Longrightarrow> kv_sorted (kv_delete k kvs)"
  by (simp add: kv_delete_def)

lemma kv_put_append:
  "\<forall>kv \<in> set kvs. fst kv < k \<Longrightarrow> kv_put k v kvs = kvs @ [(k, v)]"
  by (induction k v kvs rule: kv_put.induct) auto

text \<open>Keys with a given prefix are contiguous in byte order.\<close>

lemma prefix_le: "prefix p k \<Longrightarrow> p \<le> (k :: string)"
proof (induction p arbitrary: k)
  case (Cons c p)
  then show ?case by (cases k) auto
qed simp

lemma prefix_interval:
  "p \<le> (k :: string) \<Longrightarrow> k \<le> k' \<Longrightarrow> prefix p k' \<Longrightarrow> prefix p k"
proof (induction p arbitrary: k k')
  case Nil
  then show ?case by simp
next
  case (Cons c p)
  then obtain d q e q' where "k = d # q" "k' = e # q'"
    by (cases k; cases k') auto
  with Cons show ?case by auto
qed

theorem kv_scan_filter:
  "kv_sorted kvs \<Longrightarrow> kv_scan p kvs = filter (\<lambda>kv. prefix p (fst kv)) kvs"
proof (induction kvs)
  case Nil
  then show ?case by (simp add: kv_scan_def)
next
  case (Cons kv kvs)
  obtain a b where kv: "kv = (a, b)" by (cases kv)
  from Cons.prems have above: "\<forall>x \<in> set kvs. a < fst x" and srt: "kv_sorted kvs"
    by (simp_all add: kv)
  show ?case
  proof (cases "a < p")
    case True
    then have "\<not> prefix p a" using prefix_le by fastforce
    with True Cons.IH [OF srt] show ?thesis by (simp add: kv kv_scan_def)
  next
    case False
    then have pa: "p \<le> a" by simp
    have drop: "dropWhile (\<lambda>kv. fst kv < p) kvs = kvs"
      using above pa by (cases kvs) (auto simp: not_less intro: order.trans less_imp_le)
    show ?thesis
    proof (cases "prefix p a")
      case True
      with False drop Cons.IH [OF srt] show ?thesis by (simp add: kv kv_scan_def)
    next
      case np: False
      then have "\<not> prefix p (fst x)" if "x \<in> set kvs" for x
        using prefix_interval [OF pa, of "fst x"] above that by (auto simp: less_imp_le)
      then have "filter (\<lambda>kv. prefix p (fst kv)) kvs = []"
        by (auto simp: filter_empty_conv)
      with np False show ?thesis by (simp add: kv kv_scan_def)
    qed
  qed
qed

lemma kv_scan_subset: "x \<in> set (kv_scan p kvs) \<Longrightarrow> x \<in> set kvs \<and> prefix p (fst x)"
  by (auto simp: kv_scan_def dest: set_takeWhileD set_dropWhileD)

lemma kv_scan_all: "kv_scan [] kvs = kvs"
proof -
  have "takeWhile (\<lambda>kv. prefix [] (fst kv)) kvs = kvs"
    by (simp add: takeWhile_eq_all_conv)
  moreover have "dropWhile (\<lambda>kv. fst kv < []) kvs = kvs"
    by (cases kvs) simp_all
  ultimately show ?thesis by (simp add: kv_scan_def)
qed

text \<open>What the store relies on, against the finite map a bucket denotes.\<close>

locale bucket_store =
  fixes get :: "'b \<Rightarrow> string \<Rightarrow> 'v option"
    and put :: "string \<Rightarrow> 'v \<Rightarrow> 'b \<Rightarrow> 'b"
    and del :: "string \<Rightarrow> 'b \<Rightarrow> 'b"
    and scan :: "string \<Rightarrow> 'b \<Rightarrow> (string \<times> 'v) list"
    and ok :: "'b \<Rightarrow> bool"
  assumes get_put: "get (put k v b) = (get b)(k \<mapsto> v)"
    and get_del: "get (del k b) = (get b)(k := None)"
    and ok_put: "ok b \<Longrightarrow> ok (put k v b)"
    and ok_del: "ok b \<Longrightarrow> ok (del k b)"
    and scan_mem: "ok b \<Longrightarrow> (k, v) \<in> set (scan p b) \<longleftrightarrow> prefix p k \<and> get b k = Some v"
    and scan_sorted: "ok b \<Longrightarrow> sorted_wrt (<) (map fst (scan p b))"
begin

lemma get_put_other: "k' \<noteq> k \<Longrightarrow> get (put k v b) k' = get b k'"
  by (simp add: get_put)

lemma scan_keys: "ok b \<Longrightarrow> fst ` set (scan p b) = {k. prefix p k \<and> get b k \<noteq> None}"
proof (intro set_eqI iffI)
  fix k
  assume ok: "ok b"
  then show "k \<in> {k. prefix p k \<and> get b k \<noteq> None}" if "k \<in> fst ` set (scan p b)"
    using that by (auto simp: scan_mem)
  show "k \<in> fst ` set (scan p b)" if "k \<in> {k. prefix p k \<and> get b k \<noteq> None}"
  proof -
    from that ok obtain v where "(k, v) \<in> set (scan p b)"
      by (auto simp: scan_mem)
    then show ?thesis by (rule rev_image_eqI) simp
  qed
qed

lemma scan_distinct: "ok b \<Longrightarrow> distinct (map fst (scan p b))"
  using scan_sorted [of b p] by (simp add: strict_sorted_iff)

text \<open>Two buckets with the same contents are scanned alike.\<close>

lemma scan_ext:
  assumes "ok b" "ok c" and eq: "\<And>k. prefix p k \<Longrightarrow> get b k = get c k"
  shows "scan p b = scan p c"
proof -
  have keys: "map fst (scan p b) = map fst (scan p c)"
  proof (rule strict_sorted_equal)
    show "set (map fst (scan p b)) = set (map fst (scan p c))"
      using assms by (auto simp: scan_keys)
  qed (use assms scan_sorted in auto)
  show ?thesis
  proof (rule nth_equalityI)
    show len: "length (scan p b) = length (scan p c)"
      using keys by (metis length_map)
    fix i
    assume i: "i < length (scan p b)"
    obtain k v k' v' where kv: "scan p b ! i = (k, v)" "scan p c ! i = (k', v')"
      by (metis surj_pair)
    have "k = k'"
      using keys kv i len by (metis fst_conv nth_map)
    moreover have "(k, v) \<in> set (scan p b)" "(k', v') \<in> set (scan p c)"
      using i len kv by (metis nth_mem)+
    moreover    then have "prefix p k" "get b k = Some v" "get c k' = Some v'"
      using assms(1,2) by (simp_all add: scan_mem)
    ultimately show "scan p b ! i = scan p c ! i"
      using kv eq [of k] by simp
  qed
qed

end

interpretation kv: bucket_store map_of kv_put kv_delete kv_scan kv_sorted
proof unfold_locales
  fix b :: "'v pairs" and p k :: string and v
  assume ok: "kv_sorted b"
  show "(k, v) \<in> set (kv_scan p b) \<longleftrightarrow> prefix p k \<and> map_of b k = Some v"
    using kv_sorted_distinct [OF ok] by (auto simp: kv_scan_filter [OF ok])
  show "sorted_wrt (<) (map fst (kv_scan p b))"
    using kv_sorted_filter [OF ok] by (simp add: kv_scan_filter [OF ok] kv_sorted_def)
qed simp_all

section \<open>Sealed values\<close>

text \<open>\<open>Sealed key context plain\<close> is \<open>cipher.Seal\<close>'s output; \<open>Raw\<close> is what was stored unsealed.\<close>

datatype cell = Sealed string string payload | Raw string

fun open_cell :: "string \<Rightarrow> string \<Rightarrow> cell \<Rightarrow> go_error + payload" where
  "open_cell key context (Sealed key' context' plain) =
     (if key' = key \<and> context' = context then Inr plain else Inl ErrDecrypt)"
| "open_cell key context (Raw v) = Inl ErrDecrypt"

text \<open>A stored counter: the value when it is eight bytes, as \<open>len(v) == 8\<close> asks.\<close>

fun cell_u64 :: "cell \<Rightarrow> u64 option" where
  "cell_u64 (Raw v) = uint64_of v"
| "cell_u64 (Sealed key context plain) = None"

section \<open>The database and its transactions\<close>

datatype bucket_id =
    BMeta | BEvents | BLatest | BVersions | BOutbox | BPrivate | BMedia | BOutboxTxn | BPush
  | BEntityEpochs | BMessageIndex | BConversationLatest | BHistoryPages | BNetwork

record bucket =
  seq_no :: u64
  kvs :: "cell pairs"

definition empty_bucket :: bucket where
  "empty_bucket = \<lparr>seq_no = 0, kvs = []\<rparr>"

text \<open>
  The store's state: the AEAD key of the open store, the clock (one reading per transaction) and
  the buckets that exist.
\<close>

record store =
  cipher_key :: string
  clock :: time
  db :: "bucket_id \<Rightarrow> bucket option"

type_synonym 'a dbtx = "(store, 'a) tx"

definition MaxKeySize :: nat where "MaxKeySize = 32768"

definition with_bucket :: "bucket_id \<Rightarrow> (bucket \<Rightarrow> 'a dbtx) \<Rightarrow> 'a dbtx" where
  "with_bucket b f s = (case db s b of None \<Rightarrow> Inl ErrPanic | Some bk \<Rightarrow> f bk s)"

definition set_bucket :: "bucket_id \<Rightarrow> bucket option \<Rightarrow> store \<Rightarrow> store" where
  "set_bucket b v s = s\<lparr>db := (db s)(b := v)\<rparr>"

definition has_bucket :: "bucket_id \<Rightarrow> bool dbtx" where
  "has_bucket b = read_tx (\<lambda>s. db s b \<noteq> None)"

definition bget :: "bucket_id \<Rightarrow> string \<Rightarrow> cell option dbtx" where
  "bget b k = with_bucket b (\<lambda>bk. return_tx (map_of (kvs bk) k))"

definition bput :: "bucket_id \<Rightarrow> string \<Rightarrow> cell \<Rightarrow> unit dbtx" where
  "bput b k v = with_bucket b (\<lambda>bk.
     if k = [] \<or> MaxKeySize < length k then fail_tx ErrBolt
     else modify_tx (set_bucket b (Some (bk\<lparr>kvs := kv_put k v (kvs bk)\<rparr>))))"

definition bdelete :: "bucket_id \<Rightarrow> string \<Rightarrow> unit dbtx" where
  "bdelete b k = with_bucket b (\<lambda>bk.
     modify_tx (set_bucket b (Some (bk\<lparr>kvs := kv_delete k (kvs bk)\<rparr>))))"

definition bscan :: "bucket_id \<Rightarrow> string \<Rightarrow> (string \<times> cell) list dbtx" where
  "bscan b p = with_bucket b (\<lambda>bk. return_tx (kv_scan p (kvs bk)))"

text \<open>\<open>c.Seek(p)\<close> followed by \<open>c.Next()\<close> to the end of the bucket.\<close>

definition bseek :: "bucket_id \<Rightarrow> string \<Rightarrow> (string \<times> cell) list dbtx" where
  "bseek b p = with_bucket b (\<lambda>bk. return_tx (dropWhile (\<lambda>kv. fst kv < p) (kvs bk)))"

definition bsequence :: "bucket_id \<Rightarrow> u64 dbtx" where
  "bsequence b = with_bucket b (\<lambda>bk. return_tx (seq_no bk))"

definition bset_sequence :: "bucket_id \<Rightarrow> u64 \<Rightarrow> unit dbtx" where
  "bset_sequence b n = with_bucket b (\<lambda>bk. modify_tx (set_bucket b (Some (bk\<lparr>seq_no := n\<rparr>))))"

definition bnext :: "bucket_id \<Rightarrow> u64 dbtx" where
  "bnext b = with_bucket b (\<lambda>bk.
     if seq_no bk = - 1 then fail_tx ErrBolt
     else then_tx (modify_tx (set_bucket b (Some (bk\<lparr>seq_no := seq_no bk + 1\<rparr>))))
            (return_tx (seq_no bk + 1)))"

definition bcreate :: "bucket_id \<Rightarrow> unit dbtx" where  \<comment> \<open>\<open>CreateBucketIfNotExists\<close>\<close>
  "bcreate b = modify_tx (\<lambda>s. if db s b = None then set_bucket b (Some empty_bucket) s else s)"

definition bcreate_new :: "bucket_id \<Rightarrow> unit dbtx" where  \<comment> \<open>\<open>CreateBucket\<close>\<close>
  "bcreate_new b s =
     (if db s b = None then Inr ((), set_bucket b (Some empty_bucket) s) else Inl ErrBolt)"

definition bdrop :: "bucket_id \<Rightarrow> unit dbtx" where  \<comment> \<open>\<open>DeleteBucket\<close>\<close>
  "bdrop b s = (if db s b = None then Inl ErrBolt else Inr ((), set_bucket b None s))"

text \<open>Deleting every key a cursor visits under a prefix.\<close>

definition bclear :: "bucket_id \<Rightarrow> string \<Rightarrow> unit dbtx" where
  "bclear b p = bind_tx (bscan b p) (\<lambda>found. for_tx (\<lambda>kv. bdelete b (fst kv)) found)"

text \<open>\<open>encrypt\<close> and \<open>decrypt\<close> of store.go under the open store's key.\<close>

definition encrypt :: "payload \<Rightarrow> string \<Rightarrow> cell dbtx" where
  "encrypt data context = read_tx (\<lambda>s. Sealed (cipher_key s) context data)"

definition decrypt :: "cell \<Rightarrow> string \<Rightarrow> payload dbtx" where
  "decrypt data context s = lift_tx (open_cell (cipher_key s) context data) s"

definition put_sealed :: "bucket_id \<Rightarrow> string \<Rightarrow> string \<Rightarrow> payload \<Rightarrow> unit dbtx" where
  "put_sealed b k context data = bind_tx (encrypt data context) (bput b k)"

end
