(* ===== verification/Model.thy ===== *)
theory Model
  imports Json
begin

text \<open>
  The versioned wire records of \<open>internal/model/model.go\<close>, each with the JSON encoding its field
  tags declare (\<open>enc_\<close>), the decoding of its members (\<open>set_\<close>, \<open>dec_\<close>) and an
  interpretation of \<open>json_codec\<close>, the proof that decoding inverts encoding.  Slices are lists; a
  nil slice and an empty one are the same list.
\<close>

definition Schema :: i64 where "Schema = 1"

section \<open>Participants, attachments, reactions\<close>

record participant =
  p_id :: string
  p_name :: string
  p_address :: string
  p_is_me :: bool

definition zero_participant :: participant where
  "zero_participant = \<lparr>p_id = [], p_name = [], p_address = [], p_is_me = False\<rparr>"

definition enc_participant :: "participant \<Rightarrow> json" where
  "enc_participant p = JObj (jstr ''id'' (p_id p) @ jstr ''name'' (p_name p) @
     omit (p_address p = []) (jstr ''address'' (p_address p)) @ jbool ''is_me'' (p_is_me p))"

definition set_participant :: "string \<Rightarrow> json \<Rightarrow> participant \<Rightarrow> participant option" where
  "set_participant k v p =
    (if k = ''id'' then map_option (\<lambda>x. p\<lparr>p_id := x\<rparr>) (as_str v (p_id p))
     else if k = ''name'' then map_option (\<lambda>x. p\<lparr>p_name := x\<rparr>) (as_str v (p_name p))
     else if k = ''address'' then map_option (\<lambda>x. p\<lparr>p_address := x\<rparr>) (as_str v (p_address p))
     else if k = ''is_me'' then map_option (\<lambda>x. p\<lparr>p_is_me := x\<rparr>) (as_bool v (p_is_me p))
     else Some p)"

definition dec_participant :: "json \<Rightarrow> participant option" where
  "dec_participant = decode_struct set_participant zero_participant"

lemmas participant_json = enc_participant_def dec_participant_def set_participant_def
  zero_participant_def json_members

interpretation participant_codec: json_codec enc_participant dec_participant
  by unfold_locales (simp add: participant_json decode_omit)

record attachment =
  a_id :: string
  a_name :: string
  a_mime :: string
  a_size :: i64
  a_available :: bool
  a_preview :: bool
  a_requestable :: bool

definition zero_attachment :: attachment where
  "zero_attachment = \<lparr>a_id = [], a_name = [], a_mime = [], a_size = 0, a_available = False,
     a_preview = False, a_requestable = False\<rparr>"

definition enc_attachment :: "attachment \<Rightarrow> json" where
  "enc_attachment a = JObj (jstr ''id'' (a_id a) @ jstr ''name'' (a_name a) @
     jstr ''mime'' (a_mime a) @ jint ''size'' (a_size a) @ jbool ''available'' (a_available a) @
     jbool ''preview'' (a_preview a) @ jbool ''requestable'' (a_requestable a))"

definition set_attachment :: "string \<Rightarrow> json \<Rightarrow> attachment \<Rightarrow> attachment option" where
  "set_attachment k v a =
    (if k = ''id'' then map_option (\<lambda>x. a\<lparr>a_id := x\<rparr>) (as_str v (a_id a))
     else if k = ''name'' then map_option (\<lambda>x. a\<lparr>a_name := x\<rparr>) (as_str v (a_name a))
     else if k = ''mime'' then map_option (\<lambda>x. a\<lparr>a_mime := x\<rparr>) (as_str v (a_mime a))
     else if k = ''size'' then map_option (\<lambda>x. a\<lparr>a_size := x\<rparr>) (as_i64 v (a_size a))
     else if k = ''available'' then
       map_option (\<lambda>x. a\<lparr>a_available := x\<rparr>) (as_bool v (a_available a))
     else if k = ''preview'' then map_option (\<lambda>x. a\<lparr>a_preview := x\<rparr>) (as_bool v (a_preview a))
     else if k = ''requestable'' then
       map_option (\<lambda>x. a\<lparr>a_requestable := x\<rparr>) (as_bool v (a_requestable a))
     else Some a)"

definition dec_attachment :: "json \<Rightarrow> attachment option" where
  "dec_attachment = decode_struct set_attachment zero_attachment"

lemmas attachment_json = enc_attachment_def dec_attachment_def set_attachment_def
  zero_attachment_def json_members

interpretation attachment_codec: json_codec enc_attachment dec_attachment
  by unfold_locales (simp add: attachment_json)

record reaction =
  r_emoji :: string
  r_participants :: "string list"

definition enc_reaction :: "reaction \<Rightarrow> json" where
  "enc_reaction r = JObj (jstr ''emoji'' (r_emoji r) @
     jlist ''participants'' JStr (r_participants r))"

definition set_reaction :: "string \<Rightarrow> json \<Rightarrow> reaction \<Rightarrow> reaction option" where
  "set_reaction k v r =
    (if k = ''emoji'' then map_option (\<lambda>x. r\<lparr>r_emoji := x\<rparr>) (as_str v (r_emoji r))
     else if k = ''participants'' then
       map_option (\<lambda>x. r\<lparr>r_participants := x\<rparr>) (as_list elem_str v)
     else Some r)"

definition dec_reaction :: "json \<Rightarrow> reaction option" where
  "dec_reaction = decode_struct set_reaction \<lparr>r_emoji = [], r_participants = []\<rparr>"

lemmas reaction_json = enc_reaction_def dec_reaction_def set_reaction_def json_members

interpretation reaction_codec: json_codec enc_reaction dec_reaction
  by unfold_locales (simp add: reaction_json decode_all_map)

section \<open>Conversations\<close>

record conversation =
  c_archived :: bool
  c_pinned :: bool
  c_muted_until :: time
  c_schema :: i64
  c_id :: string
  c_name :: string
  c_preview :: string
  c_updated :: time
  c_unread :: bool
  c_unread_count :: u32
  c_read_only :: bool
  c_protocol :: string
  c_state :: string
  c_participants :: "participant list"
  c_preview_sender_id :: string
  c_preview_direction :: string

definition zero_conversation :: conversation where
  "zero_conversation = \<lparr>c_archived = False, c_pinned = False, c_muted_until = 0, c_schema = 0,
     c_id = [], c_name = [], c_preview = [], c_updated = 0, c_unread = False, c_unread_count = 0,
     c_read_only = False, c_protocol = [], c_state = [], c_participants = [],
     c_preview_sender_id = [], c_preview_direction = []\<rparr>"

definition enc_conversation :: "conversation \<Rightarrow> json" where
  "enc_conversation c = JObj (
     omit (\<not> c_archived c) (jbool ''archived'' (c_archived c)) @
     omit (\<not> c_pinned c) (jbool ''pinned'' (c_pinned c)) @
     omit (c_muted_until c = 0) (jtime ''muted_until'' (c_muted_until c)) @
     jint ''schema'' (c_schema c) @ jstr ''id'' (c_id c) @ jstr ''name'' (c_name c) @
     jstr ''preview'' (c_preview c) @ jtime ''updated'' (c_updated c) @
     jbool ''unread'' (c_unread c) @
     omit (c_unread_count c = 0) (juint ''unread_count'' (c_unread_count c)) @
     jbool ''read_only'' (c_read_only c) @ jstr ''protocol'' (c_protocol c) @
     jstr ''state'' (c_state c) @ jlist ''participants'' enc_participant (c_participants c) @
     omit (c_preview_sender_id c = []) (jstr ''preview_sender_id'' (c_preview_sender_id c)) @
     omit (c_preview_direction c = []) (jstr ''preview_direction'' (c_preview_direction c)))"

definition set_conversation :: "string \<Rightarrow> json \<Rightarrow> conversation \<Rightarrow> conversation option" where
  "set_conversation k v c =
    (if k = ''archived'' then map_option (\<lambda>x. c\<lparr>c_archived := x\<rparr>) (as_bool v (c_archived c))
     else if k = ''pinned'' then map_option (\<lambda>x. c\<lparr>c_pinned := x\<rparr>) (as_bool v (c_pinned c))
     else if k = ''muted_until'' then
       map_option (\<lambda>x. c\<lparr>c_muted_until := x\<rparr>) (as_time v (c_muted_until c))
     else if k = ''schema'' then map_option (\<lambda>x. c\<lparr>c_schema := x\<rparr>) (as_i64 v (c_schema c))
     else if k = ''id'' then map_option (\<lambda>x. c\<lparr>c_id := x\<rparr>) (as_str v (c_id c))
     else if k = ''name'' then map_option (\<lambda>x. c\<lparr>c_name := x\<rparr>) (as_str v (c_name c))
     else if k = ''preview'' then map_option (\<lambda>x. c\<lparr>c_preview := x\<rparr>) (as_str v (c_preview c))
     else if k = ''updated'' then map_option (\<lambda>x. c\<lparr>c_updated := x\<rparr>) (as_time v (c_updated c))
     else if k = ''unread'' then map_option (\<lambda>x. c\<lparr>c_unread := x\<rparr>) (as_bool v (c_unread c))
     else if k = ''unread_count'' then
       map_option (\<lambda>x. c\<lparr>c_unread_count := x\<rparr>) (as_unsigned v (c_unread_count c))
     else if k = ''read_only'' then
       map_option (\<lambda>x. c\<lparr>c_read_only := x\<rparr>) (as_bool v (c_read_only c))
     else if k = ''protocol'' then map_option (\<lambda>x. c\<lparr>c_protocol := x\<rparr>) (as_str v (c_protocol c))
     else if k = ''state'' then map_option (\<lambda>x. c\<lparr>c_state := x\<rparr>) (as_str v (c_state c))
     else if k = ''participants'' then
       map_option (\<lambda>x. c\<lparr>c_participants := x\<rparr>) (as_list dec_participant v)
     else if k = ''preview_sender_id'' then
       map_option (\<lambda>x. c\<lparr>c_preview_sender_id := x\<rparr>) (as_str v (c_preview_sender_id c))
     else if k = ''preview_direction'' then
       map_option (\<lambda>x. c\<lparr>c_preview_direction := x\<rparr>) (as_str v (c_preview_direction c))
     else Some c)"

definition dec_conversation :: "json \<Rightarrow> conversation option" where
  "dec_conversation = decode_struct set_conversation zero_conversation"

lemmas conversation_json = enc_conversation_def dec_conversation_def set_conversation_def
  zero_conversation_def json_members

interpretation conversation_codec: json_codec enc_conversation dec_conversation
  by unfold_locales (simp add: conversation_json decode_omit decode_omit_last)

section \<open>Messages\<close>

record message =
  m_schema :: i64
  m_id :: string
  m_conversation_id :: string
  m_sender_id :: string
  m_time :: time
  m_text :: string
  m_subject :: string
  m_direction :: string
  m_status :: string
  m_deleted :: bool
  m_read_only :: bool
  m_transaction_id :: string
  m_attachments :: "attachment list"
  m_reactions :: "reaction list"

definition zero_message :: message where
  "zero_message = \<lparr>m_schema = 0, m_id = [], m_conversation_id = [], m_sender_id = [], m_time = 0,
     m_text = [], m_subject = [], m_direction = [], m_status = [], m_deleted = False,
     m_read_only = False, m_transaction_id = [], m_attachments = [], m_reactions = []\<rparr>"

definition enc_message :: "message \<Rightarrow> json" where
  "enc_message m = JObj (jint ''schema'' (m_schema m) @ jstr ''id'' (m_id m) @
     jstr ''conversation_id'' (m_conversation_id m) @ jstr ''sender_id'' (m_sender_id m) @
     jtime ''time'' (m_time m) @ jstr ''text'' (m_text m) @
     omit (m_subject m = []) (jstr ''subject'' (m_subject m)) @
     jstr ''direction'' (m_direction m) @ jstr ''status'' (m_status m) @
     jbool ''deleted'' (m_deleted m) @
     omit (\<not> m_read_only m) (jbool ''read_only'' (m_read_only m)) @
     omit (m_transaction_id m = []) (jstr ''transaction_id'' (m_transaction_id m)) @
     jlist ''attachments'' enc_attachment (m_attachments m) @
     jlist ''reactions'' enc_reaction (m_reactions m))"

definition set_message :: "string \<Rightarrow> json \<Rightarrow> message \<Rightarrow> message option" where
  "set_message k v m =
    (if k = ''schema'' then map_option (\<lambda>x. m\<lparr>m_schema := x\<rparr>) (as_i64 v (m_schema m))
     else if k = ''id'' then map_option (\<lambda>x. m\<lparr>m_id := x\<rparr>) (as_str v (m_id m))
     else if k = ''conversation_id'' then
       map_option (\<lambda>x. m\<lparr>m_conversation_id := x\<rparr>) (as_str v (m_conversation_id m))
     else if k = ''sender_id'' then
       map_option (\<lambda>x. m\<lparr>m_sender_id := x\<rparr>) (as_str v (m_sender_id m))
     else if k = ''time'' then map_option (\<lambda>x. m\<lparr>m_time := x\<rparr>) (as_time v (m_time m))
     else if k = ''text'' then map_option (\<lambda>x. m\<lparr>m_text := x\<rparr>) (as_str v (m_text m))
     else if k = ''subject'' then map_option (\<lambda>x. m\<lparr>m_subject := x\<rparr>) (as_str v (m_subject m))
     else if k = ''direction'' then
       map_option (\<lambda>x. m\<lparr>m_direction := x\<rparr>) (as_str v (m_direction m))
     else if k = ''status'' then map_option (\<lambda>x. m\<lparr>m_status := x\<rparr>) (as_str v (m_status m))
     else if k = ''deleted'' then map_option (\<lambda>x. m\<lparr>m_deleted := x\<rparr>) (as_bool v (m_deleted m))
     else if k = ''read_only'' then
       map_option (\<lambda>x. m\<lparr>m_read_only := x\<rparr>) (as_bool v (m_read_only m))
     else if k = ''transaction_id'' then
       map_option (\<lambda>x. m\<lparr>m_transaction_id := x\<rparr>) (as_str v (m_transaction_id m))
     else if k = ''attachments'' then
       map_option (\<lambda>x. m\<lparr>m_attachments := x\<rparr>) (as_list dec_attachment v)
     else if k = ''reactions'' then
       map_option (\<lambda>x. m\<lparr>m_reactions := x\<rparr>) (as_list dec_reaction v)
     else Some m)"

definition dec_message :: "json \<Rightarrow> message option" where
  "dec_message = decode_struct set_message zero_message"

lemmas message_json = enc_message_def dec_message_def set_message_def zero_message_def json_members

interpretation message_codec: json_codec enc_message dec_message
  by unfold_locales (simp add: message_json decode_omit)

section \<open>Uploads, typing, send requests\<close>

record typing =
  t_schema :: i64
  t_conversation_id :: string
  t_participant_id :: string
  t_active :: bool

definition enc_typing :: "typing \<Rightarrow> json" where
  "enc_typing t = JObj (jint ''schema'' (t_schema t) @
     jstr ''conversation_id'' (t_conversation_id t) @
     jstr ''participant_id'' (t_participant_id t) @ jbool ''active'' (t_active t))"

record upload =
  u_schema :: i64
  u_id :: string
  u_name :: string
  u_mime :: string
  u_size :: i64
  u_created :: time

definition zero_upload :: upload where
  "zero_upload = \<lparr>u_schema = 0, u_id = [], u_name = [], u_mime = [], u_size = 0, u_created = 0\<rparr>"

definition enc_upload :: "upload \<Rightarrow> json" where
  "enc_upload u = JObj (jint ''schema'' (u_schema u) @ jstr ''id'' (u_id u) @
     jstr ''name'' (u_name u) @ jstr ''mime'' (u_mime u) @ jint ''size'' (u_size u) @
     jtime ''created'' (u_created u))"

definition set_upload :: "string \<Rightarrow> json \<Rightarrow> upload \<Rightarrow> upload option" where
  "set_upload k v u =
    (if k = ''schema'' then map_option (\<lambda>x. u\<lparr>u_schema := x\<rparr>) (as_i64 v (u_schema u))
     else if k = ''id'' then map_option (\<lambda>x. u\<lparr>u_id := x\<rparr>) (as_str v (u_id u))
     else if k = ''name'' then map_option (\<lambda>x. u\<lparr>u_name := x\<rparr>) (as_str v (u_name u))
     else if k = ''mime'' then map_option (\<lambda>x. u\<lparr>u_mime := x\<rparr>) (as_str v (u_mime u))
     else if k = ''size'' then map_option (\<lambda>x. u\<lparr>u_size := x\<rparr>) (as_i64 v (u_size u))
     else if k = ''created'' then map_option (\<lambda>x. u\<lparr>u_created := x\<rparr>) (as_time v (u_created u))
     else Some u)"

definition dec_upload :: "json \<Rightarrow> upload option" where
  "dec_upload = decode_struct set_upload zero_upload"

lemmas upload_json = enc_upload_def dec_upload_def set_upload_def zero_upload_def json_members

interpretation upload_codec: json_codec enc_upload dec_upload
  by unfold_locales (simp add: upload_json)

record send_request =
  q_kind :: string
  q_recipients :: "string list"
  q_group_name :: string
  q_attachment_ids :: "string list"
  q_message_id :: string
  q_emoji :: string
  q_remove :: bool
  q_conversation_id :: string
  q_text :: string

definition zero_request :: send_request where
  "zero_request = \<lparr>q_kind = [], q_recipients = [], q_group_name = [], q_attachment_ids = [],
     q_message_id = [], q_emoji = [], q_remove = False, q_conversation_id = [], q_text = []\<rparr>"

definition enc_request :: "send_request \<Rightarrow> json" where
  "enc_request q = JObj (omit (q_kind q = []) (jstr ''kind'' (q_kind q)) @
     omit (q_recipients q = []) (jlist ''recipients'' JStr (q_recipients q)) @
     omit (q_group_name q = []) (jstr ''group_name'' (q_group_name q)) @
     omit (q_attachment_ids q = []) (jlist ''attachment_ids'' JStr (q_attachment_ids q)) @
     omit (q_message_id q = []) (jstr ''message_id'' (q_message_id q)) @
     omit (q_emoji q = []) (jstr ''emoji'' (q_emoji q)) @
     omit (\<not> q_remove q) (jbool ''remove'' (q_remove q)) @
     jstr ''conversation_id'' (q_conversation_id q) @ jstr ''text'' (q_text q))"

definition set_request :: "string \<Rightarrow> json \<Rightarrow> send_request \<Rightarrow> send_request option" where
  "set_request k v q =
    (if k = ''kind'' then map_option (\<lambda>x. q\<lparr>q_kind := x\<rparr>) (as_str v (q_kind q))
     else if k = ''recipients'' then
       map_option (\<lambda>x. q\<lparr>q_recipients := x\<rparr>) (as_list elem_str v)
     else if k = ''group_name'' then
       map_option (\<lambda>x. q\<lparr>q_group_name := x\<rparr>) (as_str v (q_group_name q))
     else if k = ''attachment_ids'' then
       map_option (\<lambda>x. q\<lparr>q_attachment_ids := x\<rparr>) (as_list elem_str v)
     else if k = ''message_id'' then
       map_option (\<lambda>x. q\<lparr>q_message_id := x\<rparr>) (as_str v (q_message_id q))
     else if k = ''emoji'' then map_option (\<lambda>x. q\<lparr>q_emoji := x\<rparr>) (as_str v (q_emoji q))
     else if k = ''remove'' then map_option (\<lambda>x. q\<lparr>q_remove := x\<rparr>) (as_bool v (q_remove q))
     else if k = ''conversation_id'' then
       map_option (\<lambda>x. q\<lparr>q_conversation_id := x\<rparr>) (as_str v (q_conversation_id q))
     else if k = ''text'' then map_option (\<lambda>x. q\<lparr>q_text := x\<rparr>) (as_str v (q_text q))
     else Some q)"

definition dec_request :: "json \<Rightarrow> send_request option" where
  "dec_request = decode_struct set_request zero_request"

lemmas request_json = enc_request_def dec_request_def set_request_def zero_request_def json_members

interpretation request_codec: json_codec enc_request dec_request
  by unfold_locales (simp add: request_json decode_omit)

text \<open>\<open>SendRequest.Equal\<close>, the idempotency comparison, field by field in the code's order.\<close>

definition request_equal :: "send_request \<Rightarrow> send_request \<Rightarrow> bool" where
  "request_equal r other \<longleftrightarrow>
     q_kind r = q_kind other \<and> q_group_name r = q_group_name other \<and>
     q_conversation_id r = q_conversation_id other \<and> q_text r = q_text other \<and>
     q_message_id r = q_message_id other \<and> q_emoji r = q_emoji other \<and>
     q_remove r = q_remove other \<and> q_recipients r = q_recipients other \<and>
     q_attachment_ids r = q_attachment_ids other"

lemma request_equal_iff [simp]: "request_equal r other \<longleftrightarrow> r = other"
  by (cases r; cases other) (auto simp: request_equal_def)

section \<open>Outbox records and history jobs\<close>

record outbox =
  o_conversation_id :: string
  o_session_epoch :: u64
  o_schema :: i64
  o_id :: string
  o_request :: send_request
  o_transaction_id :: string
  o_state :: string
  o_message_id :: string
  o_detail :: string
  o_created :: time
  o_updated :: time

definition zero_outbox :: outbox where
  "zero_outbox = \<lparr>o_conversation_id = [], o_session_epoch = 0, o_schema = 0, o_id = [],
     o_request = zero_request, o_transaction_id = [], o_state = [], o_message_id = [],
     o_detail = [], o_created = 0, o_updated = 0\<rparr>"

definition enc_outbox :: "outbox \<Rightarrow> json" where
  "enc_outbox ob = JObj (
     omit (o_conversation_id ob = []) (jstr ''conversation_id'' (o_conversation_id ob)) @
     juint ''session_epoch'' (o_session_epoch ob) @ jint ''schema'' (o_schema ob) @
     jstr ''id'' (o_id ob) @ [(''request'', enc_request (o_request ob))] @
     jstr ''transaction_id'' (o_transaction_id ob) @ jstr ''state'' (o_state ob) @
     omit (o_message_id ob = []) (jstr ''message_id'' (o_message_id ob)) @
     omit (o_detail ob = []) (jstr ''detail'' (o_detail ob)) @
     jtime ''created'' (o_created ob) @ jtime ''updated'' (o_updated ob))"

definition set_outbox :: "string \<Rightarrow> json \<Rightarrow> outbox \<Rightarrow> outbox option" where
  "set_outbox k v ob =
    (if k = ''conversation_id'' then
       map_option (\<lambda>x. ob\<lparr>o_conversation_id := x\<rparr>) (as_str v (o_conversation_id ob))
     else if k = ''session_epoch'' then
       map_option (\<lambda>x. ob\<lparr>o_session_epoch := x\<rparr>) (as_unsigned v (o_session_epoch ob))
     else if k = ''schema'' then map_option (\<lambda>x. ob\<lparr>o_schema := x\<rparr>) (as_i64 v (o_schema ob))
     else if k = ''id'' then map_option (\<lambda>x. ob\<lparr>o_id := x\<rparr>) (as_str v (o_id ob))
     else if k = ''request'' then
       map_option (\<lambda>x. ob\<lparr>o_request := x\<rparr>) (decode_struct set_request (o_request ob) v)
     else if k = ''transaction_id'' then
       map_option (\<lambda>x. ob\<lparr>o_transaction_id := x\<rparr>) (as_str v (o_transaction_id ob))
     else if k = ''state'' then map_option (\<lambda>x. ob\<lparr>o_state := x\<rparr>) (as_str v (o_state ob))
     else if k = ''message_id'' then
       map_option (\<lambda>x. ob\<lparr>o_message_id := x\<rparr>) (as_str v (o_message_id ob))
     else if k = ''detail'' then map_option (\<lambda>x. ob\<lparr>o_detail := x\<rparr>) (as_str v (o_detail ob))
     else if k = ''created'' then map_option (\<lambda>x. ob\<lparr>o_created := x\<rparr>) (as_time v (o_created ob))
     else if k = ''updated'' then map_option (\<lambda>x. ob\<lparr>o_updated := x\<rparr>) (as_time v (o_updated ob))
     else Some ob)"

definition dec_outbox :: "json \<Rightarrow> outbox option" where
  "dec_outbox = decode_struct set_outbox zero_outbox"

lemma decode_request_zero [simp]: "decode_struct set_request zero_request (enc_request q) = Some q"
  using request_codec.dec_enc [of q] by (simp add: dec_request_def)

lemmas outbox_json = enc_outbox_def dec_outbox_def set_outbox_def zero_outbox_def json_members

interpretation outbox_codec: json_codec enc_outbox dec_outbox
  by unfold_locales (simp add: outbox_json decode_omit)

record history_job =
  j_generation :: u64
  j_session_epoch :: u64
  j_schema :: i64
  j_id :: string
  j_kind :: string
  j_conversation_id :: string
  j_folder :: string
  j_state :: string
  j_pages :: i64
  j_records :: i64
  j_detail :: string
  j_updated :: time
  j_retry_at :: time

definition zero_job :: history_job where
  "zero_job = \<lparr>j_generation = 0, j_session_epoch = 0, j_schema = 0, j_id = [], j_kind = [],
     j_conversation_id = [], j_folder = [], j_state = [], j_pages = 0, j_records = 0,
     j_detail = [], j_updated = 0, j_retry_at = 0\<rparr>"

text \<open>\<open>omitempty\<close> has no effect on a struct, so \<open>retry_at\<close> is always written.\<close>

definition enc_job :: "history_job \<Rightarrow> json" where
  "enc_job j = JObj (juint ''generation'' (j_generation j) @
     juint ''session_epoch'' (j_session_epoch j) @ jint ''schema'' (j_schema j) @
     jstr ''id'' (j_id j) @ jstr ''kind'' (j_kind j) @
     omit (j_conversation_id j = []) (jstr ''conversation_id'' (j_conversation_id j)) @
     omit (j_folder j = []) (jstr ''folder'' (j_folder j)) @
     jstr ''state'' (j_state j) @ jint ''pages'' (j_pages j) @ jint ''records'' (j_records j) @
     omit (j_detail j = []) (jstr ''detail'' (j_detail j)) @
     jtime ''updated'' (j_updated j) @ jtime ''retry_at'' (j_retry_at j))"

definition set_job :: "string \<Rightarrow> json \<Rightarrow> history_job \<Rightarrow> history_job option" where
  "set_job k v j =
    (if k = ''generation'' then
       map_option (\<lambda>x. j\<lparr>j_generation := x\<rparr>) (as_unsigned v (j_generation j))
     else if k = ''session_epoch'' then
       map_option (\<lambda>x. j\<lparr>j_session_epoch := x\<rparr>) (as_unsigned v (j_session_epoch j))
     else if k = ''schema'' then map_option (\<lambda>x. j\<lparr>j_schema := x\<rparr>) (as_i64 v (j_schema j))
     else if k = ''id'' then map_option (\<lambda>x. j\<lparr>j_id := x\<rparr>) (as_str v (j_id j))
     else if k = ''kind'' then map_option (\<lambda>x. j\<lparr>j_kind := x\<rparr>) (as_str v (j_kind j))
     else if k = ''conversation_id'' then
       map_option (\<lambda>x. j\<lparr>j_conversation_id := x\<rparr>) (as_str v (j_conversation_id j))
     else if k = ''folder'' then map_option (\<lambda>x. j\<lparr>j_folder := x\<rparr>) (as_str v (j_folder j))
     else if k = ''state'' then map_option (\<lambda>x. j\<lparr>j_state := x\<rparr>) (as_str v (j_state j))
     else if k = ''pages'' then map_option (\<lambda>x. j\<lparr>j_pages := x\<rparr>) (as_i64 v (j_pages j))
     else if k = ''records'' then map_option (\<lambda>x. j\<lparr>j_records := x\<rparr>) (as_i64 v (j_records j))
     else if k = ''detail'' then map_option (\<lambda>x. j\<lparr>j_detail := x\<rparr>) (as_str v (j_detail j))
     else if k = ''updated'' then map_option (\<lambda>x. j\<lparr>j_updated := x\<rparr>) (as_time v (j_updated j))
     else if k = ''retry_at'' then map_option (\<lambda>x. j\<lparr>j_retry_at := x\<rparr>) (as_time v (j_retry_at j))
     else Some j)"

definition dec_job :: "json \<Rightarrow> history_job option" where
  "dec_job = decode_struct set_job zero_job"

lemmas job_json = enc_job_def dec_job_def set_job_def zero_job_def json_members

interpretation job_codec: json_codec enc_job dec_job
  by unfold_locales (simp add: job_json decode_omit)

section \<open>Contacts\<close>

record contact =
  k_id :: string
  k_contact_id :: string
  k_name :: string
  k_address :: string
  k_formatted :: string
  k_frequent :: bool

definition zero_contact :: contact where
  "zero_contact = \<lparr>k_id = [], k_contact_id = [], k_name = [], k_address = [], k_formatted = [],
     k_frequent = False\<rparr>"

definition enc_contact :: "contact \<Rightarrow> json" where
  "enc_contact c = JObj (jstr ''id'' (k_id c) @
     omit (k_contact_id c = []) (jstr ''contact_id'' (k_contact_id c)) @
     jstr ''name'' (k_name c) @ omit (k_address c = []) (jstr ''address'' (k_address c)) @
     omit (k_formatted c = []) (jstr ''formatted'' (k_formatted c)) @
     omit (\<not> k_frequent c) (jbool ''frequent'' (k_frequent c)))"

definition set_contact :: "string \<Rightarrow> json \<Rightarrow> contact \<Rightarrow> contact option" where
  "set_contact k v c =
    (if k = ''id'' then map_option (\<lambda>x. c\<lparr>k_id := x\<rparr>) (as_str v (k_id c))
     else if k = ''contact_id'' then
       map_option (\<lambda>x. c\<lparr>k_contact_id := x\<rparr>) (as_str v (k_contact_id c))
     else if k = ''name'' then map_option (\<lambda>x. c\<lparr>k_name := x\<rparr>) (as_str v (k_name c))
     else if k = ''address'' then map_option (\<lambda>x. c\<lparr>k_address := x\<rparr>) (as_str v (k_address c))
     else if k = ''formatted'' then
       map_option (\<lambda>x. c\<lparr>k_formatted := x\<rparr>) (as_str v (k_formatted c))
     else if k = ''frequent'' then map_option (\<lambda>x. c\<lparr>k_frequent := x\<rparr>) (as_bool v (k_frequent c))
     else Some c)"

definition dec_contact :: "json \<Rightarrow> contact option" where
  "dec_contact = decode_struct set_contact zero_contact"

lemmas contact_json = enc_contact_def dec_contact_def set_contact_def zero_contact_def json_members

interpretation contact_codec: json_codec enc_contact dec_contact
  by unfold_locales (simp add: contact_json decode_omit decode_omit_last)

record contact_book =
  b_schema :: i64
  b_contacts :: "contact list"
  b_updated :: time
  b_stale :: bool

definition zero_book :: contact_book where
  "zero_book = \<lparr>b_schema = 0, b_contacts = [], b_updated = 0, b_stale = False\<rparr>"

definition enc_book :: "contact_book \<Rightarrow> json" where
  "enc_book b = JObj (jint ''schema'' (b_schema b) @ jlist ''contacts'' enc_contact (b_contacts b) @
     jtime ''updated'' (b_updated b) @ jbool ''stale'' (b_stale b))"

definition set_book :: "string \<Rightarrow> json \<Rightarrow> contact_book \<Rightarrow> contact_book option" where
  "set_book k v b =
    (if k = ''schema'' then map_option (\<lambda>x. b\<lparr>b_schema := x\<rparr>) (as_i64 v (b_schema b))
     else if k = ''contacts'' then
       map_option (\<lambda>x. b\<lparr>b_contacts := x\<rparr>) (as_list dec_contact v)
     else if k = ''updated'' then map_option (\<lambda>x. b\<lparr>b_updated := x\<rparr>) (as_time v (b_updated b))
     else if k = ''stale'' then map_option (\<lambda>x. b\<lparr>b_stale := x\<rparr>) (as_bool v (b_stale b))
     else Some b)"

definition dec_book :: "json \<Rightarrow> contact_book option" where
  "dec_book = decode_struct set_book zero_book"

lemmas book_json = enc_book_def dec_book_def set_book_def zero_book_def json_members

interpretation book_codec: json_codec enc_book dec_book
  by unfold_locales (simp add: book_json decode_omit)

section \<open>Previews\<close>

definition PreviewLimit :: nat where "PreviewLimit = 160"

text \<open>The three bytes of the ellipsis U+2026.\<close>

definition ellipsis :: string where "ellipsis = encode_rune 8230"

definition attachment_label :: "string \<Rightarrow> string" where
  "attachment_label mime =
    (let kind = before_byte (CHR ''/'') mime in
     if kind = ''image'' then ''Photo''
     else if kind = ''video'' then ''Video''
     else if kind = ''audio'' then ''Audio message''
     else ''Attachment'')"

definition preview_text :: "message \<Rightarrow> string" where
  "preview_text m =
    (let text = join '' '' (str_fields (m_text m));
         text = (case m_attachments m of
                   a # _ \<Rightarrow> if text = [] then attachment_label (a_mime a) else text
                 | [] \<Rightarrow> text)
     in if PreviewLimit < length (runes text)
        then trim_right (CHR '' '') (string_of_runes (take PreviewLimit (runes text))) @ ellipsis
        else text)"

lemma attachment_label_nonempty [simp]: "attachment_label mime \<noteq> []"
  by (simp add: attachment_label_def Let_def)

lemma ellipsis_nonempty [simp]: "ellipsis \<noteq> []"
  by (simp add: ellipsis_def encode_rune_clean)

lemma joined_fields_eq_Nil [simp]: "join sep (str_fields s) = [] \<longleftrightarrow> str_fields s = []"
  by (simp add: join_eq_Nil str_fields_nonempty)

lemma long_text_not_blank:
  assumes "PreviewLimit < length (runes (join sep (str_fields s)))"
  shows "\<exists>r \<in> set (runes s). \<not> is_space r"
proof (rule ccontr)
  assume "\<not> ?thesis"
  then have "str_fields s = []" by (simp add: str_fields_eq_Nil)
  with assms show False by (simp add: runes_def)
qed

text \<open>A message has an empty preview exactly when it is blank and carries no attachment.\<close>

lemma preview_text_eq_Nil:
  "preview_text m = [] \<longleftrightarrow>
   (\<forall>r \<in> set (runes (m_text m)). is_space r) \<and> m_attachments m = []"
  by (auto simp: preview_text_def Let_def str_fields_eq_Nil split: list.splits
      dest: long_text_not_blank)

text \<open>Trimming blanks from encoded runes leaves the encoding of a prefix of them.\<close>

lemma space_byte:
  assumes "n < 256"
  shows "char_of n = CHR '' '' \<longleftrightarrow> n = (32::nat)"
proof -
  have "of_char (char_of n) = n" and "of_char (CHR '' '') = (32::nat)"
    using assms by simp_all
  then show ?thesis by (metis char_of_char)
qed

lemma last_encode_rune:
  assumes "clean_rune r \<noteq> 32"
  shows "last (encode_rune r) \<noteq> CHR '' ''"
proof -
  have l: "last (encode_scalar (clean_rune r)) \<in> set (encode_scalar (clean_rune r))"
    by simp
  have "last (encode_scalar (clean_rune r)) \<noteq> 32"
    using assms by (simp add: encode_scalar_def)
  then show ?thesis
    using encode_scalar_bytes [OF scalar_clean l]
    by (simp add: encode_rune_clean last_map space_byte)
qed

lemma trim_right_snoc:
  "xs \<noteq> [] \<Longrightarrow> last xs \<noteq> ch \<Longrightarrow> trim_right ch (ys @ xs) = ys @ xs"
  by (cases xs rule: rev_cases) (simp_all add: trim_right_def)

lemma trim_string_of_runes:
  "\<exists>n. trim_right (CHR '' '') (string_of_runes rs) = string_of_runes (take n rs)"
proof (induction rs rule: rev_induct)
  case Nil
  show ?case by (simp add: trim_right_def string_of_runes_def)
next
  case (snoc r rs)
  then obtain n where n: "trim_right (CHR '' '') (string_of_runes rs) = string_of_runes (take n rs)" ..
  have app: "string_of_runes (rs @ [r]) = string_of_runes rs @ encode_rune r"
    by (simp add: string_of_runes_def)
  show ?case
  proof (cases "clean_rune r = 32")
    case True
    then have "encode_rune r = [CHR '' '']"
      by (simp add: encode_rune_clean encode_scalar_def space_byte)
    then have "trim_right (CHR '' '') (string_of_runes (rs @ [r])) = string_of_runes (take n rs)"
      by (simp add: app n [symmetric]) (simp add: trim_right_def)
    then show ?thesis
      by (intro exI [of _ "min n (length rs)"]) (simp add: min_def)
  next
    case False
    then have "trim_right (CHR '' '') (string_of_runes (rs @ [r])) = string_of_runes (rs @ [r])"
      unfolding app by (intro trim_right_snoc last_encode_rune) (simp_all add: encode_rune_clean)
    then show ?thesis
      by (intro exI [of _ "Suc (length rs)"]) simp
  qed
qed

lemma runes_preview_text: "length (runes (preview_text m)) \<le> Suc PreviewLimit"
proof -
  have "length (runes (trim_right (CHR '' '') (string_of_runes (take PreviewLimit rs)) @ ellipsis))
      \<le> Suc PreviewLimit" for rs
  proof -
    obtain n where "trim_right (CHR '' '') (string_of_runes (take PreviewLimit rs)) =
        string_of_runes (take n (take PreviewLimit rs))"
      using trim_string_of_runes by blast
    then have "trim_right (CHR '' '') (string_of_runes (take PreviewLimit rs)) @ ellipsis =
        string_of_runes (take n (take PreviewLimit rs) @ [8230])"
      by (simp add: ellipsis_def string_of_runes_def)
    then show ?thesis
      by (simp only: runes_string_of_runes) simp
  qed
  then show ?thesis
    by (simp add: preview_text_def Let_def)
qed

end
