(* ===== verification/StoreBase.thy ===== *)
theory StoreBase
  imports Bolt Model
begin

text \<open>
  The event log and the latest snapshots of \<open>internal/store/store.go\<close>: the \<open>Event\<close> record,
  \<open>appendTx\<close>, which appends to the log and rewrites the latest record of one entity unless the
  snapshot is unchanged, \<open>observeTx\<close>, which numbers an observation, and the generic reads and
  writes of \<open>records.go\<close>.  The lemmas describe a state by \<open>lookup\<close>, the value under a key of a
  bucket, and by the sequence counters, so that later components never unfold a bucket.
\<close>

section \<open>Reading a state\<close>

definition lookup :: "store \<Rightarrow> bucket_id \<Rightarrow> string \<Rightarrow> cell option" where
  "lookup s b k = (case db s b of None \<Rightarrow> None | Some bk \<Rightarrow> map_of (kvs bk) k)"

definition counter :: "store \<Rightarrow> bucket_id \<Rightarrow> u64" where
  "counter s b = (case db s b of None \<Rightarrow> 0 | Some bk \<Rightarrow> seq_no bk)"

definition exists_bucket :: "store \<Rightarrow> bucket_id \<Rightarrow> bool" where
  "exists_bucket s b \<longleftrightarrow> db s b \<noteq> None"

definition pairs :: "store \<Rightarrow> bucket_id \<Rightarrow> cell pairs" where
  "pairs s b = (case db s b of None \<Rightarrow> [] | Some bk \<Rightarrow> kvs bk)"

text \<open>Byte order of every bucket, which bbolt maintains.\<close>

definition db_sorted :: "store \<Rightarrow> bool" where
  "db_sorted s \<longleftrightarrow> (\<forall>b. kv_sorted (pairs s b))"

definition put_kv :: "bucket_id \<Rightarrow> string \<Rightarrow> cell \<Rightarrow> store \<Rightarrow> store" where
  "put_kv b k v s = (case db s b of None \<Rightarrow> s
     | Some bk \<Rightarrow> set_bucket b (Some (bk\<lparr>kvs := kv_put k v (kvs bk)\<rparr>)) s)"

definition del_kv :: "bucket_id \<Rightarrow> string \<Rightarrow> store \<Rightarrow> store" where
  "del_kv b k s = (case db s b of None \<Rightarrow> s
     | Some bk \<Rightarrow> set_bucket b (Some (bk\<lparr>kvs := kv_delete k (kvs bk)\<rparr>)) s)"

definition set_counter :: "bucket_id \<Rightarrow> u64 \<Rightarrow> store \<Rightarrow> store" where
  "set_counter b n s = (case db s b of None \<Rightarrow> s
     | Some bk \<Rightarrow> set_bucket b (Some (bk\<lparr>seq_no := n\<rparr>)) s)"

lemma cipher_key_simps [simp]:
  "cipher_key (set_bucket b v s) = cipher_key s"
  "cipher_key (put_kv b k v' s) = cipher_key s"
  "cipher_key (del_kv b k s) = cipher_key s"
  "cipher_key (set_counter b n s) = cipher_key s"
  by (auto simp: set_bucket_def put_kv_def del_kv_def set_counter_def split: option.splits)

lemma clock_simps [simp]:
  "clock (set_bucket b v s) = clock s"
  "clock (put_kv b k v' s) = clock s"
  "clock (del_kv b k s) = clock s"
  "clock (set_counter b n s) = clock s"
  by (auto simp: set_bucket_def put_kv_def del_kv_def set_counter_def split: option.splits)

lemma exists_bucket_simps [simp]:
  "exists_bucket (put_kv b k v s) b' = exists_bucket s b'"
  "exists_bucket (del_kv b k s) b' = exists_bucket s b'"
  "exists_bucket (set_counter b n s) b' = exists_bucket s b'"
  by (auto simp: exists_bucket_def set_bucket_def put_kv_def del_kv_def set_counter_def
      split: option.splits)

lemma lookup_put_kv [simp]:
  "lookup (put_kv b k v s) b' k' =
   (if b' = b \<and> k' = k \<and> exists_bucket s b then Some v else lookup s b' k')"
  by (auto simp: lookup_def put_kv_def set_bucket_def exists_bucket_def split: option.splits)

lemma lookup_del_kv [simp]:
  "lookup (del_kv b k s) b' k' = (if b' = b \<and> k' = k then None else lookup s b' k')"
  by (auto simp: lookup_def del_kv_def set_bucket_def split: option.splits)

lemma lookup_set_counter [simp]: "lookup (set_counter b n s) b' k = lookup s b' k"
  by (auto simp: lookup_def set_counter_def set_bucket_def split: option.splits)

lemma counter_simps [simp]:
  "counter (put_kv b k v s) b' = counter s b'"
  "counter (del_kv b k s) b' = counter s b'"
  "counter (set_counter b n s) b' = (if b' = b \<and> exists_bucket s b then n else counter s b')"
  by (auto simp: counter_def put_kv_def del_kv_def set_counter_def set_bucket_def
      exists_bucket_def split: option.splits)

lemma pairs_simps:
  "pairs (put_kv b k v s) b' = (if b' = b \<and> exists_bucket s b then kv_put k v (pairs s b) else pairs s b')"
  "pairs (del_kv b k s) b' = (if b' = b then kv_delete k (pairs s b) else pairs s b')"
  "pairs (set_counter b n s) b' = pairs s b'"
  by (auto simp: pairs_def put_kv_def del_kv_def set_counter_def set_bucket_def kv_delete_def
      exists_bucket_def split: option.splits)

lemma lookup_pairs: "lookup s b k = map_of (pairs s b) k"
  by (auto simp: lookup_def pairs_def split: option.splits)

lemma lookup_exists: "lookup s b k = Some v \<Longrightarrow> exists_bucket s b"
  by (auto simp: lookup_def exists_bucket_def split: option.splits)

lemma db_sorted_simps [simp]:
  "db_sorted s \<Longrightarrow> db_sorted (put_kv b k v s)"
  "db_sorted s \<Longrightarrow> db_sorted (del_kv b k s)"
  "db_sorted s \<Longrightarrow> db_sorted (set_counter b n s)"
  by (simp_all add: db_sorted_def pairs_simps)

section \<open>What a successful operation does\<close>

lemma with_bucket_Inr:
  "with_bucket b f s = Inr r \<longleftrightarrow> (\<exists>bk. db s b = Some bk \<and> f bk s = Inr r)"
  by (auto simp: with_bucket_def split: option.splits)

lemma has_bucket_Inr [tx_elims]: "has_bucket b s = Inr (x, s') \<longleftrightarrow> x = exists_bucket s b \<and> s' = s"
  by (auto simp: has_bucket_def exists_bucket_def)

lemma bget_Inr [tx_elims]:
  "bget b k s = Inr (x, s') \<longleftrightarrow> exists_bucket s b \<and> x = lookup s b k \<and> s' = s"
  by (auto simp: bget_def with_bucket_Inr exists_bucket_def lookup_def)

lemma bput_Inr [tx_elims]:
  "bput b k v s = Inr (u, s') \<longleftrightarrow>
   exists_bucket s b \<and> k \<noteq> [] \<and> length k \<le> MaxKeySize \<and> s' = put_kv b k v s"
  by (auto simp: bput_def with_bucket_Inr exists_bucket_def put_kv_def split: if_splits)

lemma bdelete_Inr [tx_elims]:
  "bdelete b k s = Inr (u, s') \<longleftrightarrow> exists_bucket s b \<and> s' = del_kv b k s"
  by (auto simp: bdelete_def with_bucket_Inr exists_bucket_def del_kv_def)

lemma bscan_Inr [tx_elims]:
  "bscan b p s = Inr (x, s') \<longleftrightarrow> exists_bucket s b \<and> x = kv_scan p (pairs s b) \<and> s' = s"
  by (auto simp: bscan_def with_bucket_Inr exists_bucket_def pairs_def)

lemma bseek_Inr [tx_elims]:
  "bseek b p s = Inr (x, s') \<longleftrightarrow>
   exists_bucket s b \<and> x = dropWhile (\<lambda>kv. fst kv < p) (pairs s b) \<and> s' = s"
  by (auto simp: bseek_def with_bucket_Inr exists_bucket_def pairs_def)

lemma bsequence_Inr [tx_elims]:
  "bsequence b s = Inr (x, s') \<longleftrightarrow> exists_bucket s b \<and> x = counter s b \<and> s' = s"
  by (auto simp: bsequence_def with_bucket_Inr exists_bucket_def counter_def)

lemma bset_sequence_Inr [tx_elims]:
  "bset_sequence b n s = Inr (u, s') \<longleftrightarrow> exists_bucket s b \<and> s' = set_counter b n s"
  by (auto simp: bset_sequence_def with_bucket_Inr exists_bucket_def set_counter_def)

lemma bnext_Inr [tx_elims]:
  "bnext b s = Inr (x, s') \<longleftrightarrow>
   exists_bucket s b \<and> counter s b \<noteq> - 1 \<and> x = counter s b + 1 \<and>
   s' = set_counter b (counter s b + 1) s"
  by (auto simp: bnext_def with_bucket_Inr exists_bucket_def counter_def set_counter_def
      then_tx_Inr split: if_splits)

lemma encrypt_Inr [tx_elims]:
  "encrypt data context s = Inr (x, s') \<longleftrightarrow> x = Sealed (cipher_key s) context data \<and> s' = s"
  by (auto simp: encrypt_def)

lemma decrypt_Inr [tx_elims]:
  "decrypt c context s = Inr (x, s') \<longleftrightarrow> c = Sealed (cipher_key s) context x \<and> s' = s"
  by (cases c) (auto simp: decrypt_def split: if_splits)

lemma put_sealed_Inr [tx_elims]:
  "put_sealed b k context data s = Inr (u, s') \<longleftrightarrow>
   exists_bucket s b \<and> k \<noteq> [] \<and> length k \<le> MaxKeySize \<and>
   s' = put_kv b k (Sealed (cipher_key s) context data) s"
  by (auto simp: put_sealed_def tx_elims)

section \<open>What an operation leaves alone\<close>

text \<open>
  \<open>frame B\<close> relates two states that agree on everything but the buckets in \<open>B\<close>.  It is a
  preorder, so the contract of the transaction monad applies to it.
\<close>

definition frame :: "bucket_id set \<Rightarrow> store \<Rightarrow> store \<Rightarrow> bool" where
  "frame B s s' \<longleftrightarrow> cipher_key s' = cipher_key s \<and> clock s' = clock s \<and>
     (\<forall>b. b \<notin> B \<longrightarrow> db s' b = db s b)"

named_theorems frames \<open>the buckets an operation may change\<close>

interpretation frame: tx_relation "frame B" for B
  by unfold_locales (auto simp: frame_def)

lemma frame_mono: "upholds (frame A) m \<Longrightarrow> A \<subseteq> B \<Longrightarrow> upholds (frame B) m"
  by (erule upholds_mono) (auto simp: frame_def)

lemma frame_kv [simp]:
  "b \<in> B \<Longrightarrow> frame B s (put_kv b k v s)"
  "b \<in> B \<Longrightarrow> frame B s (del_kv b k s)"
  "b \<in> B \<Longrightarrow> frame B s (set_counter b n s)"
  by (auto simp: frame_def put_kv_def del_kv_def set_counter_def set_bucket_def split: option.splits)

lemma frame_refl [simp]: "frame B s s"
  by (simp add: frame_def)

lemma frame_empty [simp]: "frame {} s s' \<longleftrightarrow> s' = s"
  by (cases s; cases s') (auto simp: frame_def)

lemma frame_lookup: "frame B s s' \<Longrightarrow> b \<notin> B \<Longrightarrow> lookup s' b k = lookup s b k"
  by (simp add: frame_def lookup_def)

lemma frame_counter: "frame B s s' \<Longrightarrow> b \<notin> B \<Longrightarrow> counter s' b = counter s b"
  by (simp add: frame_def counter_def)

lemma frame_pairs: "frame B s s' \<Longrightarrow> b \<notin> B \<Longrightarrow> pairs s' b = pairs s b"
  by (simp add: frame_def pairs_def)

lemma frame_exists: "frame B s s' \<Longrightarrow> b \<notin> B \<Longrightarrow> exists_bucket s' b = exists_bucket s b"
  by (simp add: frame_def exists_bucket_def)

lemma frame_key: "frame B s s' \<Longrightarrow> cipher_key s' = cipher_key s"
  by (simp add: frame_def)

lemma frame_clock: "frame B s s' \<Longrightarrow> clock s' = clock s"
  by (simp add: frame_def)

lemmas frame_facts = frame_lookup frame_counter frame_pairs frame_exists frame_key frame_clock

lemma frame_reads [frames]:
  "upholds (frame B) (has_bucket b)"
  "upholds (frame B) (bget b k)"
  "upholds (frame B) (bscan b p)"
  "upholds (frame B) (bseek b p)"
  "upholds (frame B) (bsequence b)"
  "upholds (frame B) (encrypt data context)"
  "upholds (frame B) (decrypt c context)"
  by (auto simp: upholds_def tx_elims)

lemma frame_writes [frames]:
  "b \<in> B \<Longrightarrow> upholds (frame B) (bput b k v)"
  "b \<in> B \<Longrightarrow> upholds (frame B) (bdelete b k)"
  "b \<in> B \<Longrightarrow> upholds (frame B) (bset_sequence b n)"
  "b \<in> B \<Longrightarrow> upholds (frame B) (bnext b)"
  "b \<in> B \<Longrightarrow> upholds (frame B) (put_sealed b k context data)"
  by (auto simp: upholds_def tx_elims)

lemma frame_buckets [frames]:
  "b \<in> B \<Longrightarrow> upholds (frame B) (bcreate b)"
  "b \<in> B \<Longrightarrow> upholds (frame B) (bcreate_new b)"
  "b \<in> B \<Longrightarrow> upholds (frame B) (bdrop b)"
  by (auto simp: upholds_def bcreate_def bcreate_new_def bdrop_def set_bucket_def frame_def
      split: if_splits)

lemma frame_bclear [frames]: "b \<in> B \<Longrightarrow> upholds (frame B) (bclear b p)"
  unfolding bclear_def by (intro frame.rules frames)

section \<open>Sealed records\<close>

text \<open>Reading a sealed JSON record: absent, or decrypted and decoded, or an error.\<close>

definition decode_cell :: "string \<Rightarrow> string \<Rightarrow> (json \<Rightarrow> 'a option) \<Rightarrow> cell \<Rightarrow> 'a option" where
  "decode_cell key context dec c = (case open_cell key context c of Inl e \<Rightarrow> None
     | Inr p \<Rightarrow> (case unmarshal dec p of Inl e \<Rightarrow> None | Inr x \<Rightarrow> Some x))"

definition stored_at :: "store \<Rightarrow> bucket_id \<Rightarrow> string \<Rightarrow> (json \<Rightarrow> 'a option) \<Rightarrow> string \<Rightarrow> 'a option" where
  "stored_at s b context dec k = Option.bind (lookup s b k) (decode_cell (cipher_key s) context dec)"

definition bget_sealed :: "bucket_id \<Rightarrow> string \<Rightarrow> (json \<Rightarrow> 'a option) \<Rightarrow> string \<Rightarrow> 'a option dbtx" where
  "bget_sealed b context dec k = bind_tx (bget b k) (\<lambda>v. case v of
       None \<Rightarrow> return_tx None
     | Some c \<Rightarrow> bind_tx (decrypt c context) (\<lambda>p.
         bind_tx (lift_tx (unmarshal dec p)) (\<lambda>x. return_tx (Some x))))"

lemma decode_cell_sealed [simp]:
  "decode_cell key context dec (Sealed key context p) =
     (case unmarshal dec p of Inl e \<Rightarrow> None | Inr x \<Rightarrow> Some x)"
  by (simp add: decode_cell_def)

lemma stored_at_put_kv [simp]:
  "stored_at (put_kv b k v s) b' context dec k' =
   (if b' = b \<and> k' = k \<and> exists_bucket s b then decode_cell (cipher_key s) context dec v
    else stored_at s b' context dec k')"
  by (simp add: stored_at_def)

lemma stored_at_del_kv [simp]:
  "stored_at (del_kv b k s) b' context dec k' =
   (if b' = b \<and> k' = k then None else stored_at s b' context dec k')"
  by (simp add: stored_at_def)

lemma stored_at_set_counter [simp]:
  "stored_at (set_counter b n s) b' context dec k = stored_at s b' context dec k"
  by (simp add: stored_at_def)

lemma stored_at_frame:
  "frame B s s' \<Longrightarrow> b \<notin> B \<Longrightarrow> stored_at s' b context dec k = stored_at s b context dec k"
  by (simp add: stored_at_def frame_facts [of B s s'])

lemma bget_sealed_Inr [tx_elims]:
  "bget_sealed b context dec k s = Inr (x, s') \<longleftrightarrow>
   exists_bucket s b \<and> x = stored_at s b context dec k \<and> s' = s \<and>
   (lookup s b k \<noteq> None \<longrightarrow> x \<noteq> None)"
  by (auto simp: bget_sealed_def stored_at_def decode_cell_def tx_elims decrypt_def
      split: option.splits sum.splits)

lemma frame_bget_sealed [frames]: "upholds (frame B) (bget_sealed b context dec k)"
  unfolding bget_sealed_def by (intro frame.rules frames)

section \<open>Events\<close>

record event =
  ev_historical :: bool
  ev_id :: u64
  ev_type :: string
  ev_entity_id :: string
  ev_time :: time
  ev_data :: payload

definition zero_event :: event where
  "zero_event = \<lparr>ev_historical = False, ev_id = 0, ev_type = [], ev_entity_id = [], ev_time = 0,
     ev_data = Opaque []\<rparr>"

text \<open>A nil \<open>RawMessage\<close> is written as \<open>null\<close>; \<open>appendTx\<close> marshals only valid documents.\<close>

fun data_json :: "payload \<Rightarrow> json" where
  "data_json (JText j) = j"
| "data_json (Opaque b) = JNull"

definition enc_event :: "event \<Rightarrow> json" where
  "enc_event e = JObj (juint ''id'' (ev_id e) @ jstr ''type'' (ev_type e) @
     omit (ev_entity_id e = []) (jstr ''entity_id'' (ev_entity_id e)) @
     jtime ''time'' (ev_time e) @ [(''data'', data_json (ev_data e))])"

definition set_event :: "string \<Rightarrow> json \<Rightarrow> event \<Rightarrow> event option" where
  "set_event k v e =
    (if k = ''id'' then map_option (\<lambda>x. e\<lparr>ev_id := x\<rparr>) (as_unsigned v (ev_id e))
     else if k = ''type'' then map_option (\<lambda>x. e\<lparr>ev_type := x\<rparr>) (as_str v (ev_type e))
     else if k = ''entity_id'' then
       map_option (\<lambda>x. e\<lparr>ev_entity_id := x\<rparr>) (as_str v (ev_entity_id e))
     else if k = ''time'' then map_option (\<lambda>x. e\<lparr>ev_time := x\<rparr>) (as_time v (ev_time e))
     else if k = ''data'' then Some (e\<lparr>ev_data := JText v\<rparr>)
     else Some e)"

definition dec_event :: "json \<Rightarrow> event option" where
  "dec_event = decode_struct set_event zero_event"

lemma dec_enc_event:
  "ev_data e = JText j \<Longrightarrow> dec_event (enc_event e) = Some (e\<lparr>ev_historical := False\<rparr>)"
  by (cases e) (simp add: enc_event_def dec_event_def set_event_def zero_event_def json_members
      decode_omit)

text \<open>Decimal digits of \<open>fmt.Sprint\<close>.\<close>

fun decimal :: "nat \<Rightarrow> string" where
  "decimal n = (if n < 10 then [char_of (48 + n)] else decimal (n div 10) @ [char_of (48 + n mod 10)])"

declare decimal.simps [simp del]

definition event_context :: "u64 \<Rightarrow> string" where
  "event_context i = ''event:'' @ decimal (unat i)"

definition entity_key :: "string \<Rightarrow> string \<Rightarrow> string" where
  "entity_key kind i = kind @ '':'' @ i"

section \<open>The conversation index\<close>

record message_ref =
  ref_id :: string
  ref_conversation_id :: string

definition set_message_ref :: "string \<Rightarrow> json \<Rightarrow> message_ref \<Rightarrow> message_ref option" where
  "set_message_ref k v r =
    (if k = ''id'' then map_option (\<lambda>x. r\<lparr>ref_id := x\<rparr>) (as_str v (ref_id r))
     else if k = ''conversation_id'' then
       map_option (\<lambda>x. r\<lparr>ref_conversation_id := x\<rparr>) (as_str v (ref_conversation_id r))
     else Some r)"

definition dec_message_ref :: "json \<Rightarrow> message_ref option" where
  "dec_message_ref = decode_struct set_message_ref \<lparr>ref_id = [], ref_conversation_id = []\<rparr>"

definition message_index_key :: "string \<Rightarrow> string \<Rightarrow> string" where
  "message_index_key conversation_id message_id = conversation_id @ char_of (0::nat) # message_id"

definition index_message :: "payload \<Rightarrow> unit dbtx" where
  "index_message data = bind_tx (lift_tx (unmarshal dec_message_ref data)) (\<lambda>m.
     if ref_id m = [] \<or> ref_conversation_id m = [] then return_tx ()
     else bput BMessageIndex (message_index_key (ref_conversation_id m) (ref_id m)) (Raw []))"

lemma dec_message_ref_message:
  "dec_message_ref (enc_message m) =
     Some \<lparr>ref_id = m_id m, ref_conversation_id = m_conversation_id m\<rparr>"
  by (simp add: dec_message_ref_def set_message_ref_def enc_message_def json_members omit_def)

section \<open>Appending to the log\<close>

definition append_tx :: "event \<Rightarrow> bool dbtx" where
  "append_tx event =
    (if ev_type event = [] \<or> ev_entity_id event = [] \<or> \<not> json_valid (ev_data event)
     then fail_tx (ErrText ''invalid event'')
     else
       let key = entity_key (ev_type event) (ev_entity_id event) in
       bind_tx (bget BLatest key) (\<lambda>previous.
       bind_tx (case previous of None \<Rightarrow> return_tx False
                | Some c \<Rightarrow> bind_tx (decrypt c key) (\<lambda>plain. return_tx (plain = ev_data event)))
         (\<lambda>same.
       if same then return_tx False
       else
         bind_tx (bnext BEvents) (\<lambda>id.
         bind_tx (read_tx clock) (\<lambda>now.
         let event' = event\<lparr>ev_id := id, ev_time := now\<rparr> in
         then_tx (put_sealed BEvents (sequence id) (event_context id) (JText (enc_event event')))
         (then_tx (put_sealed BLatest key key (ev_data event'))
         (then_tx (when_tx (ev_type event' = ''message'') (index_message (ev_data event')))
         (return_tx True))))))))"

definition observe_tx :: "string \<Rightarrow> unit dbtx" where
  "observe_tx key =
     bind_tx (bnext BVersions) (\<lambda>revision. bput BVersions key (Raw (sequence revision)))"

text \<open>The state after one appended event, before the message index is touched.\<close>

definition logged :: "event \<Rightarrow> store \<Rightarrow> store" where
  "logged event s =
    (let id = counter s BEvents + 1;
         key = entity_key (ev_type event) (ev_entity_id event)
     in put_kv BLatest key (Sealed (cipher_key s) key (ev_data event))
          (put_kv BEvents (sequence id) (Sealed (cipher_key s) (event_context id)
             (JText (enc_event (event\<lparr>ev_id := id, ev_time := clock s\<rparr>))))
          (set_counter BEvents id s)))"

lemma index_message_Inr:
  "index_message data s = Inr (u, s') \<longleftrightarrow>
   (\<exists>m. unmarshal dec_message_ref data = Inr m \<and>
     (if ref_id m = [] \<or> ref_conversation_id m = [] then s' = s
      else exists_bucket s BMessageIndex \<and>
        length (message_index_key (ref_conversation_id m) (ref_id m)) \<le> MaxKeySize \<and>
        s' = put_kv BMessageIndex (message_index_key (ref_conversation_id m) (ref_id m)) (Raw []) s))"
  by (auto simp: index_message_def tx_elims message_index_key_def split: if_splits)

text \<open>Either nothing happens, because the latest snapshot is this one, or one event is logged.\<close>

lemma append_tx_Inr:
  assumes run: "append_tx event s = Inr (changed, s')"
  defines "key \<equiv> entity_key (ev_type event) (ev_entity_id event)"
  shows "ev_type event \<noteq> []" "ev_entity_id event \<noteq> []" "json_valid (ev_data event)"
    "exists_bucket s BLatest"
    "changed \<longleftrightarrow> lookup s BLatest key \<noteq> Some (Sealed (cipher_key s) key (ev_data event))"
    "\<not> changed \<Longrightarrow> s' = s"
    "changed \<Longrightarrow> counter s BEvents \<noteq> - 1 \<and> exists_bucket s BEvents \<and>
       (if ev_type event = ''message''
        then index_message (ev_data event) (logged event s) = Inr ((), s')
        else s' = logged event s)"
  using run
  by (cases "lookup s BLatest key";
      auto simp: append_tx_def Let_def tx_elims logged_def key_def split: if_splits)+

lemma frame_append [frames]:
  assumes "{BEvents, BLatest, BMessageIndex} \<subseteq> B"
  shows "upholds (frame B) (append_tx event)"
  using assms unfolding append_tx_def Let_def index_message_def
  by (intro frame.rules frames) auto

lemma frame_observe [frames]: "BVersions \<in> B \<Longrightarrow> upholds (frame B) (observe_tx key)"
  unfolding observe_tx_def by (intro frame.rules frames)

lemma observe_tx_Inr [tx_elims]:
  "observe_tx key s = Inr (u, s') \<longleftrightarrow>
   exists_bucket s BVersions \<and> counter s BVersions \<noteq> - 1 \<and> key \<noteq> [] \<and> length key \<le> MaxKeySize \<and>
   s' = put_kv BVersions key (Raw (sequence (counter s BVersions + 1)))
          (set_counter BVersions (counter s BVersions + 1) s)"
  by (auto simp: observe_tx_def tx_elims)

text \<open>After an append, changed or not, the latest record is the appended snapshot.\<close>

lemma index_message_lookup:
  "index_message d s = Inr (u, s') \<Longrightarrow> b \<noteq> BMessageIndex \<Longrightarrow> lookup s' b k = lookup s b k"
  by (auto simp: index_message_Inr split: if_splits)

lemma append_tx_latest:
  assumes run: "append_tx event s = Inr (changed, s')"
  defines "key \<equiv> entity_key (ev_type event) (ev_entity_id event)"
  shows "lookup s' BLatest k =
    (if k = key then Some (Sealed (cipher_key s) key (ev_data event)) else lookup s BLatest k)"
proof -
  note a = append_tx_Inr [OF run, folded key_def]
  show ?thesis
  proof (cases changed)
    case True
    then have "lookup s' BLatest k = lookup (logged event s) BLatest k"
      using a(7) index_message_lookup by (auto split: if_splits)
    with a(4) a(7) [OF True] show ?thesis
      by (auto simp: logged_def Let_def key_def)
  qed (use a(5,6) in auto)
qed

lemma append_tx_other:
  assumes "append_tx event s = Inr (changed, s')" and "b \<notin> {BEvents, BLatest, BMessageIndex}"
  shows "lookup s' b k = lookup s b k" "counter s' b = counter s b"
    "exists_bucket s' b = exists_bucket s b"
  using upholdsD [OF frame_append assms(1), of "{BEvents, BLatest, BMessageIndex}"] assms(2)
  by (simp_all add: frame_facts)

end
