(* ===== verification/EventLog.thy ===== *)
theory EventLog
  imports StoreBase
begin

text \<open>
  The durable event log as clients see it: \<open>Events\<close>, the cursors of \<open>records.go\<close> and the
  snapshot reads, with the abstraction they are correct against.  \<open>represents s es\<close> says that the
  database holds exactly the events \<open>es\<close>, numbered from 1 without gaps, and that every latest
  record is the one left by replaying them.  Every operation of the store moves a state that
  represents \<open>es\<close> to one that represents \<open>es @ new\<close> (\<open>log_grows\<close>).
\<close>

section \<open>Replaying a log\<close>

definition event_key :: "event \<Rightarrow> string" where
  "event_key e = entity_key (ev_type e) (ev_entity_id e)"

definition apply_event :: "(string \<Rightarrow> payload option) \<Rightarrow> event \<Rightarrow> (string \<Rightarrow> payload option)" where
  "apply_event m e = m(event_key e \<mapsto> ev_data e)"

definition replay :: "event list \<Rightarrow> string \<Rightarrow> payload option" where
  "replay es = foldl apply_event (\<lambda>_. None) es"

lemma replay_Nil [simp]: "replay [] = (\<lambda>_. None)"
  by (simp add: replay_def)

lemma replay_append: "replay (es @ new) = foldl apply_event (replay es) new"
  by (simp add: replay_def)

lemma replay_snoc [simp]: "replay (es @ [e]) = (replay es)(event_key e \<mapsto> ev_data e)"
  by (simp add: replay_def apply_event_def)

definition sealed_event :: "string \<Rightarrow> event \<Rightarrow> string \<times> cell" where
  "sealed_event key e = (sequence (ev_id e),
     Sealed key (event_context (ev_id e)) (JText (enc_event e)))"

definition stored_event :: "event \<Rightarrow> bool" where
  "stored_event e \<longleftrightarrow> \<not> ev_historical e \<and> json_valid (ev_data e)"

lemma stored_event_data: "stored_event e \<Longrightarrow> \<exists>j. ev_data e = JText j"
  by (cases "ev_data e") (simp_all add: stored_event_def)

definition represents :: "store \<Rightarrow> event list \<Rightarrow> bool" where
  "represents s es \<longleftrightarrow>
     pairs s BEvents = map (sealed_event (cipher_key s)) es \<and>
     map ev_id es = map word_of_nat [1..<Suc (length es)] \<and>
     unat (counter s BEvents) = length es \<and>
     list_all stored_event es \<and>
     kv_sorted (pairs s BLatest) \<and>
     (\<forall>k. lookup s BLatest k = map_option (Sealed (cipher_key s) k) (replay es k))"

text \<open>Events are only ever added at the end.\<close>

definition log_grows :: "store \<Rightarrow> store \<Rightarrow> bool" where
  "log_grows s s' \<longleftrightarrow> (\<forall>es. represents s es \<longrightarrow> (\<exists>new. represents s' (es @ new)))"

interpretation log_grows: tx_relation log_grows
proof unfold_locales
  show "log_grows s s" for s
    unfolding log_grows_def by (metis append_Nil2)
  show "log_grows s u" if "log_grows s t" "log_grows t u" for s t u
    using that unfolding log_grows_def by (metis append_assoc)
qed

lemma represents_frame:
  "frame B s s' \<Longrightarrow> BEvents \<notin> B \<Longrightarrow> BLatest \<notin> B \<Longrightarrow> represents s' es = represents s es"
  by (simp add: represents_def frame_facts [of B s s'])

lemma frame_log_grows: "frame B s s' \<Longrightarrow> BEvents \<notin> B \<Longrightarrow> BLatest \<notin> B \<Longrightarrow> log_grows s s'"
  unfolding log_grows_def by (metis append_Nil2 represents_frame)

lemma frame_upholds_log_grows:
  "upholds (frame B) m \<Longrightarrow> BEvents \<notin> B \<Longrightarrow> BLatest \<notin> B \<Longrightarrow> upholds log_grows m"
  by (erule upholds_mono) (rule frame_log_grows)

lemma represents_unique: "represents s es \<Longrightarrow> represents s es' \<Longrightarrow> es = es'"
proof -
  assume a: "represents s es" "represents s es'"
  have ev: "e = e'" if "sealed_event k e = sealed_event k e'" "stored_event e" "stored_event e'"
    for k e e'
  proof -
    note st = that(2,3)
    from that have "enc_event e = enc_event e'" by (simp add: sealed_event_def)
    moreover from st obtain j j' where "ev_data e = JText j" "ev_data e' = JText j'"
      by (metis stored_event_data)
    ultimately have "e\<lparr>ev_historical := False\<rparr> = e'\<lparr>ev_historical := False\<rparr>"
      by (metis dec_enc_event option.inject)
    then show ?thesis using that by (cases e; cases e') (simp add: stored_event_def)
  qed
  have "map (sealed_event (cipher_key s)) es = map (sealed_event (cipher_key s)) es'"
    using a by (simp add: represents_def)
  moreover have "list_all stored_event es" "list_all stored_event es'"
    using a by (simp_all add: represents_def)
  ultimately show ?thesis
    by (induction es arbitrary: es') (auto simp: Cons_eq_map_conv dest: ev)
qed

lemma represents_key_bound:
  assumes "represents s es" and "e \<in> set es"
  shows "1 \<le> unat (ev_id e)" "unat (ev_id e) \<le> length es"
proof -
  from assms have len: "length es < 2 ^ 64"
    using unsigned_less [of "counter s BEvents", where 'a = nat] by (simp add: represents_def)
  from assms(2) have "ev_id e \<in> set (map ev_id es)" by simp
  also have "\<dots> = set (map word_of_nat [1..<Suc (length es)])"
    using assms(1) by (simp only: represents_def)
  finally obtain i where "ev_id e = word_of_nat i" "1 \<le> i" "i \<le> length es"
    by auto
  with len show "1 \<le> unat (ev_id e)" "unat (ev_id e) \<le> length es"
    by (auto simp: unat_of_nat take_bit_nat_def)
qed

section \<open>Appending refines the log\<close>

lemma append_tx_frame_index:
  "index_message d s = Inr (u, s') \<Longrightarrow> frame {BMessageIndex} s s'"
  by (auto simp: index_message_Inr split: if_splits)

lemma represents_logged:
  assumes rep: "represents s es" and "counter s BEvents \<noteq> - 1" and "exists_bucket s BEvents"
    and "exists_bucket s BLatest" and valid: "json_valid (ev_data event)"
  defines "e \<equiv> event\<lparr>ev_historical := False, ev_id := counter s BEvents + 1, ev_time := clock s\<rparr>"
  shows "represents (logged event s) (es @ [e])"
proof -
  let ?n = "counter s BEvents"
  have cnt: "unat ?n = length es" using rep by (simp add: represents_def)
  have suc: "unat (?n + 1) = Suc (length es)"
    using assms(2) cnt by (metis Suc_eq_plus1 add.commute unatSuc word_not_simps(3) add_eq_0_iff)
  have id: "?n + 1 = word_of_nat (Suc (length es))"
    by (metis suc of_nat_unat ucast_id)
  have below: "\<forall>kv \<in> set (map (sealed_event (cipher_key s)) es). fst kv < sequence (?n + 1)"
  proof
    fix kv assume "kv \<in> set (map (sealed_event (cipher_key s)) es)"
    then obtain e' where "e' \<in> set es" "kv = sealed_event (cipher_key s) e'" by auto
    with represents_key_bound(2) [OF rep] suc show "fst kv < sequence (?n + 1)"
      by (simp add: sealed_event_def word_less_nat_alt less_Suc_eq_le)
  qed
  have enc: "enc_event (event\<lparr>ev_id := i, ev_time := t\<rparr>) =
      enc_event (event\<lparr>ev_historical := False, ev_id := i, ev_time := t\<rparr>)" for i t
    by (simp add: enc_event_def)
  have keyE: "event_key e = entity_key (ev_type event) (ev_entity_id event)"
    by (simp add: event_key_def e_def)
  show ?thesis
    unfolding represents_def
  proof (intro conjI allI)
    show "pairs (logged event s) BEvents = map (sealed_event (cipher_key (logged event s))) (es @ [e])"
      using rep assms(3,4) kv_put_append [OF below]
      by (simp add: logged_def Let_def pairs_simps represents_def sealed_event_def e_def enc)
    show "map ev_id (es @ [e]) = map word_of_nat [1..<Suc (length (es @ [e]))]"
      using rep by (simp add: represents_def e_def id)
    show "unat (counter (logged event s) BEvents) = length (es @ [e])"
      using suc assms(3) by (simp add: logged_def Let_def)
    show "list_all stored_event (es @ [e])"
      using rep valid by (simp add: represents_def stored_event_def e_def)
    show "kv_sorted (pairs (logged event s) BLatest)"
      using rep by (simp add: logged_def Let_def pairs_simps represents_def)
    show "lookup (logged event s) BLatest k =
        map_option (Sealed (cipher_key (logged event s)) k) (replay (es @ [e]) k)" for k
      using rep assms(3,4) by (auto simp: logged_def Let_def represents_def keyE, simp add: e_def)
  qed
qed

lemma append_tx_represents:
  assumes run: "append_tx event s = Inr (changed, s')" and rep: "represents s es"
  defines "key \<equiv> entity_key (ev_type event) (ev_entity_id event)"
  shows "changed \<longleftrightarrow> replay es key \<noteq> Some (ev_data event)"
    and "represents s' (if changed then es @ [event\<lparr>ev_historical := False,
           ev_id := counter s BEvents + 1, ev_time := clock s\<rparr>] else es)"
proof -
  note a = append_tx_Inr [OF run]
  show "changed \<longleftrightarrow> replay es key \<noteq> Some (ev_data event)"
    using a(5) rep by (simp add: represents_def key_def)
  show "represents s' (if changed then es @ [event\<lparr>ev_historical := False,
           ev_id := counter s BEvents + 1, ev_time := clock s\<rparr>] else es)"
  proof (cases changed)
    case True
    let ?es = "es @ [event\<lparr>ev_historical := False, ev_id := counter s BEvents + 1,
                       ev_time := clock s\<rparr>]"
    have rep': "represents (logged event s) ?es"
      using represents_logged [OF rep] a(3,4) a(7) [OF True] by simp
    have "frame {BMessageIndex} (logged event s) s'"
      using a(7) [OF True] append_tx_frame_index by (auto split: if_splits)
    then have "represents s' ?es"
      using rep' represents_frame by blast
    with True show ?thesis by simp
  qed (use a(6) rep in simp)
qed

lemma append_tx_log_grows: "upholds log_grows (append_tx event)"
  unfolding upholds_def log_grows_def
proof (intro allI impI)
  fix s changed s' es
  assume "append_tx event s = Inr (changed, s')" and "represents s es"
  from append_tx_represents(2) [OF this] show "\<exists>new. represents s' (es @ new)"
    by (cases changed) (auto intro: exI [of _ "[]"])
qed

named_theorems grows \<open>operations that only add to the log\<close>

declare append_tx_log_grows [grows]

lemma log_grows_reads [grows]:
  "upholds log_grows (has_bucket b)"
  "upholds log_grows (bget b k)"
  "upholds log_grows (bscan b p)"
  "upholds log_grows (bseek b p)"
  "upholds log_grows (bsequence b)"
  "upholds log_grows (encrypt data context)"
  "upholds log_grows (decrypt c context)"
  "upholds log_grows (bget_sealed b context' dec k)"
  by (rule frame_upholds_log_grows [where B = "{}"], rule frames, simp_all)+

lemma log_grows_writes [grows]:
  assumes "b \<noteq> BEvents" and "b \<noteq> BLatest"
  shows "upholds log_grows (bput b k v)"
    "upholds log_grows (bdelete b k)"
    "upholds log_grows (bset_sequence b n)"
    "upholds log_grows (bnext b)"
    "upholds log_grows (put_sealed b k context data)"
    "upholds log_grows (bcreate b)"
    "upholds log_grows (bcreate_new b)"
    "upholds log_grows (bdrop b)"
    "upholds log_grows (bclear b p)"
  using assms
  by (auto intro!: frame_upholds_log_grows [where B = "{b}"] frames)

lemma observe_log_grows [grows]: "upholds log_grows (observe_tx key)"
  by (rule frame_upholds_log_grows [where B = "{BVersions}"], rule frames, simp_all)

section \<open>Reading the log\<close>

text \<open>\<open>binary.BigEndian.Uint64(k)\<close>, which panics on fewer than eight bytes.\<close>

definition event_of :: "string \<times> cell \<Rightarrow> event dbtx" where
  "event_of kv = bind_tx (case uint64_of (take 8 (fst kv)) of None \<Rightarrow> fail_tx ErrPanic
                         | Some n \<Rightarrow> return_tx n) (\<lambda>n.
     bind_tx (decrypt (snd kv) (event_context n)) (\<lambda>plain. lift_tx (unmarshal dec_event plain)))"

definition events :: "u64 \<Rightarrow> int \<Rightarrow> event list dbtx" where
  "events after limit =
    (if limit < 1 \<or> limit > 1000 then fail_tx (ErrText ''limit must be 1..1000'')
     else if after = - 1 then return_tx []
     else bind_tx (bseek BEvents (sequence (after + 1))) (\<lambda>found.
       fold_tx (\<lambda>kv result. bind_tx (event_of kv) (\<lambda>event. return_tx (result @ [event])))
         (take (nat limit) found) []))"

definition history_watermark :: "u64 dbtx" where
  "history_watermark = bsequence BVersions"

definition watermark :: "u64 dbtx" where
  "watermark = bsequence BEvents"

definition read_latest :: "string \<Rightarrow> payload list dbtx" where
  "read_latest kind = bind_tx (bscan BLatest (kind @ '':'')) (\<lambda>found.
     fold_tx (\<lambda>kv result. bind_tx (decrypt (snd kv) (fst kv)) (\<lambda>plain.
       return_tx (result @ [plain]))) found [])"

definition snapshot :: "string \<Rightarrow> (payload list \<times> u64) dbtx" where
  "snapshot kind = bind_tx (bsequence BEvents) (\<lambda>n.
     bind_tx (read_latest kind) (\<lambda>result. return_tx (result, n)))"

lemma dec_enc_stored: "stored_event e \<Longrightarrow> dec_event (enc_event e) = Some e"
  using stored_event_data [of e] dec_enc_event [of e]
  by (cases e) (auto simp: stored_event_def)

lemma event_of_sealed:
  "stored_event e \<Longrightarrow> event_of (sealed_event (cipher_key s) e) s = Inr (e, s)"
  by (simp add: event_of_def sealed_event_def bind_tx_def decrypt_def lift_tx_def return_tx_def
      dec_enc_stored)

lemma fold_event_of:
  "list_all stored_event es \<Longrightarrow>
   fold_tx (\<lambda>kv result. bind_tx (event_of kv) (\<lambda>event. return_tx (result @ [event])))
     (map (sealed_event (cipher_key s)) es) acc s = Inr (acc @ es, s)"
  by (induction es arbitrary: acc) (auto simp: return_tx_def bind_tx_def event_of_sealed)

lemma fold_read_latest:
  "(\<And>kv. kv \<in> set found \<Longrightarrow> snd kv = Sealed (cipher_key s) (fst kv) (f (fst kv))) \<Longrightarrow>
   fold_tx (\<lambda>kv result. bind_tx (decrypt (snd kv) (fst kv)) (\<lambda>plain. return_tx (result @ [plain])))
     found acc s = Inr (acc @ map (f \<circ> fst) found, s)"
proof (induction found arbitrary: acc)
  case (Cons kv found)
  have "snd kv = Sealed (cipher_key s) (fst kv) (f (fst kv))"
    by (rule Cons.prems) simp
  with Cons show ?case
    by (simp add: return_tx_def bind_tx_def decrypt_def lift_tx_def)
qed (simp add: return_tx_def)

text \<open>The numbers of a represented log are ascending, so the seek is a filter.\<close>

lemma represents_nth_id:
  "represents s es \<Longrightarrow> i < length es \<Longrightarrow> unat (ev_id (es ! i)) = Suc i"
proof -
  assume rep: "represents s es" and i: "i < length es"
  then have len: "length es < 2 ^ 64"
    using unsigned_less [of "counter s BEvents", where 'a = nat] by (simp add: represents_def)
  have "map ev_id es ! i = map word_of_nat [1..<Suc (length es)] ! i"
    using rep by (simp only: represents_def)
  with i have "ev_id (es ! i) = word_of_nat (Suc i)"
    by (simp del: upt_Suc of_nat_Suc)
  with len i show ?thesis
    by (simp add: unat_of_nat take_bit_nat_def del: of_nat_Suc)
qed

lemma represents_after:
  assumes rep: "represents s es"
  shows "filter (\<lambda>e. after < ev_id e) es = drop (unat after) es"
proof -
    have "filter (\<lambda>e. after < ev_id e) (take (unat after) es) = []"
      using represents_nth_id [OF rep]
      by (auto simp: filter_empty_conv in_set_conv_nth word_less_nat_alt)
    moreover have "filter (\<lambda>e. after < ev_id e) (drop (unat after) es) = drop (unat after) es"
      using represents_nth_id [OF rep]
      by (auto simp: filter_id_conv in_set_conv_nth word_less_nat_alt)
    ultimately show ?thesis
      by (metis append_Nil append_take_drop_id filter_append)
qed

text \<open>What a client reads: the events after a cursor, in order, and no more than it asked for.\<close>

lemma dropWhile_map_sealed:
  assumes rep: "represents s es"
  shows "dropWhile (\<lambda>kv. fst kv < sequence n) (map (sealed_event k) es) =
         map (sealed_event k) (dropWhile (\<lambda>e. ev_id e < n) es)"
  by (simp add: dropWhile_map comp_def sealed_event_def)

lemma dropWhile_ids:
  assumes rep: "represents s es" and "after \<noteq> - 1"
  shows "dropWhile (\<lambda>e. ev_id e < after + 1) es = drop (unat after) es"
proof -
  have suc: "unat (after + 1) = Suc (unat after)"
    using assms(2) by (metis Suc_eq_plus1 add.commute add_eq_0_iff unatSuc)
  have "takeWhile (\<lambda>e. ev_id e < after + 1) es = take (unat after) es"
  proof (rule takeWhile_eq_take_P_nth)
    show "ev_id (es ! i) < after + 1" if "i < unat after" "i < length es" for i
      using represents_nth_id [OF rep that(2)] that suc by (simp add: word_less_nat_alt)
    show "\<not> ev_id (es ! unat after) < after + 1" if "unat after < length es"
      using represents_nth_id [OF rep that] suc by (simp add: word_less_nat_alt)
  qed
  then show ?thesis
    by (metis append_take_drop_id same_append_eq takeWhile_dropWhile_id)
qed

lemma events_represents:
  assumes rep: "represents s es" and ex: "exists_bucket s BEvents"
    and limit: "1 \<le> limit" "limit \<le> 1000"
  shows "events after limit s = Inr (take (nat limit) (filter (\<lambda>e. after < ev_id e) es), s)"
proof (cases "after = - 1")
  case True
  then have "\<not> after < ev_id e" for e
    by (simp add: not_less word_order.extremum)
  with True limit show ?thesis by (simp add: events_def return_tx_def)
next
  case False
  let ?found = "dropWhile (\<lambda>e. ev_id e < after + 1) es"
  have "bseek BEvents (sequence (after + 1)) s = Inr (map (sealed_event (cipher_key s)) ?found, s)"
    using ex rep dropWhile_map_sealed [OF rep] by (simp add: bseek_Inr represents_def)
  moreover have "list_all stored_event (take (nat limit) ?found)"
    using rep by (auto simp: represents_def list_all_iff dest!: in_set_takeD set_dropWhileD)
  ultimately show ?thesis
    using False limit dropWhile_ids [OF rep False] represents_after [OF rep, of after]
    by (simp add: events_def bind_tx_def take_map fold_event_of)
qed

text \<open>A snapshot lists the replayed record of every entity of the kind, with the log's length.\<close>

lemma read_latest_represents:
  assumes rep: "represents s es" and ex: "exists_bucket s BLatest"
  obtains keys where "sorted_wrt (<) keys"
    and "set keys = {k. prefix (kind @ '':'') k \<and> replay es k \<noteq> None}"
    and "read_latest kind s = Inr (map (the \<circ> replay es) keys, s)"
proof
  let ?found = "kv_scan (kind @ '':'') (pairs s BLatest)"
  have ok: "kv_sorted (pairs s BLatest)"
    using rep by (simp add: represents_def)
  show "sorted_wrt (<) (map fst ?found)"
    by (rule kv.scan_sorted [OF ok])
  have look: "map_of (pairs s BLatest) k = map_option (Sealed (cipher_key s) k) (replay es k)" for k
    using rep by (simp add: represents_def lookup_pairs [symmetric])
  show "set (map fst ?found) = {k. prefix (kind @ '':'') k \<and> replay es k \<noteq> None}"
    using kv.scan_keys [OF ok, of "kind @ '':''"] by (auto simp: look)
  have "snd kv = Sealed (cipher_key s) (fst kv) (the (replay es (fst kv)))"
    if "kv \<in> set ?found" for kv
    using kv.scan_mem [OF ok, of "fst kv" "snd kv" "kind @ '':''"] that by (auto simp: look)
  from fold_read_latest [of ?found s, OF this] ex
  show "read_latest kind s = Inr (map (the \<circ> replay es) (map fst ?found), s)"
    by (simp add: read_latest_def bind_tx_def bscan_Inr [THEN iffD2])
qed

end
