(* ===== verification/Sessions.thy ===== *)
theory Sessions
  imports EventLog
begin

text \<open>
  Session ownership, from \<open>pairing.go\<close> and \<open>records.go\<close>: the epoch of the current pairing, the
  epoch each conversation and message was last observed under, and the counts of records that
  still belong to an earlier phone.
\<close>

section \<open>Stored counters\<close>

definition u64_at :: "store \<Rightarrow> bucket_id \<Rightarrow> string \<Rightarrow> u64 option" where
  "u64_at s b k = (case lookup s b k of None \<Rightarrow> None | Some c \<Rightarrow> cell_u64 c)"

text \<open>\<open>b.Get(k)\<close> followed by the \<open>len(v) == 8\<close> test and the read.\<close>

definition bget_u64 :: "bucket_id \<Rightarrow> string \<Rightarrow> u64 option dbtx" where
  "bget_u64 b k = bind_tx (bget b k) (\<lambda>v. return_tx (case v of None \<Rightarrow> None | Some c \<Rightarrow> cell_u64 c))"

lemma bget_u64_Inr [tx_elims]:
  "bget_u64 b k s = Inr (x, s') \<longleftrightarrow> exists_bucket s b \<and> x = u64_at s b k \<and> s' = s"
  by (auto simp: bget_u64_def u64_at_def tx_elims)

lemma frame_bget_u64 [frames]: "upholds (frame B) (bget_u64 b k)"
  unfolding bget_u64_def by (intro frame.rules frames)

lemma u64_at_put_kv [simp]:
  "u64_at (put_kv b k v s) b' k' =
   (if b' = b \<and> k' = k \<and> exists_bucket s b then cell_u64 v else u64_at s b' k')"
  by (simp add: u64_at_def)

lemma u64_at_del_kv [simp]:
  "u64_at (del_kv b k s) b' k' = (if b' = b \<and> k' = k then None else u64_at s b' k')"
  by (simp add: u64_at_def)

lemma u64_at_set_counter [simp]: "u64_at (set_counter b n s) b' k = u64_at s b' k"
  by (simp add: u64_at_def)

lemma frame_u64_at: "frame B s s' \<Longrightarrow> b \<notin> B \<Longrightarrow> u64_at s' b k = u64_at s b k"
  by (simp add: u64_at_def frame_lookup)

section \<open>Versions\<close>

text \<open>
  The revision of every observed entity is below the counter, the counter never goes back, and
  so a revision that has passed a watermark stays past it.
\<close>

definition versions_ok :: "store \<Rightarrow> bool" where
  "versions_ok s \<longleftrightarrow> (\<forall>k r. u64_at s BVersions k = Some r \<longrightarrow> r \<le> counter s BVersions)"

definition versions_grow :: "store \<Rightarrow> store \<Rightarrow> bool" where
  "versions_grow s s' \<longleftrightarrow> (versions_ok s \<longrightarrow> versions_ok s' \<and>
     counter s BVersions \<le> counter s' BVersions \<and>
     (\<forall>k r. u64_at s BVersions k = Some r \<longrightarrow> (\<exists>r'. u64_at s' BVersions k = Some r' \<and> r \<le> r')))"

interpretation versions_grow: tx_relation versions_grow
proof unfold_locales
  show "versions_grow s s" for s
    by (auto simp: versions_grow_def)
  show "versions_grow s u" if "versions_grow s t" "versions_grow t u" for s t u
    using that unfolding versions_grow_def by (meson order.trans)
qed

named_theorems versioned \<open>operations under which versions only grow\<close>

lemma quiet_versioned: "upholds (frame B) m \<Longrightarrow> BVersions \<notin> B \<Longrightarrow> upholds versions_grow m"
  by (erule upholds_mono) (auto simp: versions_grow_def versions_ok_def frame_u64_at frame_counter)

lemma observe_versioned [versioned]: "upholds versions_grow (observe_tx key)"
proof
  fix s u s'
  assume run: "observe_tx key s = Inr (u, s')"
  let ?n = "counter s BVersions"
  have s': "counter s' BVersions = ?n + 1"
    "u64_at s' BVersions k = (if k = key then Some (?n + 1) else u64_at s BVersions k)" for k
    using run by (auto simp: observe_tx_Inr)
  have up: "?n \<le> ?n + 1"
    using run less_inc [of ?n] by (simp add: observe_tx_Inr less_imp_le)
  show "versions_grow s s'"
    unfolding versions_grow_def versions_ok_def s' using up order.trans [OF _ up] by simp
qed

section \<open>The session epoch\<close>

definition epoch_key :: string where "epoch_key = ''session-epoch''"

definition epoch :: "u64 dbtx" where
  "epoch = bind_tx (bget_u64 BMeta epoch_key) (\<lambda>v. return_tx (case v of None \<Rightarrow> 0 | Some n \<Rightarrow> n))"

definition epoch_of :: "store \<Rightarrow> u64" where
  "epoch_of s = (case u64_at s BMeta epoch_key of None \<Rightarrow> 0 | Some n \<Rightarrow> n)"

definition previous_count_key :: "string \<Rightarrow> string" where
  "previous_count_key kind = ''previous-session-'' @ kind @ ''s''"

text \<open>Keys of the meta bucket differ.\<close>

lemma previous_count_key_simps [simp]:
  "previous_count_key kind \<noteq> epoch_key" "epoch_key \<noteq> previous_count_key kind"
  "previous_count_key kind \<noteq> []" "epoch_key \<noteq> []"
  "previous_count_key kind = previous_count_key kind' \<longleftrightarrow> kind = kind'"
  by (auto simp: previous_count_key_def epoch_key_def)

lemma epoch_Inr [tx_elims]:
  "epoch s = Inr (n, s') \<longleftrightarrow> exists_bucket s BMeta \<and> n = epoch_of s \<and> s' = s"
  by (auto simp: epoch_def epoch_of_def tx_elims)

lemma frame_epoch [frames]: "upholds (frame B) epoch"
  unfolding epoch_def by (intro frame.rules frames)

lemma frame_epoch_of: "frame B s s' \<Longrightarrow> BMeta \<notin> B \<Longrightarrow> epoch_of s' = epoch_of s"
  by (simp add: epoch_of_def frame_u64_at)

text \<open>\<open>stampEpoch\<close>: the record now belongs to the current session.\<close>

definition stamp_current :: "string \<Rightarrow> string \<Rightarrow> unit dbtx" where
  "stamp_current kind key =
     bind_tx epoch (\<lambda>current.
     bind_tx (bget_u64 BEntityEpochs key) (\<lambda>previous.
     bind_tx (bget BLatest key) (\<lambda>latest.
     then_tx (when_tx (current > 0 \<and> latest \<noteq> None \<and> previous \<noteq> Some current)
       (bind_tx (bget_u64 BMeta (previous_count_key kind)) (\<lambda>count.
          case count of None \<Rightarrow> return_tx ()
          | Some n \<Rightarrow> when_tx (n > 0)
              (bput BMeta (previous_count_key kind) (Raw (sequence (n - 1)))))))
       (bput BEntityEpochs key (Raw (sequence current))))))"

definition stamp_epoch :: "string \<Rightarrow> string \<Rightarrow> unit dbtx" where
  "stamp_epoch kind i =
    (if kind \<noteq> ''message'' \<and> kind \<noteq> ''conversation'' then return_tx ()
     else then_tx (bcreate BEntityEpochs) (stamp_current kind (entity_key kind i)))"

lemma frame_stamp_epoch [frames]:
  "{BMeta, BEntityEpochs} \<subseteq> B \<Longrightarrow> upholds (frame B) (stamp_epoch kind i)"
  unfolding stamp_epoch_def stamp_current_def by (intro frame.rules frames) auto

definition entity_current_tx :: "string \<Rightarrow> string \<Rightarrow> bool dbtx" where
  "entity_current_tx kind i =
     bind_tx epoch (\<lambda>current_epoch.
     if current_epoch = 0 then return_tx True
     else bind_tx (has_bucket BEntityEpochs) (\<lambda>present.
       if \<not> present then return_tx False
       else bind_tx (bget_u64 BEntityEpochs (entity_key kind i)) (\<lambda>v.
         return_tx (v = Some current_epoch))))"

definition is_current :: "store \<Rightarrow> string \<Rightarrow> string \<Rightarrow> bool" where
  "is_current s kind i \<longleftrightarrow>
     epoch_of s = 0 \<or> u64_at s BEntityEpochs (entity_key kind i) = Some (epoch_of s)"

lemma u64_at_missing: "\<not> exists_bucket s b \<Longrightarrow> u64_at s b k = None"
  by (simp add: u64_at_def lookup_def exists_bucket_def split: option.splits)

lemma entity_current_Inr [tx_elims]:
  "entity_current_tx kind i s = Inr (x, s') \<longleftrightarrow>
   exists_bucket s BMeta \<and> x = is_current s kind i \<and> s' = s"
  by (auto simp: entity_current_tx_def is_current_def tx_elims u64_at_missing)

lemma frame_entity_current [frames]: "upholds (frame B) (entity_current_tx kind i)"
  unfolding entity_current_tx_def by (intro frame.rules frames)

lemma sessions_log_grows [grows]:
  "upholds log_grows (bget_u64 b k)"
  "upholds log_grows epoch"
  "upholds log_grows (entity_current_tx kind i)"
  by (rule frame_upholds_log_grows [where B = "{}"], rule frames, simp_all)+

lemma stamp_log_grows [grows]: "upholds log_grows (stamp_epoch kind i)"
  by (rule frame_upholds_log_grows [where B = "{BMeta, BEntityEpochs}"], rule frames, simp_all)

lemma sessions_versioned [versioned]:
  "upholds versions_grow (bget_u64 b k)"
  "upholds versions_grow epoch"
  "upholds versions_grow (entity_current_tx kind i)"
  by (rule quiet_versioned [where B = "{}"], rule frames, simp_all)+

lemma stamp_versioned [versioned]: "upholds versions_grow (stamp_epoch kind i)"
  by (rule quiet_versioned [where B = "{BMeta, BEntityEpochs}"], rule frames, simp_all)

lemma store_versioned [versioned]:
  "upholds versions_grow (append_tx event)"
  "upholds versions_grow (has_bucket b)"
  "upholds versions_grow (bget b k)"
  "upholds versions_grow (bscan b p)"
  "upholds versions_grow (decrypt c context)"
  "upholds versions_grow (encrypt data context)"
  "upholds versions_grow (bsequence b)"
  by (rule quiet_versioned [where B = "UNIV - {BVersions}"], rule frames, simp_all)+

lemma writes_versioned [versioned]:
  "b \<noteq> BVersions \<Longrightarrow> upholds versions_grow (bput b k v)"
  "b \<noteq> BVersions \<Longrightarrow> upholds versions_grow (bdelete b k)"
  "b \<noteq> BVersions \<Longrightarrow> upholds versions_grow (put_sealed b k context data)"
  "b \<noteq> BVersions \<Longrightarrow> upholds versions_grow (bcreate b)"
  "b \<noteq> BVersions \<Longrightarrow> upholds versions_grow (bcreate_new b)"
  "b \<noteq> BVersions \<Longrightarrow> upholds versions_grow (bdrop b)"
  "b \<noteq> BVersions \<Longrightarrow> upholds versions_grow (bclear b p)"
  by (rule quiet_versioned [where B = "{b}"], rule frames, simp_all)+

section \<open>Counting earlier records\<close>

record session_summary =
  ss_epoch :: u64
  ss_previous_conversations :: i64
  ss_previous_messages :: i64

definition session_summary :: "session_summary dbtx" where
  "session_summary =
     bind_tx epoch (\<lambda>n.
     if n = 0 then return_tx \<lparr>ss_epoch = 0, ss_previous_conversations = 0, ss_previous_messages = 0\<rparr>
     else bind_tx (bget_u64 BMeta (previous_count_key ''conversation'')) (\<lambda>conversations.
       bind_tx (bget_u64 BMeta (previous_count_key ''message'')) (\<lambda>messages.
       return_tx \<lparr>ss_epoch = n,
         ss_previous_conversations = (case conversations of None \<Rightarrow> 0 | Some k \<Rightarrow> k),
         ss_previous_messages = (case messages of None \<Rightarrow> 0 | Some k \<Rightarrow> k)\<rparr>)))"

lemma bcreate_Inr [tx_elims]:
  "bcreate b s = Inr (u, s') \<longleftrightarrow> s' = (if exists_bucket s b then s else set_bucket b (Some empty_bucket) s)"
  by (auto simp: bcreate_def exists_bucket_def)

lemma set_bucket_empty [simp]:
  "\<not> exists_bucket s b \<Longrightarrow> lookup (set_bucket b (Some empty_bucket) s) b' k = lookup s b' k"
  "\<not> exists_bucket s b \<Longrightarrow> counter (set_bucket b (Some empty_bucket) s) b' = counter s b'"
  "\<not> exists_bucket s b \<Longrightarrow> pairs (set_bucket b (Some empty_bucket) s) b' = pairs s b'"
  "\<not> exists_bucket s b \<Longrightarrow> u64_at (set_bucket b (Some empty_bucket) s) b' k = u64_at s b' k"
  "exists_bucket (set_bucket b (Some empty_bucket) s) b' \<longleftrightarrow> b' = b \<or> exists_bucket s b'"
  by (auto simp: lookup_def counter_def pairs_def u64_at_def set_bucket_def empty_bucket_def
      exists_bucket_def)

lemma epoch_of_simps [simp]:
  "b \<noteq> BMeta \<or> k \<noteq> epoch_key \<Longrightarrow> epoch_of (put_kv b k v s) = epoch_of s"
  "\<not> exists_bucket s b \<Longrightarrow> epoch_of (set_bucket b (Some empty_bucket) s) = epoch_of s"
  "epoch_of (set_counter b n s) = epoch_of s"
  "b \<noteq> BMeta \<or> k \<noteq> epoch_key \<Longrightarrow> epoch_of (del_kv b k s) = epoch_of s"
  by (auto simp: epoch_of_def)

text \<open>The state a successful stamp leaves, once the bucket exists.\<close>

definition uncounted :: "string \<Rightarrow> string \<Rightarrow> store \<Rightarrow> bool" where
  "uncounted kind key s \<longleftrightarrow> epoch_of s > 0 \<and> lookup s BLatest key \<noteq> None \<and>
     u64_at s BEntityEpochs key \<noteq> Some (epoch_of s)"

definition count_down :: "string \<Rightarrow> store \<Rightarrow> store" where
  "count_down kind s = (case u64_at s BMeta (previous_count_key kind) of None \<Rightarrow> s
     | Some n \<Rightarrow> if n > 0 then put_kv BMeta (previous_count_key kind) (Raw (sequence (n - 1))) s else s)"

lemma count_down_simps [simp]:
  "epoch_of (count_down kind s) = epoch_of s"
  "exists_bucket (count_down kind s) b = exists_bucket s b"
  "b \<noteq> BMeta \<Longrightarrow> u64_at (count_down kind s) b k = u64_at s b k"
  "b \<noteq> BMeta \<Longrightarrow> lookup (count_down kind s) b k = lookup s b k"
  by (simp_all add: count_down_def split: option.splits)

lemma u64_at_count_down:
  "u64_at (count_down kind s) BMeta (previous_count_key kind') =
   (if kind' = kind then map_option (\<lambda>n. if n > 0 then n - 1 else n) (u64_at s BMeta (previous_count_key kind))
    else u64_at s BMeta (previous_count_key kind'))"
proof (cases "u64_at s BMeta (previous_count_key kind)")
  case None
  then show ?thesis by (simp add: count_down_def)
next
  case (Some n)
  moreover have "exists_bucket s BMeta"
    using Some u64_at_missing by (metis option.distinct(1))
  ultimately show ?thesis by (simp add: count_down_def)
qed

lemma stamp_current_Inr:
  "stamp_current kind key s = Inr (u, s') \<Longrightarrow>
   exists_bucket s BMeta \<and> exists_bucket s BLatest \<and> exists_bucket s BEntityEpochs \<and>
   s' = put_kv BEntityEpochs key (Raw (sequence (epoch_of s)))
          (if uncounted kind key s then count_down kind s else s)"
  by (cases "u64_at s BMeta (previous_count_key kind)")
    (auto simp: stamp_current_def tx_elims uncounted_def count_down_def split: if_splits)

text \<open>After a successful stamp the record is current and no other record's stamp has moved.\<close>

lemma stamp_epoch_Inr:
  assumes run: "stamp_epoch kind i s = Inr (u, s')"
    and kind: "kind = ''message'' \<or> kind = ''conversation''"
  defines "key \<equiv> entity_key kind i"
  shows "epoch_of s' = epoch_of s"
    and "exists_bucket s BMeta" "exists_bucket s BLatest"
    and "u64_at s' BEntityEpochs k = (if k = key then Some (epoch_of s) else u64_at s BEntityEpochs k)"
    and "lookup s' BLatest k = lookup s BLatest k"
    and "u64_at s' BMeta (previous_count_key kind') =
      (if kind' = kind \<and> uncounted kind key s
       then map_option (\<lambda>n. if n > 0 then n - 1 else n) (u64_at s BMeta (previous_count_key kind))
       else u64_at s BMeta (previous_count_key kind'))"
proof -
  from kind have k: "(kind \<noteq> ''message'' \<and> kind \<noteq> ''conversation'') = False" by auto
  define s1 where
    "s1 = (if exists_bucket s BEntityEpochs then s else set_bucket BEntityEpochs (Some empty_bucket) s)"
  have s1: "epoch_of s1 = epoch_of s" "lookup s1 b k = lookup s b k" "u64_at s1 b k = u64_at s b k"
    "uncounted kind key s1 = uncounted kind key s"
    "b \<noteq> BEntityEpochs \<Longrightarrow> exists_bucket s1 b = exists_bucket s b" for b k
    by (simp_all add: s1_def uncounted_def)
  have s': "exists_bucket s1 BMeta" "exists_bucket s1 BLatest" "exists_bucket s1 BEntityEpochs"
    "s' = put_kv BEntityEpochs key (Raw (sequence (epoch_of s1)))
          (if uncounted kind key s1 then count_down kind s1 else s1)"
    using run stamp_current_Inr [of kind key s1 u s']
    by (simp_all add: stamp_epoch_def k then_tx_Inr bcreate_Inr flip: s1_def key_def)
  show "epoch_of s' = epoch_of s" using s'(4) s1 by simp
  show "exists_bucket s BMeta" "exists_bucket s BLatest"
    using s'(1,2) s1(5) by (metis bucket_id.distinct)+
  show "u64_at s' BEntityEpochs k = (if k = key then Some (epoch_of s) else u64_at s BEntityEpochs k)"
    using s'(3,4) s1 by simp
  show "lookup s' BLatest k = lookup s BLatest k" using s'(4) s1 by simp
  show "u64_at s' BMeta (previous_count_key kind') =
      (if kind' = kind \<and> uncounted kind key s
       then map_option (\<lambda>n. if n > 0 then n - 1 else n) (u64_at s BMeta (previous_count_key kind))
       else u64_at s BMeta (previous_count_key kind'))"
    using s'(4) s1 by (simp add: u64_at_count_down)
qed

end
