(* ===== verification/OutboxStore.thy ===== *)
theory OutboxStore
  imports Sessions
begin

text \<open>
  The outbox of \<open>records.go\<close>: enqueueing, claiming, finishing, recovering and confirming sends.
  \<open>outbox_at s k\<close> is the record a read of key \<open>k\<close> returns.  The contract of every operation is
  \<open>outbox_advances\<close>: records never disappear, keep the request they were made for, and change
  state only along \<open>outbox_edge\<close>; what each operation does on each branch is stated beside it.
\<close>

section \<open>Records\<close>

definition outbox_context :: "string \<Rightarrow> string" where
  "outbox_context k = ''outbox:'' @ k"

definition read_outbox :: "string \<Rightarrow> outbox dbtx" where
  "read_outbox key = bind_tx (bget BOutbox key) (\<lambda>v. case v of
       None \<Rightarrow> fail_tx ErrNotFound
     | Some c \<Rightarrow> bind_tx (decrypt c (outbox_context key)) (\<lambda>p. lift_tx (unmarshal dec_outbox p)))"

definition outbox_event :: "outbox \<Rightarrow> event" where
  "outbox_event out = zero_event\<lparr>ev_type := ''outbox'', ev_entity_id := o_id out,
     ev_data := JText (enc_outbox out)\<rparr>"

definition write_outbox :: "outbox \<Rightarrow> unit dbtx" where
  "write_outbox out =
     then_tx (put_sealed BOutbox (o_id out) (outbox_context (o_id out)) (JText (enc_outbox out)))
     (then_tx (append_tx (outbox_event out)) (return_tx ()))"

definition outbox_at :: "store \<Rightarrow> string \<Rightarrow> outbox option" where
  "outbox_at s k = stored_at s BOutbox (outbox_context k) dec_outbox k"

lemma read_outbox_sealed:
  "read_outbox k = bind_tx (bget_sealed BOutbox (outbox_context k) dec_outbox k)
     (\<lambda>v. case v of None \<Rightarrow> fail_tx ErrNotFound | Some out \<Rightarrow> return_tx out)"
  by (auto simp: fun_eq_iff read_outbox_def bget_sealed_def bind_tx_def return_tx_def lift_tx_def
      split: sum.splits option.splits)

lemma read_outbox_Inr [tx_elims]:
  "read_outbox k s = Inr (out, s') \<longleftrightarrow>
   exists_bucket s BOutbox \<and> outbox_at s k = Some out \<and> s' = s"
  by (auto simp: read_outbox_sealed outbox_at_def tx_elims split: option.splits)

lemma read_outbox_missing:
  "exists_bucket s BOutbox \<Longrightarrow> lookup s BOutbox k = None \<Longrightarrow> read_outbox k s = Inl ErrNotFound"
  by (simp add: read_outbox_def bind_tx_def bget_Inr [THEN iffD2] fail_tx_def)

lemma bget_no_NotFound [simp]: "bget b k s \<noteq> Inl ErrNotFound"
  by (simp add: bget_def with_bucket_def return_tx_def split: option.splits)

lemma decrypt_no_NotFound [simp]: "decrypt c context s \<noteq> Inl ErrNotFound"
  by (cases c) (simp_all add: decrypt_def lift_tx_def)

lemma unmarshal_no_NotFound [simp]: "unmarshal dec p \<noteq> Inl ErrNotFound"
  by (cases p) (simp_all split: option.splits)

lemma bget_sealed_no_NotFound [simp]: "bget_sealed b context dec k s \<noteq> Inl ErrNotFound"
  by (auto simp: bget_sealed_def bind_tx_def lift_tx_def return_tx_def split: sum.splits option.splits)

lemma read_outbox_plain_error:
  assumes "wrapped \<notin> {ErrNotFound, ErrPanic, ErrDecrypt, ErrJson}"
  shows "read_outbox k s \<noteq> Inl wrapped"
proof -
  have "bget BOutbox k s \<noteq> Inl wrapped"
    using assms by (auto simp: bget_def with_bucket_def return_tx_def split: option.splits)
  moreover have "decrypt c ctx t \<noteq> Inl wrapped" for c ctx t
    using assms by (cases c) (auto simp: decrypt_def lift_tx_def)
  moreover have "unmarshal dec_outbox p \<noteq> Inl wrapped" for p
    using assms by (cases p) (auto split: option.splits)
  ultimately show ?thesis
    using assms by (auto simp: read_outbox_def bind_tx_def lift_tx_def return_tx_def fail_tx_def
        split: sum.splits option.splits)
qed

lemma read_outbox_not_wrapped [simp]:
  "read_outbox k s \<noteq> Inl (ErrStored e)" "read_outbox k s \<noteq> Inl (ErrJoined es)"
  by (simp_all add: read_outbox_plain_error)

lemma read_outbox_NotFound:
  "read_outbox k s = Inl ErrNotFound \<Longrightarrow> outbox_at s k = None"
  by (auto simp: read_outbox_sealed bind_tx_def outbox_at_def return_tx_def bget_sealed_Inr
      split: sum.splits option.splits)

lemma frame_read_outbox [frames]: "upholds (frame B) (read_outbox k)"
  by (auto simp: upholds_def read_outbox_Inr)

lemma frame_write_outbox [frames]:
  "{BOutbox, BEvents, BLatest, BMessageIndex} \<subseteq> B \<Longrightarrow> upholds (frame B) (write_outbox out)"
  unfolding write_outbox_def by (intro frame.rules frames) auto

lemma outbox_at_frame: "frame B s s' \<Longrightarrow> BOutbox \<notin> B \<Longrightarrow> outbox_at s' k = outbox_at s k"
  by (simp add: outbox_at_def stored_at_frame [of B])

lemma outbox_at_put [simp]:
  "exists_bucket s BOutbox \<Longrightarrow>
   outbox_at (put_kv BOutbox (o_id out) (Sealed (cipher_key s) (outbox_context (o_id out))
     (JText (enc_outbox out))) s) k = (if k = o_id out then Some out else outbox_at s k)"
  by (simp add: outbox_at_def)

lemma write_outbox_Inr:
  assumes "write_outbox out s = Inr (u, s')"
  shows "outbox_at s' k = (if k = o_id out then Some out else outbox_at s k)"
    and "clock s' = clock s" "cipher_key s' = cipher_key s"
    and "frame {BOutbox, BEvents, BLatest, BMessageIndex} s s'"
proof -
  obtain t where t: "exists_bucket s BOutbox"
    "t = put_kv BOutbox (o_id out) (Sealed (cipher_key s) (outbox_context (o_id out))
       (JText (enc_outbox out))) s" and "\<exists>c. append_tx (outbox_event out) t = Inr (c, s')"
    using assms by (auto simp: write_outbox_def tx_elims)
  then have "frame {BEvents, BLatest, BMessageIndex} t s'"
    by (auto intro: upholdsD [OF frame_append])
  then have "outbox_at s' k = outbox_at t k" by (rule outbox_at_frame) simp
  with t show "outbox_at s' k = (if k = o_id out then Some out else outbox_at s k)" by simp
  show "frame {BOutbox, BEvents, BLatest, BMessageIndex} s s'"
    by (rule upholdsD [OF frame_write_outbox assms]) simp
  then show "clock s' = clock s" "cipher_key s' = cipher_key s" by (simp_all add: frame_def)
qed

lemma write_outbox_log_grows [grows]: "upholds log_grows (write_outbox out)"
  unfolding write_outbox_def
  by (intro log_grows.rules grows) auto

lemma read_outbox_log_grows [grows]: "upholds log_grows (read_outbox k)"
  unfolding read_outbox_def by (intro log_grows.rules grows)

section \<open>The state machine of a send\<close>

inductive outbox_edge :: "string \<Rightarrow> string \<Rightarrow> bool" where
  claimed: "outbox_edge ''queued'' ''sending''"
| canceled: "outbox_edge ''queued'' ''canceled''"
| refused: "outbox_edge ''queued'' ''rejected''"
| finished: "result \<in> {''accepted'', ''rejected'', ''ambiguous''} \<Longrightarrow> outbox_edge ''sending'' result"
| observed: "st \<in> {''sending'', ''accepted'', ''rejected'', ''ambiguous''} \<Longrightarrow> outbox_edge st ''confirmed''"

code_pred (modes: i \<Rightarrow> i \<Rightarrow> bool) outbox_edge .

inductive_cases edge_from_final: "outbox_edge ''canceled'' b" "outbox_edge ''confirmed'' b"
inductive_cases edge_to_queued: "outbox_edge a ''queued''"
inductive_cases edge_to_sending: "outbox_edge a ''sending''"

definition outbox_state_le :: "string \<Rightarrow> string \<Rightarrow> bool" where
  "outbox_state_le = outbox_edge\<^sup>*\<^sup>*"

lemma outbox_state_le_refl [simp]: "outbox_state_le a a"
  by (simp add: outbox_state_le_def)

lemma outbox_state_le_trans: "outbox_state_le a b \<Longrightarrow> outbox_state_le b c \<Longrightarrow> outbox_state_le a c"
  by (simp add: outbox_state_le_def)

lemma outbox_state_le_edge: "outbox_edge a b \<Longrightarrow> outbox_state_le a b"
  by (simp add: outbox_state_le_def)

lemma queued_only_from_queued: "outbox_state_le a ''queued'' \<Longrightarrow> a = ''queued''"
  unfolding outbox_state_le_def by (erule rtranclp.cases) (auto elim: edge_to_queued)

lemma final_stays:
  "outbox_state_le a b \<Longrightarrow> a = ''canceled'' \<or> a = ''confirmed'' \<Longrightarrow> b = a"
  unfolding outbox_state_le_def
  by (induction rule: converse_rtranclp_induct) (auto elim: edge_from_final)

text \<open>What a record keeps while it moves; an epoch of 0 is assigned once by the upgrade.\<close>

definition outbox_moves :: "outbox \<Rightarrow> outbox \<Rightarrow> bool" where
  "outbox_moves a b \<longleftrightarrow> o_id b = o_id a \<and> o_request b = o_request a \<and>
     o_transaction_id b = o_transaction_id a \<and> o_created b = o_created a \<and>
     (o_session_epoch b = o_session_epoch a \<or> o_session_epoch a = 0) \<and>
     outbox_state_le (o_state a) (o_state b)"

lemma outbox_moves_refl [simp]: "outbox_moves a a"
  by (simp add: outbox_moves_def)

lemma outbox_moves_trans: "outbox_moves a b \<Longrightarrow> outbox_moves b c \<Longrightarrow> outbox_moves a c"
  by (auto simp: outbox_moves_def intro: outbox_state_le_trans)

definition outbox_states :: "string set" where
  "outbox_states = {''queued'', ''sending'', ''canceled'', ''accepted'', ''rejected'', ''ambiguous'',
     ''confirmed''}"

lemma outbox_edge_states: "outbox_edge a b \<Longrightarrow> b \<in> outbox_states"
  by (induction rule: outbox_edge.induct) (auto simp: outbox_states_def)

lemma outbox_state_le_states: "outbox_state_le a b \<Longrightarrow> a \<in> outbox_states \<Longrightarrow> b \<in> outbox_states"
  unfolding outbox_state_le_def by (induction rule: rtranclp_induct) (simp_all add: outbox_edge_states)

text \<open>A record lies under its own id, in a state of the machine.\<close>

definition outbox_keyed :: "store \<Rightarrow> bool" where
  "outbox_keyed s \<longleftrightarrow>
     (\<forall>k out. outbox_at s k = Some out \<longrightarrow> o_id out = k \<and> o_state out \<in> outbox_states)"

definition outbox_advances :: "store \<Rightarrow> store \<Rightarrow> bool" where
  "outbox_advances s s' \<longleftrightarrow> (outbox_keyed s \<longrightarrow> outbox_keyed s' \<and>
     (\<forall>k out. outbox_at s k = Some out \<longrightarrow> (\<exists>out'. outbox_at s' k = Some out' \<and> outbox_moves out out')))"

interpretation outbox_advances: tx_relation outbox_advances
proof unfold_locales
  show "outbox_advances s s" for s
    by (auto simp: outbox_advances_def)
  show "outbox_advances s u" if "outbox_advances s t" "outbox_advances t u" for s t u
    using that unfolding outbox_advances_def by (meson outbox_moves_trans)
qed

lemma frame_outbox_advances: "frame B s s' \<Longrightarrow> BOutbox \<notin> B \<Longrightarrow> outbox_advances s s'"
  by (auto simp: outbox_advances_def outbox_keyed_def outbox_at_frame)

lemma frame_upholds_outbox_advances:
  "upholds (frame B) m \<Longrightarrow> BOutbox \<notin> B \<Longrightarrow> upholds outbox_advances m"
  by (erule upholds_mono) (rule frame_outbox_advances)

text \<open>Writing back a record that was read, or a new one, advances the outbox.\<close>

lemma write_advances:
  assumes "write_outbox out s = Inr (u, s')"
    and "outbox_keyed s \<Longrightarrow> outbox_at s (o_id out) = Some old \<Longrightarrow> outbox_moves old out"
    and "outbox_keyed s \<Longrightarrow> outbox_at s (o_id out) = None \<or> outbox_at s (o_id out) = Some old"
    and "outbox_at s (o_id out) = None \<Longrightarrow> o_state out \<in> outbox_states"
  shows "outbox_advances s s'"
  unfolding outbox_advances_def
proof (intro impI conjI allI)
  assume keyed: "outbox_keyed s"
  note at = write_outbox_Inr(1) [OF assms(1)]
  have "o_state out \<in> outbox_states"
  proof (cases "outbox_at s (o_id out)")
    case (Some p)
    with assms(2,3) keyed have "outbox_moves p out" "o_state p \<in> outbox_states"
      by (auto simp: outbox_keyed_def)
    then show ?thesis by (auto simp: outbox_moves_def dest: outbox_state_le_states)
  qed (rule assms(4))
  then show "outbox_keyed s'"
    using keyed unfolding outbox_keyed_def at by (simp split: if_splits)
  show "\<exists>out'. outbox_at s' k = Some out' \<and> outbox_moves p out'" if "outbox_at s k = Some p" for k p
  proof (cases "k = o_id out")
    case True
    with that assms(3) [OF keyed] have "p = old" "outbox_at s (o_id out) = Some old" by simp_all
    with assms(2) [OF keyed] True show ?thesis by (simp add: at)
  qed (simp add: at that)
qed

section \<open>Operations\<close>

text \<open>\<open>Bucket("outbox").ForEach\<close> or a cursor over it, each key read through \<open>readOutbox\<close>.\<close>

definition each_outbox :: "(outbox \<Rightarrow> 'b \<Rightarrow> 'b dbtx) \<Rightarrow> 'b \<Rightarrow> 'b dbtx" where
  "each_outbox f acc = bind_tx (bscan BOutbox []) (\<lambda>found.
     fold_tx (\<lambda>kv acc. bind_tx (read_outbox (fst kv)) (\<lambda>out. f out acc)) found acc)"

definition new_outbox :: "string \<Rightarrow> string \<Rightarrow> send_request \<Rightarrow> u64 \<Rightarrow> time \<Rightarrow> outbox" where
  "new_outbox i transaction_id req ep now = zero_outbox\<lparr>o_schema := Schema, o_session_epoch := ep,
     o_id := i, o_request := req, o_transaction_id := transaction_id, o_state := ''queued'',
     o_created := now, o_updated := now\<rparr>"

definition enqueue :: "string \<Rightarrow> string \<Rightarrow> send_request \<Rightarrow> (outbox \<times> bool) dbtx" where
  "enqueue i transaction_id req = bind_tx (attempt_tx (read_outbox i)) (\<lambda>r. case r of
       Inr out \<Rightarrow>
         if \<not> request_equal (o_request out) req then fail_tx ErrConflict else return_tx (out, False)
     | Inl e \<Rightarrow>
         if \<not> errors_is e ErrNotFound then fail_tx e
         else bind_tx epoch (\<lambda>ep. bind_tx (read_tx clock) (\<lambda>now.
           let out = new_outbox i transaction_id req ep now in
           then_tx (bput BOutboxTxn transaction_id (Raw i))
           (then_tx (write_outbox out) (return_tx (out, True))))))"

definition older_queued :: "outbox \<Rightarrow> outbox option \<Rightarrow> outbox option" where
  "older_queued out oldest =
    (if o_state out = ''queued'' \<and> (case oldest of None \<Rightarrow> True | Some p \<Rightarrow> o_created out < o_created p)
     then Some out else oldest)"

definition claim :: "outbox option dbtx" where
  "claim = bind_tx (each_outbox (\<lambda>out oldest. return_tx (older_queued out oldest)) None) (\<lambda>oldest.
     case oldest of None \<Rightarrow> return_tx None
     | Some out \<Rightarrow> bind_tx (read_tx clock) (\<lambda>now.
         let out' = out\<lparr>o_state := ''sending'', o_updated := now\<rparr> in
         then_tx (write_outbox out') (return_tx (Some out'))))"

definition finish :: "string \<Rightarrow> string \<Rightarrow> string \<Rightarrow> unit dbtx" where
  "finish i result detail =
    (if result \<noteq> ''accepted'' \<and> result \<noteq> ''rejected'' \<and> result \<noteq> ''ambiguous''
     then fail_tx (ErrText ''invalid send result state'')
     else bind_tx (read_outbox i) (\<lambda>out.
       if o_state out \<noteq> ''sending'' then return_tx ()
       else bind_tx (read_tx clock) (\<lambda>now.
         write_outbox (out\<lparr>o_state := result, o_detail := detail, o_updated := now\<rparr>))))"

definition stopped_detail :: string where
  "stopped_detail = ''Service stopped during send; inspect phone before sending again''"

definition recover_sending :: "unit dbtx" where
  "recover_sending =
     bind_tx (each_outbox (\<lambda>out records.
       then_tx (bput BOutboxTxn (o_transaction_id out) (Raw (o_id out)))
       (if o_state out = ''sending''
        then bind_tx (read_tx clock) (\<lambda>now. return_tx (records @ [out\<lparr>o_state := ''ambiguous'',
               o_detail := stopped_detail, o_updated := now\<rparr>]))
        else return_tx records)) [])
     (for_tx write_outbox)"

definition observed_detail :: string where
  "observed_detail = ''Observed in Google history; see message status for delivery''"

text \<open>The stored id behind a transaction, as raw bytes.\<close>

fun raw_bytes :: "cell \<Rightarrow> string option" where
  "raw_bytes (Raw v) = Some v"
| "raw_bytes (Sealed key context p) = None"

definition confirm_send_tx :: "message \<Rightarrow> bool dbtx" where
  "confirm_send_tx m =
    (if m_transaction_id m = [] \<or> m_id m = [] then return_tx False
     else bind_tx (bget BOutboxTxn (m_transaction_id m)) (\<lambda>v.
       case Option.bind v raw_bytes of None \<Rightarrow> return_tx False
       | Some i \<Rightarrow> bind_tx (read_outbox i) (\<lambda>out. bind_tx epoch (\<lambda>ep.
           if o_session_epoch out \<noteq> ep
              \<or> (q_kind (o_request out) \<noteq> [] \<and> q_kind (o_request out) \<noteq> ''message'')
              \<or> q_conversation_id (o_request out) \<noteq> m_conversation_id m
              \<or> o_state out = ''queued'' \<or> o_state out = ''canceled'' \<or> o_state out = ''confirmed''
           then return_tx False
           else bind_tx (read_tx clock) (\<lambda>now.
             then_tx (write_outbox (out\<lparr>o_state := ''confirmed'', o_message_id := m_id m,
               o_detail := observed_detail, o_updated := now\<rparr>)) (return_tx True))))))"

definition outbox_get :: "string \<Rightarrow> outbox dbtx" where
  "outbox_get i = read_outbox i"

definition cancel_queued :: "string \<Rightarrow> outbox dbtx" where
  "cancel_queued i = bind_tx (read_outbox i) (\<lambda>out.
     if o_state out = ''canceled'' then return_tx out
     else if o_state out \<noteq> ''queued'' then fail_tx ErrConflict
     else bind_tx (read_tx clock) (\<lambda>now.
       let out' = out\<lparr>o_state := ''canceled'', o_updated := now\<rparr> in
       then_tx (write_outbox out') (return_tx out')))"

definition claim_queued :: "string \<Rightarrow> outbox dbtx" where
  "claim_queued i = bind_tx (read_outbox i) (\<lambda>out.
     if o_state out \<noteq> ''queued'' then fail_tx ErrConflict
     else bind_tx (read_tx clock) (\<lambda>now.
       let out' = out\<lparr>o_state := ''sending'', o_updated := now\<rparr> in
       then_tx (write_outbox out') (return_tx out')))"

definition reject_queued :: "string \<Rightarrow> string \<Rightarrow> unit dbtx" where
  "reject_queued i detail = bind_tx (read_outbox i) (\<lambda>out.
     if o_state out \<noteq> ''queued'' then fail_tx ErrConflict
     else bind_tx (read_tx clock) (\<lambda>now.
       write_outbox (out\<lparr>o_state := ''rejected'', o_detail := detail, o_updated := now\<rparr>)))"

definition pairing_changed_detail :: string where
  "pairing_changed_detail = ''Pairing changed; review the recipient and submit again''"

definition cancel_queued_for_pairing :: "unit dbtx" where
  "cancel_queued_for_pairing =
     bind_tx (each_outbox (\<lambda>out pending.
       return_tx (if o_state out = ''queued'' then pending @ [out] else pending)) [])
     (for_tx (\<lambda>out. bind_tx (read_tx clock) (\<lambda>now.
       write_outbox (out\<lparr>o_state := ''canceled'', o_detail := pairing_changed_detail,
         o_updated := now\<rparr>))))"

section \<open>Loops over the outbox\<close>

definition outbox_records :: "store \<Rightarrow> outbox list" where
  "outbox_records s = map (\<lambda>kv. the (outbox_at s (fst kv))) (pairs s BOutbox)"

lemma fold_outbox_Inr:
  assumes f: "\<And>out a s x s'. f out a s = Inr (x, s') \<Longrightarrow> x = g (clock s) out a \<and> frame B s s'"
    and B: "BOutbox \<notin> B"
    and "fold_tx (\<lambda>kv acc. bind_tx (read_outbox (fst kv)) (\<lambda>out. f out acc)) found acc s = Inr (x, s')"
  shows "x = fold (g (clock s)) (map (\<lambda>kv. the (outbox_at s (fst kv))) found) acc \<and> frame B s s' \<and>
    (\<forall>kv \<in> set found. outbox_at s (fst kv) \<noteq> None)"
  using assms(3)
proof (induction found arbitrary: acc s)
  case (Cons kv found)
  then obtain out a t where step: "outbox_at s (fst kv) = Some out" "f out acc s = Inr (a, t)"
    and rest: "fold_tx (\<lambda>kv acc. bind_tx (read_outbox (fst kv)) (\<lambda>out. f out acc)) found a t = Inr (x, s')"
    by (auto simp: tx_elims)
  from f [OF step(2)] have a: "a = g (clock s) out acc" and fr: "frame B s t" by simp_all
  have same: "outbox_at t k = outbox_at s k" for k
    by (rule outbox_at_frame [OF fr B])
  from Cons.IH [OF rest] show ?case
    using a step(1) frame_clock [OF fr] frame.R_trans [OF fr] by (simp add: same)
qed simp

lemma each_outbox_Inr:
  assumes "\<And>out a s x s'. f out a s = Inr (x, s') \<Longrightarrow> x = g (clock s) out a \<and> frame B s s'"
    and "BOutbox \<notin> B" and "each_outbox f acc s = Inr (x, s')"
  shows "x = fold (g (clock s)) (outbox_records s) acc \<and> frame B s s' \<and>
    (\<forall>kv \<in> set (pairs s BOutbox). outbox_at s (fst kv) \<noteq> None)"
proof -
  from assms(3) have
    "fold_tx (\<lambda>kv acc. bind_tx (read_outbox (fst kv)) (\<lambda>out. f out acc)) (pairs s BOutbox) acc s
     = Inr (x, s')"
    by (auto simp: each_outbox_def tx_elims kv_scan_all)
  from fold_outbox_Inr [OF assms(1,2) this] show ?thesis
    by (simp add: outbox_records_def)
qed

lemma outbox_at_pairs: "outbox_at s k = Some out \<Longrightarrow> \<exists>kv \<in> set (pairs s BOutbox). fst kv = k"
  by (auto simp: outbox_at_def stored_at_def lookup_pairs Option.bind_eq_Some_conv intro!: bexI dest!: map_of_SomeD)

lemma outbox_records_iff:
  assumes "\<forall>kv \<in> set (pairs s BOutbox). outbox_at s (fst kv) \<noteq> None"
  shows "out \<in> set (outbox_records s) \<longleftrightarrow> (\<exists>k. outbox_at s k = Some out)"
  using assms outbox_at_pairs [of s _ out]
  by (force simp: outbox_records_def image_iff)

text \<open>Writing a list of records one after the other.\<close>

definition overwrite :: "(string \<Rightarrow> outbox option) \<Rightarrow> outbox list \<Rightarrow> (string \<Rightarrow> outbox option)" where
  "overwrite m outs = foldl (\<lambda>m out. m(o_id out \<mapsto> out)) m outs"

lemma overwrite_Nil [simp]: "overwrite m [] = m"
  by (simp add: overwrite_def)

lemma overwrite_Cons [simp]: "overwrite m (out # outs) = overwrite (m(o_id out \<mapsto> out)) outs"
  by (simp add: overwrite_def)

lemma overwrite_cases:
  "(overwrite m outs k = m k \<and> k \<notin> o_id ` set outs) \<or>
   (\<exists>out \<in> set outs. o_id out = k \<and> overwrite m outs k = Some out)"
  by (induction outs rule: rev_induct) (auto simp: overwrite_def)

lemma for_write_outbox:
  assumes w: "\<And>out s u s'. w out s = Inr (u, s') \<Longrightarrow> write_outbox (g (clock s) out) s = Inr (u, s')"
    and "for_tx w outs s = Inr (u, s')"
  shows "outbox_at s' = overwrite (outbox_at s) (map (g (clock s)) outs)
    \<and> frame {BOutbox, BEvents, BLatest, BMessageIndex} s s'"
  using assms(2)
proof (induction outs arbitrary: s)
  case (Cons out outs)
  then obtain t v where step: "w out s = Inr (v, t)" and rest: "for_tx w outs t = Inr (u, s')"
    by (auto simp: tx_elims)
  note wr = write_outbox_Inr [OF w [OF step]]
  have "outbox_at t = (outbox_at s)(o_id (g (clock s) out) \<mapsto> g (clock s) out)"
    using wr(1) by (simp add: fun_eq_iff)
  then have "outbox_at s' = overwrite (outbox_at s) (map (g (clock s)) (out # outs))"
    using Cons.IH [OF rest] wr(2) by (simp only: list.map overwrite_Cons)
  then show ?case
    using Cons.IH [OF rest] wr(4) frame.R_trans by blast
qed simp

section \<open>Every operation adds to the log\<close>

lemma each_outbox_log_grows [grows]:
  "(\<And>out acc. upholds log_grows (f out acc)) \<Longrightarrow> upholds log_grows (each_outbox f acc)"
  unfolding each_outbox_def by (intro log_grows.rules grows)

lemma outbox_log_grows [grows]:
  "upholds log_grows (enqueue i txn req)"
  "upholds log_grows claim"
  "upholds log_grows (finish i result detail)"
  "upholds log_grows recover_sending"
  "upholds log_grows (confirm_send_tx m)"
  "upholds log_grows (cancel_queued i)"
  "upholds log_grows (claim_queued i)"
  "upholds log_grows (reject_queued i detail)"
  "upholds log_grows cancel_queued_for_pairing"
  unfolding enqueue_def claim_def finish_def recover_sending_def confirm_send_tx_def
    cancel_queued_def claim_queued_def reject_queued_def cancel_queued_for_pairing_def Let_def
  by (intro log_grows.rules grows; simp)+

section \<open>Every operation advances the outbox\<close>

lemma moved_record:
  assumes wr: "write_outbox w s = Inr (u, s')" and at: "outbox_at s i = Some out" "o_id w = o_id out"
    and mv: "o_state out \<in> outbox_states \<Longrightarrow> outbox_moves out w"
  shows "outbox_advances s s'"
proof (cases "outbox_keyed s")
  case True
  then have "o_id w = i" "outbox_moves out w"
    using at mv by (auto simp: outbox_keyed_def)
  with at show ?thesis
    by (intro write_advances [OF wr, where old = out]) auto
qed (simp add: outbox_advances_def)

lemma outbox_state_le_edges [simp]:
  "outbox_state_le ''queued'' ''sending''"
  "outbox_state_le ''queued'' ''canceled''"
  "outbox_state_le ''queued'' ''rejected''"
  "outbox_state_le ''sending'' ''accepted''"
  "outbox_state_le ''sending'' ''rejected''"
  "outbox_state_le ''sending'' ''ambiguous''"
  "st \<in> {''sending'', ''accepted'', ''rejected'', ''ambiguous''} \<Longrightarrow> outbox_state_le st ''confirmed''"
  by (auto intro!: outbox_state_le_edge outbox_edge.intros)

text \<open>The oldest queued record, in key order among equal times.\<close>

lemma fold_older_queued:
  "(fold older_queued outs acc = None \<longleftrightarrow> acc = None \<and> (\<forall>q \<in> set outs. o_state q \<noteq> ''queued'')) \<and>
   (\<forall>p. fold older_queued outs acc = Some p \<longrightarrow>
      (acc = Some p \<or> p \<in> set outs \<and> o_state p = ''queued'') \<and>
      (\<forall>q. acc = Some q \<longrightarrow> o_created p \<le> o_created q) \<and>
      (\<forall>q \<in> set outs. o_state q = ''queued'' \<longrightarrow> o_created p \<le> o_created q))"
proof (induction outs arbitrary: acc)
  case (Cons out outs)
  note IH = Cons.IH [of "older_queued out acc"]
  show ?case
  proof (cases "older_queued out acc = acc")
    case True
    then have "o_state out = ''queued'' \<Longrightarrow> \<exists>q. acc = Some q \<and> o_created q \<le> o_created out"
      by (auto simp: older_queued_def split: if_splits option.splits)
    with IH True show ?thesis by fastforce
  next
    case False
    then have "older_queued out acc = Some out" "o_state out = ''queued''"
      "\<And>q. acc = Some q \<Longrightarrow> o_created out < o_created q"
      by (auto simp: older_queued_def split: if_splits)
    with IH show ?thesis by fastforce
  qed
qed simp

lemma each_outbox_pure:
  assumes "each_outbox (\<lambda>out a. return_tx (g out a)) acc s = Inr (x, s')"
  shows "s' = s \<and> x = fold g (outbox_records s) acc \<and>
    (\<forall>out. out \<in> set (outbox_records s) \<longleftrightarrow> (\<exists>k. outbox_at s k = Some out))"
proof -
  have "x = fold g (outbox_records s) acc \<and> frame {} s s' \<and>
    (\<forall>kv \<in> set (pairs s BOutbox). outbox_at s (fst kv) \<noteq> None)"
    by (rule each_outbox_Inr [where g = "\<lambda>_. g", OF _ _ assms]) auto
  moreover from this have "s' = s"
    by (cases s; cases s') (auto simp: frame_def)
  ultimately show ?thesis using outbox_records_iff by blast
qed

lemma claim_Inr:
  assumes "claim s = Inr (r, s')"
  shows "case r of
      None \<Rightarrow> s' = s \<and> (\<forall>k out. outbox_at s k = Some out \<longrightarrow> o_state out \<noteq> ''queued'')
    | Some out' \<Rightarrow> \<exists>k out. outbox_at s k = Some out \<and> o_state out = ''queued'' \<and>
        out' = out\<lparr>o_state := ''sending'', o_updated := clock s\<rparr> \<and>
        write_outbox out' s = Inr ((), s') \<and>
        (\<forall>k q. outbox_at s k = Some q \<and> o_state q = ''queued'' \<longrightarrow> o_created out \<le> o_created q)"
proof -
  from assms obtain x t where
    loop: "each_outbox (\<lambda>out oldest. return_tx (older_queued out oldest)) None s = Inr (x, t)"
    and rest: "(case x of None \<Rightarrow> return_tx None
     | Some out \<Rightarrow> bind_tx (read_tx clock) (\<lambda>now.
         let out' = out\<lparr>o_state := ''sending'', o_updated := now\<rparr> in
         then_tx (write_outbox out') (return_tx (Some out')))) t = Inr (r, s')"
    by (auto simp: claim_def tx_elims)
  from each_outbox_pure [OF loop] have "t = s" and x: "x = fold older_queued (outbox_records s) None"
    and mem: "\<And>out. out \<in> set (outbox_records s) \<longleftrightarrow> (\<exists>k. outbox_at s k = Some out)"
    by auto
  show ?thesis
  proof (cases x)
    case None
    with rest \<open>t = s\<close> x mem fold_older_queued [of "outbox_records s" None] show ?thesis
      by (auto simp: tx_elims)
  next
    case (Some out)
    have "out \<in> set (outbox_records s)" "o_state out = ''queued''"
      "\<forall>q \<in> set (outbox_records s). o_state q = ''queued'' \<longrightarrow> o_created out \<le> o_created q"
      using fold_older_queued [of "outbox_records s" None] Some x by auto
    with rest \<open>t = s\<close> mem Some show ?thesis
      by (auto simp: tx_elims Let_def)
  qed
qed

text \<open>A loop that writes moved records back.\<close>

lemma overwrite_advances:
  assumes "outbox_at s' = overwrite (outbox_at s) outs"
    and "\<And>w. w \<in> set outs \<Longrightarrow> \<exists>k out. outbox_at s k = Some out \<and> outbox_moves out w"
  shows "outbox_advances s s'"
  unfolding outbox_advances_def
proof (intro impI conjI allI)
  assume keyed: "outbox_keyed s"
  have states: "o_state w \<in> outbox_states" if "w \<in> set outs" for w
    using assms(2) [OF that] keyed
    by (auto simp: outbox_keyed_def outbox_moves_def dest: outbox_state_le_states)
  have w: "\<exists>out. outbox_at s (o_id w) = Some out \<and> outbox_moves out w" if "w \<in> set outs" for w
    using assms(2) [OF that] keyed by (auto simp: outbox_keyed_def outbox_moves_def)
  show "outbox_keyed s'"
    unfolding outbox_keyed_def
  proof (intro allI impI conjI)
    fix k out
    assume "outbox_at s' k = Some out"
    then show "o_id out = k" and "o_state out \<in> outbox_states"
      using overwrite_cases [of "outbox_at s" outs k] keyed states
      by (auto simp: assms(1) outbox_keyed_def)
  qed
  fix k out
  assume old: "outbox_at s k = Some out"
  show "\<exists>out'. outbox_at s' k = Some out' \<and> outbox_moves out out'"
    using overwrite_cases [of "outbox_at s" outs k]
  proof
    assume "\<exists>w \<in> set outs. o_id w = k \<and> overwrite (outbox_at s) outs k = Some w"
    then show ?thesis using old w assms(1) by fastforce
  qed (use old assms(1) in simp)
qed

lemma recover_sending_Inr:
  assumes "recover_sending s = Inr (u, s')"
  defines "moved \<equiv> map (\<lambda>out. out\<lparr>o_state := ''ambiguous'', o_detail := stopped_detail,
      o_updated := clock s\<rparr>) (filter (\<lambda>out. o_state out = ''sending'') (outbox_records s))"
  shows "outbox_at s' = overwrite (outbox_at s) moved"
    and "out \<in> set (outbox_records s) \<longleftrightarrow> (\<exists>k. outbox_at s k = Some out)"
proof -
  let ?body = "\<lambda>out records. then_tx (bput BOutboxTxn (o_transaction_id out) (Raw (o_id out)))
       (if o_state out = ''sending''
        then bind_tx (read_tx clock) (\<lambda>now. return_tx (records @ [out\<lparr>o_state := ''ambiguous'',
               o_detail := stopped_detail, o_updated := now\<rparr>]))
        else return_tx records)"
  let ?g = "\<lambda>now out records. if o_state out = ''sending'' then records @ [out\<lparr>o_state := ''ambiguous'',
               o_detail := stopped_detail, o_updated := now\<rparr>] else records"
  from assms(1) obtain x t where loop: "each_outbox ?body [] s = Inr (x, t)"
    and rest: "for_tx write_outbox x t = Inr (u, s')"
    by (auto simp: recover_sending_def tx_elims)
  have lp: "x = fold (?g (clock s)) (outbox_records s) [] \<and> frame {BOutboxTxn} s t \<and>
    (\<forall>kv \<in> set (pairs s BOutbox). outbox_at s (fst kv) \<noteq> None)"
    by (rule each_outbox_Inr [OF _ _ loop]) (auto simp: tx_elims split: if_splits)
  from lp have x: "x = moved" by (simp add: moved_def fold_collect)
  have "outbox_at t = outbox_at s"
    using lp outbox_at_frame [of "{BOutboxTxn}" s t] by (simp add: fun_eq_iff)
  moreover have "outbox_at s' = overwrite (outbox_at t) (map (\<lambda>out. out) x)"
    using for_write_outbox [where g = "\<lambda>_ out. out", OF _ rest] by blast
  ultimately show "outbox_at s' = overwrite (outbox_at s) moved"
    by (simp add: x)
  show "out \<in> set (outbox_records s) \<longleftrightarrow> (\<exists>k. outbox_at s k = Some out)"
    using lp outbox_records_iff by blast
qed

lemma cancel_queued_for_pairing_Inr:
  assumes "cancel_queued_for_pairing s = Inr (u, s')"
  defines "moved \<equiv> map (\<lambda>out. out\<lparr>o_state := ''canceled'', o_detail := pairing_changed_detail,
      o_updated := clock s\<rparr>) (filter (\<lambda>out. o_state out = ''queued'') (outbox_records s))"
  shows "outbox_at s' = overwrite (outbox_at s) moved"
    and "out \<in> set (outbox_records s) \<longleftrightarrow> (\<exists>k. outbox_at s k = Some out)"
    and "frame {BOutbox, BEvents, BLatest, BMessageIndex} s s'"
proof -
  let ?g = "\<lambda>out pending. if o_state out = ''queued'' then pending @ [out] else pending"
  let ?w = "\<lambda>now out. out\<lparr>o_state := ''canceled'', o_detail := pairing_changed_detail, o_updated := now\<rparr>"
  from assms(1) obtain x t where
    loop: "each_outbox (\<lambda>out pending. return_tx (?g out pending)) [] s = Inr (x, t)"
    and rest: "for_tx (\<lambda>out. bind_tx (read_tx clock) (\<lambda>now. write_outbox (?w now out))) x t = Inr (u, s')"
    by (auto simp: cancel_queued_for_pairing_def tx_elims)
  note lp = each_outbox_pure [OF loop]
  from lp have x: "map (?w (clock s)) x = moved"
    by (simp add: moved_def fold_pick)
  have "outbox_at s' = overwrite (outbox_at t) (map (?w (clock t)) x) \<and>
      frame {BOutbox, BEvents, BLatest, BMessageIndex} t s'"
    by (rule for_write_outbox [where g = ?w, OF _ rest]) (auto simp: tx_elims)
  with lp x show "outbox_at s' = overwrite (outbox_at s) moved"
    and "frame {BOutbox, BEvents, BLatest, BMessageIndex} s s'"
    by simp_all
  show "out \<in> set (outbox_records s) \<longleftrightarrow> (\<exists>k. outbox_at s k = Some out)"
    using lp by blast
qed

text \<open>The contract, operation by operation.\<close>

named_theorems advances \<open>operations under which the outbox only advances\<close>

lemma quiet_advances: "upholds (frame B) m \<Longrightarrow> BOutbox \<notin> B \<Longrightarrow> upholds outbox_advances m"
  by (erule upholds_mono) (rule frame_outbox_advances)

lemma outbox_moves_update [simp]:
  "outbox_moves out (out\<lparr>o_state := st, o_updated := now\<rparr>) \<longleftrightarrow> outbox_state_le (o_state out) st"
  "outbox_moves out (out\<lparr>o_state := st, o_detail := d, o_updated := now\<rparr>) \<longleftrightarrow>
     outbox_state_le (o_state out) st"
  "outbox_moves out (out\<lparr>o_state := st, o_message_id := mid, o_detail := d, o_updated := now\<rparr>) \<longleftrightarrow>
     outbox_state_le (o_state out) st"
  "outbox_moves out (out\<lparr>o_detail := d, o_conversation_id := c, o_state := st, o_updated := now\<rparr>) \<longleftrightarrow>
     outbox_state_le (o_state out) st"
  by (simp_all add: outbox_moves_def)

lemma enqueue_advances [advances]: "upholds outbox_advances (enqueue i txn req)"
proof
  fix s x s'
  assume run: "enqueue i txn req s = Inr (x, s')"
  show "outbox_advances s s'"
  proof (cases "read_outbox i s")
    case (Inr r)
    with run have "s' = s"
      by (cases r) (auto simp: enqueue_def bind_tx_def attempt_tx_def read_outbox_Inr return_tx_def
          fail_tx_def split: if_splits)
    then show ?thesis by (simp add: outbox_advances.R_refl)
  next
    case (Inl e)
    with run obtain t where e: "errors_is e ErrNotFound" and
      t: "bput BOutboxTxn txn (Raw i) s = Inr ((), t)"
        "write_outbox (new_outbox i txn req (epoch_of s) (clock s)) t = Inr ((), s')"
      by (auto simp: enqueue_def bind_tx_Inr attempt_tx_def tx_elims Let_def split: if_splits)
    from e Inl have "outbox_at s i = None"
      by (cases e) (auto intro: read_outbox_NotFound)
    moreover have "frame {BOutboxTxn} s t"
      using t(1) by (auto simp: bput_Inr)
    ultimately have "outbox_at t i = None" and fr: "outbox_advances s t"
      by (simp_all add: outbox_at_frame frame_outbox_advances)
    then have "outbox_advances t s'"
      by (intro write_advances [OF t(2), where old = undefined]) (simp_all add: new_outbox_def outbox_states_def)
    with fr show ?thesis by (rule outbox_advances.R_trans)
  qed
qed

lemma claim_advances [advances]: "upholds outbox_advances claim"
proof
  fix s r s'
  assume run: "claim s = Inr (r, s')"
  show "outbox_advances s s'"
    using claim_Inr [OF run]
    by (cases r) (auto intro: moved_record outbox_advances.R_refl)
qed

lemma single_advances [advances]:
  "upholds outbox_advances (finish i result detail)"
  "upholds outbox_advances (cancel_queued i)"
  "upholds outbox_advances (claim_queued i)"
  "upholds outbox_advances (reject_queued i detail)"
  by (rule upholdsI; auto simp: finish_def cancel_queued_def claim_queued_def reject_queued_def
      tx_elims Let_def intro: moved_record outbox_advances.R_refl split: if_splits)+

lemma confirm_advances [advances]: "upholds outbox_advances (confirm_send_tx m)"
proof
  fix s b s'
  assume "confirm_send_tx m s = Inr (b, s')"
  then consider "s' = s" | i out u where "outbox_at s i = Some out" "o_state out \<noteq> ''queued''"
      "o_state out \<noteq> ''canceled''" "o_state out \<noteq> ''confirmed''"
      "write_outbox (out\<lparr>o_state := ''confirmed'', o_message_id := m_id m,
         o_detail := observed_detail, o_updated := clock s\<rparr>) s = Inr (u, s')"
    by (auto simp: confirm_send_tx_def tx_elims split: if_splits option.splits)
  then show "outbox_advances s s'"
  proof cases
    case 1
    then show ?thesis by (simp add: outbox_advances.R_refl)
  next
    case 2
    then have "o_state out \<in> outbox_states \<Longrightarrow> outbox_state_le (o_state out) ''confirmed''"
      by (auto simp: outbox_states_def)
    with 2 show ?thesis by (auto intro: moved_record)
  qed
qed

lemma recover_advances [advances]: "upholds outbox_advances recover_sending"
proof
  fix s u s'
  assume run: "recover_sending s = Inr (u, s')"
  let ?f = "\<lambda>out :: outbox. out\<lparr>o_state := ''ambiguous'', o_detail := stopped_detail, o_updated := clock s\<rparr>"
  let ?P = "\<lambda>out :: outbox. o_state out = ''sending''"
  show "outbox_advances s s'"
  proof (rule overwrite_advances [OF recover_sending_Inr(1) [OF run]])
    fix w
    assume "w \<in> set (map ?f (filter ?P (outbox_records s)))"
    then obtain out where out: "out \<in> set (outbox_records s)" "?P out" "w = ?f out" by auto
    then obtain k where "outbox_at s k = Some out"
      using recover_sending_Inr(2) [OF run] by blast
    with out show "\<exists>k out. outbox_at s k = Some out \<and> outbox_moves out w"
      by (intro exI [of _ k] exI [of _ out]) simp
  qed
qed

lemma cancel_for_pairing_advances [advances]: "upholds outbox_advances cancel_queued_for_pairing"
proof
  fix s u s'
  assume run: "cancel_queued_for_pairing s = Inr (u, s')"
  let ?f = "\<lambda>out :: outbox. out\<lparr>o_state := ''canceled'', o_detail := pairing_changed_detail,
      o_updated := clock s\<rparr>"
  let ?P = "\<lambda>out :: outbox. o_state out = ''queued''"
  show "outbox_advances s s'"
  proof (rule overwrite_advances [OF cancel_queued_for_pairing_Inr(1) [OF run]])
    fix w
    assume "w \<in> set (map ?f (filter ?P (outbox_records s)))"
    then obtain out where out: "out \<in> set (outbox_records s)" "?P out" "w = ?f out" by auto
    then obtain k where "outbox_at s k = Some out"
      using cancel_queued_for_pairing_Inr(2) [OF run] by blast
    with out show "\<exists>k out. outbox_at s k = Some out \<and> outbox_moves out w"
      by (intro exI [of _ k] exI [of _ out]) simp
  qed
qed

lemma frame_each_outbox [frames]:
  "(\<And>out acc. upholds (frame B) (f out acc)) \<Longrightarrow> upholds (frame B) (each_outbox f acc)"
  unfolding each_outbox_def by (intro frame.rules frames)

lemma frame_outbox_ops [frames]:
  assumes "{BOutbox, BOutboxTxn, BEvents, BLatest, BMessageIndex} \<subseteq> B"
  shows "upholds (frame B) (enqueue i txn req)"
    "upholds (frame B) claim"
    "upholds (frame B) (finish i result detail)"
    "upholds (frame B) recover_sending"
    "upholds (frame B) (cancel_queued i)"
    "upholds (frame B) (claim_queued i)"
    "upholds (frame B) (reject_queued i detail)"
    "upholds (frame B) cancel_queued_for_pairing"
  using assms
  unfolding enqueue_def claim_def finish_def recover_sending_def
    cancel_queued_def claim_queued_def reject_queued_def cancel_queued_for_pairing_def Let_def
  by (intro frame.rules frames; simp)+

lemma frame_confirm [frames]:
  "{BOutbox, BEvents, BLatest, BMessageIndex} \<subseteq> B \<Longrightarrow> upholds (frame B) (confirm_send_tx m)"
  unfolding confirm_send_tx_def by (intro frame.rules frames; simp)

lemma outbox_versioned [versioned]:
  "upholds versions_grow (enqueue i txn req)"
  "upholds versions_grow claim"
  "upholds versions_grow (finish i result detail)"
  "upholds versions_grow recover_sending"
  "upholds versions_grow (confirm_send_tx m)"
  "upholds versions_grow (cancel_queued i)"
  "upholds versions_grow (claim_queued i)"
  "upholds versions_grow (reject_queued i detail)"
  "upholds versions_grow cancel_queued_for_pairing"
  "upholds versions_grow (read_outbox i)"
  "upholds versions_grow (write_outbox out)"
  by (rule quiet_versioned [where B = "UNIV - {BVersions}"], rule frames, simp_all)+

end
