(* ===== verification/ConversationStore.thy ===== *)
theory ConversationStore
  imports OutboxStore
begin

text \<open>
  Conversation snapshots, from \<open>conversation.go\<close>: the newest stored message of each conversation,
  the preview and unread badge derived from it, and the rewriting of incoming and stored
  snapshots so that a preview never moves back in time.
\<close>

section \<open>The newest message of a conversation\<close>

record latest_message =
  l_message_id :: string
  l_time :: time
  l_preview :: string
  l_sender_id :: string
  l_direction :: string

definition zero_latest :: latest_message where
  "zero_latest = \<lparr>l_message_id = [], l_time = 0, l_preview = [], l_sender_id = [], l_direction = []\<rparr>"

definition enc_latest :: "latest_message \<Rightarrow> json" where
  "enc_latest l = JObj (jstr ''message_id'' (l_message_id l) @ jtime ''time'' (l_time l) @
     jstr ''preview'' (l_preview l) @ omit (l_sender_id l = []) (jstr ''sender_id'' (l_sender_id l)) @
     omit (l_direction l = []) (jstr ''direction'' (l_direction l)))"

definition set_latest :: "string \<Rightarrow> json \<Rightarrow> latest_message \<Rightarrow> latest_message option" where
  "set_latest k v l =
    (if k = ''message_id'' then map_option (\<lambda>x. l\<lparr>l_message_id := x\<rparr>) (as_str v (l_message_id l))
     else if k = ''time'' then map_option (\<lambda>x. l\<lparr>l_time := x\<rparr>) (as_time v (l_time l))
     else if k = ''preview'' then map_option (\<lambda>x. l\<lparr>l_preview := x\<rparr>) (as_str v (l_preview l))
     else if k = ''sender_id'' then map_option (\<lambda>x. l\<lparr>l_sender_id := x\<rparr>) (as_str v (l_sender_id l))
     else if k = ''direction'' then map_option (\<lambda>x. l\<lparr>l_direction := x\<rparr>) (as_str v (l_direction l))
     else Some l)"

definition dec_latest :: "json \<Rightarrow> latest_message option" where
  "dec_latest = decode_struct set_latest zero_latest"

interpretation latest_codec: json_codec enc_latest dec_latest
proof unfold_locales
  show "dec_latest (enc_latest x) = Some x" for x
    by (cases x) (simp add: enc_latest_def dec_latest_def set_latest_def zero_latest_def json_members
        decode_omit decode_omit_last)
qed

definition unread_window :: time where "unread_window = 5 * minute"

definition preview_source :: "payload \<Rightarrow> (message \<times> latest_message) option" where
  "preview_source data = (case unmarshal dec_message data of Inl e \<Rightarrow> None
     | Inr m \<Rightarrow>
        if m_schema m \<noteq> Schema \<or> m_id m = [] \<or> m_conversation_id m = [] \<or> m_time m = 0 then None
        else
          let m' = (if m_deleted m then m\<lparr>m_text := ''Message deleted'', m_attachments := []\<rparr> else m);
              l = \<lparr>l_message_id = m_id m', l_time = m_time m', l_preview = preview_text m',
                   l_sender_id = m_sender_id m', l_direction = m_direction m'\<rparr>
          in if l_preview l \<noteq> [] then Some (m', l) else None)"

definition unread_after :: "time \<Rightarrow> message \<Rightarrow> bool \<Rightarrow> string \<Rightarrow> bool option" where
  "unread_after now m fresh previous_status =
    (if m_direction m = ''incoming'' \<and> contains_str (m_status m) ''displayed'' \<and>
        \<not> contains_str previous_status ''displayed'' then Some False
     else if \<not> fresh then None
     else if m_direction m = ''outgoing'' then Some False
     else if m_direction m = ''incoming'' \<and> \<not> contains_str (m_status m) ''displayed'' \<and>
        now - m_time m \<le> unread_window then Some True
     else None)"

definition latest_context :: "string \<Rightarrow> string" where
  "latest_context conversation_id = ''conversation-latest:'' @ conversation_id"

definition latest_message_tx :: "string \<Rightarrow> latest_message option dbtx" where
  "latest_message_tx conversation_id = bind_tx (has_bucket BConversationLatest) (\<lambda>present.
     if \<not> present then return_tx None
     else bget_sealed BConversationLatest (latest_context conversation_id) dec_latest conversation_id)"

definition put_latest_message_tx :: "string \<Rightarrow> latest_message \<Rightarrow> unit dbtx" where
  "put_latest_message_tx conversation_id l =
     put_sealed BConversationLatest conversation_id (latest_context conversation_id)
       (JText (enc_latest l))"

definition latest_at :: "store \<Rightarrow> string \<Rightarrow> latest_message option" where
  "latest_at s conversation_id =
     stored_at s BConversationLatest (latest_context conversation_id) dec_latest conversation_id"

text \<open>\<open>previous.Time.After(l.Time) || previous.Time.Equal(l.Time) && previous.MessageID > l.MessageID\<close>.\<close>

definition newer_message :: "latest_message \<Rightarrow> latest_message \<Rightarrow> bool" where
  "newer_message p l \<longleftrightarrow>
     l_time p > l_time l \<or> (l_time p = l_time l \<and> l_message_id p > l_message_id l)"

text \<open>The mutated conversation, and whether it changed.\<close>

definition merge_latest_message :: "conversation \<Rightarrow> latest_message \<Rightarrow> bool option \<Rightarrow> conversation \<times> bool" where
  "merge_latest_message c l unread =
    (if l_time l < c_updated c then (c, False)
     else
       let changed = (c_preview c \<noteq> l_preview l \<or> c_preview_sender_id c \<noteq> l_sender_id l \<or>
             c_preview_direction c \<noteq> l_direction l \<or> l_time l > c_updated c);
           c1 = c\<lparr>c_preview := l_preview l, c_preview_sender_id := l_sender_id l,
                  c_preview_direction := l_direction l\<rparr>;
           c2 = (if l_time l > c_updated c then c1\<lparr>c_updated := l_time l\<rparr> else c1);
           (c3, changed) =
             (if unread \<noteq> None \<and> c_protocol c2 = ''whatsapp'' then
                if the unread then (c2\<lparr>c_unread_count := c_unread_count c2 + 1\<rparr>, True)
                else if c_unread_count c2 \<noteq> 0 then (c2\<lparr>c_unread_count := 0\<rparr>, True)
                else (c2, changed)
              else (c2, changed))
       in if unread \<noteq> None \<and> c_unread c3 \<noteq> the unread
          then (c3\<lparr>c_unread := the unread\<rparr>, True) else (c3, changed))"

section \<open>Rewriting snapshots\<close>

definition conversation_key :: "string \<Rightarrow> string" where
  "conversation_key i = entity_key ''conversation'' i"

definition conversation_at :: "store \<Rightarrow> string \<Rightarrow> conversation option" where
  "conversation_at s i = stored_at s BLatest (conversation_key i) dec_conversation (conversation_key i)"

text \<open>The stored snapshot of the current session, when it is newer than the incoming one.\<close>

definition keep_stored :: "conversation \<Rightarrow> conversation \<Rightarrow> conversation \<times> bool" where
  "keep_stored stored c =
    (if c_updated stored > c_updated c then
       (c\<lparr>c_updated := c_updated stored, c_preview := c_preview stored,
          c_preview_sender_id := c_preview_sender_id stored,
          c_preview_direction := c_preview_direction stored,
          c_unread := c_unread stored, c_unread_count := c_unread_count stored\<rparr>, True)
     else (c, False))"

definition stored_preview_tx :: "conversation \<Rightarrow> (conversation \<times> bool) dbtx" where
  "stored_preview_tx c =
    (let key = conversation_key (c_id c) in
     bind_tx (bget BLatest key) (\<lambda>previous. case previous of None \<Rightarrow> return_tx (c, False)
     | Some v \<Rightarrow> bind_tx (entity_current_tx ''conversation'' (c_id c)) (\<lambda>current.
         if \<not> current then return_tx (c, False)
         else bind_tx (decrypt v key) (\<lambda>plain.
              bind_tx (lift_tx (unmarshal dec_conversation plain)) (\<lambda>stored.
              return_tx (keep_stored stored c))))))"

definition with_latest :: "latest_message option \<Rightarrow> conversation \<times> bool \<Rightarrow> conversation \<times> bool" where
  "with_latest l r = (case l of None \<Rightarrow> r
     | Some l \<Rightarrow> let m = merge_latest_message (fst r) l None in (fst m, snd m \<or> snd r))"

definition preview_conversation :: "payload \<Rightarrow> payload dbtx" where
  "preview_conversation data =
    (case unmarshal dec_conversation data of Inl e \<Rightarrow> return_tx data
     | Inr c \<Rightarrow>
       if c_schema c \<noteq> Schema \<or> c_id c = [] then return_tx data
       else
         bind_tx (stored_preview_tx c) (\<lambda>r.
         bind_tx (latest_message_tx (c_id c)) (\<lambda>l.
         let r' = with_latest l r in
         if \<not> snd r' then return_tx data else return_tx (JText (enc_conversation (fst r'))))))"

definition conversation_event :: "string \<Rightarrow> conversation \<Rightarrow> event" where
  "conversation_event i c = zero_event\<lparr>ev_type := ''conversation'', ev_entity_id := i,
     ev_data := JText (enc_conversation c)\<rparr>"

definition update_conversation_tx ::
    "string \<Rightarrow> (conversation \<Rightarrow> conversation \<times> bool) \<Rightarrow> bool dbtx" where
  "update_conversation_tx conversation_id mutate =
    (let key = conversation_key conversation_id in
     bind_tx (bget BLatest key) (\<lambda>stored. case stored of None \<Rightarrow> return_tx False
     | Some v \<Rightarrow> bind_tx (decrypt v key) (\<lambda>plain.
        case unmarshal dec_conversation plain of Inl e \<Rightarrow> return_tx False
        | Inr c \<Rightarrow>
          if c_schema c \<noteq> Schema then return_tx False
          else then_tx (observe_tx key)
            (let (c', changed) = mutate c in
             if \<not> changed then return_tx False
             else append_tx (conversation_event conversation_id c')))))"

definition mark_read :: "time \<Rightarrow> conversation \<Rightarrow> conversation \<times> bool" where
  "mark_read through c =
    (if c_updated c > through \<or> (\<not> c_unread c \<and> c_unread_count c = 0) then (c, False)
     else (c\<lparr>c_unread := False, c_unread_count := 0\<rparr>, True))"

definition read_conversation :: "string \<Rightarrow> time \<Rightarrow> bool dbtx" where
  "read_conversation conversation_id through = update_conversation_tx conversation_id (mark_read through)"

definition refresh_conversation_tx :: "payload \<Rightarrow> bool \<Rightarrow> string \<Rightarrow> bool dbtx" where
  "refresh_conversation_tx data fresh previous_status =
    (case preview_source data of None \<Rightarrow> return_tx False
     | Some (m, l) \<Rightarrow>
       bind_tx (latest_message_tx (m_conversation_id m)) (\<lambda>previous.
       if (case previous of None \<Rightarrow> False | Some p \<Rightarrow> newer_message p l) then return_tx False
       else then_tx (put_latest_message_tx (m_conversation_id m) l)
         (bind_tx (read_tx clock) (\<lambda>now.
          let unread = unread_after now m fresh previous_status in
          update_conversation_tx (m_conversation_id m) (\<lambda>c. merge_latest_message c l unread)))))"

text \<open>
  The newest message of every conversation among the stored ones.  Go's map \<open>newest\<close> is an
  association list here, in the order its keys were first met; Go ranges over it in an
  unspecified order.
\<close>

fun put_newest :: "string \<Rightarrow> latest_message \<Rightarrow> (string \<times> latest_message) list \<Rightarrow>
    (string \<times> latest_message) list" where
  "put_newest i l [] = [(i, l)]"
| "put_newest i l ((j, best) # rest) =
    (if i = j then (if newer_message best l then (j, best) # rest else (i, l) # rest)
     else (j, best) # put_newest i l rest)"

definition ensure_conversation_previews :: "unit dbtx" where
  "ensure_conversation_previews = bind_tx (has_bucket BConversationLatest) (\<lambda>present.
     if present then return_tx ()
     else then_tx (bcreate_new BConversationLatest)
       (bind_tx (bscan BLatest ''message:'') (\<lambda>found.
        bind_tx (fold_tx (\<lambda>kv newest. bind_tx (decrypt (snd kv) (fst kv)) (\<lambda>plain.
            return_tx (case preview_source plain of None \<Rightarrow> newest
              | Some (m, l) \<Rightarrow> put_newest (m_conversation_id m) l newest))) found []) (\<lambda>newest.
        for_tx (\<lambda>il. then_tx (put_latest_message_tx (fst il) (snd il))
            (then_tx (update_conversation_tx (fst il) (\<lambda>c. merge_latest_message c (snd il) None))
             (return_tx ()))) newest))))"

section \<open>What these operations touch\<close>

lemma frame_latest_message [frames]: "upholds (frame B) (latest_message_tx i)"
  unfolding latest_message_tx_def by (intro frame.rules frames)

lemma frame_put_latest [frames]:
  "BConversationLatest \<in> B \<Longrightarrow> upholds (frame B) (put_latest_message_tx i l)"
  unfolding put_latest_message_tx_def by (intro frames)

lemma frame_preview_conversation [frames]: "upholds (frame B) (preview_conversation data)"
  unfolding preview_conversation_def stored_preview_tx_def Let_def by (intro frame.rules frames)

lemma frame_update_conversation [frames]:
  "{BEvents, BLatest, BMessageIndex, BVersions} \<subseteq> B \<Longrightarrow>
   upholds (frame B) (update_conversation_tx i mutate)"
  unfolding update_conversation_tx_def Let_def
  by (intro frame.rules frames; simp)

lemma frame_read_conversation [frames]:
  "{BEvents, BLatest, BMessageIndex, BVersions} \<subseteq> B \<Longrightarrow> upholds (frame B) (read_conversation i through)"
  unfolding read_conversation_def by (rule frames)

lemma frame_refresh_conversation [frames]:
  "{BEvents, BLatest, BMessageIndex, BVersions, BConversationLatest} \<subseteq> B \<Longrightarrow>
   upholds (frame B) (refresh_conversation_tx data fresh st)"
  unfolding refresh_conversation_tx_def Let_def
  by (intro frame.rules frames; simp)

lemma frame_ensure_previews [frames]:
  "{BEvents, BLatest, BMessageIndex, BVersions, BConversationLatest} \<subseteq> B \<Longrightarrow>
   upholds (frame B) ensure_conversation_previews"
  unfolding ensure_conversation_previews_def
  by (intro frame.rules frames; simp)

lemma latest_message_log_grows [grows]: "upholds log_grows (latest_message_tx i)"
  unfolding latest_message_tx_def by (intro log_grows.rules grows)

lemma put_latest_log_grows [grows]: "upholds log_grows (put_latest_message_tx i l)"
  unfolding put_latest_message_tx_def by (intro grows; simp)

lemma preview_log_grows [grows]: "upholds log_grows (preview_conversation data)"
  unfolding preview_conversation_def stored_preview_tx_def Let_def by (intro log_grows.rules grows)

lemma update_conversation_log_grows [grows]: "upholds log_grows (update_conversation_tx i mutate)"
  unfolding update_conversation_tx_def Let_def by (intro log_grows.rules grows)

lemma conversation_log_grows [grows]:
  "upholds log_grows (read_conversation i through)"
  "upholds log_grows (refresh_conversation_tx data fresh st)"
  "upholds log_grows ensure_conversation_previews"
  unfolding read_conversation_def refresh_conversation_tx_def ensure_conversation_previews_def Let_def
  by (intro log_grows.rules grows; simp)+

lemma conversation_advances [advances]:
  "upholds outbox_advances (preview_conversation data)"
  "upholds outbox_advances (read_conversation i through)"
  "upholds outbox_advances (refresh_conversation_tx data fresh st)"
  "upholds outbox_advances ensure_conversation_previews"
  by (rule quiet_advances [where B = "{BEvents, BLatest, BMessageIndex, BVersions, BConversationLatest}"],
      rule frames, simp_all)+

lemma update_conversation_versioned [versioned]:
  "upholds versions_grow (update_conversation_tx i mutate)"
  unfolding update_conversation_tx_def Let_def by (intro versions_grow.rules versioned)

lemma latest_message_versioned [versioned]:
  "upholds versions_grow (latest_message_tx i)"
  "upholds versions_grow (put_latest_message_tx i l)"
  "upholds versions_grow (preview_conversation data)"
  by (rule quiet_versioned [where B = "UNIV - {BVersions}"], rule frames, simp_all)+

lemma conversation_versioned [versioned]:
  "upholds versions_grow (read_conversation i through)"
  "upholds versions_grow (refresh_conversation_tx data fresh st)"
  "upholds versions_grow ensure_conversation_previews"
  unfolding read_conversation_def refresh_conversation_tx_def ensure_conversation_previews_def Let_def
  by (intro versions_grow.rules versioned; simp)+

section \<open>Merging the newest message\<close>

lemma merge_older: "l_time l < c_updated c \<Longrightarrow> merge_latest_message c l unread = (c, False)"
  by (simp add: merge_latest_message_def)

lemma merge_fields:
  assumes "c_updated c \<le> l_time l" and "merge_latest_message c l unread = (c', changed)"
  shows "c_updated c' = l_time l" "c_preview c' = l_preview l"
    "c_preview_sender_id c' = l_sender_id l" "c_preview_direction c' = l_direction l"
    "c_id c' = c_id c" "c_schema c' = c_schema c" "c_participants c' = c_participants c"
    "c_unread c' = (case unread of None \<Rightarrow> c_unread c | Some u \<Rightarrow> u)"
  using assms
  by (cases unread; auto simp: merge_latest_message_def Let_def split: if_splits)+

text \<open>The flag says exactly whether the snapshot differs.\<close>

lemma merge_changed:
  assumes "merge_latest_message c l unread = (c', changed)"
  shows "changed \<longleftrightarrow> c' \<noteq> c"
proof (cases "l_time l < c_updated c")
  case True
  with assms show ?thesis by (simp add: merge_older)
next
  case False
  have inc: "(n :: u32) + 1 \<noteq> n" for n by simp
  show ?thesis
    using assms False inc
    by (cases c; cases unread) (auto simp: merge_latest_message_def Let_def split: if_splits)
qed

lemma newer_message_total: "\<not> newer_message p l \<Longrightarrow> p = l \<or> newer_message l p \<or>
    (l_time p = l_time l \<and> l_message_id p = l_message_id l)"
  by (auto simp: newer_message_def)

lemma not_newer_trans:
  "\<not> newer_message a b \<Longrightarrow> \<not> newer_message b c \<Longrightarrow> \<not> newer_message a c"
  by (auto simp: newer_message_def)

interpretation newer: strict_weak newer_message
  by unfold_locales (auto simp: newer_message_def)

section \<open>What a refresh stores\<close>

lemma latest_at_frame: "frame B s s' \<Longrightarrow> BConversationLatest \<notin> B \<Longrightarrow> latest_at s' i = latest_at s i"
  by (simp add: latest_at_def stored_at_frame [of B])

lemma latest_message_Inr:
  "latest_message_tx i s = Inr (x, s') \<Longrightarrow> x = latest_at s i \<and> s' = s"
  by (auto simp: latest_message_tx_def latest_at_def tx_elims stored_at_def lookup_def
      exists_bucket_def split: if_splits)

lemma put_latest_Inr:
  assumes "put_latest_message_tx i l s = Inr (u, s')"
  shows "latest_at s' j = (if j = i then Some l else latest_at s j)"
    and "frame {BConversationLatest} s s'"
  using assms by (auto simp: put_latest_message_tx_def put_sealed_Inr latest_at_def)

definition newest_of :: "latest_message option \<Rightarrow> latest_message \<Rightarrow> latest_message" where
  "newest_of previous l = (case previous of None \<Rightarrow> l | Some p \<Rightarrow> if newer_message p l then p else l)"

lemma refresh_latest:
  assumes run: "refresh_conversation_tx data fresh st s = Inr (changed, s')"
    and src: "preview_source data = Some (m, l)"
  shows "latest_at s' i = (if i = m_conversation_id m then Some (newest_of (latest_at s i) l)
                           else latest_at s i)"
proof -
  let ?cid = "m_conversation_id m"
  have "latest_message_tx ?cid s = Inr (latest_at s ?cid, s)"
    and rest: "(if (case latest_at s ?cid of None \<Rightarrow> False | Some p \<Rightarrow> newer_message p l) then return_tx False
       else then_tx (put_latest_message_tx ?cid l)
         (bind_tx (read_tx clock) (\<lambda>now.
          let unread = unread_after now m fresh st in
          update_conversation_tx ?cid (\<lambda>c. merge_latest_message c l unread)))) s = Inr (changed, s')"
    using run by (auto simp: refresh_conversation_tx_def src bind_tx_Inr dest: latest_message_Inr)
  show ?thesis
  proof (cases "case latest_at s ?cid of None \<Rightarrow> False | Some p \<Rightarrow> newer_message p l")
    case True
    with rest show ?thesis by (auto simp: newest_of_def split: option.splits)
  next
    case False
    with rest obtain t mutate where put: "put_latest_message_tx ?cid l s = Inr ((), t)"
      and upd: "update_conversation_tx ?cid mutate t = Inr (changed, s')"
      by (auto simp: tx_elims Let_def)
    have "frame {BEvents, BLatest, BMessageIndex, BVersions} t s'"
      by (rule upholdsD [OF frame_update_conversation upd]) simp
    then have "latest_at s' i = latest_at t i"
      by (rule latest_at_frame) simp
    with put_latest_Inr(1) [OF put] False show ?thesis
      by (auto simp: newest_of_def split: option.splits)
  qed
qed

text \<open>A stored conversation, and what an update leaves in its place.\<close>

lemma conversation_at_append:
  assumes "append_tx (conversation_event i c) s = Inr (b, s')"
  shows "conversation_at s' j = (if j = i then Some c else conversation_at s j)"
proof -
  have key: "entity_key ''conversation'' j = entity_key ''conversation'' i \<longleftrightarrow> j = i"
    by (simp add: entity_key_def)
  have ck: "cipher_key s' = cipher_key s"
    using upholdsD [OF frame_append assms, of UNIV] by (simp add: frame_def)
  show ?thesis
    by (simp add: conversation_at_def stored_at_def append_tx_latest [OF assms] ck
        conversation_event_def conversation_key_def key zero_event_def)
qed

lemma conversation_at_frame:
  "frame B s s' \<Longrightarrow> BLatest \<notin> B \<Longrightarrow> conversation_at s' i = conversation_at s i"
  by (simp add: conversation_at_def stored_at_frame [of B])

lemma update_conversation_cases:
  assumes run: "update_conversation_tx i mutate s = Inr (changed, s')"
  obtains (unchanged) "s' = s" "\<forall>c. conversation_at s i = Some c \<longrightarrow> c_schema c \<noteq> Schema"
    | (observed) c where "conversation_at s i = Some c" "c_schema c = Schema" "\<not> snd (mutate c)"
        "observe_tx (conversation_key i) s = Inr ((), s')"
    | (appended) c t where "conversation_at s i = Some c" "c_schema c = Schema" "snd (mutate c)"
        "observe_tx (conversation_key i) s = Inr ((), t)"
        "append_tx (conversation_event i (fst (mutate c))) t = Inr (changed, s')"
proof -
  let ?key = "conversation_key i"
  show thesis
  proof (cases "lookup s BLatest ?key")
    case None
    with run show thesis
      by (intro unchanged)
        (auto simp: update_conversation_tx_def Let_def tx_elims conversation_at_def stored_at_def)
  next
    case (Some v)
    with run obtain p where p: "v = Sealed (cipher_key s) ?key p"
      and rest: "(case unmarshal dec_conversation p of Inl e \<Rightarrow> return_tx False
        | Inr c \<Rightarrow> if c_schema c \<noteq> Schema then return_tx False
          else then_tx (observe_tx ?key)
            (let (c', changed) = mutate c in
             if \<not> changed then return_tx False
             else append_tx (conversation_event i c'))) s = Inr (changed, s')"
      by (auto simp: update_conversation_tx_def Let_def bind_tx_Inr bget_Inr decrypt_Inr)
    show thesis
    proof (cases "unmarshal dec_conversation p")
      case (Inl e)
      with rest Some p show thesis by (intro unchanged) (simp_all add: conversation_at_def stored_at_def)
    next
      case (Inr c)
      then have at: "conversation_at s i = Some c"
        by (simp add: conversation_at_def stored_at_def Some p)
      show thesis
      proof (cases "c_schema c = Schema")
        case False
        with rest Inr at show thesis by (intro unchanged) simp_all
      next
        case True
        with rest Inr obtain t where obs: "observe_tx ?key s = Inr ((), t)"
          and upd: "(if \<not> snd (mutate c) then return_tx False
             else append_tx (conversation_event i (fst (mutate c)))) t = Inr (changed, s')"
          by (auto simp: then_tx_Inr case_prod_beta Let_def)
        then show thesis
          using observed [OF at True] appended [OF at True] by (cases "snd (mutate c)") auto
      qed
    qed
  qed
qed

lemma update_conversation_Inr:
  assumes run: "update_conversation_tx i mutate s = Inr (changed, s')"
  shows "conversation_at s' j =
    (case conversation_at s i of
       Some c \<Rightarrow> if j = i \<and> c_schema c = Schema \<and> snd (mutate c) then Some (fst (mutate c))
                else conversation_at s j
     | None \<Rightarrow> conversation_at s j)"
proof -
  have same: "conversation_at t j = conversation_at s j"
    if "observe_tx (conversation_key i) s = Inr ((), t)" for t
  proof -
    have "frame {BVersions} s t"
      by (rule upholdsD [OF frame_observe that]) simp
    then show ?thesis by (rule conversation_at_frame) simp
  qed
  from run show ?thesis
  proof (cases rule: update_conversation_cases)
    case unchanged
    then show ?thesis by (simp split: option.splits)
  next
    case (observed c)
    then show ?thesis by (simp add: same)
  next
    case (appended c t)
    then show ?thesis
      using conversation_at_append [OF appended(5), of j] by (simp add: same)
  qed
qed

end
