(* ===== verification/ApplyStore.thy ===== *)
theory ApplyStore
  imports ConversationStore
begin

text \<open>
  \<open>Apply\<close> of \<open>store.go\<close>, the single entry of provider observations: the watermark fence of
  history reads, the rewritten conversation preview, the session stamp, the log, the private
  attachment data, the conversation refresh and the confirmation of a matching send, all in one
  transaction.
\<close>

section \<open>Applying an observation\<close>

text \<open>\<open>previousStatus\<close>: the status of the stored message, when the event is about one.\<close>

definition previous_status_tx :: "event \<Rightarrow> cell option \<Rightarrow> string dbtx" where
  "previous_status_tx event previous =
    (if ev_type event \<noteq> ''message'' then return_tx []
     else case previous of None \<Rightarrow> return_tx []
       | Some v \<Rightarrow> bind_tx (decrypt v (event_key event)) (\<lambda>plain.
           bind_tx (lift_tx (unmarshal dec_message plain)) (\<lambda>m. return_tx (m_status m))))"

definition put_private_tx :: "(string \<times> payload) list \<Rightarrow> unit dbtx" where
  "put_private_tx private_data =
     for_tx (\<lambda>kv. put_sealed BPrivate (fst kv) (''private:'' @ fst kv) (snd kv)) private_data"

definition stale_tx :: "string \<Rightarrow> u64 option \<Rightarrow> bool dbtx" where
  "stale_tx key fence = (case fence of None \<Rightarrow> return_tx False
     | Some n \<Rightarrow> bind_tx (bget_u64 BVersions key) (\<lambda>v.
         return_tx (case v of None \<Rightarrow> False | Some r \<Rightarrow> r > n)))"

definition observe_event_tx :: "event \<Rightarrow> (string \<times> payload) list \<Rightarrow> bool dbtx" where
  "observe_event_tx event private_data =
     bind_tx (if ev_type event = ''conversation'' then preview_conversation (ev_data event)
              else return_tx (ev_data event)) (\<lambda>data.
     then_tx (stamp_epoch (ev_type event) (ev_entity_id event))
     (bind_tx (bget BLatest (event_key event)) (\<lambda>previous.
      bind_tx (previous_status_tx event previous) (\<lambda>previous_status.
      bind_tx (append_tx (event\<lparr>ev_data := data\<rparr>)) (\<lambda>changed.
      then_tx (observe_tx (event_key event))
      (then_tx (put_private_tx private_data)
       (if ev_type event = ''message'' then
          bind_tx (refresh_conversation_tx (ev_data event)
                     (previous = None \<and> \<not> ev_historical event) previous_status) (\<lambda>refreshed.
          return_tx (changed \<or> refreshed))
        else return_tx changed)))))))"

definition confirm_event_tx :: "event \<Rightarrow> bool dbtx" where
  "confirm_event_tx event =
    (if ev_type event = ''message'' then
       bind_tx (lift_tx (unmarshal dec_message (ev_data event))) confirm_send_tx
     else return_tx False)"

definition apply_tx :: "event \<Rightarrow> (string \<times> payload) list \<Rightarrow> u64 option \<Rightarrow> bool dbtx" where
  "apply_tx event private_data fence =
     bind_tx (stale_tx (event_key event) fence) (\<lambda>stale.
     bind_tx (if stale then return_tx False else observe_event_tx event private_data) (\<lambda>changed.
     bind_tx (confirm_event_tx event) (\<lambda>observed.
     return_tx (changed \<or> observed))))"

definition append_if_unchanged :: "event \<Rightarrow> u64 \<Rightarrow> bool dbtx" where
  "append_if_unchanged event n = apply_tx event [] (Some n)"

definition append_event :: "event \<Rightarrow> bool dbtx" where
  "append_event event =
    (if ev_type event = [] \<or> ev_entity_id event = [] \<or> \<not> json_valid (ev_data event)
     then fail_tx (ErrText ''invalid event'')
     else apply_tx event [] None)"

section \<open>What applying touches\<close>

lemma frame_previous_status [frames]: "upholds (frame B) (previous_status_tx event previous)"
  unfolding previous_status_tx_def by (intro frame.rules frames)

lemma frame_stale [frames]: "upholds (frame B) (stale_tx key fence)"
  unfolding stale_tx_def by (intro frame.rules frames)

lemma frame_put_private [frames]: "BPrivate \<in> B \<Longrightarrow> upholds (frame B) (put_private_tx p)"
  unfolding put_private_tx_def by (intro frame.rules frames)

lemma frame_confirm_event [frames]:
  "{BOutbox, BEvents, BLatest, BMessageIndex} \<subseteq> B \<Longrightarrow> upholds (frame B) (confirm_event_tx event)"
  unfolding confirm_event_tx_def by (intro frame.rules frames; simp)

lemma log_grows_apply [grows]:
  "upholds log_grows (previous_status_tx event previous)"
  "upholds log_grows (put_private_tx p)"
  "upholds log_grows (stale_tx key fence)"
  "upholds log_grows (confirm_event_tx event)"
  unfolding previous_status_tx_def put_private_tx_def stale_tx_def confirm_event_tx_def
  by (intro log_grows.rules grows; simp)+

lemma observe_event_log_grows [grows]: "upholds log_grows (observe_event_tx event p)"
  unfolding observe_event_tx_def by (intro log_grows.rules grows)

lemma apply_log_grows [grows]:
  "upholds log_grows (apply_tx event p fence)"
  "upholds log_grows (append_if_unchanged event n)"
  "upholds log_grows (append_event event)"
  unfolding append_if_unchanged_def append_event_def apply_tx_def
  by (intro log_grows.rules grows)+

lemma observe_event_advances [advances]: "upholds outbox_advances (observe_event_tx event p)"
  by (rule quiet_advances [where B = "UNIV - {BOutbox}"])
    (unfold observe_event_tx_def, (intro frame.rules frames; simp), simp)

lemma apply_advances [advances]:
  "upholds outbox_advances (apply_tx event p fence)"
  "upholds outbox_advances (append_if_unchanged event n)"
  "upholds outbox_advances (append_event event)"
proof -
  have "upholds outbox_advances (stale_tx key fence)" for key fence
    by (rule quiet_advances [where B = "{}"], rule frames, simp)
  moreover have "upholds outbox_advances (confirm_event_tx event)" for event
    unfolding confirm_event_tx_def by (intro outbox_advances.rules advances)
  ultimately have "upholds outbox_advances (apply_tx event p fence)" for event p fence
    unfolding apply_tx_def by (intro outbox_advances.rules advances)
  then show "upholds outbox_advances (apply_tx event p fence)"
    "upholds outbox_advances (append_if_unchanged event n)"
    "upholds outbox_advances (append_event event)"
    unfolding append_if_unchanged_def append_event_def by (auto intro: outbox_advances.rules)
qed

lemma apply_parts_versioned [versioned]:
  "upholds versions_grow (previous_status_tx event previous)"
  "upholds versions_grow (put_private_tx p)"
  "upholds versions_grow (stale_tx key fence)"
  "upholds versions_grow (confirm_event_tx event)"
  by (rule quiet_versioned [where B = "UNIV - {BVersions}"], rule frames, simp_all)+

lemma apply_versioned [versioned]:
  "upholds versions_grow (observe_event_tx event p)"
  "upholds versions_grow (apply_tx event p fence)"
  unfolding apply_tx_def observe_event_tx_def by (intro versions_grow.rules versioned)+

section \<open>The steps of one observation\<close>

lemma preview_conversation_reads: "preview_conversation data s = Inr (x, s') \<Longrightarrow> s' = s"
  using upholdsD [OF frame_preview_conversation [where B = "{}"]] by simp

lemma previous_status_reads: "previous_status_tx event v s = Inr (x, s') \<Longrightarrow> s' = s"
  using upholdsD [OF frame_previous_status [where B = "{}"]] by simp

lemma observe_event_steps:
  assumes "observe_event_tx event p s = Inr (changed, s')"
  obtains data status s1 s2 s3 s4 logged_it where
    "if ev_type event = ''conversation'' then preview_conversation (ev_data event) s = Inr (data, s)
     else data = ev_data event"
    "stamp_epoch (ev_type event) (ev_entity_id event) s = Inr ((), s1)"
    "append_tx (event\<lparr>ev_data := data\<rparr>) s1 = Inr (logged_it, s2)"
    "observe_tx (event_key event) s2 = Inr ((), s3)"
    "put_private_tx p s3 = Inr ((), s4)"
    "if ev_type event = ''message'' then
       \<exists>r. refresh_conversation_tx (ev_data event)
          (lookup s1 BLatest (event_key event) = None \<and> \<not> ev_historical event) status s4 = Inr (r, s') \<and>
          changed = (logged_it \<or> r)
     else s' = s4 \<and> changed = logged_it"
proof -
  from assms obtain data t where
    data: "(if ev_type event = ''conversation'' then preview_conversation (ev_data event)
            else return_tx (ev_data event)) s = Inr (data, t)"
    and rest: "then_tx (stamp_epoch (ev_type event) (ev_entity_id event))
     (bind_tx (bget BLatest (event_key event)) (\<lambda>previous.
      bind_tx (previous_status_tx event previous) (\<lambda>previous_status.
      bind_tx (append_tx (event\<lparr>ev_data := data\<rparr>)) (\<lambda>changed.
      then_tx (observe_tx (event_key event))
      (then_tx (put_private_tx p)
       (if ev_type event = ''message'' then
          bind_tx (refresh_conversation_tx (ev_data event)
                     (previous = None \<and> \<not> ev_historical event) previous_status) (\<lambda>refreshed.
          return_tx (changed \<or> refreshed))
        else return_tx changed)))))) t = Inr (changed, s')"
    unfolding observe_event_tx_def bind_tx_Inr by blast
  have t: "t = s"
    using data preview_conversation_reads by (auto split: if_splits)
  from rest obtain s1 status t1 logged_it s2 s3 s4 where
    st: "stamp_epoch (ev_type event) (ev_entity_id event) s = Inr ((), s1)"
    and ps: "previous_status_tx event (lookup s1 BLatest (event_key event)) s1 = Inr (status, t1)"
    and ap: "append_tx (event\<lparr>ev_data := data\<rparr>) t1 = Inr (logged_it, s2)"
    and ob: "observe_tx (event_key event) s2 = Inr ((), s3)"
    and pv: "put_private_tx p s3 = Inr ((), s4)"
    and rf: "(if ev_type event = ''message'' then
          bind_tx (refresh_conversation_tx (ev_data event)
             (lookup s1 BLatest (event_key event) = None \<and> \<not> ev_historical event) status)
            (\<lambda>refreshed. return_tx (logged_it \<or> refreshed))
        else return_tx logged_it) s4 = Inr (changed, s')"
    unfolding t by (auto simp only: bind_tx_Inr then_tx_Inr bget_Inr old.unit.exhaust prod.inject
        sum.inject unit_eq)
  have "t1 = s1" by (rule previous_status_reads [OF ps])
  show thesis
  proof (rule that [of data s1 logged_it s2 s3 s4 status])
    show "if ev_type event = ''conversation'' then preview_conversation (ev_data event) s = Inr (data, s)
       else data = ev_data event"
      using data t by auto
    show "if ev_type event = ''message'' then
       \<exists>r. refresh_conversation_tx (ev_data event)
          (lookup s1 BLatest (event_key event) = None \<and> \<not> ev_historical event) status s4 = Inr (r, s') \<and>
          changed = (logged_it \<or> r)
     else s' = s4 \<and> changed = logged_it"
      using rf by (auto simp: bind_tx_Inr)
  qed (use st ap ob pv \<open>t1 = s1\<close> in auto)
qed

text \<open>An applied event passes every watermark taken before it.\<close>

lemma observe_event_version:
  assumes run: "observe_event_tx event p s = Inr (changed, s')" and ok: "versions_ok s"
  shows "\<exists>r. u64_at s' BVersions (event_key event) = Some r \<and> counter s BVersions < r"
proof -
  from run obtain data s1 logged_it s2 s3 s4 status where
    steps: "stamp_epoch (ev_type event) (ev_entity_id event) s = Inr ((), s1)"
    "append_tx (event\<lparr>ev_data := data\<rparr>) s1 = Inr (logged_it, s2)"
    "observe_tx (event_key event) s2 = Inr ((), s3)"
    "put_private_tx p s3 = Inr ((), s4)"
    "if ev_type event = ''message'' then
       \<exists>r. refresh_conversation_tx (ev_data event)
          (lookup s1 BLatest (event_key event) = None \<and> \<not> ev_historical event) status s4 = Inr (r, s') \<and>
          changed = (logged_it \<or> r)
     else s' = s4 \<and> changed = logged_it"
    by (rule observe_event_steps)
  have "versions_grow s s2"
    by (rule versions_grow.R_trans [OF upholdsD [OF stamp_versioned steps(1)]
          upholdsD [OF store_versioned(1) steps(2)]])
  with ok have le: "counter s BVersions \<le> counter s2 BVersions" and ok2: "versions_ok s2"
    by (simp_all add: versions_grow_def)
  have at3: "u64_at s3 BVersions (event_key event) = Some (counter s2 BVersions + 1)"
    and lt: "counter s2 BVersions < counter s2 BVersions + 1"
    using steps(3) less_inc by (auto simp: observe_tx_Inr)
  have "versions_grow s2 s3" by (rule upholdsD [OF observe_versioned steps(3)])
  then have ok3: "versions_ok s3" using ok2 by (simp add: versions_grow_def)
  have "versions_grow s4 s'"
    using steps(5) upholdsD [OF conversation_versioned(2)]
    by (auto simp: versions_grow.R_refl split: if_splits)
  then have "versions_grow s3 s'"
    using versions_grow.R_trans [OF upholdsD [OF apply_parts_versioned(2) steps(4)]] by blast
  with ok3 at3 obtain r where "u64_at s' BVersions (event_key event) = Some r"
    "counter s2 BVersions + 1 \<le> r"
    by (auto simp: versions_grow_def)
  with le lt show ?thesis by (meson order.strict_trans1 order.strict_trans2)
qed

end
