(* ===== verification/HistoryStore.thy ===== *)
theory HistoryStore
  imports ApplyStore
begin

text \<open>
  Uploads, created conversations and history imports, from \<open>features.go\<close>.  SHA-256 in hexadecimal
  is a parameter \<open>hex_sum\<close> of the definitions; \<open>Opaque []\<close> is the empty (or nil) cursor.
\<close>

section \<open>Uploads and created conversations\<close>

definition upload_event :: "upload \<Rightarrow> event" where
  "upload_event u = zero_event\<lparr>ev_type := ''upload'', ev_entity_id := u_id u,
     ev_data := JText (enc_upload u)\<rparr>"

definition save_upload :: "upload \<Rightarrow> payload \<Rightarrow> unit dbtx" where
  "save_upload u data =
     then_tx (put_sealed BMedia (''upload:'' @ u_id u) (''media:upload:'' @ u_id u) data)
     (then_tx (append_tx (upload_event u)) (return_tx ()))"

definition ready_detail :: string where
  "ready_detail = ''Conversation is ready; no message was sent''"

definition finish_conversation ::
    "string \<Rightarrow> event \<Rightarrow> (string \<times> payload) list \<Rightarrow> u64 \<Rightarrow> unit dbtx" where
  "finish_conversation i event private_data fence =
     bind_tx (read_outbox i) (\<lambda>out.
     if o_state out \<noteq> ''sending'' \<or> q_kind (o_request out) \<noteq> ''conversation'' then fail_tx ErrConflict
     else if ev_type event \<noteq> ''conversation'' \<or> ev_entity_id event = []
     then fail_tx (ErrText ''invalid conversation result'')
     else
       bind_tx (bget_u64 BVersions (conversation_key (ev_entity_id event))) (\<lambda>version.
       then_tx (when_tx (case version of None \<Rightarrow> True | Some v \<Rightarrow> v \<le> fence)
         (then_tx (append_tx event)
         (then_tx (observe_tx (conversation_key (ev_entity_id event)))
          (put_private_tx private_data))))
       (then_tx (stamp_epoch ''conversation'' (ev_entity_id event))
       (bind_tx (read_tx clock) (\<lambda>now.
        write_outbox (out\<lparr>o_detail := ready_detail, o_conversation_id := ev_entity_id event,
          o_state := ''accepted'', o_updated := now\<rparr>))))))"

section \<open>History jobs\<close>

definition history_key :: "string \<Rightarrow> string" where
  "history_key i = entity_key ''history'' i"

definition job_at :: "store \<Rightarrow> string \<Rightarrow> history_job option" where
  "job_at s i = stored_at s BLatest (history_key i) dec_job (history_key i)"

definition history_tx :: "string \<Rightarrow> history_job dbtx" where
  "history_tx i = bind_tx (bget_sealed BLatest (history_key i) dec_job (history_key i)) (\<lambda>v.
     case v of None \<Rightarrow> fail_tx ErrNotFound | Some job \<Rightarrow> return_tx job)"

definition history_event :: "history_job \<Rightarrow> event" where
  "history_event job = zero_event\<lparr>ev_type := ''history'', ev_entity_id := j_id job,
     ev_data := JText (enc_job job)\<rparr>"

definition write_history :: "history_job \<Rightarrow> history_job dbtx" where
  "write_history job = bind_tx (read_tx clock) (\<lambda>now.
     let job' = job\<lparr>j_updated := now\<rparr> in
     then_tx (append_tx (history_event job')) (return_tx job'))"

definition history_prefix :: "(payload \<Rightarrow> string) \<Rightarrow> string \<Rightarrow> string" where
  "history_prefix hex_sum i = hex_sum (Opaque i) @ '':''"

definition forget_pages :: "(payload \<Rightarrow> string) \<Rightarrow> string \<Rightarrow> unit dbtx" where
  "forget_pages hex_sum i = bind_tx (has_bucket BHistoryPages) (\<lambda>present.
     when_tx present (bclear BHistoryPages (history_prefix hex_sum i)))"

text \<open>The part of \<open>QueueHistory\<close> that runs once the job to queue is chosen.\<close>

definition requeue :: "(payload \<Rightarrow> string) \<Rightarrow> history_job \<Rightarrow> bool \<Rightarrow> history_job dbtx" where
  "requeue hex_sum job restart =
     then_tx (when_tx restart
       (then_tx (bdelete BPrivate (history_key (j_id job))) (forget_pages hex_sum (j_id job))))
     (bind_tx epoch (\<lambda>ep. bind_tx (read_tx clock) (\<lambda>now.
      let job = (if restart then job\<lparr>j_pages := 0, j_records := 0\<rparr> else job) in
      write_history (job\<lparr>j_generation := j_generation job + 1, j_session_epoch := ep,
        j_updated := now, j_schema := Schema, j_state := ''queued'', j_detail := [],
        j_retry_at := 0\<rparr>))))"

definition queue_history :: "(payload \<Rightarrow> string) \<Rightarrow> history_job \<Rightarrow> bool \<Rightarrow> history_job dbtx" where
  "queue_history hex_sum job restart = bind_tx (attempt_tx (history_tx (j_id job))) (\<lambda>r. case r of
       Inr old \<Rightarrow>
         if \<not> restart \<and> (j_state old = ''complete'' \<or> j_state old = ''queued'') then return_tx old
         else requeue hex_sum old restart
     | Inl e \<Rightarrow> if \<not> errors_is e ErrNotFound then fail_tx e else requeue hex_sum job restart)"

definition pause_history :: "string \<Rightarrow> history_job dbtx" where
  "pause_history i = bind_tx (history_tx i) (\<lambda>job.
     if j_state job = ''complete'' then return_tx job
     else bind_tx (read_tx clock) (\<lambda>now.
       write_history (job\<lparr>j_state := ''paused'', j_updated := now\<rparr>)))"

text \<open>\<open>Private("history:" + id)\<close>, nil when absent.\<close>

definition history_cursor :: "string \<Rightarrow> payload dbtx" where
  "history_cursor i = bind_tx (bget BPrivate (history_key i)) (\<lambda>v. case v of
       None \<Rightarrow> return_tx (Opaque [])
     | Some c \<Rightarrow> decrypt c (''private:'' @ history_key i))"

definition retry_delay :: time where "retry_delay = 30 * second"

definition repeated_detail :: string where
  "repeated_detail = ''Provider repeated a history cursor; import stopped''"

text \<open>The job after a page with cursor \<open>following\<close> was read; \<open>seen\<close> says the cursor was met before.\<close>

definition page_read :: "history_job \<Rightarrow> payload \<Rightarrow> bool \<Rightarrow> i64 \<Rightarrow> history_job" where
  "page_read job following seen records =
    (let job = job\<lparr>j_detail := [], j_pages := j_pages job + 1, j_records := j_records job + records,
           j_retry_at := 0\<rparr>
     in if following = Opaque [] then job\<lparr>j_state := ''complete''\<rparr>
        else if seen then job\<lparr>j_state := ''failed'', j_detail := repeated_detail\<rparr>
        else job)"

definition page_key :: "(payload \<Rightarrow> string) \<Rightarrow> string \<Rightarrow> payload \<Rightarrow> string" where
  "page_key hex_sum i cursor = history_prefix hex_sum i @ hex_sum cursor"

definition checkpoint_history ::
    "(payload \<Rightarrow> string) \<Rightarrow> string \<Rightarrow> u64 \<Rightarrow> payload \<Rightarrow> payload \<Rightarrow> i64 \<Rightarrow> string \<Rightarrow> unit dbtx" where
  "checkpoint_history hex_sum i generation previous following records detail =
     bind_tx (history_tx i) (\<lambda>job.
     if j_state job \<noteq> ''queued'' \<or> j_generation job \<noteq> generation then return_tx ()
     else bind_tx (history_cursor i) (\<lambda>current.
       if current \<noteq> previous then fail_tx ErrConflict
       else if detail \<noteq> [] then
         bind_tx (read_tx clock) (\<lambda>now.
         then_tx (write_history (job\<lparr>j_detail := detail, j_retry_at := now + retry_delay\<rparr>))
           (return_tx ()))
       else
         then_tx (bcreate BHistoryPages)
         (then_tx (bput BHistoryPages (page_key hex_sum i previous) (Raw [char_of (1 :: nat)]))
         (bind_tx (bget BHistoryPages (page_key hex_sum i following)) (\<lambda>seen.
          then_tx (put_sealed BPrivate (history_key i) (''private:'' @ history_key i) following)
         (then_tx (write_history (page_read job following (seen \<noteq> None) records))
          (return_tx ())))))))"

definition fail_history :: "string \<Rightarrow> u64 \<Rightarrow> string \<Rightarrow> unit dbtx" where
  "fail_history i generation detail =
     bind_tx (history_tx i) (\<lambda>job.
     if j_state job \<noteq> ''queued'' \<or> j_generation job \<noteq> generation then return_tx ()
     else then_tx (write_history (job\<lparr>j_state := ''failed'', j_detail := detail, j_retry_at := 0\<rparr>))
       (return_tx ()))"

section \<open>What these operations touch\<close>

lemma frame_history_tx [frames]: "upholds (frame B) (history_tx i)"
  unfolding history_tx_def by (intro frame.rules frames)

lemma frame_history_cursor [frames]: "upholds (frame B) (history_cursor i)"
  unfolding history_cursor_def by (intro frame.rules frames)

lemma frame_write_history [frames]:
  "{BEvents, BLatest, BMessageIndex} \<subseteq> B \<Longrightarrow> upholds (frame B) (write_history job)"
  unfolding write_history_def Let_def by (intro frame.rules frames; simp)

lemma frame_forget_pages [frames]: "BHistoryPages \<in> B \<Longrightarrow> upholds (frame B) (forget_pages h i)"
  unfolding forget_pages_def by (intro frame.rules frames)

lemma frame_history_ops [frames]:
  assumes "{BEvents, BLatest, BMessageIndex, BMedia, BPrivate, BHistoryPages} \<subseteq> B"
  shows "upholds (frame B) (save_upload u data)"
    "upholds (frame B) (requeue h job restart)"
    "upholds (frame B) (queue_history h job restart)"
    "upholds (frame B) (pause_history i)"
    "upholds (frame B) (checkpoint_history h i g prev nxt n d)"
    "upholds (frame B) (fail_history i g d)"
  using assms
  unfolding save_upload_def queue_history_def requeue_def pause_history_def checkpoint_history_def
    fail_history_def Let_def
  by (intro frame.rules frames; simp)+

lemma history_reads_log_grows [grows]:
  "upholds log_grows (history_tx i)"
  "upholds log_grows (history_cursor i)"
  "upholds log_grows (forget_pages h i)"
  by (rule frame_upholds_log_grows [where B = "{BHistoryPages}"], rule frames, simp_all)+

lemma write_history_log_grows [grows]: "upholds log_grows (write_history job)"
  unfolding write_history_def Let_def by (intro log_grows.rules grows)

lemma history_log_grows [grows]:
  "upholds log_grows (save_upload u data)"
  "upholds log_grows (finish_conversation i event p fence)"
  "upholds log_grows (requeue h job restart)"
  "upholds log_grows (queue_history h job restart)"
  "upholds log_grows (pause_history i)"
  "upholds log_grows (checkpoint_history h i g prev nxt n d)"
  "upholds log_grows (fail_history i g d)"
  unfolding save_upload_def finish_conversation_def queue_history_def requeue_def pause_history_def
    checkpoint_history_def fail_history_def Let_def
  by (intro log_grows.rules grows; simp)+

lemma history_advances [advances]:
  "upholds outbox_advances (save_upload u data)"
  "upholds outbox_advances (queue_history h job restart)"
  "upholds outbox_advances (pause_history i)"
  "upholds outbox_advances (checkpoint_history h i g prev nxt n d)"
  "upholds outbox_advances (fail_history i g d)"
  by (rule quiet_advances [where B = "UNIV - {BOutbox}"], rule frames, simp_all)+

lemma history_versioned [versioned]:
  "upholds versions_grow (save_upload u data)"
  "upholds versions_grow (queue_history h job restart)"
  "upholds versions_grow (pause_history i)"
  "upholds versions_grow (checkpoint_history h i g prev nxt n d)"
  "upholds versions_grow (fail_history i g d)"
  by (rule quiet_versioned [where B = "UNIV - {BVersions}"], rule frames, simp_all)+

lemma finish_conversation_versioned [versioned]:
  "upholds versions_grow (finish_conversation i event p fence)"
  unfolding finish_conversation_def by (intro versions_grow.rules versioned)

text \<open>The created conversation reaches the outbox record through one write.\<close>

lemma finish_conversation_steps:
  assumes "finish_conversation i event p fence s = Inr (u, s')"
  obtains out t where "outbox_at s i = Some out" "o_state out = ''sending''"
    "q_kind (o_request out) = ''conversation''" "ev_type event = ''conversation''"
    "frame (UNIV - {BOutbox}) s t"
    "write_outbox (out\<lparr>o_detail := ready_detail, o_conversation_id := ev_entity_id event,
          o_state := ''accepted'', o_updated := clock s\<rparr>) t = Inr (u, s')"
proof -
  let ?out = "\<lambda>out. out\<lparr>o_detail := ready_detail, o_conversation_id := ev_entity_id event,
          o_state := ''accepted'', o_updated := clock s\<rparr>"
  let ?recorded = "\<lambda>version. when_tx (case version of None \<Rightarrow> True | Some v \<Rightarrow> v \<le> fence)
         (then_tx (append_tx event)
         (then_tx (observe_tx (conversation_key (ev_entity_id event)))
          (put_private_tx p)))"
  obtain out version t1 t2 where out: "outbox_at s i = Some out" "o_state out = ''sending''"
    "q_kind (o_request out) = ''conversation''" "ev_type event = ''conversation''"
    and t1: "?recorded version s = Inr ((), t1)"
    and t2: "stamp_epoch ''conversation'' (ev_entity_id event) t1 = Inr ((), t2)"
    and wr: "write_outbox (out\<lparr>o_detail := ready_detail, o_conversation_id := ev_entity_id event,
          o_state := ''accepted'', o_updated := clock t2\<rparr>) t2 = Inr (u, s')"
    using assms unfolding finish_conversation_def
    by (auto simp: bind_tx_Inr then_tx_Inr read_outbox_Inr bget_u64_Inr split: if_splits)
  have rec: "upholds (frame (UNIV - {BOutbox})) (?recorded version)"
    by (intro frame.rules frames; simp)
  from rec t1 have f1: "frame (UNIV - {BOutbox}) s t1" by (rule upholdsD)
  have f2: "frame (UNIV - {BOutbox}) t1 t2"
    by (rule upholdsD [OF frame_stamp_epoch t2]) simp
  from f1 f2 have f: "frame (UNIV - {BOutbox}) s t2" by (rule frame.R_trans)
  with wr have "write_outbox (?out out) t2 = Inr (u, s')" by (simp add: frame_clock)
  with out f show thesis by (rule that)
qed

lemma finish_conversation_advances [advances]:
  "upholds outbox_advances (finish_conversation i event p fence)"
proof
  fix s u s'
  assume "finish_conversation i event p fence s = Inr (u, s')"
  then obtain out t where out: "outbox_at s i = Some out" "o_state out = ''sending''"
    and fr: "frame (UNIV - {BOutbox}) s t"
    and wr: "write_outbox (out\<lparr>o_detail := ready_detail, o_conversation_id := ev_entity_id event,
          o_state := ''accepted'', o_updated := clock s\<rparr>) t = Inr (u, s')"
    by (rule finish_conversation_steps)
  have "outbox_at t i = Some out"
    using out(1) outbox_at_frame [OF fr] by simp
  with wr out(2) have "outbox_advances t s'" by (auto intro: moved_record)
  with frame_outbox_advances [OF fr] show "outbox_advances s s'"
    using outbox_advances.R_trans by blast
qed

end
