(* ===== verification/PairingStore.thy ===== *)
theory PairingStore
  imports HistoryStore
begin

text \<open>
  Pairing and re-pairing, from \<open>pairing.go\<close> and \<open>pairing_recovery.go\<close>: the marker of a pairing
  attempt, the agent digest, the recovery state, the metadata upgrade, the adoption of stored
  records, and \<open>SavePairedSession\<close>, which starts a new session epoch when the phone is new.
\<close>

section \<open>The pairing attempt\<close>

record attempt_marker =
  at_started :: time
  at_expires :: time

definition enc_marker :: "attempt_marker \<Rightarrow> json" where
  "enc_marker a = JObj (jtime ''started'' (at_started a) @ jtime ''expires'' (at_expires a))"

definition set_marker :: "string \<Rightarrow> json \<Rightarrow> attempt_marker \<Rightarrow> attempt_marker option" where
  "set_marker k v a =
    (if k = ''started'' then map_option (\<lambda>x. a\<lparr>at_started := x\<rparr>) (as_time v (at_started a))
     else if k = ''expires'' then map_option (\<lambda>x. a\<lparr>at_expires := x\<rparr>) (as_time v (at_expires a))
     else Some a)"

definition dec_marker :: "json \<Rightarrow> attempt_marker option" where
  "dec_marker = decode_struct set_marker \<lparr>at_started = 0, at_expires = 0\<rparr>"

interpretation marker_codec: json_codec enc_marker dec_marker
proof unfold_locales
  show "dec_marker (enc_marker x) = Some x" for x
    by (cases x) (simp add: enc_marker_def dec_marker_def set_marker_def json_members)
qed

definition pairing_attempt_key :: string where "pairing_attempt_key = ''pairing-attempt''"

definition begin_pairing_attempt :: "time \<Rightarrow> time \<Rightarrow> unit dbtx" where
  "begin_pairing_attempt started expires =
     then_tx cancel_queued_for_pairing
     (put_sealed BMeta pairing_attempt_key pairing_attempt_key
        (JText (enc_marker \<lparr>at_started = started, at_expires = expires\<rparr>)))"

definition clear_pairing_attempt :: "unit dbtx" where
  "clear_pairing_attempt = bdelete BMeta pairing_attempt_key"

definition recover_pairing_attempt :: "bool dbtx" where
  "recover_pairing_attempt = bind_tx (bget BMeta pairing_attempt_key) (\<lambda>v. case v of
       None \<Rightarrow> return_tx False
     | Some c \<Rightarrow> bind_tx (decrypt c pairing_attempt_key) (\<lambda>plain.
         case unmarshal dec_marker plain of
           Inl e \<Rightarrow> fail_tx (ErrText ''invalid pairing attempt marker'')
         | Inr marker \<Rightarrow>
             if at_started marker = 0 \<or> at_expires marker = 0
             then fail_tx (ErrText ''invalid pairing attempt marker'')
             else then_tx (bdelete BMeta pairing_attempt_key) (return_tx True)))"

definition agent_digest_key :: string where "agent_digest_key = ''pairing-agent-digest''"

definition save_pairing_agent_digest :: "string \<Rightarrow> unit dbtx" where
  "save_pairing_agent_digest digest =
    (if length digest \<noteq> 32 then fail_tx (ErrText ''invalid pairing agent digest'')
     else put_sealed BMeta agent_digest_key agent_digest_key (Opaque digest))"

definition pairing_agent_digest :: "payload option dbtx" where
  "pairing_agent_digest = bind_tx (bget BMeta agent_digest_key) (\<lambda>v. case v of
       None \<Rightarrow> return_tx None
     | Some c \<Rightarrow> bind_tx (decrypt c agent_digest_key) (\<lambda>digest. return_tx (Some digest)))"

section \<open>Pairing recovery\<close>

record pairing_recovery =
  pr_enabled :: bool
  pr_phone_number :: string
  pr_attempts :: i64
  pr_paused :: bool
  pr_next_attempt :: time

definition zero_recovery :: pairing_recovery where
  "zero_recovery = \<lparr>pr_enabled = False, pr_phone_number = [], pr_attempts = 0, pr_paused = False,
     pr_next_attempt = 0\<rparr>"

definition enc_recovery :: "pairing_recovery \<Rightarrow> json" where
  "enc_recovery r = JObj (jbool ''enabled'' (pr_enabled r) @
     omit (pr_phone_number r = []) (jstr ''phone_number'' (pr_phone_number r)) @
     jint ''attempts'' (pr_attempts r) @ jbool ''paused'' (pr_paused r) @
     jtime ''next_attempt'' (pr_next_attempt r))"

definition set_recovery :: "string \<Rightarrow> json \<Rightarrow> pairing_recovery \<Rightarrow> pairing_recovery option" where
  "set_recovery k v r =
    (if k = ''enabled'' then map_option (\<lambda>x. r\<lparr>pr_enabled := x\<rparr>) (as_bool v (pr_enabled r))
     else if k = ''phone_number'' then
       map_option (\<lambda>x. r\<lparr>pr_phone_number := x\<rparr>) (as_str v (pr_phone_number r))
     else if k = ''attempts'' then map_option (\<lambda>x. r\<lparr>pr_attempts := x\<rparr>) (as_i64 v (pr_attempts r))
     else if k = ''paused'' then map_option (\<lambda>x. r\<lparr>pr_paused := x\<rparr>) (as_bool v (pr_paused r))
     else if k = ''next_attempt'' then
       map_option (\<lambda>x. r\<lparr>pr_next_attempt := x\<rparr>) (as_time v (pr_next_attempt r))
     else Some r)"

definition dec_recovery :: "json \<Rightarrow> pairing_recovery option" where
  "dec_recovery = decode_struct set_recovery zero_recovery"

interpretation recovery_codec: json_codec enc_recovery dec_recovery
proof unfold_locales
  show "dec_recovery (enc_recovery x) = Some x" for x
    by (cases x) (simp add: enc_recovery_def dec_recovery_def set_recovery_def zero_recovery_def
        json_members decode_omit)
qed

definition recovery_key :: string where "recovery_key = ''whatsapp-pairing-recovery''"

definition recovery_context :: string where "recovery_context = ''meta:'' @ recovery_key"

definition pairing_recovery_get :: "pairing_recovery dbtx" where
  "pairing_recovery_get = bind_tx (bget_sealed BMeta recovery_context dec_recovery recovery_key) (\<lambda>v.
     return_tx (case v of None \<Rightarrow> zero_recovery | Some r \<Rightarrow> r))"

definition update_pairing_recovery :: "(pairing_recovery \<Rightarrow> pairing_recovery) \<Rightarrow> unit dbtx" where
  "update_pairing_recovery f =
     bind_tx (bget_sealed BMeta recovery_context dec_recovery recovery_key) (\<lambda>v.
     put_sealed BMeta recovery_key recovery_context
       (JText (enc_recovery (f (case v of None \<Rightarrow> zero_recovery | Some r \<Rightarrow> r)))))"

section \<open>Records of earlier sessions\<close>

text \<open>The history jobs under \<open>latest\<close>, each read through \<open>historyTx\<close>.\<close>

definition history_jobs_tx :: "history_job list dbtx" where
  "history_jobs_tx = bind_tx (bscan BLatest ''history:'') (\<lambda>found.
     fold_tx (\<lambda>kv jobs. bind_tx (history_tx (drop (length ''history:'') (fst kv))) (\<lambda>job.
       return_tx (jobs @ [job]))) found [])"

definition upgrade_session_metadata :: "unit dbtx" where
  "upgrade_session_metadata = bind_tx epoch (\<lambda>current.
     if current = 0 then return_tx ()
     else
       bind_tx (each_outbox (\<lambda>out records. return_tx
           (if o_session_epoch out = 0 then records @ [out\<lparr>o_session_epoch := current\<rparr>] else records)) [])
         (\<lambda>records.
       then_tx (for_tx write_outbox records)
       (bind_tx history_jobs_tx (\<lambda>jobs.
        for_tx (\<lambda>job. then_tx (write_history (job\<lparr>j_session_epoch := current\<rparr>)) (return_tx ()))
          (filter (\<lambda>job. j_session_epoch job = 0) jobs)))))"

definition adopt_kind :: "u64 \<Rightarrow> string \<Rightarrow> int \<Rightarrow> int dbtx" where
  "adopt_kind current kind adopted = bind_tx (bscan BLatest (kind @ '':'')) (\<lambda>found.
     bind_tx (fold_tx (\<lambda>kv n. bind_tx (bget_u64 BEntityEpochs (fst kv)) (\<lambda>v.
         if v = Some current then return_tx n
         else then_tx (bput BEntityEpochs (fst kv) (Raw (sequence current))) (return_tx (n + 1))))
       found adopted) (\<lambda>n.
     then_tx (bput BMeta (previous_count_key kind) (Raw (sequence 0))) (return_tx n)))"

definition adopt_stored_records :: "int dbtx" where
  "adopt_stored_records = bind_tx epoch (\<lambda>current.
     if current = 0 then return_tx 0
     else then_tx (bcreate BEntityEpochs)
       (fold_tx (adopt_kind current) [''conversation'', ''message''] 0))"

section \<open>The new session\<close>

definition reset_job :: "history_job \<Rightarrow> history_job" where
  "reset_job job = job\<lparr>j_state := ''paused'',
     j_detail := ''Pairing changed; start an import for the paired phone'',
     j_generation := j_generation job + 1, j_pages := 0, j_records := 0, j_retry_at := 0\<rparr>"

definition count_previous :: "string \<Rightarrow> unit dbtx" where
  "count_previous kind = bind_tx (bscan BLatest (kind @ '':'')) (\<lambda>found.
     bput BMeta (previous_count_key kind) (Raw (sequence (word_of_nat (length found)))))"

definition clear_latest_messages :: "unit dbtx" where
  "clear_latest_messages = bind_tx (has_bucket BConversationLatest) (\<lambda>present.
     when_tx present (then_tx (bdrop BConversationLatest) (bcreate_new BConversationLatest)))"

definition new_phone_tx :: "(payload \<Rightarrow> string) \<Rightarrow> unit dbtx" where
  "new_phone_tx hex_sum =
     then_tx clear_latest_messages
     (then_tx (for_tx count_previous [''conversation'', ''message''])
     (bind_tx epoch (\<lambda>current.
      then_tx (bput BMeta epoch_key (Raw (sequence (current + 1))))
     (then_tx (bdelete BMeta ''contacts'')
     (then_tx (bclear BPrivate [])
     (bind_tx history_jobs_tx (\<lambda>jobs.
      for_tx (\<lambda>job. then_tx (forget_pages hex_sum (j_id job))
        (then_tx (write_history (reset_job job)) (return_tx ()))) jobs)))))))"

definition save_paired_session :: "(payload \<Rightarrow> string) \<Rightarrow> payload \<Rightarrow> bool \<Rightarrow> unit dbtx" where
  "save_paired_session hex_sum data new_phone =
     bind_tx (bget BMeta recovery_key) (\<lambda>v.
     then_tx (when_tx (v \<noteq> None)
       (update_pairing_recovery (\<lambda>r. r\<lparr>pr_attempts := 0, pr_paused := False, pr_next_attempt := 0\<rparr>)))
     (then_tx (put_sealed BMeta ''session'' ''session'' data)
     (then_tx (bdelete BMeta pairing_attempt_key)
     (then_tx cancel_queued_for_pairing
     (when_tx new_phone (new_phone_tx hex_sum))))))"

section \<open>What these operations touch\<close>

lemma frame_pairing_reads [frames]:
  "upholds (frame B) pairing_agent_digest"
  "upholds (frame B) pairing_recovery_get"
  "upholds (frame B) history_jobs_tx"
  unfolding pairing_agent_digest_def pairing_recovery_get_def history_jobs_tx_def
  by (intro frame.rules frames)+

lemma frame_pairing_meta [frames]:
  assumes "BMeta \<in> B"
  shows "upholds (frame B) clear_pairing_attempt"
    "upholds (frame B) recover_pairing_attempt"
    "upholds (frame B) (save_pairing_agent_digest digest)"
    "upholds (frame B) (update_pairing_recovery f)"
    "upholds (frame B) (count_previous kind)"
  using assms
  unfolding clear_pairing_attempt_def recover_pairing_attempt_def save_pairing_agent_digest_def
    update_pairing_recovery_def count_previous_def
  by (intro frame.rules frames; simp)+

lemma frame_adopt [frames]:
  "{BMeta, BEntityEpochs} \<subseteq> B \<Longrightarrow> upholds (frame B) (adopt_kind current kind n)"
  "{BMeta, BEntityEpochs} \<subseteq> B \<Longrightarrow> upholds (frame B) adopt_stored_records"
  unfolding adopt_stored_records_def adopt_kind_def
  by (intro frame.rules frames; simp)+

lemma frame_clear_latest [frames]: "BConversationLatest \<in> B \<Longrightarrow> upholds (frame B) clear_latest_messages"
  unfolding clear_latest_messages_def by (intro frame.rules frames)

lemma frame_new_phone [frames]:
  "UNIV - {BOutbox, BVersions, BEntityEpochs} \<subseteq> B \<Longrightarrow> upholds (frame B) (new_phone_tx h)"
  by (rule frame_mono [where A = "UNIV - {BOutbox, BVersions, BEntityEpochs}"])
    (unfold new_phone_tx_def, (intro frame.rules frames; simp), simp)

lemma frame_upgrade [frames]:
  "{BOutbox, BEvents, BLatest, BMessageIndex} \<subseteq> B \<Longrightarrow> upholds (frame B) upgrade_session_metadata"
  unfolding upgrade_session_metadata_def by (intro frame.rules frames; simp)

lemma pairing_log_grows [grows]:
  "upholds log_grows (begin_pairing_attempt started expires)"
  "upholds log_grows clear_pairing_attempt"
  "upholds log_grows recover_pairing_attempt"
  "upholds log_grows (save_pairing_agent_digest digest)"
  "upholds log_grows (update_pairing_recovery f)"
  "upholds log_grows (count_previous kind)"
  "upholds log_grows clear_latest_messages"
  "upholds log_grows history_jobs_tx"
  "upholds log_grows adopt_stored_records"
  unfolding begin_pairing_attempt_def clear_pairing_attempt_def recover_pairing_attempt_def
    save_pairing_agent_digest_def update_pairing_recovery_def count_previous_def
    clear_latest_messages_def history_jobs_tx_def adopt_stored_records_def adopt_kind_def
  by (intro log_grows.rules grows; simp)+

lemma session_log_grows [grows]:
  "upholds log_grows upgrade_session_metadata"
  "upholds log_grows (new_phone_tx h)"
  "upholds log_grows (save_paired_session h data new_phone)"
  unfolding save_paired_session_def new_phone_tx_def upgrade_session_metadata_def
  by (intro log_grows.rules grows; simp)+

lemma pairing_advances [advances]:
  "upholds outbox_advances clear_pairing_attempt"
  "upholds outbox_advances recover_pairing_attempt"
  "upholds outbox_advances (save_pairing_agent_digest digest)"
  "upholds outbox_advances (update_pairing_recovery f)"
  "upholds outbox_advances adopt_stored_records"
  "upholds outbox_advances (new_phone_tx h)"
  by (rule quiet_advances [where B = "UNIV - {BOutbox, BVersions}"], rule frames, auto)+

lemma meta_advances [advances]:
  "upholds outbox_advances (bget b k)"
  "b \<noteq> BOutbox \<Longrightarrow> upholds outbox_advances (put_sealed b k context data)"
  "b \<noteq> BOutbox \<Longrightarrow> upholds outbox_advances (bdelete b k)"
  by (rule quiet_advances [where B = "UNIV - {BOutbox}"], rule frames, simp_all)+

lemma session_advances [advances]:
  "upholds outbox_advances (begin_pairing_attempt started expires)"
  "upholds outbox_advances (save_paired_session h data new_phone)"
  unfolding begin_pairing_attempt_def save_paired_session_def
  by (intro outbox_advances.rules advances; simp)+

lemma pairing_versioned [versioned]:
  "upholds versions_grow clear_pairing_attempt"
  "upholds versions_grow recover_pairing_attempt"
  "upholds versions_grow (save_pairing_agent_digest digest)"
  "upholds versions_grow (update_pairing_recovery f)"
  "upholds versions_grow adopt_stored_records"
  "upholds versions_grow (new_phone_tx h)"
  "upholds versions_grow history_jobs_tx"
  "upholds versions_grow (write_history job)"
  by (rule quiet_versioned [where B = "UNIV - {BOutbox, BVersions}"], rule frames, auto)+

lemma session_versioned [versioned]:
  "upholds versions_grow (begin_pairing_attempt started expires)"
  "upholds versions_grow (save_paired_session h data new_phone)"
  unfolding begin_pairing_attempt_def save_paired_session_def
  by (intro versions_grow.rules versioned; simp)+

lemma upgrade_versioned [versioned]: "upholds versions_grow upgrade_session_metadata"
  by (rule quiet_versioned [where B = "UNIV - {BVersions}"], rule frames, simp_all)

lemma upgrade_advances [advances]: "upholds outbox_advances upgrade_session_metadata"
proof
  fix s u s'
  assume run: "upgrade_session_metadata s = Inr (u, s')"
  let ?f = "\<lambda>out :: outbox. out\<lparr>o_session_epoch := epoch_of s\<rparr>"
  let ?P = "\<lambda>out :: outbox. o_session_epoch out = 0"
  show "outbox_advances s s'"
  proof (cases "epoch_of s = 0")
    case True
    with run show ?thesis
      by (auto simp: upgrade_session_metadata_def bind_tx_Inr epoch_Inr outbox_advances.R_refl)
  next
    case False
    with run obtain records t1 t2 jobs t3 where
      loop: "each_outbox (\<lambda>out records. return_tx (if ?P out then records @ [?f out] else records)) [] s
        = Inr (records, t1)"
      and wr: "for_tx write_outbox records t1 = Inr ((), t2)"
      and jb: "history_jobs_tx t2 = Inr (jobs, t3)"
      and fin: "for_tx (\<lambda>job. then_tx (write_history (job\<lparr>j_session_epoch := epoch_of s\<rparr>)) (return_tx ()))
          (filter (\<lambda>job. j_session_epoch job = 0) jobs) t3 = Inr (u, s')"
      by (auto simp: upgrade_session_metadata_def bind_tx_Inr then_tx_Inr epoch_Inr)
    note lp = each_outbox_pure [OF loop]
    have records: "records = map ?f (filter ?P (outbox_records s))"
      using lp by (simp add: fold_collect)
    have at: "outbox_at t2 = overwrite (outbox_at s) records"
      using for_write_outbox [where g = "\<lambda>_ out. out", OF _ wr] lp by simp
    have "outbox_advances s t2"
    proof (rule overwrite_advances [OF at])
      fix w
      assume "w \<in> set records"
      then obtain out where out: "out \<in> set (outbox_records s)" "?P out" "w = ?f out"
        by (auto simp: records)
      with lp obtain k where "outbox_at s k = Some out" by blast
      with out show "\<exists>k out. outbox_at s k = Some out \<and> outbox_moves out w"
        by (intro exI [of _ k] exI [of _ out]) (simp add: outbox_moves_def)
    qed
    moreover have "upholds outbox_advances history_jobs_tx"
      by (rule quiet_advances [where B = "{}"], rule frames, simp)
    then have "outbox_advances t2 t3" using jb by (rule upholdsD)
    moreover have "upholds outbox_advances (for_tx (\<lambda>job. then_tx (write_history
        (job\<lparr>j_session_epoch := epoch_of s\<rparr>)) (return_tx ()))
        (filter (\<lambda>job. j_session_epoch job = 0) jobs))"
      by (rule quiet_advances [where B = "UNIV - {BOutbox}"], (intro frame.rules frames; simp), simp)
    then have "outbox_advances t3 s'" using fin by (rule upholdsD)
    ultimately show ?thesis using outbox_advances.R_trans by blast
  qed
qed

end
