(* ===== verification/RecordStore.thy ===== *)
theory RecordStore
  imports PairingStore
begin

text \<open>
  The remaining records of the store: the session, the address book, private data and media
  (\<open>store.go\<close>, \<open>records.go\<close>), annotated snapshots and the conversation index, the network
  namespace (\<open>network.go\<close>) and web-push data (\<open>push.go\<close>).
\<close>

section \<open>Sealed blobs\<close>

definition save_session :: "payload \<Rightarrow> unit dbtx" where
  "save_session data = put_sealed BMeta ''session'' ''session'' data"

definition bget_plain :: "bucket_id \<Rightarrow> string \<Rightarrow> string \<Rightarrow> payload option dbtx" where
  "bget_plain b context k = bind_tx (bget b k) (\<lambda>v. case v of None \<Rightarrow> return_tx None
     | Some c \<Rightarrow> bind_tx (decrypt c context) (\<lambda>p. return_tx (Some p)))"

definition session :: "payload option dbtx" where
  "session = bget_plain BMeta ''session'' ''session''"

definition save_contacts :: "payload \<Rightarrow> unit dbtx" where
  "save_contacts data = put_sealed BMeta ''contacts'' ''contacts'' data"

definition contacts :: "payload option dbtx" where
  "contacts = bget_plain BMeta ''contacts'' ''contacts''"

text \<open>\<open>recordContext\<close>: the associated data of a record.\<close>

fun bucket_name :: "bucket_id \<Rightarrow> string" where
  "bucket_name BMeta = ''meta''"
| "bucket_name BEvents = ''events''"
| "bucket_name BLatest = ''latest''"
| "bucket_name BVersions = ''versions''"
| "bucket_name BOutbox = ''outbox''"
| "bucket_name BPrivate = ''private''"
| "bucket_name BMedia = ''media''"
| "bucket_name BOutboxTxn = ''outbox-txn''"
| "bucket_name BPush = ''push''"
| "bucket_name BEntityEpochs = ''entity-epochs''"
| "bucket_name BMessageIndex = ''message-conversations''"
| "bucket_name BConversationLatest = ''conversation-latest''"
| "bucket_name BHistoryPages = ''history-pages''"
| "bucket_name BNetwork = ''network''"

definition record_context :: "bucket_id \<Rightarrow> string \<Rightarrow> string" where
  "record_context b key = (if b = BLatest then key else bucket_name b @ '':'' @ key)"

definition get_record :: "bucket_id \<Rightarrow> string \<Rightarrow> payload dbtx" where
  "get_record b key = bind_tx (bget b key) (\<lambda>v. case v of None \<Rightarrow> fail_tx ErrNotFound
     | Some c \<Rightarrow> decrypt c (record_context b key))"

definition put_record :: "bucket_id \<Rightarrow> string \<Rightarrow> payload \<Rightarrow> unit dbtx" where
  "put_record b key data = put_sealed b key (record_context b key) data"

definition latest_record :: "string \<Rightarrow> string \<Rightarrow> payload dbtx" where
  "latest_record kind i = get_record BLatest (entity_key kind i)"

definition put_private :: "string \<Rightarrow> payload \<Rightarrow> unit dbtx" where
  "put_private i data = put_record BPrivate i data"

definition private_record :: "string \<Rightarrow> payload dbtx" where
  "private_record i = get_record BPrivate i"

definition put_media :: "string \<Rightarrow> payload \<Rightarrow> unit dbtx" where
  "put_media i data = put_record BMedia i data"

definition media_record :: "string \<Rightarrow> payload dbtx" where
  "media_record i = get_record BMedia i"

section \<open>Annotated snapshots and the conversation index\<close>

record snapshot_record =
  sr_data :: payload
  sr_current :: bool

definition snapshot_current :: "string \<Rightarrow> (snapshot_record list \<times> u64) dbtx" where
  "snapshot_current kind = bind_tx (bsequence BEvents) (\<lambda>n.
     bind_tx (bscan BLatest (kind @ '':'')) (\<lambda>found.
     bind_tx (fold_tx (\<lambda>kv result. bind_tx (decrypt (snd kv) (fst kv)) (\<lambda>plain.
         bind_tx (entity_current_tx kind (drop (length kind + 1) (fst kv))) (\<lambda>current.
         return_tx (result @ [\<lparr>sr_data = plain, sr_current = current\<rparr>])))) found []) (\<lambda>result.
     return_tx (result, n))))"

definition conversation_messages :: "string \<Rightarrow> (snapshot_record list \<times> u64) dbtx" where
  "conversation_messages conversation_id = bind_tx (bsequence BEvents) (\<lambda>n.
     let p = message_index_key conversation_id [] in
     bind_tx (bscan BMessageIndex p) (\<lambda>found.
     bind_tx (fold_tx (\<lambda>kv result.
         let i = drop (length p) (fst kv); key = entity_key ''message'' i in
         bind_tx (bget BLatest key) (\<lambda>v. case v of None \<Rightarrow> return_tx result
         | Some c \<Rightarrow> bind_tx (decrypt c key) (\<lambda>plain.
             bind_tx (entity_current_tx ''message'' i) (\<lambda>current.
             return_tx (result @ [\<lparr>sr_data = plain, sr_current = current\<rparr>]))))) found []) (\<lambda>result.
     return_tx (result, n))))"

section \<open>The network namespace\<close>

text \<open>
  \<open>NetworkTxn\<close> runs its body inside the enclosing network transaction when the context carries one
  and opens a new one otherwise; a body is a transaction here, so the two cases compose alike.
  \<open>ctx_err\<close> is \<open>ctx.Err()\<close>.
\<close>

definition network_txn :: "go_error option \<Rightarrow> 'a dbtx \<Rightarrow> 'a dbtx" where
  "network_txn ctx_err body = (case ctx_err of Some e \<Rightarrow> fail_tx e
     | None \<Rightarrow> then_tx (bcreate BNetwork) body)"

definition network_context :: "string \<Rightarrow> string" where
  "network_context key = ''network:'' @ key"

definition network_put :: "string \<Rightarrow> payload option \<Rightarrow> unit dbtx" where
  "network_put key v = (case v of None \<Rightarrow> bdelete BNetwork key
     | Some data \<Rightarrow> put_sealed BNetwork key (network_context key) data)"

definition network_get :: "string \<Rightarrow> payload option dbtx" where
  "network_get key = bind_tx (has_bucket BNetwork) (\<lambda>present.
     if \<not> present then return_tx None else bget_plain BNetwork (network_context key) key)"

definition network_scan :: "string \<Rightarrow> (string \<times> payload) list dbtx" where
  "network_scan p = bind_tx (has_bucket BNetwork) (\<lambda>present.
     if \<not> present then return_tx []
     else bind_tx (bscan BNetwork p) (\<lambda>found.
       fold_tx (\<lambda>kv result. bind_tx (decrypt (snd kv) (network_context (fst kv))) (\<lambda>plain.
         return_tx (result @ [(fst kv, plain)]))) found []))"

definition bind_network :: "string \<Rightarrow> unit dbtx" where
  "bind_network network = network_txn None (bind_tx (network_get ''network'') (\<lambda>old.
     if old = None \<or> old = Some (Opaque []) then
       bind_tx (bget BMeta ''session'') (\<lambda>v. bind_tx (bsequence BEvents) (\<lambda>n.
       if network \<noteq> ''google-messages'' \<and> (v \<noteq> None \<or> n > 0)
       then fail_tx (ErrText ''existing database belongs to google-messages'')
       else network_put ''network'' (Some (Opaque network))))
     else if old \<noteq> Some (Opaque network)
     then fail_tx (ErrText ''database network does not match --network'')
     else return_tx ()))"

section \<open>Web push\<close>

record push_keys =
  vapid_private :: string
  vapid_public :: string

definition enc_keys :: "push_keys \<Rightarrow> json" where
  "enc_keys k = JObj (jstr ''private_key'' (vapid_private k) @ jstr ''public_key'' (vapid_public k))"

definition set_keys :: "string \<Rightarrow> json \<Rightarrow> push_keys \<Rightarrow> push_keys option" where
  "set_keys f v k =
    (if f = ''private_key'' then map_option (\<lambda>x. k\<lparr>vapid_private := x\<rparr>) (as_str v (vapid_private k))
     else if f = ''public_key'' then map_option (\<lambda>x. k\<lparr>vapid_public := x\<rparr>) (as_str v (vapid_public k))
     else Some k)"

definition dec_keys :: "json \<Rightarrow> push_keys option" where
  "dec_keys = decode_struct set_keys \<lparr>vapid_private = [], vapid_public = []\<rparr>"

interpretation keys_codec: json_codec enc_keys dec_keys
proof unfold_locales
  show "dec_keys (enc_keys x) = Some x" for x
    by (cases x) (simp add: enc_keys_def dec_keys_def set_keys_def json_members)
qed

definition ensure_push_keys :: "go_error + push_keys \<Rightarrow> push_keys dbtx" where
  "ensure_push_keys generate = bind_tx (bget BMeta ''vapid'') (\<lambda>v. case v of
       Some c \<Rightarrow> bind_tx (decrypt c ''vapid'') (\<lambda>data. lift_tx (unmarshal dec_keys data))
     | None \<Rightarrow> bind_tx (lift_tx generate) (\<lambda>fresh.
         then_tx (put_sealed BMeta ''vapid'' ''vapid'' (JText (enc_keys fresh))) (return_tx fresh)))"

definition put_subscription :: "string \<Rightarrow> payload \<Rightarrow> unit dbtx" where
  "put_subscription i data = put_record BPush i data"

definition delete_subscription :: "string \<Rightarrow> unit dbtx" where
  "delete_subscription i = bdelete BPush i"

definition subscriptions :: "(string \<times> payload) list dbtx" where
  "subscriptions = bind_tx (bscan BPush []) (\<lambda>found.
     fold_tx (\<lambda>kv out. bind_tx (decrypt (snd kv) (record_context BPush (fst kv))) (\<lambda>data.
       return_tx (out @ [(fst kv, data)]))) found [])"

section \<open>What these operations touch\<close>

lemma frame_record_reads [frames]:
  "upholds (frame B) (bget_plain b c k)"
  "upholds (frame B) (get_record b k)"
  "upholds (frame B) (snapshot_current kind)"
  "upholds (frame B) (conversation_messages i)"
  "upholds (frame B) (network_get k)"
  "upholds (frame B) (network_scan p)"
  "upholds (frame B) subscriptions"
  unfolding bget_plain_def get_record_def snapshot_current_def conversation_messages_def
    network_get_def network_scan_def subscriptions_def Let_def
  by (intro frame.rules frames)+

lemma frame_put_record [frames]: "b \<in> B \<Longrightarrow> upholds (frame B) (put_record b k data)"
  unfolding put_record_def by (intro frames)

lemma frame_record_writes [frames]:
  assumes "{BMeta, BPrivate, BMedia, BPush, BNetwork} \<subseteq> B"
  shows "upholds (frame B) (save_session data)"
    "upholds (frame B) (save_contacts data)"
    "upholds (frame B) (put_private i data)"
    "upholds (frame B) (put_media i data)"
    "upholds (frame B) (network_put k v)"
    "upholds (frame B) (bind_network network)"
    "upholds (frame B) (ensure_push_keys g)"
    "upholds (frame B) (put_subscription i data)"
    "upholds (frame B) (delete_subscription i)"
  using assms
  unfolding save_session_def save_contacts_def put_private_def put_media_def network_put_def
    bind_network_def network_txn_def ensure_push_keys_def put_subscription_def delete_subscription_def
    network_put_def
  by (intro frame.rules frames; simp)+

lemma record_log_grows [grows]:
  "upholds log_grows (save_session data)"
  "upholds log_grows (save_contacts data)"
  "upholds log_grows (put_private i data)"
  "upholds log_grows (put_media i data)"
  "upholds log_grows (network_put k v)"
  "upholds log_grows (bind_network network)"
  "upholds log_grows (ensure_push_keys g)"
  "upholds log_grows (put_subscription i data)"
  "upholds log_grows (delete_subscription i)"
  by (rule frame_upholds_log_grows [where B = "{BMeta, BPrivate, BMedia, BPush, BNetwork}"],
      rule frames, simp_all)+

lemma record_advances [advances]:
  "upholds outbox_advances (save_session data)"
  "upholds outbox_advances (save_contacts data)"
  "upholds outbox_advances (put_private i data)"
  "upholds outbox_advances (put_media i data)"
  "upholds outbox_advances (network_put k v)"
  "upholds outbox_advances (bind_network network)"
  "upholds outbox_advances (ensure_push_keys g)"
  "upholds outbox_advances (put_subscription i data)"
  "upholds outbox_advances (delete_subscription i)"
  by (rule quiet_advances [where B = "{BMeta, BPrivate, BMedia, BPush, BNetwork}"],
      rule frames, simp_all)+

lemma record_versioned [versioned]:
  "upholds versions_grow (save_session data)"
  "upholds versions_grow (save_contacts data)"
  "upholds versions_grow (put_private i data)"
  "upholds versions_grow (put_media i data)"
  "upholds versions_grow (network_put k v)"
  "upholds versions_grow (bind_network network)"
  "upholds versions_grow (ensure_push_keys g)"
  "upholds versions_grow (put_subscription i data)"
  "upholds versions_grow (delete_subscription i)"
  by (rule quiet_versioned [where B = "{BMeta, BPrivate, BMedia, BPush, BNetwork}"],
      rule frames, simp_all)+

end
