(* ===== verification/StoreOpen.thy ===== *)
theory StoreOpen
  imports RecordStore
begin

text \<open>
  \<open>Open\<close> of \<open>store.go\<close> with \<open>ensureMessageIndex\<close> of \<open>records.go\<close>: the buckets, the two derived
  indexes, the version counter and the key check, in one transaction.  The file system and
  bbolt's file format are not modelled; the state before \<open>Open\<close> is that of the file with the
  key of this process.
\<close>

definition key_check_plain :: payload where
  "key_check_plain = Opaque ''google-messages-multidevice-bridge-v1''"

definition open_buckets :: "bucket_id list" where
  "open_buckets = [BMeta, BEvents, BLatest, BVersions, BOutbox, BPrivate, BMedia, BOutboxTxn, BPush]"

definition ensure_message_index :: "unit dbtx" where
  "ensure_message_index = bind_tx (has_bucket BMessageIndex) (\<lambda>present.
     if present then return_tx ()
     else then_tx (bcreate_new BMessageIndex)
       (bind_tx (bscan BLatest ''message:'') (\<lambda>found.
        for_tx (\<lambda>kv. bind_tx (decrypt (snd kv) (fst kv)) index_message) found)))"

definition raise_versions :: "unit dbtx" where
  "raise_versions = bind_tx (bsequence BVersions) (\<lambda>v. bind_tx (bsequence BEvents) (\<lambda>n.
     when_tx (v < n) (bset_sequence BVersions n)))"

definition check_key :: "unit dbtx" where
  "check_key = bind_tx (bget BMeta ''key-check'') (\<lambda>v. case v of
       Some c \<Rightarrow> bind_tx (decrypt c ''key-check'') (\<lambda>_. return_tx ())
     | None \<Rightarrow> put_sealed BMeta ''key-check'' ''key-check'' key_check_plain)"

definition open_tx :: "unit dbtx" where
  "open_tx =
     then_tx (for_tx bcreate open_buckets)
     (then_tx ensure_message_index
     (then_tx ensure_conversation_previews
     (then_tx raise_versions check_key)))"

text \<open>The length test on the key comes before anything is opened.\<close>

definition open_store :: "string \<Rightarrow> store \<Rightarrow> (go_error + unit) \<times> store" where
  "open_store key file =
    (if length key \<noteq> 32 then (Inl (ErrText ''storage key must be 32 bytes''), file)
     else update_tx open_tx (file\<lparr>cipher_key := key\<rparr>))"

section \<open>What opening touches\<close>

lemma frame_index_message [frames]: "BMessageIndex \<in> B \<Longrightarrow> upholds (frame B) (index_message d)"
  unfolding index_message_def by (intro frame.rules frames)

lemma frame_message_index [frames]: "BMessageIndex \<in> B \<Longrightarrow> upholds (frame B) ensure_message_index"
  unfolding ensure_message_index_def by (intro frame.rules frames)

lemma bcreate_log_grows [grows]: "upholds log_grows (bcreate b)"
proof
  fix s u s'
  assume "bcreate b s = Inr (u, s')"
  then have "represents s es \<Longrightarrow> represents s' es" for es
    by (auto simp: bcreate_Inr represents_def set_bucket_def split: if_splits)
      (auto simp: set_bucket_def [symmetric])
  then show "log_grows s s'"
    unfolding log_grows_def by (metis append_Nil2)
qed

lemma bcreate_advances: "upholds outbox_advances (bcreate b)"
proof
  fix s u s'
  assume "bcreate b s = Inr (u, s')"
  then have "outbox_at s' k = outbox_at s k" for k
    by (auto simp: bcreate_Inr outbox_at_def stored_at_def set_bucket_def split: if_splits)
      (auto simp: set_bucket_def [symmetric])
  then show "outbox_advances s s'"
    by (simp add: outbox_advances_def outbox_keyed_def)
qed

lemma open_log_grows [grows]:
  "upholds log_grows ensure_message_index"
  "upholds log_grows raise_versions"
  "upholds log_grows check_key"
  "upholds log_grows open_tx"
proof -
  show a: "upholds log_grows ensure_message_index"
    by (rule frame_upholds_log_grows [where B = "{BMessageIndex}"], rule frames, simp_all)
  show b: "upholds log_grows raise_versions"
    unfolding raise_versions_def by (intro log_grows.rules grows; simp)
  show c: "upholds log_grows check_key"
    unfolding check_key_def by (intro log_grows.rules grows; simp)
  show "upholds log_grows open_tx"
    unfolding open_tx_def by (intro log_grows.rules grows a b c)
qed

lemma open_advances [advances]: "upholds outbox_advances open_tx"
proof -
  have "upholds outbox_advances ensure_message_index"
    by (rule quiet_advances [where B = "{BMessageIndex}"], rule frames, simp_all)
  moreover have "upholds outbox_advances raise_versions"
    unfolding raise_versions_def
    by (rule quiet_advances [where B = "{BVersions}"], (intro frame.rules frames; simp), simp)
  moreover have "upholds outbox_advances check_key"
    unfolding check_key_def
    by (rule quiet_advances [where B = "{BMeta}"], (intro frame.rules frames; simp), simp)
  ultimately show ?thesis
    unfolding open_tx_def by (intro outbox_advances.rules advances bcreate_advances)
qed

lemma open_versioned [versioned]: "upholds versions_grow open_tx"
proof -
  have "upholds versions_grow (bcreate b)" for b
  proof
    fix s u s'
    assume "bcreate b s = Inr (u, s')"
    then have "u64_at s' BVersions k = u64_at s BVersions k" "counter s' BVersions = counter s BVersions" for k
      by (auto simp: bcreate_Inr split: if_splits)
    then show "versions_grow s s'"
      by (simp add: versions_grow_def versions_ok_def)
  qed
  moreover have "upholds versions_grow ensure_message_index"
    by (rule quiet_versioned [where B = "{BMessageIndex}"], rule frames, simp_all)
  moreover have "upholds versions_grow raise_versions"
  proof (rule upholdsI)
    fix s u s'
    assume "raise_versions s = Inr (u, s')"
    then have "u64_at s' BVersions k = u64_at s BVersions k" "counter s BVersions \<le> counter s' BVersions" for k
      by (auto simp: raise_versions_def tx_elims split: if_splits)
    then show "versions_grow s s'"
      using order.trans by (simp add: versions_grow_def versions_ok_def) blast
  qed
  moreover have "upholds versions_grow check_key"
    unfolding check_key_def by (intro versions_grow.rules versioned; simp)
  ultimately show ?thesis
    unfolding open_tx_def by (intro versions_grow.rules conversation_versioned) simp_all
qed

end
