(* ===== verification/StoreSystem.thy ===== *)
theory StoreSystem
  imports StoreOpen
begin

text \<open>
  The store as a whole: one step is one committed call of its interface, with any arguments, a
  new reading of the clock, or a reopening.  A failed call commits nothing and is no step.  The
  three contracts of the components, and the stability of session ownership, hold of every step
  and so of every history of the store.
\<close>

section \<open>Ownership between pairings\<close>

text \<open>The epoch stays, and a stamp that changes becomes the current epoch.\<close>

definition session_stable :: "store \<Rightarrow> store \<Rightarrow> bool" where
  "session_stable s s' \<longleftrightarrow> epoch_of s' = epoch_of s \<and>
     (\<forall>k. u64_at s' BEntityEpochs k = u64_at s BEntityEpochs k \<or>
          u64_at s' BEntityEpochs k = Some (epoch_of s))"

interpretation session_stable: tx_relation session_stable
proof unfold_locales
  show "session_stable s s" for s
    by (simp add: session_stable_def)
  show "session_stable s u" if "session_stable s t" "session_stable t u" for s t u
    using that unfolding session_stable_def by metis
qed

named_theorems stable \<open>operations that keep ownership between pairings\<close>

lemma quiet_stable: "upholds (frame B) m \<Longrightarrow> BMeta \<notin> B \<Longrightarrow> BEntityEpochs \<notin> B \<Longrightarrow> upholds session_stable m"
  by (erule upholds_mono) (simp add: session_stable_def frame_epoch_of frame_u64_at)

lemma stable_reads [stable]:
  "upholds session_stable (has_bucket b)"
  "upholds session_stable (bget b k)"
  "upholds session_stable (bscan b p)"
  "upholds session_stable (bsequence b)"
  "upholds session_stable (decrypt c context)"
  "upholds session_stable epoch"
  "upholds session_stable (bget_sealed b context' dec k)"
  "upholds session_stable (network_get k)"
  by (rule quiet_stable [where B = "{}"], rule frames, simp_all)+

lemma stable_meta [stable]:
  "k \<noteq> epoch_key \<Longrightarrow> upholds session_stable (bput BMeta k v)"
  "k \<noteq> epoch_key \<Longrightarrow> upholds session_stable (bdelete BMeta k)"
  "k \<noteq> epoch_key \<Longrightarrow> upholds session_stable (put_sealed BMeta k context data)"
  by (auto simp: upholds_def tx_elims session_stable_def epoch_of_def)

lemma stamp_stable [stable]: "upholds session_stable (stamp_epoch kind i)"
proof
  fix s u s'
  assume run: "stamp_epoch kind i s = Inr (u, s')"
  show "session_stable s s'"
  proof (cases "kind = ''message'' \<or> kind = ''conversation''")
    case True
    note st = stamp_epoch_Inr [OF run True]
    show ?thesis unfolding session_stable_def using st(1,4) by simp
  next
    case False
    with run show ?thesis by (simp add: stamp_epoch_def session_stable.R_refl)
  qed
qed

lemma quiet_ops_stable [stable]:
  "upholds session_stable (append_tx event)"
  "upholds session_stable (observe_tx key)"
  "upholds session_stable (preview_conversation data)"
  "upholds session_stable (previous_status_tx event v)"
  "upholds session_stable (put_private_tx p)"
  "upholds session_stable (stale_tx key fence)"
  "upholds session_stable (refresh_conversation_tx data fresh st)"
  "upholds session_stable (confirm_event_tx event)"
  "upholds session_stable (read_conversation i through)"
  "upholds session_stable (enqueue i txn req)"
  "upholds session_stable claim"
  "upholds session_stable (finish i result detail)"
  "upholds session_stable recover_sending"
  "upholds session_stable (cancel_queued i)"
  "upholds session_stable (claim_queued i)"
  "upholds session_stable (reject_queued i detail)"
  "upholds session_stable cancel_queued_for_pairing"
  "upholds session_stable (save_upload u data)"
  "upholds session_stable (queue_history h job restart)"
  "upholds session_stable (pause_history i)"
  "upholds session_stable (checkpoint_history h i g prev nxt n d)"
  "upholds session_stable (fail_history i g d)"
  "upholds session_stable upgrade_session_metadata"
  "upholds session_stable (put_private i data)"
  "upholds session_stable (put_media i data)"
  "upholds session_stable (network_put k w)"
  "upholds session_stable (put_subscription i data)"
  "upholds session_stable (delete_subscription i)"
  "upholds session_stable (read_outbox i)"
  "upholds session_stable (write_outbox out)"
  "upholds session_stable (bget_u64 b k)"
  unfolding put_private_def put_media_def put_subscription_def delete_subscription_def network_put_def
  by (rule quiet_stable [where B = "UNIV - {BMeta, BEntityEpochs}"],
      (intro frame.rules frames; auto), simp, simp)+

lemma meta_keys [simp]:
  "pairing_attempt_key \<noteq> epoch_key" "agent_digest_key \<noteq> epoch_key" "recovery_key \<noteq> epoch_key"
  by (simp_all add: pairing_attempt_key_def agent_digest_key_def recovery_key_def epoch_key_def)

lemma meta_ops_stable [stable]:
  "upholds session_stable (begin_pairing_attempt started expires)"
  "upholds session_stable clear_pairing_attempt"
  "upholds session_stable recover_pairing_attempt"
  "upholds session_stable (save_pairing_agent_digest digest)"
  "upholds session_stable (update_pairing_recovery f)"
  "upholds session_stable (count_previous kind)"
  "upholds session_stable (save_session data)"
  "upholds session_stable (save_contacts data)"
  "upholds session_stable (ensure_push_keys g)"
  unfolding begin_pairing_attempt_def clear_pairing_attempt_def recover_pairing_attempt_def
    save_pairing_agent_digest_def update_pairing_recovery_def count_previous_def save_session_def
    save_contacts_def ensure_push_keys_def
  by (intro session_stable.rules stable; simp add: epoch_key_def pairing_attempt_key_def
      agent_digest_key_def recovery_key_def previous_count_key_def)+

lemma bcreate_stable [stable]: "upholds session_stable (bcreate b)"
  by (rule upholdsI) (auto simp: bcreate_Inr session_stable_def split: if_splits)

lemma apply_stable [stable]:
  "upholds session_stable (observe_event_tx event p)"
  "upholds session_stable (apply_tx event p fence)"
  "upholds session_stable (finish_conversation i event p wm)"
  "upholds session_stable (bind_network network)"
  unfolding apply_tx_def observe_event_tx_def finish_conversation_def bind_network_def network_txn_def
  by (intro session_stable.rules stable)+

lemma open_stable [stable]: "upholds session_stable open_tx"
proof -
  have "upholds session_stable ensure_message_index" "upholds session_stable ensure_conversation_previews"
    "upholds session_stable raise_versions"
    unfolding raise_versions_def
    by (rule quiet_stable [where B = "UNIV - {BMeta, BEntityEpochs}"],
        (intro frame.rules frames; auto), simp, simp)+
  moreover have "upholds session_stable check_key"
    unfolding check_key_def by (intro session_stable.rules stable; simp add: epoch_key_def)
  ultimately show ?thesis
    unfolding open_tx_def by (intro session_stable.rules stable)
qed

text \<open>The stamps an adoption writes all carry one number.\<close>

definition stamped_with :: "u64 \<Rightarrow> store \<Rightarrow> store \<Rightarrow> bool" where
  "stamped_with n s s' \<longleftrightarrow> epoch_of s' = epoch_of s \<and>
     (\<forall>k. u64_at s' BEntityEpochs k = u64_at s BEntityEpochs k \<or> u64_at s' BEntityEpochs k = Some n)"

interpretation stamped: tx_relation "stamped_with n" for n
proof unfold_locales
  show "stamped_with n s s" for s by (simp add: stamped_with_def)
  show "stamped_with n s u" if "stamped_with n s t" "stamped_with n t u" for s t u
    using that unfolding stamped_with_def by metis
qed

lemma stamped_ops:
  "upholds (stamped_with n) (bscan b p)"
  "upholds (stamped_with n) (bget_u64 b k)"
  "upholds (stamped_with n) (bput BEntityEpochs k (Raw (sequence n)))"
  "upholds (stamped_with n) (bput BMeta (previous_count_key kind) v)"
  "upholds (stamped_with n) (bcreate b)"
  by (auto simp: upholds_def tx_elims stamped_with_def split: if_splits)

lemma adopt_stamps:
  "upholds (stamped_with n) (fold_tx (adopt_kind n) kinds adopted)"
  unfolding adopt_kind_def by (intro stamped.rules stamped_ops)

lemma adopt_stable [stable]: "upholds session_stable adopt_stored_records"
proof
  fix s x s'
  assume "adopt_stored_records s = Inr (x, s')"
  then consider "s' = s" | t where "bcreate BEntityEpochs s = Inr ((), t)"
      "fold_tx (adopt_kind (epoch_of s)) [''conversation'', ''message''] 0 t = Inr (x, s')"
    by (auto simp: adopt_stored_records_def bind_tx_Inr then_tx_Inr epoch_Inr split: if_splits)
  then have "stamped_with (epoch_of s) s s'"
  proof cases
    case 1
    then show ?thesis by (simp add: stamped.R_refl)
  next
    case 2
    show ?thesis
      by (rule stamped.R_trans [OF upholdsD [OF stamped_ops(5) 2(1)] upholdsD [OF adopt_stamps 2(2)]])
  qed
  then show "session_stable s s'" by (simp add: stamped_with_def session_stable_def)
qed

section \<open>Records of earlier sessions\<close>

text \<open>
  The stored conversations or messages that do not belong to the current session.  The counter
  under \<open>previous_count_key\<close> is to say how many there are.
\<close>

definition stale_ids :: "store \<Rightarrow> string \<Rightarrow> string set" where
  "stale_ids s kind = {i. lookup s BLatest (entity_key kind i) \<noteq> None \<and>
     u64_at s BEntityEpochs (entity_key kind i) \<noteq> Some (epoch_of s)}"

definition record_kinds :: "string set" where
  "record_kinds = {''conversation'', ''message''}"

definition count_exact :: "store \<Rightarrow> string \<Rightarrow> bool" where
  "count_exact s kind \<longleftrightarrow>
     (\<exists>n. u64_at s BMeta (previous_count_key kind) = Some n \<and> unat n = card (stale_ids s kind))"

lemma entity_key_inj [simp]: "entity_key kind i = entity_key kind j \<longleftrightarrow> i = j"
  by (simp add: entity_key_def)

lemma entity_key_kinds [simp]:
  "entity_key ''message'' i \<noteq> entity_key ''conversation'' j"
  "entity_key ''conversation'' i \<noteq> entity_key ''message'' j"
  "kind \<in> record_kinds \<Longrightarrow> entity_key kind i \<noteq> entity_key ''outbox'' j"
  "kind \<in> record_kinds \<Longrightarrow> entity_key kind i \<noteq> entity_key ''history'' j"
  by (auto simp: entity_key_def record_kinds_def)

lemma finite_stale: "finite (stale_ids s kind)"
proof -
  have "entity_key kind ` stale_ids s kind \<subseteq> fst ` set (pairs s BLatest)"
    by (force simp: stale_ids_def lookup_pairs dest: map_of_SomeD)
  then show ?thesis
    by (meson List.finite_set finite_imageI finite_imageD finite_subset inj_onI entity_key_inj)
qed

text \<open>Which conversations and messages are stored, whom they belong to, and the counts.\<close>

definition same_records :: "store \<Rightarrow> store \<Rightarrow> bool" where
  "same_records s s' \<longleftrightarrow> epoch_of s' = epoch_of s \<and> (\<forall>kind \<in> record_kinds.
     u64_at s' BMeta (previous_count_key kind) = u64_at s BMeta (previous_count_key kind) \<and>
     (\<forall>i. (lookup s' BLatest (entity_key kind i) = None \<longleftrightarrow> lookup s BLatest (entity_key kind i) = None) \<and>
          u64_at s' BEntityEpochs (entity_key kind i) = u64_at s BEntityEpochs (entity_key kind i)))"

interpretation same_records: tx_relation same_records
  by unfold_locales (auto simp: same_records_def)

lemma quiet_same_records:
  "upholds (frame B) m \<Longrightarrow> {BMeta, BEntityEpochs, BLatest} \<inter> B = {} \<Longrightarrow> upholds same_records m"
  by (erule upholds_mono) (auto simp: same_records_def frame_epoch_of frame_u64_at frame_lookup)

lemma same_records_stale:
  "same_records s s' \<Longrightarrow> kind \<in> record_kinds \<Longrightarrow> stale_ids s' kind = stale_ids s kind"
  by (auto simp: same_records_def stale_ids_def)

lemma same_records_count:
  "same_records s s' \<Longrightarrow> kind \<in> record_kinds \<Longrightarrow> count_exact s' kind = count_exact s kind"
  by (simp add: count_exact_def same_records_stale) (simp add: same_records_def)

lemma append_records:
  assumes "append_tx event s = Inr (changed, s')"
  shows "epoch_of s' = epoch_of s" "u64_at s' BMeta k = u64_at s BMeta k"
    "u64_at s' BEntityEpochs k = u64_at s BEntityEpochs k"
    "lookup s' BLatest k = (if k = entity_key (ev_type event) (ev_entity_id event)
       then Some (Sealed (cipher_key s) k (ev_data event)) else lookup s BLatest k)"
  using append_tx_other(1) [OF assms] append_tx_latest [OF assms]
  by (simp_all add: epoch_of_def u64_at_def)

lemma append_same_records:
  "ev_type event = ''outbox'' \<or> ev_type event = ''history'' \<Longrightarrow> upholds same_records (append_tx event)"
  by (rule upholdsI) (auto simp: same_records_def append_records)

lemma update_conversation_same_records: "upholds same_records (update_conversation_tx i mutate)"
proof
  fix s b s'
  assume run: "update_conversation_tx i mutate s = Inr (b, s')"
  have obs: "same_records s t" if "observe_tx (conversation_key i) s = Inr ((), t)" for t
  proof -
    have "upholds same_records (observe_tx (conversation_key i))"
      by (rule quiet_same_records [where B = "{BVersions}"], rule frames, simp_all)
    then show ?thesis using that by (rule upholdsD)
  qed
  from run show "same_records s s'"
  proof (cases rule: update_conversation_cases)
    case unchanged
    then show ?thesis by (simp add: same_records.R_refl)
  next
    case (observed c)
    then show ?thesis by (intro obs)
  next
    case (appended c t)
    then have st: "same_records s t" by (intro obs)
    have "lookup s BLatest (entity_key ''conversation'' i) \<noteq> None"
      using appended(1)
      by (cases "lookup s BLatest (entity_key ''conversation'' i)")
        (simp_all add: conversation_at_def stored_at_def conversation_key_def)
    then have "lookup t BLatest (entity_key ''conversation'' i) \<noteq> None"
      using st by (simp add: same_records_def record_kinds_def)
    then have "same_records t s'"
      using append_records [OF appended(5)]
      by (simp add: same_records_def conversation_event_def zero_event_def record_kinds_def)
    with st show ?thesis by (rule same_records.R_trans)
  qed
qed

lemma refresh_same_records: "upholds same_records (refresh_conversation_tx data fresh st)"
proof -
  have "upholds same_records (latest_message_tx i)" "upholds same_records (put_latest_message_tx i l)" for i l
    by (rule quiet_same_records [where B = "{BConversationLatest}"], rule frames, simp_all)+
  then show ?thesis
    unfolding refresh_conversation_tx_def Let_def
    by (intro same_records.rules update_conversation_same_records) simp_all
qed

lemma write_outbox_same_records: "upholds same_records (write_outbox out)"
proof -
  have "upholds same_records (put_sealed BOutbox k c d)" for k c d
    by (rule quiet_same_records [where B = "{BOutbox}"], rule frames, simp_all)
  then show ?thesis
    unfolding write_outbox_def
    by (intro same_records.rules append_same_records) (simp_all add: outbox_event_def)
qed

lemma confirm_same_records: "upholds same_records (confirm_event_tx event)"
proof -
  have "upholds same_records (bget b k)" "upholds same_records epoch" "upholds same_records (read_outbox i)"
    for b k i
    by (rule quiet_same_records [where B = "{}"], rule frames, simp)+
  then show ?thesis
    unfolding confirm_event_tx_def confirm_send_tx_def
    by (intro same_records.rules write_outbox_same_records) simp_all
qed

lemma write_history_same_records: "upholds same_records (write_history job)"
  unfolding write_history_def Let_def
  by (intro same_records.rules append_same_records) (simp add: history_event_def)

text \<open>Applying an observation keeps the counts exact: the stamp precedes the append.\<close>

lemma stamp_count:
  assumes run: "stamp_epoch kind i s = Inr (u, t)" and kind: "kind \<in> record_kinds"
    and pos: "epoch_of s > 0" and kind': "kind' \<in> record_kinds" and ex: "count_exact s kind'"
  shows "epoch_of t = epoch_of s" and "count_exact t kind'"
    and "u64_at t BEntityEpochs (entity_key kind i) = Some (epoch_of t)"
proof -
  from kind have k: "kind = ''message'' \<or> kind = ''conversation''" by (auto simp: record_kinds_def)
  note st = stamp_epoch_Inr [OF run k]
  show ep: "epoch_of t = epoch_of s" by (rule st(1))
  show "u64_at t BEntityEpochs (entity_key kind i) = Some (epoch_of t)" using st(4) ep by simp
  have stale: "stale_ids t kind' = (if kind' = kind then stale_ids s kind' - {i} else stale_ids s kind')"
    using kind kind' by (auto simp: stale_ids_def st(4,5) ep record_kinds_def)
  have unc: "uncounted kind (entity_key kind i) s \<longleftrightarrow> i \<in> stale_ids s kind"
    using pos by (simp add: uncounted_def stale_ids_def)
  obtain n where n: "u64_at s BMeta (previous_count_key kind') = Some n" "unat n = card (stale_ids s kind')"
    using ex by (auto simp: count_exact_def)
  show "count_exact t kind'"
  proof (cases "kind' = kind \<and> i \<in> stale_ids s kind")
    case True
    then have "card (stale_ids s kind') > 0" using finite_stale card_gt_0_iff by blast
    with n(2) have "n > 0" by (simp add: word_gt_0 unat_gt_0 [symmetric])
    moreover from this have "unat (n - 1) = unat n - 1"
      by (metis unat_minus_one word_gt_0)
    ultimately show ?thesis
      using True n stale by (auto simp: count_exact_def st(6) unc finite_stale)
  next
    case False
    then have "stale_ids t kind' = stale_ids s kind'" using stale by auto
    with n False show ?thesis
      unfolding count_exact_def by (auto simp: st(6) unc)
  qed
qed

lemma observe_count:
  assumes run: "observe_event_tx event p s = Inr (changed, s')" and ty: "ev_type event \<in> record_kinds"
    and pos: "epoch_of s > 0" and kind: "kind \<in> record_kinds" and ex: "count_exact s kind"
  shows "count_exact s' kind" and "epoch_of s' = epoch_of s"
proof -
  let ?key = "entity_key (ev_type event) (ev_entity_id event)"
  from run obtain data s1 logged_it s2 s3 s4 status where
    steps: "stamp_epoch (ev_type event) (ev_entity_id event) s = Inr ((), s1)"
    "append_tx (event\<lparr>ev_data := data\<rparr>) s1 = Inr (logged_it, s2)"
    "observe_tx (event_key event) s2 = Inr ((), s3)"
    "put_private_tx p s3 = Inr ((), s4)"
    "if ev_type event = ''message'' then
       \<exists>r. refresh_conversation_tx (ev_data event)
          (lookup s1 BLatest (event_key event) = None \<and> \<not> ev_historical event) status s4 = Inr (r, s') \<and>
          changed = (logged_it \<or> r)
     else s' = s4 \<and> changed = logged_it"
    by (rule observe_event_steps)
  note st = stamp_count [OF steps(1) ty pos kind ex]
  note ap = append_records [OF steps(2), simplified]
  have "i \<in> stale_ids s2 kind \<longleftrightarrow> i \<in> stale_ids s1 kind" for i
    using st(3) by (cases "entity_key kind i = ?key") (simp_all add: stale_ids_def ap)
  then have "stale_ids s2 kind = stale_ids s1 kind" by blast
  with st(2) have c2: "count_exact s2 kind" by (simp add: count_exact_def ap)
  have quiet: "upholds same_records (observe_tx k)" "upholds same_records (put_private_tx p)" for k
    by (rule quiet_same_records [where B = "{BVersions, BPrivate}"], rule frames, simp_all)+
  have "same_records s2 s3" by (rule upholdsD [OF quiet(1) steps(3)])
  moreover have "same_records s3 s4" by (rule upholdsD [OF quiet(2) steps(4)])
  moreover have "same_records s4 s'"
    using steps(5) upholdsD [OF refresh_same_records] same_records.R_refl by (auto split: if_splits)
  ultimately have same: "same_records s2 s'" using same_records.R_trans by blast
  show "count_exact s' kind" using same_records_count [OF same kind] c2 by simp
  show "epoch_of s' = epoch_of s" using same st(1) ap(1) by (simp add: same_records_def)
qed

text \<open>The first part of \<open>SavePairedSession\<close> leaves conversations and messages alone.\<close>

lemma pairing_head_same_records:
  "upholds same_records (when_tx c (update_pairing_recovery f))"
  "upholds same_records (put_sealed BMeta ''session'' ''session'' data)"
  "upholds same_records (bdelete BMeta pairing_attempt_key)"
  "upholds same_records cancel_queued_for_pairing"
proof -
  have meta: "k \<noteq> epoch_key \<Longrightarrow> \<forall>kind. k \<noteq> previous_count_key kind \<Longrightarrow>
      upholds same_records (put_sealed BMeta k c d)" for k c d
    by (rule upholdsI) (auto simp: put_sealed_Inr same_records_def epoch_of_def)
  have reads: "upholds same_records (bget_sealed BMeta c d k)" for c k and d :: "json \<Rightarrow> pairing_recovery option"
    by (rule quiet_same_records [where B = "{}"], rule frames, simp)
  have "upholds same_records (put_sealed BMeta recovery_key c d)" for c d
    by (rule meta) (simp_all add: recovery_key_def epoch_key_def previous_count_key_def)
  with reads show "upholds same_records (when_tx c (update_pairing_recovery f))"
    unfolding update_pairing_recovery_def by (intro same_records.rules) simp_all
  show "upholds same_records (put_sealed BMeta ''session'' ''session'' data)"
    by (rule meta) (simp_all add: epoch_key_def previous_count_key_def)
  show "upholds same_records (bdelete BMeta pairing_attempt_key)"
    by (rule upholdsI) (auto simp: bdelete_Inr same_records_def epoch_of_def previous_count_key_def
        pairing_attempt_key_def epoch_key_def)
  have "upholds same_records (bscan BOutbox p)" "upholds same_records (read_outbox i)" for p i
    by (rule quiet_same_records [where B = "{}"], rule frames, simp)+
  then show "upholds same_records cancel_queued_for_pairing"
    unfolding cancel_queued_for_pairing_def each_outbox_def
    by (intro same_records.rules write_outbox_same_records) simp_all
qed

text \<open>A new phone's pairing counts every stored record, and owns none of them.\<close>

definition stored_ids :: "store \<Rightarrow> string \<Rightarrow> string set" where
  "stored_ids s kind = {i. lookup s BLatest (entity_key kind i) \<noteq> None}"

lemma card_stored_ids:
  assumes "kv_sorted (pairs s BLatest)"
  shows "card (stored_ids s kind) = length (kv_scan (kind @ '':'') (pairs s BLatest))"
proof -
  let ?found = "kv_scan (kind @ '':'') (pairs s BLatest)"
  have "fst ` set ?found = entity_key kind ` stored_ids s kind"
    using kv.scan_keys [OF assms, of "kind @ '':''"]
    by (auto simp: stored_ids_def lookup_pairs entity_key_def prefix_def image_iff)
  moreover have "inj_on (entity_key kind) (stored_ids s kind)"
    by (simp add: inj_on_def)
  ultimately have "card (fst ` set ?found) = card (stored_ids s kind)"
    by (simp add: card_image)
  moreover have "card (fst ` set ?found) = length ?found"
    using kv.scan_distinct [OF assms, of "kind @ '':''"] distinct_card [of "map fst ?found"] by simp
  ultimately show ?thesis by simp
qed

lemma count_previous_Inr:
  "count_previous kind s = Inr (u, t) \<Longrightarrow> exists_bucket s BMeta \<and> t = put_kv BMeta (previous_count_key kind)
     (Raw (sequence (word_of_nat (length (kv_scan (kind @ '':'') (pairs s BLatest)))))) s"
  by (auto simp: count_previous_def bind_tx_Inr bscan_Inr bput_Inr)

lemma pairing_tail_same_records:
  "upholds same_records (bdelete BMeta ''contacts'')"
  "upholds same_records (bclear BPrivate [])"
  "upholds same_records history_jobs_tx"
  "upholds same_records (for_tx (\<lambda>job. then_tx (forget_pages h (j_id job))
        (then_tx (write_history (reset_job job)) (return_tx ()))) jobs)"
proof -
  show "upholds same_records (bdelete BMeta ''contacts'')"
    by (rule upholdsI) (auto simp: bdelete_Inr same_records_def epoch_of_def previous_count_key_def epoch_key_def)
  show "upholds same_records (bclear BPrivate [])"
    by (rule quiet_same_records [where B = "{BPrivate}"], rule frames, simp_all)
  show "upholds same_records history_jobs_tx"
    by (rule quiet_same_records [where B = "{}"], rule frames, simp_all)
  have "upholds same_records (forget_pages h i)" for i
    by (rule quiet_same_records [where B = "{BHistoryPages}"], rule frames, simp_all)
  then show "upholds same_records (for_tx (\<lambda>job. then_tx (forget_pages h (j_id job))
        (then_tx (write_history (reset_job job)) (return_tx ()))) jobs)"
    by (intro same_records.rules write_history_same_records)
qed

text \<open>The log numbers its events in 64 bits, so there are fewer latest records than that.\<close>

lemma replay_keys: "replay es k \<noteq> None \<Longrightarrow> k \<in> event_key ` set es"
  by (induction es rule: rev_induct) (auto split: if_splits)

lemma latest_fits:
  assumes "represents s es"
  shows "length (pairs s BLatest) < 2 ^ 64"
proof -
  have srt: "kv_sorted (pairs s BLatest)" using assms by (simp add: represents_def)
  have "replay es (fst kv) \<noteq> None" if "kv \<in> set (pairs s BLatest)" for kv
  proof -
    have "lookup s BLatest (fst kv) = Some (snd kv)"
      using that kv_sorted_distinct [OF srt] by (simp add: lookup_pairs)
    then show ?thesis using assms by (auto simp: represents_def)
  qed
  then have "fst ` set (pairs s BLatest) \<subseteq> event_key ` set es"
    using replay_keys by blast
  then have "card (fst ` set (pairs s BLatest)) \<le> card (event_key ` set es)"
    by (rule card_mono [rotated]) simp
  also have "\<dots> \<le> length es"
    using card_image_le [of "set es" event_key] card_length [of es] by simp
  also have "\<dots> = unat (counter s BEvents)" using assms by (simp add: represents_def)
  finally have "card (fst ` set (pairs s BLatest)) < 2 ^ 64"
    using unsigned_less [of "counter s BEvents", where 'a = nat] by simp
  then show ?thesis
    using distinct_card [OF kv_sorted_distinct [OF srt]] by simp
qed

lemma new_phone_count:
  assumes run: "new_phone_tx h s = Inr (u, s')" and srt: "kv_sorted (pairs s BLatest)"
    and fits: "length (pairs s BLatest) < 2 ^ 64" and kind: "kind \<in> record_kinds"
  shows "\<exists>n. u64_at s' BMeta (previous_count_key kind) = Some n \<and> unat n = card (stored_ids s kind)"
    and "stored_ids s' kind = stored_ids s kind"
proof -
  from run obtain t1 t2 t3 t4 t5 t6 t7 jobs where
    c: "clear_latest_messages s = Inr ((), t1)"
    and n: "count_previous ''conversation'' t1 = Inr ((), t2)" "count_previous ''message'' t2 = Inr ((), t3)"
    and e: "t4 = put_kv BMeta epoch_key (Raw (sequence (epoch_of t3 + 1))) t3"
    and d: "bdelete BMeta ''contacts'' t4 = Inr ((), t5)"
    and p: "bclear BPrivate [] t5 = Inr ((), t6)"
    and j: "history_jobs_tx t6 = Inr (jobs, t7)"
    and w: "for_tx (\<lambda>job. then_tx (forget_pages h (j_id job))
        (then_tx (write_history (reset_job job)) (return_tx ()))) jobs t7 = Inr (u, s')"
    unfolding new_phone_tx_def
    by (auto simp: bind_tx_Inr then_tx_Inr epoch_Inr bput_Inr)
  have f: "frame {BConversationLatest} s t1" by (rule upholdsD [OF frame_clear_latest c]) simp
  have pr: "pairs t1 BLatest = pairs s BLatest" by (rule frame_pairs [OF f]) simp
  have "same_records t4 t5" by (rule upholdsD [OF pairing_tail_same_records(1) d])
  moreover have "same_records t5 t6" by (rule upholdsD [OF pairing_tail_same_records(2) p])
  moreover have "same_records t6 t7" by (rule upholdsD [OF pairing_tail_same_records(3) j])
  moreover have "same_records t7 s'" by (rule upholdsD [OF pairing_tail_same_records(4) w])
  ultimately have same: "same_records t4 s'" using same_records.R_trans by blast
  have lk: "lookup t4 BLatest k = lookup s BLatest k" for k
    using count_previous_Inr [OF n(1)] count_previous_Inr [OF n(2)] e
    by (simp add: lookup_pairs pairs_simps pr)
  show "stored_ids s' kind = stored_ids s kind"
    using same kind lk by (simp add: stored_ids_def same_records_def)
  have len: "length (kv_scan p (pairs s BLatest)) < 2 ^ 64" for p
    unfolding kv_scan_filter [OF srt] by (rule le_less_trans [OF length_filter_le fits])
  have "u64_at t4 BMeta (previous_count_key kind) =
      Some (word_of_nat (length (kv_scan (kind @ '':'') (pairs s BLatest))))"
    using count_previous_Inr [OF n(1)] count_previous_Inr [OF n(2)] e kind
    by (auto simp: pairs_simps pr record_kinds_def)
  moreover have "unat (word_of_nat (length (kv_scan (kind @ '':'') (pairs s BLatest))) :: u64) =
      card (stored_ids s kind)"
    using len [of "kind @ '':''"] by (simp add: unat_of_nat take_bit_nat_def card_stored_ids [OF srt])
  ultimately show "\<exists>n. u64_at s' BMeta (previous_count_key kind) = Some n \<and> unat n = card (stored_ids s kind)"
    using same kind by (simp add: same_records_def)
qed

section \<open>The new session\<close>

text \<open>No stamp is ahead of the epoch.\<close>

definition epochs_ok :: "store \<Rightarrow> bool" where
  "epochs_ok s \<longleftrightarrow> (\<forall>k r. u64_at s BEntityEpochs k = Some r \<longrightarrow> r \<le> epoch_of s)"

lemma session_stable_ok: "session_stable s s' \<Longrightarrow> epochs_ok s \<Longrightarrow> epochs_ok s'"
  unfolding session_stable_def epochs_ok_def by (metis order_refl option.inject)

text \<open>The session part of \<open>SavePairedSession\<close>, before a new phone's records are reset.\<close>

lemma save_paired_steps:
  assumes "save_paired_session h data new_phone s = Inr (u, s')"
  obtains t where "session_stable s t" "same_records s t" "log_grows s t"
    "if new_phone then new_phone_tx h t = Inr (u, s') else s' = t"
proof -
  have pre: "upholds session_stable (when_tx c (update_pairing_recovery f))" for c f
    by (intro session_stable.rules stable)
  from assms obtain v t1 t2 t3 t where
    "when_tx v (update_pairing_recovery (\<lambda>r. r\<lparr>pr_attempts := 0, pr_paused := False,
        pr_next_attempt := 0\<rparr>)) s = Inr ((), t1)"
    "put_sealed BMeta ''session'' ''session'' data t1 = Inr ((), t2)"
    "bdelete BMeta pairing_attempt_key t2 = Inr ((), t3)"
    "cancel_queued_for_pairing t3 = Inr ((), t)"
    and last: "when_tx new_phone (new_phone_tx h) t = Inr (u, s')"
    by (auto simp: save_paired_session_def bind_tx_Inr then_tx_Inr bget_Inr)
  note steps = this
  have "session_stable s t1" by (rule upholdsD [OF pre steps(1)])
  moreover have "session_stable t1 t2"
    by (rule upholdsD [OF stable_meta(3) steps(2)]) (simp add: epoch_key_def)
  moreover have "session_stable t2 t3" by (rule upholdsD [OF stable_meta(2) steps(3)]) simp
  moreover have "session_stable t3 t" by (rule upholdsD [OF quiet_ops_stable(17) steps(4)])
  ultimately have st: "session_stable s t" using session_stable.R_trans by blast
  have rec: "upholds same_records (when_tx c (update_pairing_recovery f))"
    "upholds same_records (put_sealed BMeta ''session'' ''session'' data)"
    "upholds same_records (bdelete BMeta pairing_attempt_key)"
    "upholds same_records cancel_queued_for_pairing" for c f
    by (rule pairing_head_same_records)+
  have "same_records s t"
    using upholdsD [OF rec(1) steps(1)] upholdsD [OF rec(2) steps(2)] upholdsD [OF rec(3) steps(3)]
      upholdsD [OF rec(4) steps(4)] same_records.R_trans by blast
  moreover have log: "upholds log_grows (when_tx c (update_pairing_recovery f))" for c f
    by (intro log_grows.rules grows)
  have "log_grows s t"
    using upholdsD [OF log steps(1)] upholdsD [OF log_grows_writes(5) steps(2)]
      upholdsD [OF log_grows_writes(2) steps(3)] upholdsD [OF outbox_log_grows(9) steps(4)]
      log_grows.R_trans by blast
  moreover have "if new_phone then new_phone_tx h t = Inr (u, s') else s' = t"
    using last by (simp add: when_tx_Inr)
  ultimately show thesis using st by (intro that)
qed

lemma new_phone_epoch:
  assumes run: "new_phone_tx h s = Inr (u, s')"
  shows "epoch_of s' = epoch_of s + 1"
    and "u64_at s' BEntityEpochs k = u64_at s BEntityEpochs k"
proof -
  have "frame (UNIV - {BOutbox, BVersions, BEntityEpochs}) s s'"
    by (rule upholdsD [OF frame_new_phone run]) simp
  then show "u64_at s' BEntityEpochs k = u64_at s BEntityEpochs k"
    by (rule frame_u64_at) simp
  from run obtain t1 t2 t3 t4 t5 t6 jobs where
    c: "clear_latest_messages s = Inr ((), t1)"
    and n: "for_tx count_previous [''conversation'', ''message''] t1 = Inr ((), t2)"
    and e: "exists_bucket t2 BMeta" "t3 = put_kv BMeta epoch_key (Raw (sequence (epoch_of t2 + 1))) t2"
    and d: "bdelete BMeta ''contacts'' t3 = Inr ((), t4)"
    and p: "bclear BPrivate [] t4 = Inr ((), t5)"
    and j: "history_jobs_tx t5 = Inr (jobs, t6)"
    and w: "for_tx (\<lambda>job. then_tx (forget_pages h (j_id job))
        (then_tx (write_history (reset_job job)) (return_tx ()))) jobs t6 = Inr (u, s')"
    unfolding new_phone_tx_def
    by (auto simp: bind_tx_Inr then_tx_Inr epoch_Inr bput_Inr simp del: for_tx_Cons for_tx_Nil)
  have "frame {BConversationLatest} s t1"
    by (rule upholdsD [OF frame_clear_latest c]) simp
  then have "epoch_of t1 = epoch_of s" by (rule frame_epoch_of) simp
  moreover have "upholds session_stable (for_tx count_previous [''conversation'', ''message''])"
    by (intro session_stable.rules stable)
  then have "epoch_of t2 = epoch_of t1"
    using upholdsD n by (fastforce simp: session_stable_def)
  moreover have "epoch_of t3 = epoch_of t2 + 1"
    using e by (simp add: epoch_of_def)
  moreover have "session_stable t3 t4"
    by (rule upholdsD [OF stable_meta(2) d]) (simp add: epoch_key_def)
  then have "epoch_of t4 = epoch_of t3" by (simp add: session_stable_def)
  moreover have "frame {BPrivate} t4 t5"
    by (rule upholdsD [OF frame_bclear p]) simp
  then have "epoch_of t5 = epoch_of t4" by (rule frame_epoch_of) simp
  moreover have "frame {} t5 t6"
    by (rule upholdsD [OF frame_pairing_reads(3) j])
  then have "epoch_of t6 = epoch_of t5" by simp
  moreover have "upholds (frame (UNIV - {BMeta})) (for_tx (\<lambda>job. then_tx (forget_pages h (j_id job))
        (then_tx (write_history (reset_job job)) (return_tx ()))) jobs)"
    by (intro frame.rules frames; simp)
  then have "epoch_of s' = epoch_of t6"
    using upholdsD w frame_epoch_of by fastforce
  ultimately show "epoch_of s' = epoch_of s + 1" by simp
qed

text \<open>
  What a pairing does to ownership; the epoch is a 64-bit counter of phones, and the guard of
  the step below says that it has not run out.
\<close>

lemma save_paired_epochs:
  assumes run: "save_paired_session h data new_phone s = Inr (u, s')" and ok: "epochs_ok s"
    and room: "epoch_of s \<noteq> - 1"
  shows "epochs_ok s'" and "epoch_of s' = (if new_phone then epoch_of s + 1 else epoch_of s)"
    and "new_phone \<Longrightarrow> u64_at s' BEntityEpochs k \<noteq> Some (epoch_of s')"
proof -
  from run obtain t where st: "session_stable s t"
    and new: "if new_phone then new_phone_tx h t = Inr (u, s') else s' = t"
    by (rule save_paired_steps)
  from st ok have okt: "epochs_ok t" by (rule session_stable_ok)
  from st have ep: "epoch_of t = epoch_of s" by (simp add: session_stable_def)
  show "epoch_of s' = (if new_phone then epoch_of s + 1 else epoch_of s)"
    using new ep new_phone_epoch(1) by (auto split: if_splits)
  have lt: "epoch_of t < epoch_of t + 1" using room ep less_inc by simp
  have all: "r < epoch_of s'" if "new_phone" "u64_at s' BEntityEpochs k = Some r" for k r
    using new new_phone_epoch [of h t u s'] okt lt that
    by (auto simp: epochs_ok_def intro: order.strict_trans1)
  show "u64_at s' BEntityEpochs k \<noteq> Some (epoch_of s')" if new_phone
    using all [OF that] by blast
  show "epochs_ok s'"
    using all new okt by (cases new_phone) (auto simp: epochs_ok_def less_imp_le)
qed

section \<open>Histories of the store\<close>

inductive store_step :: "store \<Rightarrow> store \<Rightarrow> bool" where
  tick: "store_step s (s\<lparr>clock := now\<rparr>)"
| applied: "apply_tx event p fence s = Inr (changed, s') \<Longrightarrow> store_step s s'"
| appended: "append_event event s = Inr (changed, s') \<Longrightarrow> store_step s s'"
| read: "read_conversation i through s = Inr (changed, s') \<Longrightarrow> store_step s s'"
| enqueued: "enqueue i txn req s = Inr (r, s') \<Longrightarrow> store_step s s'"
| claimed: "claim s = Inr (r, s') \<Longrightarrow> store_step s s'"
| claimed_one: "claim_queued i s = Inr (out, s') \<Longrightarrow> store_step s s'"
| canceled: "cancel_queued i s = Inr (out, s') \<Longrightarrow> store_step s s'"
| rejected: "reject_queued i detail s = Inr (u, s') \<Longrightarrow> store_step s s'"
| finished: "finish i result detail s = Inr (u, s') \<Longrightarrow> store_step s s'"
| recovered: "recover_sending s = Inr (u, s') \<Longrightarrow> store_step s s'"
| uploaded: "save_upload up data s = Inr (u, s') \<Longrightarrow> store_step s s'"
| created: "finish_conversation i event p n s = Inr (u, s') \<Longrightarrow> store_step s s'"
| queued: "queue_history h job restart s = Inr (job', s') \<Longrightarrow> store_step s s'"
| paused: "pause_history i s = Inr (job', s') \<Longrightarrow> store_step s s'"
| checkpointed: "checkpoint_history h i g prev nxt n detail s = Inr (u, s') \<Longrightarrow> store_step s s'"
| failed: "fail_history i g detail s = Inr (u, s') \<Longrightarrow> store_step s s'"
| pairing: "begin_pairing_attempt started expires s = Inr (u, s') \<Longrightarrow> store_step s s'"
| unpairing: "clear_pairing_attempt s = Inr (u, s') \<Longrightarrow> store_step s s'"
| interrupted: "recover_pairing_attempt s = Inr (b, s') \<Longrightarrow> store_step s s'"
| paired: "save_paired_session h data new_phone s = Inr (u, s') \<Longrightarrow> epoch_of s \<noteq> - 1 \<Longrightarrow> store_step s s'"
| adopted: "adopt_stored_records s = Inr (k, s') \<Longrightarrow> store_step s s'"
| upgraded: "upgrade_session_metadata s = Inr (u, s') \<Longrightarrow> store_step s s'"
| digest: "save_pairing_agent_digest d s = Inr (u, s') \<Longrightarrow> store_step s s'"
| recovery: "update_pairing_recovery f s = Inr (u, s') \<Longrightarrow> store_step s s'"
| session: "save_session data s = Inr (u, s') \<Longrightarrow> store_step s s'"
| book: "save_contacts data s = Inr (u, s') \<Longrightarrow> store_step s s'"
| private_put: "put_private i data s = Inr (u, s') \<Longrightarrow> store_step s s'"
| media_put: "put_media i data s = Inr (u, s') \<Longrightarrow> store_step s s'"
| network: "network_put k v s = Inr (u, s') \<Longrightarrow> store_step s s'"
| networked: "bcreate BNetwork s = Inr (u, s') \<Longrightarrow> store_step s s'"
| bound: "bind_network name s = Inr (u, s') \<Longrightarrow> store_step s s'"
| vapid: "ensure_push_keys g s = Inr (keys, s') \<Longrightarrow> store_step s s'"
| subscribed: "put_subscription i data s = Inr (u, s') \<Longrightarrow> store_step s s'"
| unsubscribed: "delete_subscription i s = Inr (u, s') \<Longrightarrow> store_step s s'"
| reopened: "open_tx s = Inr (u, s') \<Longrightarrow> store_step s s'"

lemma clock_lookups [simp]:
  "lookup (s\<lparr>clock := now\<rparr>) b k = lookup s b k" "counter (s\<lparr>clock := now\<rparr>) b = counter s b"
  "pairs (s\<lparr>clock := now\<rparr>) b = pairs s b" "u64_at (s\<lparr>clock := now\<rparr>) b k = u64_at s b k"
  "outbox_at (s\<lparr>clock := now\<rparr>) k = outbox_at s k" "epoch_of (s\<lparr>clock := now\<rparr>) = epoch_of s"
  by (simp_all add: lookup_def counter_def pairs_def u64_at_def outbox_at_def stored_at_def epoch_of_def)

lemma step_log_grows: "store_step s s' \<Longrightarrow> log_grows s s'"
proof (induction rule: store_step.induct)
  case (tick s now)
  have "represents (s\<lparr>clock := now\<rparr>) es = represents s es" for es
    by (simp add: represents_def)
  then show ?case unfolding log_grows_def by (metis append_Nil2)
qed (erule upholdsD [rotated], rule grows)+

lemma step_outbox_advances: "store_step s s' \<Longrightarrow> outbox_advances s s'"
proof (induction rule: store_step.induct)
  case (tick s now)
  show ?case by (simp add: outbox_advances_def outbox_keyed_def)
qed (erule upholdsD [rotated], rule advances bcreate_advances)+

lemma step_versions_grow: "store_step s s' \<Longrightarrow> versions_grow s s'"
proof (induction rule: store_step.induct)
  case (tick s now)
  show ?case by (simp add: versions_grow_def versions_ok_def)
next
  case appended
  then show ?case
    by (auto simp: append_event_def upholdsD [OF apply_versioned(2)] split: if_splits)
next
  case (networked s u s')
  show ?case by (rule upholdsD [OF writes_versioned(4) networked]) simp
qed (erule upholdsD [rotated], rule versioned)+

lemma step_epochs_ok: "store_step s s' \<Longrightarrow> epochs_ok s \<Longrightarrow> epochs_ok s'"
proof (induction rule: store_step.induct)
  case (tick s now)
  then show ?case by (simp add: epochs_ok_def)
next
  case paired
  then show ?case using save_paired_epochs(1) by blast
next
  case appended
  then show ?case
    by (auto simp: append_event_def split: if_splits intro: session_stable_ok upholdsD [OF apply_stable(2)])
qed (erule session_stable_ok [rotated], erule upholdsD [rotated], rule stable)+

text \<open>Any number of steps.\<close>

definition store_steps :: "store \<Rightarrow> store \<Rightarrow> bool" where
  "store_steps = store_step\<^sup>*\<^sup>*"

lemma steps_keep:
  assumes "store_steps s s'" and "\<And>s s'. store_step s s' \<Longrightarrow> R s s'"
    and "\<And>s. R s s" and "\<And>s t u. R s t \<Longrightarrow> R t u \<Longrightarrow> R s u"
  shows "R s s'"
  using assms(1) unfolding store_steps_def
  by (induction rule: rtranclp_induct) (use assms(2-4) in blast)+

lemma steps_log_grows: "store_steps s s' \<Longrightarrow> log_grows s s'"
  by (erule steps_keep) (blast intro: step_log_grows log_grows.R_refl log_grows.R_trans)+

lemma steps_outbox_advances: "store_steps s s' \<Longrightarrow> outbox_advances s s'"
  by (erule steps_keep) (blast intro: step_outbox_advances outbox_advances.R_refl outbox_advances.R_trans)+

lemma steps_versions_grow: "store_steps s s' \<Longrightarrow> versions_grow s s'"
  by (erule steps_keep) (blast intro: step_versions_grow versions_grow.R_refl versions_grow.R_trans)+

text \<open>The states a new database reaches.\<close>

definition new_file :: "string \<Rightarrow> time \<Rightarrow> store" where
  "new_file key now = \<lparr>cipher_key = key, clock = now, db = (\<lambda>_. None)\<rparr>"

definition reachable :: "store \<Rightarrow> bool" where
  "reachable s \<longleftrightarrow> (\<exists>key now. store_steps (new_file key now) s)"

definition store_ok :: "store \<Rightarrow> bool" where
  "store_ok s \<longleftrightarrow> (\<exists>es. represents s es) \<and> outbox_keyed s \<and> versions_ok s \<and> epochs_ok s"

lemma new_file_ok: "store_ok (new_file key now)"
proof -
  have "represents (new_file key now) []"
    by (simp add: represents_def new_file_def pairs_def counter_def lookup_def)
  then show ?thesis
    by (auto simp: store_ok_def outbox_keyed_def outbox_at_def stored_at_def versions_ok_def
        epochs_ok_def u64_at_def lookup_def new_file_def)
qed

lemma step_store_ok: "store_step s s' \<Longrightarrow> store_ok s \<Longrightarrow> store_ok s'"
  using step_log_grows [of s s'] step_outbox_advances [of s s'] step_versions_grow [of s s']
    step_epochs_ok [of s s']
  by (auto simp: store_ok_def log_grows_def outbox_advances_def versions_grow_def)

lemma steps_store_ok: "store_steps s s' \<Longrightarrow> store_ok s \<Longrightarrow> store_ok s'"
  unfolding store_steps_def by (induction rule: rtranclp_induct) (auto intro: step_store_ok)

lemma reachable_ok: "reachable s \<Longrightarrow> store_ok s"
  unfolding reachable_def using new_file_ok steps_store_ok by blast

end
