(* ===== verification/Runs.thy ===== *)
theory Runs
  imports StoreSystem
begin

text \<open>
  Running the store forward: what each operation returns on a state in which it succeeds.  The
  rules are the other direction of \<open>tx_elims\<close>; with them \<open>simp\<close> evaluates a transaction on a
  concrete state, such as the empty database \<open>empty_store\<close>, and shows that the operations do
  return, which the conditional properties do not say.
\<close>

named_theorems runs \<open>results of operations that succeed\<close>

lemma base_runs [runs]:
  "exists_bucket s b \<Longrightarrow> bget b k s = Inr (lookup s b k, s)"
  "exists_bucket s b \<Longrightarrow> k \<noteq> [] \<Longrightarrow> length k \<le> MaxKeySize \<Longrightarrow> bput b k v s = Inr ((), put_kv b k v s)"
  "exists_bucket s b \<Longrightarrow> bdelete b k s = Inr ((), del_kv b k s)"
  "exists_bucket s b \<Longrightarrow> bscan b k s = Inr (kv_scan k (pairs s b), s)"
  "exists_bucket s b \<Longrightarrow> bsequence b s = Inr (counter s b, s)"
  "exists_bucket s b \<Longrightarrow> counter s b \<noteq> - 1 \<Longrightarrow>
   bnext b s = Inr (counter s b + 1, set_counter b (counter s b + 1) s)"
  "exists_bucket s b \<Longrightarrow> k \<noteq> [] \<Longrightarrow> length k \<le> MaxKeySize \<Longrightarrow>
   put_sealed b k context d s = Inr ((), put_kv b k (Sealed (cipher_key s) context d) s)"
  "has_bucket b s = Inr (exists_bucket s b, s)"
  "encrypt d context s = Inr (Sealed (cipher_key s) context d, s)"
  "decrypt (Sealed (cipher_key s) context d) context s = Inr (d, s)"
  by (simp_all add: tx_elims)

lemma derived_runs [runs]:
  "exists_bucket s b \<Longrightarrow> bget_u64 b k s = Inr (u64_at s b k, s)"
  "exists_bucket s BMeta \<Longrightarrow> epoch s = Inr (epoch_of s, s)"
  "exists_bucket s BMeta \<Longrightarrow> entity_current_tx kind k s = Inr (is_current s kind k, s)"
  "exists_bucket s BOutbox \<Longrightarrow> outbox_at s k = Some out \<Longrightarrow> read_outbox k s = Inr (out, s)"
  "exists_bucket s BOutbox \<Longrightarrow> lookup s BOutbox k = None \<Longrightarrow> read_outbox k s = Inl ErrNotFound"
  "exists_bucket s BVersions \<Longrightarrow> counter s BVersions \<noteq> - 1 \<Longrightarrow> key \<noteq> [] \<Longrightarrow>
   length key \<le> MaxKeySize \<Longrightarrow> observe_tx key s =
     Inr ((), put_kv BVersions key (Raw (sequence (counter s BVersions + 1)))
                (set_counter BVersions (counter s BVersions + 1) s))"
  by (simp_all add: tx_elims read_outbox_missing)

lemmas exec = bind_tx_def then_tx_def when_tx_def return_tx_def read_tx_def fail_tx_def lift_tx_def
  attempt_tx_def modify_tx_def

text \<open>
  Appending succeeds when the buckets exist, the 64-bit counter has room, the key is short
  enough, and the stored snapshot of the entity, if any, can be opened and differs.
\<close>

definition can_append :: "event \<Rightarrow> store \<Rightarrow> bool" where
  "can_append e s \<longleftrightarrow> ev_type e \<noteq> [] \<and> ev_entity_id e \<noteq> [] \<and> json_valid (ev_data e) \<and>
     exists_bucket s BLatest \<and> exists_bucket s BEvents \<and> counter s BEvents \<noteq> - 1 \<and>
     length (event_key e) \<le> MaxKeySize \<and>
     (\<forall>c. lookup s BLatest (event_key e) = Some c \<longrightarrow>
        (\<exists>d. c = Sealed (cipher_key s) (event_key e) d \<and> d \<noteq> ev_data e))"

lemma entity_key_not_Nil [simp]: "entity_key kind i \<noteq> []"
  by (simp add: entity_key_def)

lemma event_key_not_Nil [simp]: "event_key e \<noteq> []"
  by (simp add: event_key_def)

lemma fold_event_key: "entity_key (ev_type e) (ev_entity_id e) = event_key e"
  by (simp add: event_key_def)

lemma fold_logged:
  "put_kv BLatest (event_key e) (Sealed (cipher_key s) (event_key e) (ev_data e))
     (put_kv BEvents (sequence (counter s BEvents + 1)) (Sealed (cipher_key s)
        (event_context (counter s BEvents + 1))
        (JText (enc_event (e\<lparr>ev_id := counter s BEvents + 1, ev_time := clock s\<rparr>))))
     (set_counter BEvents (counter s BEvents + 1) s)) = logged e s"
  by (simp add: logged_def Let_def fold_event_key)

lemma append_tx_run:
  assumes can: "can_append e s"
  shows "append_tx e s = bind_tx (when_tx (ev_type e = ''message'') (index_message (ev_data e)))
     (\<lambda>_. return_tx True) (logged e s)"
proof -
  have key: "length (event_key e) \<le> MaxKeySize" "length (sequence n) \<le> MaxKeySize"
    "sequence n \<noteq> []" for n
    using can length_sequence [of n] by (auto simp: can_append_def MaxKeySize_def simp del: length_sequence)
  have same: "(case lookup s BLatest (event_key e) of None \<Rightarrow> return_tx False
       | Some c \<Rightarrow> bind_tx (decrypt c (event_key e)) (\<lambda>plain. return_tx (plain = ev_data e))) s =
     Inr (False, s)"
    using can by (cases "lookup s BLatest (event_key e)") (auto simp: can_append_def exec runs)
  show ?thesis
    using can
    by (simp add: can_append_def append_tx_def Let_def fold_event_key bind_tx_def [where m = "bget _ _"]
        base_runs bind_tx_def [where f = "\<lambda>same. if same then _ else _"] same)
      (simp add: exec runs key [unfolded MaxKeySize_def] MaxKeySize_def fold_logged)
qed

lemma append_run [runs]:
  "can_append e s \<Longrightarrow> ev_type e \<noteq> ''message'' \<Longrightarrow> append_tx e s = Inr (True, logged e s)"
  by (simp add: append_tx_run exec)

definition indexed :: "message \<Rightarrow> store \<Rightarrow> store" where
  "indexed m s = (if m_id m = [] \<or> m_conversation_id m = [] then s
     else put_kv BMessageIndex (message_index_key (m_conversation_id m) (m_id m)) (Raw []) s)"

lemma index_message_run [runs]:
  assumes "exists_bucket s BMessageIndex"
    and "length (m_id m) + length (m_conversation_id m) < MaxKeySize"
  shows "index_message (JText (enc_message m)) s = Inr ((), indexed m s)"
  using assms
  by (simp add: index_message_Inr dec_message_ref_message indexed_def message_index_key_def)

lemma append_message_run [runs]:
  assumes can: "can_append e s" and ty: "ev_type e = ''message''"
    and data: "ev_data e = JText (enc_message m)" and ex: "exists_bucket s BMessageIndex"
    and len: "length (m_id m) + length (m_conversation_id m) < MaxKeySize"
  shows "append_tx e s = Inr (True, indexed m (logged e s))"
proof -
  have "exists_bucket (logged e s) BMessageIndex"
    using ex by (simp add: logged_def Let_def)
  from index_message_run [OF this len] show ?thesis
    by (simp add: append_tx_run [OF can] ty data exec)
qed

lemma logged_simps [simp]:
  "cipher_key (logged e s) = cipher_key s" "clock (logged e s) = clock s"
  "exists_bucket (logged e s) b = exists_bucket s b"
  "b \<noteq> BEvents \<Longrightarrow> counter (logged e s) b = counter s b"
  "exists_bucket s BEvents \<Longrightarrow> counter (logged e s) BEvents = counter s BEvents + 1"
  "b \<noteq> BEvents \<Longrightarrow> b \<noteq> BLatest \<Longrightarrow> lookup (logged e s) b k = lookup s b k"
  "exists_bucket s BLatest \<Longrightarrow> lookup (logged e s) BLatest k =
     (if k = event_key e then Some (Sealed (cipher_key s) k (ev_data e)) else lookup s BLatest k)"
  "b \<noteq> BEvents \<Longrightarrow> b \<noteq> BLatest \<Longrightarrow> pairs (logged e s) b = pairs s b"
  "exists_bucket s BLatest \<Longrightarrow> pairs (logged e s) BLatest =
     kv_put (event_key e) (Sealed (cipher_key s) (event_key e) (ev_data e)) (pairs s BLatest)"
  "b \<noteq> BEvents \<Longrightarrow> b \<noteq> BLatest \<Longrightarrow> u64_at (logged e s) b k = u64_at s b k"
  "b \<noteq> BEvents \<Longrightarrow> b \<noteq> BLatest \<Longrightarrow> stored_at (logged e s) b context dec k = stored_at s b context dec k"
  "outbox_at (logged e s) k = outbox_at s k"
  "epoch_of (logged e s) = epoch_of s"
  by (simp_all add: logged_def Let_def event_key_def pairs_simps u64_at_def stored_at_def outbox_at_def
      epoch_of_def)

definition stored_outbox :: "outbox \<Rightarrow> store \<Rightarrow> store" where
  "stored_outbox w s = logged (outbox_event w) (put_kv BOutbox (o_id w)
     (Sealed (cipher_key s) (outbox_context (o_id w)) (JText (enc_outbox w))) s)"

lemma outbox_event_simps [simp]:
  "ev_type (outbox_event w) = ''outbox''" "ev_entity_id (outbox_event w) = o_id w"
  "ev_data (outbox_event w) = JText (enc_outbox w)"
  "event_key (outbox_event w) = entity_key ''outbox'' (o_id w)"
  by (simp_all add: outbox_event_def event_key_def)

lemma can_append_put [simp]:
  "b \<noteq> BLatest \<Longrightarrow> can_append e (put_kv b k v s) = can_append e s"
  by (simp add: can_append_def)

lemma write_outbox_run [runs]:
  "can_append (outbox_event w) s \<Longrightarrow> exists_bucket s BOutbox \<Longrightarrow> o_id w \<noteq> [] \<Longrightarrow>
   length (o_id w) \<le> MaxKeySize \<Longrightarrow> write_outbox w s = Inr ((), stored_outbox w s)"
  by (simp add: write_outbox_def exec runs stored_outbox_def)

lemma stored_outbox_simps [simp]:
  "cipher_key (stored_outbox w s) = cipher_key s" "clock (stored_outbox w s) = clock s"
  "exists_bucket (stored_outbox w s) b = exists_bucket s b"
  "exists_bucket s BEvents \<Longrightarrow> counter (stored_outbox w s) BEvents = counter s BEvents + 1"
  "b \<noteq> BEvents \<Longrightarrow> counter (stored_outbox w s) b = counter s b"
  "exists_bucket s BLatest \<Longrightarrow> lookup (stored_outbox w s) BLatest k =
     (if k = entity_key ''outbox'' (o_id w) then Some (Sealed (cipher_key s) k (JText (enc_outbox w)))
      else lookup s BLatest k)"
  "b \<notin> {BEvents, BLatest, BOutbox} \<Longrightarrow> lookup (stored_outbox w s) b k = lookup s b k"
  "exists_bucket s BOutbox \<Longrightarrow> outbox_at (stored_outbox w s) k =
     (if k = o_id w then Some w else outbox_at s k)"
  "exists_bucket s BOutbox \<Longrightarrow> lookup (stored_outbox w s) BOutbox k =
     (if k = o_id w then Some (Sealed (cipher_key s) (outbox_context k) (JText (enc_outbox w)))
      else lookup s BOutbox k)"
  "exists_bucket s BOutbox \<Longrightarrow> pairs (stored_outbox w s) BOutbox =
     kv_put (o_id w) (Sealed (cipher_key s) (outbox_context (o_id w)) (JText (enc_outbox w)))
       (pairs s BOutbox)"
  "epoch_of (stored_outbox w s) = epoch_of s"
  "b \<notin> {BEvents, BLatest, BOutbox} \<Longrightarrow> u64_at (stored_outbox w s) b k = u64_at s b k"
  by (auto simp: stored_outbox_def pairs_simps u64_at_def)

section \<open>The database after the first opening\<close>

definition opened_bucket :: "bucket_id \<Rightarrow> bool" where
  "opened_bucket b \<longleftrightarrow> b \<notin> {BEntityEpochs, BHistoryPages, BNetwork}"

definition empty_store :: "time \<Rightarrow> store" where
  "empty_store now = put_kv BMeta ''key-check'' (Sealed ''key'' ''key-check'' key_check_plain)
     \<lparr>cipher_key = ''key'', clock = now,
      db = (\<lambda>b. if opened_bucket b then Some empty_bucket else None)\<rparr>"

lemma empty_store_simps [simp]:
  "cipher_key (empty_store now) = ''key''" "clock (empty_store now) = now"
  "exists_bucket (empty_store now) b = opened_bucket b"
  "counter (empty_store now) b = 0"
  "lookup (empty_store now) b k = (if b = BMeta \<and> k = ''key-check''
     then Some (Sealed ''key'' ''key-check'' key_check_plain) else None)"
  "b \<noteq> BMeta \<Longrightarrow> pairs (empty_store now) b = []"
  "u64_at (empty_store now) b k = None" "epoch_of (empty_store now) = 0"
  "outbox_at (empty_store now) k = None" "b \<noteq> BMeta \<Longrightarrow> stored_at (empty_store now) b c dec k = None"
proof -
  let ?e = "\<lparr>cipher_key = ''key'', clock = now,
      db = (\<lambda>b. if opened_bucket b then Some empty_bucket else None)\<rparr>"
  have e: "exists_bucket ?e b = opened_bucket b" "lookup ?e b k = None" "counter ?e b = 0"
    "pairs ?e b = []" for b k
    by (simp_all add: exists_bucket_def lookup_def counter_def pairs_def empty_bucket_def)
  have m: "opened_bucket BMeta" by (simp add: opened_bucket_def)
  show lk: "lookup (empty_store now) b k = (if b = BMeta \<and> k = ''key-check''
     then Some (Sealed ''key'' ''key-check'' key_check_plain) else None)" for b k
    by (simp add: empty_store_def e m)
  show "cipher_key (empty_store now) = ''key''" "clock (empty_store now) = now"
    "exists_bucket (empty_store now) b = opened_bucket b" "counter (empty_store now) b = 0"
    "b \<noteq> BMeta \<Longrightarrow> pairs (empty_store now) b = []"
    by (simp_all add: empty_store_def e pairs_simps)
  show u: "u64_at (empty_store now) b k = None" for b k
    by (simp add: u64_at_def lk)
  show "epoch_of (empty_store now) = 0"
    by (simp add: epoch_of_def u)
  show "outbox_at (empty_store now) k = None" "b \<noteq> BMeta \<Longrightarrow> stored_at (empty_store now) b c dec k = None"
    by (simp_all add: outbox_at_def stored_at_def lk)
qed

lemma opened_buckets [simp]:
  "opened_bucket BMeta" "opened_bucket BEvents" "opened_bucket BLatest" "opened_bucket BVersions"
  "opened_bucket BOutbox" "opened_bucket BPrivate" "opened_bucket BMedia" "opened_bucket BOutboxTxn"
  "opened_bucket BPush" "opened_bucket BMessageIndex" "opened_bucket BConversationLatest"
  "\<not> opened_bucket BEntityEpochs" "\<not> opened_bucket BHistoryPages" "\<not> opened_bucket BNetwork"
  by (simp_all add: opened_bucket_def)

text \<open>It is what \<open>Open\<close> makes of a new file, up to the order in which it creates the buckets.\<close>

lemma bcreate_run [runs]: "bcreate b s = Inr ((), if exists_bucket s b then s else set_bucket b (Some empty_bucket) s)"
  by (simp add: bcreate_Inr)

lemma open_new_file: "open_tx (new_file ''key'' now) = Inr ((), empty_store now)"
proof -
  define s1 where "s1 = \<lparr>cipher_key = ''key'', clock = now, db = (\<lambda>b. if opened_bucket b \<and>
      b \<noteq> BMessageIndex \<and> b \<noteq> BConversationLatest then Some empty_bucket else None)\<rparr>"
  define s2 where "s2 = \<lparr>cipher_key = ''key'', clock = now, db = (\<lambda>b. if opened_bucket b \<and>
      b \<noteq> BConversationLatest then Some empty_bucket else None)\<rparr>"
  define s3 where "s3 = \<lparr>cipher_key = ''key'', clock = now,
      db = (\<lambda>b. if opened_bucket b then Some empty_bucket else None)\<rparr>"
  have "for_tx bcreate open_buckets (new_file ''key'' now) = Inr ((), s1)"
    by (simp add: open_buckets_def bcreate_def exec new_file_def set_bucket_def s1_def
        opened_bucket_def) (rule ext, rename_tac b, case_tac b, simp_all)
  moreover have "ensure_message_index s1 = Inr ((), s2)"
    by (simp add: ensure_message_index_def has_bucket_def bcreate_new_def bscan_def with_bucket_def
        exec s1_def s2_def set_bucket_def empty_bucket_def kv_scan_def fun_eq_iff)
  moreover have "ensure_conversation_previews s2 = Inr ((), s3)"
    by (simp add: ensure_conversation_previews_def has_bucket_def bcreate_new_def bscan_def
        with_bucket_def exec s2_def s3_def set_bucket_def empty_bucket_def kv_scan_def fun_eq_iff)
  moreover have "raise_versions s3 = Inr ((), s3)"
    by (simp add: raise_versions_def bsequence_def with_bucket_def exec s3_def empty_bucket_def)
  moreover have "check_key s3 = Inr ((), empty_store now)"
    by (simp add: check_key_def exec runs s3_def exists_bucket_def lookup_def empty_bucket_def
        MaxKeySize_def empty_store_def)
  ultimately show ?thesis
    by (simp add: open_tx_def then_tx_def bind_tx_def)
qed

lemma empty_store_reachable: "reachable (empty_store now)"
  unfolding reachable_def store_steps_def
  by (rule exI [of _ "''key''"], rule exI [of _ now], rule r_into_rtranclp)
    (rule store_step.reopened [OF open_new_file])

lemma reachable_step: "reachable s \<Longrightarrow> store_step s s' \<Longrightarrow> reachable s'"
  unfolding reachable_def store_steps_def by (meson rtranclp.rtrancl_into_rtrancl)

declare MaxKeySize_def [simp]

lemma length_entity_key [simp]: "length (entity_key kind i) = Suc (length kind + length i)"
  by (simp add: entity_key_def)

lemma outbox_at_put_other [simp]: "b \<noteq> BOutbox \<Longrightarrow> outbox_at (put_kv b k v s) k' = outbox_at s k'"
  by (simp add: outbox_at_def)

lemma outbox_state_differs: "o_state a \<noteq> o_state b \<Longrightarrow> a \<noteq> (b :: outbox)"
  by auto

text \<open>A queued record can be claimed.\<close>

lemma claim_queued_run:
  assumes "exists_bucket s BOutbox" and "outbox_at s i = Some out" and "o_state out = ''queued''"
  defines "out' \<equiv> out\<lparr>o_state := ''sending'', o_updated := clock s\<rparr>"
  assumes "can_append (outbox_event out') s" and "o_id out \<noteq> []" and "length (o_id out) \<le> MaxKeySize"
  shows "claim_queued i s = Inr (out', stored_outbox out' s)"
  using assms(1-3,5,6,7) by (simp add: claim_queued_def exec runs Let_def out'_def)

end
