(* ===== verification/SendProperties.thy ===== *)
theory SendProperties
  imports Runs
begin

text \<open>
  What the store promises about sends: the state machine and its irreversibility over any history,
  idempotent enqueueing, at-most-once claiming, oldest-first claiming, recovery after a stop and
  confirmation by an observed message.  Each property with hypotheses is followed by an instance.
\<close>

section \<open>A concrete history\<close>

definition text_request :: send_request where
  "text_request = zero_request\<lparr>q_kind := ''message'', q_conversation_id := ''c'', q_text := ''hello''\<rparr>"

definition queued_one :: outbox where
  "queued_one = new_outbox ''a'' ''t'' text_request 0 5"

definition with_one :: store where
  "with_one = stored_outbox queued_one (put_kv BOutboxTxn ''t'' (Raw ''a'') (empty_store 5))"

definition sending_one :: outbox where
  "sending_one = queued_one\<lparr>o_state := ''sending'', o_updated := 5\<rparr>"

definition with_claimed :: store where
  "with_claimed = stored_outbox sending_one with_one"

lemma queued_one_simps [simp]:
  "o_id queued_one = ''a''" "o_state queued_one = ''queued''" "o_request queued_one = text_request"
  "o_session_epoch queued_one = 0" "o_transaction_id queued_one = ''t''" "o_created queued_one = 5"
  by (simp_all add: queued_one_def new_outbox_def)

lemma sending_one_simps [simp]:
  "o_id sending_one = ''a''" "o_state sending_one = ''sending''" "o_request sending_one = text_request"
  "o_session_epoch sending_one = 0" "o_transaction_id sending_one = ''t''"
  by (simp_all add: sending_one_def)

lemma sending_differs [simp]: "sending_one \<noteq> queued_one" "queued_one \<noteq> sending_one"
  by (rule outbox_state_differs, simp)+

lemma with_one_simps [simp]:
  "exists_bucket with_one b = opened_bucket b" "clock with_one = 5" "cipher_key with_one = ''key''"
  "outbox_at with_one k = (if k = ''a'' then Some queued_one else None)"
  "counter with_one BEvents = 1" "epoch_of with_one = 0"
  "lookup with_one BLatest k = (if k = entity_key ''outbox'' ''a''
     then Some (Sealed ''key'' k (JText (enc_outbox queued_one))) else None)"
  "lookup with_one BOutboxTxn k = (if k = ''t'' then Some (Raw ''a'') else None)"
  "pairs with_one BOutbox = [(''a'', Sealed ''key'' (outbox_context ''a'') (JText (enc_outbox queued_one)))]"
  by (simp_all add: with_one_def pairs_simps)

lemma with_claimed_simps [simp]:
  "exists_bucket with_claimed b = opened_bucket b" "clock with_claimed = 5"
  "cipher_key with_claimed = ''key''" "epoch_of with_claimed = 0"
  "outbox_at with_claimed k = (if k = ''a'' then Some sending_one else None)"
  "counter with_claimed BEvents = 2"
  "lookup with_claimed BLatest k = (if k = entity_key ''outbox'' ''a''
     then Some (Sealed ''key'' k (JText (enc_outbox sending_one))) else None)"
  "lookup with_claimed BOutboxTxn k = (if k = ''t'' then Some (Raw ''a'') else None)"
  "pairs with_claimed BOutbox = [(''a'', Sealed ''key'' (outbox_context ''a'') (JText (enc_outbox sending_one)))]"
  by (simp_all add: with_claimed_def)

lemma run_enqueue: "enqueue ''a'' ''t'' text_request (empty_store 5) = Inr ((queued_one, True), with_one)"
  by (simp add: enqueue_def exec runs Let_def with_one_def can_append_def
      flip: queued_one_def)

lemma run_retry: "enqueue ''a'' ''t'' text_request with_one = Inr ((queued_one, False), with_one)"
  by (simp add: enqueue_def exec runs)

lemma run_each:
  "each_outbox (\<lambda>out x. return_tx (g out x)) acc with_one = Inr (g queued_one acc, with_one)"
  by (simp add: each_outbox_def exec runs kv_scan_all)

lemma run_claim: "claim with_one = Inr (Some sending_one, with_claimed)"
  by (simp add: claim_def bind_tx_def [of "each_outbox _ _"] run_each older_queued_def)
    (simp add: exec runs Let_def can_append_def with_claimed_def flip: sending_one_def)

lemma steps_to_claimed:
  "reachable (empty_store 5)" "reachable with_one" "reachable with_claimed"
  "store_steps with_one with_claimed"
proof -
  show "reachable (empty_store 5)" by (rule empty_store_reachable)
  then show one: "reachable with_one"
    by (rule reachable_step) (rule store_step.enqueued [OF run_enqueue])
  then show "reachable with_claimed"
    by (rule reachable_step) (rule store_step.claimed [OF run_claim])
  show "store_steps with_one with_claimed"
    unfolding store_steps_def by (rule r_into_rtranclp) (rule store_step.claimed [OF run_claim])
qed

section \<open>The state machine\<close>

text \<open>C1: over any history of the store, an outbox record never disappears, keeps its
  request, transaction and creation time, and its state moves only along the edges of the state
  machine (queued to sending, canceled or rejected; sending to accepted, rejected or ambiguous;
  any of these to confirmed).\<close>

theorem sends_only_advance:
  assumes "reachable s" and "store_steps s s'" and "outbox_at s k = Some out"
  shows "\<exists>out'. outbox_at s' k = Some out' \<and> o_id out' = k \<and> o_request out' = o_request out \<and>
    o_transaction_id out' = o_transaction_id out \<and> o_created out' = o_created out \<and>
    outbox_edge\<^sup>*\<^sup>* (o_state out) (o_state out')"
proof -
  have "outbox_keyed s" using reachable_ok [OF assms(1)] by (simp add: store_ok_def)
  moreover from this have "o_id out = k"
    using assms(3) by (simp add: outbox_keyed_def)
  ultimately show ?thesis
    using steps_outbox_advances [OF assms(2)] assms(3)
    unfolding outbox_advances_def outbox_moves_def outbox_state_le_def by metis
qed

theorem sends_only_advance_witness:
  "\<exists>out'. outbox_at with_claimed ''a'' = Some out' \<and> o_id out' = ''a'' \<and>
    o_request out' = o_request queued_one \<and> o_transaction_id out' = o_transaction_id queued_one \<and>
    o_created out' = o_created queued_one \<and> outbox_edge\<^sup>*\<^sup>* (o_state queued_one) (o_state out')"
  by (rule sends_only_advance [OF steps_to_claimed(2,4)]) simp


definition request_b :: send_request where "request_b = text_request\<lparr>q_text := ''again''\<rparr>"

definition queued_two :: outbox where "queued_two = new_outbox ''b'' ''u'' request_b 0 5"

definition with_two :: store where
  "with_two = stored_outbox queued_two (put_kv BOutboxTxn ''u'' (Raw ''b'') with_claimed)"

lemma run_enqueue_two: "enqueue ''b'' ''u'' request_b with_claimed = Inr ((queued_two, True), with_two)"
proof -
  have "lookup with_claimed BOutbox ''b'' = None"
    by (simp add: lookup_pairs)
  then show ?thesis
    by (simp add: enqueue_def exec runs Let_def with_two_def can_append_def
        queued_two_def new_outbox_def)
qed

lemma run_claim_two: "\<exists>s'. claim_queued ''b'' with_two =
  Inr (queued_two\<lparr>o_state := ''sending'', o_updated := clock with_two\<rparr>, s')"
proof (rule exI, rule claim_queued_run)
  have "queued_two \<noteq> queued_two\<lparr>o_state := ''sending'', o_updated := clock with_two\<rparr>"
    by (rule outbox_state_differs) (simp add: queued_two_def new_outbox_def)
  then show "can_append (outbox_event (queued_two\<lparr>o_state := ''sending'',
      o_updated := clock with_two\<rparr>)) with_two"
    by (simp add: can_append_def with_two_def) (simp add: queued_two_def new_outbox_def)
qed (simp_all add: with_two_def queued_two_def new_outbox_def)


section \<open>Enqueueing and claiming\<close>

lemma enqueue_stores:
  assumes "enqueue i txn req s = Inr ((out, created), s1)"
  shows "outbox_at s1 i = Some out \<and> o_request out = req \<and> (created \<longrightarrow> o_state out = ''queued'')"
proof (cases "read_outbox i s")
  case (Inr r)
  then obtain p where p: "r = (p, s)" "outbox_at s i = Some p"
    by (cases r) (auto simp: read_outbox_Inr)
  with assms Inr show ?thesis
    by (auto simp: enqueue_def exec split: if_splits)
next
  case (Inl e)
  with assms have "out = new_outbox i txn req (epoch_of s) (clock s)"
    "\<exists>t. write_outbox out t = Inr ((), s1)"
    by (auto simp: enqueue_def bind_tx_Inr attempt_tx_def tx_elims Let_def split: if_splits)
  then show ?thesis using write_outbox_Inr(1) by (auto simp: new_outbox_def)
qed

lemma enqueue_again:
  assumes "reachable s" and "enqueue i txn req s = Inr ((out, created), s1)" and "store_steps s1 s2"
    and "exists_bucket s2 BOutbox"
  shows "\<exists>out'. enqueue i txn' req s2 = Inr ((out', False), s2) \<and> o_request out' = req \<and>
      outbox_edge\<^sup>*\<^sup>* (o_state out) (o_state out')"
    and "other \<noteq> req \<Longrightarrow> enqueue i txn' other s2 = Inl ErrConflict"
proof -
  have ok1: "outbox_keyed s1"
    using reachable_ok [OF reachable_step [OF assms(1) store_step.enqueued [OF assms(2)]]]
    by (simp add: store_ok_def)
  have out: "outbox_at s1 i = Some out \<and> o_request out = req"
    using enqueue_stores [OF assms(2)] by simp
  then obtain p where p: "outbox_at s2 i = Some p" "o_request p = req"
    "outbox_state_le (o_state out) (o_state p)"
    using steps_outbox_advances [OF assms(3)] ok1
    unfolding outbox_advances_def outbox_moves_def by metis
  then have rd: "read_outbox i s2 = Inr (p, s2)"
    using assms(4) by (simp add: read_outbox_Inr)
  show "\<exists>out'. enqueue i txn' req s2 = Inr ((out', False), s2) \<and> o_request out' = req \<and>
      outbox_edge\<^sup>*\<^sup>* (o_state out) (o_state out')"
    using rd p(2) p(3) [unfolded outbox_state_le_def]
    by (intro exI [of _ p]) (simp add: enqueue_def exec)
  show "enqueue i txn' other s2 = Inl ErrConflict" if "other \<noteq> req"
    using rd p(2) that by (auto simp: enqueue_def exec)
qed

text \<open>C3: after a request is enqueued under an id, at any later point of any
  history enqueueing it again under that id stores nothing and returns the record as it has
  advanced, whatever transaction the retry proposes, and a different request under the same id
  is refused as a conflict.\<close>

theorem enqueue_is_idempotent:
  assumes "reachable s" and "enqueue i txn req s = Inr ((out, created), s1)" and "store_steps s1 s2"
    and "exists_bucket s2 BOutbox"
  shows "(\<exists>out'. enqueue i txn' req s2 = Inr ((out', False), s2) \<and> o_request out' = req \<and>
      outbox_edge\<^sup>*\<^sup>* (o_state out) (o_state out')) \<and>
    (other \<noteq> req \<longrightarrow> enqueue i txn' other s2 = Inl ErrConflict)"
  using enqueue_again [OF assms] by blast

theorem enqueue_is_idempotent_witness:
  "(\<exists>out'. enqueue ''a'' ''v'' text_request with_claimed = Inr ((out', False), with_claimed) \<and>
      o_request out' = text_request \<and> outbox_edge\<^sup>*\<^sup>* (o_state queued_one) (o_state out')) \<and>
   enqueue ''a'' ''v'' request_b with_claimed = Inl ErrConflict"
proof -
  have "request_b \<noteq> text_request"
    by (simp add: request_b_def text_request_def zero_request_def)
  then show ?thesis
    using enqueue_is_idempotent [OF steps_to_claimed(1) run_enqueue steps_to_claimed(4),
      where txn' = "''v''" and other = request_b] by simp
qed

text \<open>a successful claim returns a record that was queued, no queued record
  having been created earlier, marks it sending and stores it so; it returns nothing, and changes
  nothing, only when no record is queued.\<close>

theorem claim_takes_the_oldest:
  assumes "reachable s" and "claim s = Inr (r, s')"
  shows "case r of
      None \<Rightarrow> s' = s \<and> (\<forall>k out. outbox_at s k = Some out \<longrightarrow> o_state out \<noteq> ''queued'')
    | Some out' \<Rightarrow> \<exists>out. outbox_at s (o_id out') = Some out \<and> o_state out = ''queued'' \<and>
        out' = out\<lparr>o_state := ''sending'', o_updated := clock s\<rparr> \<and>
        (\<forall>k. outbox_at s' k = (if k = o_id out' then Some out' else outbox_at s k)) \<and>
        (\<forall>k q. outbox_at s k = Some q \<and> o_state q = ''queued'' \<longrightarrow> o_created out \<le> o_created q)"
proof (cases r)
  case None
  with claim_Inr [OF assms(2)] show ?thesis by simp
next
  case (Some out')
  with claim_Inr [OF assms(2)] obtain k out where out: "outbox_at s k = Some out"
    "o_state out = ''queued''" "out' = out\<lparr>o_state := ''sending'', o_updated := clock s\<rparr>"
    "write_outbox out' s = Inr ((), s')"
    "\<forall>k q. outbox_at s k = Some q \<and> o_state q = ''queued'' \<longrightarrow> o_created out \<le> o_created q"
    by auto
  have "outbox_keyed s" using reachable_ok [OF assms(1)] by (simp add: store_ok_def)
  with out have "o_id out' = k" by (simp add: outbox_keyed_def)
  with out write_outbox_Inr(1) [OF out(4)] Some show ?thesis by auto
qed

theorem claim_takes_the_oldest_witness:
  "\<exists>out. outbox_at with_one (o_id sending_one) = Some out \<and> o_state out = ''queued'' \<and>
        sending_one = out\<lparr>o_state := ''sending'', o_updated := clock with_one\<rparr> \<and>
        (\<forall>k. outbox_at with_claimed k = (if k = o_id sending_one then Some sending_one else outbox_at with_one k)) \<and>
        (\<forall>k q. outbox_at with_one k = Some q \<and> o_state q = ''queued'' \<longrightarrow> o_created out \<le> o_created q)"
  using claim_takes_the_oldest [OF steps_to_claimed(2) run_claim] by (simp only: option.case)

section \<open>Results\<close>

text \<open>after the recovery at startup no record is left in sending; each
  record that was is ambiguous, and every other record is as it was.\<close>

theorem recovery_leaves_none_sending:
  assumes "reachable s" and "recover_sending s = Inr (u, s')"
  shows "outbox_at s' k = (case outbox_at s k of None \<Rightarrow> None
    | Some out \<Rightarrow> Some (if o_state out = ''sending''
        then out\<lparr>o_state := ''ambiguous'', o_detail := stopped_detail, o_updated := clock s\<rparr> else out))"
proof -
  have keyed: "outbox_keyed s" using reachable_ok [OF assms(1)] by (simp add: store_ok_def)
  note r = recover_sending_Inr [OF assms(2)]
  let ?f = "\<lambda>out. out\<lparr>o_state := ''ambiguous'', o_detail := stopped_detail, o_updated := clock s\<rparr>"
  let ?moved = "map ?f (filter (\<lambda>out. o_state out = ''sending'') (outbox_records s))"
  have mem: "w \<in> set ?moved \<longleftrightarrow> (\<exists>out. outbox_at s (o_id w) = Some out \<and> o_state out = ''sending'' \<and> w = ?f out)"
    for w
    using keyed r(2) by (auto simp: outbox_keyed_def image_iff)
  from overwrite_cases [of "outbox_at s" ?moved k] show ?thesis
  proof (elim disjE conjE bexE)
    assume "overwrite (outbox_at s) ?moved k = outbox_at s k" and no: "k \<notin> o_id ` set ?moved"
    moreover have "o_state out \<noteq> ''sending''" if "outbox_at s k = Some out" for out
    proof
      assume "o_state out = ''sending''"
      moreover have "o_id out = k" using keyed that by (simp add: outbox_keyed_def)
      ultimately have "?f out \<in> set ?moved" "o_id (?f out) = k" using mem [of "?f out"] that by auto
      with no show False by blast
    qed
    ultimately show ?thesis
      using r(1) by (auto split: option.splits)
  next
    fix w
    assume "w \<in> set ?moved" "o_id w = k" "overwrite (outbox_at s) ?moved k = Some w"
    then show ?thesis using mem [of w] r(1) by auto
  qed
qed

lemma run_recover: "\<exists>s'. recover_sending with_claimed = Inr ((), s')"
proof -
  let ?w = "sending_one\<lparr>o_state := ''ambiguous'', o_detail := stopped_detail, o_updated := 5\<rparr>"
  let ?t = "put_kv BOutboxTxn ''t'' (Raw ''a'') with_claimed"
  have "sending_one \<noteq> ?w" by (rule outbox_state_differs) simp
  then have "can_append (outbox_event ?w) ?t"
    by (simp add: can_append_def)
  then have "write_outbox ?w ?t = Inr ((), stored_outbox ?w ?t)"
    by (intro write_outbox_run) simp_all
  then show ?thesis
    by (simp add: recover_sending_def each_outbox_def exec runs kv_scan_all)
qed

theorem recovery_leaves_none_sending_witness:
  "\<exists>s' out. outbox_at s' ''a'' = Some out \<and> o_state out = ''ambiguous''"
proof -
  obtain s' where "recover_sending with_claimed = Inr ((), s')"
    using run_recover by blast
  from recovery_leaves_none_sending [OF steps_to_claimed(3) this, of "''a''"] show ?thesis
    by (intro exI [of _ s']) simp
qed

definition confirms :: "store \<Rightarrow> message \<Rightarrow> outbox \<Rightarrow> bool" where
  "confirms s m out \<longleftrightarrow> m_transaction_id m \<noteq> [] \<and> m_id m \<noteq> [] \<and>
     (\<exists>i. lookup s BOutboxTxn (m_transaction_id m) = Some (Raw i) \<and> outbox_at s i = Some out) \<and>
     o_session_epoch out = epoch_of s \<and> q_kind (o_request out) \<in> {[], ''message''} \<and>
     q_conversation_id (o_request out) = m_conversation_id m \<and>
     o_state out \<notin> {''queued'', ''canceled'', ''confirmed''}"

lemma raw_bytes_Some: "Option.bind v raw_bytes = Some i \<longleftrightarrow> v = Some (Raw i)"
  by (cases v) (auto elim: raw_bytes.elims)

lemma confirm_effects:
  assumes "confirm_send_tx m s = Inr (observed, s')"
  shows "observed \<longleftrightarrow> (\<exists>out. confirms s m out)"
    and "\<not> observed \<Longrightarrow> s' = s"
    and "confirms s m out \<Longrightarrow> outbox_at s' k = (if k = o_id out then Some (out\<lparr>o_state := ''confirmed'',
           o_message_id := m_id m, o_detail := observed_detail, o_updated := clock s\<rparr>)
         else outbox_at s k)"
proof -
  show "observed \<longleftrightarrow> (\<exists>out. confirms s m out)" and "\<not> observed \<Longrightarrow> s' = s"
    using assms
    by (auto simp: confirm_send_tx_def confirms_def tx_elims raw_bytes_Some
        split: if_splits option.splits)
  show "outbox_at s' k = (if k = o_id out then Some (out\<lparr>o_state := ''confirmed'',
           o_message_id := m_id m, o_detail := observed_detail, o_updated := clock s\<rparr>)
         else outbox_at s k)" if c: "confirms s m out"
  proof -
    from assms c obtain u where "write_outbox (out\<lparr>o_state := ''confirmed'',
           o_message_id := m_id m, o_detail := observed_detail, o_updated := clock s\<rparr>) s = Inr (u, s')"
      by (auto simp: confirm_send_tx_def confirms_def tx_elims split: if_splits)
    from write_outbox_Inr(1) [OF this, of k] show ?thesis by simp
  qed
qed

text \<open>An observed message confirms a send only when it carries the send's
  transaction, the send belongs to the current session, is a message in the same conversation and
  was handed to the provider; then the record becomes confirmed with the message's id, and in every
  other case nothing changes.\<close>

theorem confirmation_needs_a_match:
  assumes "confirm_send_tx m s = Inr (observed, s')"
  shows "(observed \<longleftrightarrow> (\<exists>out. confirms s m out)) \<and>
    (\<not> observed \<longrightarrow> s' = s) \<and>
    (confirms s m out \<longrightarrow> outbox_at s' k = (if k = o_id out then Some (out\<lparr>o_state := ''confirmed'',
           o_message_id := m_id m, o_detail := observed_detail, o_updated := clock s\<rparr>)
         else outbox_at s k))"
  using confirm_effects [OF assms] by blast

definition echo :: message where
  "echo = zero_message\<lparr>m_schema := Schema, m_id := ''m'', m_conversation_id := ''c'', m_time := 4,
     m_text := ''hello'', m_direction := ''outgoing'', m_transaction_id := ''t''\<rparr>"

lemma echo_confirms: "confirms with_claimed echo sending_one"
  by (simp add: confirms_def echo_def text_request_def)

lemma run_confirm: "\<exists>s'. confirm_send_tx echo with_claimed = Inr (True, s')"
proof -
  let ?w = "sending_one\<lparr>o_state := ''confirmed'', o_message_id := ''m'', o_detail := observed_detail,
      o_updated := 5\<rparr>"
  have "sending_one \<noteq> ?w" by (rule outbox_state_differs) simp
  then have "write_outbox ?w with_claimed = Inr ((), stored_outbox ?w with_claimed)"
    by (intro write_outbox_run) (simp_all add: can_append_def)
  then show ?thesis
    by (simp add: confirm_send_tx_def exec runs echo_def text_request_def)
qed

theorem confirmation_needs_a_match_witness:
  "\<exists>s'. confirm_send_tx echo with_claimed = Inr (True, s') \<and>
     outbox_at s' ''a'' = Some (sending_one\<lparr>o_state := ''confirmed'', o_message_id := m_id echo,
       o_detail := observed_detail, o_updated := clock with_claimed\<rparr>)"
proof -
  obtain s' where run: "confirm_send_tx echo with_claimed = Inr (True, s')"
    using run_confirm by blast
  from confirmation_needs_a_match [OF run, where out = sending_one and k = "''a''"] run echo_confirms
  show ?thesis by (intro exI [of _ s']) simp
qed

text \<open>Storing a paired session leaves no send queued: each queued record is
  canceled with the reason and every other record is as it was.\<close>

theorem pairing_cancels_queued:
  assumes "reachable s" and "save_paired_session h data new_phone s = Inr (u, s')"
    and "outbox_at s' k = Some out"
  shows "o_state out \<noteq> ''queued''"
proof -
  from assms(2) obtain v t1 t2 t3 t where
    steps: "when_tx v (update_pairing_recovery (\<lambda>r. r\<lparr>pr_attempts := 0, pr_paused := False,
        pr_next_attempt := 0\<rparr>)) s = Inr ((), t1)"
    "put_sealed BMeta ''session'' ''session'' data t1 = Inr ((), t2)"
    "bdelete BMeta pairing_attempt_key t2 = Inr ((), t3)"
    and cq: "cancel_queued_for_pairing t3 = Inr ((), t)"
    and last: "when_tx new_phone (new_phone_tx h) t = Inr (u, s')"
    by (auto simp: save_paired_session_def bind_tx_Inr then_tx_Inr bget_Inr)
  have "upholds (frame (UNIV - {BOutbox})) (when_tx v (update_pairing_recovery f))" for f
    by (intro frame.rules frames; simp)
  then have "frame (UNIV - {BOutbox}) s t1" using steps(1) by (rule upholdsD)
  moreover have "frame (UNIV - {BOutbox}) t1 t3"
    using steps(2,3) by (auto simp: put_sealed_Inr bdelete_Inr intro!: frame.R_trans [OF frame_kv(1) frame_kv(2)])
  ultimately have "outbox_at t3 i = outbox_at s i" for i
    by (simp add: outbox_at_frame)
  moreover have "outbox_keyed s" using reachable_ok [OF assms(1)] by (simp add: store_ok_def)
  ultimately have keyed: "outbox_keyed t3" by (simp add: outbox_keyed_def)
  have "upholds (frame (UNIV - {BOutbox})) (when_tx new_phone (new_phone_tx h))"
    by (intro frame.rules frame_new_phone) auto
  then have "frame (UNIV - {BOutbox}) t s'" using last by (rule upholdsD)
  then have at: "outbox_at t k = Some out"
    using assms(3) outbox_at_frame [of "UNIV - {BOutbox}" t s'] by simp
  note r = cancel_queued_for_pairing_Inr [OF cq]
  let ?f = "\<lambda>out. out\<lparr>o_state := ''canceled'', o_detail := pairing_changed_detail, o_updated := clock t3\<rparr>"
  let ?moved = "map ?f (filter (\<lambda>out. o_state out = ''queued'') (outbox_records t3))"
  from overwrite_cases [of "outbox_at t3" ?moved k] show ?thesis
  proof (elim disjE conjE bexE)
    assume "overwrite (outbox_at t3) ?moved k = outbox_at t3 k" and no: "k \<notin> o_id ` set ?moved"
    then have t3: "outbox_at t3 k = Some out" using at r(1) by simp
    then have "out \<in> set (outbox_records t3)" "o_id out = k"
      using r(2) keyed by (auto simp: outbox_keyed_def)
    with no show ?thesis by (force simp: image_iff)
  next
    fix w
    assume "w \<in> set ?moved" "overwrite (outbox_at t3) ?moved k = Some w"
    then show ?thesis using at r(1) by auto
  qed
qed

lemma run_pair:
  "\<exists>s'. save_paired_session h (Opaque ''s'') False with_one = Inr ((), s') \<and>
     outbox_at s' ''a'' \<noteq> None"
proof -
  let ?w = "queued_one\<lparr>o_state := ''canceled'', o_detail := pairing_changed_detail, o_updated := 5\<rparr>"
  let ?t = "del_kv BMeta pairing_attempt_key
      (put_kv BMeta ''session'' (Sealed ''key'' ''session'' (Opaque ''s'')) with_one)"
  have ne: "queued_one \<noteq> ?w" by (rule outbox_state_differs) simp
  have look: "lookup with_one BMeta recovery_key = None"
    by (simp add: with_one_def recovery_key_def)
  have t: "exists_bucket ?t b = opened_bucket b" "clock ?t = 5" "outbox_at ?t ''a'' = Some queued_one"
    "pairs ?t BOutbox = pairs with_one BOutbox" "cipher_key ?t = ''key''" for b
    by (simp_all add: pairs_simps outbox_at_def [of "del_kv _ _ _"]) (simp add: outbox_at_def [symmetric])
  have wr: "write_outbox ?w ?t = Inr ((), stored_outbox ?w ?t)"
    using ne by (intro write_outbox_run) (simp_all add: can_append_def)
  have "cancel_queued_for_pairing ?t = Inr ((), stored_outbox ?w ?t)"
    using wr t by (simp add: cancel_queued_for_pairing_def each_outbox_def exec runs kv_scan_all)
  then have "save_paired_session h (Opaque ''s'') False with_one = Inr ((), stored_outbox ?w ?t)"
    using look by (simp add: save_paired_session_def exec runs)
  moreover have "outbox_at (stored_outbox ?w ?t) ''a'' = Some ?w"
    using t(1) by simp
  ultimately show ?thesis by (intro exI [of _ "stored_outbox ?w ?t"]) simp
qed

theorem pairing_cancels_queued_witness:
  "\<exists>s' out. outbox_at s' ''a'' = Some out \<and> o_state out \<noteq> ''queued''"
proof -
  obtain s' out where "save_paired_session (\<lambda>_. []) (Opaque ''s'') False with_one = Inr ((), s')"
    "outbox_at s' ''a'' = Some out"
    using run_pair by blast
  with pairing_cancels_queued [OF steps_to_claimed(2)] show ?thesis by blast
qed

end
