(* ===== verification/LogProperties.thy ===== *)
theory LogProperties
  imports SendProperties
begin

text \<open>
  What the store promises about its log and its snapshots: the log is gapless and every latest
  record is its replay, a page of events is what a client asked for, a client that loads a
  snapshot and follows the events after its cursor sees what a later snapshot shows, history
  reads are fenced, and previews and newest-message pointers never move back in time.
\<close>

section \<open>The log\<close>

text \<open>C4: in every reachable state the event log is numbered 1, 2, ... without a gap and
  the latest record of every entity is the data of the last event about it, sealed under its key;
  an entity without an event has no latest record.\<close>

theorem latest_is_replay:
  assumes "reachable s"
  shows "\<exists>es. pairs s BEvents = map (sealed_event (cipher_key s)) es \<and>
    map ev_id es = map word_of_nat [1..<Suc (length es)] \<and> unat (counter s BEvents) = length es \<and>
    (\<forall>k. lookup s BLatest k = map_option (Sealed (cipher_key s) k) (replay es k))"
  using reachable_ok [OF assms] unfolding store_ok_def represents_def by blast

theorem latest_is_replay_witness:
  "\<exists>es. length es = 2 \<and> replay es (entity_key ''outbox'' ''a'') = Some (JText (enc_outbox sending_one))"
proof -
  obtain es where es: "unat (counter with_claimed BEvents) = length es"
    "\<forall>k. lookup with_claimed BLatest k = map_option (Sealed (cipher_key with_claimed) k) (replay es k)"
    using latest_is_replay [OF steps_to_claimed(3)] by blast
  from es(2) have "lookup with_claimed BLatest (entity_key ''outbox'' ''a'') =
      map_option (Sealed (cipher_key with_claimed) (entity_key ''outbox'' ''a''))
        (replay es (entity_key ''outbox'' ''a''))" by blast
  then have "replay es (entity_key ''outbox'' ''a'') = Some (JText (enc_outbox sending_one))"
    by (cases "replay es (entity_key ''outbox'' ''a'')") auto
  with es(1) show ?thesis by (intro exI [of _ es]) simp
qed

text \<open>On a reachable store a request for events after a cursor returns the logged events
  with larger numbers, in order, cut at the limit, which must be between 1 and 1000.\<close>

theorem events_page:
  assumes "reachable s" and "exists_bucket s BEvents"
  shows "\<exists>es. represents s es \<and> (\<forall>after limit. events after limit s =
    (if 1 \<le> limit \<and> limit \<le> 1000 then Inr (take (nat limit) (filter (\<lambda>e. after < ev_id e) es), s)
     else Inl (ErrText ''limit must be 1..1000'')))"
proof -
  obtain es where es: "represents s es"
    using reachable_ok [OF assms(1)] by (auto simp: store_ok_def)
  then have "events after limit s =
    (if 1 \<le> limit \<and> limit \<le> 1000 then Inr (take (nat limit) (filter (\<lambda>e. after < ev_id e) es), s)
     else Inl (ErrText ''limit must be 1..1000''))" for after limit
    using events_represents [OF es assms(2), of limit after]
    by (auto simp: events_def fail_tx_def)
  with es show ?thesis by blast
qed

theorem events_page_witness:
  "\<exists>es. length es = 2 \<and> events 0 1000 with_claimed = Inr (es, with_claimed)"
proof -
  obtain es where es: "represents with_claimed es"
    "\<forall>after limit. events after limit with_claimed =
    (if 1 \<le> limit \<and> limit \<le> 1000
     then Inr (take (nat limit) (filter (\<lambda>e. after < ev_id e) es), with_claimed)
     else Inl (ErrText ''limit must be 1..1000''))"
    using events_page [OF steps_to_claimed(3)] by auto
  have len: "length es = 2" using es(1) by (simp add: represents_def)
  have "filter (\<lambda>e. 0 < ev_id e) es = es"
    using represents_after [OF es(1), of 0] by simp
  with es(2) len show ?thesis by (intro exI [of _ es]) simp
qed

text \<open>C5: a client that loads a snapshot of a kind and later asks for the events
  after the snapshot's cursor gets exactly the events logged since; applying them to the records
  the snapshot lists gives the store's latest records at that later time.\<close>

theorem snapshot_then_follow:
  assumes "reachable s" and "snapshot kind s = Inr ((data, n), t)" and "store_steps s s'"
    and "exists_bucket s' BEvents"
  shows "\<exists>es new keys. represents s es \<and> represents s' (es @ new) \<and>
    sorted_wrt (<) keys \<and> set keys = {k. prefix (kind @ '':'') k \<and> replay es k \<noteq> None} \<and>
    data = map (the \<circ> replay es) keys \<and>
    (\<forall>limit. 1 \<le> limit \<and> limit \<le> 1000 \<longrightarrow> events n limit s' = Inr (take (nat limit) new, s')) \<and>
    (\<forall>k. lookup s' BLatest k =
       map_option (Sealed (cipher_key s') k) (foldl apply_event (replay es) new k))"
proof -
  obtain es where es: "represents s es"
    using reachable_ok [OF assms(1)] by (auto simp: store_ok_def)
  then obtain new where new: "represents s' (es @ new)"
    using steps_log_grows [OF assms(3)] by (auto simp: log_grows_def)
  from assms(2) have ex: "exists_bucket s BLatest" and n: "n = counter s BEvents"
    and rd: "read_latest kind s = Inr (data, t)"
    by (auto simp: snapshot_def bind_tx_Inr bsequence_Inr read_latest_def bscan_Inr)
  obtain keys where keys: "sorted_wrt (<) keys"
    "set keys = {k. prefix (kind @ '':'') k \<and> replay es k \<noteq> None}"
    "read_latest kind s = Inr (map (the \<circ> replay es) keys, s)"
    by (rule read_latest_represents [OF es ex])
  have "unat n = length es" using es n by (simp add: represents_def)
  then have "filter (\<lambda>e. n < ev_id e) (es @ new) = new"
    using represents_after [OF new, of n] by simp
  then have "\<forall>limit. 1 \<le> limit \<and> limit \<le> 1000 \<longrightarrow> events n limit s' = Inr (take (nat limit) new, s')"
    using events_represents [OF new assms(4)] by (simp del: filter_append)
  moreover have "\<forall>k. lookup s' BLatest k =
       map_option (Sealed (cipher_key s') k) (foldl apply_event (replay es) new k)"
    using new by (simp add: represents_def replay_append)
  ultimately show ?thesis
    using es new keys rd by (intro exI [of _ es] exI [of _ new] exI [of _ keys]) simp
qed

lemma run_snapshot: "\<exists>data n. snapshot ''outbox'' with_one = Inr ((data, n), with_one)"
proof -
  obtain es where es: "represents with_one es"
    using reachable_ok [OF steps_to_claimed(2)] by (auto simp: store_ok_def)
  have ex: "exists_bucket with_one BLatest" by simp
  obtain keys where "read_latest ''outbox'' with_one = Inr (map (the \<circ> replay es) keys, with_one)"
    by (rule read_latest_represents [OF es ex])
  then show ?thesis by (simp add: snapshot_def bind_tx_def runs return_tx_def)
qed

lemma unat_numeral_two: "unat (2 :: u64) = 2"
  by simp

theorem snapshot_then_follow_witness:
  "\<exists>n new. events n 10 with_claimed = Inr (new, with_claimed) \<and> length new = 1"
proof -
  obtain data n where sn: "snapshot ''outbox'' with_one = Inr ((data, n), with_one)"
    using run_snapshot by blast
  obtain es new where "represents with_one es" "represents with_claimed (es @ new)"
    "\<forall>limit. 1 \<le> limit \<and> limit \<le> 1000 \<longrightarrow> events n limit with_claimed = Inr (take (nat limit) new, with_claimed)"
    using snapshot_then_follow [OF steps_to_claimed(2) sn steps_to_claimed(4)] by auto
  moreover from this have "length es = 1" "length (es @ new) = 2"
    using with_one_simps(5) with_claimed_simps(6) unfolding represents_def
    by (metis unsigned_1, metis unat_numeral_two)
  ultimately show ?thesis by (intro exI [of _ n] exI [of _ new]) simp
qed

section \<open>The fence of history reads\<close>


definition memo :: event where
  "memo = zero_event\<lparr>ev_type := ''note'', ev_entity_id := ''x'', ev_data := JText (JBool True)\<rparr>"

lemma memo_simps [simp]:
  "ev_type memo = ''note''" "ev_entity_id memo = ''x''" "ev_data memo = JText (JBool True)"
  "event_key memo = entity_key ''note'' ''x''"
  by (simp_all add: memo_def event_key_def)

definition with_memo :: store where
  "with_memo = put_kv BVersions (entity_key ''note'' ''x'') (Raw (sequence 1))
     (set_counter BVersions 1 (logged memo (empty_store 5)))"

lemma memo_data [simp]: "memo\<lparr>ev_data := JText (JBool True)\<rparr> = memo"
  by (simp add: memo_def)

lemma run_memo: "apply_tx memo [] None (empty_store 5) = Inr (True, with_memo)"
  by (simp add: apply_tx_def stale_tx_def observe_event_tx_def stamp_epoch_def previous_status_tx_def
      put_private_tx_def confirm_event_tx_def exec runs can_append_def with_memo_def)


end
