(* ===== verification/RecordProperties.thy ===== *)
theory RecordProperties
  imports LogProperties
begin

text \<open>
  What the store promises about conversations, ownership, history imports and the remaining
  records, each with an instance.
\<close>

section \<open>Conversations\<close>

lemma refresh_keeps_newest:
  assumes "refresh_conversation_tx data fresh st s = Inr (changed, s')"
    and "preview_source data = Some (m, l)"
  shows "\<exists>l'. latest_at s' (m_conversation_id m) = Some l' \<and>
      (l' = l \<or> latest_at s (m_conversation_id m) = Some l') \<and> \<not> newer_message l l' \<and>
      (\<forall>p. latest_at s (m_conversation_id m) = Some p \<longrightarrow> \<not> newer_message p l')"
    and "i \<noteq> m_conversation_id m \<Longrightarrow> latest_at s' i = latest_at s i"
proof -
  let ?old = "latest_at s (m_conversation_id m)"
  have "\<not> newer_message l (newest_of ?old l)" "newest_of ?old l = l \<or> ?old = Some (newest_of ?old l)"
    "\<forall>p. ?old = Some p \<longrightarrow> \<not> newer_message p (newest_of ?old l)"
    by (auto simp: newest_of_def newer.irrefl dest: newer.asym split: option.splits)
  then show "\<exists>l'. latest_at s' (m_conversation_id m) = Some l' \<and>
      (l' = l \<or> latest_at s (m_conversation_id m) = Some l') \<and> \<not> newer_message l l' \<and>
      (\<forall>p. latest_at s (m_conversation_id m) = Some p \<longrightarrow> \<not> newer_message p l')"
    using refresh_latest [OF assms, of "m_conversation_id m"] by simp
  show "i \<noteq> m_conversation_id m \<Longrightarrow> latest_at s' i = latest_at s i"
    using refresh_latest [OF assms, of i] by simp
qed

text \<open>Recording a message leaves its conversation's newest-message record at
  the later of the stored one and the new one (by time, then by id) and touches no other
  conversation's record.\<close>

theorem newest_message_is_kept:
  assumes "refresh_conversation_tx data fresh st s = Inr (changed, s')"
    and "preview_source data = Some (m, l)"
  shows "(\<exists>l'. latest_at s' (m_conversation_id m) = Some l' \<and>
      (l' = l \<or> latest_at s (m_conversation_id m) = Some l') \<and> \<not> newer_message l l' \<and>
      (\<forall>p. latest_at s (m_conversation_id m) = Some p \<longrightarrow> \<not> newer_message p l')) \<and>
    (i \<noteq> m_conversation_id m \<longrightarrow> latest_at s' i = latest_at s i)"
  using refresh_keeps_newest [OF assms] by blast

definition photo :: message where
  "photo = zero_message\<lparr>m_schema := Schema, m_id := ''m'', m_conversation_id := ''c'',
     m_time := 4, m_attachments := [zero_attachment], m_direction := ''incoming''\<rparr>"

definition photo_latest :: latest_message where
  "photo_latest = \<lparr>l_message_id = ''m'', l_time = 4, l_preview = preview_text photo,
     l_sender_id = [], l_direction = ''incoming''\<rparr>"

lemma photo_simps [simp]:
  "m_schema photo = Schema" "m_id photo = ''m''" "m_conversation_id photo = ''c''" "m_time photo = 4"
  "\<not> m_deleted photo" "m_direction photo = ''incoming''" "m_sender_id photo = []"
  "m_transaction_id photo = []"
  by (simp_all add: photo_def zero_message_def)

lemma photo_source: "preview_source (JText (enc_message photo)) = Some (photo, photo_latest)"
proof -
  have "preview_text photo \<noteq> []"
    by (simp add: preview_text_eq_Nil) (simp add: photo_def)
  then show ?thesis by (simp add: preview_source_def Let_def photo_latest_def)
qed

lemma no_latest_run: "latest_message_tx i (empty_store 5) = Inr (None, empty_store 5)"
  by (simp add: latest_message_tx_def bget_sealed_def exec runs)

lemma run_refresh:
  "\<exists>s'. refresh_conversation_tx (JText (enc_message photo)) True [] (empty_store 5) = Inr (False, s')"
  by (simp add: refresh_conversation_tx_def photo_source exec runs put_latest_message_tx_def
        update_conversation_tx_def Let_def no_latest_run)

theorem newest_message_is_kept_witness:
  "\<exists>s'. latest_at s' ''c'' = Some photo_latest"
proof -
  obtain s' where run: "refresh_conversation_tx (JText (enc_message photo)) True []
      (empty_store 5) = Inr (False, s')"
    using run_refresh by blast
  have "latest_at (empty_store 5) ''c'' = None" by (simp add: latest_at_def)
  with newest_message_is_kept [OF run photo_source, where i = "''d''"] show ?thesis
    by (intro exI [of _ s']) simp
qed

text \<open>the snapshot stored for an incoming conversation is never dated
  before the incoming one, before the stored one of the current session, or before the newest
  stored message, and it differs from the incoming one only in preview, date and unread badge.\<close>

theorem previews_never_move_back:
  assumes "preview_conversation (JText (enc_conversation c)) s = Inr (data, s')"
    and "c_schema c = Schema" and "c_id c \<noteq> []"
  shows "\<exists>c'. data = JText (enc_conversation c') \<and> s' = s \<and> c_updated c \<le> c_updated c' \<and>
    (\<forall>stored. conversation_at s (c_id c) = Some stored \<and> is_current s ''conversation'' (c_id c) \<longrightarrow>
       c_updated stored \<le> c_updated c') \<and>
    (\<forall>l. latest_at s (c_id c) = Some l \<longrightarrow> l_time l \<le> c_updated c') \<and>
    c_id c' = c_id c \<and> c_name c' = c_name c \<and> c_participants c' = c_participants c \<and>
    c_archived c' = c_archived c \<and> c_protocol c' = c_protocol c"
proof -
  let ?key = "conversation_key (c_id c)"
  have merge: "max (c_updated b) (l_time l) = c_updated (fst (merge_latest_message b l None)) \<and>
      c_id (fst (merge_latest_message b l None)) = c_id b \<and>
      c_name (fst (merge_latest_message b l None)) = c_name b \<and>
      c_participants (fst (merge_latest_message b l None)) = c_participants b \<and>
      c_archived (fst (merge_latest_message b l None)) = c_archived b \<and>
      c_protocol (fst (merge_latest_message b l None)) = c_protocol b \<and>
      (\<not> snd (merge_latest_message b l None) \<longrightarrow> fst (merge_latest_message b l None) = b)" for b l
    using merge_changed [of b l None] by (auto simp: merge_latest_message_def Let_def max_def)
  from assms obtain r t l where
    r: "stored_preview_tx c s = Inr (r, t)"
    and l: "latest_message_tx (c_id c) t = Inr (l, s')"
    and data: "data = (if \<not> snd (with_latest l r) then JText (enc_conversation c)
        else JText (enc_conversation (fst (with_latest l r))))"
    by (auto simp: preview_conversation_def Let_def bind_tx_Inr split: if_splits)
  have b: "t = s \<and> c_updated c \<le> c_updated (fst r) \<and> (\<not> snd r \<longrightarrow> fst r = c) \<and>
    (\<forall>stored. conversation_at s (c_id c) = Some stored \<and> is_current s ''conversation'' (c_id c) \<longrightarrow>
       c_updated stored \<le> c_updated (fst r)) \<and>
    c_id (fst r) = c_id c \<and> c_name (fst r) = c_name c \<and> c_participants (fst r) = c_participants c \<and>
    c_archived (fst r) = c_archived c \<and> c_protocol (fst r) = c_protocol c"
    using r by (cases "lookup s BLatest ?key")
      (auto simp: stored_preview_tx_def Let_def tx_elims conversation_at_def stored_at_def
        keep_stored_def split: if_splits)
  have lat: "l = latest_at s (c_id c)" "s' = s"
    using latest_message_Inr [OF l] b by simp_all
  show ?thesis
  proof (cases l)
    case None
    then have "data = JText (enc_conversation (fst r))"
      using data b by (auto simp: with_latest_def)
    with None b lat show ?thesis by (intro exI [of _ "fst r"]) auto
  next
    case (Some m)
    let ?c = "fst (merge_latest_message (fst r) m None)"
    have "data = JText (enc_conversation ?c)"
      using data b merge [of "fst r" m] Some by (auto simp: with_latest_def Let_def)
    with Some b merge [of "fst r" m] lat show ?thesis
      by (intro exI [of _ ?c]) (auto simp: max_def split: if_splits)
  qed
qed

definition plain_conversation :: conversation where
  "plain_conversation = zero_conversation\<lparr>c_schema := Schema, c_id := ''c'', c_updated := 3\<rparr>"

theorem previews_never_move_back_witness:
  "\<exists>c'. preview_conversation (JText (enc_conversation plain_conversation)) (empty_store 5) =
     Inr (JText (enc_conversation c'), empty_store 5) \<and> 3 \<le> c_updated c' \<and> c_id c' = ''c''"
proof -
  have "stored_preview_tx plain_conversation (empty_store 5) = Inr ((plain_conversation, False), empty_store 5)"
    by (simp add: stored_preview_tx_def Let_def exec runs)
  then have run: "preview_conversation (JText (enc_conversation plain_conversation)) (empty_store 5) =
     Inr (JText (enc_conversation plain_conversation), empty_store 5)"
    by (simp add: preview_conversation_def Let_def exec no_latest_run with_latest_def)
  show ?thesis
    using previews_never_move_back [OF run] run by (auto simp: plain_conversation_def)
qed

section \<open>Whose records\<close>

lemma new_phone_effects:
  assumes "reachable s" and "save_paired_session h data True s = Inr (u, s')" and "epoch_of s \<noteq> - 1"
    and "kind \<in> record_kinds"
  shows "epoch_of s' = epoch_of s + 1" and "\<not> is_current s' kind i"
    and "count_exact s' kind" and "stale_ids s' kind = stored_ids s kind"
proof -
  have ok: "epochs_ok s" using reachable_ok [OF assms(1)] by (simp add: store_ok_def)
  note ep = save_paired_epochs [OF assms(2) ok assms(3)]
  show e: "epoch_of s' = epoch_of s + 1" using ep(2) by simp
  have "epoch_of s' \<noteq> 0" using e less_inc [OF assms(3)] by auto
  then show "\<not> is_current s' kind i" using ep(3) by (simp add: is_current_def)
  from assms(2) obtain t where t: "same_records s t" "log_grows s t" "new_phone_tx h t = Inr (u, s')"
    by (rule save_paired_steps) simp
  obtain es where "represents s es" using reachable_ok [OF assms(1)] by (auto simp: store_ok_def)
  with t(2) obtain es' where rep: "represents t es'" by (auto simp: log_grows_def)
  then have srt: "kv_sorted (pairs t BLatest)" by (simp add: represents_def)
  note nc = new_phone_count [OF t(3) srt latest_fits [OF rep] assms(4)]
  have st: "stored_ids t kind = stored_ids s kind"
    using t(1) assms(4) by (simp add: same_records_def stored_ids_def)
  show stale: "stale_ids s' kind = stored_ids s kind"
    using nc(2) st ep(3) by (auto simp: stale_ids_def stored_ids_def)
  show "count_exact s' kind"
    using nc(1) stale st by (simp add: count_exact_def)
qed

text \<open>Pairing a new phone raises the session epoch by one, no stored or
  future record counts as the new session's until it is observed, and the counters report every
  stored conversation and message as an earlier session's.\<close>

theorem new_phone_owns_nothing:
  assumes "reachable s" and "save_paired_session h data True s = Inr (u, s')" and "epoch_of s \<noteq> - 1"
    and "kind \<in> record_kinds"
  shows "(epoch_of s' = epoch_of s + 1) \<and>
    (\<not> is_current s' kind i) \<and>
    (count_exact s' kind) \<and>
    (stale_ids s' kind = stored_ids s kind)"
  using new_phone_effects [OF assms] by blast

lemma no_history_jobs:
  "pairs s BLatest = [] \<Longrightarrow> exists_bucket s BLatest \<Longrightarrow> history_jobs_tx s = Inr ([], s)"
  by (simp add: history_jobs_tx_def exec runs kv_scan_def)

lemma clear_latest_run:
  "exists_bucket s BConversationLatest \<Longrightarrow> clear_latest_messages s =
     Inr ((), set_bucket BConversationLatest (Some empty_bucket) (set_bucket BConversationLatest None s))"
  by (auto simp: clear_latest_messages_def exec runs bdrop_def bcreate_new_def exists_bucket_def set_bucket_def)

lemma reset_bucket_simps [simp]:
  "b \<noteq> b' \<Longrightarrow> lookup (set_bucket b v s) b' k = lookup s b' k"
  "b \<noteq> b' \<Longrightarrow> pairs (set_bucket b v s) b' = pairs s b'"
  "b \<noteq> b' \<Longrightarrow> exists_bucket (set_bucket b v s) b' = exists_bucket s b'"
  "b \<noteq> b' \<Longrightarrow> u64_at (set_bucket b v s) b' k = u64_at s b' k"
  "b \<noteq> BMeta \<Longrightarrow> epoch_of (set_bucket b v s) = epoch_of s"
  by (simp_all add: lookup_def pairs_def exists_bucket_def u64_at_def set_bucket_def epoch_of_def)

lemma run_pair_new: "\<exists>s'. save_paired_session h (Opaque ''s'') True (empty_store 5) = Inr ((), s')"
  by (simp add: save_paired_session_def cancel_queued_for_pairing_def each_outbox_def new_phone_tx_def
      clear_latest_run count_previous_def bclear_def no_history_jobs exec runs pairs_simps kv_scan_def
      previous_count_key_def epoch_key_def recovery_key_def)

theorem new_phone_owns_nothing_witness:
  "\<exists>s'. epoch_of s' = 1 \<and> \<not> is_current s' ''message'' ''m'' \<and> stale_ids s' ''message'' = {}"
proof -
  obtain s' where run: "save_paired_session (\<lambda>_. []) (Opaque ''s'') True (empty_store 5) = Inr ((), s')"
    using run_pair_new by blast
  have "stored_ids (empty_store 5) ''message'' = {}" by (simp add: stored_ids_def)
  then show ?thesis
    using new_phone_owns_nothing [OF steps_to_claimed(1) run, where kind = "''message''" and i = "''m''"]
    by (intro exI [of _ s']) (simp add: record_kinds_def)
qed

lemma apply_stamps:
  assumes "apply_tx event p None s = Inr (changed, s')" and "ev_type event \<in> record_kinds"
  shows "is_current s' (ev_type event) (ev_entity_id event)"
    and "0 < epoch_of s \<Longrightarrow> kind \<in> record_kinds \<Longrightarrow> count_exact s kind \<Longrightarrow> count_exact s' kind"
proof -
  let ?key = "entity_key (ev_type event) (ev_entity_id event)"
  from assms(1) obtain b m c where obs: "observe_event_tx event p s = Inr (b, m)"
    and cf: "confirm_event_tx event m = Inr (c, s')"
    by (auto simp: apply_tx_def stale_tx_def bind_tx_Inr)
  have same: "same_records m s'" by (rule upholdsD [OF confirm_same_records cf])
  from obs obtain data s1 x s2 s3 s4 status where
    st: "stamp_epoch (ev_type event) (ev_entity_id event) s = Inr ((), s1)"
    and "append_tx (event\<lparr>ev_data := data\<rparr>) s1 = Inr (x, s2)"
    "observe_tx (event_key event) s2 = Inr ((), s3)" "put_private_tx p s3 = Inr ((), s4)"
    and tl: "if ev_type event = ''message'' then
       \<exists>r. refresh_conversation_tx (ev_data event)
          (lookup s1 BLatest (event_key event) = None \<and> \<not> ev_historical event) status s4 = Inr (r, m) \<and>
          b = (x \<or> r)
     else m = s4 \<and> b = x"
    by (rule observe_event_steps)
  note mid = this(2-4)
  let ?B = "UNIV - {BMeta, BEntityEpochs}"
  have "frame ?B s1 s2" by (rule upholdsD [OF frame_append mid(1)]) simp
  moreover have "frame ?B s2 s3" by (rule upholdsD [OF frame_observe mid(2)]) simp
  moreover have "frame ?B s3 s4" by (rule upholdsD [OF frame_put_private mid(3)]) simp
  moreover have "frame ?B s4 m"
    using tl upholdsD [OF frame_refresh_conversation, of ?B] by (auto split: if_splits)
  ultimately have f: "frame ?B s1 m" using frame.R_trans by blast
  have k: "ev_type event = ''message'' \<or> ev_type event = ''conversation''"
    using assms(2) by (auto simp: record_kinds_def)
  note sx = stamp_epoch_Inr [OF st k]
  have "u64_at m BEntityEpochs ?key = Some (epoch_of m)"
    using sx(1,4) frame_u64_at [OF f, of BEntityEpochs] frame_epoch_of [OF f] by simp
  then show "is_current s' (ev_type event) (ev_entity_id event)"
    using same assms(2) by (simp add: is_current_def same_records_def)
  show "count_exact s' kind" if "0 < epoch_of s" "kind \<in> record_kinds" "count_exact s kind"
    using observe_count(1) [OF obs assms(2) that] same_records_count [OF same that(2)] by simp
qed

text \<open>applying a conversation or message observation that no fence
  holds back makes that record current, and keeps the counters of earlier records exact.\<close>

theorem observed_records_are_current:
  assumes "apply_tx event p None s = Inr (changed, s')" and "ev_type event \<in> record_kinds"
  shows "(is_current s' (ev_type event) (ev_entity_id event)) \<and>
    (0 < epoch_of s \<longrightarrow> kind \<in> record_kinds \<longrightarrow> count_exact s kind \<longrightarrow> count_exact s' kind)"
  using apply_stamps [OF assms] by blast

definition conversation_seen :: event where
  "conversation_seen = conversation_event ''c'' plain_conversation"

lemma conversation_seen_simps [simp]:
  "ev_type conversation_seen = ''conversation''" "ev_entity_id conversation_seen = ''c''"
  "ev_data conversation_seen = JText (enc_conversation plain_conversation)"
  "event_key conversation_seen = entity_key ''conversation'' ''c''"
  "conversation_seen\<lparr>ev_data := JText (enc_conversation plain_conversation)\<rparr> = conversation_seen"
  by (simp_all add: conversation_seen_def conversation_event_def event_key_def)

lemma plain_preview_run:
  "preview_conversation (JText (enc_conversation plain_conversation)) (empty_store 5) =
     Inr (JText (enc_conversation plain_conversation), empty_store 5)"
proof -
  have "stored_preview_tx plain_conversation (empty_store 5) = Inr ((plain_conversation, False), empty_store 5)"
    by (simp add: stored_preview_tx_def Let_def exec runs)
  then show ?thesis
    by (simp add: preview_conversation_def Let_def exec no_latest_run with_latest_def)
qed

lemma run_seen: "\<exists>s'. apply_tx conversation_seen [] None (empty_store 5) = Inr (True, s')"
  by (simp add: apply_tx_def stale_tx_def observe_event_tx_def plain_preview_run stamp_epoch_def
      stamp_current_def previous_status_tx_def put_private_tx_def confirm_event_tx_def exec runs
      can_append_def)

theorem observed_records_are_current_witness:
  "\<exists>s'. is_current s' ''conversation'' ''c''"
proof -
  obtain s' where "apply_tx conversation_seen [] None (empty_store 5) = Inr (True, s')"
    using run_seen by blast
  from observed_records_are_current [OF this, where kind = "''message''"] show ?thesis
    by (intro exI [of _ s']) (simp add: record_kinds_def)
qed

end
