(* ===== verification/ImportProperties.thy ===== *)
theory ImportProperties
  imports RecordProperties
begin

text \<open>
  What the store promises about created conversations, history imports, the network binding, the
  push identity and the key check.
\<close>

section \<open>Created conversations\<close>

lemma created_prefix:
  assumes run: "finish_conversation i event p fence s = Inr (u, s')"
    and version: "u64_at s BVersions (conversation_key (ev_entity_id event)) = None"
  obtains b t1 t2 t3 t4 out' where "append_tx event s = Inr (b, t1)"
    "observe_tx (conversation_key (ev_entity_id event)) t1 = Inr ((), t2)"
    "put_private_tx p t2 = Inr ((), t3)"
    "stamp_epoch ''conversation'' (ev_entity_id event) t3 = Inr ((), t4)"
    "write_outbox out' t4 = Inr (u, s')" "ev_type event = ''conversation''"
  using run version unfolding finish_conversation_def
  by (auto simp: bind_tx_Inr then_tx_Inr bget_u64_Inr when_tx_Inr read_outbox_Inr split: if_splits)

lemma created_conversation_counts:
  assumes "finish_conversation i event p fence s = Inr (u, s')" and "0 < epoch_of s"
    and "u64_at s BVersions (conversation_key (ev_entity_id event)) = None"
    and "lookup s BLatest (conversation_key (ev_entity_id event)) = None"
    and "u64_at s BEntityEpochs (conversation_key (ev_entity_id event)) = None"
    and "count_exact s ''conversation''" and "stale_ids s ''conversation'' \<noteq> {}"
  shows "stale_ids s' ''conversation'' = stale_ids s ''conversation''"
    and "\<not> count_exact s' ''conversation''"
proof -
  let ?id = "ev_entity_id event"
  let ?key = "entity_key ''conversation'' ?id"
  obtain b t1 t2 t3 t4 out' where
    steps: "append_tx event s = Inr (b, t1)"
    "observe_tx (conversation_key ?id) t1 = Inr ((), t2)"
    "put_private_tx p t2 = Inr ((), t3)"
    "stamp_epoch ''conversation'' ?id t3 = Inr ((), t4)"
    "write_outbox out' t4 = Inr (u, s')" and ty: "ev_type event = ''conversation''"
    by (rule created_prefix [OF assms(1,3)])
  note ap = append_records [OF steps(1), unfolded ty]
  have quiet: "upholds same_records (observe_tx k)" "upholds same_records (put_private_tx p)" for k
    by (rule quiet_same_records [where B = "{BVersions, BPrivate}"], rule frames, simp_all)+
  have "same_records t1 t2" by (rule upholdsD [OF quiet(1) steps(2)])
  moreover have "same_records t2 t3" by (rule upholdsD [OF quiet(2) steps(3)])
  ultimately have s13: "same_records t1 t3" by (rule same_records.R_trans)
  have k: "''conversation'' \<in> record_kinds" by (simp add: record_kinds_def)
  note sx = stamp_epoch_Inr [OF steps(4)]
  have s4: "same_records t4 s'" by (rule upholdsD [OF write_outbox_same_records steps(5)])
  have ep: "epoch_of t3 = epoch_of s"
    using s13 ap(1) by (simp add: same_records_def)
  have stamps: "u64_at t3 BEntityEpochs (entity_key ''conversation'' j) =
      u64_at s BEntityEpochs (entity_key ''conversation'' j)" for j
    using s13 ap(3) k by (simp add: same_records_def)
  have stored: "lookup t3 BLatest (entity_key ''conversation'' j) = None \<longleftrightarrow>
      j \<noteq> ?id \<and> lookup s BLatest (entity_key ''conversation'' j) = None" for j
    using s13 ap(4) k by (simp add: same_records_def)
  have fresh: "lookup s BLatest ?key = None" "u64_at s BEntityEpochs ?key = None"
    using assms(4,5) by (simp_all add: conversation_key_def)
  have "stale_ids t4 ''conversation'' = stale_ids s ''conversation''"
    using fresh by (auto simp: stale_ids_def sx(1,4,5) ep stamps stored)
  then show stale: "stale_ids s' ''conversation'' = stale_ids s ''conversation''"
    using same_records_stale [OF s4 k] by simp
  obtain n where n: "u64_at s BMeta (previous_count_key ''conversation'') = Some n"
    "unat n = card (stale_ids s ''conversation'')"
    using assms(6) by (auto simp: count_exact_def)
  have pos: "n > 0"
    using n(2) assms(7) finite_stale [of s "''conversation''"] by (metis card_gt_0_iff unat_gt_0 word_gt_0)
  have "uncounted ''conversation'' ?key t3"
    using assms(2) fresh by (simp add: uncounted_def ep stamps stored)
  moreover have "u64_at t3 BMeta (previous_count_key ''conversation'') = Some n"
    using s13 ap(2) k n(1) by (simp add: same_records_def)
  ultimately have "u64_at t4 BMeta (previous_count_key ''conversation'') = Some (n - 1)"
    using pos sx(6) [of "''conversation''"] by simp
  then have "u64_at s' BMeta (previous_count_key ''conversation'') = Some (n - 1)"
    using s4 k by (simp add: same_records_def)
  moreover have "unat (n - 1) \<noteq> unat n"
    using word_unat_eq_iff [of "n - 1" n] by simp
  ultimately show "\<not> count_exact s' ''conversation''"
    using n(2) stale by (simp add: count_exact_def)
qed

text \<open>C7: finishing the creation of a conversation that was not
  stored before decrements the count of earlier-session conversations although no earlier record
  was observed: the event is appended before the stamp, so the stamp takes the new record for an
  old one, and an exact count becomes wrong.\<close>

theorem created_conversation_is_miscounted:
  assumes "finish_conversation i event p fence s = Inr (u, s')" and "0 < epoch_of s"
    and "u64_at s BVersions (conversation_key (ev_entity_id event)) = None"
    and "lookup s BLatest (conversation_key (ev_entity_id event)) = None"
    and "u64_at s BEntityEpochs (conversation_key (ev_entity_id event)) = None"
    and "count_exact s ''conversation''" and "stale_ids s ''conversation'' \<noteq> {}"
  shows "(stale_ids s' ''conversation'' = stale_ids s ''conversation'') \<and>
    (\<not> count_exact s' ''conversation'')"
  using created_conversation_counts [OF assms] by blast

definition create_request :: send_request where
  "create_request = zero_request\<lparr>q_kind := ''conversation'', q_recipients := [''+15550100'']\<rparr>"

definition creating :: outbox where
  "creating = new_outbox ''a'' ''t'' create_request 1 5\<lparr>o_state := ''sending''\<rparr>"

lemma creating_simps [simp]:
  "o_id creating = ''a''" "o_state creating = ''sending''" "q_kind (o_request creating) = ''conversation''"
  by (simp_all add: creating_def new_outbox_def create_request_def)

definition old_conversation :: store where
  "old_conversation =
     put_kv BLatest (entity_key ''conversation'' ''old'') (Sealed ''key'' (entity_key ''conversation'' ''old'')
         (JText (enc_conversation plain_conversation)))
       (put_kv BMeta (previous_count_key ''conversation'') (Raw (sequence 1))
         (put_kv BMeta epoch_key (Raw (sequence 1)) (empty_store 5)))"

definition creating_store :: store where
  "creating_store = stored_outbox creating old_conversation"

lemma old_conversation_simps [simp]:
  "exists_bucket old_conversation b = opened_bucket b" "cipher_key old_conversation = ''key''"
  "clock old_conversation = 5" "epoch_of old_conversation = 1"
  "counter old_conversation b = 0"
  "lookup old_conversation BLatest k = (if k = entity_key ''conversation'' ''old''
     then Some (Sealed ''key'' k (JText (enc_conversation plain_conversation))) else None)"
  "u64_at old_conversation BVersions k = None" "u64_at old_conversation BEntityEpochs k = None"
  "u64_at old_conversation BMeta (previous_count_key ''conversation'') = Some 1"
  by (simp_all add: old_conversation_def) (simp add: epoch_of_def)

lemma creating_store_simps [simp]:
  "exists_bucket creating_store b = opened_bucket b" "cipher_key creating_store = ''key''"
  "clock creating_store = 5" "epoch_of creating_store = 1" "counter creating_store BEvents = 1"
  "counter creating_store BVersions = 0"
  "lookup creating_store BLatest k = (if k = entity_key ''outbox'' ''a''
     then Some (Sealed ''key'' k (JText (enc_outbox creating))) else lookup old_conversation BLatest k)"
  "u64_at creating_store BVersions k = None" "u64_at creating_store BEntityEpochs k = None"
  "u64_at creating_store BMeta (previous_count_key ''conversation'') = Some 1"
  "outbox_at creating_store ''a'' = Some creating"
  by (simp_all add: creating_store_def)

lemma length_previous_count_key [simp]:
  "length (previous_count_key kind) = 18 + length kind"
  by (simp add: previous_count_key_def)

lemma entity_keys_differ [simp]: "entity_key ''outbox'' i \<noteq> entity_key ''conversation'' j"
  by (simp add: entity_key_def)

lemma run_created: "\<exists>s'. finish_conversation ''a'' conversation_seen [] 0 creating_store = Inr ((), s')"
proof -
  let ?w = "creating\<lparr>o_detail := ready_detail, o_conversation_id := ''c'', o_state := ''accepted'', o_updated := 5\<rparr>"
  have "creating \<noteq> ?w" by (rule outbox_state_differs) simp
  then show ?thesis
    by (simp add: finish_conversation_def stamp_epoch_def stamp_current_def put_private_tx_def
        conversation_key_def can_append_def exec runs record_kinds_def)
qed

theorem created_conversation_is_miscounted_witness:
  "\<exists>s'. finish_conversation ''a'' conversation_seen [] 0 creating_store = Inr ((), s') \<and>
     \<not> count_exact s' ''conversation''"
proof -
  obtain s' where run: "finish_conversation ''a'' conversation_seen [] 0 creating_store = Inr ((), s')"
    using run_created by blast
  have stale: "stale_ids creating_store ''conversation'' = {''old''}"
    by (auto simp: stale_ids_def record_kinds_def)
  then have "count_exact creating_store ''conversation''" by (simp add: count_exact_def)
  with created_conversation_is_miscounted [OF run] run stale show ?thesis
    by (simp add: conversation_key_def record_kinds_def)
qed

section \<open>History imports\<close>

lemma history_tx_Inr [tx_elims]:
  "history_tx i s = Inr (job, s') \<longleftrightarrow> exists_bucket s BLatest \<and> job_at s i = Some job \<and> s' = s"
  by (auto simp: history_tx_def job_at_def tx_elims split: option.splits)

lemma job_at_exists: "job_at s i = Some job \<Longrightarrow> exists_bucket s BLatest"
  by (cases "lookup s BLatest (history_key i)") (auto simp: job_at_def stored_at_def dest: lookup_exists)

lemma write_history_Inr:
  assumes "write_history job s = Inr (job', s')"
  shows "job' = job\<lparr>j_updated := clock s\<rparr>"
    and "job_at s' i = (if i = j_id job then Some job' else job_at s i)"
    and "frame {BEvents, BLatest, BMessageIndex} s s'"
proof -
  from assms obtain b where ap: "append_tx (history_event (job\<lparr>j_updated := clock s\<rparr>)) s = Inr (b, s')"
    and job': "job' = job\<lparr>j_updated := clock s\<rparr>"
    by (auto simp: write_history_def Let_def tx_elims)
  show "job' = job\<lparr>j_updated := clock s\<rparr>" by (rule job')
  show f: "frame {BEvents, BLatest, BMessageIndex} s s'"
    by (rule upholdsD [OF frame_append ap]) simp
  show "job_at s' i = (if i = j_id job then Some job' else job_at s i)"
    using append_tx_latest [OF ap, of "history_key i"] frame_key [OF f] job'
    by (simp add: job_at_def stored_at_def history_event_def history_key_def zero_event_def)
qed

lemma job_at_frame: "frame B s s' \<Longrightarrow> BLatest \<notin> B \<Longrightarrow> job_at s' i = job_at s i"
  by (simp add: job_at_def stored_at_frame [of B])

lemma requeue_Inr:
  assumes "requeue h job restart s = Inr (job', s')"
  shows "job_at s' (j_id job) = Some job'" "j_generation job' = j_generation job + 1"
    "j_state job' = ''queued''" "j_session_epoch job' = epoch_of s" "exists_bucket s' BLatest"
    "restart \<Longrightarrow> j_pages job' = 0 \<and> j_records job' = 0 \<and> lookup s' BPrivate (history_key (j_id job)) = None"
proof -
  let ?head = "when_tx restart (then_tx (bdelete BPrivate (history_key (j_id job))) (forget_pages h (j_id job)))"
  let ?job = "if restart then job\<lparr>j_pages := 0, j_records := 0\<rparr> else job"
  from assms obtain t where head: "?head s = Inr ((), t)"
    and wr: "write_history (?job\<lparr>j_generation := j_generation job + 1, j_session_epoch := epoch_of t,
        j_updated := clock t, j_schema := Schema, j_state := ''queued'', j_detail := [],
        j_retry_at := 0\<rparr>) t = Inr (job', s')"
    by (cases restart) (auto simp: requeue_def bind_tx_Inr then_tx_Inr epoch_Inr Let_def)
  have "upholds (frame {BPrivate, BHistoryPages}) ?head"
    by (intro frame.rules frames; simp)
  then have f: "frame {BPrivate, BHistoryPages} s t" using head by (rule upholdsD)
  then have ep: "epoch_of t = epoch_of s" by (rule frame_epoch_of) simp
  note w = write_history_Inr [OF wr]
  show "job_at s' (j_id job) = Some job'" "j_generation job' = j_generation job + 1"
    "j_state job' = ''queued''" "j_session_epoch job' = epoch_of s"
    using w(2) [of "j_id job"] ep by (simp_all add: w(1))
  show "exists_bucket s' BLatest"
    using w(2) [of "j_id job"] by (intro job_at_exists [of s' "j_id job" job']) (simp add: w(1))
  show "j_pages job' = 0 \<and> j_records job' = 0 \<and> lookup s' BPrivate (history_key (j_id job)) = None"
    if restart
  proof -
    from head that obtain t1 where d: "t1 = del_kv BPrivate (history_key (j_id job)) s"
      and fp: "forget_pages h (j_id job) t1 = Inr ((), t)"
      by (auto simp: when_tx_Inr then_tx_Inr bdelete_Inr)
    have "frame {BHistoryPages} t1 t" by (rule upholdsD [OF frame_forget_pages fp]) simp
    then have "lookup t BPrivate (history_key (j_id job)) = None"
      using frame_lookup [of "{BHistoryPages}" t1 t BPrivate] by (simp add: d)
    then have "lookup s' BPrivate (history_key (j_id job)) = None"
      using frame_lookup [OF w(3), of BPrivate] by simp
    then show ?thesis using that by (simp add: w(1))
  qed
qed

lemma requeue_fences:
  assumes "job_at s i = Some old" and "j_id job = i" and "j_id old = i"
    and "queue_history h job restart s = Inr (new, s')"
    and "restart \<or> j_state old \<notin> {''complete'', ''queued''}"
  shows "j_generation new = j_generation old + 1"
    and "checkpoint_history h' i (j_generation old) prev nxt n detail s' = Inr ((), s')"
    and "fail_history i (j_generation old) detail s' = Inr ((), s')"
proof -
  have "exists_bucket s BLatest" by (rule job_at_exists [OF assms(1)])
  then have "history_tx i s = Inr (old, s)"
    using assms(1) by (simp add: history_tx_Inr)
  then have rq: "requeue h old restart s = Inr (new, s')"
    using assms(2,4,5) by (auto simp: queue_history_def exec split: if_splits)
  note r = requeue_Inr [OF rq, unfolded assms(3)]
  show gen: "j_generation new = j_generation old + 1" by (rule r(2))
  have "history_tx i s' = Inr (new, s')"
    using r(1,5) by (simp add: history_tx_Inr)
  moreover have "j_generation new \<noteq> j_generation old" using gen by simp
  ultimately show "checkpoint_history h' i (j_generation old) prev nxt n detail s' = Inr ((), s')"
    and "fail_history i (j_generation old) detail s' = Inr ((), s')"
    by (simp_all add: checkpoint_history_def fail_history_def exec)
qed

text \<open>Once a history job has been queued again, a page or a failure
  that a worker of the earlier generation reports changes nothing.\<close>

theorem superseded_worker_changes_nothing:
  assumes "job_at s i = Some old" and "j_id job = i" and "j_id old = i"
    and "queue_history h job restart s = Inr (new, s')"
    and "restart \<or> j_state old \<notin> {''complete'', ''queued''}"
  shows "(j_generation new = j_generation old + 1) \<and>
    (checkpoint_history h' i (j_generation old) prev nxt n detail s' = Inr ((), s')) \<and>
    (fail_history i (j_generation old) detail s' = Inr ((), s'))"
  using requeue_fences [OF assms] by blast

definition import_job :: history_job where
  "import_job = zero_job\<lparr>j_id := ''i'', j_schema := Schema, j_state := ''queued'', j_generation := 1\<rparr>"

lemma import_job_simps [simp]:
  "j_id import_job = ''i''" "j_state import_job = ''queued''" "j_generation import_job = 1"
  by (simp_all add: import_job_def)

definition importing :: store where
  "importing = put_kv BLatest (history_key ''i'') (Sealed ''key'' (history_key ''i'')
     (JText (enc_job import_job))) (empty_store 5)"

lemma importing_simps [simp]:
  "exists_bucket importing b = opened_bucket b" "cipher_key importing = ''key''" "clock importing = 5"
  "counter importing b = 0" "epoch_of importing = 0" "job_at importing ''i'' = Some import_job"
  "lookup importing BLatest k = (if k = history_key ''i''
     then Some (Sealed ''key'' k (JText (enc_job import_job))) else None)"
  "b \<noteq> BLatest \<Longrightarrow> b \<noteq> BMeta \<Longrightarrow> lookup importing b k = None"
  by (simp_all add: importing_def job_at_def)

lemma history_run: "history_tx ''i'' importing = Inr (import_job, importing)"
  by (simp add: history_tx_Inr)

lemma write_history_run:
  "can_append (history_event (job\<lparr>j_updated := clock s\<rparr>)) s \<Longrightarrow>
   write_history job s = Inr (job\<lparr>j_updated := clock s\<rparr>,
     logged (history_event (job\<lparr>j_updated := clock s\<rparr>)) s)"
  by (simp add: write_history_def Let_def exec append_run history_event_def)

lemma history_event_simps [simp]:
  "ev_type (history_event job) = ''history''" "ev_entity_id (history_event job) = j_id job"
  "ev_data (history_event job) = JText (enc_job job)" "event_key (history_event job) = history_key (j_id job)"
  by (simp_all add: history_event_def event_key_def history_key_def)

lemma length_history_key [simp]: "length (history_key i) = 8 + length i" "history_key i \<noteq> []"
  by (simp_all add: history_key_def)

lemma job_differs: "j_generation a \<noteq> j_generation b \<or> j_pages a \<noteq> j_pages b \<Longrightarrow> a \<noteq> (b :: history_job)"
  by auto

lemma run_requeue: "\<exists>new s'. queue_history h import_job True importing = Inr (new, s')"
proof -
  let ?job = "import_job\<lparr>j_pages := 0, j_records := 0, j_generation := 2, j_session_epoch := 0,
      j_updated := 5, j_schema := Schema, j_state := ''queued'', j_detail := [], j_retry_at := 0\<rparr>"
  have "import_job \<noteq> ?job\<lparr>j_updated := 5\<rparr>" by (rule job_differs) simp
  then have "can_append (history_event (?job\<lparr>j_updated := 5\<rparr>)) (del_kv BPrivate (history_key ''i'') importing)"
    by (simp add: can_append_def)
  then show ?thesis
    by (simp add: queue_history_def requeue_def forget_pages_def history_run exec runs write_history_run)
qed

theorem superseded_worker_changes_nothing_witness:
  "\<exists>(new :: history_job) s'. j_generation new = 2 \<and>
     checkpoint_history (\<lambda>_. []) ''i'' 1 (Opaque []) (Opaque []) 5 [] s' = Inr ((), s')"
proof -
  obtain new s' where run: "queue_history (\<lambda>_. []) import_job True importing = Inr (new, s')"
    using run_requeue by blast
  show ?thesis
    using superseded_worker_changes_nothing [OF importing_simps(6) import_job_simps(1,1) run
        disjI1 [OF TrueI], where h' = "\<lambda>_. []" and prev = "Opaque []" and nxt = "Opaque []"
        and n = 5 and detail = "[]"]
    by (intro exI [of _ new], intro exI [of _ s']) simp
qed

lemma checkpoint_effects:
  assumes "job_at s i = Some job" and "j_id job = i" and "j_state job = ''queued''"
    and "checkpoint_history h i (j_generation job) prev nxt n [] s = Inr (u, s')"
  shows "history_cursor i s = Inr (prev, s)"
    and "history_cursor i s' = Inr (nxt, s')"
    and "\<exists>job'. job_at s' i = Some job' \<and> j_pages job' = j_pages job + 1 \<and>
      j_records job' = j_records job + n \<and> j_generation job' = j_generation job \<and>
      (j_state job' = ''complete'' \<longleftrightarrow> nxt = Opaque []) \<and>
      (j_state job' = ''failed'' \<longleftrightarrow> nxt \<noteq> Opaque [] \<and>
         (lookup s BHistoryPages (page_key h i nxt) \<noteq> None \<or> h nxt = h prev))"
proof -
  let ?ctx = "''private:'' @ history_key i"
  from assms obtain t1 t2 t3 b where
    cur: "history_cursor i s = Inr (prev, s)"
    and t1: "bcreate BHistoryPages s = Inr ((), t1)"
    and t2: "t2 = put_kv BHistoryPages (page_key h i prev) (Raw [char_of (1 :: nat)]) t1"
      "exists_bucket t1 BHistoryPages"
    and t3: "t3 = put_kv BPrivate (history_key i) (Sealed (cipher_key t2) ?ctx nxt) t2"
      "exists_bucket t2 BPrivate"
    and wr: "write_history (page_read job nxt (lookup t2 BHistoryPages (page_key h i nxt) \<noteq> None) n) t3
      = Inr (b, s')"
    using upholdsD [OF frame_history_cursor [where B = "{}"]]
    by (fastforce simp: checkpoint_history_def bind_tx_Inr then_tx_Inr history_tx_Inr bput_Inr bget_Inr
        put_sealed_Inr split: if_splits)
  show "history_cursor i s = Inr (prev, s)" by (rule cur)
  note w = write_history_Inr [OF wr]
  have id: "j_id (page_read job nxt x n) = i" for x
    using assms(2) by (simp add: page_read_def Let_def)
  have lk: "lookup s' BPrivate (history_key i) = Some (Sealed (cipher_key s') ?ctx nxt)"
    using frame_lookup [OF w(3), of BPrivate] frame_key [OF w(3)] t3 by simp
  then have "exists_bucket s' BPrivate" by (rule lookup_exists)
  with lk show "history_cursor i s' = Inr (nxt, s')"
    by (simp add: history_cursor_def exec runs)
  have seen: "lookup t2 BHistoryPages (page_key h i nxt) \<noteq> None \<longleftrightarrow>
      lookup s BHistoryPages (page_key h i nxt) \<noteq> None \<or> h nxt = h prev"
    using t1 t2 by (auto simp: bcreate_Inr page_key_def split: if_splits)
  have "job_at s' i = Some b" using w(2) [of i] id by simp
  then show "\<exists>job'. job_at s' i = Some job' \<and> j_pages job' = j_pages job + 1 \<and>
      j_records job' = j_records job + n \<and> j_generation job' = j_generation job \<and>
      (j_state job' = ''complete'' \<longleftrightarrow> nxt = Opaque []) \<and>
      (j_state job' = ''failed'' \<longleftrightarrow> nxt \<noteq> Opaque [] \<and>
         (lookup s BHistoryPages (page_key h i nxt) \<noteq> None \<or> h nxt = h prev))"
    using assms(3) seen by (intro exI [of _ b]) (simp add: w(1) page_read_def Let_def)
qed

text \<open>a page is recorded only for a queued job of the worker's
  generation whose stored cursor is the one the page was read with; then the job counts the page,
  the cursor moves on, and the import is complete exactly when there is no next cursor and failed
  when the provider repeats a cursor.\<close>

theorem checkpoint_advances_one_page:
  assumes "job_at s i = Some job" and "j_id job = i" and "j_state job = ''queued''"
    and "checkpoint_history h i (j_generation job) prev nxt n [] s = Inr (u, s')"
  shows "(history_cursor i s = Inr (prev, s)) \<and>
    (history_cursor i s' = Inr (nxt, s')) \<and>
    (\<exists>job'. job_at s' i = Some job' \<and> j_pages job' = j_pages job + 1 \<and>
      j_records job' = j_records job + n \<and> j_generation job' = j_generation job \<and>
      (j_state job' = ''complete'' \<longleftrightarrow> nxt = Opaque []) \<and>
      (j_state job' = ''failed'' \<longleftrightarrow> nxt \<noteq> Opaque [] \<and>
         (lookup s BHistoryPages (page_key h i nxt) \<noteq> None \<or> h nxt = h prev)))"
  using checkpoint_effects [OF assms] by blast

definition cursor_sum :: "payload \<Rightarrow> string" where
  "cursor_sum p = (case p of Opaque b \<Rightarrow> b | JText j \<Rightarrow> [])"

lemma run_checkpoint:
  "\<exists>s'. checkpoint_history cursor_sum ''i'' 1 (Opaque []) (Opaque ''n'') 20 [] importing = Inr ((), s')"
proof -
  let ?job = "page_read import_job (Opaque ''n'') False 20"
  have "import_job \<noteq> ?job\<lparr>j_updated := 5\<rparr>"
    by (rule job_differs) (simp add: page_read_def)
  moreover have "j_id ?job = ''i''" by (simp add: page_read_def)
  ultimately show ?thesis
    by (simp add: checkpoint_history_def history_run history_cursor_def exec runs write_history_run
        page_key_def history_prefix_def cursor_sum_def can_append_def)
qed

theorem checkpoint_advances_one_page_witness:
  "\<exists>s' job'. job_at s' ''i'' = Some job' \<and> j_records job' = j_records import_job + 20 \<and>
     j_state job' \<noteq> ''complete'' \<and> history_cursor ''i'' s' = Inr (Opaque ''n'', s')"
proof -
  obtain s' where run: "checkpoint_history cursor_sum ''i'' (j_generation import_job) (Opaque [])
      (Opaque ''n'') 20 [] importing = Inr ((), s')"
    using run_checkpoint by auto
  show ?thesis
    using checkpoint_advances_one_page [OF importing_simps(6) import_job_simps(1,2) run] by auto
qed

section \<open>Bindings that are made once\<close>

lemma decrypt_same_key: "cipher_key s = k \<Longrightarrow> decrypt (Sealed k context d) context s = Inr (d, s)"
  by (auto simp: runs)

text \<open>a database that was bound to a network refuses, from then on and in every
  state that keeps the binding, to be opened for another one, and accepts its own.\<close>

theorem network_is_bound_once:
  assumes "bind_network network s = Inr (u, s1)" and "network \<noteq> []"
    and "lookup s2 BNetwork ''network'' = lookup s1 BNetwork ''network''"
    and "cipher_key s2 = cipher_key s1"
  shows "bind_network other s2 = (if other = network then Inr ((), s2)
    else Inl (ErrText ''database network does not match --network''))"
proof -
  have look: "lookup s1 BNetwork ''network'' =
      Some (Sealed (cipher_key s1) (network_context ''network'') (Opaque network))"
    using assms(1)
    by (auto simp: bind_network_def network_txn_def network_get_def network_put_def bget_plain_def
        tx_elims put_sealed_Inr bcreate_Inr split: if_splits option.splits)
  then have ex: "exists_bucket s2 BNetwork" using assms(3) lookup_exists by simp
  show ?thesis
    using look assms(2-4) ex
    by (simp add: bind_network_def network_txn_def network_get_def bget_plain_def exec runs decrypt_same_key)
qed

lemma run_bind: "\<exists>s'. bind_network ''whatsapp'' (empty_store 5) = Inr ((), s')"
  by (simp add: bind_network_def network_txn_def network_get_def network_put_def bget_plain_def exec runs)

theorem network_is_bound_once_witness:
  "\<exists>s'. bind_network ''google-messages'' s' = Inl (ErrText ''database network does not match --network'')"
proof -
  obtain s' where run: "bind_network ''whatsapp'' (empty_store 5) = Inr ((), s')"
    using run_bind by blast
  from network_is_bound_once [OF run _ refl refl, of "''google-messages''"] show ?thesis
    by (intro exI [of _ s']) simp
qed

text \<open>Whatever a later caller would generate, it gets the key pair
  the first caller stored, and nothing changes.\<close>

theorem push_identity_is_generated_once:
  assumes "ensure_push_keys (Inr fresh) s = Inr (keys, s1)"
    and "lookup s2 BMeta ''vapid'' = lookup s1 BMeta ''vapid''" and "cipher_key s2 = cipher_key s1"
  shows "ensure_push_keys later s2 = Inr (keys, s2)"
proof -
  have "\<exists>p. lookup s1 BMeta ''vapid'' = Some (Sealed (cipher_key s1) ''vapid'' p) \<and>
      unmarshal dec_keys p = Inr keys"
    using assms(1)
    by (cases "lookup s BMeta ''vapid''") (auto simp: ensure_push_keys_def tx_elims)
  moreover from this have "exists_bucket s2 BMeta" using assms(2) lookup_exists by metis
  ultimately show ?thesis
    using assms(2,3) by (auto simp: ensure_push_keys_def exec runs decrypt_same_key)
qed

definition vapid_pair :: push_keys where
  "vapid_pair = \<lparr>vapid_private = ''p'', vapid_public = ''q''\<rparr>"

lemma run_push: "\<exists>s'. ensure_push_keys (Inr vapid_pair) (empty_store 5) = Inr (vapid_pair, s')"
  by (simp add: ensure_push_keys_def exec runs)

theorem push_identity_is_generated_once_witness:
  "\<exists>s'. ensure_push_keys (Inl ErrInvalid) s' = Inr (vapid_pair, s')"
proof -
  obtain s' where run: "ensure_push_keys (Inr vapid_pair) (empty_store 5) = Inr (vapid_pair, s')"
    using run_push by blast
  from push_identity_is_generated_once [OF run refl refl] show ?thesis by blast
qed

text \<open>a database opened with one key cannot be opened with another: the open
  fails and the file keeps its contents; with the right length and the same key it opens again.\<close>

theorem wrong_key_cannot_open:
  assumes "lookup file BMeta ''key-check'' = Some (Sealed key ''key-check'' p)" and "key' \<noteq> key"
  shows "\<exists>e. open_store key' file = (Inl e, if length key' = 32 then file\<lparr>cipher_key := key'\<rparr> else file)"
proof -
  let ?f = "file\<lparr>cipher_key := key'\<rparr>"
  have "open_tx ?f \<noteq> Inr (u, s')" for u s'
  proof
    assume "open_tx ?f = Inr (u, s')"
    then obtain t1 t2 t3 t4 where steps: "for_tx bcreate open_buckets ?f = Inr ((), t1)"
      "ensure_message_index t1 = Inr ((), t2)" "ensure_conversation_previews t2 = Inr ((), t3)"
      "raise_versions t3 = Inr ((), t4)" and chk: "check_key t4 = Inr (u, s')"
      by (auto simp: open_tx_def then_tx_Inr simp del: for_tx_Cons)
    let ?R = "\<lambda>s s'. cipher_key s' = cipher_key s \<and>
        (\<forall>c. lookup s BMeta ''key-check'' = Some c \<longrightarrow> lookup s' BMeta ''key-check'' = Some c)"
    have R: "tx_relation ?R" by unfold_locales auto
    have "upholds ?R (bcreate b)" for b
      by (rule upholdsI) (auto simp: bcreate_Inr split: if_splits)
    then have "upholds ?R (for_tx bcreate open_buckets)"
      by (rule tx_relation.for_loop [OF R])
    then have "?R ?f t1" using steps(1) by (rule upholdsD)
    moreover have "frame {BMessageIndex} t1 t2"
      by (rule upholdsD [OF frame_message_index steps(2)]) simp
    moreover have "frame {BEvents, BLatest, BMessageIndex, BVersions, BConversationLatest} t2 t3"
      by (rule upholdsD [OF frame_ensure_previews steps(3)]) simp
    moreover have "upholds (frame {BVersions}) raise_versions"
      unfolding raise_versions_def by (intro frame.rules frames; simp)
    then have "frame {BVersions} t3 t4" using steps(4) by (rule upholdsD)
    moreover have "lookup ?f BMeta ''key-check'' = Some (Sealed key ''key-check'' p)"
      using assms(1) by (simp add: lookup_def)
    ultimately have "lookup t4 BMeta ''key-check'' = Some (Sealed key ''key-check'' p)"
      "cipher_key t4 = key'"
      by (simp_all add: frame_lookup [of _ t1 t2] frame_lookup [of _ t2 t3] frame_lookup [of _ t3 t4]
          frame_key [of _ t1 t2] frame_key [of _ t2 t3] frame_key [of _ t3 t4])
    with chk assms(2) show False by (auto simp: check_key_def tx_elims)
  qed
  then show ?thesis
    by (cases "open_tx ?f") (auto simp: open_store_def update_tx_def)
qed

theorem wrong_key_cannot_open_witness:
  "\<exists>e. open_store ''other'' (empty_store 5) = (Inl e, empty_store 5)"
  using wrong_key_cannot_open [of "empty_store 5" "''key''" key_check_plain "''other''"] by simp

end
