(* ===== verification/Actions.thy ===== *)
theory Actions
  imports Prelude
begin

text \<open>
  The monad of the bridge's own code.  Unlike a database transaction, a Go method that returns an
  error keeps what it changed before: \<open>('w, 'a) act\<close> returns the next state beside an error as
  well as beside a result.  \<open>try_act\<close> is a call whose error the caller inspects.  \<open>always R m\<close>
  says that \<open>m\<close> relates the state before to the state after by \<open>R\<close>, whatever it returns; the
  locale \<open>act_relation\<close> lifts that through the monad for a preorder \<open>R\<close>.
\<close>

type_synonym ('w, 'a) act = "'w \<Rightarrow> (go_error + 'a) \<times> 'w"

named_theorems act_defs \<open>definitions of the operations of the action monad\<close>
named_theorems act_runs \<open>what an action computes\<close>

definition return_act :: "'a \<Rightarrow> ('w, 'a) act" where [act_defs]:
  "return_act x w = (Inr x, w)"

definition fail_act :: "go_error \<Rightarrow> ('w, 'a) act" where [act_defs]:
  "fail_act e w = (Inl e, w)"

definition bind_act :: "('w, 'a) act \<Rightarrow> ('a \<Rightarrow> ('w, 'b) act) \<Rightarrow> ('w, 'b) act" where [act_defs]:
  "bind_act m f w = (case m w of (Inl e, w') \<Rightarrow> (Inl e, w') | (Inr x, w') \<Rightarrow> f x w')"

definition then_act :: "('w, 'a) act \<Rightarrow> ('w, 'b) act \<Rightarrow> ('w, 'b) act" where [act_defs]:
  "then_act m n = bind_act m (\<lambda>_. n)"

definition when_act :: "bool \<Rightarrow> ('w, unit) act \<Rightarrow> ('w, unit) act" where [act_defs]:
  "when_act c m = (if c then m else return_act ())"

definition get_act :: "('w \<Rightarrow> 'a) \<Rightarrow> ('w, 'a) act" where [act_defs]:
  "get_act f w = (Inr (f w), w)"

definition mod_act :: "('w \<Rightarrow> 'w) \<Rightarrow> ('w, unit) act" where [act_defs]:
  "mod_act f w = (Inr (), f w)"

definition lift_act :: "go_error + 'a \<Rightarrow> ('w, 'a) act" where [act_defs]:
  "lift_act r w = (r, w)"

definition try_act :: "('w, 'a) act \<Rightarrow> ('w, go_error + 'a) act" where [act_defs]:
  "try_act m w = (case m w of (r, w') \<Rightarrow> (Inr r, w'))"

text \<open>An error branch: the handler takes the error, a result passes through.\<close>

definition catch_act :: "('w, 'a) act \<Rightarrow> (go_error \<Rightarrow> ('w, 'a) act) \<Rightarrow> ('w, 'a) act" where [act_defs]:
  "catch_act m h w = (case m w of (Inl e, w') \<Rightarrow> h e w' | (Inr x, w') \<Rightarrow> (Inr x, w'))"

primrec fold_act :: "('a \<Rightarrow> 'b \<Rightarrow> ('w, 'b) act) \<Rightarrow> 'a list \<Rightarrow> 'b \<Rightarrow> ('w, 'b) act" where
  "fold_act f [] acc = return_act acc"
| "fold_act f (x # xs) acc = bind_act (f x acc) (fold_act f xs)"

definition for_act :: "('a \<Rightarrow> ('w, unit) act) \<Rightarrow> 'a list \<Rightarrow> ('w, unit) act" where
  "for_act f xs = fold_act (\<lambda>x _. f x) xs ()"

lemma for_act_Nil [simp]: "for_act f [] = return_act ()"
  by (simp add: for_act_def)

lemma for_act_Cons [simp]: "for_act f (x # xs) = then_act (f x) (for_act f xs)"
  by (auto simp: for_act_def then_act_def bind_act_def fun_eq_iff split: sum.splits)

section \<open>Evaluation\<close>

lemma act_steps [act_runs]:
  "return_act x w = (Inr x, w)" "fail_act e w = (Inl e, w)" "get_act f w = (Inr (f w), w)"
  "mod_act g w = (Inr (), g w)" "lift_act r w = (r, w)"
  "when_act c u w = (if c then u w else (Inr (), w))"
  by (simp_all add: act_defs)

lemma bind_act_run [act_runs]:
  "m w = (Inr x, w') \<Longrightarrow> bind_act m f w = f x w'"
  "m w = (Inl e, w') \<Longrightarrow> bind_act m f w = (Inl e, w')"
  by (simp_all add: bind_act_def)

lemma then_act_run [act_runs]:
  "m w = (Inr x, w') \<Longrightarrow> then_act m n w = n w'"
  "m w = (Inl e, w') \<Longrightarrow> then_act m n w = (Inl e, w')"
  by (simp_all add: then_act_def bind_act_def)

lemma try_act_run [act_runs]: "m w = (r, w') \<Longrightarrow> try_act m w = (Inr r, w')"
  by (simp add: try_act_def)

lemma catch_act_run [act_runs]:
  "m w = (Inr x, w') \<Longrightarrow> catch_act m h w = (Inr x, w')"
  "m w = (Inl e, w') \<Longrightarrow> catch_act m h w = h e w'"
  by (simp_all add: catch_act_def)

lemma bind_get_act [simp]: "bind_act (get_act f) g w = g (f w) w"
  by (simp add: act_defs)

lemma then_mod_act [simp]: "then_act (mod_act f) m w = m (f w)"
  by (simp add: act_defs)

lemma bind_return_act [simp]: "bind_act (return_act x) f = f x"
  by (simp add: fun_eq_iff act_defs)

lemma bind_act_Inr:
  "bind_act m f w = (Inr r, w') \<longleftrightarrow> (\<exists>x v. m w = (Inr x, v) \<and> f x v = (Inr r, w'))"
  by (auto simp: bind_act_def split: prod.splits sum.splits)

lemma then_act_Inr:
  "then_act m n w = (Inr r, w') \<longleftrightarrow> (\<exists>x v. m w = (Inr x, v) \<and> n v = (Inr r, w'))"
  by (auto simp: then_act_def bind_act_Inr)

section \<open>Relations that hold across a call, whatever it returns\<close>

definition always :: "('w \<Rightarrow> 'w \<Rightarrow> bool) \<Rightarrow> ('w, 'a) act \<Rightarrow> bool" where
  "always R m \<longleftrightarrow> (\<forall>w. R w (snd (m w)))"

lemma alwaysI: "(\<And>w. R w (snd (m w))) \<Longrightarrow> always R m"
  by (simp add: always_def)

lemma alwaysD: "always R m \<Longrightarrow> R w (snd (m w))"
  by (simp add: always_def)

lemma always_run: "always R m \<Longrightarrow> m w = (r, w') \<Longrightarrow> R w w'"
  by (metis alwaysD snd_conv)

lemma always_mono: "always R m \<Longrightarrow> (\<And>w w'. R w w' \<Longrightarrow> Q w w') \<Longrightarrow> always Q m"
  by (auto simp: always_def)

text \<open>The same for the calls that return a result: what an error leaves behind does not matter.\<close>

definition on_success :: "('w \<Rightarrow> 'w \<Rightarrow> bool) \<Rightarrow> ('w, 'a) act \<Rightarrow> bool" where
  "on_success R m \<longleftrightarrow> (\<forall>w x w'. m w = (Inr x, w') \<longrightarrow> R w w')"

lemma on_success_run: "on_success R m \<Longrightarrow> m w = (Inr x, w') \<Longrightarrow> R w w'"
  by (simp add: on_success_def)

lemma always_on_success: "always R m \<Longrightarrow> on_success R m"
  by (auto simp: on_success_def dest: always_run)

lemma on_success_fail [simp]: "on_success R (fail_act e)"
  by (simp add: on_success_def fail_act_def)

lemma on_success_then_fail [simp]: "on_success R (then_act m (fail_act e))"
  by (simp add: on_success_def then_act_Inr fail_act_def)

lemma on_success_catch:
  "on_success R m \<Longrightarrow> (\<And>e. on_success R (h e)) \<Longrightarrow> (\<And>e w w'. m w = (Inl e, w') \<Longrightarrow> w' = w) \<Longrightarrow>
   on_success R (catch_act m h)"
  unfolding on_success_def catch_act_def
  by (auto split: prod.splits sum.splits) metis

locale act_relation =
  fixes R :: "'w \<Rightarrow> 'w \<Rightarrow> bool"
  assumes R_refl: "R w w"
    and R_trans: "R u v \<Longrightarrow> R v w \<Longrightarrow> R u w"
begin

lemma return [simp]: "always R (return_act x)"
  by (simp add: always_def act_defs R_refl)

lemma fail [simp]: "always R (fail_act e)"
  by (simp add: always_def act_defs R_refl)

lemma get [simp]: "always R (get_act f)"
  by (simp add: always_def act_defs R_refl)

lemma lift [simp]: "always R (lift_act r)"
  by (simp add: always_def act_defs R_refl)

lemma bind:
  assumes "always R m" and "\<And>x. always R (f x)"
  shows "always R (bind_act m f)"
proof (rule alwaysI)
  fix w
  obtain r v where run: "m w = (r, v)" by fastforce
  then have "R w v" using assms(1) by (rule always_run [rotated])
  then show "R w (snd (bind_act m f w))"
    using assms(2) run by (cases r) (auto simp: bind_act_def intro: R_trans R_refl dest: alwaysD)
qed

lemma seq: "always R m \<Longrightarrow> always R n \<Longrightarrow> always R (then_act m n)"
  by (simp add: then_act_def bind)

lemma cond: "always R m \<Longrightarrow> always R (when_act c m)"
  by (simp add: when_act_def)

lemma attempt: "always R m \<Longrightarrow> always R (try_act m)"
  by (auto simp: always_def act_defs split: prod.splits) (metis snd_conv)

lemma handle:
  assumes "always R m" and "\<And>e. always R (h e)"
  shows "always R (catch_act m h)"
proof (rule alwaysI)
  fix w
  obtain r v where run: "m w = (r, v)" by fastforce
  then have "R w v" using assms(1) by (rule always_run [rotated])
  then show "R w (snd (catch_act m h w))"
    using assms(2) run by (cases r) (auto simp: catch_act_def intro: R_trans R_refl dest: alwaysD)
qed

lemma branch: "always R m \<Longrightarrow> always R n \<Longrightarrow> always R (if c then m else n)"
  by simp

lemma result: "(\<And>e. always R (f e)) \<Longrightarrow> (\<And>x. always R (g x)) \<Longrightarrow>
  always R (case r of Inl e \<Rightarrow> f e | Inr x \<Rightarrow> g x)"
  by (simp split: sum.splits)

lemma maybe: "always R f \<Longrightarrow> (\<And>x. always R (g x)) \<Longrightarrow>
  always R (case r of None \<Rightarrow> f | Some x \<Rightarrow> g x)"
  by (simp split: option.splits)

lemma both: "(\<And>x y. always R (f x y)) \<Longrightarrow> always R (case r of (x, y) \<Rightarrow> f x y)"
  by (simp split: prod.splits)

lemma iterate: "(\<And>x acc. always R (f x acc)) \<Longrightarrow> always R (fold_act f xs acc)"
  by (induction xs arbitrary: acc) (auto intro: bind)

lemma each: "(\<And>x. always R (f x)) \<Longrightarrow> always R (for_act f xs)"
  by (simp add: for_act_def iterate)

lemmas rules = return fail get lift bind seq cond attempt handle branch result maybe both iterate each

lemma success_bind:
  "on_success R m \<Longrightarrow> (\<And>x. on_success R (f x)) \<Longrightarrow> on_success R (bind_act m f)"
  unfolding on_success_def bind_act_Inr by (blast intro: R_trans)

lemma success_seq: "on_success R m \<Longrightarrow> on_success R n \<Longrightarrow> on_success R (then_act m n)"
  by (simp add: then_act_def success_bind)

lemma success_branch: "on_success R m \<Longrightarrow> on_success R n \<Longrightarrow> on_success R (if c then m else n)"
  by simp

lemma success_result:
  "(\<And>e. on_success R (f e)) \<Longrightarrow> (\<And>x. on_success R (g x)) \<Longrightarrow>
   on_success R (case r of Inl e \<Rightarrow> f e | Inr x \<Rightarrow> g x)"
  by (simp split: sum.splits)

lemma success_each: "(\<And>x. on_success R (f x)) \<Longrightarrow> on_success R (for_act f xs)"
  by (induction xs) (auto simp: always_on_success intro: success_seq)

lemma success_maybe: "on_success R f \<Longrightarrow> (\<And>x. on_success R (g x)) \<Longrightarrow>
  on_success R (case r of None \<Rightarrow> f | Some x \<Rightarrow> g x)"
  by (simp split: option.splits)

lemma success_both: "(\<And>x y. on_success R (f x y)) \<Longrightarrow> on_success R (case r of (x, y) \<Rightarrow> f x y)"
  by (simp split: prod.splits)

lemma success_cond: "on_success R m \<Longrightarrow> on_success R (when_act c m)"
  by (auto simp: when_act_def intro: always_on_success)

lemma success_iterate: "(\<And>x acc. on_success R (f x acc)) \<Longrightarrow> on_success R (fold_act f xs acc)"
  by (induction xs arbitrary: acc) (auto intro: success_bind always_on_success)

lemmas success_rules = success_bind success_seq success_branch success_result success_each
  on_success_fail on_success_then_fail

lemmas success_more = success_maybe success_both success_cond success_iterate


end

end
