(* ===== verification/Hub.thy ===== *)
theory Hub
  imports StoreBase
begin

text \<open>
  \<open>internal/bridge/hub.go\<close>.  A subscription is identified by its place in the list of all
  subscriptions ever made; \<open>sb_member\<close> is its membership in the hub's map and \<open>sb_done\<close> says that
  its \<open>Done\<close> channel is closed.  \<open>Wake\<close> has room for one token and \<open>Live\<close> for 32 events, and a
  send that would block takes the \<open>default\<close> branch.  The map's iteration order does not matter,
  since each subscription is handled alone.
\<close>

record subscription =
  sb_wake :: bool
  sb_live :: "event list"
  sb_member :: bool
  sb_done :: bool

type_synonym hub = "subscription list"

definition live_capacity :: nat where "live_capacity = 32"

definition new_hub :: hub where "new_hub = []"

definition subscribe :: "hub \<Rightarrow> nat \<times> hub" where
  "subscribe h =
    (length h, h @ [\<lparr>sb_wake = False, sb_live = [], sb_member = True, sb_done = False\<rparr>])"

definition unsubscribe :: "nat \<Rightarrow> hub \<Rightarrow> hub" where
  "unsubscribe i h =
    (if i < length h \<and> sb_member (h ! i)
     then h[i := (h ! i)\<lparr>sb_member := False, sb_done := True\<rparr>] else h)"

definition notify_one :: "subscription \<Rightarrow> subscription" where
  "notify_one s = (if sb_member s then s\<lparr>sb_wake := True\<rparr> else s)"

definition notify :: "hub \<Rightarrow> hub" where
  "notify h = map notify_one h"

definition publish_one :: "event \<Rightarrow> subscription \<Rightarrow> subscription" where
  "publish_one e s =
    (if \<not> sb_member s then s
     else if length (sb_live s) < live_capacity then s\<lparr>sb_live := sb_live s @ [e]\<rparr>
     else s\<lparr>sb_member := False, sb_done := True\<rparr>)"

definition publish :: "event \<Rightarrow> hub \<Rightarrow> hub" where
  "publish e h = map (publish_one e) h"

text \<open>The consumer's side: receiving from \<open>Wake\<close> and from \<open>Live\<close>.\<close>

definition receive_wake :: "nat \<Rightarrow> hub \<Rightarrow> hub" where
  "receive_wake i h = (if i < length h then h[i := (h ! i)\<lparr>sb_wake := False\<rparr>] else h)"

definition receive_live :: "nat \<Rightarrow> hub \<Rightarrow> hub" where
  "receive_live i h = (if i < length h then h[i := (h ! i)\<lparr>sb_live := tl (sb_live (h ! i))\<rparr>] else h)"

section \<open>What a subscriber can rely on\<close>

definition subscription_ok :: "subscription \<Rightarrow> bool" where
  "subscription_ok s \<longleftrightarrow> sb_done s = (\<not> sb_member s) \<and> length (sb_live s) \<le> live_capacity"

definition hub_ok :: "hub \<Rightarrow> bool" where
  "hub_ok h \<longleftrightarrow> (\<forall>s \<in> set h. subscription_ok s)"

lemma hub_ok_nth: "hub_ok h \<Longrightarrow> i < length h \<Longrightarrow> subscription_ok (h ! i)"
  by (simp add: hub_ok_def)

lemma hub_ok_update: "hub_ok h \<Longrightarrow> subscription_ok s \<Longrightarrow> hub_ok (h[i := s])"
  unfolding hub_ok_def using set_update_subset_insert [of h i s] by blast

lemma keep_subscription_ok:
  "subscription_ok s \<Longrightarrow> subscription_ok (notify_one s)"
  "subscription_ok s \<Longrightarrow> subscription_ok (publish_one e s)"
  by (simp_all add: subscription_ok_def notify_one_def publish_one_def)

lemma hub_ok_ops:
  "hub_ok new_hub"
  "hub_ok h \<Longrightarrow> hub_ok (snd (subscribe h))"
  "hub_ok h \<Longrightarrow> hub_ok (unsubscribe i h)"
  "hub_ok h \<Longrightarrow> hub_ok (notify h)"
  "hub_ok h \<Longrightarrow> hub_ok (publish e h)"
  "hub_ok h \<Longrightarrow> hub_ok (receive_wake i h)"
  "hub_ok h \<Longrightarrow> hub_ok (receive_live i h)"
proof -
  show "hub_ok h \<Longrightarrow> hub_ok (unsubscribe i h)"
    unfolding unsubscribe_def using hub_ok_nth [of h i]
    by (auto intro!: hub_ok_update simp: subscription_ok_def)
  show "hub_ok h \<Longrightarrow> hub_ok (receive_wake i h)"
    unfolding receive_wake_def using hub_ok_nth [of h i]
    by (auto intro!: hub_ok_update simp: subscription_ok_def)
  show "hub_ok h \<Longrightarrow> hub_ok (receive_live i h)"
    unfolding receive_live_def using hub_ok_nth [of h i]
    by (auto intro!: hub_ok_update simp: subscription_ok_def)
  show "hub_ok h \<Longrightarrow> hub_ok (notify h)" "hub_ok h \<Longrightarrow> hub_ok (publish e h)"
    by (simp_all add: hub_ok_def notify_def publish_def keep_subscription_ok)
  show "hub_ok new_hub" "hub_ok h \<Longrightarrow> hub_ok (snd (subscribe h))"
    by (auto simp: hub_ok_def subscription_ok_def new_hub_def subscribe_def)
qed

lemma notify_nth: "i < length h \<Longrightarrow> notify h ! i = notify_one (h ! i)"
  by (simp add: notify_def)

lemma publish_nth: "i < length h \<Longrightarrow> publish e h ! i = publish_one e (h ! i)"
  by (simp add: publish_def)

lemma length_hub [simp]:
  "length (notify h) = length h" "length (publish e h) = length h"
  "length (unsubscribe i h) = length h" "length (receive_wake i h) = length h"
  "length (receive_live i h) = length h"
  by (simp_all add: notify_def publish_def unsubscribe_def receive_wake_def receive_live_def)

text \<open>A burst of live events: what fits is kept in order, the first that does not fit closes it.\<close>

lemma publish_burst:
  "i < length h \<Longrightarrow> sb_member (h ! i) \<Longrightarrow> \<not> sb_done (h ! i) \<Longrightarrow> length (sb_live (h ! i)) \<le> live_capacity \<Longrightarrow>
   fold publish es h ! i =
    (let room = live_capacity - length (sb_live (h ! i))
     in (h ! i)\<lparr>sb_live := sb_live (h ! i) @ take room es, sb_member := length es \<le> room,
                sb_done := room < length es\<rparr>)"
proof (induction es arbitrary: h)
  case (Cons e es)
  show ?case
  proof (cases "length (sb_live (h ! i)) < live_capacity")
    case True
    then have room: "live_capacity - length (sb_live (h ! i))
        = Suc (live_capacity - length (sb_live (publish e h ! i)))"
      using Cons.prems by (simp add: publish_nth publish_one_def)
    show ?thesis
      using Cons.IH [of "publish e h"] Cons.prems True room
      by (simp add: publish_nth publish_one_def Let_def)
  next
    case False
    have gone: "fold publish es g ! i = g ! i" if "i < length g" "\<not> sb_member (g ! i)" for g es
      using that by (induction es arbitrary: g) (simp_all add: publish_nth publish_one_def)
    show ?thesis
      using Cons.prems False gone [of "publish e h" es]
      by (simp add: publish_nth publish_one_def)
  qed
qed (simp add: Let_def)

end
