(* ===== verification/BridgeState.thy ===== *)
theory BridgeState
  imports StoreSystem Actions Hub
begin

text \<open>
  The state of a \<open>Bridge\<close> (\<open>internal/bridge/bridge.go\<close>), the status it reports, how failures and
  liveness events change it (\<open>setStatusReason\<close>, \<open>fail\<close>, \<open>storageFailure\<close>; \<open>connection\<close> of
  \<open>service.go\<close>) and how provider events reach the store (\<open>persist\<close>, \<open>apply\<close>).

  A wake channel has room for one token and is a flag; \<open>fatal\<close> has room for one error and is an
  option.  \<open>pairCancel\<close> and \<open>pairDone\<close> are set together and cleared together, so both being
  non-nil is one flag, and whether the attempt's context was canceled is another.  The two
  rate-limit maps are functions, a missing entry being Go's zero time.  The clock is the store's.
  Each section the code runs under a mutex is one step.  Logging is left out.
\<close>

section \<open>State\<close>

record connection_event =
  ce_at :: time
  ce_event :: string

record phone_report =
  rp_network :: string
  rp_session :: string
  rp_battery_low :: bool
  rp_push_throttled :: bool

record outage =
  og_since :: time
  og_announced :: bool

record status =
  st_network :: string
  st_state :: string
  st_reason :: string
  st_detail :: string
  st_updated :: time
  st_state_since :: time
  st_transport :: bool
  st_phone :: bool
  st_sync_state :: string
  st_last_sync :: "time option"
  st_session_epoch :: u64
  st_previous_conversations :: i64
  st_previous_messages :: i64
  st_events :: "connection_event list"
  st_report :: phone_report
  st_outage :: "outage option"

definition zero_status :: status where
  "zero_status = \<lparr>st_network = [], st_state = [], st_reason = [], st_detail = [], st_updated = 0,
     st_state_since = 0, st_transport = False, st_phone = False, st_sync_state = [],
     st_last_sync = None, st_session_epoch = 0, st_previous_conversations = 0,
     st_previous_messages = 0, st_events = [],
     st_report = \<lparr>rp_network = [], rp_session = [], rp_battery_low = False, rp_push_throttled = False\<rparr>,
     st_outage = None\<rparr>"

record pairing_state =
  ps_automatic :: bool
  ps_recovery :: "pairing_recovery option"
  ps_qr :: string
  ps_pairing_code :: string
  ps_generation :: u64
  ps_new_phone :: bool
  ps_state :: string
  ps_reason :: string
  ps_can_repair :: bool
  ps_agent_enrolled :: bool
  ps_required :: bool
  ps_required_reason :: string
  ps_ticket :: string
  ps_emoji :: string
  ps_detail :: string
  ps_expires :: time
  ps_session_epoch :: u64
  ps_previous_conversations :: i64
  ps_previous_messages :: i64

definition zero_pairing :: pairing_state where
  "zero_pairing = \<lparr>ps_automatic = False, ps_recovery = None, ps_qr = [], ps_pairing_code = [],
     ps_generation = 0, ps_new_phone = False, ps_state = [], ps_reason = [], ps_can_repair = False,
     ps_agent_enrolled = False, ps_required = False, ps_required_reason = [], ps_ticket = [],
     ps_emoji = [], ps_detail = [], ps_expires = 0, ps_session_epoch = 0,
     ps_previous_conversations = 0, ps_previous_messages = 0\<rparr>"

record bridge =
  b_quarantined :: u64
  b_network :: string
  b_offline_only :: bool
  b_pairing_state :: pairing_state
  b_pair_cookies :: "(string \<times> string) list option"
  b_pair_wake :: bool
  b_pair_running :: bool    \<comment> \<open>\<open>pairCancel\<close> and \<open>pairDone\<close> are set\<close>
  b_pair_canceled :: bool   \<comment> \<open>the attempt's context was canceled\<close>
  b_connected :: bool       \<comment> \<open>\<open>connectionCancel\<close> is set\<close>
  b_interrupted :: bool     \<comment> \<open>the connection's context was canceled\<close>
  b_reconnect_wake :: bool
  b_reconnect_delay :: time
  b_history_wake :: bool
  b_typing_sent :: "string \<Rightarrow> time"
  b_media_requested :: "string \<Rightarrow> time"
  b_store :: store
  b_hub :: hub
  b_fatal :: "go_error option"
  b_status :: status
  b_phone_cause :: string
  b_provider :: bool        \<comment> \<open>\<open>provider\<close> is not nil\<close>
  b_storage_err :: "go_error option"
  b_sync_wake :: bool
  b_full_sync :: bool
  b_send_wake :: bool
  b_stopped :: bool
  b_pairing :: bool
  b_sync_every :: time
  b_done :: bool            \<comment> \<open>the context of the provider's loops has ended\<close>
  b_ended :: bool           \<comment> \<open>the context of the service has ended\<close>

type_synonym 'a bact = "(bridge, 'a) act"

definition now :: "bridge \<Rightarrow> time" where
  "now b = clock (b_store b)"

definition network_of :: "bridge \<Rightarrow> string" where
  "network_of b = (if b_network b = [] then ''google-messages'' else b_network b)"

section \<open>Status\<close>

definition set_state :: "string \<Rightarrow> bridge \<Rightarrow> bridge" where
  "set_state state b = (let st = b_status b;
      st' = (if state \<noteq> st_state st then st\<lparr>st_state_since := now b\<rparr> else st)
    in b\<lparr>b_status := st'\<lparr>st_state := state, st_updated := now b\<rparr>\<rparr>)"

definition notify_hub :: "bridge \<Rightarrow> bridge" where
  "notify_hub b = b\<lparr>b_hub := notify (b_hub b)\<rparr>"

definition set_status_reason :: "string \<Rightarrow> string \<Rightarrow> string \<Rightarrow> bridge \<Rightarrow> bridge" where
  "set_status_reason state reason detail b =
    (let b1 = set_state state b;
         b2 = b1\<lparr>b_status := (b_status b1)\<lparr>st_reason := reason, st_detail := detail\<rparr>\<rparr>;
         b3 = (if state \<noteq> ''connected'' \<and> state \<noteq> ''degraded''
               then b2\<lparr>b_status := (b_status b2)\<lparr>st_transport := False, st_phone := False\<rparr>\<rparr> else b2)
     in notify_hub b3)"

definition set_status :: "string \<Rightarrow> string \<Rightarrow> bridge \<Rightarrow> bridge" where
  "set_status state detail = set_status_reason state [] detail"

definition new_bridge :: "store \<Rightarrow> bridge" where
  "new_bridge s = set_status ''offline'' []
     \<lparr>b_quarantined = 0, b_network = [], b_offline_only = False, b_pairing_state = zero_pairing,
      b_pair_cookies = None, b_pair_wake = False, b_pair_running = False, b_pair_canceled = False,
      b_connected = False, b_interrupted = False, b_reconnect_wake = False,
      b_reconnect_delay = 5 * second, b_history_wake = False, b_typing_sent = (\<lambda>_. 0),
      b_media_requested = (\<lambda>_. 0), b_store = s, b_hub = new_hub, b_fatal = None,
      b_status = zero_status, b_phone_cause = [], b_provider = False, b_storage_err = None,
      b_sync_wake = False, b_full_sync = False, b_send_wake = False, b_stopped = False,
      b_pairing = False, b_sync_every = 5 * minute, b_done = False,
      b_ended = False\<rparr>"

text \<open>\<open>Status()\<close>: a copy with the network, the quarantine note and the session's counts.\<close>

definition status_view :: "bridge \<Rightarrow> status" where
  "status_view b =
    (let st = (b_status b)\<lparr>st_network := network_of b\<rparr>;
         quarantine = decimal (unat (b_quarantined b)) @ '' WhatsApp pending events quarantined'';
         st1 = (if b_quarantined b > 0
                then st\<lparr>st_detail := (if st_detail st \<noteq> [] then st_detail st @ ''; '' else []) @ quarantine\<rparr>
                else st)
     in (case view_tx session_summary (b_store b) of Inl _ \<Rightarrow> st1
         | Inr ss \<Rightarrow> st1\<lparr>st_session_epoch := ss_epoch ss,
              st_previous_conversations := ss_previous_conversations ss,
              st_previous_messages := ss_previous_messages ss\<rparr>))"

section \<open>Failures\<close>

definition failed_state :: "string \<Rightarrow> bool" where
  "failed_state state \<longleftrightarrow> state \<in> {''authentication_required'', ''connection_failed'', ''storage_failed''}"

definition failed :: "bridge \<Rightarrow> bool" where
  "failed b \<longleftrightarrow> failed_state (st_state (b_status b))"

definition stop_provider :: "go_error \<Rightarrow> bridge \<Rightarrow> bridge" where  \<comment> \<open>\<open>fail\<close>\<close>
  "stop_provider e b =
    (let b1 = (if failed b then b
               else set_status ''connection_failed'' ''Provider stopped; restart the service or pair again'' b)
     in (case b_fatal b1 of None \<Rightarrow> b1\<lparr>b_fatal := Some e\<rparr> | Some _ \<Rightarrow> b1))"

definition storage_failure :: "go_error \<Rightarrow> bridge \<Rightarrow> bridge" where
  "storage_failure e b =
    (let b1 = b\<lparr>b_storage_err := Some ErrStorage\<rparr>;
         b2 = set_status ''storage_failed'' ''Database write failed; stop the service and inspect storage'' b1;
         b3 = stop_provider ErrStorage b2
     in b3\<lparr>b_reconnect_wake := True, b_pair_wake := True\<rparr>)"

definition close_handler :: "bridge \<Rightarrow> bridge" where
  "close_handler b = b\<lparr>b_stopped := True\<rparr>"

section \<open>Connection events\<close>

definition max_connection_events :: nat where "max_connection_events = 20"

definition record_event :: "string \<Rightarrow> bridge \<Rightarrow> bridge" where
  "record_event e b =
    (let es = st_events (b_status b);
         kept = (if length es \<ge> max_connection_events
                 then drop (length es - max_connection_events + 1) es else es)
     in b\<lparr>b_status := (b_status b)\<lparr>st_events := kept @ [\<lparr>ce_at = now b, ce_event = e\<rparr>]\<rparr>\<rparr>)"

fun degraded_detail :: "string \<Rightarrow> string" where
  "degraded_detail reason =
    (if reason = ''transport_interrupted'' then ''The connection to Google dropped; reconnecting automatically.''
     else if reason = ''phone_not_responding'' then ''Your phone stopped answering the bridge's pings.''
     else if reason = ''phone_ping_failed'' then ''The bridge could not send pings to your phone.''
     else if reason = ''awaiting_phone'' then ''Waiting for your phone to answer.''
     else [])"

definition connection_reason :: "bool \<Rightarrow> bool \<Rightarrow> string \<Rightarrow> string" where
  "connection_reason transport phone cause =
    (if \<not> transport then ''transport_interrupted''
     else if \<not> phone \<and> cause \<noteq> [] then cause
     else if \<not> phone then ''awaiting_phone''
     else [])"

definition connection :: "string \<Rightarrow> bool \<Rightarrow> bool \<Rightarrow> string \<Rightarrow> bridge \<Rightarrow> bridge" where
  "connection event transport phone cause b =
    (let b1 = record_event event b in
     if failed b1 then b1
     else let
         b2 = (if phone then b1\<lparr>b_phone_cause := []\<rparr>
               else if cause \<noteq> [] then b1\<lparr>b_phone_cause := cause\<rparr> else b1);
         reason = connection_reason transport phone (b_phone_cause b2);
         b3 = b2\<lparr>b_status := (b_status b2)\<lparr>st_transport := transport, st_phone := phone,
                st_reason := reason, st_detail := degraded_detail reason\<rparr>\<rparr>;
         b4 = set_state (if transport \<and> phone then ''connected'' else ''degraded'') b3
       in b4\<lparr>b_send_wake := True\<rparr>)"

definition request_sync :: "bridge \<Rightarrow> bridge" where
  "request_sync b = b\<lparr>b_sync_wake := True\<rparr>"

definition request_full_sync :: "bridge \<Rightarrow> bridge" where
  "request_full_sync b = b\<lparr>b_full_sync := True, b_sync_wake := True\<rparr>"

definition set_provider :: "bool \<Rightarrow> bridge \<Rightarrow> bridge" where
  "set_provider p b = b\<lparr>b_provider := p\<rparr>"

section \<open>Calls into the store\<close>

definition commit_db :: "'a dbtx \<Rightarrow> 'a bact" where
  "commit_db m b = (case update_tx m (b_store b) of (r, s) \<Rightarrow> (r, b\<lparr>b_store := s\<rparr>))"

definition view_db :: "'a dbtx \<Rightarrow> 'a bact" where
  "view_db m b = (view_tx m (b_store b), b)"

text \<open>A provider's result: the public record and the private credentials beside it.\<close>

record provider_snapshot =
  sn_event :: event
  sn_private :: "(string \<times> payload) list"

definition save_snapshot :: "provider_snapshot \<Rightarrow> u64 option \<Rightarrow> unit bact" where
  "save_snapshot snap fence =
     bind_act (try_act (commit_db (apply_tx (sn_event snap) (sn_private snap) fence))) (\<lambda>r. case r of
       Inl e \<Rightarrow> then_act (mod_act (storage_failure e)) (fail_act ErrStorage)
     | Inr changed \<Rightarrow> when_act changed (mod_act notify_hub))"

definition persist :: "provider_snapshot \<Rightarrow> unit bact" where
  "persist snap = save_snapshot snap None"

definition apply_snapshot :: "provider_snapshot \<Rightarrow> u64 \<Rightarrow> unit bact" where
  "apply_snapshot snap fence = save_snapshot snap (Some fence)"

lemma commit_db_Inr: "commit_db m b = (Inr x, b') \<longleftrightarrow>
    (\<exists>s'. m (b_store b) = Inr (x, s') \<and> b' = b\<lparr>b_store := s'\<rparr>)"
  by (auto simp: commit_db_def update_tx_def split: sum.splits prod.splits)

lemma commit_db_Inl: "commit_db m b = (Inl e, b') \<longleftrightarrow> m (b_store b) = Inl e \<and> b' = b"
  by (auto simp: commit_db_def update_tx_def split: sum.splits prod.splits)

lemma commit_db_run [act_runs]:
  "m (b_store b) = Inr (x, s') \<Longrightarrow> commit_db m b = (Inr x, b\<lparr>b_store := s'\<rparr>)"
  "m (b_store b) = Inl e \<Longrightarrow> commit_db m b = (Inl e, b)"
  by (simp_all add: commit_db_Inr commit_db_Inl)

lemma view_db_run [act_runs]:
  "m (b_store b) = Inr (x, s') \<Longrightarrow> view_db m b = (Inr x, b)"
  "m (b_store b) = Inl e \<Longrightarrow> view_db m b = (Inl e, b)"
  by (simp_all add: view_db_def view_tx_def)

section \<open>The store under the bridge\<close>

lemma pure_keeps_store [simp]:
  "b_store (set_state state b) = b_store b"
  "b_store (notify_hub b) = b_store b"
  "b_store (set_status_reason state reason detail b) = b_store b"
  "b_store (set_status state detail b) = b_store b"
  "b_store (stop_provider e b) = b_store b"
  "b_store (storage_failure e b) = b_store b"
  "b_store (close_handler b) = b_store b"
  "b_store (record_event ev b) = b_store b"
  "b_store (connection ev transport phone cause b) = b_store b"
  "b_store (request_sync b) = b_store b"
  "b_store (request_full_sync b) = b_store b"
  "b_store (set_provider p b) = b_store b"
  by (simp_all add: set_state_def notify_hub_def set_status_reason_def set_status_def stop_provider_def
      storage_failure_def close_handler_def record_event_def connection_def request_sync_def
      request_full_sync_def set_provider_def Let_def split: option.splits)

text \<open>
  Every call of the bridge moves the store along its step relation, so what holds of the steps of
  the store holds across the bridge.
\<close>

definition db_runs :: "bridge \<Rightarrow> bridge \<Rightarrow> bool" where
  "db_runs b b' \<longleftrightarrow> store_steps (b_store b) (b_store b')"

interpretation db_runs: act_relation db_runs
  by unfold_locales (auto simp: db_runs_def store_steps_def)

named_theorems db_moves \<open>calls that move the store along its steps\<close>

lemma view_moves [db_moves]: "always db_runs (view_db m)"
  by (simp add: always_def view_db_def db_runs.R_refl)

lemma commit_moves:
  assumes "\<And>s x s'. m s = Inr (x, s') \<Longrightarrow> store_step s s'"
  shows "always db_runs (commit_db m)"
proof (rule alwaysI)
  fix b
  show "db_runs b (snd (commit_db m b))"
  proof (cases "m (b_store b)")
    case (Inr r)
    then obtain x s' where "m (b_store b) = Inr (x, s')" by (cases r) auto
    then show ?thesis
      using assms by (auto simp: commit_db_def update_tx_def db_runs_def store_steps_def)
  qed (simp add: commit_db_def update_tx_def db_runs.R_refl)
qed

lemma mod_moves [db_moves]: "(\<And>b. b_store (f b) = b_store b) \<Longrightarrow> always db_runs (mod_act f)"
  by (simp add: always_def mod_act_def db_runs_def store_steps_def)

lemma commit_steps [db_moves]:
  "always db_runs (commit_db (apply_tx event p fence))"
  "always db_runs (commit_db (read_conversation i through))"
  "always db_runs (commit_db (enqueue i txn req))"
  "always db_runs (commit_db (claim_queued i))"
  "always db_runs (commit_db (cancel_queued i))"
  "always db_runs (commit_db (reject_queued i detail))"
  "always db_runs (commit_db (finish i result detail))"
  "always db_runs (commit_db recover_sending)"
  "always db_runs (commit_db (save_upload up data))"
  "always db_runs (commit_db (finish_conversation i event p n))"
  "always db_runs (commit_db (queue_history h job restart))"
  "always db_runs (commit_db (checkpoint_history h i g prev nxt k detail))"
  "always db_runs (commit_db (fail_history i g detail))"
  "always db_runs (commit_db (begin_pairing_attempt started expires))"
  "always db_runs (commit_db clear_pairing_attempt)"
  "always db_runs (commit_db recover_pairing_attempt)"
  "always db_runs (commit_db adopt_stored_records)"
  "always db_runs (commit_db upgrade_session_metadata)"
  "always db_runs (commit_db (update_pairing_recovery f))"
  "always db_runs (commit_db (save_session data))"
  "always db_runs (commit_db (save_contacts data))"
  "always db_runs (commit_db (put_private i data))"
  "always db_runs (commit_db (put_media i data))"
  "always db_runs (commit_db (bind_network name))"
  by (rule commit_moves, erule store_step.intros)+

lemma save_snapshot_moves [db_moves]:
  "always db_runs (save_snapshot snap fence)"
  "always db_runs (persist snap)"
  "always db_runs (apply_snapshot snap n)"
  unfolding persist_def apply_snapshot_def save_snapshot_def
  by (intro db_runs.rules db_moves; simp)+

end
