(* ===== verification/Validation.thy ===== *)
theory Validation
  imports Model
begin

text \<open>
  What the bridge accepts from its clients: the idempotency keys (\<open>validKey\<close> of
  \<open>internal/bridge/service.go\<close>), phone numbers and \<open>validateRequest\<close> of \<open>features.go\<close>, and the
  file name an upload keeps.  The two regular expressions are anchored and match ASCII only, so
  they are tests on bytes.
\<close>

definition digit :: "char \<Rightarrow> bool" where
  "digit c \<longleftrightarrow> CHR ''0'' \<le> c \<and> c \<le> CHR ''9''"

definition key_char :: "char \<Rightarrow> bool" where
  "key_char c \<longleftrightarrow> digit c \<or> (CHR ''A'' \<le> c \<and> c \<le> CHR ''Z'') \<or> (CHR ''a'' \<le> c \<and> c \<le> CHR ''z'') \<or>
     c = CHR ''_'' \<or> c = CHR ''-''"

text \<open>\<open>^[A-Za-z0-9_-]{16,128}$\<close>\<close>

definition valid_key :: "string \<Rightarrow> bool" where
  "valid_key s \<longleftrightarrow> 16 \<le> length s \<and> length s \<le> 128 \<and> list_all key_char s"

text \<open>\<open>^\+[1-9][0-9]{6,14}$\<close>\<close>

fun phone_number :: "string \<Rightarrow> bool" where
  "phone_number (p # d # ds) \<longleftrightarrow> p = CHR ''+'' \<and> digit d \<and> d \<noteq> CHR ''0'' \<and>
     6 \<le> length ds \<and> length ds \<le> 14 \<and> list_all digit ds"
| "phone_number _ \<longleftrightarrow> False"

definition control_chars :: string where
  "control_chars = [CHR 0x0D, CHR 0x0A, CHR 0x00]"

section \<open>validateRequest\<close>

definition valid_recipients :: "string list \<Rightarrow> bool" where
  "valid_recipients rs \<longleftrightarrow> list_all phone_number rs \<and> distinct_adj rs"

definition validate_conversation :: "send_request \<Rightarrow> go_error + send_request" where
  "validate_conversation r =
    (if q_conversation_id r \<noteq> [] \<or> q_text r \<noteq> [] \<or> q_attachment_ids r \<noteq> [] \<or> q_message_id r \<noteq> [] \<or>
        q_emoji r \<noteq> [] \<or> q_remove r \<or> length (q_recipients r) < 1 \<or> length (q_recipients r) > 20
     then Inl ErrInvalid
     else let group = trim_space (q_group_name r); rs = sort (q_recipients r) in
       if group \<noteq> [] \<and> (length rs < 2 \<or> length group > 100 \<or> \<not> valid_string group \<or>
            contains_any group control_chars)
       then Inl ErrInvalid
       else if \<not> valid_recipients rs then Inl ErrInvalid
       else Inr (r\<lparr>q_group_name := group, q_recipients := rs\<rparr>))"

definition valid_reaction :: "send_request \<Rightarrow> bool" where
  "valid_reaction r \<longleftrightarrow> \<not> (q_message_id r = [] \<or> length (q_message_id r) > 256 \<or>
     trim_space (q_emoji r) = [] \<or> length (q_emoji r) > 64 \<or> \<not> valid_string (q_emoji r) \<or>
     q_text r \<noteq> [] \<or> q_attachment_ids r \<noteq> [])"

definition valid_message :: "send_request \<Rightarrow> bool" where
  "valid_message r \<longleftrightarrow> \<not> (q_kind r \<noteq> [] \<or> q_message_id r \<noteq> [] \<or> q_emoji r \<noteq> [] \<or> q_remove r \<or>
       length (q_text r) > 16000 \<or> \<not> valid_string (q_text r) \<or> length (q_attachment_ids r) > 10) \<and>
     (trim_space (q_text r) = []) \<noteq> (q_attachment_ids r = []) \<and>
     list_all (\<lambda>i. length i = 64) (q_attachment_ids r) \<and> distinct (q_attachment_ids r)"

definition validate_request :: "send_request \<Rightarrow> go_error + send_request" where
  "validate_request req =
    (let r = (if q_kind req = ''message'' then req\<lparr>q_kind := []\<rparr> else req) in
     if q_kind r = ''conversation'' then validate_conversation r
     else if q_conversation_id r = [] \<or> length (q_conversation_id r) > 256 \<or> q_recipients r \<noteq> [] \<or>
       q_group_name r \<noteq> [] then Inl ErrInvalid
     else if q_kind r = ''reaction''
       then (if valid_reaction r then Inr r else Inl ErrInvalid)
     else if valid_message r then Inr r else Inl ErrInvalid)"

section \<open>Upload names\<close>

text \<open>\<open>filepath.Base\<close>: the last element of a path without its trailing slashes.\<close>

definition base_name :: "string \<Rightarrow> string" where
  "base_name path =
    (if path = [] then ''.''
     else let p = trim_right (CHR ''/'') path in
       if p = [] then ''/'' else rev (takeWhile (\<lambda>c. c \<noteq> CHR ''/'') (rev p)))"

definition upload_name :: "string \<Rightarrow> string" where
  "upload_name name = base_name (map (\<lambda>c. if c = CHR 0x5C then CHR ''/'' else c) name)"

definition valid_upload_name :: "string \<Rightarrow> bool" where
  "valid_upload_name name \<longleftrightarrow> name \<noteq> [] \<and> length name \<le> 255 \<and> \<not> contains_any name control_chars"

section \<open>What an accepted request satisfies\<close>

text \<open>A stored name never leads out of its directory.\<close>

lemma base_name_no_slash:
  "CHR ''/'' \<in> set (base_name p) \<Longrightarrow> base_name p = ''/''"
  by (auto simp: base_name_def Let_def split: if_splits dest: set_takeWhileD)

lemma upload_name_chars: "CHR ''/'' \<in> set (upload_name n) \<Longrightarrow> upload_name n = ''/''"
  unfolding upload_name_def by (rule base_name_no_slash)

text \<open>In a sorted list neighbours that differ are enough.\<close>

lemma sorted_distinct_adj:
  "sorted xs \<Longrightarrow> distinct_adj xs \<Longrightarrow> distinct (xs :: 'a :: linorder list)"
  by (induction xs rule: induct_list012) (auto simp: less_le)

lemma valid_recipients_distinct: "valid_recipients (sort rs) \<longleftrightarrow> list_all phone_number rs \<and> distinct rs"
proof -
  have "distinct_adj (sort rs) \<longleftrightarrow> distinct (sort rs)"
    using sorted_distinct_adj [of "sort rs"] by (auto simp: distinct_adj_conv_nth distinct_conv_nth)
  then show ?thesis by (simp add: valid_recipients_def list_all_iff)
qed

lemma phone_number_length: "phone_number n \<Longrightarrow> 8 \<le> length n \<and> length n \<le> 16"
  by (cases n rule: phone_number.cases) auto

lemma validate_request_kind:
  "validate_request req = Inr r \<Longrightarrow> q_kind r \<in> {[], ''conversation'', ''reaction''}"
  by (auto simp: validate_request_def validate_conversation_def valid_message_def Let_def
      split: if_splits)

end
