(* ===== verification/Requests.thy ===== *)
theory Requests
  imports BridgeState Validation
begin

text \<open>
  What clients ask of the bridge: uploads, queueing a send, read marks, typing and attachments
  (\<open>service.go\<close> and \<open>features.go\<close> of \<open>internal/bridge\<close>), and the \<open>Provider\<close> interface those
  calls use (\<open>internal/provider/provider.go\<close>).

  A provider is a record of actions, one per method: it may answer anything and, since other
  goroutines run while it is called, leave the bridge in any state.  Hypotheses on it are stated
  where a property needs them.  Contexts only bound the calls and are left out.  The media type
  parser and SHA-256 are parameters.
\<close>

section \<open>The provider\<close>

record send_target =
  tg_transaction_id :: string
  tg_conversation_id :: string
  tg_media :: "payload list"
  tg_participant_id :: string
  tg_sim :: "string option"

definition zero_target :: send_target where
  "zero_target = \<lparr>tg_transaction_id = [], tg_conversation_id = [], tg_media = [],
     tg_participant_id = [], tg_sim = None\<rparr>"

record provider =
  pv_conversations :: "provider_snapshot list bact"
  pv_messages :: "string \<Rightarrow> provider_snapshot list bact"
  pv_contacts :: "contact list bact"
  pv_create :: "string list \<Rightarrow> string \<Rightarrow> provider_snapshot bact"
  pv_react :: "send_target \<Rightarrow> string \<Rightarrow> string \<Rightarrow> bool \<Rightarrow> unit bact"
  pv_typing :: "send_target \<Rightarrow> unit bact"
  pv_upload :: "payload \<Rightarrow> string \<Rightarrow> string \<Rightarrow> payload bact"
  pv_message_page :: "string \<Rightarrow> payload \<Rightarrow> (provider_snapshot list \<times> payload) bact"
  pv_conversation_page :: "string \<Rightarrow> payload \<Rightarrow> (provider_snapshot list \<times> payload) bact"
  pv_prepare :: "string \<Rightarrow> send_target bact"
  pv_send :: "send_target \<Rightarrow> outbox \<Rightarrow> unit bact"
  pv_mark_read :: "string \<Rightarrow> string \<Rightarrow> unit bact"
  pv_attachment :: "payload \<Rightarrow> payload bact"
  pv_request_media :: "payload \<Rightarrow> unit bact"

text \<open>Every call of a provider relates the bridge before it to the bridge after it.\<close>

definition provider_within :: "(bridge \<Rightarrow> bridge \<Rightarrow> bool) \<Rightarrow> provider \<Rightarrow> bool" where
  "provider_within R p \<longleftrightarrow>
     always R (pv_conversations p) \<and> (\<forall>c. always R (pv_messages p c)) \<and>
     always R (pv_contacts p) \<and> (\<forall>r g. always R (pv_create p r g)) \<and>
     (\<forall>t m e r. always R (pv_react p t m e r)) \<and> (\<forall>t. always R (pv_typing p t)) \<and>
     (\<forall>d n m. always R (pv_upload p d n m)) \<and>
     (\<forall>c d. always R (pv_message_page p c d)) \<and>
     (\<forall>f d. always R (pv_conversation_page p f d)) \<and>
     (\<forall>c. always R (pv_prepare p c)) \<and> (\<forall>t out. always R (pv_send p t out)) \<and>
     (\<forall>c m. always R (pv_mark_read p c m)) \<and> (\<forall>d. always R (pv_attachment p d)) \<and>
     (\<forall>d. always R (pv_request_media p d))"

definition MaxAttachmentBytes :: nat where "MaxAttachmentBytes = 20971520"

definition part_key :: "string \<Rightarrow> string" where
  "part_key attachment = attachment @ ''.part''"

text \<open>The number of bytes of a download; only its size matters to the bridge.\<close>

fun payload_length :: "(json \<Rightarrow> nat) \<Rightarrow> payload \<Rightarrow> nat" where
  "payload_length text (JText j) = text j"
| "payload_length text (Opaque bs) = length bs"

section \<open>Helpers of the handlers\<close>

definition active_pair :: "string \<Rightarrow> bool" where
  "active_pair state \<longleftrightarrow> state \<in> {''scan_qr'', ''enter_pairing_code'', ''waiting_for_login'',
     ''connecting'', ''confirm_on_phone''}"

definition pairing_active :: "bridge \<Rightarrow> bool" where
  "pairing_active b \<longleftrightarrow> active_pair (ps_state (b_pairing_state b))"

definition require_act :: "bool \<Rightarrow> go_error \<Rightarrow> unit bact" where
  "require_act c e = (if c then return_act () else fail_act e)"

definition unless_pairing :: "'a bact \<Rightarrow> 'a bact" where
  "unless_pairing m = bind_act (get_act pairing_active) (\<lambda>active.
     if active then fail_act ErrPairing else m)"

text \<open>\<open>EntityCurrent\<close> and the test that follows it in every handler.\<close>

definition require_current :: "string \<Rightarrow> string \<Rightarrow> unit bact" where
  "require_current kind i = bind_act (view_db (entity_current_tx kind i)) (\<lambda>current.
     require_act current ErrInvalid)"

definition connected :: "bridge \<Rightarrow> bool" where
  "connected b \<longleftrightarrow> b_provider b \<and> st_state (b_status b) = ''connected''"

definition when_connected :: "'a bact \<Rightarrow> 'a bact" where
  "when_connected m = bind_act (get_act connected) (\<lambda>ok. if ok then m else fail_act ErrUnavailable)"

definition find_upload :: "string \<Rightarrow> upload bact" where
  "find_upload i = bind_act (view_db (latest_record ''upload'' i)) (\<lambda>raw.
     lift_act (unmarshal dec_upload raw))"

definition save_upload_act ::
  "(string \<Rightarrow> string option) \<Rightarrow> (json \<Rightarrow> string \<Rightarrow> string) \<Rightarrow> string \<Rightarrow> string \<Rightarrow> string \<Rightarrow> upload bact" where
  "save_upload_act media_type hexsum name content_type data =
    (case media_type content_type of None \<Rightarrow> fail_act ErrInvalid
     | Some typ \<Rightarrow>
       if \<not> valid_upload_name name \<or> data = [] then fail_act ErrInvalid
       else if length data > MaxAttachmentBytes then fail_act ErrTooLarge
       else let base = upload_name name; i = hexsum (JArr [JStr base, JStr typ]) data in
         bind_act (try_act (find_upload i)) (\<lambda>existing. case existing of
           Inr u \<Rightarrow> return_act u
         | Inl e \<Rightarrow> if \<not> errors_is e ErrNotFound then fail_act e
             else bind_act (get_act now) (\<lambda>t.
               let u = \<lparr>u_schema = Schema, u_id = i, u_name = base, u_mime = typ,
                        u_size = of_nat (length data), u_created = t\<rparr> in
               then_act (commit_db (save_upload u (Opaque data)))
               (then_act (mod_act notify_hub) (return_act u)))))"

section \<open>Queueing a send\<close>

text \<open>The conversation a message or reaction goes to must be this phone's and writable.\<close>

definition check_conversation :: "string \<Rightarrow> unit bact" where
  "check_conversation i =
     then_act (require_current ''conversation'' i)
     (bind_act (view_db (latest_record ''conversation'' i)) (\<lambda>raw.
      bind_act (lift_act (unmarshal dec_conversation raw)) (\<lambda>conv.
      require_act (\<not> (c_read_only conv \<or> c_state conv = ''deleted'')) ErrInvalid)))"

definition check_reaction :: "send_request \<Rightarrow> unit bact" where
  "check_reaction req =
     then_act (require_current ''message'' (q_message_id req))
     (bind_act (view_db (latest_record ''message'' (q_message_id req))) (\<lambda>raw.
      case unmarshal dec_message raw of Inl _ \<Rightarrow> fail_act ErrInvalid
      | Inr m \<Rightarrow> require_act
          (\<not> (m_conversation_id m \<noteq> q_conversation_id req \<or> m_deleted m)) ErrInvalid))"

definition attachments_size :: "string list \<Rightarrow> i64 bact" where
  "attachments_size ids = fold_act (\<lambda>i size. bind_act (find_upload i) (\<lambda>u.
     return_act (size + u_size u))) ids 0"

definition check_destination :: "send_request \<Rightarrow> unit bact" where
  "check_destination req =
     then_act (check_conversation (q_conversation_id req))
     (then_act (when_act (q_kind req = ''reaction'') (check_reaction req))
     (bind_act (attachments_size (q_attachment_ids req)) (\<lambda>size.
      require_act (sint size \<le> int MaxAttachmentBytes) ErrTooLarge)))"

text \<open>
  \<open>Queue\<close>, with the transaction id the connector generates.  It runs under \<open>mutationMu\<close>.
\<close>

definition queue_new :: "string \<Rightarrow> string \<Rightarrow> send_request \<Rightarrow> (outbox \<times> bool) bact" where
  "queue_new txn i req =
     then_act (when_act (q_kind req \<noteq> ''conversation'') (check_destination req))
     (bind_act (get_act network_of) (\<lambda>network.
      then_act (require_act (\<not> (network = ''whatsapp'' \<and> length (q_attachment_ids req) > 1)) ErrInvalid)
      (bind_act (commit_db (enqueue i txn req)) (\<lambda>r.
       then_act (mod_act (\<lambda>b. (notify_hub b)\<lparr>b_send_wake := True\<rparr>)) (return_act r)))))"

definition queue_send :: "string \<Rightarrow> string \<Rightarrow> send_request \<Rightarrow> (outbox \<times> bool) bact" where
  "queue_send txn i request = unless_pairing
    (case validate_request request of Inl _ \<Rightarrow> fail_act ErrInvalid
     | Inr req \<Rightarrow>
       if \<not> valid_key i then fail_act ErrInvalid
       else bind_act (try_act (view_db (outbox_get i))) (\<lambda>existing. case existing of
           Inr out \<Rightarrow> if \<not> request_equal (o_request out) req then fail_act ErrConflict
             else return_act (out, False)
         | Inl e \<Rightarrow> if \<not> errors_is e ErrNotFound then fail_act e else queue_new txn i req))"

text \<open>\<open>claimSend\<close>: the last check for a pairing and the claim are one step under \<open>mutationMu\<close>.\<close>

definition claim_send :: "string \<Rightarrow> outbox bact" where
  "claim_send i = unless_pairing (commit_db (claim_queued i))"

section \<open>Media of a send\<close>

definition storage_error :: "'a bact \<Rightarrow> 'a bact" where
  "storage_error m = catch_act m (\<lambda>_. fail_act ErrStorage)"

definition upload_media :: "provider \<Rightarrow> string \<Rightarrow> payload bact" where
  "upload_media p i =
     bind_act (storage_error (find_upload i)) (\<lambda>u.
     bind_act (storage_error (view_db (media_record (''upload:'' @ i)))) (\<lambda>data.
     bind_act (catch_act (pv_upload p data (u_name u) (u_mime u)) (\<lambda>e.
       if errors_is e ErrRejected \<or> errors_is e ErrTooLarge then fail_act ErrRejected
       else fail_act ErrUnavailable)) (\<lambda>raw.
     then_act (storage_error (commit_db (put_private (''upload:'' @ i) raw)))
       (return_act raw))))"

definition prepare_one :: "provider \<Rightarrow> string \<Rightarrow> send_target \<Rightarrow> send_target bact" where
  "prepare_one p i target =
     bind_act (try_act (view_db (private_record (''upload:'' @ i)))) (\<lambda>stored.
     bind_act (case stored of Inr raw \<Rightarrow> return_act raw
       | Inl e \<Rightarrow> if errors_is e ErrNotFound then upload_media p i else fail_act ErrStorage) (\<lambda>raw.
     return_act (target\<lparr>tg_media := tg_media target @ [raw]\<rparr>)))"

definition prepare_media :: "provider \<Rightarrow> send_target \<Rightarrow> send_request \<Rightarrow> send_target bact" where
  "prepare_media p target req = fold_act (prepare_one p) (q_attachment_ids req) target"

section \<open>Read marks, typing, attachments\<close>

definition mark_read_act :: "provider \<Rightarrow> string \<Rightarrow> string \<Rightarrow> unit bact" where
  "mark_read_act p conv i = unless_pairing
    (then_act (require_current ''message'' i)
    (bind_act (view_db (latest_record ''message'' i)) (\<lambda>raw.
     case unmarshal dec_message raw of Inl _ \<Rightarrow> fail_act ErrInvalid
     | Inr m \<Rightarrow>
       if m_conversation_id m \<noteq> conv then fail_act ErrInvalid
       else when_connected
         (then_act (catch_act (pv_mark_read p conv i) (\<lambda>_. fail_act ErrUnavailable))
         (bind_act (try_act (commit_db (read_conversation conv (m_time m)))) (\<lambda>r. case r of
            Inl e \<Rightarrow> then_act (mod_act (storage_failure e)) (fail_act ErrStorage)
          | Inr changed \<Rightarrow> then_act (when_act changed (mod_act notify_hub)) (mod_act request_sync)))))))"

definition typing_window :: time where "typing_window = 4 * second"

definition typing_act :: "provider \<Rightarrow> string \<Rightarrow> unit bact" where
  "typing_act p conv = unless_pairing
    (then_act (require_current ''conversation'' conv)
    (then_act (require_act (conv \<noteq> [] \<and> length conv \<le> 256) ErrInvalid)
    (then_act (view_db (latest_record ''conversation'' conv))
    (when_connected (bind_act (get_act (\<lambda>b. now b - b_typing_sent b conv)) (\<lambda>since.
       if since < typing_window then return_act ()
       else then_act (mod_act (\<lambda>b. b\<lparr>b_typing_sent := (b_typing_sent b)(conv := now b)\<rparr>))
         (bind_act (catch_act (pv_prepare p conv) (\<lambda>_. fail_act ErrUnavailable)) (pv_typing p))))))))"

definition attachment_act :: "(json \<Rightarrow> nat) \<Rightarrow> provider \<Rightarrow> string \<Rightarrow> payload bact" where
  "attachment_act text p i =
    (if length i \<noteq> 64 then fail_act ErrInvalid
     else bind_act (try_act (view_db (media_record i))) (\<lambda>stored. case stored of
         Inr data \<Rightarrow> return_act data
       | Inl e \<Rightarrow>
         if \<not> errors_is e ErrNotFound then fail_act e
         else bind_act (view_db (private_record i)) (\<lambda>metadata.
           bind_act (get_act b_provider) (\<lambda>present.
           if \<not> present then fail_act ErrUnavailable
           else bind_act (pv_attachment p metadata) (\<lambda>data.
             if payload_length text data > MaxAttachmentBytes then fail_act ErrInvalid
             else then_act (commit_db (put_media i data)) (return_act data))))))"

definition request_attachment :: "provider \<Rightarrow> string \<Rightarrow> unit bact" where
  "request_attachment p i =
    (if length i \<noteq> 64 then fail_act ErrInvalid
     else bind_act (view_db (private_record (part_key i))) (\<lambda>part.
       when_connected (bind_act (get_act (\<lambda>b. now b - b_media_requested b i)) (\<lambda>since.
         if since < minute then return_act ()
         else then_act (mod_act (\<lambda>b. b\<lparr>b_media_requested := (b_media_requested b)(i := now b)\<rparr>))
           (catch_act (pv_request_media p part) (\<lambda>e.
              then_act (mod_act (\<lambda>b. b\<lparr>b_media_requested := (b_media_requested b)(i := 0)\<rparr>))
                (fail_act e)))))))"

end
