(* ===== verification/SendLoop.thy ===== *)
theory SendLoop
  imports Requests
begin

text \<open>
  \<open>sendOne\<close> and \<open>sendLoop\<close> of \<open>internal/bridge/service.go\<close>: pick the oldest queued send whose
  destination is ready, claim it durably, hand it to the provider at most once, and record how
  that went.  \<open>sort.Slice\<close> leaves the order of sends created at the same instant open; the model
  keeps their order in the store.  Between two calls of the store the code may be preempted only
  where it calls the provider, whose action may change the bridge.
\<close>

section \<open>sendOne\<close>

definition queued_sends :: "outbox list bact" where
  "queued_sends =
     bind_act (view_db (read_latest ''outbox'')) (\<lambda>records.
     bind_act (fold_act (\<lambda>raw queued. bind_act (lift_act (unmarshal dec_outbox raw)) (\<lambda>item.
       return_act (if o_state item = ''queued'' then queued @ [item] else queued))) records []) (\<lambda>queued.
     return_act (sort_by (\<lambda>x y. o_created x < o_created y) queued)))"

definition prepare_target :: "provider \<Rightarrow> outbox \<Rightarrow> send_target bact" where
  "prepare_target p candidate =
     bind_act (if q_kind (o_request candidate) \<noteq> ''conversation''
               then pv_prepare p (q_conversation_id (o_request candidate))
               else return_act zero_target) (\<lambda>target.
     prepare_media p target (o_request candidate))"

text \<open>The record of a finished attempt, from the kind of request and the provider's answer.\<close>

definition outcome_of :: "string \<Rightarrow> go_error option \<Rightarrow> string \<times> string" where
  "outcome_of kind answer = (case answer of
     None \<Rightarrow> (''accepted'',
       if kind = ''reaction'' then ''Provider accepted the reaction update''
       else ''Provider accepted the request; delivery is not confirmed'')
   | Some e \<Rightarrow>
       if errors_is e ErrRejected
       then (''rejected'', if errors_is e ErrRecipientUnavailable
              then ''Recipient is not registered on this network''
              else ''Provider explicitly rejected the send request'')
       else (''ambiguous'', ''Send outcome unknown; inspect phone before sending again''))"

definition finish_send :: "outbox \<Rightarrow> go_error option \<Rightarrow> bool bact" where
  "finish_send out answer =
    (case outcome_of (q_kind (o_request out)) answer of (result, detail) \<Rightarrow>
       then_act (commit_db (finish (o_id out) result detail))
       (then_act (mod_act (\<lambda>b. request_sync (notify_hub b))) (return_act True)))"

definition answer_of :: "go_error + unit \<Rightarrow> go_error option" where
  "answer_of r = (case r of Inl e \<Rightarrow> Some e | Inr _ \<Rightarrow> None)"

definition dispatch :: "provider \<Rightarrow> send_target \<Rightarrow> outbox \<Rightarrow> u64 \<Rightarrow> bool bact" where
  "dispatch p target out fence = (let req = o_request out in
     if q_kind req = ''conversation'' then
       bind_act (try_act (pv_create p (q_recipients req) (q_group_name req))) (\<lambda>r. case r of
         Inr snap \<Rightarrow>
           then_act (commit_db (finish_conversation (o_id out) (sn_event snap) (sn_private snap) fence))
           (then_act (mod_act (\<lambda>b. request_sync (notify_hub b))) (return_act True))
       | Inl e \<Rightarrow> finish_send out (Some e))
     else if q_kind req = ''reaction'' then
       bind_act (try_act (pv_react p (target\<lparr>tg_transaction_id := o_transaction_id out\<rparr>)
         (q_message_id req) (q_emoji req) (q_remove req))) (\<lambda>r. finish_send out (answer_of r))
     else bind_act (try_act (pv_send p target out)) (\<lambda>r. finish_send out (answer_of r)))"

definition unusable_detail :: string where
  "unusable_detail = ''Conversation has no usable outgoing sender or is read-only''"

text \<open>What becomes of one candidate: pass over it, block its conversation, or end the call.\<close>

datatype candidate_next = Candidate_skip | Candidate_block | Candidate_end bool

definition refuse_candidate :: "outbox \<Rightarrow> candidate_next bact" where
  "refuse_candidate candidate =
     bind_act (try_act (commit_db (reject_queued (o_id candidate) unusable_detail))) (\<lambda>r. case r of
       Inl e \<Rightarrow> if errors_is e ErrConflict then return_act Candidate_skip else fail_act e
     | Inr _ \<Rightarrow> then_act (mod_act notify_hub) (return_act (Candidate_end True)))"

definition claim_and_send :: "provider \<Rightarrow> outbox \<Rightarrow> send_target \<Rightarrow> candidate_next bact" where
  "claim_and_send p candidate target =
     bind_act (view_db history_watermark) (\<lambda>fence.
     bind_act (try_act (claim_send (o_id candidate))) (\<lambda>r. case r of
       Inl e \<Rightarrow> if errors_is e ErrPairing then return_act (Candidate_end False)
         else if errors_is e ErrConflict then return_act Candidate_skip
         else fail_act e
     | Inr out \<Rightarrow> then_act (mod_act notify_hub)
         (bind_act (dispatch p target out fence) (\<lambda>sent. return_act (Candidate_end sent)))))"

definition try_candidate :: "provider \<Rightarrow> outbox \<Rightarrow> candidate_next bact" where
  "try_candidate p candidate =
     bind_act (try_act (prepare_target p candidate)) (\<lambda>prepared.
     bind_act (get_act b_done) (\<lambda>ended.
     if ended then return_act (Candidate_end False)
     else (case prepared of
       Inl e \<Rightarrow> if errors_is e ErrRejected then refuse_candidate candidate
         else if errors_is e ErrStorage then fail_act e
         else return_act Candidate_block
     | Inr target \<Rightarrow> bind_act (get_act pairing_active) (\<lambda>active.
         if active then return_act (Candidate_end False)
         else claim_and_send p candidate target))))"

fun send_candidates :: "provider \<Rightarrow> outbox list \<Rightarrow> string list \<Rightarrow> bool bact" where
  "send_candidates p [] blocked = return_act False"
| "send_candidates p (candidate # rest) blocked =
    (let conv = q_conversation_id (o_request candidate) in
     if conv \<in> set blocked then send_candidates p rest blocked
     else bind_act (try_candidate p candidate) (\<lambda>r. case r of
         Candidate_skip \<Rightarrow> send_candidates p rest blocked
       | Candidate_block \<Rightarrow> send_candidates p rest (conv # blocked)
       | Candidate_end sent \<Rightarrow> return_act sent))"

definition send_one :: "provider \<Rightarrow> bool bact" where
  "send_one p = bind_act (get_act (\<lambda>b. b_provider b \<and> \<not> b_done b)) (\<lambda>ready.
     if \<not> ready then return_act False
     else bind_act queued_sends (\<lambda>queued. send_candidates p queued []))"

section \<open>sendLoop\<close>

text \<open>One turn of the loop: leave it, take the next turn at once, or wait for the ticker or a wake.\<close>

datatype loop_next = Loop_stop | Loop_again | Loop_wait

definition send_turn :: "provider \<Rightarrow> bridge \<Rightarrow> loop_next \<times> bridge" where
  "send_turn p b =
    (if b_done b then (Loop_stop, b)
     else if st_state (b_status b) = ''connected'' then
       (case send_one p b of
          (Inl e, b') \<Rightarrow> (Loop_stop, storage_failure e b')
        | (Inr sent, b') \<Rightarrow> (if sent then Loop_again else Loop_wait, b'))
     else (Loop_wait, b))"

section \<open>The store across a turn\<close>

text \<open>What the other goroutines do while the provider is called are steps of the store too.\<close>

definition provider_moves :: "provider \<Rightarrow> bool" where
  "provider_moves p \<longleftrightarrow> provider_within db_runs p"

lemma provider_movesD [db_moves]:
  assumes "provider_moves p"
  shows "always db_runs (pv_conversations p)" "always db_runs (pv_messages p c)"
    "always db_runs (pv_contacts p)" "always db_runs (pv_create p r g)"
    "always db_runs (pv_react p t m e rm)" "always db_runs (pv_typing p t)"
    "always db_runs (pv_upload p d n mt)" "always db_runs (pv_message_page p c d)"
    "always db_runs (pv_conversation_page p f d)" "always db_runs (pv_prepare p c)"
    "always db_runs (pv_send p t out)" "always db_runs (pv_mark_read p c i)"
    "always db_runs (pv_attachment p d)" "always db_runs (pv_request_media p d)"
  using assms by (simp_all add: provider_moves_def provider_within_def)

lemma require_moves [db_moves]:
  "always db_runs (require_act c e)"
  "always db_runs (require_current kind i)"
  "always db_runs (find_upload i)"
  unfolding require_act_def require_current_def find_upload_def
  by (intro db_runs.rules db_moves; simp)+

lemma guarded_moves [db_moves]:
  "always db_runs m \<Longrightarrow> always db_runs (unless_pairing m)"
  "always db_runs m \<Longrightarrow> always db_runs (when_connected m)"
  "always db_runs m \<Longrightarrow> always db_runs (storage_error m)"
  unfolding unless_pairing_def when_connected_def storage_error_def
  by (intro db_runs.rules db_moves; assumption)+

lemma request_moves [db_moves]:
  "always db_runs (queue_send txn i req)"
  "always db_runs (save_upload_act mt hexsum n c d)"
  "always db_runs (claim_send i)"
  unfolding queue_send_def queue_new_def check_destination_def check_conversation_def
    check_reaction_def attachments_size_def save_upload_act_def claim_send_def Let_def
  by (intro db_runs.rules db_moves; simp)+

lemma media_moves [db_moves]:
  assumes p: "provider_moves p"
  shows "always db_runs (upload_media p i)" "always db_runs (prepare_one p i target)"
    "always db_runs (prepare_media p target req)"
  unfolding upload_media_def prepare_one_def prepare_media_def
  by (intro db_runs.rules db_moves p; simp)+

lemma client_moves [db_moves]:
  assumes p: "provider_moves p"
  shows "always db_runs (mark_read_act p conv i)" "always db_runs (typing_act p conv)"
    "always db_runs (attachment_act text p i)" "always db_runs (request_attachment p i)"
  unfolding mark_read_act_def typing_act_def attachment_act_def request_attachment_def
  by (intro db_runs.rules db_moves p impI conjI; simp add: p db_moves)+

lemma dispatch_moves [db_moves]:
  assumes p: "provider_moves p"
  shows "always db_runs (finish_send out answer)" "always db_runs (prepare_target p candidate)"
    "always db_runs (dispatch p target out fence)"
  unfolding finish_send_def prepare_target_def dispatch_def Let_def
  by (intro db_runs.rules db_moves p; simp)+

lemma queued_sends_moves [db_moves]: "always db_runs queued_sends"
  unfolding queued_sends_def by (intro db_runs.rules db_moves)

lemma candidate_moves [db_moves]:
  assumes p: "provider_moves p"
  shows "always db_runs (refuse_candidate candidate)"
    "always db_runs (claim_and_send p candidate target)" "always db_runs (try_candidate p candidate)"
  unfolding refuse_candidate_def claim_and_send_def try_candidate_def
  by (intro db_runs.rules db_moves p; simp)+

lemma send_candidates_moves [db_moves]:
  assumes p: "provider_moves p"
  shows "always db_runs (send_candidates p queued blocked)"
proof (induction queued arbitrary: blocked)
  case (Cons candidate rest)
  then show ?case
    by (auto simp: Let_def intro!: db_runs.bind candidate_moves p split: candidate_next.split)
qed simp

lemma send_one_moves [db_moves]:
  assumes p: "provider_moves p"
  shows "always db_runs (send_one p)"
  unfolding send_one_def by (intro db_runs.rules db_moves p)

section \<open>At most one attempt\<close>

text \<open>The send is durably claimed: the store holds this very record, and it is being sent.\<close>

definition claimed :: "bridge \<Rightarrow> outbox \<Rightarrow> bool" where
  "claimed b out \<longleftrightarrow> outbox_at (b_store b) (o_id out) = Some out \<and> o_state out = ''sending''"

text \<open>A provider that refuses to act unless the send it is asked for is durably claimed.\<close>

definition cautious_send :: "provider \<Rightarrow> send_target \<Rightarrow> outbox \<Rightarrow> unit bact" where
  "cautious_send p target out b = (if claimed b out then pv_send p target out b else (Inl ErrPanic, b))"

definition cautious_react :: "provider \<Rightarrow> send_target \<Rightarrow> string \<Rightarrow> string \<Rightarrow> bool \<Rightarrow> unit bact" where
  "cautious_react p target i emoji remove b =
    (if \<exists>out. claimed b out \<and> q_kind (o_request out) = ''reaction'' \<and>
        o_transaction_id out = tg_transaction_id target \<and> q_message_id (o_request out) = i \<and>
        q_emoji (o_request out) = emoji \<and> q_remove (o_request out) = remove
     then pv_react p target i emoji remove b else (Inl ErrPanic, b))"

definition cautious_create :: "provider \<Rightarrow> string list \<Rightarrow> string \<Rightarrow> provider_snapshot bact" where
  "cautious_create p recipients name b =
    (if \<exists>out. claimed b out \<and> q_kind (o_request out) = ''conversation'' \<and>
        q_recipients (o_request out) = recipients \<and> q_group_name (o_request out) = name
     then pv_create p recipients name b else (Inl ErrPanic, b))"

definition cautious :: "provider \<Rightarrow> provider" where
  "cautious p = p\<lparr>pv_send := cautious_send p, pv_react := cautious_react p,
     pv_create := cautious_create p\<rparr>"

lemma cautious_simps [simp]:
  "pv_prepare (cautious p) = pv_prepare p" "pv_upload (cautious p) = pv_upload p"
  "pv_send (cautious p) = cautious_send p" "pv_react (cautious p) = cautious_react p"
  "pv_create (cautious p) = cautious_create p"
  by (simp_all add: cautious_def)

lemma dispatch_claimed:
  assumes c: "claimed b out"
  shows "dispatch (cautious p) target out fence b = dispatch p target out fence b"
proof -
  let ?q = "o_request out"
  have "cautious_send p target out b = pv_send p target out b"
    using c by (simp add: cautious_send_def)
  moreover have "q_kind ?q = ''reaction'' \<Longrightarrow>
      cautious_react p (target\<lparr>tg_transaction_id := o_transaction_id out\<rparr>) (q_message_id ?q) (q_emoji ?q)
        (q_remove ?q) b
    = pv_react p (target\<lparr>tg_transaction_id := o_transaction_id out\<rparr>) (q_message_id ?q) (q_emoji ?q)
        (q_remove ?q) b"
    unfolding cautious_react_def by (rule if_P) (use c in auto)
  moreover have "q_kind ?q = ''conversation'' \<Longrightarrow>
      cautious_create p (q_recipients ?q) (q_group_name ?q) b = pv_create p (q_recipients ?q) (q_group_name ?q) b"
    unfolding cautious_create_def by (rule if_P) (use c in auto)
  ultimately show ?thesis
    by (simp add: dispatch_def bind_act_def try_act_def Let_def)
qed

lemma claim_send_Inr:
  "claim_send i b = (Inr out, b') \<longleftrightarrow> \<not> pairing_active b \<and> commit_db (claim_queued i) b = (Inr out, b')"
  by (simp add: claim_send_def unless_pairing_def fail_act_def)

lemma claim_queued_writes:
  assumes "claim_queued i s = Inr (out, s')"
  obtains "write_outbox out s = Inr ((), s')" and "o_state out = ''sending''"
  using assms by (auto simp: claim_queued_def tx_elims Let_def split: if_splits)

lemma claim_send_claims:
  assumes "claim_send i b = (Inr out, b')"
  shows "claimed b' out"
proof -
  from assms obtain s' where run: "claim_queued i (b_store b) = Inr (out, s')" and b': "b' = b\<lparr>b_store := s'\<rparr>"
    by (auto simp: claim_send_Inr commit_db_Inr)
  from run show ?thesis
    by (rule claim_queued_writes) (use write_outbox_Inr(1) in \<open>simp add: claimed_def b'\<close>)
qed

text \<open>Everything but the three mutating calls is the same code on the same provider.\<close>

lemma prepare_cautious [simp]: "prepare_target (cautious p) = prepare_target p"
proof -
  have upload: "upload_media (cautious p) = upload_media p"
    by (simp add: fun_eq_iff upload_media_def)
  have one: "prepare_one (cautious p) = prepare_one p"
    unfolding fun_eq_iff prepare_one_def upload by simp
  show ?thesis
    by (simp add: fun_eq_iff prepare_target_def prepare_media_def one)
qed

lemma bind_act_cong:
  assumes "\<And>x w'. m w = (Inr x, w') \<Longrightarrow> f x w' = g x w'"
  shows "bind_act m f w = bind_act m g w"
  using assms by (auto simp: bind_act_def split: prod.splits sum.splits)

lemma claim_and_send_cautious:
  "claim_and_send (cautious p) candidate target b = claim_and_send p candidate target b"
  unfolding claim_and_send_def
proof (intro bind_act_cong)
  fix fence v r w
  assume "try_act (claim_send (o_id candidate)) v = (Inr r, w)"
  then have run: "claim_send (o_id candidate) v = (r, w)"
    by (auto simp: try_act_def split: prod.splits)
  have "claimed (notify_hub w) out" if "r = Inr out" for out
    using claim_send_claims [of "o_id candidate" v out w] run that by (simp add: claimed_def)
  then show "(case r of
       Inl e \<Rightarrow> if errors_is e ErrPairing then return_act (Candidate_end False)
         else if errors_is e ErrConflict then return_act Candidate_skip else fail_act e
     | Inr out \<Rightarrow> then_act (mod_act notify_hub) (bind_act (dispatch (cautious p) target out fence)
         (\<lambda>sent. return_act (Candidate_end sent)))) w
   = (case r of
       Inl e \<Rightarrow> if errors_is e ErrPairing then return_act (Candidate_end False)
         else if errors_is e ErrConflict then return_act Candidate_skip else fail_act e
     | Inr out \<Rightarrow> then_act (mod_act notify_hub) (bind_act (dispatch p target out fence)
         (\<lambda>sent. return_act (Candidate_end sent)))) w"
    by (auto simp: bind_act_def dispatch_claimed split: sum.split)
qed

lemma try_candidate_cautious: "try_candidate (cautious p) candidate = try_candidate p candidate"
proof
  fix b
  have "claim_and_send (cautious p) candidate target = claim_and_send p candidate target" for target
    by (rule ext) (rule claim_and_send_cautious)
  then show "try_candidate (cautious p) candidate b = try_candidate p candidate b"
    unfolding try_candidate_def prepare_cautious by presburger
qed

lemma send_candidates_cautious:
  "send_candidates (cautious p) queued blocked = send_candidates p queued blocked"
proof (induction queued arbitrary: blocked)
  case (Cons candidate rest)
  show ?case unfolding send_candidates.simps try_candidate_cautious Cons.IH by (rule refl)
qed simp

end
