(* ===== verification/SyncLoop.thy ===== *)
theory SyncLoop
  imports SendLoop
begin

text \<open>
  The two loops that read from the phone: \<open>reconcile\<close> and \<open>syncLoop\<close> of
  \<open>internal/bridge/service.go\<close>, which refresh the recent conversations and back off while the
  phone does not answer, and \<open>QueueHistory\<close>, \<open>historyOne\<close> and \<open>historyLoop\<close> of \<open>history.go\<close>,
  which import older pages.  \<open>h\<close> is the hash of a page cursor.
\<close>

section \<open>reconcile\<close>

definition full_reconcile_every :: time where "full_reconcile_every = 60 * minute"
definition max_sync_backoff :: time where "max_sync_backoff = 30 * minute"

record reconciled =
  rc_snapshot :: payload
  rc_at :: time

text \<open>The map of conversations fetched so far; \<open>None\<close> is the nil map.\<close>

type_synonym seen = "(string \<Rightarrow> reconciled option) option"

text \<open>The map is mutated in place, so it is part of the state and survives an error.\<close>

type_synonym 'a sync_act = "(bridge \<times> seen, 'a) act"

definition on_bridge :: "'a bact \<Rightarrow> 'a sync_act" where
  "on_bridge m w = (case m (fst w) of (r, b) \<Rightarrow> (r, (b, snd w)))"

definition seen_fresh :: "seen \<Rightarrow> string \<Rightarrow> payload \<Rightarrow> time \<Rightarrow> bool" where
  "seen_fresh seen i data t = (case Option.bind seen (\<lambda>m. m i) of
     None \<Rightarrow> False
   | Some prev \<Rightarrow> rc_snapshot prev = data \<and> t - rc_at prev < full_reconcile_every)"

definition mark_seen :: "string \<Rightarrow> payload \<Rightarrow> bridge \<times> seen \<Rightarrow> bridge \<times> seen" where
  "mark_seen i data w = (fst w,
     map_option (\<lambda>m. m(i \<mapsto> \<lparr>rc_snapshot = data, rc_at = now (fst w)\<rparr>)) (snd w))"

definition watermark_act :: "u64 bact" where
  "watermark_act = catch_act (view_db history_watermark) (\<lambda>e.
     then_act (mod_act (storage_failure e)) (fail_act e))"

definition reconcile_one :: "provider \<Rightarrow> u64 \<Rightarrow> provider_snapshot \<Rightarrow> unit sync_act" where
  "reconcile_one p fence c =
    (let i = ev_entity_id (sn_event c); data = ev_data (sn_event c) in
     then_act (on_bridge (apply_snapshot c fence))
     (bind_act (get_act (\<lambda>w. seen_fresh (snd w) i data (now (fst w)))) (\<lambda>fresh.
      if fresh then return_act ()
      else bind_act (on_bridge watermark_act) (\<lambda>mark.
        bind_act (on_bridge (pv_messages p i)) (\<lambda>messages.
        then_act (for_act (\<lambda>m. on_bridge (apply_snapshot m mark)) messages)
          (mod_act (mark_seen i data)))))))"

definition reconcile :: "provider \<Rightarrow> unit sync_act" where
  "reconcile p = bind_act (get_act (\<lambda>w. b_provider (fst w))) (\<lambda>present.
     if \<not> present then fail_act ErrUnavailable
     else bind_act (on_bridge watermark_act) (\<lambda>fence.
       bind_act (on_bridge (pv_conversations p)) (\<lambda>conversations.
       for_act (reconcile_one p fence) conversations)))"

section \<open>syncLoop\<close>

record sync_state =
  sy_seen :: seen
  sy_failures :: nat
  sy_retry_at :: time

definition new_sync :: sync_state where
  "new_sync = \<lparr>sy_seen = Some (\<lambda>_. None), sy_failures = 0, sy_retry_at = 0\<rparr>"

text \<open>
  \<open>min(syncEvery << min(failures-1, 8), maxSyncBackoff)\<close>; with the five minutes of \<open>New\<close> the
  shift stays far below the 63 bits of a \<open>Duration\<close>.
\<close>

definition sync_backoff :: "time \<Rightarrow> nat \<Rightarrow> time" where
  "sync_backoff every failures = min (every * 2 ^ min (failures - 1) 8) max_sync_backoff"

definition sync_due :: "sync_state \<Rightarrow> bridge \<Rightarrow> bool" where
  "sync_due l b \<longleftrightarrow> (let st = b_status b in
     st_transport st \<and> (st_state st = ''connected'' \<or> st_state st = ''degraded'') \<and>
     \<not> (sy_failures l > 0 \<and> \<not> st_phone st \<and> now b < sy_retry_at l \<and> \<not> b_full_sync b))"

definition sync_failed :: "time \<Rightarrow> sync_state \<Rightarrow> bridge \<Rightarrow> sync_state \<times> bridge" where
  "sync_failed started l b =
    (let failures = sy_failures l + 1 in
     (l\<lparr>sy_failures := failures, sy_retry_at := started + sync_backoff (b_sync_every b) failures\<rparr>,
      b\<lparr>b_status := (b_status b)\<lparr>st_sync_state := ''failed''\<rparr>\<rparr>))"

definition sync_reached_phone :: "bridge \<Rightarrow> bridge" where
  "sync_reached_phone b =
    (let b1 = (if \<not> st_phone (b_status b) \<or> st_state (b_status b) \<noteq> ''connected''
               then record_event ''sync_reached_phone'' b else b);
         b2 = set_state ''connected'' b1
     in b2\<lparr>b_phone_cause := [], b_status := (b_status b2)\<lparr>st_phone := True, st_reason := [],
          st_detail := [], st_updated := now b2\<rparr>\<rparr>)"

definition sync_finished :: "time \<Rightarrow> sync_state \<Rightarrow> bridge \<Rightarrow> sync_state \<times> bridge" where
  "sync_finished before l b =
    (let outcome = (if network_of b = ''whatsapp'' then ''metadata_refreshed''
                    else ''recent_window_complete'');
         b1 = b\<lparr>b_status := (b_status b)\<lparr>st_sync_state := outcome, st_last_sync := Some (now b)\<rparr>\<rparr>;
         b2 = (if st_updated (b_status b1) = before \<and> \<not> b_done b1 then sync_reached_phone b1 else b1)
     in (l\<lparr>sy_failures := 0\<rparr>, b2\<lparr>b_send_wake := True, b_history_wake := True\<rparr>))"

text \<open>One turn, after the ticker or a wake.\<close>

definition sync_turn :: "provider \<Rightarrow> sync_state \<Rightarrow> bridge \<Rightarrow> sync_state \<times> bridge" where
  "sync_turn p l b =
    (if b_done b \<or> \<not> sync_due l b then (l, b)
     else let
         started = now b; before = st_updated (b_status b);
         seen = (if b_full_sync b then map_option (\<lambda>_ _. None) (sy_seen l) else sy_seen l);
         b1 = b\<lparr>b_full_sync := False, b_status := (b_status b)\<lparr>st_sync_state := ''running''\<rparr>\<rparr>
       in (case reconcile p (b1, seen) of
            (Inl e, (b2, seen')) \<Rightarrow> sync_failed started (l\<lparr>sy_seen := seen'\<rparr>) b2
          | (Inr _, (b2, seen')) \<Rightarrow> sync_finished before (l\<lparr>sy_seen := seen'\<rparr>) b2))"

section \<open>Imports of older pages\<close>

definition new_job :: "string \<Rightarrow> string \<Rightarrow> history_job" where
  "new_job conversation folder =
    (if conversation \<noteq> []
     then zero_job\<lparr>j_kind := ''messages'', j_conversation_id := conversation,
            j_id := ''messages:'' @ conversation\<rparr>
     else zero_job\<lparr>j_kind := ''conversations'', j_folder := folder, j_id := ''conversations:'' @ folder\<rparr>)"

definition queue_history_act ::
  "(payload \<Rightarrow> string) \<Rightarrow> string \<Rightarrow> string \<Rightarrow> bool \<Rightarrow> history_job bact" where
  "queue_history_act h conversation folder restart =
     then_act
       (if conversation \<noteq> [] then
          then_act (require_current ''conversation'' conversation)
          (then_act (require_act (folder = [] \<and> length conversation \<le> 256) ErrInvalid)
          (then_act (view_db (latest_record ''conversation'' conversation)) (return_act ())))
        else require_act (folder \<in> {''inbox'', ''archive'', ''spam''}) ErrInvalid)
     (bind_act (commit_db (queue_history h (new_job conversation folder) restart)) (\<lambda>job.
      then_act (mod_act (\<lambda>b. (notify_hub b)\<lparr>b_history_wake := True\<rparr>)) (return_act job)))"

definition due_jobs :: "history_job list bact" where
  "due_jobs =
     bind_act (view_db (read_latest ''history'')) (\<lambda>raw.
     bind_act (get_act now) (\<lambda>t.
     bind_act (fold_act (\<lambda>stored jobs. bind_act (lift_act (unmarshal dec_job stored)) (\<lambda>job.
       return_act (if j_state job = ''queued'' \<and> j_retry_at job \<le> t then jobs @ [job] else jobs)))
       raw []) (\<lambda>jobs.
     return_act (sort_by (\<lambda>x y. j_updated x < j_updated y) jobs))))"

definition cursor_refused :: "go_error \<Rightarrow> bool" where
  "cursor_refused e \<longleftrightarrow> errors_is e ErrUnsupportedCursor \<or> errors_is e ErrInvalidCursor \<or>
     errors_is e ErrInvalidFolder"

definition page_failed :: "(payload \<Rightarrow> string) \<Rightarrow> history_job \<Rightarrow> payload \<Rightarrow> go_error \<Rightarrow> unit bact" where
  "page_failed h job cursor e =
     bind_act (try_act (commit_db
       (if cursor_refused e
        then fail_history (j_id job) (j_generation job)
               ''Provider history cursor is unsupported or invalid; import stopped''
        else checkpoint_history h (j_id job) (j_generation job) cursor cursor 0
               ''Phone history unavailable; will retry''))) (\<lambda>r.
     then_act (mod_act notify_hub) (lift_act r))"

definition import_snapshot ::
  "(payload \<Rightarrow> string) \<Rightarrow> history_job \<Rightarrow> u64 \<Rightarrow> provider_snapshot \<Rightarrow> unit bact" where
  "import_snapshot h job fence snap =
    (let e = (sn_event snap)\<lparr>ev_historical := True\<rparr> in
     then_act (apply_snapshot (snap\<lparr>sn_event := e\<rparr>) fence)
     (when_act (j_kind job = ''conversations'')
       (then_act (queue_history_act h (ev_entity_id e) [] False) (return_act ()))))"

definition import_page :: "(payload \<Rightarrow> string) \<Rightarrow> provider \<Rightarrow> history_job \<Rightarrow> unit bact" where
  "import_page h p job =
     bind_act (view_db (history_cursor (j_id job))) (\<lambda>cursor.
     bind_act (view_db history_watermark) (\<lambda>fence.
     bind_act (try_act (if j_kind job = ''messages''
        then pv_message_page p (j_conversation_id job) cursor
        else pv_conversation_page p (j_folder job) cursor)) (\<lambda>page.
     bind_act (get_act b_done) (\<lambda>ended.
     if ended then return_act ()
     else (case page of
       Inl e \<Rightarrow> page_failed h job cursor e
     | Inr (snapshots, next_cursor) \<Rightarrow>
         then_act (for_act (import_snapshot h job fence) snapshots)
         (then_act (commit_db (checkpoint_history h (j_id job) (j_generation job) cursor next_cursor
            (of_nat (length snapshots)) []))
          (mod_act notify_hub)))))))"

definition history_one :: "(payload \<Rightarrow> string) \<Rightarrow> provider \<Rightarrow> unit bact" where
  "history_one h p = bind_act (get_act b_provider) (\<lambda>present.
     if \<not> present then return_act ()
     else bind_act due_jobs (\<lambda>jobs. case jobs of [] \<Rightarrow> return_act () | job # _ \<Rightarrow> import_page h p job))"

definition history_turn :: "(payload \<Rightarrow> string) \<Rightarrow> provider \<Rightarrow> bridge \<Rightarrow> loop_next \<times> bridge" where
  "history_turn h p b =
    (if b_done b then (Loop_stop, b)
     else if st_state (b_status b) \<noteq> ''connected'' then (Loop_wait, b)
     else (case history_one h p b of
         (Inl e, b') \<Rightarrow> (Loop_stop, storage_failure e b')
       | (Inr _, b') \<Rightarrow> (Loop_wait, b')))"

section \<open>The store across a turn\<close>

lemma history_moves [db_moves]:
  assumes p: "provider_moves p"
  shows "always db_runs (queue_history_act h c f restart)" "always db_runs (page_failed h job cursor e)"
    "always db_runs (import_snapshot h job fence snap)" "always db_runs (import_page h p job)"
    "always db_runs (history_one h p)"
proof -
  show q: "always db_runs (queue_history_act h c f restart)" for h c f restart
    unfolding queue_history_act_def by (intro db_runs.rules db_moves; simp)
  show "always db_runs (page_failed h job cursor e)" for job cursor e
    unfolding page_failed_def by (simp only: if_distrib [of commit_db]) (intro db_runs.rules db_moves; simp)
  moreover show s: "always db_runs (import_snapshot h job fence snap)" for job fence snap
    unfolding import_snapshot_def Let_def by (intro db_runs.rules db_moves q)
  ultimately show i: "always db_runs (import_page h p job)" for job
    unfolding import_page_def by (intro db_runs.rules db_moves p; simp)
  have "always db_runs due_jobs"
    unfolding due_jobs_def by (intro db_runs.rules db_moves)
  then show "always db_runs (history_one h p)"
    unfolding history_one_def by (auto intro!: db_runs.rules i split: list.splits)
qed

text \<open>
  A relation on bridges is also one on bridges with the fetched conversations beside them: the
  refresh does to the bridge what its calls do.
\<close>

definition beside :: "(bridge \<Rightarrow> bridge \<Rightarrow> bool) \<Rightarrow> bridge \<times> seen \<Rightarrow> bridge \<times> seen \<Rightarrow> bool" where
  "beside R w w' \<longleftrightarrow> R (fst w) (fst w')"

locale bridge_relation = act_relation R for R :: "bridge \<Rightarrow> bridge \<Rightarrow> bool"

sublocale bridge_relation \<subseteq> refresh: act_relation "beside R"
  by unfold_locales (auto simp: beside_def intro: R_refl R_trans)

context bridge_relation
begin

lemma on_bridge: "always R m \<Longrightarrow> always (beside R) (on_bridge m)"
  by (auto simp: always_def on_bridge_def beside_def split: prod.splits) (metis snd_conv)

lemma on_bridge_success: "on_success R m \<Longrightarrow> on_success (beside R) (on_bridge m)"
  by (auto simp: on_success_def on_bridge_def beside_def split: prod.splits)

lemma mark: "always (beside R) (mod_act (mark_seen i data))"
  by (simp add: always_def mod_act_def beside_def mark_seen_def R_refl)

end

interpretation store_refresh: bridge_relation db_runs ..

lemma watermark_moves [db_moves]: "always db_runs watermark_act"
  unfolding watermark_act_def by (intro db_runs.rules db_moves; simp)

lemma reconcile_moves:
  assumes p: "provider_moves p"
  shows "always (beside db_runs) (reconcile p)"
proof -
  have "always (beside db_runs) (reconcile_one p fence c)" for fence c
    unfolding reconcile_one_def Let_def
    by (intro store_refresh.refresh.rules store_refresh.on_bridge store_refresh.mark db_moves p)
  then show ?thesis
    unfolding reconcile_def by (intro store_refresh.refresh.rules store_refresh.on_bridge db_moves p)
qed

lemma sync_ends_keep_store [simp]:
  "b_store (snd (sync_failed started l b)) = b_store b"
  "b_store (snd (sync_finished before l b)) = b_store b"
  by (simp_all add: sync_failed_def sync_finished_def sync_reached_phone_def Let_def)

lemma sync_turn_moves:
  assumes p: "provider_moves p"
  shows "db_runs b (snd (sync_turn p l b))"
proof (cases "b_done b \<or> \<not> sync_due l b")
  case True
  then show ?thesis by (simp add: sync_turn_def db_runs.R_refl)
next
  case False
  define b1 where "b1 = b\<lparr>b_full_sync := False, b_status := (b_status b)\<lparr>st_sync_state := ''running''\<rparr>\<rparr>"
  define s1 where "s1 = (if b_full_sync b then map_option (\<lambda>_ _. None) (sy_seen l) else sy_seen l)"
  obtain r b2 s2 where run: "reconcile p (b1, s1) = (r, (b2, s2))" by (metis surj_pair)
  then have "store_steps (b_store b) (b_store b2)"
    using always_run [OF reconcile_moves [OF p] run] by (simp add: beside_def db_runs_def b1_def)
  moreover have "b_store (snd (sync_turn p l b)) = b_store b2"
    using False run unfolding sync_turn_def Let_def b1_def [symmetric] s1_def [symmetric]
    by (cases r) simp_all
  ultimately show ?thesis by (simp add: db_runs_def)
qed

end
