(* ===== verification/BridgePairing.thy ===== *)
theory BridgePairing
  imports Requests
begin

text \<open>
  The pairing state machine of \<open>internal/bridge/pairing.go\<close>, the automatic recovery of
  \<open>pairing_recovery.go\<close> and the WhatsApp entry points of \<open>whatsapp.go\<close>.  Random tickets, the hash
  of a history cursor and the pairing attempt itself are parameters; an attempt is an action that
  may return anything and leave the bridge in any state.  One pass of the loop in
  \<open>processPairing\<close> is \<open>pairing_turn\<close>.
\<close>

section \<open>Saved sign-in\<close>

fun as_cookies :: "(string \<times> json) list \<Rightarrow> (string \<times> string) list option" where
  "as_cookies [] = Some []"
| "as_cookies ((k, v) # members) = Option.bind (as_str v []) (\<lambda>x. map_option ((#) (k, x)) (as_cookies members))"

text \<open>The \<open>cookies\<close> member of a stored session; a member named twice keeps its last value.\<close>

fun set_cookies :: "string \<Rightarrow> json \<Rightarrow> (string \<times> string) list \<Rightarrow> (string \<times> string) list option" where
  "set_cookies k v cookies =
    (if k = ''cookies'' then (case v of
        JObj members \<Rightarrow> map_option (\<lambda>cs. rev cs @ cookies) (as_cookies members)
      | JNull \<Rightarrow> Some []
      | _ \<Rightarrow> None)
     else Some cookies)"

definition dec_cookies :: "json \<Rightarrow> (string \<times> string) list option" where
  "dec_cookies = decode_struct set_cookies []"

definition cookie_names :: "(string \<times> bool) list" where
  "cookie_names = [(''SID'', True), (''HSID'', True), (''OSID'', True), (''SSID'', True),
     (''APISID'', True), (''SAPISID'', True), (''__Secure-1PSIDTS'', False)]"

definition cookie :: "(string \<times> string) list \<Rightarrow> string \<Rightarrow> string" where
  "cookie cookies name = (case map_of cookies name of None \<Rightarrow> [] | Some v \<Rightarrow> v)"

definition max_cookie :: nat where "max_cookie = 8192"

definition clean_saved :: "(string \<times> string) list \<Rightarrow> go_error + (string \<times> string) list" where
  "clean_saved cookies =
    (if list_ex (\<lambda>(name, required). (required \<and> cookie cookies name = []) \<or>
          length (cookie cookies name) > max_cookie) cookie_names
     then Inl ErrInvalid
     else Inr (filter (\<lambda>c. snd c \<noteq> []) (map (\<lambda>(name, _). (name, cookie cookies name)) cookie_names)))"

definition saved_pairing_cookies :: "bridge \<Rightarrow> go_error + (string \<times> string) list" where
  "saved_pairing_cookies b = (case view_tx session (b_store b) of
     Inl _ \<Rightarrow> Inl ErrStorage
   | Inr None \<Rightarrow> Inl ErrInvalid
   | Inr (Some data) \<Rightarrow> (case unmarshal dec_cookies data of
       Inl _ \<Rightarrow> Inl ErrInvalid
     | Inr cookies \<Rightarrow> clean_saved cookies))"

section \<open>Status of a pairing\<close>

text \<open>Fields a pairing that ends clears.\<close>

definition end_pairing :: "string \<Rightarrow> string \<Rightarrow> string \<Rightarrow> bridge \<Rightarrow> bridge" where
  "end_pairing state reason detail b = b\<lparr>b_pairing_state := (b_pairing_state b)
     \<lparr>ps_state := state, ps_reason := reason, ps_detail := detail, ps_ticket := [], ps_emoji := [],
      ps_qr := [], ps_pairing_code := []\<rparr>, b_pair_cookies := None\<rparr>"

text \<open>\<open>ClearPairingAttempt\<close> with the failure every caller reports.\<close>

definition clear_attempt :: "bridge \<Rightarrow> bridge" where
  "clear_attempt b = (case commit_db clear_pairing_attempt b of
     (Inl e, b') \<Rightarrow> storage_failure e b' | (Inr _, b') \<Rightarrow> b')"

definition pairing_expired :: "bridge \<Rightarrow> bool" where
  "pairing_expired b \<longleftrightarrow> pairing_active b \<and> \<not> now b < ps_expires (b_pairing_state b)"

definition expire_pairing :: "bridge \<Rightarrow> bridge" where
  "expire_pairing b =
    (if \<not> pairing_expired b then b
     else if b_pair_running b then b\<lparr>b_pair_canceled := True\<rparr>
     else end_pairing ''failed'' ''ticket_expired'' ''Pairing expired; start again'' b)"

definition required_pairing :: "bridge \<Rightarrow> pairing_state" where
  "required_pairing b = (let ps = b_pairing_state b; st = b_status b in
     if \<not> active_pair (ps_state ps) \<and> st_state st = ''authentication_required''
     then ps\<lparr>ps_required := True, ps_required_reason := st_reason st,
             ps_reason := (if ps_reason ps = [] \<or> ps_state ps = ''paired'' then st_reason st
                           else ps_reason ps)\<rparr>
     else ps)"

definition with_summary :: "bridge \<Rightarrow> pairing_state \<Rightarrow> pairing_state" where
  "with_summary b ps = (case view_tx session_summary (b_store b) of Inl _ \<Rightarrow> ps
     | Inr ss \<Rightarrow> ps\<lparr>ps_session_epoch := ss_epoch ss,
         ps_previous_conversations := ss_previous_conversations ss,
         ps_previous_messages := ss_previous_messages ss\<rparr>)"

definition with_sign_in :: "bridge \<Rightarrow> pairing_state \<Rightarrow> pairing_state" where
  "with_sign_in b ps = ps\<lparr>
     ps_can_repair := (case saved_pairing_cookies b of Inl _ \<Rightarrow> False | Inr cs \<Rightarrow> cs \<noteq> []),
     ps_agent_enrolled := (case view_tx pairing_agent_digest (b_store b) of
        Inr (Some (Opaque d)) \<Rightarrow> length d = 32 | _ \<Rightarrow> False)\<rparr>"

definition pairing_status :: "bridge \<Rightarrow> pairing_state \<times> bridge" where
  "pairing_status b =
    (let b1 = expire_pairing b;
         b2 = (if pairing_expired b \<and> \<not> b_pair_running b then clear_attempt b1 else b1);
         ps = with_sign_in b2 (with_summary b2 (required_pairing b1))
     in if network_of b2 \<noteq> ''whatsapp'' then (ps, b2)
        else (case view_tx pairing_recovery_get (b_store b2) of
            Inr rec \<Rightarrow> (ps\<lparr>ps_recovery := Some rec\<rparr>, b2)
          | Inl e \<Rightarrow> (ps, storage_failure e b2)))"

section \<open>Beginning a pairing\<close>

definition request_reconnect :: "bridge \<Rightarrow> bridge" where
  "request_reconnect b = (let b1 = record_event ''reconnect_requested'' b in
     b1\<lparr>b_reconnect_wake := True, b_interrupted := b_interrupted b1 \<or> b_connected b1\<rparr>)"

definition pairing_lifetime :: time where "pairing_lifetime = 10 * minute"

text \<open>The durable marker comes first: without it the pairing does not start.\<close>

definition start_pairing :: "pairing_state \<Rightarrow> (string \<times> string) list option \<Rightarrow> pairing_state bact" where
  "start_pairing ps cookies =
     bind_act (get_act now) (\<lambda>t.
     bind_act (try_act (commit_db (begin_pairing_attempt t (ps_expires ps)))) (\<lambda>r. case r of
       Inl e \<Rightarrow> then_act (mod_act (storage_failure e)) (fail_act e)
     | Inr _ \<Rightarrow> then_act (mod_act (\<lambda>b.
           let b1 = b\<lparr>b_pairing_state := ps,
                 b_pair_cookies := (case cookies of None \<Rightarrow> b_pair_cookies b | Some cs \<Rightarrow> Some cs)\<rparr>
           in (request_reconnect (notify_hub b1))\<lparr>b_pair_wake := True\<rparr>))
         (return_act ps)))"

definition login_state :: "bridge \<Rightarrow> bool \<Rightarrow> string \<Rightarrow> pairing_state" where
  "login_state b new_phone ticket = zero_pairing\<lparr>
     ps_generation := ps_generation (b_pairing_state b) + 1, ps_new_phone := new_phone,
     ps_state := ''waiting_for_login'', ps_ticket := ticket, ps_expires := now b + pairing_lifetime,
     ps_detail := ''Sign in to Google using the pairing helper, then return here''\<rparr>"

definition reuse_state :: "pairing_state \<Rightarrow> pairing_state" where
  "reuse_state ps = ps\<lparr>ps_state := ''connecting'', ps_ticket := [], ps_can_repair := True,
     ps_detail := ''Reconnecting with your saved Google sign-in; keep your phone nearby''\<rparr>"

definition begin_google_pairing ::
  "bool \<Rightarrow> bool \<Rightarrow> go_error + string \<Rightarrow> pairing_state bact" where
  "begin_google_pairing reuse new_phone random =
     bind_act (get_act id) (\<lambda>b. let ps = b_pairing_state b in
     if b_offline_only b then fail_act ErrInvalid
     else if b_pair_running b \<and> \<not> active_pair (ps_state ps) then fail_act ErrPairing
     else if active_pair (ps_state ps) \<and> (\<not> reuse \<or> ps_state ps \<noteq> ''waiting_for_login'')
       then return_act ps
     else bind_act (if reuse then bind_act (lift_act (saved_pairing_cookies b)) (\<lambda>cs. return_act (Some cs))
                    else return_act None) (\<lambda>cookies.
       bind_act (lift_act random) (\<lambda>ticket.
       bind_act (start_pairing
           (if reuse then reuse_state (login_state b new_phone ticket) else login_state b new_phone ticket)
           cookies) return_act)))"

definition whatsapp_pairing_lifetime :: time where "whatsapp_pairing_lifetime = 3 * minute"

definition begin_whatsapp :: "string \<Rightarrow> bool \<Rightarrow> pairing_state bact" where
  "begin_whatsapp phone automatic =
     bind_act (get_act id) (\<lambda>b. let ps = b_pairing_state b in
     if b_offline_only b then fail_act ErrInvalid
     else if active_pair (ps_state ps) then return_act ps
     else if b_pair_running b then fail_act ErrPairing
     else start_pairing (zero_pairing\<lparr>ps_generation := ps_generation ps + 1, ps_new_phone := True,
            ps_state := ''connecting'', ps_automatic := automatic,
            ps_expires := now b + whatsapp_pairing_lifetime, ps_detail := ''Connecting to WhatsApp''\<rparr>)
          (Some [(''phone'', phone)]))"

definition begin_whatsapp_pairing :: "string \<Rightarrow> pairing_state bact" where
  "begin_whatsapp_pairing phone = bind_act (get_act network_of) (\<lambda>network.
     if network \<noteq> ''whatsapp'' then fail_act ErrInvalid
     else if phone \<noteq> [] \<and> \<not> phone_number phone then fail_act ErrInvalid
     else begin_whatsapp phone False)"

definition begin_pairing :: "bool \<Rightarrow> go_error + string \<Rightarrow> pairing_state bact" where
  "begin_pairing new_phone random = bind_act (get_act network_of) (\<lambda>network.
     if network = ''whatsapp'' then begin_whatsapp_pairing []
     else begin_google_pairing False new_phone random)"

definition begin_repairing :: "bool \<Rightarrow> go_error + string \<Rightarrow> pairing_state bact" where
  "begin_repairing new_phone random = bind_act (get_act network_of) (\<lambda>network.
     if network = ''whatsapp'' then fail_act ErrInvalid
     else begin_google_pairing True new_phone random)"

section \<open>Steps of a pairing\<close>

definition clean_submitted :: "(string \<times> string) list \<Rightarrow> go_error + (string \<times> string) list" where
  "clean_submitted cookies = (let known = filter (\<lambda>c. fst c \<in> fst ` set cookie_names) cookies in
     if list_ex (\<lambda>(name, required). required \<and> cookie cookies name = []) cookie_names then Inl ErrInvalid
     else if list_ex (\<lambda>c. length (snd c) > max_cookie) known then Inl ErrInvalid
     else Inr known)"

definition ticket_valid :: "string \<Rightarrow> bridge \<Rightarrow> bool" where
  "ticket_valid ticket b \<longleftrightarrow> (let ps = b_pairing_state b in
     \<not> (ps_state ps \<noteq> ''waiting_for_login'' \<or> now b > ps_expires ps \<or> length ticket \<noteq> 43 \<or>
        ticket \<noteq> ps_ticket ps))"

definition submit_pairing_cookies :: "string \<Rightarrow> (string \<times> string) list \<Rightarrow> unit bact" where
  "submit_pairing_cookies ticket cookies = bind_act (get_act (ticket_valid ticket)) (\<lambda>valid.
     if \<not> valid then fail_act ErrPairingTicket
     else bind_act (lift_act (clean_submitted cookies)) (\<lambda>clean.
       mod_act (\<lambda>b. b\<lparr>b_pair_cookies := Some clean,
         b_pairing_state := (b_pairing_state b)\<lparr>ps_state := ''connecting'', ps_ticket := [],
           ps_detail := ''Contacting Google to pair your phone''\<rparr>,
         b_pair_wake := True\<rparr>)))"

definition cancel_pairing :: "bridge \<Rightarrow> bool \<times> bridge" where
  "cancel_pairing b =
    (if pairing_active b
     then (True, (end_pairing ''canceled'' ''canceled'' ''Pairing canceled'' b)
             \<lparr>b_pair_canceled := b_pair_canceled b \<or> b_pair_running b, b_pair_wake := True\<rparr>)
     else (False, b\<lparr>b_pair_wake := True\<rparr>))"

definition cancel_and_clear :: "bridge \<Rightarrow> bridge" where
  "cancel_and_clear b = (case cancel_pairing b of (changed, b') \<Rightarrow>
     if changed then clear_attempt b' else b')"

definition finish_pairing_reason :: "string \<Rightarrow> string \<Rightarrow> string \<Rightarrow> u64 \<Rightarrow> bridge \<Rightarrow> bridge" where
  "finish_pairing_reason state reason detail generation b =
    notify_hub
     (if ps_generation (b_pairing_state b) \<noteq> generation \<or> \<not> pairing_active b then b
      else clear_attempt (end_pairing state
        (if state = ''failed'' \<and> reason = [] then ''pairing_failed'' else reason) detail b))"

definition finish_pairing :: "string \<Rightarrow> string \<Rightarrow> u64 \<Rightarrow> bridge \<Rightarrow> bridge" where
  "finish_pairing state detail generation = finish_pairing_reason state [] detail generation"

text \<open>The callbacks of an attempt: the emoji to confirm, and WhatsApp's codes.\<close>

definition pairing_emoji :: "u64 \<Rightarrow> string \<Rightarrow> bridge \<Rightarrow> bridge" where
  "pairing_emoji generation emoji b = (let ps = b_pairing_state b in
     if ps_generation ps = generation \<and> ps_state ps = ''connecting''
     then b\<lparr>b_pairing_state := ps\<lparr>ps_state := ''confirm_on_phone'', ps_emoji := emoji,
             ps_detail := ''Choose this emoji in Google Messages on your phone''\<rparr>\<rparr>
     else b)"

definition linked_devices :: string where
  "linked_devices = ''WhatsApp '' @ encode_rune 8594 @ '' Linked devices''"

definition whatsapp_code :: "u64 \<Rightarrow> string \<Rightarrow> string \<Rightarrow> bridge \<Rightarrow> bridge" where
  "whatsapp_code generation kind code b = notify_hub
    (let ps = b_pairing_state b; ps1 = ps\<lparr>ps_qr := [], ps_pairing_code := []\<rparr> in
     if ps_generation ps \<noteq> generation \<or> \<not> active_pair (ps_state ps) then b
     else b\<lparr>b_pairing_state :=
       (if kind = ''qr'' then ps1\<lparr>ps_state := ''scan_qr'', ps_qr := code,
            ps_detail := ''Scan with '' @ linked_devices\<rparr>
        else if kind = ''code'' then ps1\<lparr>ps_state := ''enter_pairing_code'', ps_pairing_code := code,
            ps_detail := ''Enter this code in '' @ linked_devices @ '' '' @ encode_rune 8594 @
              '' Link with phone number''\<rparr>
        else ps1)\<rparr>)"

text \<open>The commit and the cancellation share a fence: both run under \<open>mu\<close>.\<close>

definition commit_paired ::
  "(payload \<Rightarrow> string) \<Rightarrow> bool \<Rightarrow> u64 \<Rightarrow> payload \<Rightarrow> unit bact" where
  "commit_paired h ended generation data = bind_act (get_act b_pairing_state) (\<lambda>ps.
     if ended \<or> (generation \<noteq> 0 \<and> (ps_generation ps \<noteq> generation \<or> \<not> active_pair (ps_state ps)))
     then fail_act ErrCanceled
     else bind_act (try_act (commit_db
         (save_paired_session h data (generation \<noteq> 0 \<and> ps_new_phone ps)))) (\<lambda>r. case r of
       Inl e \<Rightarrow> then_act (mod_act (storage_failure e)) (fail_act ErrStorage)
     | Inr _ \<Rightarrow> when_act (generation \<noteq> 0) (mod_act
         (end_pairing ''paired'' [] ''Phone paired; connecting and loading history''))))"

section \<open>Automatic recovery\<close>

definition recovery_attempts :: i64 where "recovery_attempts = 3"
definition recovery_cooldown :: time where "recovery_cooldown = minute"

definition recovery_eligible :: "status \<Rightarrow> bool" where
  "recovery_eligible st \<longleftrightarrow> st_state st = ''authentication_required'' \<and>
     (st_reason st = ''no_session'' \<or> st_reason st = ''session_expired'')"

definition recovery_storage :: "'a bact \<Rightarrow> 'a bact" where
  "recovery_storage m = catch_act m (\<lambda>e. then_act (mod_act (storage_failure e)) (fail_act ErrStorage))"

definition configured :: "bool \<Rightarrow> string \<Rightarrow> bool \<Rightarrow> pairing_recovery \<Rightarrow> pairing_recovery" where
  "configured enabled phone resume r =
    (let r1 = (if enabled \<and> (resume \<or> \<not> pr_enabled r \<or> phone \<noteq> pr_phone_number r)
               then zero_recovery else r)
     in r1\<lparr>pr_enabled := enabled, pr_phone_number := (if enabled then phone else [])\<rparr>)"

definition configure_pairing_recovery :: "bool \<Rightarrow> string \<Rightarrow> bool \<Rightarrow> unit bact" where
  "configure_pairing_recovery enabled phone resume =
     bind_act (get_act id) (\<lambda>b.
     if network_of b \<noteq> ''whatsapp'' \<or> (enabled \<and> \<not> phone_number phone) then fail_act ErrInvalid
     else if enabled \<and> (pairing_active b \<or> b_pair_running b) then fail_act ErrPairing
     else then_act (recovery_storage (commit_db (update_pairing_recovery (configured enabled phone resume))))
       (mod_act (\<lambda>b. notify_hub
         ((if \<not> enabled \<and> ps_automatic (b_pairing_state b) then cancel_and_clear b else b)
            \<lparr>b_reconnect_wake := True\<rparr>))))"

text \<open>What one call may take from the budget: nothing, the time to wait, or an attempt.\<close>

definition attempt_due :: "time \<Rightarrow> pairing_recovery \<Rightarrow> bool" where
  "attempt_due t r \<longleftrightarrow> pr_enabled r \<and> \<not> pr_paused r \<and> sint (pr_attempts r) < sint recovery_attempts \<and>
     \<not> t < pr_next_attempt r"

definition reserve_attempt :: "time \<Rightarrow> pairing_recovery \<Rightarrow> pairing_recovery" where
  "reserve_attempt t r = (if attempt_due t r
     then r\<lparr>pr_attempts := pr_attempts r + 1,
            pr_next_attempt := t + (whatsapp_pairing_lifetime + recovery_cooldown)\<rparr>
     else r)"

definition attempt_delay :: "time \<Rightarrow> pairing_recovery \<Rightarrow> time" where
  "attempt_delay t r =
    (if pr_enabled r \<and> \<not> pr_paused r \<and> sint (pr_attempts r) < sint recovery_attempts \<and>
        t < pr_next_attempt r
     then pr_next_attempt r - t else 0)"

definition recover_pairing :: "time \<Rightarrow> (bool \<times> time) bact" where
  "recover_pairing t = bind_act (get_act id) (\<lambda>b.
     if network_of b \<noteq> ''whatsapp'' then return_act (False, 0)
     else if \<not> (\<not> b_offline_only b \<and> recovery_eligible (b_status b)) \<or> pairing_active b \<or> b_pair_running b
     then return_act (False, 0)
     else bind_act (recovery_storage (view_db pairing_recovery_get)) (\<lambda>r.
       then_act (recovery_storage (commit_db (update_pairing_recovery (reserve_attempt t))))
       (if \<not> attempt_due t r \<or> pr_phone_number r = [] then return_act (False, attempt_delay t r)
        else then_act (begin_whatsapp (pr_phone_number r) True) (return_act (True, 0)))))"

definition pause_pairing_recovery :: "unit bact" where
  "pause_pairing_recovery = bind_act (get_act network_of) (\<lambda>network.
     if network \<noteq> ''whatsapp'' then return_act ()
     else then_act (recovery_storage (commit_db (update_pairing_recovery (\<lambda>r.
         if pr_enabled r then r\<lparr>pr_paused := True\<rparr> else r))))
       (mod_act notify_hub))"

definition cancel_pairing_act :: "bridge \<Rightarrow> pairing_state \<times> bridge" where
  "cancel_pairing_act b = (case pause_pairing_recovery b of
     (Inl _, b') \<Rightarrow> pairing_status b' | (Inr _, b') \<Rightarrow> pairing_status (cancel_and_clear b'))"

definition adopt_records_act :: "int bact" where
  "adopt_records_act = unless_pairing
     (bind_act (try_act (commit_db adopt_stored_records)) (\<lambda>r. case r of
        Inl e \<Rightarrow> then_act (mod_act (storage_failure e)) (fail_act ErrStorage)
      | Inr adopted \<Rightarrow> then_act (mod_act notify_hub) (return_act adopted)))"

section \<open>Prepare\<close>

text \<open>
  What runs once before the first connection.  \<open>upgrade\<close> is \<open>NormalizeLegacy\<close>, which reads the
  protobuf format of the prototype.
\<close>

definition upgrade_legacy ::
  "(string \<Rightarrow> payload \<Rightarrow> go_error + (provider_snapshot \<times> bool)) \<Rightarrow> string \<Rightarrow> unit bact" where
  "upgrade_legacy upgrade kind =
     bind_act (view_db (read_latest kind)) (\<lambda>records.
     for_act (\<lambda>raw. bind_act (lift_act (upgrade kind raw)) (\<lambda>(snap, legacy).
       if \<not> legacy then return_act ()
       else then_act (commit_db (apply_tx (sn_event snap) (sn_private snap) None)) (return_act ()))) records)"

definition restarted_pairing :: "bridge \<Rightarrow> bridge" where
  "restarted_pairing b = b\<lparr>b_pairing_state := zero_pairing\<lparr>
     ps_generation := ps_generation (b_pairing_state b) + 1, ps_state := ''failed'',
     ps_reason := ''bridge_restarted'',
     ps_detail := ''The bridge restarted during pairing; the previous saved session was kept. Start pairing again''\<rparr>\<rparr>"

definition prepare_bridge ::
  "(string \<Rightarrow> payload \<Rightarrow> go_error + (provider_snapshot \<times> bool)) \<Rightarrow> unit bact" where
  "prepare_bridge upgrade =
     bind_act (commit_db recover_pairing_attempt) (\<lambda>interrupted.
     then_act (when_act interrupted (mod_act restarted_pairing))
     (then_act (commit_db upgrade_session_metadata)
     (then_act (commit_db recover_sending)
     (for_act (upgrade_legacy upgrade) [''message'', ''conversation'']))))"

section \<open>One pass of processPairing\<close>

datatype pairing_next = Pairing_return "go_error option" | Pairing_again | Pairing_wait

definition pausing_reason :: "string \<Rightarrow> bool" where
  "pausing_reason reason \<longleftrightarrow> reason \<in> {''account_banned'', ''temporary_ban'', ''stream_replaced'',
     ''client_outdated'', ''invalid_session''}"

text \<open>How an attempt that returned ends the pairing.  \<open>text\<close> is the error's message.\<close>

definition finish_attempt ::
  "(go_error \<Rightarrow> string) \<Rightarrow> pairing_state \<Rightarrow> go_error + unit \<Rightarrow> bridge \<Rightarrow> go_error option \<times> bridge" where
  "finish_attempt text ps result b =
    (let (outcome, b1) = (if ps_automatic ps \<and> pausing_reason (st_reason (b_status b))
           then (case pause_pairing_recovery b of (Inl e, b') \<Rightarrow> (Inl e, b') | (Inr _, b') \<Rightarrow> (result, b'))
           else (result, b));
         canceled = b_pair_canceled b1 \<or> b_ended b1 \<or> \<not> now b1 < ps_expires ps;
         b2 = b1\<lparr>b_pair_running := False\<rparr>;
         generation = ps_generation ps
     in (case outcome of
       Inl e \<Rightarrow>
         if errors_is e ErrStorage
         then (Some e, finish_pairing ''failed'' ''Could not save pairing'' generation b2)
         else if \<not> now b2 < ps_expires ps
         then (None, finish_pairing_reason ''failed'' ''ticket_expired'' ''Pairing expired; start again'' generation b2)
         else (None, finish_pairing_reason ''failed'' ''provider_failure''
           (if network_of b2 = ''google-messages'' then ''Google pairing failed: '' @ text e
            else ''Pairing failed; start again'') generation b2)
     | Inr _ \<Rightarrow>
         if \<not> now b2 < ps_expires ps
         then (None, finish_pairing_reason ''failed'' ''ticket_expired'' ''Pairing expired; start again'' generation b2)
         else if canceled
         then (None, finish_pairing ''failed'' ''Pairing was canceled before completion'' generation b2)
         else (None, finish_pairing ''paired'' ''Phone paired; connecting and loading history'' generation b2)))"

definition run_attempt ::
  "(go_error \<Rightarrow> string) \<Rightarrow> ((string \<times> string) list option \<Rightarrow> unit bact) \<Rightarrow> pairing_state \<Rightarrow> bridge \<Rightarrow>
   pairing_next \<times> bridge" where
  "run_attempt text attempt ps b =
    (if ps_generation (b_pairing_state b) \<noteq> ps_generation ps \<or> ps_state (b_pairing_state b) \<noteq> ''connecting''
     then (Pairing_again, b)
     else case attempt (b_pair_cookies b) (b\<lparr>b_pair_cookies := None, b_pair_running := True,
              b_pair_canceled := False, b_stopped := False\<rparr>) of
       (result, b1) \<Rightarrow> (case finish_attempt text ps result b1 of
          (err, b2) \<Rightarrow> (Pairing_return err, b2)))"

definition pairing_turn ::
  "(go_error \<Rightarrow> string) \<Rightarrow> ((string \<times> string) list option \<Rightarrow> unit bact) \<Rightarrow> bridge \<Rightarrow>
   pairing_next \<times> bridge" where
  "pairing_turn text attempt b =
    (case b_storage_err b of Some e \<Rightarrow> (Pairing_return (Some e), b)
     | None \<Rightarrow> (case pairing_status b of (ps, b1) \<Rightarrow>
         if \<not> active_pair (ps_state ps) then (Pairing_return None, b1)
         else if b_ended b1 then (Pairing_return None, clear_attempt (snd (cancel_pairing b1)))
         else if now b1 > ps_expires ps
         then (Pairing_return None, finish_pairing ''failed'' ''Pairing expired; start again'' (ps_generation ps) b1)
         else if ps_state ps = ''waiting_for_login'' then (Pairing_wait, b1)
         else run_attempt text attempt ps (b1\<lparr>b_fatal := None\<rparr>)))"

text \<open>What follows a wait: the end of the service cancels, anything else takes the next pass.\<close>

definition pairing_woken :: "bridge \<Rightarrow> pairing_next \<times> bridge" where
  "pairing_woken b =
    (if b_ended b then (Pairing_return None, clear_attempt (snd (cancel_pairing b)))
     else (Pairing_again, b))"

end
