(* ===== verification/Supervisor.thy ===== *)
theory Supervisor
  imports BridgePairing
begin

text \<open>
  \<open>internal/bridge/supervisor.go\<close>, which keeps the service up while the connection fails and
  spaces the reconnects, \<open>waitForAuthentication\<close> of \<open>pairing_recovery.go\<close>, and
  \<open>internal/bridge/outage.go\<close>, which turns the connection's states into outages and decides which
  of them anyone is told about.  \<open>processPairing\<close> and \<open>Run\<close> are actions here; a loop is given by
  one pass and what it does next.
\<close>

section \<open>supervise\<close>

definition max_reconnect_delay :: time where "max_reconnect_delay = 5 * minute"

definition next_delay :: "time \<Rightarrow> time" where
  "next_delay delay = (if delay < max_reconnect_delay
     then (if delay * 2 > max_reconnect_delay then max_reconnect_delay else delay * 2) else delay)"

datatype supervise_next =
    Supervise_return "go_error option"
  | Supervise_again
  | Supervise_auth              \<comment> \<open>\<open>waitForAuthentication\<close>, then the next pass\<close>
  | Supervise_sleep time        \<comment> \<open>wait so long, or for a reconnect request\<close>

definition needs_authentication :: "bridge \<Rightarrow> bool" where
  "needs_authentication b \<longleftrightarrow> st_state (b_status b) = ''authentication_required'' \<or>
     st_reason (b_status b) \<in> {''stream_replaced'', ''temporary_ban'', ''client_outdated''}"

definition connection_stopped :: "bridge \<Rightarrow> bridge" where
  "connection_stopped b = set_status_reason ''connection_failed'' ''transient_connection_failure''
     ''Upstream connection stopped; reconnecting automatically'' (record_event ''connection_stopped'' b)"

text \<open>From starting the connection to deciding what follows its end.\<close>

definition supervise_run :: "unit bact \<Rightarrow> bool \<Rightarrow> time \<Rightarrow> bridge \<Rightarrow> supervise_next \<times> time \<times> bridge" where
  "supervise_run run offline delay b =
    (if pairing_active b then (Supervise_again, delay, b)
     else case run (b\<lparr>b_connected := True, b_interrupted := False\<rparr>) of (result, b1) \<Rightarrow>
       let b2 = b1\<lparr>b_connected := False\<rparr>;
           err = (case result of Inl e \<Rightarrow> Some e | Inr _ \<Rightarrow> None) in
       if (\<exists>e. err = Some e \<and> errors_is e ErrStorage) \<or> offline then (Supervise_return err, delay, b2)
       else if b_ended b2 then (Supervise_return None, delay, b2)
       else if needs_authentication b2 then (Supervise_auth, delay, b2)
       else let wait = (if now b2 - now b > minute then b_reconnect_delay b2 else delay) in
         (Supervise_sleep wait, next_delay wait, connection_stopped b2))"

definition supervise_pass ::
  "unit bact \<Rightarrow> unit bact \<Rightarrow> bool \<Rightarrow> time \<Rightarrow> bridge \<Rightarrow> supervise_next \<times> time \<times> bridge" where
  "supervise_pass process run offline delay b =
    (if b_ended b then (Supervise_return None, delay, b)
     else case b_storage_err b of Some e \<Rightarrow> (Supervise_return (Some e), delay, b)
     | None \<Rightarrow> (case process b of
         (Inl e, b1) \<Rightarrow> (Supervise_return (Some e), delay, b1)
       | (Inr _, b1) \<Rightarrow>
           if b_ended b1 then (Supervise_return None, delay, b1)
           else supervise_run run offline delay (b1\<lparr>b_stopped := False, b_fatal := None\<rparr>)))"

text \<open>The pause between two connections of consecutive passes that end in one.\<close>

datatype auth_next = Auth_return "go_error option" | Auth_sleep time

definition auth_turn :: "bridge \<Rightarrow> auth_next \<times> bridge" where
  "auth_turn b = (case recover_pairing (now b) b of
     (Inl e, b') \<Rightarrow> (Auth_return (Some e), b')
   | (Inr (started, delay), b') \<Rightarrow> (if started then Auth_return None else Auth_sleep delay, b'))"

lemma next_delay_bounds:
  "0 < d \<Longrightarrow> d \<le> max_reconnect_delay \<Longrightarrow> d \<le> next_delay d \<and> next_delay d \<le> max_reconnect_delay"
  by (simp add: next_delay_def)

lemma next_delay_limit: "next_delay max_reconnect_delay = max_reconnect_delay"
  by (simp add: next_delay_def)

section \<open>Outages\<close>

definition outage_notice_after :: time where "outage_notice_after = 15 * minute"
definition outage_settle :: time where "outage_settle = 5 * minute"

definition outage_state :: "string \<Rightarrow> bool" where
  "outage_state state \<longleftrightarrow> state \<in> {''degraded'', ''connecting'', ''connection_failed''}"

definition announce :: "time \<Rightarrow> outage \<Rightarrow> outage option" where
  "announce t og = (if \<not> og_announced og \<and> t - og_since og \<ge> outage_notice_after
     then Some (og\<lparr>og_announced := True\<rparr>) else None)"

definition track_outage ::
  "time \<Rightarrow> bridge \<Rightarrow> (outage option \<times> outage option \<times> time) \<times> bridge" where
  "track_outage t b = (let st = b_status b in
     if outage_state (st_state st) then
       let og = (case st_outage st of None \<Rightarrow> \<lparr>og_since = st_state_since st, og_announced = False\<rparr>
                 | Some og \<Rightarrow> og);
           announced = announce t og;
           current = (case announced of None \<Rightarrow> og | Some og' \<Rightarrow> og')
       in ((announced, None, 0), b\<lparr>b_status := st\<lparr>st_outage := Some current\<rparr>\<rparr>)
     else case st_outage st of
       Some og \<Rightarrow>
         if st_state st = ''connected'' \<and> t - st_state_since st \<ge> outage_settle
         then ((None, Some og, st_state_since st), b\<lparr>b_status := st\<lparr>st_outage := None\<rparr>\<rparr>)
         else ((None, None, 0), b)
     | None \<Rightarrow> ((None, None, 0), b))"

text \<open>
  One tick of \<open>WatchConnection\<close>: the notice to send, if any.  How a time of day and a rounded
  duration are printed is a parameter.
\<close>

definition watch_turn ::
  "(time \<Rightarrow> string) \<Rightarrow> (time \<Rightarrow> string) \<Rightarrow> bridge \<Rightarrow> (string \<times> string) option \<times> bridge" where
  "watch_turn kitchen rounded b =
    (case track_outage (now b) b of ((announced, finished, restored), b1) \<Rightarrow>
      let label = (if network_of b1 = ''whatsapp'' then ''WhatsApp'' else ''Messages'') in
      case announced of
        Some og \<Rightarrow> (Some (label @ '' connection lost'',
            ''Your phone has not been reachable since '' @ kitchen (og_since og) @
            ''. Messages may be delayed until it is.''), notify_hub b1)
      | None \<Rightarrow> (case finished of
          Some og \<Rightarrow>
            if \<not> og_announced og then (None, b1)
            else (Some (label @ '' connection restored'',
                ''Your phone is reachable again after '' @ rounded (restored - og_since og) @ ''.''),
              notify_hub b1)
        | None \<Rightarrow> (None, b1)))"

text \<open>What the current outage, if any, says about the past.\<close>

definition outage_ok :: "time \<Rightarrow> status \<Rightarrow> bool" where
  "outage_ok t st \<longleftrightarrow> (\<forall>og. st_outage st = Some og \<longrightarrow> og_announced og \<longrightarrow>
     t - og_since og \<ge> outage_notice_after)"

lemma track_outage_ok:
  assumes "outage_ok t0 (b_status b)" and "t0 \<le> t" and "track_outage t b = (r, b')"
  shows "outage_ok t (b_status b')"
  using assms
  by (auto simp: track_outage_def outage_ok_def announce_def Let_def split: if_splits option.splits)

end
