(* ===== verification/ProviderEvents.thy ===== *)
theory ProviderEvents
  imports SyncLoop Supervisor
begin

text \<open>
  How the events of the two networks reach the bridge: \<open>Handle\<close>, \<open>phoneAlert\<close> and
  \<open>phoneUnresponsive\<close> of \<open>internal/bridge/google.go\<close>, \<open>WhatsAppFailure\<close>, \<open>Handle\<close> and
  \<open>SetNetwork\<close> of \<open>whatsapp.go\<close>, and the log filter of \<open>libgmlog.go\<close>.  The event types of libgm
  and whatsmeow are datatypes with the fields the handlers read; the conversion of a protobuf
  message to a snapshot and the ingestion of a WhatsApp event are parameters.
\<close>

section \<open>Google Messages\<close>

datatype alert =
    BROWSER_ACTIVE | BROWSER_INACTIVE | BROWSER_INACTIVE_FROM_TIMEOUT
  | BROWSER_INACTIVE_FROM_INACTIVITY | MOBILE_WIFI_CONNECTION | MOBILE_DATA_CONNECTION
  | MOBILE_BATTERY_LOW | MOBILE_BATTERY_RESTORED | PUSH_THROTTLE_STARTED | PUSH_THROTTLING
  | PUSH_THROTTLE_ENDED | DISCONNECTED_FROM_SATELLITE | OTHER_ALERT

text \<open>\<open>strings.ToLower(alert.String())\<close> for the alerts that are recorded.\<close>

fun alert_name :: "alert \<Rightarrow> string" where
  "alert_name BROWSER_ACTIVE = ''browser_active''"
| "alert_name BROWSER_INACTIVE = ''browser_inactive''"
| "alert_name BROWSER_INACTIVE_FROM_TIMEOUT = ''browser_inactive_from_timeout''"
| "alert_name BROWSER_INACTIVE_FROM_INACTIVITY = ''browser_inactive_from_inactivity''"
| "alert_name MOBILE_WIFI_CONNECTION = ''mobile_wifi_connection''"
| "alert_name MOBILE_DATA_CONNECTION = ''mobile_data_connection''"
| "alert_name MOBILE_BATTERY_LOW = ''mobile_battery_low''"
| "alert_name MOBILE_BATTERY_RESTORED = ''mobile_battery_restored''"
| "alert_name PUSH_THROTTLE_STARTED = ''push_throttle_started''"
| "alert_name PUSH_THROTTLING = ''push_throttling''"
| "alert_name PUSH_THROTTLE_ENDED = ''push_throttle_ended''"
| "alert_name DISCONNECTED_FROM_SATELLITE = ''disconnected_from_satellite''"
| "alert_name OTHER_ALERT = []"

fun alert_report :: "alert \<Rightarrow> phone_report \<Rightarrow> phone_report option" where
  "alert_report BROWSER_ACTIVE r = Some (r\<lparr>rp_session := ''active''\<rparr>)"
| "alert_report BROWSER_INACTIVE r = Some (r\<lparr>rp_session := ''inactive''\<rparr>)"
| "alert_report BROWSER_INACTIVE_FROM_TIMEOUT r = Some (r\<lparr>rp_session := ''timed_out''\<rparr>)"
| "alert_report BROWSER_INACTIVE_FROM_INACTIVITY r = Some (r\<lparr>rp_session := ''idle''\<rparr>)"
| "alert_report MOBILE_WIFI_CONNECTION r = Some (r\<lparr>rp_network := ''wifi''\<rparr>)"
| "alert_report MOBILE_DATA_CONNECTION r = Some (r\<lparr>rp_network := ''mobile_data''\<rparr>)"
| "alert_report MOBILE_BATTERY_LOW r = Some (r\<lparr>rp_battery_low := True\<rparr>)"
| "alert_report MOBILE_BATTERY_RESTORED r = Some (r\<lparr>rp_battery_low := False\<rparr>)"
| "alert_report PUSH_THROTTLE_STARTED r = Some (r\<lparr>rp_push_throttled := True\<rparr>)"
| "alert_report PUSH_THROTTLING r = Some (r\<lparr>rp_push_throttled := True\<rparr>)"
| "alert_report PUSH_THROTTLE_ENDED r = Some (r\<lparr>rp_push_throttled := False\<rparr>)"
| "alert_report DISCONNECTED_FROM_SATELLITE r = Some r"
| "alert_report OTHER_ALERT r = None"

definition phone_alert :: "alert \<Rightarrow> bridge \<Rightarrow> bridge" where
  "phone_alert a b = (case alert_report a (st_report (b_status b)) of
     None \<Rightarrow> b
   | Some r \<Rightarrow> notify_hub (record_event (''alert_'' @ alert_name a)
       (b\<lparr>b_status := (b_status b)\<lparr>st_report := r\<rparr>\<rparr>)))"

definition phone_unresponsive :: "string \<Rightarrow> bridge \<Rightarrow> bridge" where
  "phone_unresponsive cause b =
     request_sync (connection cause (st_transport (b_status b)) False cause b)"

definition ingest :: "('m \<Rightarrow> go_error + provider_snapshot) \<Rightarrow> 'm \<Rightarrow> unit bact" where
  "ingest snapshot_of m = (case snapshot_of m of
     Inl e \<Rightarrow> then_act (mod_act (stop_provider e)) (fail_act e)
   | Inr snap \<Rightarrow> persist snap)"

definition snapshot_session :: "go_error + payload \<Rightarrow> unit bact" where
  "snapshot_session auth = (case auth of
     Inl e \<Rightarrow> then_act (mod_act (stop_provider e)) (fail_act e)
   | Inr data \<Rightarrow> bind_act (try_act (commit_db (save_session data))) (\<lambda>r. case r of
         Inl e \<Rightarrow> then_act (mod_act (storage_failure e)) (fail_act ErrStorage)
       | Inr _ \<Rightarrow> return_act ()))"

datatype 'm google_event =
    Wrapped_message bool 'm
  | Changed_record 'm                     \<comment> \<open>\<open>*gmproto.Message\<close> or \<open>*gmproto.Conversation\<close>\<close>
  | User_alert alert
  | Typing_data 'm
  | Client_ready "'m list"
  | Auth_token_refreshed "go_error + payload"
  | Listen_temporary_error
  | Ping_failed
  | Phone_not_responding
  | No_data_received
  | Listen_recovered
  | Phone_responding_again
  | Gaia_logged_out
  | Listen_fatal_error bool               \<comment> \<open>\<open>libgm.IsAuthFailure\<close> of the error\<close>

definition session_expired :: "bridge \<Rightarrow> bridge" where
  "session_expired = set_status_reason ''authentication_required'' ''session_expired''
     ''Your Google Messages phone session expired or was revoked; re-pair to reconnect''"

definition google_event_act ::
  "('m \<Rightarrow> go_error + provider_snapshot) \<Rightarrow> 'm google_event \<Rightarrow> unit bact" where
  "google_event_act snapshot_of e = (case e of
     Wrapped_message old m \<Rightarrow>
       if old then bind_act (lift_act (snapshot_of m)) (\<lambda>snap.
         apply_snapshot (snap\<lparr>sn_event := (sn_event snap)\<lparr>ev_historical := True\<rparr>\<rparr>) 0)
       else ingest snapshot_of m
   | Changed_record m \<Rightarrow> ingest snapshot_of m
   | User_alert a \<Rightarrow> mod_act (phone_alert a)
   | Typing_data m \<Rightarrow> (case snapshot_of m of
       Inl err \<Rightarrow> then_act (mod_act (stop_provider err)) (fail_act err)
     | Inr snap \<Rightarrow> mod_act (\<lambda>b. b\<lparr>b_hub := publish (sn_event snap) (b_hub b)\<rparr>))
   | Client_ready conversations \<Rightarrow>
       then_act (mod_act (connection ''client_ready'' True True []))
       (then_act (for_act (ingest snapshot_of) conversations) (mod_act request_sync))
   | Auth_token_refreshed auth \<Rightarrow> bind_act (get_act b_pairing) (\<lambda>pairing.
       if pairing then return_act () else snapshot_session auth)
   | Listen_temporary_error \<Rightarrow> mod_act (\<lambda>b.
       connection ''listen_temporary_error'' False (st_phone (b_status b)) [] b)
   | Ping_failed \<Rightarrow> mod_act (phone_unresponsive ''phone_ping_failed'')
   | Phone_not_responding \<Rightarrow> mod_act (phone_unresponsive ''phone_not_responding'')
   | No_data_received \<Rightarrow> mod_act (record_event ''no_data_received'')
   | Listen_recovered \<Rightarrow> mod_act (\<lambda>b.
       request_sync (connection ''listen_recovered'' True (st_phone (b_status b)) [] b))
   | Phone_responding_again \<Rightarrow> mod_act (\<lambda>b.
       request_sync (connection ''phone_responding_again'' (st_transport (b_status b)) True [] b))
   | Gaia_logged_out \<Rightarrow> mod_act (\<lambda>b. stop_provider (ErrText ''google session expired; pair again'')
       (session_expired (record_event ''logged_out'' b)))
   | Listen_fatal_error auth_failure \<Rightarrow> mod_act (\<lambda>b.
       let b1 = record_event ''listen_fatal_error'' b in
       stop_provider (ErrText ''google connection failed'')
         (if auth_failure then session_expired b1
          else set_status_reason ''connection_failed'' ''provider_failure''
                 ''Google connection failed; retry the connection'' b1)))"

definition google_handle :: "('m \<Rightarrow> go_error + provider_snapshot) \<Rightarrow> 'm google_event \<Rightarrow> unit bact" where
  "google_handle snapshot_of e = bind_act (get_act b_stopped) (\<lambda>stopped.
     if stopped then fail_act ErrCanceled
     else then_act (google_event_act snapshot_of e) (bind_act (get_act b_storage_err) (\<lambda>err.
       case err of Some e \<Rightarrow> fail_act e | None \<Rightarrow> return_act ())))"

section \<open>WhatsApp\<close>

text \<open>The reasons of a failed connection that are told apart; the rest carry their code.\<close>

datatype connect_failure = Unknown_logout | Failure_outdated | Failure_banned | Other_failure nat

datatype 'm whatsapp_event =
    Logged_out connect_failure
  | Stream_replaced | Temporary_ban | Client_outdated
  | Connect_failure connect_failure
  | Wa_connected
  | Manual_login_reconnect | Stream_error | Keep_alive_timeout
  | Wa_disconnected
  | Pair_success | Pair_error
  | Wa_ingested string 'm                 \<comment> \<open>message, receipt or history\<close>
  | App_state_complete | App_state_error 'm
  | Contact_changed
  | Chat_presence "typing option"         \<comment> \<open>\<open>None\<close>: an address has no canonical form\<close>

fun whatsapp_failure :: "(connect_failure \<Rightarrow> bool) \<Rightarrow> 'm whatsapp_event \<Rightarrow> (string \<times> string) option" where
  "whatsapp_failure is_logged_out (Logged_out r) = Some (''authentication_required'',
     if r = Unknown_logout then ''account_banned'' else ''session_expired'')"
| "whatsapp_failure is_logged_out Stream_replaced = Some (''connection_failed'', ''stream_replaced'')"
| "whatsapp_failure is_logged_out Temporary_ban = Some (''connection_failed'', ''temporary_ban'')"
| "whatsapp_failure is_logged_out Client_outdated = Some (''connection_failed'', ''client_outdated'')"
| "whatsapp_failure is_logged_out (Connect_failure r) = Some
    (if r = Unknown_logout then (''authentication_required'', ''account_banned'')
     else if r = Failure_outdated then (''connection_failed'', ''client_outdated'')
     else if is_logged_out r then (''authentication_required'', ''session_expired'')
     else if r = Failure_banned then (''connection_failed'', ''temporary_ban'')
     else (''connection_failed'', ''provider_failure''))"
| "whatsapp_failure is_logged_out _ = None"

text \<open>
  The handler, with what \<open>Ingest\<close> and the retry of an app state do, and the one-place channel
  on which the pairing waits (\<open>paired\<close>).
\<close>

definition whatsapp_event_act ::
  "(string \<Rightarrow> 'm \<Rightarrow> unit bact) \<Rightarrow> ('m \<Rightarrow> unit bact) \<Rightarrow> 'm whatsapp_event \<Rightarrow> unit bact" where
  "whatsapp_event_act ingested retry e = (case e of
     Wa_connected \<Rightarrow> mod_act (\<lambda>b. request_sync (connection ''connected'' True True [] b))
   | Manual_login_reconnect \<Rightarrow> mod_act (stop_provider (ErrText ''WhatsApp connection interrupted''))
   | Stream_error \<Rightarrow> mod_act (stop_provider (ErrText ''WhatsApp connection interrupted''))
   | Keep_alive_timeout \<Rightarrow> mod_act (stop_provider (ErrText ''WhatsApp connection interrupted''))
   | Wa_disconnected \<Rightarrow> mod_act (stop_provider (ErrText ''WhatsApp disconnected''))
   | Wa_ingested kind m \<Rightarrow> ingested kind m
   | App_state_complete \<Rightarrow> mod_act request_sync
   | App_state_error m \<Rightarrow> retry m
   | Contact_changed \<Rightarrow> mod_act request_sync
   | Chat_presence t \<Rightarrow> (case t of None \<Rightarrow> return_act ()
       | Some ty \<Rightarrow> mod_act (\<lambda>b. b\<lparr>b_hub := publish (zero_event\<lparr>ev_type := ''typing'',
            ev_entity_id := t_conversation_id ty, ev_data := JText (enc_typing ty)\<rparr>) (b_hub b)\<rparr>))
   | _ \<Rightarrow> return_act ())"

definition paired_answer :: "'m whatsapp_event \<Rightarrow> (go_error option) option \<Rightarrow> (go_error option) option" where
  "paired_answer e paired = (case paired of Some r \<Rightarrow> Some r
     | None \<Rightarrow> (case e of Pair_success \<Rightarrow> Some None
         | Pair_error \<Rightarrow> Some (Some (ErrText ''WhatsApp pairing failed'')) | _ \<Rightarrow> None))"

definition whatsapp_handle ::
  "(connect_failure \<Rightarrow> bool) \<Rightarrow> (string \<Rightarrow> 'm \<Rightarrow> unit bact) \<Rightarrow> ('m \<Rightarrow> unit bact) \<Rightarrow> 'm whatsapp_event \<Rightarrow>
   unit bact" where
  "whatsapp_handle is_logged_out ingested retry e = bind_act (get_act b_stopped) (\<lambda>stopped.
     if stopped then fail_act ErrCanceled
     else case whatsapp_failure is_logged_out e of
       Some (state, reason) \<Rightarrow> mod_act (\<lambda>b. stop_provider (ErrText ''WhatsApp connection stopped'')
         (set_status_reason state reason ''WhatsApp connection requires attention'' b))
     | None \<Rightarrow> whatsapp_event_act ingested retry e)"

definition set_network :: "string \<Rightarrow> unit bact" where
  "set_network network =
    (if network \<noteq> ''google-messages'' \<and> network \<noteq> ''whatsapp'' then fail_act ErrInvalid
     else then_act (commit_db (bind_network network)) (mod_act (\<lambda>b. b\<lparr>b_network := network\<rparr>)))"

section \<open>The filtered log\<close>

definition libgm_log_fields :: "string set" where
  "libgm_log_fields = {''level'', ''time'', ''message'', ''error'', ''action_type'',
     ''message_action'', ''request_id'', ''request_message_id'', ''response_message_id'',
     ''message_id'', ''message_ids'', ''conv_id'', ''is_old'', ''ping_id'', ''duration'',
     ''timeout_count'', ''urgent'', ''reason'', ''liveness_source'', ''not_responding_sent'',
     ''skip_count'', ''sleep_seconds'', ''listen_id'', ''bugle_default'', ''answered_after''}"

text \<open>A Go map is written with its keys in order; a member read twice has its last value.\<close>

definition go_map_members :: "(string \<times> json) list \<Rightarrow> (string \<times> json) list" where
  "go_map_members members = map (\<lambda>k. (k, the (map_of (rev members) k)))
     (sorted_list_of_set (fst ` set members))"

fun libgm_log_line :: "payload \<Rightarrow> json option" where
  "libgm_log_line (JText (JObj members)) =
     Some (JObj (filter (\<lambda>m. fst m \<in> libgm_log_fields) (go_map_members members)))"
| "libgm_log_line (JText JNull) = Some JNull"
| "libgm_log_line _ = None"

section \<open>The store across an event\<close>

lemma ingest_moves [db_moves]:
  "always db_runs (ingest f m)" "always db_runs (snapshot_session auth)"
  unfolding ingest_def snapshot_session_def by (intro db_runs.rules db_moves; simp)+

lemma event_keeps_store [simp]:
  "b_store (phone_alert a b) = b_store b" "b_store (phone_unresponsive cause b) = b_store b"
  "b_store (session_expired b) = b_store b"
  by (simp_all add: phone_alert_def phone_unresponsive_def session_expired_def split: option.split)

lemma google_event_moves [db_moves]: "always db_runs (google_event_act f e)"
  by (cases e) (auto simp: google_event_act_def Let_def intro!: db_runs.rules db_moves split: sum.split)

lemma google_handle_moves [db_moves]: "always db_runs (google_handle f e)"
  unfolding google_handle_def by (intro db_runs.rules db_moves)

lemma whatsapp_handle_moves [db_moves]:
  assumes "\<And>k m. always db_runs (ingested k m)" and "\<And>m. always db_runs (retry m)"
  shows "always db_runs (whatsapp_handle f ingested retry e)"
proof -
  have "always db_runs (whatsapp_event_act ingested retry e)"
    by (cases e) (auto simp: whatsapp_event_act_def intro!: db_runs.rules db_moves assms split: option.split)
  then show ?thesis
    by (auto simp: whatsapp_handle_def intro!: db_runs.rules db_moves split: option.split prod.split)
qed

end
