(* ===== verification/Contacts.thy ===== *)
theory Contacts
  imports Requests
begin

text \<open>
  \<open>internal/bridge/contacts.go\<close>: the address book with its stored copy, the order of the picker,
  and the recipients behind a conversation.  \<open>strings.ToLower\<close> is a parameter.
\<close>

definition contacts_fresh :: time where "contacts_fresh = 15 * minute"

definition empty_book :: contact_book where
  "empty_book = zero_book\<lparr>b_schema := Schema\<rparr>"

definition stored_contacts :: "contact_book bact" where
  "stored_contacts = bind_act (view_db contacts) (\<lambda>raw. case raw of
     None \<Rightarrow> return_act empty_book
   | Some data \<Rightarrow> (case unmarshal dec_book data of
       Inl _ \<Rightarrow> return_act empty_book
     | Inr book \<Rightarrow> return_act book))"

section \<open>The order of the picker\<close>

definition contact_key :: "(string \<Rightarrow> string) \<Rightarrow> contact \<Rightarrow> string" where
  "contact_key lower c = (if k_name c \<noteq> [] then lower (k_name c) else k_address c)"

definition contact_less :: "(string \<Rightarrow> string) \<Rightarrow> contact \<Rightarrow> contact \<Rightarrow> bool" where
  "contact_less lower x y =
    (if k_frequent x \<noteq> k_frequent y then k_frequent x
     else if contact_key lower x \<noteq> contact_key lower y then contact_key lower x < contact_key lower y
     else k_address x < k_address y)"

definition sort_contacts :: "(string \<Rightarrow> string) \<Rightarrow> contact list \<Rightarrow> contact list" where
  "sort_contacts lower cs = sort_by (contact_less lower) cs"

interpretation picker: strict_weak "contact_less lower" for lower
proof unfold_locales
  show "\<not> contact_less lower x x" for x
    by (simp add: contact_less_def)
  show "contact_less lower x z" if "contact_less lower x y" "contact_less lower y z" for x y z
    using that unfolding contact_less_def
    by (cases "k_frequent x"; cases "k_frequent y"; cases "k_frequent z")
      (auto split: if_splits dest: less_trans)
  show "contact_less lower x y \<or> contact_less lower y z" if "contact_less lower x z" for x y z
    using that unfolding contact_less_def
    by (cases "k_frequent x"; cases "k_frequent y"; cases "k_frequent z")
      (auto split: if_splits simp: not_less order.order_iff_strict)
qed

section \<open>Reading the address book\<close>

definition stale_book :: "contact_book \<Rightarrow> go_error \<Rightarrow> contact_book bact" where
  "stale_book stored cause =
    (if b_updated stored = 0 then fail_act cause else return_act (stored\<lparr>b_stale := True\<rparr>))"

definition save_book :: "contact_book \<Rightarrow> contact_book bact" where
  "save_book book = bind_act (try_act (commit_db (save_contacts (JText (enc_book book))))) (\<lambda>r. case r of
     Inl e \<Rightarrow> then_act (mod_act (storage_failure e)) (return_act book)
   | Inr _ \<Rightarrow> return_act book)"

definition contacts_act :: "(string \<Rightarrow> string) \<Rightarrow> provider \<Rightarrow> bool \<Rightarrow> contact_book bact" where
  "contacts_act lower p refresh =
     bind_act stored_contacts (\<lambda>stored.
     bind_act (get_act (\<lambda>b. \<not> refresh \<and> b_updated stored \<noteq> 0 \<and> now b - b_updated stored < contacts_fresh)) (\<lambda>fresh.
     if fresh then return_act stored
     else bind_act (get_act pairing_active) (\<lambda>pairing.
     if pairing then stale_book stored ErrPairing
     else bind_act (get_act connected) (\<lambda>ready.
     if \<not> ready then stale_book stored ErrUnavailable
     else bind_act (try_act (pv_contacts p)) (\<lambda>found. case found of
         Inl _ \<Rightarrow> stale_book stored ErrUnavailable
       | Inr cs \<Rightarrow> bind_act (get_act now) (\<lambda>t.
           save_book \<lparr>b_schema = Schema, b_contacts = sort_contacts lower cs, b_updated = t,
                      b_stale = False\<rparr>))))))"

section \<open>Recipients\<close>

definition self_addresses :: "participant list \<Rightarrow> string set" where
  "self_addresses ps = p_address ` set (filter (\<lambda>p. p_is_me p \<and> p_address p \<noteq> []) ps)"

text \<open>The loop over the participants, with the addresses collected so far.\<close>

fun recipients_loop :: "string set \<Rightarrow> participant list \<Rightarrow> string list \<Rightarrow> go_error + string list" where
  "recipients_loop self [] found = Inr found"
| "recipients_loop self (p # ps) found =
    (if p_is_me p \<or> p_address p \<in> self \<or> p_address p \<in> set found then recipients_loop self ps found
     else if p_address p = [] then Inl ErrNoAddress
     else recipients_loop self ps (found @ [p_address p]))"

definition conversation_recipients :: "string \<Rightarrow> string list bact" where
  "conversation_recipients i = bind_act (view_db (latest_record ''conversation'' i)) (\<lambda>raw.
     bind_act (lift_act (unmarshal dec_conversation raw)) (\<lambda>conv.
     lift_act (recipients_loop (self_addresses (c_participants conv)) (c_participants conv) [])))"

lemma recipients_loop_Inr:
  "recipients_loop self ps found = Inr rs \<Longrightarrow> distinct found \<Longrightarrow> [] \<notin> set found \<Longrightarrow>
   distinct rs \<and> [] \<notin> set rs \<and>
   set rs = set found \<union> {p_address p |p. p \<in> set ps \<and> \<not> p_is_me p \<and> p_address p \<notin> self}"
  by (induction self ps found rule: recipients_loop.induct) (auto split: if_splits)

lemma recipients_loop_Inl:
  "recipients_loop self ps found = Inl e \<Longrightarrow> e = ErrNoAddress \<and>
   (\<exists>p \<in> set ps. \<not> p_is_me p \<and> p_address p = [])"
  by (induction self ps found rule: recipients_loop.induct) (auto split: if_splits)

end
