(* ===== verification/Service.thy ===== *)
theory Service
  imports ProviderEvents Contacts
begin

text \<open>
  The bridge as one system: \<open>service_step\<close> collects what its loops, its handlers and its clients
  do, each as one step, and the invariants that hold however they interleave.  A call of the
  provider inside a step may leave the bridge in any state the hypotheses on the provider allow,
  so a step does not exclude what other goroutines do while it waits for the network.
\<close>

section \<open>The store across a pairing\<close>

lemma pairing_keeps_store [simp]:
  "b_store (end_pairing state reason detail b) = b_store b"
  "b_store (expire_pairing b) = b_store b"
  "b_store (request_reconnect b) = b_store b"
  "b_store (snd (cancel_pairing b)) = b_store b"
  "b_store (pairing_emoji generation emoji b) = b_store b"
  "b_store (whatsapp_code generation kind code b) = b_store b"
  by (simp_all add: end_pairing_def expire_pairing_def request_reconnect_def cancel_pairing_def
      pairing_emoji_def whatsapp_code_def Let_def)

lemma same_store: "b_store b' = b_store b \<Longrightarrow> db_runs b b'"
  by (simp add: db_runs_def store_steps_def)

lemma db_runs_cong: "b_store a' = b_store a \<Longrightarrow> b_store b' = b_store b \<Longrightarrow> db_runs a b \<Longrightarrow> db_runs a' b'"
  by (simp add: db_runs_def)

lemma clear_attempt_moves: "db_runs b (clear_attempt b)"
proof -
  obtain r b' where run: "commit_db clear_pairing_attempt b = (r, b')" by fastforce
  then have "db_runs b b'" by (rule always_run [OF commit_steps(15)])
  then show ?thesis
    using run by (cases r) (simp_all add: clear_attempt_def db_runs_def)
qed

lemma cancel_and_clear_moves: "db_runs b (cancel_and_clear b)"
proof -
  have "cancel_and_clear b = (if fst (cancel_pairing b) then clear_attempt (snd (cancel_pairing b))
      else snd (cancel_pairing b))"
    by (simp add: cancel_and_clear_def split_beta)
  moreover have "db_runs b (snd (cancel_pairing b))" by (rule same_store) simp
  ultimately show ?thesis
    using clear_attempt_moves db_runs.R_trans by presburger
qed

lemma pairing_status_moves: "db_runs b (snd (pairing_status b))"
proof -
  define b2 where "b2 = (if pairing_expired b \<and> \<not> b_pair_running b then clear_attempt (expire_pairing b)
    else expire_pairing b)"
  have "db_runs b (expire_pairing b)" by (rule same_store) simp
  then have "db_runs b b2"
    unfolding b2_def using clear_attempt_moves db_runs.R_trans by presburger
  moreover have "b_store (snd (pairing_status b)) = b_store b2"
    unfolding pairing_status_def Let_def b2_def [symmetric] by (simp split: sum.split)
  ultimately show ?thesis by (simp add: db_runs_def)
qed

lemma recovery_moves [db_moves]:
  assumes "always db_runs m"
  shows "always db_runs (recovery_storage m)"
  unfolding recovery_storage_def by (intro db_runs.rules db_moves assms; simp)

lemma mod_runs: "(\<And>b. db_runs b (f b)) \<Longrightarrow> always db_runs (mod_act f)"
  by (simp add: always_def mod_act_def)

lemma pairing_moves [db_moves]:
  "always db_runs (start_pairing ps cookies)"
  "always db_runs (begin_whatsapp phone automatic)"
  "always db_runs (begin_google_pairing reuse new_phone random)"
  "always db_runs (submit_pairing_cookies ticket cs)"
  "always db_runs pause_pairing_recovery"
  "always db_runs adopt_records_act"
  "always db_runs (recover_pairing t)"
  subgoal unfolding start_pairing_def by (intro db_runs.rules db_moves; simp add: Let_def)
  subgoal unfolding begin_whatsapp_def start_pairing_def Let_def
    by (intro db_runs.rules db_moves; simp add: Let_def)
  subgoal unfolding begin_google_pairing_def start_pairing_def Let_def
    by (intro db_runs.rules db_moves; simp add: Let_def)
  subgoal unfolding submit_pairing_cookies_def by (intro db_runs.rules db_moves; simp)
  subgoal unfolding pause_pairing_recovery_def by (intro db_runs.rules db_moves; simp)
  subgoal unfolding adopt_records_act_def by (intro db_runs.rules db_moves; simp)
  subgoal unfolding recover_pairing_def begin_whatsapp_def start_pairing_def Let_def
    by (intro db_runs.rules db_moves; simp add: Let_def)
  done

lemma begin_moves [db_moves]:
  "always db_runs (begin_whatsapp_pairing phone)"
  "always db_runs (begin_pairing new_phone random)"
  "always db_runs (begin_repairing new_phone random)"
  "always db_runs (configure_pairing_recovery enabled phone resume)"
  subgoal unfolding begin_whatsapp_pairing_def by (intro db_runs.rules db_moves)
  subgoal unfolding begin_pairing_def begin_whatsapp_pairing_def by (intro db_runs.rules db_moves)
  subgoal unfolding begin_repairing_def by (intro db_runs.rules db_moves)
  subgoal unfolding configure_pairing_recovery_def
    by (intro db_runs.rules db_moves mod_runs)
      (use cancel_and_clear_moves in \<open>simp add: db_runs_def store_steps_def\<close>)
  done

lemma contacts_moves [db_moves]:
  assumes p: "provider_moves p"
  shows "always db_runs (contacts_act lower p refresh)"
  unfolding contacts_act_def stored_contacts_def stale_book_def save_book_def
  by (intro db_runs.rules db_moves p; simp)

section \<open>What the status says\<close>

text \<open>
  The status never claims a live link it does not have: connected means transport and phone, and
  in every other state but degraded both are off.  The list of connection events stays bounded,
  and the hub's subscriptions stay consistent.
\<close>

definition status_ok :: "status \<Rightarrow> bool" where
  "status_ok st \<longleftrightarrow> length (st_events st) \<le> max_connection_events \<and>
     (st_state st = ''connected'' \<longrightarrow> st_transport st \<and> st_phone st) \<and>
     (st_transport st \<or> st_phone st \<longrightarrow> st_state st = ''connected'' \<or> st_state st = ''degraded'')"

definition bridge_ok :: "bridge \<Rightarrow> bool" where
  "bridge_ok b \<longleftrightarrow> status_ok (b_status b) \<and> hub_ok (b_hub b)"

definition ok_runs :: "bridge \<Rightarrow> bridge \<Rightarrow> bool" where
  "ok_runs b b' \<longleftrightarrow> (bridge_ok b \<longrightarrow> bridge_ok b')"

interpretation ok_runs: act_relation ok_runs
  by unfold_locales (auto simp: ok_runs_def)

named_theorems ok_moves \<open>calls that keep the status and the hub consistent\<close>

lemma bridge_ok_frame [simp]:
  "bridge_ok (b\<lparr>b_store := s\<rparr>) = bridge_ok b" "bridge_ok (b\<lparr>b_fatal := f\<rparr>) = bridge_ok b"
  "bridge_ok (b\<lparr>b_storage_err := se\<rparr>) = bridge_ok b" "bridge_ok (b\<lparr>b_send_wake := w\<rparr>) = bridge_ok b"
  "bridge_ok (b\<lparr>b_sync_wake := w\<rparr>) = bridge_ok b" "bridge_ok (b\<lparr>b_full_sync := w\<rparr>) = bridge_ok b"
  "bridge_ok (b\<lparr>b_history_wake := w\<rparr>) = bridge_ok b" "bridge_ok (b\<lparr>b_pair_wake := w\<rparr>) = bridge_ok b"
  "bridge_ok (b\<lparr>b_reconnect_wake := w\<rparr>) = bridge_ok b"
  "bridge_ok (b\<lparr>b_pairing_state := ps\<rparr>) = bridge_ok b"
  "bridge_ok (b\<lparr>b_pair_cookies := cs\<rparr>) = bridge_ok b" "bridge_ok (b\<lparr>b_pair_canceled := w\<rparr>) = bridge_ok b"
  "bridge_ok (b\<lparr>b_interrupted := w\<rparr>) = bridge_ok b" "bridge_ok (b\<lparr>b_typing_sent := ty\<rparr>) = bridge_ok b"
  "bridge_ok (b\<lparr>b_media_requested := ty\<rparr>) = bridge_ok b" "bridge_ok (b\<lparr>b_phone_cause := pc\<rparr>) = bridge_ok b"
  by (simp_all add: bridge_ok_def)

lemma status_ok_frame [simp]:
  "status_ok (st\<lparr>st_updated := t\<rparr>) = status_ok st" "status_ok (st\<lparr>st_state_since := t\<rparr>) = status_ok st"
  "status_ok (st\<lparr>st_reason := r\<rparr>) = status_ok st" "status_ok (st\<lparr>st_detail := r\<rparr>) = status_ok st"
  "status_ok (st\<lparr>st_sync_state := r\<rparr>) = status_ok st" "status_ok (st\<lparr>st_last_sync := l\<rparr>) = status_ok st"
  "status_ok (st\<lparr>st_report := rp\<rparr>) = status_ok st" "status_ok (st\<lparr>st_outage := og\<rparr>) = status_ok st"
  by (simp_all add: status_ok_def)

lemma notify_ok [simp]: "bridge_ok b \<Longrightarrow> bridge_ok (notify_hub b)"
  by (simp add: bridge_ok_def notify_hub_def hub_ok_ops)

lemma record_event_ok [simp]: "bridge_ok b \<Longrightarrow> bridge_ok (record_event e b)"
  by (auto simp: bridge_ok_def status_ok_def record_event_def max_connection_events_def Let_def)

lemma status_reason_ok [simp]:
  "bridge_ok b \<Longrightarrow> state \<notin> {''connected'', ''degraded''} \<Longrightarrow> bridge_ok (set_status_reason state reason detail b)"
  by (auto simp: set_status_reason_def set_state_def Let_def bridge_ok_def status_ok_def notify_hub_def
      hub_ok_ops)

lemma set_status_ok [simp]:
  "bridge_ok b \<Longrightarrow> state \<notin> {''connected'', ''degraded''} \<Longrightarrow> bridge_ok (set_status state detail b)"
  by (simp add: set_status_def)

lemma failure_ok [simp]:
  "bridge_ok b \<Longrightarrow> bridge_ok (stop_provider e b)"
  "bridge_ok b \<Longrightarrow> bridge_ok (storage_failure e b)"
proof -
  show s: "bridge_ok b \<Longrightarrow> bridge_ok (stop_provider e b)" for e b
    by (simp add: stop_provider_def Let_def split: option.split)
  show "bridge_ok b \<Longrightarrow> bridge_ok (storage_failure e b)"
    by (simp add: storage_failure_def Let_def s)
qed

lemma connection_ok [simp]: "bridge_ok b \<Longrightarrow> bridge_ok (connection event transport phone cause b)"
proof -
  assume ok: "bridge_ok b"
  have "bridge_ok (record_event event b)" using ok by simp
  then show ?thesis
    by (simp add: connection_def Let_def set_state_def bridge_ok_def status_ok_def)
qed

lemma request_ok [simp]:
  "bridge_ok (request_sync b) = bridge_ok b" "bridge_ok (request_full_sync b) = bridge_ok b"
  by (simp_all add: request_sync_def request_full_sync_def)

lemma view_ok [ok_moves]: "always ok_runs (view_db m)"
  by (simp add: always_def view_db_def ok_runs_def)

lemma commit_ok [ok_moves]: "always ok_runs (commit_db m)"
  by (auto simp: always_def commit_db_def ok_runs_def split: prod.splits)

lemma mod_ok [ok_moves]: "(\<And>b. bridge_ok b \<Longrightarrow> bridge_ok (f b)) \<Longrightarrow> always ok_runs (mod_act f)"
  by (simp add: always_def mod_act_def ok_runs_def)

lemma snapshot_ok [ok_moves]:
  "always ok_runs (save_snapshot snap fence)" "always ok_runs (persist snap)"
  "always ok_runs (apply_snapshot snap n)"
  unfolding persist_def apply_snapshot_def save_snapshot_def
  by (intro ok_runs.rules ok_moves; simp)+

definition provider_keeps :: "provider \<Rightarrow> bool" where
  "provider_keeps p \<longleftrightarrow> provider_within ok_runs p"

lemma provider_keepsD [ok_moves]:
  assumes "provider_keeps p"
  shows "always ok_runs (pv_conversations p)" "always ok_runs (pv_messages p c)"
    "always ok_runs (pv_contacts p)" "always ok_runs (pv_create p r g)"
    "always ok_runs (pv_react p t m e rm)" "always ok_runs (pv_typing p t)"
    "always ok_runs (pv_upload p d n mt)" "always ok_runs (pv_message_page p c d)"
    "always ok_runs (pv_conversation_page p f d)" "always ok_runs (pv_prepare p c)"
    "always ok_runs (pv_send p t out)" "always ok_runs (pv_mark_read p c i)"
    "always ok_runs (pv_attachment p d)" "always ok_runs (pv_request_media p d)"
  using assms by (simp_all add: provider_keeps_def provider_within_def)

lemma require_ok [ok_moves]:
  "always ok_runs (require_act c e)" "always ok_runs (require_current kind i)"
  "always ok_runs (find_upload i)" "always ok_runs queued_sends" "always ok_runs due_jobs"
  "always ok_runs watermark_act"
  unfolding require_act_def require_current_def find_upload_def queued_sends_def due_jobs_def watermark_act_def
  by (intro ok_runs.rules ok_moves; simp)+

lemma guarded_ok [ok_moves]:
  "always ok_runs m \<Longrightarrow> always ok_runs (unless_pairing m)"
  "always ok_runs m \<Longrightarrow> always ok_runs (when_connected m)"
  "always ok_runs m \<Longrightarrow> always ok_runs (storage_error m)"
  unfolding unless_pairing_def when_connected_def storage_error_def
  by (intro ok_runs.rules ok_moves; assumption)+

lemma requests_ok [ok_moves]:
  "always ok_runs (queue_send txn i req)"
  "always ok_runs (save_upload_act mt hexsum n c d)"
  "always ok_runs (claim_send i)"
  "always ok_runs (queue_history_act h c f restart)"
  "always ok_runs (page_failed h job cursor e)"
  unfolding queue_send_def queue_new_def check_destination_def check_conversation_def
    check_reaction_def attachments_size_def save_upload_act_def claim_send_def Let_def
    queue_history_act_def page_failed_def
  by (intro ok_runs.rules ok_moves; simp)+

lemma media_ok [ok_moves]:
  assumes p: "provider_keeps p"
  shows "always ok_runs (upload_media p i)" "always ok_runs (prepare_one p i target)"
    "always ok_runs (prepare_media p target req)"
  unfolding upload_media_def prepare_one_def prepare_media_def
  by (intro ok_runs.rules ok_moves p; simp)+

lemma client_ok [ok_moves]:
  assumes p: "provider_keeps p"
  shows "always ok_runs (mark_read_act p conv i)" "always ok_runs (typing_act p conv)"
    "always ok_runs (attachment_act text p i)" "always ok_runs (request_attachment p i)"
    "always ok_runs (contacts_act lower p refresh)"
  unfolding mark_read_act_def typing_act_def attachment_act_def request_attachment_def
    contacts_act_def stored_contacts_def stale_book_def save_book_def
  by (intro ok_runs.rules ok_moves p impI conjI; simp add: p ok_moves)+

lemma dispatch_ok [ok_moves]:
  assumes p: "provider_keeps p"
  shows "always ok_runs (finish_send out answer)" "always ok_runs (prepare_target p candidate)"
    "always ok_runs (dispatch p target out fence)"
  unfolding finish_send_def prepare_target_def dispatch_def Let_def
  by (intro ok_runs.rules ok_moves p; simp)+

lemma candidate_ok [ok_moves]:
  assumes p: "provider_keeps p"
  shows "always ok_runs (refuse_candidate candidate)"
    "always ok_runs (claim_and_send p candidate target)" "always ok_runs (try_candidate p candidate)"
  unfolding refuse_candidate_def claim_and_send_def try_candidate_def
  by (intro ok_runs.rules ok_moves p; simp)+

lemma send_candidates_ok [ok_moves]:
  assumes p: "provider_keeps p"
  shows "always ok_runs (send_candidates p queued blocked)"
proof (induction queued arbitrary: blocked)
  case (Cons candidate rest)
  then show ?case
    by (auto simp: Let_def intro!: ok_runs.bind candidate_ok p split: candidate_next.split)
qed simp

lemma send_one_ok [ok_moves]:
  assumes p: "provider_keeps p"
  shows "always ok_runs (send_one p)"
  unfolding send_one_def by (intro ok_runs.rules ok_moves p)

lemma history_ok [ok_moves]:
  assumes p: "provider_keeps p"
  shows "always ok_runs (import_snapshot h job fence snap)" "always ok_runs (import_page h p job)"
    "always ok_runs (history_one h p)"
proof -
  show s: "always ok_runs (import_snapshot h job fence snap)" for job fence snap
    unfolding import_snapshot_def Let_def by (intro ok_runs.rules ok_moves)
  show i: "always ok_runs (import_page h p job)" for job
    unfolding import_page_def by (intro ok_runs.rules ok_moves p s; simp)
  show "always ok_runs (history_one h p)"
    unfolding history_one_def by (auto intro!: ok_runs.rules ok_moves i split: list.splits)
qed

section \<open>A refresh that reaches the phone\<close>

text \<open>
  The end of a refresh declares the phone reachable when the status did not change meanwhile, which
  the code tells by its time.  That is sound when the times of status changes move forward.
\<close>

definition steady_runs :: "bridge \<Rightarrow> bridge \<Rightarrow> bool" where
  "steady_runs b b' \<longleftrightarrow> st_updated (b_status b) \<le> st_updated (b_status b') \<and>
     (st_updated (b_status b') = st_updated (b_status b) \<longrightarrow>
        st_transport (b_status b') = st_transport (b_status b))"

interpretation steady_runs: act_relation steady_runs
  by unfold_locales (auto simp: steady_runs_def)

interpretation steady_refresh: bridge_relation steady_runs ..

definition provider_steady :: "provider \<Rightarrow> bool" where
  "provider_steady p \<longleftrightarrow> on_success steady_runs (pv_conversations p) \<and>
     (\<forall>c. on_success steady_runs (pv_messages p c))"

lemma steady_calls:
  "on_success steady_runs (view_db m)" "on_success steady_runs (commit_db m)"
  "on_success steady_runs (mod_act notify_hub)"
  by (auto simp: on_success_def view_db_def commit_db_def mod_act_def steady_runs_def notify_hub_def
      split: prod.splits)

lemma snapshot_steady: "on_success steady_runs (apply_snapshot snap n)"
proof -
  have "on_success steady_runs (try_act (commit_db m))" for m :: "bool dbtx"
    by (auto simp: on_success_def try_act_def commit_db_def steady_runs_def split: prod.splits)
  moreover have "on_success steady_runs (when_act c (mod_act notify_hub))" for c
    using steady_calls(3) by (auto simp: when_act_def intro: always_on_success)
  ultimately show ?thesis
    unfolding apply_snapshot_def save_snapshot_def by (intro steady_runs.success_rules)
qed

lemma watermark_steady: "on_success steady_runs watermark_act"
  unfolding watermark_act_def
  by (intro on_success_catch steady_calls steady_runs.success_rules) (simp add: view_db_def)

lemma reconcile_steady:
  assumes "provider_steady p"
  shows "on_success (beside steady_runs) (reconcile p)"
proof -
  have p: "on_success steady_runs (pv_conversations p)" "on_success steady_runs (pv_messages p c)" for c
    using assms by (simp_all add: provider_steady_def)
  note keep = steady_refresh.on_bridge_success p snapshot_steady watermark_steady
    always_on_success [OF steady_refresh.mark] steady_refresh.refresh.success_rules
    always_on_success [OF steady_refresh.refresh.get] always_on_success [OF steady_refresh.refresh.return]
  have "on_success (beside steady_runs) (reconcile_one p fence c)" for fence c
    unfolding reconcile_one_def Let_def by (intro keep)
  then show ?thesis
    unfolding reconcile_def by (intro keep)
qed

interpretation ok_refresh: bridge_relation ok_runs ..

lemma reconcile_ok:
  assumes p: "provider_keeps p"
  shows "always (beside ok_runs) (reconcile p)"
proof -
  have "always (beside ok_runs) (reconcile_one p fence c)" for fence c
    unfolding reconcile_one_def Let_def
    by (intro ok_refresh.refresh.rules ok_refresh.on_bridge ok_refresh.mark ok_moves p)
  then show ?thesis
    unfolding reconcile_def by (intro ok_refresh.refresh.rules ok_refresh.on_bridge ok_moves p)
qed

lemma sync_finished_ok:
  assumes ok: "bridge_ok b" and same: "st_updated (b_status b) = before \<Longrightarrow> st_transport (b_status b)"
  shows "bridge_ok (snd (sync_finished before l b))"
  using assms record_event_ok [of b]
  by (auto simp: sync_finished_def sync_reached_phone_def set_state_def Let_def bridge_ok_def
      status_ok_def record_event_def max_connection_events_def)

lemma sync_turn_ok:
  assumes "provider_keeps p" and "provider_steady p"
  shows "ok_runs b (snd (sync_turn p l b))"
proof (cases "b_done b \<or> \<not> sync_due l b")
  case True
  then show ?thesis by (simp add: sync_turn_def ok_runs_def)
next
  case False
  define b1 where "b1 = b\<lparr>b_full_sync := False, b_status := (b_status b)\<lparr>st_sync_state := ''running''\<rparr>\<rparr>"
  define s1 where "s1 = (if b_full_sync b then map_option (\<lambda>_ _. None) (sy_seen l) else sy_seen l)"
  obtain r b2 s2 where run: "reconcile p (b1, s1) = (r, (b2, s2))" by (metis surj_pair)
  then have ok: "bridge_ok b2" if "bridge_ok b"
    using always_run [OF reconcile_ok [OF assms(1)] run] that
    by (simp add: beside_def ok_runs_def b1_def bridge_ok_def)
  show ?thesis
  proof (cases r)
    case (Inl e)
    then have "snd (sync_turn p l b) = snd (sync_failed (now b) (l\<lparr>sy_seen := s2\<rparr>) b2)"
      using False run unfolding sync_turn_def Let_def b1_def [symmetric] s1_def [symmetric] by simp
    then show ?thesis
      using ok by (auto simp: ok_runs_def sync_failed_def bridge_ok_def Let_def)
  next
    case (Inr x)
    have "steady_runs b1 b2"
      using on_success_run [OF reconcile_steady [OF assms(2)] run [unfolded Inr]] by (simp add: beside_def)
    moreover have "st_transport (b_status b)" using False by (simp add: sync_due_def Let_def)
    ultimately have "st_updated (b_status b2) = st_updated (b_status b) \<Longrightarrow> st_transport (b_status b2)"
      by (simp add: steady_runs_def b1_def)
    moreover have "snd (sync_turn p l b) =
        snd (sync_finished (st_updated (b_status b)) (l\<lparr>sy_seen := s2\<rparr>) b2)"
      using False run Inr unfolding sync_turn_def Let_def b1_def [symmetric] s1_def [symmetric] by simp
    ultimately show ?thesis
      using ok sync_finished_ok by (simp add: ok_runs_def)
  qed
qed

section \<open>Pairing and provider events\<close>

lemma pairing_frame_ok [simp]:
  "bridge_ok b \<Longrightarrow> bridge_ok (clear_attempt b)"
  "bridge_ok (end_pairing state reason detail b) = bridge_ok b"
  "bridge_ok (snd (cancel_pairing b)) = bridge_ok b"
  "bridge_ok (expire_pairing b) = bridge_ok b"
  "bridge_ok b \<Longrightarrow> bridge_ok (request_reconnect b)"
  "bridge_ok (pairing_emoji generation emoji b) = bridge_ok b"
  "bridge_ok b \<Longrightarrow> bridge_ok (whatsapp_code generation kind code b)"
  "bridge_ok b \<Longrightarrow> bridge_ok (phone_alert a b)"
  "bridge_ok b \<Longrightarrow> bridge_ok (phone_unresponsive cause b)"
  "bridge_ok b \<Longrightarrow> bridge_ok (session_expired b)"
proof -
  show "bridge_ok b \<Longrightarrow> bridge_ok (clear_attempt b)"
    by (auto simp: clear_attempt_def commit_db_def split: prod.splits sum.splits)
  show e: "bridge_ok (end_pairing state reason detail b) = bridge_ok b" for state reason detail
    by (simp add: end_pairing_def)
  show "bridge_ok (snd (cancel_pairing b)) = bridge_ok b" "bridge_ok (expire_pairing b) = bridge_ok b"
    by (simp_all add: cancel_pairing_def expire_pairing_def e)
  show "bridge_ok b \<Longrightarrow> bridge_ok (request_reconnect b)"
    by (simp add: request_reconnect_def Let_def)
  show "bridge_ok (pairing_emoji generation emoji b) = bridge_ok b"
    "bridge_ok b \<Longrightarrow> bridge_ok (whatsapp_code generation kind code b)"
    by (simp_all add: pairing_emoji_def whatsapp_code_def Let_def)
  have "bridge_ok b \<Longrightarrow> bridge_ok (b\<lparr>b_status := (b_status b)\<lparr>st_report := r\<rparr>\<rparr>)" for r
    by (simp add: bridge_ok_def)
  then show "bridge_ok b \<Longrightarrow> bridge_ok (phone_alert a b)"
    by (simp add: phone_alert_def split: option.split)
  show "bridge_ok b \<Longrightarrow> bridge_ok (phone_unresponsive cause b)"
    "bridge_ok b \<Longrightarrow> bridge_ok (session_expired b)"
    by (simp_all add: phone_unresponsive_def session_expired_def)
qed

lemma pairing_status_ok: "bridge_ok b \<Longrightarrow> bridge_ok (snd (pairing_status b))"
proof -
  assume ok: "bridge_ok b"
  define b2 where "b2 = (if pairing_expired b \<and> \<not> b_pair_running b then clear_attempt (expire_pairing b)
    else expire_pairing b)"
  have "bridge_ok b2" using ok by (simp add: b2_def)
  then show ?thesis
    unfolding pairing_status_def Let_def b2_def [symmetric] by (simp split: sum.split)
qed

lemma cancel_and_clear_ok: "bridge_ok b \<Longrightarrow> bridge_ok (cancel_and_clear b)"
proof -
  assume "bridge_ok b"
  moreover have "cancel_and_clear b = (if fst (cancel_pairing b) then clear_attempt (snd (cancel_pairing b))
      else snd (cancel_pairing b))"
    by (simp add: cancel_and_clear_def split_beta)
  ultimately show ?thesis by simp
qed

lemma recovery_ok [ok_moves]:
  "always ok_runs m \<Longrightarrow> always ok_runs (recovery_storage m)"
  unfolding recovery_storage_def by (intro ok_runs.rules ok_moves; simp)

lemma start_pairing_ok [ok_moves]:
  "always ok_runs (start_pairing ps cookies)"
  "always ok_runs (begin_whatsapp phone automatic)"
  "always ok_runs (begin_google_pairing reuse new_phone random)"
proof -
  show s: "always ok_runs (start_pairing ps cookies)" for ps cookies
    unfolding start_pairing_def by (intro ok_runs.rules ok_moves; simp add: Let_def)
  show "always ok_runs (begin_whatsapp phone automatic)"
    "always ok_runs (begin_google_pairing reuse new_phone random)"
    unfolding begin_whatsapp_def begin_google_pairing_def Let_def by (intro ok_runs.rules ok_moves s)+
qed

lemma pairing_ok [ok_moves]:
  "always ok_runs (submit_pairing_cookies ticket cs)"
  "always ok_runs pause_pairing_recovery"
  "always ok_runs adopt_records_act"
  "always ok_runs (recover_pairing t)"
  "always ok_runs (begin_pairing new_phone random)"
  "always ok_runs (begin_repairing new_phone random)"
  "always ok_runs (configure_pairing_recovery enabled phone resume)"
  "always ok_runs (commit_paired h ended generation data)"
  unfolding submit_pairing_cookies_def pause_pairing_recovery_def adopt_records_act_def
    recover_pairing_def begin_pairing_def begin_repairing_def begin_whatsapp_pairing_def
    configure_pairing_recovery_def commit_paired_def
  by (intro ok_runs.rules ok_moves; simp add: cancel_and_clear_ok)+

lemma google_event_ok: "always ok_runs (google_event_act f e)"
proof -
  have i: "always ok_runs (ingest f m)" for m
    unfolding ingest_def by (intro ok_runs.rules ok_moves; simp)
  have s: "always ok_runs (snapshot_session auth)" for auth
    unfolding snapshot_session_def by (intro ok_runs.rules ok_moves; simp)
  have p: "bridge_ok b \<Longrightarrow> bridge_ok (b\<lparr>b_hub := publish ev (b_hub b)\<rparr>)" for b ev
    by (simp add: bridge_ok_def hub_ok_ops)
  show ?thesis
    by (cases e) (auto simp: google_event_act_def Let_def intro!: ok_runs.rules ok_moves i s p split: sum.split)
qed

lemma google_handle_ok [ok_moves]: "always ok_runs (google_handle f e)"
  unfolding google_handle_def by (intro ok_runs.rules google_event_ok)

section \<open>The service\<close>

lemma other_moves:
  "db_runs b (snd (auth_turn b))" "bridge_ok b \<Longrightarrow> bridge_ok (snd (auth_turn b))"
  "db_runs b (snd (cancel_pairing_act b))" "bridge_ok b \<Longrightarrow> bridge_ok (snd (cancel_pairing_act b))"
proof -
  obtain r b1 where run: "recover_pairing (now b) b = (r, b1)" by fastforce
  have a: "snd (auth_turn b) = b1"
    by (cases r) (auto simp: auth_turn_def run split: prod.splits)
  show "db_runs b (snd (auth_turn b))" "bridge_ok b \<Longrightarrow> bridge_ok (snd (auth_turn b))"
    using always_run [OF pairing_moves(7) run] always_run [OF pairing_ok(4) run]
    by (simp_all add: a ok_runs_def)
  obtain q b2 where run2: "pause_pairing_recovery b = (q, b2)" by fastforce
  define b3 where "b3 = (case q of Inl _ \<Rightarrow> b2 | Inr _ \<Rightarrow> cancel_and_clear b2)"
  have c: "cancel_pairing_act b = pairing_status b3"
    by (cases q) (simp_all add: cancel_pairing_act_def run2 b3_def)
  have "db_runs b b3"
    using always_run [OF pairing_moves(5) run2] cancel_and_clear_moves [of b2]
    by (cases q) (auto simp: b3_def intro: db_runs.R_trans)
  then show "db_runs b (snd (cancel_pairing_act b))"
    using pairing_status_moves db_runs.R_trans unfolding c by blast
  have "bridge_ok b \<Longrightarrow> bridge_ok b3"
    using always_run [OF pairing_ok(2) run2] cancel_and_clear_ok [of b2]
    by (cases q) (auto simp: b3_def ok_runs_def)
  then show "bridge_ok b \<Longrightarrow> bridge_ok (snd (cancel_pairing_act b))"
    using pairing_status_ok unfolding c by blast
qed

lemma watch_turn_frame:
  "b_store (snd (watch_turn kitchen rounded b)) = b_store b"
  "bridge_ok b \<Longrightarrow> bridge_ok (snd (watch_turn kitchen rounded b))"
proof -
  obtain announced finished restored b1 where
    t: "track_outage (now b) b = ((announced, finished, restored), b1)"
    by (metis surj_pair)
  then have "b_store b1 = b_store b" and ok: "bridge_ok b \<Longrightarrow> bridge_ok b1"
    by (auto simp: track_outage_def Let_def bridge_ok_def split: if_splits option.splits)
  moreover have "snd (watch_turn kitchen rounded b) \<in> {b1, notify_hub b1}"
    by (simp add: watch_turn_def t Let_def split: option.split)
  ultimately show "b_store (snd (watch_turn kitchen rounded b)) = b_store b"
    "bridge_ok b \<Longrightarrow> bridge_ok (snd (watch_turn kitchen rounded b))"
    by auto
qed

lemma commit_paired_moves:
  assumes "epoch_of (b_store b) \<noteq> - 1"
  shows "db_runs b (snd (commit_paired h ended generation data b))"
proof -
  define new_phone where "new_phone = (generation \<noteq> 0 \<and> ps_new_phone (b_pairing_state b))"
  obtain r b1 where c: "commit_db (save_paired_session h data new_phone) b = (r, b1)" by fastforce
  then have "db_runs b b1"
    using assms store_step.paired
    by (cases r) (fastforce simp: commit_db_Inl commit_db_Inr db_runs_def store_steps_def)+
  moreover have "b_store (snd (commit_paired h ended generation data b)) \<in> {b_store b, b_store b1}"
    by (cases r) (auto simp: commit_paired_def act_runs c simp flip: new_phone_def)
  ultimately show ?thesis
    by (auto simp: db_runs_def store_steps_def)
qed

inductive service_step ::
  "provider \<Rightarrow> ('m \<Rightarrow> go_error + provider_snapshot) \<Rightarrow> bridge \<Rightarrow> bridge \<Rightarrow> bool" for p f where
  time_passes: "service_step p f b (b\<lparr>b_store := (b_store b)\<lparr>clock := t\<rparr>\<rparr>)"
| sent: "service_step p f b (snd (send_turn p b))"
| synced: "service_step p f b (snd (sync_turn p l b))"
| imported: "service_step p f b (snd (history_turn h p b))"
| send_queued: "service_step p f b (snd (queue_send txn i req b))"
| upload_saved: "service_step p f b (snd (save_upload_act mt hexsum name ct data b))"
| marked: "service_step p f b (snd (mark_read_act p conv i b))"
| typed: "service_step p f b (snd (typing_act p conv b))"
| fetched: "service_step p f b (snd (attachment_act size p i b))"
| media_requested: "service_step p f b (snd (request_attachment p i b))"
| history_queued: "service_step p f b (snd (queue_history_act h conv folder restart b))"
| contacts_read: "service_step p f b (snd (contacts_act lower p refresh b))"
| google_event: "service_step p f b (snd (google_handle f e b))"
| pairing_begun: "service_step p f b (snd (begin_pairing new_phone random b))"
| repairing_begun: "service_step p f b (snd (begin_repairing new_phone random b))"
| cookies_submitted: "service_step p f b (snd (submit_pairing_cookies ticket cookies b))"
| pairing_canceled: "service_step p f b (snd (cancel_pairing_act b))"
| pairing_read: "service_step p f b (snd (pairing_status b))"
| emoji_shown: "service_step p f b (pairing_emoji generation emoji b)"
| code_shown: "service_step p f b (whatsapp_code generation kind code b)"
| pairing_committed: "epoch_of (b_store b) \<noteq> - 1 \<Longrightarrow>
    service_step p f b (snd (commit_paired h ended generation data b))"
| recovery_configured: "service_step p f b (snd (configure_pairing_recovery enabled phone resume b))"
| authenticated: "service_step p f b (snd (auth_turn b))"
| records_adopted: "service_step p f b (snd (adopt_records_act b))"
| outage_watched: "service_step p f b (snd (watch_turn kitchen rounded b))"
| client_joined: "service_step p f b (b\<lparr>b_hub := snd (subscribe (b_hub b))\<rparr>)"
| client_left: "service_step p f b (b\<lparr>b_hub := unsubscribe k (b_hub b)\<rparr>)"
| wake_received: "service_step p f b (b\<lparr>b_hub := receive_wake k (b_hub b)\<rparr>)"
| live_received: "service_step p f b (b\<lparr>b_hub := receive_live k (b_hub b)\<rparr>)"

lemma turns_keep:
  "b_store (snd (send_turn p b)) = b_store (snd (send_one p b)) \<or> snd (send_turn p b) = b"
  "bridge_ok (snd (send_one p b)) \<Longrightarrow> bridge_ok b \<Longrightarrow> bridge_ok (snd (send_turn p b))"
  "b_store (snd (history_turn h p b)) = b_store (snd (history_one h p b)) \<or> snd (history_turn h p b) = b"
  "bridge_ok (snd (history_one h p b)) \<Longrightarrow> bridge_ok b \<Longrightarrow> bridge_ok (snd (history_turn h p b))"
  by (auto simp: send_turn_def history_turn_def split: prod.splits sum.splits)

lemma turn_moves:
  assumes p: "provider_moves p"
  shows "db_runs b (snd (send_turn p b))" "db_runs b (snd (history_turn h p b))"
  using alwaysD [OF send_one_moves [OF p], of b] turns_keep(1) [of p b] db_runs.R_refl [of b]
  apply (metis db_runs_cong)
  using alwaysD [OF history_moves(5) [OF p], of b h] turns_keep(3) [of h p b] db_runs.R_refl [of b]
  by (metis db_runs_cong)

lemma service_step_store:
  assumes p: "provider_moves p"
  shows "service_step p f b b' \<Longrightarrow> db_runs b b'"
proof (induction rule: service_step.induct)
  case (time_passes b t)
  then show ?case
    by (auto simp: db_runs_def store_steps_def intro: r_into_rtranclp store_step.tick)
next
  case (pairing_committed b h ended generation data)
  then show ?case by (rule commit_paired_moves)
qed (rule turn_moves [OF p] sync_turn_moves [OF p] request_moves [THEN alwaysD]
    client_moves [OF p, THEN alwaysD] history_moves(1) [OF p, THEN alwaysD]
    contacts_moves [OF p, THEN alwaysD] google_handle_moves [THEN alwaysD] begin_moves [THEN alwaysD]
    pairing_moves [THEN alwaysD] other_moves(1,3) pairing_status_moves
  | (rule same_store, simp add: watch_turn_frame))+

lemma service_step_ok:
  assumes p: "provider_keeps p" "provider_steady p"
  shows "service_step p f b b' \<Longrightarrow> bridge_ok b \<Longrightarrow> bridge_ok b'"
proof (induction rule: service_step.induct)
  case (sent b)
  then show ?case
    using alwaysD [OF send_one_ok [OF p(1)], of b] turns_keep(2) by (simp add: ok_runs_def)
next
  case (imported b h)
  then show ?case
    using alwaysD [OF history_ok(3) [OF p(1)], of b h] turns_keep(4) by (simp add: ok_runs_def)
next
  case (synced b l)
  then show ?case using sync_turn_ok [OF p] by (simp add: ok_runs_def)
next
  case (pairing_begun b new_phone random)
  then show ?case using alwaysD [OF pairing_ok(5), of b new_phone random] by (simp add: ok_runs_def)
qed (simp_all add: requests_ok [THEN alwaysD, unfolded ok_runs_def, rule_format]
    client_ok [OF p(1), THEN alwaysD, unfolded ok_runs_def, rule_format]
    google_handle_ok [THEN alwaysD, unfolded ok_runs_def, rule_format]
    pairing_ok [THEN alwaysD, unfolded ok_runs_def, rule_format]
    other_moves(2,4) pairing_status_ok watch_turn_frame bridge_ok_def [of "_\<lparr>b_hub := _\<rparr>"] hub_ok_ops
    , (simp_all add: bridge_ok_def hub_ok_ops)?)

definition service_runs :: "provider \<Rightarrow> ('m \<Rightarrow> go_error + provider_snapshot) \<Rightarrow> bridge \<Rightarrow> bridge \<Rightarrow> bool" where
  "service_runs p f = (service_step p f)\<^sup>*\<^sup>*"

lemma service_runs_store:
  assumes "provider_moves p" and "service_runs p f b b'"
  shows "store_steps (b_store b) (b_store b')"
  using assms(2) unfolding service_runs_def
proof (induction rule: rtranclp_induct)
  case base
  then show ?case by (simp add: store_steps_def)
next
  case (step b1 b2)
  then show ?case
    using service_step_store [OF assms(1) step(2)] by (simp add: db_runs_def store_steps_def)
qed

lemma service_runs_ok:
  assumes "provider_keeps p" and "provider_steady p" and "service_runs p f b b'"
  shows "bridge_ok b \<Longrightarrow> bridge_ok b'"
  using assms(3) unfolding service_runs_def
  by (induction rule: rtranclp_induct) (auto intro: service_step_ok [OF assms(1,2)])

lemma new_bridge_ok: "bridge_ok (new_bridge s)"
  by (simp add: new_bridge_def set_status_def set_status_reason_def set_state_def notify_hub_def
      bridge_ok_def status_ok_def hub_ok_ops zero_status_def max_connection_events_def Let_def)

end
