(* ===== verification/ServiceProperties.thy ===== *)
theory ServiceProperties
  imports Service SendProperties
begin

text \<open>
  What the bridge promises about sends, requests and the store under it: every step of the service
  moves the store along its step relation, the status is never more optimistic than the
  connection, a send reaches the provider only once it is durably claimed, its outcome is
  recorded, and only valid requests are queued.
\<close>

section \<open>A concrete bridge\<close>

text \<open>A provider out of reach, and one that accepts every send.\<close>

definition unreachable_provider :: provider where
  "unreachable_provider = \<lparr>pv_conversations = fail_act ErrUnavailable,
     pv_messages = (\<lambda>_. fail_act ErrUnavailable), pv_contacts = fail_act ErrUnavailable,
     pv_create = (\<lambda>_ _. fail_act ErrUnavailable), pv_react = (\<lambda>_ _ _ _. fail_act ErrUnavailable),
     pv_typing = (\<lambda>_. fail_act ErrUnavailable), pv_upload = (\<lambda>_ _ _. fail_act ErrUnavailable),
     pv_message_page = (\<lambda>_ _. fail_act ErrUnavailable),
     pv_conversation_page = (\<lambda>_ _. fail_act ErrUnavailable),
     pv_prepare = (\<lambda>_. fail_act ErrUnavailable), pv_send = (\<lambda>_ _. fail_act ErrUnavailable),
     pv_mark_read = (\<lambda>_ _. fail_act ErrUnavailable), pv_attachment = (\<lambda>_. fail_act ErrUnavailable),
     pv_request_media = (\<lambda>_. fail_act ErrUnavailable)\<rparr>"

definition accepting_provider :: provider where
  "accepting_provider = unreachable_provider
     \<lparr>pv_prepare := (\<lambda>_. return_act zero_target), pv_send := (\<lambda>_ _. return_act ())\<rparr>"

lemma accepting_hypotheses:
  "provider_moves accepting_provider" "provider_keeps accepting_provider"
  "provider_steady accepting_provider"
  by (simp_all add: provider_moves_def provider_keeps_def provider_within_def provider_steady_def always_on_success accepting_provider_def
      unreachable_provider_def)

text \<open>A bridge with one queued send, once the client library is ready.\<close>

definition ready_bridge :: bridge where
  "ready_bridge = set_provider True (connection ''client_ready'' True True [] (new_bridge with_one))"

lemma new_bridge_simps [simp]:
  "b_store (new_bridge s) = s" "now (new_bridge s) = clock s" "b_provider (new_bridge s) = False"
  "b_pairing_state (new_bridge s) = zero_pairing" "b_storage_err (new_bridge s) = None"
  "st_state (b_status (new_bridge s)) = ''offline''" "b_done (new_bridge s) = False"
  "st_events (b_status (new_bridge s)) = []"
  by (simp_all add: new_bridge_def set_status_def set_status_reason_def set_state_def now_def
      notify_hub_def zero_status_def Let_def)

lemma ready_bridge_simps [simp]:
  "b_store ready_bridge = with_one" "b_provider ready_bridge" "\<not> b_done ready_bridge"
  "b_pairing_state ready_bridge = zero_pairing" "st_state (b_status ready_bridge) = ''connected''"
  by (simp_all add: ready_bridge_def set_provider_def connection_def record_event_def failed_def
      failed_state_def set_state_def Let_def)

text \<open>A failure leaves the pairing and the sync interval alone.\<close>

lemma status_keeps [simp]:
  "b_pairing_state (set_status state detail b) = b_pairing_state b"
  "b_sync_every (set_status state detail b) = b_sync_every b"
  "b_pairing_state (notify_hub b) = b_pairing_state b"
  by (simp_all add: set_status_def set_status_reason_def set_state_def notify_hub_def Let_def)

lemma stop_keeps [simp]:
  "b_pairing_state (stop_provider e b) = b_pairing_state b"
  "b_sync_every (stop_provider e b) = b_sync_every b"
  by (simp_all add: stop_provider_def Let_def split: option.split)

lemma failure_keeps [simp]:
  "b_pairing_state (storage_failure e b) = b_pairing_state b"
  "b_sync_every (storage_failure e b) = b_sync_every b"
  by (simp_all add: storage_failure_def Let_def)

section \<open>The service over the store\<close>


lemma ready_runs: "service_runs accepting_provider f ready_bridge (snd (send_turn accepting_provider ready_bridge))"
  unfolding service_runs_def by (rule r_into_rtranclp) (rule service_step.sent)




section \<open>Sends\<close>

text \<open>C18: the send loop behaves exactly the same when its provider is replaced by one that
  refuses to send, react or create unless the database holds the send it acts for, claimed and in
  sending: so nothing is ever asked of the network before it is durably claimed.\<close>

theorem dispatch_only_claimed: "send_one (cautious p) = send_one p \<and> send_turn (cautious p) = send_turn p"
proof -
  have "send_candidates (cautious p) queued [] = send_candidates p queued []" for queued
    by (rule send_candidates_cautious)
  then have one: "send_one (cautious p) = send_one p"
    unfolding send_one_def by presburger
  then show ?thesis
    unfolding send_turn_def fun_eq_iff by presburger
qed

definition conversation_of :: "outbox \<Rightarrow> string" where
  "conversation_of out = q_conversation_id (o_request out)"

lemma send_candidates_blocked:
  "send_candidates p queued blocked =
   send_candidates p (filter (\<lambda>c. conversation_of c \<notin> set blocked) queued) []"
proof (induction queued arbitrary: blocked rule: measure_induct_rule [of length])
  case (less queued)
  show ?case
  proof (cases queued)
    case (Cons c rest)
    let ?keep = "\<lambda>blocked. filter (\<lambda>c. conversation_of c \<notin> set blocked)"
    have IH: "send_candidates p rest bl = send_candidates p (?keep bl rest) []" for bl
      using less Cons by simp
    have "send_candidates p (?keep bl rest) [conversation_of c] = send_candidates p (?keep (conversation_of c # bl) rest) []"
      for bl
      using less [of "?keep bl rest" "[conversation_of c]"] Cons length_filter_le [of _ rest]
      by (simp add: le_imp_less_Suc conj_commute)
    then show ?thesis
      using IH [of blocked] IH [of "conversation_of c # blocked"]
      by (simp add: Cons conversation_of_def Let_def cong: if_cong candidate_next.case_cong)
  qed simp
qed

text \<open>When the oldest send of a conversation is not ready, the pass goes on exactly as if
  no later send of that conversation were queued, so sends never overtake one another within a
  conversation while those of other conversations still go out.\<close>

theorem blocked_conversation_waits:
  assumes "try_candidate p candidate b = (Inr Candidate_block, b')"
  shows "send_candidates p (candidate # rest) [] b =
    send_candidates p (filter (\<lambda>later. q_conversation_id (o_request later) \<noteq>
      q_conversation_id (o_request candidate)) rest) [] b'"
  using send_candidates_blocked [of p rest "[q_conversation_id (o_request candidate)]"]
  by (simp add: bind_act_def assms Let_def conversation_of_def)

theorem blocked_conversation_waits_witness:
  "send_candidates unreachable_provider [queued_one, queued_one] [] ready_bridge = (Inr False, ready_bridge)"
proof -
  have "try_candidate unreachable_provider queued_one ready_bridge = (Inr Candidate_block, ready_bridge)"
    by (simp add: try_candidate_def prepare_target_def text_request_def zero_request_def
        unreachable_provider_def act_defs)
  from blocked_conversation_waits [OF this, of "[queued_one]"] show ?thesis
    by (simp add: return_act_def)
qed

section \<open>Recording the outcome\<close>

lemma finish_Inr:
  assumes "finish i result detail s = Inr (u, s')" and "outbox_keyed s"
  shows "\<exists>w. outbox_at s i = Some w \<and> outbox_at s' i = Some (if o_state w = ''sending''
    then w\<lparr>o_state := result, o_detail := detail, o_updated := clock s\<rparr> else w)"
proof -
  from assms(1) obtain w where w: "outbox_at s i = Some w"
    and run: "o_state w \<noteq> ''sending'' \<and> s' = s \<or> o_state w = ''sending'' \<and>
      write_outbox (w\<lparr>o_state := result, o_detail := detail, o_updated := clock s\<rparr>) s = Inr (u, s')"
    by (auto simp: finish_def tx_elims split: if_splits)
  have "o_id w = i" using assms(2) w by (simp add: outbox_keyed_def)
  with w run show ?thesis using write_outbox_Inr(1) by auto
qed

lemma finish_send_Inr:
  assumes "finish_send out answer b = (Inr sent, b')" and "outbox_keyed (b_store b)"
  shows "sent \<and> b_sync_wake b' \<and> (\<exists>w. outbox_at (b_store b) (o_id out) = Some w \<and>
    outbox_at (b_store b') (o_id out) = Some (if o_state w = ''sending''
      then w\<lparr>o_state := fst (outcome_of (q_kind (o_request out)) answer),
             o_detail := snd (outcome_of (q_kind (o_request out)) answer), o_updated := now b\<rparr> else w))"
proof -
  obtain result detail where o: "outcome_of (q_kind (o_request out)) answer = (result, detail)" by fastforce
  from assms(1) obtain s' where run: "finish (o_id out) result detail (b_store b) = Inr ((), s')"
    and sent: "sent" and b': "b' = request_sync (notify_hub (b\<lparr>b_store := s'\<rparr>))"
    by (auto simp: finish_send_def o then_act_Inr commit_db_Inr return_act_def)
  show ?thesis
    using finish_Inr [OF run assms(2)] sent unfolding b' o fst_conv snd_conv now_def
    by (simp add: request_sync_def split del: if_split)
qed

text \<open>What a provider was asked for a message or a reaction.\<close>

definition provider_answer :: "provider \<Rightarrow> send_target \<Rightarrow> outbox \<Rightarrow> unit bact" where
  "provider_answer p target out = (let req = o_request out in
     if q_kind req = ''reaction''
     then pv_react p (target\<lparr>tg_transaction_id := o_transaction_id out\<rparr>) (q_message_id req)
            (q_emoji req) (q_remove req)
     else pv_send p target out)"

lemma dispatch_answer:
  assumes "q_kind (o_request out) \<noteq> ''conversation''" and "provider_answer p target out b = (r, b1)"
  shows "dispatch p target out fence b = finish_send out (answer_of r) b1"
  using assms by (auto simp: dispatch_def provider_answer_def Let_def bind_act_def try_act_def split: if_splits)

text \<open>When a claimed message or reaction was handed to the provider, the record that is
  still in sending becomes accepted exactly when the provider returned no error, rejected exactly
  when it explicitly refused, and ambiguous on every other error, never queued again; a record that
  was confirmed meanwhile stays as it is.\<close>

theorem send_outcome_is_recorded:
  assumes "q_kind (o_request out) \<noteq> ''conversation''"
    and "provider_answer p target out b = (r, b1)" and "store_ok (b_store b1)"
    and "dispatch p target out fence b = (Inr sent, b2)"
  shows "sent \<and> b_sync_wake b2 \<and>
    (\<exists>w detail. outbox_at (b_store b1) (o_id out) = Some w \<and>
      outbox_at (b_store b2) (o_id out) = Some (if o_state w = ''sending''
        then w\<lparr>o_state := (case r of Inr _ \<Rightarrow> ''accepted''
            | Inl e \<Rightarrow> if errors_is e ErrRejected then ''rejected'' else ''ambiguous''),
          o_detail := detail, o_updated := now b1\<rparr>
        else w))"
proof -
  have "fst (outcome_of kind (answer_of r)) = (case r of Inr _ \<Rightarrow> ''accepted''
      | Inl e \<Rightarrow> if errors_is e ErrRejected then ''rejected'' else ''ambiguous'')" for kind
    by (cases r) (simp_all add: outcome_of_def answer_of_def)
  moreover have "outbox_keyed (b_store b1)" using assms(3) by (simp add: store_ok_def)
  ultimately show ?thesis
    using finish_send_Inr [of out "answer_of r" b1 sent b2] assms(4) dispatch_answer [OF assms(1,2)]
    by auto
qed

definition claimed_bridge :: bridge where
  "claimed_bridge = ready_bridge\<lparr>b_store := with_claimed\<rparr>"

lemma claimed_bridge_store [simp]: "b_store claimed_bridge = with_claimed"
  by (simp add: claimed_bridge_def)

lemma run_finish: "\<exists>s'. finish ''a'' ''accepted'' detail with_claimed = Inr ((), s')"
proof -
  let ?w = "sending_one\<lparr>o_state := ''accepted'', o_detail := detail, o_updated := 5\<rparr>"
  have "sending_one \<noteq> ?w" by (rule outbox_state_differs) simp
  then have "can_append (outbox_event ?w) with_claimed"
    by (simp add: can_append_def)
  then show ?thesis by (simp add: finish_def exec runs)
qed

theorem send_outcome_is_recorded_witness:
  "\<exists>b2 w. dispatch accepting_provider zero_target sending_one 0 claimed_bridge = (Inr True, b2) \<and>
     outbox_at (b_store b2) ''a'' = Some w \<and> o_state w = ''accepted''"
proof -
  have kind: "q_kind (o_request sending_one) \<noteq> ''conversation''"
    by (simp add: text_request_def)
  have answer: "provider_answer accepting_provider zero_target sending_one claimed_bridge = (Inr (), claimed_bridge)"
    by (simp add: provider_answer_def text_request_def accepting_provider_def unreachable_provider_def
        return_act_def)
  have ok: "store_ok (b_store claimed_bridge)"
    using reachable_ok [OF steps_to_claimed(3)] by simp
  obtain s' where "finish ''a'' ''accepted'' (snd (outcome_of ''message'' None)) with_claimed = Inr ((), s')"
    using run_finish by blast
  then obtain b2 where run: "dispatch accepting_provider zero_target sending_one 0 claimed_bridge = (Inr True, b2)"
    by (simp add: dispatch_answer [OF kind answer] finish_send_def outcome_of_def answer_of_def
        text_request_def act_runs)
  show ?thesis
    using send_outcome_is_recorded [OF kind answer ok run] run by auto
qed

end
