(* ===== verification/PushWatch.thy ===== *)
theory PushWatch
  imports BridgePairing
begin

text \<open>
  \<open>internal/bridge/push.go\<close>: which stored messages are announced to the browsers, and how.  The
  loop reads the event log in batches from its own cursor; a notice is the title, body, tag and
  conversation it passes to the notifier.  \<open>time.String\<close> is a parameter.
\<close>

definition push_window :: time where "push_window = 5 * minute"
definition push_memory :: nat where "push_memory = 512"
definition push_batch_size :: int where "push_batch_size = 100"

record push_state =
  pu_cursor :: u64
  pu_seen :: "string set"
  pu_order :: "string list"

type_synonym notice = "string \<times> string \<times> string \<times> string"

definition start_push :: "u64 \<Rightarrow> push_state" where
  "start_push n = \<lparr>pu_cursor = n, pu_seen = {}, pu_order = []\<rparr>"

definition should_push :: "time \<Rightarrow> message \<Rightarrow> string set \<Rightarrow> bool" where
  "should_push t m seen \<longleftrightarrow>
     \<not> (m_direction m \<noteq> ''incoming'' \<or> m_deleted m \<or> m_id m \<in> seen) \<and> t - m_time m \<le> push_window"

section \<open>The text of a notice\<close>

definition sender_title :: "message \<Rightarrow> conversation \<Rightarrow> string \<Rightarrow> string" where
  "sender_title m conv title0 = fold (\<lambda>p title.
     if p_id p \<noteq> m_sender_id m \<or> p_is_me p then title
     else if p_name p \<noteq> [] \<and> c_name conv = [] then p_name p
     else if p_address p \<noteq> [] \<and> c_name conv = [] then p_address p
     else title) (c_participants conv) title0"

definition describe :: "bridge \<Rightarrow> message \<Rightarrow> string \<times> string" where
  "describe b m =
    (let title = (case view_tx (latest_record ''conversation'' (m_conversation_id m)) (b_store b) of
           Inl _ \<Rightarrow> ''New message''
         | Inr raw \<Rightarrow> (case unmarshal dec_conversation raw of
             Inl _ \<Rightarrow> ''New message''
           | Inr conv \<Rightarrow> sender_title m conv
               (if c_name conv \<noteq> [] then c_name conv else ''New message'')));
         body = (if m_text m = [] \<and> m_attachments m \<noteq> [] then ''Sent an attachment'' else m_text m)
     in (title, body))"

section \<open>Events\<close>

definition remember :: "string \<Rightarrow> push_state \<Rightarrow> push_state" where
  "remember i s =
    (let seen = insert i (pu_seen s); order = pu_order s @ [i] in
     if length order > push_memory
     then s\<lparr>pu_seen := seen - {hd order}, pu_order := tl order\<rparr>
     else s\<lparr>pu_seen := seen, pu_order := order\<rparr>)"

definition push_event :: "bridge \<Rightarrow> event \<Rightarrow> push_state \<times> notice list \<Rightarrow> push_state \<times> notice list" where
  "push_event b e w = (case w of (s, notices) \<Rightarrow>
    let s1 = s\<lparr>pu_cursor := ev_id e\<rparr> in
    if ev_type e \<noteq> ''message'' then (s1, notices)
    else case unmarshal dec_message (ev_data e) of
      Inl _ \<Rightarrow> (s1, notices)
    | Inr m \<Rightarrow>
        if \<not> should_push (now b) m (pu_seen s1) then (s1, notices)
        else case describe b m of (title, body) \<Rightarrow>
          (remember (m_id m) s1, notices @ [(title, body, m_id m, m_conversation_id m)]))"

text \<open>One batch: what it announces, or \<open>None\<close> when there is nothing to read.\<close>

definition push_batch :: "bridge \<Rightarrow> push_state \<Rightarrow> (push_state \<times> notice list) option" where
  "push_batch b s = (case view_tx (events (pu_cursor s) push_batch_size) (b_store b) of
     Inl _ \<Rightarrow> None
   | Inr es \<Rightarrow> if es = [] then None else Some (fold (push_event b) es (s, [])))"

section \<open>Linking notices\<close>

definition pairing_push :: "(time \<Rightarrow> string) \<Rightarrow> bridge \<Rightarrow> (string \<times> string) \<times> bridge" where
  "pairing_push show_time b =
    (if network_of b \<noteq> ''whatsapp'' then (([], []), b)
     else case pairing_status b of (ps, b1) \<Rightarrow> (case ps_recovery ps of
       None \<Rightarrow> (([], []), b1)
     | Some rec \<Rightarrow>
         if \<not> pr_enabled rec \<or> pr_paused rec then (([], []), b1)
         else if ps_automatic ps \<and> ps_state ps = ''enter_pairing_code''
         then ((show_time (ps_expires ps),
            ''Open the bridge for your linking code, then approve Link a device in WhatsApp.''), b1)
         else if \<not> active_pair (ps_state ps) \<and> recovery_eligible (b_status b1) \<and>
            sint (pr_attempts rec) \<ge> sint recovery_attempts
         then ((''exhausted:'' @ show_time (pr_next_attempt rec),
            ''Automatic linking attempts ended. Open the bridge to resume when your phone is ready.''), b1)
         else (([], []), b1)))"

section \<open>The memory of announced messages\<close>

definition push_ok :: "push_state \<Rightarrow> bool" where
  "push_ok s \<longleftrightarrow> pu_seen s = set (pu_order s) \<and> distinct (pu_order s) \<and> length (pu_order s) \<le> push_memory"

lemma start_push_ok: "push_ok (start_push n)"
  by (simp add: push_ok_def start_push_def)

lemma remember_ok:
  assumes "push_ok s" and "i \<notin> pu_seen s"
  shows "push_ok (remember i s)"
proof (cases "pu_order s")
  case Nil
  then show ?thesis using assms by (simp add: push_ok_def remember_def push_memory_def)
next
  case (Cons j js)
  then show ?thesis
    using assms by (auto simp: push_ok_def remember_def Let_def)
qed

text \<open>An event is announced or only moves the cursor.\<close>

lemma push_event_cases:
  assumes "push_event b e (s, notices) = (s', notices')"
  obtains (quiet) "s' = s\<lparr>pu_cursor := ev_id e\<rparr>" and "notices' = notices"
  | (announced) m title body where "unmarshal dec_message (ev_data e) = Inr m"
      and "should_push (now b) m (pu_seen s)" and "describe b m = (title, body)"
      and "s' = remember (m_id m) (s\<lparr>pu_cursor := ev_id e\<rparr>)"
      and "notices' = notices @ [(title, body, m_id m, m_conversation_id m)]"
proof (cases "ev_type e = ''message''")
  case False
  then show ?thesis using assms quiet by (simp add: push_event_def Let_def)
next
  case True
  show ?thesis
  proof (cases "unmarshal dec_message (ev_data e)")
    case (Inl x)
    then show ?thesis using assms True quiet by (simp add: push_event_def Let_def)
  next
    case (Inr m)
    obtain title body where d: "describe b m = (title, body)" by fastforce
    show ?thesis
    proof (cases "should_push (now b) m (pu_seen s)")
      case False
      then show ?thesis using assms True Inr quiet by (simp add: push_event_def Let_def)
    next
      case push: True
      then show ?thesis
        using assms True Inr d announced by (simp add: push_event_def Let_def)
    qed
  qed
qed

lemma push_ok_cursor [simp]: "push_ok (s\<lparr>pu_cursor := n\<rparr>) = push_ok s"
  by (simp add: push_ok_def)

lemma push_event_ok:
  assumes "push_ok s" and run: "push_event b e (s, notices) = (s', notices')"
  shows "push_ok s'"
  using run
proof (cases rule: push_event_cases)
  case (announced m title body)
  then show ?thesis using assms(1) remember_ok by (simp add: should_push_def)
qed (simp add: assms(1))

lemma push_events_ok:
  "push_ok s \<Longrightarrow> fold (push_event b) es (s, notices) = (s', notices') \<Longrightarrow> push_ok s'"
proof (induction es arbitrary: s notices)
  case (Cons e es)
  then show ?case by (cases "push_event b e (s, notices)") (auto dest: push_event_ok)
qed simp

end
