(* ===== verification/RequestProperties.thy ===== *)
theory RequestProperties
  imports ServiceProperties PushWatch
begin

text \<open>
  What clients can rely on: which requests are accepted and how they are normalised, who a
  conversation's recipients are, what a subscriber of the hub receives, what is announced to the
  browsers, and that stored records are read back as they were written.
\<close>

section \<open>Requests\<close>

lemma sort_again [simp]: "sort (sort xs) = sort (xs :: 'a :: linorder list)" "sort xs = [] \<longleftrightarrow> xs = []"
  by (simp_all add: sorted_sort_id flip: length_0_conv)

lemma validate_conversation_Inr:
  assumes "validate_conversation r = Inr v"
  shows "v = r\<lparr>q_group_name := trim_space (q_group_name r), q_recipients := sort (q_recipients r)\<rparr>"
    and "list_all phone_number (q_recipients v) \<and> distinct (q_recipients v) \<and>
      q_recipients v \<noteq> [] \<and> length (q_recipients v) \<le> 20"
    and "length (q_group_name v) \<le> 100"
    and "q_conversation_id v = [] \<and> q_text v = [] \<and> q_attachment_ids v = [] \<and> q_message_id v = [] \<and>
      q_emoji v = [] \<and> \<not> q_remove v"
  using assms valid_recipients_distinct [of "q_recipients r"]
  by (auto simp: validate_conversation_def Let_def list_all_iff split: if_splits)

text \<open>The two shapes of an accepted request.\<close>

lemma validate_request_cases:
  assumes "validate_request request = Inr req"
  obtains (conversation) "q_kind req = ''conversation''" and "validate_conversation request = Inr req"
  | (other) "q_kind req = ''reaction'' \<and> valid_reaction req \<or> q_kind req = [] \<and> valid_message req"
      and "q_conversation_id req \<noteq> []" and "length (q_conversation_id req) \<le> 256"
      and "q_recipients req = []" and "q_group_name req = []"
proof -
  define r where "r = (if q_kind request = ''message'' then request\<lparr>q_kind := []\<rparr> else request)"
  have run: "(if q_kind r = ''conversation'' then validate_conversation r
     else if q_conversation_id r = [] \<or> length (q_conversation_id r) > 256 \<or> q_recipients r \<noteq> [] \<or>
       q_group_name r \<noteq> [] then Inl ErrInvalid
     else if q_kind r = ''reaction'' then (if valid_reaction r then Inr r else Inl ErrInvalid)
     else if valid_message r then Inr r else Inl ErrInvalid) = Inr req"
    using assms unfolding validate_request_def Let_def r_def by simp
  show thesis
  proof (cases "q_kind r = ''conversation''")
    case True
    then have "r = request" by (auto simp: r_def split: if_splits)
    with True run validate_conversation_Inr(1) [of request req] show thesis
      by (intro conversation) simp_all
  next
    case False
    with run have "req = r" by (auto split: if_splits)
    with False run have "q_conversation_id req \<noteq> [] \<and> length (q_conversation_id req) \<le> 256 \<and>
        q_recipients req = [] \<and> q_group_name req = [] \<and>
        (q_kind req = ''reaction'' \<and> valid_reaction req \<or> q_kind req = [] \<and> valid_message req)"
      by (auto simp: valid_message_def split: if_splits)
    then show thesis by (intro other) blast+
  qed
qed

lemma validate_again:
  assumes "validate_request request = Inr req"
  shows "validate_request req = Inr req"
  using assms
proof (cases rule: validate_request_cases)
  case conversation
  note e = validate_conversation_Inr(1) [OF conversation(2)]
  have "validate_conversation req = Inr req"
    using conversation(2) unfolding e by (auto simp: validate_conversation_def Let_def split: if_splits)
  then show ?thesis using conversation(1) by (simp add: validate_request_def)
next
  case other
  then show ?thesis by (auto simp: validate_request_def)
qed

text \<open>C36: an accepted request is within every limit of the interface, is in a form that is
  accepted again unchanged (so a stored request compares equal to its retry), and is exactly one of
  a message with either text or attachments, a reaction to a message, or a new conversation with one
  to twenty distinct phone numbers.\<close>

theorem accepted_request_bounds:
  assumes "validate_request request = Inr req"
  shows "validate_request req = Inr req \<and>
    length (q_conversation_id req) \<le> 256 \<and> (q_conversation_id req = [] \<longleftrightarrow> q_kind req = ''conversation'') \<and>
    length (q_text req) \<le> 16000 \<and> length (q_attachment_ids req) \<le> 10 \<and> distinct (q_attachment_ids req) \<and>
    length (q_emoji req) \<le> 64 \<and> length (q_message_id req) \<le> 256 \<and> length (q_group_name req) \<le> 100 \<and>
    length (q_recipients req) \<le> 20 \<and> distinct (q_recipients req) \<and>
    (\<forall>n \<in> set (q_recipients req). 8 \<le> length n \<and> length n \<le> 16) \<and>
    (case q_kind req of [] \<Rightarrow> (trim_space (q_text req) = []) \<noteq> (q_attachment_ids req = [])
     | _ \<Rightarrow> q_text req = [] \<and> q_attachment_ids req = [] \<and>
         (q_kind req = ''reaction'' \<and> q_message_id req \<noteq> [] \<and> q_emoji req \<noteq> [] \<or>
          q_kind req = ''conversation'' \<and> q_recipients req \<noteq> []))"
  using assms
proof (cases rule: validate_request_cases)
  case conversation
  note c = validate_conversation_Inr(2-4) [OF conversation(2)]
  then have "\<forall>n \<in> set (q_recipients req). 8 \<le> length n \<and> length n \<le> 16"
    by (simp add: list_all_iff phone_number_length)
  with c conversation(1) show ?thesis by (simp add: validate_again [OF assms])
next
  case other
  have "trim_space [] = []" by (simp add: trim_space_def)
  with other show ?thesis
    by (auto simp: validate_again [OF assms] valid_reaction_def valid_message_def)
qed

theorem accepted_request_bounds_witness:
  "\<exists>req. validate_request (zero_request\<lparr>q_kind := ''conversation'',
       q_recipients := [''+4915112345678'', ''+1201555010'']\<rparr>) = Inr req \<and>
     length (q_recipients req) \<le> 20 \<and> q_recipients req = [''+1201555010'', ''+4915112345678'']"
proof -
  have run: "validate_request (zero_request\<lparr>q_kind := ''conversation'',
       q_recipients := [''+4915112345678'', ''+1201555010'']\<rparr>) = Inr (zero_request\<lparr>q_kind := ''conversation'',
       q_recipients := [''+1201555010'', ''+4915112345678'']\<rparr>)"
    by (simp add: validate_request_def validate_conversation_def zero_request_def Let_def
        trim_space_def valid_recipients_def digit_def less_eq_char_def less_char_def)
  from accepted_request_bounds [OF run] show ?thesis
    using run by simp
qed

section \<open>Queueing\<close>

named_theorems act_elims \<open>what a call that returned a result did\<close>

lemma act_Inr [act_elims]:
  "return_act x b = (Inr y, b') \<longleftrightarrow> y = x \<and> b' = b"
  "fail_act e b \<noteq> (Inr y, b')"
  "lift_act r b = (Inr y, b') \<longleftrightarrow> r = Inr y \<and> b' = b"
  "get_act f b = (Inr z, b') \<longleftrightarrow> z = f b \<and> b' = b"
  "mod_act g b = (Inr u, b') \<longleftrightarrow> b' = g b"
  "try_act m b = (Inr q, b') \<longleftrightarrow> m b = (q, b')"
  "when_act c k b = (Inr v, b') \<longleftrightarrow> (if c then k b = (Inr v, b') else b' = b)"
  by (auto simp: act_defs split: prod.splits)

declare bind_act_Inr [act_elims] then_act_Inr [act_elims]

lemma view_db_Inr [act_elims]: "view_db m b = (Inr x, b') \<longleftrightarrow> view_tx m (b_store b) = Inr x \<and> b' = b"
  by (auto simp: view_db_def)

lemma require_act_Inr [act_elims]: "require_act c e b = (Inr u, b') \<longleftrightarrow> c \<and> b' = b"
  by (simp add: require_act_def act_elims)

lemma find_upload_Inr: "find_upload i b = (Inr u, b') \<Longrightarrow> b' = b"
  by (auto simp: find_upload_def act_elims)

lemma attachments_size_Inr: "attachments_size is b = (Inr n, b') \<Longrightarrow> b' = b"
proof -
  have "fold_act (\<lambda>i size. bind_act (find_upload i) (\<lambda>u. return_act (size + u_size u))) is k b = (Inr n, b') \<Longrightarrow>
      b' = b" for k
    by (induction "is" arbitrary: k b) (auto simp: act_elims dest: find_upload_Inr)
  then show "attachments_size is b = (Inr n, b') \<Longrightarrow> b' = b"
    by (simp add: attachments_size_def)
qed

text \<open>The conversation is this phone's and can be written to.\<close>

definition writable :: "store \<Rightarrow> string \<Rightarrow> bool" where
  "writable s i \<longleftrightarrow> view_tx (entity_current_tx ''conversation'' i) s = Inr True \<and>
     (\<exists>raw conv. view_tx (latest_record ''conversation'' i) s = Inr raw \<and>
        unmarshal dec_conversation raw = Inr conv \<and> \<not> c_read_only conv \<and> c_state conv \<noteq> ''deleted'')"

lemma check_conversation_Inr: "check_conversation i b = (Inr u, b') \<Longrightarrow> b' = b \<and> writable (b_store b) i"
  by (auto simp: check_conversation_def require_current_def writable_def act_elims)

lemma check_reaction_Inr:
  assumes "check_reaction req b = (Inr u, b')"
  shows "b' = b"
proof -
  from assms obtain raw where "(case unmarshal dec_message raw of Inl _ \<Rightarrow> fail_act ErrInvalid
      | Inr m \<Rightarrow> require_act (\<not> (m_conversation_id m \<noteq> q_conversation_id req \<or> m_deleted m)) ErrInvalid) b
    = (Inr u, b')"
    unfolding check_reaction_def require_current_def then_act_Inr bind_act_Inr view_db_Inr require_act_Inr
    by blast
  then show ?thesis by (cases "unmarshal dec_message raw") (simp_all add: act_elims)
qed

lemma check_destination_Inr:
  assumes "check_destination req b = (Inr u, b')"
  shows "b' = b \<and> writable (b_store b) (q_conversation_id req)"
  using assms
  by (auto simp: check_destination_def act_elims
      dest!: check_conversation_Inr check_reaction_Inr attachments_size_Inr split: if_splits)

lemma queue_new_Inr:
  assumes "queue_new txn i req b = (Inr (out, created), b')"
  shows "outbox_at (b_store b') i = Some out \<and> o_request out = req \<and> b_send_wake b'"
    and "created \<Longrightarrow> o_state out = ''queued''"
    and "q_kind req \<noteq> ''conversation'' \<Longrightarrow> writable (b_store b) (q_conversation_id req)"
proof -
  from assms obtain s' where run: "enqueue i txn req (b_store b) = Inr ((out, created), s')"
    and b': "b' = (notify_hub (b\<lparr>b_store := s'\<rparr>))\<lparr>b_send_wake := True\<rparr>"
    and w: "q_kind req \<noteq> ''conversation'' \<Longrightarrow> writable (b_store b) (q_conversation_id req)"
    by (auto simp: queue_new_def act_elims commit_db_Inr dest!: check_destination_Inr split: if_splits)
  show "outbox_at (b_store b') i = Some out \<and> o_request out = req \<and> b_send_wake b'"
    and "created \<Longrightarrow> o_state out = ''queued''"
    using enqueue_stores [OF run] by (simp_all add: b')
  show "q_kind req \<noteq> ''conversation'' \<Longrightarrow> writable (b_store b) (q_conversation_id req)" by (rule w)
qed

text \<open>C37: a send is queued only outside a pairing, under a well-formed key, in its validated form, and,
  unless it creates a conversation, into a conversation of the current phone that is neither read-only nor
  deleted; the record is then in the database and the send loop is woken, and a repetition of a request
  already queued under the key changes nothing.\<close>

theorem queue_admits_valid_only:
  assumes "queue_send txn i request b = (Inr (out, created), b')"
  shows "\<not> pairing_active b \<and> valid_key i \<and> validate_request request = Inr (o_request out) \<and>
    outbox_at (b_store b') i = Some out \<and> (b' = b \<and> \<not> created \<or> b_send_wake b') \<and>
    (created \<longrightarrow> o_state out = ''queued'' \<and>
       (q_kind (o_request out) = ''conversation'' \<or> writable (b_store b) (q_conversation_id (o_request out))))"
proof -
  from assms have key: "\<not> pairing_active b" "valid_key i"
    by (auto simp: queue_send_def unless_pairing_def act_elims split: if_splits sum.splits)
  from assms obtain req where req: "validate_request request = Inr req"
    by (auto simp: queue_send_def unless_pairing_def act_elims split: if_splits sum.splits)
  from assms key req consider (old) out' where "view_tx (outbox_get i) (b_store b) = Inr out'"
      "o_request out' = req" "out = out'" "\<not> created" "b' = b"
    | (new) "queue_new txn i req b = (Inr (out, created), b')"
    by (auto simp: queue_send_def unless_pairing_def act_elims view_db_def split: if_splits sum.splits)
  then show ?thesis
  proof cases
    case old
    then have "outbox_at (b_store b) i = Some out"
      by (auto simp: outbox_get_def view_tx_def read_outbox_Inr split: sum.splits)
    with old key req show ?thesis by simp
  next
    case new
    with key req show ?thesis using queue_new_Inr [OF new] by auto
  qed
qed

definition group_request :: send_request where
  "group_request = zero_request\<lparr>q_kind := ''conversation'', q_recipients := [''+1201555010'']\<rparr>"

definition group_key :: string where "group_key = ''0123456789abcdef''"

lemma group_request_valid: "validate_request group_request = Inr group_request" "valid_key group_key"
  by (simp_all add: validate_request_def validate_conversation_def zero_request_def Let_def group_request_def
      trim_space_def valid_recipients_def digit_def valid_key_def group_key_def key_char_def
      less_eq_char_def less_char_def)

lemma run_group: "\<exists>out b'. queue_send ''t'' group_key group_request (new_bridge (empty_store 5)) = (Inr (out, True), b')"
proof -
  let ?out = "new_outbox group_key ''t'' group_request 0 5"
  let ?s = "put_kv BOutboxTxn ''t'' (Raw group_key) (empty_store 5)"
  have id: "o_id ?out = group_key" "length group_key = 16" "group_key \<noteq> []"
    by (simp_all add: new_outbox_def group_key_def)
  then have "write_outbox ?out ?s = Inr ((), stored_outbox ?out ?s)"
    by (intro write_outbox_run) (simp_all add: can_append_def)
  then have "enqueue group_key ''t'' group_request (empty_store 5) = Inr ((?out, True), stored_outbox ?out ?s)"
    by (simp add: enqueue_def exec runs Let_def id)
  moreover have "outbox_get group_key (empty_store 5) = Inl ErrNotFound"
    by (simp add: outbox_get_def runs)
  ultimately show ?thesis
    by (simp add: queue_send_def queue_new_def unless_pairing_def pairing_active_def zero_pairing_def
        active_pair_def group_request_valid act_runs act_defs view_db_def view_tx_def commit_db_def
        update_tx_def require_act_def network_of_def new_bridge_def set_status_def
        set_status_reason_def set_state_def notify_hub_def Let_def)
      (simp add: group_request_def)
qed

theorem queue_admits_valid_only_witness:
  "\<exists>out b'. queue_send ''t'' group_key group_request (new_bridge (empty_store 5)) = (Inr (out, True), b') \<and>
     outbox_at (b_store b') group_key = Some out \<and> o_state out = ''queued''"
proof -
  obtain out b' where run: "queue_send ''t'' group_key group_request (new_bridge (empty_store 5)) = (Inr (out, True), b')"
    using run_group by blast
  from queue_admits_valid_only [OF run] run show ?thesis by blast
qed

section \<open>Recipients\<close>

lemma recipients_loop_total:
  "\<exists>p \<in> set ps. \<not> p_is_me p \<and> p_address p = [] \<Longrightarrow> [] \<notin> self \<Longrightarrow> [] \<notin> set found \<Longrightarrow>
   \<exists>e. recipients_loop self ps found = Inl e"
  by (induction self ps found rule: recipients_loop.induct) auto

text \<open>The recipients behind a conversation are exactly the addresses of the other
  participants, each once and none empty, with every participant that shares an address with the owner
  left out; when another participant has no address there is no answer at all, and never a shorter list.\<close>

theorem recipients_are_addressable:
  assumes "view_tx (latest_record ''conversation'' i) (b_store b) = Inr raw"
    and "unmarshal dec_conversation raw = Inr conv" and "conversation_recipients i b = (r, b')"
  shows "b' = b \<and>
    (if \<exists>p \<in> set (c_participants conv). \<not> p_is_me p \<and> p_address p = [] then r = Inl ErrNoAddress
     else \<exists>rs. r = Inr rs \<and> distinct rs \<and> [] \<notin> set rs \<and>
       set rs = p_address ` set (filter (\<lambda>p. \<not> p_is_me p) (c_participants conv)) -
                p_address ` set (filter p_is_me (c_participants conv)))"
proof -
  let ?ps = "c_participants conv"
  let ?self = "self_addresses ?ps"
  have r: "r = recipients_loop ?self ?ps []" "b' = b"
    using assms by (auto simp: conversation_recipients_def view_db_def bind_act_def lift_act_def)
  have self: "?self = {p_address p |p. p \<in> set ?ps \<and> p_is_me p} - {[]}"
    by (auto simp: self_addresses_def)
  show ?thesis
  proof (cases "\<exists>p \<in> set ?ps. \<not> p_is_me p \<and> p_address p = []")
    case True
    then show ?thesis
      using recipients_loop_total [OF True, of ?self "[]"] recipients_loop_Inl [of ?self ?ps "[]"] r
      by (auto simp: self)
  next
    case False
    then obtain rs where rs: "recipients_loop ?self ?ps [] = Inr rs"
      by (metis obj_sumE recipients_loop_Inl)
    have "distinct rs \<and> [] \<notin> set rs \<and>
        set rs = set [] \<union> {p_address p |p. p \<in> set ?ps \<and> \<not> p_is_me p \<and> p_address p \<notin> ?self}"
      by (rule recipients_loop_Inr [OF rs]) simp_all
    then have rs': "distinct rs" "[] \<notin> set rs"
      "set rs = {p_address p |p. p \<in> set ?ps \<and> \<not> p_is_me p \<and> p_address p \<notin> ?self}"
      unfolding list.set(1) Un_empty_left by blast+
    have "{p_address p |p. p \<in> set ?ps \<and> \<not> p_is_me p \<and> p_address p \<notin> ?self} =
        p_address ` set (filter (\<lambda>p. \<not> p_is_me p) ?ps) - p_address ` set (filter p_is_me ?ps)"
      using False by (auto simp: self)
    with rs'(3) have "set rs =
        p_address ` set (filter (\<lambda>p. \<not> p_is_me p) ?ps) - p_address ` set (filter p_is_me ?ps)"
      by (rule trans)
    moreover have "r = Inr rs" using r(1) rs by simp
    ultimately show ?thesis
      unfolding if_not_P [OF False] using r(2) rs'(1,2) by blast
  qed
qed

definition friends :: conversation where
  "friends = zero_conversation\<lparr>c_schema := Schema, c_id := ''c'', c_participants :=
     [zero_participant\<lparr>p_is_me := True, p_address := ''+1''\<rparr>,
      zero_participant\<lparr>p_address := ''+2''\<rparr>, zero_participant\<lparr>p_address := ''+1''\<rparr>]\<rparr>"

definition with_friends :: store where
  "with_friends = put_kv BLatest (entity_key ''conversation'' ''c'') (Sealed ''key''
     (entity_key ''conversation'' ''c'') (JText (enc_conversation friends))) (empty_store 5)"

theorem recipients_are_addressable_witness:
  "\<exists>rs b'. conversation_recipients ''c'' (new_bridge with_friends) = (Inr rs, b') \<and> set rs = {''+2''}"
proof -
  have stored: "view_tx (latest_record ''conversation'' ''c'') (b_store (new_bridge with_friends)) =
      Inr (JText (enc_conversation friends))"
    by (simp add: view_tx_def latest_record_def get_record_def with_friends_def exec runs decrypt_def
        record_context_def)
  obtain r b' where run: "conversation_recipients ''c'' (new_bridge with_friends) = (r, b')" by fastforce
  have "\<not> (\<exists>p \<in> set (c_participants friends). \<not> p_is_me p \<and> p_address p = [])"
    by (simp add: friends_def zero_participant_def)
  with recipients_are_addressable [OF stored conversation_codec.unmarshal_marshal run] run
  obtain rs where "r = Inr rs"
    "set rs = p_address ` set (filter (\<lambda>p. \<not> p_is_me p) (c_participants friends)) -
       p_address ` set (filter p_is_me (c_participants friends))"
    by (metis (no_types, lifting))
  moreover have "p_address ` set (filter (\<lambda>p. \<not> p_is_me p) (c_participants friends)) -
       p_address ` set (filter p_is_me (c_participants friends)) = {''+2''}"
    by (auto simp: friends_def zero_participant_def)
  ultimately show ?thesis using run by auto
qed

section \<open>Live events\<close>

text \<open>A new subscriber receives the live events published after it joined, in
  order and without a gap, up to the capacity of its queue; the first that does not fit closes the
  subscription, so a reader either sees every event or learns that it fell behind.\<close>

theorem hub_delivers_in_order:
  "let (k, joined) = subscribe h; sb = fold publish es joined ! k in
     sb_live sb = take 32 es \<and> (sb_member sb \<longleftrightarrow> length es \<le> 32) \<and> (sb_done sb \<longleftrightarrow> 32 < length es)"
proof -
  let ?joined = "h @ [\<lparr>sb_wake = False, sb_live = [], sb_member = True, sb_done = False\<rparr>]"
  have "fold publish es ?joined ! length h =
      (?joined ! length h)\<lparr>sb_live := take 32 es, sb_member := length es \<le> 32, sb_done := 32 < length es\<rparr>"
    using publish_burst [of "length h" ?joined es] by (simp add: live_capacity_def Let_def)
  then show ?thesis by (simp add: subscribe_def)
qed

section \<open>Announcements\<close>

abbreviation notice_id :: "notice \<Rightarrow> string" where
  "notice_id n \<equiv> fst (snd (snd n))"

lemma push_events_grow:
  "fold (push_event b) es (s, ns) = (s', ns') \<Longrightarrow> length ns \<le> length ns'"
proof (induction es arbitrary: s ns)
  case (Cons e es)
  obtain s1 ns1 where ev: "push_event b e (s, ns) = (s1, ns1)" by fastforce
  then have "length ns \<le> length ns1" by (cases rule: push_event_cases) auto
  moreover have "length ns1 \<le> length ns'" using Cons.prems ev by (intro Cons.IH) simp
  ultimately show ?case by simp
qed simp

lemma push_events_remember:
  assumes "fold (push_event b) es (s, ns) = (s', ns')" and "push_ok s"
    and "length (pu_order s) + length ns' \<le> push_memory + length ns"
  shows "\<exists>new. ns' = ns @ new \<and> distinct (map notice_id new) \<and>
    set (map notice_id new) \<inter> pu_seen s = {} \<and>
    (\<forall>n \<in> set new. \<exists>e \<in> set es. \<exists>m. unmarshal dec_message (ev_data e) = Inr m \<and> m_id m = notice_id n \<and>
       m_direction m = ''incoming'' \<and> \<not> m_deleted m \<and> now b - m_time m \<le> push_window)"
  using assms
proof (induction es arbitrary: s ns)
  case (Cons e es)
  obtain s1 ns1 where ev: "push_event b e (s, ns) = (s1, ns1)" by fastforce
  have rest: "fold (push_event b) es (s1, ns1) = (s', ns')" using Cons.prems(1) ev by simp
  have ok1: "push_ok s1" using push_event_ok [OF Cons.prems(2) ev] .
  from ev show ?case
  proof (cases rule: push_event_cases)
    case quiet
    then show ?thesis
      using Cons.IH [OF rest ok1] Cons.prems(3) by fastforce
  next
    case (announced m title body)
    have more: "length ns1 \<le> length ns'"
      using rest by (rule push_events_grow)
    then have "length (pu_order s) < push_memory"
      using announced(5) Cons.prems(3) by simp
    then have s1: "pu_order s1 = pu_order s @ [m_id m]" "pu_seen s1 = insert (m_id m) (pu_seen s)"
      by (simp_all add: announced(4) remember_def)
    obtain new where new: "ns' = ns1 @ new" "distinct (map notice_id new)"
      "set (map notice_id new) \<inter> pu_seen s1 = {}"
      "\<forall>n \<in> set new. \<exists>e \<in> set es. \<exists>m. unmarshal dec_message (ev_data e) = Inr m \<and> m_id m = notice_id n \<and>
         m_direction m = ''incoming'' \<and> \<not> m_deleted m \<and> now b - m_time m \<le> push_window"
      using Cons.IH [OF rest ok1] Cons.prems(3) announced(5) s1(1) by auto
    have sh: "m_id m \<notin> pu_seen s" "m_direction m = ''incoming''" "\<not> m_deleted m"
      "now b - m_time m \<le> push_window"
      using announced(2) by (simp_all add: should_push_def)
    show ?thesis
      by (rule exI [of _ "(title, body, m_id m, m_conversation_id m) # new"])
        (use new s1(2) sh announced(1,5) in auto)
  qed
qed simp

text \<open>while the memory of announced messages is not full, no message is announced twice,
  however often its event repeats, and what is announced is an incoming message that was not
  deleted and is at most five minutes old.\<close>

theorem push_announces_once:
  assumes "fold (push_event b) es (s, []) = (s', notices)" and "push_ok s"
    and "length (pu_order s) + length notices \<le> 512"
  shows "distinct (map (\<lambda>(title, body, i, conv). i) notices) \<and>
    (\<forall>(title, body, i, conv) \<in> set notices. i \<notin> pu_seen s \<and>
      (\<exists>e \<in> set es. \<exists>m. unmarshal dec_message (ev_data e) = Inr m \<and> m_id m = i \<and>
        m_direction m = ''incoming'' \<and> \<not> m_deleted m \<and> now b - m_time m \<le> 5 * minute))"
proof -
  have i: "(\<lambda>(title, body, i, conv). i) = notice_id" by (auto simp: fun_eq_iff)
  show ?thesis
    using push_events_remember [OF assms(1,2)] assms(3)
    unfolding i by (fastforce simp: push_memory_def push_window_def)
qed

definition hello :: message where
  "hello = zero_message\<lparr>m_schema := Schema, m_id := ''m'', m_conversation_id := ''c'', m_time := 4,
     m_text := ''hello'', m_direction := ''incoming''\<rparr>"

definition hello_event :: event where
  "hello_event = zero_event\<lparr>ev_id := 7, ev_type := ''message'', ev_entity_id := ''m'',
     ev_data := JText (enc_message hello)\<rparr>"

lemma run_announcement: "fold (push_event (new_bridge (empty_store 5))) [hello_event, hello_event] (start_push 0, []) =
  (\<lparr>pu_cursor = 7, pu_seen = {''m''}, pu_order = [''m'']\<rparr>, [(''New message'', ''hello'', ''m'', ''c'')])"
proof -
  have d: "describe (new_bridge (empty_store 5)) hello = (''New message'', ''hello'')"
    by (simp add: describe_def view_tx_def latest_record_def get_record_def exec runs hello_def zero_message_def)
  show ?thesis
    by (simp add: push_event_def hello_event_def Let_def should_push_def start_push_def d)
      (simp add: hello_def zero_message_def remember_def push_memory_def push_window_def minute_def second_def)
qed

theorem push_announces_once_witness:
  "\<exists>s' notices. fold (push_event (new_bridge (empty_store 5))) [hello_event, hello_event] (start_push 0, []) =
     (s', notices) \<and> length notices = 1 \<and> distinct (map (\<lambda>(title, body, i, conv). i) notices)"
  using push_announces_once [OF run_announcement start_push_ok] run_announcement by (simp add: start_push_def)

section \<open>Round trips\<close>


end
