(* ===== verification/LoopProperties.thy ===== *)
theory LoopProperties
  imports ServiceProperties ImportProperties
begin

text \<open>
  What the loops promise: an import of older pages never reads a page twice and so comes to an end,
  a refresh that fails leaves the phone alone for a bounded time, reconnects are spaced within
  bounds, and notices of an outage alternate between lost and restored.
\<close>

section \<open>Imports end\<close>

text \<open>
  The pages one worker of a job commits, with anything in between that keeps the job's cursor and
  its table of pages: sends, live events, other jobs.
\<close>

definition undisturbed :: "(payload \<Rightarrow> string) \<Rightarrow> string \<Rightarrow> store \<Rightarrow> store \<Rightarrow> bool" where
  "undisturbed h i s s' \<longleftrightarrow> job_at s' i = job_at s i \<and>
     lookup s' BPrivate (history_key i) = lookup s BPrivate (history_key i) \<and> cipher_key s' = cipher_key s \<and>
     exists_bucket s' BPrivate = exists_bucket s BPrivate \<and>
     (\<forall>c. lookup s' BHistoryPages (page_key h i c) = lookup s BHistoryPages (page_key h i c))"

inductive import_run :: "(payload \<Rightarrow> string) \<Rightarrow> string \<Rightarrow> u64 \<Rightarrow> store \<Rightarrow> payload list \<Rightarrow> store \<Rightarrow> bool"
  for h i g s0 where
  started: "import_run h i g s0 [] s0"
| elsewhere: "import_run h i g s0 pages s \<Longrightarrow> undisturbed h i s s' \<Longrightarrow> import_run h i g s0 pages s'"
| page: "import_run h i g s0 pages s \<Longrightarrow> job_at s i = Some job \<Longrightarrow> j_state job = ''queued'' \<Longrightarrow>
    j_generation job = g \<Longrightarrow> checkpoint_history h i g previous following n [] s = Inr ((), s') \<Longrightarrow>
    import_run h i g s0 (pages @ [previous]) s'"

text \<open>What the table of pages and the cursor say about the pages read so far.\<close>

definition import_ok :: "(payload \<Rightarrow> string) \<Rightarrow> string \<Rightarrow> payload list \<Rightarrow> store \<Rightarrow> bool" where
  "import_ok h i pages s \<longleftrightarrow> distinct (map h pages) \<and> (\<forall>job. job_at s i = Some job \<longrightarrow> j_id job = i) \<and>
     (\<forall>c \<in> set pages. lookup s BHistoryPages (page_key h i c) \<noteq> None) \<and>
     (pages \<noteq> [] \<longrightarrow> (\<forall>job cursor. job_at s i = Some job \<longrightarrow> j_state job = ''queued'' \<longrightarrow>
        history_cursor i s = Inr (cursor, s) \<longrightarrow> h cursor \<notin> h ` set pages))"

lemma checkpoint_pages:
  assumes "job_at s i = Some job" and "j_id job = i" and "j_state job = ''queued''"
    and "checkpoint_history h i (j_generation job) previous following n [] s = Inr (u, s')"
  shows "lookup s' BHistoryPages (page_key h i c) =
      (if page_key h i c = page_key h i previous then Some (Raw [char_of (1 :: nat)])
       else lookup s BHistoryPages (page_key h i c))"
    and "job_at s' i = Some job' \<Longrightarrow> j_id job' = i"
proof -
  let ?ctx = "''private:'' @ history_key i"
  from assms obtain t1 t2 t3 b where
    t1: "bcreate BHistoryPages s = Inr ((), t1)"
    and t2: "t2 = put_kv BHistoryPages (page_key h i previous) (Raw [char_of (1 :: nat)]) t1"
      "exists_bucket t1 BHistoryPages"
    and t3: "t3 = put_kv BPrivate (history_key i) (Sealed (cipher_key t2) ?ctx following) t2"
    and wr: "write_history (page_read job following (lookup t2 BHistoryPages (page_key h i following) \<noteq> None) n) t3
      = Inr (b, s')"
    using upholdsD [OF frame_history_cursor [where B = "{}"]]
    by (fastforce simp: checkpoint_history_def bind_tx_Inr then_tx_Inr history_tx_Inr bput_Inr bget_Inr
        put_sealed_Inr split: if_splits)
  note w = write_history_Inr [OF wr]
  have id: "j_id (page_read job following x n) = i" for x
    using assms(2) by (simp add: page_read_def Let_def)
  have t: "lookup t1 BHistoryPages k = lookup s BHistoryPages k" for k
    using t1 by (auto simp: bcreate_Inr split: if_splits)
  show "lookup s' BHistoryPages (page_key h i c) =
      (if page_key h i c = page_key h i previous then Some (Raw [char_of (1 :: nat)])
       else lookup s BHistoryPages (page_key h i c))"
    using frame_lookup [OF w(3), of BHistoryPages] t3 t2 t by simp
  show "job_at s' i = Some job' \<Longrightarrow> j_id job' = i"
    using w(1) w(2) [of i] id by auto
qed

lemma page_key_eq [simp]: "page_key h i c = page_key h i d \<longleftrightarrow> h c = h d"
  by (simp add: page_key_def)

lemma cursor_undisturbed:
  assumes "undisturbed h i s s'" and "history_cursor i s' = Inr (cursor, s')"
  shows "history_cursor i s = Inr (cursor, s)"
  using assms by (auto simp: undisturbed_def history_cursor_def tx_elims split: option.splits)

lemma import_run_ok:
  assumes "import_run h i g s0 pages s" and "\<And>job. job_at s0 i = Some job \<Longrightarrow> j_id job = i"
  shows "import_ok h i pages s"
  using assms(1)
proof (induction rule: import_run.induct)
  case started
  then show ?case using assms(2) by (simp add: import_ok_def)
next
  case (elsewhere pages s s')
  then show ?case
    using cursor_undisturbed [OF elsewhere.hyps(2)]
    unfolding import_ok_def undisturbed_def by metis
next
  case (page pages s job previous following n s')
  note id = page.IH [unfolded import_ok_def]
  have job: "j_id job = i" using id page.hyps(2) by blast
  note cp = page.hyps(5) [folded page.hyps(4)]
  note eff = checkpoint_effects [OF page.hyps(2) job page.hyps(3) cp]
  note tab = checkpoint_pages [OF page.hyps(2) job page.hyps(3) cp]
  have new: "h previous \<notin> h ` set pages"
    using id eff(1) page.hyps(2,3) by (cases "pages = []") auto
  have recorded: "lookup s' BHistoryPages (page_key h i c) \<noteq> None" if "c \<in> set (pages @ [previous])" for c
    using that id tab(1) [of c] by auto
  have fresh: "h cursor \<notin> h ` set (pages @ [previous])"
    if j: "job_at s' i = Some job'" "j_state job' = ''queued''" and c: "history_cursor i s' = Inr (cursor, s')"
    for job' cursor
  proof -
    have "cursor = following" using eff(2) c by simp
    moreover have "lookup s BHistoryPages (page_key h i following) = None \<and> h following \<noteq> h previous"
      using eff(3) j by auto
    moreover from this have "h following \<notin> h ` set pages"
      using id by (metis (no_types, lifting) imageE page_key_eq)
    ultimately show ?thesis by simp
  qed
  show ?case
    unfolding import_ok_def using id new recorded fresh tab(2) by auto
qed



section \<open>Refreshes back off\<close>

lemma sync_backoff_bounds:
  assumes "0 < every" and "every \<le> max_sync_backoff"
  shows "every \<le> sync_backoff every n \<and> sync_backoff every n \<le> max_sync_backoff \<and>
    sync_backoff every n \<le> sync_backoff every (Suc n)"
proof -
  have "(1 :: int) \<le> 2 ^ min (n - 1) 8" by simp
  then have "every * 1 \<le> every * 2 ^ min (n - 1) 8"
    using assms(1) by (intro mult_left_mono) simp_all
  moreover have "(2 :: int) ^ min (n - 1) 8 \<le> 2 ^ min n 8" by (intro power_increasing) simp_all
  then have "every * 2 ^ min (n - 1) 8 \<le> every * 2 ^ min n 8"
    using assms(1) by (intro mult_left_mono) simp_all
  ultimately show ?thesis using assms(2) by (simp add: sync_backoff_def)
qed

lemma sync_turn_failed:
  assumes "sync_turn p l b = (l', b')" and "sy_failures l < sy_failures l'"
  shows "sy_failures l' = Suc (sy_failures l) \<and>
    sy_retry_at l' = now b + sync_backoff (b_sync_every b') (sy_failures l')"
proof -
  have active: "\<not> (b_done b \<or> \<not> sync_due l b)"
  proof
    assume "b_done b \<or> \<not> sync_due l b"
    then have "sync_turn p l b = (l, b)" unfolding sync_turn_def by (rule if_P)
    with assms show False by simp
  qed
  then obtain b1 s1 where turn: "(case reconcile p (b1, s1) of
            (Inl e, (b2, seen')) \<Rightarrow> sync_failed (now b) (l\<lparr>sy_seen := seen'\<rparr>) b2
          | (Inr _, (b2, seen')) \<Rightarrow> sync_finished (st_updated (b_status b)) (l\<lparr>sy_seen := seen'\<rparr>) b2) = (l', b')"
    using that assms(1) [unfolded sync_turn_def Let_def if_not_P [OF active]] by blast
  obtain r b2 s2 where run: "reconcile p (b1, s1) = (r, (b2, s2))" by (metis surj_pair)
  show ?thesis
  proof (cases r)
    case (Inl e)
    then show ?thesis using turn run by (auto simp: sync_failed_def Let_def)
  next
    case (Inr u)
    then have "sy_failures l' = 0" using turn run by (auto simp: sync_finished_def Let_def)
    then show ?thesis using assms(2) by simp
  qed
qed

text \<open>After a refresh that failed, the next one waits at least the sync interval and at
  most thirty minutes, never shorter after one more failure; until then, while the phone is not
  known to answer and nobody asks for a full refresh, a turn of the loop does nothing.\<close>

theorem backoff_leaves_phone_alone:
  assumes "sync_turn p l b = (l', b')" and "sy_failures l < sy_failures l'"
    and "0 < b_sync_every b'" and "b_sync_every b' \<le> 30 * minute"
  shows "b_sync_every b' \<le> sy_retry_at l' - now b \<and> sy_retry_at l' - now b \<le> 30 * minute \<and>
    sync_backoff (b_sync_every b') (sy_failures l) \<le> sy_retry_at l' - now b \<and>
    (\<forall>later. \<not> st_phone (b_status later) \<and> \<not> b_full_sync later \<and> now later < sy_retry_at l' \<longrightarrow>
       sync_turn p l' later = (l', later))"
proof -
  note f = sync_turn_failed [OF assms(1,2)]
  have "sync_turn p l' later = (l', later)"
    if "\<not> st_phone (b_status later)" "\<not> b_full_sync later" "now later < sy_retry_at l'" for later
    using that f by (simp add: sync_turn_def sync_due_def Let_def)
  with f show ?thesis
    using sync_backoff_bounds [of "b_sync_every b'" "sy_failures l"]
      sync_backoff_bounds [of "b_sync_every b'" "sy_failures l'"] assms(3,4)
    by (simp add: max_sync_backoff_def)
qed

lemma run_sync_failure:
  "\<exists>l' b'. sync_turn unreachable_provider new_sync ready_bridge = (l', b') \<and> sy_failures l' = 1 \<and>
     b_sync_every b' = 5 * minute"
proof -
  have "st_transport (b_status ready_bridge)" "b_sync_every ready_bridge = 5 * minute"
    by (simp_all add: ready_bridge_def set_provider_def connection_def record_event_def failed_def
        failed_state_def set_state_def Let_def new_bridge_def set_status_def set_status_reason_def notify_hub_def
        zero_status_def)
  then show ?thesis
    by (simp add: sync_turn_def sync_due_def new_sync_def Let_def reconcile_def watermark_act_def
        on_bridge_def unreachable_provider_def act_defs view_db_def view_tx_def sync_failed_def
        split: sum.split prod.split)
qed

theorem backoff_leaves_phone_alone_witness:
  "\<exists>l' b'. sync_turn unreachable_provider new_sync ready_bridge = (l', b') \<and>
     5 * minute \<le> sy_retry_at l' - now ready_bridge"
proof -
  obtain l' b' where run: "sync_turn unreachable_provider new_sync ready_bridge = (l', b')"
    and "sy_failures l' = 1" "b_sync_every b' = 5 * minute"
    using run_sync_failure by blast
  with backoff_leaves_phone_alone [OF run] show ?thesis
    by (auto simp: new_sync_def minute_def second_def)
qed

section \<open>Outages\<close>

text \<open>
  What one watch of the connection says, over any sequence of moments: \<open>bs\<close> are the states the
  watcher finds, of which only the outage it is tracking is its own.
\<close>

definition with_outage :: "outage option \<Rightarrow> bridge \<Rightarrow> bridge" where
  "with_outage og b = b\<lparr>b_status := (b_status b)\<lparr>st_outage := og\<rparr>\<rparr>"

fun watched :: "(time \<Rightarrow> string) \<Rightarrow> (time \<Rightarrow> string) \<Rightarrow> bridge list \<Rightarrow> outage option \<Rightarrow>
  (string \<times> string) list" where
  "watched kitchen rounded [] og = []"
| "watched kitchen rounded (b # bs) og =
    (case watch_turn kitchen rounded (with_outage og b) of (n, b') \<Rightarrow>
       (case n of None \<Rightarrow> [] | Some notice \<Rightarrow> [notice]) @
       watched kitchen rounded bs (st_outage (b_status b')))"

definition lost_notice :: "string \<times> string \<Rightarrow> bool" where
  "lost_notice n \<longleftrightarrow> fst n \<in> {''WhatsApp connection lost'', ''Messages connection lost''}"

definition announced :: "outage option \<Rightarrow> bool" where
  "announced og \<longleftrightarrow> (case og of None \<Rightarrow> False | Some x \<Rightarrow> og_announced x)"

fun alternates :: "bool \<Rightarrow> bool list \<Rightarrow> bool" where
  "alternates x [] = True"
| "alternates x (y # ys) = (y = x \<and> alternates (\<not> x) ys)"

definition network_label :: "bridge \<Rightarrow> string" where
  "network_label b = (if network_of b = ''whatsapp'' then ''WhatsApp'' else ''Messages'')"

lemma lost_label [simp]:
  "lost_notice (network_label b @ '' connection lost'', body)"
  "\<not> lost_notice (network_label b @ '' connection restored'', body)"
  by (simp_all add: lost_notice_def network_label_def)

definition tracked :: "bridge \<Rightarrow> outage" where
  "tracked b = (case st_outage (b_status b) of
     None \<Rightarrow> \<lparr>og_since = st_state_since (b_status b), og_announced = False\<rparr> | Some og \<Rightarrow> og)"

lemma watch_turn_down:
  assumes "outage_state (st_state (b_status b))"
  shows "(announce (now b) (tracked b) = None \<and> watch_turn kitchen rounded b = (None, with_outage (Some (tracked b)) b)) \<or>
    (\<exists>og body. announce (now b) (tracked b) = Some og \<and> watch_turn kitchen rounded b =
       (Some (network_label b @ '' connection lost'', body), notify_hub (with_outage (Some og) b)))"
proof -
  have "track_outage (now b) b = ((announce (now b) (tracked b), None, 0),
      with_outage (Some (case announce (now b) (tracked b) of None \<Rightarrow> tracked b | Some og \<Rightarrow> og)) b)"
    using assms unfolding track_outage_def tracked_def with_outage_def Let_def by simp
  moreover have "network_of (with_outage og b) = network_of b" for og
    by (simp add: with_outage_def network_of_def)
  ultimately show ?thesis
    by (cases "announce (now b) (tracked b)") (simp_all add: watch_turn_def Let_def network_label_def)
qed

lemma watch_turn_up:
  assumes "\<not> outage_state (st_state (b_status b))"
  shows "watch_turn kitchen rounded b = (None, b) \<or>
    (\<exists>og. st_outage (b_status b) = Some og \<and> st_state (b_status b) = ''connected'' \<and>
       now b - st_state_since (b_status b) \<ge> outage_settle \<and>
       ((\<not> og_announced og \<and> watch_turn kitchen rounded b = (None, with_outage None b)) \<or>
        (\<exists>body. og_announced og \<and> watch_turn kitchen rounded b =
           (Some (network_label b @ '' connection restored'', body), notify_hub (with_outage None b)))))"
proof (cases "st_outage (b_status b)")
  case None
  then show ?thesis
    using assms by (simp add: watch_turn_def track_outage_def Let_def)
next
  case (Some og)
  have net: "network_of (with_outage None b) = network_of b"
    by (simp add: with_outage_def network_of_def)
  show ?thesis
  proof (cases "st_state (b_status b) = ''connected'' \<and> now b - st_state_since (b_status b) \<ge> outage_settle")
    case True
    then have "track_outage (now b) b = ((None, Some og, st_state_since (b_status b)), with_outage None b)"
      using assms Some by (simp add: track_outage_def with_outage_def Let_def)
    with True Some net show ?thesis
      by (cases "og_announced og") (simp_all add: watch_turn_def Let_def network_label_def)
  next
    case False
    then have "track_outage (now b) b = ((None, None, 0), b)"
      using assms Some by (auto simp: track_outage_def Let_def)
    then show ?thesis by (simp add: watch_turn_def Let_def)
  qed
qed

lemma with_outage_simps [simp]:
  "st_outage (b_status (with_outage og b)) = og" "st_outage (b_status (notify_hub b)) = st_outage (b_status b)"
  by (simp_all add: with_outage_def notify_hub_def)

lemma announce_Some:
  "announce t og = Some og' \<Longrightarrow> \<not> og_announced og \<and> og_announced og' \<and> t - og_since og' \<ge> outage_notice_after"
  by (auto simp: announce_def split: if_splits)

lemma tracked_announced: "og_announced (tracked b) = announced (st_outage (b_status b))"
  by (simp add: tracked_def announced_def split: option.split)

text \<open>One watch: a lost notice starts an announced outage, a restored one ends it.\<close>

lemma watch_turn_notice:
  assumes "watch_turn kitchen rounded b = (n, b')"
  shows "case n of
      None \<Rightarrow> announced (st_outage (b_status b')) = announced (st_outage (b_status b))
    | Some notice \<Rightarrow> if lost_notice notice
        then \<not> announced (st_outage (b_status b)) \<and>
          (\<exists>og. st_outage (b_status b') = Some og \<and> og_announced og \<and> now b - og_since og \<ge> outage_notice_after)
        else announced (st_outage (b_status b)) \<and> st_outage (b_status b') = None \<and>
          st_state (b_status b) = ''connected'' \<and> now b - st_state_since (b_status b) \<ge> outage_settle"
proof (cases "outage_state (st_state (b_status b))")
  case True
  from watch_turn_down [OF True, of kitchen rounded] show ?thesis
  proof (elim disjE exE conjE)
    assume "watch_turn kitchen rounded b = (None, with_outage (Some (tracked b)) b)"
    then show ?thesis using assms tracked_announced [of b] by (auto simp: announced_def)
  next
    fix og body
    assume og: "announce (now b) (tracked b) = Some og" and "watch_turn kitchen rounded b =
       (Some (network_label b @ '' connection lost'', body), notify_hub (with_outage (Some og) b))"
    then show ?thesis using assms announce_Some [OF og] tracked_announced [of b] by auto
  qed
next
  case False
  from watch_turn_up [OF False, of kitchen rounded] show ?thesis
    using assms by (elim disjE exE conjE) (auto simp: announced_def)
qed

text \<open>over any sequence of connection states the notices alternate between lost and restored, starting with lost:
  an outage is announced once, and only outages that were announced are declared over.  A lost notice
  means that the connection has been down for fifteen minutes, a restored one that it has been
  connected for five.\<close>

theorem outage_notices:
  "alternates (\<not> announced og) (map lost_notice (watched kitchen rounded bs og)) \<and>
   (case watch_turn kitchen rounded b of (None, b') \<Rightarrow> True
    | (Some notice, b') \<Rightarrow>
        if lost_notice notice
        then \<exists>down. st_outage (b_status b') = Some down \<and> now b - og_since down \<ge> 15 * minute
        else st_state (b_status b) = ''connected'' \<and> now b - st_state_since (b_status b) \<ge> 5 * minute)"
proof
  show "alternates (\<not> announced og) (map lost_notice (watched kitchen rounded bs og))"
  proof (induction bs arbitrary: og)
    case (Cons b bs)
    obtain n b' where run: "watch_turn kitchen rounded (with_outage og b) = (n, b')" by fastforce
    have "st_outage (b_status (with_outage og b)) = og" by (simp add: with_outage_def)
    note turn = watch_turn_notice [OF run, unfolded this]
    note rest = Cons [of "st_outage (b_status b')"]
    show ?case
    proof (cases n)
      case None
      with turn rest show ?thesis by (simp add: run)
    next
      case (Some notice)
      show ?thesis
      proof (cases "lost_notice notice")
        case True
        then have "\<not> announced og \<and> announced (st_outage (b_status b'))"
          using turn Some by (auto simp: announced_def)
        then show ?thesis using rest True Some by (simp add: run)
      next
        case False
        then have "announced og \<and> \<not> announced (st_outage (b_status b'))"
          using turn Some by (simp add: announced_def)
        then show ?thesis using rest False Some by (simp add: run)
      qed
    qed
  qed simp
  show "case watch_turn kitchen rounded b of (None, b') \<Rightarrow> True
    | (Some notice, b') \<Rightarrow>
        if lost_notice notice
        then \<exists>down. st_outage (b_status b') = Some down \<and> now b - og_since down \<ge> 15 * minute
        else st_state (b_status b) = ''connected'' \<and> now b - st_state_since (b_status b) \<ge> 5 * minute"
  proof -
    obtain n b' where run: "watch_turn kitchen rounded b = (n, b')" by fastforce
    show ?thesis
      using watch_turn_notice [OF run]
      by (cases n) (auto simp: run outage_notice_after_def outage_settle_def)
  qed
qed

section \<open>Reconnects\<close>

lemma supervise_run_sleep:
  assumes "supervise_run run offline delay b = (Supervise_sleep wait, delay', b')"
  obtains b2 where "b' = connection_stopped b2" and "\<not> needs_authentication b2" and "\<not> offline"
    and "wait = delay \<or> wait = b_reconnect_delay b2" and "delay' = next_delay wait"
proof (cases "pairing_active b")
  case False
  obtain r b1 where r: "run (b\<lparr>b_connected := True, b_interrupted := False\<rparr>) = (r, b1)" by fastforce
  show thesis
    by (rule that [of "b1\<lparr>b_connected := False\<rparr>"])
      (use assms False in \<open>auto simp: supervise_run_def r Let_def split: if_splits\<close>)
qed (use assms in \<open>simp add: supervise_run_def\<close>)

text \<open>The supervisor waits before every reconnect, between the configured delay and five
  minutes, and the next wait is at least as long and at most doubled; it does not retry at all when
  signing in is required, when another device took the stream over, or during an offline run.\<close>

theorem reconnect_delays_are_bounded:
  assumes "supervise_pass process run offline delay b = (Supervise_sleep wait, delay', b')"
    and "0 < delay" and "delay \<le> 5 * minute"
    and "0 < b_reconnect_delay b'" and "b_reconnect_delay b' \<le> 5 * minute"
  shows "0 < wait \<and> wait \<le> 5 * minute \<and> wait \<le> delay' \<and> delay' \<le> 5 * minute \<and> delay' \<le> 2 * wait \<and>
    (wait = delay \<or> wait = b_reconnect_delay b') \<and>
    \<not> offline \<and> st_state (b_status b') = ''connection_failed'' \<and>
    st_reason (b_status b') = ''transient_connection_failure''"
proof -
  from assms(1) obtain b1 where "supervise_run run offline delay b1 = (Supervise_sleep wait, delay', b')"
    by (auto simp: supervise_pass_def split: if_splits option.splits prod.splits sum.splits)
  then obtain b2 where b2: "b' = connection_stopped b2" "\<not> needs_authentication b2" "\<not> offline"
    "wait = delay \<or> wait = b_reconnect_delay b2" "delay' = next_delay wait"
    by (rule supervise_run_sleep)
  have st: "st_state (b_status b') = ''connection_failed''"
    "st_reason (b_status b') = ''transient_connection_failure''" "b_reconnect_delay b' = b_reconnect_delay b2"
    by (simp_all add: b2(1) connection_stopped_def set_status_reason_def set_state_def record_event_def
        notify_hub_def Let_def)
  then have w: "0 < wait" "wait \<le> max_reconnect_delay"
    using b2(4) assms(2-5) by (auto simp: max_reconnect_delay_def)
  have "next_delay wait \<le> 2 * wait"
    using w by (simp add: next_delay_def)
  then show ?thesis
    using next_delay_bounds [OF w] w b2 st by (auto simp: max_reconnect_delay_def)
qed

lemma run_supervise:
  "\<exists>b'. supervise_pass (return_act ()) (fail_act ErrUnavailable) False (5 * second) (new_bridge with_one) =
     (Supervise_sleep (5 * second), 10 * second, b') \<and> b_reconnect_delay b' = 5 * second"
  by (simp add: supervise_pass_def supervise_run_def act_defs new_bridge_def set_status_def
      set_status_reason_def set_state_def notify_hub_def Let_def pairing_active_def zero_pairing_def
      active_pair_def needs_authentication_def zero_status_def now_def next_delay_def
      max_reconnect_delay_def second_def minute_def connection_stopped_def record_event_def)

theorem reconnect_delays_are_bounded_witness:
  "\<exists>b'. supervise_pass (return_act ()) (fail_act ErrUnavailable) False (5 * second) (new_bridge with_one) =
     (Supervise_sleep (5 * second), 10 * second, b') \<and> st_state (b_status b') = ''connection_failed''"
proof -
  obtain b' where run: "supervise_pass (return_act ()) (fail_act ErrUnavailable) False (5 * second)
      (new_bridge with_one) = (Supervise_sleep (5 * second), 10 * second, b')"
    and "b_reconnect_delay b' = 5 * second"
    using run_supervise by blast
  with reconnect_delays_are_bounded [OF run] show ?thesis
    by (auto simp: minute_def second_def)
qed

end
