(* ===== verification/PairingProperties.thy ===== *)
theory PairingProperties
  imports ServiceProperties
begin

text \<open>
  What a pairing promises: its ticket opens it once, callbacks of an attempt that is over change
  nothing, a commit and a cancellation never both succeed, an expired pairing ends, and automatic
  recovery stays within its budget.
\<close>

section \<open>The ticket\<close>

text \<open>Only the ticket of the current pairing, before it expires, is accepted; it is consumed
  by that, so the same or any other ticket is refused from then on, and a refused submission leaves
  the bridge as it is.\<close>

theorem ticket_is_used_once:
  assumes "submit_pairing_cookies ticket cookies b = (r, b')"
  shows "case r of
      Inl e \<Rightarrow> b' = b \<and> (e = ErrPairingTicket \<longleftrightarrow> \<not> ticket_valid ticket b)
    | Inr u \<Rightarrow> ps_state (b_pairing_state b) = ''waiting_for_login'' \<and> ticket = ps_ticket (b_pairing_state b) \<and>
        length ticket = 43 \<and> now b \<le> ps_expires (b_pairing_state b) \<and>
        ps_state (b_pairing_state b') = ''connecting'' \<and> b_pair_wake b' \<and>
        (\<exists>clean. b_pair_cookies b' = Some clean \<and> set clean \<subseteq> set cookies \<and> fst ` set clean \<subseteq> fst ` set cookie_names) \<and>
        submit_pairing_cookies ticket' cookies' b' = (Inl ErrPairingTicket, b')"
proof (cases "ticket_valid ticket b")
  case False
  then show ?thesis using assms by (auto simp: submit_pairing_cookies_def act_defs)
next
  case True
  have clean: "clean_submitted cookies = Inl e \<Longrightarrow> e = ErrInvalid"
    "clean_submitted cookies = Inr cs \<Longrightarrow> set cs \<subseteq> set cookies \<and> fst ` set cs \<subseteq> fst ` set cookie_names" for e cs
    by (auto simp: clean_submitted_def Let_def split: if_splits)
  show ?thesis
  proof (cases "clean_submitted cookies")
    case (Inl e)
    then show ?thesis using assms True clean(1) by (auto simp: submit_pairing_cookies_def act_defs)
  next
    case (Inr cs)
    then have r: "r = Inr ()" "b_pair_cookies b' = Some cs" "b_pair_wake b'"
      "ps_state (b_pairing_state b') = ''connecting''"
      using assms True by (auto simp: submit_pairing_cookies_def act_defs)
    then have "submit_pairing_cookies ticket' cookies' b' = (Inl ErrPairingTicket, b')"
      by (simp add: submit_pairing_cookies_def act_defs ticket_valid_def Let_def)
    with r True clean(2) [OF Inr] show ?thesis
      by (auto simp: ticket_valid_def Let_def)
  qed
qed

definition waiting_bridge :: bridge where
  "waiting_bridge = ready_bridge\<lparr>b_pairing_state := zero_pairing\<lparr>ps_state := ''waiting_for_login'',
     ps_ticket := replicate 43 (CHR ''x''), ps_expires := 10 * minute, ps_generation := 1\<rparr>\<rparr>"

definition sign_in :: "(string \<times> string) list" where
  "sign_in = map (\<lambda>(name, _). (name, ''v'')) cookie_names @ [(''NID'', ''ignored'')]"

lemma run_submit: "\<exists>b'. submit_pairing_cookies (replicate 43 (CHR ''x'')) sign_in waiting_bridge = (Inr (), b')"
proof -
  have "now waiting_bridge = 5" by (simp add: waiting_bridge_def now_def)
  then have "ticket_valid (replicate 43 (CHR ''x'')) waiting_bridge"
    by (simp add: ticket_valid_def Let_def) (simp add: waiting_bridge_def minute_def second_def)
  moreover have "\<exists>cs. clean_submitted sign_in = Inr cs"
    by (simp add: clean_submitted_def Let_def sign_in_def cookie_names_def cookie_def max_cookie_def)
  ultimately show ?thesis by (auto simp: submit_pairing_cookies_def act_defs)
qed

theorem ticket_is_used_once_witness:
  "\<exists>b'. submit_pairing_cookies (replicate 43 (CHR ''x'')) sign_in waiting_bridge = (Inr (), b') \<and>
     submit_pairing_cookies (replicate 43 (CHR ''x'')) sign_in b' = (Inl ErrPairingTicket, b')"
proof -
  obtain b' where run: "submit_pairing_cookies (replicate 43 (CHR ''x'')) sign_in waiting_bridge = (Inr (), b')"
    using run_submit by blast
  from ticket_is_used_once [OF run] run show ?thesis by auto
qed

section \<open>Generations\<close>

lemma stale_results:
  assumes "generation \<noteq> ps_generation (b_pairing_state b)" and "generation \<noteq> 0"
  shows "finish_pairing_reason state reason detail generation b = notify_hub b \<and>
    pairing_emoji generation emoji b = b \<and> whatsapp_code generation kind code b = notify_hub b \<and>
    commit_paired h ended generation data b = (Inl ErrCanceled, b)"
  using assms
  by (simp add: finish_pairing_reason_def pairing_emoji_def whatsapp_code_def Let_def commit_paired_def act_defs)

lemma commit_or_cancel:
  "(case cancel_pairing b of (True, canceled) \<Rightarrow>
       \<not> pairing_active canceled \<and> (ps_generation (b_pairing_state b) = 0 \<or>
         commit_paired h ended (ps_generation (b_pairing_state b)) data canceled = (Inl ErrCanceled, canceled))
    | (False, _) \<Rightarrow> \<not> pairing_active b) \<and>
   (case commit_paired h ended (ps_generation (b_pairing_state b)) data b of
      (Inr u, paired) \<Rightarrow> ps_generation (b_pairing_state b) = 0 \<or>
        ps_state (b_pairing_state paired) = ''paired'' \<and> \<not> fst (cancel_pairing paired)
    | (Inl e, kept) \<Rightarrow> b_store kept = b_store b)"
proof
  have "\<not> pairing_active (snd (cancel_pairing b))" if "pairing_active b"
    using that by (simp add: cancel_pairing_def end_pairing_def pairing_active_def active_pair_def)
  then show "case cancel_pairing b of (True, canceled) \<Rightarrow>
       \<not> pairing_active canceled \<and> (ps_generation (b_pairing_state b) = 0 \<or>
         commit_paired h ended (ps_generation (b_pairing_state b)) data canceled = (Inl ErrCanceled, canceled))
    | (False, _) \<Rightarrow> \<not> pairing_active b"
    by (auto simp: cancel_pairing_def commit_paired_def act_defs pairing_active_def)
  define new_phone where "new_phone = (ps_generation (b_pairing_state b) \<noteq> 0 \<and> ps_new_phone (b_pairing_state b))"
  obtain r b1 where c: "commit_db (save_paired_session h data new_phone) b = (r, b1)" by fastforce
  show "case commit_paired h ended (ps_generation (b_pairing_state b)) data b of
      (Inr u, paired) \<Rightarrow> ps_generation (b_pairing_state b) = 0 \<or>
        ps_state (b_pairing_state paired) = ''paired'' \<and> \<not> fst (cancel_pairing paired)
    | (Inl e, kept) \<Rightarrow> b_store kept = b_store b"
    using c
    by (cases r) (auto simp: commit_paired_def act_runs commit_db_Inl end_pairing_def cancel_pairing_def
        pairing_active_def active_pair_def simp flip: new_phone_def)
qed



section \<open>A pass of the pairing loop\<close>

lemma end_pairing_simps [simp]:
  "b_pair_running (end_pairing state reason detail b) = b_pair_running b"
  "ps_state (b_pairing_state (end_pairing state reason detail b)) = state"
  by (simp_all add: end_pairing_def)

lemma clear_attempt_keeps_pairing [simp]: "b_pairing_state (clear_attempt b) = b_pairing_state b"
  by (auto simp: clear_attempt_def commit_db_def split: prod.splits sum.splits)

text \<open>The pairing with this number is over: it ended, or another one has begun.\<close>

definition over :: "u64 \<Rightarrow> bridge \<Rightarrow> bool" where
  "over generation b \<longleftrightarrow> \<not> pairing_active b \<or> ps_generation (b_pairing_state b) \<noteq> generation"

lemma finish_ends [simp]:
  "over generation (finish_pairing_reason ''failed'' reason detail generation b)"
  "over generation (finish_pairing_reason ''paired'' reason detail generation b)"
  by (auto simp: finish_pairing_reason_def over_def pairing_active_def active_pair_def Let_def)

lemma finish_attempt_ends: "over (ps_generation ps) (snd (finish_attempt text ps result b))"
proof -
  obtain outcome b1 where o: "(if ps_automatic ps \<and> pausing_reason (st_reason (b_status b))
      then (case pause_pairing_recovery b of (Inl e, b') \<Rightarrow> (Inl e, b') | (Inr _, b') \<Rightarrow> (result, b'))
      else (result, b)) = (outcome, b1)"
    by fastforce
  show ?thesis
    unfolding finish_attempt_def o Let_def finish_pairing_def by (cases outcome) simp_all
qed

lemma cancel_ends: "\<not> pairing_active (snd (cancel_pairing b))"
  by (simp add: cancel_pairing_def end_pairing_def pairing_active_def active_pair_def)

lemma end_keeps_generation [simp]:
  "ps_generation (b_pairing_state (end_pairing state reason detail b)) = ps_generation (b_pairing_state b)"
  "ps_generation (b_pairing_state (expire_pairing b)) = ps_generation (b_pairing_state b)"
  "ps_generation (b_pairing_state (finish_pairing_reason state reason detail generation b)) =
     ps_generation (b_pairing_state b)"
  by (simp_all add: expire_pairing_def finish_pairing_reason_def end_pairing_def Let_def)

text \<open>What a reading of the status returns, against the state it leaves.\<close>

lemma pairing_status_state:
  assumes "pairing_status b = (ps, b')"
  shows "b_pairing_state b' = b_pairing_state (expire_pairing b)"
    and "ps_state ps = ps_state (b_pairing_state b')" and "ps_generation ps = ps_generation (b_pairing_state b')"
    and "ps_expires ps = ps_expires (b_pairing_state b')"
proof -
  define b1 where "b1 = expire_pairing b"
  define b2 where "b2 = (if pairing_expired b \<and> \<not> b_pair_running b then clear_attempt b1 else b1)"
  define q where "q = with_sign_in b2 (with_summary b2 (required_pairing b1))"
  have q: "ps_state q = ps_state (b_pairing_state b1)" "ps_generation q = ps_generation (b_pairing_state b1)"
    "ps_expires q = ps_expires (b_pairing_state b1)"
    by (simp_all add: q_def with_sign_in_def with_summary_def required_pairing_def Let_def split: sum.split)
  have b2: "b_pairing_state b2 = b_pairing_state b1" by (simp add: b2_def)
  have "(if network_of b2 \<noteq> ''whatsapp'' then (q, b2)
        else (case view_tx pairing_recovery_get (b_store b2) of
            Inr rec \<Rightarrow> (q\<lparr>ps_recovery := Some rec\<rparr>, b2)
          | Inl e \<Rightarrow> (q, storage_failure e b2))) = (ps, b')"
    using assms unfolding pairing_status_def Let_def b1_def [symmetric] b2_def [symmetric] q_def [symmetric] .
  then have "b_pairing_state b' = b_pairing_state b1 \<and> ps_state ps = ps_state q \<and>
      ps_generation ps = ps_generation q \<and> ps_expires ps = ps_expires q"
    using b2 by (auto split: if_splits sum.splits)
  with q show "b_pairing_state b' = b_pairing_state (expire_pairing b)"
    "ps_state ps = ps_state (b_pairing_state b')" "ps_generation ps = ps_generation (b_pairing_state b')"
    "ps_expires ps = ps_expires (b_pairing_state b')"
    by (simp_all add: b1_def)
qed

text \<open>A pass of the pairing loop never leaves a pairing dangling.  When it returns, the
  pairing it found is over, whatever the attempt answered and whatever changed meanwhile (unless the
  storage had failed before); it waits only for a sign-in that has not expired; and it tries again
  only when the pairing moved on while the status was read.\<close>

theorem pairing_pass_ends_or_waits:
  assumes "b_storage_err b = None"
  shows "case pairing_turn text attempt b of
      (Pairing_return err, b') \<Rightarrow> \<not> pairing_active b' \<or>
        ps_generation (b_pairing_state b') \<noteq> ps_generation (b_pairing_state b)
    | (Pairing_wait, b') \<Rightarrow> ps_state (b_pairing_state b') = ''waiting_for_login'' \<and>
        now b' \<le> ps_expires (b_pairing_state b')
    | (Pairing_again, b') \<Rightarrow>
        ps_state (b_pairing_state b') \<in> {''scan_qr'', ''enter_pairing_code'', ''confirm_on_phone''}"
proof -
  obtain ps b1 where st: "pairing_status b = (ps, b1)" by fastforce
  note e = pairing_status_state [OF st]
  have g: "ps_generation ps = ps_generation (b_pairing_state b)" by (simp add: e)
  show ?thesis
  proof (cases "\<not> active_pair (ps_state ps) \<or> b_ended b1 \<or> now b1 > ps_expires ps \<or>
      ps_state ps = ''waiting_for_login''")
    case True
    have "over n (clear_attempt (snd (cancel_pairing b1)))" for n
      using cancel_ends [of b1] by (simp add: over_def pairing_active_def)
    moreover have "over (ps_generation ps) (finish_pairing ''failed'' detail (ps_generation ps) b1)" for detail
      by (simp add: finish_pairing_def)
    moreover have "\<not> active_pair (ps_state ps) \<Longrightarrow> over n b1" for n
      using e by (simp add: over_def pairing_active_def)
    ultimately show ?thesis
      using True e unfolding over_def [symmetric] g [symmetric] by (auto simp: pairing_turn_def st assms)
  next
    case False
    then have turn: "pairing_turn text attempt b = run_attempt text attempt ps (b1\<lparr>b_fatal := None\<rparr>)"
      by (simp add: pairing_turn_def assms st)
    obtain r b2 where att: "attempt (b_pair_cookies b1) (b1\<lparr>b_fatal := None, b_pair_cookies := None,
        b_pair_running := True, b_pair_canceled := False, b_stopped := False\<rparr>) = (r, b2)"
      by fastforce
    show ?thesis
    proof (cases "ps_state ps = ''connecting''")
      case True
      then have "pairing_turn text attempt b =
          (case finish_attempt text ps r b2 of (err, b3) \<Rightarrow> (Pairing_return err, b3))"
        using e att by (simp add: turn run_attempt_def)
      then show ?thesis
        using finish_attempt_ends [of ps "text" r b2] unfolding over_def g
        by (cases "finish_attempt text ps r b2") simp
    next
      case other: False
      then have "pairing_turn text attempt b = (Pairing_again, b1\<lparr>b_fatal := None\<rparr>)"
        using e by (simp add: turn run_attempt_def)
      then show ?thesis using False other e by (auto simp: active_pair_def)
    qed
  qed
qed

theorem pairing_pass_ends_or_waits_witness:
  "case pairing_turn (\<lambda>_. []) (\<lambda>_. fail_act ErrUnavailable) waiting_bridge of
      (Pairing_return err, b') \<Rightarrow> \<not> pairing_active b' \<or>
        ps_generation (b_pairing_state b') \<noteq> ps_generation (b_pairing_state waiting_bridge)
    | (Pairing_wait, b') \<Rightarrow> ps_state (b_pairing_state b') = ''waiting_for_login'' \<and>
        now b' \<le> ps_expires (b_pairing_state b')
    | (Pairing_again, b') \<Rightarrow>
        ps_state (b_pairing_state b') \<in> {''scan_qr'', ''enter_pairing_code'', ''confirm_on_phone''}"
proof -
  have "b_storage_err (new_bridge with_one) = None" by simp
  then have "b_storage_err waiting_bridge = None"
    by (simp add: waiting_bridge_def ready_bridge_def set_provider_def connection_def record_event_def
        failed_def failed_state_def set_state_def Let_def)
  then show ?thesis by (rule pairing_pass_ends_or_waits)
qed

section \<open>Automatic recovery\<close>

text \<open>The times at which attempts are taken from the budget, over a sequence of calls.\<close>

fun attempts_at :: "time list \<Rightarrow> pairing_recovery \<Rightarrow> time list" where
  "attempts_at [] r = []"
| "attempts_at (t # ts) r =
    (if attempt_due t r then [t] else []) @ attempts_at ts (reserve_attempt t r)"

lemma sint_inc_small: "0 \<le> sint w \<Longrightarrow> sint w < 3 \<Longrightarrow> sint (w + 1) = sint (w :: i64) + 1"
  by (simp add: sint_word_ariths(1) signed_take_bit_int_eq_self)

lemma attempts_at_bounds:
  "0 \<le> sint (pr_attempts r) \<Longrightarrow>
   int (length (attempts_at ts r)) \<le> max 0 (3 - sint (pr_attempts r)) \<and>
   (\<forall>t \<in> set (attempts_at ts r). pr_next_attempt r \<le> t) \<and>
   sorted_wrt (\<lambda>t u. t + 4 * minute \<le> u) (attempts_at ts r)"
proof (induction ts arbitrary: r)
  case (Cons t ts)
  show ?case
  proof (cases "attempt_due t r")
    case False
    then show ?thesis using Cons by (simp add: reserve_attempt_def)
  next
    case True
    define r' where "r' = reserve_attempt t r"
    have due: "sint (pr_attempts r) < 3" "pr_next_attempt r \<le> t"
      using True by (simp_all add: attempt_due_def recovery_attempts_def)
    have r': "sint (pr_attempts r') = sint (pr_attempts r) + 1" "pr_next_attempt r' = t + 4 * minute"
      using True due Cons.prems sint_inc_small [of "pr_attempts r"]
      by (simp_all add: r'_def reserve_attempt_def whatsapp_pairing_lifetime_def recovery_cooldown_def)
    have "0 \<le> sint (pr_attempts r')" using r' Cons.prems by simp
    from Cons.IH [OF this] r' due True show ?thesis
      by (auto simp: minute_def second_def simp flip: r'_def)
  qed
qed simp

text \<open>Automatic linking takes at most three attempts from a budget, at least four minutes apart
  and none before its time, however often and whenever the loop asks.\<close>

theorem recovery_budget:
  assumes "0 \<le> sint (pr_attempts r)"
  shows "length (attempts_at ts r) \<le> 3 \<and> (\<forall>t \<in> set (attempts_at ts r). pr_next_attempt r \<le> t) \<and>
    sorted_wrt (\<lambda>earlier later. earlier + 4 * minute \<le> later) (attempts_at ts r)"
  using attempts_at_bounds [OF assms, of ts] assms by auto

theorem recovery_budget_witness:
  "length (attempts_at [0, minute, 4 * minute, 8 * minute, 12 * minute, 16 * minute]
     (zero_recovery\<lparr>pr_enabled := True\<rparr>)) \<le> 3"
proof -
  have "0 \<le> sint (pr_attempts (zero_recovery\<lparr>pr_enabled := True\<rparr>))"
    by (simp add: zero_recovery_def)
  from recovery_budget [OF this] show ?thesis by blast
qed

end
