(* ===== verification/Http.thy ===== *)
theory Http
  imports BridgeState
begin

text \<open>
  What the handlers of \<open>internal/api\<close> share: the request as they read it, the reply, the numbers
  of a query, the body of a JSON request, the status of an error, and the checks every request
  passes before a handler sees it (\<open>api.go\<close>, \<open>search.go\<close>, \<open>web.go\<close>, the path tests of
  \<open>pairing.go\<close>).

  \<open>net/http\<close> has parsed the request: \<open>hr_query\<close> are the values of each key of the query,
  \<open>hr_header\<close> the first value of a header or the empty string, \<open>hr_segments\<close> the unescaped
  segments of the escaped path, which \<open>ServeMux\<close> matches.  The body is its bytes.
  Functions of the standard library that need Unicode tables, date parsing or a hash are the
  names of \<open>go_library\<close>.
\<close>

section \<open>Requests and replies\<close>

record http_request =
  hr_method :: string
  hr_path :: string
  hr_segments :: "string list"
  hr_host :: string
  hr_query :: "(string \<times> string list) list"
  hr_header :: "string \<Rightarrow> string"
  hr_body :: string

record go_library =
  lib_lower :: "string \<Rightarrow> string"             \<comment> \<open>\<open>strings.ToLower\<close>\<close>
  lib_fold :: "string \<Rightarrow> string \<Rightarrow> bool"       \<comment> \<open>equal member names up to case, as \<open>encoding/json\<close>\<close>
  lib_is_digit :: "nat \<Rightarrow> bool"               \<comment> \<open>\<open>unicode.IsDigit\<close>\<close>
  lib_media_type :: "string \<Rightarrow> string option" \<comment> \<open>the type of \<open>mime.ParseMediaType\<close>\<close>
  lib_time :: "string \<Rightarrow> time option"         \<comment> \<open>\<open>time.Parse(time.RFC3339, _)\<close>\<close>
  lib_json :: "string \<Rightarrow> json option"         \<comment> \<open>the one document a text holds\<close>
  lib_base64 :: "string \<Rightarrow> string"            \<comment> \<open>\<open>base64.RawURLEncoding\<close>\<close>
  lib_sha256 :: "string \<Rightarrow> string"
  lib_hex :: "json \<Rightarrow> string \<Rightarrow> string"       \<comment> \<open>the name of an upload\<close>
  lib_hash :: "payload \<Rightarrow> string"             \<comment> \<open>the key of a history page\<close>
  lib_length :: "json \<Rightarrow> nat"                \<comment> \<open>the length of a document's text\<close>

text \<open>A reply is an error, with its status and text, or a status and what is written.\<close>

type_synonym 'a reply = "(nat \<times> string) + (nat \<times> 'a)"
type_synonym 'a handler = "bridge \<Rightarrow> 'a reply \<times> bridge"

definition refuse :: "nat \<Rightarrow> string \<Rightarrow> 'a handler" where
  "refuse code message b = (Inl (code, message), b)"

text \<open>\<open>apiError\<close>\<close>

definition api_error :: "go_error \<Rightarrow> nat \<times> string" where
  "api_error e =
    (if errors_is e ErrTooLarge then (413, ''attachment exceeds size limit'')
     else if errors_is e ErrPairing then (503, ''pairing is in progress'')
     else if errors_is e ErrInvalid then (400, ''invalid request'')
     else if errors_is e ErrNotFound then (404, ''record not found'')
     else if errors_is e ErrConflict then (409, ''idempotency conflict or operation already attempted'')
     else if errors_is e ErrUnavailable then (503, ''phone connection unavailable'')
     else (503, ''service unavailable''))"

definition answer :: "nat \<Rightarrow> 'a bact \<Rightarrow> 'a handler" where
  "answer code m b = (case m b of (Inl e, b') \<Rightarrow> (Inl (api_error e), b')
     | (Inr x, b') \<Rightarrow> (Inr (code, x), b'))"

section \<open>Queries\<close>

text \<open>\<open>url.Values.Get\<close>\<close>

definition query_get :: "http_request \<Rightarrow> string \<Rightarrow> string" where
  "query_get r k = (case map_of (hr_query r) k of Some (v # _) \<Rightarrow> v | _ \<Rightarrow> [])"

definition ascii_digit :: "char \<Rightarrow> bool" where
  "ascii_digit c \<longleftrightarrow> CHR ''0'' \<le> c \<and> c \<le> CHR ''9''"

fun digits_value :: "nat \<Rightarrow> string \<Rightarrow> nat option" where
  "digits_value n [] = Some n"
| "digits_value n (c # cs) =
     (if ascii_digit c then digits_value (10 * n + (of_char c - 48)) cs else None)"

definition parse_digits :: "string \<Rightarrow> nat option" where
  "parse_digits s = (if s = [] then None else digits_value 0 s)"

text \<open>\<open>strconv.ParseUint(s, 10, 64)\<close> and \<open>strconv.Atoi\<close>\<close>

definition parse_uint :: "string \<Rightarrow> u64 option" where
  "parse_uint s = (case parse_digits s of None \<Rightarrow> None
     | Some n \<Rightarrow> if n < 2 ^ 64 then Some (word_of_nat n) else None)"

definition atoi :: "string \<Rightarrow> int option" where
  "atoi s =
    (let minus = (case s of c # _ \<Rightarrow> c = CHR ''-'' | [] \<Rightarrow> False);
         ds = (case s of c # cs \<Rightarrow> if c = CHR ''-'' \<or> c = CHR ''+'' then cs else s | [] \<Rightarrow> [])
     in case parse_digits ds of None \<Rightarrow> None
        | Some n \<Rightarrow> let i = (if minus then - int n else int n) in
            if - (2 ^ 63) \<le> i \<and> i < 2 ^ 63 then Some i else None)"

text \<open>\<open>pageLimit\<close> and \<open>searchOptions\<close>: \<open>None\<close> is the reply \<open>limit must be 1..500\<close>.\<close>

definition limit_value :: "string \<Rightarrow> nat option" where
  "limit_value v = (case atoi v of None \<Rightarrow> None
     | Some n \<Rightarrow> if n < 1 \<or> n > 500 then None else Some (nat n))"

definition page_limit :: "http_request \<Rightarrow> nat option" where
  "page_limit r = (let v = query_get r ''limit'' in if v \<noteq> [] then limit_value v else Some 100)"

definition search_options :: "go_library \<Rightarrow> http_request \<Rightarrow> (string \<times> nat) option" where
  "search_options L r =
    (let q = lib_lower L (trim_space (query_get r ''q'')) in
     case map_of (hr_query r) ''limit'' of None \<Rightarrow> Some (q, 0)
     | Some vs \<Rightarrow> if length vs \<noteq> 1 then None
         else (case limit_value (hd vs) of None \<Rightarrow> None | Some n \<Rightarrow> Some (q, n)))"

definition limit_refused :: "'a handler" where
  "limit_refused = refuse 400 ''limit must be 1..500''"

text \<open>\<open>cursor\<close>: a reconnecting \<open>EventSource\<close> sends the number of the last event it has seen.\<close>

definition cursor :: "http_request \<Rightarrow> u64 option" where
  "cursor r =
    (let last = hr_header r ''Last-Event-ID'';
         v = (if last = [] then query_get r ''after'' else last)
     in if v = [] then Some 0 else parse_uint v)"

section \<open>JSON bodies\<close>

text \<open>
  \<open>decode\<close>.  A member name matches a field exactly or, failing that, up to case; another name is an
  error.  The second \<open>Decode\<close> must find the end of the body, so the body is one document.
\<close>

definition member_name :: "go_library \<Rightarrow> string list \<Rightarrow> string \<Rightarrow> string option" where
  "member_name L names k = (if k \<in> set names then Some k else List.find (lib_fold L k) names)"

fun decode_known :: "go_library \<Rightarrow> string list \<Rightarrow> (string \<Rightarrow> json \<Rightarrow> 'r \<Rightarrow> 'r option) \<Rightarrow> 'r \<Rightarrow>
    (string \<times> json) list \<Rightarrow> 'r option" where
  "decode_known L names set_field r [] = Some r"
| "decode_known L names set_field r ((k, v) # members) =
     (case member_name L names k of None \<Rightarrow> None
      | Some f \<Rightarrow> (case set_field f v r of None \<Rightarrow> None
          | Some r' \<Rightarrow> decode_known L names set_field r' members))"

fun decode_strict :: "go_library \<Rightarrow> string list \<Rightarrow> (string \<Rightarrow> json \<Rightarrow> 'r \<Rightarrow> 'r option) \<Rightarrow> 'r \<Rightarrow>
    json \<Rightarrow> 'r option" where
  "decode_strict L names set_field r (JObj members) = decode_known L names set_field r members"
| "decode_strict L names set_field r JNull = Some r"
| "decode_strict L names set_field r _ = None"

definition max_body :: nat where "max_body = 32768"

definition with_body :: "go_library \<Rightarrow> string list \<Rightarrow> (string \<Rightarrow> json \<Rightarrow> 'r \<Rightarrow> 'r option) \<Rightarrow> 'r \<Rightarrow>
    http_request \<Rightarrow> ('r \<Rightarrow> 'a handler) \<Rightarrow> 'a handler" where
  "with_body L names set_field zero r k =
    (if lib_media_type L (hr_header r ''Content-Type'') \<noteq> Some ''application/json''
     then refuse 415 ''Content-Type must be application/json''
     else if length (hr_body r) > max_body then refuse 400 ''invalid JSON body''
     else case Option.bind (lib_json L (hr_body r)) (decode_strict L names set_field zero) of
         None \<Rightarrow> refuse 400 ''invalid JSON body''
       | Some x \<Rightarrow> k x)"

section \<open>Before the handlers\<close>

text \<open>\<open>servePairingHelper\<close> and \<open>serveAsset\<close> as tests: whether they answer the request.\<close>

definition reads_only :: "http_request \<Rightarrow> bool" where
  "reads_only r \<longleftrightarrow> hr_method r = ''GET'' \<or> hr_method r = ''HEAD''"

definition pairing_helper :: "http_request \<Rightarrow> bool" where
  "pairing_helper r \<longleftrightarrow> \<not> (hr_path r \<noteq> ''/pairing-helper.zip'' \<or> \<not> reads_only r)"

definition assets :: "(string \<times> string) list" where
  "assets = [(''/'', ''index.html''), (''/style.css'', ''style.css''), (''/app.js'', ''app.js''),
     (''/stream.mjs'', ''stream.mjs''), (''/view.mjs'', ''view.mjs''), (''/emoji.mjs'', ''emoji.mjs''),
     (''/emoji-data.mjs'', ''emoji-data.mjs''), (''/manifest.webmanifest'', ''manifest.webmanifest''),
     (''/favicon.svg'', ''favicon.svg''), (''/sw.js'', ''sw.js''),
     (''/icons/icon-192.png'', ''icons/icon-192.png''), (''/icons/icon-512.png'', ''icons/icon-512.png''),
     (''/icons/favicon-32.png'', ''icons/favicon-32.png''),
     (''/icons/icon-maskable-512.png'', ''icons/icon-maskable-512.png'')]"

definition serve_asset :: "http_request \<Rightarrow> bool" where
  "serve_asset r \<longleftrightarrow> reads_only r \<and>
     (hr_path r = ''/favicon.ico'' \<or> map_of assets (hr_path r) \<noteq> None)"

definition origin_allowed :: "string \<Rightarrow> string \<Rightarrow> bool" where
  "origin_allowed origin host \<longleftrightarrow> origin \<in> {''http://'' @ host, ''https://'' @ host,
     ''tauri://localhost'', ''http://tauri.localhost'', ''https://tauri.localhost''}"

text \<open>\<open>strings.CutPrefix\<close>\<close>

definition cut_prefix :: "string \<Rightarrow> string \<Rightarrow> string option" where
  "cut_prefix p s = (if take (length p) s = p then Some (drop (length p) s) else None)"

datatype gate =
    Pairing_helper | Credentials | Agent_pending | Preflight | Asset | Refused nat string | Routed

definition request_origin :: "http_request \<Rightarrow> string" where
  "request_origin r = hr_header r ''Origin''"

definition allowed_origin :: "http_request \<Rightarrow> bool" where
  "allowed_origin r \<longleftrightarrow> request_origin r \<noteq> [] \<and> origin_allowed (request_origin r) (hr_host r)"

text \<open>The handler \<open>New\<close> returns, up to \<open>mux.ServeHTTP\<close>.  \<open>ConstantTimeCompare\<close> is equality.\<close>

definition authorized :: "go_library \<Rightarrow> string \<Rightarrow> http_request \<Rightarrow> bool" where
  "authorized L token r \<longleftrightarrow> (case cut_prefix ''Bearer '' (hr_header r ''Authorization'') of
       None \<Rightarrow> False
     | Some v \<Rightarrow> \<not> (token = [] \<or> lib_sha256 L v \<noteq> lib_sha256 L token))"

definition gate :: "go_library \<Rightarrow> string \<Rightarrow> http_request \<Rightarrow> gate" where
  "gate L token r =
    (if pairing_helper r then Pairing_helper
     else if hr_path r = ''/v1/pairing/credentials'' then Credentials
     else if hr_path r = ''/v1/pairing/agent/pending'' then Agent_pending
     else if hr_method r = ''OPTIONS'' \<and> hr_header r ''Access-Control-Request-Method'' \<noteq> [] then
       (if allowed_origin r then Preflight else Refused 403 ''cross-origin request rejected'')
     else if serve_asset r then Asset
     else if \<not> authorized L token r then Refused 401 ''unauthorized''
     else if request_origin r \<noteq> [] \<and> \<not> allowed_origin r
       then Refused 403 ''cross-origin request rejected''
     else Routed)"

section \<open>Facts about the numbers of a query\<close>

lemma limit_value_bounds: "limit_value v = Some n \<Longrightarrow> 1 \<le> n \<and> n \<le> 500"
  by (auto simp: limit_value_def split: option.splits if_splits)

lemma page_limit_bounds: "page_limit r = Some n \<Longrightarrow> 1 \<le> n \<and> n \<le> 500"
  by (auto simp: page_limit_def Let_def dest: limit_value_bounds split: if_splits)

lemma search_options_bounds: "search_options L r = Some (q, n) \<Longrightarrow> n \<le> 500"
  by (auto simp: search_options_def Let_def dest: limit_value_bounds split: option.splits if_splits)

lemma digits_value_append:
  "digits_value n (xs @ ys) =
   (case digits_value n xs of None \<Rightarrow> None | Some k \<Rightarrow> digits_value k ys)"
  by (induction n xs rule: digits_value.induct) auto

lemma digit_of_char:
  assumes "d < 10"
  shows "ascii_digit (char_of (48 + d))" and "of_char (char_of (48 + d)) - 48 = (d::nat)"
proof -
  have d: "d \<in> {0, 1, 2, 3, 4, 5, 6, 7, 8, 9}" using assms by auto
  have "of_char (char_of (48 + d) :: char) = (48 + d) mod 256" for d :: nat
    by (simp only: of_char_of)
  then show "of_char (char_of (48 + d)) - 48 = d" using assms by simp
  show "ascii_digit (char_of (48 + d))"
    using d by (auto simp: ascii_digit_def less_eq_char_def)
qed

lemma digits_value_decimal [simp]: "digits_value 0 (decimal n) = Some n"
proof (induction n rule: decimal.induct)
  case (1 n)
  then show ?case
    by (subst decimal.simps) (simp add: digits_value_append digit_of_char)
qed

lemma decimal_nonempty [simp]: "decimal n \<noteq> []"
  by (subst decimal.simps) simp

text \<open>A number survives being printed and read back.\<close>

lemma parse_uint_decimal [simp]: "parse_uint (decimal (unat n)) = Some n"
  using unsigned_less [of n, where 'a = nat] by (simp add: parse_uint_def parse_digits_def)

lemma decimal_head: "\<exists>(d::nat) cs. d < 10 \<and> decimal n = char_of (48 + d) # cs"
proof (induction n rule: decimal.induct)
  case (1 n)
  show ?case
  proof (cases "n < 10")
    case True
    then show ?thesis by (intro exI [of _ n] exI [of _ "[]"]) (simp add: decimal.simps)
  next
    case False
    with 1 obtain d cs where "d < 10" "decimal (n div 10) = char_of (48 + d :: nat) # cs" by blast
    with False show ?thesis
      by (intro exI [of _ d] exI [of _ "cs @ [char_of (48 + n mod 10)]"]) (simp add: decimal.simps [of n])
  qed
qed

lemma atoi_unsigned:
  "c \<noteq> CHR ''-'' \<Longrightarrow> c \<noteq> CHR ''+'' \<Longrightarrow> parse_digits (c # cs) = Some n \<Longrightarrow> n < 2 ^ 63 \<Longrightarrow>
   atoi (c # cs) = Some (int n)"
  by (simp add: atoi_def)

lemma atoi_decimal [simp]: "n < 2 ^ 63 \<Longrightarrow> atoi (decimal n) = Some (int n)"
proof -
  assume n: "n < 2 ^ 63"
  obtain d cs where d: "decimal n = char_of (48 + d :: nat) # cs" "d < 10"
    using decimal_head by blast
  have "ascii_digit (char_of (48 + d))" by (rule digit_of_char(1) [OF d(2)])
  moreover have "\<not> ascii_digit (CHR ''-'')" "\<not> ascii_digit (CHR ''+'')"
    by (simp_all add: ascii_digit_def less_eq_char_def)
  ultimately have "char_of (48 + d) \<noteq> CHR ''-''" "char_of (48 + d) \<noteq> CHR ''+''"
    by metis+
  moreover have "parse_digits (decimal n) = Some n" by (simp add: parse_digits_def)
  ultimately show ?thesis
    using n d(1) atoi_unsigned [of "char_of (48 + d)" cs n] by simp
qed

lemma limit_value_decimal [simp]: "1 \<le> n \<Longrightarrow> n \<le> 500 \<Longrightarrow> limit_value (decimal n) = Some n"
  by (simp add: limit_value_def)

lemma answer_run:
  "m b = (Inr x, b') \<Longrightarrow> answer code m b = (Inr (code, x), b')"
  "m b = (Inl e, b') \<Longrightarrow> answer code m b = (Inl (api_error e), b')"
  by (simp_all add: answer_def)

end
