(* ===== verification/Search.thy ===== *)
theory Search
  imports Http RecordStore "HOL-Library.Multiset"
begin

text \<open>
  \<open>internal/api/search.go\<close>: what a query matches, and the order of the lists of \<open>records.go\<close> with
  the cuts made from them.
\<close>

section \<open>Matching\<close>

definition digits :: "string \<Rightarrow> string" where
  "digits s = map char_of (filter (\<lambda>r. 48 \<le> r \<and> r \<le> 57) (runes s))"

definition numeric_query :: "go_library \<Rightarrow> string \<Rightarrow> bool" where
  "numeric_query L q \<longleftrightarrow>
     list_all (\<lambda>r. lib_is_digit L r \<or> r \<in> set (map of_char ''+()- .'')) (runes q)"

definition search_match :: "go_library \<Rightarrow> string \<Rightarrow> string list \<Rightarrow> string list \<Rightarrow> bool" where
  "search_match L q names addresses \<longleftrightarrow>
     q = [] \<or> list_ex (\<lambda>name. contains_str (lib_lower L name) q) names \<or>
     list_ex (\<lambda>address. contains_str (lib_lower L address) q \<or>
       (numeric_query L q \<and> digits q \<noteq> [] \<and> contains_str (digits address) (digits q))) addresses"

section \<open>Orders\<close>

text \<open>
  The two less functions of \<open>sort.Slice\<close>.  They are total on records with different ids, so the
  order among equal elements, which \<open>sort.Slice\<close> leaves open, only concerns records that have
  the same date and the same id.
\<close>

definition newer_conversation :: "conversation \<Rightarrow> conversation \<Rightarrow> bool" where
  "newer_conversation x y \<longleftrightarrow>
     (if c_updated x = c_updated y then c_id x > c_id y else c_updated x > c_updated y)"

definition newer_first :: "message \<Rightarrow> message \<Rightarrow> bool" where
  "newer_first x y \<longleftrightarrow> (if m_time x = m_time y then m_id x > m_id y else m_time x > m_time y)"

interpretation by_update: strict_weak newer_conversation
  by unfold_locales (auto simp: newer_conversation_def split: if_splits)

interpretation by_time: strict_weak newer_first
  by unfold_locales (auto simp: newer_first_def split: if_splits)

section \<open>Decoding stored messages\<close>

text \<open>\<open>newestMessages\<close>: WhatsApp's empty protocol records are left out.\<close>

definition protocol_record :: "string \<Rightarrow> message \<Rightarrow> bool" where
  "protocol_record network m \<longleftrightarrow>
     network = ''whatsapp'' \<and> \<not> m_deleted m \<and> m_text m = [] \<and> m_attachments m = []"

fun read_messages :: "string \<Rightarrow> snapshot_record list \<Rightarrow> go_error + message list" where
  "read_messages network [] = Inr []"
| "read_messages network (r # rs) = (case unmarshal dec_message (sr_data r) of Inl e \<Rightarrow> Inl e
     | Inr m0 \<Rightarrow> let m = m0\<lparr>m_read_only := \<not> sr_current r\<rparr> in
         (case read_messages network rs of Inl e \<Rightarrow> Inl e
          | Inr ms \<Rightarrow> Inr (if protocol_record network m then ms else m # ms)))"

definition newest_messages :: "string \<Rightarrow> snapshot_record list \<Rightarrow> go_error + message list" where
  "newest_messages network raw = (case read_messages network raw of Inl e \<Rightarrow> Inl e
     | Inr ms \<Rightarrow> Inr (sort_by newer_first ms))"

section \<open>Pages of a conversation\<close>

text \<open>What follows the message \<open>before\<close>; \<open>None\<close> when it is not among them.\<close>

definition messages_before :: "string \<Rightarrow> message list \<Rightarrow> message list option" where
  "messages_before before ms =
    (if before = [] then Some ms
     else case dropWhile (\<lambda>m. m_id m \<noteq> before) ms of [] \<Rightarrow> None | _ # rest \<Rightarrow> Some rest)"

definition cut_page :: "nat \<Rightarrow> message list \<Rightarrow> message list \<times> string" where
  "cut_page limit ms =
    (let page = take limit ms in
     (page, if length ms > limit then m_id (last page) else []))"

definition message_page :: "nat \<Rightarrow> string \<Rightarrow> message list \<Rightarrow> (message list \<times> string) option" where
  "message_page limit before ms = map_option (cut_page limit) (messages_before before ms)"

text \<open>A client that follows \<open>next_before\<close> for at most \<open>n\<close> pages.\<close>

fun follow_pages :: "nat \<Rightarrow> nat \<Rightarrow> string \<Rightarrow> message list \<Rightarrow> message list option" where
  "follow_pages 0 limit before ms = None"
| "follow_pages (Suc n) limit before ms = (case message_page limit before ms of None \<Rightarrow> None
     | Some (page, nxt) \<Rightarrow>
         if nxt = [] then Some page
         else map_option ((@) page) (follow_pages n limit nxt ms))"

lemma dropWhile_id:
  "distinct (map m_id (xs @ m # ys)) \<Longrightarrow> dropWhile (\<lambda>x. m_id x \<noteq> m_id m) (xs @ m # ys) = m # ys"
  by (induction xs) auto

lemma messages_before_split:
  "distinct (map m_id (xs @ m # ys)) \<Longrightarrow> m_id m \<noteq> [] \<Longrightarrow>
   messages_before (m_id m) (xs @ m # ys) = Some ys"
  by (simp add: messages_before_def dropWhile_id del: map_append)

text \<open>
  The pages that start after a message of the list give back exactly the rest of the list, in
  order, after at most one page per message.
\<close>

lemma follow_pages_rest:
  assumes "distinct (map m_id ms)" and "[] \<notin> set (map m_id ms)" and "0 < limit"
  shows "messages_before before ms = Some rest \<Longrightarrow> length rest < n \<Longrightarrow>
    (\<exists>xs. ms = xs @ rest) \<Longrightarrow> follow_pages n limit before ms = Some rest"
proof (induction n arbitrary: before rest)
  case (Suc n)
  then obtain xs where xs: "ms = xs @ rest" by blast
  show ?case
  proof (cases "length rest > limit")
    case False
    with Suc.prems(1) show ?thesis by (simp add: message_page_def cut_page_def Let_def)
  next
    case True
    let ?m = "last (take limit rest)"
    have split: "ms = (xs @ butlast (take limit rest)) @ ?m # drop limit rest"
      using xs True assms(3)
      by (metis append.assoc append_Cons append_butlast_last_id append_take_drop_id length_0_conv
          length_take min.absorb2 nat_less_le self_append_conv2 take_eq_Nil less_imp_le_nat
          append_Nil2 list.size(3))
    then have "?m \<in> set ms" by (metis in_set_conv_decomp)
    with assms(2) have ne: "m_id ?m \<noteq> []" by (metis image_eqI set_map)
    have "messages_before (m_id ?m) ms = Some (drop limit rest)"
      using messages_before_split [OF _ ne] assms(1) split by metis
    moreover have "length (drop limit rest) < n" using Suc.prems(2) True assms(3) by simp
    moreover have "\<exists>ys. ms = ys @ drop limit rest" using split by (metis append.assoc append_Cons append_Nil)
    ultimately have "follow_pages n limit (m_id ?m) ms = Some (drop limit rest)"
      by (rule Suc.IH)
    with Suc.prems(1) True ne show ?thesis
      by (simp add: message_page_def cut_page_def Let_def)
  qed
qed simp

section \<open>Facts about the order\<close>

lemma sort_by_distinct_ids: "distinct (map m_id (sort_by lt ms)) = distinct (map m_id ms)"
proof -
  have "mset (sort_by lt ms) = mset ms" for ms
  proof (induction ms)
    case (Cons x xs)
    have "mset (insert_by lt x ys) = add_mset x (mset ys)" for ys
      by (induction ys) auto
    with Cons show ?case by simp
  qed simp
  then have "mset (map m_id (sort_by lt ms)) = mset (map m_id ms)" by simp
  then show ?thesis by (metis mset_eq_imp_distinct_iff)
qed

end
