(* ===== verification/ApiHandlers.thy ===== *)
theory ApiHandlers
  imports Search SyncLoop Contacts BridgePairing
begin

text \<open>
  The handlers of \<open>internal/api\<close>: \<open>records.go\<close>, \<open>features.go\<close>, \<open>pairing.go\<close> and \<open>push.go\<close>, the
  status of \<open>api.go\<close>, and the routes they are registered under.  A handler is a function from the
  bridge to a reply and the bridge it leaves.  The reply carries the value that is written as
  JSON.  The reads of one request see one state of the database.

  \<open>api\<close> holds what the handlers are given: the library, the bridge's token, the provider, the web
  push sender, a fresh transaction id, fresh random bytes, and how a canceled pairing's end was
  awaited.
\<close>

record push_sender =
  pn_public_key :: string
  pn_subscribe :: "string \<Rightarrow> string bact"
  pn_unsubscribe :: "string \<Rightarrow> unit bact"
  pn_count :: "nat bact"
  pn_send :: "string \<Rightarrow> string \<Rightarrow> string \<Rightarrow> string \<Rightarrow> unit bact"

record api =
  ap_library :: go_library
  ap_token :: string
  ap_provider :: provider
  ap_push :: "push_sender option"
  ap_transaction :: string
  ap_random :: "go_error + string"
  ap_waited :: "go_error option"
  ap_error :: "go_error \<Rightarrow> string"   \<comment> \<open>\<open>err.Error()\<close>\<close>
  ap_png :: "string \<Rightarrow> go_error + payload"

datatype body =
    Empty_body
  | Status_body status
  | Conversations_body "conversation list" u64
  | Page_body "message list" u64 string
  | Messages_body "message list" u64
  | Outbox_list_body "payload list" u64
  | Outbox_body outbox
  | Bytes_body payload
  | Contacts_body contact_book
  | Upload_body upload
  | Job_body history_job
  | Jobs_body "payload list" u64
  | Pairing_body pairing_state
  | Adopted_body int pairing_state
  | Agent_body string
  | Pending_body string time
  | Push_off_body
  | Push_body string nat
  | Events_body "event list" u64

definition reply :: "nat \<Rightarrow> 'a \<Rightarrow> 'a handler" where
  "reply code x b = (Inr (code, x), b)"

text \<open>\<open>r.PathValue("id")\<close> is an argument of the handlers below.\<close>

section \<open>Reading conversations and messages\<close>

definition hidden_conversation :: "string \<Rightarrow> conversation \<Rightarrow> bool" where
  "hidden_conversation network c \<longleftrightarrow> network = ''whatsapp'' \<and>
     (suffix ''@broadcast'' (c_id c) \<or> suffix ''@newsletter'' (c_id c) \<or>
      (c_read_only c \<and> c_updated c = 0 \<and> c_preview c = []))"

fun list_conversations ::
  "go_library \<Rightarrow> string \<Rightarrow> string \<Rightarrow> snapshot_record list \<Rightarrow> go_error + conversation list" where
  "list_conversations L network q [] = Inr []"
| "list_conversations L network q (r # rs) =
     (case unmarshal dec_conversation (sr_data r) of Inl e \<Rightarrow> Inl e
      | Inr c0 \<Rightarrow> let c = c0\<lparr>c_read_only := \<not> sr_current r\<rparr> in
          (case list_conversations L network q rs of Inl e \<Rightarrow> Inl e
           | Inr cs \<Rightarrow> Inr (if \<not> hidden_conversation network c \<and>
                search_match L q (c_name c # map p_name (c_participants c))
                  (map p_address (c_participants c))
              then c # cs else cs)))"

definition cut_list :: "nat \<Rightarrow> 'a list \<Rightarrow> 'a list" where
  "cut_list limit xs = (if limit > 0 \<and> length xs > limit then take limit xs else xs)"

definition get_conversations :: "go_library \<Rightarrow> http_request \<Rightarrow> body handler" where
  "get_conversations L r = (case search_options L r of None \<Rightarrow> limit_refused
     | Some (q, limit) \<Rightarrow> answer 200
         (bind_act (view_db (snapshot_current ''conversation'')) (\<lambda>(raw, n).
          bind_act (get_act network_of) (\<lambda>network.
          bind_act (lift_act (list_conversations L network q raw)) (\<lambda>cs.
          return_act (Conversations_body (cut_list limit (sort_by newer_conversation cs)) n))))))"

definition read_conversation_messages :: "string \<Rightarrow> (message list \<times> u64) bact" where
  "read_conversation_messages i =
     then_act (view_db (latest_record ''conversation'' i))
     (bind_act (view_db (conversation_messages i)) (\<lambda>(raw, n).
      bind_act (get_act network_of) (\<lambda>network.
      bind_act (lift_act (newest_messages network raw)) (\<lambda>ms. return_act (ms, n)))))"

definition get_conversation_messages :: "string \<Rightarrow> http_request \<Rightarrow> body handler" where
  "get_conversation_messages i r = (case page_limit r of None \<Rightarrow> limit_refused
     | Some limit \<Rightarrow> (\<lambda>b. case read_conversation_messages i b of
         (Inl e, b') \<Rightarrow> (Inl (api_error e), b')
       | (Inr (ms, n), b') \<Rightarrow> (case message_page limit (query_get r ''before'') ms of
           None \<Rightarrow> refuse 400 ''unknown before message'' b'
         | Some (page, nxt) \<Rightarrow> reply 200 (Page_body page n nxt) b')))"

text \<open>\<open>recentMessageRecords\<close>; the zero time is no bound.\<close>

definition recent_conversation ::
  "time \<Rightarrow> snapshot_record \<Rightarrow> snapshot_record list \<Rightarrow> snapshot_record list bact" where
  "recent_conversation since record found =
     bind_act (lift_act (unmarshal dec_conversation (sr_data record))) (\<lambda>c.
     if c_updated c < since then return_act found
     else bind_act (view_db (conversation_messages (c_id c))) (\<lambda>(raw, n).
       return_act (found @ raw)))"

definition recent_message_records :: "time \<Rightarrow> (snapshot_record list \<times> u64) bact" where
  "recent_message_records since =
    (if since = 0 then view_db (snapshot_current ''message'')
     else bind_act (view_db (snapshot_current ''conversation'')) (\<lambda>(records, n).
       bind_act (fold_act (recent_conversation since) records []) (\<lambda>found.
       return_act (found, n))))"

definition message_wanted :: "go_library \<Rightarrow> time \<Rightarrow> string \<Rightarrow> string \<Rightarrow> message \<Rightarrow> bool" where
  "message_wanted L since direction q m \<longleftrightarrow>
     \<not> (m_time m < since \<or> m_deleted m \<or> (direction \<noteq> [] \<and> m_direction m \<noteq> direction)) \<and>
     \<not> (q \<noteq> [] \<and> \<not> contains_str (lib_lower L (m_text m)) q \<and>
        \<not> contains_str (lib_lower L (m_subject m)) q)"

definition message_records :: "string \<Rightarrow> time \<Rightarrow> (snapshot_record list \<times> u64) bact" where
  "message_records i since =
    (if i \<noteq> [] then then_act (view_db (latest_record ''conversation'' i)) (view_db (conversation_messages i))
     else recent_message_records since)"

text \<open>The query's \<open>since\<close>: absent, or a date, or an error.\<close>

definition since_of :: "go_library \<Rightarrow> http_request \<Rightarrow> time option" where
  "since_of L r = (let v = query_get r ''since'' in if v \<noteq> [] then lib_time L v else Some 0)"

definition list_messages ::
  "go_library \<Rightarrow> nat \<Rightarrow> time \<Rightarrow> string \<Rightarrow> string \<Rightarrow> string \<Rightarrow> (message list \<times> u64) bact" where
  "list_messages L limit since direction q i =
     bind_act (message_records i since) (\<lambda>(raw, n).
     bind_act (get_act network_of) (\<lambda>network.
     bind_act (lift_act (newest_messages network raw)) (\<lambda>ms.
     return_act (take limit (filter (message_wanted L since direction q) ms), n))))"

definition get_messages :: "go_library \<Rightarrow> http_request \<Rightarrow> body handler" where
  "get_messages L r = (case page_limit r of None \<Rightarrow> limit_refused
     | Some limit \<Rightarrow> (case since_of L r of None \<Rightarrow> refuse 400 ''since must be an RFC 3339 time''
       | Some since \<Rightarrow> let direction = query_get r ''direction'' in
           if direction \<noteq> [] \<and> direction \<noteq> ''incoming'' \<and> direction \<noteq> ''outgoing''
           then refuse 400 ''direction must be incoming or outgoing''
           else answer 200 (bind_act
             (list_messages L limit since direction (lib_lower L (trim_space (query_get r ''q'')))
               (query_get r ''conversation_id''))
             (\<lambda>(ms, n). return_act (Messages_body ms n)))))"

section \<open>Sends\<close>

definition get_outbox_list :: "body handler" where
  "get_outbox_list = answer 200 (bind_act (view_db (snapshot ''outbox'')) (\<lambda>(data, n).
     return_act (Outbox_list_body data n)))"

definition get_outbox :: "string \<Rightarrow> body handler" where
  "get_outbox i = answer 200 (bind_act (view_db (outbox_get i)) (\<lambda>ob. return_act (Outbox_body ob)))"

text \<open>\<open>Queue\<close> for a request: 202 for a new send, 200 for one that is already there.\<close>

definition queue_reply :: "api \<Rightarrow> http_request \<Rightarrow> send_request \<Rightarrow> body handler" where
  "queue_reply A r req = (\<lambda>b. case queue_send (ap_transaction A) (hr_header r ''Idempotency-Key'') req b of
       (Inl e, b') \<Rightarrow> (Inl (api_error e), b')
     | (Inr (ob, created), b') \<Rightarrow> reply (if created then 202 else 200) (Outbox_body ob) b')"

definition request_members :: "string list" where
  "request_members = [''kind'', ''recipients'', ''group_name'', ''attachment_ids'', ''message_id'',
     ''emoji'', ''remove'', ''conversation_id'', ''text'']"

definition post_message :: "api \<Rightarrow> http_request \<Rightarrow> body handler" where
  "post_message A r = with_body (ap_library A) request_members set_request zero_request r
     (queue_reply A r)"

definition post_cancel :: "string \<Rightarrow> body handler" where
  "post_cancel i = answer 200 (bind_act (commit_db (cancel_queued i)) (\<lambda>ob.
     then_act (mod_act notify_hub) (return_act (Outbox_body ob))))"

definition post_read :: "api \<Rightarrow> string \<Rightarrow> http_request \<Rightarrow> body handler" where
  "post_read A i r = with_body (ap_library A) [''message_id'']
     (\<lambda>k v old. as_str v old) [] r (\<lambda>message_id.
     answer 204 (then_act (mark_read_act (ap_provider A) i message_id) (return_act Empty_body)))"

definition post_sync :: "body handler" where
  "post_sync = answer 202 (bind_act (get_act status_view) (\<lambda>st.
     if \<not> st_transport st \<or> (st_state st \<noteq> ''connected'' \<and> st_state st \<noteq> ''degraded'')
     then fail_act ErrUnavailable
     else then_act (mod_act request_full_sync) (return_act Empty_body)))"

definition bad_attachment_id :: "string \<Rightarrow> string \<Rightarrow> bool" where
  "bad_attachment_id chars i \<longleftrightarrow> length i \<noteq> 64 \<or> contains_any i chars"

definition get_attachment :: "api \<Rightarrow> string \<Rightarrow> body handler" where
  "get_attachment A i = answer 200
    (if bad_attachment_id [CHR ''/'', CHR 0x5C] i then fail_act ErrInvalid
     else bind_act (attachment_act (lib_length (ap_library A)) (ap_provider A) i)
       (\<lambda>data. return_act (Bytes_body data)))"

section \<open>Contacts, new conversations, reactions, uploads, imports\<close>

definition post_restart :: "body handler" where
  "post_restart = answer 202 (then_act (mod_act request_reconnect) (return_act Empty_body))"

definition matching_contacts :: "go_library \<Rightarrow> string \<Rightarrow> contact list \<Rightarrow> contact list" where
  "matching_contacts L q cs = filter (\<lambda>c. search_match L q [k_name c] [k_address c, k_formatted c]) cs"

definition get_contacts :: "api \<Rightarrow> http_request \<Rightarrow> body handler" where
  "get_contacts A r = (case search_options (ap_library A) r of None \<Rightarrow> limit_refused
     | Some (q, limit) \<Rightarrow> answer 200
         (bind_act (contacts_act (lib_lower (ap_library A)) (ap_provider A)
             (query_get r ''refresh'' = ''1'')) (\<lambda>book.
          return_act (Contacts_body (book\<lparr>b_contacts :=
            cut_list limit (matching_contacts (ap_library A) q (b_contacts book))\<rparr>)))))"

text \<open>The body of both requests that address a conversation.\<close>

definition set_recipients :: "string \<Rightarrow> json \<Rightarrow> string list \<times> string \<Rightarrow> (string list \<times> string) option" where
  "set_recipients k v x =
    (if k = ''recipients'' then map_option (\<lambda>rs. (rs, snd x)) (as_list elem_str v)
     else map_option (\<lambda>name. (fst x, name)) (as_str v (snd x)))"

definition conversation_request :: "string list \<Rightarrow> string \<Rightarrow> send_request" where
  "conversation_request recipients name = zero_request\<lparr>q_kind := ''conversation'',
     q_recipients := recipients, q_group_name := name\<rparr>"

definition post_conversation :: "api \<Rightarrow> http_request \<Rightarrow> body handler" where
  "post_conversation A r = with_body (ap_library A) [''recipients'', ''name''] set_recipients ([], []) r
     (\<lambda>(recipients, name). queue_reply A r (conversation_request recipients name))"

text \<open>The map \<open>seen\<close> holds the members of the list it is kept beside.\<close>

fun add_recipients :: "string list \<Rightarrow> string list \<Rightarrow> string list" where
  "add_recipients existing [] = existing"
| "add_recipients existing (r # rs) =
     add_recipients (if r \<in> set existing then existing else existing @ [r]) rs"

definition post_participants :: "api \<Rightarrow> string \<Rightarrow> http_request \<Rightarrow> body handler" where
  "post_participants A i r = with_body (ap_library A) [''recipients'', ''name''] set_recipients ([], []) r
     (\<lambda>(recipients, name) b. case conversation_recipients i b of
         (Inl e, b') \<Rightarrow> (Inl (api_error e), b')
       | (Inr existing, b') \<Rightarrow>
           queue_reply A r (conversation_request (add_recipients existing recipients) name) b')"

definition reaction_members :: "string list" where
  "reaction_members = [''message_id'', ''emoji'', ''remove'']"

definition post_reaction :: "api \<Rightarrow> string \<Rightarrow> http_request \<Rightarrow> body handler" where
  "post_reaction A i r = with_body (ap_library A) reaction_members set_request zero_request r
     (\<lambda>req. queue_reply A r (req\<lparr>q_kind := ''reaction'', q_conversation_id := i\<rparr>))"

definition post_typing :: "api \<Rightarrow> string \<Rightarrow> body handler" where
  "post_typing A i = answer 204 (then_act (typing_act (ap_provider A) i) (return_act Empty_body))"

definition post_attachment_request :: "api \<Rightarrow> string \<Rightarrow> body handler" where
  "post_attachment_request A i = answer 202
    (if bad_attachment_id [CHR ''/'', CHR 0x5C, CHR ''.''] i then fail_act ErrInvalid
     else then_act (request_attachment (ap_provider A) i) (return_act Empty_body))"

definition post_upload :: "api \<Rightarrow> http_request \<Rightarrow> body handler" where
  "post_upload A r = answer 201
    (if length (hr_body r) > MaxAttachmentBytes then fail_act ErrTooLarge
     else bind_act (save_upload_act (lib_media_type (ap_library A)) (lib_hex (ap_library A))
         (query_get r ''name'') (hr_header r ''Content-Type'') (hr_body r))
       (\<lambda>u. return_act (Upload_body u)))"

record history_request =
  hq_conversation_id :: string
  hq_folder :: string
  hq_restart :: bool

definition set_history_request :: "string \<Rightarrow> json \<Rightarrow> history_request \<Rightarrow> history_request option" where
  "set_history_request k v x =
    (if k = ''conversation_id'' then
       map_option (\<lambda>y. x\<lparr>hq_conversation_id := y\<rparr>) (as_str v (hq_conversation_id x))
     else if k = ''folder'' then map_option (\<lambda>y. x\<lparr>hq_folder := y\<rparr>) (as_str v (hq_folder x))
     else map_option (\<lambda>y. x\<lparr>hq_restart := y\<rparr>) (as_bool v (hq_restart x)))"

definition post_history :: "api \<Rightarrow> http_request \<Rightarrow> body handler" where
  "post_history A r = with_body (ap_library A) [''conversation_id'', ''folder'', ''restart'']
     set_history_request \<lparr>hq_conversation_id = [], hq_folder = [], hq_restart = False\<rparr> r
     (\<lambda>x. answer 202 (bind_act
       (queue_history_act (lib_hash (ap_library A)) (hq_conversation_id x) (hq_folder x) (hq_restart x))
       (\<lambda>job. return_act (Job_body job))))"

definition get_history :: "body handler" where
  "get_history = answer 200 (bind_act (view_db (snapshot ''history'')) (\<lambda>(data, n).
     return_act (Jobs_body data n)))"

definition post_pause :: "string \<Rightarrow> body handler" where
  "post_pause i = answer 200 (bind_act (commit_db (pause_history i)) (\<lambda>job.
     then_act (mod_act notify_hub) (return_act (Job_body job))))"

section \<open>Pairing\<close>

definition pairing_act :: "pairing_state bact" where
  "pairing_act b = (case pairing_status b of (ps, b') \<Rightarrow> (Inr ps, b'))"

definition get_pairing :: "body handler" where
  "get_pairing = answer 200 (bind_act pairing_act (\<lambda>ps. return_act (Pairing_body ps)))"

record recovery_request =
  rr_enabled :: bool
  rr_phone_number :: string
  rr_resume :: bool

definition set_recovery_request :: "string \<Rightarrow> json \<Rightarrow> recovery_request \<Rightarrow> recovery_request option" where
  "set_recovery_request k v x =
    (if k = ''enabled'' then map_option (\<lambda>y. x\<lparr>rr_enabled := y\<rparr>) (as_bool v (rr_enabled x))
     else if k = ''phone_number'' then
       map_option (\<lambda>y. x\<lparr>rr_phone_number := y\<rparr>) (as_str v (rr_phone_number x))
     else map_option (\<lambda>y. x\<lparr>rr_resume := y\<rparr>) (as_bool v (rr_resume x)))"

definition put_recovery :: "api \<Rightarrow> http_request \<Rightarrow> body handler" where
  "put_recovery A r = with_body (ap_library A) [''enabled'', ''phone_number'', ''resume'']
     set_recovery_request \<lparr>rr_enabled = False, rr_phone_number = [], rr_resume = False\<rparr> r
     (\<lambda>x. answer 200 (then_act
       (configure_pairing_recovery (rr_enabled x) (rr_phone_number x) (rr_resume x))
       (bind_act pairing_act (\<lambda>ps. return_act (Pairing_body ps)))))"

definition set_phone_request :: "string \<Rightarrow> json \<Rightarrow> string \<times> bool \<Rightarrow> (string \<times> bool) option" where
  "set_phone_request k v x =
    (if k = ''phone_number'' then map_option (\<lambda>y. (y, snd x)) (as_str v (fst x))
     else map_option (\<lambda>y. (fst x, y)) (as_bool v (snd x)))"

text \<open>\<open>BeginWhatsAppPairing\<close> does not look at \<open>new_phone\<close>: linking always starts a new session.\<close>

definition post_pairing_phone :: "api \<Rightarrow> http_request \<Rightarrow> body handler" where
  "post_pairing_phone A r = with_body (ap_library A) [''phone_number'', ''new_phone'']
     set_phone_request ([], False) r
     (\<lambda>(phone, new_phone). answer 202
       (if phone = [] then fail_act ErrInvalid
        else bind_act (begin_whatsapp_pairing phone) (\<lambda>ps. return_act (Pairing_body ps))))"

definition get_pairing_qr :: "api \<Rightarrow> body handler" where
  "get_pairing_qr A = (\<lambda>b. case pairing_status b of (ps, b') \<Rightarrow>
     if ps_state ps \<noteq> ''scan_qr'' \<or> ps_qr ps = [] then refuse 404 ''no active QR'' b'
     else answer 200 (bind_act (lift_act (ap_png A (ps_qr ps))) (\<lambda>png. return_act (Bytes_body png))) b')"

text \<open>\<open>pairingOptions\<close>: no body means the same phone; unknown members are skipped.\<close>

fun decode_loose :: "go_library \<Rightarrow> string list \<Rightarrow> (string \<Rightarrow> json \<Rightarrow> 'r \<Rightarrow> 'r option) \<Rightarrow> 'r \<Rightarrow>
    (string \<times> json) list \<Rightarrow> 'r option" where
  "decode_loose L names set_field r [] = Some r"
| "decode_loose L names set_field r ((k, v) # members) =
     (case member_name L names k of None \<Rightarrow> decode_loose L names set_field r members
      | Some f \<Rightarrow> (case set_field f v r of None \<Rightarrow> None
          | Some r' \<Rightarrow> decode_loose L names set_field r' members))"

definition pairing_options :: "go_library \<Rightarrow> http_request \<Rightarrow> bool option" where
  "pairing_options L r =
    (if length (hr_body r) > 4096 then None
     else if trim_space (hr_body r) = [] then Some False
     else case lib_json L (hr_body r) of
         Some (JObj members) \<Rightarrow> decode_loose L [''new_phone''] (\<lambda>k v old. as_bool v old) False members
       | Some JNull \<Rightarrow> Some False
       | _ \<Rightarrow> None)"

definition with_options :: "api \<Rightarrow> http_request \<Rightarrow> (bool \<Rightarrow> pairing_state bact) \<Rightarrow> body handler" where
  "with_options A r begins = (case pairing_options (ap_library A) r of
       None \<Rightarrow> refuse 400 ''invalid pairing options''
     | Some new_phone \<Rightarrow> answer 202 (bind_act (begins new_phone) (\<lambda>ps. return_act (Pairing_body ps))))"

definition post_pairing_start :: "api \<Rightarrow> http_request \<Rightarrow> body handler" where
  "post_pairing_start A r = with_options A r (\<lambda>new_phone. begin_pairing new_phone (ap_random A))"

definition post_pairing_repair :: "api \<Rightarrow> http_request \<Rightarrow> body handler" where
  "post_pairing_repair A r = with_options A r (\<lambda>new_phone. begin_repairing new_phone (ap_random A))"

definition post_adopt :: "body handler" where
  "post_adopt = answer 200 (bind_act adopt_records_act (\<lambda>n.
     bind_act pairing_act (\<lambda>ps. return_act (Adopted_body n ps))))"

text \<open>
  \<open>CancelPairingAndWait\<close>.  The attempt's own goroutine ends it; \<open>waited\<close> is the error of the
  request's context when that ends before the attempt does.
\<close>

definition cancel_and_wait :: "go_error option \<Rightarrow> pairing_state bact" where
  "cancel_and_wait waited b = (case pause_pairing_recovery b of
       (Inl e, b') \<Rightarrow> (Inl e, snd (pairing_status b'))
     | (Inr _, b') \<Rightarrow> (case waited of
           Some e \<Rightarrow> if pairing_active b' \<and> b_pair_running b' then (Inl e, cancel_and_clear b')
             else pairing_act (cancel_and_clear b')
         | None \<Rightarrow> pairing_act (cancel_and_clear b')))"

definition post_pairing_cancel :: "api \<Rightarrow> body handler" where
  "post_pairing_cancel A = answer 200 (bind_act (cancel_and_wait (ap_waited A)) (\<lambda>ps.
     return_act (Pairing_body ps)))"

section \<open>The helper's requests\<close>

record handoff =
  ho_ticket :: string
  ho_cookies :: "(string \<times> string) list"
  ho_enroll :: bool

definition set_handoff :: "string \<Rightarrow> json \<Rightarrow> handoff \<Rightarrow> handoff option" where
  "set_handoff k v x =
    (if k = ''ticket'' then map_option (\<lambda>y. x\<lparr>ho_ticket := y\<rparr>) (as_str v (ho_ticket x))
     else if k = ''cookies'' then map_option (\<lambda>y. x\<lparr>ho_cookies := y\<rparr>) (set_cookies k v (ho_cookies x))
     else map_option (\<lambda>y. x\<lparr>ho_enroll := y\<rparr>) (as_bool v (ho_enroll x)))"

definition read_handoff :: "go_library \<Rightarrow> http_request \<Rightarrow> handoff option" where
  "read_handoff L r =
    (if hr_header r ''Content-Type'' \<noteq> ''application/json'' \<or> length (hr_body r) > 65536 then None
     else Option.bind (lib_json L (hr_body r))
       (decode_strict L [''ticket'', ''cookies'', ''enroll_agent''] set_handoff
         \<lparr>ho_ticket = [], ho_cookies = [], ho_enroll = False\<rparr>))"

definition enroll_agent :: "api \<Rightarrow> body handler" where
  "enroll_agent A = (\<lambda>b. case ap_random A of
       Inl e \<Rightarrow> refuse 500 ''could not enroll background recovery'' b
     | Inr raw \<Rightarrow> let L = ap_library A; token = lib_base64 L raw in
         (case commit_db (save_pairing_agent_digest (lib_sha256 L token)) b of
            (Inl e, b') \<Rightarrow> refuse 500 ''could not enroll background recovery'' b'
          | (Inr _, b') \<Rightarrow> reply 202 (Agent_body token) b'))"

definition pairing_credentials :: "api \<Rightarrow> http_request \<Rightarrow> body handler" where
  "pairing_credentials A r = (\<lambda>b.
     if hr_method r \<noteq> ''POST'' then refuse 405 [] b
     else case read_handoff (ap_library A) r of None \<Rightarrow> refuse 400 ''invalid pairing handoff'' b
     | Some x \<Rightarrow> (case submit_pairing_cookies (ho_ticket x) (ho_cookies x) b of
         (Inl e, b') \<Rightarrow> if errors_is e ErrPairingTicket
           then refuse 403 ''invalid or expired pairing ticket'' b'
           else refuse 400 ''Google sign-in cookies are incomplete'' b'
       | (Inr _, b') \<Rightarrow> if ho_enroll x then enroll_agent A b' else reply 202 Empty_body b'))"

definition agent_token :: "http_request \<Rightarrow> string option" where
  "agent_token r = cut_prefix ''Pairing-Agent '' (hr_header r ''Authorization'')"

definition agent_authorized :: "go_library \<Rightarrow> http_request \<Rightarrow> bridge \<Rightarrow> bool" where
  "agent_authorized L r b \<longleftrightarrow> (case (agent_token r, view_tx pairing_agent_digest (b_store b)) of
       (Some token, Inr (Some (Opaque want))) \<Rightarrow> length want = 32 \<and> lib_sha256 L token = want
     | _ \<Rightarrow> False)"

definition pairing_agent_pending :: "api \<Rightarrow> http_request \<Rightarrow> body handler" where
  "pairing_agent_pending A r = (\<lambda>b.
     if hr_method r \<noteq> ''GET'' then refuse 405 [] b
     else if \<not> agent_authorized (ap_library A) r b then refuse 401 ''unauthorized'' b
     else case pairing_status b of (ps, b') \<Rightarrow>
       if ps_state ps \<noteq> ''waiting_for_login'' \<or> ps_ticket ps = [] then reply 204 Empty_body b'
       else reply 200 (Pending_body (ps_ticket ps) (ps_expires ps)) b')"

section \<open>Web push\<close>

definition max_subscription :: nat where "max_subscription = 4096"

definition get_push :: "push_sender \<Rightarrow> body handler" where
  "get_push P = answer 200 (bind_act (pn_count P) (\<lambda>n. return_act (Push_body (pn_public_key P) n)))"

definition post_subscription :: "push_sender \<Rightarrow> http_request \<Rightarrow> body handler" where
  "post_subscription P r =
    (if length (hr_body r) > max_subscription then refuse 413 ''subscription too large''
     else answer 201 (then_act (pn_subscribe P (hr_body r)) (return_act Empty_body)))"

definition post_push_test :: "api \<Rightarrow> push_sender \<Rightarrow> body handler" where
  "post_push_test A P = (\<lambda>b. case pn_count P b of
       (Inl e, b') \<Rightarrow> (Inl (api_error e), b')
     | (Inr n, b') \<Rightarrow>
         if n = 0 then refuse 409 ''no device is subscribed'' b'
         else (case pn_send P ''Test notification'' ''Your bridge can reach this device.'' ''bridge-test'' [] b' of
             (Inl e, b'') \<Rightarrow> refuse 502 (''push delivery failed: '' @ ap_error A e) b''
           | (Inr _, b'') \<Rightarrow> reply 204 Empty_body b''))"

definition endpoint_of :: "go_library \<Rightarrow> http_request \<Rightarrow> string option" where
  "endpoint_of L r =
    (if length (hr_body r) > max_subscription then None
     else case lib_json L (hr_body r) of
         Some (JObj members) \<Rightarrow> decode_loose L [''endpoint''] (\<lambda>k v old. as_str v old) [] members
       | Some JNull \<Rightarrow> Some []
       | _ \<Rightarrow> None)"

definition delete_push :: "api \<Rightarrow> push_sender \<Rightarrow> http_request \<Rightarrow> body handler" where
  "delete_push A P r = (case endpoint_of (ap_library A) r of
       None \<Rightarrow> refuse 400 ''endpoint is required''
     | Some endpoint \<Rightarrow> if endpoint = [] then refuse 400 ''endpoint is required''
         else answer 204 (then_act (pn_unsubscribe P endpoint) (return_act Empty_body)))"

end
