(* ===== verification/ApiStream.thy ===== *)
theory ApiStream
  imports ApiHandlers
begin

text \<open>
  The event log over HTTP (\<open>internal/api/api.go\<close>): \<open>GET /v1/events\<close>, one page after a cursor, and
  \<open>GET /v1/stream\<close>, the loop that writes every event to an open connection.  The frames a
  connection has been sent are kept in order.  A write may fail: a turn of the loop is given the
  number \<open>room\<close> of frames the connection still takes.  \<open>upgrade\<close> is \<open>NormalizeLegacy\<close>
  (\<open>internal/provider/legacy.go\<close>) with the protobuf conversion it calls as a parameter.
\<close>

section \<open>Public events\<close>

definition dec_schema :: "json \<Rightarrow> i64 option" where
  "dec_schema = decode_struct (\<lambda>k v old. if k = ''schema'' then as_i64 v old else Some old) 0"

definition normalize_legacy :: "(string \<Rightarrow> payload \<Rightarrow> go_error + provider_snapshot) \<Rightarrow>
    string \<Rightarrow> payload \<Rightarrow> go_error + (provider_snapshot \<times> bool)" where
  "normalize_legacy convert kind data = (case unmarshal dec_schema data of Inl e \<Rightarrow> Inl e
     | Inr n \<Rightarrow>
         if n = Schema then Inr (\<lparr>sn_event = zero_event, sn_private = []\<rparr>, False)
         else if n \<noteq> 0 then Inl (ErrText ''unsupported event schema'')
         else map_sum id (\<lambda>s. (s, True)) (convert kind data))"

definition public_event ::
  "(string \<Rightarrow> payload \<Rightarrow> go_error + (provider_snapshot \<times> bool)) \<Rightarrow> event \<Rightarrow> go_error + event" where
  "public_event upgrade e =
    (if ev_type e \<noteq> ''message'' \<and> ev_type e \<noteq> ''conversation'' then Inr e
     else case upgrade (ev_type e) (ev_data e) of Inl err \<Rightarrow> Inl err
       | Inr (s, legacy) \<Rightarrow> Inr (if \<not> legacy then e else e\<lparr>ev_data := ev_data (sn_event s)\<rparr>))"

fun public_events ::
  "(string \<Rightarrow> payload \<Rightarrow> go_error + (provider_snapshot \<times> bool)) \<Rightarrow> event list \<Rightarrow> go_error + event list" where
  "public_events upgrade [] = Inr []"
| "public_events upgrade (e # es) = (case public_event upgrade e of Inl err \<Rightarrow> Inl err
     | Inr e' \<Rightarrow> (case public_events upgrade es of Inl err \<Rightarrow> Inl err | Inr es' \<Rightarrow> Inr (e' # es')))"

section \<open>Pages\<close>

text \<open>A cursor ahead of the log is refused, as one that is no number is.\<close>

definition valid_cursor :: "http_request \<Rightarrow> bridge \<Rightarrow> u64 option" where
  "valid_cursor r b = (case cursor r of None \<Rightarrow> None
     | Some after \<Rightarrow> (case view_tx watermark (b_store b) of Inl _ \<Rightarrow> None
         | Inr mark \<Rightarrow> if after > mark then None else Some after))"

definition events_limit :: "http_request \<Rightarrow> int option" where
  "events_limit r = (let v = query_get r ''limit'' in
     case (if v \<noteq> [] then atoi v else Some 100) of None \<Rightarrow> None
     | Some n \<Rightarrow> if n < 1 \<or> n > 1000 then None else Some n)"

definition next_cursor :: "u64 \<Rightarrow> event list \<Rightarrow> u64" where
  "next_cursor after es = (if es = [] then after else ev_id (last es))"

definition get_events ::
  "(string \<Rightarrow> payload \<Rightarrow> go_error + (provider_snapshot \<times> bool)) \<Rightarrow> http_request \<Rightarrow> body handler" where
  "get_events upgrade r b = (case valid_cursor r b of None \<Rightarrow> refuse 400 ''invalid cursor'' b
     | Some after \<Rightarrow> (case events_limit r of None \<Rightarrow> refuse 400 ''limit must be 1..1000'' b
       | Some limit \<Rightarrow> (case view_tx (events after limit) (b_store b) of
           Inl _ \<Rightarrow> refuse 503 ''storage unavailable'' b
         | Inr es \<Rightarrow> (case public_events upgrade es of
             Inl _ \<Rightarrow> refuse 503 ''unsupported stored event'' b
           | Inr es' \<Rightarrow> reply 200 (Events_body es' (next_cursor after es')) b))))"

section \<open>The stream\<close>

datatype frame_text =
    Frame_connected | Frame_live | Frame_event event | Frame_typing event | Frame_keepalive

record stream =
  sm_after :: u64
  sm_live :: bool               \<comment> \<open>\<open>caughtUp\<close>\<close>
  sm_frames :: "frame_text list"
  sm_subscription :: nat

text \<open>Where the loop is: at its head, at the \<open>select\<close>, or returned.\<close>

datatype stream_next = Stream_read | Stream_wait | Stream_end

definition write_frame :: "frame_text \<Rightarrow> stream \<Rightarrow> stream" where
  "write_frame f s = s\<lparr>sm_frames := sm_frames s @ [f]\<rparr>"

definition open_stream :: "http_request \<Rightarrow> bridge \<Rightarrow> (stream \<times> bridge) option" where
  "open_stream r b = (case valid_cursor r b of None \<Rightarrow> None
     | Some after \<Rightarrow> (case subscribe (b_hub b) of (i, h) \<Rightarrow>
         Some (\<lparr>sm_after = after, sm_live = False, sm_frames = [Frame_connected],
                sm_subscription = i\<rparr>, b\<lparr>b_hub := h\<rparr>)))"

text \<open>The loop over a batch: whether it went through, and the stream.\<close>

fun write_events :: "(string \<Rightarrow> payload \<Rightarrow> go_error + (provider_snapshot \<times> bool)) \<Rightarrow> nat \<Rightarrow>
    event list \<Rightarrow> stream \<Rightarrow> bool \<times> stream" where
  "write_events upgrade room [] s = (True, s)"
| "write_events upgrade room (e # es) s = (case public_event upgrade e of Inl err \<Rightarrow> (False, s)
     | Inr e' \<Rightarrow> (case room of 0 \<Rightarrow> (False, s)
         | Suc n \<Rightarrow> write_events upgrade n es ((write_frame (Frame_event e') s)\<lparr>sm_after := ev_id e'\<rparr>)))"

definition stream_batch :: int where "stream_batch = 100"

definition stream_turn :: "(string \<Rightarrow> payload \<Rightarrow> go_error + (provider_snapshot \<times> bool)) \<Rightarrow> nat \<Rightarrow>
    bridge \<Rightarrow> stream \<Rightarrow> stream_next \<times> stream" where
  "stream_turn upgrade room b s =
    (case view_tx (events (sm_after s) stream_batch) (b_store b) of Inl _ \<Rightarrow> (Stream_end, s)
     | Inr es \<Rightarrow>
         if es = [] then
           if sm_live s then (Stream_wait, s)
           else if room = 0 then (Stream_end, s\<lparr>sm_live := True\<rparr>)
           else (Stream_wait, write_frame Frame_live (s\<lparr>sm_live := True\<rparr>))
         else (case write_events upgrade room es s of
             (True, s') \<Rightarrow> (Stream_read, s') | (False, s') \<Rightarrow> (Stream_end, s')))"

text \<open>
  The cases of the \<open>select\<close>: the request or the subscription ends, the hub wakes it, a live event
  arrives, or the keepalive ticks.  All but the first go back to the head of the loop.
\<close>

datatype stream_case = Case_gone | Case_done | Case_wake | Case_live | Case_tick

definition live_age :: time where "live_age = 5 * second"

definition subscription_of :: "stream \<Rightarrow> bridge \<Rightarrow> subscription" where
  "subscription_of s b = b_hub b ! sm_subscription s"

definition case_ready :: "stream_case \<Rightarrow> stream \<Rightarrow> bridge \<Rightarrow> bool" where
  "case_ready c s b = (case c of
       Case_gone \<Rightarrow> True
     | Case_done \<Rightarrow> sb_done (subscription_of s b)
     | Case_wake \<Rightarrow> sb_wake (subscription_of s b)
     | Case_live \<Rightarrow> sb_live (subscription_of s b) \<noteq> []
     | Case_tick \<Rightarrow> True)"

definition stream_select ::
  "bool \<Rightarrow> stream_case \<Rightarrow> stream \<Rightarrow> bridge \<Rightarrow> stream_next \<times> stream \<times> bridge" where
  "stream_select ok c s b =
    (let send = (\<lambda>f b'. if ok then (Stream_read, write_frame f s, b') else (Stream_end, s, b')) in
     case c of
       Case_gone \<Rightarrow> (Stream_end, s, b)
     | Case_done \<Rightarrow> (Stream_end, s, b)
     | Case_wake \<Rightarrow> (Stream_read, s, b\<lparr>b_hub := receive_wake (sm_subscription s) (b_hub b)\<rparr>)
     | Case_live \<Rightarrow> let e = hd (sb_live (subscription_of s b));
           b' = b\<lparr>b_hub := receive_live (sm_subscription s) (b_hub b)\<rparr> in
         if now b - ev_time e > live_age then (Stream_read, s, b') else send (Frame_typing e) b'
     | Case_tick \<Rightarrow> send Frame_keepalive b)"

text \<open>A connection beside the running service: \<open>db_runs\<close> is whatever the service does meanwhile.\<close>

type_synonym stream_state = "bridge \<times> stream \<times> stream_next"

inductive stream_step ::
  "(string \<Rightarrow> payload \<Rightarrow> go_error + (provider_snapshot \<times> bool)) \<Rightarrow> stream_state \<Rightarrow> stream_state \<Rightarrow> bool"
  for upgrade where
  serviced: "db_runs b b' \<Longrightarrow> stream_step upgrade (b, s, n) (b', s, n)"
| turned: "stream_turn upgrade room b s = (n, s') \<Longrightarrow>
    stream_step upgrade (b, s, Stream_read) (b, s', n)"
| selected: "case_ready c s b \<Longrightarrow> stream_select ok c s b = (n, s', b') \<Longrightarrow>
    stream_step upgrade (b, s, Stream_wait) (b', s', n)"

inductive_cases stream_stepE: "stream_step upgrade w w'"

definition stream_runs ::
  "(string \<Rightarrow> payload \<Rightarrow> go_error + (provider_snapshot \<times> bool)) \<Rightarrow> stream_state \<Rightarrow> stream_state \<Rightarrow> bool" where
  "stream_runs upgrade = (stream_step upgrade)\<^sup>*\<^sup>*"

section \<open>What a connection has been sent\<close>

fun event_frames :: "frame_text list \<Rightarrow> event list" where
  "event_frames [] = []"
| "event_frames (Frame_event e # fs) = e # event_frames fs"
| "event_frames (f # fs) = event_frames fs"

lemma event_frames_append [simp]: "event_frames (xs @ ys) = event_frames xs @ event_frames ys"
  by (induction xs rule: event_frames.induct) auto

lemma event_frames_none [simp]:
  "event_frames [Frame_connected] = []" "event_frames [Frame_live] = []"
  "event_frames [Frame_typing e] = []" "event_frames [Frame_keepalive] = []"
  by simp_all

text \<open>
  A connection opened at \<open>start\<close> has been sent, in public form, the events of the log that follow
  \<open>start\<close>, without a gap and up to its own cursor.
\<close>

definition stream_faithful ::
  "(string \<Rightarrow> payload \<Rightarrow> go_error + (provider_snapshot \<times> bool)) \<Rightarrow> u64 \<Rightarrow> event list \<Rightarrow> stream \<Rightarrow> bool" where
  "stream_faithful upgrade start es s \<longleftrightarrow>
     unat start \<le> unat (sm_after s) \<and> unat (sm_after s) \<le> length es \<and>
     list_all2 (\<lambda>e f. public_event upgrade e = Inr f)
       (take (unat (sm_after s) - unat start) (drop (unat start) es)) (event_frames (sm_frames s))"

lemma public_event_id: "public_event upgrade e = Inr f \<Longrightarrow> ev_id f = ev_id e"
  by (auto simp: public_event_def split: if_splits sum.splits)

lemma stream_faithful_grows:
  "stream_faithful upgrade start es s \<Longrightarrow> stream_faithful upgrade start (es @ new) s"
  by (auto simp: stream_faithful_def)

lemma stream_faithful_frames:
  "sm_after s' = sm_after s \<Longrightarrow> event_frames (sm_frames s') = event_frames (sm_frames s) \<Longrightarrow>
   stream_faithful upgrade start es s' = stream_faithful upgrade start es s"
  by (simp add: stream_faithful_def)

lemma write_events_faithful:
  assumes rep: "represents s es"
  shows "stream_faithful upgrade start es st \<Longrightarrow> batch = take n (drop (unat (sm_after st)) es) \<Longrightarrow>
    write_events upgrade room batch st = (ok, st') \<Longrightarrow>
    stream_faithful upgrade start es st' \<and> sm_live st' = sm_live st \<and>
    sm_subscription st' = sm_subscription st \<and>
    (ok \<longrightarrow> unat (sm_after st') = unat (sm_after st) + length batch)"
proof (induction upgrade room batch st arbitrary: n rule: write_events.induct)
  case (2 upgrade room e batch st)
  show ?case
  proof (cases "public_event upgrade e")
    case (Inl err)
    with 2(2,4) show ?thesis by auto
  next
    case (Inr f)
    show ?thesis
    proof (cases room)
      case 0
      with 2(2,4) Inr show ?thesis by auto
    next
      case (Suc m)
      let ?a = "unat (sm_after st)"
      let ?st = "(write_frame (Frame_event f) st)\<lparr>sm_after := ev_id f\<rparr>"
      have cut: "e # batch = take n (drop ?a es)" by (rule 2(3))
      then have lt: "?a < length es" and n: "n \<noteq> 0"
        by (metis drop_all list.distinct(1) not_le take_Nil, metis list.distinct(1) take0)
      have "drop ?a es = es ! ?a # drop (Suc ?a) es" using lt by (rule Cons_nth_drop_Suc [symmetric])
      with cut n have head: "es ! ?a = e" and tl: "batch = take (n - 1) (drop (Suc ?a) es)"
        by (cases n; simp)+
      have id: "unat (ev_id f) = Suc ?a"
        using represents_nth_id [OF rep lt] head public_event_id [OF Inr] by simp
      have le: "unat start \<le> ?a" using 2(2) by (simp add: stream_faithful_def)
      have "take (Suc (?a - unat start)) (drop (unat start) es) =
          take (?a - unat start) (drop (unat start) es) @ [e]"
        using lt head le by (subst take_Suc_conv_app_nth) simp_all
      with le have "stream_faithful upgrade start es ?st"
        using 2(2) lt Inr id
        by (simp add: stream_faithful_def write_frame_def Suc_diff_le list_all2_appendI)
      moreover have "batch = take (n - 1) (drop (unat (sm_after ?st)) es)"
        using tl id by simp
      ultimately show ?thesis
        using 2(1) [OF Inr Suc, of "n - 1"] 2(4) Inr Suc id
        by (simp add: write_frame_def del: take_drop)
    qed
  qed
qed simp

end
