(* ===== verification/Routes.thy ===== *)
theory Routes
  imports ApiStream
begin

text \<open>
  The routes the \<open>register\<close> functions of \<open>internal/api\<close> enter into the \<open>ServeMux\<close>, and the handler
  \<open>New\<close> returns: the checks of \<open>Http\<close> in front of the routes.  A pattern of the mux is a method and
  the segments of a path; \<open>{id}\<close> stands for one segment, which the handler gets.  A \<open>GET\<close> pattern
  also takes \<open>HEAD\<close>.  The redirects the mux sends for unclean paths are its own affair: a request
  comes here with the segments of a clean path.
\<close>

section \<open>The table\<close>

type_synonym upgrade = "string \<Rightarrow> payload \<Rightarrow> go_error + (provider_snapshot \<times> bool)"

datatype outcome =
    Replied "body reply"
  | Streaming stream
  | Served string        \<comment> \<open>a file of the client, or the helper\<close>
  | Preflighted

definition replies :: "body handler \<Rightarrow> bridge \<Rightarrow> outcome \<times> bridge" where
  "replies h b = (case h b of (x, b') \<Rightarrow> (Replied x, b'))"

definition status_reply :: "body handler" where
  "status_reply b = reply 200 (Status_body (status_view b)) b"

definition get_stream :: "http_request \<Rightarrow> bridge \<Rightarrow> outcome \<times> bridge" where
  "get_stream r b = (case open_stream r b of
       None \<Rightarrow> replies (refuse 400 ''invalid cursor'') b
     | Some (s, b') \<Rightarrow> (Streaming s, b'))"

type_synonym route = "string \<times> string list \<times> (string \<Rightarrow> bridge \<Rightarrow> outcome \<times> bridge)"

definition api_routes :: "upgrade \<Rightarrow> http_request \<Rightarrow> route list" where
  "api_routes upgrade r =
    [(''GET'', [''v1'', ''status''], \<lambda>_. replies status_reply),
     (''GET'', [''v1'', ''events''], \<lambda>_. replies (get_events upgrade r)),
     (''GET'', [''v1'', ''stream''], \<lambda>_. get_stream r)]"

definition record_routes :: "api \<Rightarrow> http_request \<Rightarrow> route list" where
  "record_routes A r =
    [(''GET'', [''v1'', ''conversations''], \<lambda>_. replies (get_conversations (ap_library A) r)),
     (''GET'', [''v1'', ''conversations'', ''{id}'', ''messages''],
        \<lambda>i. replies (get_conversation_messages i r)),
     (''GET'', [''v1'', ''messages''], \<lambda>_. replies (get_messages (ap_library A) r)),
     (''GET'', [''v1'', ''outbox''], \<lambda>_. replies get_outbox_list),
     (''GET'', [''v1'', ''outbox'', ''{id}''], \<lambda>i. replies (get_outbox i)),
     (''POST'', [''v1'', ''messages''], \<lambda>_. replies (post_message A r)),
     (''POST'', [''v1'', ''outbox'', ''{id}'', ''cancel''], \<lambda>i. replies (post_cancel i)),
     (''POST'', [''v1'', ''conversations'', ''{id}'', ''read''], \<lambda>i. replies (post_read A i r)),
     (''POST'', [''v1'', ''sync''], \<lambda>_. replies post_sync),
     (''GET'', [''v1'', ''attachments'', ''{id}''], \<lambda>i. replies (get_attachment A i))]"

definition feature_routes :: "api \<Rightarrow> http_request \<Rightarrow> route list" where
  "feature_routes A r =
    [(''POST'', [''v1'', ''connection'', ''restart''], \<lambda>_. replies post_restart),
     (''GET'', [''v1'', ''contacts''], \<lambda>_. replies (get_contacts A r)),
     (''POST'', [''v1'', ''conversations''], \<lambda>_. replies (post_conversation A r)),
     (''POST'', [''v1'', ''conversations'', ''{id}'', ''participants''],
        \<lambda>i. replies (post_participants A i r)),
     (''POST'', [''v1'', ''conversations'', ''{id}'', ''reactions''],
        \<lambda>i. replies (post_reaction A i r)),
     (''POST'', [''v1'', ''conversations'', ''{id}'', ''typing''], \<lambda>i. replies (post_typing A i)),
     (''POST'', [''v1'', ''attachments'', ''{id}'', ''request''],
        \<lambda>i. replies (post_attachment_request A i)),
     (''POST'', [''v1'', ''uploads''], \<lambda>_. replies (post_upload A r)),
     (''POST'', [''v1'', ''history''], \<lambda>_. replies (post_history A r)),
     (''GET'', [''v1'', ''history''], \<lambda>_. replies get_history),
     (''POST'', [''v1'', ''history'', ''{id}'', ''pause''], \<lambda>i. replies (post_pause i))]"

definition pairing_routes :: "api \<Rightarrow> http_request \<Rightarrow> route list" where
  "pairing_routes A r =
    [(''PUT'', [''v1'', ''pairing'', ''recovery''], \<lambda>_. replies (put_recovery A r)),
     (''POST'', [''v1'', ''pairing'', ''phone''], \<lambda>_. replies (post_pairing_phone A r)),
     (''GET'', [''v1'', ''pairing'', ''qr''], \<lambda>_. replies (get_pairing_qr A)),
     (''GET'', [''v1'', ''pairing''], \<lambda>_. replies get_pairing),
     (''POST'', [''v1'', ''pairing'', ''start''], \<lambda>_. replies (post_pairing_start A r)),
     (''POST'', [''v1'', ''pairing'', ''repair''], \<lambda>_. replies (post_pairing_repair A r)),
     (''POST'', [''v1'', ''pairing'', ''adopt''], \<lambda>_. replies post_adopt),
     (''POST'', [''v1'', ''pairing'', ''cancel''], \<lambda>_. replies (post_pairing_cancel A))]"

definition push_routes :: "api \<Rightarrow> http_request \<Rightarrow> route list" where
  "push_routes A r = (case ap_push A of
       None \<Rightarrow> [(''GET'', [''v1'', ''push''], \<lambda>_. replies (reply 200 Push_off_body))]
     | Some P \<Rightarrow>
        [(''GET'', [''v1'', ''push''], \<lambda>_. replies (get_push P)),
         (''POST'', [''v1'', ''push'', ''subscriptions''], \<lambda>_. replies (post_subscription P r)),
         (''POST'', [''v1'', ''push'', ''test''], \<lambda>_. replies (post_push_test A P)),
         (''DELETE'', [''v1'', ''push'', ''subscriptions''], \<lambda>_. replies (delete_push A P r))])"

definition all_routes :: "api \<Rightarrow> upgrade \<Rightarrow> http_request \<Rightarrow> route list" where
  "all_routes A upgrade r = record_routes A r @ feature_routes A r @ pairing_routes A r @
     push_routes A r @ api_routes upgrade r"

section \<open>The mux\<close>

fun match_segments :: "string list \<Rightarrow> string list \<Rightarrow> string list option" where
  "match_segments [] [] = Some []"
| "match_segments (p # ps) (s # ss) =
    (if p = ''{id}'' then if s = [] then None else map_option (Cons s) (match_segments ps ss)
     else if p = s then match_segments ps ss else None)"
| "match_segments _ _ = None"

definition path_value :: "string list \<Rightarrow> string list \<Rightarrow> string" where
  "path_value ps ss = (case match_segments ps ss of Some (i # _) \<Rightarrow> i | _ \<Rightarrow> [])"

definition takes_method :: "string \<Rightarrow> string \<Rightarrow> bool" where
  "takes_method m asked \<longleftrightarrow> asked = m \<or> m = ''GET'' \<and> asked = ''HEAD''"

definition serve_mux :: "api \<Rightarrow> upgrade \<Rightarrow> http_request \<Rightarrow> bridge \<Rightarrow> outcome \<times> bridge" where
  "serve_mux A upgrade r =
    (let here = filter (\<lambda>(m, ps, h). match_segments ps (hr_segments r) \<noteq> None) (all_routes A upgrade r)
     in case filter (\<lambda>(m, ps, h). takes_method m (hr_method r)) here of
          (m, ps, h) # _ \<Rightarrow> h (path_value ps (hr_segments r))
        | [] \<Rightarrow> replies (if here = [] then refuse 404 ''404 page not found''
                        else refuse 405 ''Method Not Allowed''))"

section \<open>The handler\<close>

definition served_file :: "http_request \<Rightarrow> outcome" where
  "served_file r = (if hr_path r = ''/favicon.ico'' then Replied (Inr (204, Empty_body))
     else case map_of assets (hr_path r) of Some f \<Rightarrow> Served f
       | None \<Rightarrow> Served ''pairing-helper.zip'')"

definition serve :: "api \<Rightarrow> upgrade \<Rightarrow> http_request \<Rightarrow> bridge \<Rightarrow> outcome \<times> bridge" where
  "serve A upgrade r b = (case gate (ap_library A) (ap_token A) r of
       Pairing_helper \<Rightarrow> (served_file r, b)
     | Credentials \<Rightarrow> replies (pairing_credentials A r) b
     | Agent_pending \<Rightarrow> replies (pairing_agent_pending A r) b
     | Preflight \<Rightarrow> (Preflighted, b)
     | Asset \<Rightarrow> (served_file r, b)
     | Refused code m \<Rightarrow> replies (refuse code m) b
     | Routed \<Rightarrow> serve_mux A upgrade r b)"

end
