(* ===== verification/LogRelation.thy ===== *)
theory LogRelation
  imports StoreSystem
begin

text \<open>
  The interface of everything that follows the log.  A relation between databases that only
  depends on the log, the latest records and the conversation index (\<open>untouched\<close>), and that every
  append, every new bucket and the building of the index respect, is respected by every call of
  the store; each operation is taken apart once, here.  It is interpreted on the growth of the log
  and on the invariant of the conversation index.
\<close>

section \<open>The interface\<close>

definition log_buckets :: "bucket_id set" where
  "log_buckets = {BEvents, BLatest, BMessageIndex}"

locale log_relation = tx_relation R for R :: "store \<Rightarrow> store \<Rightarrow> bool" +
  assumes untouched: "frame (UNIV - log_buckets) s s' \<Longrightarrow> R s s'"
    and ticked: "R s (s\<lparr>clock := t\<rparr>)"
    and appended: "upholds R (append_tx event)"
    and created: "upholds R (bcreate b)"
    and indexed: "upholds R ensure_message_index"
begin

lemma quiet: "upholds (frame (UNIV - log_buckets)) m \<Longrightarrow> upholds R m"
  by (erule upholds_mono) (rule untouched)

lemma reads:
  "upholds R (has_bucket b)" "upholds R (bget b k)" "upholds R (bscan b p)" "upholds R (bseek b p)"
  "upholds R (bsequence b)" "upholds R (encrypt data context)" "upholds R (decrypt c context)"
  "upholds R (bget_sealed b context' dec k)" "upholds R (bget_u64 b k)" "upholds R epoch"
  "upholds R (entity_current_tx kind i)" "upholds R (read_outbox i)" "upholds R (history_tx i)"
  "upholds R (latest_message_tx i)" "upholds R (preview_conversation data)"
  "upholds R (previous_status_tx event v)" "upholds R (stale_tx key fence)"
  "upholds R (history_cursor i)" "upholds R history_jobs_tx" "upholds R (bget_plain b context' k)"
  by (rule quiet, rule frames)+

lemma writes:
  assumes "b \<notin> log_buckets"
  shows "upholds R (bput b k v)" "upholds R (bdelete b k)" "upholds R (bset_sequence b n)"
    "upholds R (bnext b)" "upholds R (put_sealed b k context data)" "upholds R (bcreate_new b)"
    "upholds R (bdrop b)" "upholds R (bclear b p)"
  using assms by (auto intro!: quiet frames)

lemma small_writes:
  "upholds R (observe_tx key)" "upholds R (stamp_epoch kind i)" "upholds R (put_private_tx p)"
  "upholds R (put_latest_message_tx i l)" "upholds R clear_pairing_attempt"
  "upholds R (forget_pages h i)"
  "upholds R recover_pairing_attempt" "upholds R (save_pairing_agent_digest digest)"
  "upholds R (update_pairing_recovery f)" "upholds R (count_previous kind)"
  "upholds R clear_latest_messages" "upholds R adopt_stored_records"
  "upholds R (save_session data)" "upholds R (save_contacts data)" "upholds R (put_private i data)"
  "upholds R (put_media i data)" "upholds R (network_put k' v)" "upholds R (bind_network network)"
  "upholds R (ensure_push_keys g)" "upholds R (put_subscription i data)"
  "upholds R (delete_subscription i)"
  by (rule quiet, rule frames, simp add: log_buckets_def)+

lemmas parts = rules reads writes small_writes appended created

lemma outbox_writes: "upholds R (write_outbox out)"
  unfolding write_outbox_def by (intro parts; simp add: log_buckets_def)

lemma outbox_loop: "(\<And>out acc. upholds R (f out acc)) \<Longrightarrow> upholds R (each_outbox f acc)"
  unfolding each_outbox_def by (intro parts)

lemma outbox_calls:
  "upholds R (enqueue i txn req)" "upholds R claim" "upholds R (finish i result detail)"
  "upholds R recover_sending" "upholds R (confirm_send_tx m)" "upholds R (cancel_queued i)"
  "upholds R (claim_queued i)" "upholds R (reject_queued i detail)"
  "upholds R cancel_queued_for_pairing"
  unfolding enqueue_def claim_def finish_def recover_sending_def confirm_send_tx_def
    cancel_queued_def claim_queued_def reject_queued_def cancel_queued_for_pairing_def Let_def
  by (intro parts outbox_writes outbox_loop; simp add: log_buckets_def)+

lemma conversation_update: "upholds R (update_conversation_tx i mutate)"
  unfolding update_conversation_tx_def Let_def by (intro parts)

lemma conversation_calls:
  "upholds R (read_conversation i through)" "upholds R (refresh_conversation_tx data fresh st)"
  "upholds R ensure_conversation_previews"
  unfolding read_conversation_def refresh_conversation_tx_def ensure_conversation_previews_def Let_def
  by (intro parts conversation_update; simp add: log_buckets_def)+

lemma event_calls:
  "upholds R (apply_tx event p fence)" "upholds R (append_event event)"
proof -
  have c: "upholds R (confirm_event_tx event)" for event
    unfolding confirm_event_tx_def by (intro parts outbox_calls)
  have ob: "upholds R (observe_event_tx event p)" for event p
    unfolding observe_event_tx_def by (intro parts conversation_calls)
  show a: "upholds R (apply_tx event p fence)" for event p fence
    unfolding apply_tx_def by (intro parts c ob)
  show "upholds R (append_event event)"
    unfolding append_event_def by (intro parts a)
qed

lemma history_writes: "upholds R (write_history job)"
  unfolding write_history_def Let_def by (intro parts)

lemma history_calls:
  "upholds R (save_upload up data)" "upholds R (finish_conversation i event p n)"
  "upholds R (queue_history h job restart)" "upholds R (pause_history i)"
  "upholds R (checkpoint_history h i g prev nxt k d)" "upholds R (fail_history i g d)"
proof -
  have r: "upholds R (requeue h job restart)" for job
    unfolding requeue_def Let_def by (intro parts history_writes; simp add: log_buckets_def)
  show "upholds R (save_upload up data)" "upholds R (finish_conversation i event p n)"
    "upholds R (queue_history h job restart)" "upholds R (pause_history i)"
    "upholds R (checkpoint_history h i g prev nxt k d)" "upholds R (fail_history i g d)"
    unfolding save_upload_def finish_conversation_def queue_history_def pause_history_def
      checkpoint_history_def fail_history_def Let_def
    by (intro parts r history_writes outbox_writes; simp add: log_buckets_def)+
qed

lemma session_calls:
  "upholds R (begin_pairing_attempt started expires)"
  "upholds R upgrade_session_metadata" "upholds R (save_paired_session h data new_phone)"
proof -
  show "upholds R (begin_pairing_attempt started expires)"
    unfolding begin_pairing_attempt_def by (intro parts outbox_calls; simp add: log_buckets_def)
  show "upholds R upgrade_session_metadata"
    unfolding upgrade_session_metadata_def
    by (intro parts outbox_writes outbox_loop history_writes; simp add: log_buckets_def)
  have "upholds R (new_phone_tx h)"
    unfolding new_phone_tx_def by (intro parts history_writes; simp add: log_buckets_def)
  then show "upholds R (save_paired_session h data new_phone)"
    unfolding save_paired_session_def by (intro parts outbox_calls; simp add: log_buckets_def)
qed

lemma opened: "upholds R open_tx"
proof -
  have "upholds R raise_versions" "upholds R check_key"
    unfolding raise_versions_def check_key_def by (intro parts; simp add: log_buckets_def)+
  then show ?thesis
    unfolding open_tx_def by (intro parts indexed conversation_calls outbox_calls)
qed

lemma step: "store_step s s' \<Longrightarrow> R s s'"
proof (induction rule: store_step.induct)
  case (tick s now)
  show ?case by (rule ticked)
qed (erule upholdsD [rotated],
    rule event_calls conversation_calls outbox_calls history_calls session_calls opened parts)+

lemma steps: "store_steps s s' \<Longrightarrow> R s s'"
  by (erule steps_keep) (blast intro: step R_refl R_trans)+

end

text \<open>The growth of the log is such a relation.\<close>

interpretation log_growth: log_relation log_grows
proof unfold_locales
  show "log_grows s s'" if "frame (UNIV - log_buckets) s s'" for s s'
    by (rule frame_log_grows [OF that]) (simp_all add: log_buckets_def)
  show "log_grows s (s\<lparr>clock := t\<rparr>)" for s t
    by (rule step_log_grows [OF store_step.tick])
qed (rule grows)+

end
