(* ===== verification/MessageIndex.thy ===== *)
theory MessageIndex
  imports LogRelation
begin

text \<open>
  The conversation index \<open>message-conversations\<close> as an invariant of every reachable database: it is
  sorted, and every message the log has ever recorded that names a conversation has its entry.
\<close>

definition index_entry :: "store \<Rightarrow> event \<Rightarrow> bool" where
  "index_entry s e \<longleftrightarrow> (\<exists>m. unmarshal dec_message_ref (ev_data e) = Inr m \<and>
     (ref_id m \<noteq> [] \<and> ref_conversation_id m \<noteq> [] \<longrightarrow>
      lookup s BMessageIndex (message_index_key (ref_conversation_id m) (ref_id m)) \<noteq> None))"

definition index_ok :: "store \<Rightarrow> event list \<Rightarrow> bool" where
  "index_ok s es \<longleftrightarrow> kv_sorted (pairs s BMessageIndex) \<and>
     (\<forall>e \<in> set es. ev_type e = ''message'' \<longrightarrow> index_entry s e)"

definition index_follows :: "store \<Rightarrow> store \<Rightarrow> bool" where
  "index_follows s s' \<longleftrightarrow> (\<forall>es. represents s es \<and> index_ok s es \<longrightarrow>
     (\<exists>new. represents s' (es @ new) \<and> index_ok s' (es @ new)))"

text \<open>Entries are only ever added.\<close>

definition index_grows :: "store \<Rightarrow> store \<Rightarrow> bool" where
  "index_grows s s' \<longleftrightarrow> (kv_sorted (pairs s BMessageIndex) \<longrightarrow> kv_sorted (pairs s' BMessageIndex)) \<and>
     (\<forall>k. lookup s BMessageIndex k \<noteq> None \<longrightarrow> lookup s' BMessageIndex k \<noteq> None)"

interpretation index_grows: tx_relation index_grows
  by unfold_locales (auto simp: index_grows_def)

lemma index_entry_grows: "index_grows s s' \<Longrightarrow> index_entry s e \<Longrightarrow> index_entry s' e"
  unfolding index_grows_def index_entry_def by blast

lemma index_ok_grows: "index_grows s s' \<Longrightarrow> index_ok s es \<Longrightarrow> index_ok s' es"
  using index_entry_grows by (auto simp: index_ok_def index_grows_def)

lemma frame_index_grows: "frame B s s' \<Longrightarrow> BMessageIndex \<notin> B \<Longrightarrow> index_grows s s'"
  by (simp add: index_grows_def frame_facts [of B s s'])

lemma quiet_index_grows: "upholds (frame B) m \<Longrightarrow> BMessageIndex \<notin> B \<Longrightarrow> upholds index_grows m"
  by (erule upholds_mono) (rule frame_index_grows)

lemma put_index_grows: "index_grows s (put_kv BMessageIndex k v s)"
  by (simp add: index_grows_def pairs_simps)

lemma index_message_grows: "upholds index_grows (index_message d)"
proof
  fix s u s'
  assume "index_message d s = Inr (u, s')"
  then show "index_grows s s'"
    by (auto simp: index_message_Inr put_index_grows index_grows.R_refl split: if_splits)
qed

lemma ensure_index_grows: "upholds index_grows ensure_message_index"
proof -
  have "upholds index_grows (bcreate_new BMessageIndex)"
  proof
    fix s u s'
    assume "bcreate_new BMessageIndex s = Inr (u, s')"
    then show "index_grows s s'"
      by (auto simp: bcreate_new_def index_grows_def pairs_def lookup_def set_bucket_def
          empty_bucket_def split: if_splits)
  qed
  moreover have "upholds index_grows (has_bucket b)" "upholds index_grows (bscan b p)"
    "upholds index_grows (decrypt c k)" for b p c k
    by (rule quiet_index_grows [where B = "{}"], rule frames, simp)+
  ultimately show ?thesis
    unfolding ensure_message_index_def by (intro index_grows.rules index_message_grows)
qed

lemma create_index_grows: "upholds index_grows (bcreate b)"
proof
  fix s u s'
  assume "bcreate b s = Inr (u, s')"
  then show "index_grows s s'"
    by (auto simp: bcreate_def modify_tx_def index_grows_def pairs_def lookup_def set_bucket_def
        empty_bucket_def split: if_splits)
qed

text \<open>What leaves the log as it is and only adds to the index keeps the invariant.\<close>

lemma index_follows_same:
  assumes "index_grows s s'" and "\<And>es. represents s es \<Longrightarrow> represents s' es"
  shows "index_follows s s'"
  unfolding index_follows_def using assms index_ok_grows by (metis append_Nil2)

lemma logged_index: "frame {BEvents, BLatest} s (logged e s)"
  by (simp add: frame_def logged_def Let_def put_kv_def set_counter_def set_bucket_def
      split: option.splits)

lemma append_entry:
  assumes run: "append_tx event s = Inr (changed, s')" and changed and "ev_type event = ''message''"
  shows "index_grows s s'" and "index_entry s' (event\<lparr>ev_historical := False, ev_id := n, ev_time := t\<rparr>)"
proof -
  have ix: "index_message (ev_data event) (logged event s) = Inr ((), s')"
    using append_tx_Inr(7) [OF run assms(2)] assms(3) by simp
  have "index_grows s (logged event s)"
    by (rule frame_index_grows [OF logged_index]) simp
  then show "index_grows s s'"
    using upholdsD [OF index_message_grows ix] by (rule index_grows.R_trans)
  show "index_entry s' (event\<lparr>ev_historical := False, ev_id := n, ev_time := t\<rparr>)"
    using ix by (fastforce simp: index_message_Inr index_entry_def)
qed

lemma append_follows: "upholds index_follows (append_tx event)"
proof
  fix s changed s'
  assume run: "append_tx event s = Inr (changed, s')"
  let ?e = "event\<lparr>ev_historical := False, ev_id := counter s BEvents + 1, ev_time := clock s\<rparr>"
  have grows: "index_grows s s'"
  proof (cases changed)
    case True
    show ?thesis
    proof (cases "ev_type event = ''message''")
      case False
      then have "s' = logged event s" using append_tx_Inr(7) [OF run True] by simp
      then show ?thesis using frame_index_grows [OF logged_index] by simp
    qed (rule append_entry(1) [OF run True])
  next
    case False
    then show ?thesis using append_tx_Inr(6) [OF run] by (simp add: index_grows.R_refl)
  qed
  have new: "ev_type ?e = ''message'' \<longrightarrow> index_entry s' ?e" if changed
    using append_entry(2) [OF run that] by simp
  show "index_follows s s'"
    unfolding index_follows_def
  proof (intro allI impI, elim conjE)
    fix es
    assume rep: "represents s es" and ok: "index_ok s es"
    have rep': "represents s' (es @ (if changed then [?e] else []))"
      using append_tx_represents(2) [OF run rep] by (simp split: if_splits)
    have "index_ok s' (es @ (if changed then [?e] else []))"
      using index_ok_grows [OF grows ok] new by (auto simp: index_ok_def)
    with rep' show "\<exists>new. represents s' (es @ new) \<and> index_ok s' (es @ new)" by blast
  qed
qed

interpretation index_follows: log_relation index_follows
proof unfold_locales
  show "index_follows s s" for s
    by (rule index_follows_same) (simp_all add: index_grows.R_refl)
  show "index_follows s u" if "index_follows s t" "index_follows t u" for s t u
    using that unfolding index_follows_def by (metis append_assoc)
  show "index_follows s s'" if fr: "frame (UNIV - log_buckets) s s'" for s s'
  proof (rule index_follows_same)
    show "index_grows s s'" by (rule frame_index_grows [OF fr]) (simp add: log_buckets_def)
    show "represents s' es" if "represents s es" for es
      using that represents_frame [OF fr] by (simp add: log_buckets_def)
  qed
  show "index_follows s (s\<lparr>clock := t\<rparr>)" for s t
    by (rule index_follows_same) (simp_all add: index_grows_def represents_def)
  show "upholds index_follows (append_tx event)" for event
    by (rule append_follows)
  show "upholds index_follows (bcreate b)" for b
  proof
    fix s u s'
    assume run: "bcreate b s = Inr (u, s')"
    have "represents s' es" if "represents s es" for es
      using that run by (auto simp: bcreate_Inr represents_def set_bucket_def split: if_splits)
        (auto simp: set_bucket_def [symmetric])
    with upholdsD [OF create_index_grows run] show "index_follows s s'"
      by (rule index_follows_same)
  qed
  show "upholds index_follows ensure_message_index"
  proof
    fix s u s'
    assume run: "ensure_message_index s = Inr (u, s')"
    have "frame {BMessageIndex} s s'" by (rule upholdsD [OF frame_message_index run]) simp
    then have "represents s' es" if "represents s es" for es
      using that represents_frame by blast
    with upholdsD [OF ensure_index_grows run] show "index_follows s s'"
      by (rule index_follows_same)
  qed
qed

text \<open>Every reachable database has a complete and sorted index.\<close>

lemma reachable_index: "reachable s \<Longrightarrow> \<exists>es. represents s es \<and> index_ok s es"
proof -
  assume "reachable s"
  then obtain key t where run: "store_steps (new_file key t) s" by (auto simp: reachable_def)
  have "represents (new_file key t) []"
    by (simp add: represents_def new_file_def pairs_def counter_def lookup_def)
  moreover have "index_ok (new_file key t) []"
    by (simp add: index_ok_def new_file_def pairs_def)
  ultimately show ?thesis
    using index_follows.steps [OF run] by (auto simp: index_follows_def)
qed

end
