(* ===== verification/ApiReads.thy ===== *)
theory ApiReads
  imports ApiStream MessageIndex
begin

text \<open>
  What the read handlers see of the database: the stored record behind an id, the two reads of
  records as maps over ids, and the messages a list of records decodes to.
\<close>

section \<open>Records by id\<close>

definition message_key :: "string \<Rightarrow> string" where
  "message_key j = entity_key ''message'' j"

definition plain_at :: "store \<Rightarrow> string \<Rightarrow> payload" where
  "plain_at s k = (case lookup s BLatest k of None \<Rightarrow> Opaque []
     | Some c \<Rightarrow> (case open_cell (cipher_key s) k c of Inl e \<Rightarrow> Opaque [] | Inr p \<Rightarrow> p))"

definition record_of :: "store \<Rightarrow> string \<Rightarrow> string \<Rightarrow> snapshot_record" where
  "record_of s kind j = \<lparr>sr_data = plain_at s (entity_key kind j), sr_current = is_current s kind j\<rparr>"

definition record_stored :: "store \<Rightarrow> string \<Rightarrow> string \<Rightarrow> bool" where
  "record_stored s kind j \<longleftrightarrow> lookup s BLatest (entity_key kind j) \<noteq> None"

lemma decrypt_plain:
  "lookup s BLatest k = Some c \<Longrightarrow> decrypt c k s = Inr (p, t) \<Longrightarrow> p = plain_at s k \<and> t = s"
  by (auto simp: decrypt_Inr plain_at_def)

lemma entity_key_drop [simp]: "drop (Suc (length kind)) (entity_key kind j) = j"
  by (simp add: entity_key_def)

text \<open>\<open>SnapshotCurrent\<close> lists the records of its kind in the order of their ids.\<close>

lemma fold_snapshot:
  assumes "\<forall>kv \<in> set found. lookup s BLatest (fst kv) = Some (snd kv) \<and> prefix (kind @ '':'') (fst kv)"
    and "fold_tx (\<lambda>kv result. bind_tx (decrypt (snd kv) (fst kv)) (\<lambda>plain.
         bind_tx (entity_current_tx kind (drop (length kind + 1) (fst kv))) (\<lambda>current.
         return_tx (result @ [\<lparr>sr_data = plain, sr_current = current\<rparr>])))) found acc s = Inr (raw, t)"
  shows "raw = acc @ map (record_of s kind) (map (\<lambda>kv. drop (length kind + 1) (fst kv)) found) \<and> t = s"
  using assms
proof (induction found arbitrary: acc)
  case (Cons kv found)
  obtain k c where kv: "kv = (k, c)" by (cases kv)
  with Cons.prems(1) have c: "lookup s BLatest k = Some c" and p: "prefix (kind @ '':'') k"
    by simp_all
  then have k: "entity_key kind (drop (Suc (length kind)) k) = k"
    by (auto simp: entity_key_def prefix_def)
  from Cons.prems(2) obtain pl cur u where
    d: "decrypt c k s = Inr (pl, s)" and e: "entity_current_tx kind (drop (Suc (length kind)) k) s = Inr (cur, u)"
    and f: "fold_tx (\<lambda>kv result. bind_tx (decrypt (snd kv) (fst kv)) (\<lambda>plain.
         bind_tx (entity_current_tx kind (drop (length kind + 1) (fst kv))) (\<lambda>current.
         return_tx (result @ [\<lparr>sr_data = plain, sr_current = current\<rparr>])))) found
         (acc @ [\<lparr>sr_data = pl, sr_current = cur\<rparr>]) u = Inr (raw, t)"
    by (auto simp: kv bind_tx_Inr decrypt_Inr)
  have "u = s \<and> cur = is_current s kind (drop (Suc (length kind)) k)"
    using e by (auto simp: entity_current_Inr)
  then have us: "u = s" and cur: "cur = is_current s kind (drop (Suc (length kind)) k)" by simp_all
  have pl: "pl = plain_at s k" using decrypt_plain [OF c d] by simp
  have "raw = (acc @ [\<lparr>sr_data = pl, sr_current = cur\<rparr>]) @
      map (record_of s kind) (map (\<lambda>kv. drop (length kind + 1) (fst kv)) found) \<and> t = s"
    by (rule Cons.IH) (use Cons.prems(1) f us in simp_all)
  then show ?case by (simp add: kv record_of_def k pl cur)
qed simp

lemma distinct_drop_prefix:
  assumes "distinct ks" and "\<forall>k \<in> set ks. prefix p k"
  shows "distinct (map (drop (length p)) ks)"
proof -
  have "inj_on (drop (length p)) (set ks)"
  proof (rule inj_onI)
    fix x y
    assume "x \<in> set ks" "y \<in> set ks" and eq: "drop (length p) x = drop (length p) y"
    with assms(2) have "x = p @ drop (length p) x" "y = p @ drop (length p) y"
      by (metis append_eq_conv_conj prefixE)+
    with eq show "x = y" by metis
  qed
  with assms(1) show ?thesis by (simp add: distinct_map)
qed

lemma scan_drop:
  assumes "kv_sorted (pairs s b)"
  shows "distinct (map (\<lambda>kv. drop (length p) (fst kv)) (kv_scan p (pairs s b)))"
    and "set (map (\<lambda>kv. drop (length p) (fst kv)) (kv_scan p (pairs s b))) = {j. lookup s b (p @ j) \<noteq> None}"
proof -
  let ?ks = "map fst (kv_scan p (pairs s b))"
  have keys: "set ?ks = {k. prefix p k \<and> lookup s b k \<noteq> None}"
    using kv.scan_keys [OF assms] by (simp add: lookup_pairs)
  have "distinct (map (drop (length p)) ?ks)"
    by (rule distinct_drop_prefix [OF kv.scan_distinct [OF assms]]) (use keys in simp)
  then show "distinct (map (\<lambda>kv. drop (length p) (fst kv)) (kv_scan p (pairs s b)))"
    by (simp add: comp_def)
  have "drop (length p) ` {k. prefix p k \<and> lookup s b k \<noteq> None} = {j. lookup s b (p @ j) \<noteq> None}"
    by (force simp: prefix_def image_iff)
  with keys show "set (map (\<lambda>kv. drop (length p) (fst kv)) (kv_scan p (pairs s b))) =
      {j. lookup s b (p @ j) \<noteq> None}"
    by (simp add: image_image [symmetric])
qed

lemma scan_lookup:
  "kv_sorted (pairs s b) \<Longrightarrow> kv \<in> set (kv_scan p (pairs s b)) \<Longrightarrow>
   lookup s b (fst kv) = Some (snd kv) \<and> prefix p (fst kv)"
  using kv.scan_mem [of "pairs s b" "fst kv" "snd kv" p] by (simp add: lookup_pairs)

lemma snapshot_current_records:
  assumes srt: "kv_sorted (pairs s BLatest)" and run: "snapshot_current kind s = Inr ((raw, n), t)"
  obtains js where "raw = map (record_of s kind) js" and "distinct js"
    and "set js = {j. record_stored s kind j}" and "t = s"
proof -
  let ?p = "kind @ '':''"
  let ?found = "kv_scan ?p (pairs s BLatest)"
  let ?js = "map (\<lambda>kv. drop (length ?p) (fst kv)) ?found"
  from run have fold: "fold_tx (\<lambda>kv result. bind_tx (decrypt (snd kv) (fst kv)) (\<lambda>plain.
         bind_tx (entity_current_tx kind (drop (length kind + 1) (fst kv))) (\<lambda>current.
         return_tx (result @ [\<lparr>sr_data = plain, sr_current = current\<rparr>])))) ?found [] s = Inr (raw, t)"
    by (auto simp: snapshot_current_def bind_tx_Inr bsequence_Inr bscan_Inr)
  have "raw = [] @ map (record_of s kind) (map (\<lambda>kv. drop (length kind + 1) (fst kv)) ?found) \<and> t = s"
    by (rule fold_snapshot [OF _ fold]) (use scan_lookup [OF srt] in blast)
  then have "raw = map (record_of s kind) ?js" "t = s" by simp_all
  moreover have "set ?js = {j. record_stored s kind j}"
    using scan_drop(2) [OF srt, of ?p] by (simp add: record_stored_def entity_key_def)
  ultimately show thesis using that scan_drop(1) [OF srt, of ?p] by blast
qed

lemma fold_index:
  "fold_tx (\<lambda>kv result.
         let i = drop d (fst kv); key = entity_key ''message'' i in
         bind_tx (bget BLatest key) (\<lambda>v. case v of None \<Rightarrow> return_tx result
         | Some c \<Rightarrow> bind_tx (decrypt c key) (\<lambda>plain.
             bind_tx (entity_current_tx ''message'' i) (\<lambda>current.
             return_tx (result @ [\<lparr>sr_data = plain, sr_current = current\<rparr>]))))) found acc s = Inr (raw, t) \<Longrightarrow>
   raw = acc @ map (record_of s ''message'')
     (filter (record_stored s ''message'') (map (\<lambda>kv. drop d (fst kv)) found)) \<and> t = s"
proof (induction found arbitrary: acc)
  case (Cons kv found)
  let ?j = "drop d (fst kv)"
  show ?case
  proof (cases "lookup s BLatest (entity_key ''message'' ?j)")
    case None
    with Cons.prems Cons.IH [of acc] show ?thesis
      by (auto simp: bind_tx_Inr bget_Inr record_stored_def Let_def)
  next
    case (Some c)
    with Cons.prems have "fold_tx (\<lambda>kv result.
         let i = drop d (fst kv); key = entity_key ''message'' i in
         bind_tx (bget BLatest key) (\<lambda>v. case v of None \<Rightarrow> return_tx result
         | Some c \<Rightarrow> bind_tx (decrypt c key) (\<lambda>plain.
             bind_tx (entity_current_tx ''message'' i) (\<lambda>current.
             return_tx (result @ [\<lparr>sr_data = plain, sr_current = current\<rparr>]))))) found
           (acc @ [record_of s ''message'' ?j]) s = Inr (raw, t)"
      by (auto simp: bind_tx_Inr bget_Inr Let_def entity_current_Inr record_of_def
          dest!: decrypt_plain [OF Some])
    from Cons.IH [OF this] Some show ?thesis by (simp add: record_stored_def)
  qed
qed simp

lemma conversation_messages_records:
  assumes srt: "kv_sorted (pairs s BMessageIndex)"
    and run: "conversation_messages i s = Inr ((raw, n), t)"
  obtains js where "raw = map (record_of s ''message'') js" and "distinct js"
    and "set js = {j. lookup s BMessageIndex (message_index_key i j) \<noteq> None \<and> record_stored s ''message'' j}"
    and "t = s"
proof -
  let ?p = "message_index_key i []"
  let ?js = "map (\<lambda>kv. drop (length ?p) (fst kv)) (kv_scan ?p (pairs s BMessageIndex))"
  have "raw = [] @ map (record_of s ''message'') (filter (record_stored s ''message'') ?js) \<and> t = s"
    by (rule fold_index) (use run in \<open>auto simp: conversation_messages_def Let_def bind_tx_Inr
        bsequence_Inr bscan_Inr\<close>)
  moreover have "set ?js = {j. lookup s BMessageIndex (message_index_key i j) \<noteq> None}"
    using scan_drop(2) [OF srt, of ?p] by (simp add: message_index_key_def)
  ultimately show thesis
    using that [of "filter (record_stored s ''message'') ?js"] scan_drop(1) [OF srt, of ?p]
    by (auto simp: distinct_filter)
qed

section \<open>Messages by id\<close>

text \<open>A stored message as the handlers show it.\<close>

definition message_view :: "store \<Rightarrow> string \<Rightarrow> message option" where
  "message_view s j = (case unmarshal dec_message (plain_at s (message_key j)) of Inl e \<Rightarrow> None
     | Inr m \<Rightarrow> Some (m\<lparr>m_read_only := \<not> is_current s ''message'' j\<rparr>))"

lemma read_messages_views:
  "read_messages network (map (record_of s ''message'') js) = Inr ms \<Longrightarrow>
   (\<forall>j \<in> set js. message_view s j \<noteq> None) \<and>
   ms = filter (\<lambda>m. \<not> protocol_record network m) (map (the \<circ> message_view s) js)"
  by (induction js arbitrary: ms)
    (auto simp: record_of_def message_view_def message_key_def Let_def split: sum.splits)

text \<open>Every message lies under its own id.\<close>

definition message_ids_ok :: "store \<Rightarrow> bool" where
  "message_ids_ok s \<longleftrightarrow> (\<forall>j m. record_stored s ''message'' j \<longrightarrow> message_view s j = Some m \<longrightarrow>
     m_id m = j \<and> j \<noteq> [])"

lemma listed_member:
  assumes ids: "message_ids_ok s" and stored: "\<forall>j \<in> set js. record_stored s ''message'' j"
    and run: "newest_messages network (map (record_of s ''message'') js) = Inr ms"
  shows "m \<in> set ms \<longleftrightarrow> m_id m \<in> set js \<and> message_view s (m_id m) = Some m \<and> \<not> protocol_record network m"
    and "\<forall>j \<in> set js. \<exists>m. message_view s j = Some m \<and> m_id m = j \<and> j \<noteq> []"
proof -
  obtain xs where xs: "read_messages network (map (record_of s ''message'') js) = Inr xs"
    and ms: "ms = sort_by newer_first xs"
    using run by (auto simp: newest_messages_def split: sum.splits)
  note v = read_messages_views [OF xs]
  show views: "\<forall>j \<in> set js. \<exists>m. message_view s j = Some m \<and> m_id m = j \<and> j \<noteq> []"
    using v ids stored by (fastforce simp: message_ids_ok_def)
  then show "m \<in> set ms \<longleftrightarrow> m_id m \<in> set js \<and> message_view s (m_id m) = Some m \<and> \<not> protocol_record network m"
    using v by (auto simp: ms image_iff) force+
qed

lemma listed_messages:
  assumes ids: "message_ids_ok s" and stored: "\<forall>j \<in> set js. record_stored s ''message'' j" and "distinct js"
    and run: "newest_messages network (map (record_of s ''message'') js) = Inr ms"
  shows "distinct (map m_id ms)" and "[] \<notin> set (map m_id ms)"
    and "sorted_wrt (\<lambda>x y. \<not> newer_first y x) ms"
proof -
  obtain xs where xs: "read_messages network (map (record_of s ''message'') js) = Inr xs"
    and ms: "ms = sort_by newer_first xs"
    using run by (auto simp: newest_messages_def split: sum.splits)
  note views = listed_member(2) [OF ids stored run]
  have "map (m_id \<circ> (the \<circ> message_view s)) js = js"
    by (rule map_idI) (use views in fastforce)
  then have "distinct (map m_id (map (the \<circ> message_view s) js))"
    using assms(3) by simp
  then have "distinct (map m_id xs)"
    using read_messages_views [OF xs] distinct_map_filter by blast
  then show "distinct (map m_id ms)" by (simp add: ms sort_by_distinct_ids)
  show "[] \<notin> set (map m_id ms)"
    using listed_member [OF ids stored run] by fastforce
  show "sorted_wrt (\<lambda>x y. \<not> newer_first y x) ms"
    unfolding ms by (rule by_time.sorted_sort_by)
qed

section \<open>The index and the records\<close>

text \<open>What the index reads of a document is what the message decodes to.\<close>

definition ref_of :: "message \<Rightarrow> message_ref" where
  "ref_of m = \<lparr>ref_id = m_id m, ref_conversation_id = m_conversation_id m\<rparr>"

lemma set_message_ref_of: "set_message k v m = Some m' \<Longrightarrow> set_message_ref k v (ref_of m) = Some (ref_of m')"
  by (auto simp: set_message_def set_message_ref_def ref_of_def split: if_splits)

lemma decode_fields_ref:
  "decode_fields set_message m members = Some m' \<Longrightarrow>
   decode_fields set_message_ref (ref_of m) members = Some (ref_of m')"
  by (induction set_message m members rule: decode_fields.induct)
    (auto split: option.splits dest: set_message_ref_of)

lemma unmarshal_ref:
  assumes "unmarshal dec_message p = Inr m"
  shows "unmarshal dec_message_ref p = Inr (ref_of m)"
proof -
  obtain j where p: "p = JText j" using assms by (cases p) auto
  have z: "\<lparr>ref_id = [], ref_conversation_id = []\<rparr> = ref_of zero_message"
    by (simp add: ref_of_def zero_message_def)
  have "dec_message_ref j = Some (ref_of m)"
    using assms unfolding p dec_message_def dec_message_ref_def z
    by (cases j) (auto split: option.splits dest: decode_fields_ref)
  then show ?thesis by (simp add: p)
qed

text \<open>Event types are words, so a record's key tells its type and its id.\<close>

definition plain_types :: "event list \<Rightarrow> bool" where
  "plain_types es \<longleftrightarrow> (\<forall>e \<in> set es. CHR '':'' \<notin> set (ev_type e))"

lemma entity_key_type:
  assumes "CHR '':'' \<notin> set a" and "CHR '':'' \<notin> set b" and "entity_key a i = entity_key b j"
  shows "a = b"
proof -
  have "takeWhile (\<lambda>c. c \<noteq> CHR '':'') (x @ CHR '':'' # r) = x" if "CHR '':'' \<notin> set x" for x r
    using that by (auto simp: takeWhile_append2 takeWhile_append intro: takeWhile_eq_all_conv [THEN iffD2])
  with assms show ?thesis by (metis append.assoc append_Cons append_Nil entity_key_def)
qed

lemma replay_last: "replay es k = Some d \<Longrightarrow> \<exists>e \<in> set es. event_key e = k \<and> ev_data e = d"
proof (induction es rule: rev_induct)
  case (snoc e es)
  then show ?case by (cases "event_key e = k") (auto split: if_splits)
qed simp

lemma plain_at_replay:
  "represents s es \<Longrightarrow> record_stored s kind j \<Longrightarrow> replay es (entity_key kind j) = Some (plain_at s (entity_key kind j))"
  by (auto simp: represents_def record_stored_def plain_at_def)

lemma stored_message_indexed:
  assumes rep: "represents s es" and ix: "index_ok s es" and ty: "plain_types es"
    and "record_stored s ''message'' j" and v: "message_view s j = Some m"
    and "m_id m \<noteq> []" and "m_conversation_id m \<noteq> []"
  shows "lookup s BMessageIndex (message_index_key (m_conversation_id m) (m_id m)) \<noteq> None"
proof -
  obtain e where e: "e \<in> set es" "event_key e = message_key j" "ev_data e = plain_at s (message_key j)"
    using replay_last [OF plain_at_replay [OF rep assms(4)]] by (auto simp: message_key_def)
  have "ev_type e = ''message''"
    by (rule entity_key_type) (use e ty in \<open>auto simp: plain_types_def event_key_def message_key_def\<close>)
  with ix e(1) have entry: "index_entry s e" by (auto simp: index_ok_def)
  obtain m0 where m0: "unmarshal dec_message (ev_data e) = Inr m0" and m: "m = m0\<lparr>m_read_only := \<not> is_current s ''message'' j\<rparr>"
    using v by (auto simp: message_view_def e(3) split: sum.splits)
  from entry unmarshal_ref [OF m0] show ?thesis
    using assms(6,7) by (simp add: index_entry_def ref_of_def m)
qed

end
