(* ===== verification/Chat.thy ===== *)
theory Chat
  imports ApiReads RecordProperties ServiceProperties
begin

text \<open>
  A database with one message and its conversation, on which the properties of the read handlers
  are instantiated.
\<close>

definition photo_event :: event where
  "photo_event = zero_event\<lparr>ev_type := ''message'', ev_entity_id := ''m'',
     ev_data := JText (enc_message photo)\<rparr>"

lemma photo_event_simps [simp]:
  "ev_type photo_event = ''message''" "ev_entity_id photo_event = ''m''"
  "ev_data photo_event = JText (enc_message photo)" "event_key photo_event = entity_key ''message'' ''m''"
  "photo_event\<lparr>ev_data := JText (enc_message photo)\<rparr> = photo_event"
  by (simp_all add: photo_event_def event_key_def)

definition stamped :: "string \<Rightarrow> string \<Rightarrow> store \<Rightarrow> store" where
  "stamped kind i s = put_kv BEntityEpochs (entity_key kind i) (Raw (sequence 0)) s"

definition with_photo :: store where
  "with_photo = put_kv BConversationLatest ''c''
       (Sealed ''key'' (latest_context ''c'') (JText (enc_latest photo_latest)))
     (put_kv BVersions (entity_key ''message'' ''m'') (Raw (sequence 1))
     (set_counter BVersions 1 (indexed photo (logged photo_event (stamped ''message'' ''m''
       (set_bucket BEntityEpochs (Some empty_bucket) (empty_store 5)))))))"

lemma run_photo: "\<exists>r. apply_tx photo_event [] None (empty_store 5) = Inr (r, with_photo)"
  by (rule exI [of _ True]) (simp add: apply_tx_def stale_tx_def observe_event_tx_def stamp_epoch_def stamp_current_def
      previous_status_tx_def put_private_tx_def confirm_event_tx_def confirm_send_tx_def exec runs
      can_append_def refresh_conversation_tx_def photo_source put_latest_message_tx_def
      latest_message_tx_def bget_sealed_def update_conversation_tx_def Let_def indexed_def
      with_photo_def conversation_key_def stamped_def)

definition chat :: conversation where
  "chat = plain_conversation\<lparr>c_updated := 6\<rparr>"

definition chat_event :: event where
  "chat_event = conversation_event ''c'' chat"

lemma chat_simps [simp]:
  "c_schema chat = Schema" "c_id chat = ''c''" "c_updated chat = 6"
  "ev_type chat_event = ''conversation''" "ev_entity_id chat_event = ''c''"
  "ev_data chat_event = JText (enc_conversation chat)"
  "event_key chat_event = entity_key ''conversation'' ''c''"
  "chat_event\<lparr>ev_data := JText (enc_conversation chat)\<rparr> = chat_event"
  by (simp_all add: chat_def plain_conversation_def chat_event_def conversation_event_def event_key_def)

lemma with_photo_simps [simp]:
  "cipher_key with_photo = ''key''" "clock with_photo = 5" "epoch_of with_photo = 0"
  "exists_bucket with_photo b \<longleftrightarrow> b = BEntityEpochs \<or> opened_bucket b" "counter with_photo BVersions = 1"
  "counter with_photo BEvents = 1"
  "lookup with_photo BLatest k = (if k = entity_key ''message'' ''m''
     then Some (Sealed ''key'' k (JText (enc_message photo))) else None)"
  "lookup with_photo BConversationLatest k = (if k = ''c''
     then Some (Sealed ''key'' (latest_context ''c'') (JText (enc_latest photo_latest))) else None)"
  "lookup with_photo BMessageIndex k = (if k = message_index_key ''c'' ''m'' then Some (Raw []) else None)"
  "pairs with_photo BMessageIndex = [(message_index_key ''c'' ''m'', Raw [])]"
  "pairs with_photo BLatest = [(entity_key ''message'' ''m'', Sealed ''key'' (entity_key ''message'' ''m'')
     (JText (enc_message photo)))]"
  by (simp_all add: with_photo_def stamped_def indexed_def pairs_simps epoch_of_def u64_at_def)

definition with_chat :: store where
  "with_chat = put_kv BVersions (entity_key ''conversation'' ''c'') (Raw (sequence 2))
     (set_counter BVersions 2 (logged chat_event (stamped ''conversation'' ''c'' with_photo)))"

lemma run_chat: "\<exists>r. apply_tx chat_event [] None with_photo = Inr (r, with_chat)"
proof -
  have "preview_conversation (JText (enc_conversation chat)) with_photo =
      Inr (JText (enc_conversation chat), with_photo)"
    by (simp add: preview_conversation_def stored_preview_tx_def latest_message_tx_def bget_sealed_def decrypt_def
        Let_def exec runs conversation_key_def with_latest_def merge_latest_message_def photo_latest_def)
  then show ?thesis
    by - (rule exI [of _ True], simp add: apply_tx_def stale_tx_def observe_event_tx_def stamp_epoch_def stamp_current_def
        previous_status_tx_def put_private_tx_def confirm_event_tx_def exec runs can_append_def
        with_chat_def stamped_def)
qed

lemma chat_reachable: "reachable with_photo" "reachable with_chat"
proof -
  obtain r where "apply_tx photo_event [] None (empty_store 5) = Inr (r, with_photo)"
    using run_photo by blast
  then show p: "reachable with_photo"
    by (rule reachable_step [OF empty_store_reachable store_step.applied])
  obtain r where "apply_tx chat_event [] None with_photo = Inr (r, with_chat)"
    using run_chat by blast
  then show "reachable with_chat" by (rule reachable_step [OF p store_step.applied])
qed

lemma with_chat_simps [simp]:
  "cipher_key with_chat = ''key''" "epoch_of with_chat = 0"
  "exists_bucket with_chat b \<longleftrightarrow> b = BEntityEpochs \<or> opened_bucket b" "counter with_chat BEvents = 2"
  "lookup with_chat BLatest k = (if k = entity_key ''conversation'' ''c''
     then Some (Sealed ''key'' k (JText (enc_conversation chat)))
     else lookup with_photo BLatest k)"
  "lookup with_chat BMessageIndex k = lookup with_photo BMessageIndex k"
  "pairs with_chat BMessageIndex = pairs with_photo BMessageIndex"
  by (simp_all add: with_chat_def stamped_def pairs_simps)

lemma chat_records [simp]:
  "record_stored with_photo ''message'' j \<longleftrightarrow> j = ''m''"
  "record_stored with_chat ''message'' j \<longleftrightarrow> j = ''m''"
  "is_current with_photo kind j" "is_current with_chat kind j"
  by (simp_all add: record_stored_def is_current_def)

lemma chat_views [simp]:
  "message_view with_photo ''m'' = Some photo" "message_view with_chat ''m'' = Some photo"
proof -
  have "photo\<lparr>m_read_only := False\<rparr> = photo" by (simp add: photo_def zero_message_def)
  then show "message_view with_photo ''m'' = Some photo" "message_view with_chat ''m'' = Some photo"
    by (simp_all add: message_view_def plain_at_def message_key_def)
qed

text \<open>The log of the database: the message, then the conversation.\<close>

lemma represents_simps:
  "b \<noteq> BEvents \<Longrightarrow> b \<noteq> BLatest \<Longrightarrow> represents (put_kv b k v s) es = represents s es"
  "b \<noteq> BEvents \<Longrightarrow> represents (set_counter b n s) es = represents s es"
  "represents (set_bucket BEntityEpochs x s) es = represents s es"
  by (simp_all add: represents_def pairs_simps)
    (simp_all add: pairs_def lookup_def counter_def set_bucket_def)

lemma logged_one:
  assumes "represents s es" and "counter s BEvents \<noteq> - 1" and "exists_bucket s BEvents"
    and "exists_bucket s BLatest" and "json_valid (ev_data event)"
  shows "\<exists>e. represents (logged event s) (es @ [e]) \<and> ev_type e = ev_type event"
  by (intro exI conjI, rule represents_logged [OF assms]) simp

lemma chat_log:
  "\<exists>e. represents with_photo [e] \<and> ev_type e = ''message''"
  "\<exists>e e'. represents with_chat [e, e'] \<and> ev_type e = ''message'' \<and> ev_type e' = ''conversation''"
proof -
  let ?s = "stamped ''message'' ''m'' (set_bucket BEntityEpochs (Some empty_bucket) (empty_store 5))"
  have "represents ?s []"
    by (simp add: stamped_def represents_simps) (simp add: represents_def)
  then obtain e where e: "represents (logged photo_event ?s) ([] @ [e])" "ev_type e = ''message''"
    using logged_one [of ?s "[]" photo_event] by (auto simp: stamped_def)
  then have p: "represents with_photo [e]"
    by (simp add: with_photo_def indexed_def represents_simps)
  then show "\<exists>e. represents with_photo [e] \<and> ev_type e = ''message''" using e(2) by blast
  from p have "represents (stamped ''conversation'' ''c'' with_photo) [e]"
    by (simp add: stamped_def represents_simps)
  then obtain e' where e': "represents (logged chat_event (stamped ''conversation'' ''c'' with_photo)) ([e] @ [e'])"
      "ev_type e' = ''conversation''"
    using logged_one [of _ "[e]" chat_event] by (fastforce simp: stamped_def)
  then have "represents with_chat [e, e']" by (simp add: with_chat_def represents_simps)
  with e(2) e'(2) show "\<exists>e e'. represents with_chat [e, e'] \<and> ev_type e = ''message'' \<and> ev_type e' = ''conversation''"
    by blast
qed

section \<open>What the handlers read there\<close>

lemma index_scan [simp]:
  "kv_scan (message_index_key ''c'' []) [(message_index_key ''c'' ''m'', v)] = [(message_index_key ''c'' ''m'', v)]"
  "drop (length (message_index_key ''c'' [])) (message_index_key ''c'' ''m'') = ''m''"
  by (simp_all add: kv_scan_def message_index_key_def)

definition photo_record :: snapshot_record where
  "photo_record = \<lparr>sr_data = JText (enc_message photo), sr_current = True\<rparr>"

lemma run_chat_messages:
  "conversation_messages ''c'' with_chat = Inr (([photo_record], 2), with_chat)"
  "latest_record ''conversation'' ''c'' with_chat = Inr (JText (enc_conversation chat), with_chat)"
  by (simp_all add: conversation_messages_def latest_record_def get_record_def bget_plain_def exec runs Let_def
      photo_record_def decrypt_def record_context_def)

lemma run_newest_photo: "newest_messages network [photo_record] = Inr [photo]"
proof -
  have "photo\<lparr>m_read_only := False\<rparr> = photo" by (simp add: photo_def zero_message_def)
  moreover have "\<not> protocol_record network photo" by (simp add: protocol_record_def photo_def)
  ultimately have "read_messages network [photo_record] = Inr [photo]" by (simp add: photo_record_def)
  then show ?thesis by (simp add: newest_messages_def)
qed

lemma chat_key_order [simp]: "entity_key ''conversation'' ''c'' < entity_key ''message'' ''m''"
  by (simp add: entity_key_def)

lemma conversation_scan [simp]:
  "kv_scan ''conversation:'' [(entity_key ''conversation'' ''c'', v), (entity_key ''message'' ''m'', w)] =
   [(entity_key ''conversation'' ''c'', v)]"
  "kv_scan ''message:'' [(entity_key ''message'' ''m'', w)] = [(entity_key ''message'' ''m'', w)]"
  "kv_scan ''conversation:'' [(entity_key ''message'' ''m'', w)] = []"
  by (simp_all add: kv_scan_def entity_key_def)

definition chat_record :: snapshot_record where
  "chat_record = \<lparr>sr_data = JText (enc_conversation chat), sr_current = True\<rparr>"

lemma chat_latest [simp]:
  "pairs with_chat BLatest = [(entity_key ''conversation'' ''c'', Sealed ''key'' (entity_key ''conversation'' ''c'')
     (JText (enc_conversation chat))), (entity_key ''message'' ''m'', Sealed ''key'' (entity_key ''message'' ''m'')
     (JText (enc_message photo)))]"
  by (simp add: with_chat_def stamped_def logged_def Let_def pairs_simps event_key_def [symmetric])

lemma run_snapshots:
  "snapshot_current ''conversation'' with_chat = Inr (([chat_record], 2), with_chat)"
  "snapshot_current ''conversation'' with_photo = Inr (([], 1), with_photo)"
  "snapshot_current ''message'' with_photo = Inr (([photo_record], 1), with_photo)"
  by (simp_all add: snapshot_current_def exec runs decrypt_def chat_record_def photo_record_def)

lemma run_recent:
  "recent_message_records 4 (new_bridge with_chat) = (Inr ([photo_record], 2), new_bridge with_chat)"
  "recent_message_records 4 (new_bridge with_photo) = (Inr ([], 1), new_bridge with_photo)"
  "recent_message_records 0 (new_bridge with_photo) = (Inr ([photo_record], 1), new_bridge with_photo)"
  by (simp_all add: recent_message_records_def recent_conversation_def act_defs view_db_def view_tx_def
      run_snapshots run_chat_messages chat_record_def)

lemma run_read_chat:
  "read_conversation_messages ''c'' (new_bridge with_chat) = (Inr ([photo], 2), new_bridge with_chat)"
  by (simp add: read_conversation_messages_def act_defs view_db_def view_tx_def run_chat_messages
      run_newest_photo)

lemma chat_ids: "message_ids_ok with_chat" "message_ids_ok with_photo"
  by (auto simp: message_ids_ok_def)

lemma chat_types:
  "\<exists>es. represents with_chat es \<and> plain_types es" "\<exists>es. represents with_photo es \<and> plain_types es"
  using chat_log by (fastforce simp: plain_types_def)+

end
