(* ===== verification/ApiProperties.thy ===== *)
theory ApiProperties
  imports Chat SendProperties
begin

text \<open>
  What a client of the HTTP interface can rely on: the pages of a conversation, the search for
  recent messages, the event stream, and who gets past the checks in front of the handlers.
\<close>

section \<open>Pages of a conversation\<close>

definition page_request :: "nat \<Rightarrow> string \<Rightarrow> http_request" where
  "page_request limit before = \<lparr>hr_method = ''GET'', hr_path = [], hr_segments = [], hr_host = [],
     hr_query = [(''limit'', [decimal limit]), (''before'', [before])], hr_header = (\<lambda>_. []), hr_body = []\<rparr>"

text \<open>A client that asks for at most \<open>k\<close> pages, following \<open>next_before\<close>.\<close>

fun follow_requests :: "nat \<Rightarrow> nat \<Rightarrow> string \<Rightarrow> string \<Rightarrow> bridge \<Rightarrow> message list option" where
  "follow_requests 0 limit i before b = None"
| "follow_requests (Suc k) limit i before b =
    (case get_conversation_messages i (page_request limit before) b of
       (Inr (code, Page_body page n nxt), b') \<Rightarrow>
         if nxt = [] then Some page else map_option ((@) page) (follow_requests k limit i nxt b')
     | _ \<Rightarrow> None)"

lemma page_request_query [simp]:
  "1 \<le> limit \<Longrightarrow> limit \<le> 500 \<Longrightarrow> page_limit (page_request limit before) = Some limit"
  "query_get (page_request limit before) ''before'' = before"
  by (simp_all add: page_limit_def query_get_def page_request_def)

lemma view_db_state [simp]: "snd (view_db m b) = b"
  by (simp add: view_db_def)

lemma view_db_result: "view_db m b = (Inr x, b') \<longleftrightarrow> (\<exists>s'. m (b_store b) = Inr (x, s')) \<and> b' = b"
  by (auto simp: view_db_def view_tx_def split: sum.splits prod.splits)

lemma lift_act_Inr: "lift_act r b = (Inr x, b') \<longleftrightarrow> r = Inr x \<and> b' = b"
  by (auto simp: lift_act_def)

lemma return_act_Inr: "return_act x b = (Inr y, b') \<longleftrightarrow> y = x \<and> b' = b"
  by (auto simp: return_act_def)

lemmas reads_Inr = bind_act_Inr then_act_Inr view_db_result lift_act_Inr return_act_Inr

lemma read_conversation_messages_Inr:
  "read_conversation_messages i b = (Inr (ms, n), b') \<Longrightarrow> b' = b \<and>
   (\<exists>raw t. conversation_messages i (b_store b) = Inr ((raw, n), t) \<and>
      newest_messages (network_of b) raw = Inr ms)"
  by (auto simp: read_conversation_messages_def reads_Inr split: prod.splits)

lemma follow_requests_pages:
  assumes "read_conversation_messages i b = (Inr (ms, n), b)" and "1 \<le> limit" "limit \<le> 500"
  shows "follow_requests k limit i before b = follow_pages k limit before ms"
proof (induction k arbitrary: before)
  case (Suc k)
  have "get_conversation_messages i (page_request limit before) b =
    (case message_page limit before ms of None \<Rightarrow> refuse 400 ''unknown before message'' b
     | Some (page, nxt) \<Rightarrow> (Inr (200, Page_body page n nxt), b))"
    using assms by (simp add: get_conversation_messages_def reply_def split: option.splits prod.splits)
  with Suc show ?case by (simp add: refuse_def split: option.splits prod.splits)
qed simp

lemma sorted_distinct_newer:
  "sorted_wrt (\<lambda>x y. \<not> newer_first y x) ms \<Longrightarrow> distinct (map m_id ms) \<Longrightarrow> sorted_wrt newer_first ms"
  by (induction ms) (force simp: newer_first_def split: if_splits)+

text \<open>C10: a client that asks a conversation for pages of any admitted size and follows
  \<open>next_before\<close> receives every message the index and the database hold for it exactly once, newest
  first (by time, then by id), in at most one page more than there are messages; only WhatsApp's
  empty protocol records are left out.\<close>

theorem pages_enumerate_messages:
  assumes "reachable (b_store b)" and "message_ids_ok (b_store b)"
    and "read_conversation_messages i b = (Inr (ms, n), b')"
    and "1 \<le> limit" and "limit \<le> 500" and "length ms < k"
  shows "follow_requests k limit i [] b = Some ms \<and> sorted_wrt newer_first ms \<and>
    distinct (map m_id ms) \<and>
    (\<forall>m. m \<in> set ms \<longleftrightarrow>
      lookup (b_store b) BMessageIndex (message_index_key i (m_id m)) \<noteq> None \<and>
      record_stored (b_store b) ''message'' (m_id m) \<and>
      message_view (b_store b) (m_id m) = Some m \<and> \<not> protocol_record (network_of b) m)"
proof -
  obtain raw t where b': "b' = b" and run: "conversation_messages i (b_store b) = Inr ((raw, n), t)"
    and ms: "newest_messages (network_of b) raw = Inr ms"
    using read_conversation_messages_Inr [OF assms(3)] by blast
  have srt: "kv_sorted (pairs (b_store b) BMessageIndex)"
    using reachable_index [OF assms(1)] by (auto simp: index_ok_def)
  obtain js where js: "raw = map (record_of (b_store b) ''message'') js" "distinct js"
    "set js = {j. lookup (b_store b) BMessageIndex (message_index_key i j) \<noteq> None \<and>
                  record_stored (b_store b) ''message'' j}"
    by (rule conversation_messages_records [OF srt run])
  have stored: "\<forall>j \<in> set js. record_stored (b_store b) ''message'' j" using js(3) by simp
  note listed = listed_messages [OF assms(2) stored js(2) ms [unfolded js(1)]]
  have "follow_pages k limit [] ms = Some ms"
    by (rule follow_pages_rest [OF listed(1,2)])
      (use assms(4,6) in \<open>simp_all add: messages_before_def\<close>)
  then have "follow_requests k limit i [] b = Some ms"
    using follow_requests_pages [OF assms(3) [unfolded b'] assms(4,5)] by simp
  moreover have "sorted_wrt newer_first ms"
    by (rule sorted_distinct_newer [OF listed(3,1)])
  ultimately show ?thesis
    using listed(1) listed_member(1) [OF assms(2) stored ms [unfolded js(1)]] js(3) by blast
qed

theorem pages_enumerate_messages_witness:
  "follow_requests 2 1 ''c'' [] (new_bridge with_chat) = Some [photo]"
  using pages_enumerate_messages [of "new_bridge with_chat" "''c''" "[photo]" 2 "new_bridge with_chat" 1 2]
    chat_reachable chat_ids run_read_chat by simp

section \<open>Recent messages\<close>

text \<open>The ids a conversation's index lists, and those the narrowed search reads.\<close>

definition indexed_ids :: "store \<Rightarrow> string \<Rightarrow> string set" where
  "indexed_ids s i = {j. lookup s BMessageIndex (message_index_key i j) \<noteq> None \<and> record_stored s ''message'' j}"

definition recent_ids :: "store \<Rightarrow> time \<Rightarrow> snapshot_record list \<Rightarrow> string set" where
  "recent_ids s since records = {j. \<exists>r \<in> set records. \<exists>c. unmarshal dec_conversation (sr_data r) = Inr c \<and>
     since \<le> c_updated c \<and> j \<in> indexed_ids s (c_id c)}"

lemma recent_ids_simps:
  "recent_ids s since [] = {}"
  "unmarshal dec_conversation (sr_data r) = Inr c \<Longrightarrow> recent_ids s since (r # records) =
     (if since \<le> c_updated c then indexed_ids s (c_id c) else {}) \<union> recent_ids s since records"
  by (auto simp: recent_ids_def)

lemma recent_one:
  assumes srt: "kv_sorted (pairs (b_store b) BMessageIndex)"
    and run: "recent_conversation since r (map (record_of (b_store b) ''message'') js0) b = (Inr found, b1)"
  shows "\<exists>js1. found = map (record_of (b_store b) ''message'') (js0 @ js1) \<and> b1 = b \<and>
    (\<forall>records. recent_ids (b_store b) since (r # records) = set js1 \<union> recent_ids (b_store b) since records)"
proof -
  from run obtain c where c: "unmarshal dec_conversation (sr_data r) = Inr c"
    and step: "(if c_updated c < since then return_act (map (record_of (b_store b) ''message'') js0)
      else bind_act (view_db (conversation_messages (c_id c))) (\<lambda>(raw, n).
        return_act (map (record_of (b_store b) ''message'') js0 @ raw))) b = (Inr found, b1)"
    by (auto simp: recent_conversation_def bind_act_Inr lift_act_Inr)
  show ?thesis
  proof (cases "c_updated c < since")
    case True
    with step c show ?thesis
      by (intro exI [of _ "[]"]) (simp add: return_act_Inr recent_ids_simps)
  next
    case False
    with step obtain raw n t where cm: "conversation_messages (c_id c) (b_store b) = Inr ((raw, n), t)"
      and found: "found = map (record_of (b_store b) ''message'') js0 @ raw" "b1 = b"
      by (auto simp: bind_act_Inr view_db_result return_act_Inr)
    obtain js1 where js1: "raw = map (record_of (b_store b) ''message'') js1"
      "set js1 = {j. lookup (b_store b) BMessageIndex (message_index_key (c_id c) j) \<noteq> None \<and>
                     record_stored (b_store b) ''message'' j}"
      by (rule conversation_messages_records [OF srt cm])
    with found c False show ?thesis
      by (intro exI [of _ js1]) (simp add: recent_ids_simps indexed_ids_def)
  qed
qed

lemma fold_recent:
  assumes srt: "kv_sorted (pairs (b_store b) BMessageIndex)"
  shows "fold_act (recent_conversation since) records (map (record_of (b_store b) ''message'') js0) b = (Inr raw, b') \<Longrightarrow>
    \<exists>js. raw = map (record_of (b_store b) ''message'') js \<and> b' = b \<and>
      set js = set js0 \<union> recent_ids (b_store b) since records"
proof (induction records arbitrary: js0)
  case Nil
  then show ?case by (auto simp: return_act_Inr recent_ids_simps)
next
  case (Cons r records)
  then obtain found b1 where one: "recent_conversation since r (map (record_of (b_store b) ''message'') js0) b = (Inr found, b1)"
    and rest: "fold_act (recent_conversation since) records found b1 = (Inr raw, b')"
    by (auto simp: bind_act_Inr)
  obtain js1 where js1: "found = map (record_of (b_store b) ''message'') (js0 @ js1)" "b1 = b"
    "recent_ids (b_store b) since (r # records) = set js1 \<union> recent_ids (b_store b) since records"
    using recent_one [OF srt one] by blast
  from Cons.IH [OF rest [unfolded js1(1,2)]] show ?case
    by (simp only: js1(3) set_append Un_assoc)
qed

lemma conversation_at_plain:
  "conversation_at s i = Some c \<Longrightarrow> record_stored s ''conversation'' i \<and>
   unmarshal dec_conversation (plain_at s (conversation_key i)) = Inr c"
  by (cases "lookup s BLatest (conversation_key i)")
    (auto simp: conversation_at_def stored_at_def record_stored_def conversation_key_def
      plain_at_def decode_cell_def split: sum.splits)

lemma recent_records:
  assumes "reachable (b_store b)" and run: "recent_message_records since b = (Inr (raw, n), b')"
  obtains js where "raw = map (record_of (b_store b) ''message'') js" and "b' = b"
    and "set js = {j. record_stored (b_store b) ''message'' j \<and> (since = 0 \<or> (\<exists>i c.
        record_stored (b_store b) ''conversation'' i \<and>
        unmarshal dec_conversation (plain_at (b_store b) (conversation_key i)) = Inr c \<and>
        since \<le> c_updated c \<and> j \<in> indexed_ids (b_store b) (c_id c)))}"
proof -
  obtain es where rep: "represents (b_store b) es" and ix: "index_ok (b_store b) es"
    using reachable_index [OF assms(1)] by blast
  then have srt: "kv_sorted (pairs (b_store b) BLatest)" "kv_sorted (pairs (b_store b) BMessageIndex)"
    by (simp_all add: represents_def index_ok_def)
  show thesis
  proof (cases "since = 0")
    case True
    with run obtain t where sn: "snapshot_current ''message'' (b_store b) = Inr ((raw, n), t)" and "b' = b"
      by (auto simp: recent_message_records_def view_db_result)
    obtain js where "raw = map (record_of (b_store b) ''message'') js"
      "set js = {j. record_stored (b_store b) ''message'' j}"
      by (rule snapshot_current_records [OF srt(1) sn])
    with \<open>b' = b\<close> True show thesis by (intro that) auto
  next
    case False
    with run obtain records n' t where sn: "snapshot_current ''conversation'' (b_store b) = Inr ((records, n'), t)"
      and fold: "fold_act (recent_conversation since) records [] b = (Inr raw, b')"
      by (auto simp: recent_message_records_def reads_Inr)
    obtain ks where ks: "records = map (record_of (b_store b) ''conversation'') ks"
      "set ks = {i. record_stored (b_store b) ''conversation'' i}"
      by (rule snapshot_current_records [OF srt(1) sn])
    from fold_recent [OF srt(2), of since records "[]"] fold obtain js where
      js: "raw = map (record_of (b_store b) ''message'') js" "b' = b"
      "set js = recent_ids (b_store b) since records"
      by auto
    have "recent_ids (b_store b) since records = {j. record_stored (b_store b) ''message'' j \<and>
        (\<exists>i c. record_stored (b_store b) ''conversation'' i \<and>
        unmarshal dec_conversation (plain_at (b_store b) (conversation_key i)) = Inr c \<and>
        since \<le> c_updated c \<and> j \<in> indexed_ids (b_store b) (c_id c))}"
      using ks by (fastforce simp: recent_ids_def record_of_def conversation_key_def indexed_ids_def)
    with js False show thesis by (intro that) auto
  qed
qed

text \<open>Narrowing a listing of recent messages to the conversations updated since a time
  finds exactly the wanted messages of the whole database, provided that every message of that
  time or later names a stored conversation that is dated no earlier than the message.  (That the
  code's comment takes this for granted is examined below.)\<close>

theorem since_finds_dated_messages:
  assumes "reachable (b_store b)" and "message_ids_ok (b_store b)"
    and "\<exists>es. represents (b_store b) es \<and> plain_types es"
    and dated: "\<forall>j m. record_stored (b_store b) ''message'' j \<longrightarrow> message_view (b_store b) j = Some m \<longrightarrow>
      since \<le> m_time m \<longrightarrow> m_conversation_id m \<noteq> [] \<and>
      (\<exists>c. conversation_at (b_store b) (m_conversation_id m) = Some c \<and>
           c_id c = m_conversation_id m \<and> m_time m \<le> c_updated c)"
    and run: "recent_message_records since b = (Inr (raw, n), b')"
    and list: "newest_messages (network_of b) raw = Inr ms"
  shows "m \<in> set (filter (message_wanted L since direction q) ms) \<longleftrightarrow>
    record_stored (b_store b) ''message'' (m_id m) \<and> message_view (b_store b) (m_id m) = Some m \<and>
    \<not> protocol_record (network_of b) m \<and> message_wanted L since direction q m"
proof -
  obtain es where rep: "represents (b_store b) es" and ix: "index_ok (b_store b) es"
    using reachable_index [OF assms(1)] by blast
  have ty: "plain_types es" using assms(3) represents_unique [OF rep] by blast
  obtain js where js: "raw = map (record_of (b_store b) ''message'') js"
    "set js = {j. record_stored (b_store b) ''message'' j \<and> (since = 0 \<or> (\<exists>i c.
        record_stored (b_store b) ''conversation'' i \<and>
        unmarshal dec_conversation (plain_at (b_store b) (conversation_key i)) = Inr c \<and>
        since \<le> c_updated c \<and> j \<in> indexed_ids (b_store b) (c_id c)))}"
    by (rule recent_records [OF assms(1) run])
  have "\<forall>j \<in> set js. record_stored (b_store b) ''message'' j" using js(2) by simp
  note listed = listed_member(1) [OF assms(2) this list [unfolded js(1)], of m]
  have "m_id m \<in> set js" if st: "record_stored (b_store b) ''message'' (m_id m)"
    and v: "message_view (b_store b) (m_id m) = Some m" and w: "message_wanted L since direction q m"
  proof -
    have late: "since \<le> m_time m" using w by (simp add: message_wanted_def)
    obtain c where c: "conversation_at (b_store b) (m_conversation_id m) = Some c"
      "c_id c = m_conversation_id m" "m_time m \<le> c_updated c" and ne: "m_conversation_id m \<noteq> []"
      using dated st v late by blast
    have id: "m_id m \<noteq> []" using assms(2) st v unfolding message_ids_ok_def by blast
    have "m_id m \<in> indexed_ids (b_store b) (c_id c)"
      using stored_message_indexed [OF rep ix ty st v id ne] c(2) st by (simp add: indexed_ids_def)
    moreover have "since \<le> c_updated c" using c(3) late by simp
    ultimately show ?thesis
      using st conversation_at_plain [OF c(1)] js(2) by blast
  qed
  with listed show ?thesis using js(2) by auto
qed

theorem since_finds_dated_messages_witness:
  "\<forall>L. photo \<in> set (filter (message_wanted L 4 ''incoming'' []) [photo])"
proof
  fix L
  have "message_wanted L 4 ''incoming'' [] photo" by (simp add: message_wanted_def)
  moreover have "conversation_at with_chat ''c'' = Some chat"
    by (simp add: conversation_at_def stored_at_def conversation_key_def)
  ultimately show "photo \<in> set (filter (message_wanted L 4 ''incoming'' []) [photo])"
    using since_finds_dated_messages [of "new_bridge with_chat" 4 "[photo_record]" 2 "new_bridge with_chat"
        "[photo]" photo L "''incoming''" "[]"] chat_reachable chat_ids chat_types run_recent(1)
      run_newest_photo
    by (simp add: protocol_record_def)
qed

text \<open>
  The comment above \<open>recentMessageRecords\<close> says that a conversation's updated time never precedes
  its newest message.  A message can be stored whose conversation is not (the provider reported
  the message first); a listing without \<open>since\<close> has it, and one whose \<open>since\<close> it satisfies does not.
\<close>

theorem since_misses_unlisted_conversation:
  "\<exists>b raw. reachable (b_store b) \<and> recent_message_records 0 b = (Inr (raw, 1), b) \<and>
     newest_messages (network_of b) raw = Inr [photo] \<and> message_wanted L 4 ''incoming'' [] photo \<and>
     recent_message_records 4 b = (Inr ([], 1), b)"
  using chat_reachable(1) run_recent(2,3) run_newest_photo
  by (intro exI [of _ "new_bridge with_photo"]) (auto simp: message_wanted_def)

end
