(* ===== verification/AccessProperties.thy ===== *)
theory AccessProperties
  imports Routes ApiProperties
begin

text \<open>
  The event stream and the event pages against the log they read: whatever the service does
  between two turns of the loop, a connection has been sent the log without a gap, and it only
  falls asleep when it has all of it.
\<close>

section \<open>One turn\<close>

lemma events_batch:
  assumes rep: "represents s es" and run: "events after limit s = Inr (batch, s')"
  shows "batch = take (nat limit) (drop (unat after) es)"
proof -
  have limit: "1 \<le> limit" "limit \<le> 1000" using run by (auto simp: events_def split: if_splits)
  show ?thesis
  proof (cases "after = - 1")
    case True
    have "length es < 2 ^ 64"
      using rep unsigned_less [of "counter s BEvents", where 'a = nat] by (simp add: represents_def)
    moreover have "unat (- 1 :: u64) = 2 ^ 64 - 1"
      by (simp add: unsigned_minus_1_eq_mask mask_eq_exp_minus_1)
    ultimately show ?thesis using True run limit by (simp add: events_def)
  next
    case False
    then have "exists_bucket s BEvents"
      using run limit by (auto simp: events_def bind_tx_Inr bseek_Inr)
    from events_represents [OF rep this limit, of after] run show ?thesis
      by (simp add: represents_after [OF rep])
  qed
qed

lemma stream_turn_faithful:
  assumes rep: "represents (b_store b) es" and ok: "stream_faithful upgrade start es s"
    and turn: "stream_turn upgrade room b s = (n, s')"
  shows "stream_faithful upgrade start es s'"
    and "n = Stream_wait \<Longrightarrow> unat (sm_after s') = length es"
proof -
  show "stream_faithful upgrade start es s'"
  proof (cases "view_tx (events (sm_after s) stream_batch) (b_store b)")
    case (Inl e)
    with turn ok show ?thesis by (simp add: stream_turn_def)
  next
    case (Inr batch)
    then obtain t where run: "events (sm_after s) stream_batch (b_store b) = Inr (batch, t)"
      by (auto simp: view_tx_def split: sum.splits)
    show ?thesis
    proof (cases "batch = []")
      case True
      with turn Inr have "sm_after s' = sm_after s \<and> event_frames (sm_frames s') = event_frames (sm_frames s)"
        by (auto simp: stream_turn_def write_frame_def split: if_splits)
      with ok show ?thesis using stream_faithful_frames by blast
    next
      case False
      obtain k s2 where w: "write_events upgrade room batch s = (k, s2)" by fastforce
      with turn Inr False have "s' = s2" by (cases k) (simp_all add: stream_turn_def)
      with write_events_faithful [OF rep ok events_batch [OF rep run] w] show ?thesis by simp
    qed
  qed
  assume wait: "n = Stream_wait"
  with turn obtain t where run: "events (sm_after s) stream_batch (b_store b) = Inr ([], t)"
    by (auto simp: stream_turn_def view_tx_def split: sum.splits if_splits prod.splits bool.splits)
  from wait turn run have "sm_after s' = sm_after s"
    by (auto simp: stream_turn_def view_tx_def write_frame_def split: if_splits)
  moreover have "length es \<le> unat (sm_after s)"
    using events_batch [OF rep run] by (simp add: stream_batch_def)
  ultimately show "unat (sm_after s') = length es" using ok by (simp add: stream_faithful_def)
qed

lemma stream_select_store:
  "stream_select ok c s b = (n, s', b') \<Longrightarrow> b_store b' = b_store b \<and> sm_after s' = sm_after s \<and>
   event_frames (sm_frames s') = event_frames (sm_frames s)"
  by (auto simp: stream_select_def Let_def write_frame_def split: stream_case.splits if_splits)

section \<open>The whole connection\<close>

definition stream_kept ::
  "(string \<Rightarrow> payload \<Rightarrow> go_error + (provider_snapshot \<times> bool)) \<Rightarrow> u64 \<Rightarrow> stream_state \<Rightarrow> bool" where
  "stream_kept upgrade start w \<longleftrightarrow> (case w of (b, s, n) \<Rightarrow>
     \<exists>es. represents (b_store b) es \<and> stream_faithful upgrade start es s)"

lemma stream_step_kept:
  "stream_step upgrade w w' \<Longrightarrow> stream_kept upgrade start w \<Longrightarrow> stream_kept upgrade start w'"
proof (induction rule: stream_step.induct)
  case (serviced b b' s n)
  then have "log_grows (b_store b) (b_store b')" using steps_log_grows by (simp add: db_runs_def)
  moreover obtain es where "represents (b_store b) es" "stream_faithful upgrade start es s"
    using serviced(2) by (auto simp: stream_kept_def)
  ultimately obtain new where "represents (b_store b') (es @ new)" "stream_faithful upgrade start (es @ new) s"
    unfolding log_grows_def using stream_faithful_grows by blast
  then show ?case by (auto simp: stream_kept_def)
next
  case (turned room b s n s')
  obtain es where es: "represents (b_store b) es" "stream_faithful upgrade start es s"
    using turned(2) by (auto simp: stream_kept_def)
  with stream_turn_faithful(1) [OF es turned(1)] show ?case by (auto simp: stream_kept_def)
next
  case (selected c s b ok n s' b')
  obtain es where es: "represents (b_store b) es" "stream_faithful upgrade start es s"
    using selected(3) by (auto simp: stream_kept_def)
  have same: "b_store b' = b_store b" "stream_faithful upgrade start es s'"
    using stream_select_store [OF selected(2)] stream_faithful_frames es(2) by blast+
  with es(1) show ?case by (auto simp: stream_kept_def)
qed

lemma stream_runs_kept:
  "stream_runs upgrade w w' \<Longrightarrow> stream_kept upgrade start w \<Longrightarrow> stream_kept upgrade start w'"
  unfolding stream_runs_def by (induction rule: rtranclp_induct) (auto intro: stream_step_kept)

lemma stream_opened:
  assumes "reachable (b_store b0)" and "open_stream r b0 = Some (s0, b1)"
  shows "\<exists>start. cursor r = Some start \<and> stream_kept upgrade start (b1, s0, Stream_read)"
proof -
  obtain es where rep: "represents (b_store b0) es"
    using reachable_index [OF assms(1)] by blast
  from assms(2) obtain start mark where start: "cursor r = Some start"
    and mark: "view_tx watermark (b_store b0) = Inr mark" "start \<le> mark"
    and s0: "sm_after s0 = start" "sm_frames s0 = [Frame_connected]" "b_store b1 = b_store b0"
    by (auto simp: open_stream_def valid_cursor_def split: option.splits sum.splits if_splits prod.splits)
  have "unat mark = length es"
    using mark(1) rep by (auto simp: watermark_def view_tx_def bsequence_Inr represents_def
        split: sum.splits)
  with mark(2) s0 rep start show ?thesis
    by (auto simp: stream_kept_def stream_faithful_def word_le_nat_alt)
qed

text \<open>C9: however the service and the connection interleave, the event frames a connection has
  been sent are the public forms of the log's events after the cursor it asked for, in order,
  without a gap or a repetition; and when the loop goes to sleep the connection has them all.\<close>

theorem stream_loses_no_event:
  assumes "reachable (b_store b0)" and "open_stream r b0 = Some (s0, b1)"
    and "stream_runs upgrade (b1, s0, Stream_read) (b, s, n)"
  shows "\<exists>start es. cursor r = Some start \<and> represents (b_store b) es \<and>
    stream_faithful upgrade start es s \<and>
    (\<forall>room s'. stream_turn upgrade room b s = (Stream_wait, s') \<longrightarrow> unat (sm_after s') = length es)"
proof -
  obtain start where start: "cursor r = Some start" "stream_kept upgrade start (b1, s0, Stream_read)"
    using stream_opened [OF assms(1,2)] by blast
  from stream_runs_kept [OF assms(3) start(2)] obtain es where
    "represents (b_store b) es" "stream_faithful upgrade start es s"
    by (auto simp: stream_kept_def)
  with start(1) stream_turn_faithful(2) show ?thesis by blast
qed

definition stream_request :: http_request where
  "stream_request = \<lparr>hr_method = ''GET'', hr_path = ''/v1/stream'', hr_segments = [], hr_host = [],
     hr_query = [], hr_header = (\<lambda>_. []), hr_body = []\<rparr>"

definition plain_upgrade :: "string \<Rightarrow> payload \<Rightarrow> go_error + (provider_snapshot \<times> bool)" where
  "plain_upgrade kind data = Inr (\<lparr>sn_event = zero_event, sn_private = []\<rparr>, False)"

lemma public_event_plain [simp]: "public_event plain_upgrade e = Inr e"
  by (simp add: public_event_def plain_upgrade_def)

theorem stream_loses_no_event_witness:
  "\<exists>s0 b s e e'. open_stream stream_request (new_bridge with_chat) = Some (s0, b) \<and>
     stream_runs plain_upgrade (b, s0, Stream_read) (b, s, Stream_read) \<and>
     event_frames (sm_frames s) = [e, e'] \<and> ev_type e = ''message'' \<and>
     stream_faithful plain_upgrade 0 [e, e'] s"
proof -
  have cur: "cursor stream_request = Some 0"
    by (simp add: cursor_def query_get_def stream_request_def)
  obtain i h where sub: "subscribe (b_hub (new_bridge with_chat)) = (i, h)" by fastforce
  let ?s = "\<lparr>sm_after = 0, sm_live = False, sm_frames = [Frame_connected], sm_subscription = i\<rparr>"
  let ?b = "(new_bridge with_chat)\<lparr>b_hub := h\<rparr>"
  have opened: "open_stream stream_request (new_bridge with_chat) = Some (?s, ?b)"
    by (simp add: open_stream_def valid_cursor_def cur sub watermark_def view_tx_def runs)
  obtain e e' where log: "represents with_chat [e, e']" "ev_type e = ''message''"
    using chat_log(2) by blast
  have "map ev_id [e, e'] = map word_of_nat [1..<Suc (length [e, e'])]"
    using log(1) by (simp only: represents_def)
  then have ids: "ev_id e = 1" "ev_id e' = 2" by (simp_all add: upt_rec)
  have "events 0 stream_batch with_chat = Inr ([e, e'], with_chat)"
    using events_represents [OF log(1), of stream_batch 0] ids by (simp add: stream_batch_def)
  then obtain s where turn: "stream_turn plain_upgrade 2 ?b ?s = (Stream_read, s)"
    and frames: "event_frames (sm_frames s) = [e, e']"
    by (simp add: stream_turn_def view_tx_def write_frame_def eval_nat_numeral)
  have runs: "stream_runs plain_upgrade (?b, ?s, Stream_read) (?b, s, Stream_read)"
    unfolding stream_runs_def by (rule r_into_rtranclp, rule stream_step.turned [OF turn])
  from stream_loses_no_event [OF _ opened runs] chat_reachable(2) obtain es where
    "represents with_chat es" "stream_faithful plain_upgrade 0 es s"
    by (auto simp: cur)
  with represents_unique [OF log(1)] opened runs frames log(2) show ?thesis by blast
qed

text \<open>
  Who gets past the checks in front of the handlers, and that the table of routes is unambiguous.
\<close>

section \<open>The checks\<close>

text \<open>The requests that carry the bridge's token and come from no foreign origin.\<close>

definition carries_token :: "go_library \<Rightarrow> string \<Rightarrow> http_request \<Rightarrow> bool" where
  "carries_token L token r \<longleftrightarrow> token \<noteq> [] \<and>
     (\<exists>v. hr_header r ''Authorization'' = ''Bearer '' @ v \<and> lib_sha256 L v = lib_sha256 L token) \<and>
     (request_origin r = [] \<or> allowed_origin r)"

lemma cut_prefix_Some: "cut_prefix p s = Some v \<longleftrightarrow> s = p @ v"
proof
  assume "cut_prefix p s = Some v"
  then have "take (length p) s = p" "v = drop (length p) s" by (auto simp: cut_prefix_def split: if_splits)
  then show "s = p @ v" by (metis append_take_drop_id)
qed (simp add: cut_prefix_def)

lemma authorized_token: "authorized L token r \<longleftrightarrow> token \<noteq> [] \<and>
    (\<exists>v. hr_header r ''Authorization'' = ''Bearer '' @ v \<and> lib_sha256 L v = lib_sha256 L token)"
proof (cases "cut_prefix ''Bearer '' (hr_header r ''Authorization'')")
  case None
  then have "\<nexists>v. hr_header r ''Authorization'' = ''Bearer '' @ v"
    by (metis cut_prefix_Some option.distinct(1))
  with None show ?thesis by (simp add: authorized_def)
next
  case (Some v)
  then have "hr_header r ''Authorization'' = ''Bearer '' @ v" by (simp only: cut_prefix_Some)
  with Some show ?thesis by (simp add: authorized_def)
qed

lemma gate_Routed: "gate L token r = Routed \<Longrightarrow> carries_token L token r"
  by (auto simp: gate_def carries_token_def authorized_token split: if_splits)

lemma gate_paths:
  "gate L token r = Credentials \<Longrightarrow> hr_path r = ''/v1/pairing/credentials''"
  "gate L token r = Agent_pending \<Longrightarrow> hr_path r = ''/v1/pairing/agent/pending''"
  by (auto simp: gate_def split: if_splits)

section \<open>What a stranger can do\<close>

text \<open>Replies that tell nothing of the bridge: a refusal, a preflight, a file of the client.\<close>

definition plain_outcome :: "outcome \<Rightarrow> bool" where
  "plain_outcome out \<longleftrightarrow> (\<exists>code m. out = Replied (Inl (code, m))) \<or> (\<exists>f. out = Served f) \<or>
     out = Preflighted \<or> out = Replied (Inr (204, Empty_body))"

lemma credentials_refused:
  assumes "pairing_credentials A r b = (x, b')"
    and "\<not> (hr_method r = ''POST'' \<and>
      (\<exists>h. read_handoff (ap_library A) r = Some h \<and> ticket_valid (ho_ticket h) b))"
  shows "b' = b \<and> (\<exists>code m. x = Inl (code, m))"
  using assms
  by (auto simp: pairing_credentials_def refuse_def submit_pairing_cookies_def act_defs
      split: if_splits option.splits)

lemma pending_refused:
  assumes "pairing_agent_pending A r b = (x, b')"
    and "\<not> (hr_method r = ''GET'' \<and> agent_authorized (ap_library A) r b)"
  shows "b' = b \<and> (\<exists>code m. x = Inl (code, m))"
  using assms by (auto simp: pairing_agent_pending_def refuse_def split: if_splits)


text \<open>A bridge without a token, asked for a conversation by a client that sends an empty one.\<close>

definition chat_request :: "string \<Rightarrow> http_request" where
  "chat_request token = (page_request 1 [])\<lparr>hr_path := ''/v1/conversations/c/messages'',
     hr_segments := [''v1'', ''conversations'', ''c'', ''messages''],
     hr_header := (\<lambda>_. [])(''Authorization'' := ''Bearer '' @ token)\<rparr>"


section \<open>The routes\<close>

definition route_key :: "route \<Rightarrow> string \<times> string list" where
  "route_key x = (fst x, fst (snd x))"

fun overlap :: "string list \<Rightarrow> string list \<Rightarrow> bool" where
  "overlap [] [] \<longleftrightarrow> True"
| "overlap (p # ps) (q # qs) \<longleftrightarrow> (p = q \<or> p = ''{id}'' \<or> q = ''{id}'') \<and> overlap ps qs"
| "overlap _ _ \<longleftrightarrow> False"

lemma match_overlap:
  "match_segments ps ss \<noteq> None \<Longrightarrow> match_segments qs ss \<noteq> None \<Longrightarrow> overlap ps qs"
proof (induction ps ss arbitrary: qs rule: match_segments.induct)
  case 1
  then show ?case by (cases qs) simp_all
next
  case (2 p ps s ss)
  then show ?case by (cases qs) (auto split: if_splits)
qed simp_all

definition disjoint_keys :: "string \<times> string list \<Rightarrow> string \<times> string list \<Rightarrow> bool" where
  "disjoint_keys x y \<longleftrightarrow> fst x \<noteq> fst y \<or> \<not> overlap (snd x) (snd y)"

definition good_key :: "string \<times> string list \<Rightarrow> bool" where
  "good_key x \<longleftrightarrow> fst x \<in> {''GET'', ''POST'', ''PUT'', ''DELETE''} \<and> length (snd x) > 1 \<and>
     hd (snd x) = ''v1''"

definition main_keys :: "(string \<times> string list) list" where
  "main_keys =
    [(''GET'', [''v1'', ''conversations'']),
     (''GET'', [''v1'', ''conversations'', ''{id}'', ''messages'']),
     (''GET'', [''v1'', ''messages'']),
     (''GET'', [''v1'', ''outbox'']),
     (''GET'', [''v1'', ''outbox'', ''{id}'']),
     (''POST'', [''v1'', ''messages'']),
     (''POST'', [''v1'', ''outbox'', ''{id}'', ''cancel'']),
     (''POST'', [''v1'', ''conversations'', ''{id}'', ''read'']),
     (''POST'', [''v1'', ''sync'']),
     (''GET'', [''v1'', ''attachments'', ''{id}'']),
     (''POST'', [''v1'', ''connection'', ''restart'']),
     (''GET'', [''v1'', ''contacts'']),
     (''POST'', [''v1'', ''conversations'']),
     (''POST'', [''v1'', ''conversations'', ''{id}'', ''participants'']),
     (''POST'', [''v1'', ''conversations'', ''{id}'', ''reactions'']),
     (''POST'', [''v1'', ''conversations'', ''{id}'', ''typing'']),
     (''POST'', [''v1'', ''attachments'', ''{id}'', ''request'']),
     (''POST'', [''v1'', ''uploads'']),
     (''POST'', [''v1'', ''history'']),
     (''GET'', [''v1'', ''history'']),
     (''POST'', [''v1'', ''history'', ''{id}'', ''pause'']),
     (''PUT'', [''v1'', ''pairing'', ''recovery'']),
     (''POST'', [''v1'', ''pairing'', ''phone'']),
     (''GET'', [''v1'', ''pairing'', ''qr'']),
     (''GET'', [''v1'', ''pairing'']),
     (''POST'', [''v1'', ''pairing'', ''start'']),
     (''POST'', [''v1'', ''pairing'', ''repair'']),
     (''POST'', [''v1'', ''pairing'', ''adopt'']),
     (''POST'', [''v1'', ''pairing'', ''cancel''])]"

definition push_keys :: "(string \<times> string list) list" where
  "push_keys =
    [(''GET'', [''v1'', ''push'']),
     (''POST'', [''v1'', ''push'', ''subscriptions'']),
     (''POST'', [''v1'', ''push'', ''test'']),
     (''DELETE'', [''v1'', ''push'', ''subscriptions''])]"

definition log_keys :: "(string \<times> string list) list" where
  "log_keys = [(''GET'', [''v1'', ''status'']),
     (''GET'', [''v1'', ''events'']),
     (''GET'', [''v1'', ''stream''])]"

lemma route_keys:
  "map route_key (all_routes A upgrade r) =
   main_keys @ (if ap_push A = None then take 1 push_keys else push_keys) @ log_keys"
  by (simp add: all_routes_def record_routes_def feature_routes_def pairing_routes_def push_routes_def
      api_routes_def route_key_def main_keys_def push_keys_def log_keys_def split: option.splits)

lemma keys_disjoint: "sorted_wrt disjoint_keys (main_keys @ push_keys @ log_keys)"
  by code_simp

lemma keys_good: "list_all good_key (main_keys @ push_keys @ log_keys)"
  by code_simp

lemma routes_disjoint:
  "sorted_wrt disjoint_keys (map route_key (all_routes A upgrade r))"
proof -
  have "sorted_wrt disjoint_keys (main_keys @ take 1 push_keys @ log_keys)" by code_simp
  with keys_disjoint show ?thesis by (simp add: route_keys)
qed

lemma routes_keys:
  "x \<in> set (all_routes A upgrade r) \<Longrightarrow> route_key x \<in> set (main_keys @ push_keys @ log_keys)"
proof -
  assume "x \<in> set (all_routes A upgrade r)"
  then have "route_key x \<in> set (map route_key (all_routes A upgrade r))" by simp
  then show ?thesis by (auto simp: route_keys split: if_splits dest: in_set_takeD)
qed

lemma routes_good: "x \<in> set (all_routes A upgrade r) \<Longrightarrow> good_key (route_key x)"
  using routes_keys keys_good unfolding list_all_iff by blast

definition route_matches :: "http_request \<Rightarrow> route \<Rightarrow> bool" where
  "route_matches r x \<longleftrightarrow> takes_method (fst x) (hr_method r) \<and>
     match_segments (fst (snd x)) (hr_segments r) \<noteq> None"

lemma matching_clash:
  assumes "good_key (route_key x)" and "good_key (route_key y)"
    and "route_matches r x" and "route_matches r y"
  shows "\<not> disjoint_keys (route_key x) (route_key y)"
  using assms match_overlap [of "fst (snd x)" "hr_segments r" "fst (snd y)"]
  by (auto simp: route_matches_def disjoint_keys_def good_key_def route_key_def takes_method_def)

text \<open>At most one route of the table matches a request.\<close>

lemma one_match:
  "sorted_wrt disjoint_keys (map route_key xs) \<Longrightarrow> \<forall>x \<in> set xs. good_key (route_key x) \<Longrightarrow>
   x \<in> set xs \<Longrightarrow> route_matches r x \<Longrightarrow> filter (route_matches r) xs = [x]"
proof (induction xs)
  case (Cons y xs)
  show ?case
  proof (cases "x = y")
    case True
    have "\<not> route_matches r z" if "z \<in> set xs" for z
      using that Cons.prems matching_clash [of x z r] True by auto
    with True Cons.prems(4) show ?thesis by (simp add: filter_empty_conv)
  next
    case False
    with Cons.prems(3) have "x \<in> set xs" by simp
    moreover have "\<not> route_matches r y"
      using calculation Cons.prems matching_clash [of y x r] by auto
    ultimately show ?thesis using Cons by simp
  qed
qed simp

lemma serve_mux_route:
  assumes "x \<in> set (all_routes A upgrade r)" and "route_matches r x"
  shows "serve_mux A upgrade r = snd (snd x) (path_value (fst (snd x)) (hr_segments r))"
proof -
  have "filter (route_matches r) (all_routes A upgrade r) = [x]"
    by (rule one_match) (use assms routes_disjoint routes_good in blast)+
  moreover have "route_matches r = (\<lambda>y. (\<lambda>(m, ps, h). match_segments ps (hr_segments r) \<noteq> None) y \<and>
      (\<lambda>(m, ps, h). takes_method m (hr_method r)) y)"
    by (auto simp: route_matches_def fun_eq_iff)
  ultimately show ?thesis
    by (simp add: serve_mux_def Let_def filter_filter conj_commute split: prod.splits)
qed

text \<open>The path of a request is the path its segments make, with no escapes.\<close>

definition plain_path :: "http_request \<Rightarrow> bool" where
  "plain_path r \<longleftrightarrow> hr_path r = concat (map ((#) CHR ''/'') (hr_segments r))"

text \<open>No pattern of the table covers one of the paths that are answered before it.\<close>

fun table_pattern :: "string list \<Rightarrow> bool" where
  "table_pattern [v, t] \<longleftrightarrow> v = ''v1'' \<and> t \<noteq> ''{id}'' \<and> CHR ''/'' \<notin> set t"
| "table_pattern (v # t # u # us) \<longleftrightarrow> v = ''v1'' \<and> t \<noteq> ''{id}'' \<and> CHR ''/'' \<notin> set t \<and>
     (t = ''pairing'' \<longrightarrow> us = [] \<and> u \<notin> {''{id}'', ''credentials'', ''agent/pending''})"
| "table_pattern _ \<longleftrightarrow> False"

lemma keys_patterns: "list_all (\<lambda>k. table_pattern (snd k)) (main_keys @ push_keys @ log_keys)"
  by code_simp

lemma routes_patterns: "x \<in> set (all_routes A upgrade r) \<Longrightarrow> table_pattern (fst (snd x))"
  using routes_keys [of x A upgrade r] keys_patterns unfolding list_all_iff
  by (metis route_key_def snd_conv)

lemma pattern_path:
  assumes "table_pattern ps" and "match_segments ps ss \<noteq> None"
  shows "\<exists>t rest. concat (map ((#) CHR ''/'') ss) = ''/v1/'' @ t @ rest \<and> CHR ''/'' \<notin> set t \<and>
    (rest = [] \<or> hd rest = CHR ''/'') \<and>
    (t = ''pairing'' \<longrightarrow> rest \<noteq> ''/credentials'' \<and> rest \<noteq> ''/agent/pending'')"
  using assms
proof (cases ps rule: table_pattern.cases)
  case (1 v t)
  with assms have "ss = [''v1'', t]"
    by (cases ss rule: table_pattern.cases) (auto split: if_splits)
  with 1 assms(1) show ?thesis by (intro exI [of _ t] exI [of _ "[]"]) simp
next
  case (2 v t u us)
  with assms obtain s ss' where ss: "ss = ''v1'' # t # s # ss'" and "match_segments (u # us) (s # ss') \<noteq> None"
    by (cases ss rule: table_pattern.cases) (auto split: if_splits)
  with 2 assms(1) show ?thesis
    by (intro exI [of _ t] exI [of _ "concat (map ((#) CHR ''/'') (s # ss'))"])
      (cases ss'; auto split: if_splits)
qed simp_all

lemma path_parts:
  assumes "''/v1/'' @ t @ rest = ''/v1/'' @ t' @ rest'" and "CHR ''/'' \<notin> set t" and "CHR ''/'' \<notin> set t'"
    and "rest = [] \<or> hd rest = CHR ''/''" and "hd rest' = CHR ''/''" and "rest' \<noteq> []"
  shows "t = t' \<and> rest = rest'"
proof -
  have tw: "takeWhile (\<lambda>c. c \<noteq> CHR ''/'') (x @ y) = x"
    if "CHR ''/'' \<notin> set x" "y = [] \<or> hd y = CHR ''/''" for x y
    using that by (cases y) (auto simp: takeWhile_append2 takeWhile_append intro: takeWhile_eq_all_conv [THEN iffD2])
  from assms(1) have eq: "t @ rest = t' @ rest'" by simp
  from tw [OF assms(2,4)] tw [OF assms(3), of rest'] assms(5) have "t = t'" by (simp add: eq)
  with eq show ?thesis by simp
qed

lemma table_gate:
  assumes "x \<in> set (all_routes A upgrade r)" and "route_matches r x"
    and "carries_token L token r" and "plain_path r"
  shows "gate L token r = Routed"
proof -
  have m: "hr_method r \<noteq> ''OPTIONS''"
    using routes_good [OF assms(1)] assms(2)
    by (auto simp: good_key_def route_key_def route_matches_def takes_method_def)
  obtain t rest where path: "hr_path r = ''/v1/'' @ t @ rest" and t: "CHR ''/'' \<notin> set t"
    and rest: "rest = [] \<or> hd rest = CHR ''/''"
    and no: "t = ''pairing'' \<longrightarrow> rest \<noteq> ''/credentials'' \<and> rest \<noteq> ''/agent/pending''"
    using pattern_path [OF routes_patterns [OF assms(1)], of "hr_segments r"] assms(2,4)
    by (auto simp: route_matches_def plain_path_def)
  have other: "''/v1/'' @ t @ rest \<noteq> ''/v1/'' @ ''pairing'' @ u"
    if "u = ''/credentials'' \<or> u = ''/agent/pending''" for u
  proof
    assume "''/v1/'' @ t @ rest = ''/v1/'' @ ''pairing'' @ u"
    from path_parts [OF this t _ rest] that no show False by fastforce
  qed
  have "hr_path r \<noteq> ''/v1/pairing/credentials''" "hr_path r \<noteq> ''/v1/pairing/agent/pending''"
    using other [of "''/credentials''"] other [of "''/agent/pending''"] by (simp_all add: path)
  moreover have "\<not> pairing_helper r" "\<not> serve_asset r"
    by (simp_all add: pairing_helper_def serve_asset_def assets_def path)
  moreover have "authorized L token r" "request_origin r = [] \<or> allowed_origin r"
    using assms(3) by (simp_all add: carries_token_def authorized_token)
  ultimately show ?thesis using m by (auto simp: gate_def)
qed

text \<open>A request with the token and an admitted origin whose method and path
  match a route of the table is answered by that route's handler, with the segment that stands
  for \<open>{id}\<close>; the checks in front never shadow a route, and no route shadows another.\<close>

theorem token_holders_reach_every_route:
  assumes "x \<in> set (all_routes A upgrade r)" and "route_matches r x"
    and "carries_token (ap_library A) (ap_token A) r" and "plain_path r"
  shows "serve A upgrade r b = snd (snd x) (path_value (fst (snd x)) (hr_segments r)) b"
  using table_gate [OF assms] serve_mux_route [OF assms(1,2)] by (simp add: serve_def)

theorem token_holders_reach_every_route_witness:
  "\<forall>A upgrade. serve (A\<lparr>ap_token := ''t''\<rparr>) upgrade (chat_request ''t'') (new_bridge with_chat) =
     replies (get_conversation_messages ''c'' (chat_request ''t'')) (new_bridge with_chat)"
proof (intro allI)
  fix A :: api and upgrade
  let ?r = "chat_request ''t''" and ?A = "A\<lparr>ap_token := ''t''\<rparr>"
  let ?x = "(''GET'', [''v1'', ''conversations'', ''{id}'', ''messages''],
        \<lambda>i. replies (get_conversation_messages i ?r))"
  have "?x \<in> set (all_routes ?A upgrade ?r)" by (simp add: all_routes_def record_routes_def)
  moreover have "route_matches ?r ?x"
    by (simp add: route_matches_def takes_method_def chat_request_def page_request_def)
  moreover have "carries_token (ap_library ?A) (ap_token ?A) ?r"
    by (auto simp: carries_token_def request_origin_def chat_request_def page_request_def)
  moreover have "plain_path ?r" by (simp add: plain_path_def chat_request_def)
  ultimately have "serve ?A upgrade ?r (new_bridge with_chat) =
      snd (snd ?x) (path_value (fst (snd ?x)) (hr_segments ?r)) (new_bridge with_chat)"
    by (rule token_holders_reach_every_route)
  then show "serve ?A upgrade ?r (new_bridge with_chat) =
     replies (get_conversation_messages ''c'' ?r) (new_bridge with_chat)"
    by (simp add: path_value_def chat_request_def)
qed

end
