(* ===== verification/WaStore.thy ===== *)
theory WaStore
  imports StoreSystem
begin

text \<open>
  The credential store of the WhatsApp connection (\<open>internal/whatsapp/store.go\<close>): the records
  whatsmeow keeps in the bridge's database, one key per record in the network bucket, under the
  namespace of the linked device.  Every call is a transaction.  An error of the database comes
  back as \<open>ErrStored\<close>; the callback \<open>Failure\<close> that is told of it is the caller's.  The types of
  whatsmeow the code looks into are records of the fields it uses; how they are written as JSON,
  and the functions of the package on addresses, are the parameters of \<open>wa_library\<close>.  A byte slice
  in a document is kept as its bytes (its base64 text says the same); \<open>None\<close> is the nil slice.
  The rows of a scan come in the order of their keys; Go ranges over them in any order.
\<close>

section \<open>The library\<close>

datatype server =
    Default_server | Hidden_server | Group_server | Legacy_server | Hosted_server
  | Hosted_lid_server | Other_server string

record jid =
  ji_user :: string
  ji_server :: server
  ji_device :: "16 word"
  ji_rest :: nat           \<comment> \<open>the fields the code only copies\<close>

record 'a codec =
  enc_of :: "'a \<Rightarrow> json"
  dec_of :: "json \<Rightarrow> 'a option"

definition codec_ok :: "'a codec \<Rightarrow> bool" where
  "codec_ok c \<longleftrightarrow> (\<forall>x. dec_of c (enc_of c x) = Some x)"

record contact_info =
  ci_found :: bool
  ci_first :: string
  ci_full :: string
  ci_push :: string
  ci_business :: string
  ci_redacted :: string

record chat_settings =
  cs_found :: bool
  cs_muted :: time
  cs_pinned :: bool
  cs_archived :: bool

record privacy_token =
  pt_user :: jid
  pt_token :: string
  pt_time :: time
  pt_sender_time :: time

record app_key =
  ak_data :: string
  ak_time :: i64

record buffered_event =
  be_plain :: "string option"
  be_inserted :: time
  be_server :: time

record pre_key =
  pk_id :: u32
  pk_pair :: string

record wa_library =
  wl_plain :: "jid \<Rightarrow> jid"                       \<comment> \<open>\<open>ToNonAD\<close>\<close>
  wl_string :: "jid \<Rightarrow> string"
  wl_parse :: "string \<Rightarrow> jid option"             \<comment> \<open>\<open>ParseJID\<close>\<close>
  wl_empty :: "jid \<Rightarrow> bool"
  wl_signal :: "jid \<Rightarrow> string"                   \<comment> \<open>\<open>SignalAddressUser\<close>\<close>
  wl_compound :: "string list \<Rightarrow> string"         \<comment> \<open>the text of a JSON list of strings\<close>
  wl_parts :: "string \<Rightarrow> string list option"
  wl_new_key :: "u32 \<Rightarrow> pre_key"                  \<comment> \<open>\<open>keys.NewPreKey\<close>\<close>
  wl_jid :: "jid codec"
  wl_contact :: "contact_info codec"
  wl_chat :: "chat_settings codec"
  wl_privacy :: "privacy_token codec"
  wl_app_key :: "app_key codec"
  wl_buffered :: "buffered_event codec"
  wl_pre_key :: "pre_key codec"
  wl_pair :: "string codec"
  wl_account_bytes :: "string \<Rightarrow> go_error + string"   \<comment> \<open>\<open>proto.Marshal\<close> of the account\<close>
  wl_account :: "string \<Rightarrow> go_error + string"         \<comment> \<open>\<open>proto.Unmarshal\<close> into one\<close>
  wl_account_json :: "json \<Rightarrow> string option"

fun jbytes :: "string option \<Rightarrow> json" where
  "jbytes None = JNull"
| "jbytes (Some b) = JStr b"

fun as_bytes :: "json \<Rightarrow> string option option" where
  "as_bytes JNull = Some None"
| "as_bytes (JStr b) = Some (Some b)"
| "as_bytes _ = None"

lemma as_bytes_jbytes [simp]: "as_bytes (jbytes b) = Some b"
  by (cases b) simp_all

section \<open>Rows\<close>

definition wa_key :: "string \<Rightarrow> string \<Rightarrow> string \<Rightarrow> string" where
  "wa_key ns kind i = ''wa:'' @ ns @ '':'' @ kind @ '':'' @ i"

definition creds_failed :: "'a dbtx \<Rightarrow> 'a dbtx" where  \<comment> \<open>\<open>failed\<close>\<close>
  "creds_failed m s = map_sum ErrStored id (m s)"

text \<open>An error of the body passes through, one of the transaction itself is a storage error.\<close>

definition wa_txn :: "'a dbtx \<Rightarrow> 'a dbtx" where
  "wa_txn body = bind_tx (creds_failed (network_txn None (return_tx ()))) (\<lambda>_. body)"

definition wa_write :: "string \<Rightarrow> string \<Rightarrow> string \<Rightarrow> payload option \<Rightarrow> unit dbtx" where
  "wa_write ns kind i v = creds_failed (network_txn None (network_put (wa_key ns kind i) v))"

definition wa_put :: "string \<Rightarrow> string \<Rightarrow> string \<Rightarrow> json \<Rightarrow> unit dbtx" where
  "wa_put ns kind i v = wa_write ns kind i (Some (JText v))"

definition wa_get :: "string \<Rightarrow> string \<Rightarrow> string \<Rightarrow> (json \<Rightarrow> 'a option) \<Rightarrow> 'a option dbtx" where
  "wa_get ns kind i dec = bind_tx (creds_failed (network_get (wa_key ns kind i))) (\<lambda>r. case r of
       None \<Rightarrow> return_tx None
     | Some data \<Rightarrow> bind_tx (lift_tx (unmarshal dec data)) (\<lambda>x. return_tx (Some x)))"

definition wa_del :: "string \<Rightarrow> string \<Rightarrow> string \<Rightarrow> unit dbtx" where
  "wa_del ns kind i = wa_write ns kind i None"

definition wa_scan :: "string \<Rightarrow> string \<Rightarrow> (string \<times> payload) list dbtx" where
  "wa_scan ns kind = bind_tx (creds_failed (network_scan (wa_key ns kind []))) (\<lambda>rows.
     return_tx (map (\<lambda>(k, v). (drop (length (wa_key ns kind [])) k, v)) rows))"

definition delete_prefix :: "string \<Rightarrow> string \<Rightarrow> string \<Rightarrow> unit dbtx" where
  "delete_prefix ns kind p = wa_txn (bind_tx (wa_scan ns kind) (for_tx (\<lambda>(k, v).
     when_tx (prefix p k) (wa_del ns kind k))))"

section \<open>Identities and sessions\<close>

definition put_identity :: "string \<Rightarrow> string \<Rightarrow> string \<Rightarrow> unit dbtx" where
  "put_identity ns a k = wa_put ns ''identity'' a (jbytes (Some k))"

definition delete_identity :: "string \<Rightarrow> string \<Rightarrow> unit dbtx" where
  "delete_identity ns a = wa_del ns ''identity'' a"

definition delete_all_identities :: "string \<Rightarrow> string \<Rightarrow> unit dbtx" where
  "delete_all_identities ns p = delete_prefix ns ''identity'' (p @ '':'')"

definition is_trusted_identity :: "string \<Rightarrow> string \<Rightarrow> string \<Rightarrow> bool dbtx" where
  "is_trusted_identity ns a k = bind_tx (wa_get ns ''identity'' a as_bytes) (\<lambda>old.
     return_tx (case old of None \<Rightarrow> True | Some was \<Rightarrow> was = Some k))"

definition get_session :: "string \<Rightarrow> string \<Rightarrow> string option dbtx" where
  "get_session ns a = bind_tx (wa_get ns ''session'' a as_bytes) (\<lambda>v.
     return_tx (case v of None \<Rightarrow> None | Some b \<Rightarrow> b))"

definition has_session :: "string \<Rightarrow> string \<Rightarrow> bool dbtx" where
  "has_session ns a = bind_tx (get_session ns a) (\<lambda>v. return_tx (v \<noteq> None))"

definition put_session :: "string \<Rightarrow> string \<Rightarrow> string option \<Rightarrow> unit dbtx" where
  "put_session ns a v = wa_put ns ''session'' a (jbytes v)"

definition delete_session :: "string \<Rightarrow> string \<Rightarrow> unit dbtx" where
  "delete_session ns a = wa_del ns ''session'' a"

definition delete_all_sessions :: "string \<Rightarrow> string \<Rightarrow> unit dbtx" where
  "delete_all_sessions ns p = delete_prefix ns ''session'' (p @ '':'')"

definition get_many_sessions :: "string \<Rightarrow> string list \<Rightarrow> (string \<rightharpoonup> string) dbtx" where
  "get_many_sessions ns addresses = fold_tx (\<lambda>a out. bind_tx (get_session ns a) (\<lambda>v.
     return_tx (case v of None \<Rightarrow> out | Some b \<Rightarrow> out(a \<mapsto> b)))) addresses Map.empty"

definition put_many_sessions :: "string \<Rightarrow> (string \<times> string option) list \<Rightarrow> unit dbtx" where
  "put_many_sessions ns sessions = wa_txn (for_tx (\<lambda>(a, v). put_session ns a v) sessions)"

definition put_sender_key :: "wa_library \<Rightarrow> string \<Rightarrow> string \<Rightarrow> string \<Rightarrow> string option \<Rightarrow> unit dbtx" where
  "put_sender_key W ns g u v = wa_put ns ''sender'' (wl_compound W [g, u]) (jbytes v)"

definition get_sender_key :: "wa_library \<Rightarrow> string \<Rightarrow> string \<Rightarrow> string \<Rightarrow> string option dbtx" where
  "get_sender_key W ns g u = bind_tx (wa_get ns ''sender'' (wl_compound W [g, u]) as_bytes) (\<lambda>v.
     return_tx (case v of None \<Rightarrow> None | Some b \<Rightarrow> b))"

text \<open>\<open>MigratePNToLID\<close>: the key a row moves to.\<close>

definition moved_name :: "wa_library \<Rightarrow> jid \<Rightarrow> jid \<Rightarrow> string \<Rightarrow> string" where
  "moved_name W pn lid k =
    (if prefix (wl_signal W pn @ '':'') k then wl_signal W lid @ drop (length (wl_signal W pn)) k
     else k)"

definition moved_key :: "wa_library \<Rightarrow> jid \<Rightarrow> jid \<Rightarrow> string \<Rightarrow> string \<Rightarrow> go_error + string" where
  "moved_key W pn lid kind k =
    (if kind = ''sender'' then (case wl_parts W k of None \<Rightarrow> Inl ErrJson
       | Some parts \<Rightarrow>
           if length parts = 2 \<and> prefix (wl_signal W pn @ '':'') (parts ! 1)
           then Inr (wl_compound W [parts ! 0, moved_name W pn lid (parts ! 1)]) else Inr k)
     else Inr (moved_name W pn lid k))"

definition move_row :: "wa_library \<Rightarrow> string \<Rightarrow> jid \<Rightarrow> jid \<Rightarrow> string \<Rightarrow> string \<times> payload \<Rightarrow> unit dbtx" where
  "move_row W ns pn lid kind kv = bind_tx (lift_tx (moved_key W pn lid kind (fst kv))) (\<lambda>nxt.
     if nxt = fst kv then return_tx ()
     else then_tx (network_txn None (network_put (wa_key ns kind nxt) (Some (snd kv))))
       (wa_del ns kind (fst kv)))"

definition migrate_pn_to_lid :: "wa_library \<Rightarrow> string \<Rightarrow> jid \<Rightarrow> jid \<Rightarrow> unit dbtx" where
  "migrate_pn_to_lid W ns pn lid = wa_txn (for_tx (\<lambda>kind.
     bind_tx (wa_scan ns kind) (for_tx (move_row W ns pn lid kind)))
     [''session'', ''identity'', ''sender''])"

section \<open>One-time keys\<close>

record pre_key_record =
  pr_key :: pre_key
  pr_uploaded :: bool

definition enc_pre_key :: "wa_library \<Rightarrow> pre_key_record \<Rightarrow> json" where
  "enc_pre_key W r = JObj ((''Key'', enc_of (wl_pre_key W) (pr_key r)) # jbool ''Uploaded'' (pr_uploaded r))"

text \<open>A record whose key is missing makes its readers panic (a nil pointer).\<close>

definition set_pre_key :: "wa_library \<Rightarrow> string \<Rightarrow> json \<Rightarrow> pre_key option \<times> bool \<Rightarrow>
    (pre_key option \<times> bool) option" where
  "set_pre_key W k v r =
    (if k = ''Key'' then map_option (\<lambda>x. (Some x, snd r)) (dec_of (wl_pre_key W) v)
     else if k = ''Uploaded'' then map_option (\<lambda>b. (fst r, b)) (as_bool v (snd r))
     else Some r)"

definition dec_pre_key :: "wa_library \<Rightarrow> json \<Rightarrow> (pre_key option \<times> bool) option" where
  "dec_pre_key W = decode_struct (set_pre_key W) (None, False)"

definition read_pre_key :: "wa_library \<Rightarrow> payload \<Rightarrow> go_error + pre_key_record" where
  "read_pre_key W data = (case unmarshal (dec_pre_key W) data of Inl e \<Rightarrow> Inl e
     | Inr (None, _) \<Rightarrow> Inl ErrPanic
     | Inr (Some k, up) \<Rightarrow> Inr \<lparr>pr_key = k, pr_uploaded = up\<rparr>)"

definition as_u32 :: "json \<Rightarrow> u32 option" where
  "as_u32 j = as_unsigned j 0"

definition key_counter :: "string \<Rightarrow> u32 dbtx" where
  "key_counter ns = bind_tx (wa_get ns ''meta'' ''prekey'' as_u32) (\<lambda>v.
     return_tx (case v of None \<Rightarrow> 0 | Some n \<Rightarrow> n))"

definition pre_key_name :: "u32 \<Rightarrow> string" where
  "pre_key_name n = decimal (unat n)"

definition generate_key :: "wa_library \<Rightarrow> string \<Rightarrow> bool \<Rightarrow> pre_key dbtx" where  \<comment> \<open>\<open>generate\<close>\<close>
  "generate_key W ns uploaded = bind_tx (key_counter ns) (\<lambda>n.
     let k = wl_new_key W (n + 1) in
     then_tx (wa_put ns ''prekey'' (pre_key_name (n + 1))
         (enc_pre_key W \<lparr>pr_key = k, pr_uploaded = uploaded\<rparr>))
     (then_tx (wa_put ns ''meta'' ''prekey'' (JNum (uint (n + 1)))) (return_tx k)))"

definition gen_one_pre_key :: "wa_library \<Rightarrow> string \<Rightarrow> pre_key dbtx" where
  "gen_one_pre_key W ns = wa_txn (generate_key W ns True)"

definition lower_key :: "pre_key \<Rightarrow> pre_key \<Rightarrow> bool" where
  "lower_key x y \<longleftrightarrow> pk_id x < pk_id y"

definition fresh_keys :: "wa_library \<Rightarrow> (string \<times> payload) list \<Rightarrow> pre_key list dbtx" where
  "fresh_keys W rows = fold_tx (\<lambda>(k, raw) out. bind_tx (lift_tx (unmarshal (dec_pre_key W) raw)) (\<lambda>r.
     case r of (key, True) \<Rightarrow> return_tx out
     | (Some key, False) \<Rightarrow> return_tx (out @ [key])
     | (None, False) \<Rightarrow> fail_tx ErrPanic)) rows []"

fun generate_keys :: "wa_library \<Rightarrow> string \<Rightarrow> nat \<Rightarrow> pre_key list \<Rightarrow> pre_key list dbtx" where
  "generate_keys W ns 0 out = return_tx out"
| "generate_keys W ns (Suc n) out = bind_tx (generate_key W ns False) (\<lambda>k.
     generate_keys W ns n (out @ [k]))"

definition get_or_gen_pre_keys :: "wa_library \<Rightarrow> string \<Rightarrow> u32 \<Rightarrow> pre_key list dbtx" where
  "get_or_gen_pre_keys W ns count = wa_txn (bind_tx (wa_scan ns ''prekey'') (\<lambda>rows.
     bind_tx (fresh_keys W rows) (\<lambda>found.
     let out = take (unat count) (sort_by lower_key found) in
     generate_keys W ns (unat count - length out) out)))"

definition get_pre_key :: "wa_library \<Rightarrow> string \<Rightarrow> u32 \<Rightarrow> pre_key option dbtx" where
  "get_pre_key W ns i = bind_tx (wa_get ns ''prekey'' (pre_key_name i) (dec_pre_key W)) (\<lambda>v.
     return_tx (case v of None \<Rightarrow> None | Some (k, _) \<Rightarrow> k))"

definition remove_pre_key :: "string \<Rightarrow> u32 \<Rightarrow> unit dbtx" where
  "remove_pre_key ns i = wa_del ns ''prekey'' (pre_key_name i)"

definition mark_uploaded :: "wa_library \<Rightarrow> string \<Rightarrow> u32 \<Rightarrow> unit dbtx" where
  "mark_uploaded W ns i = wa_txn (bind_tx (wa_scan ns ''prekey'') (for_tx (\<lambda>(k, raw).
     bind_tx (lift_tx (read_pre_key W raw)) (\<lambda>r.
     when_tx (pk_id (pr_key r) \<le> i) (wa_put ns ''prekey'' k (enc_pre_key W (r\<lparr>pr_uploaded := True\<rparr>)))))))"

definition uploaded_count :: "wa_library \<Rightarrow> string \<Rightarrow> int dbtx" where
  "uploaded_count W ns = bind_tx (wa_scan ns ''prekey'') (\<lambda>rows.
     fold_tx (\<lambda>(k, raw) n. bind_tx (lift_tx (unmarshal (dec_pre_key W) raw)) (\<lambda>r.
       return_tx (if snd r then n + 1 else n))) rows 0)"

end
