(* ===== verification/WaState.thy ===== *)
theory WaState
  imports WaStore
begin

text \<open>
  The rest of the credential store (\<open>internal/whatsapp/store_state.go\<close>): app-state keys and their
  versions, contacts, chat settings, the mapping between phone-number and hidden identities,
  message secrets, privacy tokens, and the buffers of decrypted and outgoing events.  The zero
  value of a record is read where there is no row.
\<close>

section \<open>Hexadecimal\<close>

definition hex_digit :: "nat \<Rightarrow> char" where
  "hex_digit n = (if n < 10 then char_of (48 + n) else char_of (87 + n))"

definition hex_encode :: "string \<Rightarrow> string" where
  "hex_encode s = concat (map (\<lambda>c. [hex_digit (of_char c div 16), hex_digit (of_char c mod 16)]) s)"

definition hex_value :: "char \<Rightarrow> nat option" where
  "hex_value c = (let n = of_char c :: nat in
     if 48 \<le> n \<and> n \<le> 57 then Some (n - 48)
     else if 97 \<le> n \<and> n \<le> 102 then Some (n - 87)
     else if 65 \<le> n \<and> n \<le> 70 then Some (n - 55) else None)"

fun hex_decode :: "string \<Rightarrow> go_error + string" where
  "hex_decode [] = Inr []"
| "hex_decode [c] = Inl (ErrText ''encoding/hex: odd length hex string'')"
| "hex_decode (c # d # s) = (case (hex_value c, hex_value d) of
       (Some h, Some l) \<Rightarrow> map_sum id ((#) (char_of (16 * h + l))) (hex_decode s)
     | _ \<Rightarrow> Inl (ErrText ''encoding/hex: invalid byte''))"

section \<open>App state\<close>

definition put_app_key :: "wa_library \<Rightarrow> string \<Rightarrow> string \<Rightarrow> app_key \<Rightarrow> unit dbtx" where
  "put_app_key W ns i key = wa_put ns ''appkey'' (hex_encode i) (enc_of (wl_app_key W) key)"

definition get_app_key :: "wa_library \<Rightarrow> string \<Rightarrow> string \<Rightarrow> app_key option dbtx" where
  "get_app_key W ns i = wa_get ns ''appkey'' (hex_encode i) (dec_of (wl_app_key W))"

definition latest_app_key :: "wa_library \<Rightarrow> string \<Rightarrow> string dbtx" where
  "latest_app_key W ns = bind_tx (wa_scan ns ''appkey'') (\<lambda>rows.
     bind_tx (fold_tx (\<lambda>(k, raw) (i, newest). bind_tx (lift_tx (unmarshal (dec_of (wl_app_key W)) raw)) (\<lambda>v.
       return_tx (if i = [] \<or> newest <s ak_time v then (k, ak_time v) else (i, newest)))) rows ([], 0))
     (\<lambda>(i, newest). lift_tx (hex_decode i)))"

definition all_app_keys :: "wa_library \<Rightarrow> string \<Rightarrow> app_key list dbtx" where
  "all_app_keys W ns = bind_tx (wa_scan ns ''appkey'') (\<lambda>rows.
     fold_tx (\<lambda>(k, raw) out. bind_tx (lift_tx (unmarshal (dec_of (wl_app_key W)) raw)) (\<lambda>v.
       return_tx (out @ [v]))) rows [])"

record app_version =
  av_version :: u64
  av_hash :: "string option"

definition enc_version :: "app_version \<Rightarrow> json" where
  "enc_version v = JObj (juint ''Version'' (av_version v) @ [(''Hash'', jbytes (av_hash v))])"

definition set_version :: "string \<Rightarrow> json \<Rightarrow> app_version \<Rightarrow> app_version option" where
  "set_version k v r =
    (if k = ''Version'' then map_option (\<lambda>n. r\<lparr>av_version := n\<rparr>) (as_unsigned v (av_version r))
     else if k = ''Hash'' then map_option (\<lambda>b. r\<lparr>av_hash := b\<rparr>) (as_bytes v)
     else Some r)"

definition dec_version :: "json \<Rightarrow> app_version option" where
  "dec_version = decode_struct set_version \<lparr>av_version = 0, av_hash = None\<rparr>"

definition put_app_version :: "string \<Rightarrow> string \<Rightarrow> u64 \<Rightarrow> string \<Rightarrow> unit dbtx" where
  "put_app_version ns n v h = wa_put ns ''appversion'' n (enc_version \<lparr>av_version = v, av_hash = Some h\<rparr>)"

definition get_app_version :: "string \<Rightarrow> string \<Rightarrow> app_version dbtx" where
  "get_app_version ns n = bind_tx (wa_get ns ''appversion'' n dec_version) (\<lambda>v.
     return_tx (case v of None \<Rightarrow> \<lparr>av_version = 0, av_hash = None\<rparr> | Some x \<Rightarrow> x))"

definition delete_app_version :: "string \<Rightarrow> string \<Rightarrow> unit dbtx" where
  "delete_app_version ns n = wa_txn (then_tx (wa_del ns ''appversion'' n)
     (delete_prefix ns ''mac'' (n @ '':'')))"

definition mac_name :: "string \<Rightarrow> string \<Rightarrow> string" where
  "mac_name n i = n @ '':'' @ hex_encode i"

definition put_macs :: "string \<Rightarrow> string \<Rightarrow> (string \<times> string) list \<Rightarrow> unit dbtx" where
  "put_macs ns n macs = wa_txn (for_tx (\<lambda>(i, mac).
     wa_put ns ''mac'' (mac_name n i) (jbytes (Some mac))) macs)"

definition delete_macs :: "string \<Rightarrow> string \<Rightarrow> string list \<Rightarrow> unit dbtx" where
  "delete_macs ns n ids = wa_txn (for_tx (\<lambda>i. wa_del ns ''mac'' (mac_name n i)) ids)"

definition get_mac :: "string \<Rightarrow> string \<Rightarrow> string \<Rightarrow> string option dbtx" where
  "get_mac ns n i = bind_tx (wa_get ns ''mac'' (mac_name n i) as_bytes) (\<lambda>v.
     return_tx (case v of None \<Rightarrow> None | Some b \<Rightarrow> b))"

section \<open>Contacts\<close>

definition zero_contact_info :: contact_info where
  "zero_contact_info = \<lparr>ci_found = False, ci_first = [], ci_full = [], ci_push = [], ci_business = [],
     ci_redacted = []\<rparr>"

definition plain_name :: "wa_library \<Rightarrow> jid \<Rightarrow> string" where
  "plain_name W j = wl_string W (wl_plain W j)"

definition get_contact :: "wa_library \<Rightarrow> string \<Rightarrow> jid \<Rightarrow> contact_info dbtx" where
  "get_contact W ns j = bind_tx (wa_get ns ''contact'' (plain_name W j) (dec_of (wl_contact W))) (\<lambda>v.
     return_tx (case v of None \<Rightarrow> zero_contact_info | Some c \<Rightarrow> c))"

text \<open>\<open>updateContact\<close>; the callers that want it get the record from before.\<close>

definition update_contact :: "wa_library \<Rightarrow> string \<Rightarrow> jid \<Rightarrow> (contact_info \<Rightarrow> contact_info) \<Rightarrow> contact_info dbtx" where
  "update_contact W ns j f = wa_txn (bind_tx (get_contact W ns j) (\<lambda>v.
     then_tx (wa_put ns ''contact'' (plain_name W j) (enc_of (wl_contact W) ((f v)\<lparr>ci_found := True\<rparr>)))
       (return_tx v)))"

definition put_push_name :: "wa_library \<Rightarrow> string \<Rightarrow> jid \<Rightarrow> string \<Rightarrow> (bool \<times> string) dbtx" where
  "put_push_name W ns j n = bind_tx (update_contact W ns j (\<lambda>v. v\<lparr>ci_push := n\<rparr>)) (\<lambda>v.
     return_tx (ci_push v \<noteq> n, ci_push v))"

definition put_business_name :: "wa_library \<Rightarrow> string \<Rightarrow> jid \<Rightarrow> string \<Rightarrow> (bool \<times> string) dbtx" where
  "put_business_name W ns j n = bind_tx (update_contact W ns j (\<lambda>v. v\<lparr>ci_business := n\<rparr>)) (\<lambda>v.
     return_tx (ci_business v \<noteq> n, ci_business v))"

definition put_contact_name :: "wa_library \<Rightarrow> string \<Rightarrow> jid \<Rightarrow> string \<Rightarrow> string \<Rightarrow> unit dbtx" where
  "put_contact_name W ns j first full =
     then_tx (update_contact W ns j (\<lambda>v. v\<lparr>ci_full := full, ci_first := first\<rparr>)) (return_tx ())"

definition put_all_contact_names :: "wa_library \<Rightarrow> string \<Rightarrow> (jid \<times> string \<times> string) list \<Rightarrow> unit dbtx" where
  "put_all_contact_names W ns entries = wa_txn (for_tx (\<lambda>(j, first, full).
     put_contact_name W ns j first full) entries)"

definition put_redacted_phones :: "wa_library \<Rightarrow> string \<Rightarrow> (jid \<times> string) list \<Rightarrow> unit dbtx" where
  "put_redacted_phones W ns entries = wa_txn (for_tx (\<lambda>(j, phone).
     then_tx (update_contact W ns j (\<lambda>v. v\<lparr>ci_redacted := phone\<rparr>)) (return_tx ())) entries)"

definition get_all_contacts :: "wa_library \<Rightarrow> string \<Rightarrow> (jid \<times> contact_info) list dbtx" where
  "get_all_contacts W ns = bind_tx (wa_scan ns ''contact'') (\<lambda>rows.
     fold_tx (\<lambda>(k, raw) out. case wl_parse W k of None \<Rightarrow> fail_tx (ErrText ''invalid JID'')
       | Some j \<Rightarrow> bind_tx (lift_tx (unmarshal (dec_of (wl_contact W)) raw)) (\<lambda>v.
           return_tx (out @ [(j, v)]))) rows [])"

section \<open>Identities\<close>

definition normalize_jid :: "wa_library \<Rightarrow> jid \<Rightarrow> jid" where
  "normalize_jid W j0 = (let j = wl_plain W j0 in case ji_server j of
       Legacy_server \<Rightarrow> j\<lparr>ji_server := Default_server\<rparr>
     | Hosted_server \<Rightarrow> j\<lparr>ji_server := Default_server\<rparr>
     | Hosted_lid_server \<Rightarrow> j\<lparr>ji_server := Hidden_server\<rparr>
     | _ \<Rightarrow> j)"

definition empty_jid :: jid where
  "empty_jid = \<lparr>ji_user = [], ji_server = Other_server [], ji_device = 0, ji_rest = 0\<rparr>"

definition mapped_jid :: "wa_library \<Rightarrow> string \<Rightarrow> string \<Rightarrow> jid \<Rightarrow> jid dbtx" where
  "mapped_jid W ns kind j = bind_tx (wa_get ns kind (wl_string W (normalize_jid W j)) (dec_of (wl_jid W))) (\<lambda>v.
     let x = (case v of None \<Rightarrow> empty_jid | Some x \<Rightarrow> x) in
     return_tx (if \<not> wl_empty W x then x\<lparr>ji_device := ji_device j\<rparr> else x))"

definition pn_for_lid :: "wa_library \<Rightarrow> string \<Rightarrow> jid \<Rightarrow> jid dbtx" where
  "pn_for_lid W ns j = mapped_jid W ns ''lid'' j"

definition lid_for_pn :: "wa_library \<Rightarrow> string \<Rightarrow> jid \<Rightarrow> jid dbtx" where
  "lid_for_pn W ns j = mapped_jid W ns ''pn'' j"

definition put_lid_mapping :: "wa_library \<Rightarrow> string \<Rightarrow> jid \<Rightarrow> jid \<Rightarrow> unit dbtx" where
  "put_lid_mapping W ns lid0 pn0 = (let lid = normalize_jid W lid0; pn = normalize_jid W pn0 in
     if ji_server lid \<noteq> Hidden_server \<or> ji_server pn \<noteq> Default_server then return_tx ()
     else wa_txn (bind_tx (pn_for_lid W ns lid) (\<lambda>old_pn.
       bind_tx (lid_for_pn W ns pn) (\<lambda>old_lid.
       then_tx (when_tx (\<not> wl_empty W old_pn \<and> old_pn \<noteq> pn) (wa_del ns ''pn'' (wl_string W old_pn)))
       (then_tx (when_tx (\<not> wl_empty W old_lid \<and> old_lid \<noteq> lid) (wa_del ns ''lid'' (wl_string W old_lid)))
       (then_tx (wa_put ns ''lid'' (plain_name W lid) (enc_of (wl_jid W) (wl_plain W pn)))
         (wa_put ns ''pn'' (plain_name W pn) (enc_of (wl_jid W) (wl_plain W lid)))))))))"

definition put_many_lid_mappings :: "wa_library \<Rightarrow> string \<Rightarrow> (jid \<times> jid) list \<Rightarrow> unit dbtx" where
  "put_many_lid_mappings W ns mappings = wa_txn (for_tx (\<lambda>(lid, pn). put_lid_mapping W ns lid pn) mappings)"

definition many_lids :: "wa_library \<Rightarrow> string \<Rightarrow> jid list \<Rightarrow> (jid \<rightharpoonup> jid) dbtx" where
  "many_lids W ns js = fold_tx (\<lambda>j out. bind_tx (lid_for_pn W ns j) (\<lambda>v.
     return_tx (if \<not> wl_empty W v then out(j \<mapsto> v) else out))) js Map.empty"

definition aliases :: "wa_library \<Rightarrow> string \<Rightarrow> jid \<Rightarrow> jid list dbtx" where
  "aliases W ns j = bind_tx
     (if ji_server j = Default_server then lid_for_pn W ns j
      else if ji_server j = Hidden_server then pn_for_lid W ns j
      else return_tx empty_jid) (\<lambda>alt.
     return_tx (if \<not> wl_empty W alt then [wl_plain W j, wl_plain W alt] else [wl_plain W j]))"

section \<open>Chat settings\<close>

definition zero_settings :: chat_settings where
  "zero_settings = \<lparr>cs_found = False, cs_muted = 0, cs_pinned = False, cs_archived = False\<rparr>"

fun first_settings :: "wa_library \<Rightarrow> string \<Rightarrow> jid list \<Rightarrow> chat_settings dbtx" where
  "first_settings W ns [] = return_tx zero_settings"
| "first_settings W ns (j # js) = bind_tx (wa_get ns ''chat'' (wl_string W j) (dec_of (wl_chat W))) (\<lambda>v.
     case v of Some x \<Rightarrow> return_tx x | None \<Rightarrow> first_settings W ns js)"

definition get_chat_settings :: "wa_library \<Rightarrow> string \<Rightarrow> jid \<Rightarrow> chat_settings dbtx" where
  "get_chat_settings W ns j = bind_tx (aliases W ns j) (first_settings W ns)"

definition update_chat :: "wa_library \<Rightarrow> string \<Rightarrow> jid \<Rightarrow> (chat_settings \<Rightarrow> chat_settings) \<Rightarrow> unit dbtx" where
  "update_chat W ns j0 f = (let j1 = normalize_jid W j0 in
     bind_tx (if ji_server j1 = Default_server
        then bind_tx (lid_for_pn W ns j1) (\<lambda>lid. return_tx (if \<not> wl_empty W lid then lid else j1))
        else return_tx j1) (\<lambda>j.
     wa_txn (bind_tx (get_chat_settings W ns j) (\<lambda>v.
       wa_put ns ''chat'' (wl_string W j) (enc_of (wl_chat W) ((f v)\<lparr>cs_found := True\<rparr>))))))"

definition put_muted_until :: "wa_library \<Rightarrow> string \<Rightarrow> jid \<Rightarrow> time \<Rightarrow> unit dbtx" where
  "put_muted_until W ns j t = update_chat W ns j (\<lambda>v. v\<lparr>cs_muted := t\<rparr>)"

definition put_pinned :: "wa_library \<Rightarrow> string \<Rightarrow> jid \<Rightarrow> bool \<Rightarrow> unit dbtx" where
  "put_pinned W ns j b = update_chat W ns j (\<lambda>v. v\<lparr>cs_pinned := b\<rparr>)"

definition put_archived :: "wa_library \<Rightarrow> string \<Rightarrow> jid \<Rightarrow> bool \<Rightarrow> unit dbtx" where
  "put_archived W ns j b = update_chat W ns j (\<lambda>v. v\<lparr>cs_archived := b\<rparr>)"

section \<open>Message secrets\<close>

definition secret_name :: "wa_library \<Rightarrow> jid \<Rightarrow> jid \<Rightarrow> string \<Rightarrow> string" where
  "secret_name W c u i = wl_compound W [wl_string W c, wl_string W u, i]"

definition put_message_secret :: "wa_library \<Rightarrow> string \<Rightarrow> jid \<Rightarrow> jid \<Rightarrow> string \<Rightarrow> string \<Rightarrow> unit dbtx" where
  "put_message_secret W ns c u i secret =
     (let key = secret_name W (wl_plain W c) (wl_plain W u) i in
      wa_txn (bind_tx (wa_get ns ''msgsecret'' key as_bytes) (\<lambda>old.
        if old \<noteq> None then return_tx () else wa_put ns ''msgsecret'' key (jbytes (Some secret)))))"

definition put_message_secrets :: "wa_library \<Rightarrow> string \<Rightarrow> (jid \<times> jid \<times> string \<times> string) list \<Rightarrow> unit dbtx" where
  "put_message_secrets W ns entries = wa_txn (for_tx (\<lambda>(c, u, i, secret).
     put_message_secret W ns c u i secret) entries)"

fun first_secret :: "wa_library \<Rightarrow> string \<Rightarrow> string \<Rightarrow> (jid \<times> jid) list \<Rightarrow> (string option \<times> jid) dbtx" where
  "first_secret W ns i [] = return_tx (None, empty_jid)"
| "first_secret W ns i ((c, u) # rest) = bind_tx (wa_get ns ''msgsecret'' (secret_name W c u i) as_bytes) (\<lambda>v.
     case v of Some x \<Rightarrow> return_tx (x, u) | None \<Rightarrow> first_secret W ns i rest)"

definition get_message_secret :: "wa_library \<Rightarrow> string \<Rightarrow> jid \<Rightarrow> jid \<Rightarrow> string \<Rightarrow> (string option \<times> jid) dbtx" where
  "get_message_secret W ns c u i = bind_tx (aliases W ns c) (\<lambda>chats.
     bind_tx (aliases W ns u) (\<lambda>senders. first_secret W ns i (List.product chats senders)))"

section \<open>Privacy tokens\<close>

definition better_token :: "privacy_token option \<Rightarrow> privacy_token option \<Rightarrow> privacy_token option" where
  "better_token best v = (case v of None \<Rightarrow> best
     | Some t \<Rightarrow> (case best of None \<Rightarrow> Some t
         | Some old \<Rightarrow> if pt_time t > pt_time old then Some t else Some old))"

definition get_privacy_token :: "wa_library \<Rightarrow> string \<Rightarrow> jid \<Rightarrow> privacy_token option dbtx" where
  "get_privacy_token W ns j = bind_tx (aliases W ns j) (\<lambda>js.
     fold_tx (\<lambda>a best. bind_tx (wa_get ns ''privacy'' (wl_string W a) (dec_of (wl_privacy W))) (\<lambda>v.
       return_tx (better_token best v))) js None)"

definition put_privacy_token :: "wa_library \<Rightarrow> string \<Rightarrow> privacy_token \<Rightarrow> unit dbtx" where
  "put_privacy_token W ns t = bind_tx (get_privacy_token W ns (pt_user t)) (\<lambda>old.
     case old of
       Some x \<Rightarrow> if pt_time x > pt_time t then return_tx ()
         else wa_put ns ''privacy'' (plain_name W (pt_user t)) (enc_of (wl_privacy W)
           (if pt_sender_time t = 0 then t\<lparr>pt_sender_time := pt_sender_time x\<rparr> else t))
     | None \<Rightarrow> wa_put ns ''privacy'' (plain_name W (pt_user t)) (enc_of (wl_privacy W) t))"

definition put_privacy_tokens :: "wa_library \<Rightarrow> string \<Rightarrow> privacy_token list \<Rightarrow> unit dbtx" where
  "put_privacy_tokens W ns entries = wa_txn (for_tx (put_privacy_token W ns) entries)"

definition delete_expired_tokens :: "wa_library \<Rightarrow> string \<Rightarrow> time \<Rightarrow> int dbtx" where
  "delete_expired_tokens W ns cutoff = wa_txn (bind_tx (wa_scan ns ''privacy'') (\<lambda>rows.
     fold_tx (\<lambda>(k, raw) n. bind_tx (lift_tx (unmarshal (dec_of (wl_privacy W)) raw)) (\<lambda>v.
       if pt_time v < cutoff then then_tx (wa_del ns ''privacy'' k) (return_tx (n + 1))
       else return_tx n)) rows 0))"

definition put_salt :: "string \<Rightarrow> string option \<Rightarrow> unit dbtx" where
  "put_salt ns v = wa_put ns ''meta'' ''salt'' (jbytes v)"

definition get_salt :: "string \<Rightarrow> string option dbtx" where
  "get_salt ns = bind_tx (wa_get ns ''meta'' ''salt'' as_bytes) (\<lambda>v.
     return_tx (case v of None \<Rightarrow> None | Some b \<Rightarrow> b))"

definition delete_salt :: "string \<Rightarrow> unit dbtx" where
  "delete_salt ns = wa_del ns ''meta'' ''salt''"

section \<open>Buffers\<close>

definition do_decryption_txn :: "'a dbtx \<Rightarrow> 'a dbtx" where
  "do_decryption_txn f = wa_txn f"

definition week :: time where "week = 7 * 24 * 60 * minute"

definition get_buffered :: "wa_library \<Rightarrow> string \<Rightarrow> string \<Rightarrow> buffered_event option dbtx" where
  "get_buffered W ns h = wa_get ns ''buffer'' (hex_encode h) (dec_of (wl_buffered W))"

definition put_buffered :: "wa_library \<Rightarrow> string \<Rightarrow> string \<Rightarrow> string option \<Rightarrow> time \<Rightarrow> unit dbtx" where
  "put_buffered W ns h plain t = bind_tx (read_tx clock) (\<lambda>now.
     wa_put ns ''buffer'' (hex_encode h) (enc_of (wl_buffered W)
       \<lparr>be_plain = plain, be_inserted = now, be_server = t\<rparr>))"

definition clear_buffered :: "wa_library \<Rightarrow> string \<Rightarrow> string \<Rightarrow> unit dbtx" where
  "clear_buffered W ns h = wa_txn (bind_tx (get_buffered W ns h) (\<lambda>v. case v of None \<Rightarrow> return_tx ()
     | Some x \<Rightarrow> wa_put ns ''buffer'' (hex_encode h) (enc_of (wl_buffered W) (x\<lparr>be_plain := None\<rparr>))))"

definition delete_old_rows :: "string \<Rightarrow> string \<Rightarrow> (payload \<Rightarrow> go_error + time) \<Rightarrow> unit dbtx" where
  "delete_old_rows ns kind stamp = wa_txn (bind_tx (wa_scan ns kind) (for_tx (\<lambda>(k, raw).
     bind_tx (lift_tx (stamp raw)) (\<lambda>t. bind_tx (read_tx clock) (\<lambda>now.
     when_tx (now - t > week) (wa_del ns kind k))))))"

definition delete_old_buffered :: "wa_library \<Rightarrow> string \<Rightarrow> unit dbtx" where
  "delete_old_buffered W ns = delete_old_rows ns ''buffer''
     (\<lambda>raw. map_sum id be_inserted (unmarshal (dec_of (wl_buffered W)) raw))"

record outgoing_event =
  og_format :: string
  og_plain :: "string option"
  og_time :: time

definition enc_outgoing :: "outgoing_event \<Rightarrow> json" where
  "enc_outgoing v = JObj (jstr ''Format'' (og_format v) @ [(''Plaintext'', jbytes (og_plain v))] @
     jtime ''Time'' (og_time v))"

definition set_outgoing :: "string \<Rightarrow> json \<Rightarrow> outgoing_event \<Rightarrow> outgoing_event option" where
  "set_outgoing k v r =
    (if k = ''Format'' then map_option (\<lambda>x. r\<lparr>og_format := x\<rparr>) (as_str v (og_format r))
     else if k = ''Plaintext'' then map_option (\<lambda>b. r\<lparr>og_plain := b\<rparr>) (as_bytes v)
     else if k = ''Time'' then map_option (\<lambda>t. r\<lparr>og_time := t\<rparr>) (as_time v (og_time r))
     else Some r)"

definition dec_outgoing :: "json \<Rightarrow> outgoing_event option" where
  "dec_outgoing = decode_struct set_outgoing \<lparr>og_format = [], og_plain = None, og_time = 0\<rparr>"

definition outgoing_name :: "wa_library \<Rightarrow> jid \<Rightarrow> string \<Rightarrow> string" where
  "outgoing_name W j i = wl_compound W [plain_name W j, i]"

definition add_outgoing :: "wa_library \<Rightarrow> string \<Rightarrow> jid \<Rightarrow> string \<Rightarrow> string \<Rightarrow> string option \<Rightarrow> unit dbtx" where
  "add_outgoing W ns j i format plain = bind_tx (read_tx clock) (\<lambda>now.
     wa_put ns ''outgoing'' (outgoing_name W j i) (enc_outgoing
       \<lparr>og_format = format, og_plain = plain, og_time = now\<rparr>))"

definition get_outgoing :: "wa_library \<Rightarrow> string \<Rightarrow> jid \<Rightarrow> jid \<Rightarrow> string \<Rightarrow> (string \<times> string option) dbtx" where
  "get_outgoing W ns j alt i =
     bind_tx (wa_get ns ''outgoing'' (outgoing_name W j i) dec_outgoing) (\<lambda>v.
     bind_tx (if v = None \<and> \<not> wl_empty W alt
        then wa_get ns ''outgoing'' (outgoing_name W alt i) dec_outgoing else return_tx v) (\<lambda>x.
     return_tx (case x of None \<Rightarrow> ([], None) | Some e \<Rightarrow> (og_format e, og_plain e))))"

definition delete_old_outgoing :: "string \<Rightarrow> unit dbtx" where
  "delete_old_outgoing ns = delete_old_rows ns ''outgoing''
     (\<lambda>raw. map_sum id og_time (unmarshal dec_outgoing raw))"

interpretation version_codec: json_codec enc_version dec_version
proof unfold_locales
  show "dec_version (enc_version x) = Some x" for x
    by (cases x) (simp add: enc_version_def dec_version_def set_version_def json_members)
qed

interpretation outgoing_codec: json_codec enc_outgoing dec_outgoing
proof unfold_locales
  show "dec_outgoing (enc_outgoing x) = Some x" for x
    by (cases x) (simp add: enc_outgoing_def dec_outgoing_def set_outgoing_def json_members)
qed

end
