(* ===== verification/WaRows.thy ===== *)
theory WaRows
  imports WaState
begin

text \<open>
  What the operations of the credential store do to its rows.  \<open>network_at\<close> is the document under a
  key of the network bucket and \<open>row_at\<close> the one under a kind and a name of a namespace.
  \<open>touches ns K\<close> relates two databases of which the second is reached by steps of the store that
  change nothing but rows of the kinds in \<open>K\<close> of one namespace; it is a preorder, so the contract
  of the transaction monad applies, and every writing operation is proved to keep to its own
  kinds.  A fact about one kind of row then survives all operations on the others.
\<close>

section \<open>Rows\<close>

definition network_at :: "store \<Rightarrow> string \<Rightarrow> payload option" where
  "network_at s k = (case lookup s BNetwork k of None \<Rightarrow> None
     | Some c \<Rightarrow> (case open_cell (cipher_key s) (network_context k) c of Inl e \<Rightarrow> None | Inr p \<Rightarrow> Some p))"

definition row_at :: "store \<Rightarrow> string \<Rightarrow> string \<Rightarrow> string \<Rightarrow> payload option" where
  "row_at s ns kind i = network_at s (wa_key ns kind i)"

definition network_sorted :: "store \<Rightarrow> bool" where
  "network_sorted s \<longleftrightarrow> kv_sorted (pairs s BNetwork)"

definition plain_name_part :: "string \<Rightarrow> bool" where
  "plain_name_part x \<longleftrightarrow> CHR '':'' \<notin> set x"

lemma split_at_colon:
  assumes "plain_name_part a" and "plain_name_part b"
  shows "a @ CHR '':'' # i = b @ CHR '':'' # j \<longleftrightarrow> a = b \<and> i = j"
proof
  have tk: "takeWhile (\<lambda>c. c \<noteq> CHR '':'') (x @ CHR '':'' # r) = x" if "plain_name_part x" for x r
    using that by (auto simp: plain_name_part_def takeWhile_append2 takeWhile_append
        intro: takeWhile_eq_all_conv [THEN iffD2])
  assume eq: "a @ CHR '':'' # i = b @ CHR '':'' # j"
  with tk [OF assms(1)] tk [OF assms(2)] have "a = b" by metis
  with eq show "a = b \<and> i = j" by simp
qed simp

lemma wa_key_same [simp]: "wa_key ns kind i = wa_key ns kind j \<longleftrightarrow> i = j"
  by (simp add: wa_key_def)

lemma wa_key_inject:
  assumes "plain_name_part ns" "plain_name_part ns'" "plain_name_part kind" "plain_name_part kind'"
  shows "wa_key ns kind i = wa_key ns' kind' i' \<longleftrightarrow> ns = ns' \<and> kind = kind' \<and> i = i'"
  using split_at_colon [OF assms(1,2)] split_at_colon [OF assms(3,4)] by (auto simp: wa_key_def)

text \<open>Two kinds of one namespace, whatever the namespace is called.\<close>

lemma wa_key_kinds:
  assumes "plain_name_part kind" "plain_name_part kind'"
  shows "wa_key ns kind i = wa_key ns kind' i' \<longleftrightarrow> kind = kind' \<and> i = i'"
  using split_at_colon [OF assms] by (simp add: wa_key_def)

lemma wa_key_nonempty [simp]: "wa_key ns kind i \<noteq> []"
  by (simp add: wa_key_def)

lemma wa_key_prefix: "prefix (wa_key ns kind []) k \<longleftrightarrow> (\<exists>i. k = wa_key ns kind i)"
  by (auto simp: wa_key_def prefix_def)

lemma drop_wa_key [simp]: "drop (length (wa_key ns kind [])) (wa_key ns kind i) = i"
  by (simp add: wa_key_def)

section \<open>Reads and writes of one row\<close>

definition networked :: "store \<Rightarrow> store" where
  "networked s = (if db s BNetwork = None then set_bucket BNetwork (Some empty_bucket) s else s)"

lemma bcreate_network: "bcreate BNetwork s = Inr ((), networked s)"
  by (simp add: bcreate_def modify_tx_def networked_def)

lemma networked_simps [simp]:
  "cipher_key (networked s) = cipher_key s"
  "clock (networked s) = clock s"
  "lookup (networked s) b k = lookup s b k"
  "pairs (networked s) b = pairs s b"
  "exists_bucket (networked s) BNetwork"
  "network_at (networked s) k = network_at s k"
  "row_at (networked s) ns kind i = row_at s ns kind i"
  "network_sorted (networked s) = network_sorted s"
  by (auto simp: networked_def lookup_def pairs_def exists_bucket_def set_bucket_def empty_bucket_def
      network_at_def row_at_def network_sorted_def)

lemma wa_txn_eq: "wa_txn body s = body (networked s)"
  by (simp add: wa_txn_def creds_failed_def network_txn_def then_tx_def bind_tx_def bcreate_network
      return_tx_def)

text \<open>The database with a row set or removed.\<close>

definition set_row :: "string \<Rightarrow> payload option \<Rightarrow> store \<Rightarrow> store" where
  "set_row k v s = (case v of None \<Rightarrow> del_kv BNetwork k (networked s)
     | Some p \<Rightarrow> put_kv BNetwork k (Sealed (cipher_key s) (network_context k) p) (networked s))"

lemma map_sum_Inr: "map_sum f g x = Inr y \<longleftrightarrow> (\<exists>z. x = Inr z \<and> y = g z)"
  by (cases x) auto

lemma network_txn_put:
  "network_txn None (network_put k v) s = Inr (u, s') \<longleftrightarrow>
     s' = set_row k v s \<and> (v \<noteq> None \<longrightarrow> k \<noteq> [] \<and> length k \<le> MaxKeySize)"
  by (auto simp: network_txn_def then_tx_def bind_tx_def bcreate_network network_put_def
      set_row_def tx_elims split: option.splits)

lemma wa_write_Inr:
  "wa_write ns kind i v s = Inr (u, s') \<longleftrightarrow>
     s' = set_row (wa_key ns kind i) v s \<and> (v \<noteq> None \<longrightarrow> length (wa_key ns kind i) \<le> MaxKeySize)"
  by (auto simp: wa_write_def creds_failed_def map_sum_Inr network_txn_put)

lemma wa_put_Inr:
  "wa_put ns kind i v s = Inr (u, s') \<longleftrightarrow>
     s' = set_row (wa_key ns kind i) (Some (JText v)) s \<and> length (wa_key ns kind i) \<le> MaxKeySize"
  by (simp add: wa_put_def wa_write_Inr)

lemma wa_del_Inr: "wa_del ns kind i s = Inr (u, s') \<longleftrightarrow> s' = set_row (wa_key ns kind i) None s"
  by (simp add: wa_del_def wa_write_Inr)

lemma set_row_key [simp]: "cipher_key (set_row k v s) = cipher_key s" "clock (set_row k v s) = clock s"
  by (simp_all add: set_row_def split: option.splits)

lemma network_at_set_row [simp]: "network_at (set_row k v s) k' = (if k' = k then v else network_at s k')"
  by (auto simp: network_at_def set_row_def split: option.splits)

lemma row_at_set_row [simp]:
  "row_at (set_row k v s) ns kind i = (if wa_key ns kind i = k then v else row_at s ns kind i)"
  by (simp add: row_at_def)

lemma network_sorted_set_row [simp]: "network_sorted s \<Longrightarrow> network_sorted (set_row k v s)"
  by (simp add: network_sorted_def set_row_def pairs_simps split: option.splits)

lemma network_get_Inr: "network_get k s = Inr (x, s') \<Longrightarrow> s' = s \<and> x = network_at s k"
  by (auto simp: network_get_def bget_plain_def tx_elims network_at_def lookup_def exists_bucket_def
      split: if_splits option.splits)

lemma wa_get_Inr:
  assumes "wa_get ns kind i dec s = Inr (x, s')"
  shows "s' = s \<and> (case row_at s ns kind i of None \<Rightarrow> x = None
    | Some p \<Rightarrow> (\<exists>v. unmarshal dec p = Inr v \<and> x = Some v))"
  using assms unfolding wa_get_def creds_failed_def
  by (auto simp: bind_tx_Inr map_sum_Inr row_at_def dest!: network_get_Inr split: option.splits)

lemma wa_get_state: "wa_get ns kind i dec s = Inr (x, s') \<Longrightarrow> s' = s"
  by (drule wa_get_Inr) simp

lemma wa_get_None: "wa_get ns kind i dec s = Inr (None, s') \<Longrightarrow> row_at s ns kind i = None"
  by (drule wa_get_Inr) (auto split: option.splits)

lemma wa_get_Some:
  "wa_get ns kind i dec s = Inr (Some v, s') \<Longrightarrow>
   \<exists>p. row_at s ns kind i = Some p \<and> unmarshal dec p = Inr v"
  by (drule wa_get_Inr) (auto split: option.splits)

section \<open>Scans\<close>

lemma decrypt_loop:
  "fold_tx (\<lambda>kv result. bind_tx (decrypt (snd kv) (c (fst kv))) (\<lambda>plain.
      return_tx (result @ [(fst kv, plain)]))) found acc s = Inr (rows, s') \<Longrightarrow>
   s' = s \<and> (\<exists>new. rows = acc @ new \<and>
     list_all2 (\<lambda>kv r. fst r = fst kv \<and> snd kv = Sealed (cipher_key s) (c (fst kv)) (snd r)) found new)"
proof (induction found arbitrary: acc)
  case (Cons kv found)
  from Cons.prems obtain plain where p: "snd kv = Sealed (cipher_key s) (c (fst kv)) plain"
    and rest: "fold_tx (\<lambda>kv result. bind_tx (decrypt (snd kv) (c (fst kv))) (\<lambda>plain.
      return_tx (result @ [(fst kv, plain)]))) found (acc @ [(fst kv, plain)]) s = Inr (rows, s')"
    by (auto simp: bind_tx_Inr decrypt_Inr)
  from Cons.IH [OF rest] obtain new where "s' = s" "rows = acc @ (fst kv, plain) # new"
    "list_all2 (\<lambda>kv r. fst r = fst kv \<and> snd kv = Sealed (cipher_key s) (c (fst kv)) (snd r)) found new"
    by auto
  with p show ?case by (intro conjI exI [of _ "(fst kv, plain) # new"]) simp_all
qed simp

lemma network_scan_Inr:
  assumes "network_scan p s = Inr (rows, s')" and srt: "network_sorted s"
  shows "s' = s" and "sorted_wrt (<) (map fst rows)"
    and "(k, v) \<in> set rows \<longleftrightarrow> prefix p k \<and> network_at s k = Some v"
proof -
  let ?R = "\<lambda>kv r. fst r = fst kv \<and> snd kv = Sealed (cipher_key s) (network_context (fst kv)) (snd r)"
  let ?found = "kv_scan p (pairs s BNetwork)"
  have loop: "s' = s \<and> list_all2 ?R ?found rows"
    using assms(1) decrypt_loop [of network_context ?found "[]" s rows s']
    by (auto simp: network_scan_def bind_tx_Inr tx_elims pairs_def exists_bucket_def kv_scan_def
        split: if_splits)
  then have s: "s' = s" and all: "list_all2 ?R ?found rows" by simp_all
  from all have fsts: "map fst rows = map fst ?found"
    by (auto simp: list_all2_conv_all_nth intro: nth_equalityI)
  have ok: "kv_sorted (pairs s BNetwork)" using srt by (simp add: network_sorted_def)
  show "s' = s" by (fact s)
  show sorted: "sorted_wrt (<) (map fst rows)" unfolding fsts by (rule kv.scan_sorted [OF ok])
  have look: "lookup s BNetwork k = Some c \<and> prefix p k \<longleftrightarrow> (k, c) \<in> set ?found" for k c
    using kv.scan_mem [OF ok, of k c p] by (auto simp: lookup_pairs)
  show "(k, v) \<in> set rows \<longleftrightarrow> prefix p k \<and> network_at s k = Some v"
  proof
    assume "(k, v) \<in> set rows"
    then obtain n where n: "n < length rows" "rows ! n = (k, v)" by (metis in_set_conv_nth)
    with all have "?found ! n = (k, Sealed (cipher_key s) (network_context k) v)" "n < length ?found"
      by (auto simp: list_all2_conv_all_nth prod_eq_iff)
    then have "(k, Sealed (cipher_key s) (network_context k) v) \<in> set ?found" by (metis nth_mem)
    then have "lookup s BNetwork k = Some (Sealed (cipher_key s) (network_context k) v)" "prefix p k"
      using look by blast+
    then show "prefix p k \<and> network_at s k = Some v" by (simp add: network_at_def)
  next
    assume at: "prefix p k \<and> network_at s k = Some v"
    then obtain c where "lookup s BNetwork k = Some c" by (auto simp: network_at_def split: option.splits)
    with at have "(k, c) \<in> set ?found" using look by blast
    then obtain n where n: "n < length ?found" "?found ! n = (k, c)" by (metis in_set_conv_nth)
    with all have "fst (rows ! n) = k" "c = Sealed (cipher_key s) (network_context k) (snd (rows ! n))"
      "n < length rows"
      by (auto simp: list_all2_conv_all_nth)
    moreover from this(2) at \<open>lookup s BNetwork k = Some c\<close> have "snd (rows ! n) = v"
      by (simp add: network_at_def)
    ultimately show "(k, v) \<in> set rows" by (metis nth_mem prod.collapse)
  qed
qed

lemma wa_scan_Inr:
  assumes "wa_scan ns kind s = Inr (rows, s')" and "network_sorted s"
  shows "s' = s" and "distinct (map fst rows)"
    and "(i, v) \<in> set rows \<longleftrightarrow> row_at s ns kind i = Some v"
proof -
  let ?p = "wa_key ns kind []"
  obtain found where f: "network_scan ?p s = Inr (found, s')"
    and rows: "rows = map (\<lambda>(k, v). (drop (length ?p) k, v)) found"
    using assms(1) by (auto simp: wa_scan_def creds_failed_def bind_tx_Inr map_sum_Inr)
  note scan = network_scan_Inr [OF f assms(2)]
  show "s' = s" by (rule scan(1))
  have keyed: "\<exists>i. k = wa_key ns kind i" if "(k, v) \<in> set found" for k v
    using that scan(3) wa_key_prefix by blast
  show "distinct (map fst rows)"
  proof -
    have "distinct (map fst found)" using scan(2) by (simp add: strict_sorted_iff)
    moreover have "inj_on (drop (length ?p)) (fst ` set found)"
    proof (rule inj_onI)
      fix x y
      assume "x \<in> fst ` set found" "y \<in> fst ` set found" "drop (length ?p) x = drop (length ?p) y"
      moreover from this keyed obtain i j where "x = wa_key ns kind i" "y = wa_key ns kind j" by fastforce
      ultimately show "x = y" by simp
    qed
    ultimately have "distinct (map (drop (length ?p)) (map fst found))"
      by (simp only: distinct_map set_map)
    then show ?thesis by (simp add: rows comp_def case_prod_unfold)
  qed
  show "(i, v) \<in> set rows \<longleftrightarrow> row_at s ns kind i = Some v"
  proof
    assume "(i, v) \<in> set rows"
    then obtain k where k: "(k, v) \<in> set found" "i = drop (length ?p) k" by (auto simp: rows)
    with keyed obtain j where "k = wa_key ns kind j" by blast
    with k scan(3) [of k v] show "row_at s ns kind i = Some v" by (simp add: row_at_def)
  next
    assume "row_at s ns kind i = Some v"
    then have "(wa_key ns kind i, v) \<in> set found"
      using scan(3) [of "wa_key ns kind i" v] wa_key_prefix by (auto simp: row_at_def)
    then show "(i, v) \<in> set rows"
      unfolding rows set_map by (intro image_eqI [where x = "(wa_key ns kind i, v)"]) simp_all
  qed
qed

lemma wa_scan_state: "wa_scan ns kind s = Inr (rows, s') \<Longrightarrow> s' = s"
proof -
  assume "wa_scan ns kind s = Inr (rows, s')"
  then show ?thesis
    by (auto simp: wa_scan_def creds_failed_def bind_tx_Inr map_sum_Inr network_scan_def tx_elims
        split: if_splits dest: decrypt_loop)
qed

section \<open>What the operations touch\<close>

definition outside :: "string \<Rightarrow> string set \<Rightarrow> string \<Rightarrow> bool" where
  "outside ns K k \<longleftrightarrow> (\<forall>kind \<in> K. \<forall>i. k \<noteq> wa_key ns kind i)"

definition touches :: "string \<Rightarrow> string set \<Rightarrow> store \<Rightarrow> store \<Rightarrow> bool" where
  "touches ns K s s' \<longleftrightarrow> store_steps s s' \<and> frame {BNetwork} s s' \<and>
     (network_sorted s \<longrightarrow> network_sorted s') \<and>
     (\<forall>k. outside ns K k \<longrightarrow> network_at s' k = network_at s k)"

named_theorems touching \<open>the kinds of row an operation may change\<close>

lemma store_steps_refl [simp]: "store_steps s s"
  by (simp add: store_steps_def)

interpretation touches: tx_relation "touches ns K" for ns K
proof unfold_locales
  show "touches ns K s s" for s by (simp add: touches_def)
  show "touches ns K s u" if "touches ns K s t" and "touches ns K t u" for s t u
    using that frame.R_trans [of "{BNetwork}" s t u]
    by (auto simp: touches_def store_steps_def intro: rtranclp_trans)
qed

lemma touches_networked: "touches ns K s (networked s)"
proof -
  have "store_steps s (networked s)"
    unfolding store_steps_def by (rule r_into_rtranclp, rule store_step.networked, rule bcreate_network)
  moreover have "frame {BNetwork} s (networked s)"
    by (auto simp: networked_def frame_def set_bucket_def)
  ultimately show ?thesis by (simp add: touches_def)
qed

lemma touches_set_row:
  assumes "kind \<in> K" and "v \<noteq> None \<longrightarrow> length (wa_key ns kind i) \<le> MaxKeySize"
  shows "touches ns K s (set_row (wa_key ns kind i) v s)"
proof -
  let ?k = "wa_key ns kind i"
  have "network_put ?k v (networked s) = Inr ((), set_row ?k v s)"
    using assms(2) network_txn_put [of ?k v s "()" "set_row ?k v s"]
    by (simp add: network_txn_def then_tx_def bind_tx_def bcreate_network)
  then have "store_steps (networked s) (set_row ?k v s)"
    unfolding store_steps_def by (intro r_into_rtranclp store_step.network)
  moreover have "frame {BNetwork} (networked s) (set_row ?k v s)"
    by (simp add: set_row_def split: option.splits)
  ultimately have "touches ns K (networked s) (set_row ?k v s)"
    using assms(1) by (auto simp: touches_def outside_def)
  then show ?thesis by (rule touches.R_trans [OF touches_networked])
qed

lemma touching_write [touching]: "kind \<in> K \<Longrightarrow> upholds (touches ns K) (wa_write ns kind i v)"
  by (rule upholdsI) (auto simp: wa_write_Inr intro: touches_set_row)

lemma touching_move [touching]:
  "kind \<in> K \<Longrightarrow> upholds (touches ns K) (network_txn None (network_put (wa_key ns kind i) v))"
  by (rule upholdsI) (auto simp: network_txn_put intro: touches_set_row)

lemma touching_put [touching]: "kind \<in> K \<Longrightarrow> upholds (touches ns K) (wa_put ns kind i v)"
  unfolding wa_put_def by (rule touching_write)

lemma touching_del [touching]: "kind \<in> K \<Longrightarrow> upholds (touches ns K) (wa_del ns kind i)"
  unfolding wa_del_def by (rule touching_write)

lemma touching_reads [touching]:
  "upholds (touches ns K) (wa_get ns' kind i dec)"
  "upholds (touches ns K) (wa_scan ns' kind)"
  by (auto simp: upholds_def dest!: wa_get_state wa_scan_state intro: touches.R_refl)

lemma touching_txn [touching]:
  "upholds (touches ns K) body \<Longrightarrow> upholds (touches ns K) (wa_txn body)"
  by (auto simp: upholds_def wa_txn_eq intro: touches.R_trans touches_networked)

lemma touching_delete_prefix [touching]:
  "kind \<in> K \<Longrightarrow> upholds (touches ns K) (delete_prefix ns kind p)"
  unfolding delete_prefix_def by (intro touches.rules touching)

lemma touches_mono: "touches ns J s s' \<Longrightarrow> J \<subseteq> K \<Longrightarrow> touches ns K s s'"
  by (auto simp: touches_def outside_def)

text \<open>Rows of other kinds, and rows of other devices, stay as they are.\<close>

lemma outside_kind:
  assumes "kind \<notin> K" and "plain_name_part kind" and "\<And>k. k \<in> K \<Longrightarrow> plain_name_part k"
  shows "outside ns K (wa_key ns kind i)"
  unfolding outside_def
proof (intro ballI allI)
  fix k j assume "k \<in> K"
  with assms show "wa_key ns kind i \<noteq> wa_key ns k j" using wa_key_kinds [of kind k ns i j] by metis
qed

lemma outside_device:
  assumes "plain_name_part ns" "plain_name_part ns'" "ns' \<noteq> ns"
  shows "outside ns K (wa_key ns' kind i)"
proof -
  have "ns' @ CHR '':'' # (kind @ CHR '':'' # i) \<noteq> ns @ CHR '':'' # (k @ CHR '':'' # j)" for k j
    using split_at_colon [OF assms(2,1)] assms(3) by blast
  then show ?thesis by (simp add: outside_def wa_key_def)
qed

lemma touches_other_kind:
  "touches ns K s s' \<Longrightarrow> kind \<notin> K \<Longrightarrow> plain_name_part kind \<Longrightarrow>
   (\<And>k. k \<in> K \<Longrightarrow> plain_name_part k) \<Longrightarrow> row_at s' ns kind i = row_at s ns kind i"
  unfolding touches_def row_at_def using outside_kind by blast

lemma touches_other_device:
  "touches ns K s s' \<Longrightarrow> plain_name_part ns \<Longrightarrow> plain_name_part ns' \<Longrightarrow> ns' \<noteq> ns \<Longrightarrow>
   row_at s' ns' kind i = row_at s ns' kind i"
  unfolding touches_def row_at_def using outside_device by blast

lemma touches_sorted: "touches ns K s s' \<Longrightarrow> network_sorted s \<Longrightarrow> network_sorted s'"
  by (simp add: touches_def)

end
