(* ===== verification/WaDevice.thy ===== *)
theory WaDevice
  imports WaRows
begin

text \<open>
  The linked device (\<open>Device\<close>, \<open>PutDevice\<close>, \<open>DeleteDevice\<close> of \<open>internal/whatsapp/store.go\<close>) and
  the steps of the credential store as a whole: \<open>cred_step\<close> has one case per operation that writes,
  each under the condition that it succeeds, and the counter of one-time keys has room for the keys
  that are asked for.  Key pairs, the account and the random bytes are opaque; \<open>fresh\<close> is the device
  the random draw would give.
\<close>

section \<open>The device record\<close>

record device =
  dv_noise :: "string option"
  dv_identity :: "string option"
  dv_signed :: "pre_key option"
  dv_registration :: u32
  dv_secret :: "string option"
  dv_id :: "jid option"
  dv_lid :: jid
  dv_account :: "string option"
  dv_platform :: string
  dv_business :: string
  dv_push :: string
  dv_nonce :: string
  dv_migration :: i64
  dv_initialized :: bool

record device_record =
  dr_device :: device                    \<comment> \<open>the fields the two types share\<close>
  dr_account :: "json option"            \<comment> \<open>an absent or empty \<open>RawMessage\<close> is \<open>None\<close>\<close>
  dr_account_proto :: "string option"
  dr_version :: i64

definition zero_device :: device where
  "zero_device = \<lparr>dv_noise = None, dv_identity = None, dv_signed = None, dv_registration = 0,
     dv_secret = None, dv_id = None, dv_lid = empty_jid, dv_account = None, dv_platform = [],
     dv_business = [], dv_push = [], dv_nonce = [], dv_migration = 0, dv_initialized = False\<rparr>"

definition jopt :: "('a \<Rightarrow> json) \<Rightarrow> 'a option \<Rightarrow> json" where
  "jopt enc x = (case x of None \<Rightarrow> JNull | Some y \<Rightarrow> enc y)"

definition as_opt :: "(json \<Rightarrow> 'a option) \<Rightarrow> json \<Rightarrow> 'a option option" where
  "as_opt dec j = (if j = JNull then Some None else map_option Some (dec j))"

definition enc_device :: "wa_library \<Rightarrow> device_record \<Rightarrow> json" where
  "enc_device W r = (let d = dr_device r in JObj (
     [(''Noise'', jopt (enc_of (wl_pair W)) (dv_noise d)),
      (''Identity'', jopt (enc_of (wl_pair W)) (dv_identity d)),
      (''Signed'', jopt (enc_of (wl_pre_key W)) (dv_signed d))] @
     juint ''Registration'' (dv_registration d) @
     [(''Secret'', jbytes (dv_secret d)),
      (''ID'', jopt (enc_of (wl_jid W)) (dv_id d)),
      (''LID'', enc_of (wl_jid W) (dv_lid d))] @
     (case dr_account r of None \<Rightarrow> [] | Some j \<Rightarrow> [(''Account'', j)]) @
     [(''AccountProto'', jbytes (dr_account_proto r))] @
     omit (dr_version r = 0) (jint ''Version'' (dr_version r)) @
     jstr ''Platform'' (dv_platform d) @ jstr ''Business'' (dv_business d) @
     jstr ''Push'' (dv_push d) @ jstr ''Nonce'' (dv_nonce d) @ jint ''Migration'' (dv_migration d)))"

definition set_device_field :: "wa_library \<Rightarrow> string \<Rightarrow> json \<Rightarrow> device \<Rightarrow> device option" where
  "set_device_field W k v d =
    (if k = ''Noise'' then map_option (\<lambda>x. d\<lparr>dv_noise := x\<rparr>) (as_opt (dec_of (wl_pair W)) v)
     else if k = ''Identity'' then map_option (\<lambda>x. d\<lparr>dv_identity := x\<rparr>) (as_opt (dec_of (wl_pair W)) v)
     else if k = ''Signed'' then map_option (\<lambda>x. d\<lparr>dv_signed := x\<rparr>) (as_opt (dec_of (wl_pre_key W)) v)
     else if k = ''Registration'' then
       map_option (\<lambda>x. d\<lparr>dv_registration := x\<rparr>) (as_unsigned v (dv_registration d))
     else if k = ''Secret'' then map_option (\<lambda>x. d\<lparr>dv_secret := x\<rparr>) (as_bytes v)
     else if k = ''ID'' then map_option (\<lambda>x. d\<lparr>dv_id := x\<rparr>) (as_opt (dec_of (wl_jid W)) v)
     else if k = ''LID'' then map_option (\<lambda>x. d\<lparr>dv_lid := x\<rparr>) (dec_of (wl_jid W) v)
     else if k = ''Platform'' then map_option (\<lambda>x. d\<lparr>dv_platform := x\<rparr>) (as_str v (dv_platform d))
     else if k = ''Business'' then map_option (\<lambda>x. d\<lparr>dv_business := x\<rparr>) (as_str v (dv_business d))
     else if k = ''Push'' then map_option (\<lambda>x. d\<lparr>dv_push := x\<rparr>) (as_str v (dv_push d))
     else if k = ''Nonce'' then map_option (\<lambda>x. d\<lparr>dv_nonce := x\<rparr>) (as_str v (dv_nonce d))
     else if k = ''Migration'' then map_option (\<lambda>x. d\<lparr>dv_migration := x\<rparr>) (as_i64 v (dv_migration d))
     else Some d)"

definition set_device :: "wa_library \<Rightarrow> string \<Rightarrow> json \<Rightarrow> device_record \<Rightarrow> device_record option" where
  "set_device W k v r =
    (if k = ''Account'' then Some (r\<lparr>dr_account := Some v\<rparr>)
     else if k = ''AccountProto'' then map_option (\<lambda>x. r\<lparr>dr_account_proto := x\<rparr>) (as_bytes v)
     else if k = ''Version'' then map_option (\<lambda>x. r\<lparr>dr_version := x\<rparr>) (as_i64 v (dr_version r))
     else map_option (\<lambda>d. r\<lparr>dr_device := d\<rparr>) (set_device_field W k v (dr_device r)))"

definition dec_device :: "wa_library \<Rightarrow> json \<Rightarrow> device_record option" where
  "dec_device W = decode_struct (set_device W)
     \<lparr>dr_device = zero_device, dr_account = None, dr_account_proto = None, dr_version = 0\<rparr>"

definition read_account :: "wa_library \<Rightarrow> device_record \<Rightarrow> go_error + string option" where
  "read_account W r =
    (if dr_version r = 1 then (case dr_account_proto r of None \<Rightarrow> Inr None
       | Some raw \<Rightarrow> map_sum id Some (wl_account W raw))
     else if dr_version r \<noteq> 0 then Inl (ErrText ''unsupported device record version'')
     else (case dr_account r of None \<Rightarrow> Inr None
       | Some JNull \<Rightarrow> Inr None
       | Some j \<Rightarrow> (case wl_account_json W j of None \<Rightarrow> Inl ErrJson | Some a \<Rightarrow> Inr (Some a))))"

definition load_device :: "wa_library \<Rightarrow> string \<Rightarrow> device \<Rightarrow> device dbtx" where  \<comment> \<open>\<open>Device\<close>\<close>
  "load_device W ns fresh = bind_tx (wa_get ns ''device'' ''current'' (dec_device W)) (\<lambda>v. case v of
       None \<Rightarrow> return_tx fresh
     | Some r \<Rightarrow> bind_tx (lift_tx (read_account W r)) (\<lambda>account.
         let d = (dr_device r)\<lparr>dv_account := account, dv_initialized := True\<rparr> in
         if dv_noise d = None \<or> dv_identity d = None \<or> dv_signed d = None
         then fail_tx (ErrText ''invalid device keys'') else return_tx d))"

definition put_device :: "wa_library \<Rightarrow> string \<Rightarrow> device \<Rightarrow> unit dbtx" where
  "put_device W ns d =
     bind_tx (lift_tx (case dv_account d of None \<Rightarrow> Inr None
       | Some a \<Rightarrow> map_sum id Some (wl_account_bytes W a))) (\<lambda>account.
     wa_put ns ''device'' ''current'' (enc_device W \<lparr>dr_device = d, dr_account = None,
       dr_account_proto = account, dr_version = 1\<rparr>))"

definition delete_device :: "string \<Rightarrow> unit dbtx" where
  "delete_device ns = wa_del ns ''device'' ''current''"

end
