(* ===== verification/WaSystem.thy ===== *)
theory WaSystem
  imports WaDevice
begin

text \<open>
  The credential store as a transition system.  \<open>cred_step\<close> has one case per operation that writes
  rows, under the condition that it succeeds; an operation that fails is rolled back and leaves the
  database as it was.  The two cases that hand out one-time keys ask that the 32-bit counter has
  room for them.  The lemmas say which kinds of row each operation touches, and what follows for
  any number of steps: the steps are steps of the store, other devices and the rest of the database
  are untouched, and each kind of row changes only under the operations named after it.
\<close>

section \<open>What each operation touches\<close>

lemma touching_sessions [touching]:
  "''identity'' \<in> K \<Longrightarrow> upholds (touches ns K) (put_identity ns a k)"
  "''identity'' \<in> K \<Longrightarrow> upholds (touches ns K) (delete_identity ns a)"
  "''identity'' \<in> K \<Longrightarrow> upholds (touches ns K) (delete_all_identities ns a)"
  "''session'' \<in> K \<Longrightarrow> upholds (touches ns K) (put_session ns a v)"
  "''session'' \<in> K \<Longrightarrow> upholds (touches ns K) (delete_session ns a)"
  "''session'' \<in> K \<Longrightarrow> upholds (touches ns K) (delete_all_sessions ns a)"
  "''session'' \<in> K \<Longrightarrow> upholds (touches ns K) (put_many_sessions ns vs)"
  "''sender'' \<in> K \<Longrightarrow> upholds (touches ns K) (put_sender_key W ns g u v)"
  unfolding put_identity_def delete_identity_def delete_all_identities_def put_session_def
    delete_session_def delete_all_sessions_def put_many_sessions_def put_sender_key_def
  by (intro touches.rules touching; assumption)+

lemma touching_move_row [touching]:
  "kind \<in> K \<Longrightarrow> upholds (touches ns K) (move_row W ns pn lid kind kv)"
  unfolding move_row_def by (intro touches.rules touching)

lemma touching_migrate [touching]:
  assumes "{''session'', ''identity'', ''sender''} \<subseteq> K"
  shows "upholds (touches ns K) (migrate_pn_to_lid W ns pn lid)"
  unfolding migrate_pn_to_lid_def for_tx_Cons for_tx_Nil
  using assms by (intro touches.rules touching) simp_all

lemma touching_keys [touching]:
  assumes "{''prekey'', ''meta''} \<subseteq> K"
  shows "upholds (touches ns K) (generate_key W ns b)"
    "upholds (touches ns K) (gen_one_pre_key W ns)"
    "upholds (touches ns K) (get_or_gen_pre_keys W ns n)"
proof -
  have count: "upholds (touches ns K) (key_counter ns)"
    unfolding key_counter_def by (intro touches.rules touching)
  show gen: "upholds (touches ns K) (generate_key W ns b)" for b
    unfolding generate_key_def Let_def using assms by (intro touches.rules touching count) simp_all
  show "upholds (touches ns K) (gen_one_pre_key W ns)"
    unfolding gen_one_pre_key_def by (intro touching gen)
  have many: "upholds (touches ns K) (generate_keys W ns m out)" for m out
    by (induction m arbitrary: out) (auto intro: gen)
  show "upholds (touches ns K) (get_or_gen_pre_keys W ns n)"
    unfolding get_or_gen_pre_keys_def fresh_keys_def Let_def
    by (intro touches.rules touching many) (auto split: option.splits bool.splits)
qed

lemma touching_key_rows [touching]:
  "''prekey'' \<in> K \<Longrightarrow> upholds (touches ns K) (remove_pre_key ns i)"
  "''prekey'' \<in> K \<Longrightarrow> upholds (touches ns K) (mark_uploaded W ns i)"
  unfolding remove_pre_key_def mark_uploaded_def by (intro touches.rules touching; assumption)+

lemma touching_app_state [touching]:
  "''appkey'' \<in> K \<Longrightarrow> upholds (touches ns K) (put_app_key W ns i key)"
  "''appversion'' \<in> K \<Longrightarrow> upholds (touches ns K) (put_app_version ns n v h)"
  "''appversion'' \<in> K \<Longrightarrow> ''mac'' \<in> K \<Longrightarrow> upholds (touches ns K) (delete_app_version ns n)"
  "''mac'' \<in> K \<Longrightarrow> upholds (touches ns K) (put_macs ns n macs)"
  "''mac'' \<in> K \<Longrightarrow> upholds (touches ns K) (delete_macs ns n ids)"
  unfolding put_app_key_def put_app_version_def delete_app_version_def put_macs_def delete_macs_def
  by (intro touches.rules touching; assumption)+

lemma touching_contacts [touching]:
  assumes "''contact'' \<in> K"
  shows "upholds (touches ns K) (put_push_name W ns j n)"
    "upholds (touches ns K) (put_business_name W ns j n)"
    "upholds (touches ns K) (put_contact_name W ns j first full)"
    "upholds (touches ns K) (put_all_contact_names W ns entries)"
    "upholds (touches ns K) (put_redacted_phones W ns phones)"
proof -
  have upd: "upholds (touches ns K) (update_contact W ns j f)" for j f
    unfolding update_contact_def get_contact_def by (intro touches.rules touching assms)
  show "upholds (touches ns K) (put_push_name W ns j n)"
    "upholds (touches ns K) (put_business_name W ns j n)"
    unfolding put_push_name_def put_business_name_def by (intro touches.rules upd)+
  show name: "upholds (touches ns K) (put_contact_name W ns j first full)" for j first full
    unfolding put_contact_name_def by (intro touches.rules upd)
  show "upholds (touches ns K) (put_all_contact_names W ns entries)"
    "upholds (touches ns K) (put_redacted_phones W ns phones)"
    unfolding put_all_contact_names_def put_redacted_phones_def
    by (intro touches.rules touching upd name)+
qed

lemma touching_mapped [touching]:
  "upholds (touches ns K) (mapped_jid W ns' kind j)"
  "upholds (touches ns K) (pn_for_lid W ns' j)"
  "upholds (touches ns K) (lid_for_pn W ns' j)"
  "upholds (touches ns K) (aliases W ns' j)"
  unfolding aliases_def pn_for_lid_def lid_for_pn_def mapped_jid_def Let_def
  by (intro touches.rules touching)+

lemma touching_lookups [touching]:
  "upholds (touches ns K) (get_contact W ns' j)"
  "upholds (touches ns K) (get_all_contacts W ns')"
  "upholds (touches ns K) (get_chat_settings W ns' j)"
proof -
  have "upholds (touches ns K) (first_settings W ns' js)" for js
    by (induction js) (auto intro!: touches.rules touching)
  then show "upholds (touches ns K) (get_chat_settings W ns' j)"
    unfolding get_chat_settings_def by (intro touches.rules touching)
  show "upholds (touches ns K) (get_contact W ns' j)"
    unfolding get_contact_def by (intro touches.rules touching)
  have "upholds (touches ns K) ((case kv of (k, raw) \<Rightarrow> \<lambda>out. f k raw out) acc)"
    if "\<And>k raw out. upholds (touches ns K) (f k raw out)" for kv acc and f :: "string \<Rightarrow> payload \<Rightarrow> (jid \<times> contact_info) list \<Rightarrow> _"
    using that by (cases kv) simp
  note pair = this
  show "upholds (touches ns K) (get_all_contacts W ns')"
    unfolding get_all_contacts_def by (intro touches.rules touching pair)
qed

lemma touching_lids [touching]:
  assumes "{''lid'', ''pn''} \<subseteq> K"
  shows "upholds (touches ns K) (put_lid_mapping W ns lid pn)"
    "upholds (touches ns K) (put_many_lid_mappings W ns ms)"
proof -
  show one: "upholds (touches ns K) (put_lid_mapping W ns lid pn)" for lid pn
    unfolding put_lid_mapping_def Let_def using assms by (intro touches.rules touching) simp_all
  show "upholds (touches ns K) (put_many_lid_mappings W ns ms)"
    unfolding put_many_lid_mappings_def by (intro touches.rules touching one)
qed

lemma touching_chats [touching]:
  assumes "''chat'' \<in> K"
  shows "upholds (touches ns K) (put_muted_until W ns j t)"
    "upholds (touches ns K) (put_pinned W ns j b)"
    "upholds (touches ns K) (put_archived W ns j b)"
proof -
  have first: "upholds (touches ns K) (first_settings W ns js)" for js
    by (induction js) (auto intro!: touches.rules touching split: option.splits)
  have "upholds (touches ns K) (update_chat W ns j f)" for f
    unfolding update_chat_def get_chat_settings_def Let_def
    by (intro touches.rules touching first assms)
  then show "upholds (touches ns K) (put_muted_until W ns j t)"
    "upholds (touches ns K) (put_pinned W ns j b)"
    "upholds (touches ns K) (put_archived W ns j b)"
    by (simp_all add: put_muted_until_def put_pinned_def put_archived_def)
qed

lemma touching_secrets [touching]:
  assumes "''msgsecret'' \<in> K"
  shows "upholds (touches ns K) (put_message_secret W ns c u i secret)"
    "upholds (touches ns K) (put_message_secrets W ns entries)"
proof -
  show one: "upholds (touches ns K) (put_message_secret W ns c u i secret)" for c u i secret
    unfolding put_message_secret_def Let_def by (intro touches.rules touching assms)
  show "upholds (touches ns K) (put_message_secrets W ns entries)"
    unfolding put_message_secrets_def by (intro touches.rules touching one)
qed

lemma touching_tokens [touching]:
  assumes "''privacy'' \<in> K"
  shows "upholds (touches ns K) (get_privacy_token W ns j)"
    "upholds (touches ns K) (put_privacy_tokens W ns entries)"
    "upholds (touches ns K) (delete_expired_tokens W ns cutoff)"
proof -
  show get: "upholds (touches ns K) (get_privacy_token W ns j)" for j
    unfolding get_privacy_token_def by (intro touches.rules touching)
  have one: "upholds (touches ns K) (put_privacy_token W ns t)" for t
    unfolding put_privacy_token_def by (intro touches.rules touching get assms)
  show "upholds (touches ns K) (put_privacy_tokens W ns entries)"
    unfolding put_privacy_tokens_def by (intro touches.rules touching one)
  show "upholds (touches ns K) (delete_expired_tokens W ns cutoff)"
    unfolding delete_expired_tokens_def case_prod_unfold by (intro touches.rules touching assms)
qed

lemma touching_salt [touching]:
  "''meta'' \<in> K \<Longrightarrow> upholds (touches ns K) (put_salt ns v)"
  "''meta'' \<in> K \<Longrightarrow> upholds (touches ns K) (delete_salt ns)"
  unfolding put_salt_def delete_salt_def by (intro touching; assumption)+

lemma touching_old_rows [touching]: "kind \<in> K \<Longrightarrow> upholds (touches ns K) (delete_old_rows ns kind stamp)"
  unfolding delete_old_rows_def by (intro touches.rules touching)

lemma touching_buffers [touching]:
  "''buffer'' \<in> K \<Longrightarrow> upholds (touches ns K) (put_buffered W ns h plain t)"
  "''buffer'' \<in> K \<Longrightarrow> upholds (touches ns K) (clear_buffered W ns h)"
  "''buffer'' \<in> K \<Longrightarrow> upholds (touches ns K) (delete_old_buffered W ns)"
  "''outgoing'' \<in> K \<Longrightarrow> upholds (touches ns K) (add_outgoing W ns j i format plain)"
  "''outgoing'' \<in> K \<Longrightarrow> upholds (touches ns K) (delete_old_outgoing ns)"
  unfolding put_buffered_def clear_buffered_def get_buffered_def delete_old_buffered_def
    add_outgoing_def delete_old_outgoing_def
  by (intro touches.rules touching; assumption)+

lemma touching_device [touching]:
  "''device'' \<in> K \<Longrightarrow> upholds (touches ns K) (put_device W ns d)"
  "''device'' \<in> K \<Longrightarrow> upholds (touches ns K) (delete_device ns)"
  unfolding put_device_def delete_device_def by (intro touches.rules touching; assumption)+

section \<open>Steps\<close>

definition counter_at :: "store \<Rightarrow> string \<Rightarrow> nat" where
  "counter_at s ns = (case row_at s ns ''meta'' ''prekey'' of None \<Rightarrow> 0
     | Some p \<Rightarrow> (case unmarshal as_u32 p of Inl e \<Rightarrow> 0 | Inr n \<Rightarrow> unat n))"

inductive cred_step :: "wa_library \<Rightarrow> string \<Rightarrow> store \<Rightarrow> store \<Rightarrow> bool" for W :: wa_library and ns :: string where
  identity_put: "put_identity ns a k s = Inr (u, s') \<Longrightarrow> cred_step W ns s s'"
| identity_gone: "delete_identity ns a s = Inr (u, s') \<Longrightarrow> cred_step W ns s s'"
| identities_gone: "delete_all_identities ns a s = Inr (u, s') \<Longrightarrow> cred_step W ns s s'"
| session_put: "put_session ns a v s = Inr (u, s') \<Longrightarrow> cred_step W ns s s'"
| session_gone: "delete_session ns a s = Inr (u, s') \<Longrightarrow> cred_step W ns s s'"
| sessions_gone: "delete_all_sessions ns a s = Inr (u, s') \<Longrightarrow> cred_step W ns s s'"
| sessions_put: "put_many_sessions ns vs s = Inr (u, s') \<Longrightarrow> cred_step W ns s s'"
| sender_put: "put_sender_key W ns g i v s = Inr (u, s') \<Longrightarrow> cred_step W ns s s'"
| migrated: "migrate_pn_to_lid W ns pn lid s = Inr (u, s') \<Longrightarrow> cred_step W ns s s'"
| generated: "gen_one_pre_key W ns s = Inr (k, s') \<Longrightarrow> counter_at s ns + 1 < 2 ^ 32 \<Longrightarrow>
    cred_step W ns s s'"
| filled: "get_or_gen_pre_keys W ns n s = Inr (ks, s') \<Longrightarrow> counter_at s ns + unat n < 2 ^ 32 \<Longrightarrow>
    cred_step W ns s s'"
| key_gone: "remove_pre_key ns i s = Inr (u, s') \<Longrightarrow> cred_step W ns s s'"
| keys_uploaded: "mark_uploaded W ns i s = Inr (u, s') \<Longrightarrow> cred_step W ns s s'"
| app_key_put: "put_app_key W ns i key s = Inr (u, s') \<Longrightarrow> cred_step W ns s s'"
| version_put: "put_app_version ns i v h s = Inr (u, s') \<Longrightarrow> cred_step W ns s s'"
| version_gone: "delete_app_version ns i s = Inr (u, s') \<Longrightarrow> cred_step W ns s s'"
| macs_put: "put_macs ns i macs s = Inr (u, s') \<Longrightarrow> cred_step W ns s s'"
| macs_gone: "delete_macs ns i ids s = Inr (u, s') \<Longrightarrow> cred_step W ns s s'"
| push_name: "put_push_name W ns j name s = Inr (c, s') \<Longrightarrow> cred_step W ns s s'"
| business_name: "put_business_name W ns j name s = Inr (c, s') \<Longrightarrow> cred_step W ns s s'"
| contact_name: "put_contact_name W ns j first full s = Inr (u, s') \<Longrightarrow> cred_step W ns s s'"
| contact_names: "put_all_contact_names W ns names s = Inr (u, s') \<Longrightarrow> cred_step W ns s s'"
| phones: "put_redacted_phones W ns numbers s = Inr (u, s') \<Longrightarrow> cred_step W ns s s'"
| mapping: "put_lid_mapping W ns lid pn s = Inr (u, s') \<Longrightarrow> cred_step W ns s s'"
| mappings: "put_many_lid_mappings W ns ms s = Inr (u, s') \<Longrightarrow> cred_step W ns s s'"
| muted: "put_muted_until W ns j t s = Inr (u, s') \<Longrightarrow> cred_step W ns s s'"
| pinned: "put_pinned W ns j b s = Inr (u, s') \<Longrightarrow> cred_step W ns s s'"
| archived: "put_archived W ns j b s = Inr (u, s') \<Longrightarrow> cred_step W ns s s'"
| secret: "put_message_secret W ns c i m secret s = Inr (u, s') \<Longrightarrow> cred_step W ns s s'"
| secrets: "put_message_secrets W ns entries s = Inr (u, s') \<Longrightarrow> cred_step W ns s s'"
| tokens: "put_privacy_tokens W ns ts s = Inr (u, s') \<Longrightarrow> cred_step W ns s s'"
| tokens_gone: "delete_expired_tokens W ns cutoff s = Inr (n, s') \<Longrightarrow> cred_step W ns s s'"
| salt: "put_salt ns v s = Inr (u, s') \<Longrightarrow> cred_step W ns s s'"
| salt_gone: "delete_salt ns s = Inr (u, s') \<Longrightarrow> cred_step W ns s s'"
| buffered: "put_buffered W ns h plain t s = Inr (u, s') \<Longrightarrow> cred_step W ns s s'"
| cleared: "clear_buffered W ns h s = Inr (u, s') \<Longrightarrow> cred_step W ns s s'"
| buffered_old: "delete_old_buffered W ns s = Inr (u, s') \<Longrightarrow> cred_step W ns s s'"
| sent: "add_outgoing W ns j i format plain s = Inr (u, s') \<Longrightarrow> cred_step W ns s s'"
| sent_old: "delete_old_outgoing ns s = Inr (u, s') \<Longrightarrow> cred_step W ns s s'"
| device_put: "put_device W ns d s = Inr (u, s') \<Longrightarrow> cred_step W ns s s'"
| device_gone: "delete_device ns s = Inr (u, s') \<Longrightarrow> cred_step W ns s s'"

definition cred_steps :: "wa_library \<Rightarrow> string \<Rightarrow> store \<Rightarrow> store \<Rightarrow> bool" where
  "cred_steps W ns = (cred_step W ns)\<^sup>*\<^sup>*"

definition all_kinds :: "string set" where
  "all_kinds = {''identity'', ''session'', ''sender'', ''prekey'', ''meta'', ''appkey'', ''appversion'',
     ''mac'', ''contact'', ''lid'', ''pn'', ''chat'', ''msgsecret'', ''privacy'', ''buffer'',
     ''outgoing'', ''device''}"

lemma cred_step_touches: "cred_step W ns s s' \<Longrightarrow> touches ns all_kinds s s'"
  by (induction rule: cred_step.induct)
    (erule upholdsD [rotated], rule touching, (simp add: all_kinds_def)+)+

lemma cred_steps_touch: "cred_steps W ns s s' \<Longrightarrow> touches ns all_kinds s s'"
  unfolding cred_steps_def
  by (induction rule: rtranclp_induct) (auto intro: touches.R_refl touches.R_trans cred_step_touches)

end
