(* ===== verification/WaKeys.thy ===== *)
theory WaKeys
  imports WaSystem Http
begin

text \<open>
  One-time keys, the mapping of identities and message secrets over the life of the credential
  store.  \<open>library_ok\<close> is what the proofs use of whatsmeow: documents read back as written, a new
  key has the number it was asked for, \<open>ToNonAD\<close> drops the device whatever the server is, and an
  address is empty when it has no server.
\<close>

section \<open>The library's contract\<close>

definition jids_ok :: "wa_library \<Rightarrow> bool" where
  "jids_ok W \<longleftrightarrow> (\<forall>j. wl_plain W (wl_plain W j) = wl_plain W j) \<and>
     (\<forall>j v. wl_plain W (j\<lparr>ji_server := v\<rparr>) = (wl_plain W j)\<lparr>ji_server := v\<rparr>) \<and>
     (\<forall>j. ji_server (wl_plain W j) = ji_server j) \<and> (\<forall>j. ji_device (wl_plain W j) = 0) \<and>
     (\<forall>j. wl_empty W j \<longleftrightarrow> ji_server j = Other_server [])"

definition library_ok :: "wa_library \<Rightarrow> bool" where
  "library_ok W \<longleftrightarrow> codec_ok (wl_pre_key W) \<and> codec_ok (wl_jid W) \<and>
     (\<forall>n. pk_id (wl_new_key W n) = n) \<and> jids_ok W"

lemma pre_key_name_inject [simp]: "pre_key_name m = pre_key_name n \<longleftrightarrow> m = n"
proof
  assume "pre_key_name m = pre_key_name n"
  then have "Some (unat m) = Some (unat n)"
    unfolding pre_key_name_def by (metis digits_value_decimal)
  then show "m = n" by (simp add: word_unat_eq_iff)
qed simp

lemma dec_enc_pre_key [simp]:
  "library_ok W \<Longrightarrow> dec_pre_key W (enc_pre_key W r) = Some (Some (pr_key r), pr_uploaded r)"
  by (cases "pr_uploaded r")
    (simp_all add: dec_pre_key_def enc_pre_key_def set_pre_key_def jbool_def library_ok_def codec_ok_def)

lemma read_enc_pre_key [simp]:
  "library_ok W \<Longrightarrow> read_pre_key W (JText (enc_pre_key W r)) = Inr r"
  by (cases r) (simp add: read_pre_key_def)

lemma as_u32_count [simp]: "as_u32 (JNum (uint n)) = Some n"
  by (simp add: as_u32_def)

lemma rows_networked [simp]: "row_at (networked s) ns = row_at s ns"
  by (simp add: fun_eq_iff)

section \<open>Which steps touch the keys\<close>

lemma keys_of_step [consumes 1, case_names other generated filled gone uploaded salt]:
  assumes "cred_step W ns s s'"
    and "touches ns (all_kinds - {''meta'', ''prekey''}) s s' \<Longrightarrow> P"
    and "\<And>k. gen_one_pre_key W ns s = Inr (k, s') \<Longrightarrow> counter_at s ns + 1 < 2 ^ 32 \<Longrightarrow> P"
    and "\<And>n ks. get_or_gen_pre_keys W ns n s = Inr (ks, s') \<Longrightarrow> counter_at s ns + unat n < 2 ^ 32 \<Longrightarrow> P"
    and "\<And>i u. remove_pre_key ns i s = Inr (u, s') \<Longrightarrow> P"
    and "\<And>i u. mark_uploaded W ns i s = Inr (u, s') \<Longrightarrow> P"
    and "\<And>v. s' = set_row (wa_key ns ''meta'' ''salt'') v s \<Longrightarrow> P"
  shows P
  using assms(1)
proof cases
  case generated then show ?thesis by (rule assms(3))
next
  case filled then show ?thesis by (rule assms(4))
next
  case key_gone then show ?thesis by (rule assms(5))
next
  case keys_uploaded then show ?thesis by (rule assms(6))
next
  case salt then show ?thesis by (auto simp: put_salt_def wa_put_Inr intro: assms(7))
next
  case salt_gone then show ?thesis by (auto simp: delete_salt_def wa_del_Inr intro: assms(7))
qed (rule assms(2), erule upholdsD [rotated], rule touching, (simp add: all_kinds_def)+)+

lemma lids_of_step [consumes 1, case_names other mapping mappings]:
  assumes "cred_step W ns s s'"
    and "touches ns (all_kinds - {''lid'', ''pn''}) s s' \<Longrightarrow> P"
    and "\<And>lid pn u. put_lid_mapping W ns lid pn s = Inr (u, s') \<Longrightarrow> P"
    and "\<And>ms u. put_many_lid_mappings W ns ms s = Inr (u, s') \<Longrightarrow> P"
  shows P
  using assms(1)
proof cases
  case mapping then show ?thesis by (rule assms(3))
next
  case mappings then show ?thesis by (rule assms(4))
qed (rule assms(2), erule upholdsD [rotated], rule touching, (simp add: all_kinds_def)+)+

lemma secrets_of_step [consumes 1, case_names other secret secrets]:
  assumes "cred_step W ns s s'"
    and "touches ns (all_kinds - {''msgsecret''}) s s' \<Longrightarrow> P"
    and "\<And>c i m secret u. put_message_secret W ns c i m secret s = Inr (u, s') \<Longrightarrow> P"
    and "\<And>entries u. put_message_secrets W ns entries s = Inr (u, s') \<Longrightarrow> P"
  shows P
  using assms(1)
proof cases
  case secret then show ?thesis by (rule assms(3))
next
  case secrets then show ?thesis by (rule assms(4))
qed (rule assms(2), erule upholdsD [rotated], rule touching, (simp add: all_kinds_def)+)+

lemma plain_kinds: "k \<in> all_kinds \<Longrightarrow> plain_name_part k"
  by (auto simp: all_kinds_def plain_name_part_def)

lemma touches_row:
  "touches ns (all_kinds - K) s s' \<Longrightarrow> kind \<in> K \<Longrightarrow> kind \<in> all_kinds \<Longrightarrow>
   row_at s' ns kind i = row_at s ns kind i"
  by (rule touches_other_kind) (auto intro: plain_kinds)

lemma kinds_apart [simp]:
  "wa_key ns ''prekey'' i \<noteq> wa_key ns ''meta'' j" "wa_key ns ''meta'' j \<noteq> wa_key ns ''prekey'' i"
  "wa_key ns ''lid'' i \<noteq> wa_key ns ''pn'' j" "wa_key ns ''pn'' j \<noteq> wa_key ns ''lid'' i"
  by (simp_all add: wa_key_def)

section \<open>One-time keys\<close>

definition pre_key_at :: "wa_library \<Rightarrow> store \<Rightarrow> string \<Rightarrow> u32 \<Rightarrow> pre_key_record option" where
  "pre_key_at W s ns i = (case row_at s ns ''prekey'' (pre_key_name i) of None \<Rightarrow> None
     | Some p \<Rightarrow> (case read_pre_key W p of Inl e \<Rightarrow> None | Inr r \<Rightarrow> Some r))"

definition pre_keys_ok :: "wa_library \<Rightarrow> string \<Rightarrow> store \<Rightarrow> bool" where
  "pre_keys_ok W ns s \<longleftrightarrow> (\<forall>i p. row_at s ns ''prekey'' i = Some p \<longrightarrow>
     (\<exists>r. read_pre_key W p = Inr r \<and> i = pre_key_name (pk_id (pr_key r)) \<and>
       unat (pk_id (pr_key r)) \<le> counter_at s ns))"

lemma key_counter_Inr:
  assumes "key_counter ns s = Inr (n, s')"
  shows "s' = s" and "unat n = counter_at s ns"
proof -
  obtain v where v: "wa_get ns ''meta'' ''prekey'' as_u32 s = Inr (v, s')"
    and n: "n = (case v of None \<Rightarrow> 0 | Some n \<Rightarrow> n)"
    using assms by (auto simp: key_counter_def bind_tx_Inr)
  from wa_get_Inr [OF v] show "s' = s" "unat n = counter_at s ns"
    by (auto simp: n counter_at_def split: option.splits)
qed

lemma generate_key_Inr:
  assumes "generate_key W ns b s = Inr (k, s')" and "counter_at s ns + 1 < 2 ^ 32"
  obtains n where "unat n = counter_at s ns + 1" and "k = wl_new_key W n"
    and "s' = set_row (wa_key ns ''meta'' ''prekey'') (Some (JText (JNum (uint n))))
      (set_row (wa_key ns ''prekey'' (pre_key_name n))
        (Some (JText (enc_pre_key W \<lparr>pr_key = k, pr_uploaded = b\<rparr>))) s)"
proof -
  obtain m where m: "key_counter ns s = Inr (m, s)" and k: "k = wl_new_key W (m + 1)"
    and s': "s' = set_row (wa_key ns ''meta'' ''prekey'') (Some (JText (JNum (uint (m + 1)))))
      (set_row (wa_key ns ''prekey'' (pre_key_name (m + 1)))
        (Some (JText (enc_pre_key W \<lparr>pr_key = k, pr_uploaded = b\<rparr>))) s)"
    using assms(1) by (auto simp: generate_key_def Let_def bind_tx_Inr then_tx_Inr wa_put_Inr
        dest: key_counter_Inr(1))
  have "unat (m + 1) = counter_at s ns + 1"
    using assms(2) key_counter_Inr(2) [OF m] by (simp add: unat_word_ariths)
  then show ?thesis using that k s' by blast
qed

lemma counter_at_set_row [simp]:
  "counter_at (set_row (wa_key ns ''meta'' ''prekey'') (Some (JText (JNum (uint (n :: u32))))) s) ns = unat n"
  "counter_at (set_row (wa_key ns ''prekey'' i) v s) ns = counter_at s ns"
  "counter_at (set_row (wa_key ns ''meta'' ''salt'') v s) ns = counter_at s ns"
  by (simp_all add: counter_at_def)

lemma counter_at_networked [simp]: "counter_at (networked s) ns = counter_at s ns"
  by (simp add: counter_at_def)

lemma pre_keys_ok_networked [simp]: "pre_keys_ok W ns (networked s) = pre_keys_ok W ns s"
  by (simp add: pre_keys_ok_def)

lemma generate_keeps:
  assumes "library_ok W" "generate_key W ns b s = Inr (k, s')" "counter_at s ns + 1 < 2 ^ 32"
    and "pre_keys_ok W ns s"
  shows "pre_keys_ok W ns s'" and "counter_at s' ns = counter_at s ns + 1"
    and "unat (pk_id k) = counter_at s ns + 1"
    and "pre_key_at W s' ns (pk_id k) = Some \<lparr>pr_key = k, pr_uploaded = b\<rparr>"
    and "unat i \<le> counter_at s ns \<Longrightarrow> pre_key_at W s' ns i = pre_key_at W s ns i"
    and "network_sorted s \<Longrightarrow> network_sorted s'"
proof -
  obtain n where n: "unat n = counter_at s ns + 1" and k: "k = wl_new_key W n"
    and s': "s' = set_row (wa_key ns ''meta'' ''prekey'') (Some (JText (JNum (uint n))))
      (set_row (wa_key ns ''prekey'' (pre_key_name n))
        (Some (JText (enc_pre_key W \<lparr>pr_key = k, pr_uploaded = b\<rparr>))) s)"
    using generate_key_Inr [OF assms(2,3)] by blast
  have kid: "pk_id k = n" using assms(1) by (simp add: k library_ok_def)
  show "counter_at s' ns = counter_at s ns + 1" "unat (pk_id k) = counter_at s ns + 1"
    by (simp_all add: s' n kid)
  show "pre_keys_ok W ns s'"
    using assms(1,4) kid n by (fastforce simp: pre_keys_ok_def s')
  show "pre_key_at W s' ns (pk_id k) = Some \<lparr>pr_key = k, pr_uploaded = b\<rparr>"
    using assms(1) by (simp add: pre_key_at_def s' kid)
  show "unat i \<le> counter_at s ns \<Longrightarrow> pre_key_at W s' ns i = pre_key_at W s ns i"
    using n by (auto simp: pre_key_at_def s')
  show "network_sorted s \<Longrightarrow> network_sorted s'" by (simp add: s')
qed

text \<open>Keys made one after the other.\<close>

lemma generate_keys_keep:
  assumes "library_ok W" and "generate_keys W ns m out s = Inr (ks, s')"
    and "counter_at s ns + m < 2 ^ 32" and "pre_keys_ok W ns s"
  shows "\<exists>new. ks = out @ new \<and> map (unat \<circ> pk_id) new = [counter_at s ns + 1..<counter_at s ns + 1 + m] \<and>
    (\<forall>k \<in> set new. pre_key_at W s' ns (pk_id k) = Some \<lparr>pr_key = k, pr_uploaded = False\<rparr>) \<and>
    (\<forall>i. unat i \<le> counter_at s ns \<longrightarrow> pre_key_at W s' ns i = pre_key_at W s ns i) \<and>
    pre_keys_ok W ns s' \<and> counter_at s' ns = counter_at s ns + m \<and> (network_sorted s \<longrightarrow> network_sorted s')"
  using assms(2-4)
proof (induction m arbitrary: out s)
  case 0
  then show ?case by simp
next
  case (Suc m)
  obtain k t where k: "generate_key W ns False s = Inr (k, t)" and rest: "generate_keys W ns m (out @ [k]) t = Inr (ks, s')"
    using Suc.prems(1) by (auto simp: bind_tx_Inr)
  have room: "counter_at s ns + 1 < 2 ^ 32" using Suc.prems(2) by simp
  note made = generate_keeps [OF assms(1) k room Suc.prems(3)]
  have "counter_at t ns + m < 2 ^ 32" using made(2) Suc.prems(2) by simp
  from Suc.IH [OF rest this made(1)] obtain new where new: "ks = (out @ [k]) @ new"
    "map (unat \<circ> pk_id) new = [counter_at t ns + 1..<counter_at t ns + 1 + m]"
    "\<forall>k \<in> set new. pre_key_at W s' ns (pk_id k) = Some \<lparr>pr_key = k, pr_uploaded = False\<rparr>"
    "\<forall>i. unat i \<le> counter_at t ns \<longrightarrow> pre_key_at W s' ns i = pre_key_at W t ns i"
    "pre_keys_ok W ns s'" "counter_at s' ns = counter_at t ns + m" "network_sorted t \<longrightarrow> network_sorted s'"
    by blast
  have "pre_key_at W s' ns (pk_id k) = Some \<lparr>pr_key = k, pr_uploaded = False\<rparr>"
    using new(4) made(2-4) by simp
  moreover have "pre_key_at W s' ns i = pre_key_at W s ns i" if "unat i \<le> counter_at s ns" for i
    using that new(4) made(2,5) by simp
  moreover have "map (unat \<circ> pk_id) (k # new) = [counter_at s ns + 1..<counter_at s ns + 1 + Suc m]"
    using new(2) made(2,3) upt_conv_Cons [of "counter_at s ns + 1" "counter_at s ns + 1 + Suc m"]
    by (simp del: upt_Suc)
  ultimately show ?case
    using new(1,3,5-7) made(2,6) by (intro exI [of _ "k # new"] conjI) (simp_all add: comp_def del: upt_Suc)
qed

lemma gen_one_keeps:
  assumes "library_ok W" and "gen_one_pre_key W ns s = Inr (k, s')"
    and "counter_at s ns + 1 < 2 ^ 32" and "pre_keys_ok W ns s"
  shows "pre_keys_ok W ns s'" and "counter_at s' ns = counter_at s ns + 1"
    and "unat (pk_id k) = counter_at s ns + 1"
  using generate_keeps(1-3) [OF assms(1), of ns True "networked s" k s'] assms(2-4)
  by (simp_all add: gen_one_pre_key_def wa_txn_eq)

text \<open>The keys that are still to be uploaded.\<close>

definition fresh_key :: "wa_library \<Rightarrow> payload \<Rightarrow> pre_key option" where
  "fresh_key W p = (case read_pre_key W p of Inl e \<Rightarrow> None
     | Inr r \<Rightarrow> if pr_uploaded r then None else Some (pr_key r))"

lemma fresh_key_Some:
  "fresh_key W p = Some k \<longleftrightarrow> read_pre_key W p = Inr \<lparr>pr_key = k, pr_uploaded = False\<rparr>"
  by (auto simp: fresh_key_def split: sum.splits)

lemma fresh_keys_loop:
  "fresh_keys W rows s = Inr (found, s') \<Longrightarrow>
   s' = s \<and> found = List.map_filter (fresh_key W \<circ> snd) rows"
proof -
  let ?f = "\<lambda>(k :: string, raw) out. bind_tx (lift_tx (unmarshal (dec_pre_key W) raw)) (\<lambda>r.
     case r of (key, True) \<Rightarrow> return_tx out
     | (Some key, False) \<Rightarrow> return_tx (out @ [key])
     | (None, False) \<Rightarrow> fail_tx ErrPanic)"
  have "fold_tx ?f rows acc s = Inr (found, s') \<Longrightarrow>
     s' = s \<and> found = acc @ List.map_filter (fresh_key W \<circ> snd) rows" for acc
  proof (induction rows arbitrary: acc)
    case (Cons row rows)
    obtain i p where row: "row = (i, p)" by (cases row)
    from Cons.prems have "fold_tx ?f rows (acc @ (case fresh_key W p of None \<Rightarrow> [] | Some k \<Rightarrow> [k])) s = Inr (found, s')"
      by (auto simp: row bind_tx_Inr fresh_key_def read_pre_key_def split: bool.splits option.splits)
    from Cons.IH [OF this] show ?case by (auto simp: row List.map_filter_simps split: option.splits)
  qed (simp add: List.map_filter_simps)
  from this [of "[]"] show "fresh_keys W rows s = Inr (found, s') \<Longrightarrow> ?thesis"
    by (simp add: fresh_keys_def)
qed

lemma map_filter_mem: "y \<in> set (List.map_filter f xs) \<longleftrightarrow> (\<exists>x \<in> set xs. f x = Some y)"
  by (induction xs) (auto simp: List.map_filter_simps split: option.splits)

lemma fresh_key_mem:
  "fresh_keys W rows s = Inr (found, s') \<Longrightarrow>
   k \<in> set found \<longleftrightarrow> (\<exists>i p. (i, p) \<in> set rows \<and> read_pre_key W p = Inr \<lparr>pr_key = k, pr_uploaded = False\<rparr>)"
  by (drule fresh_keys_loop) (force simp: map_filter_mem fresh_key_Some)

lemma map_filter_distinct:
  assumes "distinct (map fst rows)"
    and "\<And>i p k. (i, p) \<in> set rows \<Longrightarrow> f p = Some k \<Longrightarrow> i = g (h k)"
  shows "distinct (map h (List.map_filter (f \<circ> snd) rows))"
  using assms
proof (induction rows)
  case (Cons row rows)
  obtain i p where row: "row = (i, p)" by (cases row)
  have IH: "distinct (map h (List.map_filter (f \<circ> snd) rows))" by (rule Cons.IH) (use Cons.prems in auto)
  have "h k \<notin> h ` set (List.map_filter (f \<circ> snd) rows)" if k: "f p = Some k" for k
  proof
    assume "h k \<in> h ` set (List.map_filter (f \<circ> snd) rows)"
    then obtain j q k' where j: "(j, q) \<in> set rows" "f q = Some k'" "h k = h k'"
      by (auto simp: map_filter_mem)
    then have "j = g (h k')" and "i = g (h k)"
      using Cons.prems(2) [of j q k'] Cons.prems(2) [of i p k] k by (simp_all add: row)
    with j(3) have "j = i" by simp
    with j(1) Cons.prems(1) show False by (force simp: row)
  qed
  with IH show ?case by (auto simp: row List.map_filter_simps comp_def split: option.splits)
qed (simp add: List.map_filter_simps)

interpretation lower: strict_weak lower_key
  by unfold_locales (auto simp: lower_key_def)

lemma sort_keys:
  assumes "distinct (map pk_id found)"
  shows "sorted_wrt (<) (map pk_id (sort_by lower_key found))"
proof -
  have "distinct (map pk_id (sort_by lower_key found))"
  proof -
    have "set (map pk_id (sort_by lower_key found)) = set (map pk_id found)"
      "length (map pk_id (sort_by lower_key found)) = length (map pk_id found)" by simp_all
    with assms show ?thesis by (metis card_distinct distinct_card)
  qed
  moreover have "sorted (map pk_id (sort_by lower_key found))"
    using lower.sorted_sort_by [of found] by (simp add: sorted_map lower_key_def not_less)
  ultimately show ?thesis by (simp add: strict_sorted_iff)
qed

lemma get_or_gen_keeps:
  assumes ok: "library_ok W" and run: "get_or_gen_pre_keys W ns n s = Inr (ks, s')"
    and room: "counter_at s ns + unat n < 2 ^ 32" and keys: "pre_keys_ok W ns s" and srt: "network_sorted s"
  shows "length ks = unat n" and "sorted_wrt (<) (map pk_id ks)"
    and "k \<in> set ks \<Longrightarrow> pre_key_at W s' ns (pk_id k) = Some \<lparr>pr_key = k, pr_uploaded = False\<rparr>"
    and "k \<in> set ks \<Longrightarrow> unat (pk_id k) \<le> counter_at s ns \<Longrightarrow>
      pre_key_at W s ns (pk_id k) = Some \<lparr>pr_key = k, pr_uploaded = False\<rparr>"
    and "pre_keys_ok W ns s'" and "counter_at s ns \<le> counter_at s' ns"
    and "counter_at s' ns \<le> counter_at s ns + unat n"
proof -
  define t where "t = networked s"
  obtain rows found where scan: "wa_scan ns ''prekey'' t = Inr (rows, t)"
    and fresh: "fresh_keys W rows t = Inr (found, t)"
    and gen: "generate_keys W ns (unat n - length (take (unat n) (sort_by lower_key found)))
      (take (unat n) (sort_by lower_key found)) t = Inr (ks, s')"
    using run by (auto simp: get_or_gen_pre_keys_def wa_txn_eq bind_tx_Inr Let_def t_def
        dest: wa_scan_state fresh_keys_loop)
  have t: "network_sorted t" "pre_keys_ok W ns t" "counter_at t ns = counter_at s ns"
    using srt keys by (simp_all add: t_def)
  note rows = wa_scan_Inr [OF scan t(1)]
  have kept: "i = pre_key_name (pk_id k)" "unat (pk_id k) \<le> counter_at s ns"
    "pre_key_at W t ns (pk_id k) = Some \<lparr>pr_key = k, pr_uploaded = False\<rparr>"
    if "(i, p) \<in> set rows" "read_pre_key W p = Inr \<lparr>pr_key = k, pr_uploaded = False\<rparr>" for i p k
  proof -
    have at: "row_at t ns ''prekey'' i = Some p" using rows(3) that(1) by simp
    with t(2) that(2) show i: "i = pre_key_name (pk_id k)" and "unat (pk_id k) \<le> counter_at s ns"
      by (fastforce simp: pre_keys_ok_def t(3))+
    show "pre_key_at W t ns (pk_id k) = Some \<lparr>pr_key = k, pr_uploaded = False\<rparr>"
      using at that(2) by (simp add: pre_key_at_def i)
  qed
  let ?old = "take (unat n) (sort_by lower_key found)"
  let ?m = "unat n - length ?old"
  have old: "unat (pk_id k) \<le> counter_at s ns"
    "pre_key_at W t ns (pk_id k) = Some \<lparr>pr_key = k, pr_uploaded = False\<rparr>" if "k \<in> set ?old" for k
  proof -
    have "k \<in> set found" using in_set_takeD [OF that] by simp
    then obtain i p where "(i, p) \<in> set rows" "read_pre_key W p = Inr \<lparr>pr_key = k, pr_uploaded = False\<rparr>"
      using fresh_key_mem [OF fresh] by blast
    from kept(2,3) [OF this] show "unat (pk_id k) \<le> counter_at s ns"
      "pre_key_at W t ns (pk_id k) = Some \<lparr>pr_key = k, pr_uploaded = False\<rparr>" by blast+
  qed
  have "distinct (map pk_id found)"
    unfolding conjunct2 [OF fresh_keys_loop [OF fresh]]
    by (rule map_filter_distinct [OF rows(2)]) (use kept(1) in \<open>auto simp: fresh_key_Some\<close>)
  then have asc: "sorted_wrt (<) (map pk_id ?old)"
    using sort_keys by (metis sorted_wrt_take take_map)
  have "counter_at t ns + ?m < 2 ^ 32" using room t(3) by simp
  from generate_keys_keep [OF ok gen this t(2)] obtain new where
    new: "ks = ?old @ new" "map (unat \<circ> pk_id) new = [counter_at t ns + 1..<counter_at t ns + 1 + ?m]"
    "\<forall>k \<in> set new. pre_key_at W s' ns (pk_id k) = Some \<lparr>pr_key = k, pr_uploaded = False\<rparr>"
    "\<forall>i. unat i \<le> counter_at t ns \<longrightarrow> pre_key_at W s' ns i = pre_key_at W t ns i"
    "pre_keys_ok W ns s'" "counter_at s' ns = counter_at t ns + ?m"
    by blast
  have len: "length new = ?m" using arg_cong [OF new(2), of length] by (simp del: upt_Suc)
  show "length ks = unat n" by (simp add: new(1) len)
  have above: "counter_at s ns < unat (pk_id k)" if "k \<in> set new" for k
  proof -
    have "unat (pk_id k) \<in> set (map (unat \<circ> pk_id) new)" using that by simp
    then show ?thesis unfolding new(2) t(3) by auto
  qed
  have "sorted_wrt (<) (map (unat \<circ> pk_id) new)" unfolding new(2) by (rule sorted_wrt_upt)
  then have "sorted_wrt (<) (map pk_id new)" by (simp add: sorted_wrt_map word_less_nat_alt)
  then show "sorted_wrt (<) (map pk_id ks)"
    using asc above old(1) by (fastforce simp: new(1) sorted_wrt_append word_less_nat_alt)
  show "k \<in> set ks \<Longrightarrow> pre_key_at W s' ns (pk_id k) = Some \<lparr>pr_key = k, pr_uploaded = False\<rparr>"
    using old new(1,3,4) t(3) by auto
  show "k \<in> set ks \<Longrightarrow> unat (pk_id k) \<le> counter_at s ns \<Longrightarrow>
      pre_key_at W s ns (pk_id k) = Some \<lparr>pr_key = k, pr_uploaded = False\<rparr>"
    using old(2) above new(1) by (fastforce simp: pre_key_at_def t_def)
  show "pre_keys_ok W ns s'" by (fact new(5))
  show "counter_at s ns \<le> counter_at s' ns" "counter_at s' ns \<le> counter_at s ns + unat n"
    using new(6) t(3) by simp_all
qed

lemma for_tx_keeps:
  assumes "for_tx f xs s = Inr (u, s')" and "I s"
    and "\<And>x s u s'. x \<in> set xs \<Longrightarrow> I s \<Longrightarrow> f x s = Inr (u, s') \<Longrightarrow> I s'"
  shows "I s'"
  using assms
proof (induction xs arbitrary: s)
  case (Cons x xs)
  then obtain v t where f: "f x s = Inr (v, t)" and rest: "for_tx f xs t = Inr (u, s')"
    by (auto simp: then_tx_Inr)
  show ?case by (rule Cons.IH [OF rest]) (use Cons.prems f in auto)
qed simp

definition keys_state :: "wa_library \<Rightarrow> string \<Rightarrow> nat \<Rightarrow> store \<Rightarrow> bool" where
  "keys_state W ns c s \<longleftrightarrow> network_sorted s \<and> pre_keys_ok W ns s \<and> counter_at s ns = c"

lemma mark_uploaded_keeps:
  assumes ok: "library_ok W" and run: "mark_uploaded W ns i s = Inr (u, s')" and st: "keys_state W ns c s"
  shows "keys_state W ns c s'"
proof -
  define t where "t = networked s"
  have t: "keys_state W ns c t" using st by (simp add: t_def keys_state_def)
  obtain rows where scan: "wa_scan ns ''prekey'' t = Inr (rows, t)"
    and loop: "for_tx (\<lambda>(k, raw). bind_tx (lift_tx (read_pre_key W raw)) (\<lambda>r.
      when_tx (pk_id (pr_key r) \<le> i) (wa_put ns ''prekey'' k (enc_pre_key W (r\<lparr>pr_uploaded := True\<rparr>))))) rows t = Inr (u, s')"
    using run by (auto simp: mark_uploaded_def wa_txn_eq bind_tx_Inr t_def dest: wa_scan_state)
  have srt: "network_sorted t" using t by (simp add: keys_state_def)
  show ?thesis
  proof (rule for_tx_keeps [where I = "keys_state W ns c", OF loop t])
    fix x v v' w
    assume x: "x \<in> set rows" and v: "keys_state W ns c v"
      and step: "(case x of (k, raw) \<Rightarrow> bind_tx (lift_tx (read_pre_key W raw)) (\<lambda>r.
        when_tx (pk_id (pr_key r) \<le> i) (wa_put ns ''prekey'' k (enc_pre_key W (r\<lparr>pr_uploaded := True\<rparr>))))) v = Inr (w, v')"
    obtain k raw where kr: "x = (k, raw)" by (cases x)
    have "row_at t ns ''prekey'' k = Some raw" using wa_scan_Inr(3) [OF scan srt] x by (simp add: kr)
    then obtain r where r: "read_pre_key W raw = Inr r" "k = pre_key_name (pk_id (pr_key r))"
      "unat (pk_id (pr_key r)) \<le> c"
      using t by (fastforce simp: keys_state_def pre_keys_ok_def)
    have "v' = v \<or> v' = set_row (wa_key ns ''prekey'' k) (Some (JText (enc_pre_key W (r\<lparr>pr_uploaded := True\<rparr>)))) v"
      using step by (auto simp: kr r(1) bind_tx_Inr when_tx_Inr wa_put_Inr split: if_splits)
    then show "keys_state W ns c v'"
      using v ok r(2,3) by (fastforce simp: keys_state_def pre_keys_ok_def)
  qed
qed

lemma remove_keeps:
  assumes "remove_pre_key ns i s = Inr (u, s')" and "keys_state W ns c s"
  shows "keys_state W ns c s'"
  using assms by (auto simp: remove_pre_key_def wa_del_Inr keys_state_def pre_keys_ok_def)

theorem step_keeps_keys:
  assumes "library_ok W" and "cred_step W ns s s'" and "keys_state W ns c s"
  shows "\<exists>d \<ge> c. keys_state W ns d s'"
proof -
  have sorted: "network_sorted s'"
    using touches_sorted [OF cred_step_touches [OF assms(2)]] assms(3) by (simp add: keys_state_def)
  from assms(2) show ?thesis
  proof (cases rule: keys_of_step)
    case other
    have "row_at s' ns ''meta'' i = row_at s ns ''meta'' i" "row_at s' ns ''prekey'' i = row_at s ns ''prekey'' i" for i
      using touches_row [OF other] by (simp_all add: all_kinds_def)
    then have "keys_state W ns c s'" using assms(3) sorted by (auto simp: keys_state_def pre_keys_ok_def counter_at_def)
    then show ?thesis by blast
  next
    case (generated k)
    with gen_one_keeps [OF assms(1) generated] assms(3) sorted show ?thesis
      by (auto simp: keys_state_def)
  next
    case (filled n ks)
    with get_or_gen_keeps(5,6) [OF assms(1) filled] assms(3) sorted show ?thesis
      by (auto simp: keys_state_def)
  next
    case gone
    then show ?thesis using remove_keeps assms(3) by blast
  next
    case uploaded
    then show ?thesis using mark_uploaded_keeps [OF assms(1)] assms(3) by blast
  next
    case (salt v)
    then have "keys_state W ns c s'" using assms(3) sorted by (auto simp: keys_state_def pre_keys_ok_def)
    then show ?thesis by blast
  qed
qed

lemma steps_keep_keys:
  assumes "library_ok W" and "cred_steps W ns s s'" and "keys_state W ns c s"
  shows "\<exists>d \<ge> c. keys_state W ns d s'"
  using assms(2) unfolding cred_steps_def
proof (induction rule: rtranclp_induct)
  case base
  then show ?case using assms(3) by blast
next
  case (step t u)
  then show ?case using step_keeps_keys [OF assms(1) step(2)] by (meson order.trans)
qed

section \<open>The mapping of identities\<close>

definition settled :: "wa_library \<Rightarrow> jid \<Rightarrow> bool" where
  "settled W j \<longleftrightarrow> wl_plain W j = j \<and> \<not> wl_empty W j"

definition jid_row :: "wa_library \<Rightarrow> jid \<Rightarrow> payload" where
  "jid_row W j = JText (enc_of (wl_jid W) j)"

text \<open>Each row of one table has its counterpart in the other.\<close>

definition paired :: "wa_library \<Rightarrow> server \<Rightarrow> server \<Rightarrow> (string \<rightharpoonup> payload) \<Rightarrow> (string \<rightharpoonup> payload) \<Rightarrow> bool" where
  "paired W sj sk A B \<longleftrightarrow> (\<forall>i p. A i = Some p \<longrightarrow> (\<exists>j k. p = jid_row W j \<and> settled W j \<and> ji_server j = sj \<and>
     settled W k \<and> ji_server k = sk \<and> wl_string W k = i \<and> B (wl_string W j) = Some (jid_row W k)))"

definition half_ok :: "wa_library \<Rightarrow> string \<Rightarrow> string \<Rightarrow> string \<Rightarrow> server \<Rightarrow> server \<Rightarrow> store \<Rightarrow> bool" where
  "half_ok W ns a b sj sk s \<longleftrightarrow> paired W sj sk (row_at s ns a) (row_at s ns b)"

definition lids_ok :: "wa_library \<Rightarrow> string \<Rightarrow> store \<Rightarrow> bool" where
  "lids_ok W ns s \<longleftrightarrow> half_ok W ns ''lid'' ''pn'' Default_server Hidden_server s \<and>
     half_ok W ns ''pn'' ''lid'' Hidden_server Default_server s"

lemma jid_row_inject [simp]: "library_ok W \<Longrightarrow> jid_row W i = jid_row W j \<longleftrightarrow> i = j"
  by (metis codec_ok_def jid_row_def library_ok_def option.inject payload.inject(1))

lemma unmarshal_jid_row [simp]: "library_ok W \<Longrightarrow> unmarshal (dec_of (wl_jid W)) (jid_row W j) = Inr j"
  by (simp add: jid_row_def library_ok_def codec_ok_def)

lemma normalize_plain: "library_ok W \<Longrightarrow> wl_plain W (normalize_jid W j) = normalize_jid W j"
  by (auto simp: normalize_jid_def Let_def library_ok_def jids_ok_def split: server.splits)

lemma normalize_twice [simp]: "library_ok W \<Longrightarrow> normalize_jid W (normalize_jid W j) = normalize_jid W j"
proof -
  assume ok: "library_ok W"
  have srv: "ji_server (normalize_jid W j) \<notin> {Legacy_server, Hosted_server, Hosted_lid_server}"
    using ok by (auto simp: normalize_jid_def Let_def library_ok_def jids_ok_def split: server.splits)
  then show ?thesis
    unfolding normalize_jid_def [of W "normalize_jid W j"] Let_def normalize_plain [OF ok]
    by (auto split: server.splits)
qed

lemma settled_device: "library_ok W \<Longrightarrow> settled W j \<Longrightarrow> ji_device j = 0"
  unfolding settled_def library_ok_def jids_ok_def by metis

lemma normalize_settled:
  "library_ok W \<Longrightarrow> ji_server (normalize_jid W j) \<in> {Default_server, Hidden_server} \<Longrightarrow>
   settled W (normalize_jid W j)"
  using normalize_plain [of W j] by (auto simp: settled_def library_ok_def jids_ok_def)

lemma mapped_jid_Inr:
  assumes ok: "library_ok W" and half: "half_ok W ns kind kind' sj sk s"
    and run: "mapped_jid W ns kind j s = Inr (x, s')" and dev: "ji_device j = 0"
  shows "s' = s" and "row_at s ns kind (wl_string W (normalize_jid W j)) =
    (if wl_empty W x then None else Some (jid_row W x))"
    and "\<not> wl_empty W x \<Longrightarrow> settled W x \<and> ji_server x = sj"
proof -
  let ?i = "wl_string W (normalize_jid W j)"
  obtain v where v: "wa_get ns kind ?i (dec_of (wl_jid W)) s = Inr (v, s')"
    and x: "x = (let y = (case v of None \<Rightarrow> empty_jid | Some y \<Rightarrow> y) in
      if \<not> wl_empty W y then y\<lparr>ji_device := ji_device j\<rparr> else y)"
    using run by (auto simp: mapped_jid_def Let_def bind_tx_Inr)
  show "s' = s" using wa_get_state [OF v] .
  have empty: "wl_empty W empty_jid" using ok by (simp add: library_ok_def jids_ok_def empty_jid_def)
  show "row_at s ns kind ?i = (if wl_empty W x then None else Some (jid_row W x))"
    "\<not> wl_empty W x \<Longrightarrow> settled W x \<and> ji_server x = sj"
  proof -
    have "row_at s ns kind ?i = (if wl_empty W x then None else Some (jid_row W x)) \<and>
      (\<not> wl_empty W x \<longrightarrow> settled W x \<and> ji_server x = sj)"
    proof (cases "row_at s ns kind ?i")
      case None
      then show ?thesis using wa_get_Inr [OF v] empty by (simp add: x)
    next
      case (Some p)
      then obtain y where y: "p = jid_row W y" "settled W y" "ji_server y = sj"
        using half unfolding half_ok_def paired_def by blast
      have "v = Some y" using wa_get_Inr [OF v] Some ok by (simp add: y(1))
      moreover have "y\<lparr>ji_device := 0\<rparr> = y" using settled_device [OF ok y(2)] by (cases y) simp
      ultimately show ?thesis using Some y(2,3) dev by (simp add: x y(1) settled_def Let_def)
    qed
    then show "row_at s ns kind ?i = (if wl_empty W x then None else Some (jid_row W x))"
      "\<not> wl_empty W x \<Longrightarrow> settled W x \<and> ji_server x = sj" by blast+
  qed
qed

lemma paired_update:
  assumes ok: "library_ok W" and AB: "paired W sj sk A B" and l: "settled W l" "ji_server l = sk"
    and q: "settled W q" "ji_server q = sj"
    and A: "A (wl_string W l) = (if wl_empty W oq then None else Some (jid_row W oq))"
    and B: "B (wl_string W q) = (if wl_empty W ol then None else Some (jid_row W ol))"
  shows "paired W sj sk
    (\<lambda>k. if k = wl_string W l then Some (jid_row W q)
      else if \<not> wl_empty W ol \<and> ol \<noteq> l \<and> k = wl_string W ol then None else A k)
    (\<lambda>k. if k = wl_string W q then Some (jid_row W l)
      else if \<not> wl_empty W oq \<and> oq \<noteq> q \<and> k = wl_string W oq then None else B k)"
    (is "paired W sj sk ?A ?B")
  unfolding paired_def
proof (intro allI impI)
  fix i p
  assume at: "?A i = Some p"
  show "\<exists>j k. p = jid_row W j \<and> settled W j \<and> ji_server j = sj \<and> settled W k \<and> ji_server k = sk \<and> wl_string W k = i \<and>
      ?B (wl_string W j) = Some (jid_row W k)"
  proof (cases "i = wl_string W l")
    case True
    with at l q show ?thesis by (intro exI [of _ q] exI [of _ l]) simp
  next
    case False
    with at have Ai: "A i = Some p" and kept: "\<not> (\<not> wl_empty W ol \<and> ol \<noteq> l \<and> i = wl_string W ol)"
      by (auto split: if_splits)
    from Ai AB obtain j k where jk: "p = jid_row W j" "settled W j" "settled W k" "wl_string W k = i"
      "B (wl_string W j) = Some (jid_row W k)" "ji_server j = sj" "ji_server k = sk"
      unfolding paired_def by blast
    have "wl_string W j \<noteq> wl_string W q"
    proof
      assume "wl_string W j = wl_string W q"
      with jk(5) B have "\<not> wl_empty W ol" "jid_row W ol = jid_row W k" by (auto split: if_splits)
      with kept jk(4) False ok show False by auto
    qed
    moreover have "\<not> (\<not> wl_empty W oq \<and> oq \<noteq> q \<and> wl_string W j = wl_string W oq)"
    proof
      assume o: "\<not> wl_empty W oq \<and> oq \<noteq> q \<and> wl_string W j = wl_string W oq"
      with A have "A (wl_string W l) = Some (jid_row W oq)" by simp
      then obtain k' where "wl_string W k' = wl_string W l" "B (wl_string W oq) = Some (jid_row W k')"
        using AB ok unfolding paired_def by (metis jid_row_inject)
      with o jk(4,5) False ok show False by simp
    qed
    ultimately show ?thesis using jk by (intro exI [of _ j] exI [of _ k]) auto
  qed
qed

lemma put_lid_mapping_Inr:
  assumes ok: "library_ok W" and run: "put_lid_mapping W ns lid0 pn0 s = Inr (u, s')"
    and lids: "lids_ok W ns s"
    and srv: "ji_server (normalize_jid W lid0) = Hidden_server" "ji_server (normalize_jid W pn0) = Default_server"
  shows "lids_ok W ns s'"
    and "row_at s' ns ''lid'' (wl_string W (normalize_jid W lid0)) = Some (jid_row W (normalize_jid W pn0))"
    and "row_at s' ns ''pn'' (wl_string W (normalize_jid W pn0)) = Some (jid_row W (normalize_jid W lid0))"
proof -
  define l where "l = normalize_jid W lid0"
  define q where "q = normalize_jid W pn0"
  define t where "t = networked s"
  have lids_t: "half_ok W ns ''lid'' ''pn'' Default_server Hidden_server t"
    "half_ok W ns ''pn'' ''lid'' Hidden_server Default_server t"
    using lids by (simp_all add: lids_ok_def half_ok_def t_def)
  have set: "settled W l" "settled W q" using srv normalize_settled [OF ok] by (simp_all add: l_def q_def)
  then have pl: "wl_plain W l = l" "wl_plain W q = q" by (simp_all add: settled_def)
  have dev: "ji_device l = 0" "ji_device q = 0" using settled_device [OF ok] set by simp_all
  let ?drop_pn = "\<lambda>oq. when_tx (\<not> wl_empty W oq \<and> oq \<noteq> q) (wa_del ns ''pn'' (wl_string W oq))"
  let ?drop_lid = "\<lambda>ol. when_tx (\<not> wl_empty W ol \<and> ol \<noteq> l) (wa_del ns ''lid'' (wl_string W ol))"
  let ?puts = "then_tx (wa_put ns ''lid'' (wl_string W l) (enc_of (wl_jid W) q))
    (wa_put ns ''pn'' (wl_string W q) (enc_of (wl_jid W) l))"
  have "bind_tx (pn_for_lid W ns l) (\<lambda>oq. bind_tx (lid_for_pn W ns q) (\<lambda>ol.
      then_tx (?drop_pn oq) (then_tx (?drop_lid ol) ?puts))) t = Inr (u, s')"
    using run srv by (simp add: put_lid_mapping_def Let_def wa_txn_eq t_def l_def [symmetric]
        q_def [symmetric] plain_name_def pl)
  then obtain oq ol t1 t2 where oq1: "mapped_jid W ns ''lid'' l t = Inr (oq, t1)"
    and ol1: "mapped_jid W ns ''pn'' q t1 = Inr (ol, t2)"
    and rest: "then_tx (?drop_pn oq) (then_tx (?drop_lid ol) ?puts) t2 = Inr (u, s')"
    unfolding bind_tx_Inr pn_for_lid_def lid_for_pn_def by blast
  from mapped_jid_Inr(1) [OF ok lids_t(1) oq1 dev(1)] have t1: "t1 = t" .
  note oq = oq1 [unfolded t1]
  from mapped_jid_Inr(1) [OF ok lids_t(2) ol1 [unfolded t1] dev(2)] have t2: "t2 = t" .
  note ol = ol1 [unfolded t1 t2]
  have s': "s' = set_row (wa_key ns ''pn'' (wl_string W q)) (Some (jid_row W l))
      (set_row (wa_key ns ''lid'' (wl_string W l)) (Some (jid_row W q))
      ((if \<not> wl_empty W ol \<and> ol \<noteq> l then set_row (wa_key ns ''lid'' (wl_string W ol)) None else id)
      ((if \<not> wl_empty W oq \<and> oq \<noteq> q then set_row (wa_key ns ''pn'' (wl_string W oq)) None else id) t)))"
  proof -
    obtain t3 t4 where d1: "?drop_pn oq t = Inr ((), t3)" and d2: "?drop_lid ol t3 = Inr ((), t4)"
      and p: "?puts t4 = Inr (u, s')"
      using rest unfolding t2 then_tx_Inr by auto
    have "t3 = (if \<not> wl_empty W oq \<and> oq \<noteq> q then set_row (wa_key ns ''pn'' (wl_string W oq)) None else id) t"
      using d1 by (cases "wl_empty W oq"; cases "wl_empty W ol") (auto simp: when_tx_Inr wa_del_Inr split: if_splits)
    moreover have "t4 = (if \<not> wl_empty W ol \<and> ol \<noteq> l then set_row (wa_key ns ''lid'' (wl_string W ol)) None else id) t3"
      using d2 by (cases "wl_empty W oq"; cases "wl_empty W ol") (auto simp: when_tx_Inr wa_del_Inr split: if_splits)
    moreover have "s' = set_row (wa_key ns ''pn'' (wl_string W q)) (Some (jid_row W l))
        (set_row (wa_key ns ''lid'' (wl_string W l)) (Some (jid_row W q)) t4)"
      using p by (simp add: then_tx_Inr wa_put_Inr jid_row_def)
    ultimately show ?thesis by (simp only:)
  qed
  note mq = mapped_jid_Inr(2) [OF ok lids_t(1) oq dev(1)] and ml = mapped_jid_Inr(2) [OF ok lids_t(2) ol dev(2)]
  have norm: "normalize_jid W l = l" "normalize_jid W q = q" using ok by (simp_all add: l_def q_def)
  have rows: "row_at s' ns ''lid'' = (\<lambda>k. if k = wl_string W l then Some (jid_row W q)
      else if \<not> wl_empty W ol \<and> ol \<noteq> l \<and> k = wl_string W ol then None else row_at t ns ''lid'' k)"
    "row_at s' ns ''pn'' = (\<lambda>k. if k = wl_string W q then Some (jid_row W l)
      else if \<not> wl_empty W oq \<and> oq \<noteq> q \<and> k = wl_string W oq then None else row_at t ns ''pn'' k)"
    by (auto simp: s' fun_eq_iff)
  show "lids_ok W ns s'"
    unfolding lids_ok_def half_ok_def rows
    by (intro conjI paired_update ok set)
      (use lids_t mq ml norm srv in \<open>auto simp: half_ok_def l_def q_def\<close>)
  show "row_at s' ns ''lid'' (wl_string W (normalize_jid W lid0)) = Some (jid_row W (normalize_jid W pn0))"
    "row_at s' ns ''pn'' (wl_string W (normalize_jid W pn0)) = Some (jid_row W (normalize_jid W lid0))"
    by (simp_all add: rows l_def q_def)
qed

lemma put_lid_mapping_keeps:
  assumes "library_ok W" and "put_lid_mapping W ns lid pn s = Inr (u, s')" and "lids_ok W ns s"
  shows "lids_ok W ns s'"
proof (cases "ji_server (normalize_jid W lid) = Hidden_server \<and> ji_server (normalize_jid W pn) = Default_server")
  case True
  with put_lid_mapping_Inr(1) [OF assms] show ?thesis by blast
next
  case False
  with assms(2,3) show ?thesis by (auto simp: put_lid_mapping_def Let_def split: if_splits)
qed

lemma step_keeps_lids:
  assumes "library_ok W" and "cred_step W ns s s'" and "lids_ok W ns s"
  shows "lids_ok W ns s'"
  using assms(2)
proof (cases rule: lids_of_step)
  case other
  have "row_at s' ns ''lid'' = row_at s ns ''lid''" "row_at s' ns ''pn'' = row_at s ns ''pn''"
    using touches_row [OF other] by (simp_all add: all_kinds_def fun_eq_iff)
  with assms(3) show ?thesis by (simp add: lids_ok_def half_ok_def)
next
  case mapping
  then show ?thesis using put_lid_mapping_keeps assms(1,3) by blast
next
  case (mappings ms u)
  then have "for_tx (\<lambda>(lid, pn). put_lid_mapping W ns lid pn) ms (networked s) = Inr (u, s')"
    by (simp add: put_many_lid_mappings_def wa_txn_eq)
  then show ?thesis
  proof (rule for_tx_keeps [where I = "lids_ok W ns"])
    show "lids_ok W ns (networked s)" using assms(3) by (simp add: lids_ok_def half_ok_def)
  qed (auto intro: put_lid_mapping_keeps [OF assms(1)])
qed

lemma steps_keep_lids:
  assumes "library_ok W" and "cred_steps W ns s s'" and "lids_ok W ns s"
  shows "lids_ok W ns s'"
  using assms(2,3) unfolding cred_steps_def
  by (induction rule: rtranclp_induct) (auto intro: step_keeps_lids [OF assms(1)])

section \<open>Message secrets\<close>

definition secret_at :: "wa_library \<Rightarrow> store \<Rightarrow> string \<Rightarrow> jid \<Rightarrow> jid \<Rightarrow> string \<Rightarrow> payload option" where
  "secret_at W s ns c u i = row_at s ns ''msgsecret'' (secret_name W c u i)"

lemma put_secret_keeps:
  "put_message_secret W ns c w i secret s = Inr (u, s') \<Longrightarrow> row_at s ns ''msgsecret'' k = Some p \<Longrightarrow>
   row_at s' ns ''msgsecret'' k = Some p"
proof -
  let ?k = "secret_name W (wl_plain W c) (wl_plain W w) i"
  assume run: "put_message_secret W ns c w i secret s = Inr (u, s')" and at: "row_at s ns ''msgsecret'' k = Some p"
  then obtain old v where get0: "wa_get ns ''msgsecret'' ?k as_bytes (networked s) = Inr (old, v)"
    and rest: "(if old \<noteq> None then return_tx () else wa_put ns ''msgsecret'' ?k (jbytes (Some secret))) v = Inr (u, s')"
    unfolding put_message_secret_def Let_def wa_txn_eq bind_tx_Inr by blast
  have s0: "old \<noteq> None \<and> s' = v \<or>
      old = None \<and> s' = set_row (wa_key ns ''msgsecret'' ?k) (Some (JText (jbytes (Some secret)))) v"
    using rest by (auto simp: wa_put_Inr split: if_splits)
  from wa_get_state [OF get0] have v: "v = networked s" .
  note get = get0 [unfolded v] and s' = s0 [unfolded v]
  show "row_at s' ns ''msgsecret'' k = Some p"
  proof (cases old)
    case None
    with wa_get_None [of ns "''msgsecret''" ?k as_bytes "networked s" "networked s"] get
    have "row_at s ns ''msgsecret'' ?k = None" by simp
    with at have "k \<noteq> ?k" by auto
    with s' at None show ?thesis by simp
  qed (use s' at in simp)
qed

lemma step_keeps_secrets:
  assumes "cred_step W ns s s'" and "row_at s ns ''msgsecret'' k = Some p"
  shows "row_at s' ns ''msgsecret'' k = Some p"
  using assms(1)
proof (cases rule: secrets_of_step)
  case other
  with assms(2) show ?thesis using touches_row [OF other] by (simp add: all_kinds_def)
next
  case secret
  then show ?thesis using put_secret_keeps assms(2) by blast
next
  case (secrets entries u)
  then have "for_tx (\<lambda>(c, w, i, secret). put_message_secret W ns c w i secret) entries (networked s) = Inr (u, s')"
    by (simp add: put_message_secrets_def wa_txn_eq)
  then show ?thesis
  proof (rule for_tx_keeps [where I = "\<lambda>s. row_at s ns ''msgsecret'' k = Some p"])
    show "row_at (networked s) ns ''msgsecret'' k = Some p" using assms(2) by simp
  qed (auto intro: put_secret_keeps)
qed

lemma steps_keep_secrets:
  assumes "cred_steps W ns s s'" and "row_at s ns ''msgsecret'' k = Some p"
  shows "row_at s' ns ''msgsecret'' k = Some p"
  using assms unfolding cred_steps_def
  by (induction rule: rtranclp_induct) (auto intro: step_keeps_secrets)

section \<open>Moving to hidden identities\<close>

definition moved_rows :: "string \<Rightarrow> string \<Rightarrow> (string \<rightharpoonup> payload) \<Rightarrow> (string \<rightharpoonup> payload) \<Rightarrow> (string \<rightharpoonup> payload)" where
  "moved_rows p l moving rows k =
     (if prefix (p @ '':'') k \<and> moving k \<noteq> None then None
      else if prefix (l @ '':'') k \<and> moving (p @ drop (length l) k) \<noteq> None then moving (p @ drop (length l) k)
      else rows k)"

lemma other_address:
  assumes "plain_name_part p" "plain_name_part l" "p \<noteq> l" and "prefix (p @ '':'') k"
  shows "\<not> prefix (l @ '':'') k"
  using assms split_at_colon [OF assms(1,2)] by (auto simp: prefix_def)

lemma move_row_Inr:
  assumes "move_row W ns pn lid kind (k, v) s = Inr (u, s')" and "kind \<noteq> ''sender''"
    and parts: "plain_name_part (wl_signal W pn)" "plain_name_part (wl_signal W lid)" "wl_signal W pn \<noteq> wl_signal W lid"
  shows "s' = (if prefix (wl_signal W pn @ '':'') k
    then set_row (wa_key ns kind k) None (set_row (wa_key ns kind (wl_signal W lid @ drop (length (wl_signal W pn)) k)) (Some v) s)
    else s)"
proof (cases "prefix (wl_signal W pn @ '':'') k")
  case True
  then obtain d where k: "k = wl_signal W pn @ CHR '':'' # d" by (auto simp: prefix_def)
  have "wl_signal W lid @ CHR '':'' # d \<noteq> k"
    unfolding k using split_at_colon [OF parts(2,1)] parts(3) by auto
  with assms(1,2) True show ?thesis
    by (auto simp: k move_row_def moved_key_def moved_name_def bind_tx_Inr then_tx_Inr network_txn_put
        wa_del_Inr split: if_splits)
next
  case False
  with assms(1,2) show ?thesis by (auto simp: move_row_def moved_key_def moved_name_def bind_tx_Inr)
qed

lemma move_rows_Inr:
  assumes "for_tx (move_row W ns pn lid kind) rows s = Inr (u, s')" and "kind \<noteq> ''sender''"
    and parts: "plain_name_part (wl_signal W pn)" "plain_name_part (wl_signal W lid)" "wl_signal W pn \<noteq> wl_signal W lid"
    and "distinct (map fst rows)"
  shows "row_at s' ns kind = moved_rows (wl_signal W pn) (wl_signal W lid) (map_of rows) (row_at s ns kind)"
  using assms(1,6)
proof (induction rows arbitrary: s)
  case Nil
  then show ?case by (simp add: moved_rows_def fun_eq_iff)
next
  case (Cons row rows)
  obtain k v where row: "row = (k, v)" by (cases row)
  obtain w t where one: "move_row W ns pn lid kind (k, v) s = Inr (w, t)"
    and rest: "for_tx (move_row W ns pn lid kind) rows t = Inr (u, s')"
    using Cons.prems(1) by (auto simp: row then_tx_Inr)
  note t = move_row_Inr [OF one assms(2) parts]
  have IH: "row_at s' ns kind = moved_rows (wl_signal W pn) (wl_signal W lid) (map_of rows) (row_at t ns kind)"
    by (rule Cons.IH [OF rest]) (use Cons.prems(2) in simp)
  have new: "map_of rows k = None" using Cons.prems(2) by (simp add: row map_of_eq_None_iff)
  show ?case
  proof (cases "prefix (wl_signal W pn @ '':'') k")
    case True
    then obtain d where k: "k = wl_signal W pn @ CHR '':'' # d" by (auto simp: prefix_def)
    have apart: "\<not> prefix (wl_signal W lid @ '':'') k" by (rule other_address [OF parts True])
    have apart': "\<not> prefix (wl_signal W pn @ '':'') (wl_signal W lid @ CHR '':'' # d)"
      by (rule other_address [OF parts(2,1) parts(3) [symmetric]]) simp
    let ?p = "wl_signal W pn" and ?l = "wl_signal W lid"
    show ?thesis
    proof (rule ext)
      fix x
      consider (p) e where "x = ?p @ CHR '':'' # e" | (l) e where "x = ?l @ CHR '':'' # e"
        | (n) "\<not> prefix (?p @ '':'') x" "\<not> prefix (?l @ '':'') x"
        by (auto simp: prefix_def)
      then show "row_at s' ns kind x = moved_rows ?p ?l (map_of (row # rows)) (row_at s ns kind) x"
      proof cases
        case p
        have "\<not> prefix (?l @ '':'') x" by (rule other_address [OF parts]) (simp add: p)
        with t True apart' new show ?thesis by (auto simp: IH moved_rows_def row k p split_at_colon [OF parts(1,2)] parts(3))
      next
        case l
        have "\<not> prefix (?p @ '':'') x"
          by (rule other_address [OF parts(2,1) parts(3) [symmetric]]) (simp add: l)
        with t True apart' new show ?thesis
          by (auto simp: IH moved_rows_def row k l split_at_colon [OF parts(2,1)] parts(3) [symmetric])
      next
        case n
        with t True have "x \<noteq> k" "x \<noteq> ?l @ CHR '':'' # d" by (auto simp: prefix_def)
        with t True n show ?thesis by (simp add: IH moved_rows_def row k)
      qed
    qed
  next
    case False
    let ?p = "wl_signal W pn" and ?l = "wl_signal W lid"
    have "t = s" using t False by simp
    moreover have same: "map_of (row # rows) x = map_of rows x" if "prefix (?p @ '':'') x" for x
      using that False by (auto simp: row)
    moreover have "map_of (row # rows) (?p @ drop (length ?l) x) = map_of rows (?p @ drop (length ?l) x)"
      if "prefix (?l @ '':'') x" for x
      by (rule same) (use that in \<open>auto simp: prefix_def\<close>)
    ultimately show ?thesis
      by (simp add: IH moved_rows_def fun_eq_iff cong: if_cong conj_cong del: map_of.simps)
  qed
qed

end
