(* ===== verification/WaContent.thy ===== *)
theory WaContent
  imports WaSystem Requests
begin

text \<open>
  Message bodies of the WhatsApp protocol and what the bridge shows of them
  (\<open>internal/whatsapp/display.go\<close> and the first part of \<open>events.go\<close>).  The protobuf types are
  third-party; \<open>wa_message\<close> has the fields the code reads, and \<open>wm_rest\<close> for the others.  A wrapper
  is \<open>None\<close> when its field is nil and \<open>Some None\<close> when the message inside it is.
\<close>

section \<open>Bodies\<close>

record wa_media =
  md_mime :: string
  md_caption :: string
  md_file_name :: string
  md_length :: u64

datatype protocol_kind = Revoke | Message_edit | Other_protocol

record message_key =
  mk_remote :: string
  mk_from_me :: bool
  mk_id :: string
  mk_participant :: "string option"

record wa_body =
  bd_conversation :: string
  bd_extended :: "string option"
  bd_image :: "wa_media option"
  bd_video :: "wa_media option"
  bd_audio :: "wa_media option"
  bd_document :: "wa_media option"
  bd_sticker :: "wa_media option"
  bd_contact :: "string option"
  bd_contacts :: bool
  bd_location :: "string option"
  bd_live_location :: bool
  bd_poll :: "string option"
  bd_poll2 :: "string option"
  bd_poll3 :: "string option"
  bd_template :: "(string \<times> string) option"  \<comment> \<open>four-row and plain hydrated text\<close>
  bd_interactive :: "string option"
  bd_interactive_response :: bool
  bd_structured :: bool
  bd_buttons :: "string option"
  bd_buttons_response :: "string option"
  bd_template_reply :: "string option"
  bd_list :: "string option"
  bd_list_response :: "string option"
  bd_invite :: "string option"
  bd_product :: bool
  bd_order :: bool
  bd_event :: "string option"
  bd_reaction :: "(message_key \<times> string) option"
  bd_rest :: string

definition empty_body :: wa_body where
  "empty_body = \<lparr>bd_conversation = [], bd_extended = None, bd_image = None, bd_video = None,
     bd_audio = None, bd_document = None, bd_sticker = None, bd_contact = None, bd_contacts = False,
     bd_location = None, bd_live_location = False, bd_poll = None, bd_poll2 = None, bd_poll3 = None,
     bd_template = None, bd_interactive = None, bd_interactive_response = False, bd_structured = False,
     bd_buttons = None, bd_buttons_response = None, bd_template_reply = None, bd_list = None,
     bd_list_response = None, bd_invite = None, bd_product = False, bd_order = False, bd_event = None,
     bd_reaction = None, bd_rest = []\<rparr>"

datatype wa_message = Wa_message
  (wm_device_sent: "wa_message option option") (wm_ephemeral: "wa_message option option")
  (wm_view_once: "wa_message option option") (wm_view_once_v2: "wa_message option option")
  (wm_view_once_v2x: "wa_message option option") (wm_captioned: "wa_message option option")
  (wm_edited: "wa_message option option")
  (wm_protocol: "(protocol_kind \<times> string \<times> wa_message option) option")  \<comment> \<open>type, key, edited message\<close>
  (wm_body: wa_body)

definition bare_message :: "wa_body \<Rightarrow> wa_message" where
  "bare_message b = Wa_message None None None None None None None None b"

fun unwrap :: "wa_message option \<Rightarrow> wa_message" where
  "unwrap None = bare_message empty_body"
| "unwrap (Some (Wa_message (Some m) e v v2 v2x c ed p b)) = unwrap m"
| "unwrap (Some (Wa_message None (Some m) v v2 v2x c ed p b)) = unwrap m"
| "unwrap (Some (Wa_message None None (Some m) v2 v2x c ed p b)) = unwrap m"
| "unwrap (Some (Wa_message None None None (Some m) v2x c ed p b)) = unwrap m"
| "unwrap (Some (Wa_message None None None None (Some m) c ed p b)) = unwrap m"
| "unwrap (Some (Wa_message None None None None None (Some m) ed p b)) = unwrap m"
| "unwrap (Some (Wa_message None None None None None None (Some m) p b)) = unwrap m"
| "unwrap (Some (Wa_message None None None None None None None p b)) =
     Wa_message None None None None None None None p b"

definition media_size :: "wa_body \<Rightarrow> u64" where
  "media_size b = (case bd_image b of Some m \<Rightarrow> md_length m
     | None \<Rightarrow> (case bd_video b of Some m \<Rightarrow> md_length m
     | None \<Rightarrow> (case bd_audio b of Some m \<Rightarrow> md_length m
     | None \<Rightarrow> (case bd_document b of Some m \<Rightarrow> md_length m
     | None \<Rightarrow> (case bd_sticker b of Some m \<Rightarrow> md_length m | None \<Rightarrow> 0)))))"

definition displayable :: "wa_body \<Rightarrow> bool" where
  "displayable b \<longleftrightarrow> bd_conversation b \<noteq> [] \<or> bd_extended b \<noteq> None \<or>
     bd_image b \<noteq> None \<or> bd_video b \<noteq> None \<or> bd_audio b \<noteq> None \<or> bd_document b \<noteq> None \<or> bd_sticker b \<noteq> None \<or>
     bd_contact b \<noteq> None \<or> bd_contacts b \<or> bd_location b \<noteq> None \<or> bd_live_location b \<or>
     bd_template b \<noteq> None \<or> bd_interactive b \<noteq> None \<or> bd_interactive_response b \<or> bd_structured b \<or>
     bd_buttons b \<noteq> None \<or> bd_buttons_response b \<noteq> None \<or> bd_template_reply b \<noteq> None \<or>
     bd_list b \<noteq> None \<or> bd_list_response b \<noteq> None \<or>
     bd_poll b \<noteq> None \<or> bd_poll2 b \<noteq> None \<or> bd_poll3 b \<noteq> None \<or>
     bd_invite b \<noteq> None \<or> bd_product b \<or> bd_order b \<or> bd_event b \<noteq> None"

text \<open>The cases of a \<open>switch\<close>, tried in order.\<close>

fun first_text :: "(bool \<times> string) list \<Rightarrow> string" where
  "first_text [] = []"
| "first_text ((c, t) # cases) = (if c then t else first_text cases)"

definition text_or :: "string \<Rightarrow> string \<Rightarrow> string" where
  "text_or t other = (if t \<noteq> [] then t else other)"

definition of_some :: "string option \<Rightarrow> string" where
  "of_some x = (case x of None \<Rightarrow> [] | Some t \<Rightarrow> t)"

definition display_text :: "wa_body \<Rightarrow> string" where
  "display_text b = first_text
    [(bd_conversation b \<noteq> [], bd_conversation b),
     (bd_extended b \<noteq> None, of_some (bd_extended b)),
     (bd_contact b \<noteq> None, ''Contact: '' @ of_some (bd_contact b)),
     (bd_contacts b, ''Contacts''),
     (bd_location b \<noteq> None, ''Location: '' @ of_some (bd_location b)),
     (bd_live_location b, ''Live location''),
     (bd_poll b \<noteq> None, ''Poll: '' @ of_some (bd_poll b)),
     (bd_poll2 b \<noteq> None, ''Poll: '' @ of_some (bd_poll2 b)),
     (bd_poll3 b \<noteq> None, ''Poll: '' @ of_some (bd_poll3 b)),
     (bd_template b \<noteq> None, (case bd_template b of None \<Rightarrow> []
        | Some (four, plain) \<Rightarrow> text_or four (text_or plain ''Template message''))),
     (bd_interactive b \<noteq> None, text_or (of_some (bd_interactive b)) ''Interactive message''),
     (bd_interactive_response b, ''Interactive response''),
     (bd_buttons b \<noteq> None, of_some (bd_buttons b)),
     (bd_buttons_response b \<noteq> None, of_some (bd_buttons_response b)),
     (bd_template_reply b \<noteq> None, of_some (bd_template_reply b)),
     (bd_list b \<noteq> None, of_some (bd_list b)),
     (bd_list_response b \<noteq> None, of_some (bd_list_response b)),
     (bd_invite b \<noteq> None, ''Group invitation: '' @ of_some (bd_invite b)),
     (bd_product b, ''Product''),
     (bd_order b, ''Order''),
     (bd_event b \<noteq> None, ''Event: '' @ of_some (bd_event b)),
     (bd_structured b, ''Structured message'')]"

definition chat_supported :: "wa_library \<Rightarrow> jid \<Rightarrow> bool" where
  "chat_supported W j \<longleftrightarrow>
     ji_server (normalize_jid W j) \<in> {Default_server, Hidden_server, Group_server} \<and> ji_user j \<noteq> []"

section \<open>Records\<close>

definition message_id :: "string \<Rightarrow> string \<Rightarrow> string" where
  "message_id chat i = chat @ ''/'' @ i"

fun after_slash :: "string \<Rightarrow> string" where
  "after_slash [] = []"
| "after_slash (c # s) = (if c = CHR ''/'' then s else after_slash s)"

definition message_remote_id :: "string \<Rightarrow> string" where
  "message_remote_id i = after_slash i"

text \<open>\<open>sha\<close> is SHA-256 in hexadecimal.\<close>

definition attachment_id :: "(string \<Rightarrow> string) \<Rightarrow> string \<Rightarrow> string \<Rightarrow> string" where
  "attachment_id sha chat i = sha (''whatsapp:'' @ chat @ '':'' @ i)"

text \<open>The media of a body: MIME type, text and name.\<close>

definition media_of :: "wa_body \<Rightarrow> string \<Rightarrow> string \<times> string \<times> string" where
  "media_of b text = (case bd_image b of Some m \<Rightarrow> (md_mime m, md_caption m, ''image'')
     | None \<Rightarrow> (case bd_video b of Some m \<Rightarrow> (md_mime m, md_caption m, ''video'')
     | None \<Rightarrow> (case bd_audio b of Some m \<Rightarrow> (md_mime m, text, ''audio'')
     | None \<Rightarrow> (case bd_document b of Some m \<Rightarrow> (md_mime m, md_caption m, md_file_name m)
     | None \<Rightarrow> (case bd_sticker b of Some m \<Rightarrow> (md_mime m, text, ''sticker'')
     | None \<Rightarrow> ([], text, []))))))"

definition message_content :: "(string \<Rightarrow> string) \<Rightarrow> (wa_message \<Rightarrow> payload) \<Rightarrow> wa_message \<Rightarrow> message \<Rightarrow>
    message \<times> (string \<times> payload) list" where  \<comment> \<open>\<open>content\<close>\<close>
  "message_content sha raw body m =
     (case media_of (wm_body body) (display_text (wm_body body)) of (mime, text, name) \<Rightarrow>
      let m' = m\<lparr>m_text := text, m_attachments := []\<rparr>;
          i = attachment_id sha (m_conversation_id m) (m_id m);
          size = media_size (wm_body body) in
      if mime = [] then (m', [])
      else (m'\<lparr>m_attachments := [\<lparr>a_id = i, a_name = name, a_mime = mime, a_size = size,
              a_available = (size \<le> of_nat MaxAttachmentBytes), a_preview = False, a_requestable = False\<rparr>]\<rparr>,
            [(i, raw body)]))"

lemma unwrap_bare:
  "wm_device_sent (unwrap m) = None \<and> wm_ephemeral (unwrap m) = None \<and> wm_view_once (unwrap m) = None \<and>
   wm_view_once_v2 (unwrap m) = None \<and> wm_view_once_v2x (unwrap m) = None \<and>
   wm_captioned (unwrap m) = None \<and> wm_edited (unwrap m) = None"
  by (induction m rule: unwrap.induct) (simp_all add: bare_message_def)

end
