(* ===== verification/WaProvider.thy ===== *)
theory WaProvider
  imports WaContent
begin

text \<open>
  The WhatsApp connection as a provider of the bridge (\<open>internal/whatsapp/provider.go\<close>).  Its
  methods are actions on the bridge: every call of the credential store or of the database is a
  transaction of its own, so what an operation committed before an error stays, and \<open>failed\<close>
  reports a storage error to the bridge before it is returned.  whatsmeow's client is a record of
  actions, as a provider is for the bridge: it may answer anything and leave the bridge in any
  state.  Of its errors only those \<open>Classify\<close> distinguishes are told apart.  Diagnostics are log
  lines and are left out.
\<close>

section \<open>The client\<close>

datatype wa_failure =
    Client_is_nil | Not_connected | Not_logged_in | Recipient_ad_jid | Unknown_server
  | Invalid_inline_bot_id | Broadcast_unsupported | Server_returned_error
  | Iq_error int | Other_failure

record wa_user =
  us_in :: bool
  us_jid :: jid
  us_phone :: jid

record wa_member =
  gm_jid :: jid
  gm_lid :: jid
  gm_phone :: jid

datatype upload_kind = Media_image | Media_video | Media_audio | Media_document

datatype send_extra = With_id string | Peer

record wa_client =
  wc_user_info :: "jid \<Rightarrow> (wa_failure + jid) bact"          \<comment> \<open>the LID, empty when there is none\<close>
  wc_on_whatsapp :: "string list \<Rightarrow> (wa_failure + wa_user list) bact"
  wc_create_group :: "string \<Rightarrow> jid list \<Rightarrow> (wa_failure + jid \<times> string) bact"
  wc_group :: "jid \<Rightarrow> (wa_failure + string \<times> wa_member list) bact"
  wc_send :: "jid \<Rightarrow> wa_message \<Rightarrow> send_extra \<Rightarrow> (wa_failure + time) bact"
  wc_upload :: "payload \<Rightarrow> upload_kind \<Rightarrow> (wa_failure + string) bact"
  wc_download :: "wa_message \<Rightarrow> (payload \<times> wa_failure option) bact"
  wc_mark_read :: "string \<Rightarrow> time \<Rightarrow> jid \<Rightarrow> jid \<Rightarrow> wa_failure option bact"
  wc_presence :: "jid \<Rightarrow> wa_failure option bact"

text \<open>
  \<open>wp_raw\<close> and \<open>wp_message\<close> are protobuf's \<open>Marshal\<close> and \<open>Unmarshal\<close>, \<open>wp_sha\<close> SHA-256 in
  hexadecimal and \<open>wp_size\<close> the length of a JSON text.
\<close>

record wa_provider =
  wp_library :: wa_library
  wp_client :: "wa_client option"
  wp_ns :: string
  wp_own_lid :: jid
  wp_own_jid :: jid
  wp_raw :: "wa_message \<Rightarrow> payload"
  wp_message :: "payload \<Rightarrow> wa_message option"
  wp_sha :: "string \<Rightarrow> string"
  wp_size :: "json \<Rightarrow> nat"

text \<open>Calls of the credential store, with \<open>Failure\<close>, which is \<open>storageFailure\<close>.\<close>

definition cred :: "'a dbtx \<Rightarrow> 'a bact" where
  "cred m = bind_act (try_act (commit_db m)) (\<lambda>r. case r of
       Inr x \<Rightarrow> return_act x
     | Inl (ErrStored e) \<Rightarrow> then_act (when_act (e \<noteq> ErrCanceled \<and> e \<noteq> ErrDeadline) (mod_act (storage_failure e)))
         (fail_act (ErrStored e))
     | Inl e \<Rightarrow> fail_act e)"

definition db_call :: "'a dbtx \<Rightarrow> 'a bact" where  \<comment> \<open>a call of the database inside \<open>Keys.failed\<close>\<close>
  "db_call m = cred (creds_failed m)"

definition wa_snapshot :: "string \<Rightarrow> string \<Rightarrow> json \<Rightarrow> provider_snapshot" where  \<comment> \<open>\<open>snapshot\<close>\<close>
  "wa_snapshot kind i data =
     \<lparr>sn_event = zero_event\<lparr>ev_type := kind, ev_entity_id := i, ev_data := JText data\<rparr>, sn_private = []\<rparr>"

definition parse_jid :: "wa_library \<Rightarrow> string \<Rightarrow> jid bact" where
  "parse_jid W i = (case wl_parse W i of None \<Rightarrow> fail_act (ErrText ''invalid JID'') | Some j \<Rightarrow> return_act j)"

section \<open>Identities and people\<close>

definition canonical :: "wa_provider \<Rightarrow> jid \<Rightarrow> jid bact" where
  "canonical P j0 = (let W = wp_library P; j = normalize_jid W j0 in
     if ji_server j \<noteq> Default_server then return_act j
     else bind_act (cred (lid_for_pn W (wp_ns P) j)) (\<lambda>known.
       bind_act (case (wl_empty W known, wp_client P) of
           (True, Some c) \<Rightarrow> bind_act (wc_user_info c j) (\<lambda>r. case r of
               Inl e \<Rightarrow> fail_act ErrUnavailable
             | Inr lid \<Rightarrow> then_act (when_act (\<not> wl_empty W lid) (cred (put_lid_mapping W (wp_ns P) lid j)))
                 (return_act lid))
         | _ \<Rightarrow> return_act known) (\<lambda>lid.
       if wl_empty W lid then fail_act ErrUnavailable else return_act (wl_plain W lid))))"

definition merged_info :: "contact_info \<Rightarrow> contact_info \<Rightarrow> contact_info" where
  "merged_info c other = c\<lparr>
     ci_full := (if ci_full other \<noteq> [] then ci_full other else ci_full c),
     ci_push := (if ci_push c = [] then ci_push other else ci_push c),
     ci_business := (if ci_business c = [] then ci_business other else ci_business c)\<rparr>"

definition best_name :: "contact_info \<Rightarrow> string" where
  "best_name c = text_or (ci_full c) (text_or (ci_business c) (text_or (ci_push c) (ci_first c)))"

definition wa_participant :: "wa_provider \<Rightarrow> jid \<Rightarrow> participant bact" where  \<comment> \<open>\<open>participant\<close>\<close>
  "wa_participant P j = (let W = wp_library P; ns = wp_ns P in
     bind_act (canonical P j) (\<lambda>i.
     bind_act (let pn = normalize_jid W j in
        if ji_server pn = Hidden_server then cred (pn_for_lid W ns pn) else return_act pn) (\<lambda>pn.
     bind_act (cred (get_contact W ns i)) (\<lambda>c0.
     bind_act (if wl_empty W pn then return_act c0
        else bind_act (cred (get_contact W ns pn)) (\<lambda>other. return_act (merged_info c0 other))) (\<lambda>c.
     return_act \<lparr>p_id = wl_string W i, p_name = best_name c,
       p_address = (if ji_server pn = Default_server then ''+'' @ ji_user pn else []),
       p_is_me = (i = wl_plain W (wp_own_lid P) \<or> wl_plain W j = wl_plain W (wp_own_jid P))\<rparr>)))))"

section \<open>Conversations\<close>

text \<open>The record a conversation starts from, and the stored one when it is this session's.\<close>

definition stored_conversation :: "wa_provider \<Rightarrow> jid \<Rightarrow> string \<Rightarrow> conversation bact" where
  "stored_conversation P j name = (let i = wl_string (wp_library P) j;
     c = zero_conversation\<lparr>c_schema := 1, c_id := i, c_name := name, c_protocol := ''whatsapp'',
           c_state := ''active''\<rparr> in
     bind_act (db_call (entity_current_tx ''conversation'' i)) (\<lambda>current.
     bind_act (try_act (view_db (latest_record ''conversation'' i))) (\<lambda>r. case r of
         Inr raw \<Rightarrow> if \<not> current then return_act c
           else bind_act (lift_act (unmarshal (decode_struct set_conversation c) raw)) (\<lambda>old.
             return_act (if name \<noteq> [] then old\<lparr>c_name := name\<rparr> else old))
       | Inl e \<Rightarrow> if errors_is e ErrNotFound then return_act c else cred (fail_tx (ErrStored e)))))"

definition member_person :: "wa_provider \<Rightarrow> wa_member \<Rightarrow> participant bact" where
  "member_person P m = (let W = wp_library P in
     then_act (when_act (\<not> wl_empty W (gm_lid m) \<and> \<not> wl_empty W (gm_phone m))
       (cred (put_lid_mapping W (wp_ns P) (gm_lid m) (gm_phone m))))
     (wa_participant P (if \<not> wl_empty W (gm_lid m) then gm_lid m else gm_jid m)))"

definition people_of :: "wa_provider \<Rightarrow> jid \<Rightarrow> string \<Rightarrow> conversation \<Rightarrow> conversation bact" where
  "people_of P j name c =
    (if ji_server j = Group_server then (case wp_client P of
         None \<Rightarrow> return_act c
       | Some cl \<Rightarrow> if c_participants c \<noteq> [] \<and> name = [] then return_act c
         else bind_act (wc_group cl j) (\<lambda>r. case r of
             Inl e \<Rightarrow> return_act c
           | Inr (gname, members) \<Rightarrow>
               fold_act (\<lambda>m d. bind_act (member_person P m) (\<lambda>person.
                 return_act (d\<lparr>c_participants := c_participants d @ [person]\<rparr>)))
               members (c\<lparr>c_name := gname, c_participants := []\<rparr>)))
     else bind_act (wa_participant P j) (\<lambda>person.
       return_act (c\<lparr>c_participants := [person],
         c_name := (if p_name person \<noteq> [] then p_name person
           else if c_name c = [] then p_address person else c_name c)\<rparr>)))"

definition conversation_snapshot :: "wa_provider \<Rightarrow> jid \<Rightarrow> string \<Rightarrow> provider_snapshot bact" where
  \<comment> \<open>\<open>Conversation\<close>\<close>
  "conversation_snapshot P j0 name = (let W = wp_library P in
     bind_act (canonical P j0) (\<lambda>j.
     if \<not> chat_supported W j then fail_act ErrUnavailable
     else bind_act (stored_conversation P j name) (\<lambda>c0.
       bind_act (cred (get_chat_settings W (wp_ns P) j)) (\<lambda>settings.
       bind_act (people_of P j name (c0\<lparr>c_archived := cs_archived settings, c_pinned := cs_pinned settings,
         c_muted_until := cs_muted settings\<rparr>)) (\<lambda>c.
       return_act (wa_snapshot ''conversation'' (c_id c) (enc_conversation c)))))))"

definition named_info :: "contact_info \<Rightarrow> bool" where
  "named_info c \<longleftrightarrow> ci_full c \<noteq> [] \<or> ci_first c \<noteq> [] \<or> ci_push c \<noteq> [] \<or> ci_business c \<noteq> []"

definition book_person :: "wa_provider \<Rightarrow> jid \<Rightarrow> contact_info \<Rightarrow> participant option bact" where
  "book_person P j c = (let W = wp_library P in
     bind_act (try_act (wa_participant (P\<lparr>wp_client := None\<rparr>) j)) (\<lambda>r. case r of
       Inr person \<Rightarrow> return_act (Some person)
     | Inl e \<Rightarrow> if errors_is e ErrUnavailable then return_act
           (if ji_server (normalize_jid W j) = Default_server then Some \<lparr>p_id = plain_name W j,
               p_name = text_or (ci_full c) (text_or (ci_first c) (text_or (ci_push c) (ci_business c))),
               p_address = ''+'' @ ji_user j, p_is_me = False\<rparr>
            else None)
         else fail_act e))"

definition contact_before :: "contact \<Rightarrow> contact \<Rightarrow> bool" where
  "contact_before x y \<longleftrightarrow> (if k_name x = k_name y then k_id x < k_id y else k_name x < k_name y)"

definition wa_contacts :: "wa_provider \<Rightarrow> contact list bact" where  \<comment> \<open>\<open>Contacts\<close>\<close>
  "wa_contacts P = bind_act (cred (get_all_contacts (wp_library P) (wp_ns P))) (\<lambda>found.
     bind_act (fold_act (\<lambda>(j, c) out.
       if \<not> chat_supported (wp_library P) j \<or> \<not> named_info c then return_act out
       else bind_act (book_person P j c) (\<lambda>r. return_act (case r of
           None \<Rightarrow> out
         | Some person \<Rightarrow> if p_id person \<in> k_id ` set out then out
             else out @ [zero_contact\<lparr>k_id := p_id person, k_name := p_name person, k_address := p_address person\<rparr>])))
       found []) (\<lambda>out. return_act (sort_by contact_before out)))"

definition wa_conversations :: "wa_provider \<Rightarrow> provider_snapshot list bact" where  \<comment> \<open>\<open>Conversations\<close>\<close>
  "wa_conversations P = bind_act (view_db (read_latest ''conversation'')) (\<lambda>rows.
     fold_act (\<lambda>raw out. bind_act (lift_act (unmarshal dec_conversation raw)) (\<lambda>c.
       bind_act (parse_jid (wp_library P) (c_id c)) (\<lambda>j.
       bind_act (db_call (entity_current_tx ''conversation'' (c_id c))) (\<lambda>current.
       if \<not> current \<or> \<not> chat_supported (wp_library P) j then return_act out
       else bind_act (conversation_snapshot P j (c_name c)) (\<lambda>s. return_act (out @ [s])))))) rows [])"

definition wa_conversation_page :: "wa_provider \<Rightarrow> string \<Rightarrow> payload \<Rightarrow> (provider_snapshot list \<times> payload) bact" where
  \<comment> \<open>\<open>ConversationPage\<close>\<close>
  "wa_conversation_page P folder cursor =
    (if cursor \<noteq> Opaque [] then fail_act ErrUnsupportedCursor
     else bind_act (wa_conversations P) (\<lambda>all.
       bind_act (fold_act (\<lambda>s out. bind_act (lift_act (unmarshal dec_conversation (ev_data (sn_event s)))) (\<lambda>c.
         return_act (if folder = ''archive'' \<and> c_archived c \<or> folder = ''inbox'' \<and> \<not> c_archived c
           then out @ [s] else out))) all []) (\<lambda>out. return_act (out, Opaque []))))"

definition wa_prepare :: "wa_provider \<Rightarrow> string \<Rightarrow> send_target bact" where  \<comment> \<open>\<open>Prepare\<close>\<close>
  "wa_prepare P i = (case wl_parse (wp_library P) i of None \<Rightarrow> fail_act ErrRejected
     | Some j \<Rightarrow> if wl_empty (wp_library P) j then fail_act ErrRejected
         else bind_act (canonical P j) (\<lambda>k.
           return_act (zero_target\<lparr>tg_conversation_id := wl_string (wp_library P) k\<rparr>)))"

section \<open>Sending\<close>

fun classify :: "wa_failure \<Rightarrow> go_error" where  \<comment> \<open>\<open>Classify\<close> of an error\<close>
  "classify (Iq_error code) =
     (if 400 \<le> code \<and> code < 500 \<and> code \<noteq> 408 then ErrRejected else ErrAmbiguous)"
| "classify Other_failure = ErrAmbiguous"
| "classify _ = ErrRejected"

definition raw_failure :: "wa_failure \<Rightarrow> go_error" where
  "raw_failure f = ErrText ''whatsmeow''"

text \<open>\<open>for _, u := range users\<close>: the addresses, or the first refusal.\<close>

definition user_jids :: "wa_provider \<Rightarrow> wa_user list \<Rightarrow> jid list bact" where
  "user_jids P users = fold_act (\<lambda>u out. let W = wp_library P in
     if \<not> us_in u then fail_act ErrRecipientUnavailable
     else then_act (when_act (ji_server (us_jid u) = Hidden_server \<and> \<not> wl_empty W (us_phone u))
            (cred (put_lid_mapping W (wp_ns P) (us_jid u) (us_phone u))))
       (bind_act (canonical P (us_jid u)) (\<lambda>j. return_act (out @ [j])))) users []"

definition wa_create :: "wa_provider \<Rightarrow> wa_client \<Rightarrow> string list \<Rightarrow> string \<Rightarrow> provider_snapshot bact" where
  \<comment> \<open>\<open>CreateConversation\<close>\<close>
  "wa_create P cl numbers name = bind_act (wc_on_whatsapp cl numbers) (\<lambda>r. case r of
       Inl e \<Rightarrow> fail_act (classify e)
     | Inr users \<Rightarrow>
         if length users \<noteq> length numbers then fail_act ErrRejected
         else bind_act (user_jids P users) (\<lambda>jids.
           if length jids = 1 then conversation_snapshot P (hd jids) []
           else bind_act (wc_create_group cl (text_or name ''New group'') jids) (\<lambda>g. case g of
               Inl e \<Rightarrow> fail_act (classify e)
             | Inr (gid, gname) \<Rightarrow>
                 bind_act (fold_act (\<lambda>j out. bind_act (wa_participant P j) (\<lambda>person.
                   return_act (out @ [person]))) jids []) (\<lambda>people.
                 let c = zero_conversation\<lparr>c_schema := 1, c_id := wl_string (wp_library P) gid, c_name := gname,
                   c_protocol := ''whatsapp'', c_state := ''active'', c_participants := people\<rparr> in
                 return_act (wa_snapshot ''conversation'' (c_id c) (enc_conversation c))))))"

definition upload_kind_of :: "string \<Rightarrow> upload_kind" where
  "upload_kind_of mime = (if prefix ''image/'' mime then Media_image
     else if prefix ''video/'' mime then Media_video
     else if prefix ''audio/'' mime then Media_audio else Media_document)"

fun media_body :: "upload_kind \<Rightarrow> wa_media \<Rightarrow> string \<Rightarrow> wa_body" where
  "media_body Media_image m r = empty_body\<lparr>bd_image := Some (m\<lparr>md_file_name := []\<rparr>), bd_rest := r\<rparr>"
| "media_body Media_video m r = empty_body\<lparr>bd_video := Some (m\<lparr>md_file_name := []\<rparr>), bd_rest := r\<rparr>"
| "media_body Media_audio m r = empty_body\<lparr>bd_audio := Some (m\<lparr>md_file_name := []\<rparr>), bd_rest := r\<rparr>"
| "media_body Media_document m r = empty_body\<lparr>bd_document := Some m, bd_rest := r\<rparr>"

definition wa_upload :: "wa_provider \<Rightarrow> wa_client \<Rightarrow> payload \<Rightarrow> string \<Rightarrow> string \<Rightarrow> payload bact" where
  \<comment> \<open>\<open>Upload\<close>; the answer holds the address and keys of the upload\<close>
  "wa_upload P cl data name mime = bind_act (wc_upload cl data (upload_kind_of mime)) (\<lambda>r. case r of
       Inl e \<Rightarrow> fail_act (raw_failure e)
     | Inr where_to \<Rightarrow> return_act (wp_raw P (bare_message (media_body (upload_kind_of mime)
         \<lparr>md_mime = mime, md_caption = [], md_file_name = name,
          md_length = of_nat (payload_length (wp_size P) data)\<rparr> where_to))))"

text \<open>What an outbox record is sent as: its text, or the one uploaded medium.\<close>

definition outgoing_body :: "wa_provider \<Rightarrow> send_target \<Rightarrow> outbox \<Rightarrow> wa_message option" where
  "outgoing_body P t out = (case tg_media t of
       [] \<Rightarrow> Some (bare_message (empty_body\<lparr>bd_conversation := q_text (o_request out)\<rparr>))
     | [raw] \<Rightarrow> wp_message P raw
     | _ \<Rightarrow> None)"

definition sent_message :: "wa_provider \<Rightarrow> jid \<Rightarrow> outbox \<Rightarrow> time \<Rightarrow> message" where
  "sent_message P j out stamp = (let c = wl_string (wp_library P) j in
     zero_message\<lparr>m_schema := 1, m_id := message_id c (o_transaction_id out), m_conversation_id := c,
       m_sender_id := plain_name (wp_library P) (wp_own_lid P), m_time := stamp,
       m_direction := ''outgoing'', m_status := ''server_ack''\<rparr>)"

definition wa_send :: "wa_provider \<Rightarrow> wa_client \<Rightarrow> send_target \<Rightarrow> outbox \<Rightarrow> unit bact" where  \<comment> \<open>\<open>Send\<close>\<close>
  "wa_send P cl t out = (case wl_parse (wp_library P) (tg_conversation_id t) of None \<Rightarrow> fail_act ErrRejected
     | Some j \<Rightarrow> (case outgoing_body P t out of None \<Rightarrow> fail_act ErrRejected
       | Some m \<Rightarrow>
         bind_act (view_db history_watermark) (\<lambda>mark.
         bind_act (wc_send cl j m (With_id (o_transaction_id out))) (\<lambda>r. case r of
           Inl e \<Rightarrow> fail_act (classify e)
         | Inr stamp \<Rightarrow>
             (case message_content (wp_sha P) (wp_raw P) m (sent_message P j out stamp) of (msg, private) \<Rightarrow>
              bind_act (db_call (apply_tx (sn_event (wa_snapshot ''message'' (m_id msg) (enc_message msg)))
                private (Some mark))) (\<lambda>_. return_act ()))))))"

definition reaction_body :: "message_key \<Rightarrow> string \<Rightarrow> wa_body" where
  "reaction_body key emoji = empty_body\<lparr>bd_reaction := Some (key, emoji)\<rparr>"

definition wa_react :: "wa_provider \<Rightarrow> wa_client \<Rightarrow> send_target \<Rightarrow> string \<Rightarrow> string \<Rightarrow> bool \<Rightarrow> unit bact" where
  \<comment> \<open>\<open>React\<close>; the time stamp of the reaction is left out\<close>
  "wa_react P cl t i emoji remove = bind_act (try_act (view_db (latest_record ''message'' i))) (\<lambda>r. case r of
       Inl e \<Rightarrow> fail_act ErrRejected
     | Inr raw \<Rightarrow> (case unmarshal dec_message raw of Inl e \<Rightarrow> fail_act ErrRejected
       | Inr m \<Rightarrow> (case wl_parse (wp_library P) (tg_conversation_id t) of None \<Rightarrow> fail_act ErrRejected
         | Some j \<Rightarrow>
             bind_act (wc_send cl j (bare_message (reaction_body \<lparr>mk_remote = wl_string (wp_library P) j,
                 mk_from_me = (m_direction m = ''outgoing''), mk_id = message_remote_id i,
                 mk_participant = (if ji_server j = Group_server then Some (m_sender_id m) else None)\<rparr>
                 (if remove then [] else emoji))) (With_id (tg_transaction_id t))) (\<lambda>r. case r of
               Inl e \<Rightarrow> fail_act (classify e) | Inr _ \<Rightarrow> return_act ()))))"

definition wa_typing :: "wa_provider \<Rightarrow> wa_client \<Rightarrow> send_target \<Rightarrow> unit bact" where  \<comment> \<open>\<open>Typing\<close>\<close>
  "wa_typing P cl t = bind_act (parse_jid (wp_library P) (tg_conversation_id t)) (\<lambda>j.
     bind_act (wc_presence cl j) (\<lambda>r. case r of None \<Rightarrow> return_act () | Some e \<Rightarrow> fail_act (raw_failure e)))"

definition wa_mark_read :: "wa_provider \<Rightarrow> wa_client \<Rightarrow> string \<Rightarrow> string \<Rightarrow> unit bact" where  \<comment> \<open>\<open>MarkRead\<close>\<close>
  "wa_mark_read P cl c i = bind_act (view_db (latest_record ''message'' i)) (\<lambda>raw.
     bind_act (lift_act (unmarshal dec_message raw)) (\<lambda>m.
     bind_act (parse_jid (wp_library P) c) (\<lambda>chat.
     bind_act (parse_jid (wp_library P) (m_sender_id m)) (\<lambda>sender.
     bind_act (wc_mark_read cl (message_remote_id i) (m_time m) chat sender) (\<lambda>r. case r of
       None \<Rightarrow> return_act () | Some e \<Rightarrow> fail_act (raw_failure e))))))"

definition wa_attachment :: "wa_provider \<Rightarrow> wa_client \<Rightarrow> payload \<Rightarrow> payload bact" where  \<comment> \<open>\<open>Attachment\<close>\<close>
  "wa_attachment P cl raw = (case wp_message P raw of None \<Rightarrow> fail_act ErrRejected
     | Some m \<Rightarrow>
       if media_size (wm_body m) > of_nat MaxAttachmentBytes then fail_act ErrTooLarge
       else bind_act (wc_download cl m) (\<lambda>(data, e).
         if payload_length (wp_size P) data > MaxAttachmentBytes then fail_act ErrTooLarge
         else (case e of None \<Rightarrow> return_act data | Some f \<Rightarrow> fail_act (raw_failure f))))"

section \<open>Calls\<close>

text \<open>Calls of the credential store and of the database that succeed.\<close>

lemma cred_Inr: "cred m b = (Inr x, b') \<longleftrightarrow> (\<exists>s'. m (b_store b) = Inr (x, s') \<and> b' = b\<lparr>b_store := s'\<rparr>)"
proof -
  have "cred m b = (case commit_db m b of (Inr x, b') \<Rightarrow> (Inr x, b') | (Inl e, b') \<Rightarrow> (Inl e, snd (cred m b)))"
    by (auto simp: cred_def bind_act_def try_act_def act_steps then_act_def split: prod.splits sum.splits go_error.splits)
  then show ?thesis by (auto simp: commit_db_Inr [symmetric] split: prod.splits sum.splits)
qed

lemma creds_failed_Inr: "creds_failed m s = Inr r \<longleftrightarrow> m s = Inr r"
  by (cases "m s") (auto simp: creds_failed_def)

lemma current_call:
  "db_call (entity_current_tx kind i) b = (Inr x, b') \<Longrightarrow> x = is_current (b_store b) kind i \<and> b' = b"
  by (auto simp: db_call_def cred_Inr creds_failed_Inr entity_current_Inr)

end
