(* ===== verification/WaEvents.thy ===== *)
theory WaEvents
  imports WaProvider
begin

text \<open>
  Events of the WhatsApp connection turned into snapshots (\<open>internal/whatsapp/events.go\<close>): messages
  with their edits, revocations and reactions, and receipts.  The event types of whatsmeow are
  records of the fields the code reads; \<open>wi_rest\<close> and the like stand for the others.
\<close>

section \<open>Events\<close>

record message_source =
  so_chat :: jid
  so_sender :: jid
  so_sender_alt :: jid
  so_recipient_alt :: jid
  so_from_me :: bool

record message_info =
  wi_source :: message_source
  wi_id :: string
  wi_push_name :: string
  wi_time :: time
  wi_edit :: bool          \<comment> \<open>\<open>EditAttributeMessageEdit\<close>\<close>
  wi_rest :: string

datatype web_status = Web_delivery_ack | Web_read | Web_played | Web_other

record web_message =
  wb_stub :: bool          \<comment> \<open>the stub type is not \<open>UNKNOWN\<close>\<close>
  wb_status :: web_status
  wb_rest :: string

record verified_name =
  vn_certificate :: "string option"
  vn_details :: "string option"
  vn_rest :: string

record message_event =
  me_info :: message_info
  me_is_edit :: bool
  me_message :: "wa_message option"
  me_raw :: "wa_message option"
  me_web :: "web_message option"
  me_verified :: "verified_name option"

datatype receipt_type = Receipt_delivered | Receipt_read | Receipt_read_self | Receipt_played
  | Receipt_sender | Receipt_other

record receipt_event =
  re_source :: message_source
  re_ids :: "string list"
  re_type :: receipt_type

section \<open>Messages\<close>

text \<open>\<open>learnSource\<close>: the two pairs of addresses a source names for the same identity.\<close>

definition source_pairs :: "wa_library \<Rightarrow> message_source \<Rightarrow> (jid \<times> jid) list" where
  "source_pairs W so = map (\<lambda>(a0, b0). let a = wl_plain W a0; b = wl_plain W b0 in
       if ji_server a = Default_server then (b, a) else (a, b))
     [(so_sender so, so_sender_alt so), (so_chat so, so_recipient_alt so)]"

definition learn_source :: "wa_provider \<Rightarrow> message_source \<Rightarrow> unit bact" where
  "learn_source P so = for_act (\<lambda>(a, b).
     when_act (ji_server a = Hidden_server \<and> ji_server b = Default_server)
       (cred (put_lid_mapping (wp_library P) (wp_ns P) a b))) (source_pairs (wp_library P) so)"

definition protocol_of :: "wa_message \<Rightarrow> protocol_kind \<Rightarrow> bool" where
  "protocol_of m k = (case wm_protocol m of Some (k', _) \<Rightarrow> k' = k | None \<Rightarrow> False)"

definition is_edit :: "message_event \<Rightarrow> bool" where
  "is_edit e \<longleftrightarrow> me_is_edit e \<or> wi_edit (me_info e)"

definition is_mutation :: "message_event \<Rightarrow> wa_message \<Rightarrow> bool" where
  "is_mutation e body \<longleftrightarrow> is_edit e \<or> bd_reaction (wm_body body) \<noteq> None \<or>
     protocol_of body Revoke \<or> protocol_of body Message_edit"

definition target_id :: "message_event \<Rightarrow> wa_message \<Rightarrow> string" where
  "target_id e body = (case bd_reaction (wm_body body) of Some (key, _) \<Rightarrow> mk_id key
     | None \<Rightarrow> (case wm_protocol body of Some (k, key, _) \<Rightarrow>
           if k = Revoke \<or> k = Message_edit then key else wi_id (me_info e)
         | None \<Rightarrow> wi_id (me_info e)))"

definition new_message :: "wa_library \<Rightarrow> message_event \<Rightarrow> jid \<Rightarrow> jid \<Rightarrow> string \<Rightarrow> message" where
  "new_message W e chat sender target = (let c = wl_string W chat; mine = so_from_me (wi_source (me_info e)) in
     zero_message\<lparr>m_schema := 1, m_id := message_id c target, m_conversation_id := c,
       m_sender_id := wl_string W sender, m_time := wi_time (me_info e),
       m_direction := (if mine then ''outgoing'' else ''incoming''),
       m_status := (if mine then ''server_ack'' else ''received''),
       m_transaction_id := (if mine then target else [])\<rparr>)"

text \<open>The stored record of this session, decoded over the new one.\<close>

definition existing_message :: "string \<Rightarrow> message \<Rightarrow> message option bact" where
  "existing_message i m = bind_act (try_act (view_db (latest_record ''message'' i))) (\<lambda>r. case r of
       Inl e \<Rightarrow> if errors_is e ErrNotFound then return_act None else cred (fail_tx (ErrStored e))
     | Inr raw \<Rightarrow> bind_act (db_call (entity_current_tx ''message'' i)) (\<lambda>current.
         if \<not> current then return_act None
         else bind_act (lift_act (unmarshal (decode_struct set_message m) raw)) (\<lambda>old.
           return_act (Some old))))"

text \<open>A reaction replaces the reactor's earlier one; an empty text only withdraws it.\<close>

definition withdraw :: "string \<Rightarrow> reaction list \<Rightarrow> reaction list" where
  "withdraw who rs = filter (\<lambda>r. r_participants r \<noteq> [])
     (map (\<lambda>r. r\<lparr>r_participants := filter (\<lambda>p. p \<noteq> who) (r_participants r)\<rparr>) rs)"

definition add_reactor :: "string \<Rightarrow> string \<Rightarrow> reaction list \<Rightarrow> reaction list" where
  "add_reactor emoji who rs =
    (if emoji \<in> r_emoji ` set rs
     then map (\<lambda>r. if r_emoji r = emoji then r\<lparr>r_participants := r_participants r @ [who]\<rparr> else r) rs
     else rs @ [\<lparr>r_emoji = emoji, r_participants = [who]\<rparr>])"

definition react_as :: "string \<Rightarrow> string \<Rightarrow> reaction list \<Rightarrow> reaction list" where
  "react_as emoji who rs =
    (if emoji = [] then withdraw who rs else add_reactor emoji who (withdraw who rs))"

definition revoked :: "message \<Rightarrow> message" where
  "revoked m = m\<lparr>m_deleted := True, m_text := [], m_attachments := []\<rparr>"

text \<open>
  The \<open>switch\<close> of \<open>Message\<close>: nothing to publish, the record as it is but for its transaction id,
  or a changed record with its private data.
\<close>

datatype outcome = Nothing | Confirmed message | Changed message "(string \<times> payload) list"

definition with_existing :: "message option \<Rightarrow> (message \<Rightarrow> outcome) \<Rightarrow> go_error + outcome" where
  "with_existing old f = (case old of None \<Rightarrow> Inl ErrUnavailable | Some m \<Rightarrow> Inr (f m))"

definition change_content :: "wa_provider \<Rightarrow> wa_message \<Rightarrow> message \<Rightarrow> outcome" where
  "change_content P body m = (case message_content (wp_sha P) (wp_raw P) body m of (m', private) \<Rightarrow>
     Changed m' private)"

definition message_outcome :: "wa_provider \<Rightarrow> message_event \<Rightarrow> wa_message \<Rightarrow> string \<Rightarrow> string \<Rightarrow>
    message option \<Rightarrow> message \<Rightarrow> go_error + outcome" where
  "message_outcome P e body sender target old m =
    (if protocol_of body Revoke then with_existing old (\<lambda>m. Changed (revoked m) [])
     else if protocol_of body Message_edit then with_existing old (change_content P
       (unwrap (case wm_protocol body of Some (_, _, edited) \<Rightarrow> edited | None \<Rightarrow> None)))
     else if is_edit e then with_existing old (change_content P body)
     else (case bd_reaction (wm_body body) of
         Some (_, emoji) \<Rightarrow> with_existing old (\<lambda>m.
           Changed (m\<lparr>m_reactions := react_as emoji sender (m_reactions m)\<rparr>) [])
       | None \<Rightarrow> (case old of
           Some was \<Rightarrow> Inr (if so_from_me (wi_source (me_info e)) \<and> m_transaction_id was = []
             then Confirmed (was\<lparr>m_transaction_id := target\<rparr>) else Nothing)
         | None \<Rightarrow> Inr (change_content P body m))))"

definition web_progress :: "message_event \<Rightarrow> message \<Rightarrow> message" where
  "web_progress e m = (case me_web e of None \<Rightarrow> m
     | Some w \<Rightarrow> if m_direction m \<noteq> ''outgoing'' then m
         else (case wb_status w of
             Web_delivery_ack \<Rightarrow> m\<lparr>m_status := ''delivered''\<rparr>
           | Web_read \<Rightarrow> m\<lparr>m_status := ''read''\<rparr>
           | Web_played \<Rightarrow> m\<lparr>m_status := ''read''\<rparr>
           | Web_other \<Rightarrow> m))"

definition publish_change :: "wa_provider \<Rightarrow> message_event \<Rightarrow> bool \<Rightarrow> jid \<Rightarrow> string \<Rightarrow> message \<Rightarrow>
    (string \<times> payload) list \<Rightarrow> provider_snapshot list bact" where
  "publish_change P e mutation chat i m private =
    (if \<not> mutation \<and> m_text m = [] \<and> m_attachments m = [] then return_act []
     else bind_act (conversation_snapshot P chat []) (\<lambda>conv.
       let snap = wa_snapshot ''message'' i (enc_message (web_progress e m)) in
       return_act [conv, snap\<lparr>sn_private := private,
         sn_event := (sn_event snap)\<lparr>ev_historical := (me_web e \<noteq> None)\<rparr>\<rparr>]))"

definition message_snapshots :: "wa_provider \<Rightarrow> message_event \<Rightarrow> provider_snapshot list bact" where
  \<comment> \<open>\<open>Message\<close>\<close>
  "message_snapshots P e = (let W = wp_library P; so = wi_source (me_info e); body = unwrap (me_message e);
       mutation = is_mutation e body in
     if \<not> chat_supported W (so_chat so) \<or> \<not> mutation \<and> \<not> displayable (wm_body body) \<or>
        (case me_web e of None \<Rightarrow> False | Some w \<Rightarrow> wb_stub w) then return_act []
     else then_act (learn_source P so)
       (bind_act (canonical P (so_chat so)) (\<lambda>chat.
        bind_act (canonical P (so_sender so)) (\<lambda>sender.
        then_act (when_act (wi_push_name (me_info e) \<noteq> [])
          (bind_act (cred (put_push_name W (wp_ns P) sender (wi_push_name (me_info e)))) (\<lambda>_. return_act ())))
        (let target = target_id e body; m = new_message W e chat sender target;
             i = message_id (wl_string W chat) target in
         if target = [] then return_act []
         else bind_act (existing_message i m) (\<lambda>old.
           bind_act (lift_act (message_outcome P e body (wl_string W sender) target old m)) (\<lambda>r. case r of
               Nothing \<Rightarrow> return_act []
             | Confirmed m' \<Rightarrow> return_act [wa_snapshot ''message'' i (enc_message m')]
             | Changed m' private \<Rightarrow> publish_change P e mutation chat i m' private)))))))"

section \<open>Receipts\<close>

definition status_rank :: "string \<Rightarrow> nat" where
  "status_rank s = (if s = ''server_ack'' then 1 else if s = ''delivered'' then 2
     else if s = ''read'' then 3 else 0)"

fun receipt_status :: "receipt_type \<Rightarrow> string" where
  "receipt_status Receipt_delivered = ''delivered''"
| "receipt_status Receipt_read = ''read''"
| "receipt_status Receipt_read_self = ''read''"
| "receipt_status Receipt_played = ''read''"
| "receipt_status Receipt_sender = ''server_ack''"
| "receipt_status Receipt_other = []"

definition raise_status :: "string \<Rightarrow> message \<Rightarrow> message option" where
  "raise_status status m =
    (if status_rank (m_status m) \<ge> status_rank status then None else Some (m\<lparr>m_status := status\<rparr>))"

definition receipt_one :: "wa_provider \<Rightarrow> string \<Rightarrow> string \<Rightarrow> string \<Rightarrow> provider_snapshot option bact" where
  "receipt_one P chat status remote = (let i = message_id chat remote in
     bind_act (try_act (view_db (latest_record ''message'' i))) (\<lambda>r. case r of
       Inl e \<Rightarrow> if errors_is e ErrNotFound then fail_act ErrUnavailable else cred (fail_tx (ErrStored e))
     | Inr raw \<Rightarrow> bind_act (db_call (entity_current_tx ''message'' i)) (\<lambda>current.
         if \<not> current then return_act None
         else bind_act (lift_act (unmarshal dec_message raw)) (\<lambda>m.
           return_act (map_option (\<lambda>m'. wa_snapshot ''message'' i (enc_message m')) (raise_status status m))))))"

definition receipt_snapshots :: "wa_provider \<Rightarrow> receipt_event \<Rightarrow> provider_snapshot list bact" where
  \<comment> \<open>\<open>Receipt\<close>\<close>
  "receipt_snapshots P e = (let W = wp_library P; status = receipt_status (re_type e) in
     if \<not> chat_supported W (so_chat (re_source e)) \<or> status = [] then return_act []
     else then_act (learn_source P (re_source e))
       (bind_act (canonical P (so_chat (re_source e))) (\<lambda>chat.
        fold_act (\<lambda>remote out. bind_act (receipt_one P (wl_string W chat) status remote) (\<lambda>r.
          return_act (case r of None \<Rightarrow> out | Some s \<Rightarrow> out @ [s]))) (re_ids e) [])))"

end
