(* ===== verification/WaInbox.thy ===== *)
theory WaInbox
  imports WaEvents
begin

text \<open>
  The durable inbox (\<open>internal/whatsapp/inbox.go\<close>, \<open>Ingest\<close>, \<open>Drain\<close> and \<open>quarantine\<close>): an event is
  stored under the next number before it is looked at, and taken out only when its snapshots are
  persisted or it is set aside as undecodable.  An entry holds the event's JSON with the protobuf
  parts beside it as bytes; \<open>inbox_codecs\<close> has whatsmeow's JSON forms and protobuf's two directions.
\<close>

section \<open>Pending events\<close>

record wa_conversation =
  wv_id :: string
  wv_pn :: string
  wv_lid :: string
  wv_archived :: bool
  wv_pinned :: bool
  wv_mute_end :: u64
  wv_messages :: "string list"        \<comment> \<open>\<open>WebMessageInfo\<close>, opaque\<close>
  wv_name :: string
  wv_last_message :: u64
  wv_timestamp :: u64
  wv_unread :: "u32 option"
  wv_marked :: bool

record history_data =
  hd_mappings :: "(string \<times> string) list"   \<comment> \<open>phone number and LID\<close>
  hd_push_names :: "(string \<times> string) list"
  hd_conversations :: "wa_conversation list"
  hd_on_demand :: bool

record history_event =
  he_data :: "history_data option"
  he_notification :: "string option"

record history_chat =
  hc_conversation :: "wa_conversation option"
  hc_on_demand :: bool

datatype pending = Message_event message_event | History_event history_event
  | Chat_event history_chat | Receipt_event receipt_event

record 'a proto =
  pr_marshal :: "'a \<Rightarrow> go_error + string"
  pr_unmarshal :: "string \<Rightarrow> go_error + 'a"

record inbox_codecs =
  ic_message :: "message_event codec"
  ic_history :: "history_event codec"
  ic_chat :: "history_chat codec"
  ic_receipt :: "receipt_event codec"
  ic_body :: "wa_message proto"
  ic_web :: "web_message proto"
  ic_certificate :: "string proto"
  ic_details :: "string proto"
  ic_data :: "history_data proto"
  ic_notification :: "string proto"
  ic_conversation :: "wa_conversation proto"
  ic_parse :: "jid \<Rightarrow> string \<Rightarrow> go_error + message_event option"   \<comment> \<open>\<open>ParseWebMessage\<close>\<close>

record pending_event =
  pe_version :: i64
  pe_kind :: string
  pe_data :: payload
  pe_payloads :: "(string \<times> string) list"

definition enc_pending :: "pending_event \<Rightarrow> json" where
  "enc_pending e = JObj (jint ''Version'' (pe_version e) @ jstr ''Kind'' (pe_kind e) @
     [(''Data'', data_json (pe_data e))] @
     omit (pe_payloads e = []) [(''Payloads'', JObj (map (\<lambda>(k, b). (k, JStr b)) (pe_payloads e)))])"

fun as_pairs :: "(string \<times> json) list \<Rightarrow> (string \<times> string) list option" where
  "as_pairs [] = Some []"
| "as_pairs ((k, v) # members) = (case (as_str v [], as_pairs members) of
     (Some b, Some rest) \<Rightarrow> Some ((k, b) # rest) | _ \<Rightarrow> None)"

fun as_payloads :: "json \<Rightarrow> (string \<times> string) list option" where
  "as_payloads JNull = Some []"
| "as_payloads (JObj members) = as_pairs members"
| "as_payloads _ = None"

definition set_pending :: "string \<Rightarrow> json \<Rightarrow> pending_event \<Rightarrow> pending_event option" where
  "set_pending k v e =
    (if k = ''Version'' then map_option (\<lambda>n. e\<lparr>pe_version := n\<rparr>) (as_i64 v (pe_version e))
     else if k = ''Kind'' then map_option (\<lambda>x. e\<lparr>pe_kind := x\<rparr>) (as_str v (pe_kind e))
     else if k = ''Data'' then Some (e\<lparr>pe_data := JText v\<rparr>)
     else if k = ''Payloads'' then map_option (\<lambda>x. e\<lparr>pe_payloads := x\<rparr>) (as_payloads v)
     else Some e)"

definition dec_pending :: "json \<Rightarrow> pending_event option" where
  "dec_pending = decode_struct set_pending
     \<lparr>pe_version = 0, pe_kind = [], pe_data = Opaque [], pe_payloads = []\<rparr>"

text \<open>A protobuf part: absent, or its bytes under a name.\<close>

definition part :: "string \<Rightarrow> ('a, 'b) proto_scheme \<Rightarrow> 'a option \<Rightarrow> go_error + (string \<times> string) list" where
  "part k p x = (case x of None \<Rightarrow> Inr [] | Some m \<Rightarrow> map_sum id (\<lambda>b. [(k, b)]) (pr_marshal p m))"

definition join_parts :: "go_error + 'x list \<Rightarrow> go_error + 'x list \<Rightarrow> go_error + 'x list" where
  "join_parts a b = (case a of Inl e \<Rightarrow> Inl e | Inr x \<Rightarrow> (case b of Inl e \<Rightarrow> Inl e | Inr y \<Rightarrow> Inr (x @ y)))"

definition certificate_of :: "message_event \<Rightarrow> string option" where
  "certificate_of m = (case me_verified m of None \<Rightarrow> None | Some v \<Rightarrow> vn_certificate v)"

definition details_of :: "message_event \<Rightarrow> string option" where
  "details_of m = (case me_verified m of None \<Rightarrow> None | Some v \<Rightarrow> vn_details v)"

definition bare_event :: "message_event \<Rightarrow> message_event" where
  "bare_event m = m\<lparr>me_message := None, me_raw := None, me_web := None,
     me_verified := map_option (\<lambda>v. v\<lparr>vn_certificate := None, vn_details := None\<rparr>) (me_verified m)\<rparr>"

definition pending_entry :: "string \<Rightarrow> json \<Rightarrow> go_error + (string \<times> string) list \<Rightarrow> go_error + pending_event" where
  "pending_entry kind data parts =
     map_sum id (\<lambda>ps. \<lparr>pe_version = 1, pe_kind = kind, pe_data = JText data, pe_payloads = ps\<rparr>) parts"

fun encode_pending :: "inbox_codecs \<Rightarrow> pending \<Rightarrow> go_error + pending_event" where
  "encode_pending C (Message_event m) = pending_entry ''message'' (enc_of (ic_message C) (bare_event m))
     (join_parts (part ''message'' (ic_body C) (me_message m))
     (join_parts (part ''raw'' (ic_body C) (me_raw m))
     (join_parts (part ''web'' (ic_web C) (me_web m))
     (join_parts (part ''certificate'' (ic_certificate C) (certificate_of m))
       (part ''details'' (ic_details C) (details_of m))))))"
| "encode_pending C (History_event h) = pending_entry ''history''
     (enc_of (ic_history C) \<lparr>he_data = None, he_notification = None\<rparr>)
     (join_parts (part ''history'' (ic_data C) (he_data h))
       (part ''notification'' (ic_notification C) (he_notification h)))"
| "encode_pending C (Chat_event h) = pending_entry ''history-chat''
     (enc_of (ic_chat C) (h\<lparr>hc_conversation := None\<rparr>))
     (part ''conversation'' (ic_conversation C) (hc_conversation h))"
| "encode_pending C (Receipt_event r) = pending_entry ''receipt'' (enc_of (ic_receipt C) r) (Inr [])"

section \<open>Decoding\<close>

text \<open>A part that is there replaces the field; one that is not leaves it as the JSON had it.\<close>

definition take_part :: "string \<Rightarrow> ('a, 'b) proto_scheme \<Rightarrow> (string \<times> string) list \<Rightarrow> ('a option \<Rightarrow> 'r \<Rightarrow> 'r) \<Rightarrow>
    go_error + 'r \<times> nat \<Rightarrow> go_error + 'r \<times> nat" where
  "take_part k p parts put acc = (case acc of Inl e \<Rightarrow> Inl e
     | Inr (r, n) \<Rightarrow> (case map_of (rev parts) k of None \<Rightarrow> Inr (r, n)
       | Some b \<Rightarrow> map_sum id (\<lambda>x. (put (Some x) r, n + 1)) (pr_unmarshal p b)))"

definition all_taken :: "(string \<times> string) list \<Rightarrow> go_error + 'r \<times> nat \<Rightarrow> go_error + 'r" where
  "all_taken parts acc = (case acc of Inl e \<Rightarrow> Inl e
     | Inr (r, n) \<Rightarrow> if n \<noteq> card (fst ` set parts) then Inl (ErrText ''unknown inbox payload'') else Inr r)"

definition put_verified :: "(verified_name \<Rightarrow> verified_name) \<Rightarrow> message_event \<Rightarrow> message_event" where
  "put_verified f m = m\<lparr>me_verified := map_option f (me_verified m)\<rparr>"

definition fill_message :: "inbox_codecs \<Rightarrow> (string \<times> string) list \<Rightarrow> message_event \<Rightarrow> go_error + message_event" where
  "fill_message C ps m = all_taken ps
     ((if me_verified m = None then id else
         take_part ''details'' (ic_details C) ps (\<lambda>x. put_verified (\<lambda>v. v\<lparr>vn_details := x\<rparr>)) \<circ>
         take_part ''certificate'' (ic_certificate C) ps (\<lambda>x. put_verified (\<lambda>v. v\<lparr>vn_certificate := x\<rparr>)))
     (take_part ''web'' (ic_web C) ps (\<lambda>x m. m\<lparr>me_web := x\<rparr>)
     (take_part ''raw'' (ic_body C) ps (\<lambda>x m. m\<lparr>me_raw := x\<rparr>)
     (take_part ''message'' (ic_body C) ps (\<lambda>x m. m\<lparr>me_message := x\<rparr>) (Inr (m, 0))))))"

definition fill_history :: "inbox_codecs \<Rightarrow> (string \<times> string) list \<Rightarrow> history_event \<Rightarrow> go_error + history_event" where
  "fill_history C ps h = all_taken ps
     (take_part ''notification'' (ic_notification C) ps (\<lambda>x h. h\<lparr>he_notification := x\<rparr>)
     (take_part ''history'' (ic_data C) ps (\<lambda>x h. h\<lparr>he_data := x\<rparr>) (Inr (h, 0))))"

definition fill_chat :: "inbox_codecs \<Rightarrow> (string \<times> string) list \<Rightarrow> history_chat \<Rightarrow> go_error + history_chat" where
  "fill_chat C ps h = all_taken ps
     (take_part ''conversation'' (ic_conversation C) ps (\<lambda>x h. h\<lparr>hc_conversation := x\<rparr>) (Inr (h, 0)))"

text \<open>
  A version 0 entry is its JSON alone.  A receipt has no parts.
\<close>

definition decode_as :: "pending_event \<Rightarrow> (json \<Rightarrow> 'a option) \<Rightarrow> ((string \<times> string) list \<Rightarrow> 'a \<Rightarrow> go_error + 'a) \<Rightarrow>
    ('a \<Rightarrow> pending) \<Rightarrow> go_error + pending" where
  "decode_as e dec fill wrap = (case unmarshal dec (pe_data e) of Inl err \<Rightarrow> Inl err
     | Inr x \<Rightarrow> map_sum id wrap (if pe_version e = 0 then Inr x else fill (pe_payloads e) x))"

definition decode_entry :: "inbox_codecs \<Rightarrow> pending_event \<Rightarrow> go_error + pending" where
  "decode_entry C e =
    (if pe_version e \<noteq> 0 \<and> pe_version e \<noteq> 1 then Inl (ErrText ''unsupported inbox version'')
     else if pe_kind e = ''message'' then decode_as e (dec_of (ic_message C)) (fill_message C) Message_event
     else if pe_kind e = ''history'' then decode_as e (dec_of (ic_history C)) (fill_history C) History_event
     else if pe_kind e = ''history-chat'' then decode_as e (dec_of (ic_chat C)) (fill_chat C) Chat_event
     else if pe_kind e = ''receipt'' then decode_as e (dec_of (ic_receipt C))
       (\<lambda>ps r. all_taken ps (Inr (r, 0))) Receipt_event
     else Inl (ErrText ''unknown inbox kind''))"

definition decode_pending :: "inbox_codecs \<Rightarrow> payload \<Rightarrow> go_error + pending" where
  "decode_pending C raw = (case unmarshal dec_pending raw of Inl e \<Rightarrow> Inl e | Inr e \<Rightarrow> decode_entry C e)"

section \<open>The inbox\<close>

definition pad20 :: "nat \<Rightarrow> string" where  \<comment> \<open>\<open>%020d\<close>\<close>
  "pad20 n = (let d = decimal n in replicate (20 - length d) (CHR ''0'') @ d)"

definition as_u64 :: "json \<Rightarrow> u64 option" where
  "as_u64 j = as_unsigned j 0"

definition count_at :: "string \<Rightarrow> string \<Rightarrow> u64 dbtx" where
  "count_at ns i = bind_tx (wa_get ns ''meta'' i as_u64) (\<lambda>v.
     return_tx (case v of None \<Rightarrow> 0 | Some n \<Rightarrow> n))"

definition quarantined :: "string \<Rightarrow> u64 dbtx" where
  "quarantined ns = count_at ns ''quarantined''"

definition store_pending :: "string \<Rightarrow> pending_event \<Rightarrow> string dbtx" where
  "store_pending ns e = wa_txn (bind_tx (count_at ns ''inbox-sequence'') (\<lambda>n.
     let i = pad20 (unat (n + 1)) in
     then_tx (wa_put ns ''meta'' ''inbox-sequence'' (JNum (uint (n + 1))))
     (then_tx (wa_put ns ''inbox'' i (enc_pending e)) (return_tx i))))"

definition ingest_event :: "inbox_codecs \<Rightarrow> wa_provider \<Rightarrow> pending \<Rightarrow> string bact" where  \<comment> \<open>\<open>ingest\<close>\<close>
  "ingest_event C P e = bind_act (lift_act (encode_pending C e)) (\<lambda>entry.
     cred (store_pending (wp_ns P) entry))"

definition quarantine :: "string \<Rightarrow> string \<Rightarrow> payload \<Rightarrow> unit dbtx" where
  "quarantine ns i raw = wa_txn (then_tx (wa_write ns ''quarantine'' i (Some raw))
     (bind_tx (quarantined ns) (\<lambda>n.
      then_tx (wa_put ns ''meta'' ''quarantined'' (JNum (uint (n + 1)))) (wa_del ns ''inbox'' i))))"

end
