(* ===== verification/WaHistory.thy ===== *)
theory WaHistory
  imports WaInbox
begin

text \<open>
  History from the phone (\<open>internal/whatsapp/history.go\<close>), older pages on demand (\<open>MessagePage\<close> of
  \<open>events.go\<close>) and \<open>Drain\<close>, which works through the inbox.  A history event is expanded into one
  inbox entry per conversation, and a conversation into one entry per message, so every step is
  small and durable.
\<close>

section \<open>Boundaries\<close>

record boundary =
  hb_chat :: jid
  hb_id :: string
  hb_time :: time
  hb_from_me :: bool

definition zero_boundary :: boundary where
  "zero_boundary = \<lparr>hb_chat = empty_jid, hb_id = [], hb_time = 0, hb_from_me = False\<rparr>"

definition enc_boundary :: "wa_library \<Rightarrow> boundary \<Rightarrow> json" where
  "enc_boundary W x = JObj ((''Chat'', enc_of (wl_jid W) (hb_chat x)) # jstr ''ID'' (hb_id x) @
     jtime ''Timestamp'' (hb_time x) @ jbool ''IsFromMe'' (hb_from_me x))"

definition set_boundary :: "wa_library \<Rightarrow> string \<Rightarrow> json \<Rightarrow> boundary \<Rightarrow> boundary option" where
  "set_boundary W k v x =
    (if k = ''Chat'' then map_option (\<lambda>j. x\<lparr>hb_chat := j\<rparr>) (dec_of (wl_jid W) v)
     else if k = ''ID'' then map_option (\<lambda>i. x\<lparr>hb_id := i\<rparr>) (as_str v (hb_id x))
     else if k = ''Timestamp'' then map_option (\<lambda>t. x\<lparr>hb_time := t\<rparr>) (as_time v (hb_time x))
     else if k = ''IsFromMe'' then map_option (\<lambda>b. x\<lparr>hb_from_me := b\<rparr>) (as_bool v (hb_from_me x))
     else Some x)"

definition dec_boundary :: "wa_library \<Rightarrow> json \<Rightarrow> boundary option" where
  "dec_boundary W = decode_struct (set_boundary W) zero_boundary"

record wa_page_request =
  hq_oldest :: boundary
  hq_time :: time

definition enc_wa_page_request :: "wa_library \<Rightarrow> wa_page_request \<Rightarrow> json" where
  "enc_wa_page_request W r = JObj ((''Oldest'', enc_boundary W (hq_oldest r)) # jtime ''Time'' (hq_time r))"

definition set_wa_page_request :: "wa_library \<Rightarrow> string \<Rightarrow> json \<Rightarrow> wa_page_request \<Rightarrow> wa_page_request option" where
  "set_wa_page_request W k v r =
    (if k = ''Oldest'' then map_option (\<lambda>x. r\<lparr>hq_oldest := x\<rparr>) (decode_struct (set_boundary W) (hq_oldest r) v)
     else if k = ''Time'' then map_option (\<lambda>t. r\<lparr>hq_time := t\<rparr>) (as_time v (hq_time r))
     else Some r)"

definition dec_wa_page_request :: "wa_library \<Rightarrow> json \<Rightarrow> wa_page_request option" where
  "dec_wa_page_request W = decode_struct (set_wa_page_request W) \<lparr>hq_oldest = zero_boundary, hq_time = 0\<rparr>"

record history_response =
  hs_pending :: "string list"
  hs_request :: string
  hs_oldest :: boundary

definition enc_history_response :: "wa_library \<Rightarrow> history_response \<Rightarrow> json" where
  "enc_history_response W r = JObj (jlist ''Pending'' JStr (hs_pending r) @
     jstr ''RequestID'' (hs_request r) @ [(''Oldest'', enc_boundary W (hs_oldest r))])"

definition set_history_response :: "wa_library \<Rightarrow> string \<Rightarrow> json \<Rightarrow> history_response \<Rightarrow> history_response option" where
  "set_history_response W k v r =
    (if k = ''Pending'' then map_option (\<lambda>x. r\<lparr>hs_pending := x\<rparr>) (as_list elem_str v)
     else if k = ''RequestID'' then map_option (\<lambda>x. r\<lparr>hs_request := x\<rparr>) (as_str v (hs_request r))
     else if k = ''Oldest'' then map_option (\<lambda>x. r\<lparr>hs_oldest := x\<rparr>) (decode_struct (set_boundary W) (hs_oldest r) v)
     else Some r)"

definition dec_history_response :: "wa_library \<Rightarrow> json \<Rightarrow> history_response option" where
  "dec_history_response W = decode_struct (set_history_response W)
     \<lparr>hs_pending = [], hs_request = [], hs_oldest = zero_boundary\<rparr>"

lemma boundary_members:
  assumes "codec_ok (wl_jid W)"
  shows "decode_struct (set_boundary W) y (enc_boundary W x) = Some x"
  using assms by (cases x; cases y)
    (simp add: enc_boundary_def set_boundary_def json_members codec_ok_def)

lemma wa_page_request_round_trip:
  "codec_ok (wl_jid W) \<Longrightarrow> dec_wa_page_request W (enc_wa_page_request W r) = Some r"
  by (cases r) (simp add: enc_wa_page_request_def dec_wa_page_request_def set_wa_page_request_def
      json_members boundary_members)

lemma history_response_round_trip:
  "codec_ok (wl_jid W) \<Longrightarrow> dec_history_response W (enc_history_response W r) = Some r"
  by (cases r) (simp add: enc_history_response_def dec_history_response_def set_history_response_def
      json_members boundary_members decode_all_map)

section \<open>History events\<close>

definition no_history :: history_data where
  "no_history = \<lparr>hd_mappings = [], hd_push_names = [], hd_conversations = [], hd_on_demand = False\<rparr>"

text \<open>\<open>History\<close>; a getter of a nil message gives the zero value.\<close>

definition expand_history :: "inbox_codecs \<Rightarrow> wa_provider \<Rightarrow> history_event \<Rightarrow> unit bact" where
  "expand_history C P e = (let W = wp_library P; d = (case he_data e of None \<Rightarrow> no_history | Some d \<Rightarrow> d) in
     then_act (for_act (\<lambda>(pn0, lid0). bind_act (parse_jid W pn0) (\<lambda>pn. bind_act (parse_jid W lid0) (\<lambda>lid.
         cred (put_lid_mapping W (wp_ns P) lid pn)))) (hd_mappings d))
     (then_act (for_act (\<lambda>(i, name). case wl_parse W i of None \<Rightarrow> return_act ()
         | Some j \<Rightarrow> bind_act (cred (put_push_name W (wp_ns P) j name)) (\<lambda>_. return_act ())) (hd_push_names d))
     (for_act (\<lambda>c. bind_act (ingest_event C P (Chat_event \<lparr>hc_conversation = Some c, hc_on_demand = hd_on_demand d\<rparr>))
         (\<lambda>_. return_act ())) (hd_conversations d))))"

definition no_conversation :: wa_conversation where
  "no_conversation = \<lparr>wv_id = [], wv_pn = [], wv_lid = [], wv_archived = False, wv_pinned = False,
     wv_mute_end = 0, wv_messages = [], wv_name = [], wv_last_message = 0, wv_timestamp = 0,
     wv_unread = None, wv_marked = False\<rparr>"

definition unix_time :: "u64 \<Rightarrow> time" where  \<comment> \<open>\<open>time.Unix(int64(n), 0)\<close>\<close>
  "unix_time n = (sint n + 62135596800) * second"

definition initial_settings :: "wa_provider \<Rightarrow> jid \<Rightarrow> wa_conversation \<Rightarrow> unit bact" where
  "initial_settings P chat c = (let W = wp_library P; ns = wp_ns P in
     bind_act (cred (get_chat_settings W ns chat)) (\<lambda>settings.
     when_act (\<not> cs_found settings)
       (then_act (cred (put_archived W ns chat (wv_archived c)))
       (then_act (cred (put_pinned W ns chat (wv_pinned c)))
       (when_act (wv_mute_end c > 0) (cred (put_muted_until W ns chat (unix_time (wv_mute_end c)))))))))"

definition older :: "message_event \<Rightarrow> boundary \<Rightarrow> boundary" where
  "older m oldest = (if hb_id oldest = [] \<or> wi_time (me_info m) < hb_time oldest
     then \<lparr>hb_chat = so_chat (wi_source (me_info m)), hb_id = wi_id (me_info m), hb_time = wi_time (me_info m),
           hb_from_me = so_from_me (wi_source (me_info m))\<rparr>
     else oldest)"

text \<open>The messages of a conversation go to the inbox, and the oldest one is remembered.\<close>

definition queue_messages :: "inbox_codecs \<Rightarrow> wa_provider \<Rightarrow> jid \<Rightarrow> string list \<Rightarrow> (string list \<times> boundary) bact" where
  "queue_messages C P chat webs = fold_act (\<lambda>web (pending, oldest).
     bind_act (lift_act (ic_parse C chat web)) (\<lambda>r. case r of
         None \<Rightarrow> return_act (pending, oldest)
       | Some m \<Rightarrow> bind_act (ingest_event C P (Message_event m)) (\<lambda>i.
           return_act (pending @ [i], older m oldest)))) webs ([], zero_boundary)"

definition history_conversation :: "wa_conversation \<Rightarrow> conversation \<Rightarrow> conversation" where
  "history_conversation c conv = (let stamp = max (wv_last_message c) (wv_timestamp c);
     updated = (if stamp > 0 then unix_time stamp else 0) in
     if c_updated conv = 0 \<or> updated > c_updated conv
     then (case wv_unread c of None \<Rightarrow> conv\<lparr>c_updated := updated\<rparr>
       | Some n \<Rightarrow> conv\<lparr>c_updated := updated, c_unread_count := n, c_unread := (n > 0 \<or> wv_marked c)\<rparr>)
     else conv)"

definition chat_mapping :: "wa_provider \<Rightarrow> wa_conversation \<Rightarrow> unit bact" where
  "chat_mapping P c = when_act (wv_pn c \<noteq> [] \<and> wv_lid c \<noteq> [])
     (bind_act (parse_jid (wp_library P) (wv_pn c)) (\<lambda>pn. bind_act (parse_jid (wp_library P) (wv_lid c)) (\<lambda>lid.
       cred (put_lid_mapping (wp_library P) (wp_ns P) lid pn))))"

definition note_response :: "wa_provider \<Rightarrow> string \<Rightarrow> bool \<Rightarrow> string list \<Rightarrow> boundary \<Rightarrow> unit bact" where
  "note_response P i on_demand pending oldest = (let W = wp_library P; ns = wp_ns P in
     bind_act (cred (wa_get ns ''history-request'' i (dec_wa_page_request W))) (\<lambda>request. case request of
         None \<Rightarrow> return_act ()
       | Some r \<Rightarrow> when_act on_demand (cred (wa_put ns ''history-response'' i (enc_history_response W
           \<lparr>hs_pending = pending, hs_request = hb_id (hq_oldest r), hs_oldest = oldest\<rparr>)))))"

definition history_chat_snapshots :: "inbox_codecs \<Rightarrow> wa_provider \<Rightarrow> history_chat \<Rightarrow> provider_snapshot list bact" where
  \<comment> \<open>\<open>HistoryChat\<close>\<close>
  "history_chat_snapshots C P h = (let W = wp_library P;
       c = (case hc_conversation h of None \<Rightarrow> no_conversation | Some c \<Rightarrow> c) in
     bind_act (parse_jid W (wv_id c)) (\<lambda>chat0.
     if \<not> chat_supported W chat0 then return_act []
     else then_act (chat_mapping P c)
       (bind_act (canonical P chat0) (\<lambda>chat.
        then_act (initial_settings P chat c)
        (bind_act (queue_messages C P chat0 (wv_messages c)) (\<lambda>(pending, oldest).
         then_act (note_response P (wl_string W chat) (hc_on_demand h) pending oldest)
         (bind_act (conversation_snapshot P chat (wv_name c)) (\<lambda>snap.
          bind_act (lift_act (unmarshal dec_conversation (ev_data (sn_event snap)))) (\<lambda>conv.
          return_act [wa_snapshot ''conversation'' (c_id conv)
            (enc_conversation (history_conversation c conv))])))))))))"

section \<open>Drain\<close>

definition event_snapshots :: "inbox_codecs \<Rightarrow> wa_provider \<Rightarrow> pending \<Rightarrow> provider_snapshot list bact" where
  "event_snapshots C P e = (case e of
       Message_event m \<Rightarrow> message_snapshots P m
     | Chat_event h \<Rightarrow> history_chat_snapshots C P h
     | History_event h \<Rightarrow> then_act (expand_history C P h) (return_act [])
     | Receipt_event r \<Rightarrow> receipt_snapshots P r)"

definition is_storage :: "go_error \<Rightarrow> bool" where
  "is_storage e \<longleftrightarrow> (\<exists>x. e = ErrStored x)"

lemma is_storage_code [code, simp]:
  "is_storage (ErrStored x) = True"
  "(\<And>x. e \<noteq> ErrStored x) \<Longrightarrow> is_storage e = False"
  by (auto simp: is_storage_def)

definition drain_entry :: "inbox_codecs \<Rightarrow> wa_provider \<Rightarrow> (provider_snapshot \<Rightarrow> unit bact) \<Rightarrow>
    string \<times> payload \<Rightarrow> unit bact" where
  "drain_entry C P save row = bind_act (get_act b_done) (\<lambda>ended.
     if ended then fail_act ErrCanceled
     else bind_act (try_act (bind_act (lift_act (decode_pending C (snd row))) (event_snapshots C P))) (\<lambda>r. case r of
         Inr snaps \<Rightarrow> then_act (for_act save snaps) (cred (wa_del (wp_ns P) ''inbox'' (fst row)))
       | Inl e \<Rightarrow> if errors_is e ErrUnavailable then return_act ()
           else bind_act (get_act b_done) (\<lambda>ended.
             if is_storage e \<or> ended then fail_act e
             else cred (quarantine (wp_ns P) (fst row) (snd row)))))"

definition drain :: "inbox_codecs \<Rightarrow> wa_provider \<Rightarrow> (provider_snapshot \<Rightarrow> unit bact) \<Rightarrow> unit bact" where
  "drain C P save = bind_act (cred (wa_scan (wp_ns P) ''inbox'')) (\<lambda>rows.
     for_act (drain_entry C P save) (sort_by (\<lambda>x y. fst x < fst y) rows))"

section \<open>Older pages\<close>

text \<open>The oldest message there is, from the cursor, the request under way, or the stored messages.\<close>

definition oldest_stored :: "wa_provider \<Rightarrow> string \<Rightarrow> boundary bact" where
  "oldest_stored P i = bind_act (view_db (conversation_messages i)) (\<lambda>(rows, _).
     fold_act (\<lambda>raw oldest. bind_act (lift_act (unmarshal dec_message (sr_data raw))) (\<lambda>m.
       if hb_id oldest = [] \<or> m_time m < hb_time oldest
       then bind_act (parse_jid (wp_library P) i) (\<lambda>chat. return_act
         \<lparr>hb_chat = chat, hb_id = message_remote_id (m_id m), hb_time = m_time m,
          hb_from_me = (m_direction m = ''outgoing'')\<rparr>)
       else return_act oldest)) rows zero_boundary)"

definition page_start :: "wa_provider \<Rightarrow> string \<Rightarrow> payload \<Rightarrow> wa_page_request option \<Rightarrow> boundary bact" where
  "page_start P i cursor requested =
    (if cursor \<noteq> Opaque [] then (case unmarshal (dec_boundary (wp_library P)) cursor of
         Inl e \<Rightarrow> fail_act ErrInvalidCursor | Inr b \<Rightarrow> return_act b)
     else (case requested of Some r \<Rightarrow> return_act (hq_oldest r) | None \<Rightarrow> oldest_stored P i))"

definition pending_left :: "wa_provider \<Rightarrow> string list \<Rightarrow> unit bact" where
  "pending_left P ids = for_act (\<lambda>i. bind_act (view_db (network_get (wa_key (wp_ns P) ''inbox'' i))) (\<lambda>raw.
     if raw \<noteq> None then fail_act ErrUnavailable else return_act ())) ids"

definition ask_history :: "wa_provider \<Rightarrow> wa_client \<Rightarrow> (boundary \<Rightarrow> wa_message) \<Rightarrow> string \<Rightarrow> boundary \<Rightarrow>
    (provider_snapshot list \<times> payload) bact" where
  "ask_history P cl request i oldest = bind_act (get_act now) (\<lambda>t.
     then_act (cred (wa_put (wp_ns P) ''history-request'' i (enc_wa_page_request (wp_library P)
       \<lparr>hq_oldest = oldest, hq_time = t\<rparr>)))
     (bind_act (wc_send cl (wl_plain (wp_library P) (wp_own_jid P)) (request oldest) Peer) (\<lambda>_.
      fail_act ErrUnavailable)))"

definition asked_recently :: "wa_page_request option \<Rightarrow> boundary \<Rightarrow> time \<Rightarrow> bool" where
  "asked_recently requested oldest t = (case requested of None \<Rightarrow> False
     | Some q \<Rightarrow> hb_id (hq_oldest q) = hb_id oldest \<and> t - hq_time q < 2 * minute)"

definition answered_page :: "wa_provider \<Rightarrow> history_response \<Rightarrow> boundary \<Rightarrow> (provider_snapshot list \<times> payload) bact" where
  "answered_page P r oldest = then_act (pending_left P (hs_pending r))
     (return_act ([], if hb_id (hs_oldest r) = [] \<or> \<not> hb_time (hs_oldest r) < hb_time oldest then Opaque []
        else JText (enc_boundary (wp_library P) (hs_oldest r))))"

definition wa_message_page :: "wa_provider \<Rightarrow> wa_client \<Rightarrow> (boundary \<Rightarrow> wa_message) \<Rightarrow> string \<Rightarrow> payload \<Rightarrow>
    (provider_snapshot list \<times> payload) bact" where  \<comment> \<open>\<open>MessagePage\<close>\<close>
  "wa_message_page P cl request i cursor = (let W = wp_library P; ns = wp_ns P in
     bind_act (cred (wa_get ns ''history-request'' i (dec_wa_page_request W))) (\<lambda>requested.
     bind_act (page_start P i cursor requested) (\<lambda>oldest.
     if hb_id oldest = [] then fail_act ErrUnsupportedCursor
     else bind_act (cred (wa_get ns ''history-response'' i (dec_history_response W))) (\<lambda>response.
       bind_act (get_act now) (\<lambda>t.
       case (case response of Some r \<Rightarrow> if hs_request r = hb_id oldest then Some r else None | None \<Rightarrow> None) of
         Some r \<Rightarrow> answered_page P r oldest
       | None \<Rightarrow> if asked_recently requested oldest t then fail_act ErrUnavailable
           else ask_history P cl request i oldest)))))"

section \<open>The provider\<close>

definition whatsapp_provider :: "wa_provider \<Rightarrow> wa_client \<Rightarrow> (boundary \<Rightarrow> wa_message) \<Rightarrow> provider" where
  "whatsapp_provider P cl request = \<lparr>
     pv_conversations = wa_conversations P,
     pv_messages = (\<lambda>_. return_act []),
     pv_contacts = wa_contacts P,
     pv_create = wa_create P cl,
     pv_react = wa_react P cl,
     pv_typing = wa_typing P cl,
     pv_upload = wa_upload P cl,
     pv_message_page = wa_message_page P cl request,
     pv_conversation_page = wa_conversation_page P,
     pv_prepare = wa_prepare P,
     pv_send = wa_send P cl,
     pv_mark_read = wa_mark_read P cl,
     pv_attachment = wa_attachment P cl,
     pv_request_media = (\<lambda>_. fail_act ErrRejected)\<rparr>"

end
