(* ===== verification/WaSync.thy ===== *)
theory WaSync
  imports WaHistory
begin

text \<open>
  Syncing the account's app state (\<open>internal/whatsapp/appstate.go\<close>): each collection is fetched
  once per connection, in full until one fetch of it has completed, and again after an error is
  reported for it.  \<open>app_sync\<close> is what \<open>AppStateSync\<close> keeps in memory beside the bridge; a fetch is
  an action on both, so a retry may be asked for while it runs.  Diagnostics are left out, but for
  the counts of \<open>Diagnose\<close>.
\<close>

record app_sync =
  as_done :: "string \<Rightarrow> bool"
  as_retry :: "string \<Rightarrow> u64"

definition fresh_sync :: app_sync where
  "fresh_sync = \<lparr>as_done = (\<lambda>_. False), as_retry = (\<lambda>_. 0)\<rparr>"

type_synonym 'a app_act = "(bridge \<times> app_sync, 'a) act"

definition on_base :: "'a bact \<Rightarrow> 'a app_act" where
  "on_base m w = (case m (fst w) of (r, b) \<Rightarrow> (r, (b, snd w)))"

definition mod_sync :: "(app_sync \<Rightarrow> app_sync) \<Rightarrow> unit app_act" where
  "mod_sync f = mod_act (\<lambda>(b, a). (b, f a))"

definition note_complete :: "wa_provider \<Rightarrow> string \<Rightarrow> bool \<Rightarrow> unit app_act" where
  "note_complete P name b = on_base (cred (wa_put (wp_ns P) ''appsync'' name (JBool b)))"

definition retry_sync :: "wa_provider \<Rightarrow> string \<Rightarrow> unit app_act" where  \<comment> \<open>\<open>Retry\<close>\<close>
  "retry_sync P name = then_act (note_complete P name False)
     (mod_sync (\<lambda>a. a\<lparr>as_retry := (as_retry a)(name := as_retry a name + 1), as_done := (as_done a)(name := False)\<rparr>))"

text \<open>\<open>fetch name full\<close> is \<open>FetchAppState\<close>.\<close>

definition sync_one :: "wa_provider \<Rightarrow> (string \<Rightarrow> bool \<Rightarrow> unit app_act) \<Rightarrow> string \<Rightarrow> go_error list \<Rightarrow> go_error list app_act" where
  "sync_one P fetch name failures =
     bind_act (get_act (\<lambda>w. as_done (snd w) name)) (\<lambda>fetched.
     bind_act (get_act (\<lambda>w. as_retry (snd w) name)) (\<lambda>generation.
     if fetched then return_act failures
     else bind_act (on_base (cred (wa_get (wp_ns P) ''appsync'' name (\<lambda>j. as_bool j False)))) (\<lambda>found.
       then_act (note_complete P name False)
       (bind_act (try_act (fetch name (found \<noteq> Some True))) (\<lambda>r. case r of
           Inl e \<Rightarrow> return_act (failures @ [e])
         | Inr _ \<Rightarrow> then_act (note_complete P name True)
             (then_act (mod_sync (\<lambda>a. a\<lparr>as_done := (as_done a)(name := as_retry a name = generation)\<rparr>))
               (return_act failures)))))))"

text \<open>\<open>Sync\<close>; the result lists the failures it joins into its error.\<close>

definition sync_app_state :: "wa_provider \<Rightarrow> (string \<Rightarrow> bool \<Rightarrow> unit app_act) \<Rightarrow> string list \<Rightarrow> go_error list app_act" where
  "sync_app_state P fetch names =
     bind_act (on_base (cred (latest_app_key (wp_library P) (wp_ns P)))) (\<lambda>key.
     if key = [] then fail_act (ErrText ''key not found'')
     else fold_act (sync_one P fetch) names [])"

section \<open>Diagnose\<close>

definition kind_counted :: "string list" where
  "kind_counted = [''message'', ''history'', ''history-chat'', ''receipt'']"

definition set_header :: "string \<Rightarrow> json \<Rightarrow> string \<Rightarrow> string option" where
  "set_header k v kind = (if k = ''Kind'' then as_str v kind else Some kind)"

definition count_kind :: "payload list \<Rightarrow> string \<Rightarrow> nat" where
  "count_kind rows kind = length (filter (\<lambda>raw. unmarshal (decode_struct set_header []) raw = Inr kind) rows)"

definition stored_counts :: "string \<Rightarrow> payload list \<Rightarrow> (string \<times> nat) list" where
  "stored_counts kind rows = (''stored_'' @ kind, length rows) #
     (if kind = ''inbox'' \<or> kind = ''quarantine''
      then map (\<lambda>name. (''stored_'' @ kind @ ''_'' @ name, count_kind rows name))
        (filter (\<lambda>name. count_kind rows name > 0) kind_counted)
      else [])"

definition diagnose :: "wa_provider \<Rightarrow> (string \<times> nat) list bact" where  \<comment> \<open>\<open>Diagnose\<close>, with the lines it logs\<close>
  "diagnose P = fold_act (\<lambda>kind out. bind_act (cred (wa_scan (wp_ns P) kind)) (\<lambda>rows.
     return_act (out @ stored_counts kind (map snd rows))))
     [''contact'', ''appkey'', ''appversion'', ''inbox'', ''quarantine''] []"

end
