(* ===== verification/WaRuns.thy ===== *)
theory WaRuns
  imports WaKeys WaSync Runs
begin

text \<open>
  The credential store run forward, as \<open>Runs\<close> does for the store: what its calls return on a state
  where they succeed, and a concrete library on which the laws of \<open>library_ok\<close> hold.  With them
  \<open>simp\<close> evaluates an operation on the empty database.
\<close>

lemma lookup_set_row [simp]:
  "lookup (set_row k v s) BNetwork k' = (if k' = k
     then map_option (\<lambda>p. Sealed (cipher_key s) (network_context k) p) v else lookup s BNetwork k')"
  by (auto simp: set_row_def split: option.splits)

lemma wa_write_run [runs]:
  "length (wa_key ns kind i) \<le> MaxKeySize \<Longrightarrow> wa_write ns kind i v s = Inr ((), set_row (wa_key ns kind i) v s)"
  by (simp add: wa_write_Inr)

lemma network_txn_run [runs]:
  "k \<noteq> [] \<Longrightarrow> length k \<le> MaxKeySize \<Longrightarrow> network_txn None (network_put k v) s = Inr ((), set_row k v s)"
  by (simp add: network_txn_put)

lemma wa_put_run [runs]:
  "length (wa_key ns kind i) \<le> MaxKeySize \<Longrightarrow>
   wa_put ns kind i v s = Inr ((), set_row (wa_key ns kind i) (Some (JText v)) s)"
  by (simp add: wa_put_Inr)

lemma wa_del_run [runs]: "wa_del ns kind i s = Inr ((), set_row (wa_key ns kind i) None s)"
  by (simp add: wa_del_Inr)

lemma wa_get_absent [runs]:
  "lookup s BNetwork (wa_key ns kind i) = None \<Longrightarrow> wa_get ns kind i dec s = Inr (None, s)"
  by (simp add: wa_get_def creds_failed_def network_get_def bget_plain_def has_bucket_def bget_def
      with_bucket_def exec lookup_def split: option.splits)

lemma wa_get_present [runs]:
  "lookup s BNetwork (wa_key ns kind i) = Some (Sealed (cipher_key s) (network_context (wa_key ns kind i)) p) \<Longrightarrow>
   unmarshal dec p = Inr v \<Longrightarrow> wa_get ns kind i dec s = Inr (Some v, s)"
  by (auto simp: wa_get_def creds_failed_def network_get_def bget_plain_def has_bucket_def bget_def
      with_bucket_def exec lookup_def decrypt_def split: option.splits)

lemma wa_get_hit [runs]:
  "row_at s ns kind i = Some p \<Longrightarrow> unmarshal dec p = Inr v \<Longrightarrow> wa_get ns kind i dec s = Inr (Some v, s)"
proof -
  assume at: "row_at s ns kind i = Some p" and dec: "unmarshal dec p = Inr v"
  then obtain c where c: "lookup s BNetwork (wa_key ns kind i) = Some c"
    "open_cell (cipher_key s) (network_context (wa_key ns kind i)) c = Inr p"
    by (auto simp: row_at_def network_at_def split: option.splits sum.splits)
  then have "c = Sealed (cipher_key s) (network_context (wa_key ns kind i)) p"
    by (cases c) (auto split: if_splits)
  with c(1) dec show ?thesis by (intro wa_get_present) simp_all
qed

lemma wa_scan_none [runs]: "pairs s BNetwork = [] \<Longrightarrow> wa_scan ns kind s = Inr ([], s)"
  by (auto simp: wa_scan_def creds_failed_def network_scan_def has_bucket_def bscan_def with_bucket_def
      exec pairs_def kv_scan_def split: option.splits)

lemma wa_scan_single:
  assumes "pairs s BNetwork = [(wa_key ns k i, Sealed (cipher_key s) (network_context (wa_key ns k i)) p)]"
    and "plain_name_part k" and "plain_name_part kind"
  shows "wa_scan ns kind s = Inr (if kind = k then [(i, p)] else [], s)"
proof -
  have pre: "prefix (wa_key ns kind []) (wa_key ns k i) \<longleftrightarrow> kind = k"
    using wa_key_kinds [OF assms(2,3), of ns i] by (auto simp: wa_key_prefix)
  have "kv_scan (wa_key ns kind []) (pairs s BNetwork) =
      (if kind = k then [(wa_key ns k i, Sealed (cipher_key s) (network_context (wa_key ns k i)) p)] else [])"
    using assms(1) pre by (subst kv_scan_filter) auto
  moreover from assms(1) have "db s BNetwork \<noteq> None" by (auto simp: pairs_def split: option.splits)
  ultimately show ?thesis
    by (auto simp: wa_scan_def creds_failed_def network_scan_def has_bucket_def bscan_def with_bucket_def
        exec pairs_def decrypt_def)
qed

lemma pairs_moved:
  assumes "pairs s BNetwork = [(k, c)]" and "k' \<noteq> k"
  shows "pairs (set_row k None (set_row k' (Some p) s)) BNetwork = [(k', Sealed (cipher_key s) (network_context k') p)]"
  using assms by (auto simp: set_row_def pairs_simps kv_delete_def)

lemma pairs_first:
  "pairs s BNetwork = [] \<Longrightarrow> pairs (set_row k (Some p) s) BNetwork = [(k, Sealed (cipher_key s) (network_context k) p)]"
  by (simp add: set_row_def pairs_simps)

lemma wa_key_text [simp]: "length (wa_key ns kind i) = 5 + length ns + length kind + length i"
  by (simp add: wa_key_def)

lemma empty_network [simp]:
  "row_at (empty_store t) ns kind i = None" "network_sorted (empty_store t)"
  "counter_at (empty_store t) ns = 0"
  by (simp_all add: row_at_def network_at_def network_sorted_def counter_at_def)

lemma empty_keys_state: "keys_state W ns 0 (empty_store t)"
  by (simp add: keys_state_def pre_keys_ok_def)

lemma empty_lids_ok: "lids_ok W ns (empty_store t)"
  by (simp add: lids_ok_def half_ok_def paired_def)

section \<open>A library\<close>

fun server_name :: "server \<Rightarrow> string" where
  "server_name Default_server = ''s.whatsapp.net''"
| "server_name Hidden_server = ''lid''"
| "server_name Group_server = ''g.us''"
| "server_name Legacy_server = ''c.us''"
| "server_name Hosted_server = ''hosted''"
| "server_name Hosted_lid_server = ''hosted.lid''"
| "server_name (Other_server s) = s"

fun server_json :: "server \<Rightarrow> json" where
  "server_json Default_server = JNum 0"
| "server_json Hidden_server = JNum 1"
| "server_json Group_server = JNum 2"
| "server_json Legacy_server = JNum 3"
| "server_json Hosted_server = JNum 4"
| "server_json Hosted_lid_server = JNum 5"
| "server_json (Other_server s) = JStr s"

fun json_server :: "json \<Rightarrow> server" where
  "json_server (JNum n) = (if n = 0 then Default_server else if n = 1 then Hidden_server
     else if n = 2 then Group_server else if n = 3 then Legacy_server
     else if n = 4 then Hosted_server else Hosted_lid_server)"
| "json_server (JStr s) = Other_server s"
| "json_server _ = Other_server []"

fun json_jid :: "json \<Rightarrow> jid option" where
  "json_jid (JArr [JStr u, srv, JNum d, JNum r]) = Some \<lparr>ji_user = u, ji_server = json_server srv,
     ji_device = word_of_int d, ji_rest = nat r\<rparr>"
| "json_jid _ = None"

definition jid_json :: "jid \<Rightarrow> json" where
  "jid_json j = JArr [JStr (ji_user j), server_json (ji_server j), JNum (uint (ji_device j)), JNum (int (ji_rest j))]"

fun json_key :: "json \<Rightarrow> pre_key option" where
  "json_key (JArr [JNum n, JStr p]) = Some \<lparr>pk_id = word_of_int n, pk_pair = p\<rparr>"
| "json_key _ = None"

definition no_codec :: "'a codec" where
  "no_codec = \<lparr>enc_of = (\<lambda>_. JNull), dec_of = (\<lambda>_. None)\<rparr>"

definition sample_library :: wa_library where
  "sample_library = \<lparr>wl_plain = (\<lambda>j. j\<lparr>ji_device := 0\<rparr>),
     wl_string = (\<lambda>j. ji_user j @ ''@'' @ server_name (ji_server j)), wl_parse = (\<lambda>_. None),
     wl_empty = (\<lambda>j. ji_server j = Other_server []), wl_signal = ji_user, wl_compound = concat,
     wl_parts = (\<lambda>_. None), wl_new_key = (\<lambda>n. \<lparr>pk_id = n, pk_pair = ''pair''\<rparr>),
     wl_jid = \<lparr>enc_of = jid_json, dec_of = json_jid\<rparr>, wl_contact = no_codec, wl_chat = no_codec,
     wl_privacy = no_codec, wl_app_key = no_codec, wl_buffered = no_codec,
     wl_pre_key = \<lparr>enc_of = (\<lambda>k. JArr [JNum (uint (pk_id k)), JStr (pk_pair k)]), dec_of = json_key\<rparr>,
     wl_pair = \<lparr>enc_of = JStr, dec_of = elem_str\<rparr>,
     wl_account_bytes = (\<lambda>a. Inr a), wl_account = (\<lambda>b. Inr b), wl_account_json = (\<lambda>_. None)\<rparr>"

lemma json_server_json [simp]: "json_server (server_json v) = v"
  by (cases v) simp_all

lemma sample_library_ok: "library_ok sample_library"
proof -
  have "codec_ok (wl_jid sample_library)"
    by (simp add: codec_ok_def sample_library_def jid_json_def)
  moreover have "codec_ok (wl_pre_key sample_library)"
    by (simp add: codec_ok_def sample_library_def)
  moreover have "jids_ok sample_library"
    by (auto simp: jids_ok_def sample_library_def)
  ultimately show ?thesis by (simp add: library_ok_def sample_library_def)
qed

section \<open>Two addresses of one identity\<close>

definition sample_pn :: jid where
  "sample_pn = \<lparr>ji_user = ''15550100'', ji_server = Legacy_server, ji_device = 3, ji_rest = 0\<rparr>"

definition sample_lid :: jid where
  "sample_lid = \<lparr>ji_user = ''123'', ji_server = Hidden_server, ji_device = 0, ji_rest = 0\<rparr>"

lemma sample_fields [simp]:
  "ji_server sample_lid = Hidden_server" "ji_server sample_pn = Legacy_server" "ji_device sample_pn = 3"
  by (simp_all add: sample_lid_def sample_pn_def)

lemma sample_normal [simp]:
  "normalize_jid sample_library sample_pn = sample_pn\<lparr>ji_server := Default_server, ji_device := 0\<rparr>"
  "normalize_jid sample_library sample_lid = sample_lid"
  by (simp_all add: normalize_jid_def sample_library_def sample_pn_def sample_lid_def)

lemma sample_mapping:
  "\<exists>s'. put_lid_mapping sample_library ''d'' sample_lid sample_pn (empty_store 0) = Inr ((), s')"
proof -
  have empty: "wl_empty sample_library empty_jid" by (simp add: sample_library_def empty_jid_def)
  have absent: "mapped_jid sample_library ''d'' kind j (networked (empty_store 0)) = Inr (empty_jid, networked (empty_store 0))"
    for kind j
    using empty by (simp add: mapped_jid_def exec runs Let_def)
  have "length (plain_name sample_library sample_lid) < 100"
    "length (plain_name sample_library (sample_pn\<lparr>ji_server := Default_server, ji_device := 0\<rparr>)) < 100"
    by (simp_all add: plain_name_def sample_library_def sample_lid_def sample_pn_def)
  then show ?thesis
    using empty normalize_plain [OF sample_library_ok, of sample_lid]
    by (simp add: put_lid_mapping_def Let_def wa_txn_eq pn_for_lid_def lid_for_pn_def exec runs absent)
qed

end
