(* ===== verification/WaProperties.thy ===== *)
theory WaProperties
  imports WaRuns
begin

text \<open>
  What the WhatsApp side promises: one-time keys are handed out once, the two tables of identities
  mirror each other, message secrets are kept, a migration moves every session, other devices'
  rows and the rest of the database are left alone, and a phone number never becomes a public
  identity.
\<close>

section \<open>One-time keys\<close>

text \<open>C11: A batch of one-time keys (\<open>GetOrGenPreKeys\<close>) has exactly as many
  keys as asked for, in ascending order of their numbers, each stored and not yet uploaded; and a
  key generated at any later point of the device's life has a number above all of them, so no
  number is handed out for two keys.  The counter is assumed to have room below \<open>2 ^ 32\<close>.
\<close>

theorem one_time_keys_are_used_once:
  assumes "library_ok W" and "keys_state W ns c s"
    and "get_or_gen_pre_keys W ns n s = Inr (ks, s1)" and "c + unat n < 2 ^ 32"
    and "cred_steps W ns s1 s2" and "gen_one_pre_key W ns s2 = Inr (k, s3)" and "counter_at s2 ns + 1 < 2 ^ 32"
  shows "length ks = unat n \<and> sorted_wrt (<) (map pk_id ks) \<and>
    (\<forall>i \<in> set ks. pre_key_at W s1 ns (pk_id i) = Some \<lparr>pr_key = i, pr_uploaded = False\<rparr> \<and> pk_id i < pk_id k)"
proof -
  have st: "network_sorted s" "pre_keys_ok W ns s" "counter_at s ns = c"
    using assms(2) by (simp_all add: keys_state_def)
  have room: "counter_at s ns + unat n < 2 ^ 32" using assms(4) st(3) by simp
  note batch = get_or_gen_keeps [OF assms(1,3) room st(2,1)]
  have "network_sorted s1"
    using touches_sorted [OF upholdsD [OF touching_keys(3) [of all_kinds] assms(3)] st(1)]
    by (simp add: all_kinds_def)
  with batch(5) have "keys_state W ns (counter_at s1 ns) s1" by (simp add: keys_state_def)
  from steps_keep_keys [OF assms(1,5) this] obtain d where d: "counter_at s1 ns \<le> d" "keys_state W ns d s2"
    by blast
  then have s2: "pre_keys_ok W ns s2" "counter_at s2 ns = d" by (simp_all add: keys_state_def)
  have k: "unat (pk_id k) = d + 1"
    using gen_one_keeps(3) [OF assms(1,6,7) s2(1)] s2(2) by simp
  have "unat (pk_id i) \<le> counter_at s1 ns" if i: "i \<in> set ks" for i
  proof -
    from batch(3) [OF i] obtain p where "row_at s1 ns ''prekey'' (pre_key_name (pk_id i)) = Some p"
      "read_pre_key W p = Inr \<lparr>pr_key = i, pr_uploaded = False\<rparr>"
      by (auto simp: pre_key_at_def split: option.splits sum.splits)
    with batch(5) show ?thesis by (fastforce simp: pre_keys_ok_def)
  qed
  then have "pk_id i < pk_id k" if "i \<in> set ks" for i
    using that d(1) k by (fastforce simp: word_less_nat_alt)
  with batch(1-3) show ?thesis by blast
qed

text \<open>Two keys asked of a new device, and one more after them.\<close>

lemma sample_generate:
  assumes "row_at s ns ''meta'' ''prekey'' = v" and "length ns \<le> 100"
    and "lookup s BNetwork (wa_key ns ''meta'' ''prekey'') =
      map_option (Sealed (cipher_key s) (network_context (wa_key ns ''meta'' ''prekey''))) v"
    and "v = None \<and> m = 0 \<or> v = Some (JText (JNum (uint m)))"
    and "length (pre_key_name (m + 1)) \<le> 100"
  shows "generate_key sample_library ns b s = Inr (\<lparr>pk_id = m + 1, pk_pair = ''pair''\<rparr>,
     set_row (wa_key ns ''meta'' ''prekey'') (Some (JText (JNum (uint (m + 1)))))
      (set_row (wa_key ns ''prekey'' (pre_key_name (m + 1)))
        (Some (JText (enc_pre_key sample_library \<lparr>pr_key = \<lparr>pk_id = m + 1, pk_pair = ''pair''\<rparr>, pr_uploaded = b\<rparr>))) s))"
proof -
  have "key_counter ns s = Inr (m, s)"
    using assms(3,4) by (auto simp: key_counter_def exec runs as_u32_def)
  then show ?thesis
    using assms(2,5) by (simp add: generate_key_def Let_def exec runs sample_library_def MaxKeySize_def)
qed

lemma sample_names: "pre_key_name 1 = ''1''" "pre_key_name 2 = ''2''"
  by code_simp+

definition sample_key :: "u32 \<Rightarrow> pre_key" where
  "sample_key n = \<lparr>pk_id = n, pk_pair = ''pair''\<rparr>"

definition with_key :: "u32 \<Rightarrow> bool \<Rightarrow> store \<Rightarrow> store" where
  "with_key n b s = set_row (wa_key ''d'' ''meta'' ''prekey'') (Some (JText (JNum (uint n))))
     (set_row (wa_key ''d'' ''prekey'' (pre_key_name n))
       (Some (JText (enc_pre_key sample_library \<lparr>pr_key = sample_key n, pr_uploaded = b\<rparr>))) s)"

lemma sample_counter: "counter_at (with_key n b s) ''d'' = unat n"
  unfolding with_key_def by (rule counter_at_set_row)

lemma sample_batch:
  "get_or_gen_pre_keys sample_library ''d'' 1 (empty_store 0) = Inr ([sample_key 1], with_key 1 False (networked (empty_store 0)))"
proof -
  let ?t = "networked (empty_store 0)"
  have scan: "wa_scan ''d'' ''prekey'' ?t = Inr ([], ?t)" by (rule wa_scan_none) simp
  have gen: "generate_key sample_library ''d'' False ?t = Inr (sample_key 1, with_key 1 False ?t)"
    using sample_generate [of ?t "''d''" None 0 False]
    by (simp add: with_key_def sample_key_def sample_names)
  show ?thesis
    by (simp add: get_or_gen_pre_keys_def wa_txn_eq Let_def exec scan fresh_keys_def gen)
qed

lemma sample_next:
  "gen_one_pre_key sample_library ''d'' (with_key 1 False (networked (empty_store 0))) =
   Inr (sample_key 2, with_key 2 True (networked (with_key 1 False (networked (empty_store 0)))))"
proof -
  let ?t = "networked (with_key 1 False (networked (empty_store 0)))"
  show ?thesis
    using sample_generate [of ?t "''d''" "Some (JText (JNum (uint (1 :: u32))))" 1 True]
    by (simp add: gen_one_pre_key_def wa_txn_eq with_key_def sample_key_def sample_names)
qed

theorem one_time_keys_are_used_once_witness:
  "\<exists>s1 s3. get_or_gen_pre_keys sample_library ''d'' 1 (empty_store 0) = Inr ([sample_key 1], s1) \<and>
    gen_one_pre_key sample_library ''d'' s1 = Inr (sample_key 2, s3) \<and>
    pre_key_at sample_library s1 ''d'' 1 = Some \<lparr>pr_key = sample_key 1, pr_uploaded = False\<rparr>"
proof -
  let ?s1 = "with_key 1 False (networked (empty_store 0))"
  have room: "counter_at ?s1 ''d'' + 1 < 2 ^ 32" by (simp add: sample_counter)
  have refl: "cred_steps sample_library ''d'' ?s1 ?s1" by (simp add: cred_steps_def)
  from one_time_keys_are_used_once [OF sample_library_ok empty_keys_state sample_batch _ refl sample_next room]
  show ?thesis using sample_batch sample_next by (auto simp: sample_key_def)
qed

section \<open>Identities\<close>

text \<open>C12: the rows of the two tables of identities always come in pairs,
  each naming the other, whatever operations of the credential store ran before; and once an
  identity and a phone number are mapped, either lookup gives the other, with the device of the
  address that was asked for.\<close>

theorem identities_mirror_each_other:
  assumes "library_ok W" and "lids_ok W ns s"
    and "cred_steps W ns s s1" and "put_lid_mapping W ns lid pn s1 = Inr (u, s2)"
    and "ji_server (normalize_jid W lid) = Hidden_server" and "ji_server (normalize_jid W pn) = Default_server"
  shows "lids_ok W ns s2 \<and>
    lid_for_pn W ns pn s2 = Inr ((normalize_jid W lid)\<lparr>ji_device := ji_device pn\<rparr>, s2) \<and>
    pn_for_lid W ns lid s2 = Inr ((normalize_jid W pn)\<lparr>ji_device := ji_device lid\<rparr>, s2)"
proof -
  note put = put_lid_mapping_Inr [OF assms(1,4) steps_keep_lids [OF assms(1,3,2)] assms(5,6)]
  have full: "\<not> wl_empty W (normalize_jid W lid)" "\<not> wl_empty W (normalize_jid W pn)"
    using normalize_settled [OF assms(1)] assms(5,6) by (simp_all add: settled_def)
  from put(1) put(2,3) [THEN wa_get_hit, OF unmarshal_jid_row, OF assms(1)] full show ?thesis
    by (simp add: lid_for_pn_def pn_for_lid_def mapped_jid_def Let_def exec)
qed

theorem identities_mirror_each_other_witness:
  "\<exists>s'. put_lid_mapping sample_library ''d'' sample_lid sample_pn (empty_store 0) = Inr ((), s') \<and>
     lid_for_pn sample_library ''d'' sample_pn s' = Inr (sample_lid\<lparr>ji_device := 3\<rparr>, s')"
proof -
  obtain s' where put: "put_lid_mapping sample_library ''d'' sample_lid sample_pn (empty_store 0) = Inr ((), s')"
    using sample_mapping by blast
  have refl: "cred_steps sample_library ''d'' (empty_store 0) (empty_store 0)" by (simp add: cred_steps_def)
  from identities_mirror_each_other [OF sample_library_ok empty_lids_ok refl put] put
  show ?thesis by auto
qed

section \<open>Migration\<close>

text \<open>\<open>MigratePNToLID\<close> gives every session and every trusted identity
  of a phone number, under each of its devices, to the hidden identity, which loses its own
  under the same device; no row of the phone number stays, and all other rows are as before.\<close>

theorem migration_moves_every_address:
  assumes "migrate_pn_to_lid W ns pn lid s = Inr (u, s')" and "network_sorted s"
    and "kind = ''session'' \<or> kind = ''identity''"
    and "plain_name_part (wl_signal W pn)" and "plain_name_part (wl_signal W lid)" and "wl_signal W pn \<noteq> wl_signal W lid"
  shows "row_at s' ns kind (wl_signal W pn @ '':'' @ d) = None \<and>
    row_at s' ns kind (wl_signal W lid @ '':'' @ d) =
      (case row_at s ns kind (wl_signal W pn @ '':'' @ d) of Some p \<Rightarrow> Some p
       | None \<Rightarrow> row_at s ns kind (wl_signal W lid @ '':'' @ d)) \<and>
    (\<not> prefix (wl_signal W pn @ '':'') i \<and> \<not> prefix (wl_signal W lid @ '':'') i \<longrightarrow>
      row_at s' ns kind i = row_at s ns kind i)"
proof -
  let ?move = "\<lambda>k. bind_tx (wa_scan ns k) (for_tx (move_row W ns pn lid k))"
  have touch: "upholds (touches ns {k}) (?move k)" for k
    by (intro touches.rules touching) simp
  obtain t1 t2 where m1: "?move ''session'' (networked s) = Inr ((), t1)"
    and m2: "?move ''identity'' t1 = Inr ((), t2)" and m3: "?move ''sender'' t2 = Inr ((), s')"
    using assms(1) by (auto simp: migrate_pn_to_lid_def wa_txn_eq then_tx_Inr)
  note t1 = upholdsD [OF touch m1] and t2 = upholdsD [OF touch m2] and t3 = upholdsD [OF touch m3]
  have plain: "plain_name_part ''session''" "plain_name_part ''identity''" "plain_name_part ''sender''"
    by (simp_all add: plain_name_part_def)
  have sorted: "network_sorted (networked s)" "network_sorted t1"
    using assms(2) touches_sorted [OF t1] by simp_all
  have one: "row_at b ns k = moved_rows (wl_signal W pn) (wl_signal W lid) (row_at a ns k) (row_at a ns k)"
    if run: "?move k a = Inr ((), b)" and "network_sorted a" "k \<noteq> ''sender''" for k a b
  proof -
    obtain rows a' where scan: "wa_scan ns k a = Inr (rows, a')" and loop: "for_tx (move_row W ns pn lid k) rows a' = Inr ((), b)"
      using run by (auto simp: bind_tx_Inr)
    note rows = wa_scan_Inr [OF scan that(2)]
    have "map_of rows x = row_at a ns k x" for x
      using rows(2,3) by (cases "row_at a ns k x") (auto simp: map_of_eq_None_iff image_iff)
    then have "map_of rows = row_at a ns k" by (simp add: fun_eq_iff)
    with move_rows_Inr [OF loop that(3) assms(4-6) rows(2)] rows(1) show ?thesis by simp
  qed
  have "row_at s' ns kind = moved_rows (wl_signal W pn) (wl_signal W lid) (row_at s ns kind) (row_at s ns kind)"
    using assms(3)
  proof
    assume k: "kind = ''session''"
    have "row_at s' ns kind = row_at t1 ns kind"
      using touches_other_kind [OF t2] touches_other_kind [OF t3] plain by (simp add: k fun_eq_iff)
    with one [OF m1 sorted(1)] show ?thesis by (simp add: k)
  next
    assume k: "kind = ''identity''"
    have "row_at s' ns kind = row_at t2 ns kind" "row_at t1 ns kind = row_at s ns kind"
      using touches_other_kind [OF t1] touches_other_kind [OF t3] plain by (simp_all add: k fun_eq_iff)
    with one [OF m2 sorted(2)] show ?thesis by (simp add: k)
  qed
  moreover have "\<not> prefix (wl_signal W lid @ '':'') (wl_signal W pn @ '':'' @ d)"
    "\<not> prefix (wl_signal W pn @ '':'') (wl_signal W lid @ '':'' @ d)"
    using other_address [OF assms(4-6)] other_address [OF assms(5,4) assms(6) [symmetric]] by auto
  ultimately show ?thesis by (auto simp: moved_rows_def split: option.splits)
qed

definition one_session :: store where
  "one_session = set_row (wa_key ''d'' ''session'' ''15550100:3'') (Some (JText (JStr ''ratchet''))) (empty_store 0)"

lemma sample_migration:
  "\<exists>s'. migrate_pn_to_lid sample_library ''d'' sample_pn sample_lid one_session = Inr ((), s')"
proof -
  let ?k = "wa_key ''d'' ''session'' ''15550100:3''" and ?k' = "wa_key ''d'' ''session'' ''123:3''"
  let ?p = "JText (JStr ''ratchet'')" and ?t = "networked one_session"
  let ?u = "set_row ?k None (set_row ?k' (Some ?p) ?t)"
  have plain: "plain_name_part ''session''" "plain_name_part ''identity''" "plain_name_part ''sender''"
    by (simp_all add: plain_name_part_def)
  have t: "pairs ?t BNetwork = [(?k, Sealed (cipher_key ?t) (network_context ?k) ?p)]"
    using pairs_first [of "empty_store 0" ?k ?p] by (simp add: one_session_def)
  have u: "pairs ?u BNetwork = [(?k', Sealed (cipher_key ?u) (network_context ?k') ?p)]"
    using pairs_moved [OF t, of ?k' ?p] by simp
  have scans: "wa_scan ''d'' ''session'' ?t = Inr ([(''15550100:3'', ?p)], ?t)"
    "wa_scan ''d'' ''identity'' ?u = Inr ([], ?u)" "wa_scan ''d'' ''sender'' ?u = Inr ([], ?u)"
    using wa_scan_single [OF t plain(1,1)] wa_scan_single [OF u plain(1,2)] wa_scan_single [OF u plain(1,3)]
    by simp_all
  have move: "move_row sample_library ''d'' sample_pn sample_lid ''session'' (''15550100:3'', ?p) ?t = Inr ((), ?u)"
    by (simp add: move_row_def moved_key_def moved_name_def sample_library_def sample_pn_def sample_lid_def
        exec runs MaxKeySize_def)
  show ?thesis by (simp add: migrate_pn_to_lid_def wa_txn_eq exec scans move)
qed

theorem migration_moves_every_address_witness:
  "\<exists>s'. migrate_pn_to_lid sample_library ''d'' sample_pn sample_lid one_session = Inr ((), s') \<and>
     row_at s' ''d'' ''session'' ''15550100:3'' = None \<and>
     row_at s' ''d'' ''session'' ''123:3'' = Some (JText (JStr ''ratchet''))"
proof -
  obtain s' where run: "migrate_pn_to_lid sample_library ''d'' sample_pn sample_lid one_session = Inr ((), s')"
    using sample_migration by blast
  have srt: "network_sorted one_session" by (simp add: one_session_def)
  have names: "wl_signal sample_library sample_pn = ''15550100''" "wl_signal sample_library sample_lid = ''123''"
    by (simp_all add: sample_library_def sample_pn_def sample_lid_def)
  from migration_moves_every_address [OF run srt disjI1 [OF refl], of "''3''"] run
  show ?thesis by (auto simp: names plain_name_part_def one_session_def)
qed

section \<open>Devices and the rest of the database\<close>

text \<open>Whatever operations of the credential store run, they are
  steps of the store, so all that holds of those holds across them; every bucket but the network
  bucket is as before, so is every row of another device; and a message secret that is stored stays
  as it is.\<close>

theorem credentials_keep_to_their_device:
  assumes "cred_steps W ns s s'"
  shows "store_steps s s' \<and> (\<forall>b. b \<noteq> BNetwork \<longrightarrow> db s' b = db s b) \<and>
    (\<forall>ns' kind i. plain_name_part ns \<and> plain_name_part ns' \<and> ns' \<noteq> ns \<longrightarrow> row_at s' ns' kind i = row_at s ns' kind i) \<and>
    (\<forall>c w i. secret_at W s ns c w i \<noteq> None \<longrightarrow> secret_at W s' ns c w i = secret_at W s ns c w i)"
proof -
  note t = cred_steps_touch [OF assms]
  have "store_steps s s'" "\<forall>b. b \<noteq> BNetwork \<longrightarrow> db s' b = db s b"
    using t by (auto simp: touches_def frame_def)
  moreover have "\<forall>ns' kind i. plain_name_part ns \<and> plain_name_part ns' \<and> ns' \<noteq> ns \<longrightarrow>
      row_at s' ns' kind i = row_at s ns' kind i"
    using touches_other_device [OF t] by blast
  moreover have "\<forall>c w i. secret_at W s ns c w i \<noteq> None \<longrightarrow> secret_at W s' ns c w i = secret_at W s ns c w i"
    using steps_keep_secrets [OF assms] by (auto simp: secret_at_def)
  ultimately show ?thesis by blast
qed

theorem credentials_keep_to_their_device_witness:
  "cred_step sample_library ''d'' (empty_store 0) one_session \<and>
   (\<forall>kind i. row_at one_session ''e'' kind i = row_at (empty_store 0) ''e'' kind i)"
proof -
  have "put_session ''d'' ''15550100:3'' (Some ''ratchet'') (empty_store 0) = Inr ((), one_session)"
    by (simp add: put_session_def runs one_session_def MaxKeySize_def)
  then have step: "cred_step sample_library ''d'' (empty_store 0) one_session" by (rule cred_step.session_put)
  then have "cred_steps sample_library ''d'' (empty_store 0) one_session" by (simp add: cred_steps_def)
  from credentials_keep_to_their_device [OF this] step show ?thesis by (simp add: plain_name_part_def)
qed

end
