(* ===== verification/WaEventProperties.thy ===== *)
theory WaEventProperties
  imports WaRuns
begin

text \<open>
  What holds of the events of the WhatsApp connection: an entry of the inbox decodes to the event
  that was stored and leaves the inbox only when it is dealt with, receipts and repeated originals
  never undo anything, a person has one reaction to a message, and a phone number never becomes a
  public identity.
\<close>

section \<open>Pending events\<close>

definition proto_ok :: "('a, 'b) proto_scheme \<Rightarrow> bool" where
  "proto_ok p \<longleftrightarrow> (\<forall>x b. pr_marshal p x = Inr b \<longrightarrow> pr_unmarshal p b = Inr x)"

text \<open>The JSON forms are only used for events without their protobuf parts.\<close>

definition codecs_ok :: "inbox_codecs \<Rightarrow> bool" where
  "codecs_ok C \<longleftrightarrow> (\<forall>m. dec_of (ic_message C) (enc_of (ic_message C) (bare_event m)) = Some (bare_event m)) \<and>
     (let h = \<lparr>he_data = None, he_notification = None\<rparr> in dec_of (ic_history C) (enc_of (ic_history C) h) = Some h) \<and>
     (\<forall>b. let h = \<lparr>hc_conversation = None, hc_on_demand = b\<rparr> in dec_of (ic_chat C) (enc_of (ic_chat C) h) = Some h) \<and>
     codec_ok (ic_receipt C) \<and> proto_ok (ic_body C) \<and> proto_ok (ic_web C) \<and> proto_ok (ic_certificate C) \<and>
     proto_ok (ic_details C) \<and> proto_ok (ic_data C) \<and> proto_ok (ic_notification C) \<and> proto_ok (ic_conversation C)"

lemma as_pairs_map: "as_pairs (map (\<lambda>(k, b). (k, JStr b)) ps) = Some ps"
  by (induction ps) auto

lemma dec_enc_pending:
  "dec_pending (enc_pending \<lparr>pe_version = v, pe_kind = kind, pe_data = JText j, pe_payloads = ps\<rparr>) =
   Some \<lparr>pe_version = v, pe_kind = kind, pe_data = JText j, pe_payloads = ps\<rparr>"
  by (simp add: dec_pending_def enc_pending_def set_pending_def json_members omit_def as_pairs_map)

lemma join_parts_Inr: "join_parts a b = Inr z \<longleftrightarrow> (\<exists>x y. a = Inr x \<and> b = Inr y \<and> z = x @ y)"
  by (auto simp: join_parts_def split: sum.splits)

lemma part_Inr:
  "part k p x = Inr ps \<Longrightarrow> proto_ok p \<Longrightarrow>
   (case x of None \<Rightarrow> ps = [] | Some m \<Rightarrow> \<exists>b. ps = [(k, b)] \<and> pr_unmarshal p b = Inr m)"
  by (auto simp: part_def proto_ok_def map_sum_Inr split: option.splits)

lemma take_absent: "map_of (rev ps) k = None \<Longrightarrow> take_part k p ps put (Inr r) = Inr r"
  by (cases r) (simp add: take_part_def)

lemma take_present:
  "map_of (rev ps) k = Some b \<Longrightarrow> pr_unmarshal p b = Inr x \<Longrightarrow>
   take_part k p ps put (Inr (r, n)) = Inr (put (Some x) r, n + 1)"
  by (simp add: take_part_def)

lemma message_parts:
  assumes ok: "codecs_ok C" and run: "encode_pending C (Message_event m) = Inr entry"
  shows "fill_message C (pe_payloads entry) (bare_event m) = Inr m"
proof -
  obtain p1 p2 p3 p4 p5 where entry: "pe_payloads entry = p1 @ p2 @ p3 @ p4 @ p5"
    and parts: "part ''message'' (ic_body C) (me_message m) = Inr p1" "part ''raw'' (ic_body C) (me_raw m) = Inr p2"
      "part ''web'' (ic_web C) (me_web m) = Inr p3" "part ''certificate'' (ic_certificate C) (certificate_of m) = Inr p4"
      "part ''details'' (ic_details C) (details_of m) = Inr p5"
    using run by (auto simp: pending_entry_def map_sum_Inr join_parts_Inr)
  have protos: "proto_ok (ic_body C)" "proto_ok (ic_web C)" "proto_ok (ic_certificate C)" "proto_ok (ic_details C)"
    using ok by (simp_all add: codecs_ok_def)
  note found = part_Inr [OF parts(1) protos(1)] part_Inr [OF parts(2) protos(1)] part_Inr [OF parts(3) protos(2)]
    part_Inr [OF parts(4) protos(3)] part_Inr [OF parts(5) protos(4)]
  obtain info ed body raw web ver where m: "m = \<lparr>me_info = info, me_is_edit = ed, me_message = body, me_raw = raw,
      me_web = web, me_verified = ver\<rparr>"
    by (cases m)
  show ?thesis
  proof (cases ver)
    case None
    then have "p4 = []" "p5 = []" using found(4,5) by (simp_all add: m certificate_of_def details_of_def)
    with None found(1-3) show ?thesis
      by (cases body; cases raw; cases web)
        (auto simp: entry m fill_message_def bare_event_def all_taken_def take_absent take_present)
  next
    case (Some v)
    obtain ct dt rest where v: "v = \<lparr>vn_certificate = ct, vn_details = dt, vn_rest = rest\<rparr>" by (cases v)
    from Some found show ?thesis
      by (cases body; cases raw; cases web; cases ct; cases dt)
        (auto simp: entry m v fill_message_def bare_event_def all_taken_def take_absent take_present
          certificate_of_def details_of_def put_verified_def)
  qed
qed

lemma part_keys: "part k p x = Inr ps \<Longrightarrow> fst ` set ps \<subseteq> {k} \<and> card (fst ` set ps) = (if x = None then 0 else 1)"
  by (auto simp: part_def map_sum_Inr split: option.splits)

lemma entry_decodes:
  assumes "pending_entry kind j parts = Inr entry"
  shows "decode_pending C (JText (enc_pending entry)) = decode_entry C entry"
    and "pe_version entry = 1" and "pe_kind entry = kind" and "pe_data entry = JText j"
proof -
  obtain ps where e: "entry = \<lparr>pe_version = 1, pe_kind = kind, pe_data = JText j, pe_payloads = ps\<rparr>"
    using assms by (auto simp: pending_entry_def map_sum_Inr)
  show "decode_pending C (JText (enc_pending entry)) = decode_entry C entry"
    using dec_enc_pending [of 1 kind j ps] by (simp add: decode_pending_def e)
  show "pe_version entry = 1" "pe_kind entry = kind" "pe_data entry = JText j" by (simp_all add: e)
qed

lemma decode_as_new:
  "pe_version e = 1 \<Longrightarrow> pe_data e = JText j \<Longrightarrow> dec j = Some x \<Longrightarrow> fill (pe_payloads e) x = Inr y \<Longrightarrow>
   decode_as e dec fill wrap = Inr (wrap y)"
  by (simp add: decode_as_def)

lemma message_round_trip:
  assumes ok: "codecs_ok C" and run: "encode_pending C (Message_event m) = Inr entry"
  shows "decode_pending C (JText (enc_pending entry)) = Inr (Message_event m)"
proof -
  note d = entry_decodes [OF run [unfolded encode_pending.simps]]
  have "dec_of (ic_message C) (enc_of (ic_message C) (bare_event m)) = Some (bare_event m)"
    using ok by (simp add: codecs_ok_def)
  from decode_as_new [where wrap = Message_event and fill = "fill_message C" and dec = "dec_of (ic_message C)", OF d(2,4) this message_parts [OF ok run]] show ?thesis
    by (simp add: d(1-3) decode_entry_def)
qed

lemma history_round_trip:
  assumes ok: "codecs_ok C" and run: "encode_pending C (History_event h) = Inr entry"
  shows "decode_pending C (JText (enc_pending entry)) = Inr (History_event h)"
proof -
  obtain x n where h: "h = \<lparr>he_data = x, he_notification = n\<rparr>" by (cases h)
  note d = entry_decodes [OF run [unfolded encode_pending.simps]]
  obtain p1 p2 where p: "pe_payloads entry = p1 @ p2" "part ''history'' (ic_data C) x = Inr p1"
    "part ''notification'' (ic_notification C) n = Inr p2"
    using run by (auto simp: h pending_entry_def map_sum_Inr join_parts_Inr)
  have "proto_ok (ic_data C)" "proto_ok (ic_notification C)" using ok by (simp_all add: codecs_ok_def)
  note found = part_Inr [OF p(2) this(1)] part_Inr [OF p(3) this(2)]
  have fill: "fill_history C (pe_payloads entry) \<lparr>he_data = None, he_notification = None\<rparr> = Inr h"
    using found by (cases x; cases n) (auto simp: p(1) h fill_history_def all_taken_def take_absent take_present)
  have "dec_of (ic_history C) (enc_of (ic_history C) \<lparr>he_data = None, he_notification = None\<rparr>) =
      Some \<lparr>he_data = None, he_notification = None\<rparr>"
    using ok by (simp add: codecs_ok_def Let_def)
  from decode_as_new [where wrap = History_event and fill = "fill_history C" and dec = "dec_of (ic_history C)", OF d(2,4) this fill] show ?thesis
    by (simp add: d(1-3) decode_entry_def)
qed

lemma chat_round_trip:
  assumes ok: "codecs_ok C" and run: "encode_pending C (Chat_event h) = Inr entry"
  shows "decode_pending C (JText (enc_pending entry)) = Inr (Chat_event h)"
proof -
  obtain c od where h: "h = \<lparr>hc_conversation = c, hc_on_demand = od\<rparr>" by (cases h)
  note d = entry_decodes [OF run [unfolded encode_pending.simps]]
  have p: "part ''conversation'' (ic_conversation C) c = Inr (pe_payloads entry)"
    using run by (auto simp: h pending_entry_def map_sum_Inr)
  have "proto_ok (ic_conversation C)" using ok by (simp add: codecs_ok_def)
  note found = part_Inr [OF p this]
  have fill: "fill_chat C (pe_payloads entry) \<lparr>hc_conversation = None, hc_on_demand = od\<rparr> = Inr h"
    using found by (cases c) (auto simp: h fill_chat_def all_taken_def take_absent take_present)
  have "dec_of (ic_chat C) (enc_of (ic_chat C) (h\<lparr>hc_conversation := None\<rparr>)) =
      Some \<lparr>hc_conversation = None, hc_on_demand = od\<rparr>"
    using ok by (simp add: codecs_ok_def Let_def h)
  from decode_as_new [where wrap = Chat_event and fill = "fill_chat C" and dec = "dec_of (ic_chat C)", OF d(2,4) this fill] show ?thesis
    by (simp add: d(1-3) decode_entry_def)
qed

lemma receipt_round_trip:
  assumes ok: "codecs_ok C" and run: "encode_pending C (Receipt_event r) = Inr entry"
  shows "decode_pending C (JText (enc_pending entry)) = Inr (Receipt_event r)"
proof -
  note d = entry_decodes [OF run [unfolded encode_pending.simps]]
  have fill: "(\<lambda>ps r. all_taken ps (Inr (r, 0))) (pe_payloads entry) r = Inr r"
    using run by (auto simp: pending_entry_def all_taken_def)
  have "dec_of (ic_receipt C) (enc_of (ic_receipt C) r) = Some r"
    using ok by (simp add: codecs_ok_def codec_ok_def)
  from decode_as_new [where wrap = Receipt_event and fill = "\<lambda>ps r. all_taken ps (Inr (r, 0))" and dec = "dec_of (ic_receipt C)", OF d(2,4) this fill] show ?thesis
    by (simp add: d(1-3) decode_entry_def)
qed

text \<open>C13: what \<open>encodePending\<close> makes of an event, written as JSON and read
  back, is decoded by \<open>decodePending\<close> to that event, with every protobuf part in its place.\<close>

theorem pending_events_round_trip:
  assumes "codecs_ok C" and "encode_pending C e = Inr entry"
  shows "decode_pending C (JText (enc_pending entry)) = Inr e"
  using assms by (cases e) (auto intro: message_round_trip history_round_trip chat_round_trip receipt_round_trip)

text \<open>Codecs that meet the contract.\<close>

definition source_json :: "message_source \<Rightarrow> json" where
  "source_json so = JArr [jid_json (so_chat so), jid_json (so_sender so), jid_json (so_sender_alt so),
     jid_json (so_recipient_alt so), JBool (so_from_me so)]"

definition elements :: "json \<Rightarrow> nat \<Rightarrow> json list option" where
  "elements j n = (case j of JArr xs \<Rightarrow> if length xs = n then Some xs else None | _ \<Rightarrow> None)"

lemma elements_JArr [simp]: "elements (JArr xs) n = (if length xs = n then Some xs else None)"
  by (simp add: elements_def)

definition json_source :: "json \<Rightarrow> message_source option" where
  "json_source j = (case elements j 5 of None \<Rightarrow> None | Some xs \<Rightarrow>
     (case (json_jid (xs ! 0), json_jid (xs ! 1), json_jid (xs ! 2), json_jid (xs ! 3), as_bool (xs ! 4) False) of
       (Some w, Some x, Some y, Some z, Some mine) \<Rightarrow> Some \<lparr>so_chat = w, so_sender = x, so_sender_alt = y,
         so_recipient_alt = z, so_from_me = mine\<rparr> | _ \<Rightarrow> None))"

lemma json_jid_json [simp]: "json_jid (jid_json j) = Some j"
  by (simp add: jid_json_def)

lemma json_source_json [simp]: "json_source (source_json so) = Some so"
  by (simp add: source_json_def json_source_def)

definition event_json :: "message_event \<Rightarrow> json" where
  "event_json m = JArr [source_json (wi_source (me_info m)), JStr (wi_id (me_info m)), JStr (wi_push_name (me_info m)),
     JTime (wi_time (me_info m)), JBool (wi_edit (me_info m)), JStr (wi_rest (me_info m)), JBool (me_is_edit m),
     (case me_verified m of None \<Rightarrow> JNull | Some v \<Rightarrow> JStr (vn_rest v))]"

definition json_event :: "json \<Rightarrow> message_event option" where
  "json_event j = (case elements j 8 of None \<Rightarrow> None | Some xs \<Rightarrow>
     (case (json_source (xs ! 0), as_str (xs ! 1) [], as_str (xs ! 2) [], as_time (xs ! 3) 0, as_bool (xs ! 4) False,
        as_str (xs ! 5) [], as_bool (xs ! 6) False) of
       (Some s, Some i, Some push, Some t, Some ed, Some rest, Some e) \<Rightarrow>
         Some \<lparr>me_info = \<lparr>wi_source = s, wi_id = i, wi_push_name = push, wi_time = t, wi_edit = ed, wi_rest = rest\<rparr>,
           me_is_edit = e, me_message = None, me_raw = None, me_web = None,
           me_verified = (case xs ! 7 of JStr r \<Rightarrow> Some \<lparr>vn_certificate = None, vn_details = None, vn_rest = r\<rparr>
             | _ \<Rightarrow> None)\<rparr>
     | _ \<Rightarrow> None))"

fun receipt_code :: "receipt_type \<Rightarrow> int" where
  "receipt_code Receipt_delivered = 0" | "receipt_code Receipt_read = 1" | "receipt_code Receipt_read_self = 2"
| "receipt_code Receipt_played = 3" | "receipt_code Receipt_sender = 4" | "receipt_code Receipt_other = 5"

definition code_receipt :: "int \<Rightarrow> receipt_type" where
  "code_receipt n = (if n = 0 then Receipt_delivered else if n = 1 then Receipt_read else if n = 2 then Receipt_read_self
     else if n = 3 then Receipt_played else if n = 4 then Receipt_sender else Receipt_other)"

definition receipt_json :: "receipt_event \<Rightarrow> json" where
  "receipt_json r = JArr [source_json (re_source r), JArr (map JStr (re_ids r)), JNum (receipt_code (re_type r))]"

definition json_receipt :: "json \<Rightarrow> receipt_event option" where
  "json_receipt j = (case elements j 3 of None \<Rightarrow> None | Some xs \<Rightarrow>
     (case (json_source (xs ! 0), (case xs ! 1 of JArr ys \<Rightarrow> decode_all elem_str ys | _ \<Rightarrow> None), xs ! 2) of
       (Some s, Some ids, JNum n) \<Rightarrow> Some \<lparr>re_source = s, re_ids = ids, re_type = code_receipt n\<rparr> | _ \<Rightarrow> None))"

definition text_body :: "string \<Rightarrow> wa_message" where
  "text_body t = bare_message (empty_body\<lparr>bd_conversation := t\<rparr>)"

definition no_proto :: "'a proto" where
  "no_proto = \<lparr>pr_marshal = (\<lambda>_. Inl ErrJson), pr_unmarshal = (\<lambda>_. Inl ErrJson)\<rparr>"

definition sample_codecs :: inbox_codecs where
  "sample_codecs = \<lparr>ic_message = \<lparr>enc_of = event_json, dec_of = json_event\<rparr>,
     ic_history = \<lparr>enc_of = (\<lambda>_. JNull), dec_of = (\<lambda>_. Some \<lparr>he_data = None, he_notification = None\<rparr>)\<rparr>,
     ic_chat = \<lparr>enc_of = (\<lambda>h. JBool (hc_on_demand h)),
       dec_of = (\<lambda>j. map_option (\<lambda>b. \<lparr>hc_conversation = None, hc_on_demand = b\<rparr>) (as_bool j False))\<rparr>,
     ic_receipt = \<lparr>enc_of = receipt_json, dec_of = json_receipt\<rparr>,
     ic_body = \<lparr>pr_marshal = (\<lambda>m. let t = bd_conversation (wm_body m) in if m = text_body t then Inr t else Inl ErrJson),
       pr_unmarshal = (\<lambda>t. Inr (text_body t))\<rparr>,
     ic_web = no_proto, ic_certificate = \<lparr>pr_marshal = Inr, pr_unmarshal = Inr\<rparr>,
     ic_details = \<lparr>pr_marshal = Inr, pr_unmarshal = Inr\<rparr>, ic_data = no_proto,
     ic_notification = \<lparr>pr_marshal = Inr, pr_unmarshal = Inr\<rparr>, ic_conversation = no_proto,
     ic_parse = (\<lambda>_ _. Inr None)\<rparr>"

lemma sample_codecs_ok: "codecs_ok sample_codecs"
proof -
  have "json_event (event_json (bare_event m)) = Some (bare_event m)" for m
    by (cases m; cases "me_info m") (auto simp: event_json_def json_event_def bare_event_def split: option.splits)
  moreover have "json_receipt (receipt_json r) = Some r" for r
    by (cases r; cases "re_type r") (simp_all add: receipt_json_def json_receipt_def decode_all_map code_receipt_def)
  ultimately show ?thesis
    by (simp add: codecs_ok_def sample_codecs_def codec_ok_def proto_ok_def no_proto_def Let_def split: if_splits)
qed

definition sample_jid :: "string \<Rightarrow> jid" where
  "sample_jid u = \<lparr>ji_user = u, ji_server = Hidden_server, ji_device = 0, ji_rest = 0\<rparr>"

definition sample_event :: message_event where
  "sample_event = \<lparr>me_info = \<lparr>wi_source = \<lparr>so_chat = sample_jid ''123'', so_sender = sample_jid ''123'',
       so_sender_alt = empty_jid, so_recipient_alt = empty_jid, so_from_me = False\<rparr>,
     wi_id = ''A1'', wi_push_name = [], wi_time = 5, wi_edit = False, wi_rest = []\<rparr>, me_is_edit = False,
     me_message = Some (text_body ''hello''), me_raw = None, me_web = None,
     me_verified = Some \<lparr>vn_certificate = Some ''cert'', vn_details = None, vn_rest = []\<rparr>\<rparr>"

theorem pending_events_round_trip_witness:
  "\<exists>entry. encode_pending sample_codecs (Message_event sample_event) = Inr entry \<and>
     length (pe_payloads entry) = 2 \<and>
     decode_pending sample_codecs (JText (enc_pending entry)) = Inr (Message_event sample_event)"
proof -
  obtain entry where e: "encode_pending sample_codecs (Message_event sample_event) = Inr entry" "length (pe_payloads entry) = 2"
    by (simp add: pending_entry_def sample_codecs_def sample_event_def part_def join_parts_def Let_def
        certificate_of_def details_of_def text_body_def bare_message_def)
  with pending_events_round_trip [OF sample_codecs_ok e(1)] show ?thesis by blast
qed

section \<open>Originals, edits and reactions\<close>

definition reactors :: "reaction list \<Rightarrow> string list" where
  "reactors rs = concat (map r_participants rs)"

definition reactions_ok :: "reaction list \<Rightarrow> bool" where
  "reactions_ok rs \<longleftrightarrow> distinct (map r_emoji rs) \<and> distinct (reactors rs) \<and> [] \<notin> set (map r_participants rs)"

lemma reactors_withdraw: "reactors (withdraw who rs) = filter (\<lambda>p. p \<noteq> who) (reactors rs)"
  by (induction rs) (auto simp: withdraw_def reactors_def)

lemma emojis_withdraw: "distinct (map r_emoji rs) \<Longrightarrow> distinct (map r_emoji (withdraw who rs))"
proof (induction rs)
  case (Cons r rs)
  have "r_emoji ` set (withdraw who rs) \<subseteq> r_emoji ` set rs" by (auto simp: withdraw_def)
  with Cons show ?case by (auto simp: withdraw_def)
qed (simp add: withdraw_def)

lemma withdraw_ok: "reactions_ok rs \<Longrightarrow> reactions_ok (withdraw who rs) \<and> who \<notin> set (reactors (withdraw who rs))"
  using emojis_withdraw [of rs who]
  by (auto simp: reactions_ok_def reactors_withdraw withdraw_def [of who rs, THEN arg_cong, of "\<lambda>x. map r_participants x"])

lemma add_ok:
  assumes "reactions_ok rs" and "who \<notin> set (reactors rs)"
  shows "reactions_ok (add_reactor emoji who rs) \<and> set (reactors (add_reactor emoji who rs)) = insert who (set (reactors rs))"
proof (cases "emoji \<in> r_emoji ` set rs")
  case False
  with assms show ?thesis by (auto simp: add_reactor_def reactions_ok_def reactors_def)
next
  case True
  let ?f = "\<lambda>r. if r_emoji r = emoji then r\<lparr>r_participants := r_participants r @ [who]\<rparr> else r"
  have emojis: "map r_emoji (map ?f rs) = map r_emoji rs" by simp
  have all: "distinct (map r_emoji rs) \<Longrightarrow> distinct (reactors rs) \<Longrightarrow> who \<notin> set (reactors rs) \<Longrightarrow> distinct (reactors (map ?f rs))"
    "set (reactors (map ?f rs)) = (if emoji \<in> r_emoji ` set rs then insert who (set (reactors rs)) else set (reactors rs))" for rs
    by (induction rs) (auto simp: reactors_def)
  have given: "distinct (map r_emoji rs)" "distinct (reactors rs)" "[] \<notin> set (map r_participants rs)"
    using assms(1) by (simp_all add: reactions_ok_def)
  have "[] \<notin> set (map r_participants (map ?f rs))" using given(3) by (auto split: if_splits)
  then have "reactions_ok (map ?f rs)"
    using all(1) [OF given(1,2) assms(2)] given(1) by (simp only: reactions_ok_def emojis simp_thms)
  moreover have "set (reactors (map ?f rs)) = insert who (set (reactors rs))"
    using all(2) [of rs] True by simp
  ultimately show ?thesis using True by (simp add: add_reactor_def)
qed

definition reacts :: "string \<Rightarrow> string \<Rightarrow> reaction list \<Rightarrow> bool" where
  "reacts who e rs \<longleftrightarrow> (\<exists>r\<in>set rs. r_emoji r = e \<and> who \<in> set (r_participants r))"

lemma reacts_withdraw: "other \<noteq> who \<Longrightarrow> reacts other e (withdraw who rs) \<longleftrightarrow> reacts other e rs"
  by (force simp: reacts_def withdraw_def filter_empty_conv)

lemma reacts_add: "other \<noteq> who \<Longrightarrow> reacts other e (add_reactor emoji who rs) \<longleftrightarrow> reacts other e rs"
proof -
  assume other: "other \<noteq> who"
  then have "reacts other e (map (\<lambda>r. if r_emoji r = emoji then r\<lparr>r_participants := r_participants r @ [who]\<rparr> else r) rs) \<longleftrightarrow>
      reacts other e rs" for rs
    by (induction rs) (auto simp: reacts_def)
  with other show ?thesis by (auto simp: add_reactor_def reacts_def)
qed

text \<open>A reaction replaces the reactor's earlier one.  However the list of
  reactions stood, after \<open>react_as\<close> each emoji is listed once, no one is listed twice or under an
  emoji of no one, the reactor is listed exactly when the reaction has a text, and all others are
  where they were.\<close>

theorem one_reaction_each:
  assumes "reactions_ok rs"
  shows "let rs' = react_as emoji who rs in
     reactions_ok rs' \<and> (who \<in> set (reactors rs') \<longleftrightarrow> emoji \<noteq> []) \<and>
     (\<forall>r\<in>set rs'. who \<in> set (r_participants r) \<longrightarrow> r_emoji r = emoji) \<and>
     (\<forall>other. other \<noteq> who \<longrightarrow> (\<forall>e. reacts other e rs' \<longleftrightarrow> reacts other e rs))"
proof -
  note w = withdraw_ok [OF assms, of who]
  have out: "\<forall>r\<in>set (withdraw who rs). who \<notin> set (r_participants r)"
    using w by (auto simp: reactors_def)
  show ?thesis
  proof (cases "emoji = []")
    case True
    with w out show ?thesis by (simp add: react_as_def reacts_withdraw)
  next
    case False
    have "\<forall>r\<in>set (add_reactor emoji who (withdraw who rs)). who \<in> set (r_participants r) \<longrightarrow> r_emoji r = emoji"
      using out by (auto simp: add_reactor_def)
    with False add_ok [of "withdraw who rs" who emoji] w show ?thesis
      by (simp add: react_as_def reacts_withdraw reacts_add)
  qed
qed

theorem one_reaction_each_witness:
  "let rs = [\<lparr>r_emoji = ''+1'', r_participants = [''ann'', ''bob'']\<rparr>] in reactions_ok rs \<and>
     react_as ''wow'' ''ann'' rs = [\<lparr>r_emoji = ''+1'', r_participants = [''bob'']\<rparr>,
       \<lparr>r_emoji = ''wow'', r_participants = [''ann'']\<rparr>] \<and>
     reacts ''bob'' ''+1'' (react_as ''wow'' ''ann'' rs)"
proof -
  let ?rs = "[\<lparr>r_emoji = ''+1'', r_participants = [''ann'', ''bob'']\<rparr>]"
  have ok: "reactions_ok ?rs" by (simp add: reactions_ok_def reactors_def)
  from one_reaction_each [OF this, of "''wow''" "''ann''"] have "reacts ''bob'' ''+1'' (react_as ''wow'' ''ann'' ?rs)"
    by (simp add: Let_def reacts_def)
  with ok show ?thesis by (auto simp: react_as_def withdraw_def add_reactor_def)
qed

lemma content_keeps:
  "\<exists>m' private. change_content P body was = Changed m' private \<and> m_id m' = m_id was \<and>
     m_conversation_id m' = m_conversation_id was \<and> m_sender_id m' = m_sender_id was \<and>
     m_time m' = m_time was \<and> m_direction m' = m_direction was \<and> m_status m' = m_status was"
  by (auto simp: change_content_def message_content_def Let_def split: prod.splits)


section \<open>Receipts\<close>

text \<open>The message a receipt names, if it is raised by it.\<close>

definition raised :: "store \<Rightarrow> string \<Rightarrow> string \<Rightarrow> provider_snapshot option" where
  "raised s i status = (case view_tx (latest_record ''message'' i) s of Inl e \<Rightarrow> None
     | Inr raw \<Rightarrow> (case unmarshal dec_message raw of Inl e \<Rightarrow> None
       | Inr m \<Rightarrow> if is_current s ''message'' i \<and> status_rank (m_status m) < status_rank status
           then Some (wa_snapshot ''message'' i (enc_message (m\<lparr>m_status := status\<rparr>))) else None))"

lemma receipt_one_Inr:
  assumes "receipt_one P chat status remote b = (Inr r, b')"
  shows "b' = b \<and> r = raised (b_store b) (message_id chat remote) status \<and>
     (\<exists>raw. view_tx (latest_record ''message'' (message_id chat remote)) (b_store b) = Inr raw)"
proof -
  let ?i = "message_id chat remote"
  obtain raw where raw: "view_tx (latest_record ''message'' ?i) (b_store b) = Inr raw"
    using assms by (cases "view_tx (latest_record ''message'' ?i) (b_store b)")
      (auto simp: receipt_one_def Let_def bind_act_Inr try_act_def view_db_def fail_act_def cred_Inr fail_tx_def split: if_splits)
  with assms obtain cur c where cur: "db_call (entity_current_tx ''message'' ?i) b = (Inr cur, c)"
    and rest: "(if \<not> cur then return_act None
         else bind_act (lift_act (unmarshal dec_message raw)) (\<lambda>m.
           return_act (map_option (\<lambda>m'. wa_snapshot ''message'' ?i (enc_message m')) (raise_status status m)))) c = (Inr r, b')"
    by (auto simp: receipt_one_def Let_def bind_act_Inr try_act_def view_db_def)
  from current_call [OF cur] have c: "cur = is_current (b_store b) ''message'' ?i" "c = b" by simp_all
  with rest raw show ?thesis
    by (auto simp: raised_def raise_status_def bind_act_Inr return_act_def lift_act_def split: if_splits sum.splits)
qed

lemma receipts_Inr:
  "fold_act (\<lambda>remote out. bind_act (receipt_one P chat status remote) (\<lambda>r.
     return_act (case r of None \<Rightarrow> out | Some s \<Rightarrow> out @ [s]))) ids acc b = (Inr out, b') \<Longrightarrow>
   b' = b \<and> out = acc @ List.map_filter (\<lambda>remote. raised (b_store b) (message_id chat remote) status) ids \<and>
   (\<forall>remote\<in>set ids. \<exists>raw. view_tx (latest_record ''message'' (message_id chat remote)) (b_store b) = Inr raw)"
proof (induction ids arbitrary: acc)
  case Nil
  then show ?case by (simp add: return_act_def map_filter_simps)
next
  case (Cons i ids)
  from Cons.prems [unfolded fold_act.simps, THEN bind_act_Inr [THEN iffD1]] obtain acc' c where
    first: "bind_act (receipt_one P chat status i) (\<lambda>r. return_act (case r of None \<Rightarrow> acc | Some s \<Rightarrow> acc @ [s])) b = (Inr acc', c)"
    and rest: "fold_act (\<lambda>remote out. bind_act (receipt_one P chat status remote) (\<lambda>r.
      return_act (case r of None \<Rightarrow> out | Some s \<Rightarrow> out @ [s]))) ids acc' c = (Inr out, b')"
    by blast
  from first obtain r where one: "receipt_one P chat status i b = (Inr r, c)"
    and acc': "acc' = (case r of None \<Rightarrow> acc | Some s \<Rightarrow> acc @ [s])"
    by (auto simp: bind_act_Inr act_steps)
  note o = receipt_one_Inr [OF one]
  from Cons.IH [OF rest [unfolded conjunct1 [OF o]]] o acc' show ?case by (auto simp: map_filter_simps split: option.splits)
qed

text \<open>A receipt that is taken publishes, for the messages it names, exactly
  those stored and of this session whose status it is ahead of, each with nothing changed but the
  status, in the order of the receipt; the records are not touched; and a receipt that names a
  message which is not stored is not taken.\<close>

theorem receipts_never_regress:
  assumes "receipt_snapshots P e b = (Inr out, b')"
    and "chat_supported (wp_library P) (so_chat (re_source e))" and "receipt_status (re_type e) \<noteq> []"
  shows "\<exists>chat c. canonical P (so_chat (re_source e)) c = (Inr chat, b') \<and>
     (let name = message_id (wl_string (wp_library P) chat) in
      out = List.map_filter (\<lambda>remote. raised (b_store b') (name remote) (receipt_status (re_type e))) (re_ids e) \<and>
      (\<forall>remote\<in>set (re_ids e). \<exists>raw. view_tx (latest_record ''message'' (name remote)) (b_store b') = Inr raw))"
proof -
  from assms obtain c d chat u where "learn_source P (re_source e) b = (Inr u, c)"
    and can: "canonical P (so_chat (re_source e)) c = (Inr chat, d)"
    and run: "fold_act (\<lambda>remote out. bind_act (receipt_one P (wl_string (wp_library P) chat) (receipt_status (re_type e)) remote) (\<lambda>r.
          return_act (case r of None \<Rightarrow> out | Some s \<Rightarrow> out @ [s]))) (re_ids e) [] d = (Inr out, b')"
    by (auto simp: receipt_snapshots_def Let_def then_act_Inr bind_act_Inr)
  from receipts_Inr [OF run] can show ?thesis by (auto simp: Let_def)
qed

text \<open>Of two messages a read receipt names, one was read already.\<close>

definition sample_provider :: wa_provider where
  "sample_provider = \<lparr>wp_library = sample_library, wp_client = None, wp_ns = ''d'', wp_own_lid = sample_jid ''1'',
     wp_own_jid = empty_jid, wp_raw = (\<lambda>_. Opaque []), wp_message = (\<lambda>_. None), wp_sha = id, wp_size = (\<lambda>_. 0)\<rparr>"

definition sent_event :: "string \<Rightarrow> string \<Rightarrow> event" where
  "sent_event i status = zero_event\<lparr>ev_type := ''message'', ev_entity_id := ''9@lid/'' @ i,
     ev_data := JText (enc_message (zero_message\<lparr>m_id := ''9@lid/'' @ i, m_status := status\<rparr>))\<rparr>"

definition two_sent :: bridge where
  "two_sent = new_bridge (logged (sent_event ''A'' ''delivered'') (logged (sent_event ''B'' ''read'') (empty_store 5)))"

definition read_receipt :: receipt_event where
  "read_receipt = \<lparr>re_source = \<lparr>so_chat = sample_jid ''9'', so_sender = sample_jid ''9'', so_sender_alt = empty_jid,
       so_recipient_alt = empty_jid, so_from_me = False\<rparr>, re_ids = [''A'', ''B''], re_type = Receipt_read\<rparr>"

lemma receipt_one_run:
  assumes "view_tx (latest_record ''message'' (message_id chat remote)) (b_store b) = Inr raw"
    and "unmarshal dec_message raw = Inr m" and "exists_bucket (b_store b) BMeta"
    and "is_current (b_store b) ''message'' (message_id chat remote)"
  shows "receipt_one P chat status remote b =
    (Inr (map_option (\<lambda>m'. wa_snapshot ''message'' (message_id chat remote) (enc_message m')) (raise_status status m)), b)"
proof -
  have "db_call (entity_current_tx ''message'' (message_id chat remote)) b = (Inr True, b)"
    using assms(3,4) by (simp add: db_call_def cred_Inr creds_failed_Inr entity_current_Inr)
  then show ?thesis
    using assms(1,2) by (simp add: receipt_one_def Let_def bind_act_def try_act_def view_db_def act_steps)
qed

lemma two_sent_records:
  "view_tx (latest_record ''message'' ''9@lid/A'') (b_store two_sent) = Inr (ev_data (sent_event ''A'' ''delivered''))"
  "view_tx (latest_record ''message'' ''9@lid/B'') (b_store two_sent) = Inr (ev_data (sent_event ''B'' ''read''))"
  "exists_bucket (b_store two_sent) BMeta" "is_current (b_store two_sent) kind i"
  by (simp_all add: two_sent_def view_tx_def latest_record_def get_record_def bget_plain_def exec runs decrypt_def
      record_context_def sent_event_def event_key_def entity_key_def is_current_def new_bridge_def set_status_def)

lemma run_receipts:
  "receipt_snapshots sample_provider read_receipt two_sent = (Inr [wa_snapshot ''message'' ''9@lid/A''
     (enc_message (zero_message\<lparr>m_id := ''9@lid/A'', m_status := ''read''\<rparr>))], two_sent)"
proof -
  have dec: "unmarshal dec_message (ev_data (sent_event i st)) = Inr (zero_message\<lparr>m_id := ''9@lid/'' @ i, m_status := st\<rparr>)" for i st
    by (simp add: sent_event_def)
  have learn: "learn_source sample_provider (re_source read_receipt) two_sent = (Inr (), two_sent)"
    by (simp add: learn_source_def source_pairs_def sample_provider_def sample_library_def read_receipt_def sample_jid_def
        empty_jid_def act_steps Let_def then_act_def bind_act_def)
  have chat: "canonical sample_provider (so_chat (re_source read_receipt)) two_sent = (Inr (sample_jid ''9''), two_sent)"
    by (simp add: canonical_def sample_provider_def sample_library_def read_receipt_def sample_jid_def normalize_jid_def act_steps Let_def)
  have name: "wl_string (wp_library sample_provider) (sample_jid ''9'') = ''9@lid''"
    by (simp add: sample_provider_def sample_library_def sample_jid_def)
  have one: "receipt_one sample_provider ''9@lid'' ''read'' ''A'' two_sent = (Inr (Some (wa_snapshot ''message'' ''9@lid/A''
      (enc_message (zero_message\<lparr>m_id := ''9@lid/A'', m_status := ''read''\<rparr>)))), two_sent)"
    "receipt_one sample_provider ''9@lid'' ''read'' ''B'' two_sent = (Inr None, two_sent)"
    using receipt_one_run [of "''9@lid''" "''A''" two_sent, OF _ dec [of "''A''" "''delivered''"] two_sent_records(3,4)]
      receipt_one_run [of "''9@lid''" "''B''" two_sent, OF _ dec [of "''B''" "''read''"] two_sent_records(3,4)] two_sent_records(1,2)
    by (simp_all add: message_id_def raise_status_def status_rank_def)
  have "chat_supported (wp_library sample_provider) (so_chat (re_source read_receipt))"
    by (simp add: chat_supported_def normalize_jid_def sample_provider_def sample_library_def read_receipt_def sample_jid_def)
  moreover have "re_ids read_receipt = [''A'', ''B'']" "receipt_status (re_type read_receipt) = ''read''"
    by (simp_all add: read_receipt_def)
  ultimately show ?thesis
    using learn chat one by (simp add: receipt_snapshots_def Let_def name act_steps then_act_def bind_act_def)
qed

theorem receipts_never_regress_witness:
  "\<exists>out. receipt_snapshots sample_provider read_receipt two_sent = (Inr out, two_sent) \<and> length out = 1 \<and>
     raised (b_store two_sent) ''9@lid/B'' ''read'' = None \<and>
     (\<exists>chat c. canonical sample_provider (so_chat (re_source read_receipt)) c = (Inr chat, two_sent))"
proof -
  have "chat_supported (wp_library sample_provider) (so_chat (re_source read_receipt))"
    by (simp add: chat_supported_def normalize_jid_def sample_provider_def sample_library_def read_receipt_def sample_jid_def)
  from receipts_never_regress [OF run_receipts this]
  have "\<exists>chat c. canonical sample_provider (so_chat (re_source read_receipt)) c = (Inr chat, two_sent)"
    by (auto simp: read_receipt_def)
  moreover have "raised (b_store two_sent) ''9@lid/B'' ''read'' = None"
    using two_sent_records(2) by (simp add: raised_def sent_event_def status_rank_def)
  ultimately show ?thesis using run_receipts by simp
qed

section \<open>Phone numbers\<close>

definition answers_lids :: "wa_provider \<Rightarrow> bool" where
  "answers_lids P \<longleftrightarrow> (\<forall>c j b lid b'. wp_client P = Some c \<and> wc_user_info c j b = (Inr (Inr lid), b') \<longrightarrow>
     wl_empty (wp_library P) lid \<or> ji_server lid = Hidden_server)"

lemma normalize_device: "library_ok W \<Longrightarrow> ji_device (normalize_jid W j) = 0"
  using normalize_plain [of W j] unfolding library_ok_def jids_ok_def by metis

lemma picked_lid:
  assumes pick: "(case (wl_empty W known, client) of
           (True, Some c) \<Rightarrow> bind_act (wc_user_info c j) (\<lambda>r. case r of
               Inl e \<Rightarrow> fail_act ErrUnavailable
             | Inr lid \<Rightarrow> then_act (when_act (\<not> wl_empty W lid) (cred (put_lid_mapping W ns lid j)))
                 (return_act lid))
         | _ \<Rightarrow> return_act known) c = (Inr lid, d)"
  shows "lid = known \<or> (\<exists>c b b'. client = Some c \<and> wc_user_info c j b = (Inr (Inr lid), b'))"
proof (cases "wl_empty W known \<and> client \<noteq> None")
  case False
  with pick show ?thesis by (auto simp: act_steps split: bool.splits option.splits)
next
  case True
  then obtain cl where cl: "client = Some cl" "wl_empty W known = True" by auto
  with pick obtain r v where r: "wc_user_info cl j c = (Inr r, v)"
    and out: "(case r of Inl e \<Rightarrow> fail_act ErrUnavailable
           | Inr lid \<Rightarrow> then_act (when_act (\<not> wl_empty W lid) (cred (put_lid_mapping W ns lid j)))
               (return_act lid)) v = (Inr lid, d)"
    by (simp add: bind_act_Inr) blast
  from out have "r = Inr lid" by (cases r) (auto simp: act_steps then_act_Inr)
  with r cl(1) show ?thesis by blast
qed

text \<open>C15: the identity \<open>canonical\<close> answers is never a phone number: it is
  an address of another server, without a device.  The device's identities are assumed to be paired, which
  the credential store keeps, and the client to answer LIDs.\<close>

theorem phone_numbers_are_not_identities:
  assumes "library_ok (wp_library P)" and "lids_ok (wp_library P) (wp_ns P) (b_store b)" and "answers_lids P"
    and "canonical P j b = (Inr k, b')"
  shows "ji_server k \<noteq> Default_server \<and> ji_device k = 0 \<and> wl_plain (wp_library P) k = k \<and>
    (ji_server (normalize_jid (wp_library P) j) = Default_server \<longrightarrow> ji_server k = Hidden_server \<and> \<not> wl_empty (wp_library P) k)"
proof (cases "ji_server (normalize_jid (wp_library P) j) = Default_server")
  case False
  then have "k = normalize_jid (wp_library P) j"
    using assms(4) by (simp add: canonical_def Let_def act_steps)
  with False normalize_plain [OF assms(1)] normalize_device [OF assms(1)] show ?thesis by simp
next
  case True
  let ?W = "wp_library P" let ?j = "normalize_jid ?W j"
  have plain: "ji_server (wl_plain ?W x) = ji_server x \<and> ji_device (wl_plain ?W x) = 0 \<and> wl_plain ?W (wl_plain ?W x) = wl_plain ?W x \<and>
      wl_empty ?W (wl_plain ?W x) = wl_empty ?W x" for x
    using assms(1) by (simp add: library_ok_def jids_ok_def)
  from True assms(4) obtain known c where known: "cred (lid_for_pn ?W (wp_ns P) ?j) b = (Inr known, c)"
    and rest: "bind_act (case (wl_empty ?W known, wp_client P) of
           (True, Some c) \<Rightarrow> bind_act (wc_user_info c ?j) (\<lambda>r. case r of
               Inl e \<Rightarrow> fail_act ErrUnavailable
             | Inr lid \<Rightarrow> then_act (when_act (\<not> wl_empty ?W lid) (cred (put_lid_mapping ?W (wp_ns P) lid ?j)))
                 (return_act lid))
         | _ \<Rightarrow> return_act known) (\<lambda>lid.
       if wl_empty ?W lid then fail_act ErrUnavailable else return_act (wl_plain ?W lid)) c = (Inr k, b')"
    unfolding canonical_def Let_def by (auto simp: bind_act_Inr)
  from known obtain s' where "mapped_jid ?W (wp_ns P) ''pn'' ?j (b_store b) = Inr (known, s')"
    by (auto simp: cred_Inr lid_for_pn_def)
  moreover have "half_ok ?W (wp_ns P) ''pn'' ''lid'' Hidden_server Default_server (b_store b)"
    using assms(2) by (simp add: lids_ok_def)
  ultimately have k: "\<not> wl_empty ?W known \<Longrightarrow> ji_server known = Hidden_server"
    using mapped_jid_Inr(3) [OF assms(1)] normalize_device [OF assms(1)] by blast
  from rest [THEN bind_act_Inr [THEN iffD1]] obtain lid d where
    pick: "(case (wl_empty ?W known, wp_client P) of
           (True, Some c) \<Rightarrow> bind_act (wc_user_info c ?j) (\<lambda>r. case r of
               Inl e \<Rightarrow> fail_act ErrUnavailable
             | Inr lid \<Rightarrow> then_act (when_act (\<not> wl_empty ?W lid) (cred (put_lid_mapping ?W (wp_ns P) lid ?j)))
                 (return_act lid))
         | _ \<Rightarrow> return_act known) c = (Inr lid, d)"
    and lid: "\<not> wl_empty ?W lid" "k = wl_plain ?W lid"
    by (auto simp: act_steps split: if_splits)
  from picked_lid [OF pick]
  have source: "lid = known \<or> (\<exists>c b b'. wp_client P = Some c \<and> wc_user_info c ?j b = (Inr (Inr lid), b'))" by blast
  from source have "ji_server lid = Hidden_server"
    using k lid(1) assms(3) unfolding answers_lids_def by blast
  with plain [of lid] lid show ?thesis by simp
qed

text \<open>A client that knows the LID of every phone number.\<close>

definition knowing_client :: wa_client where
  "knowing_client = \<lparr>wc_user_info = (\<lambda>_. return_act (Inr sample_lid)), wc_on_whatsapp = (\<lambda>_. return_act (Inl Not_connected)),
     wc_create_group = (\<lambda>_ _. return_act (Inl Not_connected)), wc_group = (\<lambda>_. return_act (Inl Not_connected)),
     wc_send = (\<lambda>_ _ _. return_act (Inl Not_connected)), wc_upload = (\<lambda>_ _. return_act (Inl Not_connected)),
     wc_download = (\<lambda>_. return_act (Opaque [], Some Not_connected)),
     wc_mark_read = (\<lambda>_ _ _ _. return_act (Some Not_connected)), wc_presence = (\<lambda>_. return_act (Some Not_connected))\<rparr>"

definition knowing_provider :: wa_provider where
  "knowing_provider = sample_provider\<lparr>wp_client := Some knowing_client\<rparr>"

lemma run_canonical: "\<exists>b. canonical knowing_provider sample_pn (new_bridge (empty_store 0)) = (Inr sample_lid, b)"
proof -
  let ?b = "new_bridge (empty_store 0)" and ?j = "normalize_jid sample_library sample_pn"
  have s: "b_store ?b = empty_store 0" by (simp add: new_bridge_def set_status_def)
  have lib: "wp_library knowing_provider = sample_library" "wp_ns knowing_provider = ''d''" "wp_client knowing_provider = Some knowing_client"
    by (simp_all add: knowing_provider_def sample_provider_def)
  have "lid_for_pn sample_library ''d'' ?j (empty_store 0) = Inr (empty_jid, empty_store 0)"
    by (simp add: lid_for_pn_def mapped_jid_def exec runs Let_def sample_library_def empty_jid_def)
  then have known: "cred (lid_for_pn sample_library ''d'' ?j) ?b = (Inr empty_jid, ?b)"
    using s by (simp add: cred_Inr)
  obtain s' where "put_lid_mapping sample_library ''d'' sample_lid sample_pn (empty_store 0) = Inr ((), s')"
    using sample_mapping by blast
  then have "put_lid_mapping sample_library ''d'' sample_lid ?j (empty_store 0) = Inr ((), s')"
    unfolding put_lid_mapping_def normalize_twice [OF sample_library_ok] .
  then have put: "cred (put_lid_mapping sample_library ''d'' sample_lid ?j) ?b = (Inr (), ?b\<lparr>b_store := s'\<rparr>)"
    using s by (simp add: cred_Inr)
  have "wl_empty sample_library empty_jid" "\<not> wl_empty sample_library sample_lid" "wl_plain sample_library sample_lid = sample_lid"
    by (simp_all add: sample_library_def empty_jid_def sample_lid_def)
  with known put show ?thesis
    by (simp add: canonical_def lib Let_def knowing_client_def bind_act_def then_act_def act_steps)
qed

theorem phone_numbers_are_not_identities_witness:
  "\<exists>b. canonical knowing_provider sample_pn (new_bridge (empty_store 0)) = (Inr sample_lid, b) \<and>
     ji_server sample_lid \<noteq> Default_server"
proof -
  obtain b where run: "canonical knowing_provider sample_pn (new_bridge (empty_store 0)) = (Inr sample_lid, b)"
    using run_canonical by blast
  have "library_ok (wp_library knowing_provider)" "answers_lids knowing_provider"
    "lids_ok (wp_library knowing_provider) (wp_ns knowing_provider) (b_store (new_bridge (empty_store 0)))"
    using sample_library_ok empty_lids_ok
    by (simp_all add: knowing_provider_def sample_provider_def answers_lids_def knowing_client_def act_steps
        new_bridge_def set_status_def)
  from phone_numbers_are_not_identities [OF this(1,3,2) run] run show ?thesis by blast
qed

end
