(* ===== verification/GoogleContent.thy ===== *)
theory GoogleContent
  imports Http Requests
begin

text \<open>
  What the Google connection makes of the phone's messages (\<open>internal/provider/google.go\<close>):
  snapshots of messages, conversations and typing, the cursors of pages, the address book, and the
  target of a send.  The protobuf types of libgm are records of the fields the code reads; an enum is
  its name, a \<open>SIMPayload\<close> its bytes, and \<open>_rest\<close> stands for all other fields.  A nil message is
  told from an empty one only where the code does.
\<close>

section \<open>The phone's records\<close>

record gm_media =
  gd_id :: string
  gd_key :: string
  gd_thumb_id :: string
  gd_thumb_key :: string
  gd_data :: string
  gd_size :: i64
  gd_mime :: string
  gd_format :: string
  gd_name :: string
  gd_rest :: string

datatype gm_data = No_data | Text_data string | Media_data gm_media

record gm_info =
  gi_data :: gm_data
  gi_action :: string

record gm_reaction =
  gr_unicode :: string
  gr_type :: string
  gr_people :: "string list"

record gm_message =
  gg_id :: string
  gg_status :: string
  gg_conversation :: string
  gg_participant :: string
  gg_time :: i64
  gg_subject :: string
  gg_tmp :: string
  gg_infos :: "gm_info list"
  gg_reactions :: "gm_reaction list"

record gm_ident =
  gn_participant :: string
  gn_number :: string
  gn_rest :: string

record gm_participant =
  gq_id :: gm_ident
  gq_full :: string
  gq_first :: string
  gq_me :: bool
  gq_sim :: "string option"
  gq_rest :: string

record gm_sim_card =
  gs_payload :: "string option"
  gs_rest :: string

record gm_conversation =
  gc_id :: string
  gc_name :: string
  gc_preview :: string
  gc_time :: i64
  gc_unread :: bool
  gc_read_only :: bool
  gc_type :: string
  gc_status :: string
  gc_people :: "gm_participant list"
  gc_outgoing :: string
  gc_sim :: "gm_sim_card option"
  gc_rest :: string

record gm_typing =
  gt_conversation :: string
  gt_number :: string
  gt_started :: bool

record gm_cursor =
  gu_id :: string
  gu_time :: i64
  gu_rest :: string

record gm_number =
  gb_number :: string
  gb_number2 :: string
  gb_formatted :: string

record gm_contact =
  ge_participant :: string
  ge_contact :: string
  ge_name :: string
  ge_name_again :: string
  ge_number :: gm_number

text \<open>
  \<open>gl_media\<close> and \<open>gl_read_media\<close> are \<open>protojson\<close>'s two directions, \<open>gl_fields\<close> and \<open>gl_cursor\<close>
  protobuf's; \<open>gl_sha\<close> is SHA-256 in hexadecimal, \<open>gl_format\<close> libgm's table of media types.
\<close>

record google_library =
  gl_go :: go_library
  gl_media :: "gm_media \<Rightarrow> go_error + payload"
  gl_read_media :: "payload \<Rightarrow> gm_media option"
  gl_fields :: "gm_conversation \<Rightarrow> go_error + payload"
  gl_read_fields :: "payload \<Rightarrow> gm_conversation option"
  gl_cursor :: "gm_cursor \<Rightarrow> go_error + string"
  gl_read_cursor :: "string \<Rightarrow> gm_cursor option"
  gl_sha :: "payload \<Rightarrow> string"
  gl_format :: "string \<Rightarrow> string"

section \<open>Snapshots\<close>

definition google_conversation_key :: "string \<Rightarrow> string" where
  "google_conversation_key i = ''conversation:'' @ i"

definition no_ident :: gm_ident where
  "no_ident = \<lparr>gn_participant = [], gn_number = [], gn_rest = []\<rparr>"

definition empty_gm_conversation :: gm_conversation where
  "empty_gm_conversation = \<lparr>gc_id = [], gc_name = [], gc_preview = [], gc_time = 0, gc_unread = False,
     gc_read_only = False, gc_type = [], gc_status = [], gc_people = [], gc_outgoing = [], gc_sim = None, gc_rest = []\<rparr>"

definition send_fields :: "gm_conversation \<Rightarrow> gm_conversation" where
  "send_fields c = empty_gm_conversation\<lparr>gc_id := gc_id c, gc_read_only := gc_read_only c,
     gc_outgoing := gc_outgoing c, gc_sim := gc_sim c,
     gc_people := map (\<lambda>p. \<lparr>gq_id = gq_id p, gq_full = [], gq_first = [], gq_me = True, gq_sim = gq_sim p, gq_rest = []\<rparr>)
       (filter gq_me (gc_people c))\<rparr>"

definition remote_media :: "gm_media \<Rightarrow> string \<times> string" where
  "remote_media m = (if gd_id m \<noteq> [] \<and> length (gd_key m) = 32 then (gd_id m, gd_key m)
     else if gd_thumb_id m \<noteq> [] \<and> length (gd_thumb_key m) = 32 then (gd_thumb_id m, gd_thumb_key m)
     else ([], []))"

definition full_media :: "gm_media \<Rightarrow> bool" where
  "full_media m \<longleftrightarrow> gd_id m \<noteq> [] \<and> length (gd_key m) = 32"

definition media_mime :: "google_library \<Rightarrow> gm_media \<Rightarrow> string" where
  "media_mime L m = (let mime = gd_mime m; mime = (if mime = [] then gl_format L (gd_format m) else mime) in
     if mime = [] then ''application/octet-stream'' else mime)"

record media_part =
  mp_message_id :: string
  mp_action_id :: string

definition enc_part :: "media_part \<Rightarrow> json" where
  "enc_part p = JObj (jstr ''message_id'' (mp_message_id p) @ jstr ''action_message_id'' (mp_action_id p))"

definition set_part :: "string \<Rightarrow> json \<Rightarrow> media_part \<Rightarrow> media_part option" where
  "set_part k v p =
    (if k = ''message_id'' then map_option (\<lambda>x. p\<lparr>mp_message_id := x\<rparr>) (as_str v (mp_message_id p))
     else if k = ''action_message_id'' then map_option (\<lambda>x. p\<lparr>mp_action_id := x\<rparr>) (as_str v (mp_action_id p))
     else Some p)"

definition dec_part :: "json \<Rightarrow> media_part option" where
  "dec_part = decode_struct set_part \<lparr>mp_message_id = [], mp_action_id = []\<rparr>"

text \<open>One part of a message: its attachment and the private records beside it.\<close>

definition media_attachment :: "google_library \<Rightarrow> string \<Rightarrow> gm_info \<Rightarrow> gm_media \<Rightarrow>
    go_error + attachment \<times> (string \<times> payload) list" where
  "media_attachment L i info m = (case gl_media L m of Inl e \<Rightarrow> Inl e
     | Inr data \<Rightarrow>
       let aid = gl_sha L data;
           available = (fst (remote_media m) \<noteq> [] \<or> gd_data m \<noteq> []);
           requestable = (\<not> full_media m \<and> gi_action info \<noteq> []) in
       Inr (\<lparr>a_id = aid, a_name = gd_name m, a_mime = media_mime L m, a_size = gd_size m,
              a_available = available, a_preview = (available \<and> \<not> full_media m), a_requestable = requestable\<rparr>,
            (aid, data) # (if requestable
              then [(part_key aid, JText (enc_part \<lparr>mp_message_id = i, mp_action_id = gi_action info\<rparr>))] else [])))"

definition add_info :: "google_library \<Rightarrow> string \<Rightarrow> gm_info \<Rightarrow>
    go_error + string \<times> attachment list \<times> (string \<times> payload) list \<Rightarrow>
    go_error + string \<times> attachment list \<times> (string \<times> payload) list" where
  "add_info L i info acc = (case acc of Inl e \<Rightarrow> Inl e
     | Inr (text, atts, private) \<Rightarrow> (case gi_data info of
         No_data \<Rightarrow> Inr (text, atts, private)
       | Text_data t \<Rightarrow> Inr (text @ t, atts, private)
       | Media_data m \<Rightarrow> map_sum id (\<lambda>(a, p). (text, atts @ [a], private @ p)) (media_attachment L i info m)))"

definition gm_reaction_of :: "google_library \<Rightarrow> gm_reaction \<Rightarrow> reaction" where
  "gm_reaction_of L r = \<lparr>r_emoji = (if gr_unicode r = [] then lib_lower (gl_go L) (gr_type r) else gr_unicode r),
     r_participants = gr_people r\<rparr>"

definition unix_micro :: "i64 \<Rightarrow> time" where  \<comment> \<open>\<open>time.UnixMicro(n)\<close>\<close>
  "unix_micro n = sint n * 1000 + 62135596800 * second"

definition google_snapshot :: "string \<Rightarrow> string \<Rightarrow> time \<Rightarrow> json \<Rightarrow> (string \<times> payload) list \<Rightarrow> provider_snapshot" where
  "google_snapshot kind i t data private =
     \<lparr>sn_event = zero_event\<lparr>ev_type := kind, ev_entity_id := i, ev_time := t, ev_data := JText data\<rparr>, sn_private = private\<rparr>"

definition google_message :: "google_library \<Rightarrow> gm_message \<Rightarrow> string \<Rightarrow> attachment list \<Rightarrow> message" where
  "google_message L m text atts = (let status = lib_lower (gl_go L) (gg_status m) in
     zero_message\<lparr>m_schema := Schema, m_id := gg_id m, m_conversation_id := gg_conversation m,
       m_sender_id := gg_participant m, m_time := unix_micro (gg_time m), m_text := text,
       m_subject := gg_subject m,
       m_direction := (if prefix ''incoming_'' status then ''incoming''
         else if prefix ''outgoing_'' status then ''outgoing'' else ''system''),
       m_status := status, m_deleted := contains_str status ''deleted'', m_transaction_id := gg_tmp m,
       m_attachments := atts, m_reactions := map (gm_reaction_of L) (gg_reactions m)\<rparr>)"

text \<open>\<open>SnapshotOf\<close>, by the type of its argument; \<open>t\<close> is the time of the call.\<close>

definition message_snapshot :: "google_library \<Rightarrow> time \<Rightarrow> gm_message \<Rightarrow> go_error + provider_snapshot" where
  "message_snapshot L t m = map_sum id (\<lambda>(text, atts, private).
       google_snapshot ''message'' (gg_id m) t (enc_message (google_message L m text atts)) private)
     (fold (add_info L (gg_id m)) (gg_infos m) (Inr ([], [], [])))"

definition google_person :: "gm_participant \<Rightarrow> participant" where
  "google_person p = \<lparr>p_id = gn_participant (gq_id p), p_name = (if gq_full p = [] then gq_first p else gq_full p),
     p_address = gn_number (gq_id p), p_is_me = gq_me p\<rparr>"

definition google_conversation :: "google_library \<Rightarrow> gm_conversation \<Rightarrow> conversation" where
  "google_conversation L c = zero_conversation\<lparr>c_schema := Schema, c_id := gc_id c, c_name := gc_name c,
     c_preview := gc_preview c, c_updated := unix_micro (gc_time c), c_unread := gc_unread c,
     c_read_only := gc_read_only c, c_protocol := lib_lower (gl_go L) (gc_type c),
     c_state := lib_lower (gl_go L) (gc_status c), c_participants := map google_person (gc_people c)\<rparr>"

definition chat_snapshot :: "google_library \<Rightarrow> time \<Rightarrow> gm_conversation \<Rightarrow> go_error + provider_snapshot" where
  "chat_snapshot L t c = map_sum id (\<lambda>fields. google_snapshot ''conversation'' (gc_id c) t
       (enc_conversation (google_conversation L c)) [(google_conversation_key (gc_id c), fields)])
     (gl_fields L (send_fields c))"

definition typing_snapshot :: "time \<Rightarrow> gm_typing \<Rightarrow> provider_snapshot" where
  "typing_snapshot t y = google_snapshot ''typing'' (gt_conversation y) t
     (enc_typing \<lparr>t_schema = Schema, t_conversation_id = gt_conversation y, t_participant_id = gt_number y,
       t_active = gt_started y\<rparr>) []"

fun snapshots_of :: "('a \<Rightarrow> go_error + provider_snapshot) \<Rightarrow> 'a list \<Rightarrow> go_error + provider_snapshot list" where
  "snapshots_of f [] = Inr []"
| "snapshots_of f (m # ms) = (case f m of Inl e \<Rightarrow> Inl e | Inr s \<Rightarrow> map_sum id ((#) s) (snapshots_of f ms))"

section \<open>Cursors\<close>

record page_cursor =
  pc_version :: i64
  pc_scope :: string
  pc_key :: string
  pc_position :: "string option"

definition enc_cursor :: "page_cursor \<Rightarrow> json" where
  "enc_cursor c = JObj (jint ''version'' (pc_version c) @ jstr ''scope'' (pc_scope c) @ jstr ''key'' (pc_key c) @
     [(''position'', case pc_position c of None \<Rightarrow> JNull | Some b \<Rightarrow> JStr b)])"

definition set_cursor :: "string \<Rightarrow> json \<Rightarrow> page_cursor \<Rightarrow> page_cursor option" where
  "set_cursor k v c =
    (if k = ''version'' then map_option (\<lambda>x. c\<lparr>pc_version := x\<rparr>) (as_i64 v (pc_version c))
     else if k = ''scope'' then map_option (\<lambda>x. c\<lparr>pc_scope := x\<rparr>) (as_str v (pc_scope c))
     else if k = ''key'' then map_option (\<lambda>x. c\<lparr>pc_key := x\<rparr>) (as_str v (pc_key c))
     else if k = ''position'' then (case v of JNull \<Rightarrow> Some (c\<lparr>pc_position := None\<rparr>)
       | JStr b \<Rightarrow> Some (c\<lparr>pc_position := Some b\<rparr>) | _ \<Rightarrow> None)
     else None)"

definition zero_cursor :: page_cursor where
  "zero_cursor = \<lparr>pc_version = 0, pc_scope = [], pc_key = [], pc_position = None\<rparr>"

definition incomplete :: "gm_cursor \<Rightarrow> bool" where
  "incomplete c \<longleftrightarrow> gu_id c = [] \<or> sint (gu_time c) \<le> 0"

definition encode_cursor :: "google_library \<Rightarrow> string \<Rightarrow> string \<Rightarrow> gm_cursor option \<Rightarrow> go_error + payload" where
  "encode_cursor L scope key cur = (case cur of None \<Rightarrow> Inr (Opaque [])
     | Some c \<Rightarrow> if incomplete c then Inl ErrUnavailable
         else map_sum id (\<lambda>b. JText (enc_cursor \<lparr>pc_version = 1, pc_scope = scope, pc_key = key, pc_position = Some b\<rparr>))
           (gl_cursor L c))"

definition cursor_names :: "string list" where
  "cursor_names = [''version'', ''scope'', ''key'', ''position'']"

definition decode_cursor :: "google_library \<Rightarrow> payload \<Rightarrow> string \<Rightarrow> string \<Rightarrow> go_error + gm_cursor option" where
  "decode_cursor L data scope key = (if data = Opaque [] then Inr None
     else case unmarshal (decode_strict (gl_go L) cursor_names set_cursor zero_cursor) data of
         Inl e \<Rightarrow> Inl ErrInvalidCursor
       | Inr t \<Rightarrow> (case pc_position t of None \<Rightarrow> Inl ErrInvalidCursor
         | Some b \<Rightarrow> if pc_version t \<noteq> 1 \<or> pc_scope t \<noteq> scope \<or> pc_key t \<noteq> key \<or> b = [] then Inl ErrInvalidCursor
             else (case gl_read_cursor L b of None \<Rightarrow> Inl ErrInvalidCursor
               | Some c \<Rightarrow> if incomplete c then Inl ErrInvalidCursor else Inr (Some c))))"

section \<open>Contacts\<close>

definition is_digit :: "char \<Rightarrow> bool" where
  "is_digit c \<longleftrightarrow> c \<in> set ''0123456789''"

fun e164 :: "string \<Rightarrow> bool" where  \<comment> \<open>\<open>^\+[1-9][0-9]{6,14}$\<close>\<close>
  "e164 (p # d # ds) \<longleftrightarrow> p = CHR ''+'' \<and> is_digit d \<and> d \<noteq> CHR ''0'' \<and> list_all is_digit ds \<and>
     6 \<le> length ds \<and> length ds \<le> 14"
| "e164 _ \<longleftrightarrow> False"

definition contact_address :: "gm_number \<Rightarrow> string \<times> string" where
  "contact_address n = (case List.find e164 [gb_number n, gb_number2 n, gb_formatted n] of
       Some a \<Rightarrow> (a, gb_formatted n)
     | None \<Rightarrow> ([], if gb_formatted n = [] then gb_number n else gb_formatted n))"

definition contact_of :: "string list \<Rightarrow> gm_contact \<Rightarrow> contact" where
  "contact_of frequent c = (case contact_address (ge_number c) of (address, formatted) \<Rightarrow>
     \<lparr>k_id = ge_participant c, k_contact_id = ge_contact c,
      k_name = (if ge_name c = [] then ge_name_again c else ge_name c), k_address = address,
      k_formatted = formatted, k_frequent = (ge_participant c \<in> set frequent)\<rparr>)"

definition contact_id_key :: "contact \<Rightarrow> string" where
  "contact_id_key k = k_id k @ [CHR 0x00] @ k_address k @ [CHR 0x00] @ k_formatted k"

fun list_contacts :: "string list \<Rightarrow> string set \<Rightarrow> gm_contact list \<Rightarrow> contact list" where
  "list_contacts frequent seen [] = []"
| "list_contacts frequent seen (c # cs) = (let k = contact_of frequent c in
     if contact_id_key k \<in> seen \<or> k_name k = [] \<and> k_address k = [] \<and> k_formatted k = []
     then list_contacts frequent seen cs
     else k # list_contacts frequent (insert (contact_id_key k) seen) cs)"

section \<open>The target of a send\<close>

definition payload_of :: "gm_sim_card option \<Rightarrow> string option" where
  "payload_of s = (case s of None \<Rightarrow> None | Some c \<Rightarrow> gs_payload c)"

definition own_sim :: "gm_conversation \<Rightarrow> string option" where
  "own_sim c = (case payload_of (gc_sim c) of Some s \<Rightarrow> Some s
     | None \<Rightarrow> fold (\<lambda>p sim. if gq_me p \<and> gn_participant (gq_id p) = gc_outgoing c then gq_sim p else sim) (gc_people c) None)"

definition google_target :: "gm_conversation option \<Rightarrow> string \<Rightarrow> go_error + send_target" where
  "google_target conv i = (case conv of None \<Rightarrow> Inl ErrRejected
     | Some c \<Rightarrow> if gc_id c \<noteq> i \<or> gc_read_only c \<or> gc_outgoing c = [] then Inl ErrRejected
         else (case own_sim c of None \<Rightarrow> Inl ErrRejected
           | Some sim \<Rightarrow> Inr (zero_target\<lparr>tg_conversation_id := i, tg_participant_id := gc_outgoing c, tg_sim := Some sim\<rparr>)))"

end
