(* ===== verification/GoogleProvider.thy ===== *)
theory GoogleProvider
  imports GoogleContent
begin

text \<open>
  The Google Messages connection as a provider of the bridge (\<open>internal/provider/google.go\<close>).  libgm's
  client is a record of actions on the bridge: a call may answer anything and leave the bridge in any
  state, since other goroutines run meanwhile.  Its errors are only ever printed, so they are texts.
  The wait for the one download slot is an action too (\<open>gk_slot\<close>, False when the request ends first),
  as is the error of the request's context (\<open>gk_ended\<close>).
\<close>

section \<open>The client\<close>

datatype gm_folder = Folder_inbox | Folder_archive | Folder_spam

datatype create_status = Create_success | Create_rcs | Create_other

datatype send_status = Send_success | Send_failure_2 | Send_failure_3 | Send_failure_4 | Send_other

record create_reply =
  cy_status :: create_status
  cy_conversation :: "gm_conversation option"

datatype gm_entry = Media_entry gm_media | Text_entry string

record gm_send =
  gx_conversation :: string
  gx_tmp :: string
  gx_sim :: "string option"
  gx_participant :: string
  gx_entries :: "gm_entry list"

record gm_react =
  gy_message :: string
  gy_emoji :: string
  gy_remove :: bool
  gy_sim :: "string option"

record google_client =
  gk_conversations :: "gm_folder \<Rightarrow> nat \<Rightarrow> gm_cursor option \<Rightarrow>
    (string + (gm_conversation list \<times> gm_cursor option \<times> string) option) bact"   \<comment> \<open>the last is \<open>CursorBytes\<close>\<close>
  gk_contacts :: "(string + gm_contact list) bact"
  gk_top_contacts :: "(string + string list) bact"
  gk_messages :: "string \<Rightarrow> nat \<Rightarrow> gm_cursor option \<Rightarrow> (string + (gm_message list \<times> gm_cursor option) option) bact"
  gk_create :: "string list \<Rightarrow> string option \<Rightarrow> (string + create_reply) bact"   \<comment> \<open>a group's name to create one\<close>
  gk_conversation :: "string \<Rightarrow> (string + gm_conversation option) bact"
  gk_send :: "gm_send \<Rightarrow> (string + send_status) bact"
  gk_react :: "gm_react \<Rightarrow> (string + bool option) bact"
  gk_typing :: "string \<Rightarrow> string option \<Rightarrow> string option bact"
  gk_mark_read :: "string \<Rightarrow> string \<Rightarrow> string option bact"
  gk_full_size :: "string \<Rightarrow> string \<Rightarrow> string option bact"
  gk_upload :: "(payload \<Rightarrow> string \<Rightarrow> string \<Rightarrow> (string + gm_media option) bact) option"
  gk_download :: "(string \<Rightarrow> string \<Rightarrow> (string + payload \<times> string option) bact) option"   \<comment> \<open>the body and a read error\<close>
  gk_slot :: "bool bact"
  gk_ended :: "go_error option bact"

record google =
  gp_library :: google_library
  gp_client :: google_client
  gp_stored :: "(string \<Rightarrow> payload dbtx) option"
  gp_size :: "json \<Rightarrow> nat"

section \<open>Pages\<close>

definition RecentConversations :: nat where "RecentConversations = 30"

definition RecentMessages :: nat where "RecentMessages = 50"

definition next_page :: "google \<Rightarrow> string \<Rightarrow> string \<Rightarrow> gm_cursor option \<Rightarrow> go_error + provider_snapshot list \<Rightarrow>
    (provider_snapshot list \<times> payload) bact" where
  "next_page G scope key cur snaps = bind_act (lift_act snaps) (\<lambda>out.
     bind_act (lift_act (encode_cursor (gp_library G) scope key cur)) (\<lambda>next. return_act (out, next)))"

definition google_message_page :: "google \<Rightarrow> string \<Rightarrow> payload \<Rightarrow> (provider_snapshot list \<times> payload) bact" where
  \<comment> \<open>\<open>MessagePage\<close>\<close>
  "google_message_page G i data = bind_act (lift_act (decode_cursor (gp_library G) data ''messages'' i)) (\<lambda>cur.
     bind_act (gk_messages (gp_client G) i RecentMessages cur) (\<lambda>r. bind_act (get_act now) (\<lambda>t. case r of
         Inr (Some (ms, next)) \<Rightarrow>
           next_page G ''messages'' i next (snapshots_of (message_snapshot (gp_library G) t) ms)
       | _ \<Rightarrow> fail_act ErrUnavailable)))"

definition conversation_folder :: "string \<Rightarrow> gm_folder option" where
  "conversation_folder f = (if f = ''inbox'' then Some Folder_inbox else if f = ''archive'' then Some Folder_archive
     else if f = ''spam'' then Some Folder_spam else None)"

definition google_conversation_page :: "google \<Rightarrow> string \<Rightarrow> payload \<Rightarrow> (provider_snapshot list \<times> payload) bact" where
  \<comment> \<open>\<open>ConversationPage\<close>\<close>
  "google_conversation_page G folder data = (case conversation_folder folder of None \<Rightarrow> fail_act ErrInvalidFolder
     | Some f \<Rightarrow> bind_act (lift_act (decode_cursor (gp_library G) data ''conversations'' folder)) (\<lambda>cur.
         bind_act (gk_conversations (gp_client G) f RecentConversations cur) (\<lambda>r. bind_act (get_act now) (\<lambda>t. case r of
             Inr (Some (cs, next, bytes)) \<Rightarrow>
               if next = None \<and> bytes \<noteq> [] then fail_act ErrUnsupportedCursor
               else next_page G ''conversations'' folder next (snapshots_of (chat_snapshot (gp_library G) t) cs)
           | _ \<Rightarrow> fail_act ErrUnavailable))))"

definition first_page :: "(provider_snapshot list \<times> payload) bact \<Rightarrow> provider_snapshot list bact" where
  "first_page m = bind_act m (\<lambda>(out, next). return_act out)"

section \<open>Contacts and conversations\<close>

definition google_contacts :: "google \<Rightarrow> contact list bact" where  \<comment> \<open>\<open>Contacts\<close>\<close>
  "google_contacts G = bind_act (gk_contacts (gp_client G)) (\<lambda>r. case r of Inl e \<Rightarrow> fail_act ErrUnavailable
     | Inr cs \<Rightarrow> bind_act (gk_top_contacts (gp_client G)) (\<lambda>top.
         return_act (list_contacts (case top of Inl e \<Rightarrow> [] | Inr ids \<Rightarrow> ids) {} cs)))"

definition created :: "google \<Rightarrow> create_reply \<Rightarrow> provider_snapshot bact" where
  "created G reply = (case cy_conversation reply of
       Some c \<Rightarrow> if cy_status reply \<noteq> Create_success \<or> gc_id c = [] then fail_act ErrAmbiguous
         else bind_act (get_act now) (\<lambda>t. case chat_snapshot (gp_library G) t c of
             Inl e \<Rightarrow> fail_act ErrAmbiguous | Inr s \<Rightarrow> return_act s)
     | None \<Rightarrow> fail_act ErrAmbiguous)"

definition google_create :: "google \<Rightarrow> string list \<Rightarrow> string \<Rightarrow> provider_snapshot bact" where
  \<comment> \<open>\<open>CreateConversation\<close>\<close>
  "google_create G recipients name =
    (if recipients = [] \<or> [] \<in> set recipients then fail_act ErrRejected
     else bind_act (gk_create (gp_client G) recipients None) (\<lambda>r. case r of Inl e \<Rightarrow> fail_act ErrAmbiguous
       | Inr reply \<Rightarrow> if cy_status reply \<noteq> Create_rcs then created G reply
           else bind_act (gk_create (gp_client G) recipients (Some name)) (\<lambda>r. case r of
               Inl e \<Rightarrow> fail_act ErrAmbiguous | Inr reply \<Rightarrow> created G reply)))"

section \<open>Sending\<close>

definition stored_target :: "google \<Rightarrow> string \<Rightarrow> send_target option bact" where
  "stored_target G i = (case gp_stored G of None \<Rightarrow> return_act None
     | Some read \<Rightarrow> bind_act (try_act (view_db (read (google_conversation_key i)))) (\<lambda>r. return_act (case r of
         Inl e \<Rightarrow> None
       | Inr data \<Rightarrow> (case gl_read_fields (gp_library G) data of None \<Rightarrow> None
         | Some c \<Rightarrow> (case google_target (Some c) i of Inl e \<Rightarrow> None | Inr t \<Rightarrow> Some t)))))"

definition google_prepare :: "google \<Rightarrow> string \<Rightarrow> send_target bact" where  \<comment> \<open>\<open>Prepare\<close>\<close>
  "google_prepare G i = bind_act (stored_target G i) (\<lambda>t. case t of Some t \<Rightarrow> return_act t
     | None \<Rightarrow> bind_act (gk_conversation (gp_client G) i) (\<lambda>r. case r of
         Inl e \<Rightarrow> fail_act ErrUnavailable | Inr c \<Rightarrow> lift_act (google_target c i)))"

text \<open>The media of a send, as long as their sizes add up to no more than the limit.\<close>

fun media_entries :: "google_library \<Rightarrow> int \<Rightarrow> payload list \<Rightarrow> gm_entry list option" where
  "media_entries L used [] = Some []"
| "media_entries L used (data # rest) = (case gl_read_media L data of None \<Rightarrow> None
     | Some m \<Rightarrow> if gd_id m = [] \<or> length (gd_key m) \<noteq> 32 \<or> sint (gd_size m) < 0 \<or>
           sint (gd_size m) > int MaxAttachmentBytes - used then None
         else map_option ((#) (Media_entry m)) (media_entries L (used + sint (gd_size m)) rest))"

definition send_entries :: "google_library \<Rightarrow> payload list \<Rightarrow> string \<Rightarrow> gm_entry list option" where
  "send_entries L media body = map_option (\<lambda>es.
     if trim_space body \<noteq> [] \<or> es = [] then es @ [Text_entry body] else es) (media_entries L 0 media)"

fun send_outcome :: "send_status \<Rightarrow> go_error option" where
  "send_outcome Send_success = None"
| "send_outcome Send_failure_2 = Some ErrRejected"
| "send_outcome Send_failure_3 = Some ErrRejected"
| "send_outcome Send_failure_4 = Some ErrRejected"
| "send_outcome Send_other = Some ErrAmbiguous"

definition google_request :: "google_library \<Rightarrow> send_target \<Rightarrow> outbox \<Rightarrow> gm_send option" where
  "google_request L t out = (let q = o_request out in
     if tg_conversation_id t \<noteq> q_conversation_id q \<or> tg_participant_id t = [] \<or> tg_sim t = None then None
     else map_option (\<lambda>es. \<lparr>gx_conversation = q_conversation_id q, gx_tmp = o_transaction_id out,
       gx_sim = tg_sim t, gx_participant = tg_participant_id t, gx_entries = es\<rparr>)
       (send_entries L (tg_media t) (q_text q)))"

definition google_send :: "google \<Rightarrow> send_target \<Rightarrow> outbox \<Rightarrow> unit bact" where  \<comment> \<open>\<open>Send\<close>\<close>
  "google_send G t out = (case google_request (gp_library G) t out of None \<Rightarrow> fail_act ErrRejected
     | Some req \<Rightarrow> bind_act (gk_send (gp_client G) req) (\<lambda>r. case r of Inl e \<Rightarrow> fail_act ErrAmbiguous
         | Inr st \<Rightarrow> (case send_outcome st of None \<Rightarrow> return_act () | Some e \<Rightarrow> fail_act e)))"

definition google_react :: "google \<Rightarrow> send_target \<Rightarrow> string \<Rightarrow> string \<Rightarrow> bool \<Rightarrow> unit bact" where  \<comment> \<open>\<open>React\<close>\<close>
  "google_react G t i emoji remove =
    (if tg_conversation_id t = [] \<or> tg_participant_id t = [] \<or> tg_sim t = None \<or> i = [] \<or> emoji = []
     then fail_act ErrRejected
     else bind_act (gk_react (gp_client G) \<lparr>gy_message = i, gy_emoji = emoji, gy_remove = remove,
         gy_sim = (if remove then None else tg_sim t)\<rparr>) (\<lambda>r. case r of
         Inr (Some ok) \<Rightarrow> if ok then return_act () else fail_act ErrRejected
       | _ \<Rightarrow> fail_act ErrAmbiguous))"

definition google_typing :: "google \<Rightarrow> send_target \<Rightarrow> unit bact" where  \<comment> \<open>\<open>Typing\<close>\<close>
  "google_typing G t =
    (if tg_conversation_id t = [] \<or> tg_participant_id t = [] \<or> tg_sim t = None then fail_act ErrRejected
     else bind_act (gk_typing (gp_client G) (tg_conversation_id t) (tg_sim t)) (\<lambda>r. case r of
         None \<Rightarrow> return_act () | Some e \<Rightarrow> fail_act ErrAmbiguous))"

definition google_mark_read :: "google \<Rightarrow> string \<Rightarrow> string \<Rightarrow> unit bact" where  \<comment> \<open>\<open>MarkRead\<close>\<close>
  "google_mark_read G c i = bind_act (gk_mark_read (gp_client G) c i) (\<lambda>r. case r of
     None \<Rightarrow> return_act () | Some e \<Rightarrow> fail_act ErrUnavailable)"

section \<open>Media\<close>

definition google_upload :: "google \<Rightarrow> payload \<Rightarrow> string \<Rightarrow> string \<Rightarrow> payload bact" where  \<comment> \<open>\<open>Upload\<close>\<close>
  "google_upload G data name mime =
    (if payload_length (gp_size G) data > MaxAttachmentBytes then fail_act ErrTooLarge
     else case gk_upload (gp_client G) of None \<Rightarrow> fail_act ErrUnavailable
       | Some up \<Rightarrow> bind_act (up data name mime) (\<lambda>r. case r of
           Inr (Some m) \<Rightarrow>
             if gd_id m = [] \<or> length (gd_key m) \<noteq> 32 \<or> sint (gd_size m) < 0 \<or> sint (gd_size m) > int MaxAttachmentBytes
             then fail_act ErrUnavailable
             else (case gl_media (gp_library G) m of Inl e \<Rightarrow> fail_act ErrUnavailable | Inr p \<Rightarrow> return_act p)
         | _ \<Rightarrow> fail_act ErrUnavailable))"

text \<open>\<open>ReadBounded\<close>: at most one byte more than the limit is read, so a longer body is refused before
  an error that comes after it is seen.\<close>

definition read_bounded :: "google \<Rightarrow> payload \<Rightarrow> string option \<Rightarrow> payload bact" where
  "read_bounded G body err = bind_act (gk_ended (gp_client G)) (\<lambda>ended. case ended of
       Some e \<Rightarrow> fail_act e
     | None \<Rightarrow> if payload_length (gp_size G) body > MaxAttachmentBytes then fail_act ErrTooLarge
         else if err \<noteq> None then fail_act ErrUnavailable else return_act body)"

definition google_attachment :: "google \<Rightarrow> payload \<Rightarrow> payload bact" where  \<comment> \<open>\<open>Attachment\<close>\<close>
  "google_attachment G data = (case gl_read_media (gp_library G) data of None \<Rightarrow> fail_act ErrJson
     | Some m \<Rightarrow> if sint (gd_size m) > int MaxAttachmentBytes then fail_act ErrTooLarge
         else if fst (remote_media m) = [] then
           (if gd_data m = [] then fail_act ErrUnavailable
            else if length (gd_data m) > MaxAttachmentBytes then fail_act ErrTooLarge
            else return_act (Opaque (gd_data m)))
         else bind_act (gk_slot (gp_client G)) (\<lambda>slot.
           if \<not> slot then bind_act (gk_ended (gp_client G)) (\<lambda>e. fail_act (case e of Some e \<Rightarrow> e | None \<Rightarrow> ErrCanceled))
           else case gk_download (gp_client G) of None \<Rightarrow> fail_act ErrUnavailable
             | Some down \<Rightarrow> (case remote_media m of (i, key) \<Rightarrow> bind_act (down i key) (\<lambda>r. case r of
                 Inl e \<Rightarrow> fail_act ErrUnavailable
               | Inr (body, err) \<Rightarrow> read_bounded G body err))))"

definition google_request_media :: "google \<Rightarrow> payload \<Rightarrow> unit bact" where  \<comment> \<open>\<open>RequestMedia\<close>\<close>
  "google_request_media G data = (case unmarshal dec_part data of Inl e \<Rightarrow> fail_act ErrRejected
     | Inr p \<Rightarrow> if mp_message_id p = [] \<or> mp_action_id p = [] then fail_act ErrRejected
         else bind_act (gk_full_size (gp_client G) (mp_message_id p) (mp_action_id p)) (\<lambda>r. case r of
             None \<Rightarrow> return_act () | Some e \<Rightarrow> fail_act ErrUnavailable))"

section \<open>The provider\<close>

definition google_provider :: "google \<Rightarrow> provider" where
  "google_provider G = \<lparr>
     pv_conversations = first_page (google_conversation_page G ''inbox'' (Opaque [])),
     pv_messages = (\<lambda>i. first_page (google_message_page G i (Opaque []))),
     pv_contacts = google_contacts G,
     pv_create = google_create G,
     pv_react = google_react G,
     pv_typing = google_typing G,
     pv_upload = google_upload G,
     pv_message_page = google_message_page G,
     pv_conversation_page = google_conversation_page G,
     pv_prepare = google_prepare G,
     pv_send = google_send G,
     pv_mark_read = google_mark_read G,
     pv_attachment = google_attachment G,
     pv_request_media = google_request_media G\<rparr>"

end
