(* ===== verification/ProviderContract.thy ===== *)
theory ProviderContract
  imports Service GoogleProvider WaHistory WaSystem
begin

text \<open>
  What the bridge's theorems assume of a network, met by both connections.  \<open>bridge_relation\<close> and
  \<open>storing_relation\<close> are the interfaces: a relation on bridges that the monad keeps and, for WhatsApp,
  the steps of the store and a reported failure.  Under either, every operation of a connection
  keeps the relation when its client does.
\<close>

section \<open>Clients\<close>

definition google_client_within :: "(bridge \<Rightarrow> bridge \<Rightarrow> bool) \<Rightarrow> google_client \<Rightarrow> bool" where
  "google_client_within R c \<longleftrightarrow>
     (\<forall>f n cur. always R (gk_conversations c f n cur)) \<and> always R (gk_contacts c) \<and> always R (gk_top_contacts c) \<and>
     (\<forall>i n cur. always R (gk_messages c i n cur)) \<and> (\<forall>rs g. always R (gk_create c rs g)) \<and>
     (\<forall>i. always R (gk_conversation c i)) \<and> (\<forall>q. always R (gk_send c q)) \<and> (\<forall>q. always R (gk_react c q)) \<and>
     (\<forall>i s. always R (gk_typing c i s)) \<and> (\<forall>i m. always R (gk_mark_read c i m)) \<and>
     (\<forall>i a. always R (gk_full_size c i a)) \<and>
     (\<forall>up. gk_upload c = Some up \<longrightarrow> (\<forall>d n m. always R (up d n m))) \<and>
     (\<forall>down. gk_download c = Some down \<longrightarrow> (\<forall>i k. always R (down i k))) \<and>
     always R (gk_slot c) \<and> always R (gk_ended c)"

definition wa_client_within :: "(bridge \<Rightarrow> bridge \<Rightarrow> bool) \<Rightarrow> wa_client \<Rightarrow> bool" where
  "wa_client_within R c \<longleftrightarrow>
     (\<forall>j. always R (wc_user_info c j)) \<and> (\<forall>ns. always R (wc_on_whatsapp c ns)) \<and>
     (\<forall>n js. always R (wc_create_group c n js)) \<and> (\<forall>j. always R (wc_group c j)) \<and>
     (\<forall>j m x. always R (wc_send c j m x)) \<and> (\<forall>d k. always R (wc_upload c d k)) \<and>
     (\<forall>m. always R (wc_download c m)) \<and> (\<forall>i t j k. always R (wc_mark_read c i t j k)) \<and>
     (\<forall>j. always R (wc_presence c j))"

section \<open>Google Messages\<close>

context bridge_relation
begin

lemma reads: "always R (view_db m)"
  by (simp add: always_def view_db_def R_refl)

lemma google_within:
  assumes "google_client_within R (gp_client G)"
  shows "provider_within R (google_provider G)"
proof -
  note c = assms [unfolded google_client_within_def]
  have calls: "always R (gk_conversations (gp_client G) f n cur)" "always R (gk_contacts (gp_client G))"
    "always R (gk_top_contacts (gp_client G))" "always R (gk_messages (gp_client G) i n cur)"
    "always R (gk_create (gp_client G) rs g)" "always R (gk_conversation (gp_client G) i)"
    "always R (gk_send (gp_client G) q)" "always R (gk_react (gp_client G) y)"
    "always R (gk_typing (gp_client G) i s)" "always R (gk_mark_read (gp_client G) i m)"
    "always R (gk_full_size (gp_client G) i a)" "always R (gk_slot (gp_client G))" "always R (gk_ended (gp_client G))"
    for f n cur i rs g q y s m a
    using c by simp_all
  have up: "always R (case gk_upload (gp_client G) of None \<Rightarrow> h | Some up \<Rightarrow> bind_act (up d n m) k)"
    if "always R h" "\<And>x. always R (k x)" for h k d n m
    using c that by (cases "gk_upload (gp_client G)") (auto intro!: bind)
  have down: "always R (case gk_download (gp_client G) of None \<Rightarrow> h | Some down \<Rightarrow> (case x of (i, key) \<Rightarrow> bind_act (down i key) k))"
    if "always R h" "\<And>x. always R (k x)" for h k x
    using c that by (cases "gk_download (gp_client G)"; cases x) (auto intro!: bind)
  note ops = rules reads calls up down
  have page: "always R (next_page G scope key cur snaps)" for scope key cur snaps
    unfolding next_page_def by (intro ops)
  have bounded: "always R (read_bounded G body err)" for body err
    unfolding read_bounded_def by (intro ops)
  have made: "always R (created G reply)" for reply
    unfolding created_def by (intro ops)
  have target: "always R (stored_target G i)" for i
    unfolding stored_target_def by (intro ops)
  have messages: "always R (google_message_page G i d)" for i d
    unfolding google_message_page_def by (intro ops page)
  have conversations: "always R (google_conversation_page G f d)" for f d
    unfolding google_conversation_page_def by (intro ops page)
  have first: "always R m \<Longrightarrow> always R (first_page m)" for m
    unfolding first_page_def by (intro ops)
  have contacts: "always R (google_contacts G)"
    unfolding google_contacts_def by (intro ops)
  have create: "always R (google_create G rs g)" for rs g
    unfolding google_create_def by (intro ops made)
  have react: "always R (google_react G t i e b)" for t i e b
    unfolding google_react_def by (intro ops)
  have typing: "always R (google_typing G t)" for t
    unfolding google_typing_def by (intro ops)
  have upload: "always R (google_upload G d n m)" for d n m
    unfolding google_upload_def by (intro ops)
  have prepare: "always R (google_prepare G i)" for i
    unfolding google_prepare_def by (intro ops target)
  have send: "always R (google_send G t out)" for t out
    unfolding google_send_def by (intro ops)
  have mark: "always R (google_mark_read G i m)" for i m
    unfolding google_mark_read_def by (intro ops)
  have attachment: "always R (google_attachment G d)" for d
    unfolding google_attachment_def by (intro ops bounded)
  have request: "always R (google_request_media G d)" for d
    unfolding google_request_media_def by (intro ops)
  show ?thesis
    unfolding provider_within_def google_provider_def provider.simps
    by (intro conjI allI first messages conversations contacts create react typing upload prepare send mark attachment request)
qed

end

section \<open>WhatsApp\<close>

locale storing_relation = bridge_relation +
  assumes stored: "store_steps (b_store b) s' \<Longrightarrow> R b (b\<lparr>b_store := s'\<rparr>)"
    and failing: "R b (storage_failure e b)"
begin

lemma committed:
  assumes "\<And>s x s'. m s = Inr (x, s') \<Longrightarrow> store_steps s s'"
  shows "always R (commit_db m)"
proof (rule alwaysI)
  fix b
  show "R b (snd (commit_db m b))"
  proof (cases "m (b_store b)")
    case (Inr r)
    then show ?thesis using assms [of "b_store b"] stored by (cases r) (simp add: commit_db_def update_tx_def)
  next
    case (Inl e)
    then show ?thesis using stored [of b "b_store b"] by (simp add: commit_db_def update_tx_def)
  qed
qed

lemma handled:
  "always R (case r of Inr x \<Rightarrow> return_act x
     | Inl (ErrStored e) \<Rightarrow> then_act (when_act (e \<noteq> ErrCanceled \<and> e \<noteq> ErrDeadline) (mod_act (storage_failure e)))
         (fail_act (ErrStored e))
     | Inl e \<Rightarrow> fail_act e)"
proof -
  have "always R (mod_act (storage_failure e))" for e
    using failing by (simp add: always_def mod_act_def)
  then show ?thesis by (auto intro: rules split: sum.split go_error.split)
qed

lemma called:
  assumes "\<And>s x s'. m s = Inr (x, s') \<Longrightarrow> store_steps s s'"
  shows "always R (cred m)"
  unfolding cred_def by (intro bind attempt committed assms handled)

lemma creds: "upholds (touches ns K) m \<Longrightarrow> always R (cred m)"
  by (rule called) (auto dest: upholdsD simp: touches_def)

lemma currents: "always R (db_call (entity_current_tx kind i))"
  unfolding db_call_def by (rule called) (simp add: creds_failed_Inr entity_current_Inr)

lemma failures: "always R (cred (fail_tx e))"
  by (rule called) (simp add: fail_tx_def)

lemma applies: "always R (db_call (apply_tx ev p f))"
  unfolding db_call_def
proof (rule called)
  fix s x s'
  assume "creds_failed (apply_tx ev p f) s = Inr (x, s')"
  then have "store_step s s'" by (simp add: creds_failed_Inr store_step.applied)
  then show "store_steps s s'" by (simp add: store_steps_def)
qed

lemma mapped: "always R (cred (put_lid_mapping W ns l p))"
  by (rule creds [where K = UNIV], rule touching) simp_all

lemma chats:
  "always R (cred (lid_for_pn W ns j))" "always R (cred (pn_for_lid W ns j))" "always R (cred (get_contact W ns j))"
  "always R (cred (get_all_contacts W ns))" "always R (cred (get_chat_settings W ns j))"
  "always R (cred (wa_get ns kind i dec))" "always R (cred (wa_put ns kind i v))" "always R (parse_jid W i)"
  unfolding parse_jid_def
  by (rule creds [where K = UNIV], rule touching, simp?)+ (intro maybe return fail)

lemma pair_step: "(\<And>x y. always R (f x y z)) \<Longrightarrow> always R ((case r of (x, y) \<Rightarrow> f x y) z)"
  by (cases r) simp

lemmas wa_calls = rules pair_step reads mapped chats currents failures applies

lemma identity:
  assumes "\<And>c. wp_client P = Some c \<Longrightarrow> wa_client_within R c"
  shows "always R (canonical P j)"
proof -
  have ask: "always R (case (u, wp_client P) of (True, Some c) \<Rightarrow> bind_act (wc_user_info c k) g | _ \<Rightarrow> h)"
    if "always R h" "\<And>x. always R (g x)" for u g h and k :: jid
    using that assms by (cases u; cases "wp_client P") (auto simp: wa_client_within_def intro!: bind)
  show ?thesis
    unfolding canonical_def Let_def by (intro wa_calls ask)
qed

lemma person:
  assumes "\<And>c. wp_client P = Some c \<Longrightarrow> wa_client_within R c"
  shows "always R (wa_participant P j)"
  unfolding wa_participant_def Let_def by (intro wa_calls identity assms)

lemma chat:
  assumes "\<And>c. wp_client P = Some c \<Longrightarrow> wa_client_within R c"
  shows "always R (conversation_snapshot P j n)"
proof -
  have group: "always R (case wp_client P of None \<Rightarrow> h | Some c \<Rightarrow> if w then h else bind_act (wc_group c k) g)"
    if "always R h" "\<And>x. always R (g x)" for g h w and k :: jid
    using that assms by (cases "wp_client P") (auto simp: wa_client_within_def intro!: bind)
  have member: "always R (member_person P m)" for m
    unfolding member_person_def Let_def by (intro wa_calls person assms)
  have people: "always R (people_of P k n c)" for k n c
    unfolding people_of_def by (intro branch group bind return person assms result both iterate member)
  have old: "always R (stored_conversation P k n)" for k n
    unfolding stored_conversation_def Let_def by (intro wa_calls)
  show ?thesis
    unfolding conversation_snapshot_def Let_def by (intro wa_calls identity assms people old)
qed

lemma wa_within:
  assumes own: "wa_client_within R c" "wp_client P = Some c"
  shows "provider_within R (whatsapp_provider P c request)"
proof -
  have mine: "\<And>c. wp_client P = Some c \<Longrightarrow> wa_client_within R c" using own by simp
  have calls: "always R (wc_on_whatsapp c ns)" "always R (wc_create_group c n js)" "always R (wc_send c j m x)"
    "always R (wc_upload c d k)" "always R (wc_download c m)" "always R (wc_mark_read c i t j l)"
    "always R (wc_presence c j)" for ns n js j m x d k i t l
    using own(1) by (simp_all add: wa_client_within_def)
  note ops = wa_calls calls identity [OF mine] person [OF mine] chat [OF mine]
  have book: "always R (book_person P j i)" for j i
    unfolding book_person_def Let_def by (intro wa_calls person) simp
  have contacts: "always R (wa_contacts P)"
    unfolding wa_contacts_def by (intro ops book)
  have conversations: "always R (wa_conversations P)"
    unfolding wa_conversations_def by (intro ops)
  have pages: "always R (wa_conversation_page P f d)" for f d
    unfolding wa_conversation_page_def by (intro ops conversations)
  have users: "always R (user_jids P us)" for us
    unfolding user_jids_def Let_def by (intro ops)
  have create: "always R (wa_create P c rs n)" for rs n
    unfolding wa_create_def Let_def by (intro ops users)
  have prepare: "always R (wa_prepare P i)" for i
    unfolding wa_prepare_def by (intro ops)
  have upload: "always R (wa_upload P c d n m)" for d n m
    unfolding wa_upload_def by (intro ops)
  have send: "always R (wa_send P c t out)" for t out
    unfolding wa_send_def by (intro ops)
  have react: "always R (wa_react P c t i e b)" for t i e b
    unfolding wa_react_def by (intro ops)
  have typing: "always R (wa_typing P c t)" for t
    unfolding wa_typing_def by (intro ops)
  have mark: "always R (wa_mark_read P c i m)" for i m
    unfolding wa_mark_read_def by (intro ops)
  have attachment: "always R (wa_attachment P c d)" for d
    unfolding wa_attachment_def by (intro ops)
  have oldest: "always R (oldest_stored P i)" for i
    unfolding oldest_stored_def by (intro ops)
  have start: "always R (page_start P i d q)" for i d q
    unfolding page_start_def by (intro ops oldest)
  have answered: "always R (answered_page P r o')" for r o'
    unfolding answered_page_def pending_left_def by (intro ops)
  have ask: "always R (ask_history P c request i o')" for i o'
    unfolding ask_history_def by (intro ops)
  have messages: "always R (wa_message_page P c request i d)" for i d
    unfolding wa_message_page_def Let_def by (intro ops start answered ask)
  show ?thesis
    unfolding provider_within_def whatsapp_provider_def provider.simps
    by (intro conjI allI ops contacts conversations pages create prepare upload send react typing mark attachment messages)
qed

text \<open>The inbox, drained into anything that keeps the relation.\<close>

lemma inbox:
  "always R (cred (wa_scan ns kind))" "always R (cred (wa_del ns kind i))" "always R (cred (quarantine ns i raw))"
  "always R (cred (put_push_name W ns j n))" "always R (cred (put_archived W ns j x))"
  "always R (cred (put_pinned W ns j x))" "always R (cred (put_muted_until W ns j t))"
  "always R (cred (store_pending ns e))"
proof -
  have "upholds (touches ns UNIV) (quarantine ns i raw)" "upholds (touches ns UNIV) (store_pending ns e)"
    unfolding quarantine_def quarantined_def store_pending_def count_at_def Let_def
    by (intro touches.rules touching; simp)+
  from creds [OF this(1)] creds [OF this(2)]
  show "always R (cred (quarantine ns i raw))" "always R (cred (store_pending ns e))" .
qed (rule creds [where K = UNIV], rule touching, simp?)+

lemma learned: "always R (learn_source P so)"
  unfolding learn_source_def by (intro wa_calls)

lemma drained:
  assumes own: "\<And>c. wp_client P = Some c \<Longrightarrow> wa_client_within R c" and save: "\<And>s. always R (save s)"
  shows "always R (drain C P save)"
proof -
  note ops = wa_calls inbox learned identity [OF own] chat [OF own]
  have ingest: "always R (ingest_event C P e)" for e
    unfolding ingest_event_def by (intro ops)
  have old: "always R (existing_message i m)" for i m
    unfolding existing_message_def by (intro ops)
  have publish: "always R (publish_change P e mu c i m p)" for e mu c i m p
    unfolding publish_change_def Let_def by (intro ops)
  have message: "always R (message_snapshots P e)" for e
    unfolding message_snapshots_def Let_def by (auto intro!: ops old publish split: outcome.split)
  have one: "always R (receipt_one P c st r)" for c st r
    unfolding receipt_one_def Let_def by (intro ops)
  have receipt: "always R (receipt_snapshots P e)" for e
    unfolding receipt_snapshots_def Let_def by (intro ops one)
  have expand: "always R (expand_history C P h)" for h
    unfolding expand_history_def Let_def by (intro ops ingest)
  have settings: "always R (initial_settings P j c)" for j c
    unfolding initial_settings_def Let_def by (intro ops)
  have queue: "always R (queue_messages C P j ws)" for j ws
    unfolding queue_messages_def by (intro ops ingest)
  have mapping: "always R (chat_mapping P c)" for c
    unfolding chat_mapping_def by (intro ops)
  have response: "always R (note_response P i d p o')" for i d p o'
    unfolding note_response_def Let_def by (intro ops)
  have history: "always R (history_chat_snapshots C P h)" for h
    unfolding history_chat_snapshots_def Let_def by (intro ops settings queue mapping response)
  have event: "always R (event_snapshots C P e)" for e
    unfolding event_snapshots_def by (cases e) (auto intro!: ops message receipt expand history)
  have entry: "always R (drain_entry C P save row)" for row
    unfolding drain_entry_def by (intro ops event save)
  show ?thesis
    unfolding drain_def by (intro ops entry)
qed

end

section \<open>The relations of the service\<close>

interpretation db_calls: storing_relation db_runs
proof unfold_locales
  show "store_steps (b_store b) s' \<Longrightarrow> db_runs b (b\<lparr>b_store := s'\<rparr>)" for b s' by (simp add: db_runs_def)
  show "db_runs b (storage_failure e b)" for e b by (simp add: db_runs_def)
qed

interpretation ok_calls: storing_relation ok_runs
proof unfold_locales
  show "store_steps (b_store b) s' \<Longrightarrow> ok_runs b (b\<lparr>b_store := s'\<rparr>)" for b s'
    by (simp add: ok_runs_def bridge_ok_def)
  show "ok_runs b (storage_failure e b)" for e b by (simp add: ok_runs_def)
qed

lemma steady_cred: "on_success steady_runs (cred m)"
  by (auto simp: on_success_def cred_Inr steady_runs_def)

lemma steady_return: "on_success steady_runs (return_act x)" "on_success steady_runs (lift_act r)"
  "on_success steady_runs (fail_act e)" "on_success steady_runs (view_db m)"
  "on_success steady_runs (try_act (view_db m))" "on_success steady_runs (parse_jid W i)"
  by (auto simp: on_success_def act_steps view_db_def try_act_def parse_jid_def steady_runs_def split: option.splits)

lemmas steady_ops = steady_runs.success_rules steady_runs.success_more steady_return steady_cred

lemma steady_chats:
  assumes own: "wa_client_within steady_runs c" "wp_client P = Some c"
  shows "on_success steady_runs (wa_conversations P)"
proof -
  have calls: "on_success steady_runs (wc_user_info c j)" "on_success steady_runs (wc_group c j)" for j
    using own(1) by (simp_all add: wa_client_within_def always_on_success)
  have identity: "on_success steady_runs (canonical P j)" for j
  proof -
    have "on_success steady_runs (case (u, wp_client P) of (True, Some c) \<Rightarrow> bind_act (wc_user_info c k) g | _ \<Rightarrow> h)"
      if "on_success steady_runs h" "\<And>x. on_success steady_runs (g x)" for u g h and k :: jid
      using that calls own(2) by (cases u) (auto intro!: steady_runs.success_bind)
    note ask = this
    show ?thesis unfolding canonical_def Let_def by (intro steady_ops ask)
  qed
  have person: "on_success steady_runs (wa_participant P j)" for j
    unfolding wa_participant_def Let_def by (intro steady_ops identity)
  have member: "on_success steady_runs (member_person P m)" for m
    unfolding member_person_def Let_def by (intro steady_ops person)
  have people: "on_success steady_runs (people_of P j n conv)" for j n conv
    unfolding people_of_def own(2) option.case by (intro steady_ops calls person member)
  have old: "on_success steady_runs (stored_conversation P j n)" for j n
    unfolding stored_conversation_def Let_def db_call_def by (intro steady_ops)
  have chat: "on_success steady_runs (conversation_snapshot P j n)" for j n
    unfolding conversation_snapshot_def Let_def by (intro steady_ops identity old people)
  show ?thesis
    unfolding wa_conversations_def db_call_def by (intro steady_ops chat)
qed

text \<open>What the theorems on the service assume of a network, and what they assume of a client then.\<close>

definition fits_service :: "provider \<Rightarrow> bool" where
  "fits_service p \<longleftrightarrow> provider_moves p \<and> provider_keeps p \<and> provider_steady p"

definition google_client_fits :: "google_client \<Rightarrow> bool" where
  "google_client_fits c \<longleftrightarrow> (\<forall>R \<in> {db_runs, ok_runs, steady_runs}. google_client_within R c)"

definition wa_client_fits :: "wa_client \<Rightarrow> bool" where
  "wa_client_fits c \<longleftrightarrow> (\<forall>R \<in> {db_runs, ok_runs, steady_runs}. wa_client_within R c)"

lemma google_fits: "google_client_fits (gp_client G) \<Longrightarrow> fits_service (google_provider G)"
  using store_refresh.google_within [of G] ok_refresh.google_within [of G] steady_refresh.google_within [of G]
  unfolding google_client_fits_def fits_service_def provider_moves_def provider_keeps_def provider_steady_def
  by (auto simp: provider_within_def intro: always_on_success)

lemma whatsapp_fits:
  assumes "wa_client_fits c" and "wp_client P = Some c"
  shows "fits_service (whatsapp_provider P c request)"
proof -
  have "provider_steady (whatsapp_provider P c request)"
    using assms steady_chats [of c P] steady_return(1)
    by (simp add: provider_steady_def whatsapp_provider_def wa_client_fits_def)
  then show ?thesis
    using assms db_calls.wa_within [of c P request] ok_calls.wa_within [of c P request]
    by (simp add: fits_service_def provider_moves_def provider_keeps_def wa_client_fits_def)
qed

end
