(* ===== verification/GoogleProperties.thy ===== *)
theory GoogleProperties
  imports ProviderContract WaEventProperties ServiceProperties ImportProperties
begin

text \<open>
  What both networks promise the bridge, and the Google connection by itself: the store is only moved
  by its steps, a refusal is definite, media stay within the limit, a conversation that is stored is
  prepared without the phone, and page cursors and addresses are well formed.
\<close>

section \<open>The service over a network\<close>


text \<open>A library that knows the simplest records, and clients that answer nothing.\<close>

definition plain_media :: "string \<Rightarrow> i64 \<Rightarrow> gm_media" where
  "plain_media i n = \<lparr>gd_id = i, gd_key = replicate 32 (CHR ''k''), gd_thumb_id = [], gd_thumb_key = [], gd_data = [],
     gd_size = n, gd_mime = ''image/png'', gd_format = [], gd_name = [], gd_rest = []\<rparr>"

definition plain_fields :: "string \<Rightarrow> string \<Rightarrow> string \<Rightarrow> gm_conversation" where
  "plain_fields i out sim = empty_gm_conversation\<lparr>gc_id := i, gc_outgoing := out,
     gc_sim := Some \<lparr>gs_payload = Some sim, gs_rest = []\<rparr>\<rparr>"

definition plain_cursor :: "string \<Rightarrow> gm_cursor" where
  "plain_cursor i = \<lparr>gu_id = i, gu_time = 1, gu_rest = []\<rparr>"

definition google_sample :: google_library where
  "google_sample = \<lparr>gl_go = \<lparr>lib_lower = id, lib_fold = (=), lib_is_digit = (\<lambda>_. False), lib_media_type = Some,
       lib_time = (\<lambda>_. None), lib_json = (\<lambda>_. None), lib_base64 = id, lib_sha256 = id, lib_hex = (\<lambda>_ s. s),
       lib_hash = (\<lambda>_. []), lib_length = (\<lambda>_. 0)\<rparr>,
     gl_media = (\<lambda>m. if m = plain_media (gd_id m) (gd_size m) then Inr (JText (JArr [JStr (gd_id m), JNum (sint (gd_size m))]))
       else Inl ErrJson),
     gl_read_media = (\<lambda>p. case p of JText (JArr [JStr i, JNum n]) \<Rightarrow> Some (plain_media i (word_of_int n)) | _ \<Rightarrow> None),
     gl_fields = (\<lambda>c. case payload_of (gc_sim c) of None \<Rightarrow> Inl ErrJson | Some sim \<Rightarrow>
       if c = plain_fields (gc_id c) (gc_outgoing c) sim
       then Inr (JText (JArr [JStr (gc_id c), JStr (gc_outgoing c), JStr sim])) else Inl ErrJson),
     gl_read_fields = (\<lambda>p. case p of JText (JArr [JStr i, JStr out, JStr sim]) \<Rightarrow> Some (plain_fields i out sim) | _ \<Rightarrow> None),
     gl_cursor = (\<lambda>c. if c = plain_cursor (gu_id c) \<and> gu_id c \<noteq> [] then Inr (gu_id c) else Inl ErrJson),
     gl_read_cursor = (\<lambda>b. Some (plain_cursor b)), gl_sha = (\<lambda>_. ''sha''), gl_format = (\<lambda>_. [])\<rparr>"

definition silent_client :: google_client where
  "silent_client = \<lparr>gk_conversations = (\<lambda>_ _ _. return_act (Inl [])), gk_contacts = return_act (Inl []),
     gk_top_contacts = return_act (Inl []), gk_messages = (\<lambda>_ _ _. return_act (Inl [])),
     gk_create = (\<lambda>_ _. return_act (Inl [])), gk_conversation = (\<lambda>_. return_act (Inl [])),
     gk_send = (\<lambda>_. return_act (Inr Send_failure_2)), gk_react = (\<lambda>_. return_act (Inl [])),
     gk_typing = (\<lambda>_ _. return_act (Some [])), gk_mark_read = (\<lambda>_ _. return_act (Some [])),
     gk_full_size = (\<lambda>_ _. return_act (Some [])), gk_upload = None, gk_download = None,
     gk_slot = return_act True, gk_ended = return_act None\<rparr>"

lemma sample_clients_fit: "google_client_fits silent_client" "wa_client_fits knowing_client"
  by (simp_all add: google_client_fits_def google_client_within_def silent_client_def wa_client_fits_def
      wa_client_within_def knowing_client_def)

definition silent_google :: "google_library \<Rightarrow> google" where
  "silent_google L = \<lparr>gp_library = L, gp_client = silent_client, gp_stored = Some private_record, gp_size = (\<lambda>_. 0)\<rparr>"


section \<open>Refusals\<close>

lemma db_call_error: "db_call m b = (Inl e, b') \<Longrightarrow> \<exists>x. e = ErrStored x"
proof -
  have "update_tx (creds_failed m) s = (Inl e, s') \<Longrightarrow> \<exists>x. e = ErrStored x" for e s s'
    by (cases "m s") (auto simp: update_tx_def creds_failed_def)
  then have failed: "\<exists>x. e = ErrStored x" if "commit_db (creds_failed m) b = (Inl e, b')" for e b'
    using that by (auto simp: commit_db_def split: prod.splits)
  assume "db_call m b = (Inl e, b')"
  then show "\<exists>x. e = ErrStored x"
    by (cases "commit_db (creds_failed m) b") (auto simp: db_call_def cred_def bind_act_def try_act_def
      then_act_def act_steps split: sum.splits if_splits dest!: failed)
qed

definition answers :: "'a bact \<Rightarrow> bool" where
  "answers m \<longleftrightarrow> (\<forall>b e b'. m b \<noteq> (Inl e, b'))"

lemma google_refusal:
  assumes "\<And>req. answers (gk_send (gp_client G) req)" and run: "google_send G t out b = (Inl ErrRejected, b1)"
  shows "b1 = b \<or>
    (\<exists>req st. gk_send (gp_client G) req b = (Inr (Inr st), b1) \<and> st \<in> {Send_failure_2, Send_failure_3, Send_failure_4})"
proof (cases "google_request (gp_library G) t out")
  case None
  with run show ?thesis by (simp add: google_send_def act_steps)
next
  case (Some req)
  obtain r b' where r: "gk_send (gp_client G) req b = (Inr r, b')"
    using assms(1) [of req] unfolding answers_def by (metis old.sum.exhaust surj_pair)
  have "r \<noteq> Inl e" for e using run Some r by (auto simp: google_send_def bind_act_def act_steps)
  then obtain st where st: "r = Inr st" by (cases r) auto
  then have "b' = b1 \<and> st \<in> {Send_failure_2, Send_failure_3, Send_failure_4}"
    using run Some r by (cases st) (auto simp: google_send_def bind_act_def act_steps)
  with r st show ?thesis by blast
qed

lemma wa_refusal:
  assumes "\<And>j m x. answers (wc_send c j m x)" and run: "wa_send P c t out b = (Inl ErrRejected, b2)"
  shows "b2 = b \<or> (\<exists>j m e. wc_send c j m (With_id (o_transaction_id out)) b = (Inr (Inl e), b2) \<and> e \<noteq> Other_failure \<and>
      (\<forall>code. e = Iq_error code \<longrightarrow> 400 \<le> code \<and> code < 500 \<and> code \<noteq> 408))"
proof (cases "wl_parse (wp_library P) (tg_conversation_id t) = None \<or> outgoing_body P t out = None \<or>
    (\<exists>e. view_db history_watermark b = (Inl e, b))")
  case True
  then show ?thesis
    using run by (auto simp: wa_send_def act_steps bind_act_def split: option.splits)
next
  case False
  then obtain j m mark where parts: "wl_parse (wp_library P) (tg_conversation_id t) = Some j"
      "outgoing_body P t out = Some m" "view_db history_watermark b = (Inr mark, b)"
    by (cases "view_tx history_watermark (b_store b)") (auto simp: view_db_def)
  obtain r b' where r: "wc_send c j m (With_id (o_transaction_id out)) b = (Inr r, b')"
    using assms(1) [of j m "With_id (o_transaction_id out)"] unfolding answers_def by (metis old.sum.exhaust surj_pair)
  show ?thesis
  proof (cases r)
    case (Inl e)
    with run parts r have "classify e = ErrRejected" "b' = b2"
      by (simp_all add: wa_send_def bind_act_def act_steps)
    then show ?thesis using r Inl by (cases e) (auto split: if_splits)
  next
    case (Inr stamp)
    have "\<not> (\<exists>x. ErrRejected = ErrStored x)" by simp
    with run parts r Inr show ?thesis
      by (auto simp: wa_send_def bind_act_def act_steps split: prod.splits sum.splits dest!: db_call_error)
  qed
qed

text \<open>C25: a send that either network reports as refused was not carried out: either
  nothing was asked of the network, or the phone answered one of its failure codes, or whatsmeow
  reported one of the errors that come before the message is written or a client error of the server.\<close>

theorem rejections_are_definite:
  assumes "\<And>req. answers (gk_send (gp_client G) req)" and "\<And>j m x. answers (wc_send c j m x)"
  shows "(google_send G t out b = (Inl ErrRejected, b1) \<longrightarrow> b1 = b \<or>
     (\<exists>req st. gk_send (gp_client G) req b = (Inr (Inr st), b1) \<and> st \<in> {Send_failure_2, Send_failure_3, Send_failure_4})) \<and>
   (wa_send P c t out b = (Inl ErrRejected, b2) \<longrightarrow> b2 = b \<or>
     (\<exists>j m e. wc_send c j m (With_id (o_transaction_id out)) b = (Inr (Inl e), b2) \<and> e \<noteq> Other_failure \<and>
        (\<forall>code. e = Iq_error code \<longrightarrow> 400 \<le> code \<and> code < 500 \<and> code \<noteq> 408)))"
  using google_refusal [OF assms(1)] wa_refusal [OF assms(2)] by blast

definition ann_target :: send_target where
  "ann_target = zero_target\<lparr>tg_conversation_id := ''c'', tg_participant_id := ''me'', tg_sim := Some ''sim''\<rparr>"

definition ann_send :: outbox where
  "ann_send = zero_outbox\<lparr>o_transaction_id := ''t1'', o_request := zero_request\<lparr>q_conversation_id := ''c'', q_text := ''hi''\<rparr>\<rparr>"

lemma ann_request: "\<exists>req. google_request google_sample ann_target ann_send = Some req"
  by (simp add: google_request_def send_entries_def ann_target_def ann_send_def zero_target_def zero_outbox_def
      zero_request_def Let_def)

definition refusing_google :: google where
  "refusing_google = (silent_google google_sample)\<lparr>gp_client := silent_client\<lparr>gk_send :=
     (\<lambda>_ b. (Inr (Inr Send_failure_3), set_provider False b))\<rparr>\<rparr>"

theorem rejections_are_definite_witness:
  "let b1 = set_provider False ready_bridge in
   google_send refusing_google ann_target ann_send ready_bridge = (Inl ErrRejected, b1) \<and>
   (\<exists>req st. gk_send (gp_client refusing_google) req ready_bridge = (Inr (Inr st), b1) \<and>
     st \<in> {Send_failure_2, Send_failure_3, Send_failure_4})"
proof -
  let ?b1 = "set_provider False ready_bridge"
  obtain req where "google_request google_sample ann_target ann_send = Some req" using ann_request ..
  then have run: "google_send refusing_google ann_target ann_send ready_bridge = (Inl ErrRejected, ?b1)"
    by (simp add: google_send_def refusing_google_def silent_google_def bind_act_def act_steps)
  have "b_provider ?b1 \<noteq> b_provider ready_bridge" by (simp add: ready_bridge_def set_provider_def)
  then have moved: "?b1 \<noteq> ready_bridge" by metis
  have "answers (gk_send (gp_client refusing_google) req)" "answers (wc_send knowing_client j m x)" for req j m x
    by (simp_all add: answers_def refusing_google_def silent_google_def silent_client_def knowing_client_def act_steps)
  from rejections_are_definite [OF this, THEN conjunct1, rule_format, OF run] moved run show ?thesis
    by (simp add: Let_def)
qed

section \<open>Stored conversations\<close>

lemma send_fields_simps [simp]:
  "gc_id (send_fields c) = gc_id c" "gc_read_only (send_fields c) = gc_read_only c"
  "gc_outgoing (send_fields c) = gc_outgoing c" "gc_sim (send_fields c) = gc_sim c"
  by (simp_all add: send_fields_def)

lemma sim_of_own:
  "fold (\<lambda>p sim. if gq_me p \<and> gn_participant (gq_id p) = i then gq_sim p else sim)
      (map (\<lambda>p. \<lparr>gq_id = gq_id p, gq_full = [], gq_first = [], gq_me = True, gq_sim = gq_sim p, gq_rest = []\<rparr>) (filter gq_me ps)) s =
    fold (\<lambda>p sim. if gq_me p \<and> gn_participant (gq_id p) = i then gq_sim p else sim) ps s"
  by (induction ps arbitrary: s) simp_all

lemma own_sim_fields [simp]: "own_sim (send_fields c) = own_sim c"
proof -
  have "gc_people (send_fields c) = map (\<lambda>p. \<lparr>gq_id = gq_id p, gq_full = [], gq_first = [], gq_me = True,
      gq_sim = gq_sim p, gq_rest = []\<rparr>) (filter gq_me (gc_people c))"
    by (simp add: send_fields_def)
  then show ?thesis unfolding own_sim_def by (simp only: sim_of_own send_fields_simps)
qed

lemma target_fields: "google_target (Some (send_fields c)) i = google_target (Some c) i"
  by (simp add: google_target_def split: option.split)

lemma stored_private:
  assumes run: "apply_tx event [(k, v)] None s = Inr (x, s')" and ty: "ev_type event \<noteq> ''message''"
  shows "view_tx (private_record k) s' = Inr v"
proof -
  obtain changed where "observe_event_tx event [(k, v)] s = Inr (changed, s')"
    using run ty by (auto simp: apply_tx_def stale_tx_def confirm_event_tx_def tx_elims)
  then obtain t where "put_private_tx [(k, v)] t = Inr ((), s')"
    by (rule observe_event_steps) (use ty in auto)
  then have "put_sealed BPrivate k (''private:'' @ k) v t = Inr ((), s')"
    unfolding put_private_tx_def by (auto simp: bind_tx_Inr then_tx_Inr for_tx_def)
  then have s': "s' = put_kv BPrivate k (Sealed (cipher_key t) (''private:'' @ k) v) t" "exists_bucket t BPrivate"
    unfolding put_sealed_Inr by simp_all
  then have "bget BPrivate k s' = Inr (Some (Sealed (cipher_key t) (''private:'' @ k) v), s')"
    by (simp add: bget_Inr)
  then show ?thesis
    using s' by (simp add: view_tx_def private_record_def get_record_def record_context_def bind_tx_def decrypt_def lift_tx_def)
qed

definition fields_ok :: "google_library \<Rightarrow> bool" where
  "fields_ok L \<longleftrightarrow> (\<forall>c p. gl_fields L c = Inr p \<longrightarrow> gl_read_fields L p = Some c)"

text \<open>C26: once a conversation of the phone is in the store, \<open>Prepare\<close>
  answers from it what it would answer from the phone's own record, without asking the phone, as
  long as that record allows a send; else it asks the phone.  What is stored beside a conversation is
  all that a send needs of it.\<close>

theorem stored_conversation_prepares:
  assumes "fields_ok (gp_library G)" and "gp_stored G = Some private_record"
    and "chat_snapshot (gp_library G) t c = Inr snap"
    and "apply_tx (sn_event snap) (sn_private snap) None s = Inr (x, b_store b)"
  shows "google_prepare G (gc_id c) b = (case google_target (Some c) (gc_id c) of
       Inr target \<Rightarrow> (Inr target, b)
     | Inl e \<Rightarrow> bind_act (gk_conversation (gp_client G) (gc_id c)) (\<lambda>r. case r of
         Inl e \<Rightarrow> fail_act ErrUnavailable | Inr phone \<Rightarrow> lift_act (google_target phone (gc_id c))) b)"
proof -
  obtain fields where f: "gl_fields (gp_library G) (send_fields c) = Inr fields"
    and snap: "sn_private snap = [(google_conversation_key (gc_id c), fields)]" "ev_type (sn_event snap) = ''conversation''"
    using assms(3) by (auto simp: chat_snapshot_def map_sum_Inr google_snapshot_def)
  have "view_tx (private_record (google_conversation_key (gc_id c))) (b_store b) = Inr fields"
    using stored_private assms(4) snap by fastforce
  moreover have "gl_read_fields (gp_library G) fields = Some (send_fields c)"
    using f assms(1) by (simp add: fields_ok_def)
  ultimately have "stored_target G (gc_id c) b =
      (Inr (case google_target (Some c) (gc_id c) of Inl e \<Rightarrow> None | Inr t \<Rightarrow> Some t), b)"
    by (simp add: stored_target_def assms(2) bind_act_def try_act_def view_db_def act_steps target_fields)
  then show ?thesis
    by (simp add: google_prepare_def bind_act_def act_steps split: sum.splits)
qed

definition ann_chat :: gm_conversation where
  "ann_chat = (plain_fields ''c'' ''me'' ''sim'')\<lparr>gc_name := ''Ann''\<rparr>"

definition ann_conversation :: conversation where
  "ann_conversation = google_conversation google_sample ann_chat"

definition ann_event :: event where
  "ann_event = (conversation_event ''c'' ann_conversation)\<lparr>ev_time := 7\<rparr>"

lemma ann_event_simps [simp]:
  "c_schema ann_conversation = Schema" "c_id ann_conversation = ''c''"
  "ev_type ann_event = ''conversation''" "ev_entity_id ann_event = ''c''"
  "ev_data ann_event = JText (enc_conversation ann_conversation)"
  "event_key ann_event = entity_key ''conversation'' ''c''"
  "ann_event\<lparr>ev_data := JText (enc_conversation ann_conversation)\<rparr> = ann_event"
  by (simp_all add: ann_conversation_def google_conversation_def ann_chat_def plain_fields_def
      empty_gm_conversation_def ann_event_def conversation_event_def event_key_def)

lemma run_ann_chat:
  assumes "chat_snapshot google_sample 7 ann_chat = Inr snap"
  shows "\<exists>x s'. apply_tx (sn_event snap) (sn_private snap) None (empty_store 5) = Inr (x, s')"
proof -
  obtain fields where "snap = google_snapshot ''conversation'' ''c'' 7 (enc_conversation ann_conversation)
      [(google_conversation_key ''c'', fields)]"
    using assms by (auto simp: chat_snapshot_def map_sum_Inr ann_chat_def plain_fields_def ann_conversation_def)
  then have ev: "sn_event snap = ann_event" "sn_private snap = [(google_conversation_key ''c'', fields)]"
    by (simp_all add: google_snapshot_def conversation_event_def ann_event_def)
  have preview: "preview_conversation (JText (enc_conversation ann_conversation)) s =
      Inr (JText (enc_conversation ann_conversation), s)"
    if "exists_bucket s BConversationLatest" "lookup s BConversationLatest ''c'' = None"
       "exists_bucket s BLatest" "lookup s BLatest (entity_key ''conversation'' ''c'') = None" for s
    using that by (simp add: preview_conversation_def stored_preview_tx_def latest_message_tx_def bget_sealed_def
        Let_def exec runs conversation_key_def with_latest_def)
  show ?thesis unfolding ev
    by (rule exI [of _ True], simp add: apply_tx_def stale_tx_def observe_event_tx_def stamp_epoch_def stamp_current_def
        previous_status_tx_def put_private_tx_def confirm_event_tx_def exec runs can_append_def preview for_tx_def
        google_conversation_key_def)
qed

theorem stored_conversation_prepares_witness:
  "\<exists>snap x s'. chat_snapshot google_sample 7 ann_chat = Inr snap \<and>
     apply_tx (sn_event snap) (sn_private snap) None (empty_store 5) = Inr (x, s') \<and>
     google_prepare (silent_google google_sample) ''c'' (new_bridge s') = (Inr ann_target, new_bridge s')"
proof -
  have fields: "send_fields ann_chat = plain_fields ''c'' ''me'' ''sim''"
    by (simp add: ann_chat_def plain_fields_def send_fields_def empty_gm_conversation_def)
  then obtain snap where snap: "chat_snapshot google_sample 7 ann_chat = Inr snap"
    by (simp add: chat_snapshot_def google_sample_def payload_of_def plain_fields_def)
  then obtain x s' where run: "apply_tx (sn_event snap) (sn_private snap) None (empty_store 5) = Inr (x, s')"
    using run_ann_chat by blast
  have ok: "fields_ok google_sample"
    by (auto simp: fields_ok_def google_sample_def split: option.splits if_splits)
  have t: "google_target (Some ann_chat) ''c'' = Inr ann_target"
    by (simp add: google_target_def own_sim_def payload_of_def ann_chat_def plain_fields_def ann_target_def
        empty_gm_conversation_def)
  have G: "gp_library (silent_google google_sample) = google_sample" "gp_stored (silent_google google_sample) = Some private_record"
    by (simp_all add: silent_google_def)
  have "b_store (new_bridge s') = s'" by (simp add: new_bridge_def set_status_def)
  with run have b: "apply_tx (sn_event snap) (sn_private snap) None (empty_store 5) = Inr (x, b_store (new_bridge s'))" by simp
  have "gc_id ann_chat = ''c''" by (simp add: ann_chat_def plain_fields_def)
  have lib: "fields_ok (gp_library (silent_google google_sample))"
      "chat_snapshot (gp_library (silent_google google_sample)) 7 ann_chat = Inr snap"
    unfolding G by (rule ok snap)+
  note prepared = stored_conversation_prepares [OF lib(1) G(2) lib(2) b, unfolded \<open>gc_id ann_chat = ''c''\<close> t]
  have "google_prepare (silent_google google_sample) ''c'' (new_bridge s') = (Inr ann_target, new_bridge s')"
    by (rule trans [OF prepared]) simp
  with snap run show ?thesis by blast
qed

section \<open>Page cursors\<close>

definition cursors_ok :: "google_library \<Rightarrow> bool" where
  "cursors_ok L \<longleftrightarrow> (\<forall>c b. gl_cursor L c = Inr b \<longrightarrow> b \<noteq> [] \<and> gl_read_cursor L b = Some c)"

text \<open>The cursor a page hands out leads back to the place in the phone's list
  it was made for, and is refused for another conversation, another folder and the other kind of list.\<close>

theorem page_cursors_stay_in_place:
  assumes "cursors_ok L" and "encode_cursor L scope key cur = Inr data"
  shows "decode_cursor L data scope key = Inr cur \<and>
    (cur = None \<or> (scope', key') = (scope, key) \<or> decode_cursor L data scope' key' = Inl ErrInvalidCursor)"
proof (cases cur)
  case None
  with assms(2) show ?thesis by (simp add: encode_cursor_def decode_cursor_def)
next
  case (Some c)
  with assms(2) obtain b where b: "gl_cursor L c = Inr b" "\<not> incomplete c"
    and data: "data = JText (enc_cursor \<lparr>pc_version = 1, pc_scope = scope, pc_key = key, pc_position = Some b\<rparr>)"
    by (auto simp: encode_cursor_def map_sum_Inr split: if_splits)
  have "b \<noteq> []" "gl_read_cursor L b = Some c" using assms(1) b(1) by (simp_all add: cursors_ok_def)
  moreover have "decode_strict (gl_go L) cursor_names set_cursor zero_cursor
      (enc_cursor \<lparr>pc_version = 1, pc_scope = scope, pc_key = key, pc_position = Some b\<rparr>) =
      Some \<lparr>pc_version = 1, pc_scope = scope, pc_key = key, pc_position = Some b\<rparr>"
    by (simp add: enc_cursor_def json_members member_name_def cursor_names_def set_cursor_def zero_cursor_def)
  ultimately show ?thesis
    using Some b(2) by (auto simp: decode_cursor_def data)
qed

theorem page_cursors_stay_in_place_witness:
  "\<exists>data. encode_cursor google_sample ''messages'' ''c'' (Some (plain_cursor ''m'')) = Inr data \<and>
     decode_cursor google_sample data ''messages'' ''c'' = Inr (Some (plain_cursor ''m'')) \<and>
     decode_cursor google_sample data ''messages'' ''d'' = Inl ErrInvalidCursor"
proof -
  have ok: "cursors_ok google_sample"
    by (auto simp: cursors_ok_def google_sample_def split: if_splits)
  obtain data where data: "encode_cursor google_sample ''messages'' ''c'' (Some (plain_cursor ''m'')) = Inr data"
    by (simp add: encode_cursor_def incomplete_def plain_cursor_def google_sample_def)
  from page_cursors_stay_in_place [OF ok data, of "''messages''" "''d''"] data show ?thesis by auto
qed

section \<open>Contacts\<close>

text \<open>In the address book of the phone every address is one a conversation
  can be created for, or there is none; no entry is empty and none is listed twice.\<close>

lemma contact_address_ok: "fst (contact_address n) = [] \<or> e164 (fst (contact_address n))"
  by (auto simp: contact_address_def find_Some_iff split: option.splits)

lemma list_contacts_ok:
  "distinct (map contact_id_key (list_contacts fr seen cs)) \<and>
   contact_id_key ` set (list_contacts fr seen cs) \<inter> seen = {} \<and>
   (\<forall>k \<in> set (list_contacts fr seen cs). (k_address k = [] \<or> e164 (k_address k)) \<and>
      (k_name k \<noteq> [] \<or> k_address k \<noteq> [] \<or> k_formatted k \<noteq> []))"
proof (induction cs arbitrary: seen)
  case (Cons c cs)
  have "k_address (contact_of fr c) = fst (contact_address (ge_number c))"
    by (simp add: contact_of_def split: prod.split)
  then have "k_address (contact_of fr c) = [] \<or> e164 (k_address (contact_of fr c))"
    using contact_address_ok by simp
  with Cons.IH [of seen] Cons.IH [of "insert (contact_id_key (contact_of fr c)) seen"] show ?case
    by (auto simp: Let_def)
qed simp

theorem google_contacts_are_addressable:
  assumes "google_contacts G b = (Inr ks, b')"
  shows "distinct (map contact_id_key ks) \<and> (\<forall>k \<in> set ks. (k_address k = [] \<or> e164 (k_address k)) \<and>
      (k_name k \<noteq> [] \<or> k_address k \<noteq> [] \<or> k_formatted k \<noteq> []))"
proof -
  from assms obtain r :: "string + gm_contact list" and c where "(case r of Inl e \<Rightarrow> fail_act ErrUnavailable
     | Inr cs \<Rightarrow> bind_act (gk_top_contacts (gp_client G)) (\<lambda>top.
         return_act (list_contacts (case top of Inl e \<Rightarrow> [] | Inr ids \<Rightarrow> ids) {} cs))) c = (Inr ks, b')"
    unfolding google_contacts_def bind_act_Inr by blast
  then obtain fr cs where "ks = list_contacts fr {} cs"
    by (cases r) (auto simp: bind_act_Inr act_steps)
  with list_contacts_ok [of fr "{}" cs] show ?thesis by simp
qed

definition ann_contact :: gm_contact where
  "ann_contact = \<lparr>ge_participant = ''p'', ge_contact = ''1'', ge_name = ''Ann'', ge_name_again = [],
     ge_number = \<lparr>gb_number = ''+15550100'', gb_number2 = [], gb_formatted = ''555-0100''\<rparr>\<rparr>"

definition listing_google :: google where
  "listing_google = (silent_google google_sample)\<lparr>gp_client := silent_client\<lparr>gk_contacts :=
     return_act (Inr [ann_contact, ann_contact])\<rparr>\<rparr>"

theorem google_contacts_are_addressable_witness:
  "\<exists>ks b'. google_contacts listing_google ready_bridge = (Inr ks, b') \<and> ks \<noteq> [] \<and> distinct (map contact_id_key ks)"
proof -
  have "\<exists>ks b'. google_contacts listing_google ready_bridge = (Inr ks, b') \<and> ks \<noteq> []"
    by (simp add: google_contacts_def listing_google_def silent_google_def silent_client_def bind_act_def act_steps
        ann_contact_def contact_of_def contact_address_def)
  then obtain ks b' where "google_contacts listing_google ready_bridge = (Inr ks, b')" "ks \<noteq> []" by blast
  with google_contacts_are_addressable [OF this(1)] show ?thesis by blast
qed

section \<open>Media\<close>

fun entry_size :: "gm_entry \<Rightarrow> int" where
  "entry_size (Media_entry m) = sint (gd_size m)"
| "entry_size (Text_entry t) = 0"

lemma media_entries_bound:
  "media_entries L used ds = Some es \<Longrightarrow> used \<le> int MaxAttachmentBytes \<Longrightarrow>
   length es = length ds \<and> used + sum_list (map entry_size es) \<le> int MaxAttachmentBytes \<and>
   (\<forall>e \<in> set es. \<exists>m. e = Media_entry m \<and> gd_id m \<noteq> [] \<and> length (gd_key m) = 32)"
proof (induction ds arbitrary: used es)
  case (Cons d ds)
  then obtain m rest where m: "gd_id m \<noteq> []" "length (gd_key m) = 32" "sint (gd_size m) \<le> int MaxAttachmentBytes - used"
    and rest: "media_entries L (used + sint (gd_size m)) ds = Some rest" "es = Media_entry m # rest"
    by (auto split: option.splits if_splits)
  from Cons.IH [OF rest(1)] m rest(2) show ?case by auto
qed simp


definition photo_entry :: payload where
  "photo_entry = JText (JArr [JStr ''id'', JNum 5])"


end
