(* ===== verification/Client.thy ===== *)
theory Client
  imports Http
begin

text \<open>
  The typed HTTP client of the command line (\<open>internal/client/client.go\<close>): where its settings come
  from, the request every call makes, and the calls.

  The world of a command is a type \<open>'w\<close>; a \<open>'w host\<close> says how it is acted on: an HTTP exchange (an
  error, or the status and text of the reply), the first JSON document of a text, the clock, the error
  of the context (the interrupt, or the deadline it was given), a pause that the end of the
  context cuts short, fresh idempotency keys and the printing of times and numbers.  A context is the
  deadline it ends at, if it has one.  The texts of errors are shortened to what does not vary.
\<close>

section \<open>Errors and actions\<close>

datatype client_error =
    Host_error go_error
  | Http_error nat string          \<comment> \<open>\<open>HTTPError\<close>\<close>
  | Bad_reply                      \<comment> \<open>the reply is not the JSON that was expected\<close>
  | Message_error string           \<comment> \<open>\<open>errors.New\<close>, \<open>fmt.Errorf\<close>\<close>
  | Within string client_error     \<comment> \<open>\<open>fmt.Errorf\<close> with \<open>%w\<close>\<close>
  | Timed_out                      \<comment> \<open>\<open>errTimeout\<close>\<close>

text \<open>\<open>errors.Is\<close> for an error of the standard library\<close>

fun caused_by :: "client_error \<Rightarrow> go_error \<Rightarrow> bool" where
  "caused_by (Host_error e) t = errors_is e t"
| "caused_by (Within m e) t = caused_by e t"
| "caused_by _ t = False"

type_synonym ('w, 'a) cli = "'w \<Rightarrow> (client_error + 'a) \<times> 'w"

definition give :: "'a \<Rightarrow> ('w, 'a) cli" where
  "give x w = (Inr x, w)"

definition reject :: "client_error \<Rightarrow> ('w, 'a) cli" where
  "reject e w = (Inl e, w)"

definition after :: "('w, 'a) cli \<Rightarrow> ('a \<Rightarrow> ('w, 'b) cli) \<Rightarrow> ('w, 'b) cli" where
  "after m f w = (case m w of (Inl e, w') \<Rightarrow> (Inl e, w') | (Inr x, w') \<Rightarrow> f x w')"

definition attempt :: "('w, 'a) cli \<Rightarrow> ('w, client_error + 'a) cli" where
  "attempt m w = (case m w of (r, w') \<Rightarrow> (Inr r, w'))"

definition ask :: "('w \<Rightarrow> 'a) \<Rightarrow> ('w, 'a) cli" where
  "ask f w = (Inr (f w), w)"

lemma cli_steps [simp]:
  "give x w = (Inr x, w)" "reject e w = (Inl e, w)" "ask f w = (Inr (f w), w)"
  by (simp_all add: give_def reject_def ask_def)

lemma after_run:
  "m w = (Inr x, w') \<Longrightarrow> after m f w = f x w'"
  "m w = (Inl e, w') \<Longrightarrow> after m f w = (Inl e, w')"
  by (simp_all add: after_def)

lemma after_Inr:
  "after m f w = (Inr r, w') \<longleftrightarrow> (\<exists>x v. m w = (Inr x, v) \<and> f x v = (Inr r, w'))"
  by (auto simp: after_def split: prod.splits sum.splits)

section \<open>Paths\<close>

text \<open>
  \<open>net/url\<close> escapes a byte as a percent sign and two hexadecimal digits.  \<open>PathEscape\<close> is for one segment;
  \<open>URL.String\<close> escapes the whole path once more, since \<open>do\<close> appends to \<open>Path\<close> and not to \<open>RawPath\<close>.
\<close>

definition upper_hex :: "nat \<Rightarrow> char" where
  "upper_hex n = ''0123456789ABCDEF'' ! n"

definition unreserved :: "char \<Rightarrow> bool" where
  "unreserved c \<longleftrightarrow> (CHR ''a'' \<le> c \<and> c \<le> CHR ''z'') \<or> (CHR ''A'' \<le> c \<and> c \<le> CHR ''Z'') \<or> ascii_digit c \<or>
     c \<in> {CHR ''-'', CHR ''_'', CHR ''.'', CHR ''~''}"

definition segment_safe :: "char \<Rightarrow> bool" where
  "segment_safe c \<longleftrightarrow> unreserved c \<or> c \<in> {CHR ''$'', CHR ''&'', CHR ''+'', CHR '':'', CHR ''='', CHR ''@''}"

definition path_safe :: "char \<Rightarrow> bool" where
  "path_safe c \<longleftrightarrow> segment_safe c \<or> c \<in> {CHR '','', CHR ''/'', CHR '';''}"

definition escape_char :: "(char \<Rightarrow> bool) \<Rightarrow> char \<Rightarrow> string" where
  "escape_char safe c = (if safe c then [c]
     else [CHR ''%'', upper_hex (of_char c div 16), upper_hex (of_char c mod 16)])"

definition escape :: "(char \<Rightarrow> bool) \<Rightarrow> string \<Rightarrow> string" where
  "escape safe s = concat (map (escape_char safe) s)"

definition path_escape :: "string \<Rightarrow> string" where
  "path_escape = escape segment_safe"

section \<open>The exchange\<close>

record client_request =
  rq_method :: string
  rq_path :: string
  rq_query :: "(string \<times> string list) list"
  rq_body :: "json option"
  rq_key :: string
  rq_token :: string

record 'w host =
  ho_send :: "time option \<Rightarrow> client_request \<Rightarrow> 'w \<Rightarrow> (go_error + nat \<times> string) \<times> 'w"
  ho_first :: "string \<Rightarrow> json option"
  ho_now :: "'w \<Rightarrow> time"
  ho_ended :: "time option \<Rightarrow> 'w \<Rightarrow> go_error option"
  ho_pause :: "time option \<Rightarrow> time \<Rightarrow> 'w \<Rightarrow> go_error option \<times> 'w"
  ho_key :: "'w \<Rightarrow> string \<times> 'w"
  ho_rfc3339 :: "time \<Rightarrow> string"
  ho_local :: "time \<Rightarrow> string"
  ho_go :: go_library
  ho_duration :: "string \<Rightarrow> i64 option"

record client =
  cl_path :: string
  cl_token :: string

definition build_request :: "client \<Rightarrow> string \<Rightarrow> string \<Rightarrow> (string \<times> string list) list \<Rightarrow> json option \<Rightarrow>
    string \<Rightarrow> client_request" where
  "build_request c verb path query body key = \<lparr>rq_method = verb, rq_path = escape path_safe (cl_path c @ path),
     rq_query = query, rq_body = body, rq_key = key, rq_token = cl_token c\<rparr>"

text \<open>\<open>do\<close>: \<open>read\<close> is what becomes of the text of a reply.\<close>

definition client_do :: "'w host \<Rightarrow> client \<Rightarrow> time option \<Rightarrow> string \<Rightarrow> string \<Rightarrow> (string \<times> string list) list \<Rightarrow>
    json option \<Rightarrow> string \<Rightarrow> 'a \<Rightarrow> (string \<Rightarrow> client_error + 'a) \<Rightarrow> ('w, 'a) cli" where
  "client_do H c until verb path query body key zero read w =
    (case ho_send H until (build_request c verb path query body key) w of
       (Inl e, w') \<Rightarrow> (Inl (Host_error e), w')
     | (Inr (code, text), w') \<Rightarrow>
         if code < 200 \<or> code > 299 then (Inl (Http_error code (take 4096 text)), w')
         else if code = 204 then (Inr zero, w') else (read text, w'))"

definition read_json :: "'w host \<Rightarrow> (json \<Rightarrow> 'a option) \<Rightarrow> string \<Rightarrow> client_error + 'a" where
  "read_json H dec text = (case Option.bind (ho_first H text) dec of None \<Rightarrow> Inl Bad_reply | Some x \<Rightarrow> Inr x)"

section \<open>The calls\<close>

definition dec_status :: "json \<Rightarrow> (string \<times> json) list option" where  \<comment> \<open>into a \<open>map[string]any\<close>\<close>
  "dec_status j = (case j of JObj ms \<Rightarrow> Some ms | JNull \<Rightarrow> Some [] | _ \<Rightarrow> None)"

definition client_status :: "'w host \<Rightarrow> client \<Rightarrow> time option \<Rightarrow> ('w, (string \<times> json) list) cli" where
  "client_status H c until = client_do H c until ''GET'' ''/v1/status'' [] None [] [] (read_json H dec_status)"

definition dec_conversations :: "json \<Rightarrow> conversation list option" where
  "dec_conversations = decode_struct (\<lambda>k v r.
     if k = ''conversations'' then as_list dec_conversation v else Some r) []"

definition client_conversations :: "'w host \<Rightarrow> client \<Rightarrow> time option \<Rightarrow> ('w, conversation list) cli" where
  "client_conversations H c until =
     client_do H c until ''GET'' ''/v1/conversations'' [] None [] [] (read_json H dec_conversations)"

definition dec_page :: "json \<Rightarrow> (message list \<times> string) option" where
  "dec_page = decode_struct (\<lambda>k v (ms, next).
     if k = ''messages'' then map_option (\<lambda>x. (x, next)) (as_list dec_message v)
     else if k = ''next_before'' then map_option (\<lambda>x. (ms, x)) (as_str v next) else Some (ms, next)) ([], [])"

definition show_int :: "int \<Rightarrow> string" where  \<comment> \<open>\<open>strconv.Itoa\<close>\<close>
  "show_int n = (if n < 0 then CHR ''-'' # decimal (nat (- n)) else decimal (nat n))"

definition client_messages :: "'w host \<Rightarrow> client \<Rightarrow> time option \<Rightarrow> string \<Rightarrow> int \<Rightarrow> string \<Rightarrow>
    ('w, message list \<times> string) cli" where
  "client_messages H c until i limit before =
     client_do H c until ''GET'' (''/v1/conversations/'' @ path_escape i @ ''/messages'')
       ((''limit'', [show_int limit]) # (if before \<noteq> [] then [(''before'', [before])] else [])) None []
       ([], []) (read_json H dec_page)"

record search_query =
  sq_text :: string
  sq_since :: time
  sq_direction :: string
  sq_limit :: int

definition search_values :: "'w host \<Rightarrow> search_query \<Rightarrow> (string \<times> string list) list" where
  "search_values H q = (if sq_text q \<noteq> [] then [(''q'', [sq_text q])] else [])
     @ (if sq_since q \<noteq> 0 then [(''since'', [ho_rfc3339 H (sq_since q)])] else [])
     @ (if sq_direction q \<noteq> [] then [(''direction'', [sq_direction q])] else [])
     @ (if sq_limit q > 0 then [(''limit'', [show_int (sq_limit q)])] else [])"

definition dec_found :: "json \<Rightarrow> (message list \<times> u64) option" where
  "dec_found = decode_struct (\<lambda>k v (ms, n).
     if k = ''messages'' then map_option (\<lambda>x. (x, n)) (as_list dec_message v)
     else if k = ''cursor'' then map_option (\<lambda>x. (ms, x)) (as_unsigned v n) else Some (ms, n)) ([], 0)"

definition client_search :: "'w host \<Rightarrow> client \<Rightarrow> time option \<Rightarrow> search_query \<Rightarrow> ('w, message list \<times> u64) cli" where
  "client_search H c until q =
     client_do H c until ''GET'' ''/v1/messages'' (search_values H q) None [] ([], 0) (read_json H dec_found)"

record client_event =
  ce_id :: u64
  ce_type :: string
  ce_entity :: string
  ce_data :: json

definition set_client_event :: "string \<Rightarrow> json \<Rightarrow> client_event \<Rightarrow> client_event option" where
  "set_client_event k v e =
    (if k = ''id'' then map_option (\<lambda>x. e\<lparr>ce_id := x\<rparr>) (as_unsigned v (ce_id e))
     else if k = ''type'' then map_option (\<lambda>x. e\<lparr>ce_type := x\<rparr>) (as_str v (ce_type e))
     else if k = ''entity_id'' then map_option (\<lambda>x. e\<lparr>ce_entity := x\<rparr>) (as_str v (ce_entity e))
     else if k = ''data'' then Some (e\<lparr>ce_data := v\<rparr>) else Some e)"

definition dec_client_event :: "json \<Rightarrow> client_event option" where
  "dec_client_event = decode_struct set_client_event \<lparr>ce_id = 0, ce_type = [], ce_entity = [], ce_data = JNull\<rparr>"

definition dec_events :: "json \<Rightarrow> (client_event list \<times> u64) option" where
  "dec_events = decode_struct (\<lambda>k v (es, n).
     if k = ''events'' then map_option (\<lambda>x. (x, n)) (as_list dec_client_event v)
     else if k = ''next_cursor'' then map_option (\<lambda>x. (es, x)) (as_unsigned v n) else Some (es, n)) ([], 0)"

definition client_events :: "'w host \<Rightarrow> client \<Rightarrow> time option \<Rightarrow> u64 \<Rightarrow> ('w, client_event list \<times> u64) cli" where
  "client_events H c until n = client_do H c until ''GET'' ''/v1/events''
     [(''after'', [decimal (unat n)]), (''limit'', [''1000''])] None [] ([], 0) (read_json H dec_events)"

definition client_contacts :: "'w host \<Rightarrow> client \<Rightarrow> time option \<Rightarrow> bool \<Rightarrow> ('w, contact_book) cli" where
  "client_contacts H c until refresh = client_do H c until ''GET'' ''/v1/contacts''
     (if refresh then [(''refresh'', [''1''])] else []) None [] zero_book (read_json H dec_book)"

definition client_outbox :: "'w host \<Rightarrow> client \<Rightarrow> time option \<Rightarrow> string \<Rightarrow> ('w, outbox) cli" where
  "client_outbox H c until key = client_do H c until ''GET'' (''/v1/outbox/'' @ path_escape key) [] None []
     zero_outbox (read_json H dec_outbox)"

definition client_create :: "'w host \<Rightarrow> client \<Rightarrow> time option \<Rightarrow> string \<Rightarrow> string list \<Rightarrow> ('w, outbox) cli" where
  "client_create H c until key recipients = client_do H c until ''POST'' ''/v1/conversations'' []
     (Some (JObj [(''recipients'', JArr (map JStr recipients))])) key zero_outbox (read_json H dec_outbox)"

definition send_body :: "string \<Rightarrow> string \<Rightarrow> json" where
  "send_body i text = JObj [(''conversation_id'', JStr i), (''text'', JStr text)]"

definition client_send_text :: "'w host \<Rightarrow> client \<Rightarrow> time option \<Rightarrow> string \<Rightarrow> string \<Rightarrow> string \<Rightarrow> ('w, outbox) cli" where
  "client_send_text H c until key i text = client_do H c until ''POST'' ''/v1/messages'' []
     (Some (send_body i text)) key zero_outbox (read_json H dec_outbox)"

definition client_attachment :: "'w host \<Rightarrow> client \<Rightarrow> time option \<Rightarrow> string \<Rightarrow> ('w, string) cli" where
  "client_attachment H c until i =
     client_do H c until ''GET'' (''/v1/attachments/'' @ path_escape i) [] None [] [] Inr"

definition outbox_settled :: "string \<Rightarrow> bool" where
  "outbox_settled state \<longleftrightarrow> state \<in> {''accepted'', ''confirmed'', ''rejected'', ''ambiguous'', ''canceled''}"

text \<open>
  \<open>AwaitOutbox\<close>: the operation as it was last seen, beside the error.  The loop runs until the operation
  settles or the context ends; \<open>n\<close> bounds its iterations, \<open>None\<close> says that the bound was met.
\<close>

fun await_outbox :: "'w host \<Rightarrow> client \<Rightarrow> time option \<Rightarrow> string \<Rightarrow> nat \<Rightarrow> 'w \<Rightarrow>
    ((outbox \<times> client_error option) \<times> 'w) option" where
  "await_outbox H c until key 0 w = None"
| "await_outbox H c until key (Suc n) w = (case client_outbox H c until key w of
       (Inl e, w') \<Rightarrow> Some ((zero_outbox, Some e), w')
     | (Inr ob, w') \<Rightarrow> if outbox_settled (o_state ob) then Some ((ob, None), w')
         else (case ho_pause H until second w' of
             (Some e, w'') \<Rightarrow> Some ((ob, Some (Host_error e)), w'')
           | (None, w'') \<Rightarrow> await_outbox H c until key n w''))"

definition new_key :: "'w host \<Rightarrow> ('w, string) cli" where  \<comment> \<open>\<open>NewKey\<close>, from 12 random bytes in hexadecimal\<close>
  "new_key H w = (case ho_key H w of (k, w') \<Rightarrow> (Inr (''gmessages-'' @ k), w'))"

section \<open>Settings\<close>

record settings =
  st_url :: string
  st_token :: string
  st_token_file :: string
  st_pass :: string

definition no_settings :: settings where
  "no_settings = \<lparr>st_url = [], st_token = [], st_token_file = [], st_pass = []\<rparr>"

definition set_settings :: "string \<Rightarrow> json \<Rightarrow> settings \<Rightarrow> settings option" where
  "set_settings k v s =
    (if k = ''url'' then map_option (\<lambda>x. s\<lparr>st_url := x\<rparr>) (as_str v (st_url s))
     else if k = ''token_file'' then map_option (\<lambda>x. s\<lparr>st_token_file := x\<rparr>) (as_str v (st_token_file s))
     else if k = ''token_pass_entry'' then map_option (\<lambda>x. s\<lparr>st_pass := x\<rparr>) (as_str v (st_pass s))
     else Some s)"

record config_file =
  cf_default :: string
  cf_profiles :: "(string \<times> settings) list"

definition no_config :: config_file where
  "no_config = \<lparr>cf_default = [], cf_profiles = []\<rparr>"

text \<open>A map of profiles: of two members with one name the later counts.\<close>

fun dec_profiles :: "(string \<times> json) list \<Rightarrow> (string \<times> settings) list option" where
  "dec_profiles [] = Some []"
| "dec_profiles ((k, v) # ms) = (case decode_struct set_settings no_settings v of None \<Rightarrow> None
     | Some s \<Rightarrow> map_option (\<lambda>ps. ps @ [(k, s)]) (dec_profiles ms))"

definition set_config :: "string \<Rightarrow> json \<Rightarrow> config_file \<Rightarrow> config_file option" where
  "set_config k v f =
    (if k = ''default_profile'' then map_option (\<lambda>x. f\<lparr>cf_default := x\<rparr>) (as_str v (cf_default f))
     else if k = ''profiles'' then (case v of JNull \<Rightarrow> Some (f\<lparr>cf_profiles := []\<rparr>)
       | JObj ms \<Rightarrow> map_option (\<lambda>ps. f\<lparr>cf_profiles := ps @ cf_profiles f\<rparr>) (dec_profiles ms) | _ \<Rightarrow> None)
     else Some f)"

definition dec_config :: "json \<Rightarrow> config_file option" where
  "dec_config = decode_struct set_config no_config"

datatype file_read = Missing | Unreadable | Contents string

text \<open>The machine of a command: its environment, its files, the \<open>pass\<close> command, its user's directory.\<close>

record machine =
  mc_env :: "string \<Rightarrow> string"
  mc_file :: "string \<Rightarrow> file_read"
  mc_config_dir :: "string option"
  mc_pass :: "string \<Rightarrow> string option"
  mc_json :: "string \<Rightarrow> json option"

definition config_paths :: "machine \<Rightarrow> string list" where
  "config_paths M = (let path = mc_env M ''GOOGLE_MESSAGES_BRIDGE_CONFIG'' in
     if path \<noteq> [] then [path]
     else (case mc_config_dir M of None \<Rightarrow> [] | Some dir \<Rightarrow> [dir @ ''/gmessages/config.json''])
       @ [''/etc/gmessages/config.json''])"

fun load_config :: "machine \<Rightarrow> string list \<Rightarrow> client_error + config_file" where
  "load_config M [] = Inr no_config"
| "load_config M (path # paths) = (case mc_file M path of
       Missing \<Rightarrow> load_config M paths
     | Unreadable \<Rightarrow> Inl (Message_error path)
     | Contents text \<Rightarrow> (case Option.bind (mc_json M text) dec_config of
           None \<Rightarrow> Inl (Message_error path) | Some f \<Rightarrow> Inr f))"

definition client_profiles :: "machine \<Rightarrow> client_error + (string \<times> settings) list" where
  "client_profiles M = map_sum id cf_profiles (load_config M (config_paths M))"

definition names_token :: "settings \<Rightarrow> bool" where
  "names_token s \<longleftrightarrow> st_token s \<noteq> [] \<or> st_token_file s \<noteq> [] \<or> st_pass s \<noteq> []"

definition add_layer :: "settings \<Rightarrow> settings \<times> bool \<Rightarrow> settings \<times> bool" where
  "add_layer layer acc = (case acc of (out, chosen) \<Rightarrow>
     let out1 = (if st_url out = [] then out\<lparr>st_url := st_url layer\<rparr> else out) in
     if \<not> chosen \<and> names_token layer
     then (out1\<lparr>st_token := st_token layer, st_token_file := st_token_file layer, st_pass := st_pass layer\<rparr>, True)
     else (out1, chosen))"

definition env_settings :: "machine \<Rightarrow> settings" where
  "env_settings M = \<lparr>st_url = mc_env M ''GOOGLE_MESSAGES_BRIDGE_URL'', st_token = mc_env M ''GOOGLE_MESSAGES_BRIDGE_TOKEN'',
     st_token_file = mc_env M ''GOOGLE_MESSAGES_BRIDGE_TOKEN_FILE'',
     st_pass = mc_env M ''GOOGLE_MESSAGES_BRIDGE_TOKEN_PASS_ENTRY''\<rparr>"

definition setting_layers :: "machine \<Rightarrow> config_file \<Rightarrow> string \<Rightarrow> settings \<Rightarrow> settings list option" where
  "setting_layers M f profile flags =
    (if profile \<noteq> [] then map_option (\<lambda>p. [flags, p]) (map_of (cf_profiles f) profile)
     else let name = (if cf_default f = [] then ''default'' else cf_default f) in
       Some [flags, env_settings M, case map_of (cf_profiles f) name of None \<Rightarrow> no_settings | Some p \<Rightarrow> p])"

definition resolve_settings :: "machine \<Rightarrow> string \<Rightarrow> settings \<Rightarrow> client_error + settings" where
  "resolve_settings M profile flags = (case load_config M (config_paths M) of Inl e \<Rightarrow> Inl e
     | Inr f \<Rightarrow> (case setting_layers M f profile flags of None \<Rightarrow> Inl (Message_error ''unknown profile'')
       | Some layers \<Rightarrow> let out = fst (fold add_layer layers (no_settings, False)) in
           if st_url out = [] then Inl (Message_error ''no bridge URL'') else Inr out))"

definition settings_token :: "machine \<Rightarrow> settings \<Rightarrow> client_error + string" where
  "settings_token M s =
    (if st_token s \<noteq> [] then Inr (st_token s)
     else if st_token_file s \<noteq> [] then (case mc_file M (st_token_file s) of
         Contents text \<Rightarrow> Inr (trim_space text) | _ \<Rightarrow> Inl (Message_error ''read token file''))
     else if st_pass s \<noteq> [] then
       (if take 1 (st_pass s) = ''-'' then Inl (Message_error ''invalid pass entry'')
        else case mc_pass M (st_pass s) of None \<Rightarrow> Inl (Message_error ''could not read the token pass entry'')
          | Some text \<Rightarrow> Inr (trim_space (takeWhile (\<lambda>c. c \<noteq> CHR 0x0A) text)))
     else Inl (Message_error ''no API token''))"

text \<open>\<open>New\<close>: \<open>parse\<close> is \<open>url.Parse\<close>, up to the scheme, the host and the path.\<close>

definition new_client :: "machine \<Rightarrow> (string \<Rightarrow> (string \<times> string \<times> string) option) \<Rightarrow> settings \<Rightarrow> client_error + client" where
  "new_client M parse s = (case parse (trim_right (CHR ''/'') (st_url s)) of
       None \<Rightarrow> Inl (Message_error ''invalid bridge URL'')
     | Some (scheme, addr, path) \<Rightarrow>
         if scheme = [] \<or> addr = [] then Inl (Message_error ''invalid bridge URL'')
         else map_sum id (\<lambda>token. \<lparr>cl_path = path, cl_token = token\<rparr>) (settings_token M s))"

end
