(* ===== verification/Commands.thy ===== *)
theory Commands
  imports Client Model
begin

text \<open>
  The operations of the command line over the client (\<open>cmd/gmessages/ops.go\<close> and the reading commands
  of \<open>main.go\<close>): naming conversations, searching, waiting for a message, sending, and what is printed.
\<close>

section \<open>Conversations\<close>

record chats =
  ch_list :: "conversation list"

text \<open>\<open>byID\<close>: of two conversations with one id the later is kept.\<close>

definition chat_of :: "chats \<Rightarrow> string \<Rightarrow> conversation option" where
  "chat_of cs i = List.find (\<lambda>c. c_id c = i) (rev (ch_list cs))"

definition chat_or_zero :: "chats \<Rightarrow> string \<Rightarrow> conversation" where
  "chat_or_zero cs i = (case chat_of cs i of None \<Rightarrow> zero_conversation | Some c \<Rightarrow> c)"

definition load_conversations :: "'w host \<Rightarrow> client \<Rightarrow> time option \<Rightarrow> ('w, chats) cli" where
  "load_conversations H c until = after (client_conversations H c until) (\<lambda>l. give \<lparr>ch_list = l\<rparr>)"

definition only_digits :: "go_library \<Rightarrow> string \<Rightarrow> string" where  \<comment> \<open>\<open>digits\<close>\<close>
  "only_digits L s = string_of_runes (filter (lib_is_digit L) (runes s))"

definition own_addresses :: "conversation \<Rightarrow> string set" where
  "own_addresses c = {p_address p |p. p \<in> set (c_participants c) \<and> p_is_me p \<and> p_address p \<noteq> []}"

lemma own_addresses_code [code]:
  "own_addresses c = p_address ` set (filter (\<lambda>p. p_is_me p \<and> p_address p \<noteq> []) (c_participants c))"
  by (auto simp: own_addresses_def)

definition others :: "conversation \<Rightarrow> participant list" where
  "others c = filter (\<lambda>p. \<not> p_is_me p \<and> p_address p \<notin> own_addresses c) (c_participants c)"

definition chat_matches :: "go_library \<Rightarrow> conversation \<Rightarrow> string \<Rightarrow> bool" where  \<comment> \<open>\<open>matches\<close>\<close>
  "chat_matches L c f \<longleftrightarrow> f = [] \<or> c_id c = f \<or>
     (let low = lib_lower L f; want = only_digits L f in
      contains_str (lib_lower L (c_name c)) low \<or>
      (\<exists>p \<in> set (others c). contains_str (lib_lower L (p_name p)) low \<or>
         (4 \<le> length want \<and> contains_str (only_digits L (p_address p)) want)))"

text \<open>\<open>resolve\<close>; \<open>lib_fold\<close> is \<open>strings.EqualFold\<close>.\<close>

definition exact_names :: "go_library \<Rightarrow> chats \<Rightarrow> string \<Rightarrow> conversation list" where
  "exact_names L cs f = filter (\<lambda>c. lib_fold L (c_name c) f) (ch_list cs)"

definition partial_names :: "go_library \<Rightarrow> chats \<Rightarrow> string \<Rightarrow> conversation list" where
  "partial_names L cs f = filter (\<lambda>c. \<not> lib_fold L (c_name c) f \<and> chat_matches L c f) (ch_list cs)"

definition resolve_chat :: "go_library \<Rightarrow> chats \<Rightarrow> string \<Rightarrow> client_error + conversation" where
  "resolve_chat L cs f = (case chat_of cs f of Some c \<Rightarrow> Inr c
     | None \<Rightarrow> let exact = exact_names L cs f; found = (if exact = [] then partial_names L cs f else exact) in
         (case found of [] \<Rightarrow> Inl (Message_error ''no conversation matches'')
          | [c] \<Rightarrow> Inr c
          | _ \<Rightarrow> Inl (Message_error (''matches several conversations; use an ID: '' @
              join '', '' (map (\<lambda>c. c_name c @ '' ('' @ c_id c @ '')'') (take 10 found))))))"

section \<open>Times\<close>

text \<open>
  \<open>parseSince\<close>: \<open>ho_duration\<close> is \<open>time.ParseDuration\<close>, whose result is a 64-bit count of nanoseconds; the
  arithmetic on it wraps.  The zero time is no bound.
\<close>

definition cut_suffix :: "char \<Rightarrow> string \<Rightarrow> string option" where
  "cut_suffix x s = (if s \<noteq> [] \<and> last s = x then Some (butlast s) else None)"

definition days_back :: "'w host \<Rightarrow> string \<Rightarrow> i64 option" where
  "days_back H v = Option.bind (cut_suffix (CHR ''d'') v) (\<lambda>days. ho_duration H (days @ ''h''))"

definition parse_since :: "'w host \<Rightarrow> string \<Rightarrow> time \<Rightarrow> client_error + time" where
  "parse_since H v t = (if v = [] then Inr 0
     else case days_back H v of Some d \<Rightarrow> Inr (t + sint (- 24 * d))
       | None \<Rightarrow> (case ho_duration H v of Some d \<Rightarrow> Inr (t + sint (- d))
         | None \<Rightarrow> (case lib_time (ho_go H) v of Some u \<Rightarrow> Inr u
           | None \<Rightarrow> Inl (Message_error ''invalid since: use a duration like 15m or an RFC 3339 time''))))"

section \<open>Messages\<close>

record shown_message =
  mv_message :: message
  mv_conversation :: string
  mv_sender :: string

definition cmp_or :: "string list \<Rightarrow> string" where
  "cmp_or vs = (case List.find (\<lambda>v. v \<noteq> []) vs of None \<Rightarrow> [] | Some v \<Rightarrow> v)"

definition view_message :: "chats \<Rightarrow> message \<Rightarrow> shown_message" where
  "view_message cs m = (let c = chat_or_zero cs (m_conversation_id m) in
     \<lparr>mv_message = m, mv_conversation = c_name c,
      mv_sender = fold (\<lambda>p sender. if p_id p = m_sender_id m \<and> sender = [] then cmp_or [p_name p, p_address p] else sender)
        (c_participants c) (if m_direction m = ''outgoing'' then ''me'' else [])\<rparr>)"

definition cmp_limit :: "int \<Rightarrow> int \<Rightarrow> int" where
  "cmp_limit limit fallback = (if limit \<le> 0 then fallback else min limit 500)"

record search_asked =
  so_query :: string
  so_since :: string
  so_direction :: string
  so_conversation :: string
  so_limit :: int

definition in_chat :: "go_library \<Rightarrow> chats \<Rightarrow> string \<Rightarrow> message \<Rightarrow> bool" where
  "in_chat L cs f m \<longleftrightarrow> chat_matches L (chat_or_zero cs (m_conversation_id m)) f"

definition cli_search :: "'w host \<Rightarrow> client \<Rightarrow> time option \<Rightarrow> search_asked \<Rightarrow> ('w, shown_message list) cli" where
  "cli_search H c until q = after (ask (ho_now H)) (\<lambda>t. case parse_since H (so_since q) t of
       Inl e \<Rightarrow> reject e
     | Inr since \<Rightarrow> let limit = cmp_limit (so_limit q) 20 in
       after (client_search H c until \<lparr>sq_text = so_query q, sq_since = since, sq_direction = so_direction q,
           sq_limit = (if so_conversation q \<noteq> [] then 500 else limit)\<rparr>) (\<lambda>(ms, n).
       after (load_conversations H c until) (\<lambda>cs.
       give (map (view_message cs) (take (nat limit)
         (filter (\<lambda>m. so_conversation q = [] \<or> in_chat (ho_go H) cs (so_conversation q) m) ms))))))"

section \<open>Waiting for a message\<close>

text \<open>Whether an event is a message that is asked for, its conversation aside.\<close>

definition wanted_event :: "go_library \<Rightarrow> search_asked \<Rightarrow> time \<Rightarrow> client_event \<Rightarrow> message option" where
  "wanted_event L q since e = (if ce_type e \<noteq> ''message'' then None
     else case dec_message (ce_data e) of None \<Rightarrow> None
     | Some m \<Rightarrow> let query = lib_lower L (so_query q) in
         if m_deleted m \<or> m_time m < since \<or> (so_direction q \<noteq> [] \<and> m_direction m \<noteq> so_direction q) \<or>
           (query \<noteq> [] \<and> \<not> contains_str (lib_lower L (m_text m)) query \<and> \<not> contains_str (lib_lower L (m_subject m)) query)
         then None else Some m)"

text \<open>A conversation that is not in the list is looked up again.\<close>

definition refreshed :: "'w host \<Rightarrow> client \<Rightarrow> time option \<Rightarrow> string \<Rightarrow> chats \<Rightarrow> ('w, chats) cli" where
  "refreshed H c until i cs = (if chat_of cs i \<noteq> None then give cs
     else after (attempt (load_conversations H c until)) (\<lambda>r. give (case r of Inl e \<Rightarrow> cs | Inr fresh \<Rightarrow> fresh)))"

fun scan_events :: "'w host \<Rightarrow> client \<Rightarrow> time option \<Rightarrow> search_asked \<Rightarrow> time \<Rightarrow> client_event list \<Rightarrow> chats \<Rightarrow>
    ('w, chats + shown_message) cli" where
  "scan_events H c until q since [] cs = give (Inl cs)"
| "scan_events H c until q since (e # es) cs = (case wanted_event (ho_go H) q since e of
       None \<Rightarrow> scan_events H c until q since es cs
     | Some m \<Rightarrow> after (refreshed H c until (m_conversation_id m) cs) (\<lambda>cs'.
         if in_chat (ho_go H) cs' (so_conversation q) m then give (Inr (view_message cs' m))
         else scan_events H c until q since es cs'))"

text \<open>One iteration of the loop of \<open>wait\<close>: the message, or where it goes on.\<close>

definition wait_turn :: "'w host \<Rightarrow> client \<Rightarrow> time option \<Rightarrow> search_asked \<Rightarrow> time \<Rightarrow> u64 \<times> chats \<Rightarrow>
    ('w, (u64 \<times> chats) + shown_message) cli" where
  "wait_turn H c until q since st = (case st of (pos, cs) \<Rightarrow>
     after (attempt (client_events H c until pos)) (\<lambda>r. case r of
       Inl e \<Rightarrow> after (ask (ho_ended H until)) (\<lambda>ended. if ended \<noteq> None then reject Timed_out else reject e)
     | Inr (es, next) \<Rightarrow> after (scan_events H c until q since es cs) (\<lambda>found. case found of
           Inr v \<Rightarrow> give (Inr v)
         | Inl cs' \<Rightarrow> if es \<noteq> [] then give (Inl (next, cs'))
             else (\<lambda>w. case ho_pause H until (2 * second) w of
                 (Some e, w') \<Rightarrow> (Inl Timed_out, w') | (None, w') \<Rightarrow> (Inr (Inl (next, cs')), w')))))"

fun wait_loop :: "'w host \<Rightarrow> client \<Rightarrow> time option \<Rightarrow> search_asked \<Rightarrow> time \<Rightarrow> nat \<Rightarrow> u64 \<times> chats \<Rightarrow> 'w \<Rightarrow>
    ((client_error + shown_message) \<times> 'w) option" where
  "wait_loop H c until q since 0 st w = None"
| "wait_loop H c until q since (Suc n) st w = (case wait_turn H c until q since st w of
       (Inl e, w') \<Rightarrow> Some (Inl e, w')
     | (Inr (Inr v), w') \<Rightarrow> Some (Inr v, w')
     | (Inr (Inl st'), w') \<Rightarrow> wait_loop H c until q since n st' w')"

text \<open>What comes before the loop: the message that is there already, or the loop's bound and start.\<close>

definition wait_start :: "'w host \<Rightarrow> client \<Rightarrow> time option \<Rightarrow> search_asked \<Rightarrow> time \<Rightarrow>
    ('w, (time \<times> u64 \<times> chats) + shown_message) cli" where
  "wait_start H c until q start = (case parse_since H (so_since q) start of Inl e \<Rightarrow> reject e
     | Inr since \<Rightarrow>
       after (client_search H c until \<lparr>sq_text = so_query q, sq_since = (if since = 0 then start else since),
           sq_direction = so_direction q, sq_limit = (if since = 0 then 1 else 500)\<rparr>) (\<lambda>(existing, pos).
       after (load_conversations H c until) (\<lambda>cs.
       if since \<noteq> 0 then (case List.find (in_chat (ho_go H) cs (so_conversation q)) existing of
           Some m \<Rightarrow> give (Inr (view_message cs m)) | None \<Rightarrow> give (Inl (since, pos, cs)))
       else give (Inl (start - 2 * minute, pos, cs)))))"

definition cli_wait :: "'w host \<Rightarrow> client \<Rightarrow> search_asked \<Rightarrow> time \<Rightarrow> nat \<Rightarrow> 'w \<Rightarrow>
    ((client_error + shown_message) \<times> 'w) option" where
  "cli_wait H c q timeout n w = (let start = ho_now H w; until = Some (start + timeout) in
     case wait_start H c until q start w of
       (Inl e, w') \<Rightarrow> Some (Inl e, w')
     | (Inr (Inr v), w') \<Rightarrow> Some (Inr v, w')
     | (Inr (Inl (since, pos, cs)), w') \<Rightarrow> wait_loop H c until q since n (pos, cs) w')"

section \<open>Sending\<close>

record send_options =
  se_conversation :: string
  se_to :: "string list"
  se_text :: string
  se_wait :: bool

text \<open>\<open>awaitWithin\<close>: 90 seconds from now, so at most 91 polls of one second.\<close>

definition await_limit :: time where "await_limit = 90 * second"

definition await_polls :: nat where "await_polls = 92"

definition await_within :: "'w host \<Rightarrow> client \<Rightarrow> string \<Rightarrow> nat \<Rightarrow> 'w \<Rightarrow>
    ((outbox \<times> client_error option) \<times> 'w) option" where
  "await_within H c key n w = (case await_outbox H c (Some (ho_now H w + await_limit)) key n w of
       None \<Rightarrow> None
     | Some ((ob, Some e), w') \<Rightarrow> Some ((ob, Some (if caused_by e ErrDeadline
         then Message_error (''still '' @ o_state ob @ '' after 1m30s; check `gmessages outbox '' @ key @ ''`'') else e)), w')
     | Some ((ob, None), w') \<Rightarrow> Some ((ob, None), w'))"

definition awaited :: "'w host \<Rightarrow> client \<Rightarrow> string \<Rightarrow> ('w, outbox \<times> client_error option) cli" where
  "awaited H c key w = (case await_within H c key await_polls w of
       None \<Rightarrow> (Inl Timed_out, w) | Some (r, w') \<Rightarrow> (Inr r, w'))"

definition created_chat :: "'w host \<Rightarrow> client \<Rightarrow> string list \<Rightarrow> ('w, string) cli" where
  "created_chat H c recipients = after (new_key H) (\<lambda>key.
     after (client_create H c None key recipients) (\<lambda>_.
     after (awaited H c key) (\<lambda>(ob, err). case err of
         Some e \<Rightarrow> reject (Within (''conversation creation '' @ key) e)
       | None \<Rightarrow> if o_state ob \<noteq> ''accepted'' \<or> o_conversation_id ob = []
           then reject (Message_error (''conversation creation '' @ key @ '' ended '' @ o_state ob @ '': '' @ o_detail ob))
           else give (o_conversation_id ob))))"

definition send_destination :: "'w host \<Rightarrow> client \<Rightarrow> send_options \<Rightarrow> ('w, string) cli" where
  "send_destination H c q = (if se_conversation q \<noteq> []
     then after (load_conversations H c None) (\<lambda>cs. case resolve_chat (ho_go H) cs (se_conversation q) of
         Inl e \<Rightarrow> reject e | Inr chat \<Rightarrow> give (c_id chat))
     else created_chat H c (se_to q))"

definition cli_send :: "'w host \<Rightarrow> client \<Rightarrow> send_options \<Rightarrow> ('w, outbox) cli" where
  "cli_send H c q =
    (if trim_space (se_text q) = [] then reject (Message_error ''message text is empty'')
     else if (se_conversation q = []) = (se_to q = [])
       then reject (Message_error ''name exactly one of a conversation or recipient numbers'')
     else after (send_destination H c q) (\<lambda>i. after (new_key H) (\<lambda>key.
       after (client_send_text H c None key i (se_text q)) (\<lambda>queued.
       if \<not> se_wait q then give queued
       else after (awaited H c key) (\<lambda>(ob, err). case err of None \<Rightarrow> give ob | Some e \<Rightarrow> reject e)))))"

section \<open>Lists\<close>

definition filter_contacts :: "go_library \<Rightarrow> contact_book \<Rightarrow> string \<Rightarrow> contact list" where
  "filter_contacts L book query = (if query = [] then b_contacts book
     else let low = lib_lower L query; want = only_digits L query in
       filter (\<lambda>k. contains_str (lib_lower L (k_name k)) low \<or>
         \<not> (length want < 4 \<or> \<not> contains_str (only_digits L (k_address k)) want)) (b_contacts book))"

definition filter_conversations :: "go_library \<Rightarrow> chats \<Rightarrow> string \<Rightarrow> nat \<Rightarrow> conversation list" where
  "filter_conversations L cs query limit = take limit (filter (\<lambda>c. chat_matches L c query) (ch_list cs))"

definition chat_messages :: "'w host \<Rightarrow> client \<Rightarrow> string \<Rightarrow> int \<Rightarrow> string \<Rightarrow> ('w, shown_message list \<times> string) cli" where
  \<comment> \<open>\<open>conversationMessages\<close>\<close>
  "chat_messages H c f limit before = after (load_conversations H c None) (\<lambda>cs.
     case resolve_chat (ho_go H) cs f of Inl e \<Rightarrow> reject e
     | Inr chat \<Rightarrow> after (client_messages H c None (c_id chat) (cmp_limit limit 20) before) (\<lambda>(ms, next).
         give (rev (map (view_message cs) ms), next)))"

section \<open>Printing\<close>

definition join_lines :: "('a \<Rightarrow> string) \<Rightarrow> 'a list \<Rightarrow> string" where
  "join_lines f xs = join [CHR 0x0A] (map f xs)"

definition format_attachment :: "attachment \<Rightarrow> string" where
  "format_attachment a = '' [attachment '' @ a_name a @ '' '' @ a_mime a @ '' id='' @ a_id a @ '']''"

definition format_message :: "'w host \<Rightarrow> bool \<Rightarrow> shown_message \<Rightarrow> string" where
  "format_message H with_chat v = (let m = mv_message v in
     ''['' @ ho_local H (m_time m) @ ''] ''
     @ (if with_chat then cmp_or [mv_conversation v, m_conversation_id m] @ '' | '' else [])
     @ cmp_or [mv_sender v, m_sender_id m, ''unknown''] @ '': '' @ m_text m
     @ concat (map format_attachment (m_attachments m))
     @ (if with_chat then ''  (conversation='' @ m_conversation_id m @ '' message='' @ m_id m @ '')''
        else ''  (message='' @ m_id m @ '')''))"

definition format_conversation :: "'w host \<Rightarrow> conversation \<Rightarrow> string" where
  "format_conversation H c = c_id c @ ''  ['' @ ho_local H (c_updated c) @ ''] '' @ c_name c @ '' <''
     @ join '', '' (map (\<lambda>p. cmp_or [p_address p, p_name p]) (others c)) @ ''>''
     @ (if c_unread c then '' [unread]'' else []) @ '': '' @ c_preview c"

definition format_contact :: "contact \<Rightarrow> string" where
  "format_contact k = cmp_or [k_address k, k_formatted k, ''(no number)''] @ ''  '' @ k_name k"

definition format_outbox :: "outbox \<Rightarrow> string" where
  "format_outbox ob = o_id ob @ '': '' @ o_state ob
     @ (if o_conversation_id ob \<noteq> [] \<or> q_conversation_id (o_request ob) \<noteq> []
        then '' conversation='' @ cmp_or [o_conversation_id ob, q_conversation_id (o_request ob)] else [])
     @ (if o_detail ob \<noteq> [] then '' ('' @ o_detail ob @ '')'' else [])"

definition format_chat_messages :: "'w host \<Rightarrow> shown_message list \<Rightarrow> string \<Rightarrow> string" where
  \<comment> \<open>\<open>formatConversationMessages\<close>\<close>
  "format_chat_messages H views next = (case views of [] \<Rightarrow> ''no messages''
     | v # _ \<Rightarrow> mv_conversation v @ '' ('' @ m_conversation_id (mv_message v) @ '')'' @ [CHR 0x0A]
         @ join_lines (format_message H False) views
         @ (if next \<noteq> [] then [CHR 0x0A] @ ''(older messages: --before '' @ next @ '')'' else []))"

text \<open>\<open>formatStatus\<close>: the members in the order of their names, but for null and the empty string.  \<open>show\<close> prints
  a value.\<close>

definition format_status :: "(json \<Rightarrow> string) \<Rightarrow> (string \<times> json) list \<Rightarrow> string" where
  "format_status show status = join_lines (\<lambda>(k, v). k @ '': '' @ show v)
     (filter (\<lambda>(k, v). v \<noteq> JNull \<and> v \<noteq> JStr []) (sort_key fst status))"

end
