(* ===== verification/Mcp.thy ===== *)
theory Mcp
  imports Commands
begin

text \<open>
  The MCP front end (\<open>cmd/gmessages/mcp.go\<close>): JSON-RPC requests on lines, the tools, and the calls
  that run beside each other.  An id is the raw JSON of the request.  \<open>n\<close> bounds the polls of a call that
  waits; \<open>None\<close> says that the bound was met.
\<close>

section \<open>Arguments of a tool\<close>

record tool_args =
  ta_query :: string
  ta_since :: string
  ta_direction :: string
  ta_conversation :: string
  ta_before :: string
  ta_text :: string
  ta_limit :: i64
  ta_timeout :: i64
  ta_to :: "string list"

definition no_args :: tool_args where
  "no_args = \<lparr>ta_query = [], ta_since = [], ta_direction = [], ta_conversation = [], ta_before = [], ta_text = [],
     ta_limit = 0, ta_timeout = 0, ta_to = []\<rparr>"

text \<open>The fields by their JSON names; those without a tag have the name of the Go field.\<close>

definition set_args :: "string \<Rightarrow> json \<Rightarrow> tool_args \<Rightarrow> tool_args option" where
  "set_args k v a =
    (if k \<in> {''query'', ''Query''} then map_option (\<lambda>x. a\<lparr>ta_query := x\<rparr>) (as_str v (ta_query a))
     else if k \<in> {''since'', ''Since''} then map_option (\<lambda>x. a\<lparr>ta_since := x\<rparr>) (as_str v (ta_since a))
     else if k \<in> {''direction'', ''Direction''} then map_option (\<lambda>x. a\<lparr>ta_direction := x\<rparr>) (as_str v (ta_direction a))
     else if k \<in> {''conversation'', ''Conversation''}
       then map_option (\<lambda>x. a\<lparr>ta_conversation := x\<rparr>) (as_str v (ta_conversation a))
     else if k = ''before'' then map_option (\<lambda>x. a\<lparr>ta_before := x\<rparr>) (as_str v (ta_before a))
     else if k = ''Text'' then map_option (\<lambda>x. a\<lparr>ta_text := x\<rparr>) (as_str v (ta_text a))
     else if k \<in> {''limit'', ''Limit''} then map_option (\<lambda>x. a\<lparr>ta_limit := x\<rparr>) (as_i64 v (ta_limit a))
     else if k = ''timeout_seconds'' then map_option (\<lambda>x. a\<lparr>ta_timeout := x\<rparr>) (as_i64 v (ta_timeout a))
     else if k = ''To'' then map_option (\<lambda>x. a\<lparr>ta_to := x\<rparr>) (as_list elem_str v)
     else if k = ''Wait'' then map_option (\<lambda>x. a) (as_bool v False)
     else None)"

definition decode_args :: "go_library \<Rightarrow> string list \<Rightarrow> json option \<Rightarrow> client_error + tool_args" where
  "decode_args L names raw = (case raw of None \<Rightarrow> Inr no_args
     | Some j \<Rightarrow> (case decode_strict L names set_args no_args j of None \<Rightarrow> Inl Bad_reply | Some a \<Rightarrow> Inr a))"

definition with_args :: "go_library \<Rightarrow> string list \<Rightarrow> json option \<Rightarrow> (tool_args \<Rightarrow> ('w, 'a) cli) \<Rightarrow> ('w, 'a) cli" where
  "with_args L names raw k = (case decode_args L names raw of Inl e \<Rightarrow> reject e | Inr a \<Rightarrow> k a)"

definition text_result :: "string \<Rightarrow> ('a \<Rightarrow> string) \<Rightarrow> 'a list \<Rightarrow> string" where
  "text_result nothing f xs = (if xs = [] then nothing else join_lines f xs)"

section \<open>The tools\<close>

text \<open>A call is given the host, whose context it runs in, and the bound on its polls.\<close>

record 'w tool =
  tl_name :: string
  tl_description :: string
  tl_schema :: json
  tl_annotations :: json
  tl_send :: bool
  tl_call :: "'w host \<Rightarrow> client \<Rightarrow> nat \<Rightarrow> json option \<Rightarrow> 'w \<Rightarrow> ((client_error + string) \<times> 'w) option"

definition object_schema :: "string list \<Rightarrow> (string \<times> json) list \<Rightarrow> json" where
  "object_schema required properties = JObj ([(''type'', JStr ''object''), (''properties'', JObj properties),
     (''additionalProperties'', JBool False)] @ (if required \<noteq> [] then [(''required'', JArr (map JStr required))] else []))"

definition prop_schema :: "string \<Rightarrow> string \<Rightarrow> json" where
  "prop_schema kind description = JObj [(''type'', JStr kind), (''description'', JStr description)]"

definition conversation_prop :: json where
  "conversation_prop = prop_schema ''string'' ''Conversation ID, part of its name or a participant's name, or a phone number''"

definition query_prop :: json where
  "query_prop = prop_schema ''string'' ''Case-insensitive text the message must contain''"

definition since_prop :: json where
  "since_prop = prop_schema ''string''
     ''Only messages at or after this: a duration back from now (15m, 2h, 3d) or an RFC 3339 time''"

definition direction_enum :: "string \<times> json" where
  "direction_enum = (''enum'', JArr [JStr ''incoming'', JStr ''outgoing''])"

definition direction_prop :: json where
  "direction_prop = JObj [(''type'', JStr ''string''), direction_enum]"

definition limit_prop :: json where
  "limit_prop = prop_schema ''integer'' ''Maximum results, default 20, at most 500''"

text \<open>The annotations \<open>serveMCP\<close> gives a tool that has none.\<close>

definition read_only :: json where
  "read_only = JObj [(''readOnlyHint'', JBool True), (''openWorldHint'', JBool True)]"

definition prompt :: "('w, 'a) cli \<Rightarrow> 'w \<Rightarrow> ((client_error + 'a) \<times> 'w) option" where
  "prompt m w = Some (m w)"

definition status_tool :: "(json \<Rightarrow> string) \<Rightarrow> 'w tool" where
  "status_tool show = \<lparr>tl_name = ''bridge_status'',
     tl_description = ''Connection state of the bridge and the phone behind it.'',
     tl_schema = object_schema [] [],
     tl_annotations = read_only, tl_send = False, tl_call = (\<lambda>H c n raw. prompt
     (after (client_status H c None) (\<lambda>status. give (format_status show status))))\<rparr>"

definition list_tool :: "'w tool" where
  "list_tool = \<lparr>tl_name = ''list_conversations'',
     tl_description = ''Conversations, most recently active first, with their IDs, participants' numbers, and latest message preview.'',
     tl_schema = object_schema [] [(''query'', prop_schema ''string'' ''Filter by name, participant, or phone number''),
       (''limit'', limit_prop)],
     tl_annotations = read_only, tl_send = False, tl_call = (\<lambda>H c n raw. prompt
     (with_args (ho_go H) [''query'', ''limit''] raw (\<lambda>a. after (load_conversations H c None) (\<lambda>cs.
      give (text_result ''no conversations'' (format_conversation H)
        (filter_conversations (ho_go H) cs (ta_query a) (nat (cmp_limit (sint (ta_limit a)) 20))))))))\<rparr>"

definition read_tool :: "'w tool" where
  "read_tool = \<lparr>tl_name = ''read_messages'',
     tl_description = ''Recent messages in one conversation, oldest first. Pass the returned before value to page further back.'',
     tl_schema = object_schema [''conversation''] [(''conversation'', conversation_prop), (''limit'', limit_prop),
       (''before'', prop_schema ''string'' ''Message ID to page back from'')],
     tl_annotations = read_only, tl_send = False, tl_call = (\<lambda>H c n raw. prompt
     (with_args (ho_go H) [''conversation'', ''limit'', ''before''] raw (\<lambda>a.
      after (chat_messages H c (ta_conversation a) (sint (ta_limit a)) (ta_before a)) (\<lambda>(views, next).
      give (format_chat_messages H views next)))))\<rparr>"

definition args_search :: "tool_args \<Rightarrow> search_asked" where
  "args_search a = \<lparr>so_query = ta_query a, so_since = ta_since a, so_direction = ta_direction a,
     so_conversation = ta_conversation a, so_limit = sint (ta_limit a)\<rparr>"

definition search_tool :: "'w tool" where
  "search_tool = \<lparr>tl_name = ''search_messages'',
     tl_description = ''Search stored messages across all conversations, newest first.'',
     tl_schema = object_schema [] [(''query'', query_prop), (''since'', since_prop), (''direction'', direction_prop),
       (''conversation'', conversation_prop), (''limit'', limit_prop)],
     tl_annotations = read_only, tl_send = False, tl_call = (\<lambda>H c n raw. prompt
     (with_args (ho_go H) [''Query'', ''Since'', ''Direction'', ''Conversation'', ''Limit''] raw (\<lambda>a.
      after (cli_search H c None (args_search a)) (\<lambda>views.
      give (text_result ''no matching messages'' (format_message H True) views)))))\<rparr>"

definition wait_timeout :: "i64 \<Rightarrow> time" where
  "wait_timeout seconds = (if sint seconds > 0 then min (sint seconds) 600 * second else 120 * second)"

definition wait_tool :: "'w tool" where
  "wait_tool = \<lparr>tl_name = ''wait_for_message'',
     tl_description = ''Block until a matching message arrives and return it; use it right after triggering an SMS such as a verification code. ''
       @ ''Without since, only messages arriving after the call count; with since, a match already stored in that window returns at once.'',
     tl_schema = object_schema [] [(''query'', query_prop), (''since'', since_prop), (''conversation'', conversation_prop),
       (''direction'', JObj [(''type'', JStr ''string''), direction_enum, (''default'', JStr ''incoming'')]),
       (''timeout_seconds'', prop_schema ''integer'' ''How long to wait, default 120, at most 600'')],
     tl_annotations = read_only, tl_send = False, tl_call = (\<lambda>H c n raw w.
     case decode_args (ho_go H) [''query'', ''since'', ''conversation'', ''direction'', ''timeout_seconds''] raw of
       Inl e \<Rightarrow> Some (Inl e, w)
     | Inr a \<Rightarrow> map_option (\<lambda>(r, w'). (map_sum id (format_message H True) r, w'))
         (cli_wait H c ((args_search a)\<lparr>so_direction := cmp_or [ta_direction a, ''incoming''], so_limit := 0\<rparr>)
           (wait_timeout (ta_timeout a)) n w))\<rparr>"

definition contacts_tool :: "'w tool" where
  "contacts_tool = \<lparr>tl_name = ''list_contacts'',
     tl_description = ''Contacts from the phone's address book with their dialable numbers.'',
     tl_schema = object_schema [] [(''query'', prop_schema ''string'' ''Filter by name or number'')],
     tl_annotations = read_only, tl_send = False, tl_call = (\<lambda>H c n raw. prompt
     (with_args (ho_go H) [''query''] raw (\<lambda>a. after (client_contacts H c None False) (\<lambda>book.
      give (text_result ''no matching contacts'' format_contact (filter_contacts (ho_go H) book (ta_query a)))))))\<rparr>"

definition send_tool :: "'w tool" where
  "send_tool = \<lparr>tl_name = ''send_message'',
     tl_description = ''Send a text message from the user's phone, to an existing conversation or to E.164 phone numbers. ''
       @ ''Only send when the user asked for it.'',
     tl_schema = object_schema [''text''] [(''text'', prop_schema ''string'' ''Message text''), (''conversation'', conversation_prop),
       (''to'', JObj [(''type'', JStr ''array''), (''items'', JObj [(''type'', JStr ''string'')]), (''description'',
         JStr ''E.164 recipients for a new or existing conversation, instead of conversation'')])],
     tl_annotations = JObj [(''readOnlyHint'', JBool False), (''destructiveHint'', JBool False), (''idempotentHint'', JBool False),
       (''openWorldHint'', JBool True)], tl_send = True, tl_call = (\<lambda>H c n raw. prompt
     (with_args (ho_go H) [''Conversation'', ''To'', ''Text'', ''Wait''] raw (\<lambda>a.
      after (cli_send H c \<lparr>se_conversation = ta_conversation a, se_to = ta_to a, se_text = ta_text a, se_wait = True\<rparr>)
        (\<lambda>ob. give (format_outbox ob)))))\<rparr>"

definition all_tools :: "(json \<Rightarrow> string) \<Rightarrow> 'w tool list" where
  "all_tools show = [status_tool show, list_tool, read_tool, search_tool, wait_tool, contacts_tool, send_tool]"

definition offered_tools :: "(json \<Rightarrow> string) \<Rightarrow> bool \<Rightarrow> 'w tool list" where
  "offered_tools show allow_send = filter (\<lambda>t. \<not> (tl_send t \<and> \<not> allow_send)) (all_tools show)"

section \<open>Requests\<close>

record rpc_request =
  rr_id :: "json option"
  rr_method :: string
  rr_params :: "json option"

definition set_rpc :: "string \<Rightarrow> json \<Rightarrow> rpc_request \<Rightarrow> rpc_request option" where
  "set_rpc k v r =
    (if k = ''jsonrpc'' then map_option (\<lambda>x. r) (as_str v [])
     else if k = ''id'' then Some (r\<lparr>rr_id := Some v\<rparr>)
     else if k = ''method'' then map_option (\<lambda>x. r\<lparr>rr_method := x\<rparr>) (as_str v (rr_method r))
     else if k = ''params'' then Some (r\<lparr>rr_params := Some v\<rparr>) else Some r)"

definition dec_rpc :: "json \<Rightarrow> rpc_request option" where
  "dec_rpc = decode_struct set_rpc \<lparr>rr_id = None, rr_method = [], rr_params = None\<rparr>"

text \<open>A result is \<open>None\<close> where the response has no \<open>result\<close>.\<close>

type_synonym rpc_result = "(int \<times> string) + json option"

definition protocol_versions :: "string list" where
  "protocol_versions = [''2025-11-25'', ''2025-06-18'', ''2025-03-26'', ''2024-11-05'']"

definition param_str :: "string \<Rightarrow> json option \<Rightarrow> string" where
  \<comment> \<open>one string of the parameters, the empty string where they do not decode\<close>
  "param_str k params = (case Option.bind params (decode_struct (\<lambda>k' v x. if k' = k then as_str v x else Some x) []) of
     None \<Rightarrow> [] | Some x \<Rightarrow> x)"

definition mcp_instructions :: string where
  "mcp_instructions = join [CHR 0x0A]
     [''Read and send SMS/RCS messages through the user's Google Messages bridge.'',
      ''To fetch a verification code, call wait_for_message with a query such as '' @ [CHR 0x22] @ ''code'' @ [CHR 0x22] @ '' (and'',
      ''since set a few minutes back if the code may already have arrived), or search_messages.'',
      ''Never repeat verification codes or message contents beyond what the task needs.'']"

definition initialize_result :: "json option \<Rightarrow> json" where
  "initialize_result params = (let asked = param_str ''protocolVersion'' params in
     JObj [(''protocolVersion'', JStr (if asked \<in> set protocol_versions then asked else hd protocol_versions)),
       (''capabilities'', JObj [(''tools'', JObj [])]),
       (''serverInfo'', JObj [(''name'', JStr ''gmessages''), (''version'', JStr ''0.1.0'')]),
       (''instructions'', JStr mcp_instructions)])"

definition tool_json :: "'w tool \<Rightarrow> json" where
  "tool_json t = JObj [(''name'', JStr (tl_name t)), (''description'', JStr (tl_description t)),
     (''inputSchema'', tl_schema t), (''annotations'', tl_annotations t)]"

definition prefix_of :: "string \<Rightarrow> string \<Rightarrow> bool" where  \<comment> \<open>\<open>strings.HasPrefix\<close>\<close>
  "prefix_of p s \<longleftrightarrow> take (length p) s = p"

text \<open>\<open>dispatch\<close> of every method but \<open>tools/call\<close> and the notice that a call is canceled.\<close>

definition rpc_answer :: "'w tool list \<Rightarrow> rpc_request \<Rightarrow> rpc_result" where
  "rpc_answer ts r =
    (if rr_method r = ''initialize'' then Inr (Some (initialize_result (rr_params r)))
     else if rr_method r = ''ping'' then Inr (Some (JObj []))
     else if rr_method r = ''tools/list'' then Inr (Some (JObj [(''tools'', JArr (map tool_json ts))]))
     else if rr_method r = ''notifications/cancelled'' \<or> prefix_of ''notifications/'' (rr_method r) then Inr None
     else Inl (- 32601, ''method not found: '' @ rr_method r))"

definition set_call_params :: "string \<Rightarrow> json \<Rightarrow> string \<times> json option \<Rightarrow> (string \<times> json option) option" where
  "set_call_params k v p = (if k = ''name'' then map_option (\<lambda>x. (x, snd p)) (as_str v (fst p))
     else if k = ''arguments'' then Some (fst p, Some v) else Some p)"

definition call_params :: "json option \<Rightarrow> (string \<times> json option) option" where
  "call_params params = Option.bind params (decode_struct set_call_params ([], None))"

definition error_text :: "(client_error \<Rightarrow> string) \<Rightarrow> client_error \<Rightarrow> string" where
  "error_text show e = (case e of Http_error code text \<Rightarrow>
       if code = 401 then show e @ '' (check the configured API token)'' else show e
     | _ \<Rightarrow> show e)"

definition call_result :: "(client_error \<Rightarrow> string) \<Rightarrow> client_error + string \<Rightarrow> json" where
  "call_result show r = (case r of
       Inl e \<Rightarrow> JObj [(''content'', JArr [JObj [(''type'', JStr ''text''), (''text'', JStr (error_text show e))]]),
         (''isError'', JBool True)]
     | Inr text \<Rightarrow> JObj [(''content'', JArr [JObj [(''type'', JStr ''text''), (''text'', JStr text)]])])"

text \<open>\<open>callTool\<close>, up to the table of running calls\<close>

definition call_tool :: "(client_error \<Rightarrow> string) \<Rightarrow> 'w tool list \<Rightarrow> 'w host \<Rightarrow> client \<Rightarrow> nat \<Rightarrow> json option \<Rightarrow> 'w \<Rightarrow>
    (rpc_result \<times> 'w) option" where
  "call_tool show ts H c n params w = (case call_params params of
       None \<Rightarrow> Some (Inl (- 32602, ''invalid params''), w)
     | Some (name, args) \<Rightarrow> (case List.find (\<lambda>t. tl_name t = name) ts of
           None \<Rightarrow> Some (Inl (- 32602, ''unknown tool: '' @ name), w)
         | Some t \<Rightarrow> map_option (\<lambda>(r, w'). (Inr (Some (call_result show r)), w'))
             (tl_call t H c n args w)))"

section \<open>The server\<close>

text \<open>
  A response is the id it answers and the result.  A call with an id runs in a goroutine of its own: it
  waits to be scheduled, then checks its parameters and is entered into the table of running calls
  under its id, and leaves the table when it ends.  A call without an id runs before the next line is
  read and is not answered.  \<open>rc_canceled\<close> says whether its context was canceled.  The table names
  the call that was entered last under an id.
\<close>

datatype call_state = Waiting | Entered | Ended

record running_call =
  rc_id :: "json option"
  rc_params :: "json option"
  rc_state :: call_state
  rc_canceled :: bool

record mcp_server =
  ms_calls :: "running_call list"
  ms_table :: "json \<Rightarrow> nat option"
  ms_out :: "(json \<times> rpc_result) list"

definition new_server :: mcp_server where
  "new_server = \<lparr>ms_calls = [], ms_table = (\<lambda>_. None), ms_out = []\<rparr>"

definition write_response :: "json \<Rightarrow> rpc_result \<Rightarrow> mcp_server \<Rightarrow> mcp_server" where
  "write_response i r s = s\<lparr>ms_out := ms_out s @ [(i, r)]\<rparr>"

definition start_call :: "rpc_request \<Rightarrow> mcp_server \<Rightarrow> mcp_server" where
  "start_call r s = s\<lparr>ms_calls := ms_calls s @
     [\<lparr>rc_id = rr_id r, rc_params = rr_params r, rc_state = Waiting, rc_canceled = False\<rparr>]\<rparr>"

definition canceled_id :: "json option \<Rightarrow> json option" where
  "canceled_id params = Option.bind (Option.bind params (decode_struct
     (\<lambda>k v x. if k = ''requestId'' then Some (Some v) else Some x) None)) id"

definition cancel_call :: "json option \<Rightarrow> mcp_server \<Rightarrow> mcp_server" where
  "cancel_call params s = (case Option.bind (canceled_id params) (ms_table s) of None \<Rightarrow> s
     | Some k \<Rightarrow> s\<lparr>ms_calls := (ms_calls s)[k := (ms_calls s ! k)\<lparr>rc_canceled := True\<rparr>]\<rparr>)"

text \<open>\<open>serveMCP\<close> and \<open>handle\<close> for one line of the input; \<open>None\<close> is a line that is not a request.\<close>

definition read_line :: "'w tool list \<Rightarrow> rpc_request option \<Rightarrow> mcp_server \<Rightarrow> mcp_server" where
  "read_line ts line s = (case line of None \<Rightarrow> write_response JNull (Inl (- 32700, ''parse error'')) s
     | Some r \<Rightarrow> if rr_method r = ''tools/call'' then start_call r s
         else let s' = (if rr_method r = ''notifications/cancelled'' then cancel_call (rr_params r) s else s) in
           (case rr_id r of None \<Rightarrow> s' | Some i \<Rightarrow> write_response i (rpc_answer ts r) s'))"

definition blocked :: "mcp_server \<Rightarrow> bool" where
  "blocked s \<longleftrightarrow> (\<exists>k \<in> set (ms_calls s). rc_id k = None \<and> rc_state k \<noteq> Ended)"

definition set_call :: "nat \<Rightarrow> call_state \<Rightarrow> mcp_server \<Rightarrow> mcp_server" where
  "set_call k st s = s\<lparr>ms_calls := (ms_calls s)[k := (ms_calls s ! k)\<lparr>rc_state := st\<rparr>]\<rparr>"

definition enter_table :: "json option \<Rightarrow> nat option \<Rightarrow> mcp_server \<Rightarrow> mcp_server" where
  "enter_table i k s = (case i of None \<Rightarrow> s | Some i \<Rightarrow> s\<lparr>ms_table := (ms_table s)(i := k)\<rparr>)"

definition answer_call :: "json option \<Rightarrow> rpc_result \<Rightarrow> mcp_server \<Rightarrow> mcp_server" where
  "answer_call i r s = (case i of None \<Rightarrow> s | Some i \<Rightarrow> write_response i r s)"

text \<open>The tool a call names, if its parameters are in order.\<close>

definition call_known :: "'w tool list \<Rightarrow> json option \<Rightarrow> bool" where
  "call_known ts params \<longleftrightarrow> (case call_params params of None \<Rightarrow> False
     | Some (name, args) \<Rightarrow> \<exists>t \<in> set ts. tl_name t = name)"

text \<open>
  The server beside the world, after the lines it has read.  A call is carried out in one step, in the
  context \<open>hosts\<close> gives to a call that is canceled or not.
\<close>

inductive mcp_runs :: "(client_error \<Rightarrow> string) \<Rightarrow> 'w tool list \<Rightarrow> (bool \<Rightarrow> 'w host) \<Rightarrow> client \<Rightarrow> nat \<Rightarrow> 'w \<Rightarrow>
    rpc_request option list \<Rightarrow> mcp_server \<Rightarrow> 'w \<Rightarrow> bool"
  for render :: "client_error \<Rightarrow> string" and ts :: "'w tool list" and hosts :: "bool \<Rightarrow> 'w host" and c :: client
    and n :: nat and w0 :: 'w where
  start: "mcp_runs render ts hosts c n w0 [] new_server w0"
| line: "mcp_runs render ts hosts c n w0 ls s w \<Longrightarrow> \<not> blocked s \<Longrightarrow>
    mcp_runs render ts hosts c n w0 (ls @ [l]) (read_line ts l s) w"
| enter: "mcp_runs render ts hosts c n w0 ls s w \<Longrightarrow> k < length (ms_calls s) \<Longrightarrow> rc_state (ms_calls s ! k) = Waiting \<Longrightarrow>
    call_known ts (rc_params (ms_calls s ! k)) \<Longrightarrow>
    mcp_runs render ts hosts c n w0 ls (enter_table (rc_id (ms_calls s ! k)) (Some k) (set_call k Entered s)) w"
| refuse: "mcp_runs render ts hosts c n w0 ls s w \<Longrightarrow> k < length (ms_calls s) \<Longrightarrow> rc_state (ms_calls s ! k) = Waiting \<Longrightarrow>
    \<not> call_known ts (rc_params (ms_calls s ! k)) \<Longrightarrow>
    call_tool render ts (hosts False) c n (rc_params (ms_calls s ! k)) w = Some (r, w) \<Longrightarrow>
    mcp_runs render ts hosts c n w0 ls (answer_call (rc_id (ms_calls s ! k)) r (set_call k Ended s)) w"
| finish: "mcp_runs render ts hosts c n w0 ls s w \<Longrightarrow> k < length (ms_calls s) \<Longrightarrow> rc_state (ms_calls s ! k) = Entered \<Longrightarrow>
    call_tool render ts (hosts (rc_canceled (ms_calls s ! k))) c n (rc_params (ms_calls s ! k)) w = Some (r, w') \<Longrightarrow>
    mcp_runs render ts hosts c n w0 ls (answer_call (rc_id (ms_calls s ! k)) r
      (enter_table (rc_id (ms_calls s ! k)) None (set_call k Ended s))) w'"

end
