(* ===== verification/CommandLine.thy ===== *)
theory CommandLine
  imports Mcp
begin

text \<open>
  The command line (\<open>cmd/gmessages/main.go\<close>): flags that may stand between positional arguments, the
  commands, and what each prints.  \<open>flag.FlagSet\<close> is modelled as far as it is used; the values it has
  been given are the list of names and texts in the order they were met, and the last one counts.
\<close>

section \<open>Flags\<close>

datatype flag_kind = Text_flag | Bool_flag | Int_flag | Time_flag

datatype flag_error = Help_asked | Bad_flag string

type_synonym flag_spec = "(string \<times> flag_kind) list"

definition bool_texts :: "(string \<times> bool) list" where  \<comment> \<open>\<open>strconv.ParseBool\<close>\<close>
  "bool_texts = map (\<lambda>t. (t, True)) [''1'', ''t'', ''T'', ''true'', ''TRUE'', ''True'']
     @ map (\<lambda>t. (t, False)) [''0'', ''f'', ''F'', ''false'', ''FALSE'', ''False'']"

definition flag_accepts :: "'w host \<Rightarrow> flag_kind \<Rightarrow> string \<Rightarrow> bool" where
  "flag_accepts H kind v = (case kind of Text_flag \<Rightarrow> True
     | Bool_flag \<Rightarrow> map_of bool_texts v \<noteq> None
     | Int_flag \<Rightarrow> atoi v \<noteq> None
     | Time_flag \<Rightarrow> ho_duration H v \<noteq> None)"

text \<open>The name and value of an argument with its dashes taken off.\<close>

definition cut_value :: "string \<Rightarrow> string \<times> string option" where
  "cut_value s = (let name = takeWhile (\<lambda>c. c \<noteq> CHR ''='') s in
     (name, if length name < length s then Some (drop (length name + 1) s) else None))"

definition is_flag :: "string \<Rightarrow> bool" where
  "is_flag s \<longleftrightarrow> 2 \<le> length s \<and> hd s = CHR ''-''"

definition flag_name :: "string \<Rightarrow> string" where
  "flag_name s = (if s ! 1 = CHR ''-'' then drop 2 s else drop 1 s)"

text \<open>\<open>FlagSet.Parse\<close>: up to the first argument that is not a flag, or just after \<open>--\<close>.\<close>

fun flag_parse :: "'w host \<Rightarrow> flag_spec \<Rightarrow> string list \<Rightarrow> (string \<times> string) list \<Rightarrow>
    flag_error + (string \<times> string) list \<times> string list" where
  "flag_parse H spec [] vals = Inr (vals, [])"
| "flag_parse H spec (s # args) vals =
    (if \<not> is_flag s then Inr (vals, s # args)
     else if s = ''--'' then Inr (vals, args)
     else (let body = flag_name s in
       if body = [] \<or> hd body = CHR ''-'' \<or> hd body = CHR ''='' then Inl (Bad_flag ''bad flag syntax'')
       else (case cut_value body of (name, given) \<Rightarrow> (case map_of spec name of
           None \<Rightarrow> Inl (if name = ''help'' \<or> name = ''h'' then Help_asked else Bad_flag ''flag provided but not defined'')
         | Some kind \<Rightarrow>
             if kind = Bool_flag then
               (let v = (case given of None \<Rightarrow> ''true'' | Some v \<Rightarrow> v) in
                if flag_accepts H kind v then flag_parse H spec args (vals @ [(name, v)])
                else Inl (Bad_flag ''invalid boolean value''))
             else (case given of
                 Some v \<Rightarrow> if flag_accepts H kind v then flag_parse H spec args (vals @ [(name, v)])
                   else Inl (Bad_flag ''invalid value'')
               | None \<Rightarrow> (case args of [] \<Rightarrow> Inl (Bad_flag ''flag needs an argument'')
                   | v # rest \<Rightarrow> if flag_accepts H kind v then flag_parse H spec rest (vals @ [(name, v)])
                       else Inl (Bad_flag ''invalid value'')))))))"

lemma flag_parse_shorter: "flag_parse H spec args vals = Inr (vals', rest) \<Longrightarrow> length rest \<le> length args"
proof (induction H spec args vals arbitrary: vals' rest rule: flag_parse.induct)
  case (2 H spec s args vals)
  then show ?case
    by (auto simp: Let_def le_SucI split: if_splits prod.splits option.splits list.splits)
qed simp

text \<open>\<open>parse\<close>: an argument that stops the flags is positional, and the flags go on behind it.\<close>

function parse_args :: "'w host \<Rightarrow> flag_spec \<Rightarrow> string list \<Rightarrow> (string \<times> string) list \<Rightarrow>
    flag_error + (string \<times> string) list \<times> string list" where
  "parse_args H spec args vals = (case flag_parse H spec args vals of
       Inl e \<Rightarrow> Inl e
     | Inr (vals', []) \<Rightarrow> Inr (vals', [])
     | Inr (vals', p # rest) \<Rightarrow> map_sum id (\<lambda>(vs, ps). (vs, p # ps)) (parse_args H spec rest vals'))"
  by pat_completeness auto
termination
  by (relation "measure (\<lambda>(H, spec, args, vals). length args)") (auto dest!: flag_parse_shorter)

declare parse_args.simps [simp del]

text \<open>\<open>fs.String\<close>, \<open>fs.Bool\<close>, \<open>fs.Int\<close>, \<open>fs.Duration\<close>: the last value, or the default\<close>

definition text_value :: "(string \<times> string) list \<Rightarrow> string \<Rightarrow> string \<Rightarrow> string" where
  "text_value vals name def = (case map_of (rev vals) name of None \<Rightarrow> def | Some v \<Rightarrow> v)"

definition bool_value :: "(string \<times> string) list \<Rightarrow> string \<Rightarrow> bool" where
  "bool_value vals name = (case map_of (rev vals) name of None \<Rightarrow> False | Some v \<Rightarrow> map_of bool_texts v = Some True)"

definition int_value :: "(string \<times> string) list \<Rightarrow> string \<Rightarrow> int \<Rightarrow> int" where
  "int_value vals name def = (case Option.bind (map_of (rev vals) name) atoi of None \<Rightarrow> def | Some n \<Rightarrow> n)"

definition time_value :: "'w host \<Rightarrow> (string \<times> string) list \<Rightarrow> string \<Rightarrow> time \<Rightarrow> time" where
  "time_value H vals name def = (case Option.bind (map_of (rev vals) name) (ho_duration H) of None \<Rightarrow> def | Some d \<Rightarrow> sint d)"

definition global_flags :: flag_spec where
  "global_flags = [(''profile'', Text_flag), (''url'', Text_flag), (''token-file'', Text_flag), (''json'', Bool_flag)]"

section \<open>Commands\<close>

datatype command =
    Status_command
  | Conversations_command string int
  | Messages_command string int string
  | Search_command search_asked
  | Wait_command search_asked time
  | Contacts_command string bool
  | Send_command string string string bool       \<comment> \<open>conversation, numbers, text or \<open>-\<close>, wait\<close>
  | Outbox_command string
  | Attachment_command string string
  | Profiles_command
  | Mcp_command bool
  | Help_command

definition search_flags :: flag_spec where
  "search_flags = [(''query'', Text_flag), (''since'', Text_flag), (''direction'', Text_flag), (''conversation'', Text_flag)]"

definition search_of :: "(string \<times> string) list \<Rightarrow> int \<Rightarrow> search_asked" where
  "search_of vals limit = \<lparr>so_query = text_value vals ''query'' [], so_since = text_value vals ''since'' [],
     so_direction = text_value vals ''direction'' [], so_conversation = text_value vals ''conversation'' [],
     so_limit = limit\<rparr>"

definition command_flags :: "string \<Rightarrow> flag_spec option" where
  "command_flags name = map_of [(''status'', []),
     (''conversations'', [(''query'', Text_flag), (''limit'', Int_flag)]),
     (''messages'', [(''limit'', Int_flag), (''before'', Text_flag)]),
     (''search'', (''limit'', Int_flag) # search_flags),
     (''wait'', (''timeout'', Time_flag) # search_flags),
     (''contacts'', [(''query'', Text_flag), (''refresh'', Bool_flag)]),
     (''send'', [(''conversation'', Text_flag), (''to'', Text_flag), (''no-wait'', Bool_flag)]),
     (''outbox'', []), (''attachment'', [(''o'', Text_flag)]), (''profiles'', []),
     (''mcp'', [(''allow-send'', Bool_flag)])] name"

definition one_argument :: "string \<Rightarrow> string list \<Rightarrow> (string \<Rightarrow> command) \<Rightarrow> flag_error + command" where
  "one_argument complaint ps f = (case ps of [p] \<Rightarrow> Inr (f p) | _ \<Rightarrow> Inl (Bad_flag complaint))"

definition build_command :: "'w host \<Rightarrow> string \<Rightarrow> (string \<times> string) list \<Rightarrow> string list \<Rightarrow> flag_error + command" where
  "build_command H name vals ps =
    (if name = ''status'' then Inr Status_command
     else if name = ''conversations'' then Inr (Conversations_command (text_value vals ''query'' []) (int_value vals ''limit'' 20))
     else if name = ''messages'' then one_argument ''messages takes one conversation'' ps
       (\<lambda>p. Messages_command p (int_value vals ''limit'' 20) (text_value vals ''before'' []))
     else if name = ''search'' then Inr (Search_command (search_of vals (int_value vals ''limit'' 20)))
     else if name = ''wait'' then Inr (Wait_command (search_of vals 0) (time_value H vals ''timeout'' (2 * minute)))
     else if name = ''contacts'' then Inr (Contacts_command (text_value vals ''query'' []) (bool_value vals ''refresh''))
     else if name = ''send'' then one_argument ''send takes the message text, or - to read it from stdin'' ps
       (\<lambda>p. Send_command (text_value vals ''conversation'' []) (text_value vals ''to'' []) p (\<not> bool_value vals ''no-wait''))
     else if name = ''outbox'' then one_argument ''outbox takes one idempotency key'' ps Outbox_command
     else if name = ''attachment'' then one_argument ''attachment takes one attachment ID'' ps
       (\<lambda>p. Attachment_command p (text_value vals ''o'' []))
     else if name = ''profiles'' then Inr Profiles_command
     else Inr (Mcp_command (bool_value vals ''allow-send'')))"

text \<open>The arguments of the process: the global flags with their values and the command.\<close>

definition parse_command :: "'w host \<Rightarrow> string list \<Rightarrow> flag_error + (string \<times> string) list \<times> command" where
  "parse_command H args = (case flag_parse H global_flags args [] of Inl e \<Rightarrow> Inl e
     | Inr (vals, []) \<Rightarrow> Inl (Bad_flag ''missing command'')
     | Inr (vals, name # rest) \<Rightarrow>
         if name = ''help'' then Inr (vals, Help_command)
         else (case command_flags name of None \<Rightarrow> Inl (Bad_flag ''unknown command; run gmessages help'')
           | Some spec \<Rightarrow> (case parse_args H (global_flags @ spec) rest vals of Inl e \<Rightarrow> Inl e
               | Inr (vals', ps) \<Rightarrow> map_sum id (\<lambda>cmd. (vals', cmd)) (build_command H name vals' ps))))"

section \<open>Running a command\<close>

datatype cli_output =
    Printed json string            \<comment> \<open>the value for \<open>--json\<close>, and the text\<close>
  | Written string string          \<comment> \<open>bytes to a file, or to the standard cli_output for \<open>-\<close> and no name\<close>
  | Usage
  | Serving bool

definition enc_view :: "shown_message \<Rightarrow> json" where
  "enc_view v = (case enc_message (mv_message v) of
     JObj ms \<Rightarrow> JObj (ms @ jstr ''conversation_name'' (mv_conversation v) @ jstr ''sender_name'' (mv_sender v)) | j \<Rightarrow> j)"

definition enc_settings :: "settings \<Rightarrow> json" where
  "enc_settings s = JObj (jstr ''url'' (st_url s) @ jstr ''token_file'' (st_token_file s) @ jstr ''token_pass_entry'' (st_pass s))"

definition send_of :: "string \<Rightarrow> string \<Rightarrow> string \<Rightarrow> string \<Rightarrow> bool \<Rightarrow> send_options" where
  "send_of input conversation numbers text waits = \<lparr>se_conversation = conversation,
     se_to = (if numbers \<noteq> [] then split_on (CHR '','') numbers else []),
     se_text = (if text = ''-'' then trim_right (CHR 0x0A) (take 16001 input) else text), se_wait = waits\<rparr>"

text \<open>\<open>show\<close> prints a value of the status, \<open>input\<close> is what the standard input holds.\<close>

definition print_list :: "('a \<Rightarrow> json) \<Rightarrow> ('a \<Rightarrow> string) \<Rightarrow> 'a list \<Rightarrow> cli_output" where
  "print_list enc f xs = Printed (JArr (map enc xs)) (join_lines f xs)"

definition done_now :: "('w, 'a) cli \<Rightarrow> ('a \<Rightarrow> cli_output) \<Rightarrow> 'w \<Rightarrow> ((client_error + cli_output) \<times> 'w) option" where
  "done_now m f w = Some (after m (\<lambda>x. give (f x)) w)"

fun run_client :: "'w host \<Rightarrow> (json \<Rightarrow> string) \<Rightarrow> string \<Rightarrow> nat \<Rightarrow> client \<Rightarrow> command \<Rightarrow> 'w \<Rightarrow>
    ((client_error + cli_output) \<times> 'w) option" where
  "run_client H show input n c Status_command =
     done_now (client_status H c None) (\<lambda>s. Printed (JObj s) (format_status show s))"
| "run_client H show input n c (Conversations_command query limit) =
     done_now (load_conversations H c None) (\<lambda>cs. print_list enc_conversation (format_conversation H)
       (filter_conversations (ho_go H) cs query (nat (cmp_limit limit 20))))"
| "run_client H show input n c (Messages_command f limit before) =
     done_now (chat_messages H c f limit before) (\<lambda>(views, next).
       Printed (JObj [(''messages'', JArr (map enc_view views)), (''next_before'', JStr next)])
         (format_chat_messages H views next))"
| "run_client H show input n c (Search_command q) =
     done_now (cli_search H c None q) (print_list enc_view (format_message H True))"
| "run_client H show input n c (Wait_command q timeout) = (\<lambda>w. map_option (\<lambda>(r, w').
     (map_sum id (\<lambda>v. Printed (enc_view v) (format_message H True v)) r, w')) (cli_wait H c q timeout n w))"
| "run_client H show input n c (Contacts_command query refresh) =
     done_now (client_contacts H c None refresh) (\<lambda>book.
       print_list enc_contact format_contact (filter_contacts (ho_go H) book query))"
| "run_client H show input n c (Send_command conversation numbers text waits) =
     done_now (cli_send H c (send_of input conversation numbers text waits))
       (\<lambda>ob. Printed (enc_outbox ob) (format_outbox ob))"
| "run_client H show input n c (Outbox_command key) =
     done_now (client_outbox H c None key) (\<lambda>ob. Printed (enc_outbox ob) (format_outbox ob))"
| "run_client H show input n c (Attachment_command i path) =
     done_now (client_attachment H c None i) (\<lambda>bytes. Written path bytes)"
| "run_client H show input n c (Mcp_command allow) = (\<lambda>w. Some (Inr (Serving allow), w))"
| "run_client H show input n c _ = (\<lambda>w. Some (Inr Usage, w))"

text \<open>The client of the global flags; the profile's default is an environment variable.\<close>

definition global_client :: "machine \<Rightarrow> (string \<Rightarrow> (string \<times> string \<times> string) option) \<Rightarrow> (string \<times> string) list \<Rightarrow>
    client_error + client" where
  "global_client M parse vals = (case resolve_settings M
       (text_value vals ''profile'' (mc_env M ''GOOGLE_MESSAGES_BRIDGE_PROFILE''))
       (no_settings\<lparr>st_url := text_value vals ''url'' [], st_token_file := text_value vals ''token-file'' []\<rparr>) of
     Inl e \<Rightarrow> Inl e | Inr s \<Rightarrow> new_client M parse s)"

datatype run_result = Flag_failed flag_error | Failed client_error | Done bool cli_output  \<comment> \<open>whether \<open>--json\<close> was given\<close>

definition run_command :: "machine \<Rightarrow> (string \<Rightarrow> (string \<times> string \<times> string) option) \<Rightarrow> 'w host \<Rightarrow> (json \<Rightarrow> string) \<Rightarrow>
    string \<Rightarrow> nat \<Rightarrow> string list \<Rightarrow> 'w \<Rightarrow> (run_result \<times> 'w) option" where
  "run_command M parse H show input n args w = (case parse_command H args of
       Inl e \<Rightarrow> Some (Flag_failed e, w)
     | Inr (vals, Help_command) \<Rightarrow> Some (Done False Usage, w)
     | Inr (vals, Profiles_command) \<Rightarrow> (case client_profiles M of Inl e \<Rightarrow> Some (Failed e, w)
         | Inr ps \<Rightarrow> Some (Done (bool_value vals ''json'') (Printed (JObj (map (\<lambda>(k, s). (k, enc_settings s)) ps))
             (join_lines (\<lambda>(k, s). k @ ''  '' @ st_url s) (sort_key fst ps))), w))
     | Inr (vals, cmd) \<Rightarrow> (case global_client M parse vals of Inl e \<Rightarrow> Some (Failed e, w)
         | Inr c \<Rightarrow> map_option (\<lambda>(r, w'). (case r of Inl e \<Rightarrow> Failed e | Inr out \<Rightarrow> Done (bool_value vals ''json'') out, w'))
             (run_client H show input n c cmd w)))"

text \<open>The exit status of the process.\<close>

fun exit_code :: "run_result \<Rightarrow> nat" where
  "exit_code (Flag_failed Help_asked) = 0"
| "exit_code (Flag_failed (Bad_flag m)) = 1"
| "exit_code (Failed e) = (if e = Timed_out then 2 else 1)"
| "exit_code (Done json out) = 0"

end
