(* ===== verification/ClientProperties.thy ===== *)
theory ClientProperties
  imports CommandLine
begin

text \<open>
  The client and its commands: what settings win, which record a request names, how long an operation
  is waited for, which message ends a wait, and what a time given in days means.
\<close>

section \<open>Settings\<close>

lemma add_layer_url: "st_url (fst (fold add_layer ls acc)) =
    (if st_url (fst acc) \<noteq> [] then st_url (fst acc) else cmp_or (map st_url ls))"
proof (induction ls arbitrary: acc)
  case (Cons l ls)
  show ?case
    by (cases acc) (simp add: Cons.IH, auto simp: add_layer_def cmp_or_def Let_def)
qed (simp add: cmp_or_def)

definition token_parts :: "settings \<Rightarrow> string \<times> string \<times> string" where
  "token_parts s = (st_token s, st_token_file s, st_pass s)"

lemma add_layer_token: "token_parts (fst (fold add_layer ls acc)) =
    (if snd acc then token_parts (fst acc)
     else case List.find names_token ls of None \<Rightarrow> token_parts (fst acc) | Some l \<Rightarrow> token_parts l)"
proof (induction ls arbitrary: acc)
  case (Cons l ls)
  show ?case
    by (cases acc) (simp add: Cons.IH, auto simp: add_layer_def token_parts_def Let_def split: option.splits)
qed simp


section \<open>Which record a request names\<close>

text \<open>\<open>url.PathUnescape\<close>, and the segments the server matches: those of the escaped path, unescaped.\<close>

definition hex_nibble :: "char \<Rightarrow> nat option" where
  "hex_nibble c = (if ascii_digit c then Some (of_char c - 48)
     else if CHR ''A'' \<le> c \<and> c \<le> CHR ''F'' then Some (of_char c - 55)
     else if CHR ''a'' \<le> c \<and> c \<le> CHR ''f'' then Some (of_char c - 87) else None)"

fun unescape :: "string \<Rightarrow> string option" where
  "unescape [] = Some []"
| "unescape (c # cs) = (if c \<noteq> CHR ''%'' then map_option ((#) c) (unescape cs)
     else (case cs of x # y # rest \<Rightarrow> (case (hex_nibble x, hex_nibble y) of
         (Some a, Some b) \<Rightarrow> map_option ((#) (char_of (16 * a + b))) (unescape rest) | _ \<Rightarrow> None)
       | _ \<Rightarrow> None))"

definition path_segments :: "string \<Rightarrow> string option list" where
  "path_segments path = map unescape (split_on (CHR ''/'') (drop 1 path))"

lemma below_16: "n < 16 \<Longrightarrow> n \<in> {0, 1, 2, 3, 4, 5, 6, 7, 8, 9, 10, 11, 12, 13, 14, 15 :: nat}"
  unfolding insert_iff empty_iff by presburger

lemma hex_nibble_digit: "n < 16 \<Longrightarrow> hex_nibble (upper_hex n) = Some n"
proof -
  assume "n < 16"
  then have "n \<in> {0, 1, 2, 3, 4, 5, 6, 7, 8, 9, 10, 11, 12, 13, 14, 15}" by (rule below_16)
  then show ?thesis by (auto simp: hex_nibble_def upper_hex_def ascii_digit_def less_eq_char_def)
qed

lemma unescape_escape_char:
  assumes "\<not> safe (CHR ''%'')"
  shows "unescape (escape_char safe c @ s) = map_option ((#) c) (unescape s)"
proof (cases "safe c")
  case True
  with assms have "c \<noteq> CHR ''%''" by auto
  with True show ?thesis by (simp add: escape_char_def)
next
  case False
  have n: "(of_char c :: nat) < 256" by simp
  then have "hex_nibble (upper_hex (of_char c div 16)) = Some (of_char c div 16)"
    "hex_nibble (upper_hex (of_char c mod 16)) = Some (of_char c mod 16)"
    by (intro hex_nibble_digit, linarith)+
  moreover have "char_of (16 * (of_char c div 16) + of_char c mod 16 :: nat) = c"
    by simp
  ultimately show ?thesis using False by (simp add: escape_char_def)
qed

lemma unescape_escape: "\<not> safe (CHR ''%'') \<Longrightarrow> unescape (escape safe s) = Some s"
proof (induction s)
  case (Cons c s)
  then show ?case using unescape_escape_char [of safe c "escape safe s"] by (simp add: escape_def)
qed (simp add: escape_def)

lemma percent_unsafe: "\<not> segment_safe (CHR ''%'')" "\<not> path_safe (CHR ''%'')"
  by (simp_all add: segment_safe_def path_safe_def unreserved_def ascii_digit_def less_eq_char_def)

lemma upper_hex_safe: "n < 16 \<Longrightarrow> unreserved (upper_hex n)"
proof -
  assume "n < 16"
  then have "n \<in> {0, 1, 2, 3, 4, 5, 6, 7, 8, 9, 10, 11, 12, 13, 14, 15}" by (rule below_16)
  then show ?thesis by (auto simp: upper_hex_def unreserved_def ascii_digit_def less_eq_char_def)
qed

lemma slash_unsafe: "\<not> unreserved (CHR ''/'')" "\<not> segment_safe (CHR ''/'')" "path_safe (CHR ''/'')"
  by (simp_all add: segment_safe_def path_safe_def unreserved_def ascii_digit_def less_eq_char_def)

lemma escape_char_slash: "CHR ''/'' \<in> set (escape_char safe c) \<longleftrightarrow> c = CHR ''/'' \<and> safe c"
proof -
  have n: "(of_char c :: nat) < 256" by simp
  then have "of_char c div 16 < (16::nat)" "of_char c mod 16 < (16::nat)"
    using less_mult_imp_div_less [of "of_char c" 16 16] by simp_all
  then have "unreserved (upper_hex (of_char c div 16))" "unreserved (upper_hex (of_char c mod 16))"
    by (simp_all only: upper_hex_safe)
  then have "upper_hex (of_char c div 16) \<noteq> CHR ''/''" "upper_hex (of_char c mod 16) \<noteq> CHR ''/''"
    using slash_unsafe(1) by metis+
  then show ?thesis by (auto simp: escape_char_def)
qed

lemma path_escape_slash: "CHR ''/'' \<notin> set (path_escape s)"
  using slash_unsafe(2) by (auto simp: path_escape_def escape_def escape_char_slash)

lemma escape_no_slash: "CHR ''/'' \<notin> set s \<Longrightarrow> CHR ''/'' \<notin> set (escape safe s)"
  by (auto simp: escape_def escape_char_slash)

lemma escape_append: "escape safe (s @ t) = escape safe s @ escape safe t"
  by (simp add: escape_def)

lemma escape_char_fixed: "\<not> safe (CHR ''%'') \<Longrightarrow> escape_char safe c = [c] \<longleftrightarrow> safe c"
  by (simp add: escape_char_def)

lemma escape_grows: "length s \<le> length (escape safe s)"
proof (induction s)
  case (Cons c s)
  have "1 \<le> length (escape_char safe c)" by (simp add: escape_char_def)
  with Cons show ?case by (simp add: escape_def)
qed (simp add: escape_def)

lemma escape_fixed: "escape safe s = s \<longleftrightarrow> list_all safe s"
proof (induction s)
  case (Cons c s)
  show ?case
  proof (cases "safe c")
    case True
    with Cons show ?thesis by (simp add: escape_def escape_char_def)
  next
    case False
    then have "length (escape safe (c # s)) \<ge> length s + 3"
      using escape_grows [of s safe] by (simp add: escape_def escape_char_def)
    then have "escape safe (c # s) \<noteq> c # s" by (metis Suc_eq_plus1 add_le_cancel_left length_Cons numeral_le_one_iff semiring_norm(70))
    with False show ?thesis by simp
  qed
qed (simp add: escape_def)

lemma split_on_append: "x \<notin> set s \<Longrightarrow> split_on x (s @ x # t) = s # split_on x t"
  by (induction s) (auto simp: split_on_def)

lemma split_on_single: "x \<notin> set s \<Longrightarrow> split_on x s = [s]"
  by (induction s) (auto simp: split_on_def)

lemma two_segments:
  assumes "x \<notin> set a" and "x \<notin> set b"
  shows "split_on x (a @ x # b @ x # s) = [a, b] @ split_on x s"
  using split_on_append [OF assms(1), of "b @ x # s"] split_on_append [OF assms(2), of s] by simp

lemma segment_of_escape:
  "unescape (escape path_safe (path_escape i)) = Some (path_escape i)"
  using percent_unsafe(2) by (rule unescape_escape)

lemma escaped_id_slash: "CHR ''/'' \<notin> set (escape path_safe (path_escape i))"
  by (intro escape_no_slash path_escape_slash)


section \<open>Times given in days\<close>

text \<open>A time given in days is that many days back exactly up to 106751 days; a longer one
  is accepted too, though the product wraps around 64 bits and names another time.\<close>

theorem days_wrap_around:
  assumes "ho_duration H (decimal n @ ''h'') = Some (of_nat n * 3600000000000)"
  shows "(\<exists>u. parse_since H (decimal n @ ''d'') t = Inr u) \<and>
    (parse_since H (decimal n @ ''d'') t = Inr (t - int n * (86400 * second)) \<longleftrightarrow> n \<le> 106751)"
proof -
  have "days_back H (decimal n @ ''d'') = Some (of_nat n * 3600000000000)"
    using assms by (simp add: days_back_def cut_suffix_def)
  then have since: "parse_since H (decimal n @ ''d'') t = Inr (t + sint (- 24 * (of_nat n * 3600000000000) :: i64))"
    by (simp add: parse_since_def)
  have "- 24 * (of_nat n * 3600000000000) = (word_of_int (- (int n * 86400000000000)) :: i64)"
    by simp
  then have "sint (- 24 * (of_nat n * 3600000000000) :: i64) = signed_take_bit 63 (- (int n * 86400000000000))"
    by (simp only: sint_sbintrunc' len_bit0 len_num1) simp
  moreover have "signed_take_bit 63 (- (int n * 86400000000000)) = - (int n * 86400000000000) \<longleftrightarrow> n \<le> 106751"
    by (subst signed_take_bit_int_eq_self_iff) auto
  ultimately show ?thesis by (simp add: since second_def)
qed

section \<open>Awaiting an operation\<close>

text \<open>A clock that no call turns back, and a pause that is as long as asked for unless the context ends.\<close>

definition clock_ok :: "'w host \<Rightarrow> bool" where
  "clock_ok H \<longleftrightarrow> (\<forall>until rq w. ho_now H w \<le> ho_now H (snd (ho_send H until rq w))) \<and>
     (\<forall>t d w w'. ho_pause H (Some t) d w = (None, w') \<longrightarrow> ho_now H w + d \<le> ho_now H w' \<and> ho_now H w' \<le> t)"

lemma client_do_clock: "clock_ok H \<Longrightarrow> ho_now H w \<le> ho_now H (snd (client_do H c until verb path q body key zero read w))"
  by (auto simp: client_do_def clock_ok_def split: prod.splits sum.splits) (metis snd_conv)+

lemma await_outbox_ends:
  assumes "clock_ok H" and "0 < n" and "t - ho_now H w < int n * second"
  shows "\<exists>ob err w'. await_outbox H c (Some t) key n w = Some ((ob, err), w') \<and> (err = None \<longrightarrow> outbox_settled (o_state ob))"
  using assms(2,3)
proof (induction n arbitrary: w)
  case (Suc n)
  obtain r w1 where asked: "client_outbox H c (Some t) key w = (r, w1)" by force
  then have w1: "ho_now H w \<le> ho_now H w1"
    using client_do_clock [OF assms(1), of w] by (metis client_outbox_def snd_conv)
  show ?case
  proof (cases r)
    case (Inr ob)
    obtain p w2 where pause: "ho_pause H (Some t) second w1 = (p, w2)" by force
    show ?thesis
    proof (cases "outbox_settled (o_state ob) \<or> p \<noteq> None")
      case True
      with asked Inr pause show ?thesis by (cases p) auto
    next
      case False
      with pause assms(1) have w2: "ho_now H w1 + second \<le> ho_now H w2" "ho_now H w2 \<le> t"
        by (auto simp: clock_ok_def)
      with Suc.prems(2) w1 have bound: "t - ho_now H w2 < int n * second" by (simp add: algebra_simps)
      with w2(2) have "0 < n" by (cases n) auto
      from Suc.IH [OF this bound] False asked Inr pause show ?thesis by auto
    qed
  qed (use asked in simp)
qed simp


section \<open>Waiting for a message\<close>

definition first_wanted :: "go_library \<Rightarrow> search_asked \<Rightarrow> time \<Rightarrow> client_event list \<Rightarrow> message option" where
  "first_wanted L q since es = (case List.find (\<lambda>e. wanted_event L q since e \<noteq> None) es of
     None \<Rightarrow> None | Some e \<Rightarrow> wanted_event L q since e)"

lemma first_wanted_simps [simp]:
  "first_wanted L q since [] = None"
  "first_wanted L q since (e # es) = (case wanted_event L q since e of None \<Rightarrow> first_wanted L q since es | Some m \<Rightarrow> Some m)"
  by (auto simp: first_wanted_def split: option.split)

lemma first_wanted_append:
  "first_wanted L q since (es @ fs) = (case first_wanted L q since es of None \<Rightarrow> first_wanted L q since fs | Some m \<Rightarrow> Some m)"
  by (induction es) (auto split: option.split)

lemma refreshed_run: "\<exists>cs' w'. refreshed H c until i cs w = (Inr cs', w')"
  by (auto simp: refreshed_def after_def attempt_def split: prod.split sum.split)

lemma scan_events_run:
  assumes "so_conversation q = []"
  shows "\<exists>r w'. scan_events H c until q since es cs w = (Inr r, w') \<and>
    (case first_wanted (ho_go H) q since es of None \<Rightarrow> \<exists>cs'. r = Inl cs' | Some m \<Rightarrow> \<exists>v. r = Inr v \<and> mv_message v = m)"
proof (induction es arbitrary: cs w)
  case (Cons e es)
  show ?case
  proof (cases "wanted_event (ho_go H) q since e")
    case None
    with Cons show ?thesis by simp
  next
    case (Some m)
    obtain cs' w' where "refreshed H c until (m_conversation_id m) cs w = (Inr cs', w')"
      using refreshed_run [of H c until "m_conversation_id m" cs w] by blast
    with Some assms show ?thesis
      by (simp add: after_def in_chat_def chat_matches_def view_message_def Let_def)
  qed
qed simp

text \<open>The pages the bridge answers for a log of events in ascending order.\<close>

definition later_events :: "client_event list \<Rightarrow> u64 \<Rightarrow> client_event list" where
  "later_events log n = filter (\<lambda>e. n < ce_id e) log"

definition log_page :: "client_event list \<Rightarrow> u64 \<Rightarrow> client_event list \<times> u64" where
  "log_page log n = (let es = take 1000 (later_events log n) in (es, if es = [] then n else ce_id (last es)))"

lemma later_events_page:
  assumes "sorted_wrt (\<lambda>a b. ce_id a < ce_id b) log" and "take k (later_events log n) \<noteq> []"
  shows "later_events log (ce_id (last (take k (later_events log n)))) = drop k (later_events log n)"
proof -
  let ?F = "later_events log n"
  let ?l = "last (take k ?F)"
  have sorted: "sorted_wrt (\<lambda>a b. ce_id a < ce_id b) ?F"
    using assms(1) by (simp add: later_events_def sorted_wrt_filter)
  have l: "?l \<in> set (take k ?F)" using assms(2) by simp
  then have n: "n < ce_id ?l" by (auto simp: later_events_def dest: in_set_takeD)
  have parts: "take k ?F = butlast (take k ?F) @ [?l]" using assms(2) by simp
  have "sorted_wrt (\<lambda>a b. ce_id a < ce_id b) (take k ?F @ drop k ?F)" using sorted by simp
  then have "\<forall>e \<in> set (drop k ?F). ce_id ?l < ce_id e" and s: "sorted_wrt (\<lambda>a b. ce_id a < ce_id b) (take k ?F)"
    using l by (auto simp: sorted_wrt_append simp del: append_take_drop_id)
  moreover have "\<forall>e \<in> set (take k ?F). \<not> ce_id ?l < ce_id e"
    using s by (subst parts, subst (asm) parts) (auto simp: sorted_wrt_append simp del: append_butlast_last_id)
  ultimately have "filter (\<lambda>e. ce_id ?l < ce_id e) (take k ?F @ drop k ?F) = drop k ?F"
    unfolding filter_append by (simp add: filter_empty_conv)
  moreover have "filter (\<lambda>e. ce_id ?l < ce_id e) log = filter (\<lambda>e. ce_id ?l < ce_id e) ?F"
    using n by (auto simp: later_events_def intro!: filter_cong)
  ultimately show ?thesis by (simp add: later_events_def [of log "ce_id _"])
qed


section \<open>A sample host\<close>

text \<open>A bridge whose log is one message, seen from a world that is a time and the methods sent so far.\<close>

definition code_message :: message where
  "code_message = zero_message\<lparr>m_id := ''m'', m_time := 7, m_text := ''your code''\<rparr>"

definition code_event :: client_event where
  "code_event = \<lparr>ce_id = 1, ce_type = ''message'', ce_entity = ''m'', ce_data = enc_message code_message\<rparr>"

definition code_page :: json where
  "code_page = JObj [(''events'', JArr [JObj [(''id'', JNum 1), (''type'', JStr ''message''), (''entity_id'', JStr ''m''),
     (''data'', enc_message code_message)]]), (''next_cursor'', JNum 1)]"

definition code_reply :: "client_request \<Rightarrow> nat \<times> string" where
  "code_reply rq = (case map_of (rq_query rq) ''after'' of
     Some (v # _) \<Rightarrow> (200, if v = ''0'' then ''page'' else v) | _ \<Rightarrow> (404, []))"

definition plain_library :: go_library where
  "plain_library = \<lparr>lib_lower = id, lib_fold = (=), lib_is_digit = (\<lambda>_. False), lib_media_type = Some,
     lib_time = (\<lambda>_. None), lib_json = (\<lambda>_. None), lib_base64 = id, lib_sha256 = id, lib_hex = (\<lambda>_ s. s),
     lib_hash = (\<lambda>_. []), lib_length = (\<lambda>_. 0)\<rparr>"

definition code_host :: "(time \<times> string list) host" where
  "code_host = \<lparr>ho_send = (\<lambda>until rq w. (Inr (code_reply rq), (fst w, snd w @ [rq_method rq]))),
     ho_first = (\<lambda>text. if text = ''page'' then Some code_page
       else map_option (\<lambda>n. JObj [(''events'', JArr []), (''next_cursor'', JNum (uint n))]) (parse_uint text)),
     ho_now = fst, ho_ended = (\<lambda>_ _. None),
     ho_pause = (\<lambda>until d w. case until of None \<Rightarrow> (None, (fst w + d, snd w))
       | Some t \<Rightarrow> if t < fst w + d then (Some ErrDeadline, w) else (None, (fst w + d, snd w))),
     ho_key = (\<lambda>w. (''k'', w)), ho_rfc3339 = (\<lambda>_. []), ho_local = (\<lambda>_. []), ho_go = plain_library,
     ho_duration = (\<lambda>v. if v = decimal 3 @ ''h'' then Some (3 * 3600000000000) else None)\<rparr>"

definition code_client :: client where
  "code_client = \<lparr>cl_path = [], cl_token = ''t''\<rparr>"

definition any_message :: search_asked where
  "any_message = \<lparr>so_query = ''code'', so_since = [], so_direction = [], so_conversation = [], so_limit = 0\<rparr>"

lemma digit_texts: "decimal 0 = ''0''" "decimal 3 = ''3''"
proof -
  have "char_of (48 :: nat) = CHR ''0''" "char_of (51 :: nat) = CHR ''3''" by code_simp+
  then show "decimal 0 = ''0''" "decimal 3 = ''3''" by (simp_all add: decimal.simps)
qed

lemma code_host_clock: "clock_ok code_host"
  by (auto simp: clock_ok_def code_host_def split: if_splits)

lemma code_host_events:
  "\<exists>w'. client_events code_host code_client None n w = (Inr (log_page [code_event] n), w')"
proof (cases "n = 0")
  case True
  have "decimal (unat n) = ''0''" using True by (simp add: digit_texts)
  then show ?thesis
    using True by (simp add: client_events_def client_do_def build_request_def code_host_def code_reply_def read_json_def
        code_page_def dec_events_def dec_client_event_def set_client_event_def log_page_def later_events_def code_event_def)
next
  case False
  have zero: "parse_uint ''0'' = Some 0" by (simp add: parse_uint_def parse_digits_def ascii_digit_def)
  have "decimal (unat n) \<noteq> ''0''"
    using False zero parse_uint_decimal [of n] by (metis option.inject)
  moreover have "decimal (unat n) \<noteq> ''page''"
  proof
    assume "decimal (unat n) = ''page''"
    then have "parse_uint ''page'' = Some n" using parse_uint_decimal [of n] by simp
    then show False by (simp add: parse_uint_def parse_digits_def ascii_digit_def less_eq_char_def)
  qed
  moreover have "\<not> n < 1" using False by (simp add: word_less_1)
  ultimately show ?thesis
    by (auto simp: client_events_def client_do_def build_request_def code_host_def code_reply_def read_json_def
        dec_events_def log_page_def later_events_def code_event_def split: list.split)
qed

lemma code_wanted: "first_wanted plain_library any_message 0 (later_events [code_event] 0) = Some code_message"
  by (simp add: later_events_def code_event_def wanted_event_def any_message_def plain_library_def code_message_def
      zero_message_def contains_str_def Let_def sublist_Cons_right)



theorem days_wrap_around_witness:
  "parse_since code_host ''3d'' (400000 * second) = Inr (140800 * second)"
proof -
  have "ho_duration code_host (decimal 3 @ ''h'') = Some (of_nat 3 * 3600000000000)"
    by (simp add: code_host_def)
  from days_wrap_around [OF this, of "400000 * second"] show ?thesis by (simp add: digit_texts)
qed

definition bare_machine :: machine where
  "bare_machine = \<lparr>mc_env = (\<lambda>_. []), mc_file = (\<lambda>_. Missing), mc_config_dir = None, mc_pass = (\<lambda>_. None), mc_json = (\<lambda>_. None)\<rparr>"


end
