(* ===== verification/McpProperties.thy ===== *)
theory McpProperties
  imports ClientProperties "HOL-Library.Multiset"
begin

text \<open>The MCP server: what it may ask of the bridge, and how its calls are answered and canceled.\<close>

section \<open>Only reading\<close>

text \<open>
  A relation on the world that contains every exchange for a \<open>GET\<close> and every pause.  An action that
  stays within it has sent nothing but \<open>GET\<close> requests.
\<close>

definition reading :: "('w \<Rightarrow> 'w \<Rightarrow> bool) \<Rightarrow> 'w host \<Rightarrow> bool" where
  "reading R H \<longleftrightarrow> reflp R \<and> transp R \<and>
     (\<forall>until rq w. rq_method rq = ''GET'' \<longrightarrow> R w (snd (ho_send H until rq w))) \<and>
     (\<forall>until d w. R w (snd (ho_pause H until d w)))"

lemma reading_refl: "reading R H \<Longrightarrow> R w w"
  by (simp add: reading_def reflpD)

lemma reading_trans: "reading R H \<Longrightarrow> R u v \<Longrightarrow> R v w \<Longrightarrow> R u w"
  by (auto simp: reading_def dest: transpD)

definition stays :: "('w \<Rightarrow> 'w \<Rightarrow> bool) \<Rightarrow> ('w, 'a) cli \<Rightarrow> bool" where
  "stays R m \<longleftrightarrow> (\<forall>w. R w (snd (m w)))"

named_theorems stays_intros \<open>actions that only read\<close>

lemma stays_run: "stays R m \<Longrightarrow> m w = (r, w') \<Longrightarrow> R w w'"
  by (metis snd_conv stays_def)

lemma stays_steps [stays_intros]:
  "reading R H \<Longrightarrow> stays R (give x)" "reading R H \<Longrightarrow> stays R (reject e)" "reading R H \<Longrightarrow> stays R (ask f)"
  by (auto simp: stays_def reading_def reflp_def)

lemma stays_after [stays_intros]:
  assumes "reading R H" and "stays R m" and "\<And>x. stays R (f x)"
  shows "stays R (after m f)"
  using assms by (auto simp: stays_def after_def reading_def split: prod.splits sum.splits)
    (metis snd_conv, metis snd_conv transpD)

lemma stays_attempt [stays_intros]: "stays R m \<Longrightarrow> stays R (attempt m)"
  by (auto simp: stays_def attempt_def split: prod.splits) (metis snd_conv)

lemma stays_get: "reading R H \<Longrightarrow> stays R (client_do H c until ''GET'' path query body key zero read)"
  by (auto simp: stays_def client_do_def build_request_def reading_def split: prod.splits sum.splits) (metis client_request.select_convs(1) snd_conv)+

lemma stays_calls [stays_intros]:
  "reading R H \<Longrightarrow> stays R (client_status H c until)"
  "reading R H \<Longrightarrow> stays R (client_conversations H c until)"
  "reading R H \<Longrightarrow> stays R (client_messages H c until i limit before)"
  "reading R H \<Longrightarrow> stays R (client_search H c until q)"
  "reading R H \<Longrightarrow> stays R (client_events H c until n)"
  "reading R H \<Longrightarrow> stays R (client_contacts H c until refresh)"
  unfolding client_status_def client_conversations_def client_messages_def client_search_def client_events_def
    client_contacts_def
  by (rule stays_get, assumption)+

lemma stays_cases [stays_intros]:
  "(\<And>e. r = Inl e \<Longrightarrow> stays R (f e)) \<Longrightarrow> (\<And>x. r = Inr x \<Longrightarrow> stays R (g x)) \<Longrightarrow> stays R (case r of Inl e \<Rightarrow> f e | Inr x \<Rightarrow> g x)"
  "(v = None \<Longrightarrow> stays R m) \<Longrightarrow> (\<And>x. v = Some x \<Longrightarrow> stays R (h x)) \<Longrightarrow> stays R (case v of None \<Rightarrow> m | Some x \<Rightarrow> h x)"
  "(\<And>a b. p = (a, b) \<Longrightarrow> stays R (k a b)) \<Longrightarrow> stays R (case p of (a, b) \<Rightarrow> k a b)"
  "(b \<Longrightarrow> stays R m) \<Longrightarrow> (\<not> b \<Longrightarrow> stays R n) \<Longrightarrow> stays R (if b then m else n)"
  "(\<And>x. y = x \<Longrightarrow> stays R (k' x)) \<Longrightarrow> stays R (Let y k')"
  by (auto split: sum.split option.split prod.split)

lemma stays_load [stays_intros]: "reading R H \<Longrightarrow> stays R (load_conversations H c until)"
  unfolding load_conversations_def by (intro stays_intros)

lemma stays_search [stays_intros]: "reading R H \<Longrightarrow> stays R (cli_search H c until q)"
  unfolding cli_search_def by (intro stays_intros)

lemma stays_chat [stays_intros]: "reading R H \<Longrightarrow> stays R (chat_messages H c f limit before)"
  unfolding chat_messages_def by (intro stays_intros)

lemma stays_refreshed [stays_intros]: "reading R H \<Longrightarrow> stays R (refreshed H c until i cs)"
  unfolding refreshed_def by (intro stays_intros)

lemma stays_scan [stays_intros]: "reading R H \<Longrightarrow> stays R (scan_events H c until q since es cs)"
proof (induction es arbitrary: cs)
  case (Cons e es)
  then show ?case unfolding scan_events.simps by (intro stays_intros)
qed (simp add: stays_steps)

lemma stays_pause: "reading R H \<Longrightarrow> stays R (\<lambda>w. case ho_pause H until d w of
    (Some e, w') \<Rightarrow> (Inl err, w') | (None, w') \<Rightarrow> (Inr x, w'))"
  by (auto simp: stays_def reading_def split: prod.split option.split) (metis snd_conv)+

lemma stays_turn: "reading R H \<Longrightarrow> stays R (wait_turn H c until q since st)"
  unfolding wait_turn_def by (intro stays_intros stays_pause)

lemma stays_loop: "reading R H \<Longrightarrow> wait_loop H c until q since n st w = Some (r, w') \<Longrightarrow> R w w'"
proof (induction n arbitrary: st w)
  case (Suc n)
  obtain x w1 where turn: "wait_turn H c until q since st w = (x, w1)" by force
  then have "R w w1" using stays_turn [OF Suc.prems(1)] by (rule stays_run [rotated])
  with Suc turn show ?case
    by (cases x) (auto simp: reading_def split: sum.splits dest: transpD)
qed simp

lemma stays_start: "reading R H \<Longrightarrow> stays R (wait_start H c until q start)"
  unfolding wait_start_def by (intro stays_intros)

lemma stays_wait:
  assumes "reading R H" and "cli_wait H c q timeout n w = Some (r, w')"
  shows "R w w'"
proof -
  obtain x w1 where start: "wait_start H c (Some (ho_now H w + timeout)) q (ho_now H w) w = (x, w1)" by force
  then have "R w w1" using stays_start [OF assms(1)] by (rule stays_run [rotated])
  moreover have "w1 = w' \<or> R w1 w'"
    using assms(2) start by (auto simp: cli_wait_def split: sum.splits prod.splits dest: stays_loop [OF assms(1)])
  ultimately show ?thesis using assms(1) by (auto simp: reading_def dest: transpD)
qed

lemma prompt_stays: "stays R m \<Longrightarrow> prompt m w = Some (r, w') \<Longrightarrow> R w w'"
  by (auto simp: prompt_def dest: stays_run)

lemma with_args_stays [stays_intros]:
  "reading R H \<Longrightarrow> (\<And>a. stays R (k a)) \<Longrightarrow> stays R (with_args L names raw k)"
  unfolding with_args_def by (intro stays_intros)

lemma reading_tools:
  assumes "reading R H" and "t \<in> set (offered_tools show False)" and "tl_call t H c n raw w = Some (r, w')"
  shows "R w w'"
proof -
  have "R w w" by (rule reading_refl [OF assms(1)])
  with assms show ?thesis
    by (auto simp: offered_tools_def all_tools_def status_tool_def list_tool_def read_tool_def search_tool_def
        wait_tool_def contacts_tool_def send_tool_def split: sum.splits
        dest!: stays_wait [OF assms(1)] elim!: prompt_stays [rotated] intro!: stays_intros)
qed

lemma reading_call_tool:
  assumes "reading R H" and "call_tool show ts H c n params w = Some (r, w')" and "ts = offered_tools show' False"
  shows "R w w'"
proof -
  have "R w w" by (rule reading_refl [OF assms(1)])
  with assms show ?thesis
    by (auto simp: call_tool_def find_Some_iff split: option.splits prod.splits
        dest!: reading_tools [OF assms(1), rotated] intro!: nth_mem)
qed

text \<open>C33: an MCP server that was not started with \<open>--allow-send\<close> sends the bridge
  nothing but \<open>GET\<close> requests, whatever lines it reads, in whatever order its calls run, and whatever
  is answered.\<close>

theorem agents_without_leave_only_read:
  assumes "\<And>b. reading R (hosts b)" and "mcp_runs render (offered_tools show False) hosts c n w0 ls s w"
  shows "R w0 w"
  using assms(2)
proof (induction rule: mcp_runs.induct)
  case start
  show ?case by (rule reading_refl [OF assms(1)])
next
  case (finish ls s w k r w')
  have "R w w'" using reading_call_tool [OF assms(1) finish.hyps(4)] by simp
  with finish.IH show ?case by (rule reading_trans [OF assms(1)])
qed

section \<open>Answers\<close>

definition pending_id :: "running_call \<Rightarrow> json multiset" where
  "pending_id k = (if rc_state k = Ended then {#} else case rc_id k of None \<Rightarrow> {#} | Some i \<Rightarrow> {#i#})"

definition asked_id :: "rpc_request option \<Rightarrow> json multiset" where
  "asked_id l = (case l of None \<Rightarrow> {#JNull#} | Some r \<Rightarrow> (case rr_id r of None \<Rightarrow> {#} | Some i \<Rightarrow> {#i#}))"

definition answered :: "mcp_server \<Rightarrow> json multiset" where
  "answered s = mset (map fst (ms_out s))"

definition pending_calls :: "mcp_server \<Rightarrow> json multiset" where
  "pending_calls s = sum_list (map pending_id (ms_calls s))"

lemma sum_list_map_update:
  fixes f :: "'a \<Rightarrow> 'b multiset"
  shows "k < length xs \<Longrightarrow> sum_list (map f (xs[k := y])) + f (xs ! k) = sum_list (map f xs) + f y"
proof (induction xs arbitrary: k)
  case (Cons x xs)
  then show ?case by (cases k) (auto simp: ac_simps)
qed simp

lemma pending_set_call:
  assumes "k < length (ms_calls s)"
  shows "pending_calls (set_call k st s) + pending_id (ms_calls s ! k) =
    pending_calls s + pending_id ((ms_calls s ! k)\<lparr>rc_state := st\<rparr>)"
  using sum_list_map_update [OF assms, of pending_id] by (simp add: pending_calls_def set_call_def)

lemma pending_calls_frames [simp]:
  "pending_calls (write_response j r s) = pending_calls s" "pending_calls (enter_table i k s) = pending_calls s"
  "pending_calls (answer_call i r s) = pending_calls s" "answered (set_call x st s) = answered s"
  "answered (enter_table i k s) = answered s" "answered (write_response j r s) = answered s + {#j#}"
  "answered (answer_call i r s) = answered s + (case i of None \<Rightarrow> {#} | Some i \<Rightarrow> {#i#})"
  by (auto simp: pending_calls_def answered_def write_response_def enter_table_def answer_call_def set_call_def split: option.split)

lemma calls_set_call [simp]: "length (ms_calls (set_call k st s)) = length (ms_calls s)"
  by (simp add: set_call_def)

definition table_ok :: "mcp_server \<Rightarrow> bool" where
  "table_ok s \<longleftrightarrow> (\<forall>i k. ms_table s i = Some k \<longrightarrow> k < length (ms_calls s))"

lemma pending_cancel:
  assumes "table_ok s"
  shows "pending_calls (cancel_call params s) = pending_calls s" and "answered (cancel_call params s) = answered s"
    and "table_ok (cancel_call params s)"
proof -
  have same: "pending_id (x\<lparr>rc_canceled := True\<rparr>) = pending_id x" for x by (simp add: pending_id_def)
  show "pending_calls (cancel_call params s) = pending_calls s"
  proof (cases "Option.bind (canceled_id params) (ms_table s)")
    case (Some k)
    then have "k < length (ms_calls s)" using assms by (auto simp: table_ok_def bind_eq_Some_conv)
    from sum_list_map_update [OF this, of pending_id "(ms_calls s ! k)\<lparr>rc_canceled := True\<rparr>"] Some same
    show ?thesis by (simp add: pending_calls_def cancel_call_def)
  qed (simp add: cancel_call_def)
  show "answered (cancel_call params s) = answered s" "table_ok (cancel_call params s)"
    using assms by (auto simp: cancel_call_def answered_def table_ok_def split: option.split)
qed

lemma read_line_accounts:
  assumes "table_ok s"
  shows "answered (read_line ts l s) + pending_calls (read_line ts l s) = answered s + pending_calls s + asked_id l"
    and "table_ok (read_line ts l s)"
proof -
  have start: "pending_calls (start_call r s) = pending_calls s + (case rr_id r of None \<Rightarrow> {#} | Some i \<Rightarrow> {#i#})"
      "answered (start_call r s) = answered s" "table_ok (start_call r s)" for r
    using assms by (auto simp: pending_calls_def start_call_def pending_id_def answered_def table_ok_def
        intro: less_SucI split: option.split)
  show "answered (read_line ts l s) + pending_calls (read_line ts l s) = answered s + pending_calls s + asked_id l"
    using pending_cancel [OF assms] by (auto simp: read_line_def asked_id_def start Let_def split: option.split)
  have keeps: "table_ok (write_response i r s') = table_ok s'" for i r s' by (simp add: table_ok_def write_response_def)
  show "table_ok (read_line ts l s)"
    using start(3) assms pending_cancel(3) [OF assms]
    by (auto simp: read_line_def Let_def keeps split: option.split)
qed

lemma table_ok_frames:
  "table_ok s \<Longrightarrow> table_ok (set_call k st s)" "table_ok s \<Longrightarrow> table_ok (answer_call i r s)"
  "table_ok s \<Longrightarrow> (\<And>x. k' = Some x \<Longrightarrow> x < length (ms_calls s)) \<Longrightarrow> table_ok (enter_table i k' s)"
  by (auto simp: table_ok_def set_call_def answer_call_def write_response_def enter_table_def split: option.split if_splits)

text \<open>C34: at every moment the ids of the responses written and of the calls that
  have not ended are together those of the requests read, each as often as it was asked, with the
  null id for a line that is no request; so nothing without an id is answered, and when no call is
  left every request has had exactly one answer.\<close>

theorem every_request_is_answered_once:
  assumes "mcp_runs render ts hosts c n w0 ls s w"
  shows "answered s + pending_calls s = sum_list (map asked_id ls)"
proof -
  have "answered s + pending_calls s = sum_list (map asked_id ls) \<and> table_ok s"
    using assms
  proof (induction rule: mcp_runs.induct)
    case start
    show ?case by (simp add: new_server_def answered_def pending_calls_def table_ok_def)
  next
    case (line ls s w l)
    with read_line_accounts [of s ts l] show ?case by (simp add: ac_simps)
  next
    case (enter ls s w k)
    have "pending_calls (set_call k Entered s) = pending_calls s"
      using pending_set_call [OF enter.hyps(2), of Entered] enter.hyps(3) by (simp add: pending_id_def)
    with enter show ?case by (auto intro!: table_ok_frames)
  next
    case (refuse ls s w k r)
    have "pending_calls s = pending_calls (set_call k Ended s) + pending_id (ms_calls s ! k)"
      using pending_set_call [OF refuse.hyps(2), of Ended] by (simp add: pending_id_def)
    with refuse show ?case by (auto intro!: table_ok_frames simp: pending_id_def ac_simps split: option.splits)
  next
    case (finish ls s w k r w')
    have "pending_calls s = pending_calls (set_call k Ended s) + pending_id (ms_calls s ! k)"
      using pending_set_call [OF finish.hyps(2), of Ended] by (simp add: pending_id_def)
    with finish show ?case by (auto intro!: table_ok_frames simp: pending_id_def ac_simps split: option.splits)
  qed
  then show ?thesis ..
qed

section \<open>Canceling\<close>

definition call_line :: "json \<Rightarrow> json \<Rightarrow> rpc_request" where
  "call_line i params = \<lparr>rr_id = Some i, rr_method = ''tools/call'', rr_params = Some params\<rparr>"

definition cancel_line :: "json \<Rightarrow> rpc_request" where
  "cancel_line i = \<lparr>rr_id = None, rr_method = ''notifications/cancelled'', rr_params = Some (JObj [(''requestId'', i)])\<rparr>"

lemma read_call: "read_line ts (Some (call_line i params)) s = start_call (call_line i params) s"
  by (simp add: read_line_def call_line_def)

lemma canceled_line_id: "canceled_id (rr_params (cancel_line i)) = Some i"
  by (simp add: canceled_id_def cancel_line_def)

lemma read_cancel: "read_line ts (Some (cancel_line i)) s = cancel_call (rr_params (cancel_line i)) s"
  by (simp add: read_line_def cancel_line_def)


section \<open>A sample run\<close>

text \<open>The agent asks for the status, and the bridge answers that there is no such page.\<close>

definition status_params :: json where
  "status_params = JObj [(''name'', JStr ''bridge_status'')]"

abbreviation sample_tools :: "(time \<times> string list) tool list" where
  "sample_tools \<equiv> offered_tools (\<lambda>_. []) False"

abbreviation sample_runs :: "rpc_request option list \<Rightarrow> mcp_server \<Rightarrow> time \<times> string list \<Rightarrow> bool" where
  "sample_runs \<equiv> mcp_runs (\<lambda>_. []) sample_tools (\<lambda>_. code_host) code_client 1 (0, [])"

lemma status_known: "call_known sample_tools (Some status_params)"
  by (simp add: call_known_def call_params_def status_params_def set_call_params_def offered_tools_def all_tools_def
      status_tool_def)

lemma run_status: "\<exists>r. call_tool (\<lambda>_. []) sample_tools code_host code_client 1 (Some status_params) (0, []) =
    Some (r, (0, [''GET'']))"
  by (simp add: call_tool_def call_params_def status_params_def set_call_params_def offered_tools_def all_tools_def
      status_tool_def prompt_def client_status_def client_do_def build_request_def code_host_def code_reply_def after_def)

lemma sample_run:
  "\<exists>s. sample_runs [Some (call_line (JNum 1) status_params)] s (0, [''GET'']) \<and> answered s = {#JNum 1#} \<and> pending_calls s = {#}"
proof -
  let ?s1 = "start_call (call_line (JNum 1) status_params) new_server"
  let ?s2 = "enter_table (Some (JNum 1)) (Some 0) (set_call 0 Entered ?s1)"
  have calls: "ms_calls ?s1 = [\<lparr>rc_id = Some (JNum 1), rc_params = Some status_params, rc_state = Waiting, rc_canceled = False\<rparr>]"
    "ms_calls ?s2 = [\<lparr>rc_id = Some (JNum 1), rc_params = Some status_params, rc_state = Entered, rc_canceled = False\<rparr>]"
    by (simp_all add: start_call_def call_line_def new_server_def enter_table_def set_call_def)
  have "\<not> blocked new_server" by (simp add: blocked_def new_server_def)
  with mcp_runs.start mcp_runs.line have "sample_runs ([] @ [Some (call_line (JNum 1) status_params)]) ?s1 (0, [])"
    by (metis read_call)
  then have one: "sample_runs [Some (call_line (JNum 1) status_params)] ?s1 (0, [])" by simp
  have two: "sample_runs [Some (call_line (JNum 1) status_params)] ?s2 (0, [])"
    using mcp_runs.enter [OF one, of 0] by (simp add: calls status_known)
  obtain r where r: "call_tool (\<lambda>_. []) sample_tools code_host code_client 1 (Some status_params) (0, []) = Some (r, (0, [''GET'']))"
    using run_status by blast
  let ?s3 = "answer_call (Some (JNum 1)) r (enter_table (Some (JNum 1)) None (set_call 0 Ended ?s2))"
  have "sample_runs [Some (call_line (JNum 1) status_params)] ?s3 (0, [''GET''])"
    using mcp_runs.finish [OF two, of 0 r "(0, [''GET''])"] r by (simp add: calls)
  moreover have "answered ?s1 = {#}" by (simp add: answered_def start_call_def new_server_def)
  then have "answered ?s3 = {#JNum 1#}" by simp
  moreover have "ms_calls ?s3 = [\<lparr>rc_id = Some (JNum 1), rc_params = Some status_params, rc_state = Ended, rc_canceled = False\<rparr>]"
    by (simp add: answer_call_def write_response_def enter_table_def set_call_def start_call_def new_server_def call_line_def)
  then have "pending_calls ?s3 = {#}" by (simp only: pending_calls_def) (simp add: pending_id_def)
  ultimately show ?thesis by blast
qed

definition never_posts :: "time \<times> string list \<Rightarrow> time \<times> string list \<Rightarrow> bool" where
  "never_posts w w' \<longleftrightarrow> (''POST'' \<in> set (snd w') \<longrightarrow> ''POST'' \<in> set (snd w))"

lemma code_host_reading: "reading never_posts code_host"
  by (auto simp: reading_def never_posts_def code_host_def reflp_def transp_def split: option.splits)

theorem agents_without_leave_only_read_witness:
  "\<exists>s. sample_runs [Some (call_line (JNum 1) status_params)] s (0, [''GET'']) \<and> never_posts (0, []) (0, [''GET''])"
proof -
  obtain s where run: "sample_runs [Some (call_line (JNum 1) status_params)] s (0, [''GET''])"
    using sample_run by blast
  with agents_without_leave_only_read [OF code_host_reading run] show ?thesis by blast
qed

theorem every_request_is_answered_once_witness:
  "\<exists>s w. sample_runs [Some (call_line (JNum 1) status_params)] s w \<and> pending_calls s = {#} \<and>
     answered s = asked_id (Some (call_line (JNum 1) status_params))"
proof -
  obtain s where "sample_runs [Some (call_line (JNum 1) status_params)] s (0, [''GET''])" "pending_calls s = {#}"
    using sample_run by blast
  with every_request_is_answered_once [OF this(1)] show ?thesis by auto
qed


end
