(* ===== verification/ConnectionRun.thy ===== *)
theory ConnectionRun
  imports ProviderContract WaSync
begin

text \<open>
  The life of a connection: the two \<open>Run\<close> functions of \<open>internal/bridge/google.go\<close> and
  \<open>internal/bridge/whatsapp.go\<close>, with the goroutines they start.  \<open>run_state\<close> is the bridge beside
  what a \<open>Run\<close> owns: its place in the code, the workers it started and has not joined, the calls
  of the provider that clients have borrowed, and the channels.  \<open>run_step\<close> has one case per move of
  one goroutine; a call of a client library may leave the bridge in any state the other goroutines
  can.  The deferred statements are a list of steps that are taken one by one, so that everything else
  interleaves with them.  Logging is left out, and so is the configuration of the client libraries.
\<close>

section \<open>What a Run is given\<close>

text \<open>
  The context of a pairing attempt ends with its deadline or a cancellation, that of a connection with
  an interruption, and both with the service.  \<open>rc_prepared\<close> is what an earlier \<open>Prepare\<close> answered.
\<close>

record run_call =
  rc_offline :: bool
  rc_credentials :: "(string \<times> string) list option"
  rc_expires :: "time option"
  rc_emoji :: "string \<Rightarrow> bridge \<Rightarrow> bridge"
  rc_prepared :: "(go_error option) option"
  rc_upgrade :: "string \<Rightarrow> payload \<Rightarrow> go_error + (provider_snapshot \<times> bool)"

definition call_ended :: "run_call \<Rightarrow> bridge \<Rightarrow> bool" where
  "call_ended c b \<longleftrightarrow> b_ended b \<or> (case rc_expires c of None \<Rightarrow> b_interrupted b
     | Some t \<Rightarrow> b_pair_canceled b \<or> t \<le> now b)"

definition prepare_once :: "run_call \<Rightarrow> bridge \<Rightarrow> go_error option \<times> bridge" where
  "prepare_once c b = (case rc_prepared c of Some r \<Rightarrow> (r, b)
     | None \<Rightarrow> (case prepare_bridge (rc_upgrade c) b of (Inl e, b') \<Rightarrow> (Some e, b') | (Inr _, b') \<Rightarrow> (None, b')))"

text \<open>\<open>fmt.Errorf\<close> with \<open>%w\<close>: the text beside the error it wraps\<close>

definition wrapped :: "string \<Rightarrow> go_error \<Rightarrow> go_error" where
  "wrapped what e = ErrJoined [ErrText what, e]"

section \<open>The client libraries\<close>

text \<open>The authentication data of libgm is opaque; \<open>gl_saved\<close> is its JSON when it is asked for.\<close>

record 'm google_link =
  gl_google :: google
  gl_snapshot :: "'m \<Rightarrow> go_error + provider_snapshot"
  gl_cookies :: "(string \<times> string) list \<Rightarrow> string"
  gl_session :: "payload \<Rightarrow> string option"
  gl_start_pairing :: "string \<Rightarrow> (string \<times> string) bact"   \<comment> \<open>the emoji and the pairing session\<close>
  gl_finish_pairing :: "string \<Rightarrow> string \<Rightarrow> unit bact"
  gl_saved :: "string \<Rightarrow> payload bact"
  gl_connect :: "string \<Rightarrow> unit bact"
  gl_auth_failure :: "go_error \<Rightarrow> bool"
  gl_text :: "go_error \<Rightarrow> string"
  gl_sum :: "payload \<Rightarrow> string"

record wa_link =
  wk_base :: wa_provider          \<comment> \<open>the functions of the library; the device fills in the rest\<close>
  wk_client :: wa_client
  wk_request :: "boundary \<Rightarrow> wa_message"
  wk_codecs :: inbox_codecs
  wk_namespace :: string          \<comment> \<open>\<open>NewNamespace\<close>\<close>
  wk_fresh :: device
  wk_qr_channel :: "unit bact"
  wk_connect :: "unit bact"
  wk_pair_phone :: "string \<Rightarrow> string bact"
  wk_fetch :: "string \<Rightarrow> bool \<Rightarrow> unit app_act"
  wk_names :: "string list"
  wk_lower :: "string \<Rightarrow> string"
  wk_logged_out :: "connect_failure \<Rightarrow> bool"
  wk_sum :: "payload \<Rightarrow> string"

datatype 'm network = Google "'m google_link" | Whatsapp wa_link

section \<open>The state of a Run\<close>

datatype worker = Starter | Sync_worker | Send_worker | History_worker | App_worker | Drain_worker

datatype leave =
    Cancel_context | Drop_provider | Await_operations | Await_workers | Disconnect
  | Remove_handler | Close_events | Report_stop | Keep_storage

datatype place =
    Place_begin
  | Place_offline
  | Place_starting                        \<comment> \<open>waits for the goroutine that connects or pairs\<close>
  | Place_pairing bool                    \<comment> \<open>WhatsApp's loop, and whether a code was asked for\<close>
  | Place_serving
  | Place_leaving "leave list" "go_error option"
  | Place_returned "go_error option"

record run_state =
  rs_bridge :: bridge
  rs_place :: place
  rs_workers :: "worker list"
  rs_operations :: nat                    \<comment> \<open>\<open>providerOps\<close>\<close>
  rs_handling :: bool                     \<comment> \<open>the event handler is registered\<close>
  rs_client :: bool                       \<comment> \<open>a client that has not been disconnected\<close>
  rs_started :: "(go_error + unit) option"
  rs_paired :: "(go_error option) option"
  rs_generation :: u64
  rs_auth :: string
  rs_linked :: wa_provider
  rs_app :: app_sync

definition google_teardown :: "leave list" where
  "google_teardown = [Cancel_context, Drop_provider, Await_operations, Await_workers, Close_events,
     Disconnect, Report_stop, Close_events, Keep_storage]"

definition google_early :: "leave list" where  \<comment> \<open>the first deferred function alone\<close>
  "google_early = [Close_events, Keep_storage]"

definition whatsapp_teardown :: "leave list" where
  "whatsapp_teardown = [Cancel_context, Drop_provider, Disconnect, Await_operations, Await_workers,
     Remove_handler, Close_events, Report_stop]"

fun teardown :: "'m network \<Rightarrow> leave list" where
  "teardown (Google _) = google_teardown"
| "teardown (Whatsapp _) = whatsapp_teardown"

definition at_place :: "place \<Rightarrow> bridge \<Rightarrow> run_state \<Rightarrow> run_state" where
  "at_place p b s = s\<lparr>rs_bridge := b, rs_place := p\<rparr>"

definition leave_early :: "leave list \<Rightarrow> go_error option \<Rightarrow> bridge \<Rightarrow> run_state \<Rightarrow> run_state" where
  "leave_early ls r b s = at_place (Place_leaving ls r) b s"

section \<open>Google: from the start to the goroutine that connects\<close>

text \<open>From creating the client to starting the goroutine.\<close>

definition google_open :: "run_call \<Rightarrow> string \<Rightarrow> bridge \<Rightarrow> run_state \<Rightarrow> run_state" where
  "google_open c auth b s =
    (case pairing_status (b\<lparr>b_pairing := rc_credentials c \<noteq> None\<rparr>) of (ps, b1) \<Rightarrow>
       let generation = (if rc_credentials c \<noteq> None \<and> active_pair (ps_state ps) then ps_generation ps else 0)
       in at_place Place_starting (set_status ''connecting'' [] (b1\<lparr>b_done := False\<rparr>))
            (s\<lparr>rs_generation := generation, rs_auth := auth, rs_handling := True, rs_client := True,
               rs_started := None, rs_workers := [Starter]\<rparr>))"

definition no_google_session :: "bridge \<Rightarrow> bridge" where
  "no_google_session = set_status_reason ''authentication_required'' ''no_session''
     ''No paired session; open Pair / Re-pair in the web client''"

definition invalid_google_session :: "bridge \<Rightarrow> bridge" where
  "invalid_google_session = set_status_reason ''authentication_required'' ''invalid_session''
     ''The stored Google Messages session is invalid; re-pair to replace it''"

definition google_begin :: "'m google_link \<Rightarrow> run_call \<Rightarrow> run_state \<Rightarrow> run_state" where
  "google_begin G c s = (case prepare_once c (rs_bridge s) of (err, b) \<Rightarrow>
     if err \<noteq> None then leave_early google_early (Some ErrStorage) b s
     else if rc_offline c then at_place Place_offline
       (set_status ''offline'' ''Serving stored history without a Google connection'' b) s
     else (case rc_credentials c of
       Some cookies \<Rightarrow> google_open c (gl_cookies G cookies) b s
     | None \<Rightarrow> (case view_tx session (b_store b) of
         Inl e \<Rightarrow> leave_early google_early (Some ErrStorage) b s
       | Inr data \<Rightarrow>
           if data = None \<or> data = Some (Opaque [])
           then leave_early google_early (Some (ErrText ''no paired session'')) (no_google_session b) s
           else (case gl_session G (the data) of
               None \<Rightarrow> leave_early google_early (Some (ErrText ''invalid stored session''))
                 (invalid_google_session b) s
             | Some auth \<Rightarrow> google_open c auth b s))))"

text \<open>The goroutine.  \<open>pairCtx\<close> ends with the connection's context or after three minutes.\<close>

definition pair_timeout :: time where "pair_timeout = 3 * minute"

definition google_pair :: "'m google_link \<Rightarrow> run_call \<Rightarrow> u64 \<Rightarrow> string \<Rightarrow> unit bact" where
  "google_pair G c generation auth = bind_act (get_act now) (\<lambda>started.
     bind_act (try_act (gl_start_pairing G auth)) (\<lambda>r. case r of
       Inl e \<Rightarrow> fail_act (wrapped ''could not start Google pairing'' e)
     | Inr (code, opened) \<Rightarrow> then_act (mod_act (rc_emoji c code))
         (bind_act (try_act (gl_finish_pairing G auth opened)) (\<lambda>r. case r of
            Inl e \<Rightarrow> fail_act (wrapped ''google pairing did not complete'' e)
          | Inr _ \<Rightarrow> bind_act (gl_saved G auth) (\<lambda>data.
              bind_act (get_act (\<lambda>b. b_done b \<or> call_ended c b \<or> started + pair_timeout \<le> now b)) (\<lambda>ended.
              commit_paired (gl_sum G) ended generation data))))))"

definition google_starter :: "'m google_link \<Rightarrow> run_call \<Rightarrow> u64 \<Rightarrow> string \<Rightarrow> unit bact" where
  "google_starter G c generation auth =
    (if rc_credentials c \<noteq> None then google_pair G c generation auth
     else bind_act (try_act (gl_connect G auth)) (\<lambda>r. case r of
       Inl e \<Rightarrow> fail_act (wrapped ''could not connect Google session'' e)
     | Inr _ \<Rightarrow> return_act ()))"

text \<open>What the select makes of the goroutine's answer.\<close>

definition failed_start :: "'m google_link \<Rightarrow> run_call \<Rightarrow> go_error \<Rightarrow> bridge \<Rightarrow> bridge" where
  "failed_start G c e b = (if rc_credentials c = None \<and> gl_auth_failure G e then session_expired b
     else set_status_reason ''connection_failed'' ''provider_failure'' (gl_text G e) b)"

definition serve_connection :: "worker list \<Rightarrow> run_state \<Rightarrow> run_state" where
  "serve_connection ws s = at_place Place_serving (request_sync (set_provider True (rs_bridge s)))
     (s\<lparr>rs_workers := rs_workers s @ ws\<rparr>)"

definition google_started :: "'m google_link \<Rightarrow> run_call \<Rightarrow> go_error + unit \<Rightarrow> run_state \<Rightarrow> run_state" where
  "google_started G c r s = (let b = rs_bridge s; s = s\<lparr>rs_started := None\<rparr> in case r of
       Inl e \<Rightarrow> at_place (Place_leaving google_teardown (Some e)) (failed_start G c e b) s
     | Inr _ \<Rightarrow>
         if rc_credentials c \<noteq> None
         then at_place (Place_leaving google_teardown (b_fatal b)) (b\<lparr>b_fatal := None\<rparr>) s
         else serve_connection [Sync_worker, Send_worker, History_worker] s)"

section \<open>WhatsApp: from the start to the connected client\<close>

definition set_wa_session :: "string \<Rightarrow> json \<Rightarrow> string \<Rightarrow> string option" where
  "set_wa_session k v ns = (if k = ''whatsapp_namespace'' then as_str v ns else Some ns)"

definition enc_wa_session :: "string \<Rightarrow> json" where
  "enc_wa_session ns = JObj (jstr ''whatsapp_namespace'' ns)"

definition dec_wa_session :: "json \<Rightarrow> string option" where
  "dec_wa_session = decode_struct set_wa_session []"

definition no_wa_session :: "bridge \<Rightarrow> bridge" where
  "no_wa_session = set_status_reason ''authentication_required'' ''no_session'' ''Link WhatsApp from Pair / Re-pair''"

definition invalid_wa_session :: "bridge \<Rightarrow> bridge" where
  "invalid_wa_session = set_status_reason ''authentication_required'' ''invalid_session''
     ''Stored WhatsApp session is invalid''"

definition wa_namespace :: "wa_link \<Rightarrow> run_call \<Rightarrow> string bact" where
  "wa_namespace K c = (case rc_credentials c of Some _ \<Rightarrow> return_act (wk_namespace K)
     | None \<Rightarrow> bind_act (view_db session) (\<lambda>raw.
         if raw = None \<or> raw = Some (Opaque [])
         then then_act (mod_act no_wa_session) (fail_act (ErrText ''no paired session''))
         else (case unmarshal dec_wa_session (the raw) of
             Inl e \<Rightarrow> then_act (mod_act invalid_wa_session) (fail_act (ErrText ''invalid session''))
           | Inr ns \<Rightarrow> if ns = [] then then_act (mod_act invalid_wa_session) (fail_act (ErrText ''invalid session''))
               else return_act ns)))"

definition wa_device :: "wa_link \<Rightarrow> run_call \<Rightarrow> string \<Rightarrow> device bact" where
  "wa_device K c ns = bind_act (cred (load_device (wp_library (wk_base K)) ns (wk_fresh K))) (\<lambda>device.
     if rc_credentials c = None \<and> dv_id device = None
     then then_act (mod_act (set_status_reason ''authentication_required'' ''session_expired''
         ''WhatsApp logged out; link this device again'')) (fail_act (ErrText ''session expired''))
     else return_act device)"

text \<open>The \<open>Provider\<close> of a device: \<open>Client\<close>, \<open>Keys\<close> and \<open>Device\<close>\<close>

definition linked_provider :: "wa_link \<Rightarrow> string \<Rightarrow> device \<Rightarrow> wa_provider" where
  "linked_provider K ns device = (wk_base K)\<lparr>wp_client := Some (wk_client K), wp_ns := ns,
     wp_own_lid := dv_lid device, wp_own_jid := (case dv_id device of None \<Rightarrow> empty_jid | Some j \<Rightarrow> j)\<rparr>"

definition update_quarantined :: "wa_provider \<Rightarrow> unit bact" where
  "update_quarantined P = bind_act (cred (quarantined (wp_ns P))) (\<lambda>n. mod_act (\<lambda>b. b\<lparr>b_quarantined := n\<rparr>))"

text \<open>
  The client is created and the handler registered; then the channel of codes is opened for a
  pairing, and the client connects.
\<close>

definition wa_connect :: "wa_link \<Rightarrow> run_call \<Rightarrow> unit bact" where
  "wa_connect K c = then_act (if rc_credentials c \<noteq> None then wk_qr_channel K else return_act ())
     (then_act (mod_act (set_status ''connecting'' []))
       (bind_act (try_act (wk_connect K)) (\<lambda>r. case r of
          Inl e \<Rightarrow> fail_act (ErrText ''WhatsApp connection failed'') | Inr _ \<Rightarrow> return_act ())))"

definition wa_open :: "wa_link \<Rightarrow> run_call \<Rightarrow> wa_provider \<Rightarrow> bridge \<Rightarrow> run_state \<Rightarrow> run_state" where
  "wa_open K c P b s = (case pairing_status (b\<lparr>b_done := False\<rparr>) of (ps, b1) \<Rightarrow>
     let s1 = s\<lparr>rs_generation := ps_generation ps, rs_linked := P, rs_app := fresh_sync,
           rs_handling := True, rs_client := True, rs_paired := None\<rparr>
     in (case wa_connect K c b1 of
         (Inl e, b2) \<Rightarrow> at_place (Place_leaving whatsapp_teardown (Some e)) b2 s1
       | (Inr _, b2) \<Rightarrow>
           if rc_credentials c \<noteq> None then at_place (Place_pairing False) b2 s1
           else serve_connection [App_worker, Sync_worker, Send_worker, History_worker, Drain_worker]
             (s1\<lparr>rs_bridge := b2\<rparr>)))"

definition wa_begin :: "wa_link \<Rightarrow> run_call \<Rightarrow> run_state \<Rightarrow> run_state" where
  "wa_begin K c s = (case prepare_once c (rs_bridge s) of (err, b) \<Rightarrow>
     if err \<noteq> None then leave_early [] err b s
     else if rc_offline c then at_place Place_offline
       (set_status ''offline'' ''Serving stored history without an upstream connection'' b) s
     else (case bind_act (wa_namespace K c) (\<lambda>ns. bind_act (wa_device K c ns) (\<lambda>d. return_act (linked_provider K ns d))) b of
         (Inl e, b1) \<Rightarrow> leave_early [] (Some e) b1 s
       | (Inr P, b1) \<Rightarrow> (case then_act (diagnose P) (update_quarantined P) b1 of
             (Inl e, b2) \<Rightarrow> leave_early [Cancel_context] (Some e) b2 s
           | (Inr _, b2) \<Rightarrow> wa_open K c P b2 s)))"

text \<open>One item of the channel of codes; \<open>Qr_closed\<close> is the channel closed, after which it is not read.\<close>

datatype qr_item = Qr_code string | Qr_ended | Qr_other | Qr_closed

definition wa_code :: "wa_link \<Rightarrow> run_call \<Rightarrow> u64 \<Rightarrow> qr_item \<Rightarrow> bool \<Rightarrow> bool bact" where
  "wa_code K c generation item requested = (case item of
       Qr_code code \<Rightarrow>
         let phone = (case map_of (the (rc_credentials c)) ''phone'' of None \<Rightarrow> [] | Some p \<Rightarrow> p) in
         if phone \<noteq> [] then
           if requested then return_act True
           else bind_act (try_act (wk_pair_phone K phone)) (\<lambda>r. case r of
               Inl e \<Rightarrow> fail_act (ErrText ''WhatsApp phone linking failed'')
             | Inr linking \<Rightarrow> then_act (mod_act (whatsapp_code generation ''code'' linking)) (return_act True))
         else then_act (mod_act (whatsapp_code generation ''qr'' code)) (return_act requested)
     | Qr_ended \<Rightarrow> fail_act (ErrText ''WhatsApp pairing expired or failed'')
     | _ \<Rightarrow> return_act requested)"

text \<open>The device answered: the session that is saved names the namespace of its keys.\<close>

definition wa_commit :: "wa_link \<Rightarrow> run_call \<Rightarrow> u64 \<Rightarrow> wa_provider \<Rightarrow> unit bact" where
  "wa_commit K c generation P = bind_act (get_act (\<lambda>b. b_done b \<or> call_ended c b)) (\<lambda>ended.
     commit_paired (wk_sum K) ended generation (JText (enc_wa_session (wp_ns P))))"

definition error_of :: "go_error + 'a \<Rightarrow> go_error option" where
  "error_of r = (case r of Inl e \<Rightarrow> Some e | Inr _ \<Rightarrow> None)"

definition wa_paired :: "wa_link \<Rightarrow> run_call \<Rightarrow> go_error option \<Rightarrow> run_state \<Rightarrow> run_state" where
  "wa_paired K c reply s = (let s = s\<lparr>rs_paired := None\<rparr> in case reply of
       Some e \<Rightarrow> at_place (Place_leaving whatsapp_teardown (Some e)) (rs_bridge s) s
     | None \<Rightarrow> (case wa_commit K c (rs_generation s) (rs_linked s) (rs_bridge s) of
         (r, b) \<Rightarrow> at_place (Place_leaving whatsapp_teardown (error_of r)) b s))"

section \<open>WhatsApp: its own workers\<close>

text \<open>The app state every half minute, and when all of it arrived the address book.\<close>

definition app_turn :: "wa_link \<Rightarrow> wa_provider \<Rightarrow> unit app_act" where
  "app_turn K P = bind_act (try_act (sync_app_state P (wk_fetch K) (wk_names K))) (\<lambda>r.
     if r = Inr [] then on_base (then_act
       (bind_act (try_act (contacts_act (wk_lower K) (whatsapp_provider P (wk_client K) (wk_request K)) True)) (\<lambda>_. return_act ()))
       (mod_act request_sync))
     else return_act ())"

text \<open>The inbox every second.\<close>

definition drain_turn :: "inbox_codecs \<Rightarrow> wa_provider \<Rightarrow> bridge \<Rightarrow> loop_next \<times> bridge" where
  "drain_turn C P b = (case drain C P persist b of (r, b1) \<Rightarrow>
     if (\<exists>e. error_of r = Some e \<and> \<not> errors_is e ErrCanceled)
     then (Loop_stop, stop_provider (ErrText ''WhatsApp inbox processing failed'') b1)
     else (case update_quarantined P b1 of
         (Inl e, b2) \<Rightarrow> (Loop_stop, stop_provider (ErrText ''WhatsApp quarantine status unavailable'') b2)
       | (Inr _, b2) \<Rightarrow> (Loop_wait, b2)))"

section \<open>Events\<close>

definition wa_ingest :: "wa_link \<Rightarrow> wa_provider \<Rightarrow> pending + string \<Rightarrow> unit bact" where
  "wa_ingest K P m = (case m of Inl e \<Rightarrow> then_act (ingest_event (wk_codecs K) P e) (return_act ())
     | Inr _ \<Rightarrow> return_act ())"

definition wa_retry :: "wa_provider \<Rightarrow> pending + string \<Rightarrow> unit app_act" where
  "wa_retry P m = (case m of Inl _ \<Rightarrow> return_act () | Inr name \<Rightarrow> retry_sync P name)"

text \<open>
  The handler of a WhatsApp client: an event that is not ingested stops the connection.  The retry of
  an app state also changes what \<open>AppStateSync\<close> remembers.
\<close>

definition wa_listen :: "wa_link \<Rightarrow> (pending + string) whatsapp_event \<Rightarrow> run_state \<Rightarrow> run_state" where
  "wa_listen K e s = (let P = rs_linked s; b = rs_bridge s in
     case whatsapp_handle (wk_logged_out K) (\<lambda>_. wa_ingest K P) (\<lambda>m b. let (r, w) = wa_retry P m (b, rs_app s) in (r, fst w)) e b of
       (r, b1) \<Rightarrow> s\<lparr>
         rs_bridge := (if \<exists>x. error_of r = Some x \<and> \<not> errors_is x ErrCanceled
           then stop_provider (ErrText ''WhatsApp event ingestion failed'') b1 else b1),
         rs_paired := (if b_stopped b then rs_paired s else paired_answer e (rs_paired s)),
         rs_app := (case e of App_state_error m \<Rightarrow> if b_stopped b then rs_app s else snd (snd (wa_retry P m (b, rs_app s)))
           | _ \<Rightarrow> rs_app s)\<rparr>)"

section \<open>Leaving\<close>

fun leave_ready :: "leave \<Rightarrow> run_state \<Rightarrow> bool" where
  "leave_ready Await_operations s = (rs_operations s = 0)"
| "leave_ready Await_workers s = (rs_workers s = [])"
| "leave_ready _ s = True"

definition report_stop :: "run_call \<Rightarrow> bridge \<Rightarrow> bridge" where
  "report_stop c b = (if call_ended c b \<and> \<not> failed b then set_status ''stopped'' [] b else b)"

definition keep_storage :: "bridge \<Rightarrow> bridge" where
  "keep_storage b = (if b_storage_err b = None then b else
     (let b1 = set_state ''storage_failed'' b
      in b1\<lparr>b_status := (b_status b1)\<lparr>st_transport := False, st_phone := False\<rparr>\<rparr>))"

fun leave_effect :: "run_call \<Rightarrow> leave \<Rightarrow> run_state \<Rightarrow> run_state" where
  "leave_effect c Cancel_context s = s\<lparr>rs_bridge := (rs_bridge s)\<lparr>b_done := True\<rparr>\<rparr>"
| "leave_effect c Drop_provider s = s\<lparr>rs_bridge := set_provider False (rs_bridge s)\<rparr>"
| "leave_effect c Await_operations s = s"
| "leave_effect c Await_workers s = s"
| "leave_effect c Disconnect s = s\<lparr>rs_client := False\<rparr>"
| "leave_effect c Remove_handler s = s\<lparr>rs_handling := False\<rparr>"
| "leave_effect c Close_events s = s\<lparr>rs_bridge := close_handler (rs_bridge s)\<rparr>"
| "leave_effect c Report_stop s = s\<lparr>rs_bridge := report_stop c (rs_bridge s)\<rparr>"
| "leave_effect c Keep_storage s = s\<lparr>rs_bridge := keep_storage (rs_bridge s)\<rparr>"

definition leave_result :: "leave \<Rightarrow> bridge \<Rightarrow> go_error option \<Rightarrow> go_error option" where
  "leave_result l b r = (if l = Keep_storage \<and> b_storage_err b \<noteq> None then b_storage_err b else r)"

section \<open>The moves\<close>

datatype actor = Main | Worker worker | Listener | Caller | Elsewhere

fun run_provider :: "'m network \<Rightarrow> run_state \<Rightarrow> provider" where
  "run_provider (Google G) s = google_provider (gl_google G)"
| "run_provider (Whatsapp K) s = whatsapp_provider (rs_linked s) (wk_client K) (wk_request K)"

text \<open>
  What goes on outside the connection may change all of the bridge but for what a \<open>Run\<close> and its
  supervisor own: the provider is not put back, a closed handler and an ended context stay so.
\<close>

definition lifetime :: "bridge \<Rightarrow> bridge \<Rightarrow> bool" where
  "lifetime b b' \<longleftrightarrow> (b_provider b' \<longrightarrow> b_provider b) \<and> (b_stopped b \<longrightarrow> b_stopped b') \<and> (b_done b \<longrightarrow> b_done b')"

definition with_bridge :: "bridge \<Rightarrow> run_state \<Rightarrow> run_state" where
  "with_bridge b s = s\<lparr>rs_bridge := b\<rparr>"

definition joined :: "worker \<Rightarrow> run_state \<Rightarrow> run_state" where
  "joined w s = s\<lparr>rs_workers := remove1 w (rs_workers s)\<rparr>"

text \<open>A call through \<open>borrowProvider\<close> by a client of the service.\<close>

inductive operation :: "provider \<Rightarrow> bridge \<Rightarrow> bridge \<Rightarrow> bool" for p where
  "operation p b (snd (mark_read_act p conv i b))"
| "operation p b (snd (typing_act p conv b))"
| "operation p b (snd (attachment_act size p i b))"
| "operation p b (snd (request_attachment p i b))"
| "operation p b (snd (contacts_act lower p refresh b))"

inductive run_step :: "'m network \<Rightarrow> run_call \<Rightarrow> actor \<Rightarrow> run_state \<Rightarrow> run_state \<Rightarrow> bool" where
  google_begins: "rs_place s = Place_begin \<Longrightarrow> run_step (Google G) c Main s (google_begin G c s)"
| wa_begins: "rs_place s = Place_begin \<Longrightarrow> run_step (Whatsapp K) c Main s (wa_begin K c s)"
| google_offline_ends: "rs_place s = Place_offline \<Longrightarrow> call_ended c (rs_bridge s) \<Longrightarrow>
    run_step (Google G) c Main s (leave_early google_early None (set_status ''stopped'' [] (rs_bridge s)) s)"
| google_offline_fails: "rs_place s = Place_offline \<Longrightarrow> b_fatal (rs_bridge s) = Some e \<Longrightarrow>
    run_step (Google G) c Main s (leave_early google_early (Some e) ((rs_bridge s)\<lparr>b_fatal := None\<rparr>) s)"
| wa_offline_ends: "rs_place s = Place_offline \<Longrightarrow> call_ended c (rs_bridge s) \<Longrightarrow>
    run_step (Whatsapp K) c Main s (leave_early [] None (rs_bridge s) s)"
| google_starts: "rs_place s = Place_starting \<Longrightarrow> rs_started s = Some r \<Longrightarrow>
    run_step (Google G) c Main s (google_started G c r s)"
| run_fails: "rs_place s \<in> {Place_starting, Place_pairing q, Place_serving} \<Longrightarrow> b_fatal (rs_bridge s) = Some e \<Longrightarrow>
    run_step N c Main s (at_place (Place_leaving (teardown N) (Some e)) ((rs_bridge s)\<lparr>b_fatal := None\<rparr>) s)"
| run_ends: "rs_place s \<in> {Place_starting, Place_serving} \<Longrightarrow> call_ended c (rs_bridge s) \<Longrightarrow>
    run_step N c Main s (at_place (Place_leaving (teardown N) None) (rs_bridge s) s)"
| pairing_ends: "rs_place s = Place_pairing q \<Longrightarrow> call_ended c (rs_bridge s) \<Longrightarrow> e \<in> {ErrCanceled, ErrDeadline} \<Longrightarrow>
    run_step (Whatsapp K) c Main s (at_place (Place_leaving whatsapp_teardown (Some e)) (rs_bridge s) s)"
| pairing_goes_on: "rs_place s = Place_pairing q \<Longrightarrow>
    wa_code K c (rs_generation s) item q (rs_bridge s) = (Inr q', b) \<Longrightarrow>
    run_step (Whatsapp K) c Main s (at_place (Place_pairing q') b s)"
| pairing_fails: "rs_place s = Place_pairing q \<Longrightarrow>
    wa_code K c (rs_generation s) item q (rs_bridge s) = (Inl e, b) \<Longrightarrow>
    run_step (Whatsapp K) c Main s (at_place (Place_leaving whatsapp_teardown (Some e)) b s)"
| pairing_answered: "rs_place s = Place_pairing q \<Longrightarrow> rs_paired s = Some r \<Longrightarrow>
    run_step (Whatsapp K) c Main s (wa_paired K c r s)"
| leaves: "rs_place s = Place_leaving (l # ls) r \<Longrightarrow> leave_ready l s \<Longrightarrow>
    run_step N c Main s ((leave_effect c l s)\<lparr>rs_place := Place_leaving ls (leave_result l (rs_bridge s) r)\<rparr>)"
| returns: "rs_place s = Place_leaving [] r \<Longrightarrow> run_step N c Main s (s\<lparr>rs_place := Place_returned r\<rparr>)"
| starts: "Starter \<in> set (rs_workers s) \<Longrightarrow>
    google_starter G c (rs_generation s) (rs_auth s) (rs_bridge s) = (r, b) \<Longrightarrow>
    run_step (Google G) c (Worker Starter) s (joined Starter (s\<lparr>rs_bridge := b, rs_started := Some r\<rparr>))"
| syncs: "Sync_worker \<in> set (rs_workers s) \<Longrightarrow>
    run_step N c (Worker Sync_worker) s (with_bridge (snd (sync_turn (run_provider N s) l (rs_bridge s))) s)"
| sends: "Send_worker \<in> set (rs_workers s) \<Longrightarrow> send_turn (run_provider N s) (rs_bridge s) = (next, b) \<Longrightarrow>
    run_step N c (Worker Send_worker) s (with_bridge b (if next = Loop_stop then joined Send_worker s else s))"
| imports_pages: "History_worker \<in> set (rs_workers s) \<Longrightarrow> history_turn h (run_provider N s) (rs_bridge s) = (next, b) \<Longrightarrow>
    run_step N c (Worker History_worker) s (with_bridge b (if next = Loop_stop then joined History_worker s else s))"
| syncs_app: "App_worker \<in> set (rs_workers s) \<Longrightarrow>
    app_turn K (rs_linked s) (rs_bridge s, rs_app s) = (r, (b, a)) \<Longrightarrow>
    run_step (Whatsapp K) c (Worker App_worker) s (with_bridge b (s\<lparr>rs_app := a\<rparr>))"
| drains: "Drain_worker \<in> set (rs_workers s) \<Longrightarrow>
    drain_turn (wk_codecs K) (rs_linked s) (rs_bridge s) = (next, b) \<Longrightarrow>
    run_step (Whatsapp K) c (Worker Drain_worker) s (with_bridge b (if next = Loop_stop then joined Drain_worker s else s))"
| worker_ends: "w \<in> set (rs_workers s) \<Longrightarrow> w \<noteq> Starter \<Longrightarrow> b_done (rs_bridge s) \<Longrightarrow>
    run_step N c (Worker w) s (joined w s)"
| google_hears: "rs_handling s \<Longrightarrow>
    run_step (Google G) c Listener s (with_bridge (snd (google_handle (gl_snapshot G) e (rs_bridge s))) s)"
| wa_hears: "rs_handling s \<Longrightarrow> run_step (Whatsapp K) c Listener s (wa_listen K ev s)"
| borrows: "b_provider (rs_bridge s) \<Longrightarrow>
    run_step N c Caller s (s\<lparr>rs_operations := rs_operations s + 1\<rparr>)"
| operates: "rs_operations s > 0 \<Longrightarrow> operation (run_provider N s) (rs_bridge s) b \<Longrightarrow>
    run_step N c Caller s (with_bridge b s)"
| releases: "rs_operations s > 0 \<Longrightarrow> run_step N c Caller s (s\<lparr>rs_operations := rs_operations s - 1\<rparr>)"
| others: "lifetime (rs_bridge s) b \<Longrightarrow> run_step N c Elsewhere s (with_bridge b s)"

text \<open>The state in which a \<open>Run\<close> is called, and what it can come to.\<close>

definition fresh_run :: "run_state \<Rightarrow> bool" where
  "fresh_run s \<longleftrightarrow> rs_place s = Place_begin \<and> rs_workers s = [] \<and> rs_operations s = 0 \<and>
     \<not> rs_handling s \<and> \<not> rs_client s \<and> \<not> b_provider (rs_bridge s)"

inductive run_comes :: "'m network \<Rightarrow> run_call \<Rightarrow> run_state \<Rightarrow> bool" for N c where
  called: "fresh_run s \<Longrightarrow> run_comes N c s"
| moved: "run_comes N c s \<Longrightarrow> run_step N c a s s' \<Longrightarrow> run_comes N c s'"

end
