(* ===== verification/ConnectionProperties.thy ===== *)
theory ConnectionProperties
  imports ConnectionRun GoogleProperties
begin

text \<open>
  What a \<open>Run\<close> leaves behind.  \<open>lifetime\<close> is kept by everything a worker, a handler or a borrowed call
  does, so a provider that was dropped and a handler that was closed stay so while the rest of the
  connection comes to its end; with the place in the list of deferred steps that gives an invariant of
  all states a \<open>Run\<close> can come to.
\<close>

section \<open>What every call keeps\<close>

definition life :: "bridge \<Rightarrow> bool \<times> bool \<times> bool" where
  "life b = (b_provider b, b_stopped b, b_done b)"

lemma lifetime_same: "life b' = life b \<Longrightarrow> lifetime b b'"
  by (simp add: life_def lifetime_def)

interpretation life_calls: storing_relation lifetime
  by unfold_locales (auto simp: lifetime_def storage_failure_def stop_provider_def set_status_def
      set_status_reason_def set_state_def notify_hub_def Let_def split: option.split)

named_theorems life_moves \<open>calls that keep \<open>lifetime\<close>\<close>

lemma life_frame [simp]:
  "life (b\<lparr>b_store := st\<rparr>) = life b" "life (b\<lparr>b_fatal := f\<rparr>) = life b" "life (b\<lparr>b_storage_err := se\<rparr>) = life b"
  "life (b\<lparr>b_send_wake := w\<rparr>) = life b" "life (b\<lparr>b_sync_wake := w\<rparr>) = life b" "life (b\<lparr>b_full_sync := w\<rparr>) = life b"
  "life (b\<lparr>b_history_wake := w\<rparr>) = life b" "life (b\<lparr>b_pair_wake := w\<rparr>) = life b" "life (b\<lparr>b_reconnect_wake := w\<rparr>) = life b"
  "life (b\<lparr>b_pairing_state := ps\<rparr>) = life b" "life (b\<lparr>b_pair_cookies := cs\<rparr>) = life b" "life (b\<lparr>b_pairing := w\<rparr>) = life b"
  "life (b\<lparr>b_typing_sent := ty\<rparr>) = life b" "life (b\<lparr>b_media_requested := ty\<rparr>) = life b" "life (b\<lparr>b_phone_cause := pc\<rparr>) = life b"
  "life (b\<lparr>b_status := s\<rparr>) = life b" "life (b\<lparr>b_hub := h\<rparr>) = life b" "life (b\<lparr>b_quarantined := n\<rparr>) = life b"
  "life (b\<lparr>b_pair_canceled := w\<rparr>) = life b" "life (b\<lparr>b_pair_running := w\<rparr>) = life b"
  by (simp_all add: life_def)

lemma life_pure [simp]:
  "life (set_state state b) = life b" "life (notify_hub b) = life b"
  "life (set_status_reason state reason detail b) = life b" "life (set_status state detail b) = life b"
  "life (record_event ev b) = life b" "life (request_sync b) = life b" "life (end_pairing state reason detail b) = life b"
  "life (expire_pairing b) = life b" "life (pairing_emoji g e b) = life b" "life (whatsapp_code g k code b) = life b"
  by (simp_all add: set_state_def notify_hub_def set_status_reason_def set_status_def record_event_def
      request_sync_def end_pairing_def expire_pairing_def pairing_emoji_def whatsapp_code_def Let_def)

lemma life_failures [simp]:
  "life (stop_provider e b) = life b" "life (storage_failure e b) = life b"
  "life (connection ev transport phone cause b) = life b" "life (session_expired b) = life b"
  by (simp_all add: stop_provider_def storage_failure_def connection_def session_expired_def Let_def split: option.split)

lemma life_events [simp]:
  "life (phone_alert a b) = life b" "life (phone_unresponsive cause b) = life b"
  by (simp_all add: phone_alert_def phone_unresponsive_def split: option.split)

lemma life_commit: "life (snd (commit_db m b)) = life b"
  by (simp add: commit_db_def split: prod.split)

lemma life_pairing [simp]: "life (clear_attempt b) = life b" "life (snd (pairing_status b)) = life b"
proof -
  show c: "life (clear_attempt b) = life b" for b
  proof -
    obtain r b1 where run: "commit_db clear_pairing_attempt b = (r, b1)" by fastforce
    with life_commit [of clear_pairing_attempt b] show ?thesis
      by (cases r) (simp_all add: clear_attempt_def)
  qed
  define b2 where "b2 = (if pairing_expired b \<and> \<not> b_pair_running b then clear_attempt (expire_pairing b)
    else expire_pairing b)"
  have "life b2 = life b" by (simp add: b2_def c)
  then show "life (snd (pairing_status b)) = life b"
    unfolding pairing_status_def Let_def b2_def [symmetric] by (simp split: sum.split)
qed

lemma life_mod [life_moves]: "(\<And>b. life (f b) = life b) \<Longrightarrow> always lifetime (mod_act f)"
  by (simp add: always_def mod_act_def lifetime_same)

lemma life_view [life_moves]: "always lifetime (view_db m)" "always lifetime (commit_db m)"
  by (simp_all add: always_def view_db_def life_commit lifetime_same)

lemma life_snapshot [life_moves]:
  "always lifetime (save_snapshot snap fence)" "always lifetime (persist snap)" "always lifetime (apply_snapshot snap n)"
  unfolding persist_def apply_snapshot_def save_snapshot_def
  by (intro life_calls.rules life_moves; simp)+


section \<open>The provider, the loops, the calls of clients\<close>

lemma life_provider [life_moves]:
  assumes "provider_within lifetime p"
  shows "always lifetime (pv_conversations p)" "always lifetime (pv_messages p c)"
    "always lifetime (pv_contacts p)" "always lifetime (pv_create p r g)"
    "always lifetime (pv_react p t m e rm)" "always lifetime (pv_typing p t)"
    "always lifetime (pv_upload p d n mt)" "always lifetime (pv_message_page p c d)"
    "always lifetime (pv_conversation_page p f d)" "always lifetime (pv_prepare p c)"
    "always lifetime (pv_send p t out)" "always lifetime (pv_mark_read p c i)"
    "always lifetime (pv_attachment p d)" "always lifetime (pv_request_media p d)"
  using assms by (simp_all add: provider_within_def)

lemma life_require [life_moves]:
  "always lifetime (require_act c e)" "always lifetime (require_current kind i)"
  "always lifetime (find_upload i)" "always lifetime queued_sends" "always lifetime due_jobs"
  "always lifetime watermark_act"
  unfolding require_act_def require_current_def find_upload_def queued_sends_def due_jobs_def watermark_act_def
  by (intro life_calls.rules life_moves; simp)+

lemma life_guarded [life_moves]:
  "always lifetime m \<Longrightarrow> always lifetime (unless_pairing m)"
  "always lifetime m \<Longrightarrow> always lifetime (when_connected m)"
  "always lifetime m \<Longrightarrow> always lifetime (storage_error m)"
  unfolding unless_pairing_def when_connected_def storage_error_def
  by (intro life_calls.rules life_moves; assumption)+

lemma life_queue [life_moves]:
  "always lifetime (claim_send i)" "always lifetime (page_failed h job cur e)"
  "always lifetime (queue_history_act h c f restart)"
  unfolding claim_send_def page_failed_def queue_history_act_def Let_def
  by (intro life_calls.rules life_moves; simp)+

lemma life_clients [life_moves]:
  assumes p: "provider_within lifetime p"
  shows "always lifetime (mark_read_act p conv i)" "always lifetime (typing_act p conv)"
    "always lifetime (attachment_act text p i)" "always lifetime (request_attachment p i)"
    "always lifetime (contacts_act lower p refresh)"
  unfolding mark_read_act_def typing_act_def attachment_act_def request_attachment_def
    contacts_act_def stored_contacts_def stale_book_def save_book_def
  by (intro life_calls.rules life_moves p impI conjI; simp add: p life_moves)+

lemma life_send_one:
  assumes p: "provider_within lifetime p"
  shows "always lifetime (send_one p)"
proof -
  have media: "always lifetime (upload_media p i)" "always lifetime (prepare_one p i target)"
    "always lifetime (prepare_media p target req)" for i target req
    unfolding upload_media_def prepare_one_def prepare_media_def
    by (intro life_calls.rules life_moves p; simp)+
  have sent: "always lifetime (finish_send out answer)" "always lifetime (prepare_target p candidate)"
    "always lifetime (dispatch p target out fence)" for out answer candidate target fence
    unfolding finish_send_def prepare_target_def dispatch_def Let_def
    by (intro life_calls.rules life_moves p media; simp)+
  have tried: "always lifetime (refuse_candidate candidate)" "always lifetime (claim_and_send p candidate target)"
    "always lifetime (try_candidate p candidate)" for candidate target
    unfolding refuse_candidate_def claim_and_send_def try_candidate_def
    by (intro life_calls.rules life_moves sent media p; simp)+
  have "always lifetime (send_candidates p queued blocked)" for queued blocked
    by (induction queued arbitrary: blocked)
      (auto simp: Let_def intro!: life_calls.rules tried split: candidate_next.split)
  then show ?thesis
    unfolding send_one_def by (intro life_calls.rules life_moves)
qed

lemma life_history_one:
  assumes p: "provider_within lifetime p"
  shows "always lifetime (history_one h p)"
proof -
  have s: "always lifetime (import_snapshot h job fence snap)" for job fence snap
    unfolding import_snapshot_def Let_def by (intro life_calls.rules life_moves)
  have i: "always lifetime (import_page h p job)" for job
    unfolding import_page_def by (intro life_calls.rules life_moves p s; simp)
  show ?thesis
    unfolding history_one_def by (auto intro!: life_calls.rules life_moves i split: list.splits)
qed

lemma life_turns:
  assumes p: "provider_within lifetime p"
  shows "lifetime b (snd (send_turn p b))" "lifetime b (snd (history_turn h p b))" "lifetime b (snd (sync_turn p l b))"
proof -
  have fail: "lifetime a b \<Longrightarrow> lifetime a (storage_failure e b)" for a b e
    using life_calls.R_trans life_calls.failing by blast
  show "lifetime b (snd (send_turn p b))"
    using alwaysD [OF life_send_one [OF p], of b] fail
    by (auto simp: send_turn_def life_calls.R_refl split: prod.splits sum.splits)
  show "lifetime b (snd (history_turn h p b))"
    using alwaysD [OF life_history_one [OF p], of b h] fail
    by (auto simp: history_turn_def life_calls.R_refl split: prod.splits sum.splits)
  have one: "always (beside lifetime) (reconcile_one p fence c)" for fence c
    unfolding reconcile_one_def Let_def
    by (intro life_calls.refresh.rules life_calls.on_bridge life_calls.mark life_moves p)
  have reconciled: "always (beside lifetime) (reconcile p)"
    unfolding reconcile_def by (intro life_calls.refresh.rules life_calls.on_bridge one life_moves p)
  define b1 where "b1 = b\<lparr>b_full_sync := False, b_status := (b_status b)\<lparr>st_sync_state := ''running''\<rparr>\<rparr>"
  define seen where "seen = (if b_full_sync b then map_option (\<lambda>_ _. None) (sy_seen l) else sy_seen l)"
  obtain r b2 seen' where run: "reconcile p (b1, seen) = (r, (b2, seen'))" by (metis surj_pair)
  then have l2: "lifetime b b2"
    using always_run [OF reconciled run] by (simp add: beside_def b1_def lifetime_def)
  have "life (snd (sync_failed t l' b2)) = life b2" "life (snd (sync_finished t l' b2)) = life b2" for t l'
    by (simp_all add: sync_failed_def sync_finished_def sync_reached_phone_def Let_def)
  then have "lifetime b (snd (sync_failed t l' b2))" "lifetime b (snd (sync_finished t l' b2))" for t l'
    using l2 lifetime_same life_calls.R_trans by blast+
  then show "lifetime b (snd (sync_turn p l b))"
    using run by (cases r) (auto simp: sync_turn_def Let_def life_calls.R_refl simp flip: b1_def seen_def)
qed

section \<open>Beside the app state\<close>

definition app_lifetime :: "bridge \<times> app_sync \<Rightarrow> bridge \<times> app_sync \<Rightarrow> bool" where
  "app_lifetime w w' \<longleftrightarrow> lifetime (fst w) (fst w')"

interpretation life_app: act_relation app_lifetime
  by unfold_locales (auto simp: app_lifetime_def intro: life_calls.R_refl life_calls.R_trans)

section \<open>What is assumed of the client libraries\<close>

text \<open>
  A call of a client library may leave the bridge in any state the rest of the service can bring it to
  meanwhile, and the callback of a pairing only shows the emoji.
\<close>

fun network_within :: "'m network \<Rightarrow> bool" where
  "network_within (Google G) \<longleftrightarrow> google_client_within lifetime (gp_client (gl_google G)) \<and>
     (\<forall>a. always lifetime (gl_start_pairing G a)) \<and> (\<forall>a x. always lifetime (gl_finish_pairing G a x)) \<and>
     (\<forall>a. always lifetime (gl_saved G a)) \<and> (\<forall>a. always lifetime (gl_connect G a))"
| "network_within (Whatsapp K) \<longleftrightarrow> wa_client_within lifetime (wk_client K) \<and>
     always lifetime (wk_qr_channel K) \<and> always lifetime (wk_connect K) \<and>
     (\<forall>x. always lifetime (wk_pair_phone K x)) \<and> (\<forall>n f. always app_lifetime (wk_fetch K n f))"

definition run_within :: "'m network \<Rightarrow> run_call \<Rightarrow> bool" where
  "run_within N c \<longleftrightarrow> network_within N \<and> (\<forall>code b. lifetime b (rc_emoji c code b))"

section \<open>Events and the workers of a network\<close>

lemma life_google_handle: "always lifetime (google_handle f e)"
proof -
  have i: "always lifetime (ingest f m)" for m
    unfolding ingest_def by (intro life_calls.rules life_moves; simp)
  have s: "always lifetime (snapshot_session auth)" for auth
    unfolding snapshot_session_def by (intro life_calls.rules life_moves; simp)
  have "always lifetime (google_event_act f e)"
    by (cases e) (auto simp: google_event_act_def Let_def intro!: life_calls.rules life_moves i s split: sum.split)
  then show ?thesis
    unfolding google_handle_def by (intro life_calls.rules)
qed

lemma life_commit_paired: "always lifetime (commit_paired h x generation data)"
  unfolding commit_paired_def by (intro life_calls.rules life_moves; simp)

lemma life_google_starter:
  assumes "run_within (Google G) c"
  shows "always lifetime (google_starter G c generation auth)"
proof -
  have calls: "always lifetime (gl_start_pairing G a)" "always lifetime (gl_finish_pairing G a x)"
    "always lifetime (gl_saved G a)" "always lifetime (gl_connect G a)" for a x
    using assms by (simp_all add: run_within_def)
  have shown: "always lifetime (mod_act (rc_emoji c code))" for code
    using assms by (simp add: run_within_def always_def mod_act_def)
  show ?thesis
    unfolding google_starter_def google_pair_def by (intro life_calls.rules calls shown life_commit_paired)
qed

lemma beside_base: "always lifetime m \<Longrightarrow> always app_lifetime (on_base m)"
  by (auto simp: always_def on_base_def app_lifetime_def split: prod.splits) (metis snd_conv)

lemma beside_sync: "always app_lifetime (mod_sync f)"
  by (auto simp: always_def mod_sync_def mod_act_def app_lifetime_def life_calls.R_refl split: prod.splits)

lemma beside_retry: "always app_lifetime (wa_retry P m)"
  unfolding wa_retry_def retry_sync_def note_complete_def
  by (intro life_app.rules beside_base beside_sync life_calls.chats)

lemma life_app_turn:
  assumes own: "run_within (Whatsapp K) c" "wp_client P = Some (wk_client K)"
  shows "always app_lifetime (app_turn K P)"
proof -
  have p: "provider_within lifetime (whatsapp_provider P (wk_client K) request)" for request
    using own life_calls.wa_within by (simp add: run_within_def)
  have fetch: "always app_lifetime (wk_fetch K n f)" for n f
    using own by (simp add: run_within_def)
  have "upholds (touches ns UNIV) (latest_app_key W ns)" for W ns
    unfolding latest_app_key_def by (auto intro!: touches.rules touching split: prod.split)
  note key = life_calls.creds [OF this]
  have one: "always app_lifetime (sync_one P (wk_fetch K) name failures)" for name failures
    unfolding sync_one_def note_complete_def
    by (intro life_app.rules beside_base beside_sync life_calls.chats fetch)
  have "always app_lifetime (sync_app_state P (wk_fetch K) (wk_names K))"
    unfolding sync_app_state_def by (intro life_app.rules beside_base key one)
  then show ?thesis
    unfolding app_turn_def
    by (intro life_app.rules beside_base life_calls.rules life_clients p life_moves; simp)
qed

lemma life_update_quarantined: "always lifetime (update_quarantined P)"
proof -
  have "upholds (touches (wp_ns P) UNIV) (quarantined (wp_ns P))"
    unfolding quarantined_def count_at_def Let_def by (intro touches.rules touching; simp)
  then show ?thesis
    unfolding update_quarantined_def by (intro life_calls.rules life_calls.creds life_moves; simp)
qed

lemma life_drain_turn:
  assumes own: "run_within (Whatsapp K) c" "wp_client P = Some (wk_client K)"
  shows "lifetime b (snd (drain_turn C P b))"
proof -
  obtain r b1 where d: "drain C P persist b = (r, b1)" by fastforce
  obtain q b2 where u: "update_quarantined P b1 = (q, b2)" by fastforce
  have "lifetime b b1"
    by (rule always_run [OF life_calls.drained d]) (use own in \<open>auto simp: run_within_def life_moves\<close>)
  moreover have "lifetime b1 b2" using always_run [OF life_update_quarantined u] .
  moreover have "lifetime x y \<Longrightarrow> lifetime x (stop_provider e y)" for x y e
    using lifetime_same [OF life_failures(1)] life_calls.R_trans by blast
  ultimately show ?thesis
    using life_calls.R_trans by (auto simp: drain_turn_def d u split: sum.split)
qed

lemma life_wa_listen: "lifetime (rs_bridge s) (rs_bridge (wa_listen K e s))"
proof -
  define retry where "retry m b = (let (r, w) = wa_retry (rs_linked s) m (b, rs_app s) in (r, fst w))" for m b
  have r: "always lifetime (retry m)" for m
    using beside_retry [of "rs_linked s" m]
    by (auto simp: always_def retry_def app_lifetime_def split: prod.splits) (metis fst_conv snd_conv)
  have i: "always lifetime (wa_ingest K (rs_linked s) m)" for m
    unfolding wa_ingest_def ingest_event_def by (intro life_calls.rules life_calls.inbox)
  have "always lifetime (whatsapp_event_act (\<lambda>_. wa_ingest K (rs_linked s)) retry e)"
    by (cases e) (auto simp: whatsapp_event_act_def intro!: life_calls.rules life_moves i r split: option.split)
  then have "always lifetime (whatsapp_handle (wk_logged_out K) (\<lambda>_. wa_ingest K (rs_linked s)) retry e)"
    by (auto simp: whatsapp_handle_def intro!: life_calls.rules life_moves split: option.split prod.split)
  moreover have "lifetime x y \<Longrightarrow> lifetime x (stop_provider e y)" for x y e
    using lifetime_same [OF life_failures(1)] life_calls.R_trans by blast
  ultimately show ?thesis
    by (auto simp: wa_listen_def Let_def retry_def [abs_def] split: prod.split dest!: alwaysD [of _ _ "rs_bridge s"])
qed

section \<open>What holds at every place\<close>

text \<open>A step of any goroutine but the one that runs \<open>Run\<close>.\<close>

definition quiet :: "run_state \<Rightarrow> run_state \<Rightarrow> bool" where
  "quiet s s' \<longleftrightarrow> rs_place s' = rs_place s \<and> lifetime (rs_bridge s) (rs_bridge s') \<and>
     set (rs_workers s') \<subseteq> set (rs_workers s) \<and>
     (rs_operations s' \<le> rs_operations s \<or> b_provider (rs_bridge s)) \<and>
     rs_handling s' = rs_handling s \<and> rs_client s' = rs_client s \<and> rs_linked s' = rs_linked s"

fun linked :: "'m network \<Rightarrow> run_state \<Rightarrow> bool" where
  "linked (Google G) s \<longleftrightarrow> True"
| "linked (Whatsapp K) s \<longleftrightarrow> Starter \<notin> set (rs_workers s) \<and> (rs_workers s \<noteq> [] \<or> rs_operations s > 0 \<or> rs_handling s \<or> b_provider (rs_bridge s) \<longrightarrow>
     wp_client (rs_linked s) = Some (wk_client K))"

lemma provider_linked:
  assumes "run_within N c" and "linked N s" and "rs_workers s \<noteq> [] \<or> rs_operations s > 0"
  shows "provider_within lifetime (run_provider N s)"
  using assms life_calls.google_within life_calls.wa_within by (cases N) (auto simp: run_within_def)

lemma quietI:
  "lifetime (rs_bridge s) b \<Longrightarrow> quiet s (with_bridge b s)"
  "lifetime (rs_bridge s) b \<Longrightarrow> quiet s (with_bridge b (if q then joined w s else s))"
  using set_remove1_subset by (fastforce simp: quiet_def with_bridge_def joined_def)+

lemma operation_life: "operation p b b' \<Longrightarrow> provider_within lifetime p \<Longrightarrow> lifetime b b'"
  by (induction rule: operation.induct) (auto intro: alwaysD [OF life_clients(1)] alwaysD [OF life_clients(2)]
      alwaysD [OF life_clients(3)] alwaysD [OF life_clients(4)] alwaysD [OF life_clients(5)])

lemma step_quiet:
  assumes "run_step N c a s s'" and "a \<noteq> Main" and own: "run_within N c" and ok: "linked N s"
  shows "quiet s s'"
  using assms(1,2) own ok
proof (induction rule: run_step.induct)
  case (starts s G c r b)
  with always_run [OF life_google_starter] set_remove1_subset [of Starter "rs_workers s"]
  show ?case by (fastforce simp: quiet_def joined_def)
next
  case (syncs s N c l)
  then have "provider_within lifetime (run_provider N s)" by (metis provider_linked empty_iff set_empty2)
  then show ?case by (intro quietI life_turns)
next
  case (sends s N nxt b c)
  then have "provider_within lifetime (run_provider N s)" by (metis provider_linked empty_iff set_empty2)
  with sends life_turns(1) show ?case by (metis quietI(2) snd_conv)
next
  case (imports_pages s h N nxt b c)
  then have "provider_within lifetime (run_provider N s)" by (metis provider_linked empty_iff set_empty2)
  with imports_pages life_turns(2) show ?case by (metis quietI(2) snd_conv)
next
  case (syncs_app s K r b a c)
  then have "wp_client (rs_linked s) = Some (wk_client K)" by auto
  from always_run [OF life_app_turn [OF syncs_app(4) this] syncs_app(2)]
  show ?case by (simp add: quiet_def with_bridge_def app_lifetime_def)
next
  case (drains s K nxt b c)
  then have "wp_client (rs_linked s) = Some (wk_client K)" by auto
  from life_drain_turn [OF drains(4) this] drains(2) show ?case by (metis quietI(2) snd_conv)
next
  case (worker_ends w s N c)
  then show ?case using set_remove1_subset by (fastforce simp: quiet_def joined_def life_calls.R_refl)
next
  case (google_hears s G c e)
  show ?case by (intro quietI alwaysD [OF life_google_handle])
next
  case (wa_hears s K c ev)
  show ?case using life_wa_listen [of s K ev] by (simp add: quiet_def wa_listen_def Let_def split: prod.split)
next
  case (operates s N b c)
  then show ?case by (intro quietI) (metis operation_life provider_linked)
qed (auto simp: quiet_def with_bridge_def life_calls.R_refl)

text \<open>What is done once the steps \<open>ls\<close> are all that is left.\<close>

definition left_behind :: "leave list \<Rightarrow> run_state \<Rightarrow> bool" where
  "left_behind ls s \<longleftrightarrow> (Drop_provider \<in> set ls \<or> \<not> b_provider (rs_bridge s)) \<and>
     (Await_operations \<in> set ls \<or> rs_operations s = 0) \<and> (Await_workers \<in> set ls \<or> rs_workers s = []) \<and>
     (Close_events \<in> set ls \<or> \<not> rs_handling s \<or> b_stopped (rs_bridge s)) \<and>
     (Disconnect \<in> set ls \<or> \<not> rs_client s) \<and>
     (Cancel_context \<in> set ls \<or> Await_workers \<notin> set ls \<or> b_done (rs_bridge s))"

definition leaving_lists :: "'m network \<Rightarrow> leave list set" where
  "leaving_lists N = insert [Cancel_context] (set (suffixes (teardown N)))"

definition idle :: "run_state \<Rightarrow> bool" where
  "idle s \<longleftrightarrow> rs_workers s = [] \<and> rs_operations s = 0 \<and> \<not> rs_handling s \<and> \<not> rs_client s \<and> \<not> b_provider (rs_bridge s)"

definition place_ok :: "'m network \<Rightarrow> run_state \<Rightarrow> bool" where
  "place_ok N s \<longleftrightarrow> (case rs_place s of
       Place_begin \<Rightarrow> idle s
     | Place_offline \<Rightarrow> idle s
     | Place_starting \<Rightarrow> \<not> b_provider (rs_bridge s) \<and> rs_operations s = 0
     | Place_pairing q \<Rightarrow> \<not> b_provider (rs_bridge s) \<and> rs_operations s = 0
     | Place_serving \<Rightarrow> True
     | Place_leaving ls r \<Rightarrow> ls \<in> leaving_lists N \<and> left_behind ls s
     | Place_returned r \<Rightarrow> left_behind [] s)"

definition run_ok :: "'m network \<Rightarrow> run_state \<Rightarrow> bool" where
  "run_ok N s \<longleftrightarrow> linked N s \<and> place_ok N s"

lemma teardown_order: "ls \<in> leaving_lists N \<Longrightarrow> Await_operations \<in> set ls \<or> Drop_provider \<notin> set ls"
  by (cases N) (auto simp: leaving_lists_def google_teardown_def whatsapp_teardown_def)

lemma quiet_ok:
  assumes q: "quiet s s'" and ok: "run_ok N s"
  shows "run_ok N s'"
proof -
  have b: "b_provider (rs_bridge s') \<longrightarrow> b_provider (rs_bridge s)" "b_stopped (rs_bridge s) \<longrightarrow> b_stopped (rs_bridge s')"
    "b_done (rs_bridge s) \<longrightarrow> b_done (rs_bridge s')" and w: "set (rs_workers s') \<subseteq> set (rs_workers s)"
    and o: "rs_operations s' \<le> rs_operations s \<or> b_provider (rs_bridge s)"
    and f: "rs_handling s' = rs_handling s" "rs_client s' = rs_client s" "rs_linked s' = rs_linked s" "rs_place s' = rs_place s"
    using q by (simp_all add: quiet_def lifetime_def)
  have w0: "rs_workers s' \<noteq> [] \<Longrightarrow> rs_workers s \<noteq> []" using w by auto
  have o0: "rs_operations s' > 0 \<Longrightarrow> rs_operations s > 0 \<or> b_provider (rs_bridge s)" using o by auto
  then have o1: "rs_operations s = 0 \<Longrightarrow> \<not> b_provider (rs_bridge s) \<Longrightarrow> rs_operations s' = 0" by auto
  have "linked N s" using ok by (simp add: run_ok_def)
  then have "linked N s'"
    using b(1) w w0 o0 f by (cases N) (simp, simp, blast)
  moreover have "idle s \<Longrightarrow> idle s'"
    using b(1) w o f by (auto simp: idle_def)
  moreover have "left_behind ls s \<Longrightarrow> Await_operations \<in> set ls \<or> Drop_provider \<notin> set ls \<Longrightarrow> left_behind ls s'" for ls
    using b w0 o1 f(1,2) unfolding left_behind_def by metis
  then have "ls \<in> leaving_lists N \<Longrightarrow> left_behind ls s \<Longrightarrow> left_behind ls s'" "left_behind [] s \<Longrightarrow> left_behind [] s'" for ls
    using teardown_order by (blast, simp)
  ultimately show ?thesis
    using ok b(1) o f by (auto simp: run_ok_def place_ok_def split: place.splits)
qed

section \<open>The steps of Run itself\<close>

lemma prepare_life: "prepare_once c b = (e, b') \<Longrightarrow> lifetime b b'"
proof -
  have one: "always lifetime (upgrade_legacy (rc_upgrade c) kind)" for kind
    unfolding upgrade_legacy_def by (intro life_calls.rules life_moves)
  have "always lifetime (prepare_bridge (rc_upgrade c))"
    unfolding prepare_bridge_def
    by (intro life_calls.rules life_moves one; simp add: restarted_pairing_def)
  then show "prepare_once c b = (e, b') \<Longrightarrow> lifetime b b'"
    using life_calls.R_refl
    by (auto simp: prepare_once_def split: option.splits prod.splits sum.splits dest: always_run)
qed

lemma idle_early: "idle s \<Longrightarrow> \<not> b_provider b \<Longrightarrow> place_ok (Google G) (leave_early google_early r b s)"
  by (simp add: place_ok_def leave_early_def at_place_def idle_def left_behind_def leaving_lists_def google_early_def
      google_teardown_def)

lemma early_linked: "linked N s \<Longrightarrow> \<not> b_provider b \<Longrightarrow> linked N (at_place p b s)"
  by (cases N) (auto simp: at_place_def)

lemma life_field: "life b' = life b \<Longrightarrow> b_provider b' = b_provider b"
  by (simp add: life_def)

lemma google_open_ok:
  assumes "idle s" and "\<not> b_provider b"
  shows "place_ok (Google G) (google_open c auth b s)"
proof -
  obtain ps b1 where p: "pairing_status (b\<lparr>b_pairing := rc_credentials c \<noteq> None\<rparr>) = (ps, b1)" by fastforce
  have "life b1 = life b" using life_pairing(2) [of "b\<lparr>b_pairing := rc_credentials c \<noteq> None\<rparr>"] unfolding p by simp
  moreover have "b_provider (set_status x y (b1\<lparr>b_done := False\<rparr>)) = b_provider b1" for x y
    by (simp add: set_status_def set_status_reason_def set_state_def notify_hub_def Let_def)
  ultimately show ?thesis
    using assms unfolding google_open_def p prod.case Let_def place_ok_def at_place_def
    by (simp add: idle_def life_def)
qed

lemma google_begin_ok:
  assumes "idle s"
  shows "place_ok (Google G) (google_begin G c s)"
proof -
  obtain e b where p: "prepare_once c (rs_bridge s) = (e, b)" by fastforce
  then have n: "\<not> b_provider b" using assms prepare_life by (auto simp: idle_def lifetime_def)
  have k: "\<not> b_provider (set_status x y b)" "\<not> b_provider (no_google_session b)" "\<not> b_provider (invalid_google_session b)" for x y
    using n by (simp_all add: no_google_session_def invalid_google_session_def life_field [OF life_pure(3)] life_field [OF life_pure(4)])
  note early = idle_early [OF assms n] idle_early [OF assms k(2)] idle_early [OF assms k(3)]
  have off: "place_ok (Google G) (at_place Place_offline (set_status x y b) s)" for x y
    using assms k(1) by (simp add: place_ok_def at_place_def idle_def)
  show ?thesis
  proof (cases "e \<noteq> None \<or> rc_offline c \<or> rc_credentials c \<noteq> None")
    case True
    then show ?thesis
      using early off google_open_ok [OF assms n] unfolding google_begin_def p by (auto split: option.split)
  next
    case False
    show ?thesis
    proof (cases "view_tx session (b_store b)")
      case (Inr data)
      then show ?thesis
        using False by (simp add: google_begin_def p early google_open_ok [OF assms n] split: option.split)
    qed (use False early in \<open>simp add: google_begin_def p\<close>)
  qed
qed

lemma wa_begin_parts:
  assumes "run_within (Whatsapp K) c"
  shows "always lifetime (wa_namespace K c)" "always lifetime (wa_device K c ns)" "always lifetime (diagnose P)"
    "always lifetime (wa_connect K c)" "always lifetime (wa_code K c g item q)" "always lifetime (wa_commit K c g P)"
proof -
  have pure: "life (no_wa_session b) = life b" "life (invalid_wa_session b) = life b" for b
    by (simp_all add: no_wa_session_def invalid_wa_session_def)
  have calls: "always lifetime (wk_qr_channel K)" "always lifetime (wk_connect K)" "always lifetime (wk_pair_phone K x)" for x
    using assms by (simp_all add: run_within_def)
  show "always lifetime (wa_namespace K c)"
    unfolding wa_namespace_def by (intro life_calls.rules life_moves pure)
  have "upholds (touches ns UNIV) (load_device W ns d)" for W d
    unfolding load_device_def Let_def by (intro touches.rules touching)
  then show "always lifetime (wa_device K c ns)"
    unfolding wa_device_def by (intro life_calls.rules life_calls.creds life_moves; simp)
  show "always lifetime (diagnose P)"
    unfolding diagnose_def by (intro life_calls.rules life_calls.inbox)
  show "always lifetime (wa_connect K c)"
    unfolding wa_connect_def by (intro life_calls.rules life_moves calls; simp)
  show "always lifetime (wa_code K c g item q)"
    unfolding wa_code_def Let_def
    by (cases item) (auto intro!: life_calls.rules life_moves calls split: sum.split)
  show "always lifetime (wa_commit K c g P)"
    unfolding wa_commit_def by (intro life_calls.rules life_commit_paired)
qed


lemma idle_wa: "idle s \<Longrightarrow> \<not> b_provider b \<Longrightarrow> ls \<in> {[], [Cancel_context]} \<Longrightarrow> run_ok (Whatsapp K) (leave_early ls r b s)"
  by (auto simp: run_ok_def place_ok_def leave_early_def at_place_def idle_def left_behind_def leaving_lists_def)

lemma full_teardown: "place_ok N (at_place (Place_leaving (teardown N) r) b s)"
  by (cases N) (simp_all add: place_ok_def at_place_def leaving_lists_def left_behind_def google_teardown_def
      whatsapp_teardown_def)

lemma wa_leaving: "rs_place s = Place_leaving whatsapp_teardown r \<Longrightarrow> place_ok (Whatsapp K) s"
  by (simp add: place_ok_def leaving_lists_def left_behind_def whatsapp_teardown_def)

lemma serving_place [simp]: "place_ok N (serve_connection ws s)"
  by (simp add: place_ok_def serve_connection_def at_place_def)

lemma wa_open_ok:
  assumes own: "run_within (Whatsapp K) c" and i: "idle s" and n: "\<not> b_provider b" and P: "wp_client P = Some (wk_client K)"
  shows "run_ok (Whatsapp K) (wa_open K c P b s)"
proof -
  obtain ps b1 where p: "pairing_status (b\<lparr>b_done := False\<rparr>) = (ps, b1)" by fastforce
  obtain r b2 where run: "wa_connect K c b1 = (r, b2)" by fastforce
  have "life b1 = life (b\<lparr>b_done := False\<rparr>)" using life_pairing(2) [of "b\<lparr>b_done := False\<rparr>"] by (simp add: p)
  then have "\<not> b_provider b1" using n by (simp add: life_def)
  then have n2: "\<not> b_provider b2" using always_run [OF wa_begin_parts(4) [OF own] run] by (simp add: lifetime_def)
  show ?thesis
  proof (cases r)
    case (Inl e)
    then show ?thesis
      using P i by (auto simp: wa_open_def p run run_ok_def Let_def at_place_def idle_def intro!: wa_leaving)
  next
    case (Inr u)
    then show ?thesis
      using i n2 P by (simp add: wa_open_def p run run_ok_def Let_def at_place_def place_ok_def idle_def serve_connection_def)
  qed
qed

lemma wa_begin_ok:
  assumes own: "run_within (Whatsapp K) c" and i: "idle s"
  shows "run_ok (Whatsapp K) (wa_begin K c s)"
proof -
  obtain e b where p: "prepare_once c (rs_bridge s) = (e, b)" by fastforce
  then have n: "\<not> b_provider b" using i prepare_life by (auto simp: idle_def lifetime_def)
  define m where "m = bind_act (wa_namespace K c) (\<lambda>ns. bind_act (wa_device K c ns) (\<lambda>d. return_act (linked_provider K ns d)))"
  have m_life: "always lifetime m"
    unfolding m_def by (intro life_calls.rules wa_begin_parts [OF own])
  have P: "wp_client P = Some (wk_client K)" if "m b = (Inr P, b1)" for P b1
    using that by (auto simp: m_def bind_act_def act_steps linked_provider_def split: prod.splits sum.splits)
  obtain r b1 where run: "m b = (r, b1)" by fastforce
  then have n1: "\<not> b_provider b1" using n always_run [OF m_life run] by (simp add: lifetime_def)
  show ?thesis
  proof (cases "e \<noteq> None \<or> rc_offline c")
    case True
    have "\<not> b_provider (set_status x y b)" for x y using n by (simp add: life_field [OF life_pure(4)])
    then have "run_ok (Whatsapp K) (at_place Place_offline (set_status x y b) s)" for x y
      using i by (simp add: run_ok_def place_ok_def at_place_def idle_def)
    with True show ?thesis by (auto simp: wa_begin_def p idle_wa [OF i n])
  next
    case False
    show ?thesis
    proof (cases r)
      case (Inl x)
      with False run show ?thesis by (simp add: wa_begin_def p idle_wa [OF i n1] flip: m_def)
    next
      case (Inr P)
      obtain q b2 where q: "then_act (diagnose P) (update_quarantined P) b1 = (q, b2)" by fastforce
      have seen: "always lifetime (then_act (diagnose P) (update_quarantined P))"
        by (intro life_calls.rules wa_begin_parts [OF own] life_update_quarantined)
      then have n2: "\<not> b_provider b2" using n1 always_run [OF seen q] by (simp add: lifetime_def)
      show ?thesis
        using False run Inr q P [of P b1]
        by (cases q) (simp_all add: wa_begin_def p idle_wa [OF i n2] wa_open_ok [OF own i n2] flip: m_def)
    qed
  qed
qed

text \<open>One deferred step.\<close>

lemma keeps_provider [simp]:
  "b_provider (report_stop c b) = b_provider b" "b_stopped (report_stop c b) = b_stopped b" "b_done (report_stop c b) = b_done b"
  "b_provider (keep_storage b) = b_provider b" "b_stopped (keep_storage b) = b_stopped b" "b_done (keep_storage b) = b_done b"
  "b_provider (close_handler b) = b_provider b" "b_stopped (close_handler b)" "b_done (close_handler b) = b_done b"
  "b_provider (set_provider x b) = x" "b_stopped (set_provider x b) = b_stopped b" "b_done (set_provider x b) = b_done b"
  by (simp_all add: report_stop_def keep_storage_def close_handler_def set_provider_def set_status_def
      set_status_reason_def set_state_def notify_hub_def Let_def)

lemma leave_one:
  assumes "left_behind (l # ls) s" and "leave_ready l s"
  shows "left_behind ls (leave_effect c l s)"
  using assms by (cases l) (auto simp: left_behind_def)

lemma leave_linked: "linked N s \<Longrightarrow> linked N (leave_effect c l s)"
  by (cases N; cases l) auto

lemma leaving_tail: "l # ls \<in> leaving_lists N \<Longrightarrow> ls \<in> leaving_lists N"
  by (cases N) (auto simp: leaving_lists_def google_teardown_def whatsapp_teardown_def)

lemma left_frame [simp]: "left_behind ls (s\<lparr>rs_place := p\<rparr>) = left_behind ls s"
  by (simp add: left_behind_def)

lemma linked_frame [simp]: "linked N (s\<lparr>rs_place := p\<rparr>) = linked N s"
  by (cases N) simp_all

lemma main_ok:
  assumes step: "run_step N c a s s'" and "a = Main" and own: "run_within N c" and ok: "run_ok N s"
  shows "run_ok N s'"
  using step assms(2) own ok
proof (induction rule: run_step.induct)
  case (google_begins s G c)
  then show ?case using google_begin_ok [of s G c] by (simp add: run_ok_def place_ok_def)
next
  case (wa_begins s K c)
  then show ?case using wa_begin_ok [of K c s] by (simp add: run_ok_def place_ok_def)
next
  case (google_offline_ends s c G)
  then show ?case
    using idle_early [of s "set_status ''stopped'' [] (rs_bridge s)" G] life_field [OF life_pure(4)]
    by (simp add: run_ok_def place_ok_def [of _ s] idle_def)
next
  case (google_offline_fails s e G c)
  then show ?case
    using idle_early [of s "(rs_bridge s)\<lparr>b_fatal := None\<rparr>" G] by (simp add: run_ok_def place_ok_def [of _ s] idle_def)
next
  case (wa_offline_ends s c K)
  then show ?case using idle_wa [of s "rs_bridge s" "[]" K] by (simp add: run_ok_def place_ok_def [of _ s] idle_def)
next
  case (google_starts s r G c)
  then show ?case
    using full_teardown [of "Google G"] by (auto simp: run_ok_def google_started_def Let_def split: sum.split)
next
  case (run_fails s q e N c)
  have "linked N (at_place p (b\<lparr>b_fatal := None\<rparr>) s)" if "linked N s" "b = rs_bridge s" for p b
    using that by (cases N) (simp_all add: at_place_def)
  with run_fails show ?case using full_teardown [of N] by (simp add: run_ok_def)
next
  case (run_ends s c N)
  have "linked N (at_place p (rs_bridge s) s)" if "linked N s" for p
    using that by (cases N) (simp_all add: at_place_def)
  with run_ends show ?case using full_teardown [of N] by (simp add: run_ok_def)
next
  case (pairing_ends s q c e K)
  have "place_ok (Whatsapp K) (at_place (Place_leaving whatsapp_teardown (Some e)) (rs_bridge s) s)"
    by (rule wa_leaving) (simp add: at_place_def)
  with pairing_ends show ?case by (simp add: run_ok_def at_place_def)
next
  case (pairing_goes_on s q K c item q' b)
  with always_run [OF wa_begin_parts(5) pairing_goes_on(2)]
  show ?case by (auto simp: run_ok_def place_ok_def at_place_def lifetime_def)
next
  case (pairing_fails s q K c item e b)
  with always_run [OF wa_begin_parts(5) pairing_fails(2)]
  show ?case by (auto simp: run_ok_def at_place_def lifetime_def intro!: wa_leaving)
next
  case (pairing_answered s q r K c)
  obtain x b where run: "wa_commit K c (rs_generation s) (rs_linked s) (rs_bridge s) = (x, b)" by fastforce
  have "lifetime (rs_bridge s) b" using always_run [OF wa_begin_parts(6) run] pairing_answered by simp
  with pairing_answered show ?case
    by (cases r) (auto simp: run_ok_def wa_paired_def Let_def run at_place_def lifetime_def intro!: wa_leaving)
next
  case (leaves s l ls r N c)
  then show ?case
    using leave_one [of l ls s c] leave_linked [of N s c l] leaving_tail [of l ls N]
    by (simp add: run_ok_def place_ok_def)
next
  case (returns s r N c)
  then show ?case by (simp add: run_ok_def place_ok_def)
qed simp_all

lemma run_comes_ok:
  assumes "run_comes N c s" and own: "run_within N c"
  shows "run_ok N s"
  using assms(1)
proof (induction rule: run_comes.induct)
  case (called s)
  then show ?case by (cases N) (simp_all add: fresh_run_def run_ok_def place_ok_def idle_def)
next
  case (moved s a s')
  then show ?case
    using main_ok [OF moved(2) _ own] quiet_ok [OF step_quiet [OF moved(2) _ own]] by (metis run_ok_def)
qed

section \<open>The way out\<close>

text \<open>
  A step that brings the return nearer: one of \<open>Run\<close> itself, the end of a worker, or the end of a
  borrowed call.
\<close>

definition finishing :: "'m network \<Rightarrow> run_call \<Rightarrow> run_state \<Rightarrow> run_state \<Rightarrow> bool" where
  "finishing N c s s' \<longleftrightarrow> run_step N c Main s s' \<or>
     (\<exists>w \<in> set (rs_workers s). run_step N c (Worker w) s s' \<and> rs_workers s' = remove1 w (rs_workers s)) \<or>
     (run_step N c Caller s s' \<and> rs_operations s' < rs_operations s)"

definition weight :: "run_state \<Rightarrow> nat" where
  "weight s = (case rs_place s of Place_leaving ls r \<Rightarrow> Suc (length ls + length (rs_workers s) + rs_operations s)
     | _ \<Rightarrow> 0)"

definition on_its_way :: "run_state \<Rightarrow> bool" where
  "on_its_way s \<longleftrightarrow> (\<exists>ls r. rs_place s = Place_leaving ls r)"

definition has_returned :: "run_state \<Rightarrow> bool" where
  "has_returned s \<longleftrightarrow> (\<exists>r. rs_place s = Place_returned r)"

lemma leave_frame [simp]:
  "rs_workers (leave_effect c l s) = rs_workers s" "rs_operations (leave_effect c l s) = rs_operations s"
  by (cases l; simp)+

lemma main_leaving:
  assumes "run_step N c a s s'" and "a = Main" and "on_its_way s"
  shows "(on_its_way s' \<or> has_returned s') \<and> weight s' < weight s"
  using assms by (induction rule: run_step.induct) (auto simp: on_its_way_def has_returned_def weight_def)

lemma finishing_nears:
  assumes own: "run_within N c" and ok: "run_ok N s" and f: "finishing N c s s'" and w: "on_its_way s"
  shows "(on_its_way s' \<or> has_returned s') \<and> weight s' < weight s"
proof (cases "run_step N c Main s s'")
  case True
  then show ?thesis using main_leaving w by blast
next
  case False
  then obtain a where step: "run_step N c a s s'" "a \<noteq> Main"
    and less: "(\<exists>w \<in> set (rs_workers s). a = Worker w \<and> rs_workers s' = remove1 w (rs_workers s)) \<or>
      a = Caller \<and> rs_operations s' < rs_operations s"
    using f unfolding finishing_def by blast
  have q: "quiet s s'" using step_quiet [OF step own] ok by (simp add: run_ok_def)
  have place: "rs_place s' = rs_place s" using q by (simp add: quiet_def)
  have "rs_operations s' = rs_operations s" if "a = Worker w" for w
    using step(1) that by (induction rule: run_step.induct) (auto simp: joined_def with_bridge_def)
  moreover have "rs_workers s' = rs_workers s" if "a = Caller"
    using step(1) that by (induction rule: run_step.induct) (auto simp: with_bridge_def)
  ultimately have "length (rs_workers s') + rs_operations s' < length (rs_workers s) + rs_operations s"
    using less by (auto simp: length_remove1) (metis Suc_pred length_pos_if_in_set lessI)
  then show ?thesis
    using w place by (auto simp: on_its_way_def weight_def)
qed

lemma finishing_exists:
  assumes ok: "run_ok N s" and w: "on_its_way s"
  shows "\<exists>s'. finishing N c s s'"
proof -
  obtain ls r where place: "rs_place s = Place_leaving ls r" using w by (auto simp: on_its_way_def)
  show ?thesis
  proof (cases ls)
    case Nil
    then show ?thesis using place run_step.returns unfolding finishing_def by blast
  next
    case (Cons l rest)
    show ?thesis
    proof (cases "leave_ready l s")
      case True
      then show ?thesis using place Cons run_step.leaves unfolding finishing_def by blast
    next
      case False
      then consider "l = Await_operations" "rs_operations s > 0" | "l = Await_workers" "rs_workers s \<noteq> []"
        by (cases l) auto
      then show ?thesis
      proof cases
        case 1
        then have "run_step N c Caller s (s\<lparr>rs_operations := rs_operations s - 1\<rparr>)" by (intro run_step.releases)
        with 1 show ?thesis unfolding finishing_def by fastforce
      next
        case 2
        then obtain x where x: "x \<in> set (rs_workers s)" by (meson list.set_sel(1))
        have "ls \<in> leaving_lists N" and left: "left_behind ls s" using ok place by (simp_all add: run_ok_def place_ok_def)
        then have "Cancel_context \<notin> set ls"
          using 2 Cons by (cases N) (auto simp: leaving_lists_def google_teardown_def whatsapp_teardown_def)
        then have ended: "b_done (rs_bridge s)" using left 2 Cons by (simp add: left_behind_def)
        show ?thesis
        proof (cases "x = Starter")
          case False
          then have "run_step N c (Worker x) s (joined x s)" using x ended by (intro run_step.worker_ends)
          then show ?thesis using x unfolding finishing_def joined_def by fastforce
        next
          case True
          then obtain G where N: "N = Google G" using ok x by (cases N) (auto simp: run_ok_def)
          obtain q b where "google_starter G c (rs_generation s) (rs_auth s) (rs_bridge s) = (q, b)" by fastforce
          then have "run_step N c (Worker x) s (joined Starter (s\<lparr>rs_bridge := b, rs_started := Some q\<rparr>))"
            using x True N by (auto intro: run_step.starts)
          then show ?thesis using x True unfolding finishing_def joined_def by fastforce
        qed
      qed
    qed
  qed
qed

lemma way_out:
  assumes own: "run_within N c" and "run_comes N c s" and "on_its_way s"
  shows "(\<exists>s'. finishing N c s s') \<and> (\<forall>s'. finishing N c s s' \<longrightarrow> weight s' < weight s) \<and>
    (\<exists>n s'. n \<le> weight s \<and> (finishing N c ^^ n) s s' \<and> has_returned s')"
  using assms(2,3)
proof (induction "weight s" arbitrary: s rule: less_induct)
  case less
  have ok: "run_ok N s" using run_comes_ok [OF less(2) own] .
  obtain s' where f: "finishing N c s s'" using finishing_exists [OF ok less(3)] by blast
  have near: "(on_its_way t \<or> has_returned t) \<and> weight t < weight s" if "finishing N c s t" for t
    using finishing_nears [OF own ok that less(3)] .
  have comes: "run_comes N c s'" using f less(2) run_comes.moved unfolding finishing_def by blast
  have "\<exists>n t. n \<le> weight s \<and> (finishing N c ^^ n) s t \<and> has_returned t"
  proof (cases "has_returned s'")
    case True
    then have "(finishing N c ^^ 1) s s' \<and> has_returned s'" using f by (simp add: eq_OO)
    moreover have "1 \<le> weight s" using near [OF f] by simp
    ultimately show ?thesis by blast
  next
    case False
    then have "on_its_way s'" using near [OF f] by blast
    from less(1) [OF _ comes this] near [OF f]
    obtain n t where "n \<le> weight s'" "(finishing N c ^^ n) s' t" "has_returned t" by blast
    moreover from this(2) have "(finishing N c ^^ Suc n) s t" using f by (meson relpowp_Suc_I2)
    ultimately show ?thesis using near [OF f] by (metis Suc_leI dual_order.trans le_less_trans)
  qed
  with f near show ?case by blast
qed


lemma finishing_comes:
  "run_comes N c s \<Longrightarrow> (finishing N c ^^ n) s t \<Longrightarrow> run_comes N c t"
proof (induction n arbitrary: t)
  case (Suc n)
  then obtain u where "run_comes N c u" "finishing N c u t" by auto
  then show ?case using run_comes.moved unfolding finishing_def by blast
qed simp

text \<open>A pairing that ends while libgm is still being asked to start it.\<close>

definition quiet_link :: "unit google_link" where
  "quiet_link = \<lparr>gl_google = silent_google google_sample, gl_snapshot = (\<lambda>_. Inl ErrInvalid), gl_cookies = (\<lambda>_. []),
     gl_session = (\<lambda>_. None), gl_start_pairing = (\<lambda>_. fail_act ErrUnavailable), gl_finish_pairing = (\<lambda>_ _. fail_act ErrUnavailable),
     gl_saved = (\<lambda>_. fail_act ErrUnavailable), gl_connect = (\<lambda>_. fail_act ErrUnavailable), gl_auth_failure = (\<lambda>_. False),
     gl_text = (\<lambda>_. []), gl_sum = (\<lambda>_. [])\<rparr>"

definition pair_call :: run_call where
  "pair_call = \<lparr>rc_offline = False, rc_credentials = Some [], rc_expires = None, rc_emoji = (\<lambda>_ b. b),
     rc_prepared = Some None, rc_upgrade = (\<lambda>_ _. Inl ErrJson)\<rparr>"

definition new_run :: "bridge \<Rightarrow> run_state" where
  "new_run b = \<lparr>rs_bridge = b, rs_place = Place_begin, rs_workers = [], rs_operations = 0, rs_handling = False,
     rs_client = False, rs_started = None, rs_paired = None, rs_generation = 0, rs_auth = [],
     rs_linked = knowing_provider, rs_app = fresh_sync\<rparr>"

lemma quiet_within: "run_within (Google quiet_link) pair_call"
  by (simp add: run_within_def quiet_link_def pair_call_def silent_google_def silent_client_def
      google_client_within_def life_calls.R_refl)

lemma quiet_leaves:
  "\<exists>s. run_comes (Google quiet_link) pair_call s \<and> on_its_way s \<and> rs_workers s = [Starter] \<and> weight s = 11"
proof -
  let ?N = "Google quiet_link" and ?s0 = "new_run (new_bridge (empty_store 0))"
  have "fresh_run ?s0" by (simp add: fresh_run_def new_run_def)
  then have "run_comes ?N pair_call ?s0" by (rule run_comes.called)
  then have c1: "run_comes ?N pair_call (google_begin quiet_link pair_call ?s0)"
    by (rule run_comes.moved) (rule run_step.google_begins, simp add: new_run_def)
  define s1 where "s1 = google_begin quiet_link pair_call ?s0"
  obtain ps b1 where p: "pairing_status ((new_bridge (empty_store 0))\<lparr>b_pairing := True\<rparr>) = (ps, b1)" by fastforce
  have s1: "rs_place s1 = Place_starting" "rs_workers s1 = [Starter]" "rs_operations s1 = 0"
    by (simp_all add: s1_def google_begin_def google_open_def prepare_once_def pair_call_def new_run_def p at_place_def Let_def)
  define s2 where "s2 = with_bridge ((rs_bridge s1)\<lparr>b_interrupted := True\<rparr>) s1"
  have "run_comes ?N pair_call s2"
    using c1 unfolding s1_def [symmetric] s2_def
    by (rule run_comes.moved) (rule run_step.others, simp add: lifetime_def)
  moreover have s2: "rs_place s2 = Place_starting" "call_ended pair_call (rs_bridge s2)" "rs_workers s2 = [Starter]" "rs_operations s2 = 0"
    using s1 by (simp_all add: s2_def with_bridge_def call_ended_def pair_call_def)
  ultimately have "run_comes ?N pair_call (at_place (Place_leaving (teardown ?N) None) (rs_bridge s2) s2)"
    by (intro run_comes.moved [OF _ run_step.run_ends]) simp_all
  then show ?thesis
    using s2 by (intro exI [of _ "at_place (Place_leaving (teardown ?N) None) (rs_bridge s2) s2"] conjI)
      (simp_all add: at_place_def on_its_way_def weight_def google_teardown_def)
qed

section \<open>After the return\<close>

text \<open>C19: when \<open>Run\<close> has returned, however the workers, the events of the
  client library and the calls of the service's clients interleaved with it, none of its workers is
  left, no borrowed call is in flight and the provider is gone; and nothing that belongs to the
  connection, an event that arrives late included, changes anything any more.\<close>

theorem nothing_outlives_a_connection:
  assumes "run_within N c" and "run_comes N c s" and "rs_place s = Place_returned r"
  shows "rs_workers s = [] \<and> rs_operations s = 0 \<and> \<not> rs_client s \<and> \<not> b_provider (rs_bridge s) \<and>
    (\<forall>a s'. run_step N c a s s' \<and> a \<noteq> Elsewhere \<longrightarrow> s' = s)"
proof -
  have "left_behind [] s"
    using run_comes_ok [OF assms(2,1)] assms(3) by (simp add: run_ok_def place_ok_def)
  then have idle: "rs_workers s = []" "rs_operations s = 0" "\<not> rs_client s" "\<not> b_provider (rs_bridge s)"
    and deaf: "rs_handling s \<Longrightarrow> b_stopped (rs_bridge s)"
    by (auto simp: left_behind_def)
  have "s' = s" if "run_step N c a s s'" "a \<noteq> Elsewhere" for a s'
    using that idle deaf assms(3)
  proof (induction rule: run_step.induct)
    case (google_hears s G c e)
    then show ?case by (simp add: google_handle_def with_bridge_def act_steps)
  next
    case (wa_hears s K c ev)
    then show ?case
      by (simp add: wa_listen_def whatsapp_handle_def error_of_def Let_def act_steps split: whatsapp_event.split)
  qed simp_all
  with idle show ?thesis by blast
qed

theorem nothing_outlives_a_connection_witness:
  "\<exists>s. run_comes (Google quiet_link) pair_call s \<and> has_returned s \<and> rs_workers s = [] \<and>
     (\<forall>a s'. run_step (Google quiet_link) pair_call a s s' \<and> a \<noteq> Elsewhere \<longrightarrow> s' = s)"
proof -
  obtain s where s: "run_comes (Google quiet_link) pair_call s" "on_its_way s" using quiet_leaves by blast
  obtain n t where "(finishing (Google quiet_link) pair_call ^^ n) s t" and home: "has_returned t"
    using way_out [OF quiet_within s] by blast
  then have comes: "run_comes (Google quiet_link) pair_call t"
    using finishing_comes [OF s(1)] by blast
  from home obtain r where "rs_place t = Place_returned r" by (auto simp: has_returned_def)
  from nothing_outlives_a_connection [OF quiet_within comes this] comes home show ?thesis by blast
qed

section \<open>The return\<close>

text \<open>C20: a \<open>Run\<close> that leaves gets to its return.  From every state in which it
  is on its way out some goroutine of the connection can go on, every such step brings the return
  nearer, and so after no more steps than there are deferred statements, workers and borrowed calls
  left it has returned.\<close>

theorem leaving_ends_in_a_return:
  assumes own: "run_within N c" and "run_comes N c s" and "on_its_way s"
  shows "(\<exists>s'. finishing N c s s') \<and> (\<forall>s'. finishing N c s s' \<longrightarrow> weight s' < weight s) \<and>
    (\<exists>n s'. n \<le> weight s \<and> (finishing N c ^^ n) s s' \<and> has_returned s')"
  using way_out [OF assms] .

theorem leaving_ends_in_a_return_witness:
  "\<exists>s. run_comes (Google quiet_link) pair_call s \<and> rs_workers s = [Starter] \<and>
     (\<exists>n t. n \<le> 11 \<and> (finishing (Google quiet_link) pair_call ^^ n) s t \<and> has_returned t)"
proof -
  obtain s where s: "run_comes (Google quiet_link) pair_call s" "on_its_way s" "rs_workers s = [Starter]" "weight s = 11"
    using quiet_leaves by blast
  from leaving_ends_in_a_return [OF quiet_within s(1,2)] s show ?thesis by auto
qed

section \<open>Failures while offline\<close>

text \<open>C21: a storage failure while the service only serves stored history ends
  the \<open>Run\<close> of a Google connection with an error that says so, but not that of a WhatsApp connection,
  which goes on until its context ends.\<close>

theorem offline_failures_end_google_alone:
  assumes place: "rs_place s = Place_offline" and failure: "rs_bridge s = storage_failure e b"
    and first: "b_fatal b = None" and running: "\<not> call_ended c (rs_bridge s)"
  shows "(\<exists>s'. run_step (Google G) c Main s s' \<and> rs_place s' = Place_leaving google_early (Some ErrStorage)) \<and>
    \<not> (\<exists>s'. run_step (Whatsapp K) c Main s s')"
proof
  have "b_fatal (rs_bridge s) = Some ErrStorage"
    using first by (simp add: failure storage_failure_def stop_provider_def set_status_def set_status_reason_def
      set_state_def notify_hub_def Let_def)
  from run_step.google_offline_fails [OF place this]
  show "\<exists>s'. run_step (Google G) c Main s s' \<and> rs_place s' = Place_leaving google_early (Some ErrStorage)"
    by (fastforce simp: leave_early_def at_place_def)
  show "\<not> (\<exists>s'. run_step (Whatsapp K) c Main s s')"
    using place running by (auto elim!: run_step.cases)
qed

lemma failure_context:
  "b_ended (storage_failure e b) = b_ended b" "b_interrupted (storage_failure e b) = b_interrupted b"
  by (simp_all add: storage_failure_def stop_provider_def set_status_def set_status_reason_def set_state_def
      notify_hub_def Let_def split: option.split)

theorem offline_failures_end_google_alone_witness:
  "let s = (new_run (storage_failure ErrDecrypt (new_bridge (empty_store 0))))\<lparr>rs_place := Place_offline\<rparr> in
   (\<exists>s'. run_step (Google quiet_link) pair_call Main s s' \<and> rs_place s' = Place_leaving google_early (Some ErrStorage)) \<and>
   (\<forall>K. \<not> (\<exists>s'. run_step (Whatsapp K :: unit network) pair_call Main s s'))"
proof -
  let ?b = "new_bridge (empty_store 0)"
  let ?s = "(new_run (storage_failure ErrDecrypt ?b))\<lparr>rs_place := Place_offline\<rparr>"
  have s: "rs_place ?s = Place_offline" "rs_bridge ?s = storage_failure ErrDecrypt ?b" by (simp_all add: new_run_def)
  have b: "b_fatal ?b = None" "b_ended ?b = False" "b_interrupted ?b = False"
    by (simp_all add: new_bridge_def set_status_def set_status_reason_def set_state_def notify_hub_def Let_def)
  have "\<not> call_ended pair_call (rs_bridge ?s)"
    unfolding s(2) by (simp add: call_ended_def pair_call_def failure_context b)
  from offline_failures_end_google_alone [OF s b(1) this] show ?thesis unfolding Let_def by blast
qed

end
