(* ===== verification/PushSender.thy ===== *)
theory PushSender
  imports ApiHandlers PushWatch ServiceProperties
begin

text \<open>
  Web push: the sender of \<open>internal/push/push.go\<close> over the library that talks to the push services,
  the adapter of the service command that hands it to the API and to the watcher, and the loop
  \<open>WatchForPush\<close> of \<open>internal/bridge/push.go\<close>, by its turns.

  \<open>push_library\<close> stands for \<open>webpush-go\<close> and the standard library: new VAPID keys, the two JSON
  directions of a subscription, SHA-256 in hexadecimal, the delivery of one notification (an error or
  the status of the answer) and the order in which Go ranges over the map of subscriptions.
\<close>

section \<open>The sender\<close>

record web_subscription =
  ws_endpoint :: string
  ws_auth :: string
  ws_p256dh :: string

record push_library =
  pl_generate :: "go_error + push_keys"
  pl_body :: "string \<Rightarrow> payload"
  pl_read :: "payload \<Rightarrow> web_subscription option"
  pl_write :: "web_subscription \<Rightarrow> go_error + payload"
  pl_hash :: "string \<Rightarrow> string"
  pl_post :: "push_keys \<Rightarrow> string \<Rightarrow> payload \<Rightarrow> web_subscription \<Rightarrow> (go_error + nat) bact"
  pl_order :: "(string \<times> payload) list \<Rightarrow> (string \<times> payload) list"

record sender =
  sd_subject :: string
  sd_keys :: push_keys

record notification =
  nt_title :: string
  nt_body :: string
  nt_tag :: string
  nt_conversation :: string

definition enc_notification :: "notification \<Rightarrow> json" where
  "enc_notification n = JObj (jstr ''title'' (nt_title n)
     @ omit (nt_body n = []) (jstr ''body'' (nt_body n)) @ omit (nt_tag n = []) (jstr ''tag'' (nt_tag n))
     @ omit (nt_conversation n = []) (jstr ''conversation'' (nt_conversation n)))"

definition new_sender :: "push_library \<Rightarrow> string \<Rightarrow> sender bact" where
  "new_sender L subject = bind_act (commit_db (ensure_push_keys (pl_generate L))) (\<lambda>keys.
     return_act \<lparr>sd_subject = subject, sd_keys = keys\<rparr>)"

definition subscription_id :: "push_library \<Rightarrow> string \<Rightarrow> string" where
  "subscription_id L endpoint = pl_hash L endpoint"

definition valid_subscription :: "web_subscription \<Rightarrow> bool" where
  "valid_subscription w \<longleftrightarrow>
     \<not> (ws_endpoint w = [] \<or> length (ws_endpoint w) > 2048 \<or> ws_auth w = [] \<or> ws_p256dh w = [])"

definition subscribe_push :: "push_library \<Rightarrow> string \<Rightarrow> string bact" where
  "subscribe_push L raw = (case pl_read L (pl_body L raw) of None \<Rightarrow> fail_act ErrInvalid
     | Some w \<Rightarrow> if \<not> valid_subscription w then fail_act ErrInvalid
         else (case pl_write L w of Inl e \<Rightarrow> fail_act ErrInvalid
           | Inr normalized \<Rightarrow> let i = subscription_id L (ws_endpoint w) in
               then_act (commit_db (put_subscription i normalized)) (return_act i)))"

definition unsubscribe_push :: "push_library \<Rightarrow> string \<Rightarrow> unit bact" where
  "unsubscribe_push L endpoint = commit_db (delete_subscription (subscription_id L endpoint))"

definition count_push :: "nat bact" where
  "count_push = bind_act (view_db subscriptions) (\<lambda>subs. return_act (length subs))"

text \<open>An answer that says that the browser revoked or replaced its subscription.\<close>

definition gone :: "nat \<Rightarrow> bool" where
  "gone code \<longleftrightarrow> code = 404 \<or> code = 410"

definition deliver :: "push_library \<Rightarrow> sender \<Rightarrow> payload \<Rightarrow> web_subscription \<Rightarrow> string \<Rightarrow> unit bact" where
  "deliver L sd data w i = bind_act (pl_post L (sd_keys sd) (sd_subject sd) data w) (\<lambda>r. case r of
       Inl e \<Rightarrow> fail_act e
     | Inr code \<Rightarrow> if gone code then commit_db (delete_subscription i)
         else if code \<ge> 300 then fail_act (ErrText ''push endpoint returned'') else return_act ())"

definition push_one :: "push_library \<Rightarrow> sender \<Rightarrow> payload \<Rightarrow> string \<times> payload \<Rightarrow> go_error list \<Rightarrow>
    go_error list bact" where
  "push_one L sd data sub failures = (case pl_read L (snd sub) of
       None \<Rightarrow> bind_act (try_act (commit_db (delete_subscription (fst sub)))) (\<lambda>_. return_act failures)
     | Some w \<Rightarrow> bind_act (try_act (deliver L sd data w (fst sub))) (\<lambda>r. return_act (case r of
           Inl e \<Rightarrow> failures @ [e] | Inr _ \<Rightarrow> failures)))"

definition send_push :: "push_library \<Rightarrow> sender \<Rightarrow> notification \<Rightarrow> unit bact" where
  "send_push L sd n = bind_act (view_db subscriptions) (\<lambda>subs.
     bind_act (fold_act (push_one L sd (JText (enc_notification n))) (pl_order L subs) []) (\<lambda>failures.
     if failures = [] then return_act () else fail_act (ErrJoined failures)))"

text \<open>\<open>pushAdapter\<close>\<close>

definition push_adapter :: "push_library \<Rightarrow> sender \<Rightarrow> push_sender" where
  "push_adapter L sd = \<lparr>pn_public_key = vapid_public (sd_keys sd), pn_subscribe = subscribe_push L,
     pn_unsubscribe = unsubscribe_push L, pn_count = count_push,
     pn_send = (\<lambda>title body tag conversation. send_push L sd
       \<lparr>nt_title = title, nt_body = body, nt_tag = tag, nt_conversation = conversation\<rparr>)\<rparr>"

section \<open>The watcher\<close>

text \<open>
  \<open>WatchForPush\<close> starts at the watermark, then at each wake sends a linking notice that is due and
  has not been sent, and reads the events after its cursor batch by batch until there are none.
  \<open>watch_batch\<close> is one iteration of the inner loop, \<open>None\<close> where the loop ends.
\<close>

definition start_watch :: "push_state bact" where
  "start_watch = bind_act (view_db watermark) (\<lambda>n. then_act (mod_act notify_hub) (return_act (start_push n)))"

definition linking_notice :: "push_sender \<Rightarrow> (time \<Rightarrow> string) \<Rightarrow> string \<Rightarrow> string bact" where
  "linking_notice P show_time sent = bind_act (\<lambda>b. case pairing_push show_time b of (r, b') \<Rightarrow> (Inr r, b')) (\<lambda>(key, text).
     if key = [] \<or> key = sent then return_act sent
     else bind_act (try_act (pn_send P ''WhatsApp linking required'' text ''whatsapp-pairing'' [])) (\<lambda>r.
       return_act (case r of Inl e \<Rightarrow> sent | Inr _ \<Rightarrow> key)))"

definition announce_event :: "push_sender \<Rightarrow> event \<Rightarrow> push_state \<Rightarrow> push_state bact" where
  "announce_event P e st = bind_act (get_act (\<lambda>b. push_event b e (st, []))) (\<lambda>(st', notices).
     then_act (for_act (\<lambda>(title, text, tag, conversation). bind_act (try_act (pn_send P title text tag conversation))
       (\<lambda>_. return_act ())) notices) (return_act st'))"

definition watch_batch :: "push_sender \<Rightarrow> push_state \<Rightarrow> push_state option bact" where
  "watch_batch P st = bind_act (try_act (view_db (events (pu_cursor st) push_batch_size))) (\<lambda>r. case r of
       Inl e \<Rightarrow> return_act None
     | Inr es \<Rightarrow> if es = [] then return_act None
         else bind_act (fold_act (announce_event P) es st) (\<lambda>st'. return_act (Some st')))"

section \<open>Delivery: what it does to the stored subscriptions\<close>

text \<open>The subscriptions a sending drops: unreadable ones, and those the push service says are gone.\<close>

definition drops :: "push_library \<Rightarrow> (web_subscription \<Rightarrow> go_error + nat) \<Rightarrow> string \<times> payload \<Rightarrow> bool" where
  "drops L ans sub \<longleftrightarrow> (case pl_read L (snd sub) of None \<Rightarrow> True
     | Some w \<Rightarrow> (case ans w of Inl e \<Rightarrow> False | Inr code \<Rightarrow> gone code))"

definition reached :: "push_library \<Rightarrow> (web_subscription \<Rightarrow> go_error + nat) \<Rightarrow> string \<times> payload \<Rightarrow> bool" where
  "reached L ans sub \<longleftrightarrow> (case pl_read L (snd sub) of None \<Rightarrow> True
     | Some w \<Rightarrow> (case ans w of Inl e \<Rightarrow> False | Inr code \<Rightarrow> gone code \<or> code < 300))"

definition without :: "push_library \<Rightarrow> (web_subscription \<Rightarrow> go_error + nat) \<Rightarrow> string \<times> payload \<Rightarrow> bridge \<Rightarrow> bridge" where
  "without L ans sub b = (if drops L ans sub then b\<lparr>b_store := del_kv BPush (fst sub) (b_store b)\<rparr> else b)"

lemma run_delete_subscription:
  "exists_bucket (b_store b) BPush \<Longrightarrow>
   commit_db (delete_subscription i) b = (Inr (), b\<lparr>b_store := del_kv BPush i (b_store b)\<rparr>)"
  by (simp add: commit_db_def update_tx_def delete_subscription_def runs)

lemma run_push_one:
  assumes "\<And>k s p w b. pl_post L k s p w b = (Inr (ans w), b)" and "exists_bucket (b_store b) BPush"
  shows "\<exists>fs'. push_one L sd data sub fs b = (Inr fs', without L ans sub b) \<and>
    (fs' = [] \<longleftrightarrow> fs = [] \<and> reached L ans sub)"
  by (cases "pl_read L (snd sub)"; cases "ans (the (pl_read L (snd sub)))")
    (auto simp: push_one_def without_def drops_def reached_def deliver_def bind_act_def try_act_def act_steps
      assms run_delete_subscription)

lemma run_push_all:
  assumes "\<And>k s p w b. pl_post L k s p w b = (Inr (ans w), b)" and "exists_bucket (b_store b) BPush"
  shows "\<exists>fs'. fold_act (push_one L sd data) subs fs b = (Inr fs', fold (without L ans) subs b) \<and>
    (fs' = [] \<longleftrightarrow> fs = [] \<and> (\<forall>sub \<in> set subs. reached L ans sub))"
  using assms(2)
proof (induction subs arbitrary: fs b)
  case (Cons sub subs)
  obtain fs1 where one: "push_one L sd data sub fs b = (Inr fs1, without L ans sub b)"
      "fs1 = [] \<longleftrightarrow> fs = [] \<and> reached L ans sub"
    using run_push_one [OF assms(1) Cons.prems] by blast
  have "exists_bucket (b_store (without L ans sub b)) BPush"
    using Cons.prems by (simp add: without_def)
  from Cons.IH [OF this, of fs1] one show ?case by (auto simp: bind_act_def)
qed (simp add: act_steps)

lemma lookup_without:
  "lookup (b_store (fold (without L ans) subs b)) bk k =
   (if bk = BPush \<and> (\<exists>sub \<in> set subs. fst sub = k \<and> drops L ans sub) then None else lookup (b_store b) bk k)"
  by (induction subs arbitrary: b) (auto simp: without_def)


section \<open>A sample\<close>

definition browser :: web_subscription where
  "browser = \<lparr>ws_endpoint = ''e'', ws_auth = ''a'', ws_p256dh = ''p''\<rparr>"

definition gone_library :: push_library where
  "gone_library = \<lparr>pl_generate = Inl ErrJson, pl_body = Opaque, pl_read = (\<lambda>p. if p = Opaque ''s'' then Some browser else None),
     pl_write = (\<lambda>w. Inr (Opaque ''s'')), pl_hash = id, pl_post = (\<lambda>k s p w b. (Inr (Inr 410), b)), pl_order = rev\<rparr>"

definition subscribed :: bridge where
  "subscribed = new_bridge (put_kv BPush ''e'' (Sealed ''key'' (record_context BPush ''e'') (Opaque ''s'')) (empty_store 5))"

definition some_sender :: sender where
  "some_sender = \<lparr>sd_subject = [], sd_keys = \<lparr>vapid_private = [], vapid_public = []\<rparr>\<rparr>"

definition some_notice :: notification where
  "some_notice = \<lparr>nt_title = ''t'', nt_body = [], nt_tag = [], nt_conversation = []\<rparr>"

lemma run_subscribed: "view_tx subscriptions (b_store subscribed) = Inr [(''e'', Opaque ''s'')]"
  by (simp add: view_tx_def subscriptions_def subscribed_def exec runs pairs_simps decrypt_def kv_scan_def)


end
