(* ===== verification/ServiceCommand.thy ===== *)
theory ServiceCommand
  imports ConnectionRun PushSender CommandLine Routes
begin

text \<open>
  The service command (\<open>cmd/google-messages-multidevice-bridge/main.go\<close>): its flags and secrets, the
  checks before it serves, and \<open>serve\<close> with the goroutines it owns.  \<open>server\<close> is the bridge beside
  the HTTP handlers in progress, the gate in front of them, the connection and the watchers;
  \<open>serve_step\<close> has one case per move.  A request may arrive at any time, even when nobody accepts
  connections any more, since one that was accepted before may reach the gate late.
\<close>

section \<open>Secrets\<close>

text \<open>
  What the program reads: the environment, the output of \<open>pass show\<close> and the contents of files, in the
  pieces in which they are written or read, the standard input, base64 and a JSON object of cookies.
  \<open>None\<close> is a command that failed or a file that cannot be opened.
\<close>

record service_library =
  sl_env :: "string \<Rightarrow> string"
  sl_pass :: "string \<Rightarrow> (string list \<times> bool) option"   \<comment> \<open>what it writes, and whether it succeeds\<close>
  sl_file :: "string \<Rightarrow> string list option"
  sl_stdin :: "go_error + string"
  sl_base64 :: "string \<Rightarrow> string option"
  sl_cookies :: "string \<Rightarrow> (string \<times> string) list option"
  sl_listen :: "string \<Rightarrow> go_error option"
  sl_push :: push_library

definition max_secret :: nat where "max_secret = 4096"

definition write_secret :: "string \<Rightarrow> string \<Rightarrow> string option" where  \<comment> \<open>\<open>boundedSecret.Write\<close>\<close>
  "write_secret data value = (if length value + length data > max_secret then None else Some (value @ data))"

fun copy_secret :: "string list \<Rightarrow> string \<Rightarrow> string option" where
  "copy_secret [] value = Some value"
| "copy_secret (data # rest) value = Option.bind (write_secret data value) (copy_secret rest)"

fun limit_reader :: "nat \<Rightarrow> string list \<Rightarrow> string list" where  \<comment> \<open>\<open>io.LimitReader\<close>\<close>
  "limit_reader n [] = []"
| "limit_reader n (data # rest) = (if n = 0 then [] else take n data # limit_reader (n - length data) rest)"

definition secret_file_value :: "service_library \<Rightarrow> string \<Rightarrow> go_error + string" where
  "secret_file_value L path = (case sl_file L path of
       None \<Rightarrow> Inl (ErrText ''could not read secret file'')
     | Some data \<Rightarrow> (case copy_secret (limit_reader (max_secret + 1) data) [] of
         None \<Rightarrow> Inl (ErrText ''secret exceeds size limit'')
       | Some value \<Rightarrow> Inr (trim_space value)))"

definition secret_value :: "service_library \<Rightarrow> string \<Rightarrow> string \<Rightarrow> string \<Rightarrow> go_error + string" where
  "secret_value L env entry path =
    (if path \<noteq> [] then secret_file_value L path
     else if entry = [] then Inr (sl_env L env)
     else if take 1 entry = ''-'' \<or> contains_any entry [CHR 0x0D, CHR 0x0A, CHR 0x00]
     then Inl (ErrText ''invalid pass entry'')
     else (case sl_pass L entry of
         Some (written, True) \<Rightarrow> (case copy_secret written [] of
             None \<Rightarrow> Inl (ErrText ''could not read pass entry; ensure the password store is unlocked'')
           | Some value \<Rightarrow> Inr (trim_space value))
       | _ \<Rightarrow> Inl (ErrText ''could not read pass entry; ensure the password store is unlocked'')))"

section \<open>Flags and checks\<close>

definition service_flags :: flag_spec where
  "service_flags = map (\<lambda>name. (name, Text_flag)) [''db'', ''listen'', ''storage-key-pass-entry'',
     ''api-token-pass-entry'', ''storage-key-file'', ''api-token-file'', ''push-subject'', ''network'']
     @ [(''offline'', Bool_flag)]"

record service_settings =
  st_pair :: bool
  st_values :: "(string \<times> string) list"
  st_key :: string

definition db_path :: "service_settings \<Rightarrow> string" where
  "db_path S = text_value (st_values S) ''db'' ''data/google-messages-multidevice-bridge.db''"

definition listen_address :: "service_settings \<Rightarrow> string" where
  "listen_address S = text_value (st_values S) ''listen'' ''127.0.0.1:0''"

definition push_subject :: "service_settings \<Rightarrow> string" where
  "push_subject S = text_value (st_values S) ''push-subject''
     ''https://github.com/colonelpanic8/google-messages-multidevice-bridge''"

definition network_flag :: "service_settings \<Rightarrow> string" where
  "network_flag S = text_value (st_values S) ''network'' ''google-messages''"

definition env_prefix :: string where "env_prefix = ''GOOGLE_MESSAGES_MULTIDEVICE_BRIDGE_''"

definition storage_key :: "service_library \<Rightarrow> (string \<times> string) list \<Rightarrow> go_error + string" where
  "storage_key L vals =
    (case secret_value L (env_prefix @ ''STORAGE_KEY'') (text_value vals ''storage-key-pass-entry'' [])
        (text_value vals ''storage-key-file'' []) of
       Inl e \<Rightarrow> Inl e
     | Inr v \<Rightarrow> (case sl_base64 L v of
         Some key \<Rightarrow> if length key \<noteq> 32
           then Inl (ErrText (env_prefix @ ''STORAGE_KEY must be a base64-encoded 32-byte key'')) else Inr key
       | None \<Rightarrow> Inl (ErrText (env_prefix @ ''STORAGE_KEY must be a base64-encoded 32-byte key''))))"

text \<open>\<open>run\<close> up to the opening of the database; \<open>None\<close> when help was asked for.\<close>

definition service_settings_of :: "'w host \<Rightarrow> service_library \<Rightarrow> string list \<Rightarrow> go_error + service_settings option" where
  "service_settings_of H L args = (case args of
       name # verb # rest \<Rightarrow>
         if verb \<noteq> ''pair'' \<and> verb \<noteq> ''serve'' then Inl (ErrText ''expected pair or serve'')
         else (case flag_parse H service_flags rest [] of
             Inl Help_asked \<Rightarrow> Inr None
           | Inl (Bad_flag e) \<Rightarrow> Inl (ErrText e)
           | Inr (vals, _) \<Rightarrow> (case storage_key L vals of
               Inl e \<Rightarrow> Inl e
             | Inr key \<Rightarrow> Inr (Some \<lparr>st_pair = (verb = ''pair''), st_values = vals, st_key = key\<rparr>)))
     | _ \<Rightarrow> Inl (ErrText ''usage: google-messages-multidevice-bridge <pair|serve> [flags]''))"

definition read_cookies :: "service_library \<Rightarrow> go_error + (string \<times> string) list" where
  "read_cookies L = (case sl_stdin L of
       Inl e \<Rightarrow> Inl e
     | Inr input \<Rightarrow> let data = take 65537 input in
         if length data > 65536 then Inl (ErrText ''cookie JSON exceeds 64 KiB'')
         else (case sl_cookies L data of
             None \<Rightarrow> Inl (ErrText ''pipe a Google cookie JSON object to stdin'')
           | Some cookies \<Rightarrow> if cookies = [] then Inl (ErrText ''pipe a Google cookie JSON object to stdin'')
               else Inr cookies))"

definition api_token :: "service_library \<Rightarrow> (string \<times> string) list \<Rightarrow> go_error + string" where
  "api_token L vals =
    (case secret_value L (env_prefix @ ''API_TOKEN'') (text_value vals ''api-token-pass-entry'' [])
        (text_value vals ''api-token-file'' []) of
       Inl e \<Rightarrow> Inl e
     | Inr token \<Rightarrow> if length token < 32
         then Inl (ErrText (env_prefix @ ''API_TOKEN must contain at least 32 characters'')) else Inr token)"

datatype launch = Pairs "(string \<times> string) list" | Serves string sender

text \<open>From the open database to the call of \<open>Run\<close> or of \<open>serve\<close>.\<close>

definition launch_service :: "service_library \<Rightarrow> upgrade \<Rightarrow> service_settings \<Rightarrow> launch bact" where
  "launch_service L upgrade S = then_act (set_network (network_flag S))
    (if st_pair S \<and> network_flag S \<noteq> ''google-messages'' then fail_act (ErrText ''use web pairing for WhatsApp'')
     else if st_pair S then bind_act (lift_act (read_cookies L)) (\<lambda>cookies. return_act (Pairs cookies))
     else bind_act (lift_act (api_token L (st_values S))) (\<lambda>token.
       then_act (prepare_bridge upgrade)
         (case sl_listen L (listen_address S) of Some e \<Rightarrow> fail_act e
          | None \<Rightarrow> bind_act (new_sender (sl_push L) (push_subject S)) (\<lambda>sd. return_act (Serves token sd)))))"

section \<open>serve\<close>

datatype stop =
    Cancel_service | Shut_down | Close_gate | Await_handlers | Await_connection | Await_watchers

datatype serve_place =
    Serving bool                                 \<comment> \<open>\<open>bridgeFinished\<close>\<close>
  | Stopping "stop list" bool "go_error option"
  | Stopped "go_error option"

datatype watcher = Push_watcher | Outage_watcher

record server =
  sv_bridge :: bridge
  sv_place :: serve_place
  sv_closing :: bool
  sv_handlers :: nat
  sv_accepting :: bool
  sv_server_error :: "(go_error option) option"  \<comment> \<open>what \<open>server.Serve\<close> returned, \<open>ErrServerClosed\<close> being \<open>None\<close>\<close>
  sv_connection :: "(go_error option) option"    \<comment> \<open>what \<open>ServeConnection\<close> returned\<close>
  sv_watchers :: "watcher list"

definition stop_steps :: "stop list" where
  "stop_steps = [Cancel_service, Shut_down, Close_gate, Await_handlers, Await_connection, Await_watchers]"

text \<open>
  The start: \<open>Prepare\<close> was called before and answered \<open>prepared\<close>; the push watcher runs when there is a
  sender.
\<close>

definition start_serving :: "go_error option \<Rightarrow> bool \<Rightarrow> sender option \<Rightarrow> bridge \<Rightarrow> server" where
  "start_serving prepared offline sender b =
    (let s = \<lparr>sv_bridge = b\<lparr>b_offline_only := offline\<rparr>, sv_place = Serving False, sv_closing = False, sv_handlers = 0,
         sv_accepting = True, sv_server_error = None, sv_connection = None,
         sv_watchers = (if sender \<noteq> None then [Push_watcher] else []) @ [Outage_watcher]\<rparr>
     in if prepared \<noteq> None
        then s\<lparr>sv_bridge := b, sv_place := Stopped prepared, sv_closing := True, sv_accepting := False,
             sv_connection := Some None, sv_watchers := []\<rparr>
        else s)"

definition service_api :: "api \<Rightarrow> push_library \<Rightarrow> string \<Rightarrow> sender option \<Rightarrow> api" where
  "service_api A L token sender = A\<lparr>ap_token := token, ap_push := map_option (push_adapter L) sender\<rparr>"

text \<open>One move of \<open>ServeConnection\<close>: of the pairing, of a \<open>Run\<close> or between two of them; libgm's records are bytes.\<close>

inductive connection_move :: "bridge \<Rightarrow> bridge \<Rightarrow> bool" where
  pairing_moves_on: "connection_move b (snd (pairing_turn text run_pairing b))"
| pairing_wakes: "connection_move b (snd (pairing_woken b))"
| supervised: "connection_move b (snd (snd (supervise_pass process run offline delay b)))"
| waits_for_pairing: "connection_move b (snd (auth_turn b))"
| run_moves: "run_step (N :: payload network) c a s s' \<Longrightarrow> a \<notin> {Caller, Elsewhere} \<Longrightarrow> connection_move (rs_bridge s) (rs_bridge s')"

text \<open>A tick of \<open>WatchConnection\<close>, with the notice it sends.\<close>

definition outage_turn :: "(time \<Rightarrow> string) \<Rightarrow> (time \<Rightarrow> string) \<Rightarrow> push_sender option \<Rightarrow> bridge \<Rightarrow> bridge" where
  "outage_turn kitchen rounded P b = (case watch_turn kitchen rounded b of (notice, b1) \<Rightarrow>
     (case (notice, P) of (Some (title, text), Some P) \<Rightarrow> snd (pn_send P title text ''connection'' [] b1)
      | _ \<Rightarrow> b1))"

inductive watcher_move :: "push_sender option \<Rightarrow> watcher \<Rightarrow> bridge \<Rightarrow> bridge \<Rightarrow> bool" where
  "watcher_move P Outage_watcher b (outage_turn kitchen rounded P b)"
| "watcher_move (Some P) Push_watcher b (snd (start_watch b))"
| "watcher_move (Some P) Push_watcher b (snd (linking_notice P show_time sent b))"
| "watcher_move (Some P) Push_watcher b (snd (watch_batch P state b))"

fun stop_ready :: "stop \<Rightarrow> bool \<Rightarrow> server \<Rightarrow> bool" where
  "stop_ready Await_handlers finished s = (sv_handlers s = 0)"
| "stop_ready Await_connection finished s = (finished \<or> sv_connection s \<noteq> None)"
| "stop_ready Await_watchers finished s = (sv_watchers s = [])"
| "stop_ready _ finished s = True"

fun stop_effect :: "stop \<Rightarrow> server \<Rightarrow> server" where
  "stop_effect Cancel_service s = s\<lparr>sv_bridge := (sv_bridge s)\<lparr>b_ended := True\<rparr>\<rparr>"
| "stop_effect Shut_down s = s\<lparr>sv_accepting := False\<rparr>"
| "stop_effect Close_gate s = s\<lparr>sv_closing := True\<rparr>"
| "stop_effect _ s = s"

definition stop_error :: "stop \<Rightarrow> bool \<Rightarrow> server \<Rightarrow> go_error option \<Rightarrow> go_error option" where
  "stop_error l finished s err =
    (if l = Await_connection \<and> \<not> finished \<and> err = None then the (sv_connection s) else err)"

definition storage_failed :: "go_error option \<Rightarrow> bool" where
  "storage_failed r \<longleftrightarrow> (\<exists>e. r = Some e \<and> errors_is e ErrStorage)"

definition at_time :: "time \<Rightarrow> server \<Rightarrow> server" where
  "at_time t s = s\<lparr>sv_bridge := (sv_bridge s)\<lparr>b_store := (b_store (sv_bridge s))\<lparr>clock := t\<rparr>\<rparr>\<rparr>"

inductive serve_step :: "push_library \<Rightarrow> string \<Rightarrow> sender option \<Rightarrow> server \<Rightarrow> server \<Rightarrow> bool" for L token sender where
  time_passes: "serve_step L token sender s (at_time t s)"
| interrupted: "sv_place s = Serving finished \<Longrightarrow>
    serve_step L token sender s (s\<lparr>sv_bridge := (sv_bridge s)\<lparr>b_ended := True\<rparr>\<rparr>)"   \<comment> \<open>a signal\<close>
| connection_lost: "sv_place s = Serving False \<Longrightarrow> sv_connection s = Some r \<Longrightarrow>
    serve_step L token sender s (s\<lparr>sv_place := if storage_failed r then Stopping stop_steps True r else Serving True\<rparr>)"
| server_failed: "sv_place s = Serving finished \<Longrightarrow> sv_server_error s = Some r \<Longrightarrow>
    serve_step L token sender s (s\<lparr>sv_place := Stopping stop_steps finished r\<rparr>)"
| signaled: "sv_place s = Serving finished \<Longrightarrow> b_ended (sv_bridge s) \<Longrightarrow>
    serve_step L token sender s (s\<lparr>sv_place := Stopping stop_steps finished None\<rparr>)"
| stops: "sv_place s = Stopping (l # ls) finished err \<Longrightarrow> stop_ready l finished s \<Longrightarrow>
    serve_step L token sender s ((stop_effect l s)\<lparr>sv_place := Stopping ls finished (stop_error l finished s err)\<rparr>)"
| stopped: "sv_place s = Stopping [] finished err \<Longrightarrow> serve_step L token sender s (s\<lparr>sv_place := Stopped err\<rparr>)"
| admitted: "\<not> sv_closing s \<Longrightarrow> serve_step L token sender s (s\<lparr>sv_handlers := sv_handlers s + 1\<rparr>)"
| turned_away: "sv_closing s \<Longrightarrow> serve_step L token sender s s"   \<comment> \<open>503, service stopping\<close>
| handled: "sv_handlers s > 0 \<Longrightarrow>
    serve_step L token sender s (s\<lparr>sv_bridge := snd (serve (service_api A L token sender) upgrade req (sv_bridge s))\<rparr>)"
| handler_done: "sv_handlers s > 0 \<Longrightarrow> serve_step L token sender s (s\<lparr>sv_handlers := sv_handlers s - 1\<rparr>)"
| server_returns: "sv_server_error s = None \<Longrightarrow> sv_accepting s \<Longrightarrow>
    serve_step L token sender s (s\<lparr>sv_server_error := Some r, sv_accepting := False\<rparr>)"
| connection_moves: "sv_connection s = None \<Longrightarrow> connection_move (sv_bridge s) b \<Longrightarrow>
    serve_step L token sender s (s\<lparr>sv_bridge := b\<rparr>)"
| connection_returns: "sv_connection s = None \<Longrightarrow> serve_step L token sender s (s\<lparr>sv_connection := Some r\<rparr>)"
| watcher_moves: "w \<in> set (sv_watchers s) \<Longrightarrow> watcher_move (map_option (push_adapter L) sender) w (sv_bridge s) b \<Longrightarrow>
    serve_step L token sender s (s\<lparr>sv_bridge := b\<rparr>)"
| watcher_ends: "w \<in> set (sv_watchers s) \<Longrightarrow>
    serve_step L token sender s (s\<lparr>sv_watchers := remove1 w (sv_watchers s)\<rparr>)"

inductive serve_comes :: "push_library \<Rightarrow> string \<Rightarrow> sender option \<Rightarrow> server \<Rightarrow> bool" for L token sender where
  begun: "serve_comes L token sender (start_serving prepared offline sender b)"
| went_on: "serve_comes L token sender s \<Longrightarrow> serve_step L token sender s s' \<Longrightarrow> serve_comes L token sender s'"

section \<open>What holds while it serves\<close>

definition stop_left :: "stop list \<Rightarrow> bool \<Rightarrow> go_error option \<Rightarrow> server \<Rightarrow> bool" where
  "stop_left ls finished err s \<longleftrightarrow> (Close_gate \<in> set ls \<or> sv_closing s) \<and> (Await_handlers \<in> set ls \<or> sv_handlers s = 0) \<and>
     (Await_connection \<in> set ls \<or> sv_connection s \<noteq> None \<and> (storage_failed (the (sv_connection s)) \<longrightarrow> err \<noteq> None)) \<and>
     (Await_watchers \<in> set ls \<or> sv_watchers s = []) \<and> (Shut_down \<in> set ls \<or> \<not> sv_accepting s) \<and>
     (finished \<longrightarrow> sv_connection s \<noteq> None \<and> (storage_failed (the (sv_connection s)) \<longrightarrow> err \<noteq> None))"

definition server_ok :: "server \<Rightarrow> bool" where
  "server_ok s \<longleftrightarrow> (case sv_place s of
       Serving finished \<Rightarrow> finished \<longrightarrow> sv_connection s \<noteq> None \<and> \<not> storage_failed (the (sv_connection s))
     | Stopping ls finished err \<Rightarrow> ls \<in> set (suffixes stop_steps) \<and> stop_left ls finished err s
     | Stopped err \<Rightarrow> stop_left [] True err s)"

lemma server_started: "server_ok (start_serving prepared offline sender b)"
  by (simp add: start_serving_def server_ok_def stop_left_def storage_failed_def Let_def)

lemma stop_order:
  "ls \<in> set (suffixes stop_steps) \<Longrightarrow> Await_handlers \<in> set ls \<or> Close_gate \<notin> set ls"
  by (auto simp: stop_steps_def)

lemma stop_begins: "finished \<longrightarrow> sv_connection s \<noteq> None \<and> (storage_failed (the (sv_connection s)) \<longrightarrow> err \<noteq> None) \<Longrightarrow>
    server_ok (s\<lparr>sv_place := Stopping stop_steps finished err\<rparr>)"
  by (simp add: server_ok_def stop_left_def stop_steps_def)

lemma stop_one:
  assumes "stop_left (l # ls) finished err s" and "stop_ready l finished s"
  shows "stop_left ls finished (stop_error l finished s err)
    ((stop_effect l s)\<lparr>sv_place := p\<rparr>)"
  using assms by (cases l) (auto simp: stop_left_def stop_error_def storage_failed_def)

lemma serve_step_ok:
  assumes "serve_step L token sender s s'" and "server_ok s"
  shows "server_ok s'"
  using assms
proof (induction rule: serve_step.induct)
  case (connection_lost s r)
  then show ?case using stop_begins [of True s r]
    by (auto simp: server_ok_def [of "s\<lparr>sv_place := Serving True\<rparr>"] storage_failed_def)
next
  case (server_failed s finished r)
  then show ?case by (intro stop_begins) (auto simp: server_ok_def)
next
  case (signaled s finished)
  then show ?case by (intro stop_begins) (auto simp: server_ok_def)
next
  case (stops s l ls finished err)
  then have "ls \<in> set (suffixes stop_steps)" by (auto simp: server_ok_def dest: suffix_ConsD)
  moreover have "stop_left ls finished (stop_error l finished s err)
      ((stop_effect l s)\<lparr>sv_place := Stopping ls finished (stop_error l finished s err)\<rparr>)"
    using stops by (intro stop_one) (simp_all add: server_ok_def)
  ultimately show ?case by (simp add: server_ok_def)
next
  case (stopped s finished err)
  then show ?case by (simp add: server_ok_def stop_left_def)
next
  case (admitted s)
  then show ?case using stop_order by (auto simp: server_ok_def stop_left_def split: serve_place.splits)
next
  case (watcher_ends w s)
  then show ?case by (auto simp: server_ok_def stop_left_def split: serve_place.splits)
qed (auto simp: server_ok_def stop_left_def at_time_def split: serve_place.splits)

lemma serve_comes_ok: "serve_comes L token sender s \<Longrightarrow> server_ok s"
  by (induction rule: serve_comes.induct) (auto intro: server_started serve_step_ok)

lemma secret_bounded: "copy_secret data held = Some v \<Longrightarrow> length held \<le> max_secret \<Longrightarrow> length v \<le> max_secret"
  by (induction data arbitrary: held) (auto simp: write_secret_def bind_eq_Some_conv split: if_splits)

section \<open>The end of the service\<close>

text \<open>
  The end of the service: what \<open>serve\<close> leaves behind when it returns and the database is closed, and
  that a storage failure of the connection always reaches the exit status.
\<close>

text \<open>The last steps of a service whose handlers and watchers are done and whose connection has failed.\<close>

lemma last_steps:
  assumes "serve_comes L token sender s" and "sv_place s = Stopping ls False err"
    and "sv_connection s = Some (Some ErrStorage)" and "sv_watchers s = []" and "sv_handlers s = 0"
    and "err \<in> {None, Some ErrStorage}" and "err = None \<longrightarrow> Await_connection \<in> set ls"
  shows "\<exists>t. serve_comes L token sender t \<and> sv_place t = Stopped (Some ErrStorage) \<and> sv_connection t = Some (Some ErrStorage)"
  using assms
proof (induction ls arbitrary: s err)
  case Nil
  then have "serve_comes L token sender (s\<lparr>sv_place := Stopped err\<rparr>)"
    by (intro serve_comes.went_on [OF Nil(1) serve_step.stopped])
  with Nil show ?case by (intro exI [of _ "s\<lparr>sv_place := Stopped err\<rparr>"]) auto
next
  case (Cons l ls)
  let ?t = "(stop_effect l s)\<lparr>sv_place := Stopping ls False (stop_error l False s err)\<rparr>"
  have "stop_ready l False s" using Cons by (cases l) simp_all
  then have "serve_comes L token sender ?t"
    by (intro serve_comes.went_on [OF Cons(2) serve_step.stops] Cons(3))
  moreover have "sv_connection ?t = Some (Some ErrStorage)" "sv_watchers ?t = []" "sv_handlers ?t = 0"
    using Cons(4-6) by (cases l; simp)+
  moreover have "stop_error l False s err \<in> {None, Some ErrStorage}"
    "stop_error l False s err = None \<longrightarrow> Await_connection \<in> set ls"
    using Cons(4,7,8) by (auto simp: stop_error_def)
  ultimately show ?case by (intro Cons(1) [of ?t "stop_error l False s err"]) simp_all
qed

text \<open>A service with a request in progress that is interrupted while its connection fails.\<close>

lemma interrupted_service:
  fixes L :: push_library and b :: bridge
  defines "s0 \<equiv> start_serving None False None b"
  shows "\<exists>s. serve_comes L token None s \<and> sv_place s = Stopped (Some ErrStorage) \<and> sv_connection s = Some (Some ErrStorage)"
proof -
  have s0: "sv_place s0 = Serving False" "sv_connection s0 = None" "sv_watchers s0 = [Outage_watcher]" "\<not> sv_closing s0"
    by (simp_all add: s0_def start_serving_def Let_def)
  have c0: "serve_comes L token None s0" unfolding s0_def by (rule serve_comes.begun)
  note step = serve_comes.went_on
  define s1 where "s1 = s0\<lparr>sv_handlers := sv_handlers s0 + 1\<rparr>"
  have c1: "serve_comes L token None s1" unfolding s1_def by (rule step [OF c0 serve_step.admitted [OF s0(4)]])
  define s2 where "s2 = s1\<lparr>sv_bridge := (sv_bridge s1)\<lparr>b_ended := True\<rparr>\<rparr>"
  have c2: "serve_comes L token None s2" unfolding s2_def
    by (rule step [OF c1 serve_step.interrupted]) (use s0 in \<open>simp add: s1_def\<close>)
  define s3 where "s3 = s2\<lparr>sv_place := Stopping stop_steps False None\<rparr>"
  have c3: "serve_comes L token None s3" unfolding s3_def
    by (rule step [OF c2 serve_step.signaled]) (use s0 in \<open>simp_all add: s1_def s2_def\<close>)
  define s4 where "s4 = s3\<lparr>sv_connection := Some (Some ErrStorage)\<rparr>"
  have c4: "serve_comes L token None s4" unfolding s4_def
    by (rule step [OF c3 serve_step.connection_returns]) (use s0 in \<open>simp add: s1_def s2_def s3_def\<close>)
  define s5 where "s5 = s4\<lparr>sv_handlers := sv_handlers s4 - 1\<rparr>"
  have c5: "serve_comes L token None s5" unfolding s5_def
    by (rule step [OF c4 serve_step.handler_done]) (simp add: s1_def s2_def s3_def s4_def)
  define s6 where "s6 = s5\<lparr>sv_watchers := remove1 Outage_watcher (sv_watchers s5)\<rparr>"
  have c6: "serve_comes L token None s6" unfolding s6_def
    by (rule step [OF c5 serve_step.watcher_ends]) (use s0 in \<open>simp add: s1_def s2_def s3_def s4_def s5_def\<close>)
  have s6: "sv_place s6 = Stopping stop_steps False None" "sv_connection s6 = Some (Some ErrStorage)"
    "sv_watchers s6 = []" "sv_handlers s6 = 0"
    using s0 by (simp_all add: s1_def s2_def s3_def s4_def s5_def s6_def s0_def start_serving_def Let_def)
  from last_steps [OF c6 s6(1,2)] s6 show ?thesis by (simp add: stop_steps_def)
qed

definition no_push :: push_library where
  "no_push = \<lparr>pl_generate = Inl ErrInvalid, pl_body = Opaque, pl_read = (\<lambda>_. None), pl_write = (\<lambda>_. Inl ErrInvalid),
     pl_hash = id, pl_post = (\<lambda>_ _ _ _. return_act (Inl ErrInvalid)), pl_order = id\<rparr>"

text \<open>C22: when \<open>serve\<close> has returned, whatever requests, failures and signals came
  in what order, no handler, no watcher and no connection is left, and nothing changes the database or
  the bridge any more: a request that reaches the gate late is turned away.\<close>

theorem nothing_outlives_the_service:
  assumes "serve_comes L token sender s" and "sv_place s = Stopped err"
  shows "sv_handlers s = 0 \<and> sv_watchers s = [] \<and> sv_connection s \<noteq> None \<and>
    (\<forall>s'. serve_step L token sender s s' \<longrightarrow> (\<exists>t. s' = at_time t s))"
proof -
  have "stop_left [] True err s"
    using serve_comes_ok [OF assms(1)] assms(2) by (simp add: server_ok_def)
  then have left: "sv_closing s" "sv_handlers s = 0" "sv_connection s \<noteq> None" "sv_watchers s = []" "\<not> sv_accepting s"
    by (simp_all add: stop_left_def)
  have now: "s = at_time (clock (b_store (sv_bridge s))) s" by (simp add: at_time_def)
  have "\<exists>t. s' = at_time t s" if "serve_step L token sender s s'" for s'
    using that left assms(2) now by (induction rule: serve_step.induct) auto
  with left show ?thesis by blast
qed

theorem nothing_outlives_the_service_witness:
  "\<exists>s. sv_place s = Stopped (Some ErrStorage) \<and> sv_handlers s = 0 \<and> sv_watchers s = [] \<and>
     (\<forall>s'. serve_step no_push ''token'' None s s' \<longrightarrow> (\<exists>t. s' = at_time t s))"
proof -
  obtain s where s: "serve_comes no_push ''token'' None s" "sv_place s = Stopped (Some ErrStorage)"
    using interrupted_service [where L = no_push and token = "''token''"] by blast
  from nothing_outlives_the_service [OF this] s(2) show ?thesis by blast
qed

text \<open>C23: when the connection ended with a storage failure, \<open>serve\<close> does not
  return success, whichever of the failure, a signal or an error of the HTTP server came first.\<close>

theorem storage_failures_fail_the_service:
  assumes "serve_comes L token sender s" and "sv_place s = Stopped err"
    and "sv_connection s = Some r" and "storage_failed r"
  shows "err \<noteq> None"
  using serve_comes_ok [OF assms(1)] assms(2-4) by (simp add: server_ok_def stop_left_def)

theorem storage_failures_fail_the_service_witness:
  "\<exists>s err. serve_comes no_push ''token'' None s \<and> sv_place s = Stopped err \<and> err \<noteq> None"
proof -
  obtain s where s: "serve_comes no_push ''token'' None s" "sv_place s = Stopped (Some ErrStorage)"
    "sv_connection s = Some (Some ErrStorage)"
    using interrupted_service [where L = no_push and token = "''token''"] by blast
  have "storage_failed (Some ErrStorage)" by (simp add: storage_failed_def)
  from storage_failures_fail_the_service [OF s this] s show ?thesis by blast
qed

end
