(* ===== verification/WebAssets.thy ===== *)
theory WebAssets
  imports Routes Complex_Main
begin

text \<open>
  The web client that the service serves (\<open>internal/api/web.go\<close>): how an embedded file is adapted to
  the network, when it is compressed, which of its two forms a browser gets, and the headers it is
  served with.  The bytes of the files, SHA-256 in hexadecimal, gzip, \<open>strings.EqualFold\<close> and
  \<open>strconv.ParseFloat\<close> are parameters.  The cache holds what \<open>prepare_asset\<close> computes once, and what
  \<open>http.ServeContent\<close> makes of the answer, for conditional requests and ranges, is left to it.
\<close>

record web_library =
  we_names :: "string list"                   \<comment> \<open>the files, as \<open>WalkDir\<close> lists them\<close>
  we_file :: "string \<Rightarrow> string option"
  we_sha :: "string \<Rightarrow> string"
  we_gzip :: "string \<Rightarrow> string option"
  we_lower :: "string \<Rightarrow> string"
  we_fold :: "string \<Rightarrow> string \<Rightarrow> bool"
  we_float :: "string \<Rightarrow> rat option"          \<comment> \<open>what is not between 0 and 1 may be any number that is not\<close>

section \<open>The version\<close>

text \<open>\<open>fingerprint\<close>; a file that cannot be read is left out.\<close>

definition asset_version :: "web_library \<Rightarrow> string" where
  "asset_version W = take 12 (we_sha W (concat (map (\<lambda>name. case we_file W name of
     None \<Rightarrow> [] | Some data \<Rightarrow> name @ data) (sort (we_names W)))))"

section \<open>Adapting a file\<close>

text \<open>\<open>bytes.ReplaceAll\<close> of a text that is not empty.\<close>

function replace_all :: "string \<Rightarrow> string \<Rightarrow> string \<Rightarrow> string" where
  "replace_all old new s = (if s = [] \<or> old = [] then s
     else if take (length old) s = old then new @ replace_all old new (drop (length old) s)
     else hd s # replace_all old new (tl s))"
  by pat_completeness auto
termination
  by (relation "measure (\<lambda>(old, new, s). length s)") auto

declare replace_all.simps [simp del]

definition whatsapp_words :: "(string \<times> string) list" where
  "whatsapp_words = [(''Google Messages Multi-Device Bridge'', ''WhatsApp Multi-Device Bridge''),
     (''Google Messages'', ''WhatsApp''), (''Google account'', ''WhatsApp account''),
     (''Google may return an existing matching conversation; WhatsApp creates'', ''WhatsApp creates''),
     (''<title>Messages</title>'', ''<title>WhatsApp</title>''),
     (CHR 0x22 # ''short_name'' @ CHR 0x22 # '': '' @ CHR 0x22 # ''Messages'' @ [CHR 0x22],
      CHR 0x22 # ''short_name'' @ CHR 0x22 # '': '' @ CHR 0x22 # ''WhatsApp'' @ [CHR 0x22]),
     (''Read shared SMS, MMS, and RCS history and send through your Android phone.'',
      ''Your linked WhatsApp device and encrypted message archive.'')]"

definition whatsapp_text :: "string \<Rightarrow> string" where
  "whatsapp_text data = fold (\<lambda>(old, new). replace_all old new) whatsapp_words data"

definition adapted :: "web_library \<Rightarrow> string \<Rightarrow> string \<Rightarrow> string \<Rightarrow> string" where
  "adapted W network f data =
    (let named = (if network = ''whatsapp'' \<and> (f = ''index.html'' \<or> f = ''manifest.webmanifest'')
           then whatsapp_text data else data)
     in if f = ''sw.js'' then replace_all ''__ASSET_VERSION__'' (asset_version W @ ''-'' @ network) named else named)"

record asset_body =
  ab_plain :: string
  ab_gzip :: string       \<comment> \<open>empty when it is not compressed\<close>
  ab_etag :: string

definition compressible :: "string \<Rightarrow> string \<Rightarrow> bool" where
  "compressible ctype data \<longleftrightarrow> length data \<ge> 1024 \<and>
     (take 5 ctype = ''text/'' \<or> contains_str ctype ''json'' \<or> contains_str ctype ''svg'')"

definition prepare_asset :: "web_library \<Rightarrow> string \<Rightarrow> string \<Rightarrow> string \<Rightarrow> asset_body option" where
  "prepare_asset W network f ctype = (case we_file W f of None \<Rightarrow> None
     | Some raw \<Rightarrow> let data = adapted W network f raw;
           body = \<lparr>ab_plain = data, ab_gzip = [], ab_etag = we_sha W data\<rparr>
         in if compressible ctype data then map_option (\<lambda>z. body\<lparr>ab_gzip := z\<rparr>) (we_gzip W data) else Some body)"

section \<open>Negotiation\<close>

definition after_byte :: "char \<Rightarrow> string \<Rightarrow> string option" where  \<comment> \<open>what follows in \<open>strings.Cut\<close>\<close>
  "after_byte ch s = (if ch \<in> set s then Some (tl (dropWhile (\<lambda>c. c \<noteq> ch) s)) else None)"

definition parameter_quality :: "web_library \<Rightarrow> rat \<Rightarrow> string \<Rightarrow> rat" where
  "parameter_quality W quality parameter = (case after_byte (CHR ''='') parameter of
       Some v \<Rightarrow> if we_fold W (trim_space (before_byte (CHR ''='') parameter)) ''q''
         then (case we_float W (trim_space v) of Some q \<Rightarrow> q | None \<Rightarrow> 0) else quality
     | None \<Rightarrow> quality)"

definition coding_name :: "web_library \<Rightarrow> string \<Rightarrow> string" where
  "coding_name W coding = we_lower W (trim_space (hd (split_on (CHR '';'') coding)))"

definition coding_accepted :: "web_library \<Rightarrow> string \<Rightarrow> bool" where
  "coding_accepted W coding = (let quality = foldl (parameter_quality W) 1 (tl (split_on (CHR '';'') coding))
     in quality > 0 \<and> quality \<le> 1)"

fun gzip_loop :: "web_library \<Rightarrow> string list \<Rightarrow> bool \<Rightarrow> bool" where
  "gzip_loop W [] wildcard = wildcard"
| "gzip_loop W (coding # rest) wildcard =
    (if coding_name W coding = ''gzip'' then coding_accepted W coding
     else gzip_loop W rest (if coding_name W coding = ''*'' then coding_accepted W coding else wildcard))"

definition accepts_gzip :: "web_library \<Rightarrow> string \<Rightarrow> bool" where
  "accepts_gzip W header = gzip_loop W (split_on (CHR '','') header) False"

section \<open>Serving\<close>

definition asset_types :: "(string \<times> string) list" where
  "asset_types = [(''/'', ''text/html; charset=utf-8''), (''/style.css'', ''text/css; charset=utf-8''),
     (''/app.js'', ''text/javascript; charset=utf-8''), (''/stream.mjs'', ''text/javascript; charset=utf-8''),
     (''/view.mjs'', ''text/javascript; charset=utf-8''), (''/emoji.mjs'', ''text/javascript; charset=utf-8''),
     (''/emoji-data.mjs'', ''text/javascript; charset=utf-8''),
     (''/manifest.webmanifest'', ''application/manifest+json; charset=utf-8''), (''/favicon.svg'', ''image/svg+xml''),
     (''/sw.js'', ''text/javascript; charset=utf-8''), (''/icons/icon-192.png'', ''image/png''),
     (''/icons/icon-512.png'', ''image/png''), (''/icons/favicon-32.png'', ''image/png''),
     (''/icons/icon-maskable-512.png'', ''image/png'')]"

definition content_policy :: string where
  "content_policy = ''default-src 'self'; script-src 'self'; style-src 'self'; connect-src 'self'; img-src 'self' blob:; ''
     @ ''object-src 'none'; base-uri 'none'; frame-ancestors 'none'; form-action 'self'' @ [CHR 0x27]"

datatype asset_reply =
    No_asset                                         \<comment> \<open>left to the routes\<close>
  | No_content
  | Unavailable_asset                                \<comment> \<open>500, client unavailable\<close>
  | Asset_content "(string \<times> string) list" string

definition coding_headers :: "bool \<Rightarrow> bool \<Rightarrow> (string \<times> string) list" where
  "coding_headers varies zipped = (if varies then [(''Vary'', ''Accept-Encoding'')] else [])
     @ (if zipped then [(''Content-Encoding'', ''gzip'')] else [])"

definition asset_content :: "web_library \<Rightarrow> string \<Rightarrow> string \<Rightarrow> asset_body \<Rightarrow> asset_reply" where
  "asset_content W ctype accept body =
    (let varies = ab_gzip body \<noteq> []; zipped = varies \<and> accepts_gzip W accept;
         data = (if zipped then ab_gzip body else ab_plain body);
         etag = ab_etag body @ (if zipped then ''-gzip'' else [])
     in Asset_content (coding_headers varies zipped @ [(''ETag'', CHR 0x22 # etag @ [CHR 0x22]), (''Content-Type'', ctype),
          (''Content-Security-Policy'', content_policy), (''Referrer-Policy'', ''no-referrer''),
          (''Cache-Control'', ''no-cache''), (''Content-Length'', decimal (length data))]) data)"

definition reply_asset :: "web_library \<Rightarrow> string \<Rightarrow> http_request \<Rightarrow> asset_reply" where
  "reply_asset W network r =
    (if \<not> reads_only r then No_asset
     else if hr_path r = ''/favicon.ico'' then No_content
     else (case (map_of assets (hr_path r), map_of asset_types (hr_path r)) of
       (Some f, Some ctype) \<Rightarrow>
         (case prepare_asset W (if network = ''whatsapp'' then ''whatsapp'' else ''google-messages'') f ctype of
            None \<Rightarrow> Unavailable_asset | Some body \<Rightarrow> asset_content W ctype (hr_header r ''Accept-Encoding'') body)
     | _ \<Rightarrow> No_asset))"

section \<open>What a browser gets\<close>

lemma assets_have_types: "map_of assets p = None \<longleftrightarrow> map_of asset_types p = None"
  by (simp add: assets_def asset_types_def)

text \<open>The gate sends a request here exactly when it is answered here.\<close>

lemma asset_gate: "serve_asset r \<longleftrightarrow> reply_asset W network r \<noteq> No_asset"
  using assets_have_types [of "hr_path r"]
  by (auto simp: serve_asset_def reply_asset_def asset_content_def Let_def split: option.splits)

text \<open>A named coding decides for itself, before or after a wildcard.\<close>

lemma gzip_loop_named:
  "List.find (\<lambda>c. coding_name W c = ''gzip'') codings = Some c \<Longrightarrow> gzip_loop W codings wildcard = coding_accepted W c"
  by (induction codings arbitrary: wildcard) (auto split: if_splits)

text \<open>Both forms of a file hold the same bytes, and a browser that cannot read gzip gets the plain one.\<close>

theorem assets_survive_compression:
  assumes unzip: "\<And>s z. we_gzip W s = Some z \<Longrightarrow> unzip z = s"
    and "reply_asset W network r = Asset_content headers data"
  shows "\<exists>raw f n. map_of assets (hr_path r) = Some f \<and> we_file W f = Some raw \<and>
    n \<in> {''whatsapp'', ''google-messages''} \<and>
    (if (''Content-Encoding'', ''gzip'') \<in> set headers then unzip data = adapted W n f raw \<and> accepts_gzip W (hr_header r ''Accept-Encoding'')
     else data = adapted W n f raw) \<and>
    (''Content-Length'', decimal (length data)) \<in> set headers"
proof -
  define n where "n = (if network = ''whatsapp'' then ''whatsapp'' else ''google-messages'')"
  from assms(2) obtain f ctype where f: "map_of assets (hr_path r) = Some f"
    and found: "(case prepare_asset W n f ctype of None \<Rightarrow> Unavailable_asset
      | Some body \<Rightarrow> asset_content W ctype (hr_header r ''Accept-Encoding'') body) = Asset_content headers data"
    unfolding reply_asset_def n_def [symmetric] by (auto split: if_splits option.splits)
  then obtain body where body: "prepare_asset W n f ctype = Some body"
    and content: "asset_content W ctype (hr_header r ''Accept-Encoding'') body = Asset_content headers data"
    by (auto split: option.splits)
  then obtain raw where raw: "we_file W f = Some raw" by (auto simp: prepare_asset_def split: option.splits)
  then have plain: "ab_plain body = adapted W n f raw"
    and zipped: "ab_gzip body \<noteq> [] \<Longrightarrow> unzip (ab_gzip body) = adapted W n f raw"
    using body unzip by (auto simp: prepare_asset_def Let_def split: if_splits)
  have "(''Content-Encoding'', ''gzip'') \<in> set headers \<longleftrightarrow> ab_gzip body \<noteq> [] \<and> accepts_gzip W (hr_header r ''Accept-Encoding'')"
    and "data = (if ab_gzip body \<noteq> [] \<and> accepts_gzip W (hr_header r ''Accept-Encoding'') then ab_gzip body else ab_plain body)"
    and "(''Content-Length'', decimal (length data)) \<in> set headers"
    using content by (auto simp: asset_content_def coding_headers_def Let_def split: if_splits)
  moreover have "n \<in> {''whatsapp'', ''google-messages''}" by (simp add: n_def)
  ultimately show ?thesis using f raw plain zipped by auto
qed

definition sample_web :: web_library where
  "sample_web = \<lparr>we_names = [''app.js''], we_file = [''app.js'' \<mapsto> replicate 1024 (CHR ''a'')], we_sha = take 64,
     we_gzip = (\<lambda>s. Some (CHR ''z'' # s)), we_lower = id, we_fold = (=), we_float = (\<lambda>_. None)\<rparr>"

definition sample_get :: http_request where
  "sample_get = \<lparr>hr_method = ''GET'', hr_path = ''/app.js'', hr_segments = [''app.js''], hr_host = [], hr_query = [],
     hr_header = (\<lambda>_. ''gzip''), hr_body = []\<rparr>"

theorem assets_survive_compression_witness:
  "\<exists>headers data. reply_asset sample_web ''whatsapp'' sample_get = Asset_content headers data \<and>
     (if (''Content-Encoding'', ''gzip'') \<in> set headers then tl data else data) = replicate 1024 (CHR ''a'')"
proof -
  have f: "map_of assets ''/app.js'' = Some ''app.js''"
    "map_of asset_types ''/app.js'' = Some ''text/javascript; charset=utf-8''"
    by (simp_all add: assets_def asset_types_def)
  have "prepare_asset sample_web ''whatsapp'' ''app.js'' ''text/javascript; charset=utf-8'' \<noteq> None"
    by (simp add: prepare_asset_def sample_web_def Let_def)
  then obtain headers data where reply: "reply_asset sample_web ''whatsapp'' sample_get = Asset_content headers data"
    by (auto simp: reply_asset_def sample_get_def reads_only_def f asset_content_def Let_def)
  have z: "we_gzip sample_web s = Some z \<Longrightarrow> tl z = s" for s z by (auto simp: sample_web_def)
  have raw: "we_file sample_web ''app.js'' = Some (replicate 1024 (CHR ''a''))" by (simp add: sample_web_def)
  from assets_survive_compression [of sample_web tl, OF z reply] reply show ?thesis
    by (auto simp: sample_get_def f raw adapted_def Let_def split: if_splits)
qed

end
