(* ===== verification/Spec2Isabelle.thy ===== *)
theory Spec2Isabelle
  imports ImportProperties RequestProperties LoopProperties PairingProperties AccessProperties
    WaProperties WaEventProperties GoogleProperties
    ClientProperties McpProperties
    ConnectionProperties ServiceCommand WebAssets
begin

text \<open>
  A model of the google-messages-multidevice-bridge service, and what makes it correct.

  The program.  A phone's messages (Google Messages or WhatsApp) are mirrored into an encrypted
  bbolt database, from which several clients read by cursor and into which they queue sends.  The Go
  code has three layers: \<open>internal/model\<close> (the wire records), \<open>internal/store\<close> (every transaction on
  the database) and \<open>internal/bridge\<close> (the loops, the pairing and the client operations), with
  \<open>internal/provider\<close> and \<open>internal/whatsapp\<close> talking to the networks, \<open>internal/api\<close> to clients and
  \<open>internal/push\<close> to push services.  \<open>internal/client\<close> and \<open>cmd/gmessages\<close> are the command line client
  of that interface and the MCP server through which an agent uses it.

  The library.
  \<^item> \<open>Prelude\<close>: errors, 64-bit integers, time, transactions \<open>('s, 'a) tx\<close> that commit or change
    nothing, stable sorting, and the locales \<open>tx_relation\<close> (a preorder every transaction respects) and
    \<open>strict_weak\<close> (the order of a sort).  \<open>Actions\<close>: the monad of the bridge, where an error keeps what
    was changed before it, and the locale \<open>act_relation\<close>.
  \<^item> \<open>GoText\<close>: Go strings as byte lists, UTF-8, \<open>strings\<close> functions.  \<open>Json\<close>: documents as trees and the
    locale \<open>json_codec\<close>.  \<open>Model\<close>: the records of \<open>model.go\<close> with their encodings.
  \<^item> \<open>Bolt\<close>: the contract of bbolt as the locale \<open>bucket_store\<close>, met by sorted association lists, the
    sequence keys and sealed cells.  \<open>StoreBase\<close>, \<open>EventLog\<close>: \<open>appendTx\<close>, \<open>observeTx\<close>, paging
    (\<open>store.go\<close>, \<open>records.go\<close>).  \<open>Sessions\<close>: phone epochs.  \<open>OutboxStore\<close>: the sends.
    \<open>ConversationStore\<close>: previews (\<open>conversation.go\<close>).  \<open>ApplyStore\<close>: \<open>Apply\<close>.  \<open>HistoryStore\<close>: uploads
    and imports (\<open>features.go\<close>).  \<open>PairingStore\<close>: pairing (\<open>pairing.go\<close>, \<open>pairing_recovery.go\<close>).
    \<open>RecordStore\<close>: the other buckets (\<open>records.go\<close>, \<open>network.go\<close>, \<open>push.go\<close>).  \<open>StoreOpen\<close>: \<open>Open\<close>.
    \<open>StoreSystem\<close>: the step relation \<open>store_step\<close> of one committed call, and the invariants of all
    reachable databases.  \<open>Runs\<close>: forward evaluation on concrete databases.
  \<^item> \<open>Hub\<close> (\<open>hub.go\<close>), \<open>BridgeState\<close> (\<open>bridge.go\<close>, the status parts of \<open>service.go\<close>), \<open>Validation\<close> and
    \<open>Requests\<close> (\<open>features.go\<close>, the client operations of \<open>service.go\<close>, the \<open>Provider\<close> interface),
    \<open>SendLoop\<close> (\<open>sendOne\<close>, \<open>sendLoop\<close>), \<open>SyncLoop\<close> (\<open>reconcile\<close>, \<open>syncLoop\<close>, \<open>history.go\<close>),
    \<open>BridgePairing\<close> (\<open>pairing.go\<close>, \<open>pairing_recovery.go\<close>, parts of \<open>whatsapp.go\<close>), \<open>Supervisor\<close>
    (\<open>supervisor.go\<close>, \<open>outage.go\<close>), \<open>ProviderEvents\<close> (\<open>google.go\<close>, \<open>whatsapp.go\<close>, \<open>libgmlog.go\<close>),
    \<open>Contacts\<close> (\<open>contacts.go\<close>), \<open>PushWatch\<close> (\<open>push.go\<close>).
  \<^item> \<open>Service\<close>: the whole bridge as the step relation \<open>service_step\<close>, whose steps are the turns of the
    loops, the handlers and the client calls, and the invariants of every interleaving of them.
  \<^item> The HTTP interface (\<open>internal/api\<close>).  \<open>Http\<close>: requests, queries, bodies and the checks of \<open>New\<close>.
    \<open>Search\<close>: matching, orders, pages.  \<open>ApiHandlers\<close>: one definition per handler of \<open>records.go\<close>,
    \<open>features.go\<close>, \<open>pairing.go\<close>, \<open>push.go\<close>.  \<open>ApiStream\<close>: event pages and the loop of a connection.
    \<open>Routes\<close>: the table of routes and the whole handler \<open>serve\<close>.
  \<^item> \<open>LogRelation\<close>: the interface \<open>log_relation\<close> of what follows the log, met by the growth of the log
    and, in \<open>MessageIndex\<close>, by the invariant of the conversation index.  \<open>ApiReads\<close>: the reads of the
    handlers as maps over ids.  \<open>Chat\<close>: a database with a conversation, for the instances.
  \<^item> The WhatsApp connection (\<open>internal/whatsapp\<close>).  \<open>WaStore\<close>, \<open>WaState\<close>: the credential store
    (\<open>store.go\<close>, \<open>store_state.go\<close>), \<open>WaDevice\<close> its device record.  \<open>WaContent\<close>, \<open>WaProvider\<close>: what a
    message shows, and the operations of \<open>provider.go\<close>.  \<open>WaEvents\<close>: \<open>Message\<close> and \<open>Receipt\<close>.  \<open>WaInbox\<close>:
    pending events (\<open>inbox.go\<close>).  \<open>WaHistory\<close>: \<open>history.go\<close>, \<open>Drain\<close>, \<open>MessagePage\<close>, and the record
    \<open>whatsapp_provider\<close> with which the connection is a provider of the bridge.  \<open>WaSync\<close>: \<open>appstate.go\<close>.
    \<open>WaRows\<close>, \<open>WaSystem\<close>: the rows of a device, the relation \<open>touches\<close> every operation keeps and the
    step relation \<open>cred_step\<close>.  \<open>WaKeys\<close>: what the steps keep of one-time keys, identities and secrets.
    \<open>WaRuns\<close>: forward evaluation with a concrete library.
  \<^item> The Google connection (\<open>internal/provider/google.go\<close>).  \<open>GoogleContent\<close>: snapshots of messages,
    conversations and typing, the fields kept for a send, page cursors and the target of a send.
    \<open>GoogleProvider\<close>: every operation of the provider, and the record \<open>google_provider\<close> with which it is
    a provider of the bridge.  \<open>ProviderContract\<close>: what both networks promise the bridge, as a locale
    with an interpretation for each.
  \<^item> \<open>PushSender\<close> (\<open>internal/push/push.go\<close>, \<open>pushAdapter\<close>): keys, delivery, and the turns of the watcher
    around it.
  \<^item> \<open>ConnectionRun\<close>: the life of a connection, the two \<open>Run\<close> functions, as the step relation \<open>run_step\<close> of
    \<open>Run\<close> itself, its workers, the events and the calls of clients.  \<open>ServiceCommand\<close>
    (\<open>cmd/google-messages-multidevice-bridge\<close>): secrets, the checks before serving, and \<open>serve\<close> as the
    step relation \<open>serve_step\<close>.  \<open>WebAssets\<close> (\<open>web.go\<close>): the served files.
  \<^item> The clients.  \<open>Client\<close> (\<open>internal/client/client.go\<close>): requests with escaped paths, answers, waiting
    for a send, the layers of settings.  \<open>Commands\<close> (\<open>ops.go\<close>): the operations that the command line and
    the MCP server share.  \<open>CommandLine\<close> (\<open>main.go\<close>): flags and subcommands.  \<open>Mcp\<close> (\<open>mcp.go\<close>): the tools,
    their schemas, and the server as the step relation \<open>mcp_runs\<close> of reading, answering and finishing.

  What is proved.
  \<^item> \<open>SendProperties\<close>: the state machine of a send over any history of the database, idempotent
    queueing, at-most-once claiming, oldest first, recovery, confirmation.
  \<^item> \<open>LogProperties\<close>: the latest records are the replay of the log, a page is what follows its cursor, a
    snapshot and the events after it agree with a later snapshot, history never overwrites live data.
  \<^item> \<open>RecordProperties\<close>, \<open>ImportProperties\<close>: previews, ownership after a new phone, checkpoints of an
    import, fencing of superseded workers, what is bound once.
  \<^item> \<open>ServiceProperties\<close>: the service refines the store's step relation; its status never claims more
    than the connection gives; the send loop asks nothing of the network that is not durably claimed
    (it is equal to the loop over a provider that checks this); what is recorded of an answer.
  \<^item> \<open>RequestProperties\<close>: limits and normal form of requests, what is queued, recipients, live events,
    announcements, round trips of all records.
  \<^item> \<open>LoopProperties\<close>: imports end, failed refreshes back off, reconnects are spaced, outage notices
    alternate.  \<open>PairingProperties\<close>: tickets, fencing of attempts, the end of every pairing, the budget
    of automatic linking.
  \<^item> \<open>ApiProperties\<close>: the pages of a conversation list each message once; what a search since a time
    finds, and what it misses.  \<open>AccessProperties\<close>: a connection is sent the log without a gap, whatever
    the service does meanwhile; who gets past the checks; and that every route is reached by its
    requests alone.
  \<^item> \<open>WaProperties\<close>: one-time keys are handed out once, the tables of identities mirror each other, a
    migration moves every session, a device's rows are its own.  \<open>WaEventProperties\<close>: pending events
    survive the inbox, originals never overwrite, one reaction each, receipts only advance, and phone
    numbers never become identities.
  \<^item> \<open>GoogleProperties\<close>: the service over either network refines the store, a refused send was not
    carried out, a stored conversation can be sent to, page cursors, limits on media.
    \<open>PushSender\<close>: only subscriptions that are gone are dropped.
  \<^item> \<open>ConnectionProperties\<close>: nothing of a connection is left or has an effect when its \<open>Run\<close> has returned, a
    \<open>Run\<close> that leaves gets to its return, and what a storage failure does while offline.
    \<open>ServiceCommand\<close>: the same of the whole service, and that storage failures reach its exit status.
  \<^item> \<open>ClientProperties\<close>: the path a record's id becomes, which token goes with which address, the days of
    a listing, and the end of every wait.  \<open>McpProperties\<close>: an agent that may not send only reads, every
    request is answered once, and which cancellations are lost.

  How the code is read.  A bbolt transaction is atomic and reads the clock once.  A section under a
  mutex is one step.  A provider is a record of actions, any of which may fail or leave the bridge in
  any state, since other goroutines run while it is called; hypotheses on it (\<open>provider_moves\<close>,
  \<open>provider_keeps\<close>, \<open>provider_steady\<close>) say no more than that those goroutines are themselves steps of
  the service whose status changes are dated.  A wake channel is a flag, \<open>fatal\<close> an option, the end of
  a context a flag.  A loop is given by one turn, so no fuel is needed; the recursions are
  structural.  AES-GCM is symbolic: a cell opens exactly under the key and associated data it was
  sealed with.  JSON documents are trees whose times are already parsed.  A nil slice is the empty
  list, a Go map an association list or a function.  A missing bucket is a panic, a key that is empty
  or too long and an exhausted sequence are errors of bbolt.  Values returned beside an error are
  ignored by every caller and left out, as is logging.  SHA-256, random tickets, the media type
  parser, \<open>strings.ToLower\<close>, the printing of times, the normalisation of the prototype's records and
  the conversion of protobuf messages are parameters; so are, for the HTTP interface, the decoding of
  a body into a tree, dates, base64 and QR images (\<open>go_library\<close>, \<open>api\<close>), and for WhatsApp the
  addresses, keys and JSON forms of whatsmeow (\<open>wa_library\<close>), protobuf's two directions
  (\<open>inbox_codecs\<close>) and the client (\<open>wa_client\<close>, actions that may answer anything), for Google Messages
  the protobuf records and the client of libgm (\<open>google_library\<close>, \<open>google_client\<close>), for push messages
  the keys and the encryption of webpush (\<open>push_library\<close>), and for the clients the files, the
  environment, the clock and the answers of the service (\<open>host\<close>, \<open>machine\<close>), for a connection what libgm
  and whatsmeow do between connecting and disconnecting (\<open>google_link\<close>, \<open>wa_link\<close>), for the service command
  its files and \<open>pass\<close> (\<open>service_library\<close>), and for the web client gzip and the bytes (\<open>web_library\<close>).  A wait asks at most as
  often as its deadline has intervals (\<open>await_polls\<close>), which is the fuel of its recursion.  The laws assumed of
  them are \<open>library_ok\<close>, \<open>codecs_ok\<close> and \<open>answers_lids\<close>, each met by an instance.  The reads of one request see
  one state of the database.  A reply is its status and the value that is written as JSON.

  Not modelled.  Of WhatsApp the random keys and the namespace of a new device (parameters), diagnostics
  and the timestamp of a reaction; logging and its labels; the configuration of the client libraries;
  response headers other than those of served files; the web client, the desktop shell and the
  packaging; vendored and generated code.  The step relation of the store
  takes for granted that the 64-bit phone epoch is not exhausted.
\<close>

end
